(* ===== verification/Prelude.thy ===== *)
theory Prelude
  imports Main "HOL-Library.Word" "HOL-Library.AList" "HOL-Library.List_Lexorder"
begin

text \<open>
  Shared vocabulary of the development: Rust's unsigned integer arithmetic at an explicit
  width, results with errors, bytes and their big-endian encoding, association lists for hash
  maps, and the generic lemmas on them that the component theories use.

  An unsigned machine integer of width \<open>w\<close> is a natural number; the operations that can leave
  the range \<open>[0, 2 ^ w)\<close> are the ones below, which say what Rust does there (\<open>None\<close> for the
  \<open>checked_\<close> family, the nearest bound for the \<open>saturating_\<close> family).
\<close>

section \<open>Collections of facts\<close>

named_theorems int_defs \<open>definitions of the fixed-width operations\<close>
named_theorems cfg_defs \<open>definitions of the configuration constants\<close>
named_theorems res_simps \<open>rewriting of results\<close>

section \<open>Unsigned integers at a width\<close>

definition fits :: "nat \<Rightarrow> nat \<Rightarrow> bool" where
  [int_defs]: "fits w n \<longleftrightarrow> n < 2 ^ w"

definition uint_max :: "nat \<Rightarrow> nat" where
  [int_defs]: "uint_max w = 2 ^ w - 1"

definition checked_add :: "nat \<Rightarrow> nat \<Rightarrow> nat \<Rightarrow> nat option" where
  [int_defs]: "checked_add w a b = (if a + b < 2 ^ w then Some (a + b) else None)"

definition checked_sub :: "nat \<Rightarrow> nat \<Rightarrow> nat option" where
  [int_defs]: "checked_sub a b = (if b \<le> a then Some (a - b) else None)"

definition checked_mul :: "nat \<Rightarrow> nat \<Rightarrow> nat \<Rightarrow> nat option" where
  [int_defs]: "checked_mul w a b = (if a * b < 2 ^ w then Some (a * b) else None)"

definition checked_div :: "nat \<Rightarrow> nat \<Rightarrow> nat option" where
  [int_defs]: "checked_div a b = (if b = 0 then None else Some (a div b))"

definition saturating_add :: "nat \<Rightarrow> nat \<Rightarrow> nat \<Rightarrow> nat" where
  [int_defs]: "saturating_add w a b = (if a + b < 2 ^ w then a + b else 2 ^ w - 1)"

definition saturating_sub :: "nat \<Rightarrow> nat \<Rightarrow> nat" where
  [int_defs]: "saturating_sub a b = (if b \<le> a then a - b else 0)"

definition saturating_mul :: "nat \<Rightarrow> nat \<Rightarrow> nat \<Rightarrow> nat" where
  [int_defs]: "saturating_mul w a b = (if a * b < 2 ^ w then a * b else 2 ^ w - 1)"

definition div_ceil :: "nat \<Rightarrow> nat \<Rightarrow> nat" where
  [int_defs]: "div_ceil a b = (if a mod b = 0 then a div b else a div b + 1)"

text \<open>\<open>try_from\<close> into a type of width \<open>w\<close>.\<close>

definition try_from :: "nat \<Rightarrow> nat \<Rightarrow> nat option" where
  [int_defs]: "try_from w n = (if n < 2 ^ w then Some n else None)"

lemma checked_add_Some_iff: "checked_add w a b = Some c \<longleftrightarrow> c = a + b \<and> c < 2 ^ w"
  by (auto simp: checked_add_def)

lemma checked_sub_Some_iff: "checked_sub a b = Some c \<longleftrightarrow> b \<le> a \<and> c = a - b"
  by (auto simp: checked_sub_def)

lemma checked_mul_Some_iff: "checked_mul w a b = Some c \<longleftrightarrow> c = a * b \<and> c < 2 ^ w"
  by (auto simp: checked_mul_def)

lemma saturating_sub_eq [simp]: "saturating_sub a b = a - b"
  by (simp add: saturating_sub_def)

lemma saturating_add_le: "saturating_add w a b \<le> a + b"
  by (auto simp: saturating_add_def not_less)

lemma saturating_add_fits: "saturating_add w a b < 2 ^ w"
  by (simp add: saturating_add_def)

section \<open>Results\<close>

text \<open>
  A Rust \<open>Result<T, E>\<close> is a value of the sum type \<open>'e + 'a\<close>: \<open>Inl e\<close> is \<open>Err(e)\<close> and
  \<open>Inr x\<close> is \<open>Ok(x)\<close>. The question mark operator is \<open>bindR\<close>.
\<close>

fun bindR :: "'e + 'a \<Rightarrow> ('a \<Rightarrow> 'e + 'b) \<Rightarrow> 'e + 'b" where
  "bindR (Inl e) f = Inl e"
| "bindR (Inr x) f = f x"

lemma bindR_eq_Inr [res_simps]: "bindR m f = Inr y \<longleftrightarrow> (\<exists>x. m = Inr x \<and> f x = Inr y)"
  by (cases m) auto

lemma bindR_cong [fundef_cong]:
  "m = m' \<Longrightarrow> (\<And>x. m' = Inr x \<Longrightarrow> f x = f' x) \<Longrightarrow> bindR m f = bindR m' f'"
  by (cases m') auto

text \<open>\<open>ok_or\<close>: an option as a result, with the error for \<open>None\<close>.\<close>

definition ok_or :: "'e \<Rightarrow> 'a option \<Rightarrow> 'e + 'a" where
  "ok_or e m = (case m of None \<Rightarrow> Inl e | Some x \<Rightarrow> Inr x)"

lemma ok_or_simps [simp]: "ok_or e None = Inl e" "ok_or e (Some x) = Inr x"
  by (simp_all add: ok_or_def)

lemma ok_or_eq_Inr [res_simps]: "ok_or e m = Inr x \<longleftrightarrow> m = Some x"
  by (cases m) auto

definition map_err :: "('e \<Rightarrow> 'f) \<Rightarrow> 'e + 'a \<Rightarrow> 'f + 'a" where
  "map_err f m = (case m of Inl e \<Rightarrow> Inl (f e) | Inr x \<Rightarrow> Inr x)"

lemma map_err_simps [simp]: "map_err f (Inl e) = Inl (f e)" "map_err f (Inr x) = Inr x"
  by (simp_all add: map_err_def)

lemma map_err_eq_Inr [res_simps]: "map_err f m = Inr x \<longleftrightarrow> m = Inr x"
  by (cases m) auto

text \<open>A guard: \<open>if c { return Err(e) }\<close>.\<close>

definition reject_if :: "bool \<Rightarrow> 'e \<Rightarrow> 'e + unit" where
  "reject_if c e = (if c then Inl e else Inr ())"

lemma reject_if_eq_Inr [res_simps]: "reject_if c e = Inr u \<longleftrightarrow> \<not> c"
  by (simp add: reject_if_def)

lemma reject_if_simps [simp]: "reject_if True e = Inl e" "reject_if False e = Inr ()"
  by (simp_all add: reject_if_def)

text \<open>A loop over a list that stops at the first error.\<close>

fun foldR :: "('s \<Rightarrow> 'a \<Rightarrow> 'e + 's) \<Rightarrow> 's \<Rightarrow> 'a list \<Rightarrow> 'e + 's" where
  "foldR f s [] = Inr s"
| "foldR f s (x # xs) = bindR (f s x) (\<lambda>s'. foldR f s' xs)"

lemma foldR_append: "foldR f s (xs @ ys) = bindR (foldR f s xs) (\<lambda>s'. foldR f s' ys)"
proof (induction xs arbitrary: s)
  case (Cons x xs)
  then show ?case by (cases "f s x") auto
qed simp

fun traverseR :: "('a \<Rightarrow> 'e + 'b) \<Rightarrow> 'a list \<Rightarrow> 'e + 'b list" where
  "traverseR f [] = Inr []"
| "traverseR f (x # xs) = bindR (f x) (\<lambda>y. bindR (traverseR f xs) (\<lambda>ys. Inr (y # ys)))"

lemma traverseR_length: "traverseR f xs = Inr ys \<Longrightarrow> length ys = length xs"
  by (induction xs arbitrary: ys) (auto simp: res_simps)

text \<open>An invariant kept by every successful step holds after a successful loop.\<close>

lemma foldR_invariant:
  assumes "foldR f s xs = Inr s'" and "P s"
    and "\<And>s x s'. x \<in> set xs \<Longrightarrow> P s \<Longrightarrow> f s x = Inr s' \<Longrightarrow> P s'"
  shows "P s'"
  using assms
proof (induction xs arbitrary: s)
  case (Cons x xs)
  from Cons.prems(1) obtain s1 where s1: "f s x = Inr s1" and rest: "foldR f s1 xs = Inr s'"
    by (auto simp: res_simps)
  from Cons.prems(2,3) s1 have "P s1" by auto
  from Cons.IH [OF rest this] Cons.prems(3) show ?case by auto
qed simp

lemma foldR_elem: "foldR f s xs = Inr s' \<Longrightarrow> x \<in> set xs \<Longrightarrow> \<exists>s1 s2. f s1 x = Inr s2"
  by (induction xs arbitrary: s) (auto simp: res_simps)

section \<open>Bytes and big-endian encodings\<close>

type_synonym byte = "8 word"
type_synonym hash = "byte list"

definition zero_hash :: hash where
  "zero_hash = replicate 64 0"

text \<open>\<open>to_be_bytes\<close> of an integer of \<open>k\<close> bytes, and \<open>from_be_bytes\<close>.\<close>

fun to_be_bytes :: "nat \<Rightarrow> nat \<Rightarrow> byte list" where
  "to_be_bytes 0 n = []"
| "to_be_bytes (Suc k) n = to_be_bytes k (n div 256) @ [word_of_nat (n mod 256)]"

definition from_be_bytes :: "byte list \<Rightarrow> nat" where
  "from_be_bytes bs = foldl (\<lambda>acc b. acc * 256 + unat b) 0 bs"

lemma length_to_be_bytes [simp]: "length (to_be_bytes k n) = k"
  by (induction k arbitrary: n) auto

lemma from_be_bytes_snoc [simp]: "from_be_bytes (bs @ [b]) = from_be_bytes bs * 256 + unat b"
  by (simp add: from_be_bytes_def)

lemma from_be_bytes_Nil [simp]: "from_be_bytes [] = 0"
  by (simp add: from_be_bytes_def)

lemma unat_byte_of_mod [simp]: "unat (word_of_nat (n mod 256) :: byte) = n mod 256"
  by (simp add: unat_of_nat)

lemma from_to_be_bytes: "n < 256 ^ k \<Longrightarrow> from_be_bytes (to_be_bytes k n) = n"
proof (induction k arbitrary: n)
  case (Suc k)
  then have "n div 256 < 256 ^ k"
    by (simp add: less_mult_imp_div_less mult.commute)
  then show ?case by (simp add: Suc.IH)
qed simp

lemma unat_byte_less [simp]: "unat (b :: byte) < 256"
  using unsigned_less [of b] by simp

lemma from_be_bytes_less: "from_be_bytes bs < 256 ^ length bs"
proof (induction bs rule: rev_induct)
  case (snoc b bs)
  then show ?case using unat_byte_less [of b] by (simp del: unat_byte_less)
qed simp

lemma to_from_be_bytes: "length bs = k \<Longrightarrow> to_be_bytes k (from_be_bytes bs) = bs"
proof (induction bs arbitrary: k rule: rev_induct)
  case (snoc b bs)
  have b: "unat b < 256" by (rule unat_byte_less)
  from snoc.prems obtain j where k: "k = Suc j" and j: "length bs = j" by simp
  have "(from_be_bytes bs * 256 + unat b) div 256 = from_be_bytes bs"
    using b by simp
  moreover have "(from_be_bytes bs * 256 + unat b) mod 256 = unat b"
    using b by simp
  ultimately show ?case using k snoc.IH [OF j] by simp
qed simp

section \<open>Hash maps as association lists\<close>

text \<open>
  A \<open>HashMap\<close> or \<open>BTreeMap\<close> is an association list whose keys are distinct
  (\<open>wf_map\<close>); \<open>get\<close> is \<open>map_of\<close> and \<open>insert\<close> is \<open>AList.update\<close>. Nothing the code computes
  from a hash map depends on its iteration order.
\<close>

type_synonym ('k, 'v) hmap = "('k \<times> 'v) list"

abbreviation hget :: "('k, 'v) hmap \<Rightarrow> 'k \<Rightarrow> 'v option" where
  "hget m k \<equiv> map_of m k"

abbreviation hinsert :: "'k \<Rightarrow> 'v \<Rightarrow> ('k, 'v) hmap \<Rightarrow> ('k, 'v) hmap" where
  "hinsert k v m \<equiv> AList.update k v m"

abbreviation hremove :: "'k \<Rightarrow> ('k, 'v) hmap \<Rightarrow> ('k, 'v) hmap" where
  "hremove k m \<equiv> AList.delete k m"

definition wf_map :: "('k, 'v) hmap \<Rightarrow> bool" where
  "wf_map m \<longleftrightarrow> distinct (map fst m)"

lemma wf_map_Nil [simp]: "wf_map []"
  by (simp add: wf_map_def)

lemma wf_map_hinsert [simp]: "wf_map m \<Longrightarrow> wf_map (hinsert k v m)"
  by (simp add: wf_map_def distinct_update)

lemma wf_map_hremove [simp]: "wf_map m \<Longrightarrow> wf_map (hremove k m)"
  by (simp add: wf_map_def distinct_delete)

lemma hget_hinsert [simp]: "hget (hinsert k v m) k' = (if k' = k then Some v else hget m k')"
  by (simp add: update_conv')

definition hvalues_sum :: "('k, nat) hmap \<Rightarrow> nat" where
  "hvalues_sum m = sum_list (map snd m)"

definition hget0 :: "('k, nat) hmap \<Rightarrow> 'k \<Rightarrow> nat" where
  "hget0 m k = (case hget m k of None \<Rightarrow> 0 | Some v \<Rightarrow> v)"

lemma hget_hremove: "hget (hremove k m) k' = (if k' = k then None else hget m k')"
  by (simp add: AList.delete_conv')

lemma length_hinsert: "length (hinsert k v m) = (if hget m k = None then Suc (length m) else length m)"
  by (induction m) auto

lemma length_hremove_le: "length (hremove k m) \<le> length m"
  by (simp add: AList.delete_eq)

lemma length_hremove_less: "hget m k \<noteq> None \<Longrightarrow> length (hremove k m) < length m"
proof -
  assume "hget m k \<noteq> None"
  then obtain v where "(k, v) \<in> set m" by (auto dest: map_of_SomeD)
  then show ?thesis by (force simp: AList.delete_eq intro: length_filter_less)
qed

lemma hget0_hinsert [simp]: "hget0 (hinsert k v m) k' = (if k' = k then v else hget0 m k')"
  by (simp add: hget0_def)

lemma hget0_Nil [simp]: "hget0 [] k = 0"
  by (simp add: hget0_def)

lemma hvalues_sum_hinsert:
  "wf_map m \<Longrightarrow> hvalues_sum (hinsert k v m) + hget0 m k = hvalues_sum m + v"
proof (induction m)
  case Nil
  then show ?case by (simp add: hvalues_sum_def hget0_def)
next
  case (Cons p m)
  obtain k1 v1 where p: "p = (k1, v1)" by (cases p)
  from Cons.prems have wf: "wf_map m" by (simp add: wf_map_def)
  show ?case
  proof (cases "k1 = k")
    case True
    then show ?thesis by (simp add: p hvalues_sum_def hget0_def)
  next
    case False
    with Cons.IH [OF wf] show ?thesis
      by (simp add: p hvalues_sum_def hget0_def)
  qed
qed

lemma hget0_le_sum: "hget0 m k \<le> hvalues_sum m"
proof (induction m)
  case (Cons p m)
  then show ?case by (cases p) (auto simp: hget0_def hvalues_sum_def)
qed (simp add: hvalues_sum_def)

lemma hget_imp_hget0: "hget m k = Some v \<Longrightarrow> hget0 m k = v"
  by (simp add: hget0_def)

section \<open>Sums over steps of equal length\<close>

text \<open>
  The sum of a step function below \<open>h\<close>: the full steps, and the part of the step \<open>h\<close> lies in.
\<close>

lemma sum_steps:
  fixes rate :: "nat \<Rightarrow> nat"
  assumes "0 < I"
  shows "(\<Sum>i<h. rate (i div I)) = (\<Sum>j<h div I. rate j) * I + (h mod I) * rate (h div I)"
proof (induction h)
  case (Suc h)
  show ?case
  proof (cases "Suc h mod I = 0")
    case True
    then have "Suc h div I = Suc (h div I)" and "Suc (h mod I) = I"
      using assms by (auto simp: div_Suc mod_Suc split: if_splits)
    moreover from this have "rate (h div I) + (h mod I) * rate (h div I) = I * rate (h div I)"
      by (metis mult_Suc)
    ultimately show ?thesis using Suc True by (simp add: algebra_simps)
  next
    case False
    then have "Suc h div I = h div I" and "Suc h mod I = Suc (h mod I)"
      using assms by (auto simp: div_Suc mod_Suc split: if_splits)
    then show ?thesis using Suc by simp
  qed
qed simp

section \<open>List lemmas\<close>

lemma takeWhile_neq_prefix:
  "x \<in> set xs \<Longrightarrow> \<exists>ys. xs = takeWhile (\<lambda>y. y \<noteq> x) xs @ x # ys"
proof (induction xs)
  case (Cons a xs)
  then show ?case by (cases "a = x") auto
qed simp

lemma hd_takeWhile_neq: "x \<in> set xs \<Longrightarrow> hd xs \<noteq> x \<Longrightarrow> hd (takeWhile (\<lambda>y. y \<noteq> x) xs) = hd xs"
  by (cases xs) auto

section \<open>Position of an element\<close>

fun position :: "('a \<Rightarrow> bool) \<Rightarrow> 'a list \<Rightarrow> nat option" where
  "position P [] = None"
| "position P (x # xs) = (if P x then Some 0 else map_option Suc (position P xs))"

lemma position_Some: "position P xs = Some i \<longleftrightarrow> i < length xs \<and> P (xs ! i) \<and> (\<forall>j<i. \<not> P (xs ! j))"
  by (induction xs arbitrary: i) (auto simp: nth_Cons less_Suc_eq_0_disj All_less_Suc2 split: nat.splits)

lemma position_None: "position P xs = None \<longleftrightarrow> (\<forall>x\<in>set xs. \<not> P x)"
  by (induction xs) auto

end
