(* ===== verification/Config.thy ===== *)
theory Config
  imports Prelude
begin

text \<open>
  The constants of \<open>GlobalConfiguration\<close> (\<open>src/utility/alpha_001_global_configuration.rs\<close>)
  that the modelled components use, and \<open>UNIT_DIVISOR\<close> of \<open>src/utility/helper.rs\<close>. The derived
  constants are computed here as the source computes them.
\<close>

section \<open>Units and supply\<close>

definition UNIT_DIVISOR :: nat where [cfg_defs]: "UNIT_DIVISOR = 100000000"

definition MAX_REWARD_SUPPLY :: nat where [cfg_defs]: "MAX_REWARD_SUPPLY = 200000000 * UNIT_DIVISOR"

definition MAX_SUPPLY :: nat where [cfg_defs]: "MAX_SUPPLY = MAX_REWARD_SUPPLY"

definition REWARDLESS_PREFIX_BLOCKS :: nat where [cfg_defs]: "REWARDLESS_PREFIX_BLOCKS = 1"

definition MAX_TX_AMOUNT :: nat where [cfg_defs]: "MAX_TX_AMOUNT = 10000000000000000"

section \<open>Block and batch limits\<close>

definition MAX_BLOCK_SIZE :: nat where [cfg_defs]: "MAX_BLOCK_SIZE = 2 * 1024 * 1024"

definition MIN_BLOCK_SIZE :: nat where [cfg_defs]: "MIN_BLOCK_SIZE = 64"

definition MIN_TIMESTAMP_SECS :: nat where [cfg_defs]: "MIN_TIMESTAMP_SECS = 946684800"

definition MAX_METADATA_DECOMPRESSED_BYTES :: nat where [cfg_defs]: "MAX_METADATA_DECOMPRESSED_BYTES = 8 * 1024"

definition MAX_FUTURE_DRIFT_SECS :: nat where [cfg_defs]: "MAX_FUTURE_DRIFT_SECS = 3600 * 24 * 365 * 10"

definition MAX_TXS_PER_BLOCK :: nat where [cfg_defs]: "MAX_TXS_PER_BLOCK = 7500"

definition MAX_BATCH_SERIALIZED_OVERHEAD :: nat where
  [cfg_defs]: "MAX_BATCH_SERIALIZED_OVERHEAD = 2048"

definition MAX_FUTURE_SKEW_SECS :: nat where [cfg_defs]: "MAX_FUTURE_SKEW_SECS = 2 * 60 * 60"

definition BLOCK_CREATION_INTERVAL_SECS :: nat where [cfg_defs]: "BLOCK_CREATION_INTERVAL_SECS = 30"

definition SLOT_GATE_DRIFT_SECS :: nat where [cfg_defs]: "SLOT_GATE_DRIFT_SECS = 2"

definition BLOCK_OVERHEAD_RESERVE :: nat where [cfg_defs]: "BLOCK_OVERHEAD_RESERVE = 16 * 1024"

definition TRANSACTION_BUFFER_LIMIT :: nat where [cfg_defs]: "TRANSACTION_BUFFER_LIMIT = 2 * 1024 * 1024"

definition MAX_ITEM_BYTES :: nat where [cfg_defs]: "MAX_ITEM_BYTES = 4 * 1024 * 1024"

section \<open>Reward schedule\<close>

definition ceil_div :: "nat \<Rightarrow> nat \<Rightarrow> nat" where [cfg_defs]: "ceil_div a b = div_ceil a b"

definition INITIAL_BLOCK_REWARD :: nat where [cfg_defs]: "INITIAL_BLOCK_REWARD = 20 * UNIT_DIVISOR"

definition REWARD_REDUCTION_SEQUENCE :: "nat list" where
  [cfg_defs]: "REWARD_REDUCTION_SEQUENCE =
     [20 * UNIT_DIVISOR, 10 * UNIT_DIVISOR, 5 * UNIT_DIVISOR, 2 * UNIT_DIVISOR, UNIT_DIVISOR]"

definition STABILIZED_BLOCK_REWARD :: nat where [cfg_defs]: "STABILIZED_BLOCK_REWARD = UNIT_DIVISOR"

definition HALVING_INTERVAL_BLOCKS :: nat where [cfg_defs]: "HALVING_INTERVAL_BLOCKS = 500000"

definition CUMULATIVE_REWARD_SEQUENCE :: nat where
  [cfg_defs]: "CUMULATIVE_REWARD_SEQUENCE = 38 * HALVING_INTERVAL_BLOCKS * UNIT_DIVISOR"

definition REWARDLESS_PREFIX_NOMINAL_ISSUANCE :: nat where
  [cfg_defs]: "REWARDLESS_PREFIX_NOMINAL_ISSUANCE = REWARDLESS_PREFIX_BLOCKS * INITIAL_BLOCK_REWARD"

definition EFFECTIVE_CUMULATIVE_REWARD_SEQUENCE :: nat where
  [cfg_defs]: "EFFECTIVE_CUMULATIVE_REWARD_SEQUENCE =
     saturating_sub CUMULATIVE_REWARD_SEQUENCE REWARDLESS_PREFIX_NOMINAL_ISSUANCE"

definition BLOCKS_FOR_STABILIZED_REWARD :: nat where
  [cfg_defs]: "BLOCKS_FOR_STABILIZED_REWARD =
     ceil_div (saturating_sub MAX_REWARD_SUPPLY EFFECTIVE_CUMULATIVE_REWARD_SEQUENCE)
       STABILIZED_BLOCK_REWARD"

definition TOTAL_REWARD_BLOCKS :: nat where
  [cfg_defs]: "TOTAL_REWARD_BLOCKS =
     REWARDLESS_PREFIX_BLOCKS + (length REWARD_REDUCTION_SEQUENCE * HALVING_INTERVAL_BLOCKS)
       + BLOCKS_FOR_STABILIZED_REWARD"

definition MAX_BLOCK_REWARD :: nat where [cfg_defs]: "MAX_BLOCK_REWARD = 20 * UNIT_DIVISOR"

section \<open>Consensus timing and membership\<close>

definition PUZZLE_CREATION_INTERVAL_SECS :: nat where [cfg_defs]: "PUZZLE_CREATION_INTERVAL_SECS = 2"

definition ACTIVATION_WARMUP_SECS :: nat where [cfg_defs]: "ACTIVATION_WARMUP_SECS = 30"

definition REWARD_DELAY_BLOCKS :: nat where [cfg_defs]: "REWARD_DELAY_BLOCKS = 1"

definition VALIDATOR_ACTIVATION_DELAY_BLOCKS :: nat where
  [cfg_defs]: "VALIDATOR_ACTIVATION_DELAY_BLOCKS = ceil_div ACTIVATION_WARMUP_SECS BLOCK_CREATION_INTERVAL_SECS"

definition QUARANTINE_BLOCKS :: nat where [cfg_defs]: "QUARANTINE_BLOCKS = 4"

definition EPOCH_SLOTS :: nat where [cfg_defs]: "EPOCH_SLOTS = 60"

definition CANONICAL_RENEW_INTERVAL_BLOCKS :: nat where [cfg_defs]: "CANONICAL_RENEW_INTERVAL_BLOCKS = 10"

definition CANONICAL_LEASE_BLOCKS :: nat where [cfg_defs]: "CANONICAL_LEASE_BLOCKS = CANONICAL_RENEW_INTERVAL_BLOCKS"

definition FAILOVER_BUILD_SLACK_SECS :: nat where [cfg_defs]: "FAILOVER_BUILD_SLACK_SECS = 5"

definition FAILOVER_LEADER_GRACE_SECS :: nat where [cfg_defs]: "FAILOVER_LEADER_GRACE_SECS = 5"

definition FAILOVER_SLACK_SECS :: nat where
  [cfg_defs]: "FAILOVER_SLACK_SECS = FAILOVER_BUILD_SLACK_SECS + FAILOVER_LEADER_GRACE_SECS"

definition FAILOVER_WINDOW_SECS :: nat where
  [cfg_defs]: "FAILOVER_WINDOW_SECS = PUZZLE_CREATION_INTERVAL_SECS + FAILOVER_SLACK_SECS"

definition SLOT_GOSSIP_BUFFER_SECS :: nat where [cfg_defs]: "SLOT_GOSSIP_BUFFER_SECS = 6"

definition MAX_BATCH_ITEMS :: nat where [cfg_defs]: "MAX_BATCH_ITEMS = 50000"

definition MAX_TOTAL_BATCH_BYTES :: nat where [cfg_defs]: "MAX_TOTAL_BATCH_BYTES = 64 * 1024 * 1024"

definition DEAD_PEER_EVICTION_BLOCKS :: nat where [cfg_defs]: "DEAD_PEER_EVICTION_BLOCKS = 2"

definition DEAD_PEER_EVICTION_SECS :: nat where
  [cfg_defs]: "DEAD_PEER_EVICTION_SECS = DEAD_PEER_EVICTION_BLOCKS * BLOCK_CREATION_INTERVAL_SECS"

definition HEARTBEAT_GRACE_SECS :: nat where [cfg_defs]: "HEARTBEAT_GRACE_SECS = 0"

definition ATTACK_THRESHOLD :: nat where [cfg_defs]: "ATTACK_THRESHOLD = 51"

definition MAX_ZAR_PARTICIPANTS :: nat where [cfg_defs]: "MAX_ZAR_PARTICIPANTS = 10000"

definition MAX_VALIDATORS :: nat where [cfg_defs]: "MAX_VALIDATORS = 10000"

definition MAX_IDENTITIES :: nat where [cfg_defs]: "MAX_IDENTITIES = 20000"

definition MAX_VERIFYING_KEYS :: nat where [cfg_defs]: "MAX_VERIFYING_KEYS = 10000"

definition MAX_SNAPSHOT_ENTRIES :: nat where [cfg_defs]: "MAX_SNAPSHOT_ENTRIES = 50000"

definition MAX_PEER_ID_B58_LEN :: nat where [cfg_defs]: "MAX_PEER_ID_B58_LEN = 128"

definition DOMAIN_SEPARATION_ON :: bool where [cfg_defs]: "DOMAIN_SEPARATION_ON = False"

definition DOMAIN_TAG :: string where [cfg_defs]: "DOMAIN_TAG = ''REMZAR_GUARDIAN_BATCH_SHAKE256_V1''"

definition GUARDIAN_SIG_LEN :: nat where [cfg_defs]: "GUARDIAN_SIG_LEN = 3309"

definition MAX_GENESIS_JSON_BYTES :: nat where [cfg_defs]: "MAX_GENESIS_JSON_BYTES = 50 * 1024 * 1024"

text \<open>The values the derived constants have.\<close>

lemma TOTAL_REWARD_BLOCKS_value: "TOTAL_REWARD_BLOCKS = 183500021"
  by (simp add: cfg_defs div_ceil_def)

lemma MAX_REWARD_SUPPLY_value: "MAX_REWARD_SUPPLY = 20000000000000000"
  by (simp add: cfg_defs)

lemma MAX_SUPPLY_value: "MAX_SUPPLY = 20000000000000000"
  by (simp add: cfg_defs)

lemma BLOCKS_FOR_STABILIZED_REWARD_value: "BLOCKS_FOR_STABILIZED_REWARD = 181000020"
  by (simp add: cfg_defs div_ceil_def)

lemmas cfg_values =
  TOTAL_REWARD_BLOCKS_value MAX_REWARD_SUPPLY_value MAX_SUPPLY_value
  BLOCKS_FOR_STABILIZED_REWARD_value

end
