(* ===== verification/Halving.thy ===== *)
theory Halving
  imports Config
begin

text \<open>
  The reward schedule \<open>RewardHalving\<close> of \<open>src/blockchain/halving_schedule.rs\<close>: the closed-form
  issuance up to a height, the coinbase reward of a height and the remaining supply. Heights and
  rewards are u64 values, the issuance is computed in u128 with the checked operations of the
  source, and every fail-closed return is a branch.
\<close>

section \<open>The schedule\<close>

definition fail_closed_issued :: nat where
  "fail_closed_issued = MAX_REWARD_SUPPLY"

definition config_sane :: "nat \<Rightarrow> nat \<Rightarrow> bool" where
  "config_sane interval schedule_end =
     (if interval = 0 then False
      else if schedule_end < REWARDLESS_PREFIX_BLOCKS then False
      else True)"

definition checked_mul_u128 :: "nat \<Rightarrow> nat \<Rightarrow> nat option" where
  "checked_mul_u128 a b = checked_mul 128 a b"

definition checked_add_u128 :: "nat \<Rightarrow> nat \<Rightarrow> nat option" where
  "checked_add_u128 a b = checked_add 128 a b"

text \<open>
  The source computes the nominal issuance below a height twice, once for the height and once for
  the rewardless prefix, with the same statements; \<open>nominal_issued\<close> is that block, with \<open>None\<close>
  where the source returns the fail-closed value.
\<close>

definition nominal_issued :: "nat \<Rightarrow> nat option" where
  "nominal_issued height =
     (let interval = HALVING_INTERVAL_BLOCKS;
          seq = REWARD_REDUCTION_SEQUENCE;
          seq_len = length seq in
      case checked_div height interval of None \<Rightarrow> None
      | Some full_periods \<Rightarrow>
        (let seq_periods = min full_periods seq_len;
             issued_seq = sum_list (map (\<lambda>r. saturating_mul 128 r interval) (take seq_periods seq));
             stab_intervals = saturating_sub full_periods seq_len in
         case Option.bind (checked_mul_u128 STABILIZED_BLOCK_REWARD stab_intervals)
                (\<lambda>x. checked_mul_u128 x interval) of None \<Rightarrow> None
         | Some issued_stab \<Rightarrow>
           (let remainder_blocks = height mod interval in
            case (if remainder_blocks = 0 then Some 0
                  else if full_periods < seq_len
                    then (if full_periods < length seq then Some (seq ! full_periods) else None)
                  else Some STABILIZED_BLOCK_REWARD) of None \<Rightarrow> None
            | Some reward_for_partial \<Rightarrow>
              (case checked_mul_u128 remainder_blocks reward_for_partial of None \<Rightarrow> None
               | Some issued_partial \<Rightarrow>
                 Option.bind (checked_add_u128 issued_seq issued_stab)
                   (\<lambda>x. checked_add_u128 x issued_partial)))))"

definition total_issued_to :: "nat \<Rightarrow> nat" where
  "total_issued_to height0 =
     (let interval = HALVING_INTERVAL_BLOCKS; schedule_end = TOTAL_REWARD_BLOCKS in
      if \<not> config_sane interval schedule_end then fail_closed_issued
      else
        (let height = min height0 schedule_end in
         case nominal_issued height of None \<Rightarrow> fail_closed_issued
         | Some issued_nominal \<Rightarrow>
           (let rewardless_prefix = min REWARDLESS_PREFIX_BLOCKS height in
            if rewardless_prefix = 0 then issued_nominal
            else
              (case nominal_issued rewardless_prefix of None \<Rightarrow> fail_closed_issued
               | Some prefix_offset \<Rightarrow> saturating_sub issued_nominal prefix_offset))))"

definition remaining_reward_supply_micro_after_block :: "nat \<Rightarrow> nat" where
  "remaining_reward_supply_micro_after_block block_height =
     (let schedule_end = TOTAL_REWARD_BLOCKS;
          height_exclusive = min (saturating_add 64 block_height 1) schedule_end;
          issued_after = total_issued_to height_exclusive in
      saturating_sub MAX_REWARD_SUPPLY issued_after)"

definition get_block_reward :: "nat \<Rightarrow> nat" where
  "get_block_reward block_height =
     (let interval = HALVING_INTERVAL_BLOCKS in
      if interval = 0 then 0
      else if block_height < REWARDLESS_PREFIX_BLOCKS then 0
      else if block_height \<ge> TOTAL_REWARD_BLOCKS then 0
      else
        (let issued_before = total_issued_to block_height in
         if issued_before \<ge> MAX_REWARD_SUPPLY then 0
         else
           (let remaining = saturating_sub MAX_REWARD_SUPPLY issued_before in
            case checked_div block_height interval of None \<Rightarrow> 0
            | Some index_u64 \<Rightarrow>
              (case try_from 64 index_u64 of None \<Rightarrow> 0
               | Some index \<Rightarrow>
                 if index \<ge> length REWARD_REDUCTION_SEQUENCE then
                   (if BLOCKS_FOR_STABILIZED_REWARD = 0 then 0
                    else (case try_from 64 (min STABILIZED_BLOCK_REWARD remaining) of
                            None \<Rightarrow> uint_max 64 | Some v \<Rightarrow> v))
                 else
                   (let scheduled = REWARD_REDUCTION_SEQUENCE ! index in
                    case try_from 64 (min scheduled remaining) of
                      None \<Rightarrow> uint_max 64 | Some v \<Rightarrow> v)))))"

definition validate_block_reward :: "nat \<Rightarrow> nat \<Rightarrow> string + unit" where
  "validate_block_reward block_height expected =
     (let actual = get_block_reward block_height in
      if actual \<noteq> expected then Inl ''Reward mismatch'' else Inr ())"

section \<open>The schedule as a function of the height\<close>

text \<open>
  The specification: the rate of a step of the ladder, and the reward a height has by the ladder
  and the tail, before the cap.
\<close>

definition step_rate :: "nat \<Rightarrow> nat" where
  "step_rate j = (if j < length REWARD_REDUCTION_SEQUENCE then REWARD_REDUCTION_SEQUENCE ! j
                  else STABILIZED_BLOCK_REWARD)"

definition scheduled_reward :: "nat \<Rightarrow> nat" where
  "scheduled_reward h =
     (if h < REWARDLESS_PREFIX_BLOCKS \<or> TOTAL_REWARD_BLOCKS \<le> h then 0
      else step_rate (h div HALVING_INTERVAL_BLOCKS))"

lemma step_rate_values [simp]:
  "step_rate 0 = 2000000000" "step_rate (Suc 0) = 1000000000" "step_rate 2 = 500000000"
  "step_rate 3 = 200000000" "step_rate 4 = 100000000"
  by (simp_all add: step_rate_def cfg_defs)

lemma step_rate_tail: "5 \<le> j \<Longrightarrow> step_rate j = 100000000"
  by (simp add: step_rate_def cfg_defs)

lemma sum_step_rate_5: "(\<Sum>j<5. step_rate j) = 3800000000"
proof -
  have "{..<5::nat} = {0, 1, 2, 3, 4}" by auto
  then show ?thesis by simp
qed

lemma sum_step_rate_tail: "5 \<le> q \<Longrightarrow> (\<Sum>j<q. step_rate j) = 3800000000 + (q - 5) * 100000000"
proof (induction q)
  case (Suc q)
  show ?case
  proof (cases "5 \<le> q")
    case True
    with Suc show ?thesis by (simp add: step_rate_tail Suc_diff_le)
  next
    case False
    with Suc.prems have "Suc q = 5" by simp
    then show ?thesis using sum_step_rate_5 by simp
  qed
qed simp

lemma sum_step_rate_small:
  "q \<le> 5 \<Longrightarrow> (\<Sum>j<q. step_rate j) = sum_list (take q REWARD_REDUCTION_SEQUENCE)"
proof (induction q)
  case (Suc q)
  then have q: "q < length REWARD_REDUCTION_SEQUENCE" by (simp add: REWARD_REDUCTION_SEQUENCE_def)
  with Suc show ?case by (simp add: take_Suc_conv_app_nth step_rate_def)
qed simp

lemma ladder_no_overflow:
  "map (\<lambda>r. saturating_mul 128 r 500000) (take q REWARD_REDUCTION_SEQUENCE) =
   map (\<lambda>r. r * 500000) (take q REWARD_REDUCTION_SEQUENCE)"
proof (rule map_cong [OF refl])
  fix r assume "r \<in> set (take q REWARD_REDUCTION_SEQUENCE)"
  then have "r \<in> set REWARD_REDUCTION_SEQUENCE" by (rule in_set_takeD)
  then show "saturating_mul 128 r 500000 = r * 500000"
    by (auto simp: cfg_defs saturating_mul_def)
qed

lemma sum_list_mult: "sum_list (map (\<lambda>r. r * (c :: nat)) xs) = sum_list xs * c"
  by (induction xs) (simp_all add: algebra_simps)

lemma sum_step_rate:
  "(\<Sum>j<q. step_rate j) =
   sum_list (take (min q 5) REWARD_REDUCTION_SEQUENCE) + (q - 5) * 100000000"
proof (cases "q \<le> 5")
  case True
  then show ?thesis by (simp add: sum_step_rate_small min_def)
next
  case False
  then have "(\<Sum>j<q. step_rate j) = 3800000000 + (q - 5) * 100000000"
    by (intro sum_step_rate_tail) simp
  moreover have "sum_list (take (min q 5) REWARD_REDUCTION_SEQUENCE) = 3800000000"
    using False by (simp add: cfg_defs)
  ultimately show ?thesis by simp
qed

text \<open>No checked operation overflows for a height that fits u64, and the result is the sum.\<close>

lemma nominal_issued_eq:
  assumes h: "h < 2 ^ 64"
  shows "nominal_issued h = Some (\<Sum>i<h. step_rate (i div HALVING_INTERVAL_BLOCKS))"
proof -
  define q where "q = h div 500000"
  define r where "r = h mod 500000"
  define lad where "lad = sum_list (take (min q 5) REWARD_REDUCTION_SEQUENCE)"
  have q: "q \<le> h" and r: "r < 500000" by (simp_all add: q_def r_def)
  have rate: "step_rate q \<le> 2000000000"
  proof -
    consider "q = 0" | "q = 1" | "q = 2" | "q = 3" | "q = 4" | "5 \<le> q" by linarith
    then show ?thesis by cases (simp_all add: step_rate_tail)
  qed
  have lad: "lad \<le> 3800000000"
  proof -
    have "lad \<le> (\<Sum>j<5. step_rate j)"
      unfolding lad_def
      by (subst sum_step_rate_small [symmetric], simp, rule sum_mono2) auto
    then show ?thesis by (simp only: sum_step_rate_5)
  qed
  have rr: "r * step_rate q \<le> 500000 * 2000000000"
    using r rate by (intro mult_mono) auto
  have big: "(q - 5) * 100000000 * 500000 + 500000 * 3800000000 + 500000 * 2000000000 < (2 :: nat) ^ 128"
    using q h by simp
  have stab: "Option.bind (checked_mul_u128 STABILIZED_BLOCK_REWARD (q - 5))
      (\<lambda>x. checked_mul_u128 x 500000) = Some ((q - 5) * 100000000 * 500000)"
    using big by (simp add: checked_mul_u128_def checked_mul_def cfg_defs mult.commute)
  have partial: "(if r = 0 then Some 0
       else if q < length REWARD_REDUCTION_SEQUENCE
         then (if q < length REWARD_REDUCTION_SEQUENCE
               then Some (REWARD_REDUCTION_SEQUENCE ! q) else None)
       else Some STABILIZED_BLOCK_REWARD) = Some (if r = 0 then 0 else step_rate q)"
    by (simp add: step_rate_def)
  have mul: "checked_mul_u128 r (if r = 0 then 0 else step_rate q) = Some (r * step_rate q)"
    using rr by (simp add: checked_mul_u128_def checked_mul_def)
  have add: "Option.bind (checked_add_u128 (lad * 500000) ((q - 5) * 100000000 * 500000))
       (\<lambda>x. checked_add_u128 x (r * step_rate q)) =
     Some (lad * 500000 + (q - 5) * 100000000 * 500000 + r * step_rate q)"
    using rr lad big by (simp add: checked_add_u128_def checked_add_def)
  have len: "length REWARD_REDUCTION_SEQUENCE = 5" by (simp add: cfg_defs)
  have "nominal_issued h = Some (lad * 500000 + (q - 5) * 100000000 * 500000 + r * step_rate q)"
    unfolding nominal_issued_def Let_def HALVING_INTERVAL_BLOCKS_def checked_div_def
    using stab partial mul add
    by (simp add: q_def [symmetric] r_def [symmetric] ladder_no_overflow sum_list_mult len
        lad_def [symmetric] del: sum_list_mult_const)
  also have "lad * 500000 + (q - 5) * 100000000 * 500000 + r * step_rate q =
      (\<Sum>j<q. step_rate j) * 500000 + r * step_rate q"
    by (simp add: sum_step_rate lad_def algebra_simps)
  also have "\<dots> = (\<Sum>i<h. step_rate (i div HALVING_INTERVAL_BLOCKS))"
    by (simp add: sum_steps [of 500000] HALVING_INTERVAL_BLOCKS_def q_def r_def)
  finally show ?thesis .
qed

lemma prefix_nominal: "(\<Sum>i<1. step_rate (i div HALVING_INTERVAL_BLOCKS)) = 2000000000"
  by simp

lemma total_issued_to_eq: "total_issued_to h = (\<Sum>i<h. scheduled_reward i)"
proof -
  define g where "g = min h TOTAL_REWARD_BLOCKS"
  have g64: "g < 2 ^ 64" by (simp add: g_def cfg_values)
  have sane: "config_sane HALVING_INTERVAL_BLOCKS TOTAL_REWARD_BLOCKS"
    by (simp add: config_sane_def HALVING_INTERVAL_BLOCKS_def REWARDLESS_PREFIX_BLOCKS_def cfg_values)
  have cut: "(\<Sum>i<h. scheduled_reward i) = (\<Sum>i<g. scheduled_reward i)"
  proof (rule sum.mono_neutral_right)
    show "{..<g} \<subseteq> {..<h}" by (auto simp: g_def)
    show "\<forall>i\<in>{..<h} - {..<g}. scheduled_reward i = 0"
      by (auto simp: g_def scheduled_reward_def)
  qed simp
  show ?thesis
  proof (cases g)
    case 0
    then show ?thesis
      using sane cut nominal_issued_eq [of 0]
      by (simp add: total_issued_to_def Let_def g_def [symmetric])
  next
    case (Suc k)
    have split: "(\<Sum>i<g. f i) = f 0 + (\<Sum>i\<in>{1..<g}. f i)" for f :: "nat \<Rightarrow> nat"
      using Suc by (simp add: lessThan_atLeast0 sum.atLeast_Suc_lessThan)
    have z: "scheduled_reward 0 = 0"
      by (simp add: scheduled_reward_def REWARDLESS_PREFIX_BLOCKS_def)
    have same: "(\<Sum>i\<in>{1..<g}. scheduled_reward i) =
        (\<Sum>i\<in>{1..<g}. step_rate (i div HALVING_INTERVAL_BLOCKS))"
      by (rule sum.cong) (auto simp: scheduled_reward_def g_def REWARDLESS_PREFIX_BLOCKS_def)
    have "total_issued_to h = (\<Sum>i<g. step_rate (i div HALVING_INTERVAL_BLOCKS)) - 2000000000"
      using Suc sane nominal_issued_eq [OF g64] nominal_issued_eq [of 1]
      by (simp add: total_issued_to_def Let_def g_def [symmetric] REWARDLESS_PREFIX_BLOCKS_def)
    also have "\<dots> = (\<Sum>i\<in>{1..<g}. step_rate (i div HALVING_INTERVAL_BLOCKS))"
      by (simp add: split)
    also have "\<dots> = (\<Sum>i<g. scheduled_reward i)"
      using same by (simp add: split z)
    finally show ?thesis by (simp add: cut)
  qed
qed

lemma get_block_reward_eq:
  "get_block_reward h = min (scheduled_reward h) (MAX_REWARD_SUPPLY - total_issued_to h)"
proof -
  have cap: "min x (MAX_REWARD_SUPPLY - y) < 2 ^ 64" for x y
    by (rule le_less_trans [OF min.cobounded2]) (simp add: cfg_values)
  have len: "length REWARD_REDUCTION_SEQUENCE = 5" by (simp add: cfg_defs)
  consider "h < 1 \<or> TOTAL_REWARD_BLOCKS \<le> h"
    | "1 \<le> h" "h < TOTAL_REWARD_BLOCKS" "MAX_REWARD_SUPPLY \<le> total_issued_to h"
    | "1 \<le> h" "h < TOTAL_REWARD_BLOCKS" "total_issued_to h < MAX_REWARD_SUPPLY"
    by linarith
  then show ?thesis
  proof cases
    case 1
    then show ?thesis
      by (auto simp: get_block_reward_def scheduled_reward_def REWARDLESS_PREFIX_BLOCKS_def Let_def)
  next
    case 2
    then show ?thesis
      by (simp add: get_block_reward_def Let_def REWARDLESS_PREFIX_BLOCKS_def)
  next
    case 3
    have "h div 500000 < 2 ^ 64"
      using \<open>h < TOTAL_REWARD_BLOCKS\<close> by (simp add: cfg_values div_less_iff_less_mult)
    with 3 cap show ?thesis
      by (simp add: get_block_reward_def Let_def REWARDLESS_PREFIX_BLOCKS_def
          HALVING_INTERVAL_BLOCKS_def checked_div_def try_from_def scheduled_reward_def
          step_rate_def len cfg_values(4))
  qed
qed

section \<open>Capped issuance\<close>

text \<open>
  What a minting schedule promises: the issuance below a height is the sum of the scheduled
  rewards, and the reward paid at a height is the scheduled one, cut to what is left of the cap.
\<close>

locale capped_issuance =
  fixes sched :: "nat \<Rightarrow> nat"
    and issued :: "nat \<Rightarrow> nat"
    and reward :: "nat \<Rightarrow> nat"
    and cap :: nat
  assumes issued_sum: "issued h = (\<Sum>i<h. sched i)"
    and reward_cut: "reward h = min (sched h) (cap - issued h)"
begin

lemma issued_Suc: "issued (Suc h) = issued h + sched h"
  by (simp add: issued_sum)

lemma paid_eq: "(\<Sum>i<n. reward i) = min (issued n) cap"
proof (induction n)
  case 0
  then show ?case by (simp add: issued_sum)
next
  case (Suc n)
  then show ?case by (simp add: issued_Suc reward_cut)
qed

lemma paid_le_cap: "(\<Sum>i<n. reward i) \<le> cap"
  by (simp add: paid_eq)

lemma left_after: "cap - issued (Suc h) = cap - (\<Sum>i\<le>h. reward i)"
  using paid_eq [of "Suc h"] by (simp add: lessThan_Suc_atMost)

end

interpretation halving: capped_issuance scheduled_reward total_issued_to get_block_reward
  MAX_REWARD_SUPPLY
  by unfold_locales (rule total_issued_to_eq, rule get_block_reward_eq)

section \<open>Properties\<close>

lemma total_issued_to_min [simp]: "total_issued_to (min h TOTAL_REWARD_BLOCKS) = total_issued_to h"
  by (simp add: total_issued_to_def)

lemma total_issued_to_end:
  "TOTAL_REWARD_BLOCKS \<le> a \<Longrightarrow> TOTAL_REWARD_BLOCKS \<le> b \<Longrightarrow> total_issued_to a = total_issued_to b"
  using total_issued_to_min [of a] total_issued_to_min [of b]
  by (simp add: min_absorb2 del: total_issued_to_min)

lemma total_issued_mono: "a \<le> b \<Longrightarrow> total_issued_to a \<le> total_issued_to b"
  by (simp add: total_issued_to_eq sum_mono2)

lemma total_issued_at_cap: "total_issued_to 183500020 = MAX_REWARD_SUPPLY"
proof -
  have nom: "(\<Sum>i<183500020. step_rate (i div HALVING_INTERVAL_BLOCKS)) = 20000002000000000"
    unfolding HALVING_INTERVAL_BLOCKS_def
    by (subst sum_steps) (simp_all add: sum_step_rate_tail step_rate_tail)
  have sane: "config_sane HALVING_INTERVAL_BLOCKS TOTAL_REWARD_BLOCKS"
    by (simp add: config_sane_def HALVING_INTERVAL_BLOCKS_def REWARDLESS_PREFIX_BLOCKS_def cfg_values)
  show ?thesis
    using nominal_issued_eq [of 183500020] nominal_issued_eq [of 1] sane nom
    by (simp add: total_issued_to_def Let_def cfg_values REWARDLESS_PREFIX_BLOCKS_def)
qed

lemma step_rate_antimono: "i \<le> j \<Longrightarrow> step_rate j \<le> step_rate i"
proof -
  assume ij: "i \<le> j"
  have cases: "k = 0 \<or> k = 1 \<or> k = 2 \<or> k = 3 \<or> k = 4 \<or> 5 \<le> k" for k :: nat by linarith
  show ?thesis
    using cases [of i] cases [of j] ij by (elim disjE) (simp_all add: step_rate_tail)
qed

lemma scheduled_reward_antimono:
  assumes "1 \<le> a" and "a \<le> b"
  shows "scheduled_reward b \<le> scheduled_reward a"
  using assms step_rate_antimono [OF div_le_mono [OF \<open>a \<le> b\<close>, of HALVING_INTERVAL_BLOCKS]]
  by (simp add: scheduled_reward_def REWARDLESS_PREFIX_BLOCKS_def)

text \<open>The closed-form issuance \<open>total_issued_to\<close>, with its full periods, its stabilized tail,
  its partial period and its prefix offset, is for every height the sum of the rewards the ladder
  schedules below that height; no checked u128 operation of it overflows.\<close>

theorem issuance_closed_form: "total_issued_to n = (\<Sum>i<n. scheduled_reward i)"
  by (rule halving.issued_sum)

text \<open>C32. The rewards \<open>get_block_reward\<close> pays below any height add up to the scheduled issuance
  cut at \<open>MAX_REWARD_SUPPLY\<close>, so the supply cap is never exceeded by any sequence of blocks.\<close>

theorem paid_rewards_capped:
  "(\<Sum>i<n. get_block_reward i) = min (\<Sum>i<n. scheduled_reward i) MAX_REWARD_SUPPLY"
  by (simp add: halving.paid_eq total_issued_to_eq)

text \<open>The schedule reaches the cap exactly: from height 183500020 on, the rewards paid so far
  are \<open>MAX_REWARD_SUPPLY\<close>, with nothing lost to rounding and nothing above it.\<close>

theorem supply_exhausted_exactly:
  assumes "183500020 \<le> n"
  shows "(\<Sum>i<n. get_block_reward i) = MAX_REWARD_SUPPLY"
  using total_issued_mono [OF assms] by (simp add: halving.paid_eq total_issued_at_cap)

theorem supply_exhausted_exactly_witness:
  "(\<Sum>i<183500020. get_block_reward i) = MAX_REWARD_SUPPLY"
  by (rule supply_exhausted_exactly) simp

text \<open>The remaining supply shown after a block, \<open>remaining_reward_supply_micro_after_block\<close>, is
  the cap less the rewards \<open>get_block_reward\<close> has paid up to and including that block, for every
  height, also where the increment of the height saturates.\<close>

theorem remaining_supply_exact:
  "remaining_reward_supply_micro_after_block h = MAX_REWARD_SUPPLY - (\<Sum>i\<le>h. get_block_reward i)"
proof -
  have "total_issued_to (min (saturating_add 64 h 1) TOTAL_REWARD_BLOCKS) = total_issued_to (Suc h)"
  proof (cases "Suc h < 2 ^ 64")
    case True
    then show ?thesis
      by (simp add: saturating_add_def)
  next
    case False
    have "total_issued_to (2 ^ 64 - 1) = total_issued_to (Suc h)"
      using False by (intro total_issued_to_end) (simp_all add: cfg_values)
    with False show ?thesis
      by (simp add: saturating_add_def)
  qed
  then show ?thesis
    by (simp add: remaining_reward_supply_micro_after_block_def Let_def halving.left_after)
qed

text \<open>After the rewardless genesis block the reward of a block never grows with the height and
  never passes \<open>MAX_BLOCK_REWARD\<close>.\<close>

theorem reward_non_increasing:
  assumes "1 \<le> a" and "a \<le> b"
  shows "get_block_reward b \<le> get_block_reward a \<and> get_block_reward a \<le> MAX_BLOCK_REWARD"
proof
  show "get_block_reward b \<le> get_block_reward a"
    using scheduled_reward_antimono [OF assms] total_issued_mono [OF assms(2)]
    by (simp add: get_block_reward_eq min_le_iff_disj) linarith
  have "scheduled_reward a \<le> 2000000000"
    using step_rate_antimono [of 0 "a div HALVING_INTERVAL_BLOCKS"] by (simp add: scheduled_reward_def)
  then show "get_block_reward a \<le> MAX_BLOCK_REWARD"
    by (simp add: get_block_reward_eq MAX_BLOCK_REWARD_def UNIT_DIVISOR_def)
qed

theorem reward_non_increasing_witness:
  "get_block_reward 2500000 \<le> get_block_reward 1 \<and> get_block_reward 1 \<le> MAX_BLOCK_REWARD"
  by (rule reward_non_increasing) simp_all

end
