(* ===== verification/RustText.thy ===== *)
theory RustText
  imports Config
begin

text \<open>
  Errors and text. \<open>ErrorDetection\<close> is the error enum of
  \<open>src/utility/alpha_002_error_detection_system.rs\<close>, with the variants the modelled components
  raise; a variant carries the fixed part of its message. A Rust \<open>str\<close> is the list of its Unicode
  scalar values, and the functions of the standard library the components call on it (UTF-8
  decoding, trimming, lower case, splitting, decimal output) are defined here. A byte of a string
  is a natural number below 256.
\<close>

datatype ErrorDetection =
    ValidationError string
  | NotFound string
  | StorageError string
  | DatabaseError string
  | SerializationError string
  | BlockchainError string
  | TimestampError string
  | InvalidOperation string
  | CapacityError string
  | MerkleProofGenerationError string
  | CryptographicError string
  | SignatureVerificationFailed string
  | AlreadyExists string
  | PermissionDenied string
  | DoubleSpending "nat list option"

type_synonym 'a result = "ErrorDetection + 'a"

type_synonym rstr = "nat list"

abbreviation lit :: "string \<Rightarrow> rstr" where
  "lit s \<equiv> map of_char s"

section \<open>UTF-8\<close>

definition utf8_enc :: "nat \<Rightarrow> nat list" where
  "utf8_enc c =
     (if c < 128 then [c]
      else if c < 2048 then [192 + c div 64, 128 + c mod 64]
      else if c < 65536 then [224 + c div 4096, 128 + c div 64 mod 64, 128 + c mod 64]
      else [240 + c div 262144, 128 + c div 4096 mod 64, 128 + c div 64 mod 64, 128 + c mod 64])"

definition as_bytes :: "rstr \<Rightarrow> nat list" where
  "as_bytes s = concat (map utf8_enc s)"

definition str_len :: "rstr \<Rightarrow> nat" where
  "str_len s = length (as_bytes s)"

definition is_cont :: "nat \<Rightarrow> bool" where
  "is_cont b \<longleftrightarrow> 128 \<le> b \<and> b \<le> 191"

text \<open>
  One chunk at the head of a byte list: \<open>(Some c, n)\<close> for a scalar value \<open>c\<close> encoded in \<open>n\<close>
  bytes, \<open>(None, n)\<close> for an invalid sequence of \<open>n\<close> bytes (the maximal prefix of a valid one).
  A read past the end gives 0, which is no continuation byte.
\<close>

definition byte_at :: "nat list \<Rightarrow> nat \<Rightarrow> nat" where
  "byte_at bs i = (if i < length bs then bs ! i else 0)"

definition second_ok :: "nat \<Rightarrow> nat \<Rightarrow> bool" where
  "second_ok b x =
     (if b = 224 then 160 \<le> x \<and> x \<le> 191
      else if b = 237 then 128 \<le> x \<and> x \<le> 159
      else if b = 240 then 144 \<le> x \<and> x \<le> 191
      else if b = 244 then 128 \<le> x \<and> x \<le> 143
      else is_cont x)"

definition utf8_chunk :: "nat list \<Rightarrow> nat option \<times> nat" where
  "utf8_chunk bs =
     (let b = byte_at bs 0; x = byte_at bs 1; y = byte_at bs 2; z = byte_at bs 3 in
      if b < 128 then (Some b, 1)
      else if 194 \<le> b \<and> b \<le> 223 then
        (if is_cont x then (Some ((b - 192) * 64 + (x - 128)), 2) else (None, 1))
      else if 224 \<le> b \<and> b \<le> 239 then
        (if \<not> second_ok b x then (None, 1)
         else if \<not> is_cont y then (None, 2)
         else (Some ((b - 224) * 4096 + (x - 128) * 64 + (y - 128)), 3))
      else if 240 \<le> b \<and> b \<le> 244 then
        (if \<not> second_ok b x then (None, 1)
         else if \<not> is_cont y then (None, 2)
         else if \<not> is_cont z then (None, 3)
         else (Some ((b - 240) * 262144 + (x - 128) * 4096 + (y - 128) * 64 + (z - 128)), 4))
      else (None, 1))"

lemma utf8_chunk_pos: "0 < snd (utf8_chunk bs)"
  by (simp add: utf8_chunk_def Let_def)

lemma utf8_chunk_posD: "(m, n) = utf8_chunk bs \<Longrightarrow> 0 < n"
  using utf8_chunk_pos [of bs] by (metis snd_conv)

text \<open>\<open>String::from_utf8_lossy\<close>: each invalid sequence becomes U+FFFD.\<close>

function from_utf8_lossy :: "nat list \<Rightarrow> rstr" where
  "from_utf8_lossy bs =
     (if bs = [] then []
      else (case utf8_chunk bs of (m, n) \<Rightarrow>
        (case m of None \<Rightarrow> 65533 | Some c \<Rightarrow> c) # from_utf8_lossy (drop n bs)))"
  by pat_completeness auto
termination
  by (relation "measure length") (auto dest: utf8_chunk_posD)

declare from_utf8_lossy.simps [simp del]

text \<open>\<open>std::str::from_utf8\<close>: \<open>None\<close> when a sequence is invalid.\<close>

function from_utf8 :: "nat list \<Rightarrow> rstr option" where
  "from_utf8 bs =
     (if bs = [] then Some []
      else (case utf8_chunk bs of (m, n) \<Rightarrow>
        (case m of None \<Rightarrow> None | Some c \<Rightarrow> map_option (Cons c) (from_utf8 (drop n bs)))))"
  by pat_completeness auto
termination
  by (relation "measure length") (auto dest: utf8_chunk_posD)

declare from_utf8.simps [simp del]

section \<open>Operations on text\<close>

definition is_whitespace :: "nat \<Rightarrow> bool" where
  "is_whitespace c \<longleftrightarrow> (9 \<le> c \<and> c \<le> 13) \<or> c = 32 \<or> c = 133 \<or> c = 160 \<or> c = 5760
     \<or> (8192 \<le> c \<and> c \<le> 8202) \<or> c = 8232 \<or> c = 8233 \<or> c = 8239 \<or> c = 8287 \<or> c = 12288"

definition trim_end_by :: "(nat \<Rightarrow> bool) \<Rightarrow> rstr \<Rightarrow> rstr" where
  "trim_end_by p s = rev (dropWhile p (rev s))"

definition trim :: "rstr \<Rightarrow> rstr" where
  "trim s = trim_end_by is_whitespace (dropWhile is_whitespace s)"

definition to_ascii_lowercase :: "rstr \<Rightarrow> rstr" where
  "to_ascii_lowercase s = map (\<lambda>c. if 65 \<le> c \<and> c \<le> 90 then c + 32 else c) s"

definition eq_ignore_ascii_case :: "rstr \<Rightarrow> rstr \<Rightarrow> bool" where
  "eq_ignore_ascii_case s t \<longleftrightarrow> to_ascii_lowercase s = to_ascii_lowercase t"

definition is_ascii_digit :: "nat \<Rightarrow> bool" where
  "is_ascii_digit b \<longleftrightarrow> 48 \<le> b \<and> b \<le> 57"

definition is_ascii_whitespace :: "nat \<Rightarrow> bool" where
  "is_ascii_whitespace b \<longleftrightarrow> b = 32 \<or> b = 9 \<or> b = 10 \<or> b = 12 \<or> b = 13"

definition is_ascii_control :: "nat \<Rightarrow> bool" where
  "is_ascii_control b \<longleftrightarrow> b < 32 \<or> b = 127"

definition is_lower_hex :: "nat \<Rightarrow> bool" where
  "is_lower_hex b \<longleftrightarrow> (48 \<le> b \<and> b \<le> 57) \<or> (97 \<le> b \<and> b \<le> 102)"

definition split_once :: "nat \<Rightarrow> rstr \<Rightarrow> (rstr \<times> rstr) option" where
  "split_once d s = (if d \<in> set s
     then Some (takeWhile (\<lambda>c. c \<noteq> d) s, tl (dropWhile (\<lambda>c. c \<noteq> d) s)) else None)"

text \<open>Decimal output \<open>{n}\<close> and zero-padded output \<open>{n:0k}\<close>.\<close>

fun decimal :: "nat \<Rightarrow> rstr" where
  "decimal n = (if n < 10 then [48 + n] else decimal (n div 10) @ [48 + n mod 10])"

declare decimal.simps [simp del]

definition decimal_padded :: "nat \<Rightarrow> nat \<Rightarrow> rstr" where
  "decimal_padded k n = replicate (k - length (decimal n)) 48 @ decimal n"

text \<open>\<open>str::parse::<u64>\<close> on a string of digits.\<close>

definition digits_val :: "rstr \<Rightarrow> nat" where
  "digits_val s = foldl (\<lambda>acc b. acc * 10 + (b - 48)) 0 s"

definition parse_u64 :: "rstr \<Rightarrow> nat option" where
  "parse_u64 s = (if s = [] \<or> \<not> list_all is_ascii_digit s then None
                  else if digits_val s < 2 ^ 64 then Some (digits_val s) else None)"

section \<open>Facts about text\<close>

definition is_ascii :: "rstr \<Rightarrow> bool" where
  "is_ascii s \<longleftrightarrow> list_all (\<lambda>c. c < 128) s"

lemma is_ascii_simps [simp]:
  "is_ascii []" "is_ascii (c # s) \<longleftrightarrow> c < 128 \<and> is_ascii s" "is_ascii (s @ t) \<longleftrightarrow> is_ascii s \<and> is_ascii t"
  by (auto simp: is_ascii_def)

lemma as_bytes_simps [simp]:
  "as_bytes [] = []" "as_bytes (c # s) = utf8_enc c @ as_bytes s" "as_bytes (s @ t) = as_bytes s @ as_bytes t"
  by (auto simp: as_bytes_def)

lemma as_bytes_ascii: "is_ascii s \<Longrightarrow> as_bytes s = s"
  by (induction s) (auto simp: utf8_enc_def)

lemma str_len_ascii: "is_ascii s \<Longrightarrow> str_len s = length s"
  by (simp add: str_len_def as_bytes_ascii)

lemma utf8_enc_ascii: "list_all (\<lambda>b. b < 128) (utf8_enc c) \<Longrightarrow> c < 128"
  by (auto simp: utf8_enc_def split: if_splits)

lemma as_bytes_ascii_conv: "list_all (\<lambda>b. b < 128) (as_bytes s) \<Longrightarrow> is_ascii s"
  by (induction s) (auto dest: utf8_enc_ascii)

lemma utf8_chunk_ascii: "b < 128 \<Longrightarrow> utf8_chunk (b # bs) = (Some b, 1)"
  by (simp add: utf8_chunk_def byte_at_def Let_def)

lemma from_utf8_lossy_ascii: "is_ascii s \<Longrightarrow> from_utf8_lossy s = s"
proof (induction s)
  case (Cons c s)
  then show ?case by (subst from_utf8_lossy.simps) (simp add: utf8_chunk_ascii)
qed (simp add: from_utf8_lossy.simps)

lemma from_utf8_ascii: "is_ascii s \<Longrightarrow> from_utf8 s = Some s"
proof (induction s)
  case (Cons c s)
  then show ?case by (subst from_utf8.simps) (simp add: utf8_chunk_ascii)
qed (simp add: from_utf8.simps)

lemma dropWhile_id: "s = [] \<or> \<not> p (hd s) \<Longrightarrow> dropWhile p s = s"
  by (cases s) auto

lemma trim_end_by_id: "s = [] \<or> \<not> p (last s) \<Longrightarrow> trim_end_by p s = s"
  by (cases s rule: rev_cases) (auto simp: trim_end_by_def)

lemma trim_id: "s \<noteq> [] \<Longrightarrow> \<not> is_whitespace (hd s) \<Longrightarrow> \<not> is_whitespace (last s) \<Longrightarrow> trim s = s"
  by (simp add: trim_def dropWhile_id trim_end_by_id)

lemma trim_none: "list_all (\<lambda>c. \<not> is_whitespace c) s \<Longrightarrow> trim s = s"
  by (cases "s = []") (auto simp: list_all_iff trim_def dropWhile_id trim_end_by_id)

lemma digits_val_snoc [simp]: "digits_val (s @ [b]) = digits_val s * 10 + (b - 48)"
  by (simp add: digits_val_def)

lemma digits_val_Nil [simp]: "digits_val [] = 0"
  by (simp add: digits_val_def)

lemma decimal_digits: "list_all is_ascii_digit (decimal n)"
proof (induction n rule: decimal.induct)
  case (1 n)
  have "48 + n mod 10 \<le> 57" using mod_less_divisor [of 10 n] by linarith
  then have d: "is_ascii_digit (48 + n mod 10)" and "n < 10 \<Longrightarrow> is_ascii_digit (48 + n)"
    by (simp_all add: is_ascii_digit_def)
  with 1 show ?case by (subst decimal.simps) simp
qed

lemma decimal_val: "digits_val (decimal n) = n"
proof (induction n rule: decimal.induct)
  case (1 n)
  then show ?case by (subst decimal.simps) (auto simp: digits_val_def)
qed

lemma decimal_not_Nil [simp]: "decimal n \<noteq> []"
  by (subst decimal.simps) auto

lemma length_decimal: "n < 10 ^ Suc k \<Longrightarrow> length (decimal n) \<le> Suc k"
proof (induction k arbitrary: n)
  case 0
  then show ?case by (subst decimal.simps) simp
next
  case (Suc k)
  show ?case
  proof (cases "n < 10")
    case True
    then show ?thesis by (subst decimal.simps) simp
  next
    case False
    from Suc.prems have "n div 10 < 10 ^ Suc k" by (simp add: less_mult_imp_div_less mult.commute)
    from Suc.IH [OF this] False show ?thesis by (subst decimal.simps) simp
  qed
qed

lemma digits_val_zeros: "digits_val (replicate k 48 @ s) = digits_val s"
proof (induction s rule: rev_induct)
  case Nil
  show ?case
  proof (induction k)
    case (Suc k)
    have "replicate (Suc k) (48::nat) = replicate k 48 @ [48]"
      by (simp add: replicate_append_same)
    with Suc show ?case by (simp del: replicate.simps)
  qed simp
next
  case (snoc b s)
  then show ?case by (simp flip: append_assoc)
qed

lemma decimal_padded_val [simp]: "digits_val (decimal_padded k n) = n"
  by (simp add: decimal_padded_def digits_val_zeros decimal_val)

lemma decimal_padded_digits: "list_all is_ascii_digit (decimal_padded k n)"
  using decimal_digits [of n] by (auto simp: decimal_padded_def list_all_iff is_ascii_digit_def)

lemma length_decimal_padded: "n < 10 ^ k \<Longrightarrow> 0 < k \<Longrightarrow> length (decimal_padded k n) = k"
  using length_decimal [of n "k - 1"] by (simp add: decimal_padded_def)

lemma digits_ascii: "list_all is_ascii_digit s \<Longrightarrow> is_ascii s"
  by (induction s) (auto simp: is_ascii_digit_def)

lemma split_once_append: "d \<notin> set s \<Longrightarrow> split_once d (s @ d # t) = Some (s, t)"
proof -
  assume "d \<notin> set s"
  then have "takeWhile (\<lambda>c. c \<noteq> d) (s @ d # t) = s" and "dropWhile (\<lambda>c. c \<noteq> d) (s @ d # t) = d # t"
    by (induction s) auto
  then show ?thesis by (simp add: split_once_def)
qed

lemma split_once_None [simp]: "d \<notin> set s \<Longrightarrow> split_once d s = None"
  by (simp add: split_once_def)

section \<open>Strict decoding inverts encoding\<close>

lemma take_bytes:
  assumes "byte_at bs 1 \<noteq> 0"
  shows "take 2 bs = [byte_at bs 0, byte_at bs 1]"
    and "byte_at bs 2 \<noteq> 0 \<Longrightarrow> take 3 bs = [byte_at bs 0, byte_at bs 1, byte_at bs 2]"
    and "byte_at bs 2 \<noteq> 0 \<Longrightarrow> byte_at bs 3 \<noteq> 0 \<Longrightarrow>
         take 4 bs = [byte_at bs 0, byte_at bs 1, byte_at bs 2, byte_at bs 3]"
  using assms
  by (auto simp: byte_at_def take_Suc_conv_app_nth numeral_2_eq_2 numeral_3_eq_3 numeral_eq_Suc split: if_splits)

lemma enc2: "2 \<le> p \<Longrightarrow> p < 32 \<Longrightarrow> q < 64 \<Longrightarrow> utf8_enc (p * 64 + q) = [192 + p, 128 + q]"
  by (simp add: utf8_enc_def)

lemma horner_64:
  fixes p q :: nat
  assumes "q < 64"
  shows "(p * 64 + q) div 64 = p" and "(p * 64 + q) mod 64 = q"
  using assms by simp_all

lemma enc3:
  assumes "p < 16" "q < 64" "r < 64" "p = 0 \<longrightarrow> 32 \<le> q"
  shows "utf8_enc (p * 4096 + q * 64 + r) = [224 + p, 128 + q, 128 + r]"
proof -
  let ?c = "(p * 64 + q) * 64 + r"
  note h = horner_64 [OF assms(3), of "p * 64 + q"] horner_64 [OF assms(2), of p]
  have "?c div 4096 = p"
    using div_mult2_eq [of ?c 64 64] h by simp
  moreover have "2048 \<le> ?c" "?c < 65536" using assms by (cases "p = 0", simp_all)
  ultimately have "utf8_enc ?c = [224 + p, 128 + q, 128 + r]"
    unfolding utf8_enc_def using h by (simp del: distrib_right_numeral)
  then show ?thesis by (simp add: algebra_simps)
qed

lemma enc4:
  assumes "p < 5" "q < 64" "r < 64" "t < 64" "p = 0 \<longrightarrow> 16 \<le> q"
  shows "utf8_enc (p * 262144 + q * 4096 + r * 64 + t) = [240 + p, 128 + q, 128 + r, 128 + t]"
proof -
  let ?c = "((p * 64 + q) * 64 + r) * 64 + t"
  note h = horner_64 [OF assms(4), of "(p * 64 + q) * 64 + r"]
    horner_64 [OF assms(3), of "p * 64 + q"] horner_64 [OF assms(2), of p]
  have d: "?c div 4096 = p * 64 + q"
    using div_mult2_eq [of ?c 64 64] h by simp
  moreover from this have "?c div 262144 = p"
    using div_mult2_eq [of ?c 4096 64] h by simp
  moreover have "65536 \<le> ?c" using assms by (cases "p = 0", simp_all)
  ultimately have "utf8_enc ?c = [240 + p, 128 + q, 128 + r, 128 + t]"
    unfolding utf8_enc_def using h by (simp del: distrib_right_numeral)
  then show ?thesis by (simp add: algebra_simps)
qed

lemma utf8_chunk_enc:
  assumes "utf8_chunk bs = (Some c, n)" and "bs \<noteq> []"
  shows "utf8_enc c = take n bs"
proof -
  let ?b = "byte_at bs 0" and ?x = "byte_at bs 1" and ?y = "byte_at bs 2" and ?z = "byte_at bs 3"
  consider (one) "?b < 128" "c = ?b" "n = 1"
    | (two) "194 \<le> ?b" "?b \<le> 223" "is_cont ?x" "c = (?b - 192) * 64 + (?x - 128)" "n = 2"
    | (three) "224 \<le> ?b" "?b \<le> 239" "second_ok ?b ?x" "is_cont ?y"
        "c = (?b - 224) * 4096 + (?x - 128) * 64 + (?y - 128)" "n = 3"
    | (four) "240 \<le> ?b" "?b \<le> 244" "second_ok ?b ?x" "is_cont ?y" "is_cont ?z"
        "c = (?b - 240) * 262144 + (?x - 128) * 4096 + (?y - 128) * 64 + (?z - 128)" "n = 4"
    using assms(1) by (auto simp: utf8_chunk_def Let_def split: if_splits)
  then show ?thesis
  proof cases
    case one
    then show ?thesis using assms(2) by (cases bs) (auto simp: byte_at_def utf8_enc_def)
  next
    case two
    then obtain p q where "?b = 192 + p" "?x = 128 + q" "2 \<le> p" "p < 32" "q < 64"
      by (auto simp: is_cont_def nat_le_iff_add)
    with two show ?thesis using enc2 [of p q] by (simp add: take_bytes)
  next
    case three
    then obtain p q r where "?b = 224 + p" "?x = 128 + q" "?y = 128 + r"
      by (auto simp: is_cont_def second_ok_def nat_le_iff_add split: if_splits)
    with three show ?thesis using enc3 [of p q r]
      by (simp add: take_bytes is_cont_def second_ok_def split: if_splits)
  next
    case four
    then obtain p q r t where "?b = 240 + p" "?x = 128 + q" "?y = 128 + r" "?z = 128 + t"
      by (auto simp: is_cont_def second_ok_def nat_le_iff_add split: if_splits)
    with four show ?thesis using enc4 [of p q r t]
      by (simp add: take_bytes is_cont_def second_ok_def split: if_splits)
  qed
qed

lemma from_utf8_bytes: "from_utf8 bs = Some s \<Longrightarrow> as_bytes s = bs"
proof (induction bs arbitrary: s rule: from_utf8.induct)
  case (1 bs)
  show ?case
  proof (cases "bs = []")
    case True
    with "1.prems" show ?thesis by (simp add: from_utf8.simps [of "[]"])
  next
    case False
    with "1.prems" obtain c n t where c: "utf8_chunk bs = (Some c, n)"
      and t: "from_utf8 (drop n bs) = Some t" and s: "s = c # t"
      by (auto simp: from_utf8.simps [of bs] split: prod.splits option.splits)
    from "1.IH" [OF False c [symmetric] refl t] utf8_chunk_enc [OF c False] s show ?thesis
      by (simp add: as_bytes_def)
  qed
qed

lemma utf8_enc_pos [simp]: "0 < length (utf8_enc c)"
  by (simp add: utf8_enc_def)

lemma str_len_append: "str_len (s @ t) = str_len s + str_len t"
  by (simp add: str_len_def as_bytes_def)

lemma str_len_0 [simp]: "str_len s = 0 \<longleftrightarrow> s = []"
proof (cases s)
  case (Cons c t)
  then show ?thesis using utf8_enc_pos [of c] by (simp add: str_len_def as_bytes_def)
qed (simp add: str_len_def as_bytes_def)

lemma trim_parts: "\<exists>u v. s = u @ trim s @ v"
proof -
  let ?d = "dropWhile is_whitespace s"
  have "s = takeWhile is_whitespace s @ ?d" by simp
  moreover have "?d = trim s @ rev (takeWhile is_whitespace (rev ?d))"
    unfolding trim_def trim_end_by_def rev_append [symmetric] by (simp add: takeWhile_dropWhile_id)
  ultimately show ?thesis by metis
qed

lemma trim_full: "str_len (trim s) = str_len s \<Longrightarrow> trim s = s"
  using trim_parts [of s] by (metis add.commute add_cancel_left_left append.right_neutral
      append_Nil group_cancel.add1 str_len_0 str_len_append add_eq_0_iff_both_eq_0)

lemma trim_trim [simp]: "trim (trim s) = trim s"
proof (cases "trim s = []")
  case True
  have "trim [] = []" by (simp add: trim_def trim_end_by_def)
  with True show ?thesis by simp
next
  case False
  let ?d = "dropWhile is_whitespace s"
  have t: "trim s = rev (dropWhile is_whitespace (rev ?d))" by (simp add: trim_def trim_end_by_def)
  have "\<not> is_whitespace (last (trim s))"
    using False hd_dropWhile [of is_whitespace "rev ?d"] by (simp add: t last_rev)
  moreover have "\<not> is_whitespace (hd (trim s))"
  proof -
    obtain v where v: "?d = trim s @ v"
      using takeWhile_dropWhile_id [of is_whitespace "rev ?d"] unfolding t
      by (metis rev_append rev_rev_ident)
    then have "hd (trim s) = hd ?d" using False by (cases "trim s") auto
    moreover have "?d \<noteq> []" using False v by auto
    ultimately show ?thesis using hd_dropWhile [of is_whitespace s] by simp
  qed
  ultimately show ?thesis using False by (intro trim_id)
qed

end
