(* ===== verification/Wallet.thy ===== *)
theory Wallet
  imports RustText
begin

text \<open>
  The helpers of \<open>src/utility/helper.rs\<close> that every transaction path goes through: wallet
  addresses (canonical form, strict parsing), amounts in micro-units (parsing and printing) and
  the quorum thresholds.
\<close>

section \<open>Wallet addresses\<close>

definition REMZAR_WALLET_LEN :: nat where "REMZAR_WALLET_LEN = 129"

definition REMZAR_WALLET_BODY_LEN :: nat where "REMZAR_WALLET_BODY_LEN = 128"

definition REMZAR_WALLET_PREFIX :: nat where "REMZAR_WALLET_PREFIX = 114"

definition wallet_err :: ErrorDetection where
  "wallet_err = ValidationError ''Wallet address is invalid or incomplete''"

definition wallet_bytes_err :: ErrorDetection where
  "wallet_bytes_err = ValidationError ''Wallet address bytes are invalid''"

definition canon_wallet_id_checked :: "rstr \<Rightarrow> rstr result" where
  "canon_wallet_id_checked wid =
     (let s = trim wid in
      if str_len s \<noteq> REMZAR_WALLET_LEN then Inl wallet_err
      else
        (let lower = to_ascii_lowercase s; b = as_bytes lower in
         if (case b of [] \<Rightarrow> True | x # _ \<Rightarrow> x \<noteq> REMZAR_WALLET_PREFIX) then Inl wallet_err
         else if \<not> (1 \<le> length b \<and> list_all is_lower_hex (drop 1 b)) then Inl wallet_err
         else Inr lower))"

definition canon_wallet_id :: "rstr \<Rightarrow> rstr" where
  "canon_wallet_id wid = (case canon_wallet_id_checked wid of Inl _ \<Rightarrow> trim wid | Inr w \<Rightarrow> w)"

text \<open>
  \<open>address.get(1..)\<close> is \<open>None\<close> when 1 is no character boundary, that is when the first
  character takes more than one byte; the guard on the leading \<open>r\<close> excludes it.
\<close>

definition parse_wallet_address :: "rstr \<Rightarrow> unit result" where
  "parse_wallet_address address0 =
     (let address = trim address0 in
      if str_len address \<noteq> REMZAR_WALLET_LEN then Inl wallet_err
      else if (case address of [] \<Rightarrow> True | c # _ \<Rightarrow> c \<noteq> 114) then Inl wallet_err
      else
        (let body = tl address in
         if str_len body \<noteq> REMZAR_WALLET_BODY_LEN \<or> \<not> list_all is_lower_hex (as_bytes body)
         then Inl wallet_err else Inr ()))"

definition parse_wallet_address_bytes :: "byte list \<Rightarrow> rstr result" where
  "parse_wallet_address_bytes bytes =
     (if length bytes \<noteq> REMZAR_WALLET_LEN then Inl wallet_bytes_err
      else if 0 \<in> set bytes then Inl wallet_bytes_err
      else
        bindR (ok_or wallet_bytes_err (from_utf8 (map unat bytes))) (\<lambda>s.
        bindR (parse_wallet_address s) (\<lambda>_. Inr s)))"

section \<open>Amounts\<close>

text \<open>The loop over the fractional digits, then the right padding to eight digits.\<close>

fun frac_digits :: "nat \<Rightarrow> nat list \<Rightarrow> nat option" where
  "frac_digits frac [] = Some frac"
| "frac_digits frac (b # bs) =
     (case checked_sub b 48 of None \<Rightarrow> None
      | Some digit \<Rightarrow>
        (case Option.bind (checked_mul 64 frac 10) (\<lambda>v. checked_add 64 v digit) of None \<Rightarrow> None
         | Some v \<Rightarrow> frac_digits v bs))"

fun frac_pad :: "nat \<Rightarrow> nat \<Rightarrow> nat option" where
  "frac_pad 0 frac = Some frac"
| "frac_pad (Suc k) frac =
     (case checked_mul 64 frac 10 of None \<Rightarrow> None | Some v \<Rightarrow> frac_pad k v)"

definition to_micro_units_str :: "rstr \<Rightarrow> nat" where
  "to_micro_units_str s0 =
     (let s = trim s0 in
      if s = [] \<or> 64 < str_len s then 0
      else if hd s = 45 \<or> hd s = 43 then 0
      else if list_ex is_ascii_whitespace (as_bytes s) then 0
      else if 101 \<in> set s \<or> 69 \<in> set s then 0
      else
        (let parts = (case split_once 46 s of
             Some (w, f) \<Rightarrow> if 46 \<in> set f then None else Some (w, f)
           | None \<Rightarrow> Some (s, [])) in
         case parts of None \<Rightarrow> 0
         | Some (whole_part, frac_part) \<Rightarrow>
           if whole_part = [] \<and> frac_part = [] then 0
           else
             (let whole_str = (if whole_part = [] then [48] else whole_part) in
              if \<not> list_all is_ascii_digit (as_bytes whole_str) then 0
              else if \<not> list_all is_ascii_digit (as_bytes frac_part) then 0
              else if 8 < str_len frac_part then 0
              else
                (case parse_u64 whole_str of None \<Rightarrow> 0
                 | Some whole \<Rightarrow>
                   (case Option.bind (frac_digits 0 (as_bytes frac_part))
                           (frac_pad (8 - str_len frac_part)) of None \<Rightarrow> 0
                    | Some frac \<Rightarrow>
                      (case checked_mul 64 whole 100000000 of None \<Rightarrow> 0
                       | Some whole_scaled \<Rightarrow>
                         (case checked_add 64 whole_scaled frac of None \<Rightarrow> 0 | Some v \<Rightarrow> v)))))))"

definition format_remzar :: "nat \<Rightarrow> rstr" where
  "format_remzar amount =
     (let whole = amount div 100000000; frac = amount mod 100000000 in
      decimal whole @ [46] @ decimal_padded 8 frac)"

definition format_remzar_trim :: "nat \<Rightarrow> rstr" where
  "format_remzar_trim amount =
     (let s = format_remzar amount in
      case split_once 46 s of
        Some (whole, frac) \<Rightarrow>
          (let frac_trimmed = trim_end_by (\<lambda>c. c = 48) frac in
           if frac_trimmed = [] then whole else whole @ [46] @ frac_trimmed)
      | None \<Rightarrow> s)"

definition format_remzar_trim_one_decimal :: "nat \<Rightarrow> rstr" where
  "format_remzar_trim_one_decimal amount =
     (let s = format_remzar amount in
      case split_once 46 s of
        Some (whole, frac) \<Rightarrow>
          (let frac_trimmed = trim_end_by (\<lambda>c. c = 48) frac in
           if frac_trimmed = [] then whole else whole @ [46] @ frac_trimmed)
      | None \<Rightarrow> s)"

section \<open>Quorum\<close>

definition quorum_threshold :: "nat \<Rightarrow> nat" where
  "quorum_threshold n = (if n \<le> 1 then 1 else if n \<le> 9 then 2 else div_ceil n 5)"

definition quorum_threshold_checked :: "nat \<Rightarrow> nat result" where
  "quorum_threshold_checked n = (if n \<le> 1 then Inr 1 else if n \<le> 9 then Inr 2 else Inr (div_ceil n 5))"

definition has_quorum :: "nat \<Rightarrow> nat \<Rightarrow> bool" where
  "has_quorum have_n canon_n \<longleftrightarrow> quorum_threshold canon_n \<le> have_n"

section \<open>Canonical wallets\<close>

text \<open>The format the code means by a canonical wallet: \<open>r\<close> and 128 lower-case hex digits.\<close>

definition canonical_wallet :: "rstr \<Rightarrow> bool" where
  "canonical_wallet w \<longleftrightarrow> length w = 129 \<and> hd w = 114 \<and> list_all is_lower_hex (tl w)"

lemma canonical_wallet_Cons:
  "canonical_wallet w \<longleftrightarrow> (\<exists>b. w = 114 # b \<and> length b = 128 \<and> list_all is_lower_hex b)"
  by (cases w) (auto simp: canonical_wallet_def)

lemma lower_hex_facts:
  assumes "is_lower_hex c"
  shows "c < 128" and "\<not> is_whitespace c" and "c \<noteq> 0" and "\<not> is_ascii_control c"
    and "\<not> (65 \<le> c \<and> c \<le> 90)"
  using assms by (auto simp: is_lower_hex_def is_whitespace_def is_ascii_control_def)

lemma lower_hex_ascii: "list_all is_lower_hex b \<Longrightarrow> is_ascii b"
  by (induction b) (auto dest: lower_hex_facts)

lemma lower_hex_lowercase: "list_all is_lower_hex b \<Longrightarrow> to_ascii_lowercase b = b"
  by (induction b) (auto simp: to_ascii_lowercase_def dest: lower_hex_facts(5))

lemma canonical_wallet_facts:
  assumes "canonical_wallet w"
  shows "is_ascii w" and "trim w = w" and "str_len w = 129" and "as_bytes w = w"
    and "to_ascii_lowercase w = w" and "0 \<notin> set w" and "list_all (\<lambda>c. \<not> is_ascii_control c) w"
proof -
  obtain b where w: "w = 114 # b" and len: "length b = 128" and hex: "list_all is_lower_hex b"
    using assms by (auto simp: canonical_wallet_Cons)
  show asc: "is_ascii w" using hex by (simp add: w lower_hex_ascii)
  show "trim w = w"
    using list.pred_mono_strong [OF hex lower_hex_facts(2)]
    by (intro trim_none) (simp add: w is_whitespace_def [of 114])
  show "str_len w = 129" using asc len by (simp add: str_len_ascii w)
  show "as_bytes w = w" using asc by (rule as_bytes_ascii)
  show "to_ascii_lowercase w = w"
    using lower_hex_lowercase [OF hex] by (simp add: w to_ascii_lowercase_def)
  show "0 \<notin> set w" using hex by (auto simp: w list_all_iff dest: lower_hex_facts)
  show "list_all (\<lambda>c. \<not> is_ascii_control c) w"
    using list.pred_mono_strong [OF hex lower_hex_facts(4)]
    by (simp add: w is_ascii_control_def [of 114])
qed

lemma canon_wallet_canonical:
  assumes "canonical_wallet w"
  shows "canon_wallet_id_checked w = Inr w"
proof -
  note f = canonical_wallet_facts [OF assms]
  obtain b where w: "w = 114 # b" and hex: "list_all is_lower_hex b"
    using assms by (auto simp: canonical_wallet_Cons)
  show ?thesis
    using f(2,3,4,5) hex
    by (simp add: canon_wallet_id_checked_def Let_def REMZAR_WALLET_LEN_def REMZAR_WALLET_PREFIX_def w)
qed

lemma parse_wallet_canonical:
  assumes "canonical_wallet w"
  shows "parse_wallet_address w = Inr ()"
proof -
  note f = canonical_wallet_facts [OF assms]
  obtain b where w: "w = 114 # b" and len: "length b = 128" and hex: "list_all is_lower_hex b"
    using assms by (auto simp: canonical_wallet_Cons)
  have "str_len b = 128" "as_bytes b = b"
    using lower_hex_ascii [OF hex] len by (simp_all add: str_len_ascii as_bytes_ascii)
  then show ?thesis
    using f(2,3) hex
    by (simp add: parse_wallet_address_def Let_def REMZAR_WALLET_LEN_def REMZAR_WALLET_BODY_LEN_def w)
qed

lemma to_ascii_lowercase_ascii: "is_ascii (to_ascii_lowercase s) \<Longrightarrow> is_ascii s"
  by (induction s) (auto simp: to_ascii_lowercase_def split: if_splits)

lemma length_to_ascii_lowercase [simp]: "length (to_ascii_lowercase s) = length s"
  by (simp add: to_ascii_lowercase_def)

lemma canon_wallet_result:
  assumes "canon_wallet_id_checked wid = Inr w"
  shows "canonical_wallet w" and "w = to_ascii_lowercase (trim wid)"
proof -
  let ?b = "as_bytes (to_ascii_lowercase (trim wid))"
  have len: "str_len (trim wid) = 129" and w: "w = to_ascii_lowercase (trim wid)"
    and hd: "?b \<noteq> []" "hd ?b = 114" and hex: "list_all is_lower_hex (tl ?b)"
    using assms
    by (auto simp: canon_wallet_id_checked_def Let_def REMZAR_WALLET_LEN_def REMZAR_WALLET_PREFIX_def
        drop_Suc split: if_splits list.splits)
  have "list_all (\<lambda>b. b < 128) ?b"
    using hd hex by (cases ?b) (auto simp: list_all_iff dest: lower_hex_facts)
  then have asc: "is_ascii w" unfolding w by (rule as_bytes_ascii_conv)
  then have b: "?b = w" by (simp add: w as_bytes_ascii)
  have "length w = 129"
    using len to_ascii_lowercase_ascii asc by (simp add: w str_len_ascii)
  with hd hex show "canonical_wallet w" by (simp add: b canonical_wallet_def)
  show "w = to_ascii_lowercase (trim wid)" by (rule w)
qed

lemma parse_wallet_result:
  assumes "parse_wallet_address s = Inr ()"
  shows "canonical_wallet (trim s)"
proof -
  let ?a = "trim s"
  obtain c b where a: "?a = c # b" and c: "c = 114" and b: "str_len b = 128"
    and hex: "list_all is_lower_hex (as_bytes b)"
    using assms
    by (auto simp: parse_wallet_address_def Let_def REMZAR_WALLET_LEN_def REMZAR_WALLET_BODY_LEN_def
        split: if_splits list.splits)
  have "list_all (\<lambda>x. x < 128) (as_bytes b)"
    using hex by (auto simp: list_all_iff dest: lower_hex_facts)
  then have "is_ascii b" by (rule as_bytes_ascii_conv)
  with b hex show ?thesis by (simp add: a c canonical_wallet_def str_len_ascii as_bytes_ascii)
qed

lemma parse_wallet_bytes_result:
  assumes "parse_wallet_address_bytes b = Inr s"
  shows "canonical_wallet s" and "map unat b = s"
proof -
  have len: "length b = 129" and dec: "from_utf8 (map unat b) = Some s"
    and ok: "parse_wallet_address s = Inr ()"
    using assms by (auto simp: parse_wallet_address_bytes_def REMZAR_WALLET_LEN_def res_simps split: if_splits)
  have bytes: "as_bytes s = map unat b" by (rule from_utf8_bytes [OF dec])
  have w: "canonical_wallet (trim s)" by (rule parse_wallet_result [OF ok])
  have "str_len s = 129" by (simp add: str_len_def bytes len)
  then have t: "trim s = s" by (intro trim_full) (simp add: canonical_wallet_facts(3) [OF w])
  from w show "canonical_wallet s" by (simp add: t)
  then show "map unat b = s" using bytes by (simp add: canonical_wallet_facts(4))
qed

lemma map_unat_word_of_nat: "list_all (\<lambda>c. c < 256) s \<Longrightarrow> map unat (map word_of_nat s :: byte list) = s"
  by (induction s) (auto simp: unat_of_nat)

lemma map_word_of_unat: "map word_of_nat (map unat (b :: byte list)) = b"
  by (induction b) auto

lemma parse_wallet_bytes_canonical:
  assumes "canonical_wallet w"
  shows "parse_wallet_address_bytes (map word_of_nat w) = Inr w"
proof -
  note f = canonical_wallet_facts [OF assms]
  have small: "list_all (\<lambda>c. c < 256) w"
    using f(1) by (auto simp: is_ascii_def list_all_iff)
  have "0 \<notin> set (map word_of_nat w :: byte list)"
  proof
    assume "0 \<in> set (map word_of_nat w :: byte list)"
    then have "0 \<in> unat ` set (map word_of_nat w :: byte list)" by force
    then have "0 \<in> set (map unat (map word_of_nat w :: byte list))" by (simp only: set_map)
    with f(6) show False by (simp only: map_unat_word_of_nat [OF small])
  qed
  then show ?thesis
    using assms from_utf8_ascii [OF f(1)] parse_wallet_canonical [OF assms]
    by (simp add: parse_wallet_address_bytes_def REMZAR_WALLET_LEN_def canonical_wallet_def
        map_unat_word_of_nat [OF small] del: map_map)
qed

section \<open>Reading amounts\<close>

lemma frac_digits_eq:
  "list_all is_ascii_digit bs \<Longrightarrow> length bs \<le> k \<Longrightarrow> k \<le> 18 \<Longrightarrow> frac < 10 ^ (18 - k) \<Longrightarrow>
   frac_digits frac bs = Some (foldl (\<lambda>acc b. acc * 10 + (b - 48)) frac bs)"
proof (induction bs arbitrary: frac k)
  case (Cons b bs)
  from Cons.prems have d: "48 \<le> b" "b - 48 \<le> 9" by (auto simp: is_ascii_digit_def)
  from Cons.prems obtain j where k: "k = Suc j" and j: "length bs \<le> j" by (cases k) auto
  have bound: "frac * 10 + (b - 48) < 10 ^ (18 - j)"
  proof -
    have "18 - j = Suc (18 - k)" using Cons.prems(3) k by simp
    with Cons.prems(4) d(2) show ?thesis by simp
  qed
  moreover have "(10::nat) ^ (18 - j) \<le> 10 ^ 18" by (rule power_increasing) simp_all
  ultimately have small: "frac * 10 + (b - 48) < 2 ^ 64" by simp
  then have "checked_mul 64 frac 10 = Some (frac * 10)"
    and "checked_add 64 (frac * 10) (b - 48) = Some (frac * 10 + (b - 48))"
    by (simp_all add: checked_mul_def checked_add_def)
  with d Cons.IH [OF _ j _ bound] Cons.prems k show ?case by (simp add: checked_sub_def)
qed simp

lemma frac_pad_eq: "frac * 10 ^ k < 2 ^ 64 \<Longrightarrow> frac_pad k frac = Some (frac * 10 ^ k)"
proof (induction k arbitrary: frac)
  case (Suc k)
  have "frac * 10 * 1 \<le> frac * 10 * 10 ^ k" by (rule mult_le_mono2) simp
  also have "\<dots> = frac * 10 ^ Suc k" by simp
  finally have "frac * 10 < 2 ^ 64" using Suc.prems by linarith
  with Suc show ?case by (simp add: checked_mul_def ac_simps)
qed simp

text \<open>
  A decimal number with a whole part and at most eight digits after the point is read to the
  scaled integer it denotes, if that fits u64.
\<close>

lemma digits_facts:
  assumes "list_all is_ascii_digit ds"
  shows "as_bytes ds = ds" and "str_len ds = length ds" and "46 \<notin> set ds" and "101 \<notin> set ds"
    and "69 \<notin> set ds" and "list_all (\<lambda>c. \<not> is_whitespace c) ds"
    and "\<not> list_ex is_ascii_whitespace ds"
  using assms digits_ascii [OF assms]
  by (auto simp: as_bytes_ascii str_len_ascii list_all_iff list_ex_iff is_ascii_digit_def
      is_whitespace_def is_ascii_whitespace_def)

lemma read_fraction:
  assumes f: "list_all is_ascii_digit f" and len: "length f \<le> 8"
  shows "Option.bind (frac_digits 0 f) (frac_pad (8 - length f)) =
     Some (digits_val f * 10 ^ (8 - length f))"
proof -
  have bound: "digits_val f < 10 ^ length f"
    using f
  proof (induction f rule: rev_induct)
    case (snoc b f)
    then have "b - 48 \<le> 9" by (auto simp: is_ascii_digit_def)
    with snoc show ?case by simp
  qed simp
  then have "digits_val f * 10 ^ (8 - length f) < 10 ^ length f * 10 ^ (8 - length f)" by simp
  also have "\<dots> = 10 ^ 8" using len by (simp flip: power_add)
  finally have "digits_val f * 10 ^ (8 - length f) < 2 ^ 64" by simp
  then show ?thesis
    using frac_digits_eq [OF f len] by (simp add: frac_pad_eq digits_val_def)
qed

lemma to_micro_units_point:
  assumes w: "list_all is_ascii_digit w" "w \<noteq> []" "length w \<le> 50"
    and f: "list_all is_ascii_digit f" "length f \<le> 8"
    and fits: "digits_val w * 100000000 + digits_val f * 10 ^ (8 - length f) < 2 ^ 64"
  shows "to_micro_units_str (w @ 46 # f) = digits_val w * 100000000 + digits_val f * 10 ^ (8 - length f)"
proof -
  note dw = digits_facts [OF w(1)] and df = digits_facts [OF f(1)]
  have dot: "\<not> is_whitespace 46" "utf8_enc 46 = [46]" "\<not> is_ascii_whitespace 46"
    by (simp_all add: is_whitespace_def utf8_enc_def is_ascii_whitespace_def)
  have tr: "trim (w @ 46 # f) = w @ 46 # f"
    using dw df dot by (intro trim_none) simp
  have len: "str_len (w @ 46 # f) = length w + length f + 1"
    using dw df dot by (simp add: str_len_def)
  have hd: "hd w \<noteq> 45" "hd w \<noteq> 43"
    using w by (cases w; simp add: is_ascii_digit_def)+
  have "digits_val w < 2 ^ 64" using fits by simp
  then have parse: "parse_u64 w = Some (digits_val w)"
    using w by (simp add: parse_u64_def)
  show ?thesis
    using w f fits dw df dot hd
    by (simp add: to_micro_units_str_def Let_def tr len split_once_append parse read_fraction
        checked_mul_def checked_add_def)
qed

lemma to_micro_units_whole:
  assumes w: "list_all is_ascii_digit w" "w \<noteq> []" "length w \<le> 50"
    and fits: "digits_val w * 100000000 < 2 ^ 64"
  shows "to_micro_units_str w = digits_val w * 100000000"
proof -
  note dw = digits_facts [OF w(1)]
  have tr: "trim w = w" using dw by (intro trim_none) simp
  have hd: "hd w \<noteq> 45" "hd w \<noteq> 43"
    using w by (cases w; simp add: is_ascii_digit_def)+
  have "digits_val w < 2 ^ 64" using fits by simp
  then have parse: "parse_u64 w = Some (digits_val w)"
    using w by (simp add: parse_u64_def)
  have z: "str_len [] = 0" by (simp add: str_len_def)
  have pad: "frac_pad 8 0 = Some 0" by (simp add: frac_pad_eq)
  show ?thesis
    using w fits dw hd
    by (simp add: to_micro_units_str_def Let_def tr parse z pad checked_mul_def checked_add_def)
qed

lemma trim_zeros_value:
  assumes "f' = trim_end_by (\<lambda>c. c = 48) f"
  shows "digits_val f = digits_val f' * 10 ^ (length f - length f')" and "length f' \<le> length f"
    and "list_all is_ascii_digit f \<Longrightarrow> list_all is_ascii_digit f'"
proof -
  have f: "f = f' @ replicate (length f - length f') 48"
  proof -
    have "rev f = takeWhile (\<lambda>c. c = 48) (rev f) @ dropWhile (\<lambda>c. c = 48) (rev f)" by simp
    then have "f = f' @ rev (takeWhile (\<lambda>c. c = 48) (rev f))"
      unfolding assms trim_end_by_def by (metis rev_append rev_rev_ident)
    moreover have "rev (takeWhile (\<lambda>c. c = 48) (rev f)) =
        replicate (length (takeWhile (\<lambda>c. c = 48) (rev f))) 48"
      by (intro replicate_eqI) (auto dest: set_takeWhileD)
    ultimately show ?thesis by (metis add_diff_cancel_left' length_append length_replicate)
  qed
  then show len: "length f' \<le> length f" by (metis le_add1 length_append)
  have "digits_val (f' @ replicate k 48) = digits_val f' * 10 ^ k" for k
  proof (induction k)
    case (Suc k)
    have "f' @ replicate (Suc k) 48 = (f' @ replicate k 48) @ [48]"
      by (simp add: replicate_append_same)
    with Suc show ?case by (simp only: digits_val_snoc) simp
  qed simp
  with f show "digits_val f = digits_val f' * 10 ^ (length f - length f')" by metis
  assume "list_all is_ascii_digit f"
  with f show "list_all is_ascii_digit f'" by (metis list_all_append)
qed

section \<open>Properties\<close>

text \<open>\<open>canon_wallet_id_checked\<close> accepts only what is a wallet after trimming and lower-casing:
  its result is \<open>r\<close> followed by 128 lower-case hex digits, it is a fixed point of the function, and
  the strict parser \<open>parse_wallet_address\<close> accepts it.\<close>

theorem canon_wallet_id_canonical:
  assumes "canon_wallet_id_checked wid = Inr w"
  shows "canonical_wallet w \<and> canon_wallet_id_checked w = Inr w \<and> parse_wallet_address w = Inr ()"
  using canon_wallet_result [OF assms] canon_wallet_canonical parse_wallet_canonical by blast

theorem canon_wallet_id_canonical_witness:
  "canonical_wallet (114 # replicate 128 97) \<and>
   canon_wallet_id_checked (114 # replicate 128 97) = Inr (114 # replicate 128 97) \<and>
   parse_wallet_address (114 # replicate 128 97) = Inr ()"
  by (rule canon_wallet_id_canonical [OF canon_wallet_canonical])
    (simp add: canonical_wallet_def is_lower_hex_def list_all_iff)

text \<open>Amounts round-trip: printing a u64 number of micro-units with \<open>format_remzar\<close>, or with
  \<open>format_remzar_trim\<close>, and reading the text with \<open>to_micro_units_str\<close> gives the number back.\<close>

theorem amount_roundtrip:
  assumes n: "n < 2 ^ 64"
  shows "to_micro_units_str (format_remzar n) = n \<and> to_micro_units_str (format_remzar_trim n) = n"
proof -
  define w where "w = decimal (n div 100000000)"
  define f where "f = decimal_padded 8 (n mod 100000000)"
  define f' where "f' = trim_end_by (\<lambda>c. c = 48) f"
  have w: "list_all is_ascii_digit w" "w \<noteq> []" "digits_val w = n div 100000000"
    by (simp_all add: w_def decimal_digits decimal_val)
  have f: "list_all is_ascii_digit f" "length f = 8" "digits_val f = n mod 100000000"
    by (simp_all add: f_def decimal_padded_digits length_decimal_padded)
  have lw: "length w \<le> 50"
    using n length_decimal [of "n div 100000000" 49]
    by (simp add: w_def div_less_iff_less_mult le_less_trans [OF div_le_dividend])
  have sum: "n div 100000000 * 100000000 + n mod 100000000 = n" by simp
  note f' = trim_zeros_value [OF f'_def]
  have fmt: "format_remzar n = w @ 46 # f"
    by (simp add: format_remzar_def Let_def w_def f_def)
  have trim: "format_remzar_trim n = (if f' = [] then w else w @ 46 # f')"
    using digits_facts(3) [OF w(1)]
    by (simp add: format_remzar_trim_def Let_def fmt split_once_append f'_def)
  have "to_micro_units_str (w @ 46 # f) = n"
    using to_micro_units_point [of w f] w f lw n sum by simp
  moreover have "to_micro_units_str (format_remzar_trim n) = n"
  proof (cases "f' = []")
    case True
    with f' f have "n mod 100000000 = 0" by simp
    with sum have e: "n div 100000000 * 100000000 = n" by simp
    with True trim show ?thesis using to_micro_units_whole [of w] w lw n by simp
  next
    case False
    with trim show ?thesis using to_micro_units_point [of w f'] f' w f lw n sum by simp
  qed
  ultimately show ?thesis by (simp add: fmt)
qed

theorem amount_roundtrip_witness:
  "to_micro_units_str (format_remzar 30012000000) = 30012000000 \<and>
   to_micro_units_str (format_remzar_trim 30012000000) = 30012000000"
  by (rule amount_roundtrip) simp

end
