(* ===== verification/TimePolicy.thy ===== *)
theory TimePolicy
  imports RustText
begin

text \<open>
  The timestamp policy of \<open>src/utility/time_policy.rs\<close>: the structural bounds every stored
  timestamp obeys, the runtime checks against a wall clock, and the deterministic slot arithmetic
  of consensus. The reading of the wall clock (chrono, not part of the sources) is an argument.
\<close>

section \<open>Bounds\<close>

definition UNIX_2000_SECS :: nat where "UNIX_2000_SECS = 946684800"
definition UNIX_2000_MILLIS :: nat where "UNIX_2000_MILLIS = UNIX_2000_SECS * 1000"
definition UNIX_9999_SECS :: nat where "UNIX_9999_SECS = 253402300799"
definition UNIX_9999_MILLIS :: nat where "UNIX_9999_MILLIS = UNIX_9999_SECS * 1000"
definition MAX_SLOT_GATE_DRIFT_SECS :: nat where "MAX_SLOT_GATE_DRIFT_SECS = 24 * 60 * 60"
definition MAX_BLOCK_INTERVAL_SECS :: nat where "MAX_BLOCK_INTERVAL_SECS = 24 * 60 * 60"

lemmas time_consts = UNIX_2000_SECS_def UNIX_2000_MILLIS_def UNIX_9999_SECS_def UNIX_9999_MILLIS_def
  MAX_SLOT_GATE_DRIFT_SECS_def MAX_BLOCK_INTERVAL_SECS_def

section \<open>Structural checks\<close>

definition validate_unix_secs_structural :: "nat \<Rightarrow> unit result" where
  "validate_unix_secs_structural ts =
     (if ts < UNIX_2000_SECS then Inl (ValidationError ''timestamp below UNIX_2000_SECS'')
      else if ts > UNIX_9999_SECS then Inl (ValidationError ''timestamp above UNIX_9999_SECS'')
      else Inr ())"

definition validate_unix_millis_structural :: "nat \<Rightarrow> unit result" where
  "validate_unix_millis_structural ts_ms =
     (if ts_ms < UNIX_2000_MILLIS then Inl (ValidationError ''timestamp_ms below UNIX_2000_MILLIS'')
      else if ts_ms > UNIX_9999_MILLIS then Inl (ValidationError ''timestamp_ms above UNIX_9999_MILLIS'')
      else Inr ())"

definition now_unix_secs_runtime :: "int \<Rightarrow> nat result" where
  "now_unix_secs_runtime clock =
     (if clock < 0 then Inl (TimestampError ''Timestamp error'')
      else bindR (validate_unix_secs_structural (nat clock)) (\<lambda>_. Inr (nat clock)))"

definition now_unix_millis_runtime :: "int \<Rightarrow> nat result" where
  "now_unix_millis_runtime clock =
     (if clock < 0 then Inl (TimestampError ''Timestamp error'')
      else bindR (validate_unix_millis_structural (nat clock)) (\<lambda>_. Inr (nat clock)))"

section \<open>Chain time configuration\<close>

record ChainTimePolicyConfig =
  genesis_time_unix :: nat
  block_interval_secs :: nat
  slot_gate_drift_secs :: nat

definition from_genesis_and_globals :: "nat \<Rightarrow> ChainTimePolicyConfig" where
  "from_genesis_and_globals genesis =
     \<lparr>genesis_time_unix = genesis, block_interval_secs = BLOCK_CREATION_INTERVAL_SECS,
      slot_gate_drift_secs = SLOT_GATE_DRIFT_SECS\<rparr>"

definition cfg_validate :: "ChainTimePolicyConfig \<Rightarrow> unit result" where
  "cfg_validate cfg =
     bindR (validate_unix_secs_structural (genesis_time_unix cfg)) (\<lambda>_.
     if block_interval_secs cfg = 0
       then Inl (ValidationError ''block_interval_secs must be >= 1'')
     else if block_interval_secs cfg > MAX_BLOCK_INTERVAL_SECS
       then Inl (ValidationError ''block_interval_secs exceeds max'')
     else if slot_gate_drift_secs cfg > MAX_SLOT_GATE_DRIFT_SECS
       then Inl (ValidationError ''slot_gate_drift_secs exceeds max'')
     else Inr ())"

definition slot_start_unix_checked :: "ChainTimePolicyConfig \<Rightarrow> nat \<Rightarrow> nat result" where
  "slot_start_unix_checked cfg slot =
     bindR (cfg_validate cfg) (\<lambda>_.
     bindR (ok_or (ValidationError ''slot_start_unix overflow while multiplying'')
              (checked_mul 64 slot (block_interval_secs cfg))) (\<lambda>offset.
     bindR (ok_or (ValidationError ''slot_start_unix overflow while adding'')
              (checked_add 64 (genesis_time_unix cfg) offset)) (\<lambda>start.
     bindR (validate_unix_secs_structural start) (\<lambda>_. Inr start))))"

definition slot_start_unix_saturating :: "ChainTimePolicyConfig \<Rightarrow> nat \<Rightarrow> nat" where
  "slot_start_unix_saturating cfg slot =
     saturating_add 64 (genesis_time_unix cfg)
       (saturating_mul 64 slot (max (block_interval_secs cfg) 1))"

definition slot_for_timestamp_checked :: "ChainTimePolicyConfig \<Rightarrow> nat \<Rightarrow> nat result" where
  "slot_for_timestamp_checked cfg ts_unix =
     bindR (cfg_validate cfg) (\<lambda>_.
     bindR (validate_unix_secs_structural ts_unix) (\<lambda>_.
     if ts_unix < saturating_sub (genesis_time_unix cfg) (slot_gate_drift_secs cfg)
       then Inl (ValidationError ''timestamp before genesis window'')
     else Inr (saturating_sub ts_unix (genesis_time_unix cfg) div block_interval_secs cfg)))"

definition secs_into_slot_checked :: "ChainTimePolicyConfig \<Rightarrow> nat \<Rightarrow> nat \<Rightarrow> nat result" where
  "secs_into_slot_checked cfg slot ts_unix =
     bindR (cfg_validate cfg) (\<lambda>_.
     bindR (validate_unix_secs_structural ts_unix) (\<lambda>_.
     bindR (slot_start_unix_checked cfg slot) (\<lambda>slot_start.
     Inr (saturating_sub ts_unix slot_start))))"

section \<open>Runtime checks\<close>

definition validate_runtime_future_skew_secs :: "nat \<Rightarrow> nat \<Rightarrow> nat \<Rightarrow> unit result" where
  "validate_runtime_future_skew_secs ts now_unix max_future_skew_secs =
     bindR (validate_unix_secs_structural ts) (\<lambda>_.
     bindR (validate_unix_secs_structural now_unix) (\<lambda>_.
     bindR (ok_or (ValidationError ''overflow computing future skew'')
              (checked_add 64 now_unix max_future_skew_secs)) (\<lambda>max_allowed.
     bindR (validate_unix_secs_structural max_allowed) (\<lambda>_.
     if ts > max_allowed then Inl (ValidationError ''timestamp too far in future'') else Inr ()))))"

definition validate_runtime_future_skew_secs_default :: "nat \<Rightarrow> nat \<Rightarrow> unit result" where
  "validate_runtime_future_skew_secs_default ts now_unix =
     validate_runtime_future_skew_secs ts now_unix MAX_FUTURE_SKEW_SECS"

definition validate_offchain_timestamp_ms :: "nat \<Rightarrow> nat \<Rightarrow> nat \<Rightarrow> nat option \<Rightarrow> unit result" where
  "validate_offchain_timestamp_ms ts_ms now_ms max_future_skew_ms max_past_age_ms =
     bindR (validate_unix_millis_structural ts_ms) (\<lambda>_.
     bindR (validate_unix_millis_structural now_ms) (\<lambda>_.
     bindR (ok_or (ValidationError ''overflow computing future skew ms'')
              (checked_add 64 now_ms max_future_skew_ms)) (\<lambda>max_allowed.
     bindR (validate_unix_millis_structural max_allowed) (\<lambda>_.
     if ts_ms > max_allowed then Inl (ValidationError ''timestamp_ms too far in future'')
     else (case max_past_age_ms of None \<Rightarrow> Inr ()
       | Some max_past \<Rightarrow>
         if ts_ms < saturating_sub now_ms max_past
         then Inl (ValidationError ''timestamp_ms too old'') else Inr ())))))"

section \<open>Consensus checks\<close>

definition validate_block_timestamp_against_parent :: "nat \<Rightarrow> nat \<Rightarrow> nat \<Rightarrow> unit result" where
  "validate_block_timestamp_against_parent block_ts parent_ts min_delta_secs =
     bindR (validate_unix_secs_structural block_ts) (\<lambda>_.
     bindR (validate_unix_secs_structural parent_ts) (\<lambda>_.
     bindR (ok_or (ValidationError ''block.timestamp parent delta overflow'')
              (checked_add 64 parent_ts min_delta_secs)) (\<lambda>min_allowed.
     bindR (validate_unix_secs_structural min_allowed) (\<lambda>_.
     if block_ts < min_allowed then Inl (ValidationError ''block.timestamp too early'')
     else Inr ()))))"

definition validate_block_timestamp_for_declared_slot ::
    "ChainTimePolicyConfig \<Rightarrow> nat \<Rightarrow> nat \<Rightarrow> unit result" where
  "validate_block_timestamp_for_declared_slot cfg declared_slot block_ts =
     bindR (cfg_validate cfg) (\<lambda>_.
     bindR (validate_unix_secs_structural block_ts) (\<lambda>_.
     bindR (slot_start_unix_checked cfg declared_slot) (\<lambda>slot_start.
     let drift = slot_gate_drift_secs cfg; earliest = saturating_sub slot_start drift in
     bindR (ok_or (ValidationError ''declared slot window overflow'')
              (Option.bind (checked_add 64 slot_start (block_interval_secs cfg))
                 (\<lambda>v. checked_add 64 v drift))) (\<lambda>latest.
     bindR (validate_unix_secs_structural latest) (\<lambda>_.
     if block_ts < earliest \<or> block_ts > latest
       then Inl (ValidationError ''block.timestamp outside declared slot window'')
     else Inr ())))))"

definition derive_slot_from_block_timestamp ::
    "ChainTimePolicyConfig \<Rightarrow> nat \<Rightarrow> (nat \<times> nat) result" where
  "derive_slot_from_block_timestamp cfg block_ts =
     bindR (cfg_validate cfg) (\<lambda>_.
     bindR (validate_unix_secs_structural block_ts) (\<lambda>_.
     bindR (slot_for_timestamp_checked cfg block_ts) (\<lambda>slot.
     bindR (secs_into_slot_checked cfg slot block_ts) (\<lambda>into_slot.
     Inr (slot, into_slot)))))"

definition canonical_event_timestamp_from_block :: "nat \<Rightarrow> nat result" where
  "canonical_event_timestamp_from_block containing_block_ts =
     bindR (validate_unix_secs_structural containing_block_ts) (\<lambda>_. Inr containing_block_ts)"

definition validate_tx_timestamp_within_block_window :: "nat \<Rightarrow> nat \<Rightarrow> nat \<Rightarrow> unit result" where
  "validate_tx_timestamp_within_block_window tx_ts block_ts allowed_delta_secs =
     bindR (validate_unix_secs_structural tx_ts) (\<lambda>_.
     bindR (validate_unix_secs_structural block_ts) (\<lambda>_.
     let earliest = saturating_sub block_ts allowed_delta_secs in
     bindR (ok_or (ValidationError ''overflow computing tx/block timestamp window'')
              (checked_add 64 block_ts allowed_delta_secs)) (\<lambda>latest.
     bindR (validate_unix_secs_structural latest) (\<lambda>_.
     if tx_ts < earliest \<or> tx_ts > latest
       then Inl (ValidationError ''tx timestamp outside containing block window'')
     else Inr ()))))"

section \<open>Lemmas\<close>

lemma validate_unix_secs_Inr [simp]:
  "validate_unix_secs_structural ts = Inr u \<longleftrightarrow> UNIX_2000_SECS \<le> ts \<and> ts \<le> UNIX_9999_SECS"
  by (auto simp: validate_unix_secs_structural_def not_less)

lemma validate_unix_millis_Inr [simp]:
  "validate_unix_millis_structural ts = Inr u \<longleftrightarrow> UNIX_2000_MILLIS \<le> ts \<and> ts \<le> UNIX_9999_MILLIS"
  by (auto simp: validate_unix_millis_structural_def not_less)

lemma cfg_validate_Inr:
  "cfg_validate cfg = Inr u \<longleftrightarrow>
     UNIX_2000_SECS \<le> genesis_time_unix cfg \<and> genesis_time_unix cfg \<le> UNIX_9999_SECS \<and>
     1 \<le> block_interval_secs cfg \<and> block_interval_secs cfg \<le> MAX_BLOCK_INTERVAL_SECS \<and>
     slot_gate_drift_secs cfg \<le> MAX_SLOT_GATE_DRIFT_SECS"
  by (auto simp: cfg_validate_def res_simps)

lemma slot_start_Inr:
  "slot_start_unix_checked cfg slot = Inr start \<longleftrightarrow>
     cfg_validate cfg = Inr () \<and> start = genesis_time_unix cfg + slot * block_interval_secs cfg \<and>
     UNIX_2000_SECS \<le> start \<and> start \<le> UNIX_9999_SECS"
proof -
  have "start \<le> UNIX_9999_SECS \<Longrightarrow> start < 2 ^ 64" for start by (simp add: time_consts)
  moreover have "a + b < (2::nat) ^ 64 \<Longrightarrow> b < 2 ^ 64" for a b by simp
  ultimately show ?thesis
    by (auto simp: slot_start_unix_checked_def res_simps checked_mul_Some_iff checked_add_Some_iff)
qed

lemma slot_for_timestamp_Inr:
  "slot_for_timestamp_checked cfg ts = Inr slot \<longleftrightarrow>
     cfg_validate cfg = Inr () \<and> UNIX_2000_SECS \<le> ts \<and> ts \<le> UNIX_9999_SECS \<and>
     genesis_time_unix cfg - slot_gate_drift_secs cfg \<le> ts \<and>
     slot = (ts - genesis_time_unix cfg) div block_interval_secs cfg"
  by (auto simp: slot_for_timestamp_checked_def res_simps not_less)

lemma derive_slot_Inr:
  "derive_slot_from_block_timestamp cfg ts = Inr (slot, into_slot) \<longleftrightarrow>
     slot_for_timestamp_checked cfg ts = Inr slot \<and>
     slot_start_unix_checked cfg slot = Inr (genesis_time_unix cfg + slot * block_interval_secs cfg) \<and>
     into_slot = ts - (genesis_time_unix cfg + slot * block_interval_secs cfg)"
  by (auto simp: derive_slot_from_block_timestamp_def secs_into_slot_checked_def res_simps
      slot_for_timestamp_Inr slot_start_Inr)

lemma declared_slot_Inr:
  "validate_block_timestamp_for_declared_slot cfg slot ts = Inr u \<longleftrightarrow>
     UNIX_2000_SECS \<le> ts \<and> ts \<le> UNIX_9999_SECS \<and>
     (\<exists>start. slot_start_unix_checked cfg slot = Inr start \<and>
       start + block_interval_secs cfg + slot_gate_drift_secs cfg \<le> UNIX_9999_SECS \<and>
       start - slot_gate_drift_secs cfg \<le> ts \<and>
       ts \<le> start + block_interval_secs cfg + slot_gate_drift_secs cfg)"
  by (auto simp: validate_block_timestamp_for_declared_slot_def res_simps Let_def slot_start_Inr
      bind_eq_Some_conv checked_add_Some_iff not_less UNIX_9999_SECS_def)

section \<open>Properties\<close>

text \<open>The slot \<open>derive_slot_from_block_timestamp\<close> gives a timestamp at or after genesis is the
  one the timestamp lies in: genesis, the full slots and the seconds into the slot add up to the
  timestamp, the seconds into the slot are fewer than an interval, and the same timestamp passes
  \<open>validate_block_timestamp_for_declared_slot\<close> for that slot, if the end of its window is still a
  structural timestamp.\<close>

theorem derived_slot_sound:
  assumes "derive_slot_from_block_timestamp cfg ts = Inr (slot, into_slot)"
    and "genesis_time_unix cfg \<le> ts"
    and "genesis_time_unix cfg + (slot + 1) * block_interval_secs cfg + slot_gate_drift_secs cfg
           \<le> UNIX_9999_SECS"
  shows "ts = genesis_time_unix cfg + slot * block_interval_secs cfg + into_slot
    \<and> into_slot < block_interval_secs cfg
    \<and> validate_block_timestamp_for_declared_slot cfg slot ts = Inr ()"
proof -
  define g where "g = genesis_time_unix cfg"
  define b where "b = block_interval_secs cfg"
  have slot: "slot = (ts - g) div b" and into: "into_slot = ts - (g + slot * b)"
    and b: "1 \<le> b" and ts: "UNIX_2000_SECS \<le> ts" "ts \<le> UNIX_9999_SECS"
    and start: "slot_start_unix_checked cfg slot = Inr (g + slot * b)"
    using assms(1)
    by (auto simp: derive_slot_Inr slot_for_timestamp_Inr cfg_validate_Inr g_def b_def)
  have le: "slot * b \<le> ts - g" by (simp add: slot)
  have lt: "ts - g < (slot + 1) * b"
    using b dividend_less_times_div [of b "ts - g"] by (simp add: slot algebra_simps)
  have eq: "ts = g + slot * b + into_slot" using assms(2) le by (simp add: into g_def [symmetric])
  with lt have small: "into_slot < b" by (simp add: algebra_simps)
  have "validate_block_timestamp_for_declared_slot cfg slot ts = Inr ()"
    unfolding declared_slot_Inr
    using ts start eq small assms(3) by (simp add: g_def [symmetric] b_def [symmetric] algebra_simps)
  with eq small show ?thesis by (simp add: g_def b_def)
qed

theorem derived_slot_sound_witness:
  "1782435665 = genesis_time_unix (from_genesis_and_globals 1782435600)
      + 2 * block_interval_secs (from_genesis_and_globals 1782435600) + 5
    \<and> 5 < block_interval_secs (from_genesis_and_globals 1782435600)
    \<and> validate_block_timestamp_for_declared_slot (from_genesis_and_globals 1782435600) 2 1782435665 = Inr ()"
  by (rule derived_slot_sound)
    (simp_all add: from_genesis_and_globals_def derive_slot_Inr slot_for_timestamp_Inr slot_start_Inr
      cfg_validate_Inr time_consts BLOCK_CREATION_INTERVAL_SECS_def SLOT_GATE_DRIFT_SECS_def)

text \<open>A block whose timestamp passes the check for its declared slot has a timestamp whose
  derived slot is the declared one or a neighbour, when the drift tolerance is smaller than the
  interval: two nodes cannot disagree by more than one slot about an accepted block.\<close>

theorem declared_slot_close:
  assumes "validate_block_timestamp_for_declared_slot cfg declared ts = Inr ()"
    and "slot_for_timestamp_checked cfg ts = Inr slot"
    and "slot_gate_drift_secs cfg < block_interval_secs cfg"
  shows "declared \<le> slot + 1 \<and> slot \<le> declared + 1"
proof -
  define g where "g = genesis_time_unix cfg"
  define b where "b = block_interval_secs cfg"
  have slot: "slot = (ts - g) div b" and b: "1 \<le> b"
    using assms(2) by (auto simp: slot_for_timestamp_Inr cfg_validate_Inr g_def b_def)
  have lo: "g + declared * b \<le> ts + slot_gate_drift_secs cfg"
    and hi: "ts \<le> g + declared * b + b + slot_gate_drift_secs cfg"
    using assms(1) by (auto simp: declared_slot_Inr slot_start_Inr g_def b_def)
  have lt: "ts - g < (slot + 1) * b"
    using b dividend_less_times_div [of b "ts - g"] by (simp add: slot algebra_simps)
  have le: "slot * b \<le> ts - g" by (simp add: slot)
  have "declared * b < (slot + 2) * b"
    using lo lt assms(3) by (simp add: b_def [symmetric] algebra_simps)
  moreover have "slot * b < (declared + 2) * b"
    using hi le assms(3) b by (simp add: b_def [symmetric] algebra_simps)
  ultimately have "declared < slot + 2" and "slot < declared + 2"
    by (simp_all only: mult_less_cancel2)
  then show ?thesis by simp
qed

theorem declared_slot_close_witness:
  "validate_block_timestamp_for_declared_slot (from_genesis_and_globals 1782435600) 3 1782435689 = Inr ()
   \<and> slot_for_timestamp_checked (from_genesis_and_globals 1782435600) 1782435689 = Inr 2
   \<and> (3 :: nat) \<le> 2 + 1 \<and> 2 \<le> (3 :: nat) + 1"
proof -
  let ?cfg = "from_genesis_and_globals 1782435600"
  note eval = from_genesis_and_globals_def declared_slot_Inr slot_for_timestamp_Inr slot_start_Inr
    cfg_validate_Inr time_consts BLOCK_CREATION_INTERVAL_SECS_def SLOT_GATE_DRIFT_SECS_def
  have v: "validate_block_timestamp_for_declared_slot ?cfg 3 1782435689 = Inr ()"
    and s: "slot_for_timestamp_checked ?cfg 1782435689 = Inr 2"
    and d: "slot_gate_drift_secs ?cfg < block_interval_secs ?cfg"
    by (simp_all add: eval)
  from declared_slot_close [OF v s d] v s show ?thesis by simp
qed

end
