(* ===== verification/Transactions.thy ===== *)
theory Transactions
  imports Wallet TimePolicy
begin

text \<open>
  The transaction types: \<open>Transaction\<close>, \<open>RegisterNodeTx\<close>, \<open>RewardTx\<close>, the enum \<open>TxKind\<close> and
  \<open>TransactionBatch\<close> (\<open>src/blockchain/transaction_001_tx.rs\<close> to
  \<open>transaction_005_tx_batch.rs\<close>), with the payloads of \<open>src/tokens/nft_001.rs\<close>.

  The serializer (postcard), the hash (BLAKE3) and the hex codec are crates outside the sources:
  they are the fields of a record \<open>Ext\<close> that the definitions take as an argument.
\<close>

section \<open>Data\<close>

record Transaction =
  tx_sender :: "byte list"
  tx_receiver :: "byte list"
  tx_amount :: nat
  tx_timestamp :: nat

record RegisterNodeTx =
  reg_wallet_address :: "byte list"
  reg_timestamp :: nat

record RewardTx =
  rew_receiver :: "byte list"
  rew_amount :: nat
  rew_block_height :: nat
  rew_timestamp :: nat

record NftMintTx =
  mint_nft_id :: hash
  mint_content_hash :: hash
  mint_title :: rstr
  mint_description :: rstr

record NftTransferTx =
  ntr_nft_id :: hash
  ntr_new_owner_wallet :: rstr

datatype TxKind =
    Transfer Transaction
  | RegisterNode RegisterNodeTx
  | Reward RewardTx
  | NftMint NftMintTx
  | NftTransfer NftTransferTx

record TransactionBatch =
  b_index :: nat
  b_timestamp :: nat
  b_transactions :: "TxKind list"
  b_guardian_signature :: "byte list option"

record Ext =
  pc_tx :: "Transaction \<Rightarrow> string + byte list"
  pc_tx_from :: "byte list \<Rightarrow> string + Transaction"
  pc_reg :: "RegisterNodeTx \<Rightarrow> string + byte list"
  pc_reg_take :: "byte list \<Rightarrow> string + RegisterNodeTx \<times> byte list"
  pc_rew :: "RewardTx \<Rightarrow> string + byte list"
  pc_rew_from :: "byte list \<Rightarrow> string + RewardTx"
  pc_mint :: "NftMintTx \<Rightarrow> string + byte list"
  pc_ntr :: "NftTransferTx \<Rightarrow> string + byte list"
  pc_kind :: "TxKind \<Rightarrow> string + byte list"
  pc_kind_take :: "byte list \<Rightarrow> string + TxKind \<times> byte list"
  pc_batch :: "TransactionBatch \<Rightarrow> string + byte list"
  pc_batch_take :: "byte list \<Rightarrow> string + TransactionBatch \<times> byte list"
  pc_bytes :: "byte list \<Rightarrow> string + byte list"
  blake3_hex :: "byte list \<Rightarrow> rstr"
  blake3_xof64 :: "byte list \<Rightarrow> byte list"
  hex_encode :: "byte list \<Rightarrow> rstr"
  hex_decode :: "rstr \<Rightarrow> string + byte list"

abbreviation str_bytes :: "rstr \<Rightarrow> byte list" where
  "str_bytes s \<equiv> map word_of_nat (as_bytes s)"

section \<open>Transfers\<close>

definition basic_checks :: "rstr \<Rightarrow> rstr \<Rightarrow> nat \<Rightarrow> (rstr \<times> rstr) result" where
  "basic_checks sender receiver amount =
     (let sender_trim = trim sender; receiver_trim = trim receiver in
      if sender_trim = [] \<or> receiver_trim = []
        then Inl (ValidationError ''Sender and receiver addresses cannot be empty.'')
      else if str_len sender_trim \<noteq> REMZAR_WALLET_LEN \<or> str_len receiver_trim \<noteq> REMZAR_WALLET_LEN
        then Inl (ValidationError ''Invalid address length'')
      else
        bindR (canon_wallet_id_checked sender_trim) (\<lambda>sender_canon.
        bindR (canon_wallet_id_checked receiver_trim) (\<lambda>receiver_canon.
        if sender_canon = receiver_canon
          then Inl (ValidationError ''Sender and receiver cannot be the same.'')
        else if amount = 0
          then Inl (ValidationError ''Transaction amount must be greater than zero.'')
        else Inr (sender_canon, receiver_canon))))"

definition basic_checks_arr :: "byte list \<Rightarrow> byte list \<Rightarrow> nat \<Rightarrow> unit result" where
  "basic_checks_arr sender receiver amount =
     bindR (parse_wallet_address_bytes sender) (\<lambda>s_sender.
     bindR (parse_wallet_address_bytes receiver) (\<lambda>s_receiver.
     if s_sender = s_receiver
       then Inl (ValidationError ''Sender and receiver cannot be the same.'')
     else if amount = 0
       then Inl (ValidationError ''Transaction amount must be greater than zero.'')
     else Inr ()))"

definition str_to_arr :: "rstr \<Rightarrow> byte list result" where
  "str_to_arr s =
     (if str_len s \<noteq> REMZAR_WALLET_LEN then Inl (ValidationError ''Address must be exactly 129 bytes in length.'')
      else Inr (str_bytes s))"

definition tx_validate_structural :: "Transaction \<Rightarrow> unit result" where
  "tx_validate_structural tx =
     bindR (basic_checks_arr (tx_sender tx) (tx_receiver tx) (tx_amount tx)) (\<lambda>_.
     validate_unix_secs_structural (tx_timestamp tx))"

definition tx_validate :: "Transaction \<Rightarrow> unit result" where
  "tx_validate tx = tx_validate_structural tx"

definition tx_validate_for_mempool_at :: "Transaction \<Rightarrow> nat \<Rightarrow> unit result" where
  "tx_validate_for_mempool_at tx now_unix =
     bindR (tx_validate_structural tx) (\<lambda>_.
     validate_runtime_future_skew_secs_default (tx_timestamp tx) now_unix)"

definition tx_validate_for_mempool :: "int \<Rightarrow> Transaction \<Rightarrow> unit result" where
  "tx_validate_for_mempool clock tx =
     bindR (now_unix_secs_runtime clock) (\<lambda>now. tx_validate_for_mempool_at tx now)"

text \<open>The constructor reads the wall clock twice: for the timestamp and for the freshness check.\<close>

definition tx_new :: "int \<Rightarrow> int \<Rightarrow> rstr \<Rightarrow> rstr \<Rightarrow> nat \<Rightarrow> Transaction result" where
  "tx_new clock clock' sender receiver amount =
     bindR (basic_checks sender receiver amount) (\<lambda>(sender_canon, receiver_canon).
     bindR (str_to_arr sender_canon) (\<lambda>sender_arr.
     bindR (str_to_arr receiver_canon) (\<lambda>receiver_arr.
     bindR (now_unix_secs_runtime clock) (\<lambda>timestamp.
     let tx = \<lparr>tx_sender = sender_arr, tx_receiver = receiver_arr, tx_amount = amount,
               tx_timestamp = timestamp\<rparr> in
     bindR (tx_validate_for_mempool clock' tx) (\<lambda>_. Inr tx)))))"

definition tx_serialize :: "Ext \<Rightarrow> Transaction \<Rightarrow> byte list result" where
  "tx_serialize E tx =
     bindR (tx_validate_structural tx) (\<lambda>_. map_err SerializationError (pc_tx E tx))"

definition tx_deserialize :: "Ext \<Rightarrow> byte list \<Rightarrow> Transaction result" where
  "tx_deserialize E bytes =
     bindR (map_err SerializationError (pc_tx_from E bytes)) (\<lambda>tx.
     bindR (tx_validate_structural tx) (\<lambda>_.
     bindR (map_err SerializationError (pc_tx E tx)) (\<lambda>canonical.
     if canonical \<noteq> bytes
       then Inl (SerializationError ''non-canonical or trailing bytes rejected'') else Inr tx)))"

definition tx_deserialize_for_mempool :: "Ext \<Rightarrow> int \<Rightarrow> byte list \<Rightarrow> Transaction result" where
  "tx_deserialize_for_mempool E clock bytes =
     bindR (tx_deserialize E bytes) (\<lambda>tx.
     bindR (tx_validate_for_mempool clock tx) (\<lambda>_. Inr tx))"

definition tx_id :: "Ext \<Rightarrow> Transaction \<Rightarrow> rstr result" where
  "tx_id E tx = bindR (tx_serialize E tx) (\<lambda>bytes. Inr (blake3_hex E bytes))"

section \<open>Registrations\<close>

definition canon_wallet_from_str :: "rstr \<Rightarrow> byte list result" where
  "canon_wallet_from_str s =
     bindR (canon_wallet_id_checked s) (\<lambda>canon.
     let b = str_bytes canon in
     if length b \<noteq> REMZAR_WALLET_LEN then Inl (ValidationError ''Invalid wallet length'') else Inr b)"

text \<open>\<open>rposition\<close> of the last non-zero byte, plus one: the length without the zero padding.\<close>

definition unpadded_len :: "byte list \<Rightarrow> nat" where
  "unpadded_len b = length (rev (dropWhile (\<lambda>x. x = 0) (rev b)))"

definition canon_wallet_from_bytes :: "byte list \<Rightarrow> byte list result" where
  "canon_wallet_from_bytes b =
     (let trimmed = take (unpadded_len b) b in
      if trimmed = [] then Inl (ValidationError ''Wallet address bytes are empty'')
      else if 0 \<in> set trimmed then Inl (ValidationError ''Wallet address bytes contain embedded NUL'')
      else
        bindR (ok_or (ValidationError ''Wallet address bytes are invalid UTF-8'')
                 (from_utf8 (map unat trimmed))) (\<lambda>s.
        canon_wallet_from_str s))"

definition reg_validate_structural :: "RegisterNodeTx \<Rightarrow> unit result" where
  "reg_validate_structural tx =
     bindR (canon_wallet_from_bytes (reg_wallet_address tx)) (\<lambda>canon.
     if canon \<noteq> reg_wallet_address tx
       then Inl (ValidationError ''Wallet address is not in canonical form'')
     else validate_unix_secs_structural (reg_timestamp tx))"

definition reg_validate :: "RegisterNodeTx \<Rightarrow> unit result" where
  "reg_validate tx = reg_validate_structural tx"

definition reg_validate_for_mempool_at :: "RegisterNodeTx \<Rightarrow> nat \<Rightarrow> unit result" where
  "reg_validate_for_mempool_at tx now_unix =
     bindR (reg_validate_structural tx) (\<lambda>_.
     validate_runtime_future_skew_secs_default (reg_timestamp tx) now_unix)"

definition reg_validate_for_mempool :: "int \<Rightarrow> RegisterNodeTx \<Rightarrow> unit result" where
  "reg_validate_for_mempool clock tx =
     bindR (now_unix_secs_runtime clock) (\<lambda>now. reg_validate_for_mempool_at tx now)"

definition reg_new :: "int \<Rightarrow> int \<Rightarrow> rstr \<Rightarrow> RegisterNodeTx result" where
  "reg_new clock clock' wallet_address =
     bindR (canon_wallet_from_str wallet_address) (\<lambda>wallet_canon.
     bindR (now_unix_secs_runtime clock) (\<lambda>timestamp.
     let tx = \<lparr>reg_wallet_address = wallet_canon, reg_timestamp = timestamp\<rparr> in
     bindR (reg_validate_for_mempool clock' tx) (\<lambda>_. Inr tx)))"

definition reg_new_from_bytes :: "int \<Rightarrow> int \<Rightarrow> byte list \<Rightarrow> RegisterNodeTx result" where
  "reg_new_from_bytes clock clock' wallet_bytes =
     bindR (canon_wallet_from_bytes wallet_bytes) (\<lambda>wallet_canon.
     bindR (now_unix_secs_runtime clock) (\<lambda>timestamp.
     let tx = \<lparr>reg_wallet_address = wallet_canon, reg_timestamp = timestamp\<rparr> in
     bindR (reg_validate_for_mempool clock' tx) (\<lambda>_. Inr tx)))"

definition reg_serialize :: "Ext \<Rightarrow> RegisterNodeTx \<Rightarrow> byte list result" where
  "reg_serialize E tx =
     bindR (reg_validate_structural tx) (\<lambda>_. map_err SerializationError (pc_reg E tx))"

definition reg_deserialize :: "Ext \<Rightarrow> byte list \<Rightarrow> RegisterNodeTx result" where
  "reg_deserialize E bytes =
     bindR (map_err SerializationError (pc_reg_take E bytes)) (\<lambda>(tx, remaining).
     if remaining \<noteq> [] then Inl (SerializationError ''trailing bytes after payload'')
     else
       bindR (canon_wallet_from_bytes (reg_wallet_address tx)) (\<lambda>w.
       let tx' = tx\<lparr>reg_wallet_address := w\<rparr> in
       bindR (reg_validate_structural tx') (\<lambda>_. Inr tx')))"

definition reg_wallet_str :: "RegisterNodeTx \<Rightarrow> rstr result" where
  "reg_wallet_str tx =
     bindR (ok_or (ValidationError ''Wallet address is not valid UTF-8'')
              (from_utf8 (map unat (reg_wallet_address tx)))) (\<lambda>s.
     bindR (map_err (\<lambda>_. ValidationError ''RegisterNodeTx wallet_str invalid wallet'')
              (canon_wallet_id_checked s)) (\<lambda>canon.
     if canon \<noteq> s then Inl (ValidationError ''RegisterNodeTx wallet_str wallet is not canonical'')
     else Inr s))"

section \<open>Rewards\<close>

definition rew_validate_amount :: "nat \<Rightarrow> unit result" where
  "rew_validate_amount amount =
     (if amount = 0 then Inl (ValidationError ''Reward amount must be greater than zero.'')
      else if amount > MAX_BLOCK_REWARD then Inl (ValidationError ''Reward amount exceeds allowed maximum'')
      else Inr ())"

definition rew_validate_block_height :: "nat \<Rightarrow> unit result" where
  "rew_validate_block_height block_height =
     (if block_height = 0 then Inl (ValidationError ''Block height cannot be zero.'') else Inr ())"

definition rew_validate_receiver_canonical :: "byte list \<Rightarrow> unit result" where
  "rew_validate_receiver_canonical receiver =
     bindR (parse_wallet_address_bytes receiver) (\<lambda>addr.
     if str_len addr \<noteq> REMZAR_WALLET_LEN then Inl (ValidationError ''Invalid receiver address format'')
     else Inr ())"

definition rew_validate :: "RewardTx \<Rightarrow> unit result" where
  "rew_validate tx =
     bindR (rew_validate_amount (rew_amount tx)) (\<lambda>_.
     bindR (rew_validate_block_height (rew_block_height tx)) (\<lambda>_.
     bindR (rew_validate_receiver_canonical (rew_receiver tx)) (\<lambda>_.
     validate_unix_secs_structural (rew_timestamp tx))))"

definition rew_validate_for_runtime_at :: "RewardTx \<Rightarrow> nat \<Rightarrow> unit result" where
  "rew_validate_for_runtime_at tx now_unix =
     bindR (rew_validate tx) (\<lambda>_.
     validate_runtime_future_skew_secs_default (rew_timestamp tx) now_unix)"

definition rew_validate_for_runtime :: "int \<Rightarrow> RewardTx \<Rightarrow> unit result" where
  "rew_validate_for_runtime clock tx =
     bindR (now_unix_secs_runtime clock) (\<lambda>now. rew_validate_for_runtime_at tx now)"

definition rew_validate_against_block_timestamp :: "RewardTx \<Rightarrow> nat \<Rightarrow> nat \<Rightarrow> unit result" where
  "rew_validate_against_block_timestamp tx block_timestamp allowed_delta_secs =
     bindR (rew_validate tx) (\<lambda>_.
     validate_tx_timestamp_within_block_window (rew_timestamp tx) block_timestamp allowed_delta_secs)"

definition rew_new_with_timestamp :: "rstr \<Rightarrow> nat \<Rightarrow> nat \<Rightarrow> nat \<Rightarrow> RewardTx result" where
  "rew_new_with_timestamp receiver amount block_height timestamp =
     bindR (map_err (\<lambda>_. ValidationError ''Invalid receiver address format'')
              (canon_wallet_id_checked receiver)) (\<lambda>receiver_canon.
     bindR (rew_validate_amount amount) (\<lambda>_.
     bindR (rew_validate_block_height block_height) (\<lambda>_.
     bindR (validate_unix_secs_structural timestamp) (\<lambda>_.
     let tx = \<lparr>rew_receiver = str_bytes receiver_canon, rew_amount = amount,
               rew_block_height = block_height, rew_timestamp = timestamp\<rparr> in
     bindR (rew_validate tx) (\<lambda>_. Inr tx)))))"

definition rew_serialize :: "Ext \<Rightarrow> RewardTx \<Rightarrow> byte list result" where
  "rew_serialize E tx =
     bindR (rew_validate tx) (\<lambda>_. map_err SerializationError (pc_rew E tx))"

definition rew_deserialize :: "Ext \<Rightarrow> byte list \<Rightarrow> RewardTx result" where
  "rew_deserialize E data =
     bindR (map_err SerializationError (pc_rew_from E data)) (\<lambda>tx.
     bindR (rew_validate tx) (\<lambda>_.
     bindR (map_err SerializationError (pc_rew E tx)) (\<lambda>canonical.
     if canonical \<noteq> data
       then Inl (SerializationError ''non-canonical or trailing bytes rejected'') else Inr tx)))"

section \<open>The enum of transactions\<close>

definition kind_serialize :: "Ext \<Rightarrow> TxKind \<Rightarrow> byte list result" where
  "kind_serialize E k = map_err SerializationError (pc_kind E k)"

fun kind_validate :: "TxKind \<Rightarrow> unit result" where
  "kind_validate (Transfer tx) =
     map_err (\<lambda>_. ValidationError ''Invalid Transfer transaction'') (tx_validate tx)"
| "kind_validate (RegisterNode tx) =
     map_err (\<lambda>_. ValidationError ''Invalid RegisterNode transaction'') (reg_validate tx)"
| "kind_validate (Reward tx) =
     map_err (\<lambda>_. ValidationError ''Invalid Reward transaction'') (rew_validate tx)"
| "kind_validate (NftMint tx) = Inr ()"
| "kind_validate (NftTransfer tx) =
     (if trim (ntr_new_owner_wallet tx) = []
        then Inl (ValidationError ''Invalid NftTransfer: new_owner_wallet is empty'')
      else
        bindR (map_err (\<lambda>_. ValidationError ''Invalid NftTransfer'')
                 (canon_wallet_id_checked (ntr_new_owner_wallet tx))) (\<lambda>_. Inr ()))"

definition kind_deserialize :: "Ext \<Rightarrow> byte list \<Rightarrow> TxKind result" where
  "kind_deserialize E bytes =
     bindR (map_err SerializationError (pc_kind_take E bytes)) (\<lambda>(k, remaining).
     if remaining \<noteq> [] then Inl (SerializationError ''trailing bytes after payload'')
     else bindR (kind_validate k) (\<lambda>_. Inr k))"

text \<open>The empty string stands for an address that cannot be read.\<close>

definition normalize_address_bytes :: "byte list \<Rightarrow> rstr" where
  "normalize_address_bytes bytes =
     (let trimmed = take (unpadded_len bytes) bytes in
      if trimmed = [] then [] else if 0 \<in> set trimmed then []
      else (case parse_wallet_address_bytes trimmed of Inr s \<Rightarrow> s | Inl _ \<Rightarrow> []))"

definition some_nonempty :: "rstr \<Rightarrow> rstr option" where
  "some_nonempty s = (if s = [] then None else Some s)"

fun normalized_sender :: "TxKind \<Rightarrow> rstr option" where
  "normalized_sender (Transfer tx) = some_nonempty (normalize_address_bytes (tx_sender tx))"
| "normalized_sender _ = None"

fun normalized_receiver :: "TxKind \<Rightarrow> rstr option" where
  "normalized_receiver (Transfer tx) = some_nonempty (normalize_address_bytes (tx_receiver tx))"
| "normalized_receiver (Reward tx) = some_nonempty (normalize_address_bytes (rew_receiver tx))"
| "normalized_receiver _ = None"

text \<open>The code collects the addresses in a hash set; the model lists each of them once.\<close>

fun touched_addresses :: "TxKind \<Rightarrow> rstr list" where
  "touched_addresses (Transfer tx) =
     remdups (filter (\<lambda>s. s \<noteq> [])
       [normalize_address_bytes (tx_sender tx), normalize_address_bytes (tx_receiver tx)])"
| "touched_addresses (Reward tx) = filter (\<lambda>s. s \<noteq> []) [normalize_address_bytes (rew_receiver tx)]"
| "touched_addresses _ = []"

fun kind_tag :: "TxKind \<Rightarrow> rstr" where
  "kind_tag (Transfer _) = lit ''transfer''"
| "kind_tag (Reward _) = lit ''reward''"
| "kind_tag (RegisterNode _) = lit ''register_node''"
| "kind_tag (NftMint _) = lit ''nft_mint''"
| "kind_tag (NftTransfer _) = lit ''nft_transfer''"

section \<open>Strict wire formats\<close>

text \<open>
  What the transaction types with a re-encoding check promise: only validated values are
  written, and a byte string is accepted only if it is the encoding of the value it decodes to.
\<close>

locale strict_wire =
  fixes validate :: "'a \<Rightarrow> 'e + unit"
    and enc :: "'a \<Rightarrow> string + byte list"
    and dec :: "byte list \<Rightarrow> string + 'a"
    and serialize :: "'a \<Rightarrow> 'e + byte list"
    and deserialize :: "byte list \<Rightarrow> 'e + 'a"
  assumes serialize_iff: "serialize x = Inr b \<longleftrightarrow> validate x = Inr () \<and> enc x = Inr b"
    and deserialize_iff:
      "deserialize b = Inr x \<longleftrightarrow> dec b = Inr x \<and> validate x = Inr () \<and> enc x = Inr b"
begin

lemma reserialize: "deserialize b = Inr x \<Longrightarrow> serialize x = Inr b"
  by (simp add: serialize_iff deserialize_iff)

lemma one_encoding: "deserialize b = Inr x \<Longrightarrow> deserialize b' = Inr x \<Longrightarrow> b = b'"
  by (simp add: deserialize_iff)

lemma accepts_valid: "deserialize b = Inr x \<Longrightarrow> validate x = Inr ()"
  by (simp add: deserialize_iff)

lemma roundtrip: "serialize x = Inr b \<Longrightarrow> dec b = Inr x \<Longrightarrow> deserialize b = Inr x"
  by (simp add: serialize_iff deserialize_iff)

end

interpretation tx_wire: strict_wire tx_validate_structural "pc_tx E" "pc_tx_from E"
    "tx_serialize E" "tx_deserialize E" for E
  by unfold_locales
    (auto simp: tx_serialize_def tx_deserialize_def res_simps split: if_splits)

interpretation rew_wire: strict_wire rew_validate "pc_rew E" "pc_rew_from E"
    "rew_serialize E" "rew_deserialize E" for E
  by unfold_locales
    (auto simp: rew_serialize_def rew_deserialize_def res_simps split: if_splits)

section \<open>What validation establishes\<close>

lemma unpadded_len_full: "0 \<notin> set b \<Longrightarrow> unpadded_len b = length b"
  by (cases b rule: rev_cases) (auto simp: unpadded_len_def)

lemma parse_bytes_no_zero: "parse_wallet_address_bytes b = Inr s \<Longrightarrow> b \<noteq> [] \<and> 0 \<notin> set b"
  by (auto simp: parse_wallet_address_bytes_def REMZAR_WALLET_LEN_def split: if_splits)

lemma normalize_address_parsed:
  "parse_wallet_address_bytes b = Inr s \<Longrightarrow> normalize_address_bytes b = s"
  using parse_bytes_no_zero [of b s]
  by (simp add: normalize_address_bytes_def unpadded_len_full)

lemma canonical_not_Nil: "canonical_wallet w \<Longrightarrow> w \<noteq> []"
  by (auto simp: canonical_wallet_def)

lemma tx_validate_structural_iff:
  "tx_validate_structural tx = Inr () \<longleftrightarrow>
     (\<exists>s r. parse_wallet_address_bytes (tx_sender tx) = Inr s \<and>
            parse_wallet_address_bytes (tx_receiver tx) = Inr r \<and> s \<noteq> r \<and> 0 < tx_amount tx \<and>
            validate_unix_secs_structural (tx_timestamp tx) = Inr ())"
  by (auto simp: tx_validate_structural_def basic_checks_arr_def res_simps
      simp del: validate_unix_secs_Inr split: if_splits)

lemma rew_validate_iff:
  "rew_validate tx = Inr () \<longleftrightarrow>
     0 < rew_amount tx \<and> rew_amount tx \<le> MAX_BLOCK_REWARD \<and> 0 < rew_block_height tx \<and>
     (\<exists>r. parse_wallet_address_bytes (rew_receiver tx) = Inr r) \<and>
     validate_unix_secs_structural (rew_timestamp tx) = Inr ()"
proof -
  have "str_len r = REMZAR_WALLET_LEN" if "parse_wallet_address_bytes (rew_receiver tx) = Inr r" for r
    using parse_wallet_bytes_result(1) [OF that] by (simp add: canonical_wallet_facts REMZAR_WALLET_LEN_def)
  then show ?thesis
    by (auto simp: rew_validate_def rew_validate_amount_def rew_validate_block_height_def
        rew_validate_receiver_canonical_def res_simps simp del: validate_unix_secs_Inr split: if_splits)
qed

lemma canon_from_str_result:
  assumes "canon_wallet_from_str s = Inr b"
  shows "b = map word_of_nat (to_ascii_lowercase (trim s))"
    and "parse_wallet_address_bytes b = Inr (to_ascii_lowercase (trim s))"
proof -
  obtain w where w: "canon_wallet_id_checked s = Inr w" and b: "b = str_bytes w"
    using assms by (auto simp: canon_wallet_from_str_def Let_def res_simps split: if_splits)
  note r = canon_wallet_result [OF w]
  show "b = map word_of_nat (to_ascii_lowercase (trim s))"
    using r canonical_wallet_facts(4) [OF r(1)] by (simp add: b)
  then show "parse_wallet_address_bytes b = Inr (to_ascii_lowercase (trim s))"
    using parse_wallet_bytes_canonical [OF r(1)] by (simp add: r(2))
qed

lemma canon_from_bytes_result:
  "canon_wallet_from_bytes a = Inr b \<Longrightarrow> \<exists>w. parse_wallet_address_bytes b = Inr w"
  by (auto simp: canon_wallet_from_bytes_def Let_def res_simps dest: canon_from_str_result(2)
      split: if_splits)

lemma basic_checks_result:
  assumes "basic_checks sender receiver amount = Inr (s, r)"
  shows "canonical_wallet s" and "canonical_wallet r" and "s \<noteq> r" and "0 < amount"
    and "s = to_ascii_lowercase (trim sender)" and "r = to_ascii_lowercase (trim receiver)"
proof -
  have s: "canon_wallet_id_checked (trim sender) = Inr s"
    and r: "canon_wallet_id_checked (trim receiver) = Inr r" and "s \<noteq> r" "0 < amount"
    using assms by (auto simp: basic_checks_def Let_def res_simps split: if_splits)
  then show "s \<noteq> r" "0 < amount" by simp_all
  show "canonical_wallet s" "canonical_wallet r"
    by (rule canon_wallet_result(1) [OF s], rule canon_wallet_result(1) [OF r])
  show "s = to_ascii_lowercase (trim sender)"
    using canon_wallet_result(2) [OF s] by (simp add: trim_trim)
  show "r = to_ascii_lowercase (trim receiver)"
    using canon_wallet_result(2) [OF r] by (simp add: trim_trim)
qed

section \<open>A concrete instance of the crates\<close>

text \<open>
  An \<open>Ext\<close> whose codecs write every field at a fixed width; it shows that the hypotheses on the
  crates can hold, and the concrete examples are computed with it.
\<close>

definition fixed_tx :: "Transaction \<Rightarrow> byte list" where
  "fixed_tx tx = tx_sender tx @ tx_receiver tx @ to_be_bytes 8 (tx_amount tx) @ to_be_bytes 8 (tx_timestamp tx)"

definition fixed_tx_from :: "byte list \<Rightarrow> string + Transaction" where
  "fixed_tx_from b =
     (if length b \<noteq> 274 then Inl ''length'' else
      Inr \<lparr>tx_sender = take 129 b, tx_receiver = take 129 (drop 129 b),
           tx_amount = from_be_bytes (take 8 (drop 258 b)),
           tx_timestamp = from_be_bytes (drop 266 b)\<rparr>)"

definition fixed_rew :: "RewardTx \<Rightarrow> byte list" where
  "fixed_rew tx = rew_receiver tx @ to_be_bytes 8 (rew_amount tx) @ to_be_bytes 8 (rew_block_height tx) @
     to_be_bytes 8 (rew_timestamp tx)"

definition fixed_rew_from :: "byte list \<Rightarrow> string + RewardTx" where
  "fixed_rew_from b =
     (if length b \<noteq> 153 then Inl ''length'' else
      Inr \<lparr>rew_receiver = take 129 b, rew_amount = from_be_bytes (take 8 (drop 129 b)),
           rew_block_height = from_be_bytes (take 8 (drop 137 b)),
           rew_timestamp = from_be_bytes (drop 145 b)\<rparr>)"

definition fixed_reg :: "RegisterNodeTx \<Rightarrow> byte list" where
  "fixed_reg tx = reg_wallet_address tx @ to_be_bytes 8 (reg_timestamp tx)"

definition fixed_reg_take :: "byte list \<Rightarrow> string + RegisterNodeTx \<times> byte list" where
  "fixed_reg_take b =
     (if length b < 137 then Inl ''length'' else
      Inr (\<lparr>reg_wallet_address = take 129 b, reg_timestamp = from_be_bytes (take 8 (drop 129 b))\<rparr>,
           drop 137 b))"

definition hex_digit :: "nat \<Rightarrow> nat" where
  "hex_digit n = (if n < 10 then 48 + n else 87 + n)"

definition hex_val :: "nat \<Rightarrow> nat option" where
  "hex_val c = (if 48 \<le> c \<and> c \<le> 57 then Some (c - 48) else if 97 \<le> c \<and> c \<le> 102 then Some (c - 87)
     else if 65 \<le> c \<and> c \<le> 70 then Some (c - 55) else None)"

fun unhex :: "rstr \<Rightarrow> string + byte list" where
  "unhex [] = Inr []"
| "unhex [c] = Inl ''odd length''"
| "unhex (c # d # s) =
     (case (hex_val c, hex_val d) of
        (Some x, Some y) \<Rightarrow> bindR (unhex s) (\<lambda>bs. Inr (word_of_nat (x * 16 + y) # bs))
      | _ \<Rightarrow> Inl ''invalid digit'')"

definition fixed_ext :: Ext where
  "fixed_ext =
     \<lparr>pc_tx = \<lambda>tx. Inr (fixed_tx tx), pc_tx_from = fixed_tx_from,
      pc_reg = \<lambda>tx. Inr (fixed_reg tx), pc_reg_take = fixed_reg_take,
      pc_rew = \<lambda>tx. Inr (fixed_rew tx), pc_rew_from = fixed_rew_from,
      pc_mint = \<lambda>tx. Inr (mint_nft_id tx), pc_ntr = \<lambda>tx. Inr (ntr_nft_id tx),
      pc_kind = \<lambda>k. Inl ''unsupported'', pc_kind_take = \<lambda>b. Inl ''unsupported'',
      pc_batch = \<lambda>k. Inl ''unsupported'', pc_batch_take = \<lambda>b. Inl ''unsupported'',
      pc_bytes = \<lambda>b. if length b < 256 ^ 8 then Inr (to_be_bytes 8 (length b) @ b) else Inl ''length'',
      blake3_hex = \<lambda>b. map unat b, blake3_xof64 = \<lambda>b. take 64 (b @ replicate 64 0),
      hex_encode = \<lambda>b. concat (map (\<lambda>x. [hex_digit (unat x div 16), hex_digit (unat x mod 16)]) b),
      hex_decode = unhex\<rparr>"

definition sample_wallet :: "nat \<Rightarrow> rstr" where
  "sample_wallet c = 114 # replicate 128 c"

lemma sample_wallet_canonical: "is_lower_hex c \<Longrightarrow> canonical_wallet (sample_wallet c)"
  by (simp add: sample_wallet_def canonical_wallet_def list_all_iff)

definition sample_tx :: Transaction where
  "sample_tx = \<lparr>tx_sender = map word_of_nat (sample_wallet 97), tx_receiver = map word_of_nat (sample_wallet 98),
     tx_amount = 5, tx_timestamp = 1700000000\<rparr>"

lemma sample_time [simp]: "validate_unix_secs_structural 1700000000 = Inr ()"
  by (simp add: time_consts)

lemma length_sample_wallet [simp]: "length (sample_wallet c) = 129" "sample_wallet c \<noteq> []"
  by (simp_all add: sample_wallet_def)

lemma sample_tx_valid: "tx_validate_structural sample_tx = Inr ()"
proof -
  have "canonical_wallet (sample_wallet 97)" "canonical_wallet (sample_wallet 98)"
    by (simp_all add: sample_wallet_canonical is_lower_hex_def)
  then show ?thesis
    by (simp add: tx_validate_structural_iff sample_tx_def parse_wallet_bytes_canonical time_consts)
       (simp add: sample_wallet_def)
qed

section \<open>Properties\<close>

text \<open>C10. No malleability: a byte string accepted as a transfer is the only one that decodes to that
  transaction; serializing gives it back, and the transaction id is the hash of exactly these bytes.\<close>

theorem tx_no_malleability:
  assumes "tx_deserialize E b = Inr tx"
  shows "tx_serialize E tx = Inr b \<and> tx_id E tx = Inr (blake3_hex E b) \<and>
    (\<forall>b'. tx_deserialize E b' = Inr tx \<longleftrightarrow> b' = b)"
proof -
  have ser: "tx_serialize E tx = Inr b" by (rule tx_wire.reserialize [OF assms])
  moreover have "tx_deserialize E b' = Inr tx \<longleftrightarrow> b' = b" for b'
    using assms tx_wire.one_encoding [of E b tx b'] by auto
  ultimately show ?thesis by (simp add: tx_id_def)
qed

lemma sample_tx_decodes: "tx_deserialize fixed_ext (fixed_tx sample_tx) = Inr sample_tx"
proof -
  have "fixed_tx_from (fixed_tx sample_tx) = Inr sample_tx"
    by (simp add: fixed_tx_def fixed_tx_from_def sample_tx_def sample_wallet_def from_to_be_bytes)
  then show ?thesis
    by (simp add: tx_wire.deserialize_iff sample_tx_valid fixed_ext_def)
qed

theorem tx_no_malleability_witness:
  "tx_serialize fixed_ext sample_tx = Inr (fixed_tx sample_tx) \<and> \<not> tx_deserialize fixed_ext [] = Inr sample_tx"
  using tx_no_malleability [OF sample_tx_decodes]
  by (simp add: fixed_tx_def sample_tx_def sample_wallet_def)

text \<open>A transfer built from two wallet strings is structurally valid, carries the amount, and its
  two addresses are the trimmed, lower-case inputs; they differ.\<close>

theorem tx_new_sound:
  assumes "tx_new clock clock' sender receiver amount = Inr tx"
  shows "tx_validate_structural tx = Inr () \<and> tx_amount tx = amount \<and> 0 < amount \<and>
    normalized_sender (Transfer tx) = Some (to_ascii_lowercase (trim sender)) \<and>
    normalized_receiver (Transfer tx) = Some (to_ascii_lowercase (trim receiver)) \<and>
    touched_addresses (Transfer tx) = [to_ascii_lowercase (trim sender), to_ascii_lowercase (trim receiver)]"
proof -
  obtain s r t where bc: "basic_checks sender receiver amount = Inr (s, r)"
    and tx: "tx = \<lparr>tx_sender = str_bytes s, tx_receiver = str_bytes r, tx_amount = amount, tx_timestamp = t\<rparr>"
    and ok: "tx_validate_for_mempool clock' tx = Inr ()"
    using assms by (auto simp: tx_new_def str_to_arr_def Let_def res_simps split: if_splits)
  note f = basic_checks_result [OF bc]
  have "tx_validate_structural tx = Inr ()"
    using ok by (auto simp: tx_validate_for_mempool_def tx_validate_for_mempool_at_def res_simps)
  moreover have "normalize_address_bytes (tx_sender tx) = s" "normalize_address_bytes (tx_receiver tx) = r"
    using parse_wallet_bytes_canonical [OF f(1)] parse_wallet_bytes_canonical [OF f(2)]
    by (simp_all add: tx normalize_address_parsed canonical_wallet_facts(4) f(1,2))
  ultimately show ?thesis
    using f canonical_not_Nil [OF f(1)] canonical_not_Nil [OF f(2)] by (simp add: tx some_nonempty_def)
qed

lemma sample_tx_new:
  "tx_new 1700000000 1700000000 (sample_wallet 97) (sample_wallet 98) 5 = Inr sample_tx"
proof -
  have w: "canonical_wallet (sample_wallet 97)" "canonical_wallet (sample_wallet 98)"
    by (simp_all add: sample_wallet_canonical is_lower_hex_def)
  have ne: "sample_wallet 97 \<noteq> sample_wallet 98" "sample_wallet 97 \<noteq> []" "sample_wallet 98 \<noteq> []"
    by (simp_all add: sample_wallet_def)
  have n: "now_unix_secs_runtime 1700000000 = Inr 1700000000"
    by (simp add: now_unix_secs_runtime_def time_consts)
  have v: "tx_validate_for_mempool 1700000000 sample_tx = Inr ()"
    using sample_tx_valid
    by (simp add: tx_validate_for_mempool_def n tx_validate_for_mempool_at_def sample_tx_def
        validate_runtime_future_skew_secs_default_def validate_runtime_future_skew_secs_def
        time_consts checked_add_def res_simps cfg_defs)
  show ?thesis
    using v
    by (simp add: tx_new_def basic_checks_def canonical_wallet_facts [OF w(1)] canonical_wallet_facts [OF w(2)]
        canon_wallet_canonical w ne str_to_arr_def REMZAR_WALLET_LEN_def n Let_def sample_tx_def)
qed

theorem tx_new_sound_witness:
  "touched_addresses (Transfer sample_tx) = [sample_wallet 97, sample_wallet 98]"
proof -
  have w: "canonical_wallet (sample_wallet 97)" "canonical_wallet (sample_wallet 98)"
    by (simp_all add: sample_wallet_canonical is_lower_hex_def)
  show ?thesis
    using tx_new_sound [OF sample_tx_new]
    by (simp add: canonical_wallet_facts [OF w(1)] canonical_wallet_facts [OF w(2)])
qed

text \<open>C40. A registration accepted from the wire is valid and carries a canonical wallet, which its
  accessor returns; the bytes are accepted in full.\<close>

theorem reg_deserialize_canonical:
  assumes "reg_deserialize E b = Inr tx"
  shows "reg_validate_structural tx = Inr () \<and>
    (\<exists>w. canonical_wallet w \<and> reg_wallet_str tx = Inr w \<and> reg_wallet_address tx = map word_of_nat w) \<and>
    (\<exists>tx0. pc_reg_take E b = Inr (tx0, []) \<and> reg_timestamp tx0 = reg_timestamp tx)"
proof -
  obtain tx0 w where dec: "pc_reg_take E b = Inr (tx0, [])"
    and w: "canon_wallet_from_bytes (reg_wallet_address tx0) = Inr w"
    and tx: "tx = tx0\<lparr>reg_wallet_address := w\<rparr>" and ok: "reg_validate_structural tx = Inr ()"
    using assms by (auto simp: reg_deserialize_def Let_def res_simps split: if_splits)
  from canon_from_bytes_result [OF w] obtain v where v: "parse_wallet_address_bytes w = Inr v" ..
  note r = parse_wallet_bytes_result [OF v]
  have "w = map word_of_nat v" using r(2) map_word_of_unat [of w] by simp
  moreover have "reg_wallet_str tx = Inr v"
    using from_utf8_ascii [OF canonical_wallet_facts(1) [OF r(1)]] canon_wallet_canonical [OF r(1)]
    by (simp add: reg_wallet_str_def tx r(2))
  ultimately show ?thesis using ok dec r(1) by (auto simp: tx)
qed

definition sample_reg :: RegisterNodeTx where
  "sample_reg = \<lparr>reg_wallet_address = map word_of_nat (sample_wallet 97), reg_timestamp = 1700000000\<rparr>"

lemma sample_reg_decodes: "reg_deserialize fixed_ext (fixed_reg sample_reg) = Inr sample_reg"
proof -
  have w: "canonical_wallet (sample_wallet 97)"
    by (simp add: sample_wallet_canonical is_lower_hex_def)
  note f = canonical_wallet_facts [OF w]
  have p: "parse_wallet_address_bytes (map word_of_nat (sample_wallet 97)) = Inr (sample_wallet 97)"
    by (rule parse_wallet_bytes_canonical [OF w])
  have c: "canon_wallet_from_bytes (map word_of_nat (sample_wallet 97)) = Inr (map word_of_nat (sample_wallet 97))"
    using parse_bytes_no_zero [OF p] parse_wallet_bytes_result(2) [OF p] from_utf8_ascii [OF f(1)]
    by (simp add: canon_wallet_from_bytes_def unpadded_len_full canon_wallet_from_str_def
        canon_wallet_canonical [OF w] f REMZAR_WALLET_LEN_def)
  have d: "fixed_reg_take (fixed_reg sample_reg) = Inr (sample_reg, [])"
    by (simp add: fixed_reg_def fixed_reg_take_def sample_reg_def sample_wallet_def from_to_be_bytes)
  show ?thesis
    by (simp add: reg_deserialize_def fixed_ext_def d) (simp add: sample_reg_def c reg_validate_structural_def time_consts)
qed

theorem reg_deserialize_canonical_witness:
  "\<exists>w. canonical_wallet w \<and> reg_wallet_str sample_reg = Inr w"
  using reg_deserialize_canonical [OF sample_reg_decodes] by auto

end
