(* ===== verification/Batch.thy ===== *)
theory Batch
  imports Transactions
begin

text \<open>
  \<open>RemzarHash\<close> (\<open>src/utility/hash_system_remzarhash.rs\<close>) and \<open>TransactionBatch\<close>
  (\<open>src/blockchain/transaction_005_tx_batch.rs\<close>): the digests over serialized values, the digest
  of the leaves the code calls the Merkle root, and the inclusion proofs.

  A generic argument \<open>T: Serialize\<close> is a value together with its serializer \<open>ser\<close>. The hasher is
  fed piece by piece; its digest is the one of the concatenated pieces. Where the code maps over a
  slice in parallel and collects, the model reports the first error.
\<close>

section \<open>Digests of serialized values\<close>

definition MAX_SERIALIZED_BYTES :: nat where
  "MAX_SERIALIZED_BYTES = 4 * 1024 * 1024"

definition ensure_size_limit :: "nat \<Rightarrow> unit result" where
  "ensure_size_limit n =
     (if n > MAX_SERIALIZED_BYTES then Inl (ValidationError ''serialized size exceeds MAX_SERIALIZED_BYTES'')
      else Inr ())"

definition validate_expected_hex :: "Ext \<Rightarrow> rstr \<Rightarrow> nat \<Rightarrow> unit result" where
  "validate_expected_hex E expected hex_len =
     (if str_len expected \<noteq> hex_len then Inl (ValidationError ''expected hex length'')
      else bindR (map_err (\<lambda>_. ValidationError ''expected is not valid hex'') (hex_decode E expected))
             (\<lambda>_. Inr ()))"

definition compute_bytes_hash :: "Ext \<Rightarrow> byte list \<Rightarrow> hash" where
  "compute_bytes_hash E bytes = blake3_xof64 E bytes"

definition compute_bytes_hash_hex :: "Ext \<Rightarrow> byte list \<Rightarrow> rstr" where
  "compute_bytes_hash_hex E bytes = hex_encode E (blake3_xof64 E bytes)"

definition compute_data_hash :: "Ext \<Rightarrow> ('a \<Rightarrow> string + byte list) \<Rightarrow> 'a \<Rightarrow> rstr result" where
  "compute_data_hash E ser data =
     bindR (map_err SerializationError (ser data)) (\<lambda>bytes.
     bindR (ensure_size_limit (length bytes)) (\<lambda>_.
     Inr (compute_bytes_hash_hex E bytes)))"

definition compute_data_hash_batch :: "Ext \<Rightarrow> ('a \<Rightarrow> string + byte list) \<Rightarrow> 'a list \<Rightarrow> rstr list result" where
  "compute_data_hash_batch E ser items =
     (if items = [] then Inl (ValidationError ''At least one item is required'')
      else traverseR (compute_data_hash E ser) items)"

definition verify_data_hash :: "Ext \<Rightarrow> ('a \<Rightarrow> string + byte list) \<Rightarrow> 'a \<Rightarrow> rstr \<Rightarrow> bool result" where
  "verify_data_hash E ser data expected =
     bindR (validate_expected_hex E expected 128) (\<lambda>_.
     bindR (compute_data_hash E ser data) (\<lambda>h. Inr (h = expected)))"

definition verify_data_hash_batch ::
    "Ext \<Rightarrow> ('a \<Rightarrow> string + byte list) \<Rightarrow> 'a list \<Rightarrow> rstr list \<Rightarrow> bool list result" where
  "verify_data_hash_batch E ser items expected =
     (if length items \<noteq> length expected then Inl (ValidationError ''Items / expected length mismatch'')
      else
        bindR (traverseR (\<lambda>x. validate_expected_hex E x 128) expected) (\<lambda>_.
        traverseR (\<lambda>(item, x). bindR (compute_data_hash E ser item) (\<lambda>h. Inr (h = x))) (zip items expected)))"

definition compute_truncated_hash :: "Ext \<Rightarrow> ('a \<Rightarrow> string + byte list) \<Rightarrow> 'a \<Rightarrow> rstr result" where
  "compute_truncated_hash E ser data =
     bindR (map_err SerializationError (ser data)) (\<lambda>bytes.
     bindR (ensure_size_limit (length bytes)) (\<lambda>_.
     Inr (hex_encode E (take 8 (compute_bytes_hash E bytes)))))"

definition verify_truncated_hash :: "Ext \<Rightarrow> ('a \<Rightarrow> string + byte list) \<Rightarrow> 'a \<Rightarrow> rstr \<Rightarrow> bool result" where
  "verify_truncated_hash E ser data expected =
     bindR (validate_expected_hex E expected 16) (\<lambda>_.
     bindR (compute_truncated_hash E ser data) (\<lambda>h. Inr (h = expected)))"

definition remzar_merkle_root :: "Ext \<Rightarrow> ('a \<Rightarrow> string + byte list) \<Rightarrow> 'a list \<Rightarrow> rstr result" where
  "remzar_merkle_root E ser transactions =
     (if transactions = [] then Inr (hex_encode E (blake3_xof64 E (str_bytes (lit ''EMPTY_MERKLE_ROOT''))))
      else
        bindR (traverseR (\<lambda>tx. map_err SerializationError (ser tx)) transactions) (\<lambda>blobs.
        bindR (traverseR (\<lambda>b. ensure_size_limit (length b)) blobs) (\<lambda>_.
        Inr (hex_encode E (blake3_xof64 E (concat blobs))))))"

definition compute_header_hash_bytes :: "Ext \<Rightarrow> hash \<Rightarrow> hash \<Rightarrow> nat \<Rightarrow> hash" where
  "compute_header_hash_bytes E prev merkle nonce =
     blake3_xof64 E (prev @ merkle @ to_be_bytes 8 nonce)"

definition compute_header_hash_hex :: "Ext \<Rightarrow> hash \<Rightarrow> hash \<Rightarrow> nat \<Rightarrow> rstr" where
  "compute_header_hash_hex E prev merkle nonce = hex_encode E (compute_header_hash_bytes E prev merkle nonce)"

definition verify_header_hash :: "Ext \<Rightarrow> hash \<Rightarrow> hash \<Rightarrow> nat \<Rightarrow> rstr \<Rightarrow> bool" where
  "verify_header_hash E prev merkle nonce expected =
     (case validate_expected_hex E expected 128 of
        Inl _ \<Rightarrow> False
      | Inr _ \<Rightarrow> compute_header_hash_hex E prev merkle nonce = expected)"

definition compute_dummy_hash :: "Ext \<Rightarrow> rstr" where
  "compute_dummy_hash E = compute_bytes_hash_hex E (str_bytes (lit ''remzar_empty_block_mint''))"

definition compute_genesis_hash_with_ts :: "Ext \<Rightarrow> nat \<Rightarrow> hash" where
  "compute_genesis_hash_with_ts E ts = compute_bytes_hash E (replicate 64 0 @ to_be_bytes 8 ts)"

section \<open>Batches\<close>

definition batch_new :: "nat \<Rightarrow> nat \<Rightarrow> TxKind list \<Rightarrow> TransactionBatch result" where
  "batch_new index timestamp transactions =
     Inr \<lparr>b_index = index, b_timestamp = timestamp, b_transactions = transactions, b_guardian_signature = None\<rparr>"

text \<open>The bytes of a leaf: every operation of the batch serializes its transactions with this match.\<close>

fun leaf_bytes :: "Ext \<Rightarrow> TxKind \<Rightarrow> byte list result" where
  "leaf_bytes E (Transfer tx) = tx_serialize E tx"
| "leaf_bytes E (RegisterNode tx) = reg_serialize E tx"
| "leaf_bytes E (Reward tx) = rew_serialize E tx"
| "leaf_bytes E (NftMint tx) = map_err SerializationError (pc_mint E tx)"
| "leaf_bytes E (NftTransfer tx) = map_err SerializationError (pc_ntr E tx)"

definition total_size :: "Ext \<Rightarrow> TransactionBatch \<Rightarrow> nat result" where
  "total_size E batch =
     bindR (traverseR (leaf_bytes E) (b_transactions batch)) (\<lambda>bs. Inr (sum_list (map length bs)))"

definition canonical_db_key_string :: "TransactionBatch \<Rightarrow> rstr" where
  "canonical_db_key_string batch = lit ''tx_batch_'' @ decimal_padded 10 (b_index batch)"

definition batch_serialize :: "Ext \<Rightarrow> TransactionBatch \<Rightarrow> byte list result" where
  "batch_serialize E batch = map_err SerializationError (pc_batch E batch)"

definition serialized_len :: "Ext \<Rightarrow> TransactionBatch \<Rightarrow> nat result" where
  "serialized_len E batch = bindR (map_err SerializationError (pc_batch E batch)) (\<lambda>v. Inr (length v))"

definition serialize_for_storage :: "Ext \<Rightarrow> TransactionBatch \<Rightarrow> byte list result" where
  "serialize_for_storage E batch =
     bindR (batch_serialize E batch) (\<lambda>buf.
     if length buf > MAX_BLOCK_SIZE
       then Inl (ValidationError ''TransactionBatch exceeds MAX_BLOCK_SIZE'') else Inr buf)"

definition batch_deserialize :: "Ext \<Rightarrow> byte list \<Rightarrow> TransactionBatch result" where
  "batch_deserialize E bytes =
     bindR (map_err SerializationError (pc_batch_take E bytes)) (\<lambda>(batch, remaining).
     if remaining \<noteq> []
       then Inl (SerializationError ''Deserialize TransactionBatch failed: trailing bytes rejected'')
     else Inr batch)"

text \<open>\<open>decoded.get(..64)\<close> and the copy into a 64-byte array.\<close>

definition first64 :: "string \<Rightarrow> byte list \<Rightarrow> hash result" where
  "first64 msg bytes = (if length bytes < 64 then Inl (SerializationError msg) else Inr (take 64 bytes))"

definition compute_merkle_root :: "Ext \<Rightarrow> TransactionBatch \<Rightarrow> hash result" where
  "compute_merkle_root E batch =
     bindR (traverseR (leaf_bytes E) (b_transactions batch)) (\<lambda>leaves.
     bindR (remzar_merkle_root E (pc_bytes E) leaves) (\<lambda>hex_root.
     bindR (map_err SerializationError (hex_decode E hex_root)) (\<lambda>decoded.
     first64 ''Decoded merkle root too short'' decoded)))"

definition from_reward_only :: "nat \<Rightarrow> nat \<Rightarrow> RewardTx \<Rightarrow> TransactionBatch result" where
  "from_reward_only index timestamp reward = batch_new index timestamp [Reward reward]"

section \<open>Inclusion proofs\<close>

text \<open>The 64-byte digest of a byte vector, as both places of \<open>inclusion_proof\<close> compute it.\<close>

definition node_hash :: "Ext \<Rightarrow> byte list \<Rightarrow> hash result" where
  "node_hash E data =
     bindR (compute_data_hash E (pc_bytes E) data) (\<lambda>hex_h.
     bindR (map_err SerializationError (hex_decode E hex_h)) (\<lambda>bytes.
     first64 ''Decoded hash too short'' bytes))"

text \<open>
  One level: \<open>n\<close> is the number of nodes of the level, \<open>idx\<close> the variable the loop body overwrites
  with the number of the pair it has just handled.
\<close>

fun level_loop :: "Ext \<Rightarrow> nat \<Rightarrow> nat \<Rightarrow> hash list \<Rightarrow> hash list \<Rightarrow> hash list \<Rightarrow> (hash list \<times> hash list \<times> nat) result"
  where
  "level_loop E n idx next_level proof_acc [] = Inr (next_level, proof_acc, idx)"
| "level_loop E n idx next_level proof_acc (left # rest) =
     (let right = (case rest of [] \<Rightarrow> left | r # _ \<Rightarrow> r);
          pair_idx = length next_level;
          proof' = (if idx mod 2 = 0 \<and> idx + 1 < n then proof_acc @ [right]
                    else if idx mod 2 \<noteq> 0 then proof_acc @ [left] else proof_acc) in
      bindR (node_hash E (left @ right)) (\<lambda>parent.
      level_loop E n pair_idx (next_level @ [parent]) proof' (drop 1 rest)))"

lemma level_loop_length:
  "level_loop E n idx nx pf nodes = Inr (nx', pf', idx') \<Longrightarrow>
   length nx' = length nx + (length nodes + 1) div 2"
proof (induction E n idx nx pf nodes rule: level_loop.induct)
  case (2 E n idx nx pf left rest)
  then show ?case by (cases rest) (auto simp: Let_def res_simps)
qed simp

function walk_up :: "Ext \<Rightarrow> hash list \<Rightarrow> nat \<Rightarrow> hash list \<Rightarrow> hash list result" where
  "walk_up E nodes idx proof_acc =
     (if length nodes \<le> 1 then Inr proof_acc
      else
        bindR (level_loop E (length nodes) idx [] proof_acc nodes) (\<lambda>(next_level, proof', idx').
        walk_up E next_level idx' proof'))"
  by pat_completeness auto
termination
  by (relation "measure (\<lambda>(E, nodes, idx, pf). length nodes)") (auto dest!: level_loop_length)

declare walk_up.simps [simp del]

definition inclusion_proof :: "Ext \<Rightarrow> TransactionBatch \<Rightarrow> nat \<Rightarrow> hash list result" where
  "inclusion_proof E batch leaf_index =
     bindR (traverseR (\<lambda>k. bindR (leaf_bytes E k) (\<lambda>data. node_hash E data)) (b_transactions batch)) (\<lambda>nodes.
     if leaf_index \<ge> length nodes then Inl (NotFound ''leaf index out of bounds'')
     else walk_up E nodes leaf_index [])"

section \<open>What the root binds\<close>

text \<open>The bytes whose digest is the root of a non-empty batch.\<close>

definition merkle_preimage :: "Ext \<Rightarrow> TransactionBatch \<Rightarrow> byte list result" where
  "merkle_preimage E batch =
     bindR (traverseR (leaf_bytes E) (b_transactions batch)) (\<lambda>leaves.
     bindR (traverseR (\<lambda>l. map_err SerializationError (pc_bytes E l)) leaves) (\<lambda>blobs. Inr (concat blobs)))"

text \<open>Postcard writes a byte vector behind its length, so an encoding tells where it ends.\<close>

definition self_delimiting :: "('a \<Rightarrow> string + byte list) \<Rightarrow> bool" where
  "self_delimiting ser \<longleftrightarrow>
     (\<forall>a b a' b' x y. ser a = Inr a' \<longrightarrow> ser b = Inr b' \<longrightarrow> a' @ x = b' @ y \<longrightarrow> a = b)"

lemma self_delimitingD:
  "self_delimiting ser \<Longrightarrow> ser a = Inr a' \<Longrightarrow> ser b = Inr b' \<Longrightarrow> a' @ x = b' @ y \<Longrightarrow> a = b \<and> x = y"
  unfolding self_delimiting_def by (metis append_same_eq sum.inject(2) same_append_eq)

lemma concat_encodings_inj:
  assumes sd: "self_delimiting ser"
    and "traverseR (\<lambda>l. map_err SerializationError (ser l)) xs = Inr bs"
    and "traverseR (\<lambda>l. map_err SerializationError (ser l)) ys = Inr cs"
    and "concat bs = concat cs" and "length xs = length ys"
  shows "xs = ys"
  using assms(2-)
proof (induction xs arbitrary: bs ys cs)
  case (Cons x xs)
  from Cons.prems(4) obtain y ys' where ys: "ys = y # ys'" by (cases ys) auto
  from Cons.prems(1) obtain x' bs' where x: "ser x = Inr x'" and bs: "bs = x' # bs'"
    and bs': "traverseR (\<lambda>l. map_err SerializationError (ser l)) xs = Inr bs'"
    by (auto simp: res_simps)
  from Cons.prems(2) obtain y' cs' where y: "ser y = Inr y'" and cs: "cs = y' # cs'"
    and cs': "traverseR (\<lambda>l. map_err SerializationError (ser l)) ys' = Inr cs'"
    by (auto simp: ys res_simps)
  from Cons.prems(3) have "x = y \<and> concat bs' = concat cs'"
    using self_delimitingD [OF sd x y, of "concat bs'" "concat cs'"] by (simp add: bs cs)
  then show ?case using Cons.IH [OF bs' cs'] Cons.prems(4) by (simp add: ys)
qed simp

lemma merkle_root_preimage:
  assumes "compute_merkle_root E batch = Inr r" and "b_transactions batch \<noteq> []"
    and hex: "\<And>h. hex_decode E (hex_encode E h) = Inr h" and "\<And>b. length (blake3_xof64 E b) = 64"
  shows "\<exists>p. merkle_preimage E batch = Inr p \<and> r = blake3_xof64 E p"
proof -
  obtain leaves h d where l: "traverseR (leaf_bytes E) (b_transactions batch) = Inr leaves"
    and h: "remzar_merkle_root E (pc_bytes E) leaves = Inr h" and d: "hex_decode E h = Inr d"
    and r: "first64 ''Decoded merkle root too short'' d = Inr r"
    using assms(1) by (auto simp: compute_merkle_root_def res_simps)
  have "leaves \<noteq> []" using traverseR_length [OF l] assms(2) by auto
  with h obtain blobs where b: "traverseR (\<lambda>l. map_err SerializationError (pc_bytes E l)) leaves = Inr blobs"
    and "h = hex_encode E (blake3_xof64 E (concat blobs))"
    by (auto simp: remzar_merkle_root_def res_simps split: if_splits)
  with d r hex assms(4) have "r = blake3_xof64 E (concat blobs)"
    by (auto simp: first64_def split: if_splits)
  with l b show ?thesis by (simp add: merkle_preimage_def)
qed

section \<open>Properties\<close>

text \<open>C33. The root binds the transactions: two non-empty batches of the same size with the same root
  have the same leaves in the same order, unless their two preimages are a collision of the hash.\<close>

theorem merkle_root_binding:
  assumes "compute_merkle_root E b1 = Inr r" and "compute_merkle_root E b2 = Inr r"
    and "b_transactions b1 \<noteq> []" and "length (b_transactions b2) = length (b_transactions b1)"
    and "self_delimiting (pc_bytes E)"
    and "\<forall>h. hex_decode E (hex_encode E h) = Inr h" and "\<forall>b. length (blake3_xof64 E b) = 64"
  shows "traverseR (leaf_bytes E) (b_transactions b1) = traverseR (leaf_bytes E) (b_transactions b2) \<or>
    (\<exists>p1 p2. merkle_preimage E b1 = Inr p1 \<and> merkle_preimage E b2 = Inr p2 \<and> p1 \<noteq> p2 \<and>
       blake3_xof64 E p1 = blake3_xof64 E p2)"
proof -
  have ne2: "b_transactions b2 \<noteq> []" using assms(3,4) by auto
  obtain p1 where p1: "merkle_preimage E b1 = Inr p1" and r1: "r = blake3_xof64 E p1"
    using merkle_root_preimage [OF assms(1) assms(3)] assms(6,7) by blast
  obtain p2 where p2: "merkle_preimage E b2 = Inr p2" and r2: "r = blake3_xof64 E p2"
    using merkle_root_preimage [OF assms(2) ne2] assms(6,7) by blast
  show ?thesis
  proof (cases "p1 = p2")
    case True
    obtain l1 l2 where l1: "traverseR (leaf_bytes E) (b_transactions b1) = Inr l1"
      and l2: "traverseR (leaf_bytes E) (b_transactions b2) = Inr l2"
      using p1 p2 by (auto simp: merkle_preimage_def res_simps)
    have "length l1 = length l2"
      using traverseR_length [OF l1] traverseR_length [OF l2] assms(4) by simp
    then have "l1 = l2"
      using concat_encodings_inj [OF assms(5), of l1 _ l2] p1 p2 True l1 l2
      by (auto simp: merkle_preimage_def res_simps)
    then show ?thesis by (simp add: l1 l2)
  next
    case False
    with p1 p2 r1 r2 show ?thesis by blast
  qed
qed

lemma fixed_ext_hex: "hex_decode fixed_ext (hex_encode fixed_ext h) = Inr h"
proof (induction h)
  case (Cons b h)
  have lo: "hex_val (hex_digit n) = Some n" if "n < 16" for n
    using that by (auto simp: hex_val_def hex_digit_def)
  have "unat b div 16 < 16" using unat_byte_less [of b] by (simp add: div_less_iff_less_mult del: unat_byte_less)
  moreover have "word_of_nat (unat b div 16 * 16 + unat b mod 16) = b"
    by (simp only: div_mult_mod_eq of_nat_unat ucast_id)
  ultimately show ?case using Cons by (simp add: fixed_ext_def lo)
qed (simp add: fixed_ext_def)

lemma fixed_ext_xof: "length (blake3_xof64 fixed_ext b) = 64"
  by (simp add: fixed_ext_def)

definition sample_batch :: "TxKind list \<Rightarrow> TransactionBatch" where
  "sample_batch ts = \<lparr>b_index = 1, b_timestamp = 0, b_transactions = ts, b_guardian_signature = None\<rparr>"

lemma length_prefix_inj:
  fixes a b :: "byte list"
  assumes "length a < 256 ^ k" "length b < 256 ^ k"
    and "(to_be_bytes k (length a) @ a) @ x = (to_be_bytes k (length b) @ b) @ y"
  shows "a = b"
proof -
  from assms(3) have p: "to_be_bytes k (length a) = to_be_bytes k (length b)" and r: "a @ x = b @ y"
    by (auto simp: append_eq_append_conv)
  from p have "length a = length b"
    by (metis from_to_be_bytes [OF assms(1)] from_to_be_bytes [OF assms(2)])
  with r show "a = b" by simp
qed

lemma fixed_ext_self_delimiting: "self_delimiting (pc_bytes fixed_ext)"
proof -
  have e: "pc_bytes fixed_ext a = Inr a' \<Longrightarrow> length a < 256 ^ 8 \<and> a' = to_be_bytes 8 (length a) @ a" for a a'
    unfolding fixed_ext_def by (simp split: if_splits)
  show ?thesis
    unfolding self_delimiting_def
  proof (intro allI impI)
    fix a b a' b' x y
    assume a: "pc_bytes fixed_ext a = Inr a'" and b: "pc_bytes fixed_ext b = Inr b'" and ab: "a' @ x = b' @ y"
    show "a = b" by (rule length_prefix_inj [of _ 8]) (use e [OF a] e [OF b] ab in \<open>simp_all only: simp_thms\<close>)
  qed
qed

lemma to_be_bytes_8: "n < 256 \<Longrightarrow> to_be_bytes 8 n = [0, 0, 0, 0, 0, 0, 0, word_of_nat n]"
proof -
  have e: "8 = Suc (Suc (Suc (Suc (Suc (Suc (Suc (Suc 0)))))))" by simp
  show "n < 256 \<Longrightarrow> ?thesis" unfolding e by simp
qed

text \<open>Two mints whose identifiers of 64 bytes differ in the last one only. The digest of \<open>fixed_ext\<close>, the first 64 bytes of its input,
  does not reach this byte behind the length prefix, so the two batches have the same root and their preimages are a collision.\<close>

definition wide_mint :: "byte \<Rightarrow> TxKind" where
  "wide_mint c = NftMint \<lparr>mint_nft_id = replicate 63 0 @ [c], mint_content_hash = [], mint_title = [], mint_description = []\<rparr>"

lemma wide_leaf: "leaf_bytes fixed_ext (wide_mint c) = Inr (replicate 63 0 @ [c])"
  by (simp add: wide_mint_def) (simp add: fixed_ext_def)

lemma wide_root: "compute_merkle_root fixed_ext (sample_batch [wide_mint c]) = Inr ([0, 0, 0, 0, 0, 0, 0, 64] @ replicate 56 0)"
proof -
  have p: "pc_bytes fixed_ext (replicate 63 0 @ [c]) = Inr ([0, 0, 0, 0, 0, 0, 0, 64] @ replicate 63 0 @ [c])"
    by (simp add: fixed_ext_def to_be_bytes_8 del: to_be_bytes.simps)
  have x: "blake3_xof64 fixed_ext ([0, 0, 0, 0, 0, 0, 0, 64] @ replicate 63 0 @ [c]) = [0, 0, 0, 0, 0, 0, 0, 64] @ replicate 56 0"
    by (simp add: fixed_ext_def)
  show ?thesis
    using p x by (simp add: compute_merkle_root_def sample_batch_def wide_leaf remzar_merkle_root_def ensure_size_limit_def
        MAX_SERIALIZED_BYTES_def first64_def fixed_ext_hex)
qed

theorem merkle_root_binding_witness:
  "let b1 = sample_batch [wide_mint 7]; b2 = sample_batch [wide_mint 8] in
     compute_merkle_root fixed_ext b1 = compute_merkle_root fixed_ext b2 \<and>
     traverseR (leaf_bytes fixed_ext) (b_transactions b1) \<noteq> traverseR (leaf_bytes fixed_ext) (b_transactions b2) \<and>
     (\<exists>p1 p2. merkle_preimage fixed_ext b1 = Inr p1 \<and> merkle_preimage fixed_ext b2 = Inr p2 \<and> p1 \<noteq> p2 \<and>
        blake3_xof64 fixed_ext p1 = blake3_xof64 fixed_ext p2)"
proof -
  let ?b = "\<lambda>c. sample_batch [wide_mint c]"
  have "traverseR (leaf_bytes fixed_ext) (b_transactions (?b 7)) \<noteq> traverseR (leaf_bytes fixed_ext) (b_transactions (?b 8))"
    by (simp add: sample_batch_def wide_leaf)
  moreover have "traverseR (leaf_bytes fixed_ext) (b_transactions (?b 7)) = traverseR (leaf_bytes fixed_ext) (b_transactions (?b 8)) \<or>
      (\<exists>p1 p2. merkle_preimage fixed_ext (?b 7) = Inr p1 \<and> merkle_preimage fixed_ext (?b 8) = Inr p2 \<and> p1 \<noteq> p2 \<and>
        blake3_xof64 fixed_ext p1 = blake3_xof64 fixed_ext p2)"
    by (rule merkle_root_binding [OF wide_root wide_root])
      (simp_all add: sample_batch_def fixed_ext_self_delimiting fixed_ext_hex fixed_ext_xof)
  ultimately show ?thesis by (simp add: Let_def wide_root)
qed

text \<open>The storage key of a batch names its index: two batches have the same key exactly when they
  have the same index, and an index of at most ten digits gives a key of 19 bytes.\<close>

theorem batch_key_injective:
  "(canonical_db_key_string a = canonical_db_key_string b \<longleftrightarrow> b_index a = b_index b) \<and>
   (b_index a < 10 ^ 10 \<longrightarrow> str_len (canonical_db_key_string a) = 19)"
proof -
  have "b_index a = b_index b" if "canonical_db_key_string a = canonical_db_key_string b"
  proof -
    from that have "decimal_padded 10 (b_index a) = decimal_padded 10 (b_index b)"
      by (simp add: canonical_db_key_string_def)
    then show ?thesis by (metis decimal_padded_val)
  qed
  moreover have "str_len (canonical_db_key_string a) = 19" if "b_index a < 10 ^ 10"
    using digits_ascii [OF decimal_padded_digits [of 10 "b_index a"]] length_decimal_padded [OF that]
    by (simp add: canonical_db_key_string_def str_len_append str_len_ascii)
  ultimately show ?thesis by (auto simp: canonical_db_key_string_def)
qed

theorem batch_key_injective_witness:
  "str_len (canonical_db_key_string (sample_batch [])) = 19"
  using batch_key_injective [of "sample_batch []"] by (simp add: sample_batch_def)

text \<open>The proof of a two-transaction batch is the sibling leaf, and a single transaction needs none;
  but for four leaves the loop overwrites the index inside the level, and leaf 0 gets three entries,
  the sibling, a leaf of the other pair and its own parent, instead of the sibling and the other
  parent.\<close>

theorem inclusion_proof_small:
  assumes "node_hash E (h0 @ h1) = Inr p01" and "node_hash E (h2 @ h3) = Inr p23"
    and "node_hash E (p01 @ p23) = Inr root"
  shows "walk_up E [h0] 0 [] = Inr [] \<and> walk_up E [h0, h1] 0 [] = Inr [h1] \<and>
    walk_up E [h0, h1] 1 [] = Inr [h0] \<and> walk_up E [h0, h1, h2, h3] 0 [] = Inr [h1, h3, p01]"
  using assms by (simp add: walk_up.simps Let_def)

theorem inclusion_proof_small_witness:
  "walk_up fixed_ext [[1], [2], [3], [4]] 0 [] =
     Inr [[2], [4], [0, 0, 0, 0, 0, 0, 0, 2, 1, 2] @ replicate 54 0]"
proof -
  have nh: "node_hash fixed_ext d = Inr (take 64 (p @ replicate 64 0))"
    if "pc_bytes fixed_ext d = Inr p" "length p \<le> MAX_SERIALIZED_BYTES" for d p
    using that fixed_ext_xof [of p]
    by (simp add: node_hash_def compute_data_hash_def ensure_size_limit_def compute_bytes_hash_hex_def
        fixed_ext_hex first64_def) (simp add: fixed_ext_def)
  let ?p = "[0, 0, 0, 0, 0, 0, 0, 2, 1, 2] @ replicate 54 0" and ?q = "[0, 0, 0, 0, 0, 0, 0, 2, 3, 4] @ replicate 54 0"
  have 1: "node_hash fixed_ext ([1] @ [2]) = Inr ?p"
    using nh [of "[1, 2]" "[0, 0, 0, 0, 0, 0, 0, 2, 1, 2]"]
    by (simp add: fixed_ext_def to_be_bytes_8 MAX_SERIALIZED_BYTES_def)
  have 2: "node_hash fixed_ext ([3] @ [4]) = Inr ?q"
    using nh [of "[3, 4]" "[0, 0, 0, 0, 0, 0, 0, 2, 3, 4]"]
    by (simp add: fixed_ext_def to_be_bytes_8 MAX_SERIALIZED_BYTES_def)
  obtain r where 3: "node_hash fixed_ext (?p @ ?q) = Inr r"
    using nh [of "?p @ ?q" "to_be_bytes 8 128 @ ?p @ ?q"]
    by (simp add: fixed_ext_def MAX_SERIALIZED_BYTES_def)
  show ?thesis using inclusion_proof_small [OF 1 2 3] by simp
qed

end
