(* ===== verification/Blocks.thy ===== *)
theory Blocks
  imports Batch
begin

text \<open>
  Block headers, blocks and the puzzle proof a header may commit to
  (\<open>src/blockchain/block_001_metadata.rs\<close>, \<open>block_002_blocks.rs\<close>, \<open>block_003_puzzleproof.rs\<close>):
  structural validation, storage encodings and the block hash.

  The postcard codecs of these types are the fields of \<open>BlockExt\<close>, which also carries the \<open>Ext\<close>
  of the transactions.
\<close>

section \<open>Data\<close>

record BlockPuzzleProof =
  pz_height :: nat
  pz_validator :: rstr
  pz_prev_block_hash :: hash
  pz_output :: nat

record BlockMetadata =
  m_index :: nat
  m_timestamp :: nat
  m_previous_hash :: hash
  m_merkle_root :: hash
  m_guardian_signature :: "byte list"
  m_puzzle_proof :: "BlockPuzzleProof option"
  m_size :: nat

record Block =
  bl_metadata :: BlockMetadata
  bl_batch_key :: "rstr option"
  bl_miner :: rstr
  bl_block_hash :: hash
  bl_reward :: nat

record BlockExt =
  bx :: Ext
  pc_proof :: "BlockPuzzleProof \<Rightarrow> string + byte list"
  pc_meta :: "BlockMetadata \<Rightarrow> string + byte list"
  pc_meta_from :: "byte list \<Rightarrow> string + BlockMetadata"
  pc_block :: "Block \<Rightarrow> string + byte list"
  pc_block_from :: "byte list \<Rightarrow> string + Block"
  pc_block_take :: "byte list \<Rightarrow> string + Block \<times> byte list"

text \<open>The length of an ML-DSA-65 signature.\<close>

definition SIG_LEN :: nat where "SIG_LEN = 3309"

section \<open>Puzzle proofs\<close>

definition MAX_VALIDATOR_LEN :: nat where "MAX_VALIDATOR_LEN = 256"

definition MAX_REASONABLE_HEIGHT :: nat where "MAX_REASONABLE_HEIGHT = 10000000"

definition canonical_validator_checked :: "rstr \<Rightarrow> rstr result" where
  "canonical_validator_checked validator =
     (if str_len validator > MAX_VALIDATOR_LEN then Inl (ValidationError ''BlockPuzzleProof.validator too long'')
      else canon_wallet_id_checked validator)"

definition proof_validate_structural :: "BlockPuzzleProof \<Rightarrow> unit result" where
  "proof_validate_structural p =
     (if pz_height p > MAX_REASONABLE_HEIGHT
        then Inl (ValidationError ''BlockPuzzleProof.height out of bounds'')
      else if trim (pz_validator p) = [] then Inl (ValidationError ''BlockPuzzleProof.validator is empty'')
      else if str_len (pz_validator p) > MAX_VALIDATOR_LEN
        then Inl (ValidationError ''BlockPuzzleProof.validator too long'')
      else
        bindR (canon_wallet_id_checked (pz_validator p)) (\<lambda>canon.
        if canon \<noteq> pz_validator p then Inl (ValidationError ''BlockPuzzleProof.validator is not canonical'')
        else if pz_prev_block_hash p = zero_hash \<or> pz_prev_block_hash p = replicate 64 255
          then Inl (ValidationError ''BlockPuzzleProof.prev_block_hash is an invalid sentinel'')
        else if pz_output p = 0 then Inl (ValidationError ''BlockPuzzleProof.output cannot be 0'')
        else Inr ()))"

definition proof_new :: "nat \<Rightarrow> rstr \<Rightarrow> hash \<Rightarrow> nat \<Rightarrow> BlockPuzzleProof result" where
  "proof_new height validator prev_block_hash output =
     bindR (canonical_validator_checked validator) (\<lambda>validator'.
     let p = \<lparr>pz_height = height, pz_validator = validator', pz_prev_block_hash = prev_block_hash,
              pz_output = output\<rparr> in
     bindR (proof_validate_structural p) (\<lambda>_. Inr p))"

definition commitment_bytes :: "BlockExt \<Rightarrow> BlockPuzzleProof \<Rightarrow> hash result" where
  "commitment_bytes X p =
     bindR (map_err SerializationError (pc_proof X p)) (\<lambda>bytes. Inr (compute_bytes_hash (bx X) bytes))"

section \<open>Headers\<close>

definition MAX_METADATA_INDEX_HARD :: nat where "MAX_METADATA_INDEX_HARD = 10000000"

definition HASH_HEX_LEN :: nat where "HASH_HEX_LEN = 64 * 2"

definition puzzle_commitment_bytes :: "BlockExt \<Rightarrow> BlockMetadata \<Rightarrow> hash result" where
  "puzzle_commitment_bytes X m =
     (case m_puzzle_proof m of Some p \<Rightarrow> commitment_bytes X p | None \<Rightarrow> Inr zero_hash)"

definition meta_compute_hash :: "BlockExt \<Rightarrow> BlockMetadata \<Rightarrow> rstr result" where
  "meta_compute_hash X m = compute_data_hash (bx X) (pc_meta X) m"

definition meta_verify_hash :: "BlockExt \<Rightarrow> BlockMetadata \<Rightarrow> rstr \<Rightarrow> bool result" where
  "meta_verify_hash X m expected0 =
     (let expected = trim expected0 in
      if str_len expected \<noteq> HASH_HEX_LEN then Inl (ValidationError ''BlockMetadata expected hash hex length mismatch'')
      else bindR (meta_compute_hash X m) (\<lambda>h. Inr (h = expected)))"

text \<open>\<open>hex::decode_to_slice\<close> into a 64-byte array, after the check that there are 128 digits.\<close>

definition decode_hash_hex :: "BlockExt \<Rightarrow> rstr \<Rightarrow> hash result" where
  "decode_hash_hex X hex_hash =
     (if str_len hex_hash \<noteq> 128 then Inl (SerializationError ''hex length mismatch: expected 128 chars (64 bytes)'')
      else map_err (\<lambda>_. SerializationError ''Failed to decode hex'') (hex_decode (bx X) hex_hash))"

definition set_merkle_root :: "BlockExt \<Rightarrow> ('a \<Rightarrow> string + byte list) \<Rightarrow> 'a list \<Rightarrow> BlockMetadata \<Rightarrow> BlockMetadata result"
  where
  "set_merkle_root X ser transactions m =
     bindR (if transactions = [] then Inr (compute_dummy_hash (bx X)) else remzar_merkle_root (bx X) ser transactions)
       (\<lambda>merkle_hex.
     if str_len merkle_hex \<noteq> HASH_HEX_LEN then Inl (SerializationError ''Merkle root hex must be 128 chars'')
     else
       bindR (map_err (\<lambda>_. SerializationError ''Merkle decode failed'') (hex_decode (bx X) merkle_hex))
         (\<lambda>merkle_bytes. Inr (m\<lparr>m_merkle_root := merkle_bytes\<rparr>)))"

definition meta_validate_structural :: "BlockMetadata \<Rightarrow> unit result" where
  "meta_validate_structural m =
     (if m_index m > MAX_METADATA_INDEX_HARD \<or> m_size m > MAX_BLOCK_SIZE
        then Inl (ValidationError ''BlockMetadata fields out of bounds (corrupt?)'')
      else if m_size m < MIN_BLOCK_SIZE
        then Inl (ValidationError ''BlockMetadata: size field is implausibly small'')
      else
        bindR (validate_unix_secs_structural (m_timestamp m)) (\<lambda>_.
        if m_timestamp m < MIN_TIMESTAMP_SECS
          then Inl (ValidationError ''BlockMetadata: timestamp below project minimum'')
        else if m_index m = 0 then
          (if m_merkle_root m = zero_hash
             then Inl (ValidationError ''BlockMetadata: genesis merkle_root is all zeros'')
           else if m_puzzle_proof m \<noteq> None
             then Inl (ValidationError ''BlockMetadata: genesis must not include puzzle_proof'')
           else Inr ())
        else if m_merkle_root m = zero_hash
          then Inl (ValidationError ''BlockMetadata: merkle_root is all zeros'')
        else if m_previous_hash m = zero_hash
          then Inl (ValidationError ''BlockMetadata: previous_hash is all zeros'')
        else if m_guardian_signature m = replicate SIG_LEN 0
          then Inl (ValidationError ''BlockMetadata: guardian_signature is all zeros'')
        else if m_merkle_root m = m_previous_hash m
          then Inl (ValidationError ''BlockMetadata: merkle_root == previous_hash'')
        else (case m_puzzle_proof m of
            None \<Rightarrow> Inr ()
          | Some p \<Rightarrow>
              bindR (proof_validate_structural p) (\<lambda>_.
              if pz_height p \<noteq> m_index m
                then Inl (ValidationError ''BlockMetadata: puzzle_proof.height != metadata.index'')
              else if pz_prev_block_hash p \<noteq> m_previous_hash m
                then Inl (ValidationError ''BlockMetadata: puzzle_proof.prev_block_hash != metadata.previous_hash'')
              else Inr ()))))"

definition meta_to_bytes :: "BlockExt \<Rightarrow> BlockMetadata \<Rightarrow> byte list result" where
  "meta_to_bytes X m =
     bindR (meta_validate_structural m) (\<lambda>_.
     bindR (map_err SerializationError (pc_meta X m)) (\<lambda>serialized.
     if length serialized > MAX_METADATA_DECOMPRESSED_BYTES
       then Inl (SerializationError ''Serialize BlockMetadata failed: serialized size exceeds cap'')
     else Inr serialized))"

definition meta_from_bytes :: "BlockExt \<Rightarrow> byte list \<Rightarrow> BlockMetadata result" where
  "meta_from_bytes X data =
     (if length data > MAX_METADATA_DECOMPRESSED_BYTES
        then Inl (SerializationError ''Deserialize BlockMetadata failed: payload size exceeds cap'')
      else
        bindR (map_err SerializationError (pc_meta_from X data)) (\<lambda>m.
        bindR (meta_validate_structural m) (\<lambda>_.
        bindR (map_err SerializationError (pc_meta X m)) (\<lambda>canonical.
        if canonical \<noteq> data
          then Inl (SerializationError ''Deserialize BlockMetadata failed: non-canonical or trailing bytes rejected'')
        else Inr m))))"

definition meta_validate_against_now :: "BlockMetadata \<Rightarrow> nat \<Rightarrow> unit result" where
  "meta_validate_against_now m now =
     bindR (meta_validate_structural m) (\<lambda>_.
     validate_runtime_future_skew_secs (m_timestamp m) now MAX_FUTURE_DRIFT_SECS)"

definition validate_timestamp_with_min_delta :: "BlockMetadata \<Rightarrow> nat \<Rightarrow> nat \<Rightarrow> unit result" where
  "validate_timestamp_with_min_delta m previous_timestamp min_delta_secs =
     validate_block_timestamp_against_parent (m_timestamp m) previous_timestamp min_delta_secs"

definition validate_timestamp :: "BlockMetadata \<Rightarrow> nat \<Rightarrow> unit result" where
  "validate_timestamp m previous_timestamp =
     validate_block_timestamp_against_parent (m_timestamp m) previous_timestamp BLOCK_CREATION_INTERVAL_SECS"

definition validate_size :: "BlockExt \<Rightarrow> BlockMetadata \<Rightarrow> unit result" where
  "validate_size X m =
     (if m_size m < MIN_BLOCK_SIZE then Inl (ValidationError ''BlockMetadata.size field is below minimum'')
      else if m_size m > MAX_BLOCK_SIZE then Inl (ValidationError ''BlockMetadata.size field exceeds MAX_BLOCK_SIZE'')
      else
        bindR (map_err SerializationError (pc_meta X m)) (\<lambda>serialized.
        if length serialized > MAX_BLOCK_SIZE
          then Inl (ValidationError ''BlockMetadata serialized size exceeds maximum allowed'') else Inr ()))"

section \<open>Blocks\<close>

definition MAX_MINER_LEN :: nat where "MAX_MINER_LEN = REMZAR_WALLET_LEN"

definition MAX_BATCH_KEY_LEN :: nat where "MAX_BATCH_KEY_LEN = 4096"

definition canonicalize_miner_for_height :: "rstr \<Rightarrow> nat \<Rightarrow> rstr result" where
  "canonicalize_miner_for_height miner height =
     (if trim miner = [] then (if height = 0 then Inr [] else Inl (ValidationError ''Block.miner missing''))
      else
        bindR (canon_wallet_id_checked miner) (\<lambda>miner'.
        if str_len miner' > MAX_MINER_LEN then Inl (ValidationError ''Block.miner too long'') else Inr miner'))"

definition validate_miner_canonical :: "Block \<Rightarrow> unit result" where
  "validate_miner_canonical b =
     (if trim (bl_miner b) = [] then
        (if m_index (bl_metadata b) \<noteq> 0 then Inl (ValidationError ''Block.miner missing'') else Inr ())
      else
        bindR (canon_wallet_id_checked (bl_miner b)) (\<lambda>canon.
        if canon \<noteq> bl_miner b then Inl (ValidationError ''Block.miner is not in canonical form'')
        else if str_len (bl_miner b) > MAX_MINER_LEN then Inl (ValidationError ''Block.miner too long'')
        else Inr ()))"

definition validate_batch_key_bound :: "rstr option \<Rightarrow> unit result" where
  "validate_batch_key_bound batch_key =
     (case batch_key of
        Some bk \<Rightarrow> if str_len bk > MAX_BATCH_KEY_LEN then Inl (ValidationError ''batch_key too long'') else Inr ()
      | None \<Rightarrow> Inr ())"

definition validate_storage_len :: "byte list \<Rightarrow> unit result" where
  "validate_storage_len data =
     (if length data < MIN_BLOCK_SIZE then Inl (SerializationError ''Block data too short; probably corrupt.'')
      else if length data > MAX_BLOCK_SIZE then Inl (SerializationError ''Block data too large'')
      else Inr ())"

definition validate_block_hash_not_zero :: "Block \<Rightarrow> unit result" where
  "validate_block_hash_not_zero b =
     (if m_index (bl_metadata b) > 0 \<and> bl_block_hash b = zero_hash
        then Inl (ValidationError ''Block: block_hash is all zeros'') else Inr ())"

definition compute_block_hash :: "BlockExt \<Rightarrow> Block \<Rightarrow> rstr result" where
  "compute_block_hash X b =
     (let key_hex = (case bl_batch_key b of
            Some bk \<Rightarrow> if bk \<noteq> [] then compute_bytes_hash_hex (bx X) (str_bytes bk) else compute_dummy_hash (bx X)
          | None \<Rightarrow> compute_dummy_hash (bx X)) in
      if str_len key_hex \<noteq> 128 then Inl (SerializationError ''Key hash hex length mismatch'')
      else
        bindR (map_err (\<lambda>_. SerializationError ''Failed to decode key hash hex'') (hex_decode (bx X) key_hex))
          (\<lambda>key_bytes.
        Inr (compute_bytes_hash_hex (bx X)
          (m_previous_hash (bl_metadata b) @ m_merkle_root (bl_metadata b) @
           m_guardian_signature (bl_metadata b) @ to_be_bytes 8 (bl_reward b) @ key_bytes))))"

definition verify_block_hash :: "BlockExt \<Rightarrow> Block \<Rightarrow> bool result" where
  "verify_block_hash X b =
     bindR (compute_block_hash X b) (\<lambda>hex_hash.
     bindR (decode_hash_hex X hex_hash) (\<lambda>computed. Inr (bl_block_hash b = computed)))"

definition block_validate :: "BlockExt \<Rightarrow> Block \<Rightarrow> nat option \<Rightarrow> unit result" where
  "block_validate X b prev_ts =
     bindR (meta_validate_structural (bl_metadata b)) (\<lambda>_.
     bindR (validate_size X (bl_metadata b)) (\<lambda>_.
     bindR (case prev_ts of
              Some t \<Rightarrow> if m_index (bl_metadata b) > 0 then validate_timestamp (bl_metadata b) t else Inr ()
            | None \<Rightarrow> Inr ()) (\<lambda>_.
     bindR (validate_miner_canonical b) (\<lambda>_.
     bindR (validate_batch_key_bound (bl_batch_key b)) (\<lambda>_.
     bindR (validate_block_hash_not_zero b) (\<lambda>_.
     bindR (verify_block_hash X b) (\<lambda>ok.
     if \<not> ok then Inl (ValidationError ''Block hash mismatch'') else Inr ())))))))"

definition block_validate_against_now :: "BlockExt \<Rightarrow> Block \<Rightarrow> nat \<Rightarrow> unit result" where
  "block_validate_against_now X b now =
     bindR (block_validate X b None) (\<lambda>_. meta_validate_against_now (bl_metadata b) now)"

definition block_new :: "BlockExt \<Rightarrow> BlockMetadata \<Rightarrow> rstr option \<Rightarrow> rstr \<Rightarrow> nat \<Rightarrow> Block result" where
  "block_new X metadata batch_key miner reward =
     bindR (validate_batch_key_bound batch_key) (\<lambda>_.
     bindR (meta_validate_structural metadata) (\<lambda>_.
     bindR (validate_size X metadata) (\<lambda>_.
     bindR (canonicalize_miner_for_height miner (m_index metadata)) (\<lambda>miner'.
     let block = \<lparr>bl_metadata = metadata, bl_batch_key = batch_key, bl_miner = miner',
                  bl_block_hash = zero_hash, bl_reward = reward\<rparr> in
     bindR (compute_block_hash X block) (\<lambda>hex_hash.
     bindR (decode_hash_hex X hex_hash) (\<lambda>h. Inr (block\<lparr>bl_block_hash := h\<rparr>)))))))"

definition block_serialize_for_storage :: "BlockExt \<Rightarrow> Block \<Rightarrow> byte list result" where
  "block_serialize_for_storage X b =
     bindR (block_validate X b None) (\<lambda>_.
     bindR (map_err SerializationError (pc_block X b)) (\<lambda>buf.
     if length buf > MAX_BLOCK_SIZE then Inl (SerializationError ''Serialized block too large'') else Inr buf))"

definition normalize_and_validate_after_decode :: "BlockExt \<Rightarrow> Block \<Rightarrow> Block result" where
  "normalize_and_validate_after_decode X b =
     bindR (meta_validate_structural (bl_metadata b)) (\<lambda>_.
     bindR (validate_size X (bl_metadata b)) (\<lambda>_.
     bindR (canonicalize_miner_for_height (bl_miner b) (m_index (bl_metadata b))) (\<lambda>miner.
     let b' = b\<lparr>bl_miner := miner\<rparr> in
     bindR (validate_batch_key_bound (bl_batch_key b')) (\<lambda>_.
     bindR (validate_block_hash_not_zero b') (\<lambda>_. Inr b')))))"

definition deserialize_from_storage :: "BlockExt \<Rightarrow> byte list \<Rightarrow> Block result" where
  "deserialize_from_storage X data =
     bindR (validate_storage_len data) (\<lambda>_.
     bindR (case pc_block_from X data of
              Inr b \<Rightarrow> Inr b
            | Inl _ \<Rightarrow>
                bindR (map_err SerializationError (pc_block_take X data)) (\<lambda>(b, rest).
                if list_ex (\<lambda>x. x \<noteq> 0) rest
                  then Inl (SerializationError ''Deserialize block failed: non-zero trailing bytes'')
                else Inr b)) (\<lambda>b.
     normalize_and_validate_after_decode X b))"

definition deserialize_with_sizes :: "BlockExt \<Rightarrow> byte list \<Rightarrow> (Block \<times> nat \<times> nat) result" where
  "deserialize_with_sizes X data =
     bindR (validate_storage_len data) (\<lambda>_.
     bindR (map_err SerializationError (pc_block_take X data)) (\<lambda>(b, rest).
     if list_ex (\<lambda>x. x \<noteq> 0) rest
       then Inl (SerializationError ''Deserialize block failed: non-zero trailing bytes'')
     else
       (let actual = length data - length rest in
        bindR (normalize_and_validate_after_decode X b) (\<lambda>b'.
        if actual = 0 then Inl (SerializationError ''Decoded block size computed as 0 bytes; corrupt padding?'')
        else Inr (b', actual, length data)))))"

section \<open>The header encoding is strict\<close>

definition capped :: "nat \<Rightarrow> ('a \<Rightarrow> string + byte list) \<Rightarrow> 'a \<Rightarrow> string + byte list" where
  "capped n enc x = bindR (enc x) (\<lambda>b. if length b > n then Inl ''too long'' else Inr b)"

interpretation meta_wire: strict_wire meta_validate_structural
    "capped MAX_METADATA_DECOMPRESSED_BYTES (pc_meta X)" "pc_meta_from X" "meta_to_bytes X" "meta_from_bytes X" for X
proof unfold_locales
  show "meta_to_bytes X x = Inr b \<longleftrightarrow>
      meta_validate_structural x = Inr () \<and> capped MAX_METADATA_DECOMPRESSED_BYTES (pc_meta X) x = Inr b" for x b
    by (auto simp: meta_to_bytes_def capped_def res_simps split: if_splits)
  show "meta_from_bytes X b = Inr x \<longleftrightarrow>
      pc_meta_from X b = Inr x \<and> meta_validate_structural x = Inr () \<and>
      capped MAX_METADATA_DECOMPRESSED_BYTES (pc_meta X) x = Inr b" for x b
    by (auto simp: meta_from_bytes_def capped_def res_simps split: if_splits)
qed

section \<open>Facts on blocks\<close>

lemma canonical_miner_fixed:
  assumes "canonicalize_miner_for_height miner h = Inr m" and "m_index (bl_metadata b) = h" and "bl_miner b = m"
  shows "validate_miner_canonical b = Inr ()"
proof (cases "trim miner = []")
  case True
  with assms show ?thesis
    by (auto simp: canonicalize_miner_for_height_def validate_miner_canonical_def trim_none split: if_splits)
next
  case False
  with assms(1) have c: "canon_wallet_id_checked miner = Inr m" and l: "\<not> str_len m > MAX_MINER_LEN"
    by (auto simp: canonicalize_miner_for_height_def res_simps split: if_splits)
  have w: "canonical_wallet m" by (rule canon_wallet_result(1) [OF c])
  show ?thesis
    using l by (simp add: validate_miner_canonical_def assms canonical_wallet_facts [OF w]
        canonical_not_Nil [OF w] canon_wallet_canonical [OF w])
qed

lemma compute_block_hash_cong:
  assumes "m_previous_hash (bl_metadata b) = m_previous_hash (bl_metadata b')"
    and "m_merkle_root (bl_metadata b) = m_merkle_root (bl_metadata b')"
    and "m_guardian_signature (bl_metadata b) = m_guardian_signature (bl_metadata b')"
    and "bl_reward b = bl_reward b'" and "bl_batch_key b = bl_batch_key b'"
  shows "compute_block_hash X b = compute_block_hash X b'"
  unfolding compute_block_hash_def assms ..

lemma compute_block_hash_scope:
  "compute_block_hash X (b\<lparr>bl_block_hash := h\<rparr>) = compute_block_hash X b"
  "compute_block_hash X (b\<lparr>bl_miner := w\<rparr>) = compute_block_hash X b"
  by (rule compute_block_hash_cong; simp)+

section \<open>Properties\<close>

text \<open>A block built by \<open>Block::new\<close> carries the hash of its contents, and it passes
  \<open>Block::validate\<close> unless that hash is the all-zero one at a height above genesis.\<close>

theorem block_new_validates:
  assumes "block_new X metadata batch_key miner reward = Inr b"
  shows "verify_block_hash X b = Inr True \<and> bl_metadata b = metadata \<and> bl_reward b = reward \<and>
    (bl_block_hash b \<noteq> zero_hash \<or> m_index metadata = 0 \<longrightarrow> block_validate X b None = Inr ())"
proof -
  obtain m h hx where k: "validate_batch_key_bound batch_key = Inr ()"
    and s: "meta_validate_structural metadata = Inr ()" and z: "validate_size X metadata = Inr ()"
    and m: "canonicalize_miner_for_height miner (m_index metadata) = Inr m"
    and hx: "compute_block_hash X \<lparr>bl_metadata = metadata, bl_batch_key = batch_key, bl_miner = m,
                  bl_block_hash = zero_hash, bl_reward = reward\<rparr> = Inr hx"
    and h: "decode_hash_hex X hx = Inr h"
    and b: "b = \<lparr>bl_metadata = metadata, bl_batch_key = batch_key, bl_miner = m, bl_block_hash = h, bl_reward = reward\<rparr>"
    using assms by (auto simp: block_new_def Let_def res_simps)
  have c: "compute_block_hash X b = Inr hx"
    using hx compute_block_hash_scope(1) [where X = X and b = "\<lparr>bl_metadata = metadata, bl_batch_key = batch_key, bl_miner = m,
                  bl_block_hash = zero_hash, bl_reward = reward\<rparr>" and h = h] by (simp add: b)
  have v: "verify_block_hash X b = Inr True"
    by (simp add: verify_block_hash_def c h) (simp add: b)
  moreover have "validate_miner_canonical b = Inr ()"
    by (rule canonical_miner_fixed [OF m]) (simp_all add: b)
  ultimately show ?thesis
    using k s z by (auto simp: block_validate_def validate_block_hash_not_zero_def b)
qed

text \<open>The block hash does not cover the miner: a valid block stays valid, with the same hash, when
  its miner is replaced by any other canonical wallet; and the height, timestamp, size and puzzle
  proof of the header do not enter the hash either.\<close>

theorem block_hash_omits_miner:
  assumes "block_validate X b None = Inr ()" and "canonical_wallet w"
  shows "block_validate X (b\<lparr>bl_miner := w\<rparr>) None = Inr () \<and>
    compute_block_hash X (b\<lparr>bl_metadata := (bl_metadata b)\<lparr>m_index := i, m_timestamp := t, m_puzzle_proof := p, m_size := z\<rparr>\<rparr>) =
    compute_block_hash X b"
proof -
  have "validate_miner_canonical (b\<lparr>bl_miner := w\<rparr>) = Inr ()"
    by (simp add: validate_miner_canonical_def canonical_wallet_facts [OF assms(2)] canonical_not_Nil [OF assms(2)]
        canon_wallet_canonical [OF assms(2)] MAX_MINER_LEN_def REMZAR_WALLET_LEN_def)
  then have "block_validate X (b\<lparr>bl_miner := w\<rparr>) None = Inr ()"
    using assms(1)
    by (auto simp: block_validate_def verify_block_hash_def compute_block_hash_scope validate_block_hash_not_zero_def
        res_simps split: if_splits)
  moreover have "compute_block_hash X (b\<lparr>bl_metadata := (bl_metadata b)\<lparr>m_index := i, m_timestamp := t, m_puzzle_proof := p, m_size := z\<rparr>\<rparr>) =
    compute_block_hash X b" by (rule compute_block_hash_cong) simp_all
  ultimately show ?thesis ..
qed

text \<open>A stored header is the encoding of exactly one header: \<open>BlockMetadata::from_bytes\<close> accepts a
  byte string only if it is within the size cap, the header is structurally valid and encoding it
  gives the bytes back.\<close>

theorem meta_bytes_strict:
  assumes "meta_from_bytes X data = Inr m"
  shows "meta_to_bytes X m = Inr data \<and> meta_validate_structural m = Inr () \<and>
    length data \<le> MAX_METADATA_DECOMPRESSED_BYTES \<and> (\<forall>d. meta_from_bytes X d = Inr m \<longrightarrow> d = data)"
proof -
  have "meta_to_bytes X m = Inr data" by (rule meta_wire.reserialize [OF assms])
  moreover have "length data \<le> MAX_METADATA_DECOMPRESSED_BYTES"
    using assms by (auto simp: meta_from_bytes_def split: if_splits)
  ultimately show ?thesis
    using meta_wire.accepts_valid [OF assms] meta_wire.one_encoding [OF assms] by auto
qed

section \<open>A concrete block\<close>

definition sample_bext :: BlockExt where
  "sample_bext = \<lparr>bx = fixed_ext, pc_proof = \<lambda>p. Inr (to_be_bytes 8 (pz_height p)),
     pc_meta = \<lambda>m. Inr (to_be_bytes 8 (m_index m) @ m_merkle_root m),
     pc_meta_from = \<lambda>b. if length b \<noteq> 72 then Inl ''length'' else
       Inr \<lparr>m_index = 0, m_timestamp = 1700000000, m_previous_hash = zero_hash,
            m_merkle_root = drop 8 b, m_guardian_signature = [], m_puzzle_proof = None, m_size = 64\<rparr>,
     pc_block = \<lambda>b. Inr (bl_block_hash b @ to_be_bytes 8 (bl_reward b)),
     pc_block_from = \<lambda>b. Inl ''unsupported'', pc_block_take = \<lambda>b. Inl ''unsupported''\<rparr>"

definition sample_meta :: BlockMetadata where
  "sample_meta = \<lparr>m_index = 0, m_timestamp = 1700000000, m_previous_hash = zero_hash,
     m_merkle_root = replicate 64 1, m_guardian_signature = [], m_puzzle_proof = None, m_size = 64\<rparr>"

lemma sample_meta_valid: "meta_validate_structural sample_meta = Inr ()" "validate_size sample_bext sample_meta = Inr ()"
  by (simp_all add: meta_validate_structural_def sample_meta_def validate_size_def sample_bext_def cfg_defs
      MAX_METADATA_INDEX_HARD_def zero_hash_def)

lemma fixed_hex_len: "str_len (hex_encode fixed_ext b) = 2 * length b"
proof -
  have d: "hex_digit n < 128" if "n < 16" for n using that by (simp add: hex_digit_def)
  have x: "unat (x :: byte) div 16 < 16" for x
    using unat_byte_less [of x] by (simp add: div_less_iff_less_mult del: unat_byte_less)
  have "is_ascii (hex_encode fixed_ext b)"
    by (induction b) (auto simp: fixed_ext_def d x)
  moreover have "length (hex_encode fixed_ext b) = 2 * length b"
    by (induction b) (simp_all add: fixed_ext_def)
  ultimately show ?thesis by (simp add: str_len_ascii)
qed

lemma sample_hash: "\<exists>h. compute_block_hash sample_bext b = Inr (hex_encode fixed_ext h) \<and> length h = 64"
  by (auto simp: compute_block_hash_def Let_def compute_bytes_hash_hex_def compute_dummy_hash_def sample_bext_def
      fixed_hex_len fixed_ext_xof fixed_ext_hex split: option.splits)

lemma sample_block_new: "\<exists>b. block_new sample_bext sample_meta None (sample_wallet 97) 0 = Inr b"
proof -
  have w: "canonical_wallet (sample_wallet 97)" by (simp add: sample_wallet_canonical is_lower_hex_def)
  have "canonicalize_miner_for_height (sample_wallet 97) h = Inr (sample_wallet 97)" for h
    by (simp add: canonicalize_miner_for_height_def canonical_wallet_facts [OF w] canon_wallet_canonical [OF w]
        MAX_MINER_LEN_def REMZAR_WALLET_LEN_def)
  moreover obtain h where "compute_block_hash sample_bext \<lparr>bl_metadata = sample_meta, bl_batch_key = None,
      bl_miner = sample_wallet 97, bl_block_hash = zero_hash, bl_reward = 0\<rparr> = Inr (hex_encode fixed_ext h)" "length h = 64"
    using sample_hash by blast
  moreover have "decode_hash_hex sample_bext (hex_encode fixed_ext h) = Inr h"
    using \<open>length h = 64\<close> by (simp add: decode_hash_hex_def fixed_hex_len) (simp add: sample_bext_def fixed_ext_hex)
  ultimately show ?thesis
    by (simp add: block_new_def validate_batch_key_bound_def sample_meta_valid Let_def)
qed

theorem block_new_validates_witness: "\<exists>b. block_validate sample_bext b None = Inr () \<and> bl_metadata b = sample_meta"
proof -
  obtain b where "block_new sample_bext sample_meta None (sample_wallet 97) 0 = Inr b" using sample_block_new by blast
  from block_new_validates [OF this] show ?thesis by (auto simp: sample_meta_def)
qed

lemma sample_block_valid: "\<exists>b. block_validate sample_bext b None = Inr ()"
proof -
  have m: "validate_miner_canonical \<lparr>bl_metadata = sample_meta, bl_batch_key = None, bl_miner = [],
      bl_block_hash = h, bl_reward = 0\<rparr> = Inr ()" for h
    by (simp add: validate_miner_canonical_def sample_meta_def trim_none)
  obtain h where c: "compute_block_hash sample_bext \<lparr>bl_metadata = sample_meta, bl_batch_key = None,
      bl_miner = [], bl_block_hash = zero_hash, bl_reward = 0\<rparr> = Inr (hex_encode fixed_ext h)" and l: "length h = 64"
    using sample_hash by blast
  let ?b = "\<lparr>bl_metadata = sample_meta, bl_batch_key = None, bl_miner = [], bl_block_hash = h, bl_reward = 0\<rparr>"
  have "compute_block_hash sample_bext ?b = Inr (hex_encode fixed_ext h)"
    using c compute_block_hash_cong [of ?b "\<lparr>bl_metadata = sample_meta, bl_batch_key = None,
      bl_miner = [], bl_block_hash = zero_hash, bl_reward = 0\<rparr>"] by simp
  moreover have "decode_hash_hex sample_bext (hex_encode fixed_ext h) = Inr h"
    using l by (simp add: decode_hash_hex_def fixed_hex_len) (simp add: sample_bext_def fixed_ext_hex)
  ultimately have "block_validate sample_bext ?b None = Inr ()"
    using sample_meta_valid m
    by (simp add: block_validate_def validate_batch_key_bound_def validate_block_hash_not_zero_def verify_block_hash_def)
       (simp add: sample_meta_def)
  then show ?thesis by blast
qed

theorem block_hash_omits_miner_witness:
  "\<exists>b. block_validate sample_bext (b\<lparr>bl_miner := sample_wallet 98\<rparr>) None = Inr ()"
proof -
  obtain b where "block_validate sample_bext b None = Inr ()" using sample_block_valid by blast
  moreover have "canonical_wallet (sample_wallet 98)" by (simp add: sample_wallet_canonical is_lower_hex_def)
  ultimately show ?thesis using block_hash_omits_miner by blast
qed

theorem meta_bytes_strict_witness:
  "meta_to_bytes sample_bext sample_meta = Inr (to_be_bytes 8 0 @ replicate 64 1)"
proof -
  have "meta_from_bytes sample_bext (to_be_bytes 8 0 @ replicate 64 1) = Inr sample_meta"
    unfolding meta_wire.deserialize_iff
    using sample_meta_valid(1)
    by (simp add: capped_def MAX_METADATA_DECOMPRESSED_BYTES_def) (simp add: sample_bext_def sample_meta_def)
  from meta_bytes_strict [OF this] show ?thesis by simp
qed

end
