(* ===== verification/Ledger.thy ===== *)
theory Ledger
  imports Blocks
begin

text \<open>
  The account state and its guards: \<open>InnerTree\<close> of
  \<open>src/blockchain/transaction_005_tx_account_tree.rs\<close> and \<open>AccountGuard\<close> of
  \<open>transaction_006_tx_account_tree_guards.rs\<close>: batch validation, the application of a batch to a
  state, the state invariants, idempotency and the dry run of a block.

  A function that takes \<open>&mut InnerTree\<close> returns the new state; on an error the model drops the
  state, as every caller works on a copy that it discards. A \<open>BTreeSet\<close> of account names is a sorted
  list without repetition. \<open>usize\<close> has 64 bits.
\<close>

section \<open>Data\<close>

record InnerTree =
  it_balances :: "(rstr, nat) hmap"
  it_tip_height :: nat
  it_tip_hash :: hash
  it_prev_tip_hash :: hash
  it_has_tip :: bool
  it_blocks :: "Block list"
  it_total_issued_micro :: nat
  it_rewards_issued_micro :: nat
  it_reserved_issued_micro :: nat

record GuardConfig =
  enforce_no_burn_supply_equality :: bool

definition default_guard :: GuardConfig where
  "default_guard = \<lparr>enforce_no_burn_supply_equality = True\<rparr>"

datatype ApplyMode = Live | Replay

record ApplyContext =
  cx_mode :: ApplyMode
  cx_block_height :: nat
  cx_block_hash :: hash
  cx_previous_hash :: hash
  cx_allow_duplicate_reward_in_batch :: bool

record StateFingerprint =
  fp_height :: nat
  fp_total_issued_micro :: nat
  fp_rewards_issued_micro :: nat
  fp_total_supply_micro :: nat
  fp_touched_accounts :: "(rstr \<times> nat) list"
  fp_hex :: rstr

record BatchApplyOutcome =
  oc_touched_accounts :: "rstr list"
  oc_total_supply_micro :: nat
  oc_fingerprint_hex :: rstr

definition MAX_RECENT_BLOCKS_IN_RAM :: nat where "MAX_RECENT_BLOCKS_IN_RAM = 512"
definition MAX_ACCOUNT_KEY_BYTES :: nat where "MAX_ACCOUNT_KEY_BYTES = 256"
definition MAX_TOUCHED_ACCOUNTS_PER_TX :: nat where "MAX_TOUCHED_ACCOUNTS_PER_TX = 4"

definition inner_empty :: InnerTree where
  "inner_empty = \<lparr>it_balances = [], it_tip_height = 0, it_tip_hash = zero_hash, it_prev_tip_hash = zero_hash,
     it_has_tip = False, it_blocks = [], it_total_issued_micro = 0, it_rewards_issued_micro = 0,
     it_reserved_issued_micro = 0\<rparr>"

definition expected_next_height :: "InnerTree \<Rightarrow> nat" where
  "expected_next_height st = (if it_has_tip st then saturating_add 64 (it_tip_height st) 1 else 0)"

definition current_tip_hash :: "InnerTree \<Rightarrow> hash option" where
  "current_tip_hash st = (if it_has_tip st then Some (it_tip_hash st) else None)"

definition current_prev_tip_hash :: "InnerTree \<Rightarrow> hash option" where
  "current_prev_tip_hash st = (if it_has_tip st then Some (it_prev_tip_hash st) else None)"

section \<open>Helpers\<close>

definition max_txs_per_block_usize :: "nat result" where
  "max_txs_per_block_usize =
     ok_or (ValidationError ''Invalid MAX_TXS_PER_BLOCK (cannot fit into usize)'') (try_from 64 MAX_TXS_PER_BLOCK)"

definition max_batch_serialized_bytes :: "nat result" where
  "max_batch_serialized_bytes =
     bindR (ok_or (ValidationError ''Invalid MAX_BLOCK_SIZE (cannot fit into usize)'') (try_from 64 MAX_BLOCK_SIZE))
       (\<lambda>max_block_size.
     ok_or (ValidationError ''MAX_BLOCK_SIZE + MAX_BATCH_SERIALIZED_OVERHEAD overflows usize'')
       (checked_add 64 max_block_size MAX_BATCH_SERIALIZED_OVERHEAD))"

definition validate_account_key_string :: "rstr \<Rightarrow> unit result" where
  "validate_account_key_string account =
     (if account = [] then Inl (ValidationError ''account must be non-empty'')
      else if str_len account > MAX_ACCOUNT_KEY_BYTES then Inl (ValidationError ''account is too long'')
      else if list_ex is_ascii_control (as_bytes account)
        then Inl (ValidationError ''account contains ASCII control bytes'')
      else Inr ())"

definition normalize_wallet_bytes :: "byte list \<Rightarrow> rstr" where
  "normalize_wallet_bytes bytes = trim (trim_end_by (\<lambda>c. c = 0) (from_utf8_lossy (map unat bytes)))"

definition sum_balances_checked :: "(rstr, nat) hmap \<Rightarrow> nat result" where
  "sum_balances_checked balances =
     foldR (\<lambda>acc v. ok_or (ValidationError ''Overflow while summing balances'') (checked_add 64 acc v)) 0
       (map snd balances)"

definition verify_touched_account_bound :: "TransactionBatch \<Rightarrow> rstr list \<Rightarrow> unit result" where
  "verify_touched_account_bound batch touched =
     bindR (ok_or (ValidationError ''Touched-account cap overflowed usize'')
              (checked_mul 64 (length (b_transactions batch)) MAX_TOUCHED_ACCOUNTS_PER_TX)) (\<lambda>by_tx_cap.
     bindR max_txs_per_block_usize (\<lambda>mx.
     bindR (ok_or (ValidationError ''Global touched-account cap overflowed usize'')
              (checked_mul 64 mx MAX_TOUCHED_ACCOUNTS_PER_TX)) (\<lambda>hard_cap.
     if length touched > min by_tx_cap hard_cap
       then Inl (ValidationError ''Touched-account set too large for batch'') else Inr ())))"

definition verify_compact_tip_shape :: "InnerTree \<Rightarrow> unit result" where
  "verify_compact_tip_shape st =
     (if \<not> it_has_tip st then
        (if it_tip_height st \<noteq> 0 \<or> it_tip_hash st \<noteq> zero_hash \<or> it_prev_tip_hash st \<noteq> zero_hash
           then Inl (ValidationError ''Invariant violation: no-tip state must have zero tip metadata'')
         else Inr ())
      else if it_tip_hash st = zero_hash
        then Inl (ValidationError ''Invariant violation: compact state has_tip=true but tip_hash is zero'')
      else if it_tip_height st > 0 \<and> it_prev_tip_hash st = zero_hash
        then Inl (ValidationError ''Invariant violation: non-genesis compact tip has zero prev_tip_hash'')
      else Inr ())"

definition verify_recent_cache_not_full_history_regression :: "InnerTree \<Rightarrow> unit result" where
  "verify_recent_cache_not_full_history_regression st =
     (if \<not> it_has_tip st \<or> length (it_blocks st) < MAX_RECENT_BLOCKS_IN_RAM then Inr ()
      else (case it_blocks st of
          [] \<Rightarrow> Inr ()
        | first # _ \<Rightarrow>
            if it_tip_height st \<ge> MAX_RECENT_BLOCKS_IN_RAM \<and> m_index (bl_metadata first) = 0
              then Inl (ValidationError ''Invariant violation: recent block cache appears to contain genesis-to-tip history'')
            else Inr ()))"

fun verify_contiguous_recent_blocks :: "Block list \<Rightarrow> unit result" where
  "verify_contiguous_recent_blocks (prev # block # rest) =
     (if m_index (bl_metadata block) \<noteq> saturating_add 64 (m_index (bl_metadata prev)) 1
        then Inl (ValidationError ''Invariant violation: non-contiguous recent block cache'')
      else if m_previous_hash (bl_metadata block) \<noteq> bl_block_hash prev
        then Inl (ValidationError ''Invariant violation: previous_hash mismatch in recent cache'')
      else verify_contiguous_recent_blocks (block # rest))"
| "verify_contiguous_recent_blocks _ = Inr ()"

definition verify_recent_block_cache :: "InnerTree \<Rightarrow> unit result" where
  "verify_recent_block_cache st =
     (if length (it_blocks st) > MAX_RECENT_BLOCKS_IN_RAM
        then Inl (ValidationError ''Invariant violation: recent block cache len exceeds max'')
      else if \<not> it_has_tip st then
        (if it_blocks st \<noteq> []
           then Inl (ValidationError ''Invariant violation: state has recent blocks but no compact tip'') else Inr ())
      else
        bindR (verify_contiguous_recent_blocks (it_blocks st)) (\<lambda>_.
        if it_blocks st = [] then Inr ()
        else
          (let b = last (it_blocks st) in
           if m_index (bl_metadata b) \<noteq> it_tip_height st \<or> bl_block_hash b \<noteq> it_tip_hash st
             then Inl (ValidationError ''Invariant violation: recent cache tip mismatch'')
           else if it_tip_height st = 0 then
             (if it_prev_tip_hash st \<noteq> m_previous_hash (bl_metadata b)
                then Inl (ValidationError ''Invariant violation: genesis prev_tip_hash does not match genesis previous_hash'')
              else Inr ())
           else if m_previous_hash (bl_metadata b) \<noteq> it_prev_tip_hash st
             then Inl (ValidationError ''Invariant violation: recent tip previous_hash mismatch'')
           else Inr ())))"

text \<open>\<open>drain(0..excess)\<close> on the recent blocks.\<close>

definition cap_recent :: "Block list \<Rightarrow> Block list" where
  "cap_recent bs = (if length bs > MAX_RECENT_BLOCKS_IN_RAM then drop (length bs - MAX_RECENT_BLOCKS_IN_RAM) bs else bs)"

definition remember_recent_block_for_guard :: "InnerTree \<Rightarrow> Block \<Rightarrow> InnerTree" where
  "remember_recent_block_for_guard st block =
     (let prev_hash = (if it_has_tip st then it_tip_hash st else m_previous_hash (bl_metadata block));
          already_last = (it_blocks st \<noteq> [] \<and>
            m_index (bl_metadata (last (it_blocks st))) = m_index (bl_metadata block) \<and>
            bl_block_hash (last (it_blocks st)) = bl_block_hash block);
          blocks = (if already_last then it_blocks st else it_blocks st @ [block]) in
      st\<lparr>it_prev_tip_hash := prev_hash, it_tip_height := m_index (bl_metadata block),
         it_tip_hash := bl_block_hash block, it_has_tip := True, it_blocks := cap_recent blocks\<rparr>)"

section \<open>Fingerprints\<close>

record StableHasher =
  sh_lo :: "64 word"
  sh_hi :: "64 word"

definition hasher_new :: StableHasher where
  "hasher_new = \<lparr>sh_lo = 0xcbf29ce484222325, sh_hi = 0x84222325cbf29ce4\<rparr>"

definition update_byte :: "StableHasher \<Rightarrow> byte \<Rightarrow> StableHasher" where
  "update_byte h b =
     \<lparr>sh_lo = (xor (sh_lo h) (ucast b)) * 0x100000001b3,
      sh_hi = (xor (sh_hi h) (word_rotl 1 (ucast b))) * 0x9e3779b185ebca87\<rparr>"

definition update_bytes :: "StableHasher \<Rightarrow> byte list \<Rightarrow> StableHasher" where
  "update_bytes h bytes = foldl update_byte h bytes"

definition update_u64 :: "StableHasher \<Rightarrow> nat \<Rightarrow> StableHasher" where
  "update_u64 h n = update_bytes h (to_be_bytes 8 n)"

definition update_bool :: "StableHasher \<Rightarrow> bool \<Rightarrow> StableHasher" where
  "update_bool h v = update_bytes h [if v then 1 else 0]"

definition update_str :: "StableHasher \<Rightarrow> rstr \<Rightarrow> StableHasher" where
  "update_str h s = update_bytes (update_u64 h (str_len s)) (str_bytes s)"

text \<open>\<open>{:016x}\<close>: sixteen lower-case hex digits.\<close>

definition hex16 :: "64 word \<Rightarrow> rstr" where
  "hex16 w = concat (map (\<lambda>b. [hex_digit (unat b div 16), hex_digit (unat b mod 16)]) (to_be_bytes 8 (unat w)))"

definition finish_hex_128 :: "StableHasher \<Rightarrow> rstr" where
  "finish_hex_128 h = hex16 (sh_hi h) @ hex16 (sh_lo h)"

definition compute_state_fingerprint_with_values ::
    "InnerTree \<Rightarrow> nat \<Rightarrow> hash \<Rightarrow> hash \<Rightarrow> rstr list \<Rightarrow> StateFingerprint result" where
  "compute_state_fingerprint_with_values st height block_hash previous_hash touched_accounts =
     bindR (sum_balances_checked (it_balances st)) (\<lambda>total_supply.
     let touched = map (\<lambda>acct. (acct, hget0 (it_balances st) acct)) touched_accounts;
         h0 = update_str hasher_new (lit ''REMZAR_ACCOUNT_STATE_FINGERPRINT_V2'');
         h1 = update_u64 (update_u64 (update_u64 (update_u64 h0 height) (it_total_issued_micro st))
                (it_rewards_issued_micro st)) total_supply;
         h2 = update_u64 (update_bool h1 (it_has_tip st)) (it_tip_height st);
         h3 = update_bytes (update_bytes (update_bytes (update_bytes h2 (it_tip_hash st)) (it_prev_tip_hash st))
                block_hash) previous_hash;
         h4 = foldl (\<lambda>h (acct, bal). update_u64 (update_str h acct) bal) h3 touched in
     Inr \<lparr>fp_height = height, fp_total_issued_micro = it_total_issued_micro st,
          fp_rewards_issued_micro = it_rewards_issued_micro st, fp_total_supply_micro = total_supply,
          fp_touched_accounts = touched, fp_hex = finish_hex_128 h4\<rparr>)"

definition compute_state_fingerprint_for_context ::
    "InnerTree \<Rightarrow> ApplyContext \<Rightarrow> rstr list \<Rightarrow> StateFingerprint result" where
  "compute_state_fingerprint_for_context st ctx touched_accounts =
     compute_state_fingerprint_with_values st (cx_block_height ctx) (cx_block_hash ctx) (cx_previous_hash ctx)
       touched_accounts"

section \<open>Batch validation\<close>

definition validate_batch_payload_size :: "Ext \<Rightarrow> TransactionBatch \<Rightarrow> unit result" where
  "validate_batch_payload_size E batch =
     bindR (serialized_len E batch) (\<lambda>n.
     bindR max_batch_serialized_bytes (\<lambda>cap.
     if n > cap then Inl (ValidationError ''Batch serialized length exceeds guarded cap'') else Inr ()))"

definition validate_apply_context :: "ApplyContext \<Rightarrow> unit result" where
  "validate_apply_context ctx =
     (if cx_block_hash ctx = zero_hash then Inl (ValidationError ''ApplyContext has all-zero block_hash'')
      else if cx_block_height ctx > 0 \<and> cx_previous_hash ctx = zero_hash
        then Inl (ValidationError ''ApplyContext for non-genesis height has all-zero previous_hash'')
      else if cx_mode ctx = Live \<and> cx_allow_duplicate_reward_in_batch ctx
        then Inl (ValidationError ''Live ApplyContext cannot allow duplicate reward transactions'')
      else Inr ())"

text \<open>The loop body of the batch validator, on the transfer ids seen and the number of rewards.\<close>

fun validate_kind :: "Ext \<Rightarrow> rstr list \<times> nat \<Rightarrow> TxKind \<Rightarrow> (rstr list \<times> nat) result" where
  "validate_kind E (seen, rewards) (Transfer tx) =
     (let sender = normalize_wallet_bytes (tx_sender tx); receiver = normalize_wallet_bytes (tx_receiver tx) in
      if tx_amount tx = 0 then Inl (ValidationError ''Transfer tx amount must be non-zero'')
      else
        bindR (validate_account_key_string sender) (\<lambda>_.
        bindR (validate_account_key_string receiver) (\<lambda>_.
        if sender = receiver then Inl (ValidationError ''Transfer tx sender and receiver cannot be the same'')
        else if tx_amount tx > MAX_TX_AMOUNT then Inl (ValidationError ''Transfer tx amount exceeds allowed max'')
        else
          bindR (tx_id E tx) (\<lambda>tid.
          if tid \<in> set seen then Inl (ValidationError ''Duplicate transfer transaction detected in batch'')
          else Inr (tid # seen, rewards)))))"
| "validate_kind E (seen, rewards) (Reward rew) =
     (let receiver = normalize_wallet_bytes (rew_receiver rew) in
      if rew_amount rew = 0 then Inl (ValidationError ''Reward tx amount must be non-zero'')
      else
        bindR (validate_account_key_string receiver) (\<lambda>_.
        if rew_amount rew > MAX_BLOCK_REWARD then Inl (ValidationError ''Reward tx amount exceeds max block reward'')
        else Inr (seen, saturating_add 64 rewards 1)))"
| "validate_kind E (seen, rewards) (RegisterNode reg) =
     bindR (validate_account_key_string (normalize_wallet_bytes (reg_wallet_address reg))) (\<lambda>_. Inr (seen, rewards))"
| "validate_kind E (seen, rewards) (NftMint _) = Inr (seen, rewards)"
| "validate_kind E (seen, rewards) (NftTransfer _) = Inr (seen, rewards)"

definition validate_batch_structure_with_reward_policy :: "Ext \<Rightarrow> TransactionBatch \<Rightarrow> bool \<Rightarrow> unit result" where
  "validate_batch_structure_with_reward_policy E batch allow_duplicate_reward_in_batch =
     bindR (validate_batch_payload_size E batch) (\<lambda>_.
     bindR max_txs_per_block_usize (\<lambda>mx.
     if length (b_transactions batch) > mx then Inl (ValidationError ''Batch contains too many transactions'')
     else
       bindR (foldR (validate_kind E) ([], 0) (b_transactions batch)) (\<lambda>(seen, reward_count).
       if \<not> allow_duplicate_reward_in_batch \<and> reward_count > 1
         then Inl (ValidationError ''Batch contains multiple reward transactions'') else Inr ())))"

definition validate_batch_structure :: "Ext \<Rightarrow> TransactionBatch \<Rightarrow> unit result" where
  "validate_batch_structure E batch = validate_batch_structure_with_reward_policy E batch False"

section \<open>State invariants\<close>

definition verify_state_invariants ::
    "GuardConfig \<Rightarrow> InnerTree \<Rightarrow> nat option \<Rightarrow> hash option \<Rightarrow> hash option \<Rightarrow> unit result" where
  "verify_state_invariants g st expected_tip_height expected_tip_hash expected_prev_hash =
     bindR (verify_compact_tip_shape st) (\<lambda>_.
     bindR (foldR (\<lambda>_ acct.
         bindR (validate_account_key_string acct) (\<lambda>_.
         bindR (ok_or (ValidationError ''Invariant violation: account disappeared during verification'')
                  (hget (it_balances st) acct)) (\<lambda>bal.
         if bal > MAX_SUPPLY then Inl (ValidationError ''Invariant violation: account balance exceeds MAX_SUPPLY'')
         else Inr ()))) () (sort (map fst (it_balances st)))) (\<lambda>_.
     bindR (sum_balances_checked (it_balances st)) (\<lambda>total_supply.
     if total_supply > MAX_SUPPLY then Inl (ValidationError ''Invariant violation: total_supply exceeds MAX_SUPPLY'')
     else if it_rewards_issued_micro st > it_total_issued_micro st
       then Inl (ValidationError ''Invariant violation: rewards_issued_micro > total_issued_micro'')
     else if it_total_issued_micro st > MAX_SUPPLY
       then Inl (ValidationError ''Invariant violation: total_issued_micro > MAX_SUPPLY'')
     else if enforce_no_burn_supply_equality g \<and> total_supply \<noteq> it_total_issued_micro st
       then Inl (ValidationError ''Invariant violation: total_supply != total_issued_micro'')
     else
       bindR (verify_recent_block_cache st) (\<lambda>_.
       bindR (verify_recent_cache_not_full_history_regression st) (\<lambda>_.
       bindR (case expected_tip_height of None \<Rightarrow> Inr () | Some h \<Rightarrow>
           if \<not> it_has_tip st then Inl (ValidationError ''Invariant violation: expected tip height, but state has no tip'')
           else if it_tip_height st \<noteq> h then Inl (ValidationError ''Invariant violation: expected tip height'')
           else Inr ()) (\<lambda>_.
       bindR (case expected_tip_hash of None \<Rightarrow> Inr () | Some h \<Rightarrow>
           if \<not> it_has_tip st \<or> it_tip_hash st \<noteq> h
             then Inl (ValidationError ''Invariant violation: expected tip hash'') else Inr ()) (\<lambda>_.
       (case expected_prev_hash of None \<Rightarrow> Inr () | Some h \<Rightarrow>
           if \<not> it_has_tip st \<or> it_prev_tip_hash st \<noteq> h
             then Inl (ValidationError ''Invariant violation: expected previous tip hash'') else Inr ())))))))) "

section \<open>Applying transactions\<close>

text \<open>
  The state and the set of touched accounts. \<open>entry(k).or_insert(0)\<close> followed by an update reads
  the balance with 0 as default and writes it back.
\<close>

fun apply_txkind_to_state :: "InnerTree \<times> rstr list \<Rightarrow> TxKind \<Rightarrow> (InnerTree \<times> rstr list) result" where
  "apply_txkind_to_state (st, touched) (Transfer tx) =
     (let sender = normalize_wallet_bytes (tx_sender tx); receiver = normalize_wallet_bytes (tx_receiver tx) in
      bindR (validate_account_key_string sender) (\<lambda>_.
      bindR (validate_account_key_string receiver) (\<lambda>_.
      bindR (ok_or (ValidationError ''Transfer underflow on sender'')
               (checked_sub (hget0 (it_balances st) sender) (tx_amount tx))) (\<lambda>s_bal.
      let balances1 = hinsert sender s_bal (it_balances st) in
      bindR (ok_or (ValidationError ''Transfer overflow crediting receiver'')
               (checked_add 64 (hget0 balances1 receiver) (tx_amount tx))) (\<lambda>r_bal.
      if r_bal > MAX_SUPPLY then Inl (ValidationError ''Receiver balance exceeds MAX_SUPPLY after transfer'')
      else Inr (st\<lparr>it_balances := hinsert receiver r_bal balances1\<rparr>,
                insort_insert receiver (insort_insert sender touched)))))))"
| "apply_txkind_to_state (st, touched) (Reward rew) =
     (let receiver = normalize_wallet_bytes (rew_receiver rew) in
      bindR (validate_account_key_string receiver) (\<lambda>_.
      bindR (ok_or (ValidationError ''Overflow rewards_issued_micro'')
               (checked_add 64 (it_rewards_issued_micro st) (rew_amount rew))) (\<lambda>new_rewards_issued.
      bindR (ok_or (ValidationError ''Overflow total_issued_micro'')
               (checked_add 64 (it_total_issued_micro st) (rew_amount rew))) (\<lambda>new_total_issued.
      if new_total_issued > MAX_SUPPLY then Inl (ValidationError ''Mint cap exceeded'')
      else
        bindR (ok_or (ValidationError ''Reward overflow crediting receiver'')
                 (checked_add 64 (hget0 (it_balances st) receiver) (rew_amount rew))) (\<lambda>r_bal.
        if r_bal > MAX_SUPPLY then Inl (ValidationError ''Receiver balance exceeds MAX_SUPPLY after reward'')
        else Inr (st\<lparr>it_balances := hinsert receiver r_bal (it_balances st),
                     it_rewards_issued_micro := new_rewards_issued,
                     it_total_issued_micro := new_total_issued\<rparr>,
                  insort_insert receiver touched))))))"
| "apply_txkind_to_state (st, touched) (RegisterNode reg) =
     (let wallet = normalize_wallet_bytes (reg_wallet_address reg) in
      bindR (validate_account_key_string wallet) (\<lambda>_. Inr (st, insort_insert wallet touched)))"
| "apply_txkind_to_state (st, touched) (NftMint _) = Inr (st, touched)"
| "apply_txkind_to_state (st, touched) (NftTransfer _) = Inr (st, touched)"

fun add_spend :: "(rstr, nat) hmap \<Rightarrow> TxKind \<Rightarrow> (rstr, nat) hmap result" where
  "add_spend m (Transfer tx) =
     (let sender = normalize_wallet_bytes (tx_sender tx) in
      bindR (ok_or (ValidationError ''Overflow while aggregating per-sender batch spend'')
               (checked_add 64 (hget0 m sender) (tx_amount tx))) (\<lambda>v. Inr (hinsert sender v m)))"
| "add_spend m _ = Inr m"

definition check_spends :: "InnerTree \<Rightarrow> (rstr, nat) hmap \<Rightarrow> unit result" where
  "check_spends st spend_per_sender =
     foldR (\<lambda>_ (sender, total_spend).
       if hget0 (it_balances st) sender < total_spend then Inl (ValidationError ''Insufficient balance'')
       else Inr ()) () spend_per_sender"

definition apply_batch_to_state ::
    "GuardConfig \<Rightarrow> Ext \<Rightarrow> InnerTree \<Rightarrow> TransactionBatch \<Rightarrow> ApplyContext \<Rightarrow> (InnerTree \<times> BatchApplyOutcome) result"
  where
  "apply_batch_to_state g E st batch ctx =
     bindR (validate_apply_context ctx) (\<lambda>_.
     bindR (validate_batch_structure_with_reward_policy E batch (cx_allow_duplicate_reward_in_batch ctx)) (\<lambda>_.
     if b_index batch \<noteq> cx_block_height ctx
       then Inl (ValidationError ''Batch index does not match context block height'')
     else
       bindR (foldR add_spend [] (b_transactions batch)) (\<lambda>spend_per_sender.
       bindR (check_spends st spend_per_sender) (\<lambda>_.
       bindR (foldR apply_txkind_to_state (st, []) (b_transactions batch)) (\<lambda>(st', touched).
       bindR (verify_touched_account_bound batch touched) (\<lambda>_.
       bindR (verify_state_invariants g st' None None None) (\<lambda>_.
       bindR (compute_state_fingerprint_for_context st' ctx touched) (\<lambda>fp.
       Inr (st', \<lparr>oc_touched_accounts = touched, oc_total_supply_micro = fp_total_supply_micro fp,
                  oc_fingerprint_hex = fp_hex fp\<rparr>)))))))))"

section \<open>Blocks against the state\<close>

definition check_canonical_idempotency :: "InnerTree \<Rightarrow> Block \<Rightarrow> bool result" where
  "check_canonical_idempotency st block =
     (let idx = m_index (bl_metadata block) in
      if \<not> it_has_tip st then Inr False
      else if idx = it_tip_height st then
        (if bl_block_hash block = it_tip_hash st then Inr True
         else Inl (ValidationError ''Conflicting canonical tip''))
      else if idx > it_tip_height st then Inr False
      else (case find (\<lambda>e. m_index (bl_metadata e) = idx) (it_blocks st) of
          Some existing \<Rightarrow>
            if bl_block_hash existing = bl_block_hash block then Inr True
            else Inl (ValidationError ''Conflicting recent canonical block'')
        | None \<Rightarrow> Inr True))"

definition dry_run_block_and_batch ::
    "GuardConfig \<Rightarrow> Ext \<Rightarrow> InnerTree \<Rightarrow> Block \<Rightarrow> TransactionBatch \<Rightarrow> (InnerTree \<times> BatchApplyOutcome) result" where
  "dry_run_block_and_batch g E st block batch =
     (let md = bl_metadata block in
      if m_index md \<noteq> expected_next_height st then Inl (ValidationError ''Dry-run expected next height'')
      else
        bindR (if it_has_tip st then
                 (if m_previous_hash md \<noteq> it_tip_hash st
                    then Inl (ValidationError ''Dry-run previous_hash mismatch'') else Inr (it_tip_hash st))
               else Inr (m_previous_hash md)) (\<lambda>prev_hash.
        let st1 = remember_recent_block_for_guard st block;
            ctx = \<lparr>cx_mode = Live, cx_block_height = m_index md, cx_block_hash = bl_block_hash block,
                   cx_previous_hash = prev_hash, cx_allow_duplicate_reward_in_batch = False\<rparr> in
        bindR (apply_batch_to_state g E st1 batch ctx) (\<lambda>(st2, outcome).
        bindR (verify_state_invariants g st2 (Some (m_index md)) (Some (bl_block_hash block)) (Some prev_hash)) (\<lambda>_.
        Inr (st2, outcome)))))"

section \<open>Runs of balanced steps\<close>

text \<open>
  The contract between a loop over transactions and an accountant: every successful step keeps the
  state well-formed and moves a meter by what comes in and what goes out. A whole run then does the
  same with the sums.
\<close>

locale balanced_step =
  fixes step :: "'s \<Rightarrow> 'x \<Rightarrow> 'e + 's"
    and ok :: "'s \<Rightarrow> bool"
    and meter :: "'s \<Rightarrow> nat"
    and inflow :: "'x \<Rightarrow> nat"
    and outflow :: "'x \<Rightarrow> nat"
  assumes step_ok: "ok s \<Longrightarrow> step s x = Inr s' \<Longrightarrow> ok s'"
    and step_meter: "ok s \<Longrightarrow> step s x = Inr s' \<Longrightarrow> meter s' + outflow x = meter s + inflow x"
begin

lemma run_ok: "foldR step s xs = Inr s' \<Longrightarrow> ok s \<Longrightarrow> ok s'"
  by (erule foldR_invariant) (auto intro: step_ok)

lemma run_meter:
  "foldR step s xs = Inr s' \<Longrightarrow> ok s \<Longrightarrow>
   meter s' + sum_list (map outflow xs) = meter s + sum_list (map inflow xs)"
proof (induction xs arbitrary: s)
  case (Cons x xs)
  from Cons.prems(1) obtain s1 where s1: "step s x = Inr s1" and rest: "foldR step s1 xs = Inr s'"
    by (auto simp: res_simps)
  from Cons.IH [OF rest step_ok [OF Cons.prems(2) s1]] step_meter [OF Cons.prems(2) s1] show ?case by simp
qed simp

end

section \<open>What the transactions move\<close>

fun minted :: "TxKind \<Rightarrow> nat" where
  "minted (Reward rew) = rew_amount rew"
| "minted _ = 0"

fun credit :: "rstr \<Rightarrow> TxKind \<Rightarrow> nat" where
  "credit a (Transfer tx) = (if normalize_wallet_bytes (tx_receiver tx) = a then tx_amount tx else 0)"
| "credit a (Reward rew) = (if normalize_wallet_bytes (rew_receiver rew) = a then rew_amount rew else 0)"
| "credit a _ = 0"

fun debit :: "rstr \<Rightarrow> TxKind \<Rightarrow> nat" where
  "debit a (Transfer tx) = (if normalize_wallet_bytes (tx_sender tx) = a then tx_amount tx else 0)"
| "debit a _ = 0"

definition state_ok :: "InnerTree \<times> rstr list \<Rightarrow> bool" where
  "state_ok s \<longleftrightarrow> wf_map (it_balances (fst s))"

text \<open>A successful step, one kind of transaction at a time.\<close>

lemma apply_transfer_Inr:
  "apply_txkind_to_state (st, t) (Transfer tx) = Inr (st', t') \<longleftrightarrow>
     (let s = normalize_wallet_bytes (tx_sender tx); r = normalize_wallet_bytes (tx_receiver tx);
          m = hinsert s (hget0 (it_balances st) s - tx_amount tx) (it_balances st) in
      validate_account_key_string s = Inr () \<and> validate_account_key_string r = Inr () \<and>
      tx_amount tx \<le> hget0 (it_balances st) s \<and> hget0 m r + tx_amount tx < 2 ^ 64 \<and>
      hget0 m r + tx_amount tx \<le> MAX_SUPPLY \<and>
      st' = st\<lparr>it_balances := hinsert r (hget0 m r + tx_amount tx) m\<rparr> \<and> t' = insort_insert r (insort_insert s t))"
  by (auto simp: Let_def res_simps checked_sub_Some_iff checked_add_Some_iff split: if_splits)

lemma apply_reward_Inr:
  "apply_txkind_to_state (st, t) (Reward rew) = Inr (st', t') \<longleftrightarrow>
     (let r = normalize_wallet_bytes (rew_receiver rew) in
      validate_account_key_string r = Inr () \<and>
      it_rewards_issued_micro st + rew_amount rew < 2 ^ 64 \<and> it_total_issued_micro st + rew_amount rew < 2 ^ 64 \<and>
      it_total_issued_micro st + rew_amount rew \<le> MAX_SUPPLY \<and>
      hget0 (it_balances st) r + rew_amount rew < 2 ^ 64 \<and> hget0 (it_balances st) r + rew_amount rew \<le> MAX_SUPPLY \<and>
      st' = st\<lparr>it_balances := hinsert r (hget0 (it_balances st) r + rew_amount rew) (it_balances st),
               it_rewards_issued_micro := it_rewards_issued_micro st + rew_amount rew,
               it_total_issued_micro := it_total_issued_micro st + rew_amount rew\<rparr> \<and>
      t' = insort_insert r t)"
  by (auto simp: Let_def res_simps checked_add_Some_iff split: if_splits)

lemma apply_other_Inr:
  "apply_txkind_to_state (st, t) (RegisterNode reg) = Inr (st', t') \<longleftrightarrow>
     validate_account_key_string (normalize_wallet_bytes (reg_wallet_address reg)) = Inr () \<and> st' = st \<and>
     t' = insort_insert (normalize_wallet_bytes (reg_wallet_address reg)) t"
  "apply_txkind_to_state (st, t) (NftMint mint) = Inr (st', t') \<longleftrightarrow> st' = st \<and> t' = t"
  "apply_txkind_to_state (st, t) (NftTransfer ntr) = Inr (st', t') \<longleftrightarrow> st' = st \<and> t' = t"
  by (auto simp: res_simps Let_def)

lemmas apply_Inr = apply_transfer_Inr apply_reward_Inr apply_other_Inr

declare apply_txkind_to_state.simps [simp del]

lemma hinsert_sum:
  assumes "wf_map m" and "hget0 m k = v"
  shows "hvalues_sum (hinsert k (v + a) m) = hvalues_sum m + a"
  using hvalues_sum_hinsert [OF assms(1), of k "v + a"] assms(2) by simp

lemma hinsert_sum_sub:
  assumes "wf_map m" and "a \<le> hget0 m k"
  shows "hvalues_sum (hinsert k (hget0 m k - a) m) + a = hvalues_sum m"
  using hvalues_sum_hinsert [OF assms(1), of k "hget0 m k - a"] assms(2) by simp

lemma apply_keeps_ok:
  assumes "state_ok s" and "apply_txkind_to_state s k = Inr s'"
  shows "state_ok s'"
proof -
  obtain st t st' t' where s: "s = (st, t)" "s' = (st', t')" by (cases s, cases s')
  show ?thesis using assms unfolding s
    by (cases k) (auto simp: apply_Inr Let_def state_ok_def)
qed

lemma apply_supply:
  assumes "state_ok s" and "apply_txkind_to_state s k = Inr s'"
  shows "hvalues_sum (it_balances (fst s')) = hvalues_sum (it_balances (fst s)) + minted k"
proof -
  obtain st t st' t' where s: "s = (st, t)" "s' = (st', t')" by (cases s, cases s')
  have wf: "wf_map (it_balances st)" using assms(1) by (simp add: s state_ok_def)
  show ?thesis
  proof (cases k)
    case (Transfer tx)
    let ?s = "normalize_wallet_bytes (tx_sender tx)" and ?r = "normalize_wallet_bytes (tx_receiver tx)"
    let ?m = "hinsert ?s (hget0 (it_balances st) ?s - tx_amount tx) (it_balances st)"
    have le: "tx_amount tx \<le> hget0 (it_balances st) ?s"
      and st': "it_balances st' = hinsert ?r (hget0 ?m ?r + tx_amount tx) ?m"
      using assms(2) by (auto simp: s Transfer apply_Inr Let_def)
    have "hvalues_sum (it_balances st') = hvalues_sum ?m + tx_amount tx"
      unfolding st' by (rule hinsert_sum) (simp_all add: wf)
    also have "\<dots> = hvalues_sum (it_balances st)" by (rule hinsert_sum_sub [OF wf le])
    finally show ?thesis by (simp add: s Transfer)
  next
    case (Reward rew)
    then show ?thesis using assms(2) by (auto simp: s apply_Inr Let_def intro!: hinsert_sum wf)
  qed (use assms(2) in \<open>auto simp: s apply_Inr\<close>)
qed

lemma apply_account:
  assumes "apply_txkind_to_state s k = Inr s'"
  shows "hget0 (it_balances (fst s')) a + debit a k = hget0 (it_balances (fst s)) a + credit a k"
proof -
  obtain st t st' t' where s: "s = (st, t)" "s' = (st', t')" by (cases s, cases s')
  show ?thesis using assms unfolding s by (cases k) (auto simp: apply_Inr Let_def)
qed

lemma apply_issued:
  assumes "apply_txkind_to_state s k = Inr s'"
  shows "it_total_issued_micro (fst s') = it_total_issued_micro (fst s) + minted k"
    and "it_rewards_issued_micro (fst s') = it_rewards_issued_micro (fst s) + minted k"
proof -
  obtain st t st' t' where s: "s = (st, t)" "s' = (st', t')" by (cases s, cases s')
  show "it_total_issued_micro (fst s') = it_total_issued_micro (fst s) + minted k"
    and "it_rewards_issued_micro (fst s') = it_rewards_issued_micro (fst s) + minted k"
    using assms unfolding s by (cases k; auto simp: apply_Inr Let_def)+
qed

interpretation supply_meter: balanced_step apply_txkind_to_state state_ok
    "\<lambda>s. hvalues_sum (it_balances (fst s))" minted "\<lambda>_. 0"
  by unfold_locales (auto intro: apply_keeps_ok simp: apply_supply)

interpretation issued_meter: balanced_step apply_txkind_to_state state_ok
    "\<lambda>s. it_total_issued_micro (fst s)" minted "\<lambda>_. 0"
  by unfold_locales (auto intro: apply_keeps_ok simp: apply_issued)

interpretation rewards_meter: balanced_step apply_txkind_to_state state_ok
    "\<lambda>s. it_rewards_issued_micro (fst s)" minted "\<lambda>_. 0"
  by unfold_locales (auto intro: apply_keeps_ok simp: apply_issued)

interpretation account_meter: balanced_step apply_txkind_to_state state_ok
    "\<lambda>s. hget0 (it_balances (fst s)) a" "credit a" "debit a" for a
  by unfold_locales (auto intro: apply_keeps_ok simp: apply_account)

section \<open>The invariants as a specification\<close>

lemma foldR_unit_iff: "foldR (\<lambda>_ x. f x) () xs = Inr () \<longleftrightarrow> (\<forall>x\<in>set xs. f x = Inr ())"
  by (induction xs) (auto simp: res_simps)

lemma foldR_checked_sum:
  "a < 2 ^ w \<Longrightarrow> foldR (\<lambda>acc v. ok_or e (checked_add w acc v)) a xs = Inr s \<longleftrightarrow>
     s = a + sum_list xs \<and> s < 2 ^ w"
proof (induction xs arbitrary: a)
  case (Cons x xs)
  show ?case
  proof (cases "a + x < 2 ^ w")
    case True
    then have "checked_add w a x = Some (a + x)" by (simp add: checked_add_def)
    then show ?thesis by (simp add: Cons.IH [OF True] add.assoc)
  next
    case False
    then have "checked_add w a x = None" by (simp add: checked_add_def)
    with False show ?thesis by auto
  qed
qed auto

lemma sum_balances_Inr: "sum_balances_checked m = Inr s \<longleftrightarrow> s = hvalues_sum m \<and> s < 2 ^ 64"
  unfolding sum_balances_checked_def hvalues_sum_def by (subst foldR_checked_sum) simp_all

definition valid_key :: "rstr \<Rightarrow> bool" where
  "valid_key a \<longleftrightarrow> validate_account_key_string a = Inr ()"

definition keys_valid :: "InnerTree \<Rightarrow> bool" where
  "keys_valid st \<longleftrightarrow> (\<forall>a\<in>fst ` set (it_balances st). valid_key a)"

definition money_inv :: "GuardConfig \<Rightarrow> InnerTree \<Rightarrow> bool" where
  "money_inv g st \<longleftrightarrow>
     keys_valid st \<and>
     hvalues_sum (it_balances st) \<le> MAX_SUPPLY \<and>
     it_rewards_issued_micro st \<le> it_total_issued_micro st \<and> it_total_issued_micro st \<le> MAX_SUPPLY \<and>
     (enforce_no_burn_supply_equality g \<longrightarrow> hvalues_sum (it_balances st) = it_total_issued_micro st)"

definition follows :: "Block \<Rightarrow> Block \<Rightarrow> bool" where
  "follows p b \<longleftrightarrow> m_index (bl_metadata b) = saturating_add 64 (m_index (bl_metadata p)) 1 \<and>
     m_previous_hash (bl_metadata b) = bl_block_hash p"

definition chain_inv :: "InnerTree \<Rightarrow> bool" where
  "chain_inv st \<longleftrightarrow>
     length (it_blocks st) \<le> MAX_RECENT_BLOCKS_IN_RAM \<and>
     (if it_has_tip st then
        it_tip_hash st \<noteq> zero_hash \<and> (it_tip_height st > 0 \<longrightarrow> it_prev_tip_hash st \<noteq> zero_hash) \<and>
        successively follows (it_blocks st) \<and>
        (it_blocks st \<noteq> [] \<longrightarrow>
           m_index (bl_metadata (last (it_blocks st))) = it_tip_height st \<and>
           bl_block_hash (last (it_blocks st)) = it_tip_hash st \<and>
           m_previous_hash (bl_metadata (last (it_blocks st))) = it_prev_tip_hash st \<and>
           \<not> (length (it_blocks st) = MAX_RECENT_BLOCKS_IN_RAM \<and> it_tip_height st \<ge> MAX_RECENT_BLOCKS_IN_RAM \<and>
              m_index (bl_metadata (hd (it_blocks st))) = 0))
      else it_tip_height st = 0 \<and> it_tip_hash st = zero_hash \<and> it_prev_tip_hash st = zero_hash \<and> it_blocks st = [])"

lemma contiguous_iff: "verify_contiguous_recent_blocks bs = Inr () \<longleftrightarrow> successively follows bs"
  by (induction bs rule: verify_contiguous_recent_blocks.induct) (auto simp: follows_def)

lemma chain_checks_iff:
  "verify_compact_tip_shape st = Inr () \<and> verify_recent_block_cache st = Inr () \<and>
   verify_recent_cache_not_full_history_regression st = Inr () \<longleftrightarrow> chain_inv st"
  by (cases "it_blocks st")
     (auto simp: verify_compact_tip_shape_def verify_recent_block_cache_def contiguous_iff res_simps Let_def
       verify_recent_cache_not_full_history_regression_def chain_inv_def MAX_RECENT_BLOCKS_IN_RAM_def)

lemma MAX_SUPPLY_u64: "MAX_SUPPLY < 2 ^ 64"
  by (simp add: cfg_defs)

lemma account_loop_iff:
  assumes "hvalues_sum (it_balances st) \<le> MAX_SUPPLY"
  shows "foldR (\<lambda>_ acct.
         bindR (validate_account_key_string acct) (\<lambda>_.
         bindR (ok_or (ValidationError ''Invariant violation: account disappeared during verification'')
                  (hget (it_balances st) acct)) (\<lambda>bal.
         if bal > MAX_SUPPLY then Inl (ValidationError ''Invariant violation: account balance exceeds MAX_SUPPLY'')
         else Inr ()))) () (sort (map fst (it_balances st))) = Inr () \<longleftrightarrow> keys_valid st"
proof -
  have "\<exists>v. hget (it_balances st) a = Some v \<and> \<not> v > MAX_SUPPLY" if "a \<in> fst ` set (it_balances st)" for a
  proof -
    from that obtain v where v: "hget (it_balances st) a = Some v"
      by (metis domD dom_map_of_conv_image_fst)
    then show ?thesis
      using hget0_le_sum [of "it_balances st" a] assms by (simp add: hget_imp_hget0)
  qed
  then show ?thesis
    unfolding foldR_unit_iff keys_valid_def by (fastforce simp: res_simps valid_key_def)
qed

lemma verify_state_invariants_iff:
  "verify_state_invariants g st None None None = Inr () \<longleftrightarrow> money_inv g st \<and> chain_inv st"
proof (cases "hvalues_sum (it_balances st) \<le> MAX_SUPPLY")
  case True
  then have s: "sum_balances_checked (it_balances st) = Inr (hvalues_sum (it_balances st))"
    using MAX_SUPPLY_u64 by (auto simp: sum_balances_Inr)
  show ?thesis
    unfolding verify_state_invariants_def chain_checks_iff [symmetric] money_inv_def
    using True account_loop_iff [OF True] s by (auto simp: res_simps)
next
  case False
  then show ?thesis
    by (auto simp: verify_state_invariants_def money_inv_def res_simps sum_balances_Inr split: if_splits)
qed

lemma verify_state_invariants_tip:
  "verify_state_invariants g st (Some h) (Some x) (Some p) = Inr () \<longleftrightarrow>
     money_inv g st \<and> chain_inv st \<and> it_has_tip st \<and> it_tip_height st = h \<and> it_tip_hash st = x \<and>
     it_prev_tip_hash st = p"
  unfolding verify_state_invariants_iff [symmetric] conj_assoc [symmetric]
  by (auto simp: verify_state_invariants_def res_simps split: if_splits)

section \<open>Every step keeps the invariants\<close>

lemma keys_hinsert: "fst ` set (hinsert k v m) = insert k (fst ` set m)"
  by (induction m) auto

lemma keys_valid_hinsert: "it_balances st' = hinsert k v (it_balances st) \<Longrightarrow> keys_valid st \<Longrightarrow> valid_key k \<Longrightarrow> keys_valid st'"
  unfolding keys_valid_def by (simp only: keys_hinsert ball_simps)

lemma apply_keeps_chain:
  assumes "apply_txkind_to_state s k = Inr s'"
  shows "chain_inv (fst s') = chain_inv (fst s)" and "it_blocks (fst s') = it_blocks (fst s)"
    and "it_tip_height (fst s') = it_tip_height (fst s)" and "it_tip_hash (fst s') = it_tip_hash (fst s)"
    and "it_prev_tip_hash (fst s') = it_prev_tip_hash (fst s)" and "it_has_tip (fst s') = it_has_tip (fst s)"
proof -
  obtain st t st' t' where s: "s = (st, t)" "s' = (st', t')" by (cases s, cases s')
  have "it_blocks st' = it_blocks st \<and> it_tip_height st' = it_tip_height st \<and> it_tip_hash st' = it_tip_hash st \<and>
      it_prev_tip_hash st' = it_prev_tip_hash st \<and> it_has_tip st' = it_has_tip st"
    using assms unfolding s by (cases k) (auto simp: apply_Inr Let_def)
  then show "chain_inv (fst s') = chain_inv (fst s)" and "it_blocks (fst s') = it_blocks (fst s)"
    and "it_tip_height (fst s') = it_tip_height (fst s)" and "it_tip_hash (fst s') = it_tip_hash (fst s)"
    and "it_prev_tip_hash (fst s') = it_prev_tip_hash (fst s)" and "it_has_tip (fst s') = it_has_tip (fst s)"
    by (simp_all add: s chain_inv_def)
qed

lemma apply_keeps_keys:
  assumes "apply_txkind_to_state s k = Inr s'" and "keys_valid (fst s)"
  shows "keys_valid (fst s')"
proof -
  obtain st t st' t' where s: "s = (st, t)" "s' = (st', t')" by (cases s, cases s')
  note step = assms(1) [unfolded s] and kv = assms(2) [unfolded s fst_conv]
  have "keys_valid st'"
  proof (cases k)
    case (Transfer tx)
    let ?s = "normalize_wallet_bytes (tx_sender tx)" and ?r = "normalize_wallet_bytes (tx_receiver tx)"
    let ?m = "hinsert ?s (hget0 (it_balances st) ?s - tx_amount tx) (it_balances st)"
    have st': "it_balances st' = hinsert ?r (hget0 ?m ?r + tx_amount tx) ?m" and v: "valid_key ?s" "valid_key ?r"
      using step by (simp_all add: Transfer apply_transfer_Inr Let_def valid_key_def)
    have "keys_valid (st\<lparr>it_balances := ?m\<rparr>)" by (rule keys_valid_hinsert [OF _ kv v(1)]) simp
    then show ?thesis by (rule keys_valid_hinsert [rotated]) (simp_all add: st' v)
  next
    case (Reward rew)
    let ?r = "normalize_wallet_bytes (rew_receiver rew)"
    have "it_balances st' = hinsert ?r (hget0 (it_balances st) ?r + rew_amount rew) (it_balances st)" "valid_key ?r"
      using step by (simp_all add: Reward apply_reward_Inr Let_def valid_key_def)
    then show ?thesis using kv by (blast intro: keys_valid_hinsert)
  qed (use step kv in \<open>simp_all add: apply_other_Inr\<close>)
  then show ?thesis by (simp add: s)
qed

lemma apply_keeps_money:
  assumes "apply_txkind_to_state s k = Inr s'" and ok: "state_ok s" and inv: "money_inv g (fst s)"
    and eq: "enforce_no_burn_supply_equality g"
  shows "money_inv g (fst s')"
proof -
  have "it_total_issued_micro (fst s') \<le> MAX_SUPPLY"
  proof (cases k)
    case (Reward rew)
    obtain st t st' t' where s: "s = (st, t)" "s' = (st', t')" by (cases s, cases s')
    show ?thesis using assms(1) by (auto simp: s Reward apply_Inr Let_def)
  qed (use apply_issued(1) [OF assms(1)] inv in \<open>auto simp: money_inv_def\<close>)
  then show ?thesis
    using inv apply_keeps_keys [OF assms(1)] apply_supply [OF ok assms(1)] apply_issued [OF assms(1)] eq
    by (simp add: money_inv_def)
qed

section \<open>Batches that are accepted\<close>

text \<open>The accounts a transaction names are valid keys.\<close>

fun keys_ok :: "TxKind \<Rightarrow> bool" where
  "keys_ok (Transfer tx) \<longleftrightarrow>
     valid_key (normalize_wallet_bytes (tx_sender tx)) \<and> valid_key (normalize_wallet_bytes (tx_receiver tx))"
| "keys_ok (Reward rew) \<longleftrightarrow> valid_key (normalize_wallet_bytes (rew_receiver rew))"
| "keys_ok (RegisterNode reg) \<longleftrightarrow> valid_key (normalize_wallet_bytes (reg_wallet_address reg))"
| "keys_ok _ \<longleftrightarrow> True"

lemma validate_kind_keys: "validate_kind E s k = Inr s' \<Longrightarrow> keys_ok k"
  by (cases s; cases k) (auto simp: Let_def res_simps valid_key_def split: if_splits)

lemma structure_keys:
  assumes "validate_batch_structure_with_reward_policy E batch d = Inr ()"
  shows "\<forall>k\<in>set (b_transactions batch). keys_ok k" and "length (b_transactions batch) \<le> MAX_TXS_PER_BLOCK"
proof -
  obtain s where s: "foldR (validate_kind E) ([], 0) (b_transactions batch) = Inr s"
    and l: "length (b_transactions batch) \<le> MAX_TXS_PER_BLOCK"
    using assms
    by (auto simp: validate_batch_structure_with_reward_policy_def res_simps max_txs_per_block_usize_def
        try_from_def split: if_splits)
  then show "\<forall>k\<in>set (b_transactions batch). keys_ok k" by (blast dest: foldR_elem validate_kind_keys)
  show "length (b_transactions batch) \<le> MAX_TXS_PER_BLOCK" by (rule l)
qed

lemma apply_step_progress:
  assumes inv: "money_inv g st" and wf: "wf_map (it_balances st)" and eq: "enforce_no_burn_supply_equality g"
    and keys: "keys_ok k" and fund: "\<And>a. debit a k \<le> hget0 (it_balances st) a"
    and cap: "it_total_issued_micro st + minted k \<le> MAX_SUPPLY"
  shows "\<exists>s'. apply_txkind_to_state (st, t) k = Inr s'"
proof (cases k)
  case (Transfer tx)
  let ?s = "normalize_wallet_bytes (tx_sender tx)" and ?r = "normalize_wallet_bytes (tx_receiver tx)"
  let ?m = "hinsert ?s (hget0 (it_balances st) ?s - tx_amount tx) (it_balances st)"
  have le: "tx_amount tx \<le> hget0 (it_balances st) ?s" using fund [of ?s] by (simp add: Transfer)
  have "hget0 ?m ?r + tx_amount tx \<le> hvalues_sum ?m + tx_amount tx"
    using hget0_le_sum [of ?m ?r] by (simp only: add_le_cancel_right)
  also have "\<dots> = hvalues_sum (it_balances st)" by (rule hinsert_sum_sub [OF wf le])
  also have "\<dots> \<le> MAX_SUPPLY" using inv by (simp add: money_inv_def)
  finally have "hget0 ?m ?r + tx_amount tx \<le> MAX_SUPPLY" .
  moreover from this have "hget0 ?m ?r + tx_amount tx < 2 ^ 64" using MAX_SUPPLY_u64 by (rule le_less_trans)
  ultimately show ?thesis
    using keys le unfolding Transfer
    by (intro exI [of _ "(st\<lparr>it_balances := hinsert ?r (hget0 ?m ?r + tx_amount tx) ?m\<rparr>,
          insort_insert ?r (insort_insert ?s t))"]) (simp only: apply_Inr Let_def keys_ok.simps valid_key_def simp_thms)
next
  case (Reward rew)
  let ?r = "normalize_wallet_bytes (rew_receiver rew)"
  have "hget0 (it_balances st) ?r \<le> it_total_issued_micro st"
    using hget0_le_sum [of "it_balances st" ?r] inv eq by (simp add: money_inv_def)
  then have b: "hget0 (it_balances st) ?r + rew_amount rew \<le> MAX_SUPPLY" using cap by (simp add: Reward)
  have "it_rewards_issued_micro st + rew_amount rew \<le> MAX_SUPPLY"
    using inv cap by (simp add: money_inv_def Reward)
  with b cap show ?thesis
    using keys MAX_SUPPLY_u64 unfolding Reward
    by (intro exI [of _ "(st\<lparr>it_balances := hinsert ?r (hget0 (it_balances st) ?r + rew_amount rew) (it_balances st),
               it_rewards_issued_micro := it_rewards_issued_micro st + rew_amount rew,
               it_total_issued_micro := it_total_issued_micro st + rew_amount rew\<rparr>, insort_insert ?r t)"])
       (simp only: apply_Inr Let_def keys_ok.simps valid_key_def minted.simps simp_thms; linarith)
qed (use keys in \<open>auto simp: apply_txkind_to_state.simps valid_key_def\<close>)

lemma apply_run_progress:
  assumes "money_inv g st" and "wf_map (it_balances st)" and eq: "enforce_no_burn_supply_equality g"
    and "\<forall>k\<in>set ks. keys_ok k" and "\<And>a. sum_list (map (debit a) ks) \<le> hget0 (it_balances st) a"
    and "it_total_issued_micro st + sum_list (map minted ks) \<le> MAX_SUPPLY"
  shows "\<exists>s'. foldR apply_txkind_to_state (st, t) ks = Inr s'"
  using assms(1,2,4-)
proof (induction ks arbitrary: st t)
  case (Cons k ks)
  have fund: "debit a k \<le> hget0 (it_balances st) a" for a
    using Cons.prems(4) [of a] by simp
  obtain s' where s': "apply_txkind_to_state (st, t) k = Inr s'"
    using apply_step_progress [OF Cons.prems(1,2) eq _ fund, of t] Cons.prems(3,5) by auto
  obtain st' t' where st': "s' = (st', t')" by (cases s')
  note step = s' [unfolded st']
  have m: "money_inv g st'" using apply_keeps_money [OF step _ _ eq] Cons.prems(1,2) by (simp add: state_ok_def)
  have wf: "wf_map (it_balances st')" using apply_keeps_ok [OF _ step] Cons.prems(2) by (simp add: state_ok_def)
  have "sum_list (map (debit a) ks) \<le> hget0 (it_balances st') a" for a
    using Cons.prems(4) [of a] apply_account [OF step, of a] by simp
  moreover have "it_total_issued_micro st' + sum_list (map minted ks) \<le> MAX_SUPPLY"
    using Cons.prems(5) apply_issued(1) [OF step] by simp
  ultimately obtain s'' where "foldR apply_txkind_to_state (st', t') ks = Inr s''"
    using Cons.IH [OF m wf] Cons.prems(3) by (meson list.set_intros(2))
  then show ?case by (simp add: step)
qed simp

section \<open>The spend check\<close>

lemma add_spend_step:
  "add_spend m k = Inr m' \<Longrightarrow> wf_map m \<Longrightarrow> wf_map m'"
  "add_spend m k = Inr m' \<Longrightarrow> hget0 m' a = hget0 m a + debit a k"
  by (cases k; auto simp: Let_def res_simps checked_add_Some_iff)+

interpretation spend_meter: balanced_step add_spend wf_map "\<lambda>m. hget0 m a" "debit a" "\<lambda>_. 0" for a
  by unfold_locales (auto dest: add_spend_step)

lemma spends_total:
  "foldR add_spend [] ks = Inr m \<Longrightarrow> wf_map m \<and> hget0 m a = sum_list (map (debit a) ks)"
  using spend_meter.run_meter [of "[]" ks m a] spend_meter.run_ok [of "[]" ks m] by simp

lemma spends_exist:
  assumes "\<And>a. hget0 m a + sum_list (map (debit a) ks) < 2 ^ 64"
  shows "\<exists>m'. foldR add_spend m ks = Inr m'"
  using assms
proof (induction ks arbitrary: m)
  case (Cons k ks)
  have "\<exists>m1. add_spend m k = Inr m1"
  proof (cases k)
    case (Transfer tx)
    have "hget0 m (normalize_wallet_bytes (tx_sender tx)) + tx_amount tx < 2 ^ 64"
      using Cons.prems [of "normalize_wallet_bytes (tx_sender tx)"] by (simp add: Transfer)
    then show ?thesis by (simp add: Transfer Let_def checked_add_def)
  qed auto
  then obtain m1 where m1: "add_spend m k = Inr m1" ..
  have "hget0 m1 a + sum_list (map (debit a) ks) < 2 ^ 64" for a
    using Cons.prems [of a] add_spend_step(2) [OF m1, of a] by simp
  from Cons.IH [OF this] show ?case by (simp add: m1)
qed simp

lemma check_spends_iff:
  assumes "foldR add_spend [] ks = Inr m"
  shows "check_spends st m = Inr () \<longleftrightarrow> (\<forall>a. sum_list (map (debit a) ks) \<le> hget0 (it_balances st) a)"
proof -
  have t: "hget0 m a = sum_list (map (debit a) ks)" for a using spends_total [OF assms] by blast
  have wf: "distinct (map fst m)" using spends_total [OF assms] by (simp add: wf_map_def)
  have "check_spends st m = Inr () \<longleftrightarrow> (\<forall>(a, v)\<in>set m. v \<le> hget0 (it_balances st) a)"
    unfolding check_spends_def foldR_unit_iff by (auto split: if_splits)
  also have "\<dots> \<longleftrightarrow> (\<forall>a. hget0 m a \<le> hget0 (it_balances st) a)"
  proof safe
    fix a assume *: "\<forall>(a, v)\<in>set m. v \<le> hget0 (it_balances st) a"
    show "hget0 m a \<le> hget0 (it_balances st) a"
    proof (cases "hget m a")
      case (Some v)
      with * show ?thesis using map_of_SomeD [OF Some] by (auto simp: hget0_def)
    qed (simp add: hget0_def)
  next
    fix a v assume "\<forall>a. hget0 m a \<le> hget0 (it_balances st) a" and "(a, v) \<in> set m"
    then show "v \<le> hget0 (it_balances st) a"
      using wf by (metis hget_imp_hget0 map_of_eq_Some_iff)
  qed
  finally show ?thesis by (simp add: t)
qed

section \<open>The touched accounts\<close>

lemma length_insort_insert: "length (insort_insert x xs) \<le> Suc (length xs)"
  by (simp add: insort_insert_key_def)

lemma apply_touched:
  assumes "apply_txkind_to_state s k = Inr s'"
  shows "length (snd s') \<le> length (snd s) + 2"
proof -
  obtain st t st' t' where s: "s = (st, t)" "s' = (st', t')" by (cases s, cases s')
  have two: "length (insort_insert x (insort_insert y t)) \<le> Suc (Suc (length t))" for x y :: rstr
    using length_insort_insert [of x "insort_insert y t"] length_insort_insert [of y t] by linarith
  have one: "length (insort_insert x t) \<le> Suc (Suc (length t))" for x :: rstr
    using length_insort_insert [of x t] by linarith
  have "length t' \<le> length t + 2"
    using assms unfolding s by (cases k) (auto simp: apply_Inr Let_def one two)
  then show ?thesis by (simp add: s)
qed

lemma run_touched:
  "foldR apply_txkind_to_state s ks = Inr s' \<Longrightarrow> length (snd s') \<le> length (snd s) + 2 * length ks"
proof (induction ks arbitrary: s)
  case (Cons k ks)
  then obtain s1 where s1: "apply_txkind_to_state s k = Inr s1" and r: "foldR apply_txkind_to_state s1 ks = Inr s'"
    by (auto simp: res_simps)
  show ?case using Cons.IH [OF r] apply_touched [OF s1] by simp
qed simp

lemma touched_bound_holds:
  assumes "length t \<le> 2 * length (b_transactions batch)" and "length (b_transactions batch) \<le> MAX_TXS_PER_BLOCK"
  shows "verify_touched_account_bound batch t = Inr ()"
proof -
  have "length (b_transactions batch) * 4 < 2 ^ 64" using assms(2) by (simp add: cfg_defs)
  then show ?thesis
    using assms
    by (simp add: verify_touched_account_bound_def checked_mul_def max_txs_per_block_usize_def try_from_def
        MAX_TOUCHED_ACCOUNTS_PER_TX_def cfg_defs)
qed

lemma run_keeps_chain:
  "foldR apply_txkind_to_state s ks = Inr s' \<Longrightarrow>
   chain_inv (fst s') = chain_inv (fst s) \<and> it_blocks (fst s') = it_blocks (fst s) \<and>
   it_tip_height (fst s') = it_tip_height (fst s) \<and> it_tip_hash (fst s') = it_tip_hash (fst s) \<and>
   it_prev_tip_hash (fst s') = it_prev_tip_hash (fst s) \<and> it_has_tip (fst s') = it_has_tip (fst s)"
proof (induction ks arbitrary: s)
  case (Cons k ks)
  then obtain s1 where s1: "apply_txkind_to_state s k = Inr s1" and r: "foldR apply_txkind_to_state s1 ks = Inr s'"
    by (auto simp: res_simps)
  show ?case using Cons.IH [OF r] apply_keeps_chain [OF s1] by simp
qed simp

lemma run_keeps_money:
  assumes "foldR apply_txkind_to_state s ks = Inr s'" and "state_ok s" and "money_inv g (fst s)"
    and "enforce_no_burn_supply_equality g"
  shows "money_inv g (fst s')"
proof -
  have "state_ok s' \<and> money_inv g (fst s')"
    using assms(1) by (rule foldR_invariant) (use assms in \<open>auto intro: apply_keeps_ok apply_keeps_money\<close>)
  then show ?thesis ..
qed

lemma apply_batch_Inr:
  "apply_batch_to_state g E st batch ctx = Inr (st', oc) \<Longrightarrow>
     validate_apply_context ctx = Inr () \<and>
     validate_batch_structure_with_reward_policy E batch (cx_allow_duplicate_reward_in_batch ctx) = Inr () \<and>
     b_index batch = cx_block_height ctx \<and>
     (\<exists>m. foldR add_spend [] (b_transactions batch) = Inr m \<and> check_spends st m = Inr ()) \<and>
     (\<exists>t. foldR apply_txkind_to_state (st, []) (b_transactions batch) = Inr (st', t) \<and> oc_touched_accounts oc = t) \<and>
     verify_state_invariants g st' None None None = Inr ()"
  by (auto simp: apply_batch_to_state_def res_simps split: if_splits)

end
