(* ===== verification/LedgerProps.thy ===== *)
theory LedgerProps
  imports Ledger
begin

text \<open>
  What the account guards guarantee: which batches are accepted, what an accepted batch does to
  every balance and to the supply, the state after the dry run of a block, and the idempotency
  check.
\<close>

section \<open>Addresses\<close>

lemma normalize_wallet_parsed:
  assumes "parse_wallet_address_bytes b = Inr w"
  shows "normalize_wallet_bytes b = w" and "valid_key w"
proof -
  note r = parse_wallet_bytes_result [OF assms]
  note f = canonical_wallet_facts [OF r(1)]
  have "trim_end_by (\<lambda>c. c = 0) w = w"
    using f(6) canonical_not_Nil [OF r(1)] by (intro trim_end_by_id) (metis last_in_set)
  then show "normalize_wallet_bytes b = w"
    by (simp add: normalize_wallet_bytes_def r(2) from_utf8_lossy_ascii [OF f(1)] f(2))
  show "valid_key w"
    using f(3,4,7) canonical_not_Nil [OF r(1)]
    by (auto simp: valid_key_def validate_account_key_string_def MAX_ACCOUNT_KEY_BYTES_def list_ex_iff list_all_iff)
qed

text \<open>On a structurally valid transfer the three readings of its addresses agree: the guards debit
  and credit exactly the accounts whose balances are flushed afterwards, and both are canonical
  wallets and valid keys.\<close>

theorem addresses_agree:
  assumes "tx_validate_structural tx = Inr ()"
  shows "normalize_wallet_bytes (tx_sender tx) = normalize_address_bytes (tx_sender tx) \<and>
    normalize_wallet_bytes (tx_receiver tx) = normalize_address_bytes (tx_receiver tx) \<and>
    touched_addresses (Transfer tx) = [normalize_wallet_bytes (tx_sender tx), normalize_wallet_bytes (tx_receiver tx)] \<and>
    (\<forall>a\<in>set (touched_addresses (Transfer tx)). canonical_wallet a \<and> valid_key a)"
proof -
  obtain s r where s: "parse_wallet_address_bytes (tx_sender tx) = Inr s"
    and r: "parse_wallet_address_bytes (tx_receiver tx) = Inr r" and ne: "s \<noteq> r"
    using assms by (auto simp: tx_validate_structural_iff)
  note w = parse_wallet_bytes_result(1) [OF s] parse_wallet_bytes_result(1) [OF r]
  show ?thesis
    using ne w normalize_wallet_parsed [OF s] normalize_wallet_parsed [OF r]
    by (simp add: normalize_address_parsed [OF s] normalize_address_parsed [OF r] canonical_not_Nil)
qed

theorem addresses_agree_witness:
  "touched_addresses (Transfer sample_tx) =
     [normalize_wallet_bytes (tx_sender sample_tx), normalize_wallet_bytes (tx_receiver sample_tx)]"
  using addresses_agree [OF sample_tx_valid] by blast

section \<open>Batches\<close>

lemma accepted_iff:
  assumes inv: "verify_state_invariants default_guard st None None None = Inr ()" and wf: "wf_map (it_balances st)"
  shows "(\<exists>r. apply_batch_to_state default_guard E st batch ctx = Inr r) \<longleftrightarrow>
    validate_apply_context ctx = Inr () \<and>
    validate_batch_structure_with_reward_policy E batch (cx_allow_duplicate_reward_in_batch ctx) = Inr () \<and>
    b_index batch = cx_block_height ctx \<and>
    (\<forall>a. sum_list (map (debit a) (b_transactions batch)) \<le> hget0 (it_balances st) a) \<and>
    it_total_issued_micro st + sum_list (map minted (b_transactions batch)) \<le> MAX_SUPPLY" (is "?L \<longleftrightarrow> ?R")
proof
  assume ?L
  then obtain st' oc where a: "apply_batch_to_state default_guard E st batch ctx = Inr (st', oc)" by auto
  note f = apply_batch_Inr [OF a]
  from f obtain t where t: "foldR apply_txkind_to_state (st, []) (b_transactions batch) = Inr (st', t)" by blast
  have "it_total_issued_micro st' = it_total_issued_micro st + sum_list (map minted (b_transactions batch))"
    using issued_meter.run_meter [OF t] wf by (simp add: state_ok_def)
  moreover have "it_total_issued_micro st' \<le> MAX_SUPPLY"
    using f by (auto simp: verify_state_invariants_iff money_inv_def)
  ultimately show ?R using f check_spends_iff by auto
next
  assume R: ?R
  let ?ks = "b_transactions batch"
  have m: "money_inv default_guard st" and c: "chain_inv st" using inv by (auto simp: verify_state_invariants_iff)
  have eq: "enforce_no_burn_supply_equality default_guard" by (simp add: default_guard_def)
  note keys = structure_keys [of E batch "cx_allow_duplicate_reward_in_batch ctx"]
  have "sum_list (map (debit a) ?ks) < 2 ^ 64" for a
  proof -
    have "sum_list (map (debit a) ?ks) \<le> MAX_SUPPLY"
      using R hget0_le_sum [of "it_balances st" a] m by (meson money_inv_def order_trans)
    then show ?thesis using MAX_SUPPLY_u64 by (rule le_less_trans)
  qed
  then obtain sp where sp: "foldR add_spend [] ?ks = Inr sp" using spends_exist [of "[]" ?ks] by auto
  have ck: "check_spends st sp = Inr ()" using check_spends_iff [OF sp] R by blast
  have "\<exists>s'. foldR apply_txkind_to_state (st, []) ?ks = Inr s'"
    by (rule apply_run_progress [OF m wf eq]) (use R keys in auto)
  then obtain st' t where run: "foldR apply_txkind_to_state (st, []) ?ks = Inr (st', t)" by auto
  have "money_inv default_guard st'"
    using run_keeps_money [OF run _ _ eq] wf m by (simp add: state_ok_def)
  then have v: "verify_state_invariants default_guard st' None None None = Inr ()"
    using run_keeps_chain [OF run] c by (simp add: verify_state_invariants_iff)
  have tb: "verify_touched_account_bound batch t = Inr ()"
    using run_touched [OF run] keys(2) R by (intro touched_bound_holds) simp_all
  have "sum_balances_checked (it_balances st') = Inr (hvalues_sum (it_balances st'))"
    using v MAX_SUPPLY_u64 by (auto simp: verify_state_invariants_iff money_inv_def sum_balances_Inr)
  then show ?L
    using R by (simp add: apply_batch_to_state_def sp ck run tb v compute_state_fingerprint_for_context_def
        compute_state_fingerprint_with_values_def Let_def)
qed

text \<open>C11. The guards reject a batch only for what they say: from a state that satisfies the invariants,
  a batch is applied if and only if the context and the structure are valid, the index is the
  height, no account spends more than it held before the batch, and the rewards fit under the
  supply cap. No overflow, no underflow and none of the checks after the application can fail.\<close>

theorem batch_accepted_iff:
  assumes inv: "verify_state_invariants default_guard st None None None = Inr ()" and wf: "wf_map (it_balances st)"
  shows "(\<exists>r. apply_batch_to_state default_guard E st batch ctx = Inr r) \<longleftrightarrow>
    validate_apply_context ctx = Inr () \<and>
    validate_batch_structure_with_reward_policy E batch (cx_allow_duplicate_reward_in_batch ctx) = Inr () \<and>
    b_index batch = cx_block_height ctx \<and>
    (\<forall>a. sum_list (map (debit a) (b_transactions batch)) \<le> hget0 (it_balances st) a) \<and>
    it_total_issued_micro st + sum_list (map minted (b_transactions batch)) \<le> MAX_SUPPLY"
  by (rule accepted_iff [OF assms])

text \<open>C2. Conservation: an accepted batch moves every account by exactly what the batch credits and
  debits it, the sum of the balances, the issued total and the issued rewards grow by exactly the
  rewards of the batch, and the tip is untouched.\<close>

theorem batch_conserves:
  assumes "apply_batch_to_state g E st batch ctx = Inr (st', oc)" and "wf_map (it_balances st)"
  shows "(\<forall>a. hget0 (it_balances st') a + sum_list (map (debit a) (b_transactions batch)) =
        hget0 (it_balances st) a + sum_list (map (credit a) (b_transactions batch))) \<and>
    hvalues_sum (it_balances st') = hvalues_sum (it_balances st) + sum_list (map minted (b_transactions batch)) \<and>
    it_total_issued_micro st' = it_total_issued_micro st + sum_list (map minted (b_transactions batch)) \<and>
    it_rewards_issued_micro st' = it_rewards_issued_micro st + sum_list (map minted (b_transactions batch)) \<and>
    it_tip_height st' = it_tip_height st \<and> it_tip_hash st' = it_tip_hash st \<and> it_blocks st' = it_blocks st \<and>
    wf_map (it_balances st')"
proof -
  obtain t where run: "foldR apply_txkind_to_state (st, []) (b_transactions batch) = Inr (st', t)"
    using apply_batch_Inr [OF assms(1)] by blast
  have ok: "state_ok (st, [])" using assms(2) by (simp add: state_ok_def)
  show ?thesis
    using account_meter.run_meter [OF run ok] supply_meter.run_meter [OF run ok] issued_meter.run_meter [OF run ok]
      rewards_meter.run_meter [OF run ok] run_keeps_chain [OF run] supply_meter.run_ok [OF run ok]
    by (simp add: state_ok_def)
qed

section \<open>A concrete batch\<close>

definition ledger_ext :: Ext where
  "ledger_ext = fixed_ext\<lparr>pc_batch := \<lambda>b. Inr (to_be_bytes 8 (b_index b))\<rparr>"

definition sample_state :: InnerTree where
  "sample_state = inner_empty\<lparr>it_balances := [(sample_wallet 97, 10)], it_total_issued_micro := 10,
     it_rewards_issued_micro := 10\<rparr>"

definition sample_transfer_batch :: TransactionBatch where
  "sample_transfer_batch = \<lparr>b_index = 0, b_timestamp = 1700000000, b_transactions = [Transfer sample_tx],
     b_guardian_signature = None\<rparr>"

definition sample_ctx :: ApplyContext where
  "sample_ctx = \<lparr>cx_mode = Live, cx_block_height = 0, cx_block_hash = replicate 64 1, cx_previous_hash = zero_hash,
     cx_allow_duplicate_reward_in_batch = False\<rparr>"

lemma sample_addresses:
  "normalize_wallet_bytes (tx_sender sample_tx) = sample_wallet 97" "valid_key (sample_wallet 97)"
  "normalize_wallet_bytes (tx_receiver sample_tx) = sample_wallet 98" "valid_key (sample_wallet 98)"
proof -
  have "canonical_wallet (sample_wallet 97)" "canonical_wallet (sample_wallet 98)"
    by (simp_all add: sample_wallet_canonical is_lower_hex_def)
  from this [THEN parse_wallet_bytes_canonical]
  show "normalize_wallet_bytes (tx_sender sample_tx) = sample_wallet 97" "valid_key (sample_wallet 97)"
    "normalize_wallet_bytes (tx_receiver sample_tx) = sample_wallet 98" "valid_key (sample_wallet 98)"
    by (simp_all add: sample_tx_def normalize_wallet_parsed)
qed

lemma sample_wallets_differ [simp]: "sample_wallet 97 \<noteq> sample_wallet 98" "sample_wallet 98 \<noteq> sample_wallet 97"
  by (simp_all add: sample_wallet_def)

lemma sample_tx_ledger_id: "\<exists>tid. tx_id ledger_ext sample_tx = Inr tid"
  using sample_tx_valid by (simp add: tx_id_def tx_serialize_def ledger_ext_def fixed_ext_def)

lemma sample_structure: "validate_batch_structure_with_reward_policy ledger_ext sample_transfer_batch False = Inr ()"
proof -
  obtain tid where tid: "tx_id ledger_ext sample_tx = Inr tid" using sample_tx_ledger_id ..
  have a: "tx_amount sample_tx = 5" by (simp add: sample_tx_def)
  show ?thesis
    using sample_addresses tid a
    by (simp add: validate_batch_structure_with_reward_policy_def validate_batch_payload_size_def serialized_len_def
        max_batch_serialized_bytes_def max_txs_per_block_usize_def try_from_def checked_add_def ledger_ext_def
        sample_transfer_batch_def valid_key_def cfg_defs Let_def)
qed

lemma sample_state_inv: "verify_state_invariants default_guard sample_state None None None = Inr ()"
  using sample_addresses(2)
  by (simp add: verify_state_invariants_iff money_inv_def keys_valid_def chain_inv_def sample_state_def inner_empty_def
      hvalues_sum_def cfg_defs)

lemma sample_ctx_ok: "validate_apply_context sample_ctx = Inr ()"
  by (simp add: validate_apply_context_def sample_ctx_def zero_hash_def)

lemma sample_debits: "debit a (Transfer sample_tx) \<le> hget0 (it_balances sample_state) a"
  using sample_addresses(1) by (simp add: sample_state_def hget0_def) (simp add: sample_tx_def)

lemma sample_wf: "wf_map (it_balances sample_state)"
  by (simp add: sample_state_def wf_map_def)

lemma sample_conditions:
  "validate_apply_context sample_ctx = Inr () \<and>
   validate_batch_structure_with_reward_policy ledger_ext sample_transfer_batch
     (cx_allow_duplicate_reward_in_batch sample_ctx) = Inr () \<and>
   b_index sample_transfer_batch = cx_block_height sample_ctx \<and>
   (\<forall>a. sum_list (map (debit a) (b_transactions sample_transfer_batch)) \<le> hget0 (it_balances sample_state) a) \<and>
   it_total_issued_micro sample_state + sum_list (map minted (b_transactions sample_transfer_batch)) \<le> MAX_SUPPLY"
  using sample_ctx_ok sample_structure sample_debits
  by (simp add: sample_transfer_batch_def sample_ctx_def sample_state_def inner_empty_def cfg_defs)

theorem batch_accepted_iff_witness:
  "\<exists>r. apply_batch_to_state default_guard ledger_ext sample_state sample_transfer_batch sample_ctx = Inr r"
  unfolding batch_accepted_iff [OF sample_state_inv sample_wf] by (rule sample_conditions)

theorem batch_conserves_witness:
  "\<exists>st' oc. apply_batch_to_state default_guard ledger_ext sample_state sample_transfer_batch sample_ctx = Inr (st', oc) \<and>
     hget0 (it_balances st') (sample_wallet 98) = 5 \<and> hvalues_sum (it_balances st') = 10"
proof -
  obtain st' oc where r: "apply_batch_to_state default_guard ledger_ext sample_state sample_transfer_batch sample_ctx = Inr (st', oc)"
    using accepted_iff [OF sample_state_inv sample_wf] sample_conditions by (metis surj_pair)
  have a: "tx_amount sample_tx = 5" by (simp add: sample_tx_def)
  have "hget0 (it_balances st') (sample_wallet 98) + sum_list (map (debit (sample_wallet 98)) (b_transactions sample_transfer_batch)) =
        hget0 (it_balances sample_state) (sample_wallet 98) +
        sum_list (map (credit (sample_wallet 98)) (b_transactions sample_transfer_batch))"
    using batch_conserves [OF r sample_wf] by blast
  then have "hget0 (it_balances st') (sample_wallet 98) = 5"
    using sample_addresses a by (simp add: sample_transfer_batch_def sample_state_def hget0_def)
  moreover have "hvalues_sum (it_balances st') = 10"
    using batch_conserves [OF r sample_wf] by (simp add: sample_transfer_batch_def sample_state_def hvalues_sum_def)
  ultimately show ?thesis using r by blast
qed

section \<open>Blocks\<close>

lemma validate_kind_rewards:
  "validate_kind E (seen, n) k = Inr (seen', n') \<Longrightarrow> n < 2 ^ 64 - 1 \<Longrightarrow>
   n \<le> n' \<and> n' \<le> n + 1 \<and> minted k \<le> (n' - n) * MAX_BLOCK_REWARD"
  by (cases k) (auto simp: Let_def res_simps saturating_add_def split: if_splits)

lemma validate_kinds_rewards:
  assumes "foldR (validate_kind E) (seen, n) ks = Inr (seen', n')" and "n + length ks < 2 ^ 64 - 1"
  shows "n \<le> n' \<and> sum_list (map minted ks) \<le> (n' - n) * MAX_BLOCK_REWARD"
  using assms
proof (induction ks arbitrary: seen n)
  case (Cons k ks)
  then obtain s1 n1 where k: "validate_kind E (seen, n) k = Inr (s1, n1)"
    and r: "foldR (validate_kind E) (s1, n1) ks = Inr (seen', n')" by (auto simp: res_simps)
  have f: "n \<le> n1" "n1 \<le> n + 1" "minted k \<le> (n1 - n) * MAX_BLOCK_REWARD"
    using validate_kind_rewards [OF k] Cons.prems(2) by simp_all
  have g: "n1 \<le> n'" "sum_list (map minted ks) \<le> (n' - n1) * MAX_BLOCK_REWARD"
    using Cons.IH [OF r] f(2) Cons.prems(2) by simp_all
  have "n' - n = (n1 - n) + (n' - n1)" using f(1) g(1) by simp
  then have "(n' - n) * MAX_BLOCK_REWARD = (n1 - n) * MAX_BLOCK_REWARD + (n' - n1) * MAX_BLOCK_REWARD"
    by (simp only: add_mult_distrib)
  then show ?case using f g by simp
qed simp

lemma structure_rewards:
  assumes "validate_batch_structure_with_reward_policy E batch False = Inr ()"
  shows "sum_list (map minted (b_transactions batch)) \<le> MAX_BLOCK_REWARD"
proof -
  obtain seen n where f: "foldR (validate_kind E) ([], 0) (b_transactions batch) = Inr (seen, n)" and n: "n \<le> 1"
    using assms
    by (auto simp: validate_batch_structure_with_reward_policy_def res_simps split: if_splits)
  have "length (b_transactions batch) < 2 ^ 64 - 1"
    using structure_keys(2) [OF assms] by (simp add: cfg_defs)
  then have "sum_list (map minted (b_transactions batch)) \<le> n * MAX_BLOCK_REWARD"
    using validate_kinds_rewards [OF f] by simp
  also have "\<dots> \<le> MAX_BLOCK_REWARD" using n by (cases n) auto
  finally show ?thesis .
qed

lemma dry_run_Inr:
  assumes "dry_run_block_and_batch g E st block batch = Inr (st', oc)"
  shows "m_index (bl_metadata block) = expected_next_height st"
    and "it_has_tip st \<longrightarrow> m_previous_hash (bl_metadata block) = it_tip_hash st"
    and "apply_batch_to_state g E (remember_recent_block_for_guard st block) batch
      \<lparr>cx_mode = Live, cx_block_height = m_index (bl_metadata block), cx_block_hash = bl_block_hash block,
       cx_previous_hash = m_previous_hash (bl_metadata block), cx_allow_duplicate_reward_in_batch = False\<rparr> = Inr (st', oc)"
    and "verify_state_invariants g st' (Some (m_index (bl_metadata block))) (Some (bl_block_hash block))
      (Some (m_previous_hash (bl_metadata block))) = Inr ()"
  using assms
  by (auto simp: dry_run_block_and_batch_def Let_def res_simps split: if_splits)

text \<open>C15. The dry run of a block extends the chain by exactly this block: its height is the next one, it
  names the old tip as its predecessor, the resulting state satisfies all invariants with this block
  as the tip, every account moves by the transactions of the batch, and the supply grows by at most
  one block reward.\<close>

theorem dry_run_extends_chain:
  assumes "dry_run_block_and_batch g E st block batch = Inr (st', oc)" and "wf_map (it_balances st)"
  shows "m_index (bl_metadata block) = expected_next_height st \<and>
    (it_has_tip st \<longrightarrow> m_previous_hash (bl_metadata block) = it_tip_hash st) \<and>
    money_inv g st' \<and> chain_inv st' \<and> current_tip_hash st' = Some (bl_block_hash block) \<and>
    it_tip_height st' = m_index (bl_metadata block) \<and> b_index batch = m_index (bl_metadata block) \<and>
    (\<forall>a. hget0 (it_balances st') a + sum_list (map (debit a) (b_transactions batch)) =
        hget0 (it_balances st) a + sum_list (map (credit a) (b_transactions batch))) \<and>
    it_total_issued_micro st' = it_total_issued_micro st + sum_list (map minted (b_transactions batch)) \<and>
    it_total_issued_micro st' \<le> it_total_issued_micro st + MAX_BLOCK_REWARD"
proof -
  note idx = dry_run_Inr(1) [OF assms(1)] and link = dry_run_Inr(2) [OF assms(1)]
    and ap = dry_run_Inr(3) [OF assms(1)] and v = dry_run_Inr(4) [OF assms(1)]
  have keep: "it_balances (remember_recent_block_for_guard st block) = it_balances st"
    "it_total_issued_micro (remember_recent_block_for_guard st block) = it_total_issued_micro st"
    by (simp_all add: remember_recent_block_for_guard_def Let_def)
  note c = apply_batch_Inr [OF ap]
  obtain t where run: "foldR apply_txkind_to_state (remember_recent_block_for_guard st block, []) (b_transactions batch) = Inr (st', t)"
    using c by blast
  have ok: "state_ok (remember_recent_block_for_guard st block, [])" using assms(2) by (simp add: state_ok_def keep)
  have "sum_list (map minted (b_transactions batch)) \<le> MAX_BLOCK_REWARD"
    using c by (intro structure_rewards [of E]) simp
  then show ?thesis
    using idx link v c account_meter.run_meter [OF run ok] issued_meter.run_meter [OF run ok]
    by (auto simp: verify_state_invariants_tip current_tip_hash_def keep)
qed

text \<open>Heights in the recent cache are consecutive.\<close>

lemma follows_heights:
  assumes "successively follows bs" and "bs \<noteq> []" and "m_index (bl_metadata (last bs)) < 2 ^ 64 - 1"
  shows "map (\<lambda>b. m_index (bl_metadata b)) bs = [m_index (bl_metadata (hd bs))..<m_index (bl_metadata (last bs)) + 1]"
  using assms
proof (induction bs)
  case (Cons b bs)
  show ?case
  proof (cases bs)
    case Nil
    then show ?thesis by simp
  next
    case (Cons c cs)
    have ih: "map (\<lambda>b. m_index (bl_metadata b)) bs = [m_index (bl_metadata c)..<m_index (bl_metadata (last bs)) + 1]"
      using Cons.IH Cons.prems by (simp add: Cons)
    have c: "m_index (bl_metadata c) = saturating_add 64 (m_index (bl_metadata b)) 1"
      using Cons.prems(1) by (simp add: Cons follows_def)
    have "c \<in> set bs" by (simp add: Cons)
    then have "m_index (bl_metadata c) \<in> set (map (\<lambda>b. m_index (bl_metadata b)) bs)" by simp
    then have le: "m_index (bl_metadata c) \<le> m_index (bl_metadata (last bs))" unfolding ih by simp
    then have "m_index (bl_metadata c) = m_index (bl_metadata b) + 1"
      using c Cons.prems(3) by (auto simp: Cons saturating_add_def split: if_splits)
    then show ?thesis using ih le by (simp add: Cons upt_conv_Cons)
  qed
qed simp

lemma find_unique_key:
  "distinct (map f xs) \<Longrightarrow> x \<in> set xs \<Longrightarrow> find (\<lambda>y. f y = f x) xs = Some x"
  by (induction xs) auto

text \<open>The idempotency check against the recent cache: for a block at a height of the cache it
  answers that the block is already canonical exactly when the hash is the cached one, and reports a
  conflict otherwise; a block above the tip is new.\<close>

theorem idempotency_decides:
  assumes "chain_inv st" and "it_has_tip st" and "it_tip_height st < 2 ^ 64 - 1"
  shows "(\<forall>e\<in>set (it_blocks st). m_index (bl_metadata e) = m_index (bl_metadata block) \<longrightarrow>
      check_canonical_idempotency st block = Inr True \<longleftrightarrow> bl_block_hash e = bl_block_hash block) \<and>
    (m_index (bl_metadata block) > it_tip_height st \<longrightarrow> check_canonical_idempotency st block = Inr False)"
proof -
  have "check_canonical_idempotency st block = Inr True \<longleftrightarrow> bl_block_hash e = bl_block_hash block"
    if e: "e \<in> set (it_blocks st)" and h: "m_index (bl_metadata e) = m_index (bl_metadata block)" for e
  proof -
    let ?f = "\<lambda>b. m_index (bl_metadata b)"
    from e have ne: "it_blocks st \<noteq> []" by auto
    have l: "?f (last (it_blocks st)) = it_tip_height st" "bl_block_hash (last (it_blocks st)) = it_tip_hash st"
      and s: "successively follows (it_blocks st)"
      using assms(1,2) ne by (auto simp: chain_inv_def)
    have m: "map ?f (it_blocks st) = [?f (hd (it_blocks st))..<it_tip_height st + 1]"
      using follows_heights [OF s ne] l(1) assms(3) by simp
    then have d: "distinct (map ?f (it_blocks st))" by simp
    have "?f e \<in> set (map ?f (it_blocks st))" using e by simp
    then have le: "?f e \<le> it_tip_height st" unfolding m by auto
    have fe: "find (\<lambda>y. ?f y = ?f e) (it_blocks st) = Some e" by (rule find_unique_key [OF d e])
    have fl: "find (\<lambda>y. ?f y = ?f (last (it_blocks st))) (it_blocks st) = Some (last (it_blocks st))"
      using ne by (intro find_unique_key [OF d]) simp
    show ?thesis
      using fe fl l le h assms(2)
      by (cases "?f e = it_tip_height st") (auto simp: check_canonical_idempotency_def Let_def)
  qed
  moreover have "check_canonical_idempotency st block = Inr False" if "m_index (bl_metadata block) > it_tip_height st"
    using that assms(2) by (simp add: check_canonical_idempotency_def)
  ultimately show ?thesis by blast
qed

section \<open>A concrete block on the sample state\<close>

definition sample_block :: Block where
  "sample_block = \<lparr>bl_metadata = sample_meta, bl_batch_key = None, bl_miner = [], bl_block_hash = replicate 64 1,
     bl_reward = 0\<rparr>"

definition sample_state1 :: InnerTree where
  "sample_state1 = remember_recent_block_for_guard sample_state sample_block"

lemma sample_state1_eq:
  "sample_state1 = \<lparr>it_balances = [(sample_wallet 97, 10)], it_tip_height = 0, it_tip_hash = replicate 64 1,
     it_prev_tip_hash = zero_hash, it_has_tip = True, it_blocks = [sample_block], it_total_issued_micro = 10,
     it_rewards_issued_micro = 10, it_reserved_issued_micro = 0\<rparr>"
  by (simp add: sample_state1_def remember_recent_block_for_guard_def sample_state_def inner_empty_def Let_def
      sample_block_def sample_meta_def cap_recent_def MAX_RECENT_BLOCKS_IN_RAM_def)

lemma sample_state1_chain: "chain_inv sample_state1"
  by (simp add: sample_state1_eq chain_inv_def MAX_RECENT_BLOCKS_IN_RAM_def)
     (simp add: sample_block_def sample_meta_def zero_hash_def)

lemma sample_state1_inv: "verify_state_invariants default_guard sample_state1 None None None = Inr ()"
  using sample_addresses(2) sample_state1_chain
  by (simp add: verify_state_invariants_iff money_inv_def keys_valid_def)
     (simp add: sample_state1_eq hvalues_sum_def cfg_defs)

lemma sample_dry_run:
  "\<exists>st' oc. dry_run_block_and_batch default_guard ledger_ext sample_state sample_block sample_transfer_batch = Inr (st', oc)"
proof -
  have "hget0 (it_balances sample_state1) = hget0 (it_balances sample_state)"
    "it_total_issued_micro sample_state1 = it_total_issued_micro sample_state"
    by (simp_all add: sample_state1_eq sample_state_def)
  then obtain st' oc where r: "apply_batch_to_state default_guard ledger_ext sample_state1 sample_transfer_batch sample_ctx = Inr (st', oc)"
    using accepted_iff [OF sample_state1_inv, of ledger_ext sample_transfer_batch sample_ctx] sample_conditions
    by (auto simp: sample_state1_eq wf_map_def)
  have v: "verify_state_invariants default_guard st' (Some 0) (Some (replicate 64 1)) (Some zero_hash) = Inr ()"
    using apply_batch_Inr [OF r] run_keeps_chain [of "(sample_state1, [])"]
    by (fastforce simp: verify_state_invariants_iff verify_state_invariants_tip sample_state1_eq)
  have "m_index (bl_metadata sample_block) = 0" "m_previous_hash (bl_metadata sample_block) = zero_hash"
    "bl_block_hash sample_block = replicate 64 1" "it_has_tip sample_state = False"
    by (simp_all add: sample_block_def sample_meta_def sample_state_def inner_empty_def)
  with r v show ?thesis
    by (simp add: dry_run_block_and_batch_def Let_def expected_next_height_def sample_ctx_def sample_state1_def)
qed

theorem dry_run_extends_chain_witness:
  "\<exists>st' oc. dry_run_block_and_batch default_guard ledger_ext sample_state sample_block sample_transfer_batch = Inr (st', oc) \<and>
     current_tip_hash st' = Some (replicate 64 1) \<and> money_inv default_guard st'"
proof -
  obtain st' oc where r: "dry_run_block_and_batch default_guard ledger_ext sample_state sample_block sample_transfer_batch = Inr (st', oc)"
    using sample_dry_run by blast
  from dry_run_extends_chain [OF r sample_wf] r show ?thesis by (auto simp: sample_block_def)
qed

theorem idempotency_decides_witness:
  "check_canonical_idempotency sample_state1 sample_block = Inr True \<and>
   check_canonical_idempotency sample_state1 (sample_block\<lparr>bl_block_hash := zero_hash\<rparr>) \<noteq> Inr True"
proof -
  have t: "it_has_tip sample_state1" "it_tip_height sample_state1 < 2 ^ 64 - 1" "sample_block \<in> set (it_blocks sample_state1)"
    by (simp_all add: sample_state1_eq)
  show ?thesis
    using idempotency_decides [OF sample_state1_chain t(1,2), of sample_block]
      idempotency_decides [OF sample_state1_chain t(1,2), of "sample_block\<lparr>bl_block_hash := zero_hash\<rparr>"] t(3)
    by (auto simp: sample_block_def zero_hash_def)
qed

end
