(* ===== verification/StateError.thy ===== *)
theory StateError
  imports RustText
begin

text \<open>
  Operations on a state that may fail: the state is returned in either case, since a Rust method that
  returns an error through the question mark operator keeps the changes it has made through
  \<open>&mut self\<close>. With the combinators come the inversion of a successful run and the frame rules
  (\<open>preserves\<close>, collection \<open>frames\<close>) that say what an operation does not change.
\<close>

section \<open>State with errors\<close>

type_synonym ('e, 's, 'a) esm = "'s \<Rightarrow> ('e + 'a) \<times> 's"

type_synonym ('s, 'a) sm = "(ErrorDetection, 's, 'a) esm"

definition returnS :: "'a \<Rightarrow> ('e, 's, 'a) esm" where
  "returnS x = (\<lambda>s. (Inr x, s))"

definition failS :: "'e \<Rightarrow> ('e, 's, 'a) esm" where
  "failS e = (\<lambda>s. (Inl e, s))"

definition bindS :: "('e, 's, 'a) esm \<Rightarrow> ('a \<Rightarrow> ('e, 's, 'b) esm) \<Rightarrow> ('e, 's, 'b) esm" where
  "bindS m f = (\<lambda>s. case m s of (Inl e, s') \<Rightarrow> (Inl e, s') | (Inr x, s') \<Rightarrow> f x s')"

definition readS :: "('s \<Rightarrow> 'e + 'a) \<Rightarrow> ('e, 's, 'a) esm" where
  "readS f = (\<lambda>s. (f s, s))"

text \<open>\<open>drop(...)\<close> of a result: the effect stays, the error does not.\<close>

definition ignoreS :: "('s, 'a) sm \<Rightarrow> ('s, unit) sm" where
  "ignoreS m = (\<lambda>s. (Inr (), snd (m s)))"

text \<open>\<open>map_err\<close> on the result of an operation.\<close>

definition map_errS :: "('e \<Rightarrow> 'f) \<Rightarrow> ('e, 's, 'a) esm \<Rightarrow> ('f, 's, 'a) esm" where
  "map_errS f m = (\<lambda>s. case m s of (r, s') \<Rightarrow> (map_err f r, s'))"

fun forS :: "('x \<Rightarrow> ('e, 's, unit) esm) \<Rightarrow> 'x list \<Rightarrow> ('e, 's, unit) esm" where
  "forS f [] = returnS ()"
| "forS f (x # xs) = bindS (f x) (\<lambda>_. forS f xs)"

text \<open>A loop that threads an accumulator.\<close>

fun foldS :: "('a \<Rightarrow> 'x \<Rightarrow> ('e, 's, 'a) esm) \<Rightarrow> 'a \<Rightarrow> 'x list \<Rightarrow> ('e, 's, 'a) esm" where
  "foldS f a [] = returnS a"
| "foldS f a (x # xs) = bindS (f a x) (\<lambda>a'. foldS f a' xs)"

lemma bindS_Inr [res_simps]:
  "bindS m f s = (Inr y, s'') \<longleftrightarrow> (\<exists>x s'. m s = (Inr x, s') \<and> f x s' = (Inr y, s''))"
  by (auto simp: bindS_def split: prod.splits sum.splits)

lemma bindS_readS: "bindS (readS f) k s = (case f s of Inl e \<Rightarrow> (Inl e, s) | Inr x \<Rightarrow> k x s)"
  by (simp add: bindS_def readS_def split: sum.splits)

lemma simple_Inr [res_simps]:
  "returnS x s = (Inr y, s') \<longleftrightarrow> y = x \<and> s' = s"
  "failS e s = (Inr y, s') \<longleftrightarrow> False"
  "readS f s = (Inr y, s') \<longleftrightarrow> f s = Inr y \<and> s' = s"
  by (auto simp: returnS_def failS_def readS_def)

lemma map_errS_Inr [res_simps]: "map_errS g m s = (Inr y, s') \<longleftrightarrow> m s = (Inr y, s')"
  by (auto simp: map_errS_def map_err_def split: prod.splits sum.splits)

text \<open>A relation between states that every successful step respects is respected by the loop.\<close>

lemma forS_relation:
  assumes "forS f xs s = (Inr (), s')" and "R s s"
    and "\<And>a b c. R a b \<Longrightarrow> R b c \<Longrightarrow> R a c"
    and "\<And>x a b. x \<in> set xs \<Longrightarrow> f x a = (Inr (), b) \<Longrightarrow> R a b"
  shows "R s s'"
proof -
  have "R s0 s'" if "R s0 s" for s0
    using assms(1,4) that
  proof (induction xs arbitrary: s)
    case (Cons x xs)
    then obtain s1 where s1: "f x s = (Inr (), s1)" and rest: "forS f xs s1 = (Inr (), s')"
      by (auto simp: res_simps)
    have "R s0 s1" using Cons.prems(2) [OF _ s1] Cons.prems(3) assms(3) by auto
    then show ?case using Cons.IH [OF rest] Cons.prems(2) by auto
  qed (simp add: res_simps)
  then show ?thesis using assms(2) .
qed

section \<open>Frames\<close>

text \<open>\<open>preserves f m\<close>: the operation \<open>m\<close> does not change the observation \<open>f\<close>, whatever its outcome.\<close>

named_theorems frames \<open>what an operation does not change\<close>

definition preserves :: "('s \<Rightarrow> 'o) \<Rightarrow> ('e, 's, 'a) esm \<Rightarrow> bool" where
  "preserves f m \<longleftrightarrow> (\<forall>s r s'. m s = (r, s') \<longrightarrow> f s' = f s)"

lemma preservesD: "preserves f m \<Longrightarrow> m s = (r, s') \<Longrightarrow> f s' = f s"
  unfolding preserves_def by blast

lemma preserves_comp: "preserves f m \<Longrightarrow> preserves (\<lambda>s. g (f s)) m"
  unfolding preserves_def by metis

lemma preserves_basic [frames]:
  "preserves f (returnS x)" "preserves f (failS e)" "preserves f (readS g)"
  by (simp_all add: preserves_def returnS_def failS_def readS_def)

lemma preserves_bindS [frames]:
  assumes "preserves f m" and "\<And>x. preserves f (k x)"
  shows "preserves f (bindS m k)"
  unfolding preserves_def
proof (intro allI impI)
  fix s r s' assume b: "bindS m k s = (r, s')"
  obtain r1 s1 where m: "m s = (r1, s1)" by (cases "m s")
  show "f s' = f s"
    using b preservesD [OF assms(1) m] preservesD [OF assms(2), of _ s1 r s'] m
    by (cases r1) (auto simp: bindS_def)
qed

lemma preserves_ignoreS [frames]: "preserves f m \<Longrightarrow> preserves f (ignoreS m)"
  unfolding preserves_def ignoreS_def by (metis prod.collapse snd_conv)

lemma preserves_map_errS [frames]: "preserves f m \<Longrightarrow> preserves f (map_errS g m)"
  unfolding preserves_def map_errS_def by (auto split: prod.splits)

lemma preserves_forS [frames]: "(\<And>x. preserves f (g x)) \<Longrightarrow> preserves f (forS g xs)"
  by (induction xs) (auto intro: frames)

lemma preserves_foldS [frames]: "(\<And>a x. preserves f (g a x)) \<Longrightarrow> preserves f (foldS g a xs)"
  by (induction xs arbitrary: a) (auto intro: frames)

lemma preserves_if [frames]: "preserves f a \<Longrightarrow> preserves f b \<Longrightarrow> preserves f (if c then a else b)"
  by simp

lemma preserves_option [frames]:
  "preserves f a \<Longrightarrow> (\<And>x. preserves f (b x)) \<Longrightarrow> preserves f (case v of None \<Rightarrow> a | Some x \<Rightarrow> b x)"
  by (cases v) simp_all

lemma preserves_sum [frames]:
  "(\<And>e. preserves f (a e)) \<Longrightarrow> (\<And>x. preserves f (b x)) \<Longrightarrow> preserves f (case v of Inl e \<Rightarrow> a e | Inr x \<Rightarrow> b x)"
  by (cases v) simp_all

end
