(* ===== verification/Storage.thy ===== *)
theory Storage
  imports Blocks StateError
begin

text \<open>
  The storage layer: the parts of \<open>RockDBManager\<close> that keep blocks, batches and tips
  (\<open>src/storage/rocksdb_005_manager.rs\<close>, with the two calls of \<open>rocksdb_003_batches.rs\<close> it makes)
  and the fork graph with the canonical view (\<open>rocksdb_006_manager_ext.rs\<close>).

  RocksDB is outside the sources: a database is a value of an arbitrary type \<open>'db\<close> and the calls
  on it are the fields of a record \<open>Engine\<close>. What the code relies on (a read returns what was last
  written, a failed write changes nothing) is the predicate \<open>engine_ok\<close>, which the theorems
  take as a hypothesis. The command-line and log databases are opened for each call; the outcome of
  opening them is part of the manager.
\<close>

section \<open>The engine and the manager\<close>

datatype WriteOp = PutOp string "byte list" "byte list" | DeleteOp string "byte list"

record 'db Engine =
  en_cf :: "'db \<Rightarrow> string \<Rightarrow> bool"
  en_get :: "'db \<Rightarrow> string \<Rightarrow> byte list \<Rightarrow> string + byte list option"
  en_write :: "'db \<Rightarrow> WriteOp list \<Rightarrow> (string + unit) \<times> 'db"
  en_scan :: "'db \<Rightarrow> string \<Rightarrow> (byte list \<times> byte list) list"
  en_flush :: "'db \<Rightarrow> string \<Rightarrow> (string + unit) \<times> 'db"

datatype Mode = CLI | Blockchain | AccountModel | Sidechain | Log

record 'db RockDBManager =
  mg_mode :: Mode
  mg_blockchain_handle :: "'db option"
  mg_cli :: "ErrorDetection + 'db"
  mg_log :: "ErrorDetection + 'db"

definition META_DATA_COLUMN_NAME :: string where "META_DATA_COLUMN_NAME = ''meta_data''"
definition GLOBAL_COLUMN_NAME :: string where "GLOBAL_COLUMN_NAME = ''global_metadata''"
definition ACCOUNT_COLUMN_NAME :: string where "ACCOUNT_COLUMN_NAME = ''wallet_accounts''"
definition STATE_COLUMN_NAME :: string where "STATE_COLUMN_NAME = ''state_data''"
definition TRANSACTION_COLUMN_NAME :: string where "TRANSACTION_COLUMN_NAME = ''transaction_data''"
definition TRANSACTION_BATCH_COLUMN_NAME :: string where "TRANSACTION_BATCH_COLUMN_NAME = ''transaction_batch_data''"
definition BLOCKMINT_DATA_COLUMN_NAME :: string where "BLOCKMINT_DATA_COLUMN_NAME = ''blockmint_data''"
definition BLOCK_TO_HASH_COLUMN_NAME :: string where "BLOCK_TO_HASH_COLUMN_NAME = ''blockhash_data''"
definition BLOCK_META_BY_HASH_COLUMN_NAME :: string where "BLOCK_META_BY_HASH_COLUMN_NAME = ''block_meta_by_hash''"
definition BATCH_BY_BLOCK_HASH_COLUMN_NAME :: string where "BATCH_BY_BLOCK_HASH_COLUMN_NAME = ''batch_by_block_hash''"
definition CANONICAL_HEIGHT_TO_HASH_COLUMN_NAME :: string where
  "CANONICAL_HEIGHT_TO_HASH_COLUMN_NAME = ''canonical_height_to_hash''"
definition CANONICAL_CHAIN_VIEW_COLUMN_NAME :: string where
  "CANONICAL_CHAIN_VIEW_COLUMN_NAME = ''canonical_chain_view''"

lemmas column_defs = META_DATA_COLUMN_NAME_def GLOBAL_COLUMN_NAME_def ACCOUNT_COLUMN_NAME_def STATE_COLUMN_NAME_def
  TRANSACTION_COLUMN_NAME_def TRANSACTION_BATCH_COLUMN_NAME_def BLOCKMINT_DATA_COLUMN_NAME_def
  BLOCK_TO_HASH_COLUMN_NAME_def BLOCK_META_BY_HASH_COLUMN_NAME_def BATCH_BY_BLOCK_HASH_COLUMN_NAME_def
  CANONICAL_HEIGHT_TO_HASH_COLUMN_NAME_def CANONICAL_CHAIN_VIEW_COLUMN_NAME_def

definition open_db_blockchain :: "'db RockDBManager \<Rightarrow> 'db result" where
  "open_db_blockchain mg =
     ok_or (DatabaseError ''Blockchain DB handle not initialized'') (mg_blockchain_handle mg)"

text \<open>\<open>cf_handle(...).ok_or_else(...)\<close>.\<close>

definition column :: "'db Engine \<Rightarrow> 'db \<Rightarrow> string \<Rightarrow> unit result" where
  "column G db cf = (if en_cf G db cf then Inr () else Inl (DatabaseError ''Column family not found''))"

text \<open>Reading one key of the blockchain database, and writing a batch of operations to it.\<close>

definition bc_get :: "'db Engine \<Rightarrow> string \<Rightarrow> byte list \<Rightarrow> 'db RockDBManager \<Rightarrow> byte list option result" where
  "bc_get G cf key mg =
     bindR (open_db_blockchain mg) (\<lambda>db.
     bindR (column G db cf) (\<lambda>_.
     map_err (\<lambda>_. StorageError ''Failed to read'') (en_get G db cf key)))"

definition bc_write :: "'db Engine \<Rightarrow> string \<Rightarrow> WriteOp list \<Rightarrow> ('db RockDBManager, unit) sm" where
  "bc_write G cf ops mg =
     (case open_db_blockchain mg of
        Inl e \<Rightarrow> (Inl e, mg)
      | Inr db \<Rightarrow>
          (case column G db cf of
             Inl e \<Rightarrow> (Inl e, mg)
           | Inr _ \<Rightarrow>
               (case en_write G db ops of (r, db') \<Rightarrow>
                  (map_err (\<lambda>_. StorageError ''Failed to write'') r, mg\<lparr>mg_blockchain_handle := Some db'\<rparr>))))"

definition bc_flush :: "'db Engine \<Rightarrow> string \<Rightarrow> ('db RockDBManager, unit) sm" where
  "bc_flush G cf mg =
     (case open_db_blockchain mg of
        Inl e \<Rightarrow> (Inl e, mg)
      | Inr db \<Rightarrow>
          (case en_flush G db cf of (r, db') \<Rightarrow>
             (map_err (\<lambda>_. StorageError ''Failed to flush column'') r, mg\<lparr>mg_blockchain_handle := Some db'\<rparr>)))"

section \<open>Records applied before a write\<close>

text \<open>The debug format of a byte vector, as in \<open>Applied record: [1, 2]\<close>.\<close>

fun debug_bytes_tail :: "byte list \<Rightarrow> rstr" where
  "debug_bytes_tail [] = lit '']''"
| "debug_bytes_tail (b # bs) = lit '', '' @ decimal (unat b) @ debug_bytes_tail bs"

fun debug_bytes :: "byte list \<Rightarrow> rstr" where
  "debug_bytes [] = lit ''[]''"
| "debug_bytes (b # bs) = lit ''['' @ decimal (unat b) @ debug_bytes_tail bs"

definition batch_execute_records :: "'db Engine \<Rightarrow> ('db, unit) sm" where
  "batch_execute_records G db =
     (if \<not> en_cf G db TRANSACTION_COLUMN_NAME then (Inl (BlockchainError ''Column Family not found''), db)
      else
        (let records = en_scan G db TRANSACTION_COLUMN_NAME in
         if list_ex (\<lambda>(k, v). k = [] \<or> v = []) records
           then (Inl (BlockchainError ''Record invalid: key or value is empty''), db)
         else if \<not> en_cf G db META_DATA_COLUMN_NAME then (Inl (BlockchainError ''Column Family not found''), db)
         else
           (case en_write G db (map (\<lambda>(k, _). PutOp META_DATA_COLUMN_NAME k
                (str_bytes (lit ''Applied record: '' @ debug_bytes k))) records) of
              (r, db') \<Rightarrow> (map_err (\<lambda>_. BlockchainError ''Batch execution failed'') r, db'))))"

definition store_batch_signature :: "'db Engine \<Rightarrow> byte list \<Rightarrow> byte list \<Rightarrow> ('db, unit) sm" where
  "store_batch_signature G signing_data_key signature db =
     (if \<not> en_cf G db META_DATA_COLUMN_NAME then (Inl (BlockchainError ''Column Family not found''), db)
      else (case en_write G db [PutOp META_DATA_COLUMN_NAME signing_data_key signature] of
          (r, db') \<Rightarrow> (map_err (\<lambda>_. BlockchainError ''Failed to store batch signature'') r, db')))"

text \<open>The database a manager in CLI or blockchain mode works on, and writing it back.\<close>

definition on_mode_db :: "string \<Rightarrow> ('db, unit) sm \<Rightarrow> ('db RockDBManager, unit) sm" where
  "on_mode_db msg f mg =
     (case mg_mode mg of
        CLI \<Rightarrow> (case mg_cli mg of
            Inl e \<Rightarrow> (Inl e, mg)
          | Inr db \<Rightarrow> (case f db of (r, db') \<Rightarrow> (r, mg\<lparr>mg_cli := Inr db'\<rparr>)))
      | Blockchain \<Rightarrow> (case open_db_blockchain mg of
            Inl e \<Rightarrow> (Inl e, mg)
          | Inr db \<Rightarrow> (case f db of (r, db') \<Rightarrow> (r, mg\<lparr>mg_blockchain_handle := Some db'\<rparr>)))
      | _ \<Rightarrow> (Inl (StorageError msg), mg))"

definition batch_process_all :: "'db Engine \<Rightarrow> ('db RockDBManager, unit) sm" where
  "batch_process_all G =
     on_mode_db ''batch_process_all() is only supported in CLI or Blockchain modes.''
       (bindS (batch_execute_records G) (\<lambda>_.
        store_batch_signature G (str_bytes (lit ''placeholder_key'')) (str_bytes (lit ''placeholder_sig''))))"

section \<open>Blocks, batches and tips by height\<close>

definition block_key :: "nat \<Rightarrow> byte list" where
  "block_key index = str_bytes (lit ''block_'' @ decimal_padded 10 index)"

definition tx_batch_key :: "nat \<Rightarrow> byte list" where
  "tx_batch_key index = str_bytes (lit ''tx_batch_'' @ decimal_padded 10 index)"

definition store_latest_block :: "'db Engine \<Rightarrow> byte list \<Rightarrow> nat \<Rightarrow> ('db RockDBManager, unit) sm" where
  "store_latest_block G block_data block_index =
     bindS (batch_process_all G) (\<lambda>_.
     if block_data = [] then failS (StorageError ''Refusing to store an empty block payload'')
     else if length block_data > MAX_BLOCK_SIZE then failS (StorageError ''Block too large'')
     else
       bindS (bc_write G BLOCKMINT_DATA_COLUMN_NAME
                [PutOp BLOCKMINT_DATA_COLUMN_NAME (block_key block_index) block_data]) (\<lambda>_.
       bc_flush G BLOCKMINT_DATA_COLUMN_NAME))"

definition get_block_by_index :: "'db Engine \<Rightarrow> BlockExt \<Rightarrow> nat \<Rightarrow> 'db RockDBManager \<Rightarrow> Block option result" where
  "get_block_by_index G X index mg =
     bindR (bc_get G BLOCKMINT_DATA_COLUMN_NAME (block_key index) mg) (\<lambda>bytes.
     (case bytes of
        Some data \<Rightarrow> bindR (deserialize_from_storage X data) (\<lambda>b. Inr (Some b))
      | None \<Rightarrow> Inr None))"

definition get_block_bytes_by_index :: "'db Engine \<Rightarrow> nat \<Rightarrow> 'db RockDBManager \<Rightarrow> byte list option result" where
  "get_block_bytes_by_index G index mg = bc_get G BLOCKMINT_DATA_COLUMN_NAME (block_key index) mg"

definition get_block_hash_by_index :: "'db Engine \<Rightarrow> BlockExt \<Rightarrow> nat \<Rightarrow> 'db RockDBManager \<Rightarrow> hash result" where
  "get_block_hash_by_index G X index mg =
     bindR (bc_get G BLOCKMINT_DATA_COLUMN_NAME (block_key index) mg) (\<lambda>bytes.
     bindR (ok_or (NotFound ''block'') bytes) (\<lambda>data.
     bindR (deserialize_from_storage X data) (\<lambda>b. Inr (bl_block_hash b))))"

definition store_batch_bytes :: "'db Engine \<Rightarrow> nat \<Rightarrow> byte list \<Rightarrow> ('db RockDBManager, unit) sm" where
  "store_batch_bytes G batch_index batch_bytes =
     bindS (bc_write G TRANSACTION_BATCH_COLUMN_NAME
              [PutOp TRANSACTION_BATCH_COLUMN_NAME (tx_batch_key batch_index) batch_bytes]) (\<lambda>_.
     bc_flush G TRANSACTION_BATCH_COLUMN_NAME)"

definition get_batch_bytes_by_index :: "'db Engine \<Rightarrow> nat \<Rightarrow> 'db RockDBManager \<Rightarrow> byte list option result" where
  "get_batch_bytes_by_index G index mg = bc_get G TRANSACTION_BATCH_COLUMN_NAME (tx_batch_key index) mg"

definition tip_height_key :: "byte list" where "tip_height_key = str_bytes (lit ''tip_height'')"

definition latest_block_index_key :: "byte list" where
  "latest_block_index_key = str_bytes (lit ''latest_block_index'')"

text \<open>Writing one key of the metadata column of the database of the mode.\<close>

definition put_global :: "'db Engine \<Rightarrow> byte list \<Rightarrow> byte list \<Rightarrow> ('db, unit) sm" where
  "put_global G key value db =
     (if \<not> en_cf G db GLOBAL_COLUMN_NAME then (Inl (DatabaseError ''CF not found''), db)
      else (case en_write G db [PutOp GLOBAL_COLUMN_NAME key value] of
          (r, db') \<Rightarrow> (map_err (\<lambda>_. StorageError ''Failed to store metadata'') r, db')))"

definition set_tip_height :: "'db Engine \<Rightarrow> nat \<Rightarrow> ('db RockDBManager, unit) sm" where
  "set_tip_height G height =
     on_mode_db ''set_tip_height() only valid in CLI or Blockchain modes''
       (put_global G tip_height_key (to_be_bytes 8 height))"

definition set_latest_block_index :: "'db Engine \<Rightarrow> nat \<Rightarrow> ('db RockDBManager, unit) sm" where
  "set_latest_block_index G height =
     on_mode_db ''set_latest_block_index() only valid in CLI or Blockchain modes''
       (bindS (put_global G latest_block_index_key (to_be_bytes 8 height)) (\<lambda>_.
        put_global G tip_height_key (to_be_bytes 8 height)))"

definition store_metadata :: "'db Engine \<Rightarrow> rstr \<Rightarrow> byte list \<Rightarrow> ('db RockDBManager, unit) sm" where
  "store_metadata G key value =
     on_mode_db ''Metadata storage is only supported in CLI or Blockchain modes.''
       (put_global G (str_bytes key) value)"

definition get_metadata :: "'db Engine \<Rightarrow> rstr \<Rightarrow> 'db RockDBManager \<Rightarrow> byte list option result" where
  "get_metadata G key mg =
     bindR (case mg_mode mg of
              CLI \<Rightarrow> mg_cli mg
            | Blockchain \<Rightarrow> open_db_blockchain mg
            | _ \<Rightarrow> Inl (StorageError ''Metadata is only available in CLI or Blockchain modes.'')) (\<lambda>db.
     bindR (column G db GLOBAL_COLUMN_NAME) (\<lambda>_.
     map_err (\<lambda>_. StorageError ''Error reading metadata'') (en_get G db GLOBAL_COLUMN_NAME (str_bytes key))))"

definition get_latest_block_index :: "'db Engine \<Rightarrow> 'db RockDBManager \<Rightarrow> nat result" where
  "get_latest_block_index G mg =
     bindR (open_db_blockchain mg) (\<lambda>db.
     bindR (column G db GLOBAL_COLUMN_NAME) (\<lambda>_.
     bindR (map_err (\<lambda>_. DatabaseError ''Failed to read latest_block_index'')
              (en_get G db GLOBAL_COLUMN_NAME latest_block_index_key)) (\<lambda>opt_bytes.
     (case opt_bytes of
        Some bytes \<Rightarrow> if length bytes = 8 then Inr (from_be_bytes bytes) else Inr 0
      | None \<Rightarrow> Inr 0))))"

definition get_tip_height :: "'db Engine \<Rightarrow> 'db RockDBManager \<Rightarrow> nat result" where
  "get_tip_height G mg =
     bindR (open_db_blockchain mg) (\<lambda>db.
     bindR (column G db GLOBAL_COLUMN_NAME) (\<lambda>_.
     bindR (map_err (\<lambda>_. DatabaseError ''Failed to read tip_height'')
              (en_get G db GLOBAL_COLUMN_NAME tip_height_key)) (\<lambda>opt_bytes.
     (case opt_bytes of
        Some bytes \<Rightarrow> if length bytes = 8 then Inr (from_be_bytes bytes) else get_latest_block_index G mg
      | None \<Rightarrow> get_latest_block_index G mg))))"

section \<open>Generic access by column\<close>

definition open_db_accountmodel :: "'db RockDBManager \<Rightarrow> 'db result" where
  "open_db_accountmodel mg =
     ok_or (DatabaseError ''AccountModel DB handle not initialized'') (mg_blockchain_handle mg)"

definition accountmodel_write_column_allowed :: "string \<Rightarrow> bool" where
  "accountmodel_write_column_allowed col \<longleftrightarrow> col = STATE_COLUMN_NAME \<or> col = ACCOUNT_COLUMN_NAME"

definition mg_read :: "'db Engine \<Rightarrow> string \<Rightarrow> byte list \<Rightarrow> 'db RockDBManager \<Rightarrow> byte list option result" where
  "mg_read G col key mg =
     bindR (case mg_mode mg of
              CLI \<Rightarrow> mg_cli mg
            | Blockchain \<Rightarrow> open_db_blockchain mg
            | AccountModel \<Rightarrow> open_db_accountmodel mg
            | Log \<Rightarrow> mg_log mg
            | Sidechain \<Rightarrow> Inl (StorageError ''read() is only supported in CLI, Blockchain or AccountModel modes.'')) (\<lambda>db.
     bindR (column G db col) (\<lambda>_.
     map_err (\<lambda>_. StorageError ''Error reading from RocksDB'') (en_get G db col key)))"

definition change_column :: "'db Engine \<Rightarrow> string \<Rightarrow> WriteOp list \<Rightarrow> string \<Rightarrow> ('db, unit) sm" where
  "change_column G col ops msg db =
     (case column G db col of
        Inl e \<Rightarrow> (Inl e, db)
      | Inr _ \<Rightarrow> (case en_write G db ops of (r, db') \<Rightarrow> (map_err (\<lambda>_. StorageError msg) r, db')))"

definition mg_write :: "'db Engine \<Rightarrow> string \<Rightarrow> byte list \<Rightarrow> byte list \<Rightarrow> ('db RockDBManager, unit) sm" where
  "mg_write G col key value mg =
     (if mg_mode mg = CLI \<or> mg_mode mg = Blockchain then
        bindS (batch_process_all G) (\<lambda>_.
        on_mode_db [] (change_column G col [PutOp col key value] ''Failed to write to RocksDB'')) mg
      else if mg_mode mg = AccountModel then
        (if \<not> accountmodel_write_column_allowed col
           then (Inl (StorageError ''AccountModel write is only allowed for the state and account columns''), mg)
         else (case open_db_accountmodel mg of
             Inl e \<Rightarrow> (Inl e, mg)
           | Inr db \<Rightarrow>
               (case change_column G col [PutOp col key value] ''Failed to write to RocksDB'' db of
                  (r, db') \<Rightarrow> (r, mg\<lparr>mg_blockchain_handle := Some db'\<rparr>))))
      else (Inl (StorageError ''Generic write is only allowed in CLI, Blockchain, or AccountModel modes.''), mg))"

definition mg_delete :: "'db Engine \<Rightarrow> string \<Rightarrow> byte list \<Rightarrow> ('db RockDBManager, unit) sm" where
  "mg_delete G col key mg =
     (if mg_mode mg = CLI \<or> mg_mode mg = Blockchain then
        bindS (batch_process_all G) (\<lambda>_.
        on_mode_db [] (change_column G col [DeleteOp col key] ''Failed to delete key'')) mg
      else (Inl (StorageError ''Generic delete is only allowed in CLI or Blockchain modes.''), mg))"

definition get_tx_batch_bytes_by_index :: "'db Engine \<Rightarrow> nat \<Rightarrow> 'db RockDBManager \<Rightarrow> byte list option result" where
  "get_tx_batch_bytes_by_index G block_index mg = bc_get G TRANSACTION_BATCH_COLUMN_NAME (tx_batch_key block_index) mg"

section \<open>Blocks by hash\<close>

definition index_block_by_hash :: "'db Engine \<Rightarrow> BlockExt \<Rightarrow> hash \<Rightarrow> byte list \<Rightarrow> ('db RockDBManager, unit) sm" where
  "index_block_by_hash G X h block_bytes =
     bindS (readS (\<lambda>_. bindR (deserialize_from_storage X block_bytes) (\<lambda>b. block_serialize_for_storage X b)))
       (\<lambda>canonical_block_bytes.
     bc_write G BLOCK_TO_HASH_COLUMN_NAME [PutOp BLOCK_TO_HASH_COLUMN_NAME h canonical_block_bytes])"

definition get_block_by_hash :: "'db Engine \<Rightarrow> BlockExt \<Rightarrow> hash \<Rightarrow> 'db RockDBManager \<Rightarrow> Block option" where
  "get_block_by_hash G X h mg =
     (case bc_get G BLOCK_TO_HASH_COLUMN_NAME h mg of
        Inr (Some bytes) \<Rightarrow> (case deserialize_from_storage X bytes of Inr b \<Rightarrow> Some b | Inl _ \<Rightarrow> None)
      | _ \<Rightarrow> None)"

definition has_block_by_hash :: "'db Engine \<Rightarrow> hash \<Rightarrow> 'db RockDBManager \<Rightarrow> bool" where
  "has_block_by_hash G h mg =
     (case bc_get G BLOCK_TO_HASH_COLUMN_NAME h mg of Inr (Some _) \<Rightarrow> True | _ \<Rightarrow> False)"

section \<open>The fork graph\<close>

datatype ForkBlockStatus = HeaderOnly | BlockStored | Validated | Canonical | SideBranch | Orphan

fun status_as_u8 :: "ForkBlockStatus \<Rightarrow> byte" where
  "status_as_u8 HeaderOnly = 0"
| "status_as_u8 BlockStored = 1"
| "status_as_u8 Validated = 2"
| "status_as_u8 Canonical = 3"
| "status_as_u8 SideBranch = 4"
| "status_as_u8 Orphan = 5"

definition status_from_u8 :: "byte \<Rightarrow> ForkBlockStatus result" where
  "status_from_u8 v =
     (if v = 0 then Inr HeaderOnly else if v = 1 then Inr BlockStored else if v = 2 then Inr Validated
      else if v = 3 then Inr Canonical else if v = 4 then Inr SideBranch else if v = 5 then Inr Orphan
      else Inl (StorageError ''Invalid ForkBlockStatus value''))"

record ForkBlockMeta =
  fm_parent_hash :: hash
  fm_height :: nat
  fm_cumulative_score :: nat
  fm_status :: ForkBlockStatus
  fm_received_at_unix_secs :: nat

definition fork_meta_to_bytes :: "ForkBlockMeta \<Rightarrow> byte list" where
  "fork_meta_to_bytes m =
     fm_parent_hash m @ to_be_bytes 8 (fm_height m) @ to_be_bytes 16 (fm_cumulative_score m) @
     [status_as_u8 (fm_status m)] @ to_be_bytes 8 (fm_received_at_unix_secs m)"

definition fork_meta_from_bytes :: "byte list \<Rightarrow> ForkBlockMeta result" where
  "fork_meta_from_bytes bytes =
     (if length bytes \<noteq> 97 then Inl (StorageError ''Invalid ForkBlockMeta length'')
      else
        bindR (status_from_u8 (bytes ! 88)) (\<lambda>status.
        Inr \<lparr>fm_parent_hash = take 64 bytes, fm_height = from_be_bytes (take 8 (drop 64 bytes)),
             fm_cumulative_score = from_be_bytes (take 16 (drop 72 bytes)), fm_status = status,
             fm_received_at_unix_secs = from_be_bytes (take 8 (drop 89 bytes))\<rparr>))"

record CanonicalTipView =
  tv_tip_hash :: hash
  tv_tip_height :: nat

definition tip_view_to_bytes :: "CanonicalTipView \<Rightarrow> byte list" where
  "tip_view_to_bytes v = tv_tip_hash v @ to_be_bytes 8 (tv_tip_height v)"

definition tip_view_from_bytes :: "byte list \<Rightarrow> CanonicalTipView result" where
  "tip_view_from_bytes bytes =
     (if length bytes \<noteq> 72 then Inl (StorageError ''Invalid CanonicalTipView length'')
      else Inr \<lparr>tv_tip_hash = take 64 bytes, tv_tip_height = from_be_bytes (take 8 (drop 64 bytes))\<rparr>)"

definition store_block_meta_by_hash :: "'db Engine \<Rightarrow> hash \<Rightarrow> ForkBlockMeta \<Rightarrow> ('db RockDBManager, unit) sm" where
  "store_block_meta_by_hash G block_hash meta =
     bc_write G BLOCK_META_BY_HASH_COLUMN_NAME
       [PutOp BLOCK_META_BY_HASH_COLUMN_NAME block_hash (fork_meta_to_bytes meta)]"

definition get_block_meta_by_hash :: "'db Engine \<Rightarrow> hash \<Rightarrow> 'db RockDBManager \<Rightarrow> ForkBlockMeta option result" where
  "get_block_meta_by_hash G block_hash mg =
     bindR (bc_get G BLOCK_META_BY_HASH_COLUMN_NAME block_hash mg) (\<lambda>pinned.
     (case pinned of
        Some bytes \<Rightarrow> bindR (fork_meta_from_bytes bytes) (\<lambda>m. Inr (Some m))
      | None \<Rightarrow> Inr None))"

definition has_block_meta_by_hash :: "'db Engine \<Rightarrow> hash \<Rightarrow> 'db RockDBManager \<Rightarrow> bool result" where
  "has_block_meta_by_hash G block_hash mg =
     bindR (get_block_meta_by_hash G block_hash mg) (\<lambda>m. Inr (m \<noteq> None))"

definition set_block_meta_status :: "'db Engine \<Rightarrow> hash \<Rightarrow> ForkBlockStatus \<Rightarrow> ('db RockDBManager, unit) sm" where
  "set_block_meta_status G block_hash new_status =
     bindS (readS (\<lambda>mg. bindR (get_block_meta_by_hash G block_hash mg) (\<lambda>m. ok_or (NotFound ''block_meta_by_hash'') m)))
       (\<lambda>meta.
     store_block_meta_by_hash G block_hash (meta\<lparr>fm_status := new_status\<rparr>))"

definition store_batch_by_block_hash :: "'db Engine \<Rightarrow> hash \<Rightarrow> byte list \<Rightarrow> ('db RockDBManager, unit) sm" where
  "store_batch_by_block_hash G block_hash batch_bytes =
     bc_write G BATCH_BY_BLOCK_HASH_COLUMN_NAME [PutOp BATCH_BY_BLOCK_HASH_COLUMN_NAME block_hash batch_bytes]"

definition get_batch_by_block_hash :: "'db Engine \<Rightarrow> hash \<Rightarrow> 'db RockDBManager \<Rightarrow> byte list option result" where
  "get_batch_by_block_hash G block_hash mg = bc_get G BATCH_BY_BLOCK_HASH_COLUMN_NAME block_hash mg"

definition has_batch_by_block_hash :: "'db Engine \<Rightarrow> hash \<Rightarrow> 'db RockDBManager \<Rightarrow> bool result" where
  "has_batch_by_block_hash G block_hash mg = bindR (get_batch_by_block_hash G block_hash mg) (\<lambda>b. Inr (b \<noteq> None))"

section \<open>The canonical view\<close>

definition canonical_height_key :: "nat \<Rightarrow> byte list" where
  "canonical_height_key height = to_be_bytes 8 height"

definition set_canonical_hash_at_height :: "'db Engine \<Rightarrow> nat \<Rightarrow> hash \<Rightarrow> ('db RockDBManager, unit) sm" where
  "set_canonical_hash_at_height G height block_hash =
     bc_write G CANONICAL_HEIGHT_TO_HASH_COLUMN_NAME
       [PutOp CANONICAL_HEIGHT_TO_HASH_COLUMN_NAME (canonical_height_key height) block_hash]"

definition get_canonical_hash_at_height :: "'db Engine \<Rightarrow> nat \<Rightarrow> 'db RockDBManager \<Rightarrow> hash option result" where
  "get_canonical_hash_at_height G height mg =
     bindR (bc_get G CANONICAL_HEIGHT_TO_HASH_COLUMN_NAME (canonical_height_key height) mg) (\<lambda>pinned.
     (case pinned of
        Some bytes \<Rightarrow> if length bytes \<noteq> 64 then Inl (StorageError ''Invalid canonical hash length'') else Inr (Some bytes)
      | None \<Rightarrow> Inr None))"

definition delete_canonical_hash_range :: "'db Engine \<Rightarrow> nat \<Rightarrow> nat \<Rightarrow> ('db RockDBManager, unit) sm" where
  "delete_canonical_hash_range G from_height to_height =
     (if from_height > to_height then returnS ()
      else
        bc_write G CANONICAL_HEIGHT_TO_HASH_COLUMN_NAME
          (map (\<lambda>h. DeleteOp CANONICAL_HEIGHT_TO_HASH_COLUMN_NAME (canonical_height_key h)) [from_height..<Suc to_height]))"

definition CANONICAL_TIP_VIEW_KEY :: "byte list" where
  "CANONICAL_TIP_VIEW_KEY = str_bytes (lit ''canonical_tip_view'')"

definition set_canonical_tip :: "'db Engine \<Rightarrow> hash \<Rightarrow> nat \<Rightarrow> ('db RockDBManager, unit) sm" where
  "set_canonical_tip G tip_hash tip_height =
     bindS (bc_write G CANONICAL_CHAIN_VIEW_COLUMN_NAME
              [PutOp CANONICAL_CHAIN_VIEW_COLUMN_NAME CANONICAL_TIP_VIEW_KEY
                 (tip_view_to_bytes \<lparr>tv_tip_hash = tip_hash, tv_tip_height = tip_height\<rparr>)]) (\<lambda>_.
     bindS (set_tip_height G tip_height) (\<lambda>_.
     set_latest_block_index G tip_height))"

definition get_canonical_tip :: "'db Engine \<Rightarrow> 'db RockDBManager \<Rightarrow> CanonicalTipView option result" where
  "get_canonical_tip G mg =
     bindR (bc_get G CANONICAL_CHAIN_VIEW_COLUMN_NAME CANONICAL_TIP_VIEW_KEY mg) (\<lambda>pinned.
     (case pinned of
        Some bytes \<Rightarrow> bindR (tip_view_from_bytes bytes) (\<lambda>v. Inr (Some v))
      | None \<Rightarrow> Inr None))"

definition get_canonical_tip_hash :: "'db Engine \<Rightarrow> 'db RockDBManager \<Rightarrow> hash option result" where
  "get_canonical_tip_hash G mg = bindR (get_canonical_tip G mg) (\<lambda>v. Inr (map_option tv_tip_hash v))"

definition get_canonical_tip_height :: "'db Engine \<Rightarrow> 'db RockDBManager \<Rightarrow> nat option result" where
  "get_canonical_tip_height G mg = bindR (get_canonical_tip G mg) (\<lambda>v. Inr (map_option tv_tip_height v))"

definition ingest_fork_block ::
    "'db Engine \<Rightarrow> BlockExt \<Rightarrow> hash \<Rightarrow> byte list \<Rightarrow> ForkBlockMeta \<Rightarrow> byte list option \<Rightarrow> ('db RockDBManager, unit) sm" where
  "ingest_fork_block G X block_hash block_bytes meta maybe_batch_bytes =
     bindS (index_block_by_hash G X block_hash block_bytes) (\<lambda>_.
     bindS (store_block_meta_by_hash G block_hash meta) (\<lambda>_.
     (case maybe_batch_bytes of
        Some batch_bytes \<Rightarrow> store_batch_by_block_hash G block_hash batch_bytes
      | None \<Rightarrow> returnS ())))"

definition promote_block_to_canonical :: "'db Engine \<Rightarrow> nat \<Rightarrow> hash \<Rightarrow> ('db RockDBManager, unit) sm" where
  "promote_block_to_canonical G height block_hash =
     bindS (set_canonical_hash_at_height G height block_hash) (\<lambda>_.
     bindS (set_block_meta_status G block_hash Canonical) (\<lambda>_.
     set_canonical_tip G block_hash height))"

fun ancestry_loop :: "'db Engine \<Rightarrow> nat \<Rightarrow> hash \<Rightarrow> 'db RockDBManager \<Rightarrow> hash list result" where
  "ancestry_loop G 0 current mg = Inr []"
| "ancestry_loop G (Suc n) current mg =
     bindR (get_block_meta_by_hash G current mg) (\<lambda>m.
     (case m of
        None \<Rightarrow> Inr [current]
      | Some meta \<Rightarrow>
          if list_all (\<lambda>b. b = 0) (fm_parent_hash meta) then Inr [current]
          else bindR (ancestry_loop G n (fm_parent_hash meta) mg) (\<lambda>rest. Inr (current # rest))))"

definition build_hash_ancestry_path :: "'db Engine \<Rightarrow> hash \<Rightarrow> nat \<Rightarrow> 'db RockDBManager \<Rightarrow> hash list result" where
  "build_hash_ancestry_path G start_hash max_depth mg = ancestry_loop G max_depth start_hash mg"

definition find_common_ancestor_hash ::
    "'db Engine \<Rightarrow> hash \<Rightarrow> hash \<Rightarrow> nat \<Rightarrow> 'db RockDBManager \<Rightarrow> hash option result" where
  "find_common_ancestor_hash G a_tip b_tip max_depth mg =
     bindR (build_hash_ancestry_path G a_tip max_depth mg) (\<lambda>a_path.
     bindR (build_hash_ancestry_path G b_tip max_depth mg) (\<lambda>b_path.
     Inr (find (\<lambda>a. a \<in> set b_path) a_path)))"

section \<open>What the code relies on\<close>

type_synonym kv_view = "string \<Rightarrow> byte list \<Rightarrow> byte list option"

fun apply_op :: "WriteOp \<Rightarrow> kv_view \<Rightarrow> kv_view" where
  "apply_op (PutOp cf k v) w = (\<lambda>c x. if c = cf \<and> x = k then Some v else w c x)"
| "apply_op (DeleteOp cf k) w = (\<lambda>c x. if c = cf \<and> x = k then None else w c x)"

text \<open>
  The documented behaviour of the engine, relative to the contents \<open>view db\<close> of a database: a read
  that succeeds returns the contents, a batch that succeeds is applied in order and in full, and a
  batch or flush that fails leaves the contents as they were.
\<close>

definition engine_ok :: "'db Engine \<Rightarrow> ('db \<Rightarrow> kv_view) \<Rightarrow> bool" where
  "engine_ok G view \<longleftrightarrow>
     (\<forall>db cf k r. en_get G db cf k = Inr r \<longrightarrow> r = view db cf k) \<and>
     (\<forall>db ops u db'. en_write G db ops = (Inr u, db') \<longrightarrow> view db' = fold apply_op ops (view db)) \<and>
     (\<forall>db ops e db'. en_write G db ops = (Inl e, db') \<longrightarrow> view db' = view db) \<and>
     (\<forall>db cf r db'. en_flush G db cf = (r, db') \<longrightarrow> view db' = view db)"

lemma engine_okD:
  assumes "engine_ok G view"
  shows "en_get G db cf k = Inr r \<Longrightarrow> r = view db cf k"
    and "en_write G db ops = (Inr u, db') \<Longrightarrow> view db' = fold apply_op ops (view db)"
    and "en_write G db ops = (Inl e, db') \<Longrightarrow> view db' = view db"
    and "en_flush G db cf = (r', db') \<Longrightarrow> view db' = view db"
  using assms unfolding engine_ok_def by blast+

text \<open>The contents of the blockchain database of a manager.\<close>

definition mview :: "('db \<Rightarrow> kv_view) \<Rightarrow> 'db RockDBManager \<Rightarrow> kv_view" where
  "mview view mg = (case mg_blockchain_handle mg of Some db \<Rightarrow> view db | None \<Rightarrow> (\<lambda>_ _. None))"

lemma open_Inr: "open_db_blockchain mg = Inr db \<longleftrightarrow> mg_blockchain_handle mg = Some db"
  by (simp add: open_db_blockchain_def res_simps)

lemma bc_get_view:
  assumes "engine_ok G view" and "bc_get G cf k mg = Inr r"
  shows "r = mview view mg cf k"
proof -
  obtain db where db: "mg_blockchain_handle mg = Some db" and r: "en_get G db cf k = Inr r"
    using assms(2) by (auto simp: bc_get_def res_simps open_Inr)
  show ?thesis using engine_okD(1) [OF assms(1) r] by (simp add: mview_def db)
qed

lemma bc_write_view:
  assumes "engine_ok G view" and "bc_write G cf ops mg = (Inr u, mg')"
  shows "mview view mg' = fold apply_op ops (mview view mg)"
proof -
  obtain db db' u' where db: "mg_blockchain_handle mg = Some db" and w: "en_write G db ops = (Inr u', db')"
    and mg': "mg' = mg\<lparr>mg_blockchain_handle := Some db'\<rparr>"
    using assms(2) by (auto simp: bc_write_def res_simps open_Inr split: sum.splits prod.splits)
  show ?thesis using engine_okD(2) [OF assms(1) w] by (simp add: mview_def db mg')
qed

lemma write_columns:
  assumes "engine_ok G view" and "en_write G db ops = (r, db')"
    and "\<forall>x\<in>set ops. (\<exists>k v. x = PutOp c k v) \<or> (\<exists>k. x = DeleteOp c k)" and "cf \<noteq> c"
  shows "view db' cf = view db cf"
proof (cases r)
  case (Inl e)
  then show ?thesis using engine_okD(3) [OF assms(1)] assms(2) by metis
next
  case (Inr u)
  have "fold apply_op ops w cf = w cf" for w
    using assms(3,4) by (induction ops arbitrary: w) fastforce+
  then show ?thesis using engine_okD(2) [OF assms(1)] assms(2) Inr by metis
qed

lemma bc_write_columns:
  assumes "engine_ok G view" and "bc_write G c ops mg = (r, mg')"
    and "\<forall>x\<in>set ops. (\<exists>k v. x = PutOp c k v) \<or> (\<exists>k. x = DeleteOp c k)" and "cf \<noteq> c"
  shows "mview view mg' cf = mview view mg cf"
proof (cases "mg_blockchain_handle mg")
  case None
  then show ?thesis using assms(2) by (auto simp: bc_write_def open_db_blockchain_def)
next
  case (Some db)
  show ?thesis
  proof (cases "column G db c")
    case (Inl e)
    then show ?thesis using assms(2) Some by (auto simp: bc_write_def open_db_blockchain_def)
  next
    case (Inr u)
    obtain w db' where w: "en_write G db ops = (w, db')" by (cases "en_write G db ops")
    have "mg' = mg\<lparr>mg_blockchain_handle := Some db'\<rparr>"
      using assms(2) Some Inr w by (auto simp: bc_write_def open_db_blockchain_def)
    then show ?thesis using write_columns [OF assms(1) w assms(3,4)] by (simp add: mview_def Some)
  qed
qed

lemma bc_flush_view:
  assumes "engine_ok G view" and "bc_flush G cf mg = (r, mg')"
  shows "mview view mg' = mview view mg"
proof (cases "mg_blockchain_handle mg")
  case None
  then show ?thesis using assms(2) by (auto simp: bc_flush_def open_db_blockchain_def)
next
  case (Some db)
  obtain w db' where w: "en_flush G db cf = (w, db')" by (cases "en_flush G db cf")
  have "mg' = mg\<lparr>mg_blockchain_handle := Some db'\<rparr>"
    using assms(2) Some w by (auto simp: bc_flush_def open_db_blockchain_def)
  then show ?thesis using engine_okD(4) [OF assms(1) w] by (simp add: mview_def Some)
qed

text \<open>An operation on the database of the mode keeps a column that the operation keeps.\<close>

lemma on_mode_db_columns:
  assumes "on_mode_db msg f mg = (r, mg')" and "\<And>db r db'. f db = (r, db') \<Longrightarrow> view db' cf = view db cf"
  shows "mview view mg' cf = mview view mg cf"
proof (cases "mg_mode mg")
  case CLI
  then show ?thesis
    using assms(1) by (auto simp: on_mode_db_def mview_def split: sum.splits prod.splits)
next
  case Blockchain
  show ?thesis
  proof (cases "mg_blockchain_handle mg")
    case None
    then show ?thesis using assms(1) Blockchain by (auto simp: on_mode_db_def open_db_blockchain_def)
  next
    case (Some db)
    obtain w db' where w: "f db = (w, db')" by (cases "f db")
    have "mg' = mg\<lparr>mg_blockchain_handle := Some db'\<rparr>"
      using assms(1) Some Blockchain w by (auto simp: on_mode_db_def open_db_blockchain_def)
    then show ?thesis using assms(2) [OF w] by (simp add: mview_def Some)
  qed
qed (use assms(1) in \<open>auto simp: on_mode_db_def\<close>)

lemma bindS_columns:
  assumes "bindS m f db = (r, db')"
    and "\<And>r db db'. m db = (r, db') \<Longrightarrow> view db' cf = view db cf"
    and "\<And>x r db db'. f x db = (r, db') \<Longrightarrow> view db' cf = view db cf"
  shows "view db' cf = view db cf"
proof -
  obtain r1 db1 where m: "m db = (r1, db1)" by (cases "m db")
  note k = assms(2) [OF m]
  show ?thesis
  proof (cases r1)
    case (Inl e)
    then show ?thesis using assms(1) m k by (simp add: bindS_def)
  next
    case (Inr x)
    then have "f x db1 = (r, db')" using assms(1) m by (simp add: bindS_def)
    from assms(3) [OF this] show ?thesis using k by simp
  qed
qed

lemma put_global_columns:
  assumes "engine_ok G view" and "cf \<noteq> GLOBAL_COLUMN_NAME" and "put_global G k v db = (r, db')"
  shows "view db' cf = view db cf"
  using assms(3) write_columns [OF assms(1) _ _ assms(2)]
  by (fastforce simp: put_global_def split: if_splits prod.splits)

lemma batch_records_columns:
  assumes "engine_ok G view" and "cf \<noteq> META_DATA_COLUMN_NAME"
  shows "batch_execute_records G db = (r, db') \<Longrightarrow> view db' cf = view db cf"
    and "store_batch_signature G k v db = (r, db') \<Longrightarrow> view db' cf = view db cf"
  using write_columns [OF assms(1) _ _ assms(2)]
  by (fastforce simp: batch_execute_records_def store_batch_signature_def Let_def split: if_splits prod.splits)+

lemma batch_process_all_columns:
  assumes "engine_ok G view" and "cf \<noteq> META_DATA_COLUMN_NAME" and "batch_process_all G mg = (r, mg')"
  shows "mview view mg' cf = mview view mg cf"
  using assms(3) [unfolded batch_process_all_def]
  by (elim on_mode_db_columns bindS_columns) (erule batch_records_columns [OF assms(1,2)])+

lemma tip_columns:
  assumes "engine_ok G view" and "cf \<noteq> GLOBAL_COLUMN_NAME"
  shows "set_tip_height G h mg = (r, mg') \<Longrightarrow> mview view mg' cf = mview view mg cf"
    and "set_latest_block_index G h mg = (r, mg') \<Longrightarrow> mview view mg' cf = mview view mg cf"
proof -
  show "set_tip_height G h mg = (r, mg') \<Longrightarrow> mview view mg' cf = mview view mg cf"
    unfolding set_tip_height_def by (erule on_mode_db_columns) (rule put_global_columns [OF assms])
  show "set_latest_block_index G h mg = (r, mg') \<Longrightarrow> mview view mg' cf = mview view mg cf"
    unfolding set_latest_block_index_def
    by (erule on_mode_db_columns, erule bindS_columns) (auto dest: put_global_columns [OF assms])
qed

section \<open>Fixed-width records\<close>

text \<open>What a record with a fixed-width encoding promises: values in range survive, and every accepted
  byte string is the encoding of the value it gives.\<close>

locale fixed_codec =
  fixes to_bytes :: "'a \<Rightarrow> byte list"
    and from_bytes :: "byte list \<Rightarrow> 'e + 'a"
    and width :: nat
    and in_range :: "'a \<Rightarrow> bool"
  assumes to_bytes_len: "in_range x \<Longrightarrow> length (to_bytes x) = width"
    and from_to: "in_range x \<Longrightarrow> from_bytes (to_bytes x) = Inr x"
    and to_from: "from_bytes b = Inr x \<Longrightarrow> in_range x \<and> to_bytes x = b"
begin

lemma accepts_iff: "from_bytes b = Inr x \<longleftrightarrow> in_range x \<and> b = to_bytes x"
  using from_to to_from by blast

lemma to_bytes_inj: "in_range x \<Longrightarrow> in_range y \<Longrightarrow> to_bytes x = to_bytes y \<Longrightarrow> x = y"
  using from_to by (metis sum.inject(2))

lemma accepted_len: "from_bytes b = Inr x \<Longrightarrow> length b = width"
  using to_from to_bytes_len by blast

end

definition fork_meta_in_range :: "ForkBlockMeta \<Rightarrow> bool" where
  "fork_meta_in_range m \<longleftrightarrow> length (fm_parent_hash m) = 64 \<and> fm_height m < 256 ^ 8 \<and>
     fm_cumulative_score m < 256 ^ 16 \<and> fm_received_at_unix_secs m < 256 ^ 8"

definition tip_view_in_range :: "CanonicalTipView \<Rightarrow> bool" where
  "tip_view_in_range v \<longleftrightarrow> length (tv_tip_hash v) = 64 \<and> tv_tip_height v < 256 ^ 8"

lemma status_roundtrip: "status_from_u8 (status_as_u8 s) = Inr s"
  by (cases s) (simp_all add: status_from_u8_def)

lemma status_from_Inr: "status_from_u8 v = Inr s \<Longrightarrow> status_as_u8 s = v"
  by (auto simp: status_from_u8_def split: if_splits)

lemma take_drop_split:
  "length b = 97 \<Longrightarrow>
   take 64 b @ take 8 (drop 64 b) @ take 16 (drop 72 b) @ [b ! 88] @ take 8 (drop 89 b) = b"
proof -
  assume l: "length b = 97"
  have a: "[b ! 88] @ take 8 (drop 89 b) = drop 88 b"
    using l Cons_nth_drop_Suc [of 88 b] by simp
  have "take 16 (drop 72 b) @ drop 88 b = drop 72 b"
    using append_take_drop_id [of 16 "drop 72 b"] by (simp only: drop_drop) simp
  moreover have "take 8 (drop 64 b) @ drop 72 b = drop 64 b"
    using append_take_drop_id [of 8 "drop 64 b"] by (simp only: drop_drop) simp
  ultimately show ?thesis using a by simp
qed

interpretation fork_meta_codec: fixed_codec fork_meta_to_bytes fork_meta_from_bytes 97 fork_meta_in_range
proof
  fix m assume r: "fork_meta_in_range m"
  then show len: "length (fork_meta_to_bytes m) = 97"
    by (simp add: fork_meta_to_bytes_def fork_meta_in_range_def)
  show "fork_meta_from_bytes (fork_meta_to_bytes m) = Inr m"
    using r len
    by (simp add: fork_meta_from_bytes_def fork_meta_in_range_def)
       (simp add: fork_meta_to_bytes_def nth_append status_roundtrip from_to_be_bytes)
next
  fix b m assume "fork_meta_from_bytes b = Inr m"
  then have l: "length b = 97" and s: "status_from_u8 (b ! 88) = Inr (fm_status m)"
    and m: "fm_parent_hash m = take 64 b" "fm_height m = from_be_bytes (take 8 (drop 64 b))"
      "fm_cumulative_score m = from_be_bytes (take 16 (drop 72 b))"
      "fm_received_at_unix_secs m = from_be_bytes (take 8 (drop 89 b))"
    by (auto simp: fork_meta_from_bytes_def res_simps split: if_splits)
  have "fork_meta_in_range m"
    using from_be_bytes_less [of "take 8 (drop 64 b)"] from_be_bytes_less [of "take 16 (drop 72 b)"]
      from_be_bytes_less [of "take 8 (drop 89 b)"] l
    by (simp add: fork_meta_in_range_def m)
  moreover have "fork_meta_to_bytes m = b"
    using take_drop_split [OF l] l
    by (simp add: fork_meta_to_bytes_def m status_from_Inr [OF s] to_from_be_bytes)
  ultimately show "fork_meta_in_range m \<and> fork_meta_to_bytes m = b" ..
qed

interpretation tip_view_codec: fixed_codec tip_view_to_bytes tip_view_from_bytes 72 tip_view_in_range
proof
  fix v assume r: "tip_view_in_range v"
  then show len: "length (tip_view_to_bytes v) = 72" by (simp add: tip_view_to_bytes_def tip_view_in_range_def)
  show "tip_view_from_bytes (tip_view_to_bytes v) = Inr v"
    using r len by (simp add: tip_view_from_bytes_def tip_view_in_range_def)
      (simp add: tip_view_to_bytes_def from_to_be_bytes)
next
  fix b v assume "tip_view_from_bytes b = Inr v"
  then have l: "length b = 72" and v: "tv_tip_hash v = take 64 b" "tv_tip_height v = from_be_bytes (take 8 (drop 64 b))"
    by (auto simp: tip_view_from_bytes_def split: if_splits)
  show "tip_view_in_range v \<and> tip_view_to_bytes v = b"
    using from_be_bytes_less [of "take 8 (drop 64 b)"] l
    by (simp add: tip_view_in_range_def tip_view_to_bytes_def v to_from_be_bytes)
qed

section \<open>Frames\<close>

text \<open>\<open>keeps view cf m\<close>: the operation \<open>m\<close> leaves column \<open>cf\<close> of the blockchain database as it
  was, whatever its outcome.\<close>

abbreviation keeps :: "('db \<Rightarrow> kv_view) \<Rightarrow> string \<Rightarrow> ('db RockDBManager, 'a) sm \<Rightarrow> bool" where
  "keeps view cf m \<equiv> preserves (\<lambda>mg. mview view mg cf) m"

lemmas keeps_def = preserves_def [where f = "\<lambda>mg. mview view mg cf" for view cf]

lemma keepsD: "keeps view cf m \<Longrightarrow> m mg = (r, mg') \<Longrightarrow> mview view mg' cf = mview view mg cf"
  by (rule preservesD)

lemma keeps_put [frames]: "engine_ok G view \<Longrightarrow> cf \<noteq> c \<Longrightarrow> keeps view cf (bc_write G c [PutOp c k v])"
  unfolding keeps_def using bc_write_columns [of G view c "[PutOp c k v]"] by auto

lemma keeps_delete [frames]:
  "engine_ok G view \<Longrightarrow> cf \<noteq> c \<Longrightarrow> keeps view cf (bc_write G c (map (\<lambda>h. DeleteOp c (k h)) hs))"
  unfolding keeps_def using bc_write_columns [of G view c "map (\<lambda>h. DeleteOp c (k h)) hs"] by auto

lemma keeps_flush [frames]: "engine_ok G view \<Longrightarrow> keeps view cf (bc_flush G c)"
  unfolding keeps_def by (simp add: bc_flush_view)

lemma keeps_batch_process_all [frames]:
  "engine_ok G view \<Longrightarrow> cf \<noteq> META_DATA_COLUMN_NAME \<Longrightarrow> keeps view cf (batch_process_all G)"
  unfolding keeps_def by (auto dest: batch_process_all_columns)

lemma keeps_tips [frames]:
  "engine_ok G view \<Longrightarrow> cf \<noteq> GLOBAL_COLUMN_NAME \<Longrightarrow> keeps view cf (set_tip_height G h)"
  "engine_ok G view \<Longrightarrow> cf \<noteq> GLOBAL_COLUMN_NAME \<Longrightarrow> keeps view cf (set_latest_block_index G h)"
  unfolding keeps_def by (auto dest: tip_columns)

lemma keeps_writers [frames]:
  assumes "engine_ok G view"
  shows "cf \<noteq> BLOCK_TO_HASH_COLUMN_NAME \<Longrightarrow> keeps view cf (index_block_by_hash G X h b)"
    and "cf \<noteq> BLOCK_META_BY_HASH_COLUMN_NAME \<Longrightarrow> keeps view cf (store_block_meta_by_hash G h m)"
    and "cf \<noteq> BLOCK_META_BY_HASH_COLUMN_NAME \<Longrightarrow> keeps view cf (set_block_meta_status G h s)"
    and "cf \<noteq> BATCH_BY_BLOCK_HASH_COLUMN_NAME \<Longrightarrow> keeps view cf (store_batch_by_block_hash G h b)"
    and "cf \<noteq> CANONICAL_HEIGHT_TO_HASH_COLUMN_NAME \<Longrightarrow> keeps view cf (set_canonical_hash_at_height G i h)"
    and "cf \<noteq> CANONICAL_HEIGHT_TO_HASH_COLUMN_NAME \<Longrightarrow> keeps view cf (delete_canonical_hash_range G i j)"
    and "cf \<noteq> TRANSACTION_BATCH_COLUMN_NAME \<Longrightarrow> keeps view cf (store_batch_bytes G i b)"
    and "cf \<noteq> BLOCKMINT_DATA_COLUMN_NAME \<Longrightarrow> cf \<noteq> META_DATA_COLUMN_NAME \<Longrightarrow> keeps view cf (store_latest_block G b i)"
    and "cf \<noteq> CANONICAL_CHAIN_VIEW_COLUMN_NAME \<Longrightarrow> cf \<noteq> GLOBAL_COLUMN_NAME \<Longrightarrow> keeps view cf (set_canonical_tip G h i)"
  unfolding index_block_by_hash_def store_block_meta_by_hash_def set_block_meta_status_def
    store_batch_by_block_hash_def set_canonical_hash_at_height_def delete_canonical_hash_range_def
    store_batch_bytes_def store_latest_block_def set_canonical_tip_def
  using assms by (auto intro!: frames simp del: upt_Suc)

lemma column_names_distinct:
  "distinct [META_DATA_COLUMN_NAME, GLOBAL_COLUMN_NAME, TRANSACTION_BATCH_COLUMN_NAME, BLOCKMINT_DATA_COLUMN_NAME,
     BLOCK_TO_HASH_COLUMN_NAME, BLOCK_META_BY_HASH_COLUMN_NAME, BATCH_BY_BLOCK_HASH_COLUMN_NAME,
     CANONICAL_HEIGHT_TO_HASH_COLUMN_NAME, CANONICAL_CHAIN_VIEW_COLUMN_NAME]"
  by (simp add: column_defs)

lemmas columns_differ [simp] =
  column_names_distinct [simplified distinct.simps list.set insert_iff empty_iff simp_thms de_Morgan_disj]
  column_names_distinct [THEN iffD2 [OF distinct_rev],
    simplified rev.simps append.simps distinct.simps list.set insert_iff empty_iff simp_thms de_Morgan_disj]

section \<open>Effects\<close>

text \<open>What the columns hold, read as the fork graph and the canonical chain.\<close>

definition canon :: "('db \<Rightarrow> kv_view) \<Rightarrow> 'db RockDBManager \<Rightarrow> nat \<Rightarrow> hash option" where
  "canon view mg h = mview view mg CANONICAL_HEIGHT_TO_HASH_COLUMN_NAME (canonical_height_key h)"

definition tip_bytes :: "('db \<Rightarrow> kv_view) \<Rightarrow> 'db RockDBManager \<Rightarrow> byte list option" where
  "tip_bytes view mg = mview view mg CANONICAL_CHAIN_VIEW_COLUMN_NAME CANONICAL_TIP_VIEW_KEY"

lemma canonical_height_key_inj:
  "h < 256 ^ 8 \<Longrightarrow> h' < 256 ^ 8 \<Longrightarrow> canonical_height_key h = canonical_height_key h' \<longleftrightarrow> h = h'"
  unfolding canonical_height_key_def by (metis from_to_be_bytes)

lemma put_view:
  assumes "engine_ok G view" and "bc_write G c [PutOp c k v] mg = (Inr u, mg')"
  shows "mview view mg' = (\<lambda>c' k'. if c' = c \<and> k' = k then Some v else mview view mg c' k')"
  using bc_write_view [OF assms] by simp

lemma fold_deletes:
  "fold apply_op (map (\<lambda>h. DeleteOp c (k h)) hs) w =
     (\<lambda>c' k'. if c' = c \<and> k' \<in> k ` set hs then None else w c' k')"
  by (induction hs arbitrary: w) (auto simp: fun_eq_iff)

lemma set_canonical_hash_canon:
  assumes "engine_ok G view" and "set_canonical_hash_at_height G i h mg = (Inr u, mg')"
    and "i < 256 ^ 8" and "j < 256 ^ 8"
  shows "canon view mg' j = (if j = i then Some h else canon view mg j)"
  using put_view [OF assms(1) assms(2) [unfolded set_canonical_hash_at_height_def]]
    canonical_height_key_inj [OF assms(4,3)]
  by (simp add: canon_def)

lemma delete_range_canon:
  assumes "engine_ok G view" and "delete_canonical_hash_range G i j mg = (Inr u, mg')"
    and "j < 256 ^ 8" and "h < 256 ^ 8"
  shows "canon view mg' h = (if i \<le> h \<and> h \<le> j then None else canon view mg h)"
proof (cases "i \<le> j")
  case True
  have w: "mview view mg' = fold apply_op (map (\<lambda>h. DeleteOp CANONICAL_HEIGHT_TO_HASH_COLUMN_NAME
      (canonical_height_key h)) [i..<Suc j]) (mview view mg)"
    using bc_write_view [OF assms(1)] assms(2) True by (simp add: delete_canonical_hash_range_def del: upt_Suc)
  have "canonical_height_key h \<in> canonical_height_key ` set [i..<Suc j] \<longleftrightarrow> i \<le> h \<and> h \<le> j"
  proof
    assume "canonical_height_key h \<in> canonical_height_key ` set [i..<Suc j]"
    then obtain x where x: "x \<in> set [i..<Suc j]" "canonical_height_key h = canonical_height_key x" by blast
    then have "x \<le> j" by auto
    then have "x < 256 ^ 8" using assms(3) by (rule le_less_trans)
    then have "h = x" using canonical_height_key_inj [OF assms(4)] x(2) by blast
    then show "i \<le> h \<and> h \<le> j" using x(1) by auto
  qed (simp del: upt_Suc)
  then show ?thesis by (simp only: canon_def w fold_deletes) simp
next
  case False
  then show ?thesis using assms(2) by (auto simp: delete_canonical_hash_range_def res_simps)
qed

lemma set_canonical_tip_bytes:
  assumes "engine_ok G view" and "set_canonical_tip G h i mg = (Inr u, mg')"
  shows "tip_bytes view mg' = Some (tip_view_to_bytes \<lparr>tv_tip_hash = h, tv_tip_height = i\<rparr>)"
proof -
  obtain v m1 v' m2 where 1: "bc_write G CANONICAL_CHAIN_VIEW_COLUMN_NAME
        [PutOp CANONICAL_CHAIN_VIEW_COLUMN_NAME CANONICAL_TIP_VIEW_KEY
           (tip_view_to_bytes \<lparr>tv_tip_hash = h, tv_tip_height = i\<rparr>)] mg = (Inr v, m1)"
    and 2: "set_tip_height G i m1 = (Inr v', m2)" and 3: "set_latest_block_index G i m2 = (Inr u, mg')"
    using assms(2) by (auto simp: set_canonical_tip_def res_simps)
  have ne: "CANONICAL_CHAIN_VIEW_COLUMN_NAME \<noteq> GLOBAL_COLUMN_NAME" by simp
  show ?thesis
    using put_view [OF assms(1) 1] keepsD [OF keeps_tips(1) [OF assms(1) ne] 2]
      keepsD [OF keeps_tips(2) [OF assms(1) ne] 3]
    by (simp add: tip_bytes_def)
qed

text \<open>The metadata records of the fork graph.\<close>

definition meta_at :: "('db \<Rightarrow> kv_view) \<Rightarrow> 'db RockDBManager \<Rightarrow> hash \<Rightarrow> ForkBlockMeta option" where
  "meta_at view mg h =
     (case mview view mg BLOCK_META_BY_HASH_COLUMN_NAME h of
        Some b \<Rightarrow> (case fork_meta_from_bytes b of Inr m \<Rightarrow> Some m | Inl _ \<Rightarrow> None)
      | None \<Rightarrow> None)"

lemma get_meta_at:
  assumes "engine_ok G view" and "get_block_meta_by_hash G h mg = Inr r"
  shows "r = meta_at view mg h"
  using assms(2) bc_get_view [OF assms(1)]
  by (auto simp: get_block_meta_by_hash_def res_simps meta_at_def split: option.splits)

lemma store_meta_at:
  assumes "engine_ok G view" and "store_block_meta_by_hash G h m mg = (Inr u, mg')" and "fork_meta_in_range m"
  shows "meta_at view mg' = (meta_at view mg)(h \<mapsto> m)"
  using put_view [OF assms(1) assms(2) [unfolded store_block_meta_by_hash_def]] assms(3)
  by (auto simp: meta_at_def fun_eq_iff fork_meta_codec.from_to)

lemma meta_at_in_range: "meta_at view mg h = Some m \<Longrightarrow> fork_meta_in_range m"
  by (auto simp: meta_at_def fork_meta_codec.accepts_iff split: option.splits sum.splits)

lemma set_status_meta_at:
  assumes "engine_ok G view" and "set_block_meta_status G h s mg = (Inr u, mg')"
  shows "\<exists>m. meta_at view mg h = Some m \<and> meta_at view mg' = (meta_at view mg)(h \<mapsto> m\<lparr>fm_status := s\<rparr>)"
proof -
  obtain m where m: "get_block_meta_by_hash G h mg = Inr (Some m)"
    and w: "store_block_meta_by_hash G h (m\<lparr>fm_status := s\<rparr>) mg = (Inr u, mg')"
    using assms(2) by (auto simp: set_block_meta_status_def res_simps)
  note a = get_meta_at [OF assms(1) m]
  have "fork_meta_in_range (m\<lparr>fm_status := s\<rparr>)" using meta_at_in_range [OF a [symmetric]]
    by (simp add: fork_meta_in_range_def)
  from store_meta_at [OF assms(1) w this] show ?thesis using a [symmetric] by blast
qed

text \<open>A change of status is invisible in the rest of the fork graph, also when it fails.\<close>

definition skeleton :: "('db \<Rightarrow> kv_view) \<Rightarrow> 'db RockDBManager \<Rightarrow> hash \<Rightarrow> ForkBlockMeta option" where
  "skeleton view mg h = map_option (fm_status_update (\<lambda>_. HeaderOnly)) (meta_at view mg h)"

lemma bc_write_fail:
  assumes "engine_ok G view" and "bc_write G cf ops mg = (Inl e, mg')"
  shows "mview view mg' = mview view mg"
proof (cases "mg_blockchain_handle mg")
  case None
  then show ?thesis using assms(2) by (simp add: bc_write_def open_db_blockchain_def)
next
  case (Some db)
  obtain w db' where w: "en_write G db ops = (w, db')" by (cases "en_write G db ops")
  show ?thesis
    using assms(2) engine_okD(3) [OF assms(1), of db ops _ db'] w Some
    by (cases w; cases "column G db cf") (auto simp: bc_write_def open_db_blockchain_def mview_def)
qed

lemma preserves_skeleton [frames]:
  "keeps view BLOCK_META_BY_HASH_COLUMN_NAME m \<Longrightarrow> preserves (skeleton view) m"
  unfolding preserves_def by (auto simp: skeleton_def meta_at_def fun_eq_iff)

lemma set_status_skeleton [frames]:
  assumes "engine_ok G view"
  shows "preserves (skeleton view) (set_block_meta_status G h s)"
  unfolding preserves_def
proof (intro allI impI)
  fix mg r mg' assume e: "set_block_meta_status G h s mg = (r, mg')"
  show "skeleton view mg' = skeleton view mg"
  proof (cases r)
    case (Inr u)
    obtain m where "meta_at view mg h = Some m" "meta_at view mg' = (meta_at view mg)(h \<mapsto> m\<lparr>fm_status := s\<rparr>)"
      using set_status_meta_at [OF assms e [unfolded Inr]] by blast
    then show ?thesis by (auto simp: skeleton_def fun_eq_iff)
  next
    case (Inl x)
    have "mview view mg' = mview view mg"
      using e Inl bc_write_fail [OF assms]
      by (auto simp: set_block_meta_status_def bindS_def readS_def store_block_meta_by_hash_def split: sum.splits)
    then show ?thesis by (simp add: fun_eq_iff skeleton_def meta_at_def)
  qed
qed

end
