(* ===== verification/StorageProps.thy ===== *)
theory StorageProps
  imports Storage
begin

text \<open>
  Properties of the storage layer: the record codecs, promotion of a block to the canonical chain, and
  the search for a common ancestor. The witnesses use an engine that keeps its database as an
  association list.
\<close>

section \<open>Keys of heights\<close>

lemma str_bytes_ascii_inj:
  assumes "is_ascii s" and "is_ascii t" and "str_bytes s = str_bytes t"
  shows "s = t"
proof -
  have u: "map unat (map word_of_nat x :: byte list) = x" if "is_ascii x" for x
    using that by (induction x) (auto simp: unat_of_nat)
  show ?thesis using arg_cong [OF assms(3), of "map unat"] u assms(1,2) by (simp only: as_bytes_ascii)
qed

lemma tx_batch_key_inj [simp]: "tx_batch_key i = tx_batch_key j \<longleftrightarrow> i = j"
proof
  assume "tx_batch_key i = tx_batch_key j"
  moreover have a: "is_ascii (lit ''tx_batch_'' @ decimal_padded 10 h)" for h
    using digits_ascii [OF decimal_padded_digits [of 10 h]] by simp
  ultimately have "lit ''tx_batch_'' @ decimal_padded 10 i = lit ''tx_batch_'' @ decimal_padded 10 j"
    unfolding tx_batch_key_def by (intro str_bytes_ascii_inj [OF a a])
  then show "i = j" using decimal_padded_val by (metis same_append_eq)
qed simp

lemma block_key_inj [simp]: "block_key i = block_key j \<longleftrightarrow> i = j"
proof
  assume "block_key i = block_key j"
  moreover have a: "is_ascii (lit ''block_'' @ decimal_padded 10 h)" for h
    using digits_ascii [OF decimal_padded_digits [of 10 h]] by simp
  ultimately have "lit ''block_'' @ decimal_padded 10 i = lit ''block_'' @ decimal_padded 10 j"
    unfolding block_key_def by (intro str_bytes_ascii_inj [OF a a])
  then show "i = j" using decimal_padded_val by (metis same_append_eq)
qed simp

section \<open>Generic access by column\<close>

lemma mg_write_frames [frames]:
  assumes ok: "engine_ok G view" and c: "cf \<noteq> META_DATA_COLUMN_NAME" "cf \<noteq> col"
  shows "keeps view cf (mg_write G col k v)"
proof -
  have w: "view db' cf = view db cf" if "change_column G col [PutOp col k v] msg db = (r, db')" for msg db r db'
    using that write_columns [OF ok, of db "[PutOp col k v]" _ db' col cf] c(2)
    by (auto simp: change_column_def split: sum.splits prod.splits)
  have m: "keeps view cf (on_mode_db [] (change_column G col [PutOp col k v] msg))" for msg
    unfolding preserves_def using on_mode_db_columns [of "[]" _ _ _ _ view cf] w by blast
  have b: "keeps view cf (bindS (batch_process_all G) (\<lambda>_. on_mode_db [] (change_column G col [PutOp col k v] msg)))" for msg
    using ok c(1) m by (intro frames)
  show ?thesis
    unfolding preserves_def mg_write_def
  proof (intro allI impI)
    fix mg r mg'
    let ?msg = "''Failed to write to RocksDB''"
    assume h: "(if mg_mode mg = CLI \<or> mg_mode mg = Blockchain then
        bindS (batch_process_all G) (\<lambda>_. on_mode_db [] (change_column G col [PutOp col k v] ?msg)) mg
      else if mg_mode mg = AccountModel then
        (if \<not> accountmodel_write_column_allowed col
           then (Inl (StorageError ''AccountModel write is only allowed for the state and account columns''), mg)
         else (case open_db_accountmodel mg of Inl e \<Rightarrow> (Inl e, mg)
           | Inr db \<Rightarrow> (case change_column G col [PutOp col k v] ?msg db of
                  (r, db') \<Rightarrow> (r, mg\<lparr>mg_blockchain_handle := Some db'\<rparr>))))
      else (Inl (StorageError ''Generic write is only allowed in CLI, Blockchain, or AccountModel modes.''), mg)) = (r, mg')"
    show "mview view mg' cf = mview view mg cf"
      using h keepsD [OF b] w
      by (auto simp: mview_def open_db_accountmodel_def ok_or_def split: if_splits sum.splits prod.splits option.splits)
  qed
qed

text \<open>A successful write of a manager that keeps its own database puts the value.\<close>

definition chain_mode :: "'db RockDBManager \<Rightarrow> bool" where
  "chain_mode mg \<longleftrightarrow> mg_mode mg = Blockchain \<or> mg_mode mg = AccountModel"

lemma mode_frames [frames]:
  "preserves mg_mode (batch_process_all G)" "preserves mg_mode (mg_write G col k v)"
  "preserves mg_mode (bc_write G col ops)" "preserves mg_mode (bc_flush G col)"
proof -
  have o: "preserves mg_mode (on_mode_db msg f)" for msg and f :: "('a, unit) sm"
    by (auto simp: preserves_def on_mode_db_def split: Mode.splits sum.splits prod.splits)
  show b: "preserves mg_mode (batch_process_all G)" unfolding batch_process_all_def by (rule o)
  have "preserves mg_mode (bindS (batch_process_all G) (\<lambda>_. on_mode_db [] (change_column G col [PutOp col k v] msg)))" for msg
    by (intro frames b o)
  from preservesD [OF this] show "preserves mg_mode (mg_write G col k v)"
    by (auto simp: preserves_def mg_write_def split: if_splits sum.splits prod.splits)
qed (auto simp: preserves_def bc_write_def bc_flush_def split: sum.splits prod.splits)

lemma mg_write_put:
  assumes ok: "engine_ok G view" and m: "chain_mode mg" and c: "col \<noteq> META_DATA_COLUMN_NAME"
    and w: "mg_write G col k v mg = (Inr u, mg')"
  shows "mview view mg' col k' = (if k' = k then Some v else mview view mg col k')"
proof (cases "mg_mode mg = Blockchain")
  case True
  then obtain u1 m1 where 1: "batch_process_all G mg = (Inr u1, m1)"
    and 2: "on_mode_db [] (change_column G col [PutOp col k v] ''Failed to write to RocksDB'') m1 = (Inr u, mg')"
    using w by (auto simp: mg_write_def res_simps)
  have "mg_mode m1 = Blockchain" using preservesD [OF mode_frames(1) 1] True by simp
  then obtain db db' u2 where db: "mg_blockchain_handle m1 = Some db" "mg' = m1\<lparr>mg_blockchain_handle := Some db'\<rparr>"
    and e: "en_write G db [PutOp col k v] = (Inr u2, db')"
    using 2 by (auto simp: on_mode_db_def change_column_def open_db_blockchain_def ok_or_def map_err_def
        split: sum.splits prod.splits option.splits)
  have "mview view m1 col = mview view mg col" by (rule batch_process_all_columns [OF ok c 1])
  then show ?thesis using engine_okD(2) [OF ok e] by (simp add: mview_def db)
next
  case False
  then obtain db db' u2 where db: "mg_blockchain_handle mg = Some db" "mg' = mg\<lparr>mg_blockchain_handle := Some db'\<rparr>"
    and e: "en_write G db [PutOp col k v] = (Inr u2, db')"
    using m w by (auto simp: chain_mode_def mg_write_def change_column_def open_db_accountmodel_def ok_or_def map_err_def
        split: if_splits sum.splits prod.splits option.splits)
  then show ?thesis using engine_okD(2) [OF ok e] by (simp add: mview_def db)
qed

lemma mg_read_view:
  assumes ok: "engine_ok G view" and m: "chain_mode mg" and r: "mg_read G col k mg = Inr v"
  shows "v = mview view mg col k"
proof -
  obtain db where "mg_blockchain_handle mg = Some db" "en_get G db col k = Inr v"
    using m r by (auto simp: mg_read_def chain_mode_def res_simps open_db_blockchain_def open_db_accountmodel_def)
  then show ?thesis using engine_okD(1) [OF ok] by (simp add: mview_def)
qed

section \<open>An engine in memory\<close>

type_synonym mem_db = "((string \<times> byte list) \<times> byte list) list"

fun mem_apply :: "WriteOp \<Rightarrow> mem_db \<Rightarrow> mem_db" where
  "mem_apply (PutOp cf k v) db = ((cf, k), v) # db"
| "mem_apply (DeleteOp cf k) db = filter (\<lambda>e. fst e \<noteq> (cf, k)) db"

definition mem_engine :: "mem_db Engine" where
  "mem_engine =
     \<lparr>en_cf = \<lambda>_ _. True, en_get = \<lambda>db cf k. Inr (map_of db (cf, k)),
      en_write = \<lambda>db ops. (Inr (), fold mem_apply ops db),
      en_scan = \<lambda>db cf. [], en_flush = \<lambda>db cf. (Inr (), db)\<rparr>"

definition mem_view :: "mem_db \<Rightarrow> kv_view" where
  "mem_view db = (\<lambda>cf k. map_of db (cf, k))"

lemma map_of_filter_ne: "map_of (filter (\<lambda>e. fst e \<noteq> x) db) y = (if y = x then None else map_of db y)"
  by (induction db) auto

lemma mem_apply_view: "mem_view (mem_apply x db) = apply_op x (mem_view db)"
  by (cases x) (auto simp: mem_view_def fun_eq_iff map_of_filter_ne)

lemma mem_engine_ok: "engine_ok mem_engine mem_view"
proof -
  have "mem_view (fold mem_apply ops db) = fold apply_op ops (mem_view db)" for ops db
    by (induction ops arbitrary: db) (simp_all add: mem_apply_view)
  then show ?thesis by (simp add: engine_ok_def mem_engine_def) (simp add: mem_view_def)
qed

definition mem_manager :: "mem_db \<Rightarrow> mem_db RockDBManager" where
  "mem_manager db = \<lparr>mg_mode = Blockchain, mg_blockchain_handle = Some db, mg_cli = Inl (DatabaseError []),
     mg_log = Inl (DatabaseError [])\<rparr>"

lemma mem_ops [simp]:
  "bc_get mem_engine cf k (mem_manager db) = Inr (map_of db (cf, k))"
  "bc_write mem_engine cf ops (mem_manager db) = (Inr (), mem_manager (fold mem_apply ops db))"
  "bc_flush mem_engine cf (mem_manager db) = (Inr (), mem_manager db)"
  "on_mode_db msg f (mem_manager db) = (case f db of (r, db') \<Rightarrow> (r, mem_manager db'))"
  "put_global mem_engine k v db = (Inr (), ((GLOBAL_COLUMN_NAME, k), v) # db)"
  by (simp_all add: bc_get_def bc_write_def bc_flush_def on_mode_db_def put_global_def mem_manager_def
      open_db_blockchain_def column_def mem_engine_def ok_or_def map_err_def)

definition mem_marked :: "mem_db \<Rightarrow> mem_db" where
  "mem_marked db = ((META_DATA_COLUMN_NAME, str_bytes (lit ''placeholder_key'')), str_bytes (lit ''placeholder_sig'')) # db"

lemma mem_writes [simp]:
  "batch_process_all mem_engine (mem_manager db) = (Inr (), mem_manager (mem_marked db))"
  "mg_write mem_engine col k v (mem_manager db) = (Inr (), mem_manager (((col, k), v) # mem_marked db))"
proof -
  show b: "batch_process_all mem_engine (mem_manager db) = (Inr (), mem_manager (mem_marked db))" for db
    by (simp add: batch_process_all_def bindS_def batch_execute_records_def store_batch_signature_def mem_engine_def Let_def mem_marked_def)
  have m: "mg_mode (mem_manager d) = Blockchain" for d by (simp add: mem_manager_def)
  show "mg_write mem_engine col k v (mem_manager db) = (Inr (), mem_manager (((col, k), v) # mem_marked db))"
    using b by (simp add: mg_write_def m bindS_def change_column_def column_def) (simp add: mem_engine_def)
qed

lemma mem_tips [simp]:
  "set_tip_height mem_engine h (mem_manager db) =
     (Inr (), mem_manager (((GLOBAL_COLUMN_NAME, tip_height_key), to_be_bytes 8 h) # db))"
  "set_latest_block_index mem_engine h (mem_manager db) =
     (Inr (), mem_manager (((GLOBAL_COLUMN_NAME, tip_height_key), to_be_bytes 8 h) #
        ((GLOBAL_COLUMN_NAME, latest_block_index_key), to_be_bytes 8 h) # db))"
  by (simp_all add: set_tip_height_def set_latest_block_index_def bindS_def)

section \<open>Records\<close>

text \<open>The strict codec of fork metadata: \<open>ForkBlockMeta::from_bytes\<close> accepts a byte string exactly
  when it is the 97-byte encoding of a record whose fields fit their widths, and gives that record back;
  so a stored record reads back as itself and no two byte strings read as the same record.\<close>

theorem fork_meta_strict:
  "fork_meta_from_bytes b = Inr m \<longleftrightarrow> fork_meta_in_range m \<and> b = fork_meta_to_bytes m"
  by (rule fork_meta_codec.accepts_iff)

section \<open>Promotion\<close>

lemma promote_steps:
  assumes "promote_block_to_canonical G i h mg = (Inr u, mg')"
  shows "\<exists>m1 m2. set_canonical_hash_at_height G i h mg = (Inr (), m1) \<and>
    set_block_meta_status G h Canonical m1 = (Inr (), m2) \<and> set_canonical_tip G h i m2 = (Inr u, mg')"
  using assms by (auto simp: promote_block_to_canonical_def res_simps)

lemma keeps_canon: "keeps view CANONICAL_HEIGHT_TO_HASH_COLUMN_NAME m \<Longrightarrow> m mg = (r, mg') \<Longrightarrow> canon view mg' = canon view mg"
  by (auto simp: canon_def fun_eq_iff dest: keepsD)

lemma keeps_meta: "keeps view BLOCK_META_BY_HASH_COLUMN_NAME m \<Longrightarrow> m mg = (r, mg') \<Longrightarrow> meta_at view mg' = meta_at view mg"
  by (auto simp: meta_at_def fun_eq_iff dest: keepsD)

text \<open>Promotion of a block: when \<open>promote_block_to_canonical\<close> returns Ok, the block had fork
  metadata, which now has status Canonical and is otherwise unchanged, as is the metadata of every other
  block; the slot of its height holds its hash and all other slots are unchanged; and the canonical tip
  that is read back is this block at this height.\<close>

theorem promotion_effect:
  assumes "engine_ok G view" and "promote_block_to_canonical G i h mg = (Inr u, mg')"
    and "i < 256 ^ 8" and "length h = 64"
  shows "(\<exists>m. meta_at view mg h = Some m \<and> meta_at view mg' = (meta_at view mg)(h \<mapsto> m\<lparr>fm_status := Canonical\<rparr>)) \<and>
    (\<forall>j. j < 256 ^ 8 \<longrightarrow> canon view mg' j = (if j = i then Some h else canon view mg j)) \<and>
    (\<forall>r. get_canonical_tip G mg' = Inr r \<longrightarrow> r = Some \<lparr>tv_tip_hash = h, tv_tip_height = i\<rparr>)"
proof -
  obtain m1 m2 where 1: "set_canonical_hash_at_height G i h mg = (Inr (), m1)"
    and 2: "set_block_meta_status G h Canonical m1 = (Inr (), m2)" and 3: "set_canonical_tip G h i m2 = (Inr u, mg')"
    using promote_steps [OF assms(2)] by blast
  have m: "meta_at view m1 = meta_at view mg" "meta_at view mg' = meta_at view m2"
    using keeps_meta [OF keeps_writers(5) [OF assms(1)] 1] keeps_meta [OF keeps_writers(9) [OF assms(1)] 3]
    by simp_all
  have c: "canon view mg' = canon view m1"
    using keeps_canon [OF keeps_writers(3) [OF assms(1)] 2] keeps_canon [OF keeps_writers(9) [OF assms(1)] 3]
    by simp
  have t: "tip_view_in_range \<lparr>tv_tip_hash = h, tv_tip_height = i\<rparr>" using assms(3,4) by (simp add: tip_view_in_range_def)
  have "r = Some \<lparr>tv_tip_hash = h, tv_tip_height = i\<rparr>" if "get_canonical_tip G mg' = Inr r" for r
    using that bc_get_view [OF assms(1)] set_canonical_tip_bytes [OF assms(1) 3] tip_view_codec.from_to [OF t]
    by (auto simp: get_canonical_tip_def res_simps tip_bytes_def split: option.splits)
  then show ?thesis
    using set_status_meta_at [OF assms(1) 2] set_canonical_hash_canon [OF assms(1) 1 assms(3)] by (simp add: m c)
qed

definition sample_graph :: "(byte \<times> ForkBlockMeta) list" where
  "sample_graph =
     map (\<lambda>(h, p, i, score). (h, \<lparr>fm_parent_hash = replicate 64 p, fm_height = i, fm_cumulative_score = score,
           fm_status = Validated, fm_received_at_unix_secs = 0\<rparr>))
       [(1, 0, 0, 9), (2, 1, 1, 1), (3, 1, 1, 1), (4, 3, 2, 2)]"

definition sample_fork :: mem_db where
  "sample_fork = map (\<lambda>(h, m). ((BLOCK_META_BY_HASH_COLUMN_NAME, replicate 64 h), fork_meta_to_bytes m)) sample_graph"

lemma sample_fork_meta: "map_of sample_fork (BLOCK_META_BY_HASH_COLUMN_NAME, replicate 64 h) = map_option fork_meta_to_bytes (map_of sample_graph h)"
  by (simp add: sample_fork_def sample_graph_def)

lemma sample_fork_key: "map_of sample_fork (c, x) \<noteq> None \<Longrightarrow> c = BLOCK_META_BY_HASH_COLUMN_NAME \<and> (\<exists>h. x = replicate 64 h)"
  by (auto simp: sample_fork_def sample_graph_def split: if_splits)

lemma sample_meta_codec: "map_of sample_graph h = Some m \<Longrightarrow> fork_meta_from_bytes (fork_meta_to_bytes m) = Inr m"
  by (rule fork_meta_codec.from_to) (auto simp: sample_graph_def fork_meta_in_range_def split: if_splits)

lemma sample_meta_read:
  assumes "\<And>x. map_of db (BLOCK_META_BY_HASH_COLUMN_NAME, x) = map_of sample_fork (BLOCK_META_BY_HASH_COLUMN_NAME, x)"
  shows "get_block_meta_by_hash mem_engine (replicate 64 h) (mem_manager db) = Inr (map_of sample_graph h)"
  by (cases "map_of sample_graph h") (simp_all add: get_block_meta_by_hash_def assms sample_fork_meta sample_meta_codec)

theorem promotion_effect_witness:
  "\<exists>mg'. promote_block_to_canonical mem_engine 1 (replicate 64 2) (mem_manager sample_fork) = (Inr (), mg') \<and>
     canon mem_view mg' 1 = Some (replicate 64 2) \<and> canon mem_view mg' 0 = None"
proof -
  obtain mg' where p: "promote_block_to_canonical mem_engine 1 (replicate 64 2) (mem_manager sample_fork) = (Inr (), mg')"
  proof (rule that)
    show "promote_block_to_canonical mem_engine 1 (replicate 64 2) (mem_manager sample_fork) =
        (Inr (), snd (promote_block_to_canonical mem_engine 1 (replicate 64 2) (mem_manager sample_fork)))"
      by (simp add: promote_block_to_canonical_def bindS_def set_canonical_hash_at_height_def
          set_block_meta_status_def readS_def sample_meta_read sample_graph_def store_block_meta_by_hash_def set_canonical_tip_def)
  qed
  have "canon mem_view (mem_manager sample_fork) 0 = None"
    by (simp add: canon_def mview_def mem_manager_def mem_view_def sample_fork_def sample_graph_def)
  with promotion_effect [OF mem_engine_ok p] p show ?thesis by auto
qed

section \<open>Ancestors\<close>

text \<open>The \<open>i\<close>-th parent of a block in the fork graph; the walk ends at a block with no metadata or
  with the all-zero parent.\<close>

fun ancestor_at :: "(hash \<Rightarrow> ForkBlockMeta option) \<Rightarrow> hash \<Rightarrow> nat \<Rightarrow> hash option" where
  "ancestor_at M h 0 = Some h"
| "ancestor_at M h (Suc i) =
     (case M h of
        None \<Rightarrow> None
      | Some m \<Rightarrow> if list_all (\<lambda>b. b = 0) (fm_parent_hash m) then None else ancestor_at M (fm_parent_hash m) i)"

lemma ancestry_nth:
  assumes "engine_ok G view" and "ancestry_loop G n h mg = Inr p"
  shows "(if i < length p then Some (p ! i) else None) = (if i < n then ancestor_at (meta_at view mg) h i else None)"
  using assms(2)
proof (induction n arbitrary: h p i)
  case (Suc n)
  obtain m where g: "get_block_meta_by_hash G h mg = Inr m" using Suc.prems by (auto simp: res_simps)
  note m = get_meta_at [OF assms(1) g]
  show ?case
  proof (cases "m = None \<or> list_all (\<lambda>b. b = 0) (fm_parent_hash (the m))")
    case True
    then show ?thesis using Suc.prems g m by (cases i) (auto split: option.splits)
  next
    case False
    then obtain x rest where x: "m = Some x" "p = h # rest" and r: "ancestry_loop G n (fm_parent_hash x) mg = Inr rest"
      using Suc.prems g by (auto simp: res_simps)
    show ?thesis using Suc.IH [OF r, of "i - 1"] False x m [symmetric] by (cases i) (auto split: if_splits)
  qed
qed simp

lemma find_first:
  "find P xs = Some c \<longleftrightarrow> (\<exists>i<length xs. xs ! i = c \<and> P c \<and> (\<forall>j<i. \<not> P (xs ! j)))"
  by (auto simp: find_Some_iff)

text \<open>The common ancestor of two tips: \<open>find_common_ancestor_hash\<close>, when it returns Ok, returns the
  first block on the ancestry of the first tip that is also among the ancestors of the second, both
  searched to the given depth, and returns nothing exactly when there is no such block.\<close>

theorem common_ancestor_nearest:
  assumes "engine_ok G view" and "find_common_ancestor_hash G a b d mg = Inr r"
  shows "r = Some c \<longleftrightarrow>
      (\<exists>i<d. ancestor_at (meta_at view mg) a i = Some c \<and> (\<exists>j<d. ancestor_at (meta_at view mg) b j = Some c) \<and>
         (\<forall>k<i. \<forall>j<d. ancestor_at (meta_at view mg) a k \<noteq> ancestor_at (meta_at view mg) b j))"
proof -
  obtain pa pb where a: "ancestry_loop G d a mg = Inr pa" and b: "ancestry_loop G d b mg = Inr pb"
    and r: "r = find (\<lambda>x. x \<in> set pb) pa"
    using assms(2) by (auto simp: find_common_ancestor_hash_def build_hash_ancestry_path_def res_simps)
  note na = ancestry_nth [OF assms(1) a] and nb = ancestry_nth [OF assms(1) b]
  have la: "ancestor_at (meta_at view mg) a i = Some x \<and> i < d \<longleftrightarrow> i < length pa \<and> pa ! i = x" for i x
    using na [of i] by (auto split: if_splits)
  have lb: "(\<exists>j<d. ancestor_at (meta_at view mg) b j = Some x) \<longleftrightarrow> x \<in> set pb" for x
    using nb by (metis in_set_conv_nth option.distinct(1) option.inject)
  have first: "(\<forall>k<i. \<forall>j<d. ancestor_at (meta_at view mg) a k \<noteq> ancestor_at (meta_at view mg) b j) \<longleftrightarrow>
      (\<forall>k<i. pa ! k \<notin> set pb)" if "i < length pa" for i
  proof -
    have "ancestor_at (meta_at view mg) a k = Some (pa ! k)" if "k < i" for k
      using la [of k "pa ! k"] that \<open>i < length pa\<close> by simp
    then show ?thesis using lb [symmetric] by (simp add: eq_commute)
  qed
  have "r = Some c \<longleftrightarrow> (\<exists>i. (i < length pa \<and> pa ! i = c) \<and> c \<in> set pb \<and> (\<forall>k<i. pa ! k \<notin> set pb))"
    unfolding r find_first by blast
  also have "\<dots> \<longleftrightarrow> (\<exists>i. (i < length pa \<and> pa ! i = c) \<and> c \<in> set pb \<and>
      (\<forall>k<i. \<forall>j<d. ancestor_at (meta_at view mg) a k \<noteq> ancestor_at (meta_at view mg) b j))"
    using first by blast
  finally show ?thesis unfolding la [symmetric] lb [symmetric] by blast
qed

theorem common_ancestor_nearest_witness:
  "find_common_ancestor_hash mem_engine (replicate 64 4) (replicate 64 2) (Suc (Suc (Suc 0))) (mem_manager sample_fork) =
     Inr (Some (replicate 64 1)) \<and>
   (\<exists>i<Suc (Suc (Suc 0)). ancestor_at (meta_at mem_view (mem_manager sample_fork)) (replicate 64 4) i = Some (replicate 64 1))"
proof -
  have f: "find_common_ancestor_hash mem_engine (replicate 64 4) (replicate 64 2) (Suc (Suc (Suc 0))) (mem_manager sample_fork) =
     Inr (Some (replicate 64 1))"
    by (simp add: find_common_ancestor_hash_def build_hash_ancestry_path_def
        sample_meta_read sample_graph_def list_all_iff)
  with common_ancestor_nearest [OF mem_engine_ok f, of "replicate 64 1"] show ?thesis by blast
qed

end
