(* ===== verification/BranchScore.thy ===== *)
theory BranchScore
  imports Prelude "HOL-Library.List_Lexorder"
begin

text \<open>
  Comparison of branches (\<open>src/reorganization/reorg_003_branch_score.rs\<close>). Hashes are compared
  lexicographically, as Rust compares arrays. The preference between scores is shown to be a strict
  order for every configuration, stated once as a locale on which the choice between two tips rests.
\<close>

datatype BranchScoreMode = HeightOnly | CumulativePor

record BranchScoreConfig =
  sc_mode :: BranchScoreMode
  sc_allow_equal_height_tiebreak :: bool
  sc_prefer_lower_hash_on_tie :: bool

definition default_score_config :: BranchScoreConfig where
  "default_score_config = \<lparr>sc_mode = HeightOnly, sc_allow_equal_height_tiebreak = False,
     sc_prefer_lower_hash_on_tie = True\<rparr>"

record BranchScore =
  bs_height :: nat
  bs_cumulative_por :: nat
  bs_tip_hash :: hash

definition score_from_height :: "nat \<Rightarrow> hash \<Rightarrow> BranchScore" where
  "score_from_height height tip_hash = \<lparr>bs_height = height, bs_cumulative_por = 0, bs_tip_hash = tip_hash\<rparr>"

definition score_from_cumulative_por :: "nat \<Rightarrow> nat \<Rightarrow> hash \<Rightarrow> BranchScore" where
  "score_from_cumulative_por height cumulative_por tip_hash =
     \<lparr>bs_height = height, bs_cumulative_por = cumulative_por, bs_tip_hash = tip_hash\<rparr>"

definition tie_break :: "hash \<Rightarrow> hash \<Rightarrow> bool \<Rightarrow> bool" where
  "tie_break a b prefer_lower_hash = (if a = b then False else if prefer_lower_hash then a < b else a > b)"

definition is_strictly_better_than :: "BranchScore \<Rightarrow> BranchScore \<Rightarrow> BranchScoreConfig \<Rightarrow> bool" where
  "is_strictly_better_than s t cfg =
     (case sc_mode cfg of
        HeightOnly \<Rightarrow>
          if bs_height s > bs_height t then True
          else if bs_height s < bs_height t then False
          else if sc_allow_equal_height_tiebreak cfg
            then tie_break (bs_tip_hash s) (bs_tip_hash t) (sc_prefer_lower_hash_on_tie cfg)
          else False
      | CumulativePor \<Rightarrow>
          if bs_cumulative_por s > bs_cumulative_por t then True
          else if bs_cumulative_por s < bs_cumulative_por t then False
          else if bs_height s > bs_height t then True
          else if bs_height s < bs_height t then False
          else if sc_allow_equal_height_tiebreak cfg
            then tie_break (bs_tip_hash s) (bs_tip_hash t) (sc_prefer_lower_hash_on_tie cfg)
          else False)"

definition choose_better :: "BranchScore \<Rightarrow> BranchScore \<Rightarrow> BranchScoreConfig \<Rightarrow> hash option" where
  "choose_better a b cfg =
     (if is_strictly_better_than a b cfg then Some (bs_tip_hash a)
      else if is_strictly_better_than b a cfg then Some (bs_tip_hash b)
      else None)"

record BranchCandidate =
  bc_tip_hash :: hash
  bc_height :: nat
  bc_cumulative_por :: nat

definition candidate_to_score :: "BranchCandidate \<Rightarrow> BranchScore" where
  "candidate_to_score c =
     \<lparr>bs_height = bc_height c, bs_cumulative_por = bc_cumulative_por c, bs_tip_hash = bc_tip_hash c\<rparr>"

definition choose_tip :: "BranchScoreConfig \<Rightarrow> BranchCandidate \<Rightarrow> BranchCandidate \<Rightarrow> hash option" where
  "choose_tip cfg current candidate =
     (let current_score = candidate_to_score current; candidate_score = candidate_to_score candidate in
      if is_strictly_better_than candidate_score current_score cfg then Some (bc_tip_hash candidate)
      else if is_strictly_better_than current_score candidate_score cfg then Some (bc_tip_hash current)
      else None)"

definition candidate_beats_current :: "BranchScoreConfig \<Rightarrow> BranchCandidate \<Rightarrow> BranchCandidate \<Rightarrow> bool" where
  "candidate_beats_current cfg current candidate \<longleftrightarrow> choose_tip cfg current candidate = Some (bc_tip_hash candidate)"

section \<open>The preference is a strict order\<close>

text \<open>What a choice by preference relies on, and what follows for a choice between two.\<close>

locale strict_preference =
  fixes better :: "'a \<Rightarrow> 'a \<Rightarrow> bool"
    and key :: "'a \<Rightarrow> 'k"
  assumes better_irrefl: "\<not> better x x"
    and better_trans: "better x y \<Longrightarrow> better y z \<Longrightarrow> better x z"
begin

lemma better_asym: "better x y \<Longrightarrow> \<not> better y x"
  using better_irrefl better_trans by blast

text \<open>The choice does not depend on which of the two is named first.\<close>

lemma choice_symmetric:
  "(if better x y then Some (key x) else if better y x then Some (key y) else None) =
   (if better y x then Some (key y) else if better x y then Some (key x) else None)"
  using better_asym by auto

text \<open>No chain of strict improvements returns to where it began.\<close>

lemma no_cycle: "better\<^sup>+\<^sup>+ x y \<Longrightarrow> \<not> better y x"
proof -
  assume "better\<^sup>+\<^sup>+ x y"
  then have "better x y" by (induction rule: tranclp_induct) (auto intro: better_trans)
  then show ?thesis by (rule better_asym)
qed

end

text \<open>The value of a score that the comparison reads, most significant part first.\<close>

lemma better_iff:
  "is_strictly_better_than s t cfg \<longleftrightarrow>
     (let p = (\<lambda>x. if sc_mode cfg = CumulativePor then bs_cumulative_por x else 0) in
      p t < p s \<or> p t = p s \<and> (bs_height t < bs_height s \<or> bs_height t = bs_height s \<and>
        sc_allow_equal_height_tiebreak cfg \<and>
        (if sc_prefer_lower_hash_on_tie cfg then bs_tip_hash s < bs_tip_hash t else bs_tip_hash t < bs_tip_hash s)))"
  by (cases "sc_mode cfg") (auto simp: is_strictly_better_than_def tie_break_def)

interpretation branch_pref: strict_preference "\<lambda>s t. is_strictly_better_than s t cfg" bs_tip_hash for cfg
proof
  fix x y z
  show "\<not> is_strictly_better_than x x cfg" by (simp add: better_iff)
  assume "is_strictly_better_than x y cfg" and "is_strictly_better_than y z cfg"
  then show "is_strictly_better_than x z cfg"
    unfolding better_iff Let_def by (auto split: if_splits)
qed

text \<open>Branch preference is a strict order whatever the configuration: no score beats itself, the
  relation is transitive, and the winner that \<open>choose_better\<close> returns is the same for both orders of its
  arguments; with the tie-break allowed, two scores with different tips always have a winner. Two nodes
  that know the same two branches therefore pick the same one.\<close>

theorem preference_strict_order:
  "\<not> is_strictly_better_than a a cfg \<and>
   (is_strictly_better_than a b cfg \<longrightarrow> is_strictly_better_than b c cfg \<longrightarrow> is_strictly_better_than a c cfg) \<and>
   choose_better a b cfg = choose_better b a cfg \<and>
   (sc_allow_equal_height_tiebreak cfg \<longrightarrow> bs_tip_hash a \<noteq> bs_tip_hash b \<longrightarrow> choose_better a b cfg \<noteq> None)"
proof (intro conjI impI)
  show "\<not> is_strictly_better_than a a cfg" by (rule branch_pref.better_irrefl)
  show "choose_better a b cfg = choose_better b a cfg"
    unfolding choose_better_def by (rule branch_pref.choice_symmetric)
next
  assume "is_strictly_better_than a b cfg" "is_strictly_better_than b c cfg"
  then show "is_strictly_better_than a c cfg" by (rule branch_pref.better_trans)
next
  assume "sc_allow_equal_height_tiebreak cfg" "bs_tip_hash a \<noteq> bs_tip_hash b"
  then have "is_strictly_better_than a b cfg \<or> is_strictly_better_than b a cfg"
    unfolding better_iff Let_def by (auto simp: neq_iff)
  then show "choose_better a b cfg \<noteq> None" by (auto simp: choose_better_def)
qed

theorem preference_strict_order_witness:
  "choose_better (score_from_height 3 [1]) (score_from_height 3 [2]) (default_score_config\<lparr>sc_allow_equal_height_tiebreak := True\<rparr>) = Some [1] \<and>
   choose_better (score_from_height 3 [2]) (score_from_height 3 [1]) (default_score_config\<lparr>sc_allow_equal_height_tiebreak := True\<rparr>) = Some [1]"
proof -
  have "choose_better (score_from_height 3 [1]) (score_from_height 3 [2]) (default_score_config\<lparr>sc_allow_equal_height_tiebreak := True\<rparr>) = Some [1]"
    by (simp add: choose_better_def is_strictly_better_than_def score_from_height_def default_score_config_def tie_break_def)
  with preference_strict_order [of "score_from_height 3 [1]" "default_score_config\<lparr>sc_allow_equal_height_tiebreak := True\<rparr>"
      "score_from_height 3 [2]" "score_from_height 3 [2]"] show ?thesis by simp
qed

end
