(* ===== verification/Reorg.thy ===== *)
theory Reorg
  imports BranchScore TimePolicy StorageProps
begin

text \<open>
  The reorganization layer over the storage: the block index (\<open>reorg_001_block_index.rs\<close>), the
  canonical chain view (\<open>reorg_002_chain_view.rs\<close>), the batch index (\<open>reorg_004_batch_index.rs\<close>) and
  fork choice with the execution of a plan (\<open>reorg_005_fork_choice.rs\<close>), all under
  \<open>src/reorganization/\<close>.

  The three wrappers hold only a shared handle of the manager, so their methods are functions of the
  manager; a method that forwards one call (such as \<open>put_meta\<close>) is that call of the storage theory.
\<close>

section \<open>The block index\<close>

definition received_at_unix_secs_runtime :: "int \<Rightarrow> nat" where
  "received_at_unix_secs_runtime clock =
     (case now_unix_secs_runtime clock of Inr ts \<Rightarrow> ts | Inl _ \<Rightarrow> UNIX_2000_SECS)"

definition put_block :: "'db Engine \<Rightarrow> BlockExt \<Rightarrow> Block \<Rightarrow> ('db RockDBManager, unit) sm" where
  "put_block G X block =
     bindS (readS (\<lambda>_. block_serialize_for_storage X block)) (\<lambda>bytes.
     index_block_by_hash G X (bl_block_hash block) bytes)"

definition put_block_and_meta :: "'db Engine \<Rightarrow> BlockExt \<Rightarrow> Block \<Rightarrow> ForkBlockMeta \<Rightarrow> ('db RockDBManager, unit) sm" where
  "put_block_and_meta G X block meta =
     bindS (readS (\<lambda>_. block_serialize_for_storage X block)) (\<lambda>bytes.
     ingest_fork_block G X (bl_block_hash block) bytes meta None)"

definition ingest_validated_block ::
    "'db Engine \<Rightarrow> BlockExt \<Rightarrow> Block \<Rightarrow> ForkBlockMeta \<Rightarrow> byte list option \<Rightarrow> ('db RockDBManager, unit) sm" where
  "ingest_validated_block G X block meta maybe_batch_bytes =
     bindS (readS (\<lambda>_. block_serialize_for_storage X block)) (\<lambda>bytes.
     ingest_fork_block G X (bl_block_hash block) bytes meta maybe_batch_bytes)"

definition make_scored_meta :: "int \<Rightarrow> Block \<Rightarrow> nat \<Rightarrow> ForkBlockStatus \<Rightarrow> ForkBlockMeta" where
  "make_scored_meta clock block cumulative_score status =
     \<lparr>fm_parent_hash = m_previous_hash (bl_metadata block), fm_height = m_index (bl_metadata block),
      fm_cumulative_score = cumulative_score, fm_status = status,
      fm_received_at_unix_secs = received_at_unix_secs_runtime clock\<rparr>"

definition make_height_meta :: "int \<Rightarrow> Block \<Rightarrow> ForkBlockStatus \<Rightarrow> ForkBlockMeta" where
  "make_height_meta clock block status =
     \<lparr>fm_parent_hash = m_previous_hash (bl_metadata block), fm_height = m_index (bl_metadata block),
      fm_cumulative_score = m_index (bl_metadata block), fm_status = status,
      fm_received_at_unix_secs = received_at_unix_secs_runtime clock\<rparr>"

definition all_zero :: "hash \<Rightarrow> bool" where
  "all_zero h \<longleftrightarrow> list_all (\<lambda>b. b = 0) h"

definition parent_hash :: "'db Engine \<Rightarrow> hash \<Rightarrow> 'db RockDBManager \<Rightarrow> hash option result" where
  "parent_hash G block_hash mg =
     bindR (get_block_meta_by_hash G block_hash mg) (\<lambda>m. Inr (map_option fm_parent_hash m))"

definition height_of :: "'db Engine \<Rightarrow> hash \<Rightarrow> 'db RockDBManager \<Rightarrow> nat option result" where
  "height_of G block_hash mg = bindR (get_block_meta_by_hash G block_hash mg) (\<lambda>m. Inr (map_option fm_height m))"

definition status_of :: "'db Engine \<Rightarrow> hash \<Rightarrow> 'db RockDBManager \<Rightarrow> ForkBlockStatus option result" where
  "status_of G block_hash mg = bindR (get_block_meta_by_hash G block_hash mg) (\<lambda>m. Inr (map_option fm_status m))"

definition has_known_parent :: "'db Engine \<Rightarrow> hash \<Rightarrow> 'db RockDBManager \<Rightarrow> bool result" where
  "has_known_parent G block_hash mg =
     bindR (get_block_meta_by_hash G block_hash mg) (\<lambda>m.
     (case m of
        None \<Rightarrow> Inr False
      | Some meta \<Rightarrow> if all_zero (fm_parent_hash meta) then Inr True else has_block_meta_by_hash G (fm_parent_hash meta) mg))"

definition get_parent_block :: "'db Engine \<Rightarrow> BlockExt \<Rightarrow> hash \<Rightarrow> 'db RockDBManager \<Rightarrow> Block option result" where
  "get_parent_block G X block_hash mg =
     bindR (get_block_meta_by_hash G block_hash mg) (\<lambda>m.
     (case m of
        None \<Rightarrow> Inr None
      | Some meta \<Rightarrow> if all_zero (fm_parent_hash meta) then Inr None else Inr (get_block_by_hash G X (fm_parent_hash meta) mg)))"

definition get_parent_meta :: "'db Engine \<Rightarrow> hash \<Rightarrow> 'db RockDBManager \<Rightarrow> ForkBlockMeta option result" where
  "get_parent_meta G block_hash mg =
     bindR (get_block_meta_by_hash G block_hash mg) (\<lambda>m.
     (case m of
        None \<Rightarrow> Inr None
      | Some meta \<Rightarrow> if all_zero (fm_parent_hash meta) then Inr None else get_block_meta_by_hash G (fm_parent_hash meta) mg))"

text \<open>\<open>build_path_from_tip\<close> and \<open>first_missing_ancestor\<close>: the argument \<open>n\<close> is \<open>max_depth\<close>.\<close>

fun build_path_from_tip :: "'db Engine \<Rightarrow> hash \<Rightarrow> nat \<Rightarrow> 'db RockDBManager \<Rightarrow> (nat \<times> hash) list result" where
  "build_path_from_tip G current 0 mg = Inr []"
| "build_path_from_tip G current (Suc n) mg =
     bindR (get_block_meta_by_hash G current mg) (\<lambda>m.
     (case m of
        None \<Rightarrow> Inr []
      | Some meta \<Rightarrow>
          if all_zero (fm_parent_hash meta) then Inr [(fm_height meta, current)]
          else bindR (build_path_from_tip G (fm_parent_hash meta) n mg) (\<lambda>rest.
            Inr ((fm_height meta, current) # rest))))"

fun first_missing_ancestor :: "'db Engine \<Rightarrow> hash \<Rightarrow> nat \<Rightarrow> 'db RockDBManager \<Rightarrow> hash option result" where
  "first_missing_ancestor G current 0 mg = Inr None"
| "first_missing_ancestor G current (Suc n) mg =
     bindR (get_block_meta_by_hash G current mg) (\<lambda>m.
     (case m of
        None \<Rightarrow> Inr (Some current)
      | Some meta \<Rightarrow>
          if all_zero (fm_parent_hash meta) then Inr None
          else bindR (has_block_meta_by_hash G (fm_parent_hash meta) mg) (\<lambda>has.
            if \<not> has then Inr (Some (fm_parent_hash meta))
            else first_missing_ancestor G (fm_parent_hash meta) n mg)))"

definition validate_block_meta_consistency :: "'db Engine \<Rightarrow> BlockExt \<Rightarrow> hash \<Rightarrow> 'db RockDBManager \<Rightarrow> unit result" where
  "validate_block_meta_consistency G X block_hash mg =
     bindR (ok_or (NotFound ''block_by_hash'') (get_block_by_hash G X block_hash mg)) (\<lambda>block.
     bindR (get_block_meta_by_hash G block_hash mg) (\<lambda>m.
     bindR (ok_or (NotFound ''block_meta_by_hash'') m) (\<lambda>meta.
     bindR (reject_if (bl_block_hash block \<noteq> block_hash) (BlockchainError ''hash mismatch in block index'')) (\<lambda>_.
     bindR (reject_if (m_index (bl_metadata block) \<noteq> fm_height meta) (BlockchainError ''height mismatch'')) (\<lambda>_.
     reject_if (m_previous_hash (bl_metadata block) \<noteq> fm_parent_hash meta) (BlockchainError ''parent mismatch''))))))"

section \<open>The canonical chain view\<close>

definition has_height :: "'db Engine \<Rightarrow> nat \<Rightarrow> 'db RockDBManager \<Rightarrow> bool result" where
  "has_height G height mg = bindR (get_canonical_hash_at_height G height mg) (\<lambda>h. Inr (h \<noteq> None))"

definition get_tip_with_legacy_fallback :: "'db Engine \<Rightarrow> BlockExt \<Rightarrow> 'db RockDBManager \<Rightarrow> CanonicalTipView option result" where
  "get_tip_with_legacy_fallback G X mg =
     bindR (get_canonical_tip G mg) (\<lambda>v.
     (case v of
        Some view \<Rightarrow> Inr (Some view)
      | None \<Rightarrow>
          bindR (get_tip_height G mg) (\<lambda>legacy_height.
          bindR (get_block_by_index G X legacy_height mg) (\<lambda>legacy_block.
          (case legacy_block of
             Some block \<Rightarrow> Inr (Some \<lparr>tv_tip_hash = bl_block_hash block, tv_tip_height = m_index (bl_metadata block)\<rparr>)
           | None \<Rightarrow> Inr None)))))"

definition canonical_block_at_height :: "'db Engine \<Rightarrow> BlockExt \<Rightarrow> nat \<Rightarrow> 'db RockDBManager \<Rightarrow> Block option result" where
  "canonical_block_at_height G X height mg =
     bindR (get_canonical_hash_at_height G height mg) (\<lambda>h.
     (case h of None \<Rightarrow> Inr None | Some hash \<Rightarrow> Inr (get_block_by_hash G X hash mg)))"

text \<open>The loop of \<open>backfill_from_legacy_projection\<close> over the heights left, with the last block seen.\<close>

fun backfill_loop ::
    "'db Engine \<Rightarrow> BlockExt \<Rightarrow> nat list \<Rightarrow> (hash \<times> nat) option \<Rightarrow> ('db RockDBManager, (hash \<times> nat) option) sm" where
  "backfill_loop G X [] seen = returnS seen"
| "backfill_loop G X (h # hs) seen =
     bindS (readS (get_block_by_index G X h)) (\<lambda>maybe_block.
     (case maybe_block of
        None \<Rightarrow> returnS seen
      | Some block \<Rightarrow>
          bindS (set_canonical_hash_at_height G h (bl_block_hash block)) (\<lambda>_.
          backfill_loop G X hs (Some (bl_block_hash block, h)))))"

definition backfill_from_legacy_projection :: "'db Engine \<Rightarrow> BlockExt \<Rightarrow> ('db RockDBManager, CanonicalTipView option) sm" where
  "backfill_from_legacy_projection G X =
     bindS (readS (get_tip_height G)) (\<lambda>legacy_tip_height.
     bindS (backfill_loop G X [0..<Suc legacy_tip_height] None) (\<lambda>last.
     (case last of
        Some (hash, height) \<Rightarrow>
          bindS (set_canonical_tip G hash height) (\<lambda>_.
          returnS (Some \<lparr>tv_tip_hash = hash, tv_tip_height = height\<rparr>))
      | None \<Rightarrow> returnS None)))"

definition ensure_initialized :: "'db Engine \<Rightarrow> BlockExt \<Rightarrow> ('db RockDBManager, CanonicalTipView option) sm" where
  "ensure_initialized G X =
     bindS (readS (get_canonical_tip G)) (\<lambda>v.
     (case v of Some view \<Rightarrow> returnS (Some view) | None \<Rightarrow> backfill_from_legacy_projection G X))"

definition choose_better_tip :: "hash \<Rightarrow> nat \<Rightarrow> hash \<Rightarrow> nat \<Rightarrow> bool \<Rightarrow> hash result" where
  "choose_better_tip current_tip_hash current_tip_height candidate_tip_hash candidate_tip_height allow_equal_height_tiebreak =
     (if candidate_tip_height > current_tip_height then Inr candidate_tip_hash
      else if candidate_tip_height < current_tip_height then Inr current_tip_hash
      else if allow_equal_height_tiebreak \<and> candidate_tip_hash < current_tip_hash then Inr candidate_tip_hash
      else Inr current_tip_hash)"

definition apply_canonical_attach :: "'db Engine \<Rightarrow> (nat \<times> hash) list \<Rightarrow> ('db RockDBManager, unit) sm" where
  "apply_canonical_attach G attach_steps =
     (if attach_steps = [] then returnS ()
      else
        bindS (forS (\<lambda>(height, hash). set_canonical_hash_at_height G height hash) attach_steps) (\<lambda>_.
        (case last attach_steps of (tip_height, tip_hash) \<Rightarrow> set_canonical_tip G tip_hash tip_height)))"

definition switch_canonical_range ::
    "'db Engine \<Rightarrow> nat option \<Rightarrow> nat option \<Rightarrow> (nat \<times> hash) list \<Rightarrow> ('db RockDBManager, unit) sm" where
  "switch_canonical_range G detach_from_height detach_to_height attach_steps =
     bindS (case detach_from_height of
              Some from_h \<Rightarrow>
                (case detach_to_height of
                   Some to_h \<Rightarrow> delete_canonical_hash_range G from_h to_h
                 | None \<Rightarrow> returnS ())
            | None \<Rightarrow> returnS ()) (\<lambda>_.
     apply_canonical_attach G attach_steps)"

section \<open>The batch index\<close>

definition get_canonical_batch_with_fallback :: "'db Engine \<Rightarrow> nat \<Rightarrow> 'db RockDBManager \<Rightarrow> byte list option result" where
  "get_canonical_batch_with_fallback G height mg =
     bindR (get_canonical_hash_at_height G height mg) (\<lambda>h.
     (case h of
        None \<Rightarrow> get_batch_bytes_by_index G height mg
      | Some block_hash \<Rightarrow>
          bindR (get_batch_by_block_hash G block_hash mg) (\<lambda>b.
          (case b of Some bytes \<Rightarrow> Inr (Some bytes) | None \<Rightarrow> get_batch_bytes_by_index G height mg))))"

definition ingest_canonical_batch :: "'db Engine \<Rightarrow> hash \<Rightarrow> nat \<Rightarrow> byte list \<Rightarrow> ('db RockDBManager, unit) sm" where
  "ingest_canonical_batch G block_hash height batch_bytes =
     bindS (store_batch_by_block_hash G block_hash batch_bytes) (\<lambda>_. store_batch_bytes G height batch_bytes)"

definition remap_canonical_batch_to_height :: "'db Engine \<Rightarrow> nat \<Rightarrow> hash \<Rightarrow> ('db RockDBManager, unit) sm" where
  "remap_canonical_batch_to_height G height block_hash =
     bindS (readS (\<lambda>mg. bindR (get_batch_by_block_hash G block_hash mg) (\<lambda>b.
        ok_or (NotFound ''batch_by_block_hash for attached block'') b))) (\<lambda>batch_bytes.
     store_batch_bytes G height batch_bytes)"

definition remap_canonical_batches_for_attach_steps :: "'db Engine \<Rightarrow> (nat \<times> hash) list \<Rightarrow> ('db RockDBManager, unit) sm" where
  "remap_canonical_batches_for_attach_steps G attach_steps =
     forS (\<lambda>(height, hash). remap_canonical_batch_to_height G height hash) attach_steps"

definition remap_canonical_batches_best_effort :: "'db Engine \<Rightarrow> (nat \<times> hash) list \<Rightarrow> ('db RockDBManager, unit) sm" where
  "remap_canonical_batches_best_effort G attach_steps =
     forS (\<lambda>(height, hash).
       bindS (readS (get_batch_by_block_hash G hash)) (\<lambda>b.
       (case b of Some bytes \<Rightarrow> store_batch_bytes G height bytes | None \<Rightarrow> returnS ()))) attach_steps"

definition validate_canonical_batch_consistency :: "'db Engine \<Rightarrow> nat \<Rightarrow> 'db RockDBManager \<Rightarrow> unit result" where
  "validate_canonical_batch_consistency G height mg =
     bindR (get_canonical_hash_at_height G height mg) (\<lambda>h.
     bindR (ok_or (NotFound ''canonical hash at height'') h) (\<lambda>canonical_hash.
     bindR (get_batch_by_block_hash G canonical_hash mg) (\<lambda>e.
     bindR (ok_or (NotFound ''batch_by_block_hash for canonical hash'') e) (\<lambda>expected.
     bindR (get_batch_bytes_by_index G height mg) (\<lambda>a.
     bindR (ok_or (NotFound ''canonical batch projection'') a) (\<lambda>actual.
     reject_if (actual \<noteq> expected) (BlockchainError ''canonical batch mismatch'')))))))"

definition first_inconsistent_canonical_batch :: "'db Engine \<Rightarrow> nat \<Rightarrow> nat \<Rightarrow> 'db RockDBManager \<Rightarrow> nat option result" where
  "first_inconsistent_canonical_batch G from_height to_height mg =
     (if from_height > to_height then Inr None
      else Inr (find (\<lambda>h. validate_canonical_batch_consistency G h mg \<noteq> Inr ()) [from_height..<Suc to_height]))"

definition backfill_batch_by_hash_from_canonical_range :: "'db Engine \<Rightarrow> nat \<Rightarrow> nat \<Rightarrow> ('db RockDBManager, unit) sm" where
  "backfill_batch_by_hash_from_canonical_range G from_height to_height =
     (if from_height > to_height then returnS ()
      else
        forS (\<lambda>h.
          bindS (readS (get_canonical_hash_at_height G h)) (\<lambda>c.
          (case c of
             None \<Rightarrow> returnS ()
           | Some block_hash \<Rightarrow>
               bindS (readS (has_batch_by_block_hash G block_hash)) (\<lambda>has.
               if has then returnS ()
               else
                 bindS (readS (get_batch_bytes_by_index G h)) (\<lambda>b.
                 (case b of
                    None \<Rightarrow> returnS ()
                  | Some batch_bytes \<Rightarrow> store_batch_by_block_hash G block_hash batch_bytes)))))) [from_height..<Suc to_height])"

definition rebuild_canonical_projection_from_hash_range :: "'db Engine \<Rightarrow> nat \<Rightarrow> nat \<Rightarrow> ('db RockDBManager, unit) sm" where
  "rebuild_canonical_projection_from_hash_range G from_height to_height =
     (if from_height > to_height then returnS ()
      else
        forS (\<lambda>h.
          bindS (readS (get_canonical_hash_at_height G h)) (\<lambda>c.
          (case c of
             None \<Rightarrow> returnS ()
           | Some block_hash \<Rightarrow>
               bindS (readS (get_batch_by_block_hash G block_hash)) (\<lambda>b.
               (case b of Some bytes \<Rightarrow> store_batch_bytes G h bytes | None \<Rightarrow> returnS ()))))) [from_height..<Suc to_height])"

section \<open>Fork choice\<close>

record ReForkConfig =
  rf_max_reorg_depth :: nat
  rf_allow_equal_height_reorg :: bool
  rf_prefer_cumulative_por :: bool

definition default_refork_config :: ReForkConfig where
  "default_refork_config =
     \<lparr>rf_max_reorg_depth = 64, rf_allow_equal_height_reorg = False, rf_prefer_cumulative_por = False\<rparr>"

record ReorgStep =
  rs_height :: nat
  rs_hash :: hash

record ReorgPlan =
  rp_old_tip_height :: nat
  rp_old_tip_hash :: hash
  rp_new_tip_height :: nat
  rp_new_tip_hash :: hash
  rp_common_ancestor_height :: nat
  rp_common_ancestor_hash :: hash
  rp_detach :: "ReorgStep list"
  rp_attach :: "ReorgStep list"

definition is_noop :: "ReorgPlan \<Rightarrow> bool" where
  "is_noop plan \<longleftrightarrow> rp_detach plan = [] \<and> rp_attach plan = []"

definition detach_heights :: "ReorgPlan \<Rightarrow> nat list" where
  "detach_heights plan = map rs_height (rp_detach plan)"

definition attach_heights :: "ReorgPlan \<Rightarrow> nat list" where
  "attach_heights plan = map rs_height (rp_attach plan)"

datatype ForkAction = Stay | Reorg ReorgPlan | NeedMoreData hash string

datatype BranchPathBuild = Complete "(nat \<times> hash) list" | Missing "(nat \<times> hash) list" hash string

text \<open>\<open>ReFork::new\<close>: the score configuration of the scorer.\<close>

definition refork_score_config :: "ReForkConfig \<Rightarrow> BranchScoreConfig" where
  "refork_score_config cfg =
     \<lparr>sc_mode = (if rf_prefer_cumulative_por cfg then CumulativePor else HeightOnly),
      sc_allow_equal_height_tiebreak = rf_allow_equal_height_reorg cfg,
      sc_prefer_lower_hash_on_tie = True\<rparr>"

definition load_canonical_tip_block :: "'db Engine \<Rightarrow> BlockExt \<Rightarrow> 'db RockDBManager \<Rightarrow> (nat \<times> hash \<times> Block) result" where
  "load_canonical_tip_block G X mg =
     bindR (get_tip_with_legacy_fallback G X mg) (\<lambda>v.
     (case v of
        Some tip_view \<Rightarrow>
          bindR (ok_or (NotFound ''canonical tip block by hash'') (get_block_by_hash G X (tv_tip_hash tip_view) mg)) (\<lambda>block.
          Inr (tv_tip_height tip_view, tv_tip_hash tip_view, block))
      | None \<Rightarrow> Inl (NotFound ''canonical tip view'')))"

definition branch_candidate_from_tip :: "'db Engine \<Rightarrow> hash \<Rightarrow> nat \<Rightarrow> 'db RockDBManager \<Rightarrow> BranchCandidate result" where
  "branch_candidate_from_tip G tip_hash fallback_height mg =
     bindR (get_block_meta_by_hash G tip_hash mg) (\<lambda>m.
     Inr \<lparr>bc_tip_hash = tip_hash, bc_height = fallback_height,
          bc_cumulative_por = (case m of Some meta \<Rightarrow> fm_cumulative_score meta | None \<Rightarrow> fallback_height)\<rparr>)"

text \<open>The loop of \<open>build_branch_path_from_hash\<close>, with the rounds left and the path so far.\<close>

fun branch_path_loop :: "'db Engine \<Rightarrow> nat \<Rightarrow> hash \<Rightarrow> (nat \<times> hash) list \<Rightarrow> 'db RockDBManager \<Rightarrow> BranchPathBuild result" where
  "branch_path_loop G 0 current path mg = Inr (Complete path)"
| "branch_path_loop G (Suc n) current path mg =
     bindR (get_block_meta_by_hash G current mg) (\<lambda>m.
     (case m of
        None \<Rightarrow> Inr (Missing path current ''missing_meta_for_current_hash'')
      | Some meta \<Rightarrow>
          (let path' = path @ [(fm_height meta, current)] in
           if fm_height meta = 0 \<or> fm_parent_hash meta = zero_hash then Inr (Complete path')
           else if \<not> has_block_by_hash G (fm_parent_hash meta) mg
             then Inr (Missing path' (fm_parent_hash meta) ''missing_block_for_parent_hash'')
           else
             bindR (has_block_meta_by_hash G (fm_parent_hash meta) mg) (\<lambda>has.
             if \<not> has then Inr (Missing path' (fm_parent_hash meta) ''missing_meta_for_parent_hash'')
             else branch_path_loop G n (fm_parent_hash meta) path' mg))))"

definition build_branch_path_from_hash :: "'db Engine \<Rightarrow> ReForkConfig \<Rightarrow> hash \<Rightarrow> 'db RockDBManager \<Rightarrow> BranchPathBuild result" where
  "build_branch_path_from_hash G cfg tip_hash mg =
     bindR (ok_or (BlockchainError ''max_reorg_depth does not fit usize'') (try_from 64 (rf_max_reorg_depth cfg))) (\<lambda>max_depth.
     bindR (ok_or (BlockchainError ''max_reorg_depth overflow when adding 1'') (checked_add 64 max_depth 1)) (\<lambda>loop_bound.
     branch_path_loop G loop_bound tip_hash [] mg))"

fun best_common :: "(hash, nat) hmap \<Rightarrow> (nat \<times> hash) list \<Rightarrow> (nat \<times> hash) option \<Rightarrow> (nat \<times> hash) option" where
  "best_common m [] best = best"
| "best_common m ((h_old, hash_old) # rest) best =
     best_common m rest
       (if hget m hash_old \<noteq> None
        then (case best of
                Some (best_h, x) \<Rightarrow> if h_old \<le> best_h then best else Some (h_old, hash_old)
              | None \<Rightarrow> Some (h_old, hash_old))
        else best)"

definition find_common_ancestor :: "(nat \<times> hash) list \<Rightarrow> (nat \<times> hash) list \<Rightarrow> (nat \<times> hash) option" where
  "find_common_ancestor new_path old_path =
     best_common (fold (\<lambda>(h, hash) m. hinsert hash h m) new_path []) old_path None"

definition steps_until :: "hash \<Rightarrow> (nat \<times> hash) list \<Rightarrow> ReorgStep list" where
  "steps_until common_hash path =
     map (\<lambda>(h, hash). \<lparr>rs_height = h, rs_hash = hash\<rparr>) (takeWhile (\<lambda>(h, hash). hash \<noteq> common_hash) path)"

definition compute_reorg_steps ::
    "(nat \<times> hash) list \<Rightarrow> (nat \<times> hash) list \<Rightarrow> hash \<Rightarrow> ReorgStep list \<times> ReorgStep list" where
  "compute_reorg_steps new_path old_path common_hash =
     (steps_until common_hash old_path, rev (steps_until common_hash new_path))"

text \<open>The part of \<open>on_new_block\<close> after both paths are complete.\<close>

definition plan_from_paths ::
    "ReForkConfig \<Rightarrow> nat \<Rightarrow> hash \<Rightarrow> nat \<Rightarrow> hash \<Rightarrow> (nat \<times> hash) list \<Rightarrow> (nat \<times> hash) list \<Rightarrow> ForkAction" where
  "plan_from_paths cfg old_height old_hash new_height new_hash new_path old_path =
     (if new_path = [] \<or> old_path = [] then Stay
      else
        (case find_common_ancestor new_path old_path of
           None \<Rightarrow> Stay
         | Some (common_height, common_hash) \<Rightarrow>
             (case compute_reorg_steps new_path old_path common_hash of
                (detach, attach) \<Rightarrow>
                  if length detach = 0 \<and> length attach = 0 then Stay
                  else if length detach > rf_max_reorg_depth cfg \<or> length attach > rf_max_reorg_depth cfg then Stay
                  else Reorg \<lparr>rp_old_tip_height = old_height, rp_old_tip_hash = old_hash,
                         rp_new_tip_height = new_height, rp_new_tip_hash = new_hash,
                         rp_common_ancestor_height = common_height, rp_common_ancestor_hash = common_hash,
                         rp_detach = detach, rp_attach = attach\<rparr>)))"

definition on_new_block :: "'db Engine \<Rightarrow> BlockExt \<Rightarrow> ReForkConfig \<Rightarrow> Block \<Rightarrow> 'db RockDBManager \<Rightarrow> ForkAction result" where
  "on_new_block G X cfg new_block mg =
     (let new_height = m_index (bl_metadata new_block); new_hash = bl_block_hash new_block in
      bindR (load_canonical_tip_block G X mg) (\<lambda>(old_height, old_hash, canonical_tip_block).
      if m_previous_hash (bl_metadata new_block) = old_hash \<and> new_height = saturating_add 64 old_height 1 then Inr Stay
      else
        bindR (branch_candidate_from_tip G old_hash old_height mg) (\<lambda>current_candidate.
        bindR (branch_candidate_from_tip G new_hash new_height mg) (\<lambda>new_candidate.
        let chosen = (case choose_tip (refork_score_config cfg) current_candidate new_candidate of
                        Some h \<Rightarrow> h | None \<Rightarrow> old_hash) in
        if chosen \<noteq> new_hash then Inr Stay
        else
          bindR (build_branch_path_from_hash G cfg new_hash mg) (\<lambda>np.
          (case np of
             Missing _ missing_hash ctxt \<Rightarrow> Inr (NeedMoreData missing_hash ctxt)
           | Complete new_path \<Rightarrow>
               bindR (build_branch_path_from_hash G cfg (bl_block_hash canonical_tip_block) mg) (\<lambda>op.
               (case op of
                  Missing _ missing_hash ctxt \<Rightarrow> Inr (NeedMoreData missing_hash ctxt)
                | Complete old_path \<Rightarrow>
                    Inr (plan_from_paths cfg old_height old_hash new_height new_hash new_path old_path))))))))) "

section \<open>Executing a plan\<close>

definition mark_if_known :: "'db Engine \<Rightarrow> hash \<Rightarrow> ('db RockDBManager, unit) sm \<Rightarrow> ('db RockDBManager, unit) sm" where
  "mark_if_known G h m =
     bindS (readS (\<lambda>mg. Inr (has_block_meta_by_hash G h mg))) (\<lambda>has. if has = Inr True then m else returnS ())"

definition preserve_old_block :: "'db Engine \<Rightarrow> BlockExt \<Rightarrow> Block \<Rightarrow> ('db RockDBManager, unit) sm" where
  "preserve_old_block G X old_block =
     bindS (readS (\<lambda>mg. Inr (has_block_by_hash G (bl_block_hash old_block) mg))) (\<lambda>has.
     if has then returnS ()
     else (case block_serialize_for_storage X old_block of
             Inr bytes \<Rightarrow> ignoreS (index_block_by_hash G X (bl_block_hash old_block) bytes)
           | Inl _ \<Rightarrow> returnS ()))"

definition detach_step ::
    "'db Engine \<Rightarrow> BlockExt \<Rightarrow> (nat \<Rightarrow> hash \<Rightarrow> ('db RockDBManager, unit) sm) \<Rightarrow> ReorgStep \<Rightarrow> ('db RockDBManager, unit) sm" where
  "detach_step G X revert_step step =
     bindS (readS (get_block_by_index G X (rs_height step))) (\<lambda>ob.
     bindS (case ob of Some old_block \<Rightarrow> preserve_old_block G X old_block | None \<Rightarrow> returnS ()) (\<lambda>_.
     bindS (mark_if_known G (rs_hash step) (ignoreS (set_block_meta_status G (rs_hash step) SideBranch))) (\<lambda>_.
     revert_step (rs_height step) (rs_hash step))))"

definition attach_step ::
    "'db Engine \<Rightarrow> BlockExt \<Rightarrow> (nat \<Rightarrow> hash \<Rightarrow> ('db RockDBManager, unit) sm) \<Rightarrow> ReorgStep \<Rightarrow> ('db RockDBManager, unit) sm" where
  "attach_step G X apply_step step =
     bindS (readS (\<lambda>mg. ok_or (NotFound ''block_by_hash while attaching'') (get_block_by_hash G X (rs_hash step) mg))) (\<lambda>block.
     if m_index (bl_metadata block) \<noteq> rs_height step then failS (BlockchainError ''reorg attach height mismatch'')
     else
       bindS (readS (\<lambda>_. block_serialize_for_storage X block)) (\<lambda>bytes.
       bindS (index_block_by_hash G X (rs_hash step) bytes) (\<lambda>_.
       bindS (store_latest_block G bytes (rs_height step)) (\<lambda>_.
       bindS (set_canonical_hash_at_height G (rs_height step) (rs_hash step)) (\<lambda>_.
       bindS (mark_if_known G (rs_hash step) (set_block_meta_status G (rs_hash step) Canonical)) (\<lambda>_.
       apply_step (rs_height step) (rs_hash step)))))))"

definition apply_reorg ::
    "'db Engine \<Rightarrow> BlockExt \<Rightarrow> ReorgPlan \<Rightarrow> (nat \<Rightarrow> hash \<Rightarrow> ('db RockDBManager, unit) sm) \<Rightarrow>
     (nat \<Rightarrow> hash \<Rightarrow> ('db RockDBManager, unit) sm) \<Rightarrow> ('db RockDBManager, unit) sm" where
  "apply_reorg G X plan revert_step apply_step =
     (if is_noop plan then returnS ()
      else
        bindS (forS (detach_step G X revert_step) (rp_detach plan)) (\<lambda>_.
        bindS (delete_canonical_hash_range G (saturating_add 64 (rp_common_ancestor_height plan) 1)
                 (rp_old_tip_height plan)) (\<lambda>_.
        bindS (forS (attach_step G X apply_step) (rp_attach plan)) (\<lambda>_.
        set_canonical_tip G (rp_new_tip_hash plan) (rp_new_tip_height plan)))))"

end
