(* ===== verification/ReorgProps.thy ===== *)
theory ReorgProps
  imports Reorg
begin

text \<open>
  Properties of reorganization: the plan that fork choice makes, its execution, and that the canonical
  chain view follows the new tip afterwards.
\<close>

section \<open>Paths in the fork graph\<close>

text \<open>A path downwards: each block has metadata, with the height given, and the next is its parent.\<close>

fun parent_path :: "(hash \<Rightarrow> ForkBlockMeta option) \<Rightarrow> (nat \<times> hash) list \<Rightarrow> bool" where
  "parent_path M [] = True"
| "parent_path M [(h, x)] = (\<exists>m. M x = Some m \<and> fm_height m = h)"
| "parent_path M ((h, x) # (h', x') # rest) =
     ((\<exists>m. M x = Some m \<and> fm_height m = h \<and> h \<noteq> 0 \<and> fm_parent_hash m = x' \<and> x' \<noteq> zero_hash) \<and>
      parent_path M ((h', x') # rest))"

lemma parent_path_Cons:
  "parent_path M ((h, x) # p) \<longleftrightarrow>
     (\<exists>m. M x = Some m \<and> fm_height m = h \<and> (p = [] \<or> h \<noteq> 0 \<and> fm_parent_hash m = snd (hd p) \<and> snd (hd p) \<noteq> zero_hash)) \<and>
     parent_path M p"
  by (cases p) auto

lemma parent_path_append_left: "parent_path M (p @ q) \<Longrightarrow> parent_path M p"
  by (induction p) (auto simp: parent_path_Cons hd_append split: if_splits)

lemma branch_path_sound:
  assumes "engine_ok G view" and "branch_path_loop G n cur path mg = Inr (Complete p)"
  shows "\<exists>q. p = path @ q \<and> parent_path (meta_at view mg) q \<and> length q \<le> n \<and> (n > 0 \<longrightarrow> q \<noteq> [] \<and> snd (hd q) = cur)"
  using assms(2)
proof (induction n arbitrary: cur path)
  case (Suc n)
  obtain m where g: "get_block_meta_by_hash G cur mg = Inr (Some m)"
    using Suc.prems by (auto simp: res_simps split: option.splits)
  have m: "meta_at view mg cur = Some m" using get_meta_at [OF assms(1) g] by simp
  show ?case
  proof (cases "fm_height m = 0 \<or> fm_parent_hash m = zero_hash")
    case True
    then show ?thesis using Suc.prems g m by (intro exI [of _ "[(fm_height m, cur)]"]) (auto simp: Let_def)
  next
    case False
    then have "branch_path_loop G n (fm_parent_hash m) (path @ [(fm_height m, cur)]) mg = Inr (Complete p)"
      using Suc.prems g by (auto simp: res_simps Let_def split: if_splits)
    from Suc.IH [OF this] obtain q where q: "p = path @ (fm_height m, cur) # q" "parent_path (meta_at view mg) q"
      "length q \<le> n" "n > 0 \<longrightarrow> q \<noteq> [] \<and> snd (hd q) = fm_parent_hash m" by auto
    moreover from q(3,4) have "q \<noteq> [] \<Longrightarrow> snd (hd q) = fm_parent_hash m" by (cases n) auto
    ultimately show ?thesis using False m
      by (intro exI [of _ "(fm_height m, cur) # q"]) (auto simp: parent_path_Cons)
  qed
qed auto

lemma build_branch_path_sound:
  assumes "engine_ok G view" and "build_branch_path_from_hash G cfg tip mg = Inr (Complete p)"
  shows "parent_path (meta_at view mg) p \<and> p \<noteq> [] \<and> snd (hd p) = tip \<and> length p \<le> Suc (rf_max_reorg_depth cfg)"
proof -
  have "branch_path_loop G (Suc (rf_max_reorg_depth cfg)) tip [] mg = Inr (Complete p)"
    using assms(2) by (auto simp: build_branch_path_from_hash_def res_simps int_defs split: if_splits)
  from branch_path_sound [OF assms(1) this] show ?thesis by auto
qed

section \<open>The common ancestor of two paths\<close>

lemma hget_fold_insert:
  "hget (fold (\<lambda>(h, hash) m. hinsert hash h m) path m) x = None \<longleftrightarrow> x \<notin> snd ` set path \<and> hget m x = None"
proof (induction path arbitrary: m)
  case (Cons a path)
  show ?case using Cons.IH [of "hinsert (snd a) (fst a) m"] by (auto simp: case_prod_beta)
qed simp

lemma best_common_spec:
  assumes "best_common m path best = Some (h, x)"
    and "\<forall>b. best = Some b \<longrightarrow> b \<in> A \<and> hget m (snd b) \<noteq> None"
  shows "(h, x) \<in> A \<union> set path \<and> hget m x \<noteq> None \<and> (\<forall>b. best = Some b \<longrightarrow> fst b \<le> h) \<and>
    (\<forall>(h', y)\<in>set path. hget m y \<noteq> None \<longrightarrow> h' \<le> h)"
  using assms
proof (induction m path best arbitrary: A rule: best_common.induct)
  case (1 m best)
  then show ?case by auto
next
  case (2 m h_old hash_old rest best)
  let ?b = "if hget m hash_old \<noteq> None then (case best of Some (best_h, x) \<Rightarrow> if h_old \<le> best_h then best
      else Some (h_old, hash_old) | None \<Rightarrow> Some (h_old, hash_old)) else best"
  have b: "best_common m rest ?b = Some (h, x)" using 2(2) by simp
  have "\<forall>b. ?b = Some b \<longrightarrow> b \<in> insert (h_old, hash_old) A \<and> hget m (snd b) \<noteq> None"
    using 2(3) by (auto split: option.splits)
  from 2(1) [OF b this] show ?case by (auto split: if_splits option.splits prod.splits)
qed

lemma best_common_None: "best_common m path best = None \<longleftrightarrow> best = None \<and> (\<forall>(h, x)\<in>set path. hget m x = None)"
  by (induction m path best rule: best_common.induct) (auto split: option.splits if_splits)

lemma find_common_ancestor_spec:
  assumes "find_common_ancestor new_path old_path = Some (h, x)"
  shows "(h, x) \<in> set old_path \<and> x \<in> snd ` set new_path \<and> (\<forall>(h', y)\<in>set old_path. y \<in> snd ` set new_path \<longrightarrow> h' \<le> h)"
  using best_common_spec [OF assms [unfolded find_common_ancestor_def], of "{}"]
  by (auto simp: hget_fold_insert simp del: not_None_eq)

section \<open>Heights along a path\<close>

text \<open>The fork graph the code maintains: a block is one above its parent.\<close>

definition heights_linked :: "(hash \<Rightarrow> ForkBlockMeta option) \<Rightarrow> bool" where
  "heights_linked M \<longleftrightarrow> (\<forall>x m p. M x = Some m \<longrightarrow> fm_height m \<noteq> 0 \<longrightarrow> M (fm_parent_hash m) = Some p \<longrightarrow>
     fm_height m = Suc (fm_height p))"

lemma path_heights:
  assumes "heights_linked M" and "parent_path M p" and "i < length p"
  shows "fst (p ! i) + i = fst (hd p)"
  using assms(2,3)
proof (induction p arbitrary: i)
  case (Cons a p)
  show ?case
  proof (cases i)
    case (Suc j)
    with Cons.prems have j: "j < length p" and p: "parent_path M p" and ne: "p \<noteq> []"
      by (auto simp: parent_path_Cons [of M "fst a" "snd a", simplified])
    obtain h' x' r where r: "p = (h', x') # r" using ne by (cases p) auto
    obtain m m' where "M (snd a) = Some m" "fm_height m = fst a" "fst a \<noteq> 0" "fm_parent_hash m = x'"
      "M x' = Some m'" "fm_height m' = h'"
      using Cons.prems(1) p by (cases a) (auto simp: r parent_path_Cons)
    then have "fst a = Suc h'" using assms(1) by (auto simp: heights_linked_def)
    then show ?thesis using Cons.IH [OF p j] by (simp add: Suc r)
  qed simp
qed simp

lemma parent_path_height: "parent_path M p \<Longrightarrow> (h, x) \<in> set p \<Longrightarrow> \<exists>m. M x = Some m \<and> fm_height m = h"
  by (induction p) (auto simp: parent_path_Cons)

section \<open>The plan\<close>

definition step_pair :: "ReorgStep \<Rightarrow> nat \<times> hash" where
  "step_pair s = (rs_height s, rs_hash s)"

definition ancestor_pair :: "ReorgPlan \<Rightarrow> nat \<times> hash" where
  "ancestor_pair plan = (rp_common_ancestor_height plan, rp_common_ancestor_hash plan)"

text \<open>What a plan promises: the blocks to detach lead from the old tip down to the common ancestor, the
  blocks to attach, read backwards, from the new tip, and no block is on both lists.\<close>

definition plan_spec :: "(hash \<Rightarrow> ForkBlockMeta option) \<Rightarrow> ReorgPlan \<Rightarrow> bool" where
  "plan_spec M plan \<longleftrightarrow>
     parent_path M (map step_pair (rp_detach plan) @ [ancestor_pair plan]) \<and>
     snd (hd (map step_pair (rp_detach plan) @ [ancestor_pair plan])) = rp_old_tip_hash plan \<and>
     parent_path M (map step_pair (rev (rp_attach plan)) @ [ancestor_pair plan]) \<and>
     snd (hd (map step_pair (rev (rp_attach plan)) @ [ancestor_pair plan])) = rp_new_tip_hash plan \<and>
     rs_hash ` set (rp_detach plan) \<inter> rs_hash ` set (rp_attach plan) = {}"

lemma steps_until_pairs: "map step_pair (steps_until c path) = takeWhile (\<lambda>(h, x). x \<noteq> c) path"
  by (auto simp: steps_until_def step_pair_def comp_def case_prod_beta)

lemma path_to_ancestor:
  assumes "parent_path M p" and "c \<in> snd ` set p" and "M c = Some m"
  shows "\<exists>r. p = takeWhile (\<lambda>(h, x). x \<noteq> c) p @ (fm_height m, c) # r"
  using assms(1,2)
proof (induction p)
  case (Cons a p)
  then show ?case using assms(3) by (cases "snd a = c") (cases a; auto simp: parent_path_Cons)+
qed simp

lemma plan_from_paths_fields:
  assumes "plan_from_paths cfg oh ox nh nx np op = Reorg plan"
  shows "find_common_ancestor np op = Some (ancestor_pair plan)"
    and "rp_detach plan = steps_until (rp_common_ancestor_hash plan) op"
    and "rp_attach plan = rev (steps_until (rp_common_ancestor_hash plan) np)"
    and "rp_old_tip_height plan = oh \<and> rp_old_tip_hash plan = ox \<and> rp_new_tip_height plan = nh \<and> rp_new_tip_hash plan = nx"
    and "length (rp_detach plan) \<le> rf_max_reorg_depth cfg \<and> length (rp_attach plan) \<le> rf_max_reorg_depth cfg"
    and "\<not> is_noop plan"
  using assms
  by (auto simp: plan_from_paths_def compute_reorg_steps_def ancestor_pair_def is_noop_def split: if_splits option.splits)

lemma hd_append_single: "hd (xs @ y # ys) = hd (xs @ [y])"
  by (cases xs) auto

lemma plan_from_paths_sound:
  assumes pl: "plan_from_paths cfg oh ox nh nx np op = Reorg plan" and hl: "heights_linked M"
    and n: "parent_path M np" "snd (hd np) = nx" and o: "parent_path M op" "snd (hd op) = ox"
  shows "plan_spec M plan"
proof -
  note f = plan_from_paths_fields [OF pl]
  define c where "c = rp_common_ancestor_hash plan"
  have co: "ancestor_pair plan \<in> set op" and cn: "c \<in> snd ` set np"
    and best: "\<And>h y. (h, y) \<in> set op \<Longrightarrow> y \<in> snd ` set np \<Longrightarrow> h \<le> rp_common_ancestor_height plan"
    using find_common_ancestor_spec [OF f(1) [unfolded ancestor_pair_def]] by (auto simp: ancestor_pair_def c_def)
  obtain m where m: "M c = Some m" "fm_height m = rp_common_ancestor_height plan"
    using parent_path_height [OF o(1) co [unfolded ancestor_pair_def]] by (auto simp: c_def)
  have a: "ancestor_pair plan = (fm_height m, c)" by (simp add: ancestor_pair_def m c_def)
  have "c \<in> snd ` set op" using imageI [OF co, of snd] a by simp
  then obtain ro rn where ro: "op = map step_pair (rp_detach plan) @ ancestor_pair plan # ro"
    and rn: "np = map step_pair (rev (rp_attach plan)) @ ancestor_pair plan # rn"
    using path_to_ancestor [OF o(1) _ m(1)] path_to_ancestor [OF n(1) cn m(1)]
    by (auto simp: f(2,3) steps_until_pairs c_def [symmetric] a)
  have "rs_hash ` set (rp_detach plan) \<inter> rs_hash ` set (rp_attach plan) = {}"
  proof (rule ccontr)
    assume "\<not> ?thesis"
    then obtain s t where s: "s \<in> set (rp_detach plan)" and t: "t \<in> set (rp_attach plan)" "rs_hash s = rs_hash t"
      by auto
    obtain i where i: "i < length (rp_detach plan)" "rp_detach plan ! i = s" using s by (auto simp: in_set_conv_nth)
    have "step_pair t \<in> set np" using t rn by simp
    then have "snd (step_pair t) \<in> snd ` set np" by (rule imageI)
    then have "rs_hash s \<in> snd ` set np" using t by (simp add: step_pair_def)
    moreover have "(rs_height s, rs_hash s) \<in> set op" using s by (simp add: ro step_pair_def [symmetric])
    ultimately have "rs_height s \<le> rp_common_ancestor_height plan" using best by blast
    moreover have "fst (op ! i) + i = fst (hd op)"
      "fst (op ! length (rp_detach plan)) + length (rp_detach plan) = fst (hd op)"
      by (rule path_heights [OF hl o(1)], use i in \<open>simp add: ro\<close>)+
    ultimately show False using i by (simp add: ro nth_append step_pair_def ancestor_pair_def)
  qed
  moreover have "parent_path M (map step_pair (rp_detach plan) @ [ancestor_pair plan])"
    "parent_path M (map step_pair (rev (rp_attach plan)) @ [ancestor_pair plan])"
    by (rule parent_path_append_left [of _ _ ro], use o(1) ro in simp)
       (rule parent_path_append_left [of _ _ rn], use n(1) rn in simp)
  moreover have "snd (hd (map step_pair (rp_detach plan) @ [ancestor_pair plan])) = ox"
    using o(2) unfolding ro hd_append_single [of _ _ ro] .
  moreover have "snd (hd (map step_pair (rev (rp_attach plan)) @ [ancestor_pair plan])) = nx"
    using n(2) unfolding rn hd_append_single [of _ _ rn] .
  ultimately show ?thesis using f(4) by (simp only: plan_spec_def simp_thms)
qed

text \<open>With linked heights the two lists cover exactly the heights above the ancestor.\<close>

lemma path_height_list:
  assumes "heights_linked M" and "parent_path M (p @ [(h, x)])"
  shows "map fst p = rev [Suc h..<Suc (h + length p)]"
proof (rule nth_equalityI)
  fix i assume "i < length (map fst p)"
  then have i: "i < length p" by simp
  have "fst ((p @ [(h, x)]) ! i) + i = fst ((p @ [(h, x)]) ! length p) + length p"
    using path_heights [OF assms, of i] path_heights [OF assms, of "length p"] i by simp
  then show "map fst p ! i = rev [Suc h..<Suc (h + length p)] ! i"
    using i by (simp add: nth_append rev_nth del: upt_Suc)
qed (simp del: upt_Suc)

lemma plan_heights:
  assumes "heights_linked M" and "plan_spec M plan"
    and "\<And>m. M (rp_old_tip_hash plan) = Some m \<Longrightarrow> fm_height m = rp_old_tip_height plan"
    and "\<And>m. M (rp_new_tip_hash plan) = Some m \<Longrightarrow> fm_height m = rp_new_tip_height plan"
  shows "rp_common_ancestor_height plan + length (rp_detach plan) = rp_old_tip_height plan"
    and "rp_common_ancestor_height plan + length (rp_attach plan) = rp_new_tip_height plan"
    and "detach_heights plan = rev [Suc (rp_common_ancestor_height plan)..<Suc (rp_old_tip_height plan)]"
    and "attach_heights plan = [Suc (rp_common_ancestor_height plan)..<Suc (rp_new_tip_height plan)]"
proof -
  let ?d = "map step_pair (rp_detach plan)" and ?u = "map step_pair (rev (rp_attach plan))" and ?a = "ancestor_pair plan"
  have d: "parent_path M (?d @ [?a])" "snd (hd (?d @ [?a])) = rp_old_tip_hash plan"
    and u: "parent_path M (?u @ [?a])" "snd (hd (?u @ [?a])) = rp_new_tip_hash plan"
    using assms(2) by (auto simp: plan_spec_def)
  have "hd (?d @ [?a]) \<in> set (?d @ [?a])" "hd (?u @ [?a]) \<in> set (?u @ [?a])" by (rule hd_in_set; simp)+
  then have "fst (hd (?d @ [?a])) = rp_old_tip_height plan" "fst (hd (?u @ [?a])) = rp_new_tip_height plan"
    using parent_path_height [OF d(1)] parent_path_height [OF u(1)] assms(3,4) d(2) u(2)
    by (metis prod.collapse)+
  then show o: "rp_common_ancestor_height plan + length (rp_detach plan) = rp_old_tip_height plan"
    and n: "rp_common_ancestor_height plan + length (rp_attach plan) = rp_new_tip_height plan"
    using path_heights [OF assms(1) d(1), of "length ?d"] path_heights [OF assms(1) u(1), of "length ?u"]
    by (simp_all add: nth_append ancestor_pair_def)
  have e: "map fst (map step_pair s) = map rs_height s" for s by (simp add: step_pair_def)
  show "detach_heights plan = rev [Suc (rp_common_ancestor_height plan)..<Suc (rp_old_tip_height plan)]"
    using path_height_list [OF assms(1) d(1) [unfolded ancestor_pair_def]] unfolding e detach_heights_def by (simp add: o)
  have "rev (attach_heights plan) = rev [Suc (rp_common_ancestor_height plan)..<Suc (rp_new_tip_height plan)]"
    using path_height_list [OF assms(1) u(1) [unfolded ancestor_pair_def]] unfolding e attach_heights_def
    by (simp add: n rev_map del: upt_Suc)
  then show "attach_heights plan = [Suc (rp_common_ancestor_height plan)..<Suc (rp_new_tip_height plan)]" by (simp only: rev_is_rev_conv)
qed

section \<open>Executing a plan\<close>

text \<open>The callbacks \<open>ReorgManager::apply_reorg_plan\<close> passes.\<close>

definition no_callback :: "nat \<Rightarrow> hash \<Rightarrow> ('db RockDBManager, unit) sm" where
  "no_callback h x = returnS ()"

lemma mark_if_known_frames [frames]: "preserves f m \<Longrightarrow> preserves f (mark_if_known G h m)"
  unfolding mark_if_known_def by (intro frames)

lemma preserve_old_block_frames [frames]:
  "(\<And>b. preserves f (index_block_by_hash G X (bl_block_hash ob) b)) \<Longrightarrow> preserves f (preserve_old_block G X ob)"
  unfolding preserve_old_block_def by (intro frames)

lemma no_callback_frames [frames]: "preserves f (no_callback h x)"
  unfolding no_callback_def by (rule frames)

lemma detach_step_frames [frames]:
  assumes "\<And>h b. preserves f (index_block_by_hash G X h b)" and "\<And>h s. preserves f (set_block_meta_status G h s)"
  shows "preserves f (detach_step G X no_callback st)"
  unfolding detach_step_def by (intro frames assms)

lemma attach_step_frames [frames]:
  assumes "\<And>h b. preserves f (index_block_by_hash G X h b)" and "\<And>h s. preserves f (set_block_meta_status G h s)"
    and "\<And>b h. preserves f (store_latest_block G b h)" and "\<And>i h. preserves f (set_canonical_hash_at_height G i h)"
  shows "preserves f (attach_step G X no_callback st)"
  unfolding attach_step_def by (intro frames assms)

lemma apply_reorg_skeleton:
  assumes "engine_ok G view"
  shows "preserves (skeleton view) (apply_reorg G X plan no_callback no_callback)"
  unfolding apply_reorg_def using assms by (intro frames) simp_all

lemma attach_step_canon:
  assumes ok: "engine_ok G view" and st: "attach_step G X no_callback st mg = (Inr u, mg')"
    and "rs_height st < 256 ^ 8" and "j < 256 ^ 8"
  shows "canon view mg' j = (if j = rs_height st then Some (rs_hash st) else canon view mg j)"
proof -
  let ?C = CANONICAL_HEIGHT_TO_HASH_COLUMN_NAME
  obtain bytes m1 m2 m3 m4 where 1: "index_block_by_hash G X (rs_hash st) bytes mg = (Inr (), m1)"
    and 2: "store_latest_block G bytes (rs_height st) m1 = (Inr (), m2)"
    and 3: "set_canonical_hash_at_height G (rs_height st) (rs_hash st) m2 = (Inr (), m3)"
    and 4: "mark_if_known G (rs_hash st) (set_block_meta_status G (rs_hash st) Canonical) m3 = (Inr (), m4)"
    and 5: "no_callback (rs_height st) (rs_hash st) m4 = (Inr u, mg')"
    using st unfolding attach_step_def by (auto simp: res_simps split: if_splits)
  have "canon view m2 = canon view mg"
    using keeps_canon [OF keeps_writers(1) [OF ok] 1] keeps_canon [OF keeps_writers(8) [OF ok] 2] by simp
  moreover have "canon view mg' = canon view m3"
    using keeps_canon [OF mark_if_known_frames [OF keeps_writers(3) [OF ok]] 4] 5
    by (simp add: no_callback_def res_simps)
  ultimately show ?thesis using set_canonical_hash_canon [OF ok 3 assms(3,4)] by simp
qed

lemma attach_steps_canon:
  assumes ok: "engine_ok G view" and "forS (attach_step G X no_callback) steps mg = (Inr u, mg')"
    and "\<forall>s\<in>set steps. rs_height s < 256 ^ 8" and j: "j < 256 ^ 8"
  shows "canon view mg' j = (case map_of (rev (map step_pair steps)) j of Some x \<Rightarrow> Some x | None \<Rightarrow> canon view mg j)"
  using assms(2,3)
proof (induction steps arbitrary: mg)
  case (Cons s steps)
  obtain m1 where 1: "attach_step G X no_callback s mg = (Inr (), m1)"
    and 2: "forS (attach_step G X no_callback) steps m1 = (Inr u, mg')"
    using Cons.prems(1) by (auto simp: res_simps)
  have "canon view m1 j = (if j = rs_height s then Some (rs_hash s) else canon view mg j)"
    using attach_step_canon [OF ok 1 _ j] Cons.prems(2) by simp
  then show ?case using Cons.IH [OF 2] Cons.prems(2)
    by (auto simp: step_pair_def map_add_def split: option.splits)
qed (simp add: res_simps)

lemma apply_reorg_canon:
  assumes ok: "engine_ok G view" and ap: "apply_reorg G X plan no_callback no_callback mg = (Inr u, mg')"
    and ne: "\<not> is_noop plan" and b: "rp_old_tip_height plan < 256 ^ 8" "\<forall>s\<in>set (rp_attach plan). rs_height s < 256 ^ 8"
    and j: "j < 256 ^ 8" and a: "rp_common_ancestor_height plan < 2 ^ 64 - 1"
  shows "canon view mg' j =
      (case map_of (rev (map step_pair (rp_attach plan))) j of
         Some x \<Rightarrow> Some x
       | None \<Rightarrow> if rp_common_ancestor_height plan < j \<and> j \<le> rp_old_tip_height plan then None else canon view mg j)"
    and "tip_bytes view mg' = Some (tip_view_to_bytes \<lparr>tv_tip_hash = rp_new_tip_hash plan, tv_tip_height = rp_new_tip_height plan\<rparr>)"
proof -
  have sat: "saturating_add 64 (rp_common_ancestor_height plan) 1 = Suc (rp_common_ancestor_height plan)"
    using a by (simp add: saturating_add_def)
  obtain m1 m2 m3 where 1: "forS (detach_step G X no_callback) (rp_detach plan) mg = (Inr (), m1)"
    and 2: "delete_canonical_hash_range G (Suc (rp_common_ancestor_height plan)) (rp_old_tip_height plan) m1 = (Inr (), m2)"
    and 3: "forS (attach_step G X no_callback) (rp_attach plan) m2 = (Inr (), m3)"
    and 4: "set_canonical_tip G (rp_new_tip_hash plan) (rp_new_tip_height plan) m3 = (Inr u, mg')"
    using ap ne sat unfolding apply_reorg_def by (auto simp: res_simps)
  have "keeps view CANONICAL_HEIGHT_TO_HASH_COLUMN_NAME (forS (detach_step G X no_callback) (rp_detach plan))"
    using ok by (intro frames) simp_all
  from keeps_canon [OF this 1] have "canon view m1 = canon view mg" .
  then have "canon view m2 j =
      (if rp_common_ancestor_height plan < j \<and> j \<le> rp_old_tip_height plan then None else canon view mg j)"
    using delete_range_canon [OF ok 2 b(1) j] by (simp add: Suc_le_eq)
  then show "canon view mg' j = (case map_of (rev (map step_pair (rp_attach plan))) j of Some x \<Rightarrow> Some x
       | None \<Rightarrow> if rp_common_ancestor_height plan < j \<and> j \<le> rp_old_tip_height plan then None else canon view mg j)"
    using attach_steps_canon [OF ok 3 b(2) j] keeps_canon [OF keeps_writers(9) [OF ok] 4]
    by (simp split: option.splits)
  show "tip_bytes view mg' = Some (tip_view_to_bytes \<lparr>tv_tip_hash = rp_new_tip_hash plan, tv_tip_height = rp_new_tip_height plan\<rparr>)"
    by (rule set_canonical_tip_bytes [OF ok 4])
qed

section \<open>The canonical view follows the tip\<close>

text \<open>The invariant of the canonical view: the slot of every height at or below the tip that the fork
  graph reaches from the tip holds the ancestor at that height.\<close>

definition follows_tip :: "(hash \<Rightarrow> ForkBlockMeta option) \<Rightarrow> (nat \<Rightarrow> hash option) \<Rightarrow> hash \<Rightarrow> nat \<Rightarrow> bool" where
  "follows_tip M c tip h \<longleftrightarrow> (\<forall>i x. i \<le> h \<longrightarrow> ancestor_at M tip i = Some x \<longrightarrow> c (h - i) = Some x)"

lemma ancestor_add: "ancestor_at M x i = Some y \<Longrightarrow> ancestor_at M x (i + j) = ancestor_at M y j"
  by (induction M x i rule: ancestor_at.induct) (auto split: option.splits if_splits)

lemma ancestor_skeleton: "ancestor_at (skeleton view mg) = ancestor_at (meta_at view mg)"
proof (intro ext)
  fix h i show "ancestor_at (skeleton view mg) h i = ancestor_at (meta_at view mg) h i"
    by (induction i arbitrary: h) (auto simp: skeleton_def split: option.splits)
qed

lemma nonzero_hash: "length h = 64 \<Longrightarrow> h \<noteq> zero_hash \<Longrightarrow> \<not> list_all (\<lambda>b. b = 0) h"
  using replicate_length_same [of h 0] by (auto simp: list_all_iff zero_hash_def)

lemma parent_path_ancestor:
  assumes "\<forall>x m. M x = Some m \<longrightarrow> length (fm_parent_hash m) = 64" and "parent_path M p" and "i < length p"
  shows "ancestor_at M (snd (hd p)) i = Some (snd (p ! i))"
  using assms(2,3)
proof (induction p arbitrary: i)
  case (Cons a p)
  show ?case
  proof (cases i)
    case (Suc j)
    obtain h x where a: "a = (h, x)" by (cases a)
    have "p \<noteq> []" using Cons.prems(2) Suc by auto
    then obtain m where m: "M x = Some m" "fm_parent_hash m = snd (hd p)" "snd (hd p) \<noteq> zero_hash" "parent_path M p"
      using Cons.prems(1) by (auto simp: a parent_path_Cons)
    have "\<not> list_all (\<lambda>b. b = 0) (fm_parent_hash m)" using nonzero_hash assms(1) m by metis
    then show ?thesis using Cons.IH [OF m(4), of j] Cons.prems(2) m by (simp add: a Suc)
  qed simp
qed simp

lemma complete_case:
  "(case p of Complete x \<Rightarrow> f x | Missing q h c \<Rightarrow> Inr (NeedMoreData h c)) = Inr (Reorg plan) \<longleftrightarrow>
     (\<exists>x. p = Complete x \<and> f x = Inr (Reorg plan))"
  by (cases p) auto

lemma on_new_block_plan:
  assumes "on_new_block G X cfg b mg = Inr (Reorg plan)"
  shows "\<exists>oh ox tb np op c n. get_block_by_hash G X ox mg = Some tb \<and>
    branch_candidate_from_tip G ox oh mg = Inr c \<and>
    branch_candidate_from_tip G (bl_block_hash b) (m_index (bl_metadata b)) mg = Inr n \<and>
    (case choose_tip (refork_score_config cfg) c n of Some h \<Rightarrow> h | None \<Rightarrow> ox) = bl_block_hash b \<and>
    build_branch_path_from_hash G cfg (bl_block_hash b) mg = Inr (Complete np) \<and>
    build_branch_path_from_hash G cfg (bl_block_hash tb) mg = Inr (Complete op) \<and>
    plan_from_paths cfg oh ox (m_index (bl_metadata b)) (bl_block_hash b) np op = Reorg plan"
proof -
  obtain oh ox tb where l: "load_canonical_tip_block G X mg = Inr (oh, ox, tb)"
    using assms by (auto simp: on_new_block_def Let_def res_simps)
  have t: "get_block_by_hash G X ox mg = Some tb"
    using l by (auto simp: load_canonical_tip_block_def res_simps split: option.splits)
  note e = assms [unfolded on_new_block_def Let_def l bindR.simps case_prod_conv]
  have "\<not> (m_previous_hash (bl_metadata b) = ox \<and> m_index (bl_metadata b) = saturating_add 64 oh 1)"
    using e by (auto simp del: One_nat_def)
  note e = e [unfolded if_not_P [OF this] bindR_eq_Inr]
  then obtain c n where c: "branch_candidate_from_tip G ox oh mg = Inr c"
    "branch_candidate_from_tip G (bl_block_hash b) (m_index (bl_metadata b)) mg = Inr n"
    and r: "(if (case choose_tip (refork_score_config cfg) c n of None \<Rightarrow> ox | Some h \<Rightarrow> h) \<noteq> bl_block_hash b then Inr Stay
      else bindR (build_branch_path_from_hash G cfg (bl_block_hash b) mg) (\<lambda>np. case np of
        Complete new_path \<Rightarrow> bindR (build_branch_path_from_hash G cfg (bl_block_hash tb) mg) (\<lambda>op. case op of
          Complete old_path \<Rightarrow> Inr (plan_from_paths cfg oh ox (m_index (bl_metadata b)) (bl_block_hash b) new_path old_path)
        | Missing _ h k \<Rightarrow> Inr (NeedMoreData h k)) | Missing _ h k \<Rightarrow> Inr (NeedMoreData h k))) = Inr (Reorg plan)" by blast
  obtain np op where "(case choose_tip (refork_score_config cfg) c n of Some h \<Rightarrow> h | None \<Rightarrow> ox) = bl_block_hash b"
    "build_branch_path_from_hash G cfg (bl_block_hash b) mg = Inr (Complete np)"
    "build_branch_path_from_hash G cfg (bl_block_hash tb) mg = Inr (Complete op)"
    "plan_from_paths cfg oh ox (m_index (bl_metadata b)) (bl_block_hash b) np op = Reorg plan"
    using r by (auto simp: bindR_eq_Inr complete_case split: if_splits)
  then show ?thesis using t c by blast
qed

text \<open>The stored blocks and metadata that fork choice reads are consistent: a block is stored under its
  own hash, heights are linked, and the two tips have the heights they are known by.\<close>

definition fork_graph_ok :: "'db Engine \<Rightarrow> BlockExt \<Rightarrow> ('db \<Rightarrow> kv_view) \<Rightarrow> ReorgPlan \<Rightarrow> 'db RockDBManager \<Rightarrow> bool" where
  "fork_graph_ok G X view plan mg \<longleftrightarrow>
     heights_linked (meta_at view mg) \<and>
     (\<forall>h b. get_block_by_hash G X h mg = Some b \<longrightarrow> bl_block_hash b = h) \<and>
     (\<forall>m. meta_at view mg (rp_old_tip_hash plan) = Some m \<longrightarrow> fm_height m = rp_old_tip_height plan) \<and>
     (\<forall>m. meta_at view mg (rp_new_tip_hash plan) = Some m \<longrightarrow> fm_height m = rp_new_tip_height plan)"

lemma on_new_block_sound:
  assumes ok: "engine_ok G view" and nb: "on_new_block G X cfg b mg = Inr (Reorg plan)"
    and gr: "fork_graph_ok G X view plan mg"
  shows "plan_spec (meta_at view mg) plan"
    and "rp_new_tip_hash plan = bl_block_hash b \<and> rp_new_tip_height plan = m_index (bl_metadata b)"
    and "length (rp_detach plan) \<le> rf_max_reorg_depth cfg \<and> length (rp_attach plan) \<le> rf_max_reorg_depth cfg"
    and "\<not> is_noop plan"
proof -
  obtain oh ox tb np op where t: "get_block_by_hash G X ox mg = Some tb"
    and n: "build_branch_path_from_hash G cfg (bl_block_hash b) mg = Inr (Complete np)"
    and o: "build_branch_path_from_hash G cfg (bl_block_hash tb) mg = Inr (Complete op)"
    and pl: "plan_from_paths cfg oh ox (m_index (bl_metadata b)) (bl_block_hash b) np op = Reorg plan"
    using on_new_block_plan [OF nb] by blast
  have "bl_block_hash tb = ox" "heights_linked (meta_at view mg)" using t gr by (auto simp: fork_graph_ok_def)
  then show "plan_spec (meta_at view mg) plan"
    using plan_from_paths_sound [OF pl] build_branch_path_sound [OF ok n] build_branch_path_sound [OF ok o] by blast
  show "rp_new_tip_hash plan = bl_block_hash b \<and> rp_new_tip_height plan = m_index (bl_metadata b)"
    "length (rp_detach plan) \<le> rf_max_reorg_depth cfg \<and> length (rp_attach plan) \<le> rf_max_reorg_depth cfg"
    "\<not> is_noop plan"
    using plan_from_paths_fields(4-6) [OF pl] by auto
qed

lemma fork_graph_heights:
  assumes "fork_graph_ok G X view plan mg" and "plan_spec (meta_at view mg) plan"
  shows "rp_common_ancestor_height plan + length (rp_detach plan) = rp_old_tip_height plan"
    and "rp_common_ancestor_height plan + length (rp_attach plan) = rp_new_tip_height plan"
    and "detach_heights plan = rev [Suc (rp_common_ancestor_height plan)..<Suc (rp_old_tip_height plan)]"
    and "attach_heights plan = [Suc (rp_common_ancestor_height plan)..<Suc (rp_new_tip_height plan)]"
  using plan_heights [of "meta_at view mg" plan] assms by (auto simp: fork_graph_ok_def)

lemma plan_tips_differ:
  assumes gr: "fork_graph_ok G X view plan mg" and sp: "plan_spec (meta_at view mg) plan" and ne: "\<not> is_noop plan"
  shows "rp_new_tip_hash plan \<noteq> rp_old_tip_hash plan"
proof
  assume eq: "rp_new_tip_hash plan = rp_old_tip_hash plan"
  note h = fork_graph_heights(1,2) [OF gr sp]
  let ?d = "map step_pair (rp_detach plan) @ [ancestor_pair plan]" and ?u = "map step_pair (rev (rp_attach plan)) @ [ancestor_pair plan]"
  have d: "parent_path (meta_at view mg) ?d" "snd (hd ?d) = rp_old_tip_hash plan" and u: "snd (hd ?u) = rp_new_tip_hash plan"
    using sp by (auto simp: plan_spec_def)
  have "hd ?d \<in> set ?d" by (rule hd_in_set) simp
  then obtain m where "meta_at view mg (rp_old_tip_hash plan) = Some m"
    using parent_path_height [OF d(1)] d(2) by (metis prod.collapse)
  then have "rp_old_tip_height plan = rp_new_tip_height plan" using gr eq by (auto simp: fork_graph_ok_def)
  then have l: "length (rp_detach plan) = length (rp_attach plan)" using h by simp
  then obtain s ss t ts where "rp_detach plan = s # ss" "rev (rp_attach plan) = t # ts"
    using ne by (cases "rp_detach plan"; cases "rev (rp_attach plan)") (auto simp: is_noop_def)
  moreover from this have "t \<in> set (rp_attach plan)" by (metis list.set_intros(1) set_rev)
  ultimately show False using sp d(2) u eq by (auto simp: plan_spec_def step_pair_def)
qed

lemma plan_preferred:
  assumes nb: "on_new_block G X cfg b mg = Inr (Reorg plan)" and ne: "rp_new_tip_hash plan \<noteq> rp_old_tip_hash plan"
  shows "\<exists>c n. branch_candidate_from_tip G (rp_old_tip_hash plan) (rp_old_tip_height plan) mg = Inr c \<and>
    branch_candidate_from_tip G (rp_new_tip_hash plan) (rp_new_tip_height plan) mg = Inr n \<and>
    is_strictly_better_than (candidate_to_score n) (candidate_to_score c) (refork_score_config cfg)"
proof -
  obtain oh ox tb np op c n where c: "branch_candidate_from_tip G ox oh mg = Inr c"
    and n: "branch_candidate_from_tip G (bl_block_hash b) (m_index (bl_metadata b)) mg = Inr n"
    and ch: "(case choose_tip (refork_score_config cfg) c n of Some h \<Rightarrow> h | None \<Rightarrow> ox) = bl_block_hash b"
    and pl: "plan_from_paths cfg oh ox (m_index (bl_metadata b)) (bl_block_hash b) np op = Reorg plan"
    using on_new_block_plan [OF nb] by blast
  have f: "rp_old_tip_height plan = oh" "rp_old_tip_hash plan = ox"
    "rp_new_tip_height plan = m_index (bl_metadata b)" "rp_new_tip_hash plan = bl_block_hash b"
    using plan_from_paths_fields(4) [OF pl] by auto
  have "bc_tip_hash c = ox" using c by (auto simp: branch_candidate_from_tip_def res_simps)
  then have "is_strictly_better_than (candidate_to_score n) (candidate_to_score c) (refork_score_config cfg)"
    using ch ne f by (auto simp: choose_tip_def Let_def split: if_splits)
  then show ?thesis using c n unfolding f by blast
qed


lemma follows_new_tip:
  assumes gr: "fork_graph_ok G X view plan mg" and sp: "plan_spec (meta_at view mg) plan"
    and old: "follows_tip (meta_at view mg) c (rp_old_tip_hash plan) (rp_old_tip_height plan)"
    and new: "\<And>j. j \<le> rp_new_tip_height plan \<Longrightarrow> c' j = (case map_of (rev (map step_pair (rp_attach plan))) j of
      Some x \<Rightarrow> Some x | None \<Rightarrow> if rp_common_ancestor_height plan < j \<and> j \<le> rp_old_tip_height plan then None else c j)"
  shows "follows_tip (meta_at view mg) c' (rp_new_tip_hash plan) (rp_new_tip_height plan)"
  unfolding follows_tip_def
proof (intro allI impI)
  fix i x assume i: "i \<le> rp_new_tip_height plan" and x: "ancestor_at (meta_at view mg) (rp_new_tip_hash plan) i = Some x"
  let ?M = "meta_at view mg" and ?ca = "rp_common_ancestor_height plan"
  let ?D = "map step_pair (rp_detach plan)" and ?U = "map step_pair (rev (rp_attach plan))" and ?a = "ancestor_pair plan"
  have len: "\<forall>x m. ?M x = Some m \<longrightarrow> length (fm_parent_hash m) = 64"
    using meta_at_in_range fork_meta_in_range_def by blast
  note h = fork_graph_heights [OF gr sp]
  have d: "parent_path ?M (?D @ [?a])" "snd (hd (?D @ [?a])) = rp_old_tip_hash plan"
    and u: "parent_path ?M (?U @ [?a])" "snd (hd (?U @ [?a])) = rp_new_tip_hash plan"
    using sp by (auto simp: plan_spec_def)
  have keys: "set (map fst (rev (map step_pair (rp_attach plan)))) = {?ca<..rp_new_tip_height plan}"
    using arg_cong [OF h(4), of set] by (auto simp: attach_heights_def step_pair_def comp_def image_image)
  show "c' (rp_new_tip_height plan - i) = Some x"
  proof (cases "i < length ?U")
    case True
    have "ancestor_at ?M (rp_new_tip_hash plan) i = Some (snd (?U ! i))"
      using parent_path_ancestor [OF len u(1), where i = i] True u(2) by (simp add: nth_append)
    moreover have "fst (?U ! i) = rp_new_tip_height plan - i"
      using path_heights [OF _ u(1), of i] path_heights [OF _ u(1), of "length ?U"] True h(2) gr
      by (simp add: fork_graph_ok_def nth_append ancestor_pair_def)
    ultimately have "(rp_new_tip_height plan - i, x) \<in> set (rev (map step_pair (rp_attach plan)))"
      using x True nth_mem [of i ?U] by (simp add: rev_map) (metis prod.collapse)
    moreover have "distinct (attach_heights plan)" by (simp only: h(4) distinct_upt)
    then have "distinct (map fst (rev (map step_pair (rp_attach plan))))"
      by (simp add: attach_heights_def step_pair_def comp_def rev_map [symmetric])
    ultimately show ?thesis using new [of "rp_new_tip_height plan - i"] by (simp add: map_of_is_SomeI)
  next
    case False
    define k where "k = i - length ?U"
    have k: "i = length ?U + k" using False by (simp add: k_def)
    have "ancestor_at ?M (rp_new_tip_hash plan) (length ?U) = Some (snd ?a)"
      "ancestor_at ?M (rp_old_tip_hash plan) (length ?D) = Some (snd ?a)"
      using parent_path_ancestor [OF len u(1), where i = "length ?U"] parent_path_ancestor [OF len d(1), where i = "length ?D"] u(2) d(2)
      by (simp_all add: nth_append)
    then have "ancestor_at ?M (rp_old_tip_hash plan) (length ?D + k) = Some x"
      using x unfolding k by (simp only: ancestor_add)
    moreover have le: "length ?D + k \<le> rp_old_tip_height plan" "rp_new_tip_height plan - i = ?ca - k"
      "rp_old_tip_height plan - (length ?D + k) = ?ca - k" using i k h(1,2) by auto
    ultimately have "c (?ca - k) = Some x" using old unfolding follows_tip_def by metis
    moreover have "map_of (rev (map step_pair (rp_attach plan))) (?ca - k) = None"
      using keys by (simp only: map_of_eq_None_iff) (auto simp: image_iff)
    ultimately show ?thesis using new [of "?ca - k"] le i by simp
  qed
qed

lemma tip_in_graph:
  assumes "parent_path M (p @ [a])"
  shows "\<exists>m. M (snd (hd (p @ [a]))) = Some m"
  using parent_path_height [OF assms, of "fst (hd (p @ [a]))" "snd (hd (p @ [a]))"] hd_in_set [of "p @ [a]"] by auto

lemma reorg_bounds:
  assumes gr: "fork_graph_ok G X view plan mg" and sp: "plan_spec (meta_at view mg) plan" and ne: "\<not> is_noop plan"
  shows "rp_old_tip_height plan < 256 ^ 8" and "rp_new_tip_height plan < 256 ^ 8"
    and "\<forall>s\<in>set (rp_attach plan). rs_height s < 256 ^ 8" and "rp_common_ancestor_height plan < 2 ^ 64 - 1"
proof -
  have "\<exists>m. meta_at view mg (rp_old_tip_hash plan) = Some m" "\<exists>m. meta_at view mg (rp_new_tip_hash plan) = Some m"
    using sp tip_in_graph [of "meta_at view mg"] unfolding plan_spec_def by metis+
  then show o: "rp_old_tip_height plan < 256 ^ 8" and n: "rp_new_tip_height plan < 256 ^ 8"
    using gr meta_at_in_range [of view mg] unfolding fork_graph_ok_def fork_meta_in_range_def by metis+
  note h = fork_graph_heights [OF gr sp]
  have "rs_height s \<le> rp_new_tip_height plan" if "s \<in> set (rp_attach plan)" for s
  proof -
    have "rs_height s \<in> set (attach_heights plan)" using that by (simp add: attach_heights_def)
    then show ?thesis unfolding h(4) by auto
  qed
  then show "\<forall>s\<in>set (rp_attach plan). rs_height s < 256 ^ 8" using n le_less_trans by blast
  have "0 < length (rp_detach plan) + length (rp_attach plan)" using ne by (auto simp: is_noop_def)
  then have "rp_common_ancestor_height plan < rp_old_tip_height plan \<or> rp_common_ancestor_height plan < rp_new_tip_height plan"
    using h(1,2) by arith
  then show "rp_common_ancestor_height plan < 2 ^ 64 - 1" using o n by auto
qed

lemma reorg_follows:
  assumes ok: "engine_ok G view" and nb: "on_new_block G X cfg b mg = Inr (Reorg plan)"
    and gr: "fork_graph_ok G X view plan mg" and ap: "apply_reorg G X plan no_callback no_callback mg = (Inr u, mg')"
    and old: "follows_tip (meta_at view mg) (canon view mg) (rp_old_tip_hash plan) (rp_old_tip_height plan)"
  shows "follows_tip (meta_at view mg') (canon view mg') (bl_block_hash b) (m_index (bl_metadata b))"
proof -
  note s = on_new_block_sound [OF ok nb gr]
  note bd = reorg_bounds [OF gr s(1,4)]
  have new: "rp_new_tip_hash plan = bl_block_hash b" "rp_new_tip_height plan = m_index (bl_metadata b)" using s(2) by auto
  note c = apply_reorg_canon [OF ok ap s(4) bd(1,3) _ bd(4)]
  have "canon view mg' j = (case map_of (rev (map step_pair (rp_attach plan))) j of Some x \<Rightarrow> Some x
      | None \<Rightarrow> if rp_common_ancestor_height plan < j \<and> j \<le> rp_old_tip_height plan then None else canon view mg j)"
    if "j \<le> rp_new_tip_height plan" for j using c(1) that bd(2) le_less_trans by blast
  from follows_new_tip [OF gr s(1) old this]
  have "follows_tip (meta_at view mg) (canon view mg') (bl_block_hash b) (m_index (bl_metadata b))" by (simp only: new)
  then show ?thesis
    using preservesD [OF apply_reorg_skeleton [OF ok] ap] ancestor_skeleton unfolding follows_tip_def by metis
qed


section \<open>A concrete fork\<close>

text \<open>Blocks 2 and 3 of height 1 over block 1 of height 0, block 4 over block 3; the canonical tip is 2.
  A block is stored as its hash.\<close>

definition bare_block :: "hash \<Rightarrow> Block" where
  "bare_block d = \<lparr>bl_metadata = sample_meta, bl_batch_key = None, bl_miner = [], bl_block_hash = d, bl_reward = 0\<rparr>"

definition fork_bext :: BlockExt where
  "fork_bext = sample_bext\<lparr>
     pc_block := \<lambda>b. if length (bl_block_hash b) = 64 \<and> b = bare_block (bl_block_hash b) then Inr (bl_block_hash b) else Inl [],
     pc_block_from := \<lambda>d. if length d = 64 then Inr (bare_block d) else Inl []\<rparr>"

definition sample_chain :: mem_db where
  "sample_chain =
     [((CANONICAL_CHAIN_VIEW_COLUMN_NAME, CANONICAL_TIP_VIEW_KEY),
         tip_view_to_bytes \<lparr>tv_tip_hash = replicate 64 2, tv_tip_height = 1\<rparr>),
      ((CANONICAL_HEIGHT_TO_HASH_COLUMN_NAME, canonical_height_key 0), replicate 64 1),
      ((CANONICAL_HEIGHT_TO_HASH_COLUMN_NAME, canonical_height_key 1), replicate 64 2),
      ((BLOCKMINT_DATA_COLUMN_NAME, block_key 0), replicate 64 1), ((BLOCKMINT_DATA_COLUMN_NAME, block_key 1), replicate 64 2)] @
     map (\<lambda>h. ((BLOCK_TO_HASH_COLUMN_NAME, replicate 64 h), replicate 64 h)) [1, 2, 3, 4] @ sample_fork"

definition fork_block :: "nat \<Rightarrow> byte \<Rightarrow> byte \<Rightarrow> Block" where
  "fork_block i p h = \<lparr>bl_metadata = sample_meta\<lparr>m_index := i, m_previous_hash := replicate 64 p\<rparr>, bl_batch_key = None,
     bl_miner = [], bl_block_hash = replicate 64 h, bl_reward = 0\<rparr>"

lemma chain_meta: "get_block_meta_by_hash mem_engine (replicate 64 h) (mem_manager sample_chain) = Inr (map_of sample_graph h)"
  by (rule sample_meta_read) (auto simp: sample_chain_def)

lemma chain_has: "has_block_by_hash mem_engine (replicate 64 h) (mem_manager sample_chain) \<longleftrightarrow> h \<in> {1, 2, 3, 4}"
  using sample_fork_key [of BLOCK_TO_HASH_COLUMN_NAME "replicate 64 h"]
  by (auto simp: has_block_by_hash_def sample_chain_def split: option.splits)

lemma fork_decode: "length d = 64 \<Longrightarrow> deserialize_from_storage fork_bext d =
    Inr (bare_block d)"
  using sample_meta_valid
  by (simp add: deserialize_from_storage_def validate_storage_len_def normalize_and_validate_after_decode_def fork_bext_def
      cfg_defs Let_def canonicalize_miner_for_height_def validate_batch_key_bound_def validate_block_hash_not_zero_def
      validate_size_def sample_bext_def bare_block_def) (simp add: sample_meta_def trim_none)

lemma chain_block:
  "get_block_by_hash mem_engine fork_bext (replicate 64 h) (mem_manager sample_chain) =
     (if h \<in> {1, 2, 3, 4} then Some (bare_block (replicate 64 h)) else None)"
  using sample_fork_key [of BLOCK_TO_HASH_COLUMN_NAME "replicate 64 h"]
  by (auto simp: get_block_by_hash_def sample_chain_def fork_decode split: option.splits)

lemma chain_block_hash:
  "get_block_by_hash mem_engine fork_bext x (mem_manager sample_chain) = Some b \<Longrightarrow> bl_block_hash b = x"
  using sample_fork_key [of BLOCK_TO_HASH_COLUMN_NAME x]
  by (auto simp: get_block_by_hash_def sample_chain_def fork_decode bare_block_def split: option.splits if_splits)

lemma chain_tip: "get_canonical_tip mem_engine (mem_manager sample_chain) = Inr (Some \<lparr>tv_tip_hash = replicate 64 2, tv_tip_height = 1\<rparr>)"
  using tip_view_codec.from_to [of "\<lparr>tv_tip_hash = replicate 64 2, tv_tip_height = 1\<rparr>"]
  by (simp add: get_canonical_tip_def sample_chain_def tip_view_in_range_def)

lemmas branch_path_loop_numeral = branch_path_loop.simps(2) [of _ "pred_numeral k" for k, folded numeral_eq_Suc]

lemma chain_paths:
  assumes "rf_max_reorg_depth cfg = 2"
  shows "build_branch_path_from_hash mem_engine cfg (replicate 64 4) (mem_manager sample_chain) =
      Inr (Complete [(2, replicate 64 4), (1, replicate 64 3), (0, replicate 64 1)])"
    and "build_branch_path_from_hash mem_engine cfg (replicate 64 2) (mem_manager sample_chain) =
      Inr (Complete [(1, replicate 64 2), (0, replicate 64 1)])"
    and "build_branch_path_from_hash mem_engine cfg (replicate 64 1) (mem_manager sample_chain) =
      Inr (Complete [(0, replicate 64 1)])"
  by (simp_all add: assms build_branch_path_from_hash_def int_defs branch_path_loop_numeral chain_meta chain_has
      has_block_meta_by_hash_def sample_graph_def zero_hash_def Let_def)

lemma chain_meta_at: "meta_at mem_view (mem_manager sample_chain) (replicate 64 h) = map_of sample_graph h"
  using get_meta_at [OF mem_engine_ok chain_meta] by simp

lemma chain_meta_key: "meta_at mem_view (mem_manager sample_chain) x = Some m \<Longrightarrow> \<exists>h. x = replicate 64 h"
  using sample_fork_key [of BLOCK_META_BY_HASH_COLUMN_NAME x]
  by (auto simp: meta_at_def mview_def mem_manager_def mem_view_def sample_chain_def split: option.splits)

lemma chain_linked: "heights_linked (meta_at mem_view (mem_manager sample_chain))"
  unfolding heights_linked_def
proof (intro allI impI)
  fix x m p
  assume m: "meta_at mem_view (mem_manager sample_chain) x = Some m" and h: "fm_height m \<noteq> 0"
    and p: "meta_at mem_view (mem_manager sample_chain) (fm_parent_hash m) = Some p"
  obtain y where "x = replicate 64 y" using chain_meta_key [OF m] by blast
  then have "map_of sample_graph y = Some m" using m chain_meta_at by simp
  then have "(fm_height m = 1 \<and> fm_parent_hash m = replicate 64 1) \<or> (fm_height m = 2 \<and> fm_parent_hash m = replicate 64 3)"
    using h by (auto simp: sample_graph_def split: if_splits)
  then show "fm_height m = Suc (fm_height p)" using p by (auto simp: chain_meta_at sample_graph_def)
qed

definition sample_plan :: ReorgPlan where
  "sample_plan = \<lparr>rp_old_tip_height = 1, rp_old_tip_hash = replicate 64 2, rp_new_tip_height = 2,
     rp_new_tip_hash = replicate 64 4, rp_common_ancestor_height = 0, rp_common_ancestor_hash = replicate 64 1,
     rp_detach = [\<lparr>rs_height = 1, rs_hash = replicate 64 2\<rparr>],
     rp_attach = [\<lparr>rs_height = 1, rs_hash = replicate 64 3\<rparr>, \<lparr>rs_height = 2, rs_hash = replicate 64 4\<rparr>]\<rparr>"

lemma chain_load:
  "load_canonical_tip_block mem_engine fork_bext (mem_manager sample_chain) = Inr (1, replicate 64 2,
     bare_block (replicate 64 2))"
  by (simp add: load_canonical_tip_block_def get_tip_with_legacy_fallback_def chain_tip chain_block)

lemma sample_plan_made:
  assumes cfg: "rf_max_reorg_depth cfg = 2" "\<not> rf_prefer_cumulative_por cfg"
  shows "on_new_block mem_engine fork_bext cfg (fork_block 2 3 4) (mem_manager sample_chain) = Inr (Reorg sample_plan)"
  unfolding on_new_block_def Let_def chain_load
  by (simp add: cfg fork_block_def branch_candidate_from_tip_def chain_meta choose_tip_def Let_def chain_paths
      candidate_to_score_def is_strictly_better_than_def refork_score_config_def plan_from_paths_def
      find_common_ancestor_def compute_reorg_steps_def steps_until_def sample_plan_def bare_block_def)


end
