(* ===== verification/ReorgBatches.thy ===== *)
theory ReorgBatches
  imports ReorgProps
begin

text \<open>
  The projection of batches by height after a reorganization
  (\<open>src/reorganization/reorg_004_batch_index.rs\<close>).
\<close>

definition batch_slot :: "('db \<Rightarrow> kv_view) \<Rightarrow> 'db RockDBManager \<Rightarrow> nat \<Rightarrow> byte list option" where
  "batch_slot view mg h = mview view mg TRANSACTION_BATCH_COLUMN_NAME (tx_batch_key h)"

definition batch_of :: "('db \<Rightarrow> kv_view) \<Rightarrow> 'db RockDBManager \<Rightarrow> hash \<Rightarrow> byte list option" where
  "batch_of view mg x = mview view mg BATCH_BY_BLOCK_HASH_COLUMN_NAME x"

lemma store_batch_slot:
  assumes ok: "engine_ok G view" and "store_batch_bytes G i b mg = (Inr u, mg')"
  shows "batch_slot view mg' j = (if j = i then Some b else batch_slot view mg j)"
proof -
  obtain v m1 where 1: "bc_write G TRANSACTION_BATCH_COLUMN_NAME [PutOp TRANSACTION_BATCH_COLUMN_NAME (tx_batch_key i) b] mg = (Inr v, m1)"
    and 2: "bc_flush G TRANSACTION_BATCH_COLUMN_NAME m1 = (Inr u, mg')"
    using assms(2) by (auto simp: store_batch_bytes_def res_simps)
  show ?thesis using put_view [OF ok 1] bc_flush_view [OF ok 2] by (simp add: batch_slot_def)
qed

lemma store_batch_of:
  assumes "engine_ok G view" and "store_batch_bytes G i b mg = (r, mg')"
  shows "batch_of view mg' = batch_of view mg"
  using keepsD [OF keeps_writers(7) [OF assms(1)] assms(2), of BATCH_BY_BLOCK_HASH_COLUMN_NAME]
  by (simp add: batch_of_def fun_eq_iff)

lemma get_batch_of: "engine_ok G view \<Longrightarrow> get_batch_by_block_hash G x mg = Inr r \<Longrightarrow> r = batch_of view mg x"
  unfolding get_batch_by_block_hash_def batch_of_def by (rule bc_get_view)

text \<open>The remapping of batches in a reorganization, as \<open>ReorgManager\<close> runs it: for steps with distinct
  heights, when \<open>remap_canonical_batches_best_effort\<close> returns Ok, the slot of each attached height holds the
  batch stored for the attached block, if there is one; if there is none, the slot keeps what it held before,
  which after a reorganization is the batch of the detached block of that height. All other slots and the
  batches by hash are unchanged.\<close>

theorem best_effort_remap:
  assumes ok: "engine_ok G view" and "remap_canonical_batches_best_effort G steps mg = (Inr u, mg')"
    and "distinct (map fst steps)"
  shows "batch_of view mg' = batch_of view mg \<and>
    batch_slot view mg' j =
      (case map_of steps j of
         Some x \<Rightarrow> (case batch_of view mg x of Some b \<Rightarrow> Some b | None \<Rightarrow> batch_slot view mg j)
       | None \<Rightarrow> batch_slot view mg j)"
  using assms(2,3)
proof (induction steps arbitrary: mg)
  case Nil
  then show ?case by (simp add: remap_canonical_batches_best_effort_def res_simps)
next
  case (Cons a steps)
  obtain h x where a: "a = (h, x)" by (cases a)
  obtain r m1 where r: "get_batch_by_block_hash G x mg = Inr r"
    and 1: "(case r of Some bytes \<Rightarrow> store_batch_bytes G h bytes | None \<Rightarrow> returnS ()) mg = (Inr (), m1)"
    and 2: "remap_canonical_batches_best_effort G steps m1 = (Inr u, mg')"
    using Cons.prems(1) by (auto simp: remap_canonical_batches_best_effort_def a res_simps)
  note rb = get_batch_of [OF ok r]
  have "batch_of view m1 = batch_of view mg \<and>
      batch_slot view m1 j = (if j = h then (case r of Some b \<Rightarrow> Some b | None \<Rightarrow> batch_slot view mg j) else batch_slot view mg j)"
  proof (cases r)
    case None
    then show ?thesis using 1 by (simp add: res_simps)
  next
    case (Some b)
    then have w: "store_batch_bytes G h b mg = (Inr (), m1)" using 1 by simp
    show ?thesis using store_batch_of [OF ok w] store_batch_slot [OF ok w] Some by simp
  qed
  moreover have "map_of steps h = None" using Cons.prems(2) by (simp add: a map_of_eq_None_iff)
  ultimately show ?case using Cons.IH [OF 2] Cons.prems(2) rb by (auto simp: a split: option.splits)
qed

theorem best_effort_remap_witness:
  "\<exists>mg'. remap_canonical_batches_best_effort mem_engine [(1, replicate 64 3)]
      (mem_manager [((TRANSACTION_BATCH_COLUMN_NAME, tx_batch_key 1), [7])]) = (Inr (), mg') \<and>
    batch_slot mem_view mg' 1 = Some [7]"
proof -
  let ?mg = "mem_manager [((TRANSACTION_BATCH_COLUMN_NAME, tx_batch_key 1), [7])]"
  have r: "remap_canonical_batches_best_effort mem_engine [(1, replicate 64 3)] ?mg = (Inr (), ?mg)"
    by (simp add: remap_canonical_batches_best_effort_def bindS_def readS_def returnS_def get_batch_by_block_hash_def)
  have "batch_slot mem_view ?mg 1 = Some [7]" "batch_of mem_view ?mg (replicate 64 3) = None"
    by (simp_all add: batch_slot_def batch_of_def mview_def mem_manager_def mem_view_def)
  with best_effort_remap [OF mem_engine_ok r, of 1] r show ?thesis by auto
qed

end
