(* ===== verification/OrdMap.thy ===== *)
theory OrdMap
  imports Prelude
begin

text \<open>
  \<open>BTreeMap\<close> and \<open>BTreeSet\<close> as sorted association lists and sorted lists, and the contract of a
  map that the clients of both kinds of map rely on.
\<close>

section \<open>Contract\<close>

locale map_store =
  fixes lookup :: "'m \<Rightarrow> 'k \<Rightarrow> 'v option"
    and update :: "'k \<Rightarrow> 'v \<Rightarrow> 'm \<Rightarrow> 'm"
    and wf :: "'m \<Rightarrow> bool"
  assumes lookup_update: "wf m \<Longrightarrow> lookup (update k v m) k' = (if k' = k then Some v else lookup m k')"
    and wf_update: "wf m \<Longrightarrow> wf (update k v m)"
begin

text \<open>A property of all entries is kept by storing an entry that has it.\<close>

lemma all_update:
  assumes "wf m" and "\<forall>k v. lookup m k = Some v \<longrightarrow> P k v" and "P k v"
  shows "\<forall>k' v'. lookup (update k v m) k' = Some v' \<longrightarrow> P k' v'"
  using assms by (auto simp: lookup_update)

text \<open>Storing what is there already changes no lookup.\<close>

lemma lookup_update_same: "wf m \<Longrightarrow> lookup m k = Some v \<Longrightarrow> lookup (update k v m) = lookup m"
  by (auto simp: fun_eq_iff lookup_update)

end

interpretation hash_map: map_store map_of AList.update wf_map
  by unfold_locales simp_all

section \<open>Ordered maps\<close>

fun bt_insert :: "'k :: linorder \<Rightarrow> 'v \<Rightarrow> ('k \<times> 'v) list \<Rightarrow> ('k \<times> 'v) list" where
  "bt_insert k v [] = [(k, v)]"
| "bt_insert k v ((k', v') # m) =
     (if k < k' then (k, v) # (k', v') # m
      else if k = k' then (k, v) # m
      else (k', v') # bt_insert k v m)"

definition bt_remove :: "'k \<Rightarrow> ('k \<times> 'v) list \<Rightarrow> ('k \<times> 'v) list" where
  "bt_remove k m = filter (\<lambda>e. fst e \<noteq> k) m"

definition bt_wf :: "('k :: linorder \<times> 'v) list \<Rightarrow> bool" where
  "bt_wf m \<longleftrightarrow> sorted_wrt (<) (map fst m)"

lemma bt_wf_Nil [simp]: "bt_wf []"
  by (simp add: bt_wf_def)

lemma fst_set_bt_insert: "fst ` set (bt_insert k v m) = insert k (fst ` set m)"
  by (induction k v m rule: bt_insert.induct) auto

lemma bt_wf_insert [simp]: "bt_wf m \<Longrightarrow> bt_wf (bt_insert k v m)"
proof (induction k v m rule: bt_insert.induct)
  case (2 k v k' v' m)
  have "k' < k \<Longrightarrow> (\<forall>x\<in>fst ` set m. k' < x) \<Longrightarrow> \<forall>x\<in>fst ` set (bt_insert k v m). k' < x"
    using fst_set_bt_insert [of k v m] by auto
  with 2 show ?case by (cases k k' rule: linorder_cases) (auto simp: bt_wf_def)
qed (simp add: bt_wf_def)

lemma bt_lookup_insert [simp]: "map_of (bt_insert k v m) k' = (if k' = k then Some v else map_of m k')"
  by (induction k v m rule: bt_insert.induct) auto

lemma bt_lookup_remove [simp]: "map_of (bt_remove k m) k' = (if k' = k then None else map_of m k')"
  by (induction m) (auto simp: bt_remove_def)

lemma bt_wf_remove [simp]: "bt_wf m \<Longrightarrow> bt_wf (bt_remove k m)"
  by (induction m) (auto simp: bt_wf_def bt_remove_def)

lemma bt_wf_distinct: "bt_wf m \<Longrightarrow> distinct (map fst m)"
  by (simp add: bt_wf_def strict_sorted_iff)

lemma bt_wf_mem: "bt_wf m \<Longrightarrow> (k, v) \<in> set m \<longleftrightarrow> map_of m k = Some v"
  by (simp add: bt_wf_distinct)

interpretation btree_map: map_store map_of bt_insert bt_wf
  by unfold_locales simp_all

text \<open>An ordered map is determined by its lookups, so its iteration order is.\<close>

lemma bt_wf_ext:
  assumes w: "bt_wf m" "bt_wf m'" and e: "map_of m = map_of m'"
  shows "m = m'"
proof (rule map_sorted_distinct_set_unique [of fst])
  show s: "set m = set m'" using w e by (auto simp: bt_wf_mem)
  show "inj_on fst (set m \<union> set m')" using bt_wf_distinct [OF w(1)] by (simp add: s [symmetric] distinct_map)
qed (use w in \<open>simp_all add: bt_wf_def strict_sorted_iff\<close>)

text \<open>Storing again, in place, and under a function on the values.\<close>

lemma bt_insert_same: "bt_wf m \<Longrightarrow> map_of m k = Some v \<Longrightarrow> bt_insert k v m = m"
  by (rule bt_wf_ext) (auto simp: fun_eq_iff)

lemma length_bt_insert:
  "bt_wf m \<Longrightarrow> map_of m k \<noteq> None \<Longrightarrow> length (bt_insert k v m) = length m"
proof (induction k v m rule: bt_insert.induct)
  case (2 k v k' v' m)
  have "map_of m k = None" if "k < k'" using that "2.prems"(1) by (auto simp: bt_wf_def map_of_eq_None_iff)
  with 2 show ?case by (cases k k' rule: linorder_cases) (auto simp: bt_wf_def split: if_splits)
qed simp

lemma length_bt_insert_le: "length (bt_insert k v m) \<le> Suc (length m)"
  by (induction k v m rule: bt_insert.induct) auto

lemma bt_insert_map: "bt_insert k (f v) (map (\<lambda>(h, m). (h, f m)) xs) = map (\<lambda>(h, m). (h, f m)) (bt_insert k v xs)"
  by (induction xs) auto

lemma list_all_bt_insert: "list_all P (map snd m) \<Longrightarrow> P v \<Longrightarrow> list_all P (map snd (bt_insert k v m))"
  by (induction k v m rule: bt_insert.induct) auto

lemma bt_wf_map: "bt_wf (map (\<lambda>(h, m). (h, f m)) xs) \<longleftrightarrow> bt_wf xs"
  by (simp add: bt_wf_def comp_def case_prod_beta)

lemma bt_wf_filter: "bt_wf m \<Longrightarrow> bt_wf (filter P m)"
  by (induction m) (auto simp: bt_wf_def)

section \<open>Ordered sets\<close>

definition bset_insert :: "'k :: linorder \<Rightarrow> 'k list \<Rightarrow> 'k list" where
  "bset_insert = insort_insert"

definition bset_of :: "'k :: linorder list \<Rightarrow> 'k list" where
  "bset_of xs = fold bset_insert xs []"

lemma bset_of_set: "bset_of xs = sorted_list_of_set (set xs)"
proof (rule sorted_distinct_set_unique)
  have "sorted (fold bset_insert xs ys) \<and> distinct (fold bset_insert xs ys) \<and> set (fold bset_insert xs ys) = set xs \<union> set ys"
    if "sorted ys" "distinct ys" for ys
    using that by (induction xs arbitrary: ys)
      (auto simp: bset_insert_def sorted_insort_insert distinct_insort_insert set_insort_insert)
  then show "sorted (bset_of xs)" "distinct (bset_of xs)" "set (bset_of xs) = set (sorted_list_of_set (set xs))"
    by (simp_all add: bset_of_def)
qed simp_all

end
