(* ===== verification/Lifecycle.thy ===== *)
theory Lifecycle
  imports Wallet TimePolicy StateError OrdMap
begin

text \<open>
  The life of a validator (\<open>src/consensus/por_008_validator_lifecycle.rs\<close>): registration, renewal by
  lease, explicit exit, and the predicates that decide who is active, may propose and earns rewards.

  A method that takes \<open>&mut self\<close> is an operation on the record; when it returns an error after a field
  has been written, the record keeps the written field.
\<close>

definition MAX_LEASE_BLOCKS_HARD :: nat where [cfg_defs]: "MAX_LEASE_BLOCKS_HARD = 1000000"

definition MAX_LIFECYCLE_DELAY_BLOCKS_HARD :: nat where [cfg_defs]: "MAX_LIFECYCLE_DELAY_BLOCKS_HARD = 1000000"

datatype RegisterOutcome = Inserted | Renewed | Reactivated | NoChange

record ValidatorLifecycleConfig =
  lc_activation_delay_blocks :: nat
  lc_reward_delay_blocks :: nat
  lc_lease_blocks :: nat

definition lifecycle_from_globals :: ValidatorLifecycleConfig where
  "lifecycle_from_globals =
     \<lparr>lc_activation_delay_blocks = VALIDATOR_ACTIVATION_DELAY_BLOCKS, lc_reward_delay_blocks = REWARD_DELAY_BLOCKS,
      lc_lease_blocks = max 1 (min MAX_LEASE_BLOCKS_HARD CANONICAL_LEASE_BLOCKS)\<rparr>"

definition lifecycle_validate :: "ValidatorLifecycleConfig \<Rightarrow> unit result" where
  "lifecycle_validate cfg =
     (if lc_lease_blocks cfg = 0 then Inl (ValidationError ''lease_blocks must be >= 1'')
      else if lc_lease_blocks cfg > MAX_LEASE_BLOCKS_HARD then Inl (ValidationError ''lease_blocks exceeds hard cap'')
      else if lc_activation_delay_blocks cfg > MAX_LIFECYCLE_DELAY_BLOCKS_HARD
        then Inl (ValidationError ''activation_delay_blocks exceeds hard cap'')
      else if lc_reward_delay_blocks cfg > MAX_LIFECYCLE_DELAY_BLOCKS_HARD
        then Inl (ValidationError ''reward_delay_blocks exceeds hard cap'')
      else Inr ())"

record ValidatorMeta =
  vm_join_height :: nat
  vm_join_timestamp :: nat
  vm_last_renew_height :: nat
  vm_last_renew_timestamp :: nat
  vm_exit_height :: "nat option"

definition validate_structural_invariants :: "ValidatorMeta \<Rightarrow> unit result" where
  "validate_structural_invariants m =
     bindR (validate_unix_secs_structural (vm_join_timestamp m)) (\<lambda>_.
     bindR (validate_unix_secs_structural (vm_last_renew_timestamp m)) (\<lambda>_.
     if vm_last_renew_height m < vm_join_height m then Inl (ValidationError ''last_renew_height < join_height'')
     else if vm_last_renew_timestamp m < vm_join_timestamp m
       then Inl (ValidationError ''last_renew_timestamp < join_timestamp'')
     else
       (case vm_exit_height m of
          None \<Rightarrow> Inr ()
        | Some exit_h \<Rightarrow>
            if exit_h = 0 then Inl (ValidationError ''exit_height=0 is invalid'')
            else if exit_h \<le> vm_join_height m \<and> vm_join_height m \<noteq> 0
              then Inl (ValidationError ''exit_height <= join_height'')
            else Inr ())))"

definition meta_founder :: "nat \<Rightarrow> ValidatorMeta result" where
  "meta_founder join_timestamp =
     bindR (validate_unix_secs_structural join_timestamp) (\<lambda>_.
     let meta = \<lparr>vm_join_height = 0, vm_join_timestamp = join_timestamp, vm_last_renew_height = 0,
                 vm_last_renew_timestamp = join_timestamp, vm_exit_height = None\<rparr> in
     bindR (validate_structural_invariants meta) (\<lambda>_. Inr meta))"

definition meta_joined :: "nat \<Rightarrow> nat \<Rightarrow> ValidatorMeta result" where
  "meta_joined height join_timestamp =
     bindR (validate_unix_secs_structural join_timestamp) (\<lambda>_.
     let meta = \<lparr>vm_join_height = height, vm_join_timestamp = join_timestamp, vm_last_renew_height = height,
                 vm_last_renew_timestamp = join_timestamp, vm_exit_height = None\<rparr> in
     bindR (validate_structural_invariants meta) (\<lambda>_. Inr meta))"

definition validate_invariants :: "rstr \<Rightarrow> ValidatorMeta \<Rightarrow> unit result" where
  "validate_invariants wallet m =
     bindR (map_err (\<lambda>_. ValidationError ''ValidatorMeta invalid wallet'') (canon_wallet_id_checked wallet)) (\<lambda>_.
     validate_structural_invariants m)"

definition not_explicitly_exited_at :: "ValidatorMeta \<Rightarrow> nat \<Rightarrow> bool" where
  "not_explicitly_exited_at m height = (case vm_exit_height m of None \<Rightarrow> True | Some exit_h \<Rightarrow> height < exit_h)"

definition lease_expiry_height :: "ValidatorMeta \<Rightarrow> ValidatorLifecycleConfig \<Rightarrow> nat" where
  "lease_expiry_height m cfg = saturating_add 64 (vm_last_renew_height m) (lc_lease_blocks cfg)"

definition within_lease_at :: "ValidatorMeta \<Rightarrow> nat \<Rightarrow> ValidatorLifecycleConfig \<Rightarrow> bool" where
  "within_lease_at m height cfg \<longleftrightarrow> height \<le> lease_expiry_height m cfg"

definition meta_is_active_at :: "ValidatorMeta \<Rightarrow> nat \<Rightarrow> ValidatorLifecycleConfig \<Rightarrow> bool" where
  "meta_is_active_at m height cfg \<longleftrightarrow>
     vm_join_height m \<le> height \<and> not_explicitly_exited_at m height \<and> within_lease_at m height cfg"

definition meta_is_proposable_at :: "ValidatorMeta \<Rightarrow> nat \<Rightarrow> ValidatorLifecycleConfig \<Rightarrow> bool" where
  "meta_is_proposable_at m height cfg =
     (if \<not> meta_is_active_at m height cfg then False
      else
        (let eligible_h = (if vm_join_height m = 0 then 0
                           else saturating_add 64 (vm_join_height m) (lc_activation_delay_blocks cfg)) in
         eligible_h \<le> height))"

definition meta_reward_eligible_at :: "ValidatorMeta \<Rightarrow> nat \<Rightarrow> ValidatorLifecycleConfig \<Rightarrow> bool" where
  "meta_reward_eligible_at m at_height cfg =
     (if vm_join_height m = 0 then True
      else at_height \<ge> saturating_add 64 (vm_join_height m) (lc_reward_delay_blocks cfg))"

text \<open>The fields \<open>renew_or_reactivate\<close> writes: for a validator that has not exited, and for one that has.\<close>

definition renewed_meta :: "nat \<Rightarrow> nat \<Rightarrow> ValidatorMeta \<Rightarrow> ValidatorMeta" where
  "renewed_meta height timestamp m =
     (let m1 = (if height > vm_last_renew_height m then m\<lparr>vm_last_renew_height := height\<rparr> else m) in
      if timestamp > vm_last_renew_timestamp m1 then m1\<lparr>vm_last_renew_timestamp := timestamp\<rparr> else m1)"

definition reactivated_meta :: "nat \<Rightarrow> nat \<Rightarrow> ValidatorMeta \<Rightarrow> ValidatorMeta" where
  "reactivated_meta height timestamp m =
     (if vm_join_height m = 0
      then m\<lparr>vm_last_renew_height := max height (vm_last_renew_height m),
             vm_last_renew_timestamp := max timestamp (vm_last_renew_timestamp m), vm_exit_height := None\<rparr>
      else m\<lparr>vm_join_height := height, vm_join_timestamp := timestamp, vm_last_renew_height := height,
             vm_last_renew_timestamp := timestamp, vm_exit_height := None\<rparr>)"

definition renew_or_reactivate :: "rstr \<Rightarrow> nat \<Rightarrow> nat \<Rightarrow> (ValidatorMeta, RegisterOutcome) sm" where
  "renew_or_reactivate wallet height timestamp =
     bindS (readS (\<lambda>_. validate_unix_secs_structural timestamp)) (\<lambda>_.
     bindS (readS (validate_invariants wallet)) (\<lambda>_ m.
     (case vm_exit_height m of
        None \<Rightarrow>
          bindS (readS (validate_invariants wallet)) (\<lambda>_.
          returnS (if height > vm_last_renew_height m \<or> timestamp > vm_last_renew_timestamp m then Renewed else NoChange))
            (renewed_meta height timestamp m)
      | Some exit_h \<Rightarrow>
          if exit_h > height then (Inr NoChange, m)
          else bindS (readS (validate_invariants wallet)) (\<lambda>_. returnS Reactivated) (reactivated_meta height timestamp m))))"

definition meta_mark_exit :: "rstr \<Rightarrow> nat \<Rightarrow> (ValidatorMeta, bool) sm" where
  "meta_mark_exit wallet height =
     bindS (readS (validate_invariants wallet)) (\<lambda>_ m.
     if (case vm_exit_height m of None \<Rightarrow> True | Some prev \<Rightarrow> height < prev)
     then bindS (readS (validate_invariants wallet)) (\<lambda>_. returnS True) (m\<lparr>vm_exit_height := Some height\<rparr>)
     else (Inr False, m))"

type_synonym registry = "(rstr \<times> ValidatorMeta) list"

definition new_validator_meta :: "rstr \<Rightarrow> nat \<Rightarrow> nat \<Rightarrow> ValidatorMeta result" where
  "new_validator_meta wallet height timestamp =
     bindR (map_err (\<lambda>_. ValidationError ''new_validator_meta invalid wallet'') (canon_wallet_id_checked wallet)) (\<lambda>wallet_can.
     bindR (meta_joined height timestamp) (\<lambda>meta.
     bindR (validate_invariants wallet_can meta) (\<lambda>_. Inr meta)))"

text \<open>An operation on the entry of a key, in place.\<close>

definition on_entry :: "rstr \<Rightarrow> ValidatorMeta \<Rightarrow> (ValidatorMeta, 'a) sm \<Rightarrow> (registry, 'a) sm" where
  "on_entry wallet meta f reg = (case f meta of (r, meta') \<Rightarrow> (r, bt_insert wallet meta' reg))"

definition apply_register_or_renew :: "rstr \<Rightarrow> nat \<Rightarrow> nat \<Rightarrow> (registry, RegisterOutcome) sm" where
  "apply_register_or_renew wallet height timestamp =
     bindS (readS (\<lambda>_. map_err (\<lambda>_. ValidationError ''apply_register_or_renew invalid wallet'') (canon_wallet_id_checked wallet)))
       (\<lambda>wallet_can.
     bindS (readS (\<lambda>_. lifecycle_validate lifecycle_from_globals)) (\<lambda>_.
     bindS (readS (\<lambda>_. validate_unix_secs_structural timestamp)) (\<lambda>_ reg.
     (case hget reg wallet_can of
        Some meta \<Rightarrow> on_entry wallet_can meta (renew_or_reactivate wallet_can height timestamp) reg
      | None \<Rightarrow>
          (case new_validator_meta wallet_can height timestamp of
             Inl e \<Rightarrow> (Inl e, reg)
           | Inr meta \<Rightarrow> (Inr Inserted, bt_insert wallet_can meta reg))))))"

definition apply_exit :: "rstr \<Rightarrow> nat \<Rightarrow> (registry, bool) sm" where
  "apply_exit wallet height =
     bindS (readS (\<lambda>_. map_err (\<lambda>_. ValidationError ''apply_exit invalid wallet'') (canon_wallet_id_checked wallet)))
       (\<lambda>wallet_can reg.
     (case hget reg wallet_can of
        None \<Rightarrow> (Inr False, reg)
      | Some meta \<Rightarrow> on_entry wallet_can meta (meta_mark_exit wallet_can height) reg))"

definition active_wallets_at :: "registry \<Rightarrow> nat \<Rightarrow> rstr list result" where
  "active_wallets_at reg height =
     bindR (lifecycle_validate lifecycle_from_globals) (\<lambda>_.
     Inr (sort (map fst (filter (\<lambda>(wallet, meta). meta_is_active_at meta height lifecycle_from_globals) reg))))"

definition proposable_wallets_at :: "registry \<Rightarrow> nat \<Rightarrow> rstr list result" where
  "proposable_wallets_at reg height =
     bindR (lifecycle_validate lifecycle_from_globals) (\<lambda>_.
     Inr (sort (map fst (filter (\<lambda>(wallet, meta). meta_is_proposable_at meta height lifecycle_from_globals) reg))))"

definition validate_map :: "registry \<Rightarrow> unit result" where
  "validate_map reg =
     bindR (lifecycle_validate lifecycle_from_globals) (\<lambda>_.
     foldR (\<lambda>_ (wallet, meta). validate_invariants wallet meta) () reg)"

section \<open>Validity of a record\<close>

definition meta_ok :: "ValidatorMeta \<Rightarrow> bool" where
  "meta_ok m \<longleftrightarrow>
     UNIX_2000_SECS \<le> vm_join_timestamp m \<and> vm_join_timestamp m \<le> vm_last_renew_timestamp m \<and>
     vm_last_renew_timestamp m \<le> UNIX_9999_SECS \<and> vm_join_height m \<le> vm_last_renew_height m \<and>
     (\<forall>e. vm_exit_height m = Some e \<longrightarrow> 0 < e \<and> (vm_join_height m \<noteq> 0 \<longrightarrow> vm_join_height m < e))"

lemma structural_iff: "validate_structural_invariants m = Inr () \<longleftrightarrow> meta_ok m"
  by (auto simp: validate_structural_invariants_def meta_ok_def res_simps validate_unix_secs_structural_def
      split: if_splits option.splits)

lemma validate_invariants_iff:
  "validate_invariants w m = Inr () \<longleftrightarrow> meta_ok m \<and> (\<exists>c. canon_wallet_id_checked w = Inr c)"
  by (auto simp: validate_invariants_def res_simps structural_iff)

lemma lifecycle_globals_valid [simp]: "lifecycle_validate lifecycle_from_globals = Inr ()"
  by (simp add: lifecycle_validate_def lifecycle_from_globals_def cfg_defs div_ceil_def)

lemma lease_positive: "1 \<le> lc_lease_blocks lifecycle_from_globals"
  by (simp add: lifecycle_from_globals_def)

text \<open>The contents of a registry: canonical wallets with valid records, in key order.\<close>

definition registry_ok :: "registry \<Rightarrow> bool" where
  "registry_ok reg \<longleftrightarrow> bt_wf reg \<and> (\<forall>w m. hget reg w = Some m \<longrightarrow> canonical_wallet w \<and> meta_ok m)"

lemma foldR_unit: "foldR (\<lambda>_ x. f x) () xs = Inr () \<longleftrightarrow> (\<forall>x\<in>set xs. f x = Inr ())"
  by (induction xs) (auto simp: res_simps)

lemma validate_map_iff:
  assumes "bt_wf reg"
  shows "validate_map reg = Inr () \<longleftrightarrow> (\<forall>w m. hget reg w = Some m \<longrightarrow> meta_ok m \<and> (\<exists>c. canon_wallet_id_checked w = Inr c))"
proof -
  have "validate_map reg = Inr () \<longleftrightarrow> (\<forall>(w, m)\<in>set reg. validate_invariants w m = Inr ())"
    by (simp add: validate_map_def foldR_unit case_prod_beta)
  also have "\<dots> \<longleftrightarrow> (\<forall>w m. (w, m) \<in> set reg \<longrightarrow> validate_invariants w m = Inr ())" by auto
  finally show ?thesis by (simp add: bt_wf_mem [OF assms] validate_invariants_iff)
qed

lemma registry_ok_validates: "registry_ok reg \<Longrightarrow> validate_map reg = Inr ()"
  using canon_wallet_canonical by (subst validate_map_iff) (auto simp: registry_ok_def)

lemma registry_ok_insert:
  "registry_ok reg \<Longrightarrow> canonical_wallet w \<Longrightarrow> meta_ok m \<Longrightarrow> registry_ok (bt_insert w m reg)"
  unfolding registry_ok_def
  using btree_map.all_update [of reg "\<lambda>w m. canonical_wallet w \<and> meta_ok m" w m] by simp

section \<open>Registration and renewal\<close>

lemma renew_total:
  assumes "meta_ok m" and w: "canonical_wallet w" and ts: "UNIX_2000_SECS \<le> ts" "ts \<le> UNIX_9999_SECS"
  shows "\<exists>out m'. renew_or_reactivate w h ts m = (Inr out, m') \<and> meta_ok m' \<and>
    ((\<forall>e. vm_exit_height m = Some e \<longrightarrow> e \<le> h) \<longrightarrow> vm_exit_height m' = None \<and> h \<le> vm_last_renew_height m' \<and>
       (vm_join_height m' = vm_join_height m \<or> vm_exit_height m \<noteq> None \<and> vm_join_height m' = h))"
proof -
  have v: "validate_invariants w x = Inr ()" if "meta_ok x" for x
    using canon_wallet_canonical [OF w] that by (simp add: validate_invariants_iff)
  have t: "validate_unix_secs_structural ts = Inr ()" using ts by (simp add: validate_unix_secs_structural_def)
  show ?thesis
  proof (cases "vm_exit_height m")
    case None
    have ok: "meta_ok (renewed_meta h ts m)" using assms(1) ts by (auto simp: renewed_meta_def Let_def meta_ok_def)
    then have "\<exists>out. renew_or_reactivate w h ts m = (Inr out, renewed_meta h ts m)"
      by (simp add: renew_or_reactivate_def bindS_def readS_def returnS_def None t v assms(1))
    then show ?thesis using ok None by (auto simp: renewed_meta_def Let_def)
  next
    case (Some e)
    show ?thesis
    proof (cases "e > h")
      case True
      then have "renew_or_reactivate w h ts m = (Inr NoChange, m)"
        by (simp add: Some t v assms(1) renew_or_reactivate_def bindS_def readS_def)
      then show ?thesis using True Some assms(1) by auto
    next
      case False
      have ok: "meta_ok (reactivated_meta h ts m)" using assms(1) ts by (auto simp: reactivated_meta_def meta_ok_def max_def)
      then have "renew_or_reactivate w h ts m = (Inr Reactivated, reactivated_meta h ts m)"
        using False by (simp add: renew_or_reactivate_def bindS_def readS_def returnS_def Some t v assms(1))
      then show ?thesis using ok Some by (auto simp: reactivated_meta_def)
    qed
  qed
qed

lemma joined_ok:
  assumes "UNIX_2000_SECS \<le> ts" "ts \<le> UNIX_9999_SECS" and "canonical_wallet w"
  shows "new_validator_meta w h ts = Inr \<lparr>vm_join_height = h, vm_join_timestamp = ts, vm_last_renew_height = h,
      vm_last_renew_timestamp = ts, vm_exit_height = None\<rparr>"
    and "meta_ok \<lparr>vm_join_height = h, vm_join_timestamp = ts, vm_last_renew_height = h,
      vm_last_renew_timestamp = ts, vm_exit_height = None\<rparr>"
proof -
  show ok: "meta_ok \<lparr>vm_join_height = h, vm_join_timestamp = ts, vm_last_renew_height = h,
      vm_last_renew_timestamp = ts, vm_exit_height = None\<rparr>" using assms by (simp add: meta_ok_def)
  have t: "validate_unix_secs_structural ts = Inr ()" using assms by (simp add: validate_unix_secs_structural_def)
  show "new_validator_meta w h ts = Inr \<lparr>vm_join_height = h, vm_join_timestamp = ts, vm_last_renew_height = h,
      vm_last_renew_timestamp = ts, vm_exit_height = None\<rparr>"
    using iffD2 [OF structural_iff ok] canon_wallet_canonical [OF assms(3)]
    by (simp add: new_validator_meta_def meta_joined_def Let_def t validate_invariants_def)
qed

lemma lease_covers: "h \<le> vm_last_renew_height m \<Longrightarrow> h < 2 ^ 64 \<Longrightarrow> within_lease_at m h cfg"
  by (auto simp: within_lease_at_def lease_expiry_height_def saturating_add_def)

lemma register_eq:
  assumes w: "canon_wallet_id_checked wallet = Inr w" and ts: "UNIX_2000_SECS \<le> ts" "ts \<le> UNIX_9999_SECS"
  shows "apply_register_or_renew wallet h ts reg =
      (case hget reg w of
         Some meta \<Rightarrow> on_entry w meta (renew_or_reactivate w h ts) reg
       | None \<Rightarrow> (case new_validator_meta w h ts of Inl e \<Rightarrow> (Inl e, reg) | Inr meta \<Rightarrow> (Inr Inserted, bt_insert w meta reg)))"
proof -
  have t: "validate_unix_secs_structural ts = Inr ()" using ts by (simp add: validate_unix_secs_structural_def)
  show ?thesis by (simp add: apply_register_or_renew_def bindS_def readS_def w t)
qed

lemma renew_no_change: "renew_or_reactivate w h ts m = (Inr NoChange, m') \<Longrightarrow> m' = m"
  by (auto simp: renew_or_reactivate_def renewed_meta_def Let_def res_simps bindS_def readS_def returnS_def
      split: option.splits if_splits sum.splits)

text \<open>A registration that succeeds keeps the registry valid, and one that reports no change makes none.\<close>

lemma register_keeps:
  assumes reg: "registry_ok reg" and r: "apply_register_or_renew wallet h ts reg = (Inr out, reg')"
  shows "registry_ok reg'" and "out = NoChange \<Longrightarrow> reg' = reg"
proof -
  obtain w where w: "canon_wallet_id_checked wallet = Inr w" and t: "validate_unix_secs_structural ts = Inr ()"
    using r by (auto simp: apply_register_or_renew_def res_simps)
  have ts: "UNIX_2000_SECS \<le> ts" "ts \<le> UNIX_9999_SECS" using t by simp_all
  note c = canon_wallet_result(1) [OF w] and e = register_eq [OF w ts, of h reg]
  show "registry_ok reg'"
  proof (cases "hget reg w")
    case None
    then show ?thesis using r e joined_ok [OF ts c] registry_ok_insert [OF reg c] by auto
  next
    case (Some m)
    then have m: "meta_ok m" using reg by (simp add: registry_ok_def)
    obtain out' m' where "renew_or_reactivate w h ts m = (Inr out', m')" "meta_ok m'"
      using renew_total [OF m c ts, of h] by blast
    then show ?thesis using r e Some registry_ok_insert [OF reg c] by (auto simp: on_entry_def)
  qed
  assume n: "out = NoChange"
  then obtain m where m: "hget reg w = Some m"
    using r e by (cases "hget reg w") (auto split: sum.splits)
  then obtain m' where m': "renew_or_reactivate w h ts m = (Inr NoChange, m')" "reg' = bt_insert w m' reg"
    using r e n by (auto simp: on_entry_def split: prod.splits)
  show "reg' = reg"
    using reg m m'(2) renew_no_change [OF m'(1)] btree_map.lookup_update_same [of reg w m]
    by (auto simp: registry_ok_def intro!: bt_wf_ext)
qed

text \<open>C14. Registration never fails on good input and keeps the registry valid: for a valid registry, a wallet
  that canonicalizes to \<open>w\<close> and a structurally valid timestamp, \<open>apply_register_or_renew\<close> returns Ok, the
  registry stays valid, only the entry of \<open>w\<close> changes, and unless an exit after height \<open>h\<close> is recorded or the
  known validator joined after \<open>h\<close>, the validator is active at \<open>h\<close>.\<close>

theorem registration_total:
  assumes reg: "registry_ok reg" and w: "canon_wallet_id_checked wallet = Inr w"
    and ts: "UNIX_2000_SECS \<le> ts" "ts \<le> UNIX_9999_SECS" and h: "h < 2 ^ 64"
  shows "\<exists>out reg' m'. apply_register_or_renew wallet h ts reg = (Inr out, reg') \<and> registry_ok reg' \<and>
    hget reg' w = Some m' \<and> (\<forall>v. v \<noteq> w \<longrightarrow> hget reg' v = hget reg v) \<and>
    ((\<forall>m. hget reg w = Some m \<longrightarrow> vm_join_height m \<le> h \<and> (\<forall>e. vm_exit_height m = Some e \<longrightarrow> e \<le> h)) \<longrightarrow>
       meta_is_active_at m' h lifecycle_from_globals)"
proof -
  note c = canon_wallet_result(1) [OF w]
  note e = register_eq [OF w ts, of h reg]
  show ?thesis
  proof (cases "hget reg w")
    case None
    then show ?thesis
      using e joined_ok [OF ts c] registry_ok_insert [OF reg c] h lease_covers [of h _ lifecycle_from_globals]
      by (auto simp: meta_is_active_at_def not_explicitly_exited_at_def)
  next
    case (Some m)
    then have m: "meta_ok m" using reg by (simp add: registry_ok_def)
    obtain out m' where r: "renew_or_reactivate w h ts m = (Inr out, m')" "meta_ok m'"
      and a: "(\<forall>e. vm_exit_height m = Some e \<longrightarrow> e \<le> h) \<longrightarrow> vm_exit_height m' = None \<and> h \<le> vm_last_renew_height m' \<and>
        (vm_join_height m' = vm_join_height m \<or> vm_exit_height m \<noteq> None \<and> vm_join_height m' = h)"
      using renew_total [OF m c ts, of h] by blast
    have "apply_register_or_renew wallet h ts reg = (Inr out, bt_insert w m' reg)"
      using e Some r by (simp add: on_entry_def)
    moreover have "registry_ok (bt_insert w m' reg)" by (rule registry_ok_insert [OF reg c r(2)])
    moreover have "meta_is_active_at m' h lifecycle_from_globals"
      if "vm_join_height m \<le> h" "\<forall>e. vm_exit_height m = Some e \<longrightarrow> e \<le> h"
      using a that lease_covers [of h m' lifecycle_from_globals] h
      by (auto simp: meta_is_active_at_def not_explicitly_exited_at_def)
    ultimately show ?thesis using Some by auto
  qed
qed

theorem registration_total_witness:
  "\<exists>out reg' m'. apply_register_or_renew (114 # replicate 128 97) 7 1700000000 [] = (Inr out, reg') \<and>
     registry_ok reg' \<and> hget reg' (114 # replicate 128 97) = Some m' \<and> meta_is_active_at m' 7 lifecycle_from_globals"
proof -
  have "registry_ok []" by (simp add: registry_ok_def)
  moreover have "canonical_wallet (114 # replicate 128 97)"
    by (simp add: canonical_wallet_def list_all_iff is_lower_hex_def)
  ultimately show ?thesis
    using registration_total [of "[]" _ _ 1700000000 7] canon_wallet_canonical by (fastforce simp: time_consts)
qed

section \<open>Exit\<close>

lemma exit_bad_meta:
  assumes "meta_ok m" and w: "canonical_wallet w" and "vm_exit_height m = None" and "h = 0 \<or> 0 < vm_join_height m \<and> h \<le> vm_join_height m"
  shows "\<exists>e. meta_mark_exit w h m = (Inl e, m\<lparr>vm_exit_height := Some h\<rparr>)" and "\<not> meta_ok (m\<lparr>vm_exit_height := Some h\<rparr>)"
proof -
  show bad: "\<not> meta_ok (m\<lparr>vm_exit_height := Some h\<rparr>)" using assms(4) by (auto simp: meta_ok_def)
  have "validate_invariants w m = Inr ()" using assms(1) canon_wallet_canonical [OF w] by (simp add: validate_invariants_iff)
  moreover obtain e where "validate_invariants w (m\<lparr>vm_exit_height := Some h\<rparr>) = Inl e"
    using bad validate_invariants_iff [of w "m\<lparr>vm_exit_height := Some h\<rparr>"]
    by (cases "validate_invariants w (m\<lparr>vm_exit_height := Some h\<rparr>)") auto
  ultimately show "\<exists>e. meta_mark_exit w h m = (Inl e, m\<lparr>vm_exit_height := Some h\<rparr>)"
    using assms(3) by (simp add: meta_mark_exit_def bindS_def readS_def)
qed

lemma renew_invalid:
  assumes "\<not> meta_ok m"
  shows "\<exists>e. renew_or_reactivate w h ts m = (Inl e, m)"
proof -
  obtain e where "validate_invariants w m = Inl e"
    using assms validate_invariants_iff [of w m] by (cases "validate_invariants w m") auto
  then show ?thesis
    by (cases "validate_unix_secs_structural ts") (simp_all add: renew_or_reactivate_def bindS_def readS_def del: validate_unix_secs_Inr)
qed

text \<open>A rejected exit still writes the record: for a valid registry and a known validator that has not
  exited, \<open>apply_exit\<close> at height 0 or at a height not above the join height returns an error, but the entry
  keeps the bad exit height; from then on the registry fails \<open>validate_map\<close>, which \<open>commit\<close> runs, and every
  further registration of this wallet fails.\<close>

theorem rejected_exit_corrupts:
  assumes reg: "registry_ok reg" and m: "hget reg w = Some m" and x: "vm_exit_height m = None"
    and h: "h = 0 \<or> 0 < vm_join_height m \<and> h \<le> vm_join_height m"
  shows "\<exists>e reg'. apply_exit w h reg = (Inl e, reg') \<and> validate_map reg' \<noteq> Inr () \<and>
    (\<forall>h' ts. \<exists>e'. apply_register_or_renew w h' ts reg' = (Inl e', reg'))"
proof -
  have c: "canonical_wallet w" and ok: "meta_ok m" and wf: "bt_wf reg" using reg m by (auto simp: registry_ok_def)
  note cw = canon_wallet_canonical [OF c] and b = exit_bad_meta [OF ok c x h]
  let ?m = "m\<lparr>vm_exit_height := Some h\<rparr>" and ?reg = "bt_insert w (m\<lparr>vm_exit_height := Some h\<rparr>) reg"
  obtain e where e: "apply_exit w h reg = (Inl e, ?reg)"
    using b(1) m by (auto simp: apply_exit_def bindS_def readS_def cw on_entry_def)
  moreover have "validate_map ?reg \<noteq> Inr ()" using b(2) wf by (subst validate_map_iff) auto
  moreover have "\<exists>e'. apply_register_or_renew w h' ts ?reg = (Inl e', ?reg)" for h' ts
  proof -
    obtain e' where "renew_or_reactivate w h' ts ?m = (Inl e', ?m)" using renew_invalid [OF b(2)] by blast
    moreover have "bt_insert w ?m ?reg = ?reg" by (rule bt_wf_ext) (use wf in auto)
    ultimately show ?thesis
      by (cases "validate_unix_secs_structural ts")
        (simp_all add: apply_register_or_renew_def bindS_def readS_def cw on_entry_def del: validate_unix_secs_Inr)
  qed
  ultimately show ?thesis by blast
qed

theorem rejected_exit_corrupts_witness:
  "\<exists>e reg'. apply_exit (114 # replicate 128 97) 5 [(114 # replicate 128 97, \<lparr>vm_join_height = 7, vm_join_timestamp = 1700000000,
      vm_last_renew_height = 7, vm_last_renew_timestamp = 1700000000, vm_exit_height = None\<rparr>)] = (Inl e, reg') \<and>
    validate_map reg' \<noteq> Inr ()"
proof -
  let ?reg = "[(114 # replicate 128 97, \<lparr>vm_join_height = 7, vm_join_timestamp = 1700000000,
      vm_last_renew_height = 7, vm_last_renew_timestamp = 1700000000, vm_exit_height = None\<rparr>)] :: registry"
  have "registry_ok ?reg"
    by (simp add: registry_ok_def bt_wf_def meta_ok_def time_consts canonical_wallet_def list_all_iff is_lower_hex_def)
  from rejected_exit_corrupts [OF this, of "114 # replicate 128 97" _ 5] show ?thesis by fastforce
qed

section \<open>Lapse and renewal\<close>

text \<open>A validator whose lease has lapsed and who registers again may propose at once: with no exit on
  record, at a height past the lease the validator is not active, but after renewal at that height it is
  proposable at that height, even under the quarantine of \<open>QUARANTINE_BLOCKS\<close> that the configuration
  documents for a rejoining validator.\<close>

theorem lapsed_renewal_skips_quarantine:
  assumes ok: "meta_ok m" and w: "canonical_wallet w" and x: "vm_exit_height m = None"
    and ts: "UNIX_2000_SECS \<le> ts" "ts \<le> UNIX_9999_SECS"
    and h: "lease_expiry_height m lifecycle_from_globals < h" "h < 2 ^ 64"
  shows "\<not> meta_is_active_at m h lifecycle_from_globals \<and>
    (\<exists>m'. renew_or_reactivate w h ts m = (Inr Renewed, m') \<and>
       meta_is_proposable_at m' h (lifecycle_from_globals\<lparr>lc_activation_delay_blocks := QUARANTINE_BLOCKS\<rparr>))"
proof -
  have lease: "lc_lease_blocks lifecycle_from_globals = 10" by (simp add: lifecycle_from_globals_def cfg_defs)
  then have "vm_last_renew_height m + 10 < h"
    using h by (auto simp: lease_expiry_height_def saturating_add_def split: if_splits)
  moreover have "vm_join_height m \<le> vm_last_renew_height m" using ok by (simp add: meta_ok_def)
  moreover have v: "validate_invariants w y = Inr ()" if "meta_ok y" for y
    using canon_wallet_canonical [OF w] that by (simp add: validate_invariants_iff)
  moreover have t: "validate_unix_secs_structural ts = Inr ()" using ts by (simp add: validate_unix_secs_structural_def)
  moreover have ok': "meta_ok (renewed_meta h ts m)" using ok ts by (auto simp: renewed_meta_def Let_def meta_ok_def)
  ultimately have "renew_or_reactivate w h ts m = (Inr Renewed, renewed_meta h ts m)"
    by (simp add: renew_or_reactivate_def bindS_def readS_def returnS_def x t v ok ok' del: validate_unix_secs_Inr)
  moreover have "vm_join_height (renewed_meta h ts m) = vm_join_height m" "vm_exit_height (renewed_meta h ts m) = None"
    "h \<le> vm_last_renew_height (renewed_meta h ts m)" using x by (auto simp: renewed_meta_def Let_def)
  then have "meta_is_proposable_at (renewed_meta h ts m) h (lifecycle_from_globals\<lparr>lc_activation_delay_blocks := QUARANTINE_BLOCKS\<rparr>)"
    using \<open>vm_last_renew_height m + 10 < h\<close> \<open>vm_join_height m \<le> vm_last_renew_height m\<close> h(2) lease_covers
    by (auto simp: meta_is_proposable_at_def meta_is_active_at_def not_explicitly_exited_at_def saturating_add_def QUARANTINE_BLOCKS_def)
  ultimately show ?thesis using h by (auto simp: meta_is_active_at_def within_lease_at_def)
qed

theorem lapsed_renewal_skips_quarantine_witness:
  "\<exists>m'. renew_or_reactivate (114 # replicate 128 97) 100 1700000100 \<lparr>vm_join_height = 7, vm_join_timestamp = 1700000000,
      vm_last_renew_height = 7, vm_last_renew_timestamp = 1700000000, vm_exit_height = None\<rparr> = (Inr Renewed, m') \<and>
    meta_is_proposable_at m' 100 (lifecycle_from_globals\<lparr>lc_activation_delay_blocks := QUARANTINE_BLOCKS\<rparr>)"
proof -
  let ?m = "\<lparr>vm_join_height = 7, vm_join_timestamp = 1700000000, vm_last_renew_height = 7,
      vm_last_renew_timestamp = 1700000000, vm_exit_height = None\<rparr>"
  have "meta_ok ?m" "canonical_wallet (114 # replicate 128 97)" "lease_expiry_height ?m lifecycle_from_globals < 100"
    by (simp_all add: meta_ok_def time_consts canonical_wallet_def list_all_iff is_lower_hex_def lease_expiry_height_def
        saturating_add_def lifecycle_from_globals_def cfg_defs)
  from lapsed_renewal_skips_quarantine [OF this(1,2) _ _ _ this(3), of 1700000100] show ?thesis by (simp add: time_consts)
qed

end
