(* ===== verification/ValidatorState.thy ===== *)
theory ValidatorState
  imports Lifecycle Storage
begin

text \<open>
  The on-chain validator registry (\<open>src/blockchain/validatorstate.rs\<close>): the registry in memory with its
  snapshot in the state column, registration by applied blocks, and the rebuild of the registry from the
  stored chain. The postcard codec of the registry is the argument \<open>RegistryCodec\<close>.
\<close>

record RegistryCodec =
  rc_to :: "registry \<Rightarrow> string + byte list"
  rc_from :: "byte list \<Rightarrow> string + registry"

definition VALIDATOR_STATE_KEY :: "byte list" where
  "VALIDATOR_STATE_KEY = str_bytes (lit ''validator_state_v1'')"

definition MULTI_VALIDATOR_EVER_SEEN_KEY :: "byte list" where
  "MULTI_VALIDATOR_EVER_SEEN_KEY = str_bytes (lit ''validator_multi_validator_ever_seen_v1'')"

record 'db ValidatorState =
  vs_inner :: registry
  vs_db_manager :: "'db RockDBManager"

definition on_inner :: "(registry, 'a) sm \<Rightarrow> ('db ValidatorState, 'a) sm" where
  "on_inner f vs = (case f (vs_inner vs) of (r, reg) \<Rightarrow> (r, vs\<lparr>vs_inner := reg\<rparr>))"

definition on_db :: "('db RockDBManager, 'a) sm \<Rightarrow> ('db ValidatorState, 'a) sm" where
  "on_db f vs = (case f (vs_db_manager vs) of (r, mg) \<Rightarrow> (r, vs\<lparr>vs_db_manager := mg\<rparr>))"

definition with_manager :: "'db RockDBManager \<Rightarrow> 'db ValidatorState" where
  "with_manager mg = \<lparr>vs_inner = [], vs_db_manager = mg\<rparr>"

definition load_state :: "'db Engine \<Rightarrow> RegistryCodec \<Rightarrow> 'db RockDBManager \<Rightarrow> 'db ValidatorState result" where
  "load_state G R mg =
     bindR (mg_read G STATE_COLUMN_NAME VALIDATOR_STATE_KEY mg) (\<lambda>maybe_bytes.
     bindR (ok_or (NotFound ''ValidatorState'') maybe_bytes) (\<lambda>bytes.
     bindR (map_err (\<lambda>_. SerializationError ''ValidatorState deserialize failed'') (rc_from R bytes)) (\<lambda>reg.
     bindR (lifecycle_validate lifecycle_from_globals) (\<lambda>_.
     bindR (validate_map reg) (\<lambda>_.
     Inr \<lparr>vs_inner = reg, vs_db_manager = mg\<rparr>)))))"

definition commit :: "'db Engine \<Rightarrow> RegistryCodec \<Rightarrow> ('db ValidatorState, unit) sm" where
  "commit G R =
     bindS (readS (\<lambda>_. lifecycle_validate lifecycle_from_globals)) (\<lambda>_.
     bindS (readS (\<lambda>vs. validate_map (vs_inner vs))) (\<lambda>_.
     bindS (readS (\<lambda>vs. map_err (\<lambda>_. SerializationError ''ValidatorState serialize failed'') (rc_to R (vs_inner vs)))) (\<lambda>bytes.
     map_errS (\<lambda>_. StorageError ''ValidatorState write failed'')
       (on_db (mg_write G STATE_COLUMN_NAME VALIDATOR_STATE_KEY bytes)))))"

section \<open>The founder\<close>

text \<open>The functions that read the chain take the reads of the manager as arguments: the block and the
  batch bytes at a height.\<close>

type_synonym block_reader = "nat \<Rightarrow> Block option result"
type_synonym bytes_reader = "nat \<Rightarrow> byte list option result"

definition derive_genesis_founder_from_chain :: "block_reader \<Rightarrow> (rstr \<times> nat) option result" where
  "derive_genesis_founder_from_chain get_block =
     bindR (get_block 0) (\<lambda>maybe_genesis_block.
     (case maybe_genesis_block of
        None \<Rightarrow> Inr None
      | Some genesis_block \<Rightarrow>
          if m_index (bl_metadata genesis_block) \<noteq> 0
            then Inl (ValidationError ''derive_genesis_founder_from_chain expected block 0'')
          else
            bindR (canonical_event_timestamp_from_block (m_timestamp (bl_metadata genesis_block))) (\<lambda>founder_timestamp.
            bindR (map_err (\<lambda>_. ValidationError ''derive_genesis_founder_from_chain invalid genesis founder wallet'')
                     (canon_wallet_id_checked (bl_miner genesis_block))) (\<lambda>founder_wallet.
            Inr (Some (founder_wallet, founder_timestamp))))))"

definition is_founder_entry :: "ValidatorMeta option \<Rightarrow> bool" where
  "is_founder_entry entry = (case entry of Some m \<Rightarrow> vm_join_height m = 0 \<and> vm_exit_height m = None | None \<Rightarrow> False)"

definition seed_founder_from_canonical_genesis :: "block_reader \<Rightarrow> registry \<Rightarrow> registry result" where
  "seed_founder_from_canonical_genesis get_block reg =
     bindR (derive_genesis_founder_from_chain get_block) (\<lambda>founder.
     (case founder of
        None \<Rightarrow> Inr reg
      | Some (founder_wallet, join_timestamp) \<Rightarrow>
          if is_founder_entry (hget reg founder_wallet) then Inr reg
          else bindR (meta_founder join_timestamp) (\<lambda>m. Inr (bt_insert founder_wallet m reg))))"

section \<open>The latch\<close>

definition db_get_multi_validator_ever_seen :: "'db Engine \<Rightarrow> 'db RockDBManager \<Rightarrow> bool result" where
  "db_get_multi_validator_ever_seen G mg =
     bindR (mg_read G STATE_COLUMN_NAME MULTI_VALIDATOR_EVER_SEEN_KEY mg) (\<lambda>maybe_bytes.
     Inr (case maybe_bytes of Some (b # _) \<Rightarrow> b = 49 | _ \<Rightarrow> False))"

definition db_set_multi_validator_ever_seen :: "'db Engine \<Rightarrow> ('db RockDBManager, unit) sm" where
  "db_set_multi_validator_ever_seen G =
     map_errS (\<lambda>_. StorageError ''ValidatorState multi_validator_ever_seen write failed'')
       (mg_write G STATE_COLUMN_NAME MULTI_VALIDATOR_EVER_SEEN_KEY [49])"

definition multi_validator_ever_seen :: "'db Engine \<Rightarrow> 'db ValidatorState \<Rightarrow> bool result" where
  "multi_validator_ever_seen G vs = db_get_multi_validator_ever_seen G (vs_db_manager vs)"

definition persist_multi_validator_latch_if_needed :: "'db Engine \<Rightarrow> ('db ValidatorState, unit) sm" where
  "persist_multi_validator_latch_if_needed G vs =
     (if length (vs_inner vs) \<le> 1 then (Inr (), vs)
      else
        bindS (readS (\<lambda>vs. db_get_multi_validator_ever_seen G (vs_db_manager vs))) (\<lambda>seen.
        if seen then returnS () else on_db (db_set_multi_validator_ever_seen G)) vs)"

definition seed_genesis_founder :: "'db Engine \<Rightarrow> RegistryCodec \<Rightarrow> rstr \<Rightarrow> nat \<Rightarrow> ('db ValidatorState, unit) sm" where
  "seed_genesis_founder G R founder_wallet join_timestamp =
     bindS (readS (\<lambda>_. map_err (\<lambda>_. ValidationError ''seed_genesis_founder invalid wallet'')
                         (canon_wallet_id_checked founder_wallet))) (\<lambda>founder_can.
     bindS (readS (\<lambda>_. canonical_event_timestamp_from_block join_timestamp)) (\<lambda>ts vs.
     if is_founder_entry (hget (vs_inner vs) founder_can) then (Inr (), vs)
     else
       bindS (readS (\<lambda>_. meta_founder ts)) (\<lambda>m.
       bindS (on_inner (\<lambda>reg. (Inr (), bt_insert founder_can m reg))) (\<lambda>_.
       bindS (commit G R) (\<lambda>_.
       persist_multi_validator_latch_if_needed G))) vs))"

definition is_canonically_known :: "rstr \<Rightarrow> 'db ValidatorState \<Rightarrow> bool result" where
  "is_canonically_known wallet vs =
     bindR (map_err (\<lambda>_. ValidationError ''is_canonically_known invalid wallet'') (canon_wallet_id_checked wallet)) (\<lambda>wallet_can.
     Inr (hget (vs_inner vs) wallet_can \<noteq> None))"

section \<open>Registrations of a block\<close>

definition canonical_wallet_from_register_tx :: "RegisterNodeTx \<Rightarrow> rstr result" where
  "canonical_wallet_from_register_tx reg =
     bindR (reg_wallet_str reg) (\<lambda>wallet_str.
     map_err (\<lambda>_. ValidationError ''RegisterNodeTx wallet invalid'') (canon_wallet_id_checked wallet_str))"

definition canonical_event_timestamp_for_block :: "Block \<Rightarrow> nat \<Rightarrow> nat result" where
  "canonical_event_timestamp_for_block block expected_height =
     (if m_index (bl_metadata block) \<noteq> expected_height
        then Inl (ValidationError ''ValidatorState canonical event height mismatch'')
      else canonical_event_timestamp_from_block (m_timestamp (bl_metadata block)))"

definition upsert_register_into_map :: "nat \<Rightarrow> nat \<Rightarrow> RegisterNodeTx \<Rightarrow> (registry, bool) sm" where
  "upsert_register_into_map height canonical_event_timestamp reg =
     bindS (readS (\<lambda>_. canonical_wallet_from_register_tx reg)) (\<lambda>wallet_can.
     bindS (readS (\<lambda>_. canonical_event_timestamp_from_block canonical_event_timestamp)) (\<lambda>ts.
     bindS (apply_register_or_renew wallet_can height ts) (\<lambda>outcome.
     returnS (outcome \<noteq> NoChange))))"

fun apply_registers :: "nat \<Rightarrow> nat \<Rightarrow> TxKind list \<Rightarrow> bool \<Rightarrow> (registry, bool) sm" where
  "apply_registers height ts [] any_change = returnS any_change"
| "apply_registers height ts (kind # kinds) any_change =
     (case kind of
        RegisterNode reg \<Rightarrow>
          bindS (upsert_register_into_map height ts reg) (\<lambda>changed.
          apply_registers height ts kinds (any_change \<or> changed))
      | _ \<Rightarrow> apply_registers height ts kinds any_change)"

definition commit_and_latch :: "'db Engine \<Rightarrow> RegistryCodec \<Rightarrow> bool \<Rightarrow> ('db ValidatorState, unit) sm" where
  "commit_and_latch G R changed =
     (if changed then bindS (commit G R) (\<lambda>_. persist_multi_validator_latch_if_needed G) else returnS ())"

definition apply_block :: "'db Engine \<Rightarrow> RegistryCodec \<Rightarrow> Block \<Rightarrow> TransactionBatch \<Rightarrow> ('db ValidatorState, unit) sm" where
  "apply_block G R block batch =
     (let height = m_index (bl_metadata block) in
      bindS (readS (\<lambda>_. canonical_event_timestamp_for_block block height)) (\<lambda>ts.
      bindS (on_inner (apply_registers height ts (b_transactions batch) False)) (\<lambda>any_change.
      commit_and_latch G R any_change)))"

definition apply_register_tx_at_block_time ::
    "'db Engine \<Rightarrow> RegistryCodec \<Rightarrow> nat \<Rightarrow> nat \<Rightarrow> RegisterNodeTx \<Rightarrow> ('db ValidatorState, unit) sm" where
  "apply_register_tx_at_block_time G R block_height block_timestamp tx =
     bindS (readS (\<lambda>_. canonical_event_timestamp_from_block block_timestamp)) (\<lambda>ts.
     bindS (on_inner (upsert_register_into_map block_height ts tx)) (\<lambda>changed.
     commit_and_latch G R changed))"

definition apply_register_tx ::
    "'db Engine \<Rightarrow> BlockExt \<Rightarrow> RegistryCodec \<Rightarrow> nat \<Rightarrow> RegisterNodeTx \<Rightarrow> ('db ValidatorState, unit) sm" where
  "apply_register_tx G X R block_height tx =
     bindS (readS (\<lambda>vs. bindR (get_block_by_index G X block_height (vs_db_manager vs)) (ok_or (NotFound ''containing block'')))) (\<lambda>block.
     bindS (readS (\<lambda>_. canonical_event_timestamp_for_block block block_height)) (\<lambda>ts.
     bindS (on_inner (upsert_register_into_map block_height ts tx)) (\<lambda>changed.
     commit_and_latch G R changed)))"

definition lifecycle_config_with_activation_delay :: "nat \<Rightarrow> ValidatorLifecycleConfig result" where
  "lifecycle_config_with_activation_delay activation_delay_blocks =
     (let cfg = lifecycle_from_globals\<lparr>lc_activation_delay_blocks := activation_delay_blocks\<rparr> in
      bindR (lifecycle_validate cfg) (\<lambda>_. Inr cfg))"

definition proposable_at :: "nat \<Rightarrow> nat \<Rightarrow> 'db ValidatorState \<Rightarrow> rstr list" where
  "proposable_at height activation_delay_blocks vs =
     (case lifecycle_config_with_activation_delay activation_delay_blocks of
        Inl _ \<Rightarrow> []
      | Inr cfg \<Rightarrow> sort (map fst (filter (\<lambda>(wallet, meta). meta_is_proposable_at meta height cfg) (vs_inner vs))))"

section \<open>Replay of the chain\<close>

definition replay_kind :: "nat \<Rightarrow> nat \<Rightarrow> TxKind \<Rightarrow> (registry, unit) sm" where
  "replay_kind idx ts kind =
     (case kind of
        RegisterNode reg \<Rightarrow> bindS (upsert_register_into_map idx ts reg) (\<lambda>_. returnS ())
      | _ \<Rightarrow> returnS ())"

definition replay_height :: "Ext \<Rightarrow> block_reader \<Rightarrow> bytes_reader \<Rightarrow> registry \<Rightarrow> nat \<Rightarrow> registry result" where
  "replay_height E get_block get_bytes reg idx =
     bindR (get_bytes idx) (\<lambda>maybe_bytes.
     (case maybe_bytes of
        None \<Rightarrow> Inr reg
      | Some bytes \<Rightarrow>
          bindR (bindR (get_block idx) (ok_or (NotFound ''block for existing tx batch''))) (\<lambda>block.
          bindR (canonical_event_timestamp_for_block block idx) (\<lambda>ts.
          bindR (map_err (\<lambda>_. SerializationError ''failed to deserialize batch'') (batch_deserialize E bytes)) (\<lambda>batch.
          (case forS (replay_kind idx ts) (b_transactions batch) reg of (r, reg') \<Rightarrow> bindR r (\<lambda>_. Inr reg')))))))"

definition replay_with :: "Ext \<Rightarrow> block_reader \<Rightarrow> bytes_reader \<Rightarrow> nat \<Rightarrow> registry result" where
  "replay_with E get_block get_bytes tip =
     bindR (seed_founder_from_canonical_genesis get_block []) (\<lambda>reg0.
     bindR (foldR (replay_height E get_block get_bytes) reg0 [0..<Suc tip]) (\<lambda>reg.
     bindR (validate_map reg) (\<lambda>_. Inr reg)))"

definition build_replay_map_from_chain :: "'db Engine \<Rightarrow> BlockExt \<Rightarrow> nat \<Rightarrow> 'db ValidatorState \<Rightarrow> registry result" where
  "build_replay_map_from_chain G X tip vs =
     replay_with (bx X) (\<lambda>i. get_block_by_index G X i (vs_db_manager vs))
       (\<lambda>i. get_tx_batch_bytes_by_index G i (vs_db_manager vs)) tip"

definition replace_with_rebuilt_map :: "'db Engine \<Rightarrow> RegistryCodec \<Rightarrow> registry \<Rightarrow> ('db ValidatorState, unit) sm" where
  "replace_with_rebuilt_map G R reg =
     bindS (readS (\<lambda>_. validate_map reg)) (\<lambda>_.
     bindS (on_inner (\<lambda>_. (Inr (), reg))) (\<lambda>_.
     bindS (commit G R) (\<lambda>_.
     persist_multi_validator_latch_if_needed G)))"

definition rebuild_from_chain ::
    "'db Engine \<Rightarrow> BlockExt \<Rightarrow> RegistryCodec \<Rightarrow> nat option \<Rightarrow> ('db ValidatorState, unit) sm" where
  "rebuild_from_chain G X R up_to_height =
     bindS (readS (\<lambda>vs. case up_to_height of Some h \<Rightarrow> Inr h | None \<Rightarrow> get_tip_height G (vs_db_manager vs))) (\<lambda>tip.
     bindS (readS (build_replay_map_from_chain G X tip)) (\<lambda>rebuilt.
     replace_with_rebuilt_map G R rebuilt))"

definition load_or_new ::
    "'db Engine \<Rightarrow> BlockExt \<Rightarrow> RegistryCodec \<Rightarrow> 'db RockDBManager \<Rightarrow> 'db ValidatorState result \<times> 'db RockDBManager" where
  "load_or_new G X R mg =
     (case load_state G R mg of
        Inr vs \<Rightarrow> (Inr vs, mg)
      | Inl (NotFound _) \<Rightarrow> (Inr (with_manager mg), mg)
      | Inl (SerializationError _) \<Rightarrow>
          (case rebuild_from_chain G X R None (with_manager mg) of
             (Inl e, vs) \<Rightarrow> (Inl e, vs_db_manager vs)
           | (Inr _, vs) \<Rightarrow> (Inr vs, vs_db_manager vs))
      | Inl e \<Rightarrow> (Inl e, mg))"

section \<open>Queries and exit\<close>

definition meta_for :: "rstr \<Rightarrow> 'db ValidatorState \<Rightarrow> ValidatorMeta option" where
  "meta_for wallet vs =
     (case canon_wallet_id_checked wallet of Inl _ \<Rightarrow> None | Inr wallet_can \<Rightarrow> hget (vs_inner vs) wallet_can)"

definition vs_join_height :: "rstr \<Rightarrow> 'db ValidatorState \<Rightarrow> nat option" where
  "vs_join_height wallet vs = map_option vm_join_height (meta_for wallet vs)"

definition vs_is_active_at :: "rstr \<Rightarrow> nat \<Rightarrow> 'db ValidatorState \<Rightarrow> bool" where
  "vs_is_active_at wallet height vs =
     (case canon_wallet_id_checked wallet of
        Inl _ \<Rightarrow> False
      | Inr wallet_can \<Rightarrow>
          (case hget (vs_inner vs) wallet_can of
             None \<Rightarrow> False
           | Some meta \<Rightarrow> meta_is_active_at meta height lifecycle_from_globals))"

definition active_at :: "nat \<Rightarrow> 'db ValidatorState \<Rightarrow> rstr list" where
  "active_at height vs = (case active_wallets_at (vs_inner vs) height of Inl _ \<Rightarrow> [] | Inr v \<Rightarrow> v)"

definition vs_reward_eligible_at :: "rstr \<Rightarrow> nat \<Rightarrow> 'db ValidatorState \<Rightarrow> bool" where
  "vs_reward_eligible_at wallet at_height vs =
     (case canon_wallet_id_checked wallet of
        Inl _ \<Rightarrow> False
      | Inr wallet_can \<Rightarrow>
          (case hget (vs_inner vs) wallet_can of
             None \<Rightarrow> False
           | Some meta \<Rightarrow> meta_reward_eligible_at meta at_height lifecycle_from_globals))"

definition vs_mark_exit :: "'db Engine \<Rightarrow> RegistryCodec \<Rightarrow> rstr \<Rightarrow> nat \<Rightarrow> ('db ValidatorState, unit) sm" where
  "vs_mark_exit G R wallet height =
     bindS (on_inner (apply_exit wallet height)) (\<lambda>changed.
     if changed then commit G R else returnS ())"

end
