(* ===== verification/ValidatorStateProps.thy ===== *)
theory ValidatorStateProps
  imports ValidatorState ReorgBatches
begin

text \<open>
  The registry in memory, its snapshot in the database and the replay of the stored chain agree: rebuilding
  establishes this and every stored and applied block keeps it.
\<close>

section \<open>What the operations change\<close>

lemma state_column_differs [simp]:
  "BLOCKMINT_DATA_COLUMN_NAME \<noteq> STATE_COLUMN_NAME" "TRANSACTION_BATCH_COLUMN_NAME \<noteq> STATE_COLUMN_NAME"
  "META_DATA_COLUMN_NAME \<noteq> STATE_COLUMN_NAME" "STATE_COLUMN_NAME \<noteq> BLOCKMINT_DATA_COLUMN_NAME"
  "STATE_COLUMN_NAME \<noteq> TRANSACTION_BATCH_COLUMN_NAME" "STATE_COLUMN_NAME \<noteq> META_DATA_COLUMN_NAME"
  by (simp_all add: column_defs)

lemma state_keys_differ [simp]: "MULTI_VALIDATOR_EVER_SEEN_KEY \<noteq> VALIDATOR_STATE_KEY"
proof
  assume "MULTI_VALIDATOR_EVER_SEEN_KEY = VALIDATOR_STATE_KEY"
  then have "lit ''validator_multi_validator_ever_seen_v1'' = lit ''validator_state_v1''"
    unfolding MULTI_VALIDATOR_EVER_SEEN_KEY_def VALIDATOR_STATE_KEY_def by (intro str_bytes_ascii_inj) simp_all
  then show False by simp
qed

lemma on_part_Inr [res_simps]:
  "on_db m vs = (Inr y, vs') \<longleftrightarrow> (\<exists>mg. m (vs_db_manager vs) = (Inr y, mg) \<and> vs' = vs\<lparr>vs_db_manager := mg\<rparr>)"
  "on_inner f vs = (Inr y, vs') \<longleftrightarrow> (\<exists>reg. f (vs_inner vs) = (Inr y, reg) \<and> vs' = vs\<lparr>vs_inner := reg\<rparr>)"
  by (auto simp: on_db_def on_inner_def split: prod.splits)

lemma on_inner_frames [frames]: "preserves (\<lambda>vs. f (vs_db_manager vs)) (on_inner m)"
  by (auto simp: preserves_def on_inner_def split: prod.splits)

lemma on_db_frames [frames]:
  "preserves f m \<Longrightarrow> preserves (\<lambda>vs. f (vs_db_manager vs)) (on_db m)" "preserves vs_inner (on_db m)"
  by (auto simp: preserves_def on_db_def split: prod.splits)

text \<open>The contents of the database behind a registry.\<close>

abbreviation contents :: "('db \<Rightarrow> kv_view) \<Rightarrow> 'db ValidatorState \<Rightarrow> kv_view" where
  "contents view vs \<equiv> mview view (vs_db_manager vs)"

lemma vs_writers_frames:
  assumes ok: "engine_ok G view" and c: "cf \<noteq> META_DATA_COLUMN_NAME" "cf \<noteq> STATE_COLUMN_NAME"
  shows "preserves (\<lambda>vs. contents view vs cf) (commit_and_latch G R b)"
    and "preserves (\<lambda>vs. mg_mode (vs_db_manager vs)) (commit_and_latch G R b)"
    and "preserves vs_inner (commit_and_latch G R b)"
proof -
  have l: "preserves f (persist_multi_validator_latch_if_needed G)"
    if "preserves f (on_db (db_set_multi_validator_ever_seen G))" for f :: "'a ValidatorState \<Rightarrow> 'o"
  proof -
    have "preserves f (bindS (readS (\<lambda>vs. db_get_multi_validator_ever_seen G (vs_db_manager vs))) (\<lambda>seen.
        if seen then returnS () else on_db (db_set_multi_validator_ever_seen G)))"
      using that by (intro frames)
    from preservesD [OF this] show ?thesis
      by (auto simp: preserves_def persist_multi_validator_latch_if_needed_def split: if_splits)
  qed
  show "preserves (\<lambda>vs. contents view vs cf) (commit_and_latch G R b)"
    unfolding commit_and_latch_def commit_def db_set_multi_validator_ever_seen_def using ok c
    by (intro frames l, simp_all add: db_set_multi_validator_ever_seen_def frames)
  show "preserves (\<lambda>vs. mg_mode (vs_db_manager vs)) (commit_and_latch G R b)"
    unfolding commit_and_latch_def commit_def db_set_multi_validator_ever_seen_def
    by (intro frames l, simp_all add: db_set_multi_validator_ever_seen_def frames)
  show "preserves vs_inner (commit_and_latch G R b)"
    unfolding commit_and_latch_def commit_def by (intro frames l)
qed

definition snapshot :: "RegistryCodec \<Rightarrow> kv_view \<Rightarrow> registry option" where
  "snapshot R w =
     (case w STATE_COLUMN_NAME VALIDATOR_STATE_KEY of
        None \<Rightarrow> None
      | Some bytes \<Rightarrow> (case rc_from R bytes of Inl _ \<Rightarrow> None | Inr reg \<Rightarrow> Some reg))"

definition codec_ok :: "RegistryCodec \<Rightarrow> bool" where
  "codec_ok R \<longleftrightarrow> (\<forall>reg b. rc_to R reg = Inr b \<longrightarrow> rc_from R b = Inr reg)"

lemma latch_snapshot:
  assumes ok: "engine_ok G view" and m: "chain_mode (vs_db_manager vs)"
    and l: "persist_multi_validator_latch_if_needed G vs = (Inr u, vs')"
  shows "snapshot R (contents view vs') = snapshot R (contents view vs)"
proof (cases "vs' = vs")
  case False
  then obtain mg' where "mg_write G STATE_COLUMN_NAME MULTI_VALIDATOR_EVER_SEEN_KEY [49] (vs_db_manager vs) = (Inr u, mg')"
    and vs': "vs' = vs\<lparr>vs_db_manager := mg'\<rparr>"
    using l by (auto simp: persist_multi_validator_latch_if_needed_def res_simps on_db_def db_set_multi_validator_ever_seen_def
        split: if_splits prod.splits)
  then show ?thesis using mg_write_put [OF ok m _, of STATE_COLUMN_NAME MULTI_VALIDATOR_EVER_SEEN_KEY "[49]" u mg' VALIDATOR_STATE_KEY]
    state_keys_differ [symmetric] by (simp add: snapshot_def)
qed simp

lemma commit_effect:
  assumes ok: "engine_ok G view" and m: "chain_mode (vs_db_manager vs)" and R: "codec_ok R"
    and c: "commit G R vs = (Inr u, vs')"
  shows "snapshot R (contents view vs') = Some (vs_inner vs)" "vs_inner vs' = vs_inner vs"
    "chain_mode (vs_db_manager vs')" "validate_map (vs_inner vs) = Inr ()"
proof -
  obtain b mg' where b: "rc_to R (vs_inner vs) = Inr b" and v: "validate_map (vs_inner vs) = Inr ()"
    and w: "mg_write G STATE_COLUMN_NAME VALIDATOR_STATE_KEY b (vs_db_manager vs) = (Inr u, mg')"
    and vs': "vs' = vs\<lparr>vs_db_manager := mg'\<rparr>"
    using c by (auto simp: commit_def res_simps)
  show "snapshot R (contents view vs') = Some (vs_inner vs)"
    using mg_write_put [OF ok m _ w, of VALIDATOR_STATE_KEY] R b by (simp add: snapshot_def vs' codec_ok_def)
  show "chain_mode (vs_db_manager vs')"
    using m preservesD [OF mode_frames(2) w] by (simp add: chain_mode_def vs')
qed (use c in \<open>auto simp: commit_def res_simps\<close>)

lemma commit_and_latch_snapshot:
  assumes ok: "engine_ok G view" and m: "chain_mode (vs_db_manager vs)" and R: "codec_ok R"
    and c: "commit_and_latch G R True vs = (Inr u, vs')"
  shows "snapshot R (contents view vs') = Some (vs_inner vs)" "validate_map (vs_inner vs) = Inr ()"
proof -
  obtain u1 v1 where 1: "commit G R vs = (Inr u1, v1)" and 2: "persist_multi_validator_latch_if_needed G v1 = (Inr u, vs')"
    using c by (auto simp: commit_and_latch_def res_simps)
  note e = commit_effect [OF ok m R 1]
  show "snapshot R (contents view vs') = Some (vs_inner vs)" using latch_snapshot [OF ok e(3) 2] e(1) by simp
  show "validate_map (vs_inner vs) = Inr ()" by (rule e(4))
qed

section \<open>Replay\<close>

text \<open>The replay of the contents of a database.\<close>

definition chain_block :: "BlockExt \<Rightarrow> kv_view \<Rightarrow> block_reader" where
  "chain_block X w i =
     (case w BLOCKMINT_DATA_COLUMN_NAME (block_key i) of
        None \<Rightarrow> Inr None
      | Some data \<Rightarrow> bindR (deserialize_from_storage X data) (\<lambda>b. Inr (Some b)))"

definition chain_bytes :: "kv_view \<Rightarrow> bytes_reader" where
  "chain_bytes w i = Inr (w TRANSACTION_BATCH_COLUMN_NAME (tx_batch_key i))"

definition replay_of :: "BlockExt \<Rightarrow> kv_view \<Rightarrow> nat \<Rightarrow> registry result" where
  "replay_of X w tip = replay_with (bx X) (chain_block X w) (chain_bytes w) tip"

lemma seed_mono:
  assumes "\<And>r. g 0 = Inr r \<Longrightarrow> g' 0 = Inr r" and "seed_founder_from_canonical_genesis g reg0 = Inr reg"
  shows "seed_founder_from_canonical_genesis g' reg0 = Inr reg"
  using assms by (auto simp: seed_founder_from_canonical_genesis_def derive_genesis_founder_from_chain_def res_simps)

lemma replay_height_mono:
  assumes "\<And>r. g i = Inr r \<Longrightarrow> g' i = Inr r" and "\<And>r. b i = Inr r \<Longrightarrow> b' i = Inr r"
    and "replay_height E g b reg0 i = Inr reg"
  shows "replay_height E g' b' reg0 i = Inr reg"
proof -
  obtain v where v: "b i = Inr v" using assms(3) by (auto simp: replay_height_def res_simps)
  show ?thesis using assms(1) assms(2) [OF v] assms(3) v
    by (cases v) (auto simp: replay_height_def, auto simp: res_simps)
qed

lemma replay_heights_mono:
  assumes "\<And>i r. i \<in> set is \<Longrightarrow> g i = Inr r \<Longrightarrow> g' i = Inr r"
    and "\<And>i r. i \<in> set is \<Longrightarrow> b i = Inr r \<Longrightarrow> b' i = Inr r"
    and "foldR (replay_height E g b) reg0 is = Inr reg"
  shows "foldR (replay_height E g' b') reg0 is = Inr reg"
  using assms
proof (induction "is" arbitrary: reg0)
  case (Cons i "is")
  then obtain reg1 where 1: "replay_height E g b reg0 i = Inr reg1" and 2: "foldR (replay_height E g b) reg1 is = Inr reg"
    by (auto simp: res_simps)
  have "replay_height E g' b' reg0 i = Inr reg1" using replay_height_mono [OF _ _ 1] Cons.prems by simp
  then show ?case using Cons.IH [OF _ _ 2] Cons.prems by simp
qed simp

lemma replay_with_mono:
  assumes "\<And>i r. i \<le> tip \<Longrightarrow> g i = Inr r \<Longrightarrow> g' i = Inr r" and "\<And>i r. i \<le> tip \<Longrightarrow> b i = Inr r \<Longrightarrow> b' i = Inr r"
    and "replay_with E g b tip = Inr reg"
  shows "replay_with E g' b' tip = Inr reg"
proof -
  obtain reg0 where 1: "seed_founder_from_canonical_genesis g [] = Inr reg0"
    and 2: "foldR (replay_height E g b) reg0 [0..<Suc tip] = Inr reg" and 3: "validate_map reg = Inr ()"
    using assms(3) by (auto simp: replay_with_def res_simps simp del: upt_Suc)
  have "foldR (replay_height E g' b') reg0 [0..<Suc tip] = Inr reg"
    by (rule replay_heights_mono [OF _ _ 2]) (use assms(1,2) in auto)
  moreover have "seed_founder_from_canonical_genesis g' [] = Inr reg0" by (rule seed_mono [OF _ 1]) (use assms(1) in auto)
  ultimately show ?thesis using 3 by (simp add: replay_with_def del: upt_Suc)
qed

lemma build_replay_of:
  assumes ok: "engine_ok G view" and b: "build_replay_map_from_chain G X tip vs = Inr reg"
  shows "replay_of X (contents view vs) tip = Inr reg"
  unfolding replay_of_def
  by (rule replay_with_mono [OF _ _ b [unfolded build_replay_map_from_chain_def]])
    (auto simp: get_block_by_index_def get_tx_batch_bytes_by_index_def chain_block_def chain_bytes_def res_simps
       dest!: bc_get_view [OF ok] split: option.splits)

lemma upsert_keeps:
  assumes "registry_ok reg" and "upsert_register_into_map h ts tx reg = (Inr c, reg')"
  shows "registry_ok reg'" and "\<not> c \<Longrightarrow> reg' = reg"
  using assms register_keeps [OF assms(1)] by (auto simp: upsert_register_into_map_def res_simps)

lemma apply_registers_replay:
  assumes "registry_ok reg" and "apply_registers h ts kinds any reg = (Inr c, reg')"
  shows "forS (replay_kind h ts) kinds reg = (Inr (), reg') \<and> registry_ok reg' \<and> (\<not> c \<longrightarrow> \<not> any \<and> reg' = reg)"
  using assms
proof (induction kinds arbitrary: any reg)
  case (Cons k kinds)
  show ?case
  proof (cases "\<exists>tx. k = RegisterNode tx")
    case True
    then obtain tx c1 reg1 where k: "k = RegisterNode tx" and 1: "upsert_register_into_map h ts tx reg = (Inr c1, reg1)"
      and 2: "apply_registers h ts kinds (any \<or> c1) reg1 = (Inr c, reg')"
      using Cons.prems(2) by (auto simp: res_simps)
    note u = upsert_keeps [OF Cons.prems(1) 1]
    show ?thesis using Cons.IH [OF u(1) 2] u(2) 1 by (auto simp: k replay_kind_def res_simps)
  next
    case False
    then show ?thesis
      using Cons.IH [of reg any] Cons.prems by (auto simp: replay_kind_def res_simps split: TxKind.splits)
  qed
qed (auto simp: res_simps)

lemma replay_kinds_ok:
  assumes "registry_ok reg" and "forS (replay_kind h ts) kinds reg = (Inr (), reg')"
  shows "registry_ok reg'"
  using assms
proof (induction kinds arbitrary: reg)
  case (Cons k kinds)
  then obtain reg1 where 1: "replay_kind h ts k reg = (Inr (), reg1)" and 2: "forS (replay_kind h ts) kinds reg1 = (Inr (), reg')"
    by (auto simp: res_simps)
  have "registry_ok reg1" using 1 Cons.prems(1) upsert_keeps(1) [OF Cons.prems(1)]
    by (auto simp: replay_kind_def res_simps split: TxKind.splits)
  from Cons.IH [OF this 2] show ?case .
qed (simp add: res_simps)

lemma founder_ok: "meta_founder ts = Inr m \<Longrightarrow> meta_ok m"
  by (auto simp: meta_founder_def Let_def res_simps structural_iff simp del: validate_unix_secs_Inr)

lemma derived_founder_canonical:
  assumes "derive_genesis_founder_from_chain g = Inr (Some (w, ts))"
  shows "canonical_wallet w"
proof -
  obtain blk where "g 0 = Inr (Some blk)"
    using assms by (auto simp: derive_genesis_founder_from_chain_def res_simps split: option.splits)
  then show ?thesis
    using assms canon_wallet_result(1) by (auto simp: derive_genesis_founder_from_chain_def res_simps split: if_splits)
qed

lemma seed_ok:
  assumes "registry_ok reg0" and "seed_founder_from_canonical_genesis g reg0 = Inr reg"
  shows "registry_ok reg"
proof -
  obtain f where f: "derive_genesis_founder_from_chain g = Inr f"
    using assms(2) by (auto simp: seed_founder_from_canonical_genesis_def res_simps)
  show ?thesis
    using assms f derived_founder_canonical registry_ok_insert [OF assms(1)] founder_ok
    by (cases f) (auto simp: seed_founder_from_canonical_genesis_def res_simps split: if_splits)
qed

lemma replay_height_ok:
  assumes "registry_ok reg0" and "replay_height E g b reg0 i = Inr reg"
  shows "registry_ok reg"
proof -
  obtain v where v: "b i = Inr v" using assms(2) by (auto simp: replay_height_def res_simps)
  have p: "(case p of (r, reg') \<Rightarrow> bindR r (\<lambda>_. Inr reg')) = Inr reg \<longleftrightarrow> p = (Inr (), reg)" for p :: "unit result \<times> registry"
    by (cases p) (auto simp: res_simps)
  show ?thesis using assms replay_kinds_ok [OF assms(1)] v
    by (cases v) (auto simp: replay_height_def p res_simps)
qed

lemma replay_with_parts:
  assumes "replay_with E g b tip = Inr reg"
  shows "\<exists>reg0. seed_founder_from_canonical_genesis g [] = Inr reg0 \<and>
    foldR (replay_height E g b) reg0 [0..<Suc tip] = Inr reg" and "registry_ok reg"
proof -
  obtain reg0 where 1: "seed_founder_from_canonical_genesis g [] = Inr reg0"
    and 2: "foldR (replay_height E g b) reg0 [0..<Suc tip] = Inr reg"
    using assms by (auto simp: replay_with_def res_simps simp del: upt_Suc)
  show "\<exists>reg0. seed_founder_from_canonical_genesis g [] = Inr reg0 \<and>
    foldR (replay_height E g b) reg0 [0..<Suc tip] = Inr reg" using 1 2 by blast
  have "registry_ok reg0" using seed_ok [OF _ 1] by (simp add: registry_ok_def)
  then show "registry_ok reg"
    using foldR_invariant [where P = registry_ok and f = "replay_height E g b" and xs = "[0..<Suc tip]"] 2 replay_height_ok by blast
qed

lemma replay_with_Suc:
  assumes "replay_with E g b tip = Inr reg"
  shows "replay_with E g b (Suc tip) =
    bindR (replay_height E g b reg (Suc tip)) (\<lambda>reg'. bindR (validate_map reg') (\<lambda>_. Inr reg'))"
proof -
  obtain reg0 where "seed_founder_from_canonical_genesis g [] = Inr reg0"
    and "foldR (replay_height E g b) reg0 [0..<Suc tip] = Inr reg"
    using replay_with_parts(1) [OF assms] by blast
  moreover have "[0..<Suc (Suc tip)] = [0..<Suc tip] @ [Suc tip]" by simp
  ultimately show ?thesis
    by (cases "replay_height E g b reg (Suc tip)") (simp_all add: replay_with_def foldR_append del: upt_Suc)
qed

section \<open>Agreement of memory, snapshot and chain\<close>

definition in_sync :: "BlockExt \<Rightarrow> RegistryCodec \<Rightarrow> ('db \<Rightarrow> kv_view) \<Rightarrow> nat \<Rightarrow> 'db ValidatorState \<Rightarrow> bool" where
  "in_sync X R view tip vs \<longleftrightarrow>
     chain_mode (vs_db_manager vs) \<and> replay_of X (contents view vs) tip = Inr (vs_inner vs) \<and>
     snapshot R (contents view vs) = Some (vs_inner vs)"

text \<open>Runs of a node over its registry: it is rebuilt from the chain at some height, and then blocks are
  stored with their batches, one height after the other, and applied.\<close>

inductive node_run :: "'db Engine \<Rightarrow> BlockExt \<Rightarrow> RegistryCodec \<Rightarrow> nat \<Rightarrow> 'db ValidatorState \<Rightarrow> bool" for G X R where
  start: "\<lbrakk>chain_mode (vs_db_manager vs); up = Some tip \<or> up = None \<and> get_tip_height G (vs_db_manager vs) = Inr tip;
      rebuild_from_chain G X R up vs = (Inr u, vs')\<rbrakk> \<Longrightarrow> node_run G X R tip vs'"
| block: "\<lbrakk>node_run G X R tip vs; on_db (store_latest_block G block_data (Suc tip)) vs = (Inr u1, v1);
      on_db (store_batch_bytes G (Suc tip) batch_data) v1 = (Inr u2, v2);
      deserialize_from_storage X block_data = Inr b; batch_deserialize (bx X) batch_data = Inr batch;
      m_index (bl_metadata b) = Suc tip; apply_block G R b batch v2 = (Inr u3, v3)\<rbrakk> \<Longrightarrow> node_run G X R (Suc tip) v3"

lemma rebuild_in_sync:
  assumes ok: "engine_ok G view" and R: "codec_ok R" and m: "chain_mode (vs_db_manager vs)"
    and up: "up = Some tip \<or> up = None \<and> get_tip_height G (vs_db_manager vs) = Inr tip"
    and r: "rebuild_from_chain G X R up vs = (Inr u, vs')"
  shows "in_sync X R view tip vs'"
proof -
  obtain reg where b: "build_replay_map_from_chain G X tip vs = Inr reg"
    and c: "commit_and_latch G R True (vs\<lparr>vs_inner := reg\<rparr>) = (Inr u, vs')"
    using r up by (auto simp: rebuild_from_chain_def replace_with_rebuilt_map_def commit_and_latch_def res_simps)
  note p = build_replay_of [OF ok b]
  have k: "contents view vs' cf = contents view vs cf" if "cf \<noteq> META_DATA_COLUMN_NAME" "cf \<noteq> STATE_COLUMN_NAME" for cf
    using preservesD [OF vs_writers_frames(1) [OF ok that] c] by simp
  have "chain_block X (contents view vs') = chain_block X (contents view vs)" "chain_bytes (contents view vs') = chain_bytes (contents view vs)"
    by (simp_all add: fun_eq_iff chain_block_def chain_bytes_def k)
  then have "replay_of X (contents view vs') tip = Inr reg" using p by (simp add: replay_of_def)
  moreover have "vs_inner vs' = reg" using preservesD [OF vs_writers_frames(3) [OF ok, of BLOCKMINT_DATA_COLUMN_NAME] c] by simp
  moreover have "chain_mode (vs_db_manager vs')"
    using m preservesD [OF vs_writers_frames(2) [OF ok, of BLOCKMINT_DATA_COLUMN_NAME] c] by (simp add: chain_mode_def)
  ultimately show ?thesis
    using commit_and_latch_snapshot(1) [OF ok _ R c] m by (simp add: in_sync_def)
qed

text \<open>Storing a block and its batch sets these two slots and keeps all others and the snapshot.\<close>

lemma store_block_effect:
  assumes ok: "engine_ok G view" and s: "on_db (store_latest_block G d i) vs = (Inr u, vs')"
  shows "contents view vs' BLOCKMINT_DATA_COLUMN_NAME (block_key j) =
      (if j = i then Some d else contents view vs BLOCKMINT_DATA_COLUMN_NAME (block_key j))"
    and "cf \<noteq> BLOCKMINT_DATA_COLUMN_NAME \<Longrightarrow> cf \<noteq> META_DATA_COLUMN_NAME \<Longrightarrow> contents view vs' cf = contents view vs cf"
    and "vs_inner vs' = vs_inner vs"
    and "mg_mode (vs_db_manager vs') = mg_mode (vs_db_manager vs)"
proof -
  obtain mg u1 m1 u2 m2 where p: "batch_process_all G (vs_db_manager vs) = (Inr u1, m1)"
    and w: "bc_write G BLOCKMINT_DATA_COLUMN_NAME [PutOp BLOCKMINT_DATA_COLUMN_NAME (block_key i) d] m1 = (Inr u2, m2)"
    and f: "bc_flush G BLOCKMINT_DATA_COLUMN_NAME m2 = (Inr u, mg)"
    and st: "store_latest_block G d i (vs_db_manager vs) = (Inr u, mg)" and vs': "vs' = vs\<lparr>vs_db_manager := mg\<rparr>"
    using s by (auto simp: store_latest_block_def res_simps split: if_splits)
  show "contents view vs' BLOCKMINT_DATA_COLUMN_NAME (block_key j) =
      (if j = i then Some d else contents view vs BLOCKMINT_DATA_COLUMN_NAME (block_key j))"
    using put_view [OF ok w] bc_flush_view [OF ok f] batch_process_all_columns [OF ok _ p, of BLOCKMINT_DATA_COLUMN_NAME]
    by (simp add: vs')
  show "cf \<noteq> BLOCKMINT_DATA_COLUMN_NAME \<Longrightarrow> cf \<noteq> META_DATA_COLUMN_NAME \<Longrightarrow> contents view vs' cf = contents view vs cf"
    using keepsD [OF keeps_writers(8) [OF ok] st] by (simp add: vs')
  show "mg_mode (vs_db_manager vs') = mg_mode (vs_db_manager vs)"
    using preservesD [OF mode_frames(1) p] preservesD [OF mode_frames(3) w] preservesD [OF mode_frames(4) f] by (simp add: vs')
qed (use s in \<open>auto simp: res_simps\<close>)

lemma store_batch_effect:
  assumes ok: "engine_ok G view" and s: "on_db (store_batch_bytes G i d) vs = (Inr u, vs')"
  shows "contents view vs' TRANSACTION_BATCH_COLUMN_NAME (tx_batch_key j) =
      (if j = i then Some d else contents view vs TRANSACTION_BATCH_COLUMN_NAME (tx_batch_key j))"
    and "cf \<noteq> TRANSACTION_BATCH_COLUMN_NAME \<Longrightarrow> contents view vs' cf = contents view vs cf"
    and "vs_inner vs' = vs_inner vs"
    and "mg_mode (vs_db_manager vs') = mg_mode (vs_db_manager vs)"
proof -
  obtain mg u1 m1 where w: "bc_write G TRANSACTION_BATCH_COLUMN_NAME [PutOp TRANSACTION_BATCH_COLUMN_NAME (tx_batch_key i) d] (vs_db_manager vs) = (Inr u1, m1)"
    and f: "bc_flush G TRANSACTION_BATCH_COLUMN_NAME m1 = (Inr u, mg)"
    and st: "store_batch_bytes G i d (vs_db_manager vs) = (Inr u, mg)" and vs': "vs' = vs\<lparr>vs_db_manager := mg\<rparr>"
    using s by (auto simp: store_batch_bytes_def res_simps)
  show "contents view vs' TRANSACTION_BATCH_COLUMN_NAME (tx_batch_key j) =
      (if j = i then Some d else contents view vs TRANSACTION_BATCH_COLUMN_NAME (tx_batch_key j))"
    using store_batch_slot [OF ok st, of j] by (simp add: vs' batch_slot_def)
  show "cf \<noteq> TRANSACTION_BATCH_COLUMN_NAME \<Longrightarrow> contents view vs' cf = contents view vs cf"
    using keepsD [OF keeps_writers(7) [OF ok] st] by (simp add: vs')
  show "mg_mode (vs_db_manager vs') = mg_mode (vs_db_manager vs)"
    using preservesD [OF mode_frames(3) w] preservesD [OF mode_frames(4) f] by (simp add: vs')
qed (use s in \<open>auto simp: res_simps\<close>)

lemma apply_block_in_sync:
  assumes ok: "engine_ok G view" and R: "codec_ok R" and m: "chain_mode (vs_db_manager vs)"
    and rep: "replay_of X (contents view vs) tip = Inr (vs_inner vs)" and snap: "snapshot R (contents view vs) = Some (vs_inner vs)"
    and blk: "chain_block X (contents view vs) (Suc tip) = Inr (Some b)"
    and byt: "chain_bytes (contents view vs) (Suc tip) = Inr (Some bytes)" and bat: "batch_deserialize (bx X) bytes = Inr batch"
    and idx: "m_index (bl_metadata b) = Suc tip" and ap: "apply_block G R b batch vs = (Inr u, vs')"
  shows "in_sync X R view (Suc tip) vs'"
proof -
  have reg: "registry_ok (vs_inner vs)" using replay_with_parts(2) rep by (simp add: replay_of_def)
  obtain ts c inner where ts: "canonical_event_timestamp_for_block b (Suc tip) = Inr ts"
    and r: "apply_registers (Suc tip) ts (b_transactions batch) False (vs_inner vs) = (Inr c, inner)"
    and l: "commit_and_latch G R c (vs\<lparr>vs_inner := inner\<rparr>) = (Inr u, vs')"
    using ap by (auto simp: apply_block_def Let_def idx res_simps)
  from apply_registers_replay [OF reg r] have f: "forS (replay_kind (Suc tip) ts) (b_transactions batch) (vs_inner vs) = (Inr (), inner)"
    and reg': "registry_ok inner" and nc: "\<not> c \<Longrightarrow> inner = vs_inner vs" by auto
  have "replay_of X (contents view vs) (Suc tip) = Inr inner"
    using replay_with_Suc [OF rep [unfolded replay_of_def]] f registry_ok_validates [OF reg']
    by (simp add: replay_of_def replay_height_def byt blk ts bat)
  moreover have k: "contents view vs' cf = contents view vs cf" if "cf \<noteq> META_DATA_COLUMN_NAME" "cf \<noteq> STATE_COLUMN_NAME" for cf
    using preservesD [OF vs_writers_frames(1) [OF ok that] l] by simp
  have "chain_block X (contents view vs') = chain_block X (contents view vs)" "chain_bytes (contents view vs') = chain_bytes (contents view vs)"
    by (simp_all add: fun_eq_iff chain_block_def chain_bytes_def k)
  moreover have "vs_inner vs' = inner" using preservesD [OF vs_writers_frames(3) [OF ok, of BLOCKMINT_DATA_COLUMN_NAME] l] by simp
  moreover have "chain_mode (vs_db_manager vs')"
    using m preservesD [OF vs_writers_frames(2) [OF ok, of BLOCKMINT_DATA_COLUMN_NAME] l] by (simp add: chain_mode_def)
  moreover have "snapshot R (contents view vs') = Some inner"
  proof (cases c)
    case True
    then show ?thesis using commit_and_latch_snapshot(1) [OF ok _ R, of "vs\<lparr>vs_inner := inner\<rparr>"] m l by simp
  next
    case False
    then show ?thesis using nc l snap by (auto simp: commit_and_latch_def res_simps)
  qed
  ultimately show ?thesis by (simp add: in_sync_def replay_of_def)
qed

lemma store_keeps_replay:
  assumes "\<And>i. i \<le> tip \<Longrightarrow> chain_block X w' i = chain_block X w i" and "\<And>i. i \<le> tip \<Longrightarrow> chain_bytes w' i = chain_bytes w i"
    and "replay_of X w tip = Inr reg"
  shows "replay_of X w' tip = Inr reg"
  using replay_with_mono [OF _ _ assms(3) [unfolded replay_of_def], of "chain_block X w'" "chain_bytes w'"] assms(1,2)
  by (simp add: replay_of_def)

lemma node_run_in_sync:
  assumes ok: "engine_ok G view" and R: "codec_ok R" and "node_run G X R tip vs"
  shows "in_sync X R view tip vs"
  using assms(3)
proof induction
  case (start vs up tip u vs')
  then show ?case by (intro rebuild_in_sync [OF ok R])
next
  case (block tip vs bd u1 v1 td u2 v2 b batch u3 v3)
  note 1 = store_block_effect [OF ok block.hyps(2)] and 2 = store_batch_effect [OF ok block.hyps(3)]
  have s: "chain_mode (vs_db_manager vs)" "replay_of X (contents view vs) tip = Inr (vs_inner vs)"
    "snapshot R (contents view vs) = Some (vs_inner vs)" using block.IH by (auto simp: in_sync_def)
  have blk: "chain_block X (contents view v2) i = (if i = Suc tip then Inr (Some b) else chain_block X (contents view vs) i)" for i
    using 1(1) [of i] 2(2) [of BLOCKMINT_DATA_COLUMN_NAME] block.hyps(4) by (simp add: chain_block_def)
  have byt: "chain_bytes (contents view v2) i = (if i = Suc tip then Inr (Some td) else chain_bytes (contents view vs) i)" for i
    using 1(2) [of TRANSACTION_BATCH_COLUMN_NAME] 2(1) [of i] by (simp add: chain_bytes_def)
  have st: "contents view v2 STATE_COLUMN_NAME = contents view vs STATE_COLUMN_NAME"
    using 1(2) [of STATE_COLUMN_NAME] 2(2) [of STATE_COLUMN_NAME] by simp
  show ?case
  proof (rule apply_block_in_sync [OF ok R _ _ _ _ _ block.hyps(5) block.hyps(6) block.hyps(7)])
    show "chain_mode (vs_db_manager v2)" using s(1) 1(4) 2(4) by (simp add: chain_mode_def)
    show "replay_of X (contents view v2) tip = Inr (vs_inner v2)"
      using store_keeps_replay [OF _ _ s(2), of "contents view v2"] by (simp add: blk byt 1(3) 2(3))
    show "snapshot R (contents view v2) = Some (vs_inner v2)" using s(3) by (simp add: snapshot_def st 1(3) 2(3))
  qed (simp_all add: blk byt)
qed

text \<open>C8. The validator registry follows the chain. In every state a node reaches by rebuilding the registry
  from the chain and then storing and applying the blocks of the following heights, the registry is valid,
  and both ways of recovering it give it back: reading the snapshot of the state column gives exactly this
  state, and replaying the stored chain from genesis up to the tip gives the registry that the blocks built
  step by step. So no applied block is lost by a restart and none is counted twice.\<close>

theorem registry_follows_chain:
  assumes ok: "engine_ok G view" and R: "codec_ok R" and run: "node_run G X R tip vs"
  shows "registry_ok (vs_inner vs) \<and>
    (\<forall>vs'. load_state G R (vs_db_manager vs) = Inr vs' \<longrightarrow> vs' = vs) \<and>
    (\<forall>reg. build_replay_map_from_chain G X tip vs = Inr reg \<longrightarrow> reg = vs_inner vs) \<and>
    (\<forall>u vs'. rebuild_from_chain G X R (Some tip) vs = (Inr u, vs') \<longrightarrow> vs_inner vs' = vs_inner vs)"
proof -
  have s: "chain_mode (vs_db_manager vs)" "replay_of X (contents view vs) tip = Inr (vs_inner vs)"
    "snapshot R (contents view vs) = Some (vs_inner vs)" using node_run_in_sync [OF assms] by (auto simp: in_sync_def)
  have b: "reg = vs_inner vs" if "build_replay_map_from_chain G X tip vs = Inr reg" for reg
    using build_replay_of [OF ok that] s(2) by simp
  have "vs' = vs" if "load_state G R (vs_db_manager vs) = Inr vs'" for vs'
    using that s(3) mg_read_view [OF ok s(1)] by (fastforce simp: load_state_def snapshot_def res_simps split: option.splits sum.splits)
  moreover have "vs_inner vs' = vs_inner vs" if rb: "rebuild_from_chain G X R (Some tip) vs = (Inr u, vs')" for u vs'
  proof -
    obtain reg where r: "build_replay_map_from_chain G X tip vs = Inr reg"
      and c: "commit_and_latch G R True (vs\<lparr>vs_inner := reg\<rparr>) = (Inr u, vs')"
      using rb by (auto simp: rebuild_from_chain_def replace_with_rebuilt_map_def commit_and_latch_def res_simps)
    show ?thesis using preservesD [OF vs_writers_frames(3) [OF ok, of BLOCKMINT_DATA_COLUMN_NAME] c] b [OF r] by simp
  qed
  moreover have "registry_ok (vs_inner vs)" by (rule replay_with_parts(2) [OF s(2) [unfolded replay_of_def]])
  ultimately show ?thesis using b by blast
qed

section \<open>A concrete run\<close>

text \<open>From an empty chain, one block whose batch registers a node.\<close>

definition run_block :: Block where
  "run_block = \<lparr>bl_metadata = sample_meta\<lparr>m_index := 1, m_previous_hash := replicate 64 2, m_guardian_signature := replicate SIG_LEN 1\<rparr>, bl_batch_key = None,
     bl_miner = sample_wallet 97, bl_block_hash = replicate 64 1, bl_reward = 0\<rparr>"

definition run_batch :: TransactionBatch where
  "run_batch = sample_batch [RegisterNode sample_reg]"

definition run_bext :: BlockExt where
  "run_bext = sample_bext\<lparr>pc_block_from := \<lambda>d. Inr run_block, bx := fixed_ext\<lparr>pc_batch_take := \<lambda>b. Inr (run_batch, [])\<rparr>\<rparr>"

definition run_registry :: registry where
  "run_registry = [(sample_wallet 97, \<lparr>vm_join_height = 1, vm_join_timestamp = 1700000000, vm_last_renew_height = 1,
     vm_last_renew_timestamp = 1700000000, vm_exit_height = None\<rparr>)]"

definition run_codec :: RegistryCodec where
  "run_codec = \<lparr>rc_to = \<lambda>reg. if reg = [] then Inr [0] else if reg = run_registry then Inr [1] else Inl ''unsupported'',
     rc_from = \<lambda>b. if b = [0] then Inr [] else if b = [1] then Inr run_registry else Inl ''unsupported''\<rparr>"

lemma run_codec_ok: "codec_ok run_codec"
  by (auto simp: codec_ok_def run_codec_def split: if_splits)

lemma run_start:
  "\<exists>db. rebuild_from_chain mem_engine run_bext run_codec (Some 0) (with_manager (mem_manager [])) =
     (Inr (), \<lparr>vs_inner = [], vs_db_manager = mem_manager db\<rparr>)"
proof -
  have r: "build_replay_map_from_chain mem_engine run_bext 0 \<lparr>vs_inner = [], vs_db_manager = mem_manager []\<rparr> = Inr []"
    by (simp add: build_replay_map_from_chain_def replay_with_def get_block_by_index_def
        get_tx_batch_bytes_by_index_def seed_founder_from_canonical_genesis_def derive_genesis_founder_from_chain_def
        replay_height_def validate_map_def)
  have "rebuild_from_chain mem_engine run_bext run_codec (Some 0) (with_manager (mem_manager [])) =
     (Inr (), \<lparr>vs_inner = [], vs_db_manager = mem_manager (((STATE_COLUMN_NAME, VALIDATOR_STATE_KEY), [0]) # mem_marked [])\<rparr>)"
    by (simp add: rebuild_from_chain_def bindS_def readS_def replace_with_rebuilt_map_def validate_map_def on_inner_def
        commit_def run_codec_def map_errS_def on_db_def with_manager_def persist_multi_validator_latch_if_needed_def r)
  then show ?thesis by blast
qed

lemma run_decode:
  "deserialize_from_storage run_bext (replicate 64 1) = Inr run_block" "batch_deserialize (bx run_bext) [1] = Inr run_batch"
proof -
  have w: "canonical_wallet (sample_wallet 97)" by (simp add: sample_wallet_canonical is_lower_hex_def)
  show "deserialize_from_storage run_bext (replicate 64 1) = Inr run_block"
    by (simp add: canonicalize_miner_for_height_def canonical_wallet_facts [OF w] canon_wallet_canonical [OF w]
      MAX_MINER_LEN_def REMZAR_WALLET_LEN_def deserialize_from_storage_def validate_storage_len_def normalize_and_validate_after_decode_def run_bext_def
      cfg_defs Let_def validate_batch_key_bound_def validate_block_hash_not_zero_def run_block_def meta_validate_structural_def
      MAX_METADATA_INDEX_HARD_def zero_hash_def validate_size_def sample_bext_def sample_meta_def SIG_LEN_def)
qed (simp add: run_bext_def batch_deserialize_def)

lemma run_apply:
  "apply_registers (Suc 0) 1700000000 (b_transactions run_batch) False [] = (Inr True, run_registry)"
proof -
  have w: "canonical_wallet (sample_wallet 97)" by (simp add: sample_wallet_canonical is_lower_hex_def)
  have t: "UNIX_2000_SECS \<le> 1700000000" "1700000000 \<le> UNIX_9999_SECS" by (simp_all add: time_consts)
  have s: "reg_wallet_str sample_reg = Inr (sample_wallet 97)"
    using from_utf8_ascii [OF canonical_wallet_facts(1) [OF w]] canon_wallet_canonical [OF w]
      map_unat_word_of_nat [of "sample_wallet 97"]
    by (simp add: reg_wallet_str_def sample_reg_def) (simp add: sample_wallet_def list_all_iff)
  show ?thesis
    using register_eq [OF canon_wallet_canonical [OF w] t, of "Suc 0" "[]"] joined_ok(1) [OF t w, of "Suc 0"] t
    by (simp add: run_batch_def sample_batch_def upsert_register_into_map_def bindS_def readS_def returnS_def
        canonical_wallet_from_register_tx_def s canon_wallet_canonical [OF w] canonical_event_timestamp_from_block_def
        validate_unix_secs_structural_def run_registry_def)
qed

lemma run_commit:
  "apply_block mem_engine run_codec run_block run_batch \<lparr>vs_inner = [], vs_db_manager = mem_manager db\<rparr> =
     (Inr (), \<lparr>vs_inner = run_registry, vs_db_manager = mem_manager (((STATE_COLUMN_NAME, VALIDATOR_STATE_KEY), [1]) # mem_marked db)\<rparr>)"
proof -
  have t: "canonical_event_timestamp_for_block run_block (Suc 0) = Inr 1700000000"
    by (simp add: canonical_event_timestamp_for_block_def run_block_def sample_meta_def canonical_event_timestamp_from_block_def
        validate_unix_secs_structural_def time_consts)
  have v: "validate_map run_registry = Inr ()"
    by (intro registry_ok_validates)
      (simp add: registry_ok_def run_registry_def bt_wf_def meta_ok_def time_consts sample_wallet_canonical is_lower_hex_def)
  have n: "run_registry \<noteq> []" "length run_registry \<le> 1" by (simp_all add: run_registry_def)
  have i: "m_index (bl_metadata run_block) = Suc 0" by (simp add: run_block_def)
  show ?thesis
    using n by (simp add: apply_block_def Let_def i t bindS_def readS_def on_inner_def run_apply commit_and_latch_def commit_def run_codec_def v
        map_errS_def on_db_def persist_multi_validator_latch_if_needed_def)
qed

theorem registry_follows_chain_witness:
  "\<exists>vs. node_run mem_engine run_bext run_codec 1 vs \<and> vs_inner vs = run_registry \<and> registry_ok (vs_inner vs) \<and>
     (\<forall>vs'. load_state mem_engine run_codec (vs_db_manager vs) = Inr vs' \<longrightarrow> vs' = vs)"
proof -
  obtain db where s: "rebuild_from_chain mem_engine run_bext run_codec (Some 0) (with_manager (mem_manager [])) =
     (Inr (), \<lparr>vs_inner = [], vs_db_manager = mem_manager db\<rparr>)" using run_start by blast
  have r0: "node_run mem_engine run_bext run_codec 0 \<lparr>vs_inner = [], vs_db_manager = mem_manager db\<rparr>"
    by (rule start [OF _ _ s]) (simp_all add: with_manager_def chain_mode_def mem_manager_def)
  let ?v1 = "\<lparr>vs_inner = [], vs_db_manager = mem_manager (((BLOCKMINT_DATA_COLUMN_NAME, block_key 1), replicate 64 1) # mem_marked db)\<rparr>"
  let ?v2 = "\<lparr>vs_inner = [], vs_db_manager = mem_manager (((TRANSACTION_BATCH_COLUMN_NAME, tx_batch_key 1), [1]) #
      ((BLOCKMINT_DATA_COLUMN_NAME, block_key 1), replicate 64 1) # mem_marked db)\<rparr>"
  have 1: "on_db (store_latest_block mem_engine (replicate 64 1) (Suc 0)) \<lparr>vs_inner = [], vs_db_manager = mem_manager db\<rparr> = (Inr (), ?v1)"
    by (simp add: on_db_def store_latest_block_def bindS_def cfg_defs)
  have 2: "on_db (store_batch_bytes mem_engine (Suc 0) [1]) ?v1 = (Inr (), ?v2)"
    by (simp add: on_db_def store_batch_bytes_def bindS_def)
  have i: "m_index (bl_metadata run_block) = Suc 0" by (simp add: run_block_def)
  obtain vs where n: "node_run mem_engine run_bext run_codec 1 vs" and r: "vs_inner vs = run_registry"
    by (rule that [OF block [OF r0 1 2 run_decode i run_commit, folded One_nat_def]]) simp
  have "registry_ok (vs_inner vs)" and "\<forall>vs'. load_state mem_engine run_codec (vs_db_manager vs) = Inr vs' \<longrightarrow> vs' = vs"
    using registry_follows_chain [OF mem_engine_ok run_codec_ok n] by simp_all
  then show ?thesis using n r by blast
qed

end
