(* ===== verification/TimeManagement.thy ===== *)
theory TimeManagement
  imports TimePolicy
begin

text \<open>
  The slot clock and the failover rounds (\<open>src/consensus/por_005_time_management.rs\<close>). A \<open>Duration\<close>
  made from seconds is this number of seconds. The wall clock, sleeping and the fractions of the block
  interval in floating point are not modelled.
\<close>

record TimeConfig =
  tc_block_interval_secs :: nat
  tc_puzzle_interval_secs :: nat
  tc_activation_warmup_secs :: nat
  tc_genesis_time_unix :: nat
  tc_reward_delay_blocks :: nat
  tc_quarantine_blocks :: nat
  tc_epoch_slots :: nat
  tc_failover_window_secs :: nat
  tc_slot_gossip_buffer_secs :: nat
  tc_failover_proposal_deadline_secs :: nat
  tc_failover_max_rounds :: nat
  tc_slot_gate_drift_secs :: nat

definition effective_puzzle_secs :: nat where
  "effective_puzzle_secs =
     (let slot_secs = max BLOCK_CREATION_INTERVAL_SECS 1; raw_puzzle_secs = max PUZZLE_CREATION_INTERVAL_SECS 1 in
      min raw_puzzle_secs slot_secs)"

definition effective_failover_params :: "nat \<Rightarrow> nat \<Rightarrow> nat \<times> nat \<times> nat \<times> nat \<times> nat" where
  "effective_failover_params block_interval puzzle_interval =
     (let bi = max block_interval 1; pi = max puzzle_interval 1;
          slack = FAILOVER_SLACK_SECS;
          tau0 = max FAILOVER_WINDOW_SECS 1;
          min_tau = max (saturating_add 64 pi slack) 1;
          tau = (if tau0 < min_tau then min_tau else tau0);
          gossip_buf = (if SLOT_GOSSIP_BUFFER_SECS \<ge> bi then 1 else SLOT_GOSSIP_BUFFER_SECS);
          deadline = max (saturating_sub bi gossip_buf) 1;
          rounds0 = deadline div tau;
          rounds = (if rounds0 = 0 then 1 else rounds0) in
      (tau, gossip_buf, deadline, rounds, SLOT_GATE_DRIFT_SECS))"

definition from_genesis_ts :: "nat \<Rightarrow> TimeConfig" where
  "from_genesis_ts genesis_time =
     (let block_interval = max BLOCK_CREATION_INTERVAL_SECS 1; puzzle_interval = effective_puzzle_secs in
      case effective_failover_params block_interval puzzle_interval of
        (window, gossip_buffer, deadline, max_rounds, drift) \<Rightarrow>
      \<lparr>tc_block_interval_secs = block_interval, tc_puzzle_interval_secs = puzzle_interval,
       tc_activation_warmup_secs = ACTIVATION_WARMUP_SECS, tc_genesis_time_unix = max genesis_time 1,
       tc_reward_delay_blocks = REWARD_DELAY_BLOCKS, tc_quarantine_blocks = QUARANTINE_BLOCKS,
       tc_epoch_slots = EPOCH_SLOTS, tc_failover_window_secs = max window 1,
       tc_slot_gossip_buffer_secs = gossip_buffer, tc_failover_proposal_deadline_secs = deadline,
       tc_failover_max_rounds = max max_rounds 1, tc_slot_gate_drift_secs = drift\<rparr>)"

definition chain_time_policy_config :: "TimeConfig \<Rightarrow> ChainTimePolicyConfig" where
  "chain_time_policy_config cfg =
     \<lparr>genesis_time_unix = tc_genesis_time_unix cfg, block_interval_secs = max (tc_block_interval_secs cfg) 1,
      slot_gate_drift_secs = tc_slot_gate_drift_secs cfg\<rparr>"

definition tc_validate :: "TimeConfig \<Rightarrow> unit result" where
  "tc_validate cfg =
     bindR (validate_unix_secs_structural (tc_genesis_time_unix cfg)) (\<lambda>_.
     bindR (cfg_validate (chain_time_policy_config cfg)) (\<lambda>_.
     if tc_puzzle_interval_secs cfg = 0 then Inl (ValidationError ''puzzle_interval_secs must be >= 1'')
     else if tc_puzzle_interval_secs cfg > max (tc_block_interval_secs cfg) 1
       then Inl (ValidationError ''puzzle_interval_secs > block_interval_secs'')
     else if tc_failover_window_secs cfg = 0 then Inl (ValidationError ''failover_window_secs must be >= 1'')
     else if tc_failover_proposal_deadline_secs cfg = 0
       then Inl (ValidationError ''failover_proposal_deadline_secs must be >= 1'')
     else if tc_failover_max_rounds cfg = 0 then Inl (ValidationError ''failover_max_rounds must be >= 1'')
     else Inr ()))"

definition activation_delay_blocks :: "TimeConfig \<Rightarrow> nat" where
  "activation_delay_blocks cfg = div_ceil (tc_activation_warmup_secs cfg) (max (tc_block_interval_secs cfg) 1)"

definition proposer_delay_blocks :: "TimeConfig \<Rightarrow> nat" where
  "proposer_delay_blocks cfg = max (activation_delay_blocks cfg) (tc_quarantine_blocks cfg)"

definition cfg_failover_window_secs :: "TimeConfig \<Rightarrow> nat" where
  "cfg_failover_window_secs cfg = max (tc_failover_window_secs cfg) 1"

definition cfg_proposal_deadline_secs :: "TimeConfig \<Rightarrow> nat" where
  "cfg_proposal_deadline_secs cfg = max (tc_failover_proposal_deadline_secs cfg) 1"

definition max_rounds :: "TimeConfig \<Rightarrow> nat" where
  "max_rounds cfg = max (tc_failover_max_rounds cfg) 1"

section \<open>The manager\<close>

record TimeManager =
  tm_cfg :: TimeConfig

definition tm_new :: "TimeConfig \<Rightarrow> TimeManager" where
  "tm_new cfg = \<lparr>tm_cfg = cfg\<rparr>"

definition new_checked :: "TimeConfig \<Rightarrow> TimeManager result" where
  "new_checked cfg = bindR (tc_validate cfg) (\<lambda>_. Inr \<lparr>tm_cfg = cfg\<rparr>)"

definition tm_block_interval_secs :: "TimeManager \<Rightarrow> nat" where
  "tm_block_interval_secs tm = max (tc_block_interval_secs (tm_cfg tm)) 1"

definition tm_puzzle_interval_secs :: "TimeManager \<Rightarrow> nat" where
  "tm_puzzle_interval_secs tm = max (tc_puzzle_interval_secs (tm_cfg tm)) 1"

definition tm_epoch_slots :: "TimeManager \<Rightarrow> nat" where
  "tm_epoch_slots tm = max (tc_epoch_slots (tm_cfg tm)) 1"

definition tm_failover_window_secs :: "TimeManager \<Rightarrow> nat" where
  "tm_failover_window_secs tm = cfg_failover_window_secs (tm_cfg tm)"

definition tm_proposal_deadline_secs :: "TimeManager \<Rightarrow> nat" where
  "tm_proposal_deadline_secs tm = cfg_proposal_deadline_secs (tm_cfg tm)"

definition tm_failover_max_rounds :: "TimeManager \<Rightarrow> nat" where
  "tm_failover_max_rounds tm = max_rounds (tm_cfg tm)"

definition tm_slot_gate_drift_secs :: "TimeManager \<Rightarrow> nat" where
  "tm_slot_gate_drift_secs tm = tc_slot_gate_drift_secs (tm_cfg tm)"

definition tm_proposer_delay_blocks :: "TimeManager \<Rightarrow> nat" where
  "tm_proposer_delay_blocks tm = proposer_delay_blocks (tm_cfg tm)"

definition sync_poll_interval :: "TimeManager \<Rightarrow> nat" where
  "sync_poll_interval tm = max (tm_failover_window_secs tm) 1"

definition registry_heartbeat_interval :: "TimeManager \<Rightarrow> nat option \<Rightarrow> nat option" where
  "registry_heartbeat_interval tm configured_secs =
     map_option (\<lambda>secs. min (max secs 1) (tm_failover_window_secs tm)) configured_secs"

definition current_slot :: "TimeManager \<Rightarrow> nat \<Rightarrow> nat" where
  "current_slot tm now_unix =
     saturating_sub now_unix (tc_genesis_time_unix (tm_cfg tm)) div tm_block_interval_secs tm"

definition current_slot_checked :: "TimeManager \<Rightarrow> nat \<Rightarrow> nat result" where
  "current_slot_checked tm now_unix =
     bindR (tc_validate (tm_cfg tm)) (\<lambda>_. slot_for_timestamp_checked (chain_time_policy_config (tm_cfg tm)) now_unix)"

definition slot_start_unix :: "TimeManager \<Rightarrow> nat \<Rightarrow> nat" where
  "slot_start_unix tm slot =
     saturating_add 64 (tc_genesis_time_unix (tm_cfg tm)) (saturating_mul 64 slot (tm_block_interval_secs tm))"

definition tm_slot_start_unix_checked :: "TimeManager \<Rightarrow> nat \<Rightarrow> nat result" where
  "tm_slot_start_unix_checked tm slot = slot_start_unix_checked (chain_time_policy_config (tm_cfg tm)) slot"

definition tm_height_start_unix :: "TimeManager \<Rightarrow> nat \<Rightarrow> nat" where
  "tm_height_start_unix tm height = slot_start_unix tm height"

definition height_start_unix_checked :: "TimeManager \<Rightarrow> nat \<Rightarrow> nat result" where
  "height_start_unix_checked tm height = tm_slot_start_unix_checked tm height"

definition start_after_next_slot :: "TimeManager \<Rightarrow> nat \<Rightarrow> nat" where
  "start_after_next_slot tm now_unix =
     (let next_slot = saturating_add 64 (current_slot tm now_unix) 1 in
      saturating_sub (slot_start_unix tm next_slot) now_unix)"

definition secs_since_height_start :: "TimeManager \<Rightarrow> nat \<Rightarrow> nat \<Rightarrow> nat" where
  "secs_since_height_start tm height now_unix = saturating_sub now_unix (tm_height_start_unix tm height)"

definition round_for_height_at_time :: "TimeManager \<Rightarrow> nat \<Rightarrow> nat \<Rightarrow> nat" where
  "round_for_height_at_time tm height now_unix =
     secs_since_height_start tm height now_unix div max (tm_failover_window_secs tm) 1"

definition secs_into_slot :: "TimeManager \<Rightarrow> nat \<Rightarrow> nat \<Rightarrow> nat" where
  "secs_into_slot tm slot now_unix =
     min (saturating_sub now_unix (slot_start_unix tm slot)) (tm_block_interval_secs tm)"

definition tm_secs_into_slot_checked :: "TimeManager \<Rightarrow> nat \<Rightarrow> nat \<Rightarrow> nat result" where
  "tm_secs_into_slot_checked tm slot now_unix =
     secs_into_slot_checked (chain_time_policy_config (tm_cfg tm)) slot now_unix"

definition round_in_slot :: "TimeManager \<Rightarrow> nat \<Rightarrow> nat \<Rightarrow> nat" where
  "round_in_slot tm slot now_unix =
     (let tau = max (tm_failover_window_secs tm) 1;
          deadline = max (tm_proposal_deadline_secs tm) 1;
          t0 = secs_into_slot tm slot now_unix;
          t = (if t0 \<ge> deadline then saturating_sub deadline 1 else t0) in
      min (t div tau) (saturating_sub (tm_failover_max_rounds tm) 1))"

definition round_for_height_from_block_timestamp :: "TimeManager \<Rightarrow> nat \<Rightarrow> nat \<Rightarrow> (nat \<times> nat) result" where
  "round_for_height_from_block_timestamp tm height block_ts_unix =
     bindR (tc_validate (tm_cfg tm)) (\<lambda>_.
     bindR (validate_unix_secs_structural block_ts_unix) (\<lambda>_.
     let drift = tm_slot_gate_drift_secs tm in
     bindR (height_start_unix_checked tm height) (\<lambda>start.
     if block_ts_unix < saturating_sub (tc_genesis_time_unix (tm_cfg tm)) drift
       then Inl (ValidationError ''block timestamp is before genesis'')
     else if block_ts_unix < start then
       (if saturating_sub start block_ts_unix > drift
          then Inl (ValidationError ''block timestamp too far before height start'')
        else Inr (0 div max (tm_failover_window_secs tm) 1, 0))
     else
       (let since = saturating_sub block_ts_unix start in
        Inr (since div max (tm_failover_window_secs tm) 1, since)))))"

definition slot_and_round_from_block_timestamp :: "TimeManager \<Rightarrow> nat \<Rightarrow> (nat \<times> nat \<times> nat) result" where
  "slot_and_round_from_block_timestamp tm block_ts_unix =
     bindR (tc_validate (tm_cfg tm)) (\<lambda>_.
     bindR (derive_slot_from_block_timestamp (chain_time_policy_config (tm_cfg tm)) block_ts_unix) (\<lambda>(slot, into).
     Inr (slot, into div max (tm_failover_window_secs tm) 1, into)))"

definition is_eligible_for_proposal :: "TimeManager \<Rightarrow> nat \<Rightarrow> nat \<Rightarrow> bool \<Rightarrow> bool" where
  "is_eligible_for_proposal tm now_height registration_inclusion_height is_fully_synced \<longleftrightarrow>
     now_height \<ge> saturating_add 64 registration_inclusion_height (activation_delay_blocks (tm_cfg tm)) \<and> is_fully_synced"

definition epoch_of_height :: "TimeManager \<Rightarrow> nat \<Rightarrow> nat" where
  "epoch_of_height tm height = height div max (tm_epoch_slots tm) 1"

definition slot_in_epoch :: "TimeManager \<Rightarrow> nat \<Rightarrow> nat" where
  "slot_in_epoch tm height = height mod max (tm_epoch_slots tm) 1"

section \<open>The configuration the node runs with\<close>

lemma globals_config:
  "from_genesis_ts g = \<lparr>tc_block_interval_secs = 30, tc_puzzle_interval_secs = 2, tc_activation_warmup_secs = 30,
     tc_genesis_time_unix = max g 1, tc_reward_delay_blocks = 1, tc_quarantine_blocks = 4, tc_epoch_slots = 60,
     tc_failover_window_secs = 12, tc_slot_gossip_buffer_secs = 6, tc_failover_proposal_deadline_secs = 24,
     tc_failover_max_rounds = 2, tc_slot_gate_drift_secs = 2\<rparr>"
  by (simp add: from_genesis_ts_def effective_failover_params_def effective_puzzle_secs_def Let_def cfg_defs
      saturating_add_def saturating_sub_def)

text \<open>The failover round a slot can reach lies below the maximum, whatever the time.\<close>

lemma round_in_slot_bounded: "round_in_slot tm slot now < tm_failover_max_rounds tm"
  by (auto simp: round_in_slot_def Let_def saturating_sub_def tm_failover_max_rounds_def max_rounds_def min_def)

end
