(* ===== verification/Committee.thy ===== *)
theory Committee
  imports Wallet OrdMap StateError
begin

text \<open>
  Local readiness of a wallet to mint (\<open>src/consensus/por_006_committee_eligibility.rs\<close>): live wallets,
  runtime statuses and the decision over them. The set of live wallets is a sorted list, the map of
  statuses an ordered association list.
\<close>

record CommitteeMemberStatus =
  cs_wallet :: rstr
  cs_is_live :: bool
  cs_has_synced :: bool
  cs_local_tip :: nat
  cs_network_tip :: nat
  cs_peers_connected :: nat
  cs_connected_wallet_peers :: nat
  cs_is_isolated :: bool

definition tip_lag :: "CommitteeMemberStatus \<Rightarrow> nat" where
  "tip_lag s = saturating_sub (cs_network_tip s) (cs_local_tip s)"

definition status_validate_invariants :: "CommitteeMemberStatus \<Rightarrow> unit result" where
  "status_validate_invariants s =
     bindR (canon_wallet_id_checked (cs_wallet s)) (\<lambda>_.
     if cs_connected_wallet_peers s > cs_peers_connected s
       then Inl (ValidationError ''connected_wallet_peers > peers_connected'')
     else if cs_is_isolated s \<and> cs_connected_wallet_peers s > 0
       then Inl (ValidationError ''is_isolated=true but connected_wallet_peers > 0'')
     else Inr ())"

record CommitteeStatusUpdate =
  cu_is_live :: bool
  cu_has_synced :: bool
  cu_local_tip :: nat
  cu_network_tip :: nat
  cu_peers_connected :: nat
  cu_connected_wallet_peers :: nat

definition update_is_isolated :: "CommitteeStatusUpdate \<Rightarrow> bool" where
  "update_is_isolated u \<longleftrightarrow> cu_connected_wallet_peers u = 0"

definition update_validate_invariants :: "CommitteeStatusUpdate \<Rightarrow> unit result" where
  "update_validate_invariants u =
     (if cu_connected_wallet_peers u > cu_peers_connected u
        then Inl (ValidationError ''connected_wallet_peers > peers_connected'') else Inr ())"

datatype IneligibilityReason =
    NotLive
  | NotSynced
  | TooFarBehind nat nat
  | NotEnoughPeers nat nat
  | NotEnoughWalletPeers nat nat
  | Isolated

record CommitteeEligibilityDecision =
  cd_wallet :: rstr
  cd_eligible :: bool
  cd_reasons :: "IneligibilityReason list"

definition decision_eligible :: "rstr \<Rightarrow> CommitteeEligibilityDecision" where
  "decision_eligible wallet = \<lparr>cd_wallet = wallet, cd_eligible = True, cd_reasons = []\<rparr>"

definition decision_ineligible :: "rstr \<Rightarrow> IneligibilityReason list \<Rightarrow> CommitteeEligibilityDecision" where
  "decision_ineligible wallet reasons = \<lparr>cd_wallet = wallet, cd_eligible = False, cd_reasons = reasons\<rparr>"

record CommitteeEligibilityConfig =
  cc_max_tip_lag_blocks :: nat
  cc_min_peers_connected :: nat
  cc_min_connected_wallet_peers :: nat
  cc_require_non_isolated :: bool
  cc_require_synced :: bool

definition default_committee_config :: CommitteeEligibilityConfig where
  "default_committee_config = \<lparr>cc_max_tip_lag_blocks = 2, cc_min_peers_connected = 0,
     cc_min_connected_wallet_peers = 0, cc_require_non_isolated = False, cc_require_synced = False\<rparr>"

definition committee_config_validate :: "CommitteeEligibilityConfig \<Rightarrow> unit result" where
  "committee_config_validate c =
     (if cc_min_connected_wallet_peers c > cc_min_peers_connected c
        then Inl (ValidationError ''min_connected_wallet_peers > min_peers_connected'') else Inr ())"

record CommitteeEligibility =
  ce_live_wallets :: "rstr list"
  ce_statuses :: "(rstr \<times> CommitteeMemberStatus) list"
  ce_config :: CommitteeEligibilityConfig

definition committee_new :: "CommitteeEligibilityConfig \<Rightarrow> CommitteeEligibility" where
  "committee_new config = \<lparr>ce_live_wallets = [], ce_statuses = [], ce_config = config\<rparr>"

definition with_default_config :: CommitteeEligibility where
  "with_default_config = committee_new default_committee_config"

definition committee_clear :: "CommitteeEligibility \<Rightarrow> CommitteeEligibility" where
  "committee_clear c = c\<lparr>ce_live_wallets := [], ce_statuses := []\<rparr>"

definition set_live :: "rstr \<Rightarrow> bool \<Rightarrow> CommitteeEligibility \<Rightarrow> CommitteeEligibility" where
  "set_live can is_live c =
     (if is_live then c\<lparr>ce_live_wallets := bset_insert can (ce_live_wallets c)\<rparr>
      else c\<lparr>ce_live_wallets := removeAll can (ce_live_wallets c)\<rparr>)"

definition replace_live_wallets :: "rstr list \<Rightarrow> (CommitteeEligibility, unit) sm" where
  "replace_live_wallets wallets =
     bindS (readS (\<lambda>_. foldR (\<lambda>normalized wallet. bindR (canon_wallet_id_checked wallet) (\<lambda>w. Inr (bset_insert w normalized))) [] wallets))
       (\<lambda>normalized c. (Inr (), c\<lparr>ce_live_wallets := normalized\<rparr>))"

definition mark_wallet_live :: "rstr \<Rightarrow> bool \<Rightarrow> (CommitteeEligibility, unit) sm" where
  "mark_wallet_live wallet is_live =
     bindS (readS (\<lambda>_. canon_wallet_id_checked wallet)) (\<lambda>can c. (Inr (), set_live can is_live c))"

definition is_wallet_live :: "rstr \<Rightarrow> CommitteeEligibility \<Rightarrow> bool" where
  "is_wallet_live wallet c = (case canon_wallet_id_checked wallet of Inr can \<Rightarrow> can \<in> set (ce_live_wallets c) | Inl _ \<Rightarrow> False)"

definition get_status :: "rstr \<Rightarrow> CommitteeEligibility \<Rightarrow> CommitteeMemberStatus option" where
  "get_status wallet c = (case canon_wallet_id_checked wallet of Inr can \<Rightarrow> hget (ce_statuses c) can | Inl _ \<Rightarrow> None)"

definition remove_wallet :: "rstr \<Rightarrow> CommitteeEligibility \<Rightarrow> bool \<times> CommitteeEligibility" where
  "remove_wallet wallet c =
     (case canon_wallet_id_checked wallet of
        Inl _ \<Rightarrow> (False, c)
      | Inr can \<Rightarrow>
          (hget (ce_statuses c) can \<noteq> None \<or> can \<in> set (ce_live_wallets c),
           c\<lparr>ce_statuses := bt_remove can (ce_statuses c), ce_live_wallets := removeAll can (ce_live_wallets c)\<rparr>))"

definition upsert_status :: "CommitteeMemberStatus \<Rightarrow> (CommitteeEligibility, unit) sm" where
  "upsert_status status =
     bindS (readS (\<lambda>c. committee_config_validate (ce_config c))) (\<lambda>_.
     bindS (readS (\<lambda>_. canon_wallet_id_checked (cs_wallet status))) (\<lambda>can.
     let normalized = status\<lparr>cs_wallet := can\<rparr> in
     bindS (readS (\<lambda>_. status_validate_invariants normalized)) (\<lambda>_ c.
     let c1 = set_live can (cs_is_live normalized) c in
     (Inr (), c1\<lparr>ce_statuses := bt_insert can normalized (ce_statuses c1)\<rparr>))))"

definition update_local_status :: "rstr \<Rightarrow> CommitteeStatusUpdate \<Rightarrow> (CommitteeEligibility, unit) sm" where
  "update_local_status wallet u =
     bindS (readS (\<lambda>c. committee_config_validate (ce_config c))) (\<lambda>_.
     bindS (readS (\<lambda>_. update_validate_invariants u)) (\<lambda>_.
     bindS (readS (\<lambda>_. canon_wallet_id_checked wallet)) (\<lambda>can.
     upsert_status \<lparr>cs_wallet = can, cs_is_live = cu_is_live u, cs_has_synced = cu_has_synced u,
       cs_local_tip = cu_local_tip u, cs_network_tip = cu_network_tip u, cs_peers_connected = cu_peers_connected u,
       cs_connected_wallet_peers = cu_connected_wallet_peers u, cs_is_isolated = update_is_isolated u\<rparr>)))"

definition update_remote_status :: "rstr \<Rightarrow> CommitteeStatusUpdate \<Rightarrow> (CommitteeEligibility, unit) sm" where
  "update_remote_status wallet u =
     bindS (readS (\<lambda>c. committee_config_validate (ce_config c))) (\<lambda>_.
     bindS (readS (\<lambda>_. update_validate_invariants u)) (\<lambda>_.
     bindS (readS (\<lambda>_. canon_wallet_id_checked wallet)) (\<lambda>can.
     upsert_status \<lparr>cs_wallet = can, cs_is_live = cu_is_live u, cs_has_synced = cu_has_synced u,
       cs_local_tip = cu_local_tip u, cs_network_tip = cu_network_tip u, cs_peers_connected = cu_peers_connected u,
       cs_connected_wallet_peers = cu_connected_wallet_peers u, cs_is_isolated = update_is_isolated u\<rparr>)))"

section \<open>Decisions\<close>

definition is_local_solo_candidate :: "rstr \<Rightarrow> CommitteeEligibility \<Rightarrow> bool" where
  "is_local_solo_candidate wallet c =
     (case ce_live_wallets c of [only] \<Rightarrow> eq_ignore_ascii_case only wallet | _ \<Rightarrow> False)"

definition should_enforce_connectivity_checks :: "rstr \<Rightarrow> CommitteeEligibility \<Rightarrow> bool" where
  "should_enforce_connectivity_checks wallet c =
     (if length (ce_live_wallets c) \<le> 1 then False else \<not> is_local_solo_candidate wallet c)"

definition reasons_against :: "rstr \<Rightarrow> CommitteeMemberStatus \<Rightarrow> CommitteeEligibility \<Rightarrow> IneligibilityReason list" where
  "reasons_against can status c =
     (let cfg = ce_config c in
      (if cc_require_synced cfg \<and> \<not> cs_has_synced status then [NotSynced] else []) @
      (if tip_lag status > cc_max_tip_lag_blocks cfg then [TooFarBehind (tip_lag status) (cc_max_tip_lag_blocks cfg)] else []) @
      (if should_enforce_connectivity_checks can c then
         (if cs_peers_connected status < cc_min_peers_connected cfg
            then [NotEnoughPeers (cs_peers_connected status) (cc_min_peers_connected cfg)] else []) @
         (if cs_connected_wallet_peers status < cc_min_connected_wallet_peers cfg
            then [NotEnoughWalletPeers (cs_connected_wallet_peers status) (cc_min_connected_wallet_peers cfg)] else []) @
         (if cc_require_non_isolated cfg \<and> cs_is_isolated status then [Isolated] else [])
       else []))"

definition decide_wallet :: "rstr \<Rightarrow> CommitteeEligibility \<Rightarrow> CommitteeEligibilityDecision" where
  "decide_wallet wallet c =
     (case canon_wallet_id_checked wallet of
        Inl _ \<Rightarrow> decision_ineligible wallet [NotLive]
      | Inr can \<Rightarrow>
          if can \<notin> set (ce_live_wallets c) then decision_ineligible can [NotLive]
          else
            (case hget (ce_statuses c) can of
               None \<Rightarrow> decision_eligible can
             | Some status \<Rightarrow>
                 (let reasons = reasons_against can status c in
                  if reasons = [] then decision_eligible can else decision_ineligible can reasons)))"

definition is_wallet_eligible :: "rstr \<Rightarrow> CommitteeEligibility \<Rightarrow> bool" where
  "is_wallet_eligible wallet c = cd_eligible (decide_wallet wallet c)"

definition filter_candidates :: "rstr list \<Rightarrow> CommitteeEligibility \<Rightarrow> rstr list" where
  "filter_candidates candidates c = filter (\<lambda>wallet. is_wallet_eligible wallet c) candidates"

definition filter_candidates_with_decisions ::
    "rstr list \<Rightarrow> CommitteeEligibility \<Rightarrow> rstr list \<times> CommitteeEligibilityDecision list" where
  "filter_candidates_with_decisions candidates c =
     (filter (\<lambda>wallet. cd_eligible (decide_wallet wallet c)) candidates, map (\<lambda>wallet. decide_wallet wallet c) candidates)"

definition all_runtime_decisions :: "CommitteeEligibility \<Rightarrow> CommitteeEligibilityDecision list" where
  "all_runtime_decisions c =
     map (\<lambda>wallet. decide_wallet wallet c) (bset_of (ce_live_wallets c @ map fst (ce_statuses c)))"

section \<open>The invariant\<close>

text \<open>Live wallets and statuses are kept under canonical names, in order, and each status agrees with the
  live set and is consistent.\<close>

definition committee_ok :: "CommitteeEligibility \<Rightarrow> bool" where
  "committee_ok c \<longleftrightarrow>
     sorted (ce_live_wallets c) \<and> distinct (ce_live_wallets c) \<and> (\<forall>w\<in>set (ce_live_wallets c). canonical_wallet w) \<and>
     bt_wf (ce_statuses c) \<and>
     (\<forall>w s. hget (ce_statuses c) w = Some s \<longrightarrow> cs_wallet s = w \<and> canonical_wallet w \<and> status_validate_invariants s = Inr ())"

lemma committee_new_ok: "committee_ok (committee_new cfg)" "committee_ok (committee_clear c)"
  by (simp_all add: committee_ok_def committee_new_def committee_clear_def)

lemma set_live_live:
  "set (ce_live_wallets (set_live w b c)) = (if b then insert w (set (ce_live_wallets c)) else set (ce_live_wallets c) - {w})"
  by (auto simp: set_live_def bset_insert_def set_insort_insert)

lemma set_live_ok: "committee_ok c \<Longrightarrow> canonical_wallet w \<Longrightarrow> committee_ok (set_live w b c)"
  by (auto simp: committee_ok_def set_live_def bset_insert_def sorted_insort_insert distinct_insort_insert set_insort_insert
      removeAll_filter_not_eq intro: sorted_wrt_filter)

lemma mark_wallet_live_ok: "committee_ok c \<Longrightarrow> mark_wallet_live w b c = (r, c') \<Longrightarrow> committee_ok c'"
  by (auto simp: mark_wallet_live_def bindS_def readS_def split: sum.splits dest: canon_wallet_result(1) intro: set_live_ok)

lemma replace_live_wallets_ok:
  assumes "committee_ok c" and "replace_live_wallets ws c = (r, c')"
  shows "committee_ok c'"
proof (cases "foldR (\<lambda>n wallet. bindR (canon_wallet_id_checked wallet) (\<lambda>w. Inr (bset_insert w n))) [] ws")
  case (Inr n)
  have "sorted n \<and> distinct n \<and> (\<forall>w\<in>set n. canonical_wallet w)"
    by (rule foldR_invariant [OF Inr])
      (auto simp: res_simps bset_insert_def sorted_insort_insert distinct_insort_insert set_insort_insert dest: canon_wallet_result(1))
  then show ?thesis using assms Inr by (auto simp: replace_live_wallets_def bindS_def readS_def committee_ok_def)
qed (use assms in \<open>simp add: replace_live_wallets_def bindS_def readS_def\<close>)

lemma remove_wallet_ok:
  assumes "committee_ok c"
  shows "committee_ok (snd (remove_wallet w c))"
  using assms by (auto simp: remove_wallet_def committee_ok_def removeAll_filter_not_eq intro: sorted_wrt_filter split: sum.splits)

lemma upsert_status_ok:
  assumes c: "committee_ok c" and u: "upsert_status s c = (r, c')"
  shows "committee_ok c'"
proof (cases r)
  case (Inl e)
  then show ?thesis using u c by (auto simp: upsert_status_def bindS_def readS_def Let_def split: sum.splits)
next
  case (Inr x)
  then obtain can where can: "canon_wallet_id_checked (cs_wallet s) = Inr can"
    and v: "status_validate_invariants (s\<lparr>cs_wallet := can\<rparr>) = Inr ()"
    and c': "c' = (set_live can (cs_is_live s) c)\<lparr>ce_statuses := bt_insert can (s\<lparr>cs_wallet := can\<rparr>) (ce_statuses (set_live can (cs_is_live s) c))\<rparr>"
    using u by (auto simp: upsert_status_def res_simps Let_def)
  have w: "canonical_wallet can" by (rule canon_wallet_result(1) [OF can])
  show ?thesis using set_live_ok [OF c w, of "cs_is_live s"] w v by (auto simp: c' committee_ok_def)
qed

lemma update_status_ok:
  assumes "committee_ok c"
  shows "update_local_status w u c = (r, c') \<Longrightarrow> committee_ok c'" "update_remote_status w u c = (r, c') \<Longrightarrow> committee_ok c'"
  using assms upsert_status_ok [OF assms]
  by (auto simp: update_local_status_def update_remote_status_def bindS_def readS_def split: sum.splits)

text \<open>The states the operations reach from the default configuration.\<close>

inductive committee_reach :: "CommitteeEligibility \<Rightarrow> bool" where
  init: "committee_reach with_default_config"
| clear: "committee_reach c \<Longrightarrow> committee_reach (committee_clear c)"
| replace: "committee_reach c \<Longrightarrow> replace_live_wallets ws c = (r, c') \<Longrightarrow> committee_reach c'"
| mark: "committee_reach c \<Longrightarrow> mark_wallet_live w b c = (r, c') \<Longrightarrow> committee_reach c'"
| remove: "committee_reach c \<Longrightarrow> remove_wallet w c = (b, c') \<Longrightarrow> committee_reach c'"
| upsert: "committee_reach c \<Longrightarrow> upsert_status s c = (r, c') \<Longrightarrow> committee_reach c'"
| update_local: "committee_reach c \<Longrightarrow> update_local_status w u c = (r, c') \<Longrightarrow> committee_reach c'"
| update_remote: "committee_reach c \<Longrightarrow> update_remote_status w u c = (r, c') \<Longrightarrow> committee_reach c'"

lemma config_frames [frames]:
  "preserves ce_config (replace_live_wallets ws)" "preserves ce_config (mark_wallet_live w b)"
  "preserves ce_config (upsert_status s)" "preserves ce_config (update_local_status w u)"
  "preserves ce_config (update_remote_status w u)"
proof -
  have s: "ce_config (set_live x b c) = ce_config c" for x b c by (simp add: set_live_def)
  show "preserves ce_config (replace_live_wallets ws)" "preserves ce_config (mark_wallet_live w b)"
    unfolding replace_live_wallets_def mark_wallet_live_def by (intro frames; simp add: preserves_def s)+
  show u: "preserves ce_config (upsert_status s)" for s
    unfolding upsert_status_def Let_def by (intro frames; simp add: preserves_def s)
  show "preserves ce_config (update_local_status w u)" "preserves ce_config (update_remote_status w u)"
    unfolding update_local_status_def update_remote_status_def by (intro frames u)+
qed

lemma committee_reach_ok:
  assumes "committee_reach c"
  shows "committee_ok c \<and> ce_config c = default_committee_config"
  using assms
proof induction
  case (remove c w b c')
  then show ?case using remove_wallet_ok [of c w] by (auto simp: remove_wallet_def split: sum.splits)
qed (auto simp: with_default_config_def committee_new_ok(1) [unfolded committee_new_def] committee_clear_def committee_new_def
      intro: replace_live_wallets_ok mark_wallet_live_ok upsert_status_ok update_status_ok committee_new_ok(2) [unfolded committee_clear_def]
      dest: preservesD [OF config_frames(1)] preservesD [OF config_frames(2)] preservesD [OF config_frames(3)]
        preservesD [OF config_frames(4)] preservesD [OF config_frames(5)])

text \<open>Local mint readiness, over every state the operations reach from the default configuration: the
  live set and the statuses stay in canonical form and consistent, and a wallet is ready exactly when it
  is a valid wallet identifier, live, and, if a status is known, at most two blocks behind the network;
  sync state and connectivity do not matter in this configuration.\<close>

theorem readiness_decision:
  assumes "committee_reach c"
  shows "committee_ok c \<and>
    (is_wallet_eligible wallet c \<longleftrightarrow>
       (\<exists>can. canon_wallet_id_checked wallet = Inr can \<and> can \<in> set (ce_live_wallets c) \<and>
          (\<forall>s. hget (ce_statuses c) can = Some s \<longrightarrow> cs_network_tip s \<le> cs_local_tip s + 2)))"
proof -
  have c: "committee_ok c" "ce_config c = default_committee_config" using committee_reach_ok [OF assms] by simp_all
  have r: "reasons_against can s c = [] \<longleftrightarrow> cs_network_tip s \<le> cs_local_tip s + 2" for can s
    by (auto simp: reasons_against_def Let_def c(2) default_committee_config_def tip_lag_def saturating_sub_def)
  show ?thesis using c(1)
    by (auto simp: is_wallet_eligible_def decide_wallet_def decision_eligible_def decision_ineligible_def Let_def r
        split: sum.splits option.splits)
qed

theorem readiness_decision_witness:
  "\<exists>c. committee_reach c \<and> is_wallet_eligible (114 # replicate 128 97) c"
proof -
  have w: "canonical_wallet (114 # replicate 128 97)" by (simp add: canonical_wallet_def list_all_iff is_lower_hex_def)
  let ?c = "set_live (114 # replicate 128 97) True with_default_config"
  have r: "committee_reach ?c"
    by (rule mark [OF init, of "114 # replicate 128 97" True "Inr ()"])
      (simp add: mark_wallet_live_def bindS_def readS_def canon_wallet_canonical [OF w])
  show ?thesis
    using readiness_decision [OF r, of "114 # replicate 128 97"] r canon_wallet_canonical [OF w]
    by (auto simp: set_live_def with_default_config_def committee_new_def bset_insert_def set_insort_insert)
qed

end
