(* ===== verification/LeaderSchedule.thy ===== *)
theory LeaderSchedule
  imports ValidatorState TimeManagement Committee "HOL-Library.Product_Lexorder"
begin

text \<open>
  Who may propose a block (\<open>src/consensus/por_007_leader_schedule.rs\<close>): the committee of a height, the order
  of its members in a failover round by hash score, the round a timestamp falls in, authorization of the
  local node and validation of the proposer of a received block. The hash is the one of \<open>Ext\<close>; the log
  lines are left out.
\<close>

definition COMMITTEE_HASH_DOMAIN :: "byte list" where
  "COMMITTEE_HASH_DOMAIN = str_bytes (lit ''remzar:por:committee:v3|'')"

definition LEADER_SCORE_DOMAIN :: "byte list" where
  "LEADER_SCORE_DOMAIN = str_bytes (lit ''remzar:por:leader-score:v3|'')"

definition TRACE_HASH_DOMAIN :: "byte list" where
  "TRACE_HASH_DOMAIN = str_bytes (lit ''remzar:por:trace:v3|'')"

definition MAX_COMMITTEE_SIZE_HARD :: nat where "MAX_COMMITTEE_SIZE_HARD = 100000"

record CommitteeSnapshot =
  sn_height :: nat
  sn_parent_hash :: hash
  sn_activation_delay_blocks :: nat
  sn_validators :: "rstr list"
  sn_committee_hash :: hash

definition contains_wallet :: "CommitteeSnapshot \<Rightarrow> rstr \<Rightarrow> bool" where
  "contains_wallet snapshot wallet = list_ex (\<lambda>v. eq_ignore_ascii_case v wallet) (sn_validators snapshot)"

record LeaderDecision =
  ld_height :: nat
  ld_round :: nat
  ld_parent_hash :: hash
  ld_committee_hash :: hash
  ld_leader :: rstr
  ld_leader_index_in_snapshot :: nat
  ld_committee_len :: nat

record LeaderTrace =
  lt_snapshot :: CommitteeSnapshot
  lt_decision :: LeaderDecision
  lt_observed_time_unix :: nat
  lt_height_start_unix :: nat
  lt_round_start_unix :: nat
  lt_elapsed_secs :: nat
  lt_in_round_secs :: nat
  lt_failover_window_secs :: nat

record MintAuthorization =
  ma_local_wallet :: rstr
  ma_trace :: LeaderTrace

record LeaderSchedule =
  ls_local_wallet :: rstr

definition leader_schedule_new :: "rstr \<Rightarrow> LeaderSchedule result" where
  "leader_schedule_new local_wallet = bindR (canon_wallet_id_checked local_wallet) (\<lambda>w. Inr \<lparr>ls_local_wallet = w\<rparr>)"

text \<open>Canonical wallets of a list, collected in a \<open>BTreeSet\<close>.\<close>

definition canonical_set :: "rstr list \<Rightarrow> rstr list result" where
  "canonical_set wallets =
     foldR (\<lambda>uniq wallet. bindR (canon_wallet_id_checked wallet) (\<lambda>w. Inr (bset_insert w uniq))) [] wallets"

definition normalize_active_validators :: "rstr list \<Rightarrow> nat \<Rightarrow> rstr list result" where
  "normalize_active_validators raw height =
     (if raw = [] then Inl (ValidationError ''no canonical validators at height'')
      else if length raw > MAX_COMMITTEE_SIZE_HARD then Inl (ValidationError ''canonical validator set too large'')
      else
        bindR (canonical_set raw) (\<lambda>validators.
        if validators = [] then Inl (ValidationError ''canonical validator set collapsed to empty after canonicalization'')
        else if length validators > MAX_COMMITTEE_SIZE_HARD then Inl (ValidationError ''canonical validator set too large'')
        else Inr validators))"

definition compute_committee_hash :: "Ext \<Rightarrow> hash \<Rightarrow> nat \<Rightarrow> nat \<Rightarrow> rstr list \<Rightarrow> hash" where
  "compute_committee_hash E parent_hash height delay_blocks validators =
     compute_bytes_hash E
       (COMMITTEE_HASH_DOMAIN @ parent_hash @ to_be_bytes 8 height @ to_be_bytes 8 delay_blocks @
        concat (map (\<lambda>v. str_bytes (lit ''|'') @ str_bytes v) validators))"

definition validate_snapshot_invariants :: "Ext \<Rightarrow> CommitteeSnapshot \<Rightarrow> unit result" where
  "validate_snapshot_invariants E snapshot =
     (if sn_height snapshot = 0 then Inl (ValidationError ''committee snapshot created for height=0'')
      else if sn_validators snapshot = [] then Inl (ValidationError ''committee snapshot empty'')
      else if length (sn_validators snapshot) > MAX_COMMITTEE_SIZE_HARD then Inl (ValidationError ''committee snapshot too large'')
      else
        bindR (canonical_set (sn_validators snapshot)) (\<lambda>uniq.
        if length uniq \<noteq> length (sn_validators snapshot)
          then Inl (ValidationError ''committee snapshot contains duplicate/non-canonical validators'')
        else if compute_committee_hash E (sn_parent_hash snapshot) (sn_height snapshot)
                  (sn_activation_delay_blocks snapshot) (sn_validators snapshot) \<noteq> sn_committee_hash snapshot
          then Inl (ValidationError ''committee snapshot hash mismatch'')
        else Inr ()))"

definition canonical_validators_for_height :: "'db ValidatorState \<Rightarrow> TimeManager \<Rightarrow> nat \<Rightarrow> rstr list result" where
  "canonical_validators_for_height vs tm height =
     (if height = 0 then Inl (ValidationError ''canonical_validators_for_height called for height=0'')
      else normalize_active_validators (proposable_at height (tm_proposer_delay_blocks tm) vs) height)"

definition committee_snapshot :: "Ext \<Rightarrow> 'db ValidatorState \<Rightarrow> TimeManager \<Rightarrow> hash \<Rightarrow> nat \<Rightarrow> CommitteeSnapshot result" where
  "committee_snapshot E vs tm parent_hash height =
     bindR (canonical_validators_for_height vs tm height) (\<lambda>validators.
     let delay_blocks = tm_proposer_delay_blocks tm;
         snapshot = \<lparr>sn_height = height, sn_parent_hash = parent_hash, sn_activation_delay_blocks = delay_blocks,
           sn_validators = validators,
           sn_committee_hash = compute_committee_hash E parent_hash height delay_blocks validators\<rparr> in
     bindR (validate_snapshot_invariants E snapshot) (\<lambda>_. Inr snapshot))"

definition leader_score :: "Ext \<Rightarrow> hash \<Rightarrow> hash \<Rightarrow> nat \<Rightarrow> nat \<Rightarrow> rstr \<Rightarrow> hash" where
  "leader_score E committee_hash parent_hash height round validator =
     compute_bytes_hash E
       (LEADER_SCORE_DOMAIN @ committee_hash @ parent_hash @ to_be_bytes 8 height @ to_be_bytes 8 round @
        str_bytes (lit ''|'') @ str_bytes validator)"

definition snapshot_score :: "Ext \<Rightarrow> CommitteeSnapshot \<Rightarrow> nat \<Rightarrow> rstr \<Rightarrow> hash" where
  "snapshot_score E snapshot round v =
     leader_score E (sn_committee_hash snapshot) (sn_parent_hash snapshot) (sn_height snapshot) round v"

definition ordered_validators_for_round :: "Ext \<Rightarrow> CommitteeSnapshot \<Rightarrow> nat \<Rightarrow> rstr list result" where
  "ordered_validators_for_round E snapshot round =
     bindR (validate_snapshot_invariants E snapshot) (\<lambda>_.
     Inr (map snd (sort (map (\<lambda>v. (snapshot_score E snapshot round v, v)) (sn_validators snapshot)))))"

definition leader_for_round :: "Ext \<Rightarrow> CommitteeSnapshot \<Rightarrow> nat \<Rightarrow> LeaderDecision result" where
  "leader_for_round E snapshot round =
     bindR (validate_snapshot_invariants E snapshot) (\<lambda>_.
     bindR (ordered_validators_for_round E snapshot round) (\<lambda>ordered.
     (case ordered of
        [] \<Rightarrow> Inl (ValidationError ''leader_for_round failed: empty ordered committee'')
      | leader # _ \<Rightarrow>
          bindR (ok_or (ValidationError ''selected leader not found in frozen committee'')
                   (position (\<lambda>v. eq_ignore_ascii_case v leader) (sn_validators snapshot))) (\<lambda>index.
          Inr \<lparr>ld_height = sn_height snapshot, ld_round = round, ld_parent_hash = sn_parent_hash snapshot,
               ld_committee_hash = sn_committee_hash snapshot, ld_leader = leader,
               ld_leader_index_in_snapshot = index, ld_committee_len = length (sn_validators snapshot)\<rparr>))))"

section \<open>Rounds\<close>

definition leader_height_start_unix :: "TimeManager \<Rightarrow> nat \<Rightarrow> nat" where
  "leader_height_start_unix tm height =
     (let genesis = max (tc_genesis_time_unix (tm_cfg tm)) 1 in
      if height \<le> 1 then genesis
      else
        (let delta = saturating_mul 64 (saturating_sub height 1) (max (tm_block_interval_secs tm) 1) in
         saturating_add 64 genesis delta))"

definition round_for_height_from_timestamp :: "TimeManager \<Rightarrow> nat \<Rightarrow> nat \<Rightarrow> (nat \<times> nat \<times> nat \<times> nat) result" where
  "round_for_height_from_timestamp tm height observed_time_unix =
     (if height = 0 then Inl (ValidationError ''round_for_height_from_timestamp called for height=0'')
      else
        (let tau = max (tm_failover_window_secs tm) 1; height_start = leader_height_start_unix tm height in
         if observed_time_unix < height_start then Inl (ValidationError ''timestamp is earlier than nominal start'')
         else
           (let elapsed = saturating_sub observed_time_unix height_start;
                round = elapsed div tau;
                round_start = saturating_add 64 height_start (saturating_mul 64 round tau);
                in_round = saturating_sub observed_time_unix round_start in
            Inr (round, elapsed, in_round, round_start))))"

definition round_for_height_now :: "TimeManager \<Rightarrow> nat \<Rightarrow> nat \<Rightarrow> (nat \<times> nat \<times> nat \<times> nat) result" where
  "round_for_height_now tm height now_unix =
     (if height = 0 then Inl (ValidationError ''round_for_height_now called for height=0'')
      else
        (let height_start = leader_height_start_unix tm height; drift = tm_slot_gate_drift_secs tm in
         if saturating_add 64 now_unix drift < height_start then Inl (ValidationError ''too early to propose height'')
         else round_for_height_from_timestamp tm height (max now_unix height_start)))"

text \<open>The trace both \<open>trace_for_timestamp\<close> and \<open>trace_for_now\<close> assemble from a snapshot and a round.\<close>

definition make_trace :: "Ext \<Rightarrow> TimeManager \<Rightarrow> nat \<Rightarrow> nat \<Rightarrow> CommitteeSnapshot \<Rightarrow> nat \<times> nat \<times> nat \<times> nat \<Rightarrow> LeaderTrace result" where
  "make_trace E tm height observed snapshot r =
     (case r of (round, elapsed, in_round, round_start) \<Rightarrow>
        bindR (leader_for_round E snapshot round) (\<lambda>decision.
        Inr \<lparr>lt_snapshot = snapshot, lt_decision = decision, lt_observed_time_unix = observed,
             lt_height_start_unix = leader_height_start_unix tm height, lt_round_start_unix = round_start,
             lt_elapsed_secs = elapsed, lt_in_round_secs = in_round,
             lt_failover_window_secs = max (tm_failover_window_secs tm) 1\<rparr>))"

definition trace_for_timestamp :: "Ext \<Rightarrow> 'db ValidatorState \<Rightarrow> TimeManager \<Rightarrow> hash \<Rightarrow> nat \<Rightarrow> nat \<Rightarrow> LeaderTrace result" where
  "trace_for_timestamp E vs tm parent_hash height observed_time_unix =
     bindR (committee_snapshot E vs tm parent_hash height) (\<lambda>snapshot.
     bindR (round_for_height_from_timestamp tm height observed_time_unix) (\<lambda>r.
     make_trace E tm height observed_time_unix snapshot r))"

definition trace_for_now :: "Ext \<Rightarrow> 'db ValidatorState \<Rightarrow> TimeManager \<Rightarrow> hash \<Rightarrow> nat \<Rightarrow> nat \<Rightarrow> LeaderTrace result" where
  "trace_for_now E vs tm parent_hash height now_unix =
     bindR (committee_snapshot E vs tm parent_hash height) (\<lambda>snapshot.
     bindR (round_for_height_now tm height now_unix) (\<lambda>r.
     make_trace E tm height now_unix snapshot r))"

section \<open>Authorization and validation\<close>

definition ensure_within_slot_proposal_window :: "TimeManager \<Rightarrow> nat \<Rightarrow> unit result" where
  "ensure_within_slot_proposal_window tm elapsed_secs =
     (if elapsed_secs \<ge> max (tm_proposal_deadline_secs tm) 1
        then Inl (ValidationError ''too late in slot to prepare/propose safely'') else Inr ())"

definition ensure_enough_time_in_round_for_local_puzzle :: "TimeManager \<Rightarrow> nat \<Rightarrow> unit result" where
  "ensure_enough_time_in_round_for_local_puzzle tm in_round_secs =
     (let tau_secs = max (tm_failover_window_secs tm) 1; puzzle_secs = max (tm_puzzle_interval_secs tm) 1;
          need = saturating_add 64 puzzle_secs 1; remaining = saturating_sub tau_secs in_round_secs in
      if remaining < need then Inl (ValidationError ''too late in round to start puzzle safely'') else Inr ())"

definition ensure_local_runtime_mint_eligibility :: "LeaderSchedule \<Rightarrow> CommitteeEligibility \<Rightarrow> unit result" where
  "ensure_local_runtime_mint_eligibility ls ce =
     (if cd_eligible (decide_wallet (ls_local_wallet ls) ce) then Inr ()
      else Inl (ValidationError ''local mint suppressed by runtime policy''))"

definition assert_local_can_prestage_puzzle_now ::
    "Ext \<Rightarrow> LeaderSchedule \<Rightarrow> 'db ValidatorState \<Rightarrow> CommitteeEligibility \<Rightarrow> TimeManager \<Rightarrow> hash \<Rightarrow> nat \<Rightarrow> nat \<Rightarrow> LeaderTrace result" where
  "assert_local_can_prestage_puzzle_now E ls vs ce tm parent_hash height now_unix =
     bindR (trace_for_now E vs tm parent_hash height now_unix) (\<lambda>trace.
     if \<not> contains_wallet (lt_snapshot trace) (ls_local_wallet ls)
       then Inl (ValidationError ''local wallet is not in canonical committee'')
     else
       bindR (ensure_within_slot_proposal_window tm (lt_elapsed_secs trace)) (\<lambda>_.
       bindR (ensure_local_runtime_mint_eligibility ls ce) (\<lambda>_. Inr trace)))"

definition assert_local_can_mint_now ::
    "Ext \<Rightarrow> LeaderSchedule \<Rightarrow> 'db ValidatorState \<Rightarrow> CommitteeEligibility \<Rightarrow> TimeManager \<Rightarrow> hash \<Rightarrow> nat \<Rightarrow> nat \<Rightarrow> MintAuthorization result" where
  "assert_local_can_mint_now E ls vs ce tm parent_hash height now_unix =
     bindR (trace_for_now E vs tm parent_hash height now_unix) (\<lambda>trace.
     if \<not> contains_wallet (lt_snapshot trace) (ls_local_wallet ls)
       then Inl (ValidationError ''local wallet is not in canonical committee'')
     else if \<not> eq_ignore_ascii_case (ld_leader (lt_decision trace)) (ls_local_wallet ls)
       then Inl (ValidationError ''not selected canonical leader for this height/round'')
     else
       bindR (ensure_local_runtime_mint_eligibility ls ce) (\<lambda>_.
       Inr \<lparr>ma_local_wallet = ls_local_wallet ls, ma_trace = trace\<rparr>))"

definition validate_proposer_for_round ::
    "Ext \<Rightarrow> 'db ValidatorState \<Rightarrow> TimeManager \<Rightarrow> hash \<Rightarrow> nat \<Rightarrow> nat \<Rightarrow> rstr \<Rightarrow> LeaderDecision result" where
  "validate_proposer_for_round E vs tm parent_hash height round proposer =
     bindR (canon_wallet_id_checked proposer) (\<lambda>proposer.
     bindR (committee_snapshot E vs tm parent_hash height) (\<lambda>snapshot.
     bindR (leader_for_round E snapshot round) (\<lambda>decision.
     if \<not> contains_wallet snapshot proposer then Inl (ValidationError ''proposer is not in canonical committee'')
     else if \<not> eq_ignore_ascii_case (ld_leader decision) proposer then Inl (ValidationError ''rogue proposer'')
     else Inr decision)))"

definition validate_proposer_from_block_timestamp ::
    "Ext \<Rightarrow> 'db ValidatorState \<Rightarrow> TimeManager \<Rightarrow> hash \<Rightarrow> nat \<Rightarrow> nat \<Rightarrow> rstr \<Rightarrow> LeaderTrace result" where
  "validate_proposer_from_block_timestamp E vs tm parent_hash height block_timestamp_unix proposer =
     bindR (canon_wallet_id_checked proposer) (\<lambda>proposer.
     bindR (trace_for_timestamp E vs tm parent_hash height block_timestamp_unix) (\<lambda>trace.
     if \<not> contains_wallet (lt_snapshot trace) proposer then Inl (ValidationError ''proposer is not in canonical committee'')
     else if \<not> eq_ignore_ascii_case (ld_leader (lt_decision trace)) proposer then Inl (ValidationError ''rogue proposer'')
     else Inr trace))"

definition trace_fingerprint :: "Ext \<Rightarrow> LeaderTrace \<Rightarrow> hash" where
  "trace_fingerprint E trace =
     compute_bytes_hash E
       (TRACE_HASH_DOMAIN @ sn_committee_hash (lt_snapshot trace) @ sn_parent_hash (lt_snapshot trace) @
        to_be_bytes 8 (sn_height (lt_snapshot trace)) @ to_be_bytes 8 (ld_round (lt_decision trace)) @
        str_bytes (ld_leader (lt_decision trace)))"

end
