(* ===== verification/LeaderProps.thy ===== *)
theory LeaderProps
  imports LeaderSchedule ValidatorStateProps
begin

text \<open>
  Properties of the leader schedule: in each round of a height there is exactly one acceptable proposer, the
  authorization of a local node agrees with the check other nodes make, and the windows of the rounds.
\<close>

section \<open>The committee\<close>

lemma canonical_set_eq:
  assumes "\<forall>w\<in>set ws. canonical_wallet w"
  shows "canonical_set ws = Inr (bset_of ws)"
proof -
  have "foldR (\<lambda>uniq wallet. bindR (canon_wallet_id_checked wallet) (\<lambda>w. Inr (bset_insert w uniq))) acc ws =
      Inr (fold bset_insert ws acc)" for acc
    using assms by (induction ws arbitrary: acc) (simp_all add: canon_wallet_canonical)
  then show ?thesis by (simp add: canonical_set_def bset_of_def)
qed

lemma bset_of_sorted: "sorted ws \<Longrightarrow> distinct ws \<Longrightarrow> bset_of ws = ws"
  by (simp add: bset_of_set sorted_list_of_set.idem_if_sorted_distinct)

text \<open>Who is proposable: the registered wallets whose record says so, in order and once each.\<close>

lemma proposable_at_set:
  assumes "registry_ok (vs_inner vs)" and "lifecycle_config_with_activation_delay d = Inr cfg"
  shows "set (proposable_at h d vs) = {w. \<exists>m. hget (vs_inner vs) w = Some m \<and> meta_is_proposable_at m h cfg}"
  using assms by (force simp: proposable_at_def registry_ok_def bt_wf_mem)

lemma proposable_at_facts:
  assumes "registry_ok (vs_inner vs)"
  shows "sorted (proposable_at h d vs)" "distinct (proposable_at h d vs)" "\<forall>w\<in>set (proposable_at h d vs). canonical_wallet w"
proof -
  have wf: "bt_wf (vs_inner vs)" using assms by (simp add: registry_ok_def)
  have "distinct (map fst (filter P (vs_inner vs)))" for P by (rule distinct_map_filter [OF bt_wf_distinct [OF wf]])
  then show "sorted (proposable_at h d vs)" "distinct (proposable_at h d vs)"
    by (auto simp: proposable_at_def split: sum.splits)
  show "\<forall>w\<in>set (proposable_at h d vs). canonical_wallet w"
    using assms proposable_at_set [OF assms, of d] 
    by (cases "lifecycle_config_with_activation_delay d") (auto simp: registry_ok_def proposable_at_def)
qed

lemma snapshot_Inr:
  assumes "registry_ok (vs_inner vs)"
  shows "committee_snapshot E vs tm p h = Inr sn \<longleftrightarrow>
    0 < h \<and> proposable_at h (tm_proposer_delay_blocks tm) vs \<noteq> [] \<and>
    length (proposable_at h (tm_proposer_delay_blocks tm) vs) \<le> MAX_COMMITTEE_SIZE_HARD \<and>
    sn = \<lparr>sn_height = h, sn_parent_hash = p, sn_activation_delay_blocks = tm_proposer_delay_blocks tm,
      sn_validators = proposable_at h (tm_proposer_delay_blocks tm) vs,
      sn_committee_hash = compute_committee_hash E p h (tm_proposer_delay_blocks tm) (proposable_at h (tm_proposer_delay_blocks tm) vs)\<rparr>"
proof -
  let ?vs = "proposable_at h (tm_proposer_delay_blocks tm) vs"
  note f = proposable_at_facts [OF assms, of h "tm_proposer_delay_blocks tm"]
  have "canonical_set ?vs = Inr ?vs" using canonical_set_eq [OF f(3)] bset_of_sorted [OF f(1,2)] by simp
  then show ?thesis
    by (auto simp: committee_snapshot_def canonical_validators_for_height_def normalize_active_validators_def
        validate_snapshot_invariants_def Let_def res_simps split: if_splits)
qed

lemma snapshot_valid: "committee_snapshot E vs tm p h = Inr sn \<Longrightarrow> validate_snapshot_invariants E sn = Inr ()"
  by (auto simp: committee_snapshot_def Let_def res_simps)

lemma canonical_eq_ignore:
  "canonical_wallet v \<Longrightarrow> canonical_wallet w \<Longrightarrow> eq_ignore_ascii_case v w \<longleftrightarrow> v = w"
  by (simp add: eq_ignore_ascii_case_def canonical_wallet_facts)

section \<open>The leader of a round\<close>

text \<open>The order of a round: by score, then by wallet.\<close>

abbreviation beats :: "Ext \<Rightarrow> CommitteeSnapshot \<Rightarrow> nat \<Rightarrow> rstr \<Rightarrow> rstr \<Rightarrow> bool" where
  "beats E sn r v w \<equiv> (snapshot_score E sn r v, v) < (snapshot_score E sn r w, w)"

lemma leader_spec:
  assumes v: "validate_snapshot_invariants E sn = Inr ()" and c: "\<forall>w\<in>set (sn_validators sn). canonical_wallet w"
  shows "\<exists>d. leader_for_round E sn r = Inr d \<and> ld_round d = r \<and> ld_leader d \<in> set (sn_validators sn) \<and>
    ld_leader_index_in_snapshot d < length (sn_validators sn) \<and>
    sn_validators sn ! ld_leader_index_in_snapshot d = ld_leader d \<and>
    (\<forall>w\<in>set (sn_validators sn). w \<noteq> ld_leader d \<longrightarrow> beats E sn r (ld_leader d) w)"
proof -
  let ?s = "sort (map (\<lambda>w. (snapshot_score E sn r w, w)) (sn_validators sn))"
  have ne: "sn_validators sn \<noteq> []" using v by (auto simp: validate_snapshot_invariants_def split: if_splits)
  then obtain x xs where s: "?s = x # xs" by (cases ?s) (auto dest: arg_cong [of _ _ set])
  have st: "set ?s = (\<lambda>w. (snapshot_score E sn r w, w)) ` set (sn_validators sn)" by simp
  have xin: "x \<in> set ?s" unfolding s by simp
  have mem: "snd x \<in> set (sn_validators sn)" and fx: "x = (snapshot_score E sn r (snd x), snd x)"
    using xin st by auto
  have le: "\<forall>y\<in>set ?s. x \<le> y" using sorted_sort [of "map (\<lambda>w. (snapshot_score E sn r w, w)) (sn_validators sn)"]
    unfolding s by auto
  have best: "\<forall>w\<in>set (sn_validators sn). w \<noteq> snd x \<longrightarrow> beats E sn r (snd x) w"
  proof (intro ballI impI)
    fix w assume w: "w \<in> set (sn_validators sn)" "w \<noteq> snd x"
    then have "x \<le> (snapshot_score E sn r w, w)" using le st by auto
    moreover have "x \<noteq> (snapshot_score E sn r w, w)" using w(2) by auto
    ultimately show "beats E sn r (snd x) w" using fx by (metis order_le_imp_less_or_eq)
  qed
  obtain i where i: "position (\<lambda>w. eq_ignore_ascii_case w (snd x)) (sn_validators sn) = Some i"
    using mem position_None [of "\<lambda>w. eq_ignore_ascii_case w (snd x)" "sn_validators sn"]
    by (cases "position (\<lambda>w. eq_ignore_ascii_case w (snd x)) (sn_validators sn)") (auto simp: eq_ignore_ascii_case_def)
  then have il: "i < length (sn_validators sn)" and "eq_ignore_ascii_case (sn_validators sn ! i) (snd x)"
    by (auto simp: position_Some)
  then have "sn_validators sn ! i = snd x" using c mem by (auto simp: canonical_eq_ignore)
  with i il mem best v show ?thesis
    by (simp add: leader_for_round_def ordered_validators_for_round_def s)
qed

text \<open>C7. Exactly one proposer per round. For a valid registry and a height whose committee exists,
  every failover round has a leader: a member of the committee of the wallets proposable at this height,
  the one with the strictly smallest pair of score and wallet, found at its recorded index; and proposer
  validation for the round accepts a proposer string if and only if it canonicalizes to this leader.\<close>

theorem one_proposer_per_round:
  assumes reg: "registry_ok (vs_inner vs)" and sn: "committee_snapshot E vs tm p h = Inr sn"
  shows "\<exists>d. leader_for_round E sn r = Inr d \<and>
    ld_leader d \<in> set (proposable_at h (tm_proposer_delay_blocks tm) vs) \<and>
    sn_validators sn ! ld_leader_index_in_snapshot d = ld_leader d \<and>
    (\<forall>w\<in>set (proposable_at h (tm_proposer_delay_blocks tm) vs). w \<noteq> ld_leader d \<longrightarrow> beats E sn r (ld_leader d) w) \<and>
    (\<forall>proposer. (\<exists>d'. validate_proposer_for_round E vs tm p h r proposer = Inr d') \<longleftrightarrow>
       canon_wallet_id_checked proposer = Inr (ld_leader d))"
proof -
  have s: "sn_validators sn = proposable_at h (tm_proposer_delay_blocks tm) vs" using sn snapshot_Inr [OF reg] by auto
  have c: "\<forall>w\<in>set (sn_validators sn). canonical_wallet w" using proposable_at_facts(3) [OF reg] by (simp add: s)
  obtain d where d: "leader_for_round E sn r = Inr d" "ld_leader d \<in> set (sn_validators sn)"
    "sn_validators sn ! ld_leader_index_in_snapshot d = ld_leader d"
    "\<forall>w\<in>set (sn_validators sn). w \<noteq> ld_leader d \<longrightarrow> beats E sn r (ld_leader d) w"
    using leader_spec [OF snapshot_valid [OF sn] c] by blast
  have e: "eq_ignore_ascii_case w q \<longleftrightarrow> w = q" if "w \<in> set (sn_validators sn)" "canon_wallet_id_checked x = Inr q" for w q x
    using canonical_eq_ignore c that canon_wallet_result(1) by blast
  have "(\<exists>d'. validate_proposer_for_round E vs tm p h r proposer = Inr d') \<longleftrightarrow>
       canon_wallet_id_checked proposer = Inr (ld_leader d)" for proposer
    using d(1,2) e [OF _, of _ proposer]
    by (cases "canon_wallet_id_checked proposer") (auto simp: validate_proposer_for_round_def sn contains_wallet_def list_ex_iff)
  then show ?thesis using d by (simp add: s [symmetric])
qed

text \<open>A node with one validator, registered in block 1, at height 6.\<close>

definition leader_vs :: "mem_db ValidatorState" where
  "leader_vs = \<lparr>vs_inner = run_registry, vs_db_manager = mem_manager []\<rparr>"

definition leader_tm :: TimeManager where
  "leader_tm = tm_new (from_genesis_ts 1700000000)"

lemma leader_tm_values:
  "tm_proposer_delay_blocks leader_tm = 4" "tm_block_interval_secs leader_tm = 30" "tm_failover_window_secs leader_tm = 12"
  "tm_slot_gate_drift_secs leader_tm = 2" "tc_genesis_time_unix (tm_cfg leader_tm) = 1700000000"
  by (simp_all add: leader_tm_def tm_new_def globals_config tm_proposer_delay_blocks_def proposer_delay_blocks_def
      activation_delay_blocks_def div_ceil_def tm_block_interval_secs_def tm_failover_window_secs_def
      cfg_failover_window_secs_def tm_slot_gate_drift_secs_def)

lemma leader_vs_ok: "registry_ok (vs_inner leader_vs)"
  by (simp add: leader_vs_def registry_ok_def run_registry_def bt_wf_def meta_ok_def time_consts sample_wallet_canonical is_lower_hex_def)

lemma leader_proposable: "proposable_at 6 4 leader_vs = [sample_wallet 97]"
  by (simp add: proposable_at_def lifecycle_config_with_activation_delay_def Let_def lifecycle_validate_def
      lifecycle_from_globals_def cfg_defs MAX_LEASE_BLOCKS_HARD_def MAX_LIFECYCLE_DELAY_BLOCKS_HARD_def leader_vs_def run_registry_def
      meta_is_proposable_at_def meta_is_active_at_def not_explicitly_exited_at_def within_lease_at_def lease_expiry_height_def
      saturating_add_def)

lemma leader_snapshot: "\<exists>sn. committee_snapshot E leader_vs leader_tm p 6 = Inr sn"
  using snapshot_Inr [OF leader_vs_ok, of E leader_tm p 6]
  by (simp add: leader_tm_values leader_proposable MAX_COMMITTEE_SIZE_HARD_def)

theorem one_proposer_per_round_witness:
  "\<exists>p sn d. committee_snapshot fixed_ext leader_vs leader_tm p 6 = Inr sn \<and> leader_for_round fixed_ext sn 3 = Inr d \<and>
     ld_leader d = sample_wallet 97 \<and>
     (\<exists>d'. validate_proposer_for_round fixed_ext leader_vs leader_tm p 6 3 (sample_wallet 97) = Inr d')"
proof -
  define p where "p = replicate 64 (1 :: byte)"
  obtain sn where sn: "committee_snapshot fixed_ext leader_vs leader_tm p 6 = Inr sn" using leader_snapshot by blast
  have "canon_wallet_id_checked (sample_wallet 97) = Inr (sample_wallet 97)"
    by (simp add: canon_wallet_canonical sample_wallet_canonical is_lower_hex_def)
  moreover obtain d where "leader_for_round fixed_ext sn 3 = Inr d" "ld_leader d \<in> set (proposable_at 6 (tm_proposer_delay_blocks leader_tm) leader_vs)"
    and "\<And>q. (\<exists>d'. validate_proposer_for_round fixed_ext leader_vs leader_tm p 6 3 q = Inr d') \<longleftrightarrow> canon_wallet_id_checked q = Inr (ld_leader d)"
    using one_proposer_per_round [OF leader_vs_ok sn, of 3] by blast
  ultimately show ?thesis using sn by (intro exI [of _ p] exI [of _ sn] exI [of _ d]) (simp add: leader_tm_values leader_proposable)
qed

section \<open>Rounds\<close>

lemma round_from_timestamp_Inr:
  assumes "ts < 2 ^ 64"
  shows "round_for_height_from_timestamp tm h ts = Inr (r, elapsed, in_round, start) \<longleftrightarrow>
    0 < h \<and> leader_height_start_unix tm h \<le> ts \<and> elapsed = ts - leader_height_start_unix tm h \<and>
    r = elapsed div tm_failover_window_secs tm \<and> start = leader_height_start_unix tm h + r * tm_failover_window_secs tm \<and>
    in_round = ts - start"
proof -
  let ?hs = "leader_height_start_unix tm h"
  have tau: "max (tm_failover_window_secs tm) (Suc 0) = tm_failover_window_secs tm"
    by (simp_all add: tm_failover_window_secs_def cfg_failover_window_secs_def)
  have le: "?hs + (ts - ?hs) div tm_failover_window_secs tm * tm_failover_window_secs tm \<le> ts" if "?hs \<le> ts"
    using that div_times_less_eq_dividend [of "ts - ?hs" "tm_failover_window_secs tm"] by linarith
  have "saturating_add 64 ?hs (saturating_mul 64 ((ts - ?hs) div tm_failover_window_secs tm) (tm_failover_window_secs tm)) =
      ?hs + (ts - ?hs) div tm_failover_window_secs tm * tm_failover_window_secs tm" if "?hs \<le> ts"
  proof -
    have "?hs + (ts - ?hs) div tm_failover_window_secs tm * tm_failover_window_secs tm < 2 ^ 64"
      using le [OF that] assms by linarith
    then show ?thesis unfolding saturating_add_def saturating_mul_def by (auto dest: add_lessD1)
  qed
  moreover have "saturating_sub ts x = ts - x" for x by (simp add: saturating_sub_def)
  ultimately show ?thesis by (auto simp: round_for_height_from_timestamp_def Let_def tau split: if_splits)
qed

text \<open>The failover rounds of a height tile the time from its start. A timestamp is given a round exactly
  when the height is not 0 and the time is not before the nominal start; then the time lies in the window of
  length \<open>\<tau>\<close> that begins at the reported start of the round, at the reported offset; and a local clock that
  is early by no more than the allowed drift is given round 0.\<close>

theorem round_windows:
  assumes ts: "ts < 2 ^ 64" and gen: "tc_genesis_time_unix (tm_cfg tm) < 2 ^ 64"
  shows "((\<exists>x. round_for_height_from_timestamp tm h ts = Inr x) \<longleftrightarrow> 0 < h \<and> leader_height_start_unix tm h \<le> ts) \<and>
    (\<forall>r elapsed in_round start. round_for_height_from_timestamp tm h ts = Inr (r, elapsed, in_round, start) \<longrightarrow>
       start = leader_height_start_unix tm h + r * tm_failover_window_secs tm \<and> start + in_round = ts \<and>
       in_round < tm_failover_window_secs tm \<and> leader_height_start_unix tm h + elapsed = ts) \<and>
    (0 < h \<and> ts < leader_height_start_unix tm h \<and> leader_height_start_unix tm h \<le> ts + tm_slot_gate_drift_secs tm \<longrightarrow>
       round_for_height_now tm h ts = Inr (0, 0, 0, leader_height_start_unix tm h))"
proof (intro conjI allI impI)
  let ?hs = "leader_height_start_unix tm h" and ?tau = "tm_failover_window_secs tm"
  have tau: "0 < ?tau" by (simp add: tm_failover_window_secs_def cfg_failover_window_secs_def)
  show "(\<exists>x. round_for_height_from_timestamp tm h ts = Inr x) \<longleftrightarrow> 0 < h \<and> ?hs \<le> ts"
    by (auto simp: round_for_height_from_timestamp_def Let_def split: if_splits)
  show "round_for_height_now tm h ts = Inr (0, 0, 0, ?hs)" if "0 < h \<and> ts < ?hs \<and> ?hs \<le> ts + tm_slot_gate_drift_secs tm"
  proof -
    have b: "?hs < 2 ^ 64" using gen by (auto simp: leader_height_start_unix_def Let_def saturating_add_def)
    show ?thesis using that tau b round_from_timestamp_Inr [OF b, of tm h 0 0 0 ?hs]
      by (auto simp: round_for_height_now_def Let_def saturating_add_def max_def)
  qed
  fix r elapsed in_round start
  assume "round_for_height_from_timestamp tm h ts = Inr (r, elapsed, in_round, start)"
  then have e: "?hs \<le> ts" "elapsed = ts - ?hs" "r = elapsed div ?tau" "start = ?hs + r * ?tau" "in_round = ts - start"
    using round_from_timestamp_Inr [OF ts] by auto
  have d: "elapsed = r * ?tau + elapsed mod ?tau" "elapsed mod ?tau < ?tau" using e(3) tau by simp_all
  show "start = ?hs + r * ?tau" "?hs + elapsed = ts" using e by simp_all
  show "start + in_round = ts" "in_round < ?tau" using e(1,2,4,5) d by linarith+
qed

theorem round_windows_witness:
  "round_for_height_from_timestamp leader_tm 6 1700000175 = Inr (2, 25, 1, 1700000174) \<and>
   1700000174 = leader_height_start_unix leader_tm 6 + 2 * tm_failover_window_secs leader_tm \<and>
   round_for_height_now leader_tm 6 1700000149 = Inr (0, 0, 0, leader_height_start_unix leader_tm 6)"
proof -
  have s: "leader_height_start_unix leader_tm 6 = 1700000150"
    by (simp add: leader_height_start_unix_def leader_tm_values saturating_sub_def saturating_mul_def saturating_add_def)
  have "round_for_height_from_timestamp leader_tm 6 1700000175 = Inr (2, 25, 1, 1700000174)"
    using round_from_timestamp_Inr [of 1700000175 leader_tm 6 2 25 1 1700000174] by (simp add: s leader_tm_values)
  moreover have "1700000174 = leader_height_start_unix leader_tm 6 + 2 * tm_failover_window_secs leader_tm"
    using round_windows [of 1700000175 leader_tm 6] calculation by (simp add: leader_tm_values)
  moreover have "round_for_height_now leader_tm 6 1700000149 = Inr (0, 0, 0, leader_height_start_unix leader_tm 6)"
    using round_windows [of 1700000149 leader_tm 6] by (simp add: leader_tm_values s)
  ultimately show ?thesis by blast
qed

section \<open>Agreement of nodes\<close>

lemma same_registry_snapshot:
  assumes "vs_inner vs' = vs_inner vs"
  shows "committee_snapshot E vs' tm p h = committee_snapshot E vs tm p h"
proof -
  have "proposable_at h d vs' = proposable_at h d vs" for d unfolding proposable_at_def assms ..
  then show ?thesis by (simp add: committee_snapshot_def canonical_validators_for_height_def)
qed

lemma mint_Inr:
  assumes reg: "registry_ok (vs_inner vs)" and ls: "canonical_wallet (ls_local_wallet ls)"
    and m: "assert_local_can_mint_now E ls vs ce tm p h now = Inr a"
  shows "\<exists>sn r elapsed in_round start d. committee_snapshot E vs tm p h = Inr sn \<and>
    round_for_height_from_timestamp tm h (max now (leader_height_start_unix tm h)) = Inr (r, elapsed, in_round, start) \<and>
    leader_for_round E sn r = Inr d \<and> ld_leader d = ls_local_wallet ls \<and> ld_round d = r \<and>
    ld_leader d \<in> set (sn_validators sn) \<and> lt_decision (ma_trace a) = d"
proof -
  obtain sn r elapsed in_round start d where sn: "committee_snapshot E vs tm p h = Inr sn"
    and r: "round_for_height_from_timestamp tm h (max now (leader_height_start_unix tm h)) = Inr (r, elapsed, in_round, start)"
    and d: "leader_for_round E sn r = Inr d" and e: "eq_ignore_ascii_case (ld_leader d) (ls_local_wallet ls)"
    and a: "lt_decision (ma_trace a) = d"
    using m by (auto simp: assert_local_can_mint_now_def trace_for_now_def make_trace_def round_for_height_now_def Let_def res_simps
        split: if_splits)
  have "sn_validators sn = proposable_at h (tm_proposer_delay_blocks tm) vs" using sn snapshot_Inr [OF reg] by auto
  then have c: "\<forall>w\<in>set (sn_validators sn). canonical_wallet w" using proposable_at_facts(3) [OF reg] by simp
  have l: "ld_leader d \<in> set (sn_validators sn)" "ld_round d = r" using leader_spec [OF snapshot_valid [OF sn] c, of r] d by auto
  moreover have "ld_leader d = ls_local_wallet ls" using e l c ls by (simp add: canonical_eq_ignore)
  ultimately show ?thesis using sn r d a by blast
qed

text \<open>C12. Nodes agree on who mints. When a node is authorized to mint for a height, every node with the same
  validator registry accepts it as the proposer of a block on the same parent whose timestamp is the current
  time, or the start of the height if that is later, with the same decision, whatever its own runtime view of
  the peers; and no other node with this registry is authorized in the same round.\<close>

theorem mint_agreement:
  assumes reg: "registry_ok (vs_inner vs)" and ls: "leader_schedule_new w = Inr ls" and same: "vs_inner vs' = vs_inner vs"
    and m: "assert_local_can_mint_now E ls vs ce tm p h now = Inr a"
  shows "(\<exists>t. validate_proposer_from_block_timestamp E vs' tm p h (max now (leader_height_start_unix tm h)) (ls_local_wallet ls) = Inr t \<and>
      lt_decision t = lt_decision (ma_trace a)) \<and>
    (\<forall>w2 ls2 ce2 now2 a2. leader_schedule_new w2 = Inr ls2 \<longrightarrow> assert_local_can_mint_now E ls2 vs' ce2 tm p h now2 = Inr a2 \<longrightarrow>
       ld_round (lt_decision (ma_trace a2)) = ld_round (lt_decision (ma_trace a)) \<longrightarrow> ls_local_wallet ls2 = ls_local_wallet ls)"
proof -
  have new: "canonical_wallet (ls_local_wallet x)" if "leader_schedule_new v = Inr x" for v x
    using that canon_wallet_result(1) by (auto simp: leader_schedule_new_def res_simps)
  obtain sn r elapsed in_round start d where sn: "committee_snapshot E vs tm p h = Inr sn"
    and r: "round_for_height_from_timestamp tm h (max now (leader_height_start_unix tm h)) = Inr (r, elapsed, in_round, start)"
    and d: "leader_for_round E sn r = Inr d" "ld_leader d = ls_local_wallet ls" "ld_round d = r" "ld_leader d \<in> set (sn_validators sn)"
    and a: "lt_decision (ma_trace a) = d"
    using mint_Inr [OF reg new [OF ls] m] by blast
  have "contains_wallet sn (ls_local_wallet ls)"
    using d(2,4) by (auto simp: contains_wallet_def list_ex_iff eq_ignore_ascii_case_def)
  then have "\<exists>t. validate_proposer_from_block_timestamp E vs' tm p h (max now (leader_height_start_unix tm h)) (ls_local_wallet ls) = Inr t \<and>
      lt_decision t = d"
    by (simp add: validate_proposer_from_block_timestamp_def canon_wallet_canonical [OF new [OF ls]] trace_for_timestamp_def
        same_registry_snapshot [OF same] sn r make_trace_def d(1,2) eq_ignore_ascii_case_def)
  moreover have "ls_local_wallet ls2 = ls_local_wallet ls"
    if q: "leader_schedule_new w2 = Inr ls2" "assert_local_can_mint_now E ls2 vs' ce2 tm p h now2 = Inr a2"
      "ld_round (lt_decision (ma_trace a2)) = ld_round (lt_decision (ma_trace a))" for w2 ls2 ce2 now2 a2
  proof -
    have reg': "registry_ok (vs_inner vs')" using reg same by simp
    obtain sn2 r2 d2 where "committee_snapshot E vs' tm p h = Inr sn2" "leader_for_round E sn2 r2 = Inr d2"
      "ld_leader d2 = ls_local_wallet ls2" "ld_round d2 = r2" "lt_decision (ma_trace a2) = d2"
      using mint_Inr [OF reg' new [OF q(1)] q(2)] by blast
    then show ?thesis using sn d a q(3) same_registry_snapshot [OF same] by auto
  qed
  ultimately show ?thesis unfolding a [symmetric] by blast
qed

definition leader_ce :: CommitteeEligibility where
  "leader_ce = set_live (sample_wallet 97) True with_default_config"

lemma sample_wallet_a: "canonical_wallet (sample_wallet 97)"
  by (simp add: sample_wallet_canonical is_lower_hex_def)

lemma leader_mints:
  "\<exists>a. assert_local_can_mint_now E \<lparr>ls_local_wallet = sample_wallet 97\<rparr> leader_vs leader_ce leader_tm p 6 1700000175 = Inr a"
proof -
  obtain sn where sn: "committee_snapshot E leader_vs leader_tm p 6 = Inr sn" using leader_snapshot by blast
  then have v: "sn_validators sn = [sample_wallet 97]"
    using snapshot_Inr [OF leader_vs_ok, of E leader_tm p 6 sn] by (simp add: leader_tm_values leader_proposable)
  then obtain d where d: "leader_for_round E sn 2 = Inr d" "ld_leader d = sample_wallet 97"
    using leader_spec [OF snapshot_valid [OF sn], of 2] sample_wallet_a by auto
  have s: "leader_height_start_unix leader_tm 6 = 1700000150"
    by (simp add: leader_height_start_unix_def leader_tm_values saturating_sub_def saturating_mul_def saturating_add_def)
  have r: "round_for_height_now leader_tm 6 1700000175 = Inr (2, 25, 1, 1700000174)"
    using round_from_timestamp_Inr [of 1700000175 leader_tm 6 2 25 1 1700000174]
    by (simp add: round_for_height_now_def Let_def s leader_tm_values saturating_add_def)
  have "cd_eligible (decide_wallet (sample_wallet 97) leader_ce)"
    by (simp add: decide_wallet_def canon_wallet_canonical [OF sample_wallet_a] leader_ce_def set_live_live)
      (simp add: set_live_def with_default_config_def committee_new_def decision_eligible_def)
  then show ?thesis
    by (simp add: assert_local_can_mint_now_def trace_for_now_def sn r make_trace_def d contains_wallet_def v
        eq_ignore_ascii_case_def ensure_local_runtime_mint_eligibility_def)
qed

theorem mint_agreement_witness:
  "\<exists>p a t. assert_local_can_mint_now fixed_ext \<lparr>ls_local_wallet = sample_wallet 97\<rparr> leader_vs leader_ce leader_tm p 6 1700000175 = Inr a \<and>
    validate_proposer_from_block_timestamp fixed_ext leader_vs leader_tm p 6
      (max 1700000175 (leader_height_start_unix leader_tm 6)) (sample_wallet 97) = Inr t \<and> lt_decision t = lt_decision (ma_trace a)"
proof -
  have n: "leader_schedule_new (sample_wallet 97) = Inr \<lparr>ls_local_wallet = sample_wallet 97\<rparr>"
    by (simp add: leader_schedule_new_def canon_wallet_canonical [OF sample_wallet_a])
  obtain p a where a: "assert_local_can_mint_now fixed_ext \<lparr>ls_local_wallet = sample_wallet 97\<rparr> leader_vs leader_ce leader_tm p 6 1700000175 = Inr a"
    using leader_mints by blast
  then show ?thesis using mint_agreement [OF leader_vs_ok n refl a] by auto
qed

section \<open>Two clocks\<close>

text \<open>The two definitions of the start of a height differ by one block interval. With a valid time
  configuration, the start of a height in the leader schedule, which proposers and validators use, is one
  interval before the one of the time manager; so a block timestamp in the first interval of its height, up to
  the drift, gets a round from the leader schedule, but the time manager's derivation of the round of a height
  from a block timestamp rejects it.\<close>

theorem height_clocks_differ:
  assumes v: "tc_validate (tm_cfg tm) = Inr ()" and h: "1 \<le> h"
    and o: "tc_genesis_time_unix (tm_cfg tm) + h * tm_block_interval_secs tm < 2 ^ 64"
    and ts: "leader_height_start_unix tm h \<le> ts" "ts + tm_slot_gate_drift_secs tm < leader_height_start_unix tm h + tm_block_interval_secs tm"
  shows "tm_height_start_unix tm h = leader_height_start_unix tm h + tm_block_interval_secs tm \<and>
    (\<exists>x. round_for_height_from_timestamp tm h ts = Inr x) \<and> (\<exists>e. round_for_height_from_block_timestamp tm h ts = Inl e)"
proof -
  let ?g = "tc_genesis_time_unix (tm_cfg tm)" and ?b = "tm_block_interval_secs tm"
  have g: "1 \<le> ?g" using v by (auto simp: tc_validate_def res_simps time_consts)
  have b: "1 \<le> ?b" by (simp add: tm_block_interval_secs_def)
  have hb: "h * ?b = (h - 1) * ?b + ?b" using h by (metis Suc_diff_1 add.commute less_le_trans mult_Suc zero_less_one)
  have ls: "leader_height_start_unix tm h = ?g + (h - 1) * ?b"
    using g b o hb h by (auto simp: leader_height_start_unix_def Let_def saturating_sub_def saturating_mul_def saturating_add_def max_def)
  have ht: "tm_height_start_unix tm h = ?g + h * ?b"
    using o by (simp add: tm_height_start_unix_def slot_start_unix_def saturating_mul_def saturating_add_def)
  have "\<exists>e. round_for_height_from_block_timestamp tm h ts = Inl e"
  proof (cases "round_for_height_from_block_timestamp tm h ts")
    case (Inr x)
    then obtain start where s: "slot_start_unix_checked (chain_time_policy_config (tm_cfg tm)) h = Inr start"
      and t: "\<not> (ts < start \<and> saturating_sub start ts > tm_slot_gate_drift_secs tm)"
      by (auto simp: round_for_height_from_block_timestamp_def Let_def res_simps height_start_unix_checked_def
          tm_slot_start_unix_checked_def split: if_splits)
    have "start = ?g + h * ?b" using s by (auto simp: slot_start_Inr chain_time_policy_config_def tm_block_interval_secs_def)
    then show ?thesis using t ts ls hb by (auto simp: saturating_sub_def)
  qed simp
  then show ?thesis using ls ht hb ts h by (auto simp: round_for_height_from_timestamp_def Let_def)
qed

theorem height_clocks_differ_witness:
  "(\<exists>x. round_for_height_from_timestamp leader_tm 6 1700000160 = Inr x) \<and>
   (\<exists>e. round_for_height_from_block_timestamp leader_tm 6 1700000160 = Inl e)"
proof -
  have s: "leader_height_start_unix leader_tm 6 = 1700000150"
    by (simp add: leader_height_start_unix_def leader_tm_values saturating_sub_def saturating_mul_def saturating_add_def)
  have "tc_validate (tm_cfg leader_tm) = Inr ()"
    by (simp add: leader_tm_def tm_new_def globals_config tc_validate_def chain_time_policy_config_def cfg_validate_def
        validate_unix_secs_structural_def time_consts MAX_BLOCK_INTERVAL_SECS_def MAX_SLOT_GATE_DRIFT_SECS_def)
  from height_clocks_differ [OF this, of 6 1700000160] show ?thesis by (simp add: leader_tm_values s)
qed

end
