(* ===== verification/Detection.thy ===== *)
theory Detection
  imports Transactions StateError
begin

text \<open>
  The detection system (\<open>src/utility/alpha_003_detection_system.rs\<close>): the set of live participants with their heartbeats
  and the list of booted ones, and the checks of transaction ids, node lists, hash rates and block sizes.

  The wall clock is an argument, one reading for each call of \<open>now_unix\<close>. A \<open>HashSet\<close> is a set, and the field
  \<open>participant_reward\<close>, a float that is set to zero and never read, is left out. The sort by time in \<open>enforce_boot_cap\<close> takes
  entries of equal time in the order of the map.
\<close>

section \<open>State\<close>

record DetectionSystem =
  ds_current_reward :: nat
  ds_max_participants :: nat
  ds_active_participants :: "rstr set"
  ds_last_active :: "(rstr, nat) hmap"
  ds_booted_participants :: "rstr set"
  ds_booted_at :: "(rstr, nat) hmap"
  ds_validator_stakes :: "(rstr, nat) hmap"

datatype DetectionOutcome = OutcomeOk | OutcomeWarning string | OutcomeCritical string

definition detection_new :: DetectionSystem where
  "detection_new =
     \<lparr>ds_current_reward = INITIAL_BLOCK_REWARD, ds_max_participants = MAX_ZAR_PARTICIPANTS, ds_active_participants = {},
      ds_last_active = [], ds_booted_participants = {}, ds_booted_at = [], ds_validator_stakes = []\<rparr>"

definition now_unix :: "int \<Rightarrow> nat" where
  "now_unix clock = (case now_unix_secs_runtime clock of Inr t \<Rightarrow> t | Inl _ \<Rightarrow> 0)"

definition canon_id :: "rstr \<Rightarrow> rstr result" where
  "canon_id pid =
     (let trimmed = trim pid in
      if trimmed = [] then Inl (ValidationError ''Participant id cannot be empty'')
      else if str_len trimmed > MAX_PEER_ID_B58_LEN
        then Inl (ValidationError ''Participant id exceeds MAX_PEER_ID_B58_LEN'')
      else if \<not> is_ascii trimmed then Inl (ValidationError ''Participant id must be ASCII'')
      else Inr (to_ascii_lowercase trimmed))"

definition effective_participant_cap :: "DetectionSystem \<Rightarrow> nat" where
  "effective_participant_cap d = min (ds_max_participants d) MAX_VALIDATORS"

section \<open>Participants\<close>

definition prune_booted :: "int \<Rightarrow> DetectionSystem \<Rightarrow> DetectionSystem" where
  "prune_booted clock d =
     (let ttl = saturating_add 64 DEAD_PEER_EVICTION_SECS HEARTBEAT_GRACE_SECS;
          now = now_unix clock;
          stale = map fst (filter (\<lambda>(pid, ts). saturating_sub now ts > ttl) (ds_booted_at d)) in
      fold (\<lambda>pid d. d\<lparr>ds_booted_at := hremove pid (ds_booted_at d),
                       ds_booted_participants := ds_booted_participants d - {pid}\<rparr>) stale d)"

definition add_participant :: "int \<times> int \<Rightarrow> rstr \<Rightarrow> (DetectionSystem, unit) sm" where
  "add_participant clocks pid d0 =
     (let d = prune_booted (fst clocks) d0 in
      case canon_id pid of
        Inl e \<Rightarrow> (Inl e, d)
      | Inr canonical \<Rightarrow>
          (let cap = effective_participant_cap d in
           if card (ds_active_participants d) \<ge> cap then (Inl (CapacityError ''Maximum participant limit reached''), d)
           else if canonical \<in> ds_active_participants d then (Inl (AlreadyExists ''Participant already active''), d)
           else if canonical \<in> ds_booted_participants d
             then (Inl (PermissionDenied ''Participant was booted recently and cannot rejoin''), d)
           else (case now_unix_secs_runtime (snd clocks) of
               Inl e \<Rightarrow> (Inl e, d)
             | Inr now \<Rightarrow>
                 (let d1 = d\<lparr>ds_active_participants := insert canonical (ds_active_participants d),
                             ds_last_active := hinsert canonical now (ds_last_active d)\<rparr> in
                  if length (ds_last_active d1) > MAX_IDENTITIES
                    then (Inl (CapacityError ''last_active map exceeded MAX_IDENTITIES''),
                          d1\<lparr>ds_active_participants := ds_active_participants d1 - {canonical},
                             ds_last_active := hremove canonical (ds_last_active d1)\<rparr>)
                  else (Inr (), d1)))))"

definition remove_participant :: "rstr \<Rightarrow> (DetectionSystem, unit) sm" where
  "remove_participant pid d =
     (case canon_id pid of
        Inl e \<Rightarrow> (Inl e, d)
      | Inr canonical \<Rightarrow>
          if canonical \<in> ds_active_participants d then
            (Inr (), d\<lparr>ds_active_participants := ds_active_participants d - {canonical},
                       ds_last_active := hremove canonical (ds_last_active d),
                       ds_validator_stakes := hremove canonical (ds_validator_stakes d)\<rparr>)
          else (Inl (NotFound ''participant''), d))"

definition enforce_boot_cap :: "DetectionSystem \<Rightarrow> DetectionSystem" where
  "enforce_boot_cap d =
     (let boot_cap = min MAX_VALIDATORS MAX_IDENTITIES in
      if card (ds_booted_participants d) \<le> boot_cap then d
      else
        (let entries = sort_key snd (ds_booted_at d);
             over = saturating_sub (card (ds_booted_participants d)) boot_cap in
         fold (\<lambda>pid d. d\<lparr>ds_booted_participants := ds_booted_participants d - {pid},
                          ds_booted_at := hremove pid (ds_booted_at d)\<rparr>) (map fst (take over entries)) d))"

definition boot_inactive_participants :: "int \<times> int \<Rightarrow> nat \<Rightarrow> DetectionSystem \<Rightarrow> DetectionSystem" where
  "boot_inactive_participants clocks max_inactive d0 =
     (let d = prune_booted (fst clocks) d0;
          now = now_unix (snd clocks);
          to_boot = map fst (filter (\<lambda>(pid, ts). saturating_sub now ts > max_inactive) (ds_last_active d)) in
      enforce_boot_cap
        (fold (\<lambda>pid d. d\<lparr>ds_active_participants := ds_active_participants d - {pid},
                         ds_last_active := hremove pid (ds_last_active d),
                         ds_validator_stakes := hremove pid (ds_validator_stakes d),
                         ds_booted_participants := insert pid (ds_booted_participants d),
                         ds_booted_at := hinsert pid now (ds_booted_at d)\<rparr>) to_boot d))"

definition update_participant_activity :: "int \<Rightarrow> rstr \<Rightarrow> (DetectionSystem, unit) sm" where
  "update_participant_activity clock pid d =
     (case canon_id pid of
        Inl e \<Rightarrow> (Inl e, d)
      | Inr canonical \<Rightarrow>
          (case now_unix_secs_runtime clock of
             Inl e \<Rightarrow> (Inl e, d)
           | Inr now \<Rightarrow>
               if canonical \<notin> ds_active_participants d then (Inl (NotFound ''active participant''), d)
               else (Inr (), d\<lparr>ds_last_active := hinsert canonical now (ds_last_active d)\<rparr>)))"

definition last_active_of :: "rstr \<Rightarrow> DetectionSystem \<Rightarrow> nat option" where
  "last_active_of pid d = (case canon_id pid of Inl _ \<Rightarrow> None | Inr canonical \<Rightarrow> hget (ds_last_active d) canonical)"

section \<open>Transactions\<close>

fun detect_double_spend_loop :: "rstr set \<Rightarrow> nat \<Rightarrow> rstr list \<Rightarrow> unit result" where
  "detect_double_spend_loop seen count [] = Inr ()"
| "detect_double_spend_loop seen count (tx # tx_ids) =
     (let count = saturating_add 64 count 1 in
      if count > MAX_TXS_PER_BLOCK then Inl (ValidationError ''Too many tx_ids to scan for double-spend'')
      else if tx \<in> seen then Inl (DoubleSpending (Some tx))
      else detect_double_spend_loop (insert tx seen) count tx_ids)"

definition detect_double_spend :: "rstr list \<Rightarrow> unit result" where
  "detect_double_spend tx_ids = detect_double_spend_loop {} 0 tx_ids"

fun detect_replay_loop :: "rstr set \<Rightarrow> (rstr \<times> byte list) set \<Rightarrow> nat \<Rightarrow> (rstr \<times> byte list) list \<Rightarrow> unit result" where
  "detect_replay_loop seen_keys seen_pairs count [] = Inr ()"
| "detect_replay_loop seen_keys seen_pairs count ((tx, sig) # items) =
     (let count = saturating_add 64 count 1 in
      if count > MAX_TXS_PER_BLOCK then Inl (ValidationError ''Too many items to scan for replay'')
      else if (tx, sig) \<in> seen_pairs then Inl (InvalidOperation ''Replay attack (duplicate (tx_id, sig) pair)'')
      else if tx \<in> seen_keys then Inl (InvalidOperation ''Replay attack (duplicate tx_id)'')
      else detect_replay_loop (insert tx seen_keys) (insert (tx, sig) seen_pairs) count items)"

definition detect_replay :: "(rstr \<times> byte list) list \<Rightarrow> unit result" where
  "detect_replay items = detect_replay_loop {} {} 0 items"

section \<open>Network\<close>

definition detect_51_percent_attack :: "nat \<Rightarrow> nat \<Rightarrow> unit result" where
  "detect_51_percent_attack attacker_hash_rate total_hash_rate =
     (if total_hash_rate = 0 then Inl (ValidationError ''Total hash rate is zero; cannot compute percentage'')
      else
        (let left = saturating_mul 128 attacker_hash_rate 100; right = saturating_mul 128 total_hash_rate ATTACK_THRESHOLD in
         if left > right then Inl (BlockchainError ''51% attack'') else Inr ()))"

fun detect_sybil_loop :: "rstr set \<Rightarrow> nat \<Rightarrow> (rstr \<times> nat) list \<Rightarrow> unit result" where
  "detect_sybil_loop ids count [] = Inr ()"
| "detect_sybil_loop ids count ((i, weight) # nodes) =
     (let count = saturating_add 64 count 1 in
      if count > MAX_IDENTITIES then Inl (ValidationError ''Too many node ids to scan for sybil'')
      else
        bindR (canon_id i) (\<lambda>canon.
        if canon \<in> ids then Inl (BlockchainError ''Sybil attack: duplicate node id'')
        else detect_sybil_loop (insert canon ids) count nodes))"

definition detect_sybil_attack :: "(rstr \<times> nat) list \<Rightarrow> unit result" where
  "detect_sybil_attack nodes = detect_sybil_loop {} 0 nodes"

section \<open>Blocks, data and state\<close>

definition check_block_size :: "nat \<Rightarrow> unit result" where
  "check_block_size n =
     (if n > MAX_BLOCK_SIZE then Inl (ValidationError ''Block size exceeds max'') else Inr ())"

definition check_block_hash_format :: "Ext \<Rightarrow> rstr \<Rightarrow> unit result" where
  "check_block_hash_format E hex_hash =
     (let h = trim hex_hash in
      if str_len h \<noteq> 128 \<or> (case hex_decode E h of Inl _ \<Rightarrow> True | Inr _ \<Rightarrow> False)
        then Inl (ValidationError ''Invalid block hash'') else Inr ())"

fun verify_dataset_consistency :: "(rstr \<times> bool) list \<Rightarrow> unit result" where
  "verify_dataset_consistency [] = Inr ()"
| "verify_dataset_consistency ((name, ok) # datasets) =
     (if \<not> ok then Inl (ValidationError ''Data inconsistency'') else verify_dataset_consistency datasets)"

definition validate_system_state :: "DetectionSystem \<Rightarrow> DetectionOutcome result" where
  "validate_system_state d =
     (if card (ds_active_participants d) > effective_participant_cap d
        then Inr (OutcomeCritical ''Active participants exceed maximum allowed'')
      else if ds_booted_participants d \<inter> ds_active_participants d \<noteq> {}
        then Inr (OutcomeCritical ''Booted participants present in active set'')
      else if ds_active_participants d = {} then Inr (OutcomeWarning ''No active validators in the set'')
      else Inr OutcomeOk)"

section \<open>Invariant\<close>

text \<open>The maps follow the sets, no participant is both active and booted, and the limits hold.\<close>

definition detection_ok :: "DetectionSystem \<Rightarrow> bool" where
  "detection_ok d \<longleftrightarrow>
     wf_map (ds_last_active d) \<and> dom (hget (ds_last_active d)) = ds_active_participants d \<and>
     wf_map (ds_booted_at d) \<and> dom (hget (ds_booted_at d)) = ds_booted_participants d \<and>
     ds_active_participants d \<inter> ds_booted_participants d = {} \<and>
     card (ds_active_participants d) \<le> effective_participant_cap d"

lemma detection_new_ok: "detection_ok detection_new"
  by (simp add: detection_ok_def detection_new_def)

lemma detection_ok_finite: "detection_ok d \<Longrightarrow> finite (ds_active_participants d) \<and> finite (ds_booted_participants d)"
  using finite_dom_map_of [of "ds_last_active d"] finite_dom_map_of [of "ds_booted_at d"] by (simp add: detection_ok_def)

text \<open>An operation that keeps the invariant in each step of a loop keeps it in the loop.\<close>

lemma fold_keeps: "(\<And>x d. P d \<Longrightarrow> P (f x d)) \<Longrightarrow> P d \<Longrightarrow> P (fold f xs d)"
  by (induction xs arbitrary: d) auto

lemma dom_hinsert: "dom (\<lambda>k'. if k' = k then Some v else f k') = insert k (dom f)" "dom (hget (hinsert k v m)) = insert k (dom (hget m))"
  by (auto simp: dom_def split: if_splits)

lemma dom_hremove: "dom (hget (hremove k m)) = dom (hget m) - {k}"
  by (auto simp: dom_def delete_conv' split: if_splits)

lemmas participant_simps = detection_ok_def effective_participant_cap_def dom_hinsert dom_hremove

lemma unboot_keeps:
  "detection_ok d \<Longrightarrow>
    detection_ok (d\<lparr>ds_booted_at := hremove pid (ds_booted_at d), ds_booted_participants := ds_booted_participants d - {pid}\<rparr>)"
  by (auto simp: participant_simps)

lemma prune_booted_keeps: "detection_ok d \<Longrightarrow> detection_ok (prune_booted clock d)"
  unfolding prune_booted_def Let_def by (rule fold_keeps) (rule unboot_keeps)

lemma deactivate_card:
  "detection_ok d \<Longrightarrow> card (ds_active_participants d - {pid}) \<le> effective_participant_cap d"
  using card_Diff1_le [of "ds_active_participants d" pid] by (simp add: detection_ok_def)

lemma enforce_boot_cap_keeps:
  assumes "detection_ok d"
  shows "detection_ok (enforce_boot_cap d)"
proof -
  have "detection_ok (fold (\<lambda>pid d. d\<lparr>ds_booted_participants := ds_booted_participants d - {pid},
      ds_booted_at := hremove pid (ds_booted_at d)\<rparr>) pids d)" for pids
    using assms
    by (rule fold_keeps [where P = detection_ok, rotated])
      (drule unboot_keeps, simp add: detection_ok_def effective_participant_cap_def)
  with assms show ?thesis by (simp add: enforce_boot_cap_def Let_def)
qed

lemma boot_one_keeps:
  assumes "detection_ok d"
  shows "detection_ok (d\<lparr>ds_active_participants := ds_active_participants d - {pid},
      ds_last_active := hremove pid (ds_last_active d), ds_validator_stakes := hremove pid (ds_validator_stakes d),
      ds_booted_participants := insert pid (ds_booted_participants d), ds_booted_at := hinsert pid now (ds_booted_at d)\<rparr>)"
proof -
  have "(ds_active_participants d - {pid}) \<inter> insert pid (ds_booted_participants d) = {}"
    using assms by (auto simp: detection_ok_def)
  then show ?thesis
    using assms deactivate_card [OF assms, of pid]
    by (simp add: detection_ok_def effective_participant_cap_def dom_hinsert dom_hremove)
qed

lemma boot_keeps: "detection_ok d \<Longrightarrow> detection_ok (boot_inactive_participants clocks max_inactive d)"
  unfolding boot_inactive_participants_def Let_def
  by (rule enforce_boot_cap_keeps, rule fold_keeps, rule boot_one_keeps, assumption, rule prune_booted_keeps)

lemma activate_keeps:
  assumes d: "detection_ok d" and new: "w \<notin> ds_active_participants d" "w \<notin> ds_booted_participants d"
    and room: "\<not> effective_participant_cap d \<le> card (ds_active_participants d)"
  shows "detection_ok (d\<lparr>ds_active_participants := insert w (ds_active_participants d), ds_last_active := hinsert w now (ds_last_active d)\<rparr>)"
    and "detection_ok (d\<lparr>ds_active_participants := insert w (ds_active_participants d) - {w},
      ds_last_active := hremove w (hinsert w now (ds_last_active d))\<rparr>)"
proof -
  have fin: "finite (ds_active_participants d)" using detection_ok_finite [OF d] by simp
  then have "card (insert w (ds_active_participants d)) \<le> effective_participant_cap d" using new(1) room by simp
  moreover have "insert w (ds_active_participants d) \<inter> ds_booted_participants d = {}"
    using d new(2) by (auto simp: detection_ok_def)
  ultimately show "detection_ok (d\<lparr>ds_active_participants := insert w (ds_active_participants d),
      ds_last_active := hinsert w now (ds_last_active d)\<rparr>)"
    using d by (simp add: detection_ok_def effective_participant_cap_def dom_hinsert)
  have "insert w (ds_active_participants d) - {w} = ds_active_participants d" using new(1) by auto
  then show "detection_ok (d\<lparr>ds_active_participants := insert w (ds_active_participants d) - {w},
      ds_last_active := hremove w (hinsert w now (ds_last_active d))\<rparr>)"
    using d by (simp add: detection_ok_def effective_participant_cap_def dom_hinsert dom_hremove)
qed

lemma participant_add_keeps:
  assumes "detection_ok d"
  shows "detection_ok (snd (add_participant clocks pid d))"
  using prune_booted_keeps [OF assms, of "fst clocks"] activate_keeps [of "prune_booted (fst clocks) d"]
  by (simp add: add_participant_def Let_def split: sum.splits)

lemma participant_remove_keeps: "detection_ok d \<Longrightarrow> detection_ok (snd (remove_participant pid d))"
  using deactivate_card [of d] by (auto simp: remove_participant_def participant_simps split: sum.splits)

lemma update_keeps: "detection_ok d \<Longrightarrow> detection_ok (snd (update_participant_activity clock pid d))"
  by (simp add: update_participant_activity_def participant_simps insert_absorb split: sum.splits)

inductive detection_reachable :: "DetectionSystem \<Rightarrow> bool" where
  start: "detection_reachable detection_new"
| join: "detection_reachable d \<Longrightarrow> detection_reachable (snd (add_participant clocks pid d))"
| leave: "detection_reachable d \<Longrightarrow> detection_reachable (snd (remove_participant pid d))"
| beat: "detection_reachable d \<Longrightarrow> detection_reachable (snd (update_participant_activity clock pid d))"
| boot: "detection_reachable d \<Longrightarrow> detection_reachable (boot_inactive_participants clocks max_inactive d)"

lemma detection_reachable_ok: "detection_reachable d \<Longrightarrow> detection_ok d"
  by (induction rule: detection_reachable.induct)
    (simp_all add: detection_new_ok participant_add_keeps participant_remove_keeps update_keeps boot_keeps)

text \<open>A wallet is one byte longer than the bound on participant ids, so no canonical wallet ever joins.\<close>

lemma wallet_never_participant:
  assumes "canonical_wallet w"
  shows "add_participant clocks w d =
    (Inl (ValidationError ''Participant id exceeds MAX_PEER_ID_B58_LEN''), prune_booted (fst clocks) d)"
  using assms
  by (simp add: add_participant_def Let_def canon_id_def canonical_wallet_facts canonical_not_Nil cfg_defs)

section \<open>What the scans decide\<close>

lemma double_spend_loop_iff:
  "detect_double_spend_loop seen count ids = Inr () \<longleftrightarrow>
    distinct ids \<and> set ids \<inter> seen = {} \<and> (ids = [] \<or> count + length ids \<le> MAX_TXS_PER_BLOCK)"
proof (induction ids arbitrary: seen count)
  case (Cons tx ids)
  have s: "saturating_add 64 count (Suc 0) = Suc count \<or>
      saturating_add 64 count (Suc 0) > MAX_TXS_PER_BLOCK \<and> Suc count > MAX_TXS_PER_BLOCK"
    by (auto simp: saturating_add_def cfg_defs)
  show ?case
  proof (cases "saturating_add 64 count (Suc 0) > MAX_TXS_PER_BLOCK")
    case True
    with s show ?thesis by (auto simp: Let_def)
  next
    case False
    with s have e: "saturating_add 64 count (Suc 0) = Suc count" by blast
    with False show ?thesis by (auto simp: Let_def e Cons.IH)
  qed
qed simp

text \<open>The double-spend scan accepts exactly the lists without repetition that fit a block.\<close>

lemma detect_double_spend_iff:
  "detect_double_spend ids = Inr () \<longleftrightarrow> distinct ids \<and> length ids \<le> MAX_TXS_PER_BLOCK"
  by (auto simp: detect_double_spend_def double_spend_loop_iff)

lemma sybil_loop_sound:
  "detect_sybil_loop ids count nodes = Inr () \<Longrightarrow>
    \<exists>cs. traverseR canon_id (map fst nodes) = Inr cs \<and> distinct cs \<and> set cs \<inter> ids = {}"
  by (induction ids count nodes rule: detect_sybil_loop.induct)
    (fastforce simp: Let_def res_simps split: if_splits)+

text \<open>An accepted node list has distinct ids, whatever their spelling.\<close>

lemma detect_sybil_sound:
  "detect_sybil_attack nodes = Inr () \<Longrightarrow> \<exists>cs. traverseR canon_id (map fst nodes) = Inr cs \<and> distinct cs"
  using sybil_loop_sound [of "{}" 0 nodes] by (auto simp: detect_sybil_attack_def)

section \<open>Properties\<close>

text \<open>The detection system never reports a critical state: whatever participants join, leave, send heartbeats or are
  booted, the active set stays within the limit and apart from the booted ones, and the report is a warning exactly when no
  participant is active.\<close>

theorem detection_never_critical:
  assumes "detection_reachable d"
  shows "validate_system_state d =
    Inr (if ds_active_participants d = {} then OutcomeWarning ''No active validators in the set'' else OutcomeOk)"
  using detection_reachable_ok [OF assms]
  by (auto simp: validate_system_state_def detection_ok_def)

theorem detection_never_critical_witness:
  "validate_system_state (boot_inactive_participants (2000000000, 2000000000) 60
      (snd (add_participant (1700000000, 1700000000) (lit ''peer'') detection_new))) =
    Inr (if ds_active_participants (boot_inactive_participants (2000000000, 2000000000) 60
      (snd (add_participant (1700000000, 1700000000) (lit ''peer'') detection_new))) = {}
      then OutcomeWarning ''No active validators in the set'' else OutcomeOk)"
  by (rule detection_never_critical) (intro detection_reachable.intros)

end
