(* ===== verification/Mempool.thy ===== *)
theory Mempool
  imports Storage Detection
begin

text \<open>
  The mempool (\<open>src/blockchain/mempool.rs\<close>): admission of transactions with a byte counter and an index by
  hash, selection for a block, removal. Its state is the database, reached through the manager; the replay
  check is \<open>detect_replay\<close> of \<open>src/utility/alpha_003_detection_system.rs\<close>. The clocks and the random number of a
  storage key are arguments, and so is the postcard codec of a \<open>u64\<close>.
\<close>

definition TX_TO_HASH_COLUMN_NAME :: string where "TX_TO_HASH_COLUMN_NAME = ''txhash_data''"

record PoolExt =
  px :: Ext
  pc_u64 :: "nat \<Rightarrow> string + byte list"
  pc_u64_from :: "byte list \<Rightarrow> string + nat"

definition MEMPOOL_BYTES_KEY :: "byte list" where
  "MEMPOOL_BYTES_KEY = str_bytes (lit ''__mempool_bytes_used_v1'')"

definition max_batch_txs :: nat where
  "max_batch_txs = min MAX_TXS_PER_BLOCK MAX_BATCH_ITEMS"

definition batch_budget_bytes :: nat where
  "batch_budget_bytes = saturating_sub MAX_BLOCK_SIZE BLOCK_OVERHEAD_RESERVE"

definition canonical_txkind_bytes :: "Ext \<Rightarrow> TxKind \<Rightarrow> byte list result" where
  "canonical_txkind_bytes E kind = map_err SerializationError (pc_kind E kind)"

definition validate_txkind_for_mempool :: "int \<Rightarrow> TxKind \<Rightarrow> unit result" where
  "validate_txkind_for_mempool clock kind =
     bindR (kind_validate kind) (\<lambda>_.
     (case kind of
        Transfer tx \<Rightarrow> tx_validate_for_mempool clock tx
      | RegisterNode tx \<Rightarrow> reg_validate_for_mempool clock tx
      | Reward tx \<Rightarrow> rew_validate_for_runtime clock tx
      | _ \<Rightarrow> Inr ()))"

definition read_mempool_bytes_used :: "'db Engine \<Rightarrow> PoolExt \<Rightarrow> 'db \<Rightarrow> nat option result" where
  "read_mempool_bytes_used G P db =
     bindR (map_err (\<lambda>_. StorageError ''Failed to read mempool bytes counter'')
              (en_get G db TRANSACTION_COLUMN_NAME MEMPOOL_BYTES_KEY)) (\<lambda>bytes.
     (case bytes of
        None \<Rightarrow> Inr None
      | Some v \<Rightarrow>
          bindR (map_err (\<lambda>_. SerializationError ''Failed to decode mempool bytes counter'') (pc_u64_from P v)) (\<lambda>used.
          Inr (Some used))))"

definition recompute_mempool_bytes_used :: "'db Engine \<Rightarrow> 'db \<Rightarrow> nat result" where
  "recompute_mempool_bytes_used G db =
     foldR (\<lambda>total (k, v).
         if k = MEMPOOL_BYTES_KEY then Inr total
         else ok_or (ValidationError ''Overflow while recomputing mempool byte usage'') (checked_add 64 total (length v)))
       0 (en_scan G db TRANSACTION_COLUMN_NAME)"

definition current_buffer :: "'db Engine \<Rightarrow> PoolExt \<Rightarrow> 'db \<Rightarrow> nat result" where
  "current_buffer G P db =
     bindR (read_mempool_bytes_used G P db) (\<lambda>used.
     (case used of Some v \<Rightarrow> Inr v | None \<Rightarrow> recompute_mempool_bytes_used G db))"

definition check_entry_size_bound :: "nat \<Rightarrow> unit result" where
  "check_entry_size_bound len =
     (if len > MAX_ITEM_BYTES then Inl (ValidationError ''Mempool entry too large'') else Inr ())"

section \<open>Replay detection\<close>

text \<open>The transfer an entry of the transaction column holds, if it can be read.\<close>

definition entry_transfer :: "Ext \<Rightarrow> byte list \<times> byte list \<Rightarrow> Transaction option" where
  "entry_transfer E e =
     (case e of (k, v) \<Rightarrow>
        if k = MEMPOOL_BYTES_KEY then None
        else if length v > MAX_ITEM_BYTES then None
        else (case kind_deserialize E v of Inr (Transfer tx) \<Rightarrow> Some tx | _ \<Rightarrow> None))"

definition collect_existing_id_sig_pairs :: "'db Engine \<Rightarrow> PoolExt \<Rightarrow> 'db RockDBManager \<Rightarrow> (rstr \<times> byte list) list result" where
  "collect_existing_id_sig_pairs G P mg =
     bindR (open_db_blockchain mg) (\<lambda>db.
     bindR (column G db TRANSACTION_COLUMN_NAME) (\<lambda>_.
     traverseR (\<lambda>tx. bindR (tx_id (px P) tx) (\<lambda>i. Inr (i, [])))
       (List.map_filter (entry_transfer (px P)) (en_scan G db TRANSACTION_COLUMN_NAME))))"

definition generate_unique_key :: "int \<Rightarrow> nat \<Rightarrow> rstr result" where
  "generate_unique_key clock_ms rand_suffix =
     bindR (now_unix_millis_runtime clock_ms) (\<lambda>now_millis.
     bindR (ok_or (TimestampError ''Failed to generate mempool key timestamp'') (checked_mul 64 now_millis 1000)) (\<lambda>now_microsish.
     Inr (lit ''tx_'' @ decimal now_microsish @ lit ''_'' @ decimal rand_suffix)))"

section \<open>Admission\<close>

definition check_replay :: "'db Engine \<Rightarrow> PoolExt \<Rightarrow> TxKind \<Rightarrow> 'db RockDBManager \<Rightarrow> unit result" where
  "check_replay G P kind mg =
     (case kind of
        Transfer tx \<Rightarrow>
          bindR (tx_id (px P) tx) (\<lambda>i.
          bindR (collect_existing_id_sig_pairs G P mg) (\<lambda>existing_pairs.
          detect_replay (existing_pairs @ [(i, [])])))
      | _ \<Rightarrow> Inr ())"

text \<open>Everything before the write: the three puts of the write batch.\<close>

definition admit :: "'db Engine \<Rightarrow> PoolExt \<Rightarrow> int \<Rightarrow> int \<Rightarrow> nat \<Rightarrow> TxKind \<Rightarrow> 'db RockDBManager \<Rightarrow> WriteOp list result" where
  "admit G P clock clock_ms rand_suffix kind mg =
     bindR (validate_txkind_for_mempool clock kind) (\<lambda>_.
     bindR (canonical_txkind_bytes (px P) kind) (\<lambda>serialized.
     bindR (check_entry_size_bound (length serialized)) (\<lambda>_.
     if length serialized > batch_budget_bytes then
       bindR (case kind of Transfer tx \<Rightarrow> bindR (tx_id (px P) tx) (\<lambda>i. Inr (Some i)) | _ \<Rightarrow> Inr None) (\<lambda>_.
       Inl (ValidationError ''Transaction too large to ever fit''))
     else
       bindR (open_db_blockchain mg) (\<lambda>db.
       bindR (column G db TRANSACTION_COLUMN_NAME) (\<lambda>_.
       bindR (current_buffer G P db) (\<lambda>current.
       bindR (ok_or (ValidationError ''Overflow while computing mempool capacity'')
                (checked_add 64 current (length serialized))) (\<lambda>new_total.
       if new_total > TRANSACTION_BUFFER_LIMIT then Inl (ValidationError ''Mempool full'')
       else
         bindR (check_replay G P kind mg) (\<lambda>_.
         bindR (generate_unique_key clock_ms rand_suffix) (\<lambda>timestamp_key.
         bindR (column G db TX_TO_HASH_COLUMN_NAME) (\<lambda>_.
         let h = compute_bytes_hash (px P) serialized in
         bindR (map_err (\<lambda>_. StorageError ''Failed to check existing tx hash'') (en_get G db TX_TO_HASH_COLUMN_NAME h)) (\<lambda>existing.
         if existing \<noteq> None then
           bindR (case kind of Transfer tx \<Rightarrow> bindR (tx_id (px P) tx) (\<lambda>i. Inr (Some i)) | _ \<Rightarrow> Inr None) (\<lambda>_.
           Inl (ValidationError ''Duplicate transaction (hash already in mempool)''))
         else
           bindR (map_err (\<lambda>_. SerializationError ''Failed to encode mempool bytes counter'') (pc_u64 P new_total)) (\<lambda>counter_bytes.
           Inr [PutOp TRANSACTION_COLUMN_NAME (str_bytes timestamp_key) serialized,
                PutOp TX_TO_HASH_COLUMN_NAME h serialized,
                PutOp TRANSACTION_COLUMN_NAME MEMPOOL_BYTES_KEY counter_bytes]))))))))))))"

definition add_tx_kind :: "'db Engine \<Rightarrow> PoolExt \<Rightarrow> int \<Rightarrow> int \<Rightarrow> nat \<Rightarrow> TxKind \<Rightarrow> ('db RockDBManager, unit) sm" where
  "add_tx_kind G P clock clock_ms rand_suffix kind =
     bindS (readS (admit G P clock clock_ms rand_suffix kind)) (\<lambda>ops. bc_write G TRANSACTION_COLUMN_NAME ops)"

definition add_transaction :: "'db Engine \<Rightarrow> PoolExt \<Rightarrow> int \<Rightarrow> int \<Rightarrow> nat \<Rightarrow> Transaction \<Rightarrow> ('db RockDBManager, unit) sm" where
  "add_transaction G P clock clock_ms rand_suffix tx = add_tx_kind G P clock clock_ms rand_suffix (Transfer tx)"

section \<open>Selection\<close>

fun fetch_loop ::
    "Ext \<Rightarrow> int \<Rightarrow> (byte list \<times> TxKind) list \<Rightarrow> nat \<Rightarrow> (byte list \<times> byte list) list \<Rightarrow> (byte list \<times> TxKind) list result" where
  "fetch_loop E clock entries used [] = Inr entries"
| "fetch_loop E clock entries used ((key, val) # items) =
     (if key = MEMPOOL_BYTES_KEY then fetch_loop E clock entries used items
      else
        bindR (check_entry_size_bound (length val)) (\<lambda>_.
        (case kind_deserialize E val of
           Inl _ \<Rightarrow> fetch_loop E clock entries used items
         | Inr kind \<Rightarrow>
             (case validate_txkind_for_mempool clock kind of
                Inl _ \<Rightarrow> fetch_loop E clock entries used items
              | Inr _ \<Rightarrow>
                  (case canonical_txkind_bytes E kind of
                     Inl _ \<Rightarrow> fetch_loop E clock entries used items
                   | Inr canonical_bytes \<Rightarrow>
                       (let size = length canonical_bytes in
                        if size > batch_budget_bytes then fetch_loop E clock entries used items
                        else if saturating_add 64 used size > batch_budget_bytes then fetch_loop E clock entries used items
                        else if length entries \<ge> max_batch_txs then Inr entries
                        else fetch_loop E clock (entries @ [(key, kind)]) (saturating_add 64 used size) items))))))"

definition fetch_transactions_for_block ::
    "'db Engine \<Rightarrow> PoolExt \<Rightarrow> int \<Rightarrow> 'db RockDBManager \<Rightarrow> (byte list \<times> TxKind) list result" where
  "fetch_transactions_for_block G P clock mg =
     bindR (open_db_blockchain mg) (\<lambda>db.
     bindR (column G db TRANSACTION_COLUMN_NAME) (\<lambda>_.
     fetch_loop (px P) clock [] 0 (en_scan G db TRANSACTION_COLUMN_NAME)))"

section \<open>Removal\<close>

fun remove_loop :: "'db Engine \<Rightarrow> PoolExt \<Rightarrow> 'db \<Rightarrow> nat \<Rightarrow> WriteOp list \<Rightarrow> byte list list \<Rightarrow> nat \<times> WriteOp list" where
  "remove_loop G P db new_buffer batch [] = (new_buffer, batch)"
| "remove_loop G P db new_buffer batch (key # keys) =
     (if key = MEMPOOL_BYTES_KEY then remove_loop G P db new_buffer batch keys
      else
        (case en_get G db TRANSACTION_COLUMN_NAME key of
           Inr (Some val) \<Rightarrow>
             remove_loop G P db (saturating_sub new_buffer (length val))
               (batch @ [DeleteOp TX_TO_HASH_COLUMN_NAME (compute_bytes_hash (px P) val), DeleteOp TRANSACTION_COLUMN_NAME key]) keys
         | _ \<Rightarrow> remove_loop G P db new_buffer (batch @ [DeleteOp TRANSACTION_COLUMN_NAME key]) keys))"

text \<open>The counter put that ends the write batch of a removal.\<close>

definition with_counter :: "PoolExt \<Rightarrow> nat \<times> WriteOp list \<Rightarrow> WriteOp list result" where
  "with_counter P r =
     (case r of (new_buffer, batch) \<Rightarrow>
        bindR (map_err (\<lambda>_. SerializationError ''Failed to encode mempool bytes counter'') (pc_u64 P new_buffer)) (\<lambda>counter_bytes.
        Inr (batch @ [PutOp TRANSACTION_COLUMN_NAME MEMPOOL_BYTES_KEY counter_bytes])))"

definition removal_of_keys :: "'db Engine \<Rightarrow> PoolExt \<Rightarrow> byte list list \<Rightarrow> 'db RockDBManager \<Rightarrow> WriteOp list result" where
  "removal_of_keys G P tx_keys mg =
     bindR (open_db_blockchain mg) (\<lambda>db.
     bindR (column G db TRANSACTION_COLUMN_NAME) (\<lambda>_.
     bindR (column G db TX_TO_HASH_COLUMN_NAME) (\<lambda>_.
     bindR (current_buffer G P db) (\<lambda>current.
     with_counter P (remove_loop G P db current [] tx_keys)))))"

definition remove_transactions :: "'db Engine \<Rightarrow> PoolExt \<Rightarrow> byte list list \<Rightarrow> ('db RockDBManager, unit) sm" where
  "remove_transactions G P tx_keys =
     bindS (readS (removal_of_keys G P tx_keys)) (\<lambda>ops. bc_write G TRANSACTION_COLUMN_NAME ops)"

fun prune_loop :: "PoolExt \<Rightarrow> hash set \<Rightarrow> nat \<Rightarrow> WriteOp list \<Rightarrow> (byte list \<times> byte list) list \<Rightarrow> nat \<times> WriteOp list" where
  "prune_loop P wanted new_buffer wb [] = (new_buffer, wb)"
| "prune_loop P wanted new_buffer wb ((key, val) # items) =
     (if key = MEMPOOL_BYTES_KEY then prune_loop P wanted new_buffer wb items
      else
        (let h = compute_bytes_hash (px P) val in
         if h \<in> wanted then
           prune_loop P wanted (saturating_sub new_buffer (length val))
             (wb @ [DeleteOp TRANSACTION_COLUMN_NAME key, DeleteOp TX_TO_HASH_COLUMN_NAME h]) items
         else prune_loop P wanted new_buffer wb items))"

definition wanted_hashes :: "PoolExt \<Rightarrow> TransactionBatch \<Rightarrow> hash set result" where
  "wanted_hashes P batch =
     bindR (traverseR (canonical_txkind_bytes (px P)) (b_transactions batch)) (\<lambda>bs.
     Inr (compute_bytes_hash (px P) ` set bs))"

definition removal_of_batch :: "'db Engine \<Rightarrow> PoolExt \<Rightarrow> hash set \<Rightarrow> 'db RockDBManager \<Rightarrow> WriteOp list result" where
  "removal_of_batch G P wanted mg =
     bindR (open_db_blockchain mg) (\<lambda>db.
     bindR (column G db TRANSACTION_COLUMN_NAME) (\<lambda>_.
     bindR (column G db TX_TO_HASH_COLUMN_NAME) (\<lambda>_.
     bindR (current_buffer G P db) (\<lambda>current.
     with_counter P (prune_loop P wanted current [] (en_scan G db TRANSACTION_COLUMN_NAME))))))"

definition remove_transactions_in_batch :: "'db Engine \<Rightarrow> PoolExt \<Rightarrow> TransactionBatch \<Rightarrow> ('db RockDBManager, unit) sm" where
  "remove_transactions_in_batch G P batch =
     bindS (readS (\<lambda>_. wanted_hashes P batch)) (\<lambda>wanted.
     if wanted = {} then returnS ()
     else
       bindS (readS (removal_of_batch G P wanted)) (\<lambda>ops. bc_write G TRANSACTION_COLUMN_NAME ops))"

section \<open>Queries\<close>

definition get_transaction :: "'db Engine \<Rightarrow> PoolExt \<Rightarrow> hash \<Rightarrow> 'db RockDBManager \<Rightarrow> Transaction option result" where
  "get_transaction G P h mg =
     bindR (open_db_blockchain mg) (\<lambda>db.
     bindR (column G db TX_TO_HASH_COLUMN_NAME) (\<lambda>_.
     bindR (map_err (\<lambda>_. StorageError ''Error accessing transaction by hash'') (en_get G db TX_TO_HASH_COLUMN_NAME h)) (\<lambda>bytes.
     (case bytes of
        None \<Rightarrow> Inr None
      | Some val \<Rightarrow>
          bindR (check_entry_size_bound (length val)) (\<lambda>_.
          (case kind_deserialize (px P) val of
             Inr (Transfer tx) \<Rightarrow> Inr (Some tx)
           | Inr _ \<Rightarrow> Inr None
           | Inl _ \<Rightarrow> Inl (SerializationError ''Deserialize TxKind failed'')))))))"

definition mempool_size :: "'db Engine \<Rightarrow> 'db RockDBManager \<Rightarrow> nat result" where
  "mempool_size G mg =
     bindR (open_db_blockchain mg) (\<lambda>db.
     bindR (column G db TRANSACTION_COLUMN_NAME) (\<lambda>_.
     Inr (length (filter (\<lambda>(k, _). k \<noteq> MEMPOOL_BYTES_KEY) (en_scan G db TRANSACTION_COLUMN_NAME)))))"

end
