(* ===== verification/MempoolProps.thy ===== *)
theory MempoolProps
  imports Mempool ReorgBatches OrdMap "HOL-Library.Sublist"
begin

text \<open>
  The books of the mempool: the byte counter is exact, the pool stays within its limit, the hash index lists
  exactly the pooled entries and no two of them have the same hash; and what the selection for a block gives.
\<close>

section \<open>The contents of the pool\<close>

abbreviation TXC :: string where "TXC \<equiv> TRANSACTION_COLUMN_NAME"
abbreviation HXC :: string where "HXC \<equiv> TX_TO_HASH_COLUMN_NAME"

lemma pool_columns [simp]: "TXC \<noteq> HXC" "HXC \<noteq> TXC"
  by (simp_all add: TRANSACTION_COLUMN_NAME_def TX_TO_HASH_COLUMN_NAME_def)

text \<open>Iteration over a column gives its contents, each key once.\<close>

definition scan_ok :: "'db Engine \<Rightarrow> ('db \<Rightarrow> kv_view) \<Rightarrow> bool" where
  "scan_ok G view \<longleftrightarrow> (\<forall>db cf. distinct (map fst (en_scan G db cf)) \<and> map_of (en_scan G db cf) = view db cf)"

definition u64_codec_ok :: "PoolExt \<Rightarrow> bool" where
  "u64_codec_ok P \<longleftrightarrow> (\<forall>n b. pc_u64 P n = Inr b \<longrightarrow> pc_u64_from P b = Inr n)"

definition pool_keys :: "kv_view \<Rightarrow> byte list set" where
  "pool_keys w = {k. k \<noteq> MEMPOOL_BYTES_KEY \<and> w TXC k \<noteq> None}"

definition pool_value :: "kv_view \<Rightarrow> byte list \<Rightarrow> byte list" where
  "pool_value w k = (case w TXC k of Some v \<Rightarrow> v | None \<Rightarrow> [])"

definition pool_bytes :: "kv_view \<Rightarrow> nat" where
  "pool_bytes w = (\<Sum>k\<in>pool_keys w. length (pool_value w k))"

definition entry_hash :: "PoolExt \<Rightarrow> kv_view \<Rightarrow> byte list \<Rightarrow> hash" where
  "entry_hash P w k = compute_bytes_hash (px P) (pool_value w k)"

definition pool_ok :: "PoolExt \<Rightarrow> kv_view \<Rightarrow> bool" where
  "pool_ok P w \<longleftrightarrow>
     finite (pool_keys w) \<and> pool_bytes w \<le> TRANSACTION_BUFFER_LIMIT \<and>
     (\<forall>c. w TXC MEMPOOL_BYTES_KEY = Some c \<longrightarrow> pc_u64_from P c = Inr (pool_bytes w)) \<and>
     inj_on (entry_hash P w) (pool_keys w) \<and>
     (\<forall>h b. w HXC h = Some b \<longleftrightarrow> (\<exists>k\<in>pool_keys w. w TXC k = Some b \<and> h = entry_hash P w k))"

lemma pool_value_eq: "w TXC k = Some v \<Longrightarrow> pool_value w k = v"
  by (simp add: pool_value_def)

section \<open>The counter\<close>

lemma recompute_sum:
  assumes "foldR (\<lambda>tot (k, v). if k = MEMPOOL_BYTES_KEY then Inr tot else ok_or e (checked_add 64 tot (length v))) n xs = Inr m"
  shows "m = n + (\<Sum>(k, v)\<leftarrow>filter (\<lambda>(k, v). k \<noteq> MEMPOOL_BYTES_KEY) xs. length v)"
  using assms
proof (induction xs arbitrary: n)
  case (Cons x xs)
  obtain k v where x: "x = (k, v)" by (cases x)
  show ?case
  proof (cases "k = MEMPOOL_BYTES_KEY")
    case False
    then have "foldR (\<lambda>tot (k, v). if k = MEMPOOL_BYTES_KEY then Inr tot else ok_or e (checked_add 64 tot (length v))) (n + length v) xs = Inr m"
      using Cons.prems by (auto simp: x res_simps checked_add_Some_iff)
    from Cons.IH [OF this] show ?thesis using False by (simp add: x)
  qed (use Cons x in simp)
qed simp

lemma current_buffer_exact:
  assumes ok: "engine_ok G view" and sc: "scan_ok G view" and p: "pool_ok P (view db)" and c: "current_buffer G P db = Inr n"
  shows "n = pool_bytes (view db)"
proof (cases "view db TXC MEMPOOL_BYTES_KEY")
  case (Some v)
  then show ?thesis
    using c p engine_okD(1) [OF ok] by (fastforce simp: current_buffer_def read_mempool_bytes_used_def res_simps pool_ok_def split: option.splits)
next
  case None
  let ?es = "filter (\<lambda>(k, v). k \<noteq> MEMPOOL_BYTES_KEY) (en_scan G db TXC)"
  have d: "distinct (map fst (en_scan G db TXC))" and m: "map_of (en_scan G db TXC) = view db TXC"
    using sc by (auto simp: scan_ok_def)
  have r: "recompute_mempool_bytes_used G db = Inr n"
    using c None engine_okD(1) [OF ok] by (fastforce simp: current_buffer_def read_mempool_bytes_used_def res_simps split: option.splits)
  have "n = (\<Sum>(k, v)\<leftarrow>?es. length v)"
    using recompute_sum [OF r [unfolded recompute_mempool_bytes_used_def]] by simp
  also have "\<dots> = (\<Sum>e\<in>set ?es. length (snd e))"
    using distinct_map_filter [OF d] by (subst sum_list_distinct_conv_sum_set) (auto simp: distinct_map case_prod_beta')
  also have "\<dots> = pool_bytes (view db)"
    unfolding pool_bytes_def
  proof (rule sum.reindex_bij_witness [where i = "\<lambda>k. (k, pool_value (view db) k)" and j = fst])
    fix e assume "e \<in> set ?es"
    then have e: "view db TXC (fst e) = Some (snd e)" "fst e \<noteq> MEMPOOL_BYTES_KEY"
      using d m by (auto simp flip: m)
    then show "(fst e, pool_value (view db) (fst e)) = e" "fst e \<in> pool_keys (view db)" "length (pool_value (view db) (fst e)) = length (snd e)"
      by (auto simp: pool_value_def pool_keys_def)
  next
    fix k assume "k \<in> pool_keys (view db)"
    then obtain v where "view db TXC k = Some v" "k \<noteq> MEMPOOL_BYTES_KEY" by (auto simp: pool_keys_def)
    then show "(k, pool_value (view db) k) \<in> set ?es" using m map_of_SomeD [of "en_scan G db TXC" k v] by (auto simp: pool_value_def)
  qed simp
  finally show ?thesis .
qed

section \<open>Admission\<close>

lemma key_prefix: "str_bytes (lit ''tx_'' @ s) \<noteq> MEMPOOL_BYTES_KEY"
  by (simp add: MEMPOOL_BYTES_KEY_def utf8_enc_def)

text \<open>Adding an entry under a new key and a new hash.\<close>

lemma pool_add:
  assumes p: "pool_ok P w" and k: "k \<noteq> MEMPOOL_BYTES_KEY" "w TXC k = None" and h: "w HXC (compute_bytes_hash (px P) v) = None"
    and l: "pool_bytes w + length v \<le> TRANSACTION_BUFFER_LIMIT" and c: "pc_u64_from P c = Inr (pool_bytes w + length v)"
    and w': "w' = fold apply_op [PutOp TXC k v, PutOp HXC (compute_bytes_hash (px P) v) v, PutOp TXC MEMPOOL_BYTES_KEY c] w"
  shows "pool_ok P w'" and "pool_bytes w' = pool_bytes w + length v"
proof -
  have t: "w' TXC x = (if x = MEMPOOL_BYTES_KEY then Some c else if x = k then Some v else w TXC x)" for x
    using k by (simp add: w')
  have hx: "w' HXC x = (if x = compute_bytes_hash (px P) v then Some v else w HXC x)" for x by (simp add: w')
  have nk: "k \<notin> pool_keys w" using k by (simp add: pool_keys_def)
  have ks: "pool_keys w' = insert k (pool_keys w)" using k by (auto simp: pool_keys_def t)
  have pv: "pool_value w' x = (if x = k then v else pool_value w x)" if "x \<noteq> MEMPOOL_BYTES_KEY" for x
    using that k by (simp add: pool_value_def t)
  have nm: "x \<noteq> MEMPOOL_BYTES_KEY" if "x \<in> pool_keys w" for x using that by (simp add: pool_keys_def)
  have fin: "finite (pool_keys w)" using p by (simp add: pool_ok_def)
  show b: "pool_bytes w' = pool_bytes w + length v"
    using nk fin nm by (simp add: pool_bytes_def ks pv k(1)) (intro sum.cong, auto simp: pv)
  have eh: "entry_hash P w' x = (if x = k then compute_bytes_hash (px P) v else entry_hash P w x)" if "x \<in> pool_keys w'" for x
    using that nm k(1) by (auto simp: entry_hash_def ks pv)
  have ne: "entry_hash P w x \<noteq> compute_bytes_hash (px P) v" if xk: "x \<in> pool_keys w" for x
  proof
    assume e: "entry_hash P w x = compute_bytes_hash (px P) v"
    obtain y where "w TXC x = Some y" using xk by (auto simp: pool_keys_def)
    then have "w HXC (entry_hash P w x) = Some y" using p xk by (auto simp: pool_ok_def)
    then show False using e h by simp
  qed
  have inj: "inj_on (entry_hash P w') (pool_keys w')"
    using p nk ne eh unfolding pool_ok_def inj_on_def ks by (metis insert_iff)
  have idx: "w' HXC x = Some y \<longleftrightarrow> (\<exists>z\<in>pool_keys w'. w' TXC z = Some y \<and> x = entry_hash P w' z)" for x y
  proof -
    have i: "w HXC x = Some y \<longleftrightarrow> (\<exists>z\<in>pool_keys w. w TXC z = Some y \<and> x = entry_hash P w z)"
      using p by (simp add: pool_ok_def)
    have t': "w' TXC z = w TXC z" "entry_hash P w' z = entry_hash P w z" if "z \<in> pool_keys w" for z
      using that nk nm [OF that] eh by (auto simp: t ks)
    have n: "w' TXC k = Some v" "entry_hash P w' k = compute_bytes_hash (px P) v" using k(1) eh by (simp_all add: t ks)
    have "(\<exists>z\<in>pool_keys w'. w' TXC z = Some y \<and> x = entry_hash P w' z) \<longleftrightarrow>
        y = v \<and> x = compute_bytes_hash (px P) v \<or> w HXC x = Some y" unfolding ks i using t' n by auto
    then show ?thesis using h by (auto simp: hx)
  qed
  show "pool_ok P w'" using fin b l inj idx c by (simp add: pool_ok_def ks t)
qed

section \<open>Removal\<close>

text \<open>Taking out a set of entries, with their hashes and their bytes.\<close>

lemma pool_remove:
  assumes p: "pool_ok P w" and R: "R \<subseteq> pool_keys w"
    and t: "\<And>k. k \<noteq> MEMPOOL_BYTES_KEY \<Longrightarrow> w' TXC k = (if k \<in> R then None else w TXC k)"
    and c: "w' TXC MEMPOOL_BYTES_KEY = Some c" "pc_u64_from P c = Inr (pool_bytes w - (\<Sum>k\<in>R. length (pool_value w k)))"
    and hx: "\<And>h. w' HXC h = (if h \<in> entry_hash P w ` R then None else w HXC h)"
  shows "pool_ok P w'"
proof -
  have fin: "finite (pool_keys w)" and inj: "inj_on (entry_hash P w) (pool_keys w)" using p by (simp_all add: pool_ok_def)
  have ks: "pool_keys w' = pool_keys w - R" using t by (auto simp: pool_keys_def split: if_splits)
  have v: "w' TXC k = w TXC k" "pool_value w' k = pool_value w k" "entry_hash P w' k = entry_hash P w k" if "k \<in> pool_keys w - R" for k
    using that t by (auto simp: pool_keys_def pool_value_def entry_hash_def)
  have b: "pool_bytes w' = pool_bytes w - (\<Sum>k\<in>R. length (pool_value w k))"
    unfolding pool_bytes_def ks using v by (subst sum_diff_nat [symmetric]) (auto intro: finite_subset [OF R fin] subsetD [OF R])
  have "inj_on (entry_hash P w') (pool_keys w')" unfolding ks using v(3) inj by (auto simp: inj_on_def)
  moreover have "w' HXC h = Some y \<longleftrightarrow> (\<exists>k\<in>pool_keys w'. w' TXC k = Some y \<and> h = entry_hash P w' k)" for h y
  proof -
    have "w HXC h = Some y \<longleftrightarrow> (\<exists>k\<in>pool_keys w. w TXC k = Some y \<and> h = entry_hash P w k)" using p by (simp add: pool_ok_def)
    moreover have "(\<exists>k\<in>pool_keys w'. w' TXC k = Some y \<and> h = entry_hash P w' k) \<longleftrightarrow>
        (\<exists>k\<in>pool_keys w - R. w TXC k = Some y \<and> h = entry_hash P w k)" unfolding ks using v(1,3) by auto
    moreover have "entry_hash P w x \<noteq> entry_hash P w k" if "x \<in> R" "k \<in> pool_keys w - R" for x k
      using inj R that unfolding inj_on_def by blast
    ultimately show ?thesis by (cases "h \<in> entry_hash P w ` R") (auto simp: hx)
  qed
  moreover have "pool_bytes w \<le> TRANSACTION_BUFFER_LIMIT" using p by (simp add: pool_ok_def)
  ultimately show ?thesis using fin c b by (auto simp: pool_ok_def ks)
qed

text \<open>What a list of deletions leaves of a view: \<open>removes w R A w'\<close> when the entries \<open>R\<close> of the pool, their
  hashes and the absent keys \<open>A\<close> have been deleted.\<close>

definition removes :: "PoolExt \<Rightarrow> kv_view \<Rightarrow> byte list set \<Rightarrow> kv_view \<Rightarrow> bool" where
  "removes P w R w' \<longleftrightarrow>
     (\<forall>k. w' TXC k = (if k \<in> R then None else w TXC k)) \<and> (\<forall>h. w' HXC h = (if h \<in> entry_hash P w ` R then None else w HXC h))"

lemma saturating_sum:
  "a + b \<le> n \<Longrightarrow> saturating_sub (n - a) b = n - (a + b)" for n a b :: nat
  by (simp add: saturating_sub_def)

lemma remove_loop_effect:
  assumes ok: "engine_ok G view" and "distinct keys" and "\<forall>k\<in>set keys. \<exists>r. en_get G db TXC k = Inr r"
    and "R \<subseteq> pool_keys (view db)" "R \<inter> set keys = {}" and "removes P (view db) R (fold apply_op ops (view db))"
    and "finite (pool_keys (view db))" and "n = pool_bytes (view db) - (\<Sum>k\<in>R. length (pool_value (view db) k))"
  shows "\<exists>R' ops'. remove_loop G P db n ops keys = (pool_bytes (view db) - (\<Sum>k\<in>R'. length (pool_value (view db) k)), ops') \<and>
    R' \<subseteq> pool_keys (view db) \<and> removes P (view db) R' (fold apply_op ops' (view db))"
  using assms(2-)
proof (induction keys arbitrary: n ops R)
  case Nil
  then show ?case by auto
next
  case (Cons k keys)
  show ?case
  proof (cases "k = MEMPOOL_BYTES_KEY")
    case True
    then show ?thesis using Cons.IH [of R ops n] Cons.prems by simp
  next
    case False
    obtain r where r: "en_get G db TXC k = Inr r" using Cons.prems(2) by auto
    then have rv: "r = view db TXC k" using engine_okD(1) [OF ok] by simp
    show ?thesis
    proof (cases r)
      case None
      have "removes P (view db) R (fold apply_op (ops @ [DeleteOp TXC k]) (view db))"
        using Cons.prems(5) None rv by (auto simp: removes_def)
      then show ?thesis using Cons.IH [of R "ops @ [DeleteOp TXC k]" n] Cons.prems r None False by simp
    next
      case (Some v)
      have kp: "k \<in> pool_keys (view db)" using False Some rv by (simp add: pool_keys_def)
      have pv: "pool_value (view db) k = v" using Some rv by (simp add: pool_value_def)
      have kR: "k \<notin> R" using Cons.prems(4) by auto
      have fR: "finite R" by (rule finite_subset [OF Cons.prems(3,6)])
      let ?ops = "ops @ [DeleteOp HXC (compute_bytes_hash (px P) v), DeleteOp TXC k]"
      have s: "(\<Sum>x\<in>insert k R. length (pool_value (view db) x)) = (\<Sum>x\<in>R. length (pool_value (view db) x)) + length v"
        using kR fR pv by simp
      have le: "(\<Sum>x\<in>insert k R. length (pool_value (view db) x)) \<le> pool_bytes (view db)"
        unfolding pool_bytes_def by (rule sum_mono2) (use Cons.prems(3,6) kp in auto)
      have "removes P (view db) (insert k R) (fold apply_op ?ops (view db))"
        using Cons.prems(5) pv by (auto simp: removes_def entry_hash_def)
      moreover have "saturating_sub n (length v) = pool_bytes (view db) - (\<Sum>x\<in>insert k R. length (pool_value (view db) x))"
        using saturating_sum [OF le [unfolded s]] Cons.prems(7) by (simp add: s)
      ultimately show ?thesis
        using Cons.IH [of "insert k R" ?ops "saturating_sub n (length v)"] Cons.prems kp r Some False by simp
    qed
  qed
qed

lemma prune_loop_effect:
  assumes "distinct (map fst items)" and "\<forall>(k, v)\<in>set items. w TXC k = Some v"
    and "R \<subseteq> pool_keys w" "R \<inter> fst ` set items = {}" and "removes P w R (fold apply_op ops w)"
    and "finite (pool_keys w)" and "n = pool_bytes w - (\<Sum>k\<in>R. length (pool_value w k))"
  shows "\<exists>R' ops'. prune_loop P wanted n ops items = (pool_bytes w - (\<Sum>k\<in>R'. length (pool_value w k)), ops') \<and>
    R' \<subseteq> pool_keys w \<and> removes P w R' (fold apply_op ops' w)"
  using assms
proof (induction items arbitrary: n ops R)
  case Nil
  then show ?case by auto
next
  case (Cons e items)
  obtain k v where e: "e = (k, v)" by (cases e)
  show ?case
  proof (cases "k = MEMPOOL_BYTES_KEY \<or> compute_bytes_hash (px P) v \<notin> wanted")
    case True
    then show ?thesis using Cons.IH [of R ops n] Cons.prems by (auto simp: e Let_def)
  next
    case False
    have kp: "k \<in> pool_keys w" and pv: "pool_value w k = v" using False Cons.prems(2) by (auto simp: pool_keys_def pool_value_def e)
    have kR: "k \<notin> R" using Cons.prems(4) by (auto simp: e)
    have fR: "finite R" by (rule finite_subset [OF Cons.prems(3,6)])
    let ?ops = "ops @ [DeleteOp TXC k, DeleteOp HXC (compute_bytes_hash (px P) v)]"
    have s: "(\<Sum>x\<in>insert k R. length (pool_value w x)) = (\<Sum>x\<in>R. length (pool_value w x)) + length v"
      using kR fR pv by simp
    have le: "(\<Sum>x\<in>insert k R. length (pool_value w x)) \<le> pool_bytes w"
      unfolding pool_bytes_def by (rule sum_mono2) (use Cons.prems(3,6) kp in auto)
    have "removes P w (insert k R) (fold apply_op ?ops w)"
      using Cons.prems(5) pv by (auto simp: removes_def entry_hash_def)
    moreover have "saturating_sub n (length v) = pool_bytes w - (\<Sum>x\<in>insert k R. length (pool_value w x))"
      using saturating_sum [OF le [unfolded s]] Cons.prems(7) by (simp add: s)
    ultimately show ?thesis
      using Cons.IH [of "insert k R" ?ops "saturating_sub n (length v)"] Cons.prems kp False by (auto simp: e Let_def)
  qed
qed

section \<open>The operations keep the books\<close>

lemma removal_keeps:
  assumes p: "pool_ok P w" and R: "R \<subseteq> pool_keys w" "removes P w R (fold apply_op ops w)" and u: "u64_codec_ok P"
    and c: "with_counter P (pool_bytes w - (\<Sum>k\<in>R. length (pool_value w k)), ops) = Inr ops'"
  shows "pool_ok P (fold apply_op ops' w)"
proof -
  obtain b where b: "pc_u64 P (pool_bytes w - (\<Sum>k\<in>R. length (pool_value w k))) = Inr b"
    and o: "ops' = ops @ [PutOp TXC MEMPOOL_BYTES_KEY b]"
    using c by (auto simp: with_counter_def res_simps)
  show ?thesis
    by (rule pool_remove [OF p R(1)]) (use R(2) b u in \<open>auto simp: o removes_def u64_codec_ok_def\<close>)
qed

text \<open>An operation that reads, then writes one batch: it is enough that the batch keeps the books.\<close>

lemma read_write_keeps:
  assumes ok: "engine_ok G view" and p: "pool_ok P (mview view mg)"
    and r: "bindS (readS f) (\<lambda>ops. bc_write G cf ops) mg = (r, mg')"
    and k: "\<And>db ops. mg_blockchain_handle mg = Some db \<Longrightarrow> f mg = Inr ops \<Longrightarrow> pool_ok P (fold apply_op ops (view db))"
  shows "pool_ok P (mview view mg')"
proof (cases "f mg")
  case (Inl e)
  then show ?thesis using r p by (simp add: bindS_def readS_def)
next
  case (Inr ops)
  then have w: "bc_write G cf ops mg = (r, mg')" using r by (simp add: bindS_def readS_def)
  show ?thesis
  proof (cases r)
    case (Inl e)
    then show ?thesis using bc_write_fail [OF ok] w p by simp
  next
    case (Inr u)
    then obtain db where "mg_blockchain_handle mg = Some db" using w by (cases "mg_blockchain_handle mg") (auto simp: bc_write_def open_db_blockchain_def)
    then show ?thesis using bc_write_view [OF ok] w Inr k \<open>f mg = Inr ops\<close> by (simp add: mview_def)
  qed
qed

lemma add_keeps:
  assumes ok: "engine_ok G view" and sc: "scan_ok G view" and u: "u64_codec_ok P" and p: "pool_ok P (mview view mg)"
    and fresh: "\<forall>key. generate_unique_key clock_ms rnd = Inr key \<longrightarrow> mview view mg TXC (str_bytes key) = None"
    and a: "add_tx_kind G P clock clock_ms rnd kind mg = (r, mg')"
  shows "pool_ok P (mview view mg')"
proof (rule read_write_keeps [OF ok p a [unfolded add_tx_kind_def]])
  fix db ops
  assume db: "mg_blockchain_handle mg = Some db" and ad: "admit G P clock clock_ms rnd kind mg = Inr ops"
  have p': "pool_ok P (view db)" using p by (simp add: mview_def db)
  obtain v n key c where cb: "current_buffer G P db = Inr n" and l: "n + length v \<le> TRANSACTION_BUFFER_LIMIT"
    and key: "generate_unique_key clock_ms rnd = Inr key"
    and h: "en_get G db HXC (compute_bytes_hash (px P) v) = Inr None" and c: "pc_u64 P (n + length v) = Inr c"
    and o: "ops = [PutOp TXC (str_bytes key) v, PutOp HXC (compute_bytes_hash (px P) v) v, PutOp TXC MEMPOOL_BYTES_KEY c]"
    using ad by (auto simp: admit_def res_simps open_Inr db Let_def checked_add_Some_iff split: if_splits)
  have n: "n = pool_bytes (view db)" by (rule current_buffer_exact [OF ok sc p' cb])
  obtain rest where "key = lit ''tx_'' @ rest" using key by (auto simp: generate_unique_key_def res_simps)
  then have "str_bytes key \<noteq> MEMPOOL_BYTES_KEY" using key_prefix by blast
  moreover have "view db TXC (str_bytes key) = None" using fresh key by (simp add: mview_def db)
  moreover have "view db HXC (compute_bytes_hash (px P) v) = None" using engine_okD(1) [OF ok h] by simp
  moreover have "pc_u64_from P c = Inr (pool_bytes (view db) + length v)" using c u n by (simp add: u64_codec_ok_def)
  ultimately show "pool_ok P (fold apply_op ops (view db))" using pool_add(1) [OF p'] l n o by blast
qed

lemma removes_refl: "removes P w {} (fold apply_op [] w)"
  by (simp add: removes_def)

lemma remove_keeps:
  assumes ok: "engine_ok G view" and sc: "scan_ok G view" and u: "u64_codec_ok P" and p: "pool_ok P (mview view mg)"
    and d: "distinct keys" and rd: "\<forall>db. mg_blockchain_handle mg = Some db \<longrightarrow> (\<forall>k\<in>set keys. \<exists>r. en_get G db TXC k = Inr r)"
    and a: "remove_transactions G P keys mg = (r, mg')"
  shows "pool_ok P (mview view mg')"
proof (rule read_write_keeps [OF ok p a [unfolded remove_transactions_def]])
  fix db ops
  assume db: "mg_blockchain_handle mg = Some db" and rm: "removal_of_keys G P keys mg = Inr ops"
  have p': "pool_ok P (view db)" using p by (simp add: mview_def db)
  then have fin: "finite (pool_keys (view db))" by (simp add: pool_ok_def)
  obtain n where cb: "current_buffer G P db = Inr n" and w: "with_counter P (remove_loop G P db n [] keys) = Inr ops"
    using rm by (auto simp: removal_of_keys_def res_simps open_Inr db)
  have n: "n = pool_bytes (view db)" by (rule current_buffer_exact [OF ok sc p' cb])
  obtain R ops' where l: "remove_loop G P db n [] keys = (pool_bytes (view db) - (\<Sum>k\<in>R. length (pool_value (view db) k)), ops')"
    and R: "R \<subseteq> pool_keys (view db)" "removes P (view db) R (fold apply_op ops' (view db))"
    using remove_loop_effect [OF ok d _ _ _ removes_refl fin, where P = P and n = n] rd db n by auto
  show "pool_ok P (fold apply_op ops (view db))" by (rule removal_keeps [OF p' R u w [unfolded l]])
qed

lemma prune_keeps:
  assumes ok: "engine_ok G view" and sc: "scan_ok G view" and u: "u64_codec_ok P" and p: "pool_ok P (mview view mg)"
    and a: "remove_transactions_in_batch G P batch mg = (r, mg')"
  shows "pool_ok P (mview view mg')"
proof (cases "\<exists>wanted. wanted_hashes P batch = Inr wanted \<and> wanted \<noteq> {}")
  case False
  then show ?thesis using a p
    by (cases "wanted_hashes P batch") (auto simp: remove_transactions_in_batch_def bindS_def readS_def returnS_def)
next
  case True
  then obtain wanted where wd: "wanted_hashes P batch = Inr wanted" "wanted \<noteq> {}" by blast
  have "bindS (readS (removal_of_batch G P wanted)) (\<lambda>ops. bc_write G TXC ops) mg = (r, mg')"
    using a wd unfolding remove_transactions_in_batch_def by (subst (asm) bindS_readS) simp
  then show ?thesis
  proof (rule read_write_keeps [OF ok p])
    fix db ops
    assume db: "mg_blockchain_handle mg = Some db" and rm: "removal_of_batch G P wanted mg = Inr ops"
    have p': "pool_ok P (view db)" using p by (simp add: mview_def db)
    then have fin: "finite (pool_keys (view db))" by (simp add: pool_ok_def)
    obtain n where cb: "current_buffer G P db = Inr n" and w: "with_counter P (prune_loop P wanted n [] (en_scan G db TXC)) = Inr ops"
      using rm by (auto simp: removal_of_batch_def res_simps open_Inr db)
    have n: "n = pool_bytes (view db)" by (rule current_buffer_exact [OF ok sc p' cb])
    have d: "distinct (map fst (en_scan G db TXC))" and m: "map_of (en_scan G db TXC) = view db TXC"
      using sc by (auto simp: scan_ok_def)
    have s: "\<forall>(k, v)\<in>set (en_scan G db TXC). view db TXC k = Some v" using map_of_is_SomeI [OF d] m by auto
    obtain R ops' where l: "prune_loop P wanted n [] (en_scan G db TXC) = (pool_bytes (view db) - (\<Sum>k\<in>R. length (pool_value (view db) k)), ops')"
      and R: "R \<subseteq> pool_keys (view db)" "removes P (view db) R (fold apply_op ops' (view db))"
      using prune_loop_effect [OF d s _ _ removes_refl fin, where P = P and n = n and wanted = wanted] n by auto
    show "pool_ok P (fold apply_op ops (view db))" by (rule removal_keeps [OF p' R u w [unfolded l]])
  qed
qed

text \<open>Runs of the mempool from an empty pool, with failed operations; the key of an admission is new and the
  keys of a removal are distinct and can be read.\<close>

inductive pool_run :: "'db Engine \<Rightarrow> PoolExt \<Rightarrow> ('db \<Rightarrow> kv_view) \<Rightarrow> 'db RockDBManager \<Rightarrow> bool" for G P view where
  empty: "\<lbrakk>\<And>k. mview view mg TXC k = None; \<And>h. mview view mg HXC h = None\<rbrakk> \<Longrightarrow> pool_run G P view mg"
| add: "\<lbrakk>pool_run G P view mg;
      \<forall>key. generate_unique_key clock_ms rnd = Inr key \<longrightarrow> mview view mg TXC (str_bytes key) = None;
      add_tx_kind G P clock clock_ms rnd kind mg = (r, mg')\<rbrakk> \<Longrightarrow> pool_run G P view mg'"
| remove: "\<lbrakk>pool_run G P view mg; distinct keys;
      \<forall>db. mg_blockchain_handle mg = Some db \<longrightarrow> (\<forall>k\<in>set keys. \<exists>r. en_get G db TXC k = Inr r);
      remove_transactions G P keys mg = (r, mg')\<rbrakk> \<Longrightarrow> pool_run G P view mg'"
| prune: "\<lbrakk>pool_run G P view mg; remove_transactions_in_batch G P batch mg = (r, mg')\<rbrakk> \<Longrightarrow> pool_run G P view mg'"

lemma pool_run_ok:
  assumes ok: "engine_ok G view" and sc: "scan_ok G view" and u: "u64_codec_ok P" and "pool_run G P view mg"
  shows "pool_ok P (mview view mg)"
  using assms(4)
proof induction
  case (empty mg)
  then have "pool_keys (mview view mg) = {}" by (simp add: pool_keys_def)
  then show ?case using empty by (simp add: pool_ok_def pool_bytes_def)
qed (auto intro: add_keeps [OF ok sc u] remove_keeps [OF ok sc u] prune_keeps [OF ok sc u])

text \<open>C18. The books of the mempool. In every state reached from an empty pool by admissions and removals,
  successful or not: the pooled entries take at most \<open>TRANSACTION_BUFFER_LIMIT\<close> bytes, the byte counter the
  next operation reads is exactly their size, no two entries have the same hash, and the hash index maps
  exactly the hashes of the pooled entries to their bytes, so a transaction is found by hash if and only if it
  is pooled.\<close>

theorem mempool_accounting:
  assumes ok: "engine_ok G view" and sc: "scan_ok G view" and u: "u64_codec_ok P" and run: "pool_run G P view mg"
  shows "pool_bytes (mview view mg) \<le> TRANSACTION_BUFFER_LIMIT \<and>
    (\<forall>db n. mg_blockchain_handle mg = Some db \<longrightarrow> current_buffer G P db = Inr n \<longrightarrow> n = pool_bytes (mview view mg)) \<and>
    inj_on (entry_hash P (mview view mg)) (pool_keys (mview view mg)) \<and>
    (\<forall>h b. mview view mg HXC h = Some b \<longleftrightarrow>
       (\<exists>k\<in>pool_keys (mview view mg). mview view mg TXC k = Some b \<and> h = compute_bytes_hash (px P) b))"
proof -
  have p: "pool_ok P (mview view mg)" by (rule pool_run_ok [OF assms])
  have "n = pool_bytes (mview view mg)" if "mg_blockchain_handle mg = Some db" "current_buffer G P db = Inr n" for db n
    using current_buffer_exact [OF ok sc _ that(2)] p that(1) by (simp add: mview_def)
  moreover have "w TXC k = Some b \<Longrightarrow> entry_hash P w k = compute_bytes_hash (px P) b" for w k b
    by (simp add: entry_hash_def pool_value_def)
  moreover have "mview view mg HXC h = Some b \<longleftrightarrow> (\<exists>k\<in>pool_keys (mview view mg). mview view mg TXC k = Some b \<and> h = entry_hash P (mview view mg) k)" for h b
    using p by (simp add: pool_ok_def)
  ultimately show ?thesis using p by (auto simp: pool_ok_def)
qed

section \<open>Selection\<close>

definition kind_size :: "Ext \<Rightarrow> TxKind \<Rightarrow> nat" where
  "kind_size E kind = (case canonical_txkind_bytes E kind of Inr b \<Rightarrow> length b | Inl _ \<Rightarrow> 0)"

definition selected_size :: "Ext \<Rightarrow> (byte list \<times> TxKind) list \<Rightarrow> nat" where
  "selected_size E entries = (\<Sum>e\<leftarrow>entries. kind_size E (snd e))"

text \<open>One step of the loop: the item is skipped, ends the selection, or is selected.\<close>

lemma fetch_step:
  assumes "fetch_loop E clock entries used ((key, val) # items) = Inr out"
  shows "fetch_loop E clock entries used items = Inr out \<or> out = entries \<or>
    (\<exists>kind. key \<noteq> MEMPOOL_BYTES_KEY \<and> kind_deserialize E val = Inr kind \<and> validate_txkind_for_mempool clock kind = Inr () \<and>
       saturating_add 64 used (kind_size E kind) \<le> batch_budget_bytes \<and> length entries < max_batch_txs \<and>
       fetch_loop E clock (entries @ [(key, kind)]) (saturating_add 64 used (kind_size E kind)) items = Inr out)"
  using assms by (auto simp: Let_def res_simps kind_size_def not_less not_le split: if_splits sum.splits)

lemma fetch_loop_sound:
  assumes "fetch_loop E clock entries used items = Inr out" and "used = selected_size E entries"
    and "used \<le> batch_budget_bytes" and "length entries \<le> max_batch_txs"
  shows "\<exists>new. out = entries @ new \<and> length out \<le> max_batch_txs \<and> selected_size E out \<le> batch_budget_bytes \<and>
    subseq (map fst new) (map fst items) \<and>
    (\<forall>(k, kind)\<in>set new. k \<noteq> MEMPOOL_BYTES_KEY \<and> validate_txkind_for_mempool clock kind = Inr () \<and>
       (\<exists>v. (k, v) \<in> set items \<and> kind_deserialize E v = Inr kind))"
  using assms
proof (induction items arbitrary: entries used)
  case Nil
  then show ?case by simp
next
  case (Cons e items)
  obtain key val where e: "e = (key, val)" by (cases e)
  from fetch_step [OF Cons.prems(1) [unfolded e]] consider (skip) "fetch_loop E clock entries used items = Inr out" | (stop) "out = entries"
    | (taken) kind where "key \<noteq> MEMPOOL_BYTES_KEY" "kind_deserialize E val = Inr kind" "validate_txkind_for_mempool clock kind = Inr ()"
        "saturating_add 64 used (kind_size E kind) \<le> batch_budget_bytes" "length entries < max_batch_txs"
        "fetch_loop E clock (entries @ [(key, kind)]) (saturating_add 64 used (kind_size E kind)) items = Inr out"
    by blast
  then show ?case
  proof cases
    case skip
    obtain new where n: "out = entries @ new" "length out \<le> max_batch_txs" "selected_size E out \<le> batch_budget_bytes"
      "subseq (map fst new) (map fst items)" "\<forall>(k, kind)\<in>set new. k \<noteq> MEMPOOL_BYTES_KEY \<and> validate_txkind_for_mempool clock kind = Inr () \<and>
        (\<exists>v. (k, v) \<in> set items \<and> kind_deserialize E v = Inr kind)"
      using Cons.IH [OF skip Cons.prems(2-4)] by blast
    then show ?thesis by (intro exI [of _ new]) (auto simp: e)
  next
    case stop
    then show ?thesis using Cons.prems by simp
  next
    case taken
    have b: "batch_budget_bytes < 2 ^ 64 - 1" by (simp add: batch_budget_bytes_def saturating_sub_def cfg_defs)
    have s: "saturating_add 64 used (kind_size E kind) = selected_size E (entries @ [(key, kind)])"
      using taken(4) b Cons.prems(2) by (auto simp: saturating_add_def selected_size_def split: if_splits)
    obtain new where n: "out = (entries @ [(key, kind)]) @ new" "length out \<le> max_batch_txs" "selected_size E out \<le> batch_budget_bytes"
      "subseq (map fst new) (map fst items)" "\<forall>(k, kind)\<in>set new. k \<noteq> MEMPOOL_BYTES_KEY \<and> validate_txkind_for_mempool clock kind = Inr () \<and>
        (\<exists>v. (k, v) \<in> set items \<and> kind_deserialize E v = Inr kind)"
      using Cons.IH [OF taken(6) s taken(4)] taken(5) by auto
    then show ?thesis using taken(1-3) by (intro exI [of _ "(key, kind) # new"]) (auto simp: e)
  qed
qed


section \<open>A concrete pool\<close>

definition scan_engine :: "mem_db Engine" where
  "scan_engine = mem_engine\<lparr>en_scan := \<lambda>db cf. map (\<lambda>k. (k, the (map_of db (cf, k)))) (bset_of (map snd (filter (\<lambda>x. fst x = cf) (map fst db))))\<rparr>"

lemma scan_engine_ok: "engine_ok scan_engine mem_view"
  using mem_engine_ok by (simp add: engine_ok_def scan_engine_def)

lemma scan_engine_scan: "scan_ok scan_engine mem_view"
proof -
  have "distinct (bset_of (map snd (filter (\<lambda>x. fst x = cf) (map fst db))))" for db :: mem_db and cf by (simp add: bset_of_set)
  moreover have "map_of (map (\<lambda>k. (k, the (map_of db (cf, k)))) (bset_of (map snd (filter (\<lambda>x. fst x = cf) (map fst db))))) k = mem_view db cf k"
    for db :: mem_db and cf k
  proof (cases "mem_view db cf k")
    case None
    then have "(cf, k) \<notin> fst ` set db" by (simp add: mem_view_def map_of_eq_None_iff)
    then show ?thesis using None by (force simp: map_of_eq_None_iff bset_of_set)
  next
    case (Some v)
    then have "((cf, k), v) \<in> set db" by (simp add: mem_view_def map_of_SomeD)
    then have "k \<in> set (bset_of (map snd (filter (\<lambda>x. fst x = cf) (map fst db))))" by (force simp: bset_of_set)
    then show ?thesis using Some by (simp add: map_of_map_restrict mem_view_def)
  qed
  ultimately show ?thesis by (auto simp: scan_ok_def scan_engine_def comp_def)
qed

definition pool_ext :: PoolExt where
  "pool_ext = \<lparr>px = fixed_ext\<lparr>pc_kind := \<lambda>k. Inr [7, 7, 7], pc_kind_take := \<lambda>b. Inr (RegisterNode sample_reg, [])\<rparr>,
     pc_u64 = \<lambda>n. if n < 256 ^ 8 then Inr (to_be_bytes 8 n) else Inl ''range'', pc_u64_from = \<lambda>b. Inr (from_be_bytes b)\<rparr>"

lemma pool_ext_codec: "u64_codec_ok pool_ext"
  by (auto simp: u64_codec_ok_def pool_ext_def from_to_be_bytes split: if_splits)

definition pool_key :: "byte list" where
  "pool_key = str_bytes (lit ''tx_'' @ decimal 1700000000000000 @ lit ''_'' @ decimal 5)"

definition pool_db :: mem_db where
  "pool_db = [((TXC, MEMPOOL_BYTES_KEY), to_be_bytes 8 3), ((HXC, blake3_xof64 fixed_ext [7, 7, 7]), [7, 7, 7]), ((TXC, pool_key), [7, 7, 7])]"

lemma pool_key_generated: "generate_unique_key 1700000000000 5 = Inr (lit ''tx_'' @ decimal 1700000000000000 @ lit ''_'' @ decimal 5)"
  by (simp add: generate_unique_key_def now_unix_millis_runtime_def validate_unix_millis_structural_def time_consts checked_mul_def)

lemma pool_reg_valid: "validate_txkind_for_mempool 1700000000 (RegisterNode sample_reg) = Inr ()"
proof -
  have v: "reg_validate_structural sample_reg = Inr ()"
    using sample_reg_decodes by (auto simp: reg_deserialize_def Let_def res_simps split: if_splits)
  then show ?thesis
    by (simp add: validate_txkind_for_mempool_def reg_validate_def reg_validate_for_mempool_def reg_validate_for_mempool_at_def
        now_unix_secs_runtime_def validate_unix_secs_structural_def time_consts validate_runtime_future_skew_secs_default_def
        validate_runtime_future_skew_secs_def checked_add_def sample_reg_def cfg_defs del: validate_unix_secs_Inr)
qed

lemma pool_added:
  "add_tx_kind scan_engine pool_ext 1700000000 1700000000000 5 (RegisterNode sample_reg) (mem_manager []) = (Inr (), mem_manager pool_db)"
proof -
  have e: "en_scan scan_engine [] cf = []" "en_get scan_engine db cf k = Inr (map_of db (cf, k))" "column scan_engine db cf = Inr ()" for db cf k
    by (simp_all add: scan_engine_def mem_engine_def bset_of_def column_def)
  have h: "open_db_blockchain (mem_manager db) = Inr db" for db by (simp add: open_db_blockchain_def mem_manager_def)
  have k: "canonical_txkind_bytes (px pool_ext) kd = Inr [7, 7, 7]" "pc_u64 pool_ext (Suc (Suc (Suc 0))) = Inr (to_be_bytes 8 3)"
    "compute_bytes_hash (px pool_ext) b = blake3_xof64 fixed_ext b" for kd b
    by (simp_all add: canonical_txkind_bytes_def pool_ext_def compute_bytes_hash_def numeral_3_eq_3)
  have "admit scan_engine pool_ext 1700000000 1700000000000 5 (RegisterNode sample_reg) (mem_manager []) =
      Inr [PutOp TXC pool_key [7, 7, 7], PutOp HXC (blake3_xof64 fixed_ext [7, 7, 7]) [7, 7, 7], PutOp TXC MEMPOOL_BYTES_KEY (to_be_bytes 8 3)]"
    by (simp add: admit_def pool_reg_valid k h e pool_key_generated pool_key_def check_entry_size_bound_def cfg_defs batch_budget_bytes_def
        saturating_sub_def current_buffer_def read_mempool_bytes_used_def recompute_mempool_bytes_used_def checked_add_def check_replay_def
        del: to_be_bytes.simps)
  then show ?thesis
    by (simp add: add_tx_kind_def bindS_readS bc_write_def h e) (simp add: scan_engine_def mem_engine_def mem_manager_def pool_db_def)
qed

theorem mempool_accounting_witness:
  "pool_run scan_engine pool_ext mem_view (mem_manager pool_db) \<and> pool_key \<in> pool_keys (mem_view pool_db) \<and>
   pool_bytes (mem_view pool_db) \<le> TRANSACTION_BUFFER_LIMIT \<and>
   mem_view pool_db HXC (compute_bytes_hash (px pool_ext) [7, 7, 7]) = Some [7, 7, 7]"
proof -
  have v: "mview mem_view (mem_manager db) = mem_view db" for db by (simp add: mview_def mem_manager_def)
  have "pool_run scan_engine pool_ext mem_view (mem_manager [])" by (rule empty) (simp_all add: v mem_view_def)
  then have r: "pool_run scan_engine pool_ext mem_view (mem_manager pool_db)"
    by (rule add [OF _ _ pool_added]) (simp add: v mem_view_def)
  have n: "pool_key \<noteq> MEMPOOL_BYTES_KEY" unfolding pool_key_def by (rule key_prefix)
  then have t: "mem_view pool_db TXC pool_key = Some [7, 7, 7]" by (simp add: mem_view_def pool_db_def)
  then have k: "pool_key \<in> pool_keys (mem_view pool_db)" using n by (simp add: pool_keys_def)
  note a = mempool_accounting [OF scan_engine_ok scan_engine_scan pool_ext_codec r, unfolded v]
  show ?thesis using r k t a by blast
qed


end
