(* ===== verification/Nft.thy ===== *)
theory Nft
  imports Storage
begin

text \<open>
  NFT records (\<open>src/tokens/nft_001.rs\<close>), kept as JSON in the metadata column under a key made of the id. The
  JSON crate is the argument \<open>NftCodec\<close>. A message of an error has empty text where the code
  prints a value.
\<close>

record NftRecord =
  nr_nft_id :: hash
  nr_creator_wallet :: rstr
  nr_owner_wallet :: rstr
  nr_content_hash :: hash
  nr_title :: rstr
  nr_description :: rstr
  nr_minted_height :: nat
  nr_minted_time :: nat

record NftCodec =
  nj_to :: "NftRecord \<Rightarrow> string + byte list"
  nj_from :: "byte list \<Rightarrow> string + NftRecord"

definition NFT_META_PREFIX :: rstr where "NFT_META_PREFIX = lit ''nft::''"

definition nft_meta_key :: "Ext \<Rightarrow> hash \<Rightarrow> rstr" where
  "nft_meta_key E nft_id = NFT_META_PREFIX @ hex_encode E nft_id"

definition from_content_bytes :: "Ext \<Rightarrow> hash \<Rightarrow> rstr \<Rightarrow> rstr \<Rightarrow> byte list \<Rightarrow> NftMintTx" where
  "from_content_bytes E nft_id title description content_bytes =
     \<lparr>mint_nft_id = nft_id, mint_content_hash = blake3_xof64 E content_bytes, mint_title = title,
      mint_description = description\<rparr>"

definition store_nft_record :: "'db Engine \<Rightarrow> Ext \<Rightarrow> NftCodec \<Rightarrow> NftRecord \<Rightarrow> ('db RockDBManager, unit) sm" where
  "store_nft_record G E N r =
     bindS (readS (\<lambda>_. map_err (\<lambda>_. SerializationError ''failed to serialize NftRecord as JSON'') (nj_to N r))) (\<lambda>bytes.
     map_errS (\<lambda>_. StorageError ''store_metadata failed for NftRecord'')
       (store_metadata G (nft_meta_key E (nr_nft_id r)) bytes))"

definition load_nft_record :: "'db Engine \<Rightarrow> Ext \<Rightarrow> NftCodec \<Rightarrow> hash \<Rightarrow> 'db RockDBManager \<Rightarrow> NftRecord option result" where
  "load_nft_record G E N nft_id mg =
     bindR (map_err (\<lambda>_. StorageError ''get_metadata failed for NftRecord'') (get_metadata G (nft_meta_key E nft_id) mg))
       (\<lambda>maybe_bytes.
     (case maybe_bytes of
        None \<Rightarrow> Inr None
      | Some bytes \<Rightarrow>
          bindR (map_err (\<lambda>_. SerializationError ''failed to deserialize NftRecord JSON'') (nj_from N bytes)) (\<lambda>r.
          Inr (Some r))))"

definition apply_nft_mint ::
    "'db Engine \<Rightarrow> Ext \<Rightarrow> NftCodec \<Rightarrow> NftMintTx \<Rightarrow> rstr \<Rightarrow> nat \<Rightarrow> nat \<Rightarrow> ('db RockDBManager, unit) sm" where
  "apply_nft_mint G E N tx signer_wallet block_height block_timestamp =
     bindS (readS (load_nft_record G E N (mint_nft_id tx))) (\<lambda>existing.
     if existing \<noteq> None then failS (ValidationError ''NFT id already exists (duplicate mint): '')
     else store_nft_record G E N
       \<lparr>nr_nft_id = mint_nft_id tx, nr_creator_wallet = signer_wallet, nr_owner_wallet = signer_wallet,
        nr_content_hash = mint_content_hash tx, nr_title = mint_title tx, nr_description = mint_description tx,
        nr_minted_height = block_height, nr_minted_time = block_timestamp\<rparr>)"

definition apply_nft_transfer ::
    "'db Engine \<Rightarrow> Ext \<Rightarrow> NftCodec \<Rightarrow> NftTransferTx \<Rightarrow> rstr \<Rightarrow> nat \<Rightarrow> nat \<Rightarrow> ('db RockDBManager, unit) sm" where
  "apply_nft_transfer G E N tx signer_wallet block_height block_timestamp =
     bindS (readS (load_nft_record G E N (ntr_nft_id tx))) (\<lambda>maybe_record.
     (case maybe_record of
        None \<Rightarrow> failS (ValidationError ''NFT id not found for transfer: '')
      | Some r \<Rightarrow>
          if nr_owner_wallet r = ntr_new_owner_wallet tx then returnS ()
          else if nr_owner_wallet r \<noteq> signer_wallet
            then failS (ValidationError ''NFT transfer denied: signer  is not current owner '')
          else if trim (ntr_new_owner_wallet tx) = []
            then failS (ValidationError ''NFT transfer new_owner_wallet cannot be empty'')
          else store_nft_record G E N (r\<lparr>nr_owner_wallet := ntr_new_owner_wallet tx\<rparr>)))"

text \<open>The callers skip a transfer denied because the signer is not the owner.\<close>

definition denied_signer :: "ErrorDetection \<Rightarrow> bool" where
  "denied_signer e =
     (case e of ValidationError message \<Rightarrow>
        take (length ''NFT transfer denied: signer '') message = ''NFT transfer denied: signer ''
      | _ \<Rightarrow> False)"

definition skip_denied :: "('s, unit) sm \<Rightarrow> ('s, unit) sm" where
  "skip_denied m s = (case m s of (Inl e, s') \<Rightarrow> if denied_signer e then (Inr (), s') else (Inl e, s') | (Inr u, s') \<Rightarrow> (Inr (), s'))"

end
