(* ===== verification/AccountTree.thy ===== *)
theory AccountTree
  imports Ledger Nft Halving
begin

text \<open>
  The account tree (\<open>src/blockchain/transaction_005_tx_account_tree.rs\<close>): the account state in memory, its
  snapshot in the database, the queue of blocks that arrived before their parents, the application of a block
  with rollback on an error, and the replay of the stored chain.

  The locks are left out: every operation runs alone. A method that changes the tree returns it on
  both paths. The codecs of the snapshot (postcard) and of the NFT records (JSON) are the
  argument \<open>TreeExt\<close>. An error of type \<open>String\<close> is the fixed part of its text.
\<close>

section \<open>Data\<close>

record 'db AccountModelTree =
  am_inner :: InnerTree
  am_db :: "'db RockDBManager"
  am_pending_blocks :: "(nat, Block) hmap"

record AccountStateSnapshot =
  ss_version :: nat
  ss_balances :: "(rstr, nat) hmap"
  ss_tip_height :: nat
  ss_tip_hash :: hash
  ss_prev_tip_hash :: hash
  ss_has_tip :: bool
  ss_total_issued_micro :: nat
  ss_rewards_issued_micro :: nat
  ss_reserved_issued_micro :: nat

record LegacyInnerTree =
  lg_balances :: "(rstr, nat) hmap"
  lg_blocks :: "Block list"
  lg_total_issued_micro :: nat
  lg_rewards_issued_micro :: nat
  lg_reserved_issued_micro :: nat

record TreeExt =
  te_block :: BlockExt
  te_nft :: NftCodec
  te_snapshot :: "AccountStateSnapshot \<Rightarrow> string + byte list"
  te_snapshot_take :: "byte list \<Rightarrow> string + AccountStateSnapshot \<times> byte list"
  te_legacy_take :: "byte list \<Rightarrow> string + LegacyInnerTree \<times> byte list"
  te_u64 :: "nat \<Rightarrow> string + byte list"
  te_u64_take :: "byte list \<Rightarrow> string + nat \<times> byte list"

abbreviation te_ext :: "TreeExt \<Rightarrow> Ext" where "te_ext T \<equiv> bx (te_block T)"

definition ACCOUNT_STATE_SNAPSHOT_VERSION :: nat where "ACCOUNT_STATE_SNAPSHOT_VERSION = 2"
definition MAX_PENDING_BLOCKS :: nat where "MAX_PENDING_BLOCKS = 4096"
definition MAX_PENDING_BLOCK_DISTANCE :: nat where "MAX_PENDING_BLOCK_DISTANCE = 1024"
definition MAX_ACCOUNT_STATE_SNAPSHOT_BYTES :: nat where "MAX_ACCOUNT_STATE_SNAPSHOT_BYTES = 512 * 1024 * 1024"

definition STATE_KEY :: "byte list" where "STATE_KEY = str_bytes (lit ''__account_state__'')"

definition tree_with_manager :: "'db RockDBManager \<Rightarrow> 'db AccountModelTree" where
  "tree_with_manager mg = \<lparr>am_inner = inner_empty, am_db = mg, am_pending_blocks = []\<rparr>"

text \<open>An operation of the manager, on the manager of the tree.\<close>

definition on_tree_db :: "('e, 'db RockDBManager, 'a) esm \<Rightarrow> ('e, 'db AccountModelTree, 'a) esm" where
  "on_tree_db m t = (case m (am_db t) of (r, mg) \<Rightarrow> (r, t\<lparr>am_db := mg\<rparr>))"

section \<open>The compact state\<close>

definition inner_from_snapshot :: "AccountStateSnapshot \<Rightarrow> InnerTree" where
  "inner_from_snapshot s =
     \<lparr>it_balances = ss_balances s, it_tip_height = ss_tip_height s, it_tip_hash = ss_tip_hash s,
      it_prev_tip_hash = ss_prev_tip_hash s, it_has_tip = ss_has_tip s, it_blocks = [],
      it_total_issued_micro = ss_total_issued_micro s, it_rewards_issued_micro = ss_rewards_issued_micro s,
      it_reserved_issued_micro = ss_reserved_issued_micro s\<rparr>"

definition snapshot_from_inner :: "InnerTree \<Rightarrow> AccountStateSnapshot" where
  "snapshot_from_inner st =
     \<lparr>ss_version = ACCOUNT_STATE_SNAPSHOT_VERSION, ss_balances = it_balances st, ss_tip_height = it_tip_height st,
      ss_tip_hash = it_tip_hash st, ss_prev_tip_hash = it_prev_tip_hash st, ss_has_tip = it_has_tip st,
      ss_total_issued_micro = it_total_issued_micro st, ss_rewards_issued_micro = it_rewards_issued_micro st,
      ss_reserved_issued_micro = it_reserved_issued_micro st\<rparr>"

definition inner_from_legacy :: "LegacyInnerTree \<Rightarrow> InnerTree" where
  "inner_from_legacy legacy =
     (let bs = lg_blocks legacy;
          (has_tip, tip_height, tip_hash, prev_tip_hash) =
            (case rev bs of
               tip # rest \<Rightarrow>
                 (True, m_index (bl_metadata tip), bl_block_hash tip,
                  (case rest of prev # _ \<Rightarrow> bl_block_hash prev | [] \<Rightarrow> m_previous_hash (bl_metadata tip)))
             | [] \<Rightarrow> (False, 0, zero_hash, zero_hash)) in
      \<lparr>it_balances = lg_balances legacy, it_tip_height = tip_height, it_tip_hash = tip_hash,
       it_prev_tip_hash = prev_tip_hash, it_has_tip = has_tip, it_blocks = cap_recent bs,
       it_total_issued_micro = lg_total_issued_micro legacy, it_rewards_issued_micro = lg_rewards_issued_micro legacy,
       it_reserved_issued_micro = lg_reserved_issued_micro legacy\<rparr>)"

definition remember_recent_block :: "InnerTree \<Rightarrow> Block \<Rightarrow> InnerTree" where
  "remember_recent_block st block =
     st\<lparr>it_prev_tip_hash := (if it_has_tip st then it_tip_hash st else m_previous_hash (bl_metadata block)),
        it_tip_height := m_index (bl_metadata block), it_tip_hash := bl_block_hash block, it_has_tip := True,
        it_blocks := cap_recent (it_blocks st @ [block])\<rparr>"

definition validate_next_block_link :: "InnerTree \<Rightarrow> Block \<Rightarrow> unit result" where
  "validate_next_block_link st block =
     (if m_index (bl_metadata block) \<noteq> expected_next_height st then Inl (ValidationError ''Block height mismatch'')
      else if it_has_tip st \<and> m_previous_hash (bl_metadata block) \<noteq> it_tip_hash st
        then Inl (ValidationError ''Block has invalid previous_hash'')
      else Inr ())"

fun verify_recent_links :: "Block list \<Rightarrow> unit result" where
  "verify_recent_links (prev # block # rest) =
     (if m_index (bl_metadata block) \<noteq> saturating_add 64 (m_index (bl_metadata prev)) 1
        then Inl (ValidationError ''Recent block cache is not contiguous'')
      else if m_previous_hash (bl_metadata block) \<noteq> bl_block_hash prev
        then Inl (ValidationError ''Recent block cache linkage failed'')
      else verify_recent_links (block # rest))"
| "verify_recent_links _ = Inr ()"

definition verify_compact_state_invariants ::
    "InnerTree \<Rightarrow> nat option \<Rightarrow> hash option \<Rightarrow> hash option \<Rightarrow> unit result" where
  "verify_compact_state_invariants st expected_tip_height expected_tip_hash expected_prev_hash =
     (if length (it_blocks st) > MAX_RECENT_BLOCKS_IN_RAM
        then Inl (ValidationError ''Recent block cache exceeded bound'')
      else
        bindR (case expected_tip_height of None \<Rightarrow> Inr () | Some h \<Rightarrow>
            if \<not> it_has_tip st then Inl (ValidationError ''Expected tip height, but compact state has no tip'')
            else if it_tip_height st \<noteq> h then Inl (ValidationError ''Tip height mismatch'')
            else Inr ()) (\<lambda>_.
        bindR (case expected_tip_hash of None \<Rightarrow> Inr () | Some h \<Rightarrow>
            if \<not> it_has_tip st \<or> it_tip_hash st \<noteq> h then Inl (ValidationError ''Tip hash mismatch'') else Inr ()) (\<lambda>_.
        bindR (case expected_prev_hash of None \<Rightarrow> Inr () | Some h \<Rightarrow>
            if \<not> it_has_tip st \<or> it_prev_tip_hash st \<noteq> h then Inl (ValidationError ''Previous tip hash mismatch'')
            else Inr ()) (\<lambda>_.
        bindR (verify_recent_links (it_blocks st)) (\<lambda>_.
        if it_blocks st \<noteq> [] \<and>
           (\<not> it_has_tip st \<or> m_index (bl_metadata (last (it_blocks st))) \<noteq> it_tip_height st \<or>
            bl_block_hash (last (it_blocks st)) \<noteq> it_tip_hash st)
          then Inl (ValidationError ''Recent block cache tip does not match compact tip metadata'')
        else
          bindR (foldR (\<lambda>acc v. ok_or (ValidationError ''Overflow while summing account balances'') (checked_add 64 acc v))
                   0 (map snd (it_balances st))) (\<lambda>balance_sum.
          if balance_sum > MAX_SUPPLY then Inl (ValidationError ''Balance sum exceeds MAX_SUPPLY'')
          else if it_total_issued_micro st > MAX_SUPPLY
            then Inl (ValidationError ''total_issued_micro exceeds MAX_SUPPLY'')
          else if it_rewards_issued_micro st > MAX_REWARD_SUPPLY
            then Inl (ValidationError ''rewards_issued_micro exceeds MAX_REWARD_SUPPLY'')
          else Inr ()))))))"

definition backfill_total_issued_if_missing :: "InnerTree \<Rightarrow> InnerTree result" where
  "backfill_total_issued_if_missing st =
     bindR (if it_total_issued_micro st = 0 \<and> it_balances st \<noteq> [] then
              bindR (foldR (\<lambda>acc v. ok_or (ValidationError ''Overflow while backfilling total_issued_micro'')
                        (checked_add 64 acc v)) 0 (map snd (it_balances st))) (\<lambda>total_supply.
              Inr (st\<lparr>it_total_issued_micro := total_supply\<rparr>))
            else Inr st) (\<lambda>st1.
     Inr (if it_rewards_issued_micro st1 = 0 \<and> it_total_issued_micro st1 > 0
          then st1\<lparr>it_rewards_issued_micro := it_total_issued_micro st1\<rparr> else st1))"

text \<open>The state a decoded value stands for, completed and checked.\<close>

definition completed_state :: "InnerTree \<Rightarrow> InnerTree result" where
  "completed_state st0 =
     bindR (backfill_total_issued_if_missing st0) (\<lambda>st.
     bindR (verify_compact_state_invariants st None None None) (\<lambda>_. Inr st))"

definition decode_inner_state_strict :: "TreeExt \<Rightarrow> byte list \<Rightarrow> InnerTree result" where
  "decode_inner_state_strict T data =
     (let legacy_path =
        bindR (map_err (\<lambda>_. SerializationError ''Deserialize account state failed as compact or legacy'') (te_legacy_take T data))
          (\<lambda>(legacy, remaining).
        if remaining \<noteq> []
          then Inl (SerializationError ''Deserialize legacy account state failed: trailing bytes rejected'')
        else completed_state (inner_from_legacy legacy)) in
      (case te_snapshot_take T data of
         Inr (s, remaining) \<Rightarrow>
           if remaining = [] \<and> ss_version s = ACCOUNT_STATE_SNAPSHOT_VERSION
             then completed_state (inner_from_snapshot s) else legacy_path
       | Inl _ \<Rightarrow> legacy_path))"

definition serialize_inner :: "TreeExt \<Rightarrow> InnerTree \<Rightarrow> byte list result" where
  "serialize_inner T st =
     bindR (verify_compact_state_invariants st None None None) (\<lambda>_.
     bindR (map_err SerializationError (te_snapshot T (snapshot_from_inner st))) (\<lambda>bytes.
     if length bytes > MAX_ACCOUNT_STATE_SNAPSHOT_BYTES
       then Inl (SerializationError ''Refusing to serialize oversized account state snapshot'')
     else Inr bytes))"

definition commit_inner_state :: "'db Engine \<Rightarrow> TreeExt \<Rightarrow> InnerTree \<Rightarrow> ('db RockDBManager, unit) sm" where
  "commit_inner_state G T st =
     bindS (readS (\<lambda>_. verify_compact_state_invariants st None None None)) (\<lambda>_.
     bindS (readS (\<lambda>_. map_err SerializationError (te_snapshot T (snapshot_from_inner st)))) (\<lambda>bytes.
     if length bytes > MAX_ACCOUNT_STATE_SNAPSHOT_BYTES
       then failS (SerializationError ''Refusing to write oversized account STATE_KEY snapshot'')
     else map_errS (\<lambda>_. StorageError ''write failed'') (mg_write G STATE_COLUMN_NAME STATE_KEY bytes)))"

definition tree_commit :: "'db Engine \<Rightarrow> TreeExt \<Rightarrow> ('db AccountModelTree, unit) sm" where
  "tree_commit G T t = on_tree_db (commit_inner_state G T (am_inner t)) t"

definition tree_load_state :: "'db Engine \<Rightarrow> TreeExt \<Rightarrow> ('db RockDBManager, 'db AccountModelTree) sm" where
  "tree_load_state G T =
     bindS (readS (mg_read G STATE_COLUMN_NAME STATE_KEY)) (\<lambda>raw.
     bindS (readS (\<lambda>_. ok_or (NotFound ''Account state'') raw)) (\<lambda>bytes.
     bindS (readS (\<lambda>_. decode_inner_state_strict T bytes)) (\<lambda>inner.
     bindS (commit_inner_state G T inner) (\<lambda>_ mg.
     (Inr \<lparr>am_inner = inner, am_db = mg, am_pending_blocks = []\<rparr>, mg)))))"

definition serialize_state :: "TreeExt \<Rightarrow> 'db AccountModelTree \<Rightarrow> byte list result" where
  "serialize_state T t = serialize_inner T (am_inner t)"

definition deserialize_state :: "TreeExt \<Rightarrow> byte list \<Rightarrow> 'db RockDBManager \<Rightarrow> 'db AccountModelTree result" where
  "deserialize_state T data mg =
     bindR (decode_inner_state_strict T data) (\<lambda>inner. Inr \<lparr>am_inner = inner, am_db = mg, am_pending_blocks = []\<rparr>)"

section \<open>Blocks in order\<close>

definition latest_block_height_u64 :: "'db AccountModelTree \<Rightarrow> nat" where
  "latest_block_height_u64 t = (if it_has_tip (am_inner t) then it_tip_height (am_inner t) else 0)"

definition get_block_by_height :: "'db Engine \<Rightarrow> TreeExt \<Rightarrow> nat \<Rightarrow> 'db AccountModelTree \<Rightarrow> Block result" where
  "get_block_by_height G T height t =
     (case find (\<lambda>b. m_index (bl_metadata b) = height) (it_blocks (am_inner t)) of
        Some b \<Rightarrow> Inr b
      | None \<Rightarrow>
          bindR (get_block_by_index G (te_block T) height (am_db t)) (\<lambda>r.
          ok_or (NotFound ''Block not found in recent cache or RocksDB'') r))"

text \<open>
  \<open>add_block\<close> without the last call of its first branch: the answer \<open>True\<close> says that the block was
  accepted and that the queue is to be processed.
\<close>

definition add_block_step :: "Block \<Rightarrow> ('db AccountModelTree, bool) sm" where
  "add_block_step block t =
     (let expected_index = expected_next_height (am_inner t); block_index = m_index (bl_metadata block) in
      if block_index = expected_index then
        (case validate_next_block_link (am_inner t) block of
           Inl e \<Rightarrow> (Inl e, t)
         | Inr _ \<Rightarrow>
             (let inner = remember_recent_block (am_inner t) block; t1 = t\<lparr>am_inner := inner\<rparr> in
              case verify_compact_state_invariants inner (Some expected_index) (Some (it_tip_hash inner)) None of
                Inl e \<Rightarrow> (Inl e, t1)
              | Inr _ \<Rightarrow>
                  if \<not> it_has_tip inner
                    then (Inl (ValidationError ''Invariant violated: compact tip missing right after add_block()''), t1)
                  else (Inr True, t1)))
      else if block_index > expected_index then
        (if saturating_sub block_index expected_index > MAX_PENDING_BLOCK_DISTANCE then (Inr False, t)
         else if length (am_pending_blocks t) \<ge> MAX_PENDING_BLOCKS then (Inr False, t)
         else (Inr False, t\<lparr>am_pending_blocks := hinsert block_index block (am_pending_blocks t)\<rparr>))
      else (Inr False, t))"

text \<open>
  The loop of \<open>process_pending_blocks\<close>. Adding a queued block processes the queue before the loop goes
  on, so the function calls itself twice; \<open>None\<close> stands for a run that does not end.
\<close>

partial_function (option) process_pending_blocks :: "'db AccountModelTree \<Rightarrow> 'db AccountModelTree option" where
  "process_pending_blocks t =
     (let next_height = expected_next_height (am_inner t) in
      case hget (am_pending_blocks t) next_height of
        None \<Rightarrow> Some t
      | Some block \<Rightarrow>
          (case add_block_step block (t\<lparr>am_pending_blocks := hremove next_height (am_pending_blocks t)\<rparr>) of
             (r, t1) \<Rightarrow>
               (case r of
                  Inl e \<Rightarrow> Some t1
                | Inr accepted \<Rightarrow>
                    if accepted then Option.bind (process_pending_blocks t1) process_pending_blocks
                    else process_pending_blocks t1)))"

definition add_block :: "Block \<Rightarrow> 'db AccountModelTree \<Rightarrow> (unit result \<times> 'db AccountModelTree) option" where
  "add_block block t =
     (case add_block_step block t of
        (Inl e, t1) \<Rightarrow> Some (Inl e, t1)
      | (Inr accepted, t1) \<Rightarrow>
          if accepted then map_option (\<lambda>t2. (Inr (), t2)) (process_pending_blocks t1) else Some (Inr (), t1))"

section \<open>Replay of the stored chain\<close>

text \<open>The NFT transactions of a replayed batch.\<close>

definition replay_nft ::
    "'db Engine \<Rightarrow> TreeExt \<Rightarrow> rstr \<Rightarrow> nat \<Rightarrow> nat \<Rightarrow> TxKind \<Rightarrow> ('db RockDBManager, unit) sm" where
  "replay_nft G T signer_wallet block_height block_ts kind =
     (case kind of
        NftMint mint \<Rightarrow>
          bindS (readS (load_nft_record G (te_ext T) (te_nft T) (mint_nft_id mint))) (\<lambda>existing.
          if existing \<noteq> None then returnS ()
          else apply_nft_mint G (te_ext T) (te_nft T) mint signer_wallet block_height block_ts)
      | NftTransfer ntr \<Rightarrow>
          skip_denied (apply_nft_transfer G (te_ext T) (te_nft T) ntr signer_wallet block_height block_ts)
      | _ \<Rightarrow> returnS ())"

definition replay_block :: "'db Engine \<Rightarrow> TreeExt \<Rightarrow> InnerTree \<Rightarrow> nat \<Rightarrow> ('db RockDBManager, InnerTree) sm" where
  "replay_block G T st idx =
     bindS (readS (get_block_by_index G (te_block T) idx)) (\<lambda>mb.
     bindS (readS (\<lambda>_. ok_or (ValidationError ''Canonical replay missing block'') mb)) (\<lambda>block.
     bindS (readS (\<lambda>_. validate_next_block_link st block)) (\<lambda>_.
     let previous_hash = (case current_tip_hash st of Some h \<Rightarrow> h | None \<Rightarrow> m_previous_hash (bl_metadata block));
         st1 = remember_recent_block st block in
     bindS (readS (get_batch_bytes_by_index G idx)) (\<lambda>maybe_batch_bytes.
     (case maybe_batch_bytes of
        Some bytes \<Rightarrow>
          bindS (readS (\<lambda>_. map_err (\<lambda>_. SerializationError ''Failed to deserialize replay batch'')
                   (batch_deserialize (te_ext T) bytes))) (\<lambda>batch.
          if b_index batch \<noteq> idx then failS (ValidationError ''Replay batch index does not match block height'')
          else
            bindS (readS (\<lambda>_. apply_batch_to_state default_guard (te_ext T) st1 batch
                \<lparr>cx_mode = Replay, cx_block_height = idx, cx_block_hash = bl_block_hash block,
                 cx_previous_hash = previous_hash, cx_allow_duplicate_reward_in_batch = False\<rparr>)) (\<lambda>(st2, outcome).
            bindS (forS (replay_nft G T (bl_miner block) (m_index (bl_metadata block)) (m_timestamp (bl_metadata block)))
                     (b_transactions batch)) (\<lambda>_.
            returnS st2)))
      | None \<Rightarrow>
          if idx > 0 then failS (ValidationError ''Canonical replay missing batch bytes'')
          else
            bindS (readS (\<lambda>_. verify_compact_state_invariants st1 (Some idx) (Some (bl_block_hash block))
                     (Some previous_hash))) (\<lambda>_.
            returnS st1))))))"

definition replay_chain :: "'db Engine \<Rightarrow> TreeExt \<Rightarrow> nat \<Rightarrow> ('db RockDBManager, InnerTree) sm" where
  "replay_chain G T height =
     bindS (foldS (replay_block G T) inner_empty [0..<Suc height]) (\<lambda>new_inner.
     bindS (readS (\<lambda>_. verify_compact_state_invariants new_inner (Some height) (current_tip_hash new_inner)
              (current_prev_tip_hash new_inner))) (\<lambda>_.
     returnS new_inner))"

definition retain_above :: "nat \<Rightarrow> (nat, Block) hmap \<Rightarrow> (nat, Block) hmap" where
  "retain_above height m = filter (\<lambda>(h, _). h > height) m"

definition reload_from_db_to_height :: "'db Engine \<Rightarrow> TreeExt \<Rightarrow> nat \<Rightarrow> ('db AccountModelTree, unit) sm" where
  "reload_from_db_to_height G T height =
     bindS (on_tree_db (replay_chain G T height)) (\<lambda>new_inner t.
     (Inr (), t\<lparr>am_inner := new_inner, am_pending_blocks := retain_above height (am_pending_blocks t)\<rparr>))"

definition reload_from_db :: "'db Engine \<Rightarrow> TreeExt \<Rightarrow> 'db AccountModelTree \<Rightarrow> 'db AccountModelTree" where
  "reload_from_db G T t =
     (let tip = (case get_latest_block_index G (am_db t) of Inr h \<Rightarrow> h | Inl _ \<Rightarrow> 0) in
      snd (reload_from_db_to_height G T tip t))"

text \<open>The search of \<open>rollback_to\<close>, from the tip down.\<close>

fun find_height_of :: "'db Engine \<Rightarrow> BlockExt \<Rightarrow> hash \<Rightarrow> nat list \<Rightarrow> 'db RockDBManager \<Rightarrow> string + nat option" where
  "find_height_of G X ancestor [] mg = Inr None"
| "find_height_of G X ancestor (height # hs) mg =
     bindR (map_err (\<lambda>_. ''Failed to read block during rollback'') (get_block_by_index G X height mg)) (\<lambda>maybe_block.
     if (case maybe_block of Some b \<Rightarrow> bl_block_hash b = ancestor | None \<Rightarrow> False) then Inr (Some height)
     else find_height_of G X ancestor hs mg)"

definition rollback_to :: "'db Engine \<Rightarrow> TreeExt \<Rightarrow> hash \<Rightarrow> (string, 'db AccountModelTree, unit) esm" where
  "rollback_to G T ancestor =
     bindS (readS (\<lambda>t.
       (case find (\<lambda>b. bl_block_hash b = ancestor) (it_blocks (am_inner t)) of
          Some b \<Rightarrow> Inr (Some (m_index (bl_metadata b)))
        | None \<Rightarrow> find_height_of G (te_block T) ancestor (rev [0..<Suc (it_tip_height (am_inner t))]) (am_db t)))) (\<lambda>ancestor_height.
     bindS (readS (\<lambda>_. ok_or ''Ancestor block hash not found for rollback'' ancestor_height)) (\<lambda>height.
     bindS (map_errS (\<lambda>_. ''Failed to reload compact state to rollback height'') (reload_from_db_to_height G T height)) (\<lambda>_ t.
     (Inr (), t\<lparr>am_pending_blocks := retain_above height (am_pending_blocks t)\<rparr>))))"

section \<open>Balances\<close>

definition tree_get_balance :: "rstr \<Rightarrow> 'db AccountModelTree \<Rightarrow> nat" where
  "tree_get_balance acct t = hget0 (it_balances (am_inner t)) acct"

definition with_balances :: "(rstr, nat) hmap \<Rightarrow> 'db AccountModelTree \<Rightarrow> 'db AccountModelTree" where
  "with_balances m t = t\<lparr>am_inner := (am_inner t)\<lparr>it_balances := m\<rparr>\<rparr>"

definition set_balance :: "rstr \<Rightarrow> nat \<Rightarrow> 'db AccountModelTree \<Rightarrow> 'db AccountModelTree" where
  "set_balance acct bal t = with_balances (hinsert acct bal (it_balances (am_inner t))) t"

definition increment_balance :: "rstr \<Rightarrow> nat \<Rightarrow> ('db AccountModelTree, unit) sm" where
  "increment_balance acct amt t =
     (case checked_add 64 (tree_get_balance acct t) amt of
        None \<Rightarrow> (Inl (ValidationError ''Overflow when adding''), t)
      | Some new_balance \<Rightarrow>
          if new_balance > MAX_SUPPLY then (Inl (ValidationError ''Account would exceed total supply limit''), t)
          else (Inr (), set_balance acct new_balance t))"

definition decrement_balance :: "rstr \<Rightarrow> nat \<Rightarrow> ('db AccountModelTree, unit) sm" where
  "decrement_balance acct amt t =
     (case hget (it_balances (am_inner t)) acct of
        None \<Rightarrow> (Inl (NotFound ''Account not found''), t)
      | Some entry \<Rightarrow>
          (case checked_sub entry amt of
             None \<Rightarrow> (Inl (ValidationError ''Underflow''), t)
           | Some v \<Rightarrow> (Inr (), set_balance acct v t)))"

text \<open>\<open>entry(acct).or_insert(0)\<close> stays in the map when the addition is refused.\<close>

definition update_balance :: "rstr \<Rightarrow> nat \<Rightarrow> ('db AccountModelTree, unit) sm" where
  "update_balance acct amt t =
     (let entry = tree_get_balance acct t; t1 = set_balance acct entry t in
      case checked_add 64 entry amt of
        None \<Rightarrow> (Inl (ValidationError ''Overflow on account''), t1)
      | Some new_balance \<Rightarrow>
          if new_balance > MAX_SUPPLY then (Inl (ValidationError ''Account would exceed total supply limit''), t1)
          else (Inr (), set_balance acct new_balance t))"

definition apply_transaction :: "'db Engine \<Rightarrow> TreeExt \<Rightarrow> Transaction \<Rightarrow> ('db AccountModelTree, unit) sm" where
  "apply_transaction G T tx =
     (let sender = from_utf8_lossy (map unat (tx_sender tx)); receiver = from_utf8_lossy (map unat (tx_receiver tx)) in
      if tx_amount tx = 0 then failS (ValidationError ''Transaction amount must be non-zero'')
      else if sender = receiver then failS (ValidationError ''Sender and receiver cannot be the same'')
      else if tx_amount tx > MAX_TX_AMOUNT then failS (ValidationError ''Transaction amount exceeds the allowed maximum'')
      else
        bindS (readS (\<lambda>t. if tree_get_balance sender t < tx_amount tx
                 then Inl (ValidationError ''Insufficient balance'') else Inr ())) (\<lambda>_.
        bindS (decrement_balance sender (tx_amount tx)) (\<lambda>_.
        bindS (increment_balance receiver (tx_amount tx)) (\<lambda>_.
        tree_commit G T))))"

definition apply_batch :: "TreeExt \<Rightarrow> TransactionBatch \<Rightarrow> ('db AccountModelTree, unit) sm" where
  "apply_batch T batch t =
     (let st = am_inner t;
          block_hash = (case current_tip_hash st of Some h \<Rightarrow> h | None \<Rightarrow> zero_hash);
          previous_hash = (case current_prev_tip_hash st of Some h \<Rightarrow> h | None \<Rightarrow> zero_hash);
          ctx = \<lparr>cx_mode = Live, cx_block_height = b_index batch, cx_block_hash = block_hash,
                 cx_previous_hash = previous_hash, cx_allow_duplicate_reward_in_batch = False\<rparr> in
      case (if it_has_tip st \<and> block_hash \<noteq> zero_hash then
              bindR (apply_batch_to_state default_guard (te_ext T) st batch ctx) (\<lambda>(st', _). Inr st')
            else
              bindR (validate_batch_structure (te_ext T) batch) (\<lambda>_.
              if b_index batch \<noteq> cx_block_height ctx
                then Inl (ValidationError ''Batch index does not match context block height'')
              else
                bindR (foldR apply_txkind_to_state (st, []) (b_transactions batch)) (\<lambda>(st', touched).
                bindR (verify_state_invariants default_guard st' None None None) (\<lambda>_. Inr st')))) of
        Inl e \<Rightarrow> (Inl e, t)
      | Inr st' \<Rightarrow> (Inr (), t\<lparr>am_inner := st'\<rparr>))"

definition flush_balances :: "'db Engine \<Rightarrow> TreeExt \<Rightarrow> ('db AccountModelTree, unit) sm" where
  "flush_balances G T t =
     forS (\<lambda>(addr, bal).
       bindS (readS (\<lambda>_. map_err SerializationError (te_u64 T bal))) (\<lambda>bytes.
       on_tree_db (mg_write G ACCOUNT_COLUMN_NAME (str_bytes addr) bytes))) (it_balances (am_inner t)) t"

definition flush_addresses :: "'db Engine \<Rightarrow> TreeExt \<Rightarrow> rstr list \<Rightarrow> (string, 'db AccountModelTree, unit) esm" where
  "flush_addresses G T addrs =
     forS (\<lambda>addr.
       bindS (readS (\<lambda>t. map_err (\<lambda>_. ''serialize balance'') (te_u64 T (tree_get_balance addr t)))) (\<lambda>bytes.
       map_errS (\<lambda>_. ''write ACCOUNT'') (on_tree_db (mg_write G ACCOUNT_COLUMN_NAME (str_bytes addr) bytes)))) addrs"

definition flush_balances_for_batch ::
    "'db Engine \<Rightarrow> TreeExt \<Rightarrow> TransactionBatch \<Rightarrow> (string, 'db AccountModelTree, unit) esm" where
  "flush_balances_for_batch G T batch =
     flush_addresses G T (remdups (concat (map touched_addresses (b_transactions batch))))"

section \<open>Applying a block\<close>

definition verify_account_cf_matches_state ::
    "'db Engine \<Rightarrow> TreeExt \<Rightarrow> 'db RockDBManager \<Rightarrow> InnerTree \<Rightarrow> rstr list \<Rightarrow> unit result" where
  "verify_account_cf_matches_state G T mg st touched_accounts =
     foldR (\<lambda>_ acct.
       bindR (mg_read G ACCOUNT_COLUMN_NAME (str_bytes acct) mg) (\<lambda>raw.
       bindR (ok_or (ValidationError ''ACCOUNT CF missing touched account'') raw) (\<lambda>bytes.
       bindR (map_err (\<lambda>_. SerializationError ''Failed to decode ACCOUNT CF balance'') (te_u64_take T bytes))
         (\<lambda>(actual, remaining).
       if remaining \<noteq> [] then Inl (SerializationError ''ACCOUNT CF balance has trailing bytes'')
       else if actual \<noteq> hget0 (it_balances st) acct then Inl (ValidationError ''ACCOUNT CF mismatch'')
       else Inr ())))) () touched_accounts"

definition apply_nft_mints_for_block ::
    "'db Engine \<Rightarrow> TreeExt \<Rightarrow> Block \<Rightarrow> TransactionBatch \<Rightarrow> ('db RockDBManager, unit) sm" where
  "apply_nft_mints_for_block G T block batch =
     forS (\<lambda>kind. case kind of
         NftMint mint \<Rightarrow> apply_nft_mint G (te_ext T) (te_nft T) mint (bl_miner block) (m_index (bl_metadata block))
           (m_timestamp (bl_metadata block))
       | _ \<Rightarrow> returnS ()) (b_transactions batch)"

definition apply_nft_transfers_for_block ::
    "'db Engine \<Rightarrow> TreeExt \<Rightarrow> Block \<Rightarrow> TransactionBatch \<Rightarrow> ('db RockDBManager, unit) sm" where
  "apply_nft_transfers_for_block G T block batch =
     forS (\<lambda>kind. case kind of
         NftTransfer ntr \<Rightarrow> skip_denied (apply_nft_transfer G (te_ext T) (te_nft T) ntr (bl_miner block)
           (m_index (bl_metadata block)) (m_timestamp (bl_metadata block)))
       | _ \<Rightarrow> returnS ()) (b_transactions batch)"

text \<open>Reading the batch that a block names.\<close>

definition batch_of_block :: "'db Engine \<Rightarrow> TreeExt \<Rightarrow> Block \<Rightarrow> 'db RockDBManager \<Rightarrow> string + TransactionBatch" where
  "batch_of_block G T block mg =
     bindR (ok_or ''Block missing batch_key'' (bl_batch_key block)) (\<lambda>batch_key.
     bindR (map_err (\<lambda>_. ''Failed to read batch bytes'') (mg_read G TRANSACTION_BATCH_COLUMN_NAME (str_bytes batch_key) mg)) (\<lambda>raw.
     bindR (ok_or ''Batch bytes missing for key'' raw) (\<lambda>batch_bytes.
     bindR (map_err (\<lambda>_. ''Failed to deserialize batch'') (batch_deserialize (te_ext T) batch_bytes)) (\<lambda>batch.
     if b_index batch \<noteq> m_index (bl_metadata block) then Inl ''Batch index does not match block height''
     else Inr batch))))"

text \<open>The closure of \<open>apply_block\<close> after the check whether the block is canonical already.\<close>

definition apply_new_block :: "'db Engine \<Rightarrow> TreeExt \<Rightarrow> Block \<Rightarrow> (string, 'db AccountModelTree, unit) esm" where
  "apply_new_block G T block =
     bindS (readS (\<lambda>t. map_err (\<lambda>_. ''Block linkage failed'') (validate_next_block_link (am_inner t) block))) (\<lambda>_.
     bindS (readS (\<lambda>t. batch_of_block G T block (am_db t))) (\<lambda>batch.
     bindS (readS (\<lambda>t. map_err (\<lambda>_. ''Dry-run block+batch failed'')
              (dry_run_block_and_batch default_guard (te_ext T) (am_inner t) block batch))) (\<lambda>(tentative_state, outcome).
     bindS (map_errS (\<lambda>_. ''Failed to apply NFT mints'') (on_tree_db (apply_nft_mints_for_block G T block batch))) (\<lambda>_.
     bindS (map_errS (\<lambda>_. ''Failed to apply NFT transfers'') (on_tree_db (apply_nft_transfers_for_block G T block batch))) (\<lambda>_.
     bindS (map_errS (\<lambda>_. ''Failed to commit compact next state'') (on_tree_db (commit_inner_state G T tentative_state))) (\<lambda>_.
     bindS (\<lambda>t. (Inr (), t\<lparr>am_inner := tentative_state\<rparr>)) (\<lambda>_.
     bindS (map_errS (\<lambda>_. ''Failed to flush touched balances'') (flush_addresses G T (oc_touched_accounts outcome))) (\<lambda>_.
     readS (\<lambda>t. map_err (\<lambda>_. ''ACCOUNT CF verification failed'')
       (verify_account_cf_matches_state G T (am_db t) (am_inner t) (oc_touched_accounts outcome)))))))))))"

definition apply_block_body :: "'db Engine \<Rightarrow> TreeExt \<Rightarrow> Block \<Rightarrow> (string, 'db AccountModelTree, unit) esm" where
  "apply_block_body G T block =
     bindS (readS (\<lambda>_. map_err (\<lambda>_. ''Block validation failed'') (block_validate (te_block T) block None))) (\<lambda>_.
     bindS (readS (\<lambda>t.
       if it_has_tip (am_inner t) \<and> m_index (bl_metadata block) \<le> it_tip_height (am_inner t)
         then map_err (\<lambda>_. ''Canonical idempotency check failed'') (check_canonical_idempotency (am_inner t) block)
       else Inr False)) (\<lambda>already.
     if already then returnS () else apply_new_block G T block))"

text \<open>On an error the state in memory and the queue are those of before; the database is not restored.\<close>

definition tree_apply_block :: "'db Engine \<Rightarrow> TreeExt \<Rightarrow> Block \<Rightarrow> (string, 'db AccountModelTree, unit) esm" where
  "tree_apply_block G T block t =
     (case apply_block_body G T block t of
        (Inl e, t') \<Rightarrow> (Inl e, t'\<lparr>am_inner := am_inner t, am_pending_blocks := am_pending_blocks t\<rparr>)
      | (Inr u, t') \<Rightarrow> (Inr u, t'))"

section \<open>Supply\<close>

definition remaining_supply_micro :: "'db AccountModelTree \<Rightarrow> nat" where
  "remaining_supply_micro t = saturating_sub MAX_SUPPLY (it_total_issued_micro (am_inner t))"

definition remaining_reward_supply_micro :: "'db AccountModelTree \<Rightarrow> nat" where
  "remaining_reward_supply_micro t = saturating_sub MAX_REWARD_SUPPLY (it_rewards_issued_micro (am_inner t))"

definition remaining_reward_supply_micro_after_height_scheduled :: "nat \<Rightarrow> nat" where
  "remaining_reward_supply_micro_after_height_scheduled height =
     (case try_from 64 (min (remaining_reward_supply_micro_after_block height) (2 ^ 64 - 1)) of
        Some v \<Rightarrow> v | None \<Rightarrow> 2 ^ 64 - 1)"

definition remaining_reward_supply_micro_scheduled_now :: "'db AccountModelTree \<Rightarrow> nat" where
  "remaining_reward_supply_micro_scheduled_now t =
     remaining_reward_supply_micro_after_height_scheduled (latest_block_height_u64 t)"

end
