(* ===== verification/AccountTreeProps.thy ===== *)
theory AccountTreeProps
  imports AccountTree LedgerProps StorageProps "HOL-Library.Multiset"
begin

text \<open>
  Properties of the account tree: blocks that arrive in any order give the same chain, a block is
  applied in full or not at all in memory, the snapshot restores the state, the replay of the
  stored chain computes what the live application computed, and what a rollback leaves of the NFT records.
\<close>

section \<open>The compact invariants as a specification\<close>

definition compact_inv :: "InnerTree \<Rightarrow> bool" where
  "compact_inv st \<longleftrightarrow>
     length (it_blocks st) \<le> MAX_RECENT_BLOCKS_IN_RAM \<and> successively follows (it_blocks st) \<and>
     (it_blocks st \<noteq> [] \<longrightarrow> it_has_tip st \<and> m_index (bl_metadata (last (it_blocks st))) = it_tip_height st \<and>
        bl_block_hash (last (it_blocks st)) = it_tip_hash st) \<and>
     hvalues_sum (it_balances st) \<le> MAX_SUPPLY \<and> it_total_issued_micro st \<le> MAX_SUPPLY \<and>
     it_rewards_issued_micro st \<le> MAX_REWARD_SUPPLY"

lemma recent_links_iff: "verify_recent_links bs = Inr () \<longleftrightarrow> successively follows bs"
  by (induction bs rule: verify_recent_links.induct) (auto simp: follows_def)

lemma balance_sum_Inr:
  "foldR (\<lambda>acc v. ok_or e (checked_add 64 acc v)) 0 (map snd m) = Inr s \<longleftrightarrow> s = hvalues_sum m \<and> s < 2 ^ 64"
  unfolding hvalues_sum_def by (subst foldR_checked_sum) simp_all

lemma verify_compact_iff:
  "verify_compact_state_invariants st eh et ep = Inr () \<longleftrightarrow>
     compact_inv st \<and> (\<forall>h. eh = Some h \<longrightarrow> it_has_tip st \<and> it_tip_height st = h) \<and>
     (\<forall>h. et = Some h \<longrightarrow> it_has_tip st \<and> it_tip_hash st = h) \<and>
     (\<forall>h. ep = Some h \<longrightarrow> it_has_tip st \<and> it_prev_tip_hash st = h)"
proof -
  have m: "hvalues_sum (it_balances st) \<le> MAX_SUPPLY \<Longrightarrow> hvalues_sum (it_balances st) < 2 ^ 64"
    using MAX_SUPPLY_u64 by linarith
  show ?thesis
    unfolding verify_compact_state_invariants_def compact_inv_def
    by (cases eh; cases et; cases ep)
       (auto simp: res_simps recent_links_iff balance_sum_Inr m [simplified] not_less split: if_splits)
qed

lemma cap_recent_props:
  "length (cap_recent bs) \<le> MAX_RECENT_BLOCKS_IN_RAM" "bs \<noteq> [] \<Longrightarrow> cap_recent bs \<noteq> []"
  "bs \<noteq> [] \<Longrightarrow> last (cap_recent bs) = last bs" "successively P bs \<Longrightarrow> successively P (cap_recent bs)"
proof -
  have "successively P (drop n bs)" if "successively P bs" for n
    using that successively_append_iff [of P "take n bs" "drop n bs"] by simp
  then show "successively P bs \<Longrightarrow> successively P (cap_recent bs)" by (simp add: cap_recent_def)
qed (auto simp: cap_recent_def MAX_RECENT_BLOCKS_IN_RAM_def last_drop)

definition links :: "InnerTree \<Rightarrow> Block \<Rightarrow> bool" where
  "links st b \<longleftrightarrow> validate_next_block_link st b = Inr ()"

lemma links_iff:
  "links st b \<longleftrightarrow> m_index (bl_metadata b) = expected_next_height st \<and>
     (it_has_tip st \<longrightarrow> m_previous_hash (bl_metadata b) = it_tip_hash st)"
  by (auto simp: links_def validate_next_block_link_def)

lemma remember_simps [simp]:
  "it_has_tip (remember_recent_block st b)" "it_tip_height (remember_recent_block st b) = m_index (bl_metadata b)"
  "it_tip_hash (remember_recent_block st b) = bl_block_hash b"
  "it_balances (remember_recent_block st b) = it_balances st"
  "it_total_issued_micro (remember_recent_block st b) = it_total_issued_micro st"
  "it_rewards_issued_micro (remember_recent_block st b) = it_rewards_issued_micro st"
  "it_reserved_issued_micro (remember_recent_block st b) = it_reserved_issued_micro st"
  "it_blocks (remember_recent_block st b) = cap_recent (it_blocks st @ [b])"
  "expected_next_height (remember_recent_block st b) = saturating_add 64 (m_index (bl_metadata b)) 1"
  by (simp_all add: remember_recent_block_def expected_next_height_def)

lemma remember_compact:
  assumes "compact_inv st" and "links st b"
  shows "compact_inv (remember_recent_block st b)"
proof -
  have "successively follows (it_blocks st @ [b])"
    using assms by (auto simp: successively_append_iff compact_inv_def links_iff follows_def expected_next_height_def)
  then show ?thesis
    using assms(1) cap_recent_props [where bs = "it_blocks st @ [b]"] by (simp add: compact_inv_def)
qed

section \<open>The queue of early blocks\<close>

definition pending_ok :: "(nat, Block) hmap \<Rightarrow> bool" where
  "pending_ok m \<longleftrightarrow> wf_map m \<and> (\<forall>k b. hget m k = Some b \<longrightarrow> m_index (bl_metadata b) = k \<and> k < 2 ^ 64 - 1)"

lemma add_linked:
  assumes "compact_inv (am_inner t)" and "links (am_inner t) b"
  shows "add_block_step b t = (Inr True, t\<lparr>am_inner := remember_recent_block (am_inner t) b\<rparr>)"
proof -
  have "verify_compact_state_invariants (remember_recent_block (am_inner t) b) (Some (expected_next_height (am_inner t)))
      (Some (bl_block_hash b)) None = Inr ()"
    using remember_compact [OF assms] assms(2) by (simp add: verify_compact_iff links_iff)
  then show ?thesis
    using assms(2) by (auto simp: add_block_step_def Let_def links_def [symmetric] links_iff validate_next_block_link_def)
qed

lemma add_unlinked:
  assumes "\<not> links (am_inner t) b" and "m_index (bl_metadata b) = expected_next_height (am_inner t)"
  shows "\<exists>e. add_block_step b t = (Inl e, t)"
  using assms by (auto simp: add_block_step_def Let_def links_def validate_next_block_link_def split: sum.splits if_splits)

text \<open>A run of blocks, each linked to the state the previous ones give.\<close>

fun run_of :: "InnerTree \<Rightarrow> Block list \<Rightarrow> bool" where
  "run_of st [] \<longleftrightarrow> True"
| "run_of st (b # bs) \<longleftrightarrow> links st b \<and> run_of (remember_recent_block st b) bs"

abbreviation after :: "InnerTree \<Rightarrow> Block list \<Rightarrow> InnerTree" where
  "after st bs \<equiv> foldl remember_recent_block st bs"

lemma run_compact: "run_of st bs \<Longrightarrow> compact_inv st \<Longrightarrow> compact_inv (after st bs)"
  by (induction bs arbitrary: st) (auto intro: remember_compact)

lemma run_append: "run_of st (xs @ ys) \<longleftrightarrow> run_of st xs \<and> run_of (after st xs) ys"
  by (induction xs arbitrary: st) auto

lemma next_height_step:
  "links st b \<Longrightarrow> expected_next_height st < 2 ^ 64 - 1 \<Longrightarrow>
   expected_next_height (remember_recent_block st b) = expected_next_height st + 1"
  by (simp add: links_iff saturating_add_def)


text \<open>
  What the queue becomes when the blocks \<open>cs\<close> were taken from it: the first height after them is empty
  too, since an entry there that is not linked is dropped.
\<close>

definition drained :: "nat \<Rightarrow> Block list \<Rightarrow> (nat, Block) hmap \<Rightarrow> (nat, Block) hmap \<Rightarrow> bool" where
  "drained h cs m m' \<longleftrightarrow>
     (\<forall>i<length cs. hget m (h + i) = Some (cs ! i)) \<and>
     (\<forall>k. hget m' k = (if h \<le> k \<and> k \<le> h + length cs then None else hget m k))"

lemma process_None:
  "hget (am_pending_blocks t) (expected_next_height (am_inner t)) = None \<Longrightarrow> process_pending_blocks t = Some t"
  by (subst process_pending_blocks.simps) (simp add: Let_def)

lemma process_Some:
  "hget (am_pending_blocks t) (expected_next_height (am_inner t)) = Some b \<Longrightarrow>
   process_pending_blocks t =
     (case add_block_step b (t\<lparr>am_pending_blocks := hremove (expected_next_height (am_inner t)) (am_pending_blocks t)\<rparr>) of
        (Inl e, t1) \<Rightarrow> Some t1
      | (Inr True, t1) \<Rightarrow> Option.bind (process_pending_blocks t1) process_pending_blocks
      | (Inr False, t1) \<Rightarrow> process_pending_blocks t1)"
  by (subst process_pending_blocks.simps) (auto simp: Let_def split: prod.splits sum.splits bool.splits)

lemma pending_ok_hremove: "pending_ok m \<Longrightarrow> pending_ok (hremove k m)"
  by (auto simp: pending_ok_def hget_hremove split: if_splits)

lemma process_pending_drains:
  assumes "compact_inv (am_inner t)" and "pending_ok (am_pending_blocks t)" and "expected_next_height (am_inner t) < 2 ^ 64"
  shows "\<exists>t' cs. process_pending_blocks t = Some t' \<and> run_of (am_inner t) cs \<and>
    t' = t\<lparr>am_inner := after (am_inner t) cs, am_pending_blocks := am_pending_blocks t'\<rparr> \<and>
    pending_ok (am_pending_blocks t') \<and> length (am_pending_blocks t') \<le> length (am_pending_blocks t) \<and>
    expected_next_height (am_inner t') = expected_next_height (am_inner t) + length cs \<and>
    drained (expected_next_height (am_inner t)) cs (am_pending_blocks t) (am_pending_blocks t') \<and>
    (\<forall>b. hget (am_pending_blocks t) (expected_next_height (am_inner t')) = Some b \<longrightarrow> \<not> links (am_inner t') b)"
  using assms
proof (induction "length (am_pending_blocks t)" arbitrary: t rule: less_induct)
  case less
  let ?h = "expected_next_height (am_inner t)" and ?m = "am_pending_blocks t"
  show ?case
  proof (cases "hget ?m ?h")
    case None
    then show ?thesis
      using less.prems by (intro exI [of _ t] exI [of _ "[]"]) (auto simp: process_None drained_def)
  next
    case (Some b)
    define t0 where "t0 = t\<lparr>am_pending_blocks := hremove ?h ?m\<rparr>"
    have b: "m_index (bl_metadata b) = ?h" "?h < 2 ^ 64 - 1"
      using Some less.prems(2) by (auto simp: pending_ok_def)
    have len: "length (am_pending_blocks t0) < length ?m" using length_hremove_less [of ?m ?h] Some by (simp add: t0_def)
    have ok0: "pending_ok (am_pending_blocks t0)" using pending_ok_hremove [OF less.prems(2)] by (simp add: t0_def)
    have get0: "hget (am_pending_blocks t0) k = (if k = ?h then None else hget ?m k)" for k
      by (simp add: t0_def hget_hremove)
    show ?thesis
    proof (cases "links (am_inner t) b")
      case False
      then obtain e where "add_block_step b t0 = (Inl e, t0)" using add_unlinked [of t0 b] b by (auto simp: t0_def)
      then have "process_pending_blocks t = Some t0" by (simp add: process_Some [OF Some] t0_def [symmetric])
      then show ?thesis
        using False ok0 len get0 Some
        by (intro exI [of _ t0] exI [of _ "[]"]) (auto simp: drained_def, simp_all add: t0_def)
    next
      case True
      define t1 where "t1 = t0\<lparr>am_inner := remember_recent_block (am_inner t) b\<rparr>"
      have step: "add_block_step b t0 = (Inr True, t1)"
        using add_linked [of t0 b] less.prems(1) True by (simp add: t0_def t1_def)
      have p1: "am_pending_blocks t1 = am_pending_blocks t0" "am_inner t1 = remember_recent_block (am_inner t) b"
        by (simp_all add: t1_def)
      have h1: "expected_next_height (am_inner t1) = ?h + 1" using next_height_step [OF True b(2)] by (simp add: p1)
      have c1: "compact_inv (am_inner t1)" using remember_compact [OF less.prems(1) True] by (simp add: p1)
      obtain t2 cs where t2: "process_pending_blocks t1 = Some t2" "run_of (am_inner t1) cs"
          "t2 = t1\<lparr>am_inner := after (am_inner t1) cs, am_pending_blocks := am_pending_blocks t2\<rparr>"
          "pending_ok (am_pending_blocks t2)" "length (am_pending_blocks t2) \<le> length (am_pending_blocks t1)"
          "expected_next_height (am_inner t2) = ?h + 1 + length cs"
          "drained (?h + 1) cs (am_pending_blocks t1) (am_pending_blocks t2)"
          "\<forall>b. hget (am_pending_blocks t1) (expected_next_height (am_inner t2)) = Some b \<longrightarrow> \<not> links (am_inner t2) b"
        using less.hyps [of t1, unfolded p1(1), OF len _ ok0] c1 b(2) by (auto simp: h1 p1(1))
      have "process_pending_blocks t2 = Some t2" using t2(6,7) by (intro process_None) (simp add: drained_def)
      then have run: "process_pending_blocks t = Some t2"
        by (simp add: process_Some [OF Some] t0_def [symmetric] step t2(1))
      have "drained ?h (b # cs) ?m (am_pending_blocks t2)"
        using t2(7) Some by (auto simp: drained_def p1(1) get0 nth_Cons split: nat.splits)
      moreover have "t2 = t\<lparr>am_inner := after (am_inner t) (b # cs), am_pending_blocks := am_pending_blocks t2\<rparr>"
        by (subst t2(3)) (simp add: t1_def t0_def)
      moreover have "\<forall>b. hget ?m (expected_next_height (am_inner t2)) = Some b \<longrightarrow> \<not> links (am_inner t2) b"
        using t2(6,8) by (simp add: p1(1) get0)
      ultimately show ?thesis
        using run True t2 len by (intro exI [of _ t2] exI [of _ "b # cs"]) (simp add: p1)
    qed
  qed
qed


section \<open>Blocks in any order\<close>

fun add_blocks :: "Block list \<Rightarrow> 'db AccountModelTree \<Rightarrow> 'db AccountModelTree option" where
  "add_blocks [] t = Some t"
| "add_blocks (b # bs) t = (case add_block b t of Some (Inr _, t') \<Rightarrow> add_blocks bs t' | _ \<Rightarrow> None)"

lemma after_height:
  "run_of st bs \<Longrightarrow> expected_next_height st + length bs < 2 ^ 64 \<Longrightarrow>
   expected_next_height (after st bs) = expected_next_height st + length bs"
proof (induction bs arbitrary: st)
  case (Cons b bs)
  then have "expected_next_height (remember_recent_block st b) = expected_next_height st + 1"
    by (intro next_height_step) auto
  then show ?case using Cons by simp
qed simp

lemma run_nth:
  assumes "run_of st bs" and "k < length bs"
  shows "links (after st (take k bs)) (bs ! k)"
  using assms run_append [of st "take k bs" "bs ! k # drop (Suc k) bs"] by (simp add: id_take_nth_drop [symmetric])

lemma run_take: "run_of st bs \<Longrightarrow> run_of st (take k bs)"
  using run_append [of st "take k bs" "drop k bs"] by simp

lemma run_nth_height:
  assumes "run_of st bs" and "k < length bs" and "expected_next_height st + length bs < 2 ^ 64"
  shows "m_index (bl_metadata (bs ! k)) = expected_next_height st + k"
    and "expected_next_height (after st (take k bs)) = expected_next_height st + k"
  using run_nth [OF assms(1,2)] after_height [OF run_take [OF assms(1), of k]] assms(2,3) by (simp_all add: links_iff)

lemma after_take_Suc: "k < length bs \<Longrightarrow> after st (take (Suc k) bs) = remember_recent_block (after st (take k bs)) (bs ! k)"
  by (simp add: take_Suc_conv_app_nth)

text \<open>
  The tree when the blocks of a set have arrived: the longest prefix that is complete is in the chain, and the
  arrived blocks behind the first gap are in the queue.
\<close>

definition arrived :: "'db AccountModelTree \<Rightarrow> Block list \<Rightarrow> Block set \<Rightarrow> 'db AccountModelTree \<Rightarrow> bool" where
  "arrived t0 bs D t \<longleftrightarrow>
     (\<exists>k\<le>length bs. (\<forall>i<k. bs ! i \<in> D) \<and> (k < length bs \<longrightarrow> bs ! k \<notin> D) \<and>
        t = t0\<lparr>am_inner := after (am_inner t0) (take k bs), am_pending_blocks := am_pending_blocks t\<rparr> \<and>
        wf_map (am_pending_blocks t) \<and>
        (\<forall>h b. hget (am_pending_blocks t) h = Some b \<longleftrightarrow>
           (\<exists>i>k. i < length bs \<and> h = expected_next_height (am_inner t0) + i \<and> b = bs ! i \<and> b \<in> D)))"

lemma arrivedI:
  assumes "k \<le> length bs" and "\<And>i. i < k \<Longrightarrow> bs ! i \<in> D" and "k < length bs \<Longrightarrow> bs ! k \<notin> D"
    and "am_inner t = after (am_inner t0) (take k bs)" and "am_db t = am_db t0" and "wf_map (am_pending_blocks t)"
    and "\<And>h b. hget (am_pending_blocks t) h = Some b \<longleftrightarrow>
           (\<exists>i>k. i < length bs \<and> h = expected_next_height (am_inner t0) + i \<and> b = bs ! i \<and> b \<in> D)"
  shows "arrived t0 bs D t"
proof -
  have "t = t0\<lparr>am_inner := after (am_inner t0) (take k bs), am_pending_blocks := am_pending_blocks t\<rparr>"
    by (rule AccountModelTree.equality) (simp_all add: assms(4,5))
  then show ?thesis unfolding arrived_def using assms(1-3,6,7) by blast
qed

lemma queue_small:
  assumes "wf_map m" and "\<And>h b. hget m h = Some b \<Longrightarrow> lo \<le> h \<and> h < lo + n"
  shows "length m \<le> n"
proof -
  have "fst ` set m \<subseteq> {lo..<lo + n}"
    using assms(2) by (metis atLeastLessThan_iff domD dom_map_of_conv_image_fst subsetI)
  then have "card (fst ` set m) \<le> n" using card_mono [of "{lo..<lo + n}"] by simp
  then show ?thesis using assms(1) by (metis distinct_card length_map list.set_map wf_map_def)
qed

lemma arrival_in_order:
  assumes c: "compact_inv (am_inner t0)" and r: "run_of (am_inner t0) bs"
    and n: "expected_next_height (am_inner t0) + length bs < 2 ^ 64 - 1"
    and k: "k < length bs" "\<forall>i<k. bs ! i \<in> D" and new: "bs ! k \<notin> D"
    and t: "t = t0\<lparr>am_inner := after (am_inner t0) (take k bs), am_pending_blocks := am_pending_blocks t\<rparr>"
    and wf: "wf_map (am_pending_blocks t)"
    and q: "\<And>h b. hget (am_pending_blocks t) h = Some b \<longleftrightarrow>
           (\<exists>i>k. i < length bs \<and> h = expected_next_height (am_inner t0) + i \<and> b = bs ! i \<and> b \<in> D)"
  shows "\<exists>t'. add_block (bs ! k) t = Some (Inr (), t') \<and> arrived t0 bs (insert (bs ! k) D) t'"
proof -
  let ?h = "expected_next_height (am_inner t0)" and ?st = "am_inner t0"
  define t1 where "t1 = t\<lparr>am_inner := after ?st (take (Suc k) bs)\<rparr>"
  have u: "?h + length bs < 2 ^ 64" using n by linarith
  have it: "am_inner t = after ?st (take k bs)" by (subst t) simp
  have step: "add_block_step (bs ! k) t = (Inr True, t1)"
    unfolding t1_def after_take_Suc [OF k(1)] it [symmetric]
    by (rule add_linked) (simp_all add: it run_nth [OF r k(1)] run_compact [OF run_take [OF r] c])
  have i1: "am_inner t1 = after ?st (take (Suc k) bs)" "am_pending_blocks t1 = am_pending_blocks t" by (simp_all add: t1_def)
  have h1: "expected_next_height (am_inner t1) = ?h + Suc k"
    unfolding i1 using after_height [OF run_take [OF r, of "Suc k"]] k(1) u by simp
  have pok: "pending_ok (am_pending_blocks t1)"
    using n by (auto simp: pending_ok_def i1 wf q run_nth_height(1) [OF r _ u])
  have c1: "compact_inv (am_inner t1)" unfolding i1 by (rule run_compact [OF run_take [OF r] c])
  have lt1: "expected_next_height (am_inner t1) < 2 ^ 64" using h1 k(1) u by simp
  obtain t2 cs where t2: "process_pending_blocks t1 = Some t2"
      "t2 = t1\<lparr>am_inner := after (am_inner t1) cs, am_pending_blocks := am_pending_blocks t2\<rparr>"
      "pending_ok (am_pending_blocks t2)" "expected_next_height (am_inner t2) = ?h + Suc k + length cs"
      "drained (?h + Suc k) cs (am_pending_blocks t) (am_pending_blocks t2)"
      "\<forall>b. hget (am_pending_blocks t) (expected_next_height (am_inner t2)) = Some b \<longrightarrow> \<not> links (am_inner t2) b"
    using process_pending_drains [OF c1 pok lt1] unfolding h1 i1(2) by blast
  define k' where "k' = Suc k + length cs"
  have cs: "Suc k + j < length bs" "cs ! j = bs ! (Suc k + j)" "cs ! j \<in> D" if "j < length cs" for j
    using t2(5) that by (auto simp: drained_def q)
  have le: "k' \<le> length bs" using cs(1) [of "length cs - 1"] k(1) by (cases cs) (auto simp: k'_def)
  have seg: "take (Suc k) bs @ cs = take k' bs"
    using le k(1) cs(2) by (intro nth_equalityI) (auto simp: k'_def nth_append)
  then have i2: "am_inner t2 = after ?st (take k' bs)"
    by (subst t2(2)) (simp add: i1 seg [symmetric])
  have "am_db t = am_db t0" by (subst t) simp
  then have db: "am_db t2 = am_db t0" by (subst t2(2)) (simp add: t1_def)
  have prefix: "bs ! i \<in> insert (bs ! k) D" if "i < k'" for i
  proof (cases "i \<le> k")
    case False
    then show ?thesis using cs(2,3) [of "i - Suc k"] that by (simp add: k'_def)
  qed (use k(2) in \<open>auto simp: le_less\<close>)
  have gap: "bs ! k' \<notin> insert (bs ! k) D" if lt: "k' < length bs"
  proof -
    have "bs ! k' \<noteq> bs ! k"
      using run_nth_height(1) [OF r lt u] run_nth_height(1) [OF r k(1) u] by (auto simp: k'_def)
    moreover have "bs ! k' \<notin> D"
    proof
      assume "bs ! k' \<in> D"
      then have "hget (am_pending_blocks t) (?h + k') = Some (bs ! k')" using lt by (auto simp: q k'_def)
      then show False using t2(4,6) run_nth [OF r lt] by (auto simp: i2 k'_def add.assoc)
    qed
    ultimately show ?thesis by simp
  qed
  have queue: "hget (am_pending_blocks t2) h = Some b \<longleftrightarrow>
      (\<exists>i>k'. i < length bs \<and> h = ?h + i \<and> b = bs ! i \<and> b \<in> insert (bs ! k) D)" for h b
  proof -
    have "bs ! i \<noteq> bs ! k" if "i > k'" "i < length bs" for i
      using run_nth_height(1) [OF r that(2) u] run_nth_height(1) [OF r k(1) u] that(1) by (auto simp: k'_def)
    then have "(\<exists>i>k'. i < length bs \<and> h = ?h + i \<and> b = bs ! i \<and> b \<in> insert (bs ! k) D) \<longleftrightarrow>
        h > ?h + k' \<and> (\<exists>i>k. i < length bs \<and> h = ?h + i \<and> b = bs ! i \<and> b \<in> D)"
      by (auto simp: k'_def)
    moreover have "hget (am_pending_blocks t2) h = Some b \<longleftrightarrow> \<not> (?h + Suc k \<le> h \<and> h \<le> ?h + k') \<and> hget (am_pending_blocks t) h = Some b"
      using t2(5) by (simp add: drained_def k'_def add.assoc)
    ultimately show ?thesis unfolding q by auto
  qed
  have "wf_map (am_pending_blocks t2)" using t2(3) by (simp add: pending_ok_def)
  with le prefix gap i2 db have "arrived t0 bs (insert (bs ! k) D) t2" using queue by (rule arrivedI)
  moreover have "add_block (bs ! k) t = Some (Inr (), t2)" by (simp add: add_block_def step t2(1))
  ultimately show ?thesis by blast
qed


lemma arrival_early:
  assumes r: "run_of (am_inner t0) bs" and n: "expected_next_height (am_inner t0) + length bs < 2 ^ 64 - 1"
    and len: "length bs \<le> MAX_PENDING_BLOCK_DISTANCE" and i: "k < i" "i < length bs" and new: "bs ! i \<notin> D"
    and k: "\<forall>j<k. bs ! j \<in> D" "bs ! k \<notin> D"
    and t: "t = t0\<lparr>am_inner := after (am_inner t0) (take k bs), am_pending_blocks := am_pending_blocks t\<rparr>"
    and wf: "wf_map (am_pending_blocks t)"
    and q: "\<And>h b. hget (am_pending_blocks t) h = Some b \<longleftrightarrow>
           (\<exists>i>k. i < length bs \<and> h = expected_next_height (am_inner t0) + i \<and> b = bs ! i \<and> b \<in> D)"
  shows "\<exists>t'. add_block (bs ! i) t = Some (Inr (), t') \<and> arrived t0 bs (insert (bs ! i) D) t'"
proof -
  let ?h = "expected_next_height (am_inner t0)"
  define t' where "t' = t\<lparr>am_pending_blocks := hinsert (?h + i) (bs ! i) (am_pending_blocks t)\<rparr>"
  have u: "?h + length bs < 2 ^ 64" and kl: "k < length bs" using n i by linarith+
  have it: "am_inner t = after (am_inner t0) (take k bs)" by (subst t) simp
  have hk: "expected_next_height (am_inner t) = ?h + k" unfolding it by (rule run_nth_height(2) [OF r kl u])
  have "length (am_pending_blocks t) \<le> length bs" by (rule queue_small [OF wf, where lo = ?h]) (auto simp: q)
  then have small: "length (am_pending_blocks t) < MAX_PENDING_BLOCKS"
    using len by (simp add: MAX_PENDING_BLOCK_DISTANCE_def MAX_PENDING_BLOCKS_def)
  have step: "add_block_step (bs ! i) t = (Inr False, t')"
    using i len small
    by (simp add: add_block_step_def Let_def hk run_nth_height(1) [OF r i(2) u] saturating_sub_def t'_def)
  have ht: "m_index (bl_metadata (bs ! j)) = ?h + j" if "j < length bs" for j by (rule run_nth_height(1) [OF r that u])
  have ne: "bs ! j = bs ! i \<longleftrightarrow> j = i" if "j < length bs" for j by (metis add_left_cancel ht i(2) that)
  have queue: "hget (am_pending_blocks t') h = Some b \<longleftrightarrow>
      (\<exists>j>k. j < length bs \<and> h = ?h + j \<and> b = bs ! j \<and> b \<in> insert (bs ! i) D)" for h b
  proof (cases "h = ?h + i")
    case True
    then have "(\<exists>j>k. j < length bs \<and> h = ?h + j \<and> b = bs ! j \<and> b \<in> insert (bs ! i) D) \<longleftrightarrow> b = bs ! i"
      using i by auto
    then show ?thesis using True by (auto simp: t'_def)
  next
    case False
    then have "(\<exists>j>k. j < length bs \<and> h = ?h + j \<and> b = bs ! j \<and> b \<in> insert (bs ! i) D) \<longleftrightarrow>
        (\<exists>j>k. j < length bs \<and> h = ?h + j \<and> b = bs ! j \<and> b \<in> D)"
      using ne by blast
    then show ?thesis using False q [of h b] by (simp add: t'_def)
  qed
  have db: "am_db t = am_db t0" by (subst t) simp
  have "arrived t0 bs (insert (bs ! i) D) t'"
  proof (rule arrivedI [where k = k])
    show "bs ! k \<notin> insert (bs ! i) D" using k(2) ne [OF kl] i(1) by simp
    show "hget (am_pending_blocks t') h = Some b \<longleftrightarrow>
      (\<exists>j>k. j < length bs \<and> h = ?h + j \<and> b = bs ! j \<and> b \<in> insert (bs ! i) D)" for h b by (rule queue)
  qed (use k(1) kl it db wf in \<open>simp_all add: t'_def\<close>)
  moreover have "add_block (bs ! i) t = Some (Inr (), t')" by (simp add: add_block_def step)
  ultimately show ?thesis by blast
qed

lemma arrival_step:
  assumes c: "compact_inv (am_inner t0)" and r: "run_of (am_inner t0) bs"
    and n: "expected_next_height (am_inner t0) + length bs < 2 ^ 64 - 1" and len: "length bs \<le> MAX_PENDING_BLOCK_DISTANCE"
    and a: "arrived t0 bs D t" and b: "b \<in> set bs" "b \<notin> D"
  shows "\<exists>t'. add_block b t = Some (Inr (), t') \<and> arrived t0 bs (insert b D) t'"
proof -
  from a obtain k where k: "k \<le> length bs" "\<forall>i<k. bs ! i \<in> D" "k < length bs \<longrightarrow> bs ! k \<notin> D"
      "t = t0\<lparr>am_inner := after (am_inner t0) (take k bs), am_pending_blocks := am_pending_blocks t\<rparr>"
      "wf_map (am_pending_blocks t)"
      "\<And>h b. hget (am_pending_blocks t) h = Some b \<longleftrightarrow>
           (\<exists>i>k. i < length bs \<and> h = expected_next_height (am_inner t0) + i \<and> b = bs ! i \<and> b \<in> D)"
    unfolding arrived_def by auto
  from b(1) obtain i where i: "i < length bs" "b = bs ! i" by (auto simp: in_set_conv_nth)
  have "k \<le> i" using k(2) b(2) i by (metis not_le)
  then consider "i = k" | "k < i" by linarith
  then show ?thesis
  proof cases
    case 1
    then show ?thesis using arrival_in_order [OF c r n _ k(2) _ k(4,5,6)] i b(2) by simp
  next
    case 2
    then show ?thesis using arrival_early [OF r n len _ _ _ k(2) _ k(4,5,6)] i b(2) k(3) by simp
  qed
qed

lemma arrivals:
  assumes "compact_inv (am_inner t0)" and "run_of (am_inner t0) bs"
    and "expected_next_height (am_inner t0) + length bs < 2 ^ 64 - 1" and "length bs \<le> MAX_PENDING_BLOCK_DISTANCE"
    and "arrived t0 bs D t" and "distinct as" and "set as \<subseteq> set bs" and "set as \<inter> D = {}"
  shows "\<exists>t'. add_blocks as t = Some t' \<and> arrived t0 bs (set as \<union> D) t'"
  using assms(5-)
proof (induction as arbitrary: D t)
  case (Cons b as)
  obtain t1 where t1: "add_block b t = Some (Inr (), t1)" "arrived t0 bs (insert b D) t1"
    using arrival_step [OF assms(1-4) Cons.prems(1), of b] Cons.prems by auto
  from Cons.IH [OF t1(2)] Cons.prems show ?case by (auto simp: t1(1))
qed simp

lemma arrived_all:
  assumes "arrived t0 bs (set bs) t"
  shows "t = t0\<lparr>am_inner := after (am_inner t0) bs, am_pending_blocks := []\<rparr>"
proof -
  from assms obtain k where k: "k \<le> length bs" "k < length bs \<longrightarrow> bs ! k \<notin> set bs"
      "t = t0\<lparr>am_inner := after (am_inner t0) (take k bs), am_pending_blocks := am_pending_blocks t\<rparr>"
      "\<And>h b. hget (am_pending_blocks t) h = Some b \<longleftrightarrow>
           (\<exists>i>k. i < length bs \<and> h = expected_next_height (am_inner t0) + i \<and> b = bs ! i \<and> b \<in> set bs)"
    unfolding arrived_def by auto
  have l: "k = length bs" using k(1,2) by (metis le_neq_implies_less nth_mem)
  then have "hget (am_pending_blocks t) h \<noteq> Some b" for h b unfolding k(4) by simp
  then have "hget (am_pending_blocks t) h = None" for h by (metis not_Some_eq)
  then have "am_pending_blocks t = []" by (metis empty_eq_map_of_iff ext)
  then show ?thesis using k(3) by (simp add: l)
qed

lemma arrived_none: "am_pending_blocks t0 = [] \<Longrightarrow> arrived t0 bs {} t0"
  unfolding arrived_def by (intro exI [of _ 0]) simp

text \<open>C27. A chain of at most 1024 blocks that arrive in any order: every call of \<open>add_block\<close> returns without an
  error, the recursion between it and the processing of the queue ends, and the tree is the one the
  blocks give in their order, with an empty queue.\<close>

theorem add_block_any_order:
  assumes "compact_inv (am_inner t)" and "am_pending_blocks t = []" and "run_of (am_inner t) bs"
    and "length bs \<le> MAX_PENDING_BLOCK_DISTANCE" and "expected_next_height (am_inner t) + length bs < 2 ^ 64 - 1"
    and "mset as = mset bs"
  shows "add_blocks as t = Some (t\<lparr>am_inner := after (am_inner t) bs\<rparr>)"
proof -
  have "distinct bs"
  proof (subst distinct_conv_nth, intro allI impI)
    fix i j assume ij: "i < length bs" "j < length bs" "i \<noteq> j"
    have u: "expected_next_height (am_inner t) + length bs < 2 ^ 64" using assms(5) by linarith
    show "bs ! i \<noteq> bs ! j"
      using run_nth_height(1) [OF assms(3) ij(1) u] run_nth_height(1) [OF assms(3) ij(2) u] ij(3) by auto
  qed
  then have as: "distinct as" "set as = set bs" using assms(6) by (metis distinct_count_atmost_1 mset_eq_setD, metis mset_eq_setD)
  obtain t' where "add_blocks as t = Some t'" "arrived t bs (set as) t'"
    using arrivals [OF assms(1,3,5,4) arrived_none [OF assms(2)] as(1)] as(2) by auto
  then show ?thesis using arrived_all [of t bs t'] as(2) assms(2) by simp
qed


text \<open>Two blocks on the empty tree, the second first.\<close>

definition next_block :: Block where
  "next_block = sample_block\<lparr>bl_metadata := sample_meta\<lparr>m_index := 1, m_previous_hash := replicate 64 1\<rparr>,
     bl_block_hash := replicate 64 2\<rparr>"

lemma sample_links:
  "links inner_empty sample_block" "links (remember_recent_block inner_empty sample_block) next_block"
  by (simp_all add: links_iff next_block_def sample_block_def sample_meta_def)
     (simp_all add: expected_next_height_def inner_empty_def saturating_add_def)

lemma empty_compact: "compact_inv inner_empty"
  by (simp add: compact_inv_def inner_empty_def hvalues_sum_def)

theorem add_block_any_order_witness:
  "add_blocks [next_block, sample_block] (tree_with_manager (mem_manager [])) =
     Some ((tree_with_manager (mem_manager []))\<lparr>am_inner :=
       remember_recent_block (remember_recent_block inner_empty sample_block) next_block\<rparr>)"
proof -
  have i: "am_inner (tree_with_manager (mem_manager [])) = inner_empty"
    "am_pending_blocks (tree_with_manager (mem_manager [])) = []" by (simp_all add: tree_with_manager_def)
  have "expected_next_height inner_empty = 0" by (simp add: expected_next_height_def inner_empty_def)
  then show ?thesis
    using add_block_any_order [of "tree_with_manager (mem_manager [])" "[sample_block, next_block]" "[next_block, sample_block]"]
    by (simp add: i empty_compact sample_links MAX_PENDING_BLOCK_DISTANCE_def)
qed

end
