(* ===== verification/AccountReplay.thy ===== *)
theory AccountReplay
  imports AccountTreeProps
begin

text \<open>
  Memory, disk and replay of the account tree: the snapshot restores the state, a block is applied in full or
  leaves the state in memory as it was, and the replay of the stored chain computes the same state as the live
  application of its blocks. The last section shows what a rollback does not undo: the NFT records.
\<close>

section \<open>What the operations change\<close>

lemma on_tree_db_Inr [res_simps]:
  "on_tree_db m t = (Inr y, t') \<longleftrightarrow> (\<exists>mg. m (am_db t) = (Inr y, mg) \<and> t' = t\<lparr>am_db := mg\<rparr>)"
  by (auto simp: on_tree_db_def split: prod.splits)

lemma on_tree_db_frames [frames]:
  "preserves f m \<Longrightarrow> preserves (\<lambda>t. f (am_db t)) (on_tree_db m)"
  "preserves am_inner (on_tree_db m)" "preserves am_pending_blocks (on_tree_db m)"
  by (auto simp: preserves_def on_tree_db_def split: prod.splits)

lemma skip_denied_frames [frames]: "preserves f m \<Longrightarrow> preserves f (skip_denied m)"
  unfolding preserves_def skip_denied_def by (fastforce split: prod.splits sum.splits if_splits)

lemma store_metadata_frames [frames]:
  "engine_ok G view \<Longrightarrow> cf \<noteq> GLOBAL_COLUMN_NAME \<Longrightarrow> keeps view cf (store_metadata G k v)"
  "preserves mg_mode (store_metadata G k v)"
proof -
  assume a: "engine_ok G view" "cf \<noteq> GLOBAL_COLUMN_NAME"
  show "keeps view cf (store_metadata G k v)"
    unfolding preserves_def store_metadata_def
    using on_mode_db_columns [of _ "put_global G (str_bytes k) v" _ _ _ view cf] put_global_columns [OF a] by blast
qed (auto simp: preserves_def store_metadata_def on_mode_db_def split: Mode.splits sum.splits prod.splits)

lemma nft_frames [frames]:
  assumes "\<And>k v. preserves f (store_metadata G k v)"
  shows "preserves f (store_nft_record G E N r)" and "preserves f (apply_nft_mint G E N mint w h ts)"
    and "preserves f (apply_nft_transfer G E N ntr w h ts)" and "preserves f (replay_nft G T w h ts kind)"
    and "preserves f (apply_nft_mints_for_block G T block batch)"
    and "preserves f (apply_nft_transfers_for_block G T block batch)"
proof -
  show s: "preserves f (store_nft_record G E N r)" for E N r
    unfolding store_nft_record_def by (intro frames assms)
  show m: "preserves f (apply_nft_mint G E N mint w h ts)" for E N mint w h ts
    unfolding apply_nft_mint_def by (intro frames s)
  show t: "preserves f (apply_nft_transfer G E N ntr w h ts)" for E N ntr w h ts
    unfolding apply_nft_transfer_def by (intro frames s)
  show "preserves f (replay_nft G T w h ts kind)"
    unfolding replay_nft_def by (cases kind) (auto intro!: frames m t)
  show "preserves f (apply_nft_mints_for_block G T block batch)"
    unfolding apply_nft_mints_for_block_def by (rule preserves_forS) (auto intro!: frames m split: TxKind.splits)
  show "preserves f (apply_nft_transfers_for_block G T block batch)"
    unfolding apply_nft_transfers_for_block_def by (rule preserves_forS) (auto intro!: frames t split: TxKind.splits)
qed

section \<open>The snapshot\<close>

text \<open>Decoding inverts encoding and leaves nothing over.\<close>

definition snapshot_codec_ok :: "TreeExt \<Rightarrow> bool" where
  "snapshot_codec_ok T \<longleftrightarrow> (\<forall>s b. te_snapshot T s = Inr b \<longrightarrow> te_snapshot_take T b = Inr (s, []))"

definition on_disk :: "('db \<Rightarrow> kv_view) \<Rightarrow> TreeExt \<Rightarrow> 'db RockDBManager \<Rightarrow> InnerTree \<Rightarrow> bool" where
  "on_disk view T mg st \<longleftrightarrow>
     (\<exists>b. te_snapshot T (snapshot_from_inner st) = Inr b \<and> mview view mg STATE_COLUMN_NAME STATE_KEY = Some b)"

lemma more_columns [simp]:
  "STATE_COLUMN_NAME \<noteq> META_DATA_COLUMN_NAME" "STATE_COLUMN_NAME \<noteq> ACCOUNT_COLUMN_NAME"
  "STATE_COLUMN_NAME \<noteq> GLOBAL_COLUMN_NAME" "BLOCKMINT_DATA_COLUMN_NAME \<noteq> STATE_COLUMN_NAME"
  by (simp_all add: column_defs)

lemma commit_inner_Inr:
  assumes ok: "engine_ok G view" and m: "chain_mode mg" and c: "commit_inner_state G T st mg = (Inr u, mg')"
  shows "on_disk view T mg' st" "compact_inv st" "mg_mode mg' = mg_mode mg"
proof -
  obtain b where v: "verify_compact_state_invariants st None None None = Inr ()"
    and b: "te_snapshot T (snapshot_from_inner st) = Inr b"
    and w: "mg_write G STATE_COLUMN_NAME STATE_KEY b mg = (Inr u, mg')"
    using c by (auto simp: commit_inner_state_def res_simps split: if_splits)
  show "compact_inv st" using v by (simp add: verify_compact_iff)
  show "on_disk view T mg' st" using b mg_write_put [OF ok m _ w, of STATE_KEY] by (auto simp: on_disk_def)
  show "mg_mode mg' = mg_mode mg" by (rule preservesD [OF mode_frames(2) w])
qed

text \<open>What a restart makes of a state: the recent blocks are dropped, and counters that are zero are filled in from the balances, as
  \<open>backfill_total_issued_if_missing\<close> does.\<close>

definition restarted :: "InnerTree \<Rightarrow> InnerTree" where
  "restarted st =
     (let total = (if it_total_issued_micro st = 0 then hvalues_sum (it_balances st) else it_total_issued_micro st) in
      st\<lparr>it_blocks := [], it_total_issued_micro := total,
         it_rewards_issued_micro := (if it_rewards_issued_micro st = 0 then total else it_rewards_issued_micro st)\<rparr>)"

lemma restarted_twice: "restarted (restarted st) = restarted st"
  by (simp add: restarted_def Let_def)

lemma restarted_same:
  "restarted st = st\<lparr>it_blocks := []\<rparr> \<longleftrightarrow>
     (it_total_issued_micro st = 0 \<longrightarrow> hvalues_sum (it_balances st) = 0) \<and> (it_rewards_issued_micro st = 0 \<longrightarrow> it_total_issued_micro st = 0)"
  by (cases st) (auto simp: restarted_def Let_def)

lemma restarted_compact: "compact_inv st \<Longrightarrow> compact_inv (restarted st)"
  by (simp add: compact_inv_def restarted_def Let_def MAX_SUPPLY_def)

lemma backfill_restarted:
  assumes "compact_inv st"
  shows "backfill_total_issued_if_missing (st\<lparr>it_blocks := []\<rparr>) = Inr (restarted st)"
proof -
  have "hvalues_sum (it_balances st) < 2 ^ 64"
    using assms MAX_SUPPLY_u64 by (simp add: compact_inv_def)
  then have "foldR (\<lambda>acc v. ok_or e (checked_add 64 acc v)) 0 (map snd (it_balances st)) = Inr (hvalues_sum (it_balances st))" for e :: ErrorDetection
    by (simp add: balance_sum_Inr)
  moreover have "it_balances st = [] \<Longrightarrow> hvalues_sum (it_balances st) = 0" by (simp add: hvalues_sum_def)
  ultimately show ?thesis by (cases st) (auto simp: backfill_total_issued_if_missing_def restarted_def Let_def)
qed

lemma decode_snapshot:
  assumes "snapshot_codec_ok T" and "te_snapshot T (snapshot_from_inner st) = Inr b" and "compact_inv st"
  shows "decode_inner_state_strict T b = Inr (restarted st)"
proof -
  have eq: "inner_from_snapshot (snapshot_from_inner st) = st\<lparr>it_blocks := []\<rparr>"
    by (simp add: inner_from_snapshot_def snapshot_from_inner_def)
  have "verify_compact_state_invariants (restarted st) None None None = Inr ()"
    using restarted_compact [OF assms(3)] by (simp add: verify_compact_iff)
  then have "completed_state (st\<lparr>it_blocks := []\<rparr>) = Inr (restarted st)"
    by (simp add: completed_state_def backfill_restarted [OF assms(3)])
  moreover have "ss_version (snapshot_from_inner st) = ACCOUNT_STATE_SNAPSHOT_VERSION" by (simp add: snapshot_from_inner_def)
  moreover have "te_snapshot_take T b = Inr (snapshot_from_inner st, [])" using assms(1,2) by (simp add: snapshot_codec_ok_def)
  ultimately show ?thesis by (simp add: decode_inner_state_strict_def eq)
qed

text \<open>C39. A committed account state survives a restart. When a state is committed and then loaded from the database, the load gives the
  committed state without its recent blocks and with an empty queue: the balances, the tip and the reserved counter are those
  committed, and so are the issued total and the issued rewards where they are not zero; a total of zero is replaced by the sum of the
  balances and rewards of zero by the total. So the load gives exactly what was committed if and only if a total of zero comes
  with balances that are all zero and rewards of zero with a total of zero. The load writes the snapshot of what it gives, and a
  second restart changes nothing more.\<close>

theorem commit_load_roundtrip:
  assumes ok: "engine_ok G view" and T: "snapshot_codec_ok T" and m: "chain_mode (am_db t)"
    and c: "tree_commit G T t = (Inr (), t1)" and l: "tree_load_state G T (am_db t1) = (Inr t2, mg2)"
  shows "am_inner t1 = am_inner t \<and> am_inner t2 = restarted (am_inner t) \<and> am_pending_blocks t2 = [] \<and>
    on_disk view T mg2 (am_inner t2) \<and> restarted (am_inner t2) = am_inner t2 \<and>
    (am_inner t2 = (am_inner t)\<lparr>it_blocks := []\<rparr> \<longleftrightarrow>
       (it_total_issued_micro (am_inner t) = 0 \<longrightarrow> hvalues_sum (it_balances (am_inner t)) = 0) \<and>
       (it_rewards_issued_micro (am_inner t) = 0 \<longrightarrow> it_total_issued_micro (am_inner t) = 0))"
proof -
  obtain mg where mg: "commit_inner_state G T (am_inner t) (am_db t) = (Inr (), mg)" "t1 = t\<lparr>am_db := mg\<rparr>"
    using c by (auto simp: tree_commit_def res_simps)
  note cm = commit_inner_Inr [OF ok m mg(1)]
  have m1: "chain_mode mg" using m cm(3) by (simp add: chain_mode_def)
  obtain raw b inner where l': "mg_read G STATE_COLUMN_NAME STATE_KEY mg = Inr raw" "raw = Some b"
      "decode_inner_state_strict T b = Inr inner" "commit_inner_state G T inner mg = (Inr (), mg2)"
      "am_inner t2 = inner" "am_pending_blocks t2 = []"
    using l unfolding mg(2) by (auto simp: tree_load_state_def res_simps)
  have "te_snapshot T (snapshot_from_inner (am_inner t)) = Inr b"
    using cm(1) mg_read_view [OF ok m1 l'(1)] l'(2) by (auto simp: on_disk_def)
  from decode_snapshot [OF T this cm(2)] l'(3) have "inner = restarted (am_inner t)" by simp
  then show ?thesis
    using l'(5,6) commit_inner_Inr(1) [OF ok m1 l'(4)] restarted_twice restarted_same by (simp add: mg(2))
qed


section \<open>Applying a block\<close>

lemma flush_frames [frames]:
  "engine_ok G view \<Longrightarrow> cf \<noteq> META_DATA_COLUMN_NAME \<Longrightarrow> cf \<noteq> ACCOUNT_COLUMN_NAME \<Longrightarrow>
     preserves (\<lambda>t. mview view (am_db t) cf) (flush_addresses G T addrs)"
  "preserves (\<lambda>t. mg_mode (am_db t)) (flush_addresses G T addrs)"
  "preserves am_inner (flush_addresses G T addrs)" "preserves am_pending_blocks (flush_addresses G T addrs)"
  unfolding flush_addresses_def by (intro frames; assumption?)+

lemma account_cf_Inr:
  assumes ok: "engine_ok G view" and m: "chain_mode mg"
    and v: "verify_account_cf_matches_state G T mg st accts = Inr ()" and a: "a \<in> set accts"
  shows "\<exists>b. mview view mg ACCOUNT_COLUMN_NAME (str_bytes a) = Some b \<and> te_u64_take T b = Inr (hget0 (it_balances st) a, [])"
proof -
  have "\<exists>raw b. mg_read G ACCOUNT_COLUMN_NAME (str_bytes a) mg = Inr raw \<and> raw = Some b \<and>
      te_u64_take T b = Inr (hget0 (it_balances st) a, [])"
    using v [unfolded verify_account_cf_matches_state_def foldR_unit_iff, rule_format, OF a]
    by (auto simp: res_simps split: if_splits)
  then show ?thesis using mg_read_view [OF ok m] by metis
qed

lemma apply_new_block_steps:
  assumes "apply_new_block G T block t = (Inr u, t')"
  obtains batch st oc m1 m2 m3 where "batch_of_block G T block (am_db t) = Inr batch"
    and "dry_run_block_and_batch default_guard (te_ext T) (am_inner t) block batch = Inr (st, oc)"
    and "apply_nft_mints_for_block G T block batch (am_db t) = (Inr (), m1)"
    and "apply_nft_transfers_for_block G T block batch m1 = (Inr (), m2)"
    and "commit_inner_state G T st m2 = (Inr (), m3)"
    and "flush_addresses G T (oc_touched_accounts oc) (t\<lparr>am_db := m3, am_inner := st\<rparr>) = (Inr (), t')"
    and "verify_account_cf_matches_state G T (am_db t') (am_inner t') (oc_touched_accounts oc) = Inr ()"
  using assms by (auto simp: apply_new_block_def res_simps)

lemma apply_new_block_Inr:
  assumes ok: "engine_ok G view" and m: "chain_mode (am_db t)" and run: "apply_new_block G T block t = (Inr u, t')"
  shows "\<exists>batch oc. batch_of_block G T block (am_db t) = Inr batch \<and>
      dry_run_block_and_batch default_guard (te_ext T) (am_inner t) block batch = Inr (am_inner t', oc) \<and>
      am_pending_blocks t' = am_pending_blocks t \<and> on_disk view T (am_db t') (am_inner t') \<and>
      (\<forall>a\<in>set (oc_touched_accounts oc). \<exists>b. mview view (am_db t') ACCOUNT_COLUMN_NAME (str_bytes a) = Some b \<and>
         te_u64_take T b = Inr (hget0 (it_balances (am_inner t')) a, []))"
proof -
  obtain batch st oc m1 m2 m3 where b: "batch_of_block G T block (am_db t) = Inr batch"
    and d: "dry_run_block_and_batch default_guard (te_ext T) (am_inner t) block batch = Inr (st, oc)"
    and 1: "apply_nft_mints_for_block G T block batch (am_db t) = (Inr (), m1)"
    and 2: "apply_nft_transfers_for_block G T block batch m1 = (Inr (), m2)"
    and 3: "commit_inner_state G T st m2 = (Inr (), m3)"
    and 4: "flush_addresses G T (oc_touched_accounts oc) (t\<lparr>am_db := m3, am_inner := st\<rparr>) = (Inr (), t')"
    and 5: "verify_account_cf_matches_state G T (am_db t') (am_inner t') (oc_touched_accounts oc) = Inr ()"
    using run by (rule apply_new_block_steps)
  have "mg_mode m2 = mg_mode (am_db t)"
    using preservesD [OF nft_frames(5) [OF store_metadata_frames(2)] 1]
      preservesD [OF nft_frames(6) [OF store_metadata_frames(2)] 2] by simp
  then have m2: "chain_mode m2" using m by (simp add: chain_mode_def)
  note c = commit_inner_Inr [OF ok m2 3]
  have i: "am_inner t' = st" "am_pending_blocks t' = am_pending_blocks t" "mg_mode (am_db t') = mg_mode m3"
    using preservesD [OF flush_frames(3) 4] preservesD [OF flush_frames(4) 4] preservesD [OF flush_frames(2) 4] by simp_all
  have "mview view (am_db t') STATE_COLUMN_NAME = mview view m3 STATE_COLUMN_NAME"
    using preservesD [OF flush_frames(1) [OF ok, of STATE_COLUMN_NAME] 4] by simp
  then have disk: "on_disk view T (am_db t') st" using c(1) by (simp add: on_disk_def)
  have m': "chain_mode (am_db t')" using m2 c(3) i(3) by (simp add: chain_mode_def)
  from account_cf_Inr [OF ok m' 5] b d i disk show ?thesis by blast
qed

text \<open>C17. Applying a block to the account tree is all or nothing. When \<open>apply_block\<close> fails, the accounts and the
  queue in memory are as before. When it succeeds, either the block was canonical already and nothing changed,
  or the new state is the one the guarded dry run of the block and its stored batch computes, the snapshot on
  disk is this state, and the account column holds the new balance of every touched account.\<close>

theorem apply_block_all_or_nothing:
  assumes ok: "engine_ok G view" and m: "chain_mode (am_db t)" and run: "tree_apply_block G T block t = (r, t')"
  shows "(case r of
      Inl e \<Rightarrow> am_inner t' = am_inner t \<and> am_pending_blocks t' = am_pending_blocks t
    | Inr _ \<Rightarrow>
        t' = t \<and> it_has_tip (am_inner t) \<and> m_index (bl_metadata block) \<le> it_tip_height (am_inner t) \<or>
        (\<exists>batch oc. batch_of_block G T block (am_db t) = Inr batch \<and>
          dry_run_block_and_batch default_guard (te_ext T) (am_inner t) block batch = Inr (am_inner t', oc) \<and>
          am_pending_blocks t' = am_pending_blocks t \<and> on_disk view T (am_db t') (am_inner t') \<and>
          (\<forall>a\<in>set (oc_touched_accounts oc). \<exists>b. mview view (am_db t') ACCOUNT_COLUMN_NAME (str_bytes a) = Some b \<and>
             te_u64_take T b = Inr (hget0 (it_balances (am_inner t')) a, []))))"
proof (cases r)
  case (Inl e)
  then show ?thesis using run by (auto simp: tree_apply_block_def split: prod.splits sum.splits)
next
  case (Inr u)
  then have body: "apply_block_body G T block t = (Inr u, t')"
    using run by (auto simp: tree_apply_block_def split: prod.splits sum.splits)
  have "t' = t \<and> it_has_tip (am_inner t) \<and> m_index (bl_metadata block) \<le> it_tip_height (am_inner t) \<or>
      apply_new_block G T block t = (Inr u, t')"
    using body by (auto simp: apply_block_body_def res_simps split: if_splits)
  then show ?thesis using apply_new_block_Inr [OF ok m, of T block u t'] by (auto simp: Inr)
qed


section \<open>Replay\<close>

text \<open>The block and the batch stored for a height, and the effect of applying them live.\<close>

definition chain_item :: "TreeExt \<Rightarrow> kv_view \<Rightarrow> nat \<Rightarrow> (Block \<times> TransactionBatch option) option" where
  "chain_item T w i =
     (case w BLOCKMINT_DATA_COLUMN_NAME (block_key i) of
        None \<Rightarrow> None
      | Some data \<Rightarrow>
          (case deserialize_from_storage (te_block T) data of
             Inl _ \<Rightarrow> None
           | Inr block \<Rightarrow>
               (case w TRANSACTION_BATCH_COLUMN_NAME (tx_batch_key i) of
                  None \<Rightarrow> Some (block, None)
                | Some bytes \<Rightarrow>
                    (case batch_deserialize (te_ext T) bytes of Inl _ \<Rightarrow> None | Inr batch \<Rightarrow> Some (block, Some batch)))))"

fun live_step :: "Ext \<Rightarrow> InnerTree \<Rightarrow> Block \<times> TransactionBatch option \<Rightarrow> unit + InnerTree" where
  "live_step E st (block, Some batch) =
     (case dry_run_block_and_batch default_guard E st block batch of Inr (st', _) \<Rightarrow> Inr st' | Inl _ \<Rightarrow> Inl ())"
| "live_step E st (block, None) =
     (if links st block \<and> m_index (bl_metadata block) = 0 then Inr (remember_recent_block st block) else Inl ())"

definition live_height :: "TreeExt \<Rightarrow> kv_view \<Rightarrow> InnerTree \<Rightarrow> nat \<Rightarrow> unit + InnerTree" where
  "live_height T w st i = (case chain_item T w i of None \<Rightarrow> Inl () | Some c \<Rightarrow> live_step (te_ext T) st c)"

definition live_chain :: "TreeExt \<Rightarrow> kv_view \<Rightarrow> nat \<Rightarrow> unit + InnerTree" where
  "live_chain T w height = foldR (live_height T w) inner_empty [0..<Suc height]"

lemma apply_batch_replay:
  "\<not> cx_allow_duplicate_reward_in_batch ctx \<Longrightarrow>
   apply_batch_to_state g E st batch (ctx\<lparr>cx_mode := md\<rparr>) = apply_batch_to_state g E st batch ctx"
  by (simp add: apply_batch_to_state_def validate_apply_context_def compute_state_fingerprint_for_context_def)

lemma remember_for_guard:
  assumes "compact_inv st" and "links st block" and "expected_next_height st < 2 ^ 64 - 1"
  shows "remember_recent_block_for_guard st block = remember_recent_block st block"
proof -
  have "\<not> (it_blocks st \<noteq> [] \<and> m_index (bl_metadata (last (it_blocks st))) = m_index (bl_metadata block))"
    using assms by (auto simp: compact_inv_def links_iff expected_next_height_def saturating_add_def split: if_splits)
  then show ?thesis
    by (auto simp: remember_recent_block_for_guard_def remember_recent_block_def Let_def)
qed

lemma remember_prev:
  "links st block \<Longrightarrow> it_prev_tip_hash (remember_recent_block st block) = m_previous_hash (bl_metadata block)"
  by (simp add: remember_recent_block_def links_iff)

text \<open>The heart of replay: with the block linked, applying its batch in replay mode is the dry run.\<close>

lemma replay_step_is_dry_run:
  assumes c: "compact_inv st" and h: "expected_next_height st < 2 ^ 64 - 1" and l: "links st block"
  shows "apply_batch_to_state g E (remember_recent_block st block) batch
      \<lparr>cx_mode = Replay, cx_block_height = m_index (bl_metadata block), cx_block_hash = bl_block_hash block,
       cx_previous_hash = m_previous_hash (bl_metadata block), cx_allow_duplicate_reward_in_batch = False\<rparr> = Inr (st', oc) \<longleftrightarrow>
    dry_run_block_and_batch g E st block batch = Inr (st', oc)"
proof -
  let ?ctx = "\<lambda>md. \<lparr>cx_mode = md, cx_block_height = m_index (bl_metadata block), cx_block_hash = bl_block_hash block,
       cx_previous_hash = m_previous_hash (bl_metadata block), cx_allow_duplicate_reward_in_batch = False\<rparr>"
  let ?ap = "apply_batch_to_state g E (remember_recent_block st block) batch"
  have md: "?ap (?ctx Replay) = ?ap (?ctx Live)" using apply_batch_replay [of "?ctx Live" g E _ batch Replay] by simp
  have dr: "dry_run_block_and_batch g E st block batch =
      bindR (?ap (?ctx Live)) (\<lambda>(st2, outcome).
      bindR (verify_state_invariants g st2 (Some (m_index (bl_metadata block))) (Some (bl_block_hash block))
        (Some (m_previous_hash (bl_metadata block)))) (\<lambda>_. Inr (st2, outcome)))"
    using l by (auto simp: dry_run_block_and_batch_def Let_def links_iff remember_for_guard [OF c l h])
  have "verify_state_invariants g st2 (Some (m_index (bl_metadata block))) (Some (bl_block_hash block))
        (Some (m_previous_hash (bl_metadata block))) = Inr ()" if ap: "?ap (?ctx Live) = Inr (st2, oc2)" for st2 oc2
  proof -
    obtain t where run: "foldR apply_txkind_to_state (remember_recent_block st block, []) (b_transactions batch) = Inr (st2, t)"
      and v: "verify_state_invariants g st2 None None None = Inr ()"
      using apply_batch_Inr [OF ap] by blast
    show ?thesis
      using v run_keeps_chain [OF run] remember_prev [OF l]
      by (simp add: verify_state_invariants_iff verify_state_invariants_tip)
  qed
  then show ?thesis unfolding md dr by (auto simp: res_simps)
qed

text \<open>The states of a replay.\<close>

definition replay_inv :: "nat \<Rightarrow> InnerTree \<Rightarrow> bool" where
  "replay_inv n st \<longleftrightarrow> compact_inv st \<and> expected_next_height st = n \<and> (it_has_tip st \<longleftrightarrow> n > 0) \<and>
     (n > 0 \<longrightarrow> it_tip_height st = n - 1)"

lemma replay_inv_empty: "replay_inv 0 inner_empty"
  by (simp add: replay_inv_def empty_compact) (simp add: inner_empty_def expected_next_height_def)

lemma guarded_compact: "money_inv g st \<Longrightarrow> chain_inv st \<Longrightarrow> compact_inv st"
  by (auto simp: money_inv_def chain_inv_def compact_inv_def MAX_SUPPLY_def split: if_splits)

lemma live_step_inv:
  assumes i: "replay_inv n st" and n: "n < 2 ^ 64 - 1" and s: "live_step E st (block, ob) = Inr st'"
  shows "replay_inv (Suc n) st'"
proof (cases ob)
  case (Some batch)
  then obtain oc where d: "dry_run_block_and_batch default_guard E st block batch = Inr (st', oc)"
    using s by (auto split: sum.splits)
  have "m_index (bl_metadata block) = n" using dry_run_Inr(1) [OF d] i by (simp add: replay_inv_def)
  then show ?thesis
    using dry_run_Inr(4) [OF d] n
    by (auto simp: verify_state_invariants_tip replay_inv_def expected_next_height_def saturating_add_def intro: guarded_compact)
next
  case None
  then have lk: "links st block" "m_index (bl_metadata block) = 0" and st': "st' = remember_recent_block st block"
    using s by (auto split: if_splits)
  then show ?thesis
    using i remember_compact [OF _ lk(1)] by (auto simp: replay_inv_def links_iff saturating_add_def)
qed

lemma link_prev:
  "links st block \<Longrightarrow>
   (case current_tip_hash st of Some h \<Rightarrow> h | None \<Rightarrow> m_previous_hash (bl_metadata block)) = m_previous_hash (bl_metadata block)"
  by (simp add: current_tip_hash_def links_iff)

lemma replay_block_live:
  assumes ok: "engine_ok G view" and i: "replay_inv n st" and n: "n < 2 ^ 64 - 1"
    and r: "replay_block G T st n mg = (Inr st', mg')"
  shows "live_height T (mview view mg) st n = Inr st'"
    and "cf \<noteq> GLOBAL_COLUMN_NAME \<Longrightarrow> mview view mg' cf = mview view mg cf"
proof -
  obtain block ob where b: "get_block_by_index G (te_block T) n mg = Inr (Some block)" and l: "links st block"
    and ob: "get_batch_bytes_by_index G n mg = Inr ob"
    using r by (auto simp: replay_block_def links_def res_simps Let_def)
  have h: "m_index (bl_metadata block) = n" using l i by (simp add: links_iff replay_inv_def)
  have bd: "\<exists>data. mview view mg BLOCKMINT_DATA_COLUMN_NAME (block_key n) = Some data \<and>
      deserialize_from_storage (te_block T) data = Inr block"
    using b bc_get_view [OF ok] by (fastforce simp: get_block_by_index_def res_simps split: option.splits)
  have bt: "mview view mg TRANSACTION_BATCH_COLUMN_NAME (tx_batch_key n) = ob"
    using bc_get_view [OF ok ob [unfolded get_batch_bytes_by_index_def]] by simp
  have "live_height T (mview view mg) st n = Inr st' \<and>
      (cf \<noteq> GLOBAL_COLUMN_NAME \<longrightarrow> mview view mg' cf = mview view mg cf)"
  proof (cases ob)
    case None
    then have "n = 0" "st' = remember_recent_block st block" "mg' = mg"
      using r b l ob by (auto simp: replay_block_def links_def res_simps Let_def split: if_splits)
    then show ?thesis using bd bt None l h by (auto simp: live_height_def chain_item_def)
  next
    case (Some bytes)
    then obtain batch oc where d: "batch_deserialize (te_ext T) bytes = Inr batch"
      and a: "apply_batch_to_state default_guard (te_ext T) (remember_recent_block st block) batch
        \<lparr>cx_mode = Replay, cx_block_height = n, cx_block_hash = bl_block_hash block,
         cx_previous_hash = m_previous_hash (bl_metadata block), cx_allow_duplicate_reward_in_batch = False\<rparr> = Inr (st', oc)"
      and f: "forS (replay_nft G T (bl_miner block) (m_index (bl_metadata block)) (m_timestamp (bl_metadata block)))
         (b_transactions batch) mg = (Inr (), mg')"
      using r b l ob by (auto simp: replay_block_def links_def [symmetric] link_prev res_simps Let_def split: if_splits)
    have "dry_run_block_and_batch default_guard (te_ext T) st block batch = Inr (st', oc)"
      using a replay_step_is_dry_run [OF _ _ l, of default_guard "te_ext T" batch st' oc] i n h by (simp add: replay_inv_def)
    then have "live_height T (mview view mg) st n = Inr st'"
      using bd bt Some d by (auto simp: live_height_def chain_item_def)
    moreover have "mview view mg' cf = mview view mg cf" if "cf \<noteq> GLOBAL_COLUMN_NAME"
      by (rule preservesD [OF preserves_forS [OF nft_frames(4) [OF store_metadata_frames(1) [OF ok that]]] f])
    ultimately show ?thesis by blast
  qed
  then show "live_height T (mview view mg) st n = Inr st'"
    and "cf \<noteq> GLOBAL_COLUMN_NAME \<Longrightarrow> mview view mg' cf = mview view mg cf" by blast+
qed


lemma live_height_view:
  assumes "w BLOCKMINT_DATA_COLUMN_NAME = w' BLOCKMINT_DATA_COLUMN_NAME"
    and "w TRANSACTION_BATCH_COLUMN_NAME = w' TRANSACTION_BATCH_COLUMN_NAME"
  shows "live_height T w = live_height T w'"
  unfolding live_height_def chain_item_def assms by (rule refl)

lemma upt_front: "[n..<n + Suc k] = n # [Suc n..<Suc n + k]"
  by (simp add: upt_conv_Cons del: upt_Suc)

lemma live_height_inv: "replay_inv n st \<Longrightarrow> n < 2 ^ 64 - 1 \<Longrightarrow> live_height T w st n = Inr st' \<Longrightarrow> replay_inv (Suc n) st'"
  by (auto simp: live_height_def intro: live_step_inv split: option.splits)

lemma live_run_inv:
  "foldR (live_height T w) st [n..<n + k] = Inr st' \<Longrightarrow> replay_inv n st \<Longrightarrow> n + k < 2 ^ 64 \<Longrightarrow> replay_inv (n + k) st'"
proof (induction k arbitrary: n st)
  case (Suc k)
  then obtain st1 where 1: "live_height T w st n = Inr st1" and r: "foldR (live_height T w) st1 [Suc n..<Suc n + k] = Inr st'"
    by (auto simp: upt_front res_simps simp del: upt_Suc add_Suc_right)
  have "replay_inv (Suc n) st1" using live_height_inv [OF Suc.prems(2) _ 1] Suc.prems(3) by simp
  then show ?case using Suc.IH [OF r] Suc.prems(3) by simp
qed simp

lemma replay_fold_live:
  assumes ok: "engine_ok G view"
  shows "foldS (replay_block G T) st [n..<n + k] mg = (Inr st', mg') \<Longrightarrow> replay_inv n st \<Longrightarrow> n + k < 2 ^ 64 \<Longrightarrow>
    foldR (live_height T (mview view mg)) st [n..<n + k] = Inr st'"
proof (induction k arbitrary: n st mg)
  case (Suc k)
  from Suc.prems(1) obtain st1 mg1 where 1: "replay_block G T st n mg = (Inr st1, mg1)"
    and r: "foldS (replay_block G T) st1 [Suc n..<Suc n + k] mg1 = (Inr st', mg')"
    by (auto simp: upt_front res_simps simp del: upt_Suc add_Suc_right)
  have n: "n < 2 ^ 64 - 1" using Suc.prems(3) by linarith
  note live = replay_block_live [OF ok Suc.prems(2) n 1]
  have i1: "replay_inv (Suc n) st1" by (rule live_height_inv [OF Suc.prems(2) n live(1)])
  have "live_height T (mview view mg1) = live_height T (mview view mg)"
    using live(2) by (intro live_height_view) (simp_all add: column_defs)
  then show ?case using Suc.IH [OF r i1] live(1) Suc.prems(3) by (simp add: upt_front del: upt_Suc add_Suc_right)
qed (simp add: res_simps)

text \<open>The converse, for chains without NFT transactions in a database whose reads succeed.\<close>

definition reads_ok :: "'db Engine \<Rightarrow> ('db \<Rightarrow> kv_view) \<Rightarrow> 'db RockDBManager \<Rightarrow> bool" where
  "reads_ok G view mg \<longleftrightarrow> (\<forall>cf k. bc_get G cf k mg = Inr (mview view mg cf k))"

fun is_nft :: "TxKind \<Rightarrow> bool" where
  "is_nft (NftMint _) \<longleftrightarrow> True"
| "is_nft (NftTransfer _) \<longleftrightarrow> True"
| "is_nft _ \<longleftrightarrow> False"

definition no_nfts :: "TreeExt \<Rightarrow> kv_view \<Rightarrow> nat \<Rightarrow> bool" where
  "no_nfts T w height \<longleftrightarrow>
     (\<forall>i\<le>height. \<forall>block batch. chain_item T w i = Some (block, Some batch) \<longrightarrow> list_all (\<lambda>k. \<not> is_nft k) (b_transactions batch))"

lemma forS_no_nft: "list_all (\<lambda>k. \<not> is_nft k) ks \<Longrightarrow> forS (replay_nft G T w h ts) ks mg = (Inr (), mg)"
proof (induction ks)
  case (Cons k ks)
  then show ?case by (cases k) (simp_all add: replay_nft_def bindS_def returnS_def)
qed (simp add: returnS_def)

lemma live_replay_block:
  assumes rd: "reads_ok G view mg" and i: "replay_inv n st" and n: "n < 2 ^ 64 - 1"
    and l: "live_height T (mview view mg) st n = Inr st'"
    and nn: "\<And>block batch. chain_item T (mview view mg) n = Some (block, Some batch) \<Longrightarrow> list_all (\<lambda>k. \<not> is_nft k) (b_transactions batch)"
  shows "replay_block G T st n mg = (Inr st', mg)"
proof -
  obtain block ob where c: "chain_item T (mview view mg) n = Some (block, ob)" and s: "live_step (te_ext T) st (block, ob) = Inr st'"
    using l by (auto simp: live_height_def split: option.splits)
  have b: "get_block_by_index G (te_block T) n mg = Inr (Some block)"
    using c rd by (auto simp: chain_item_def get_block_by_index_def reads_ok_def split: option.splits sum.splits)
  show ?thesis
  proof (cases ob)
    case None
    then have lk: "links st block" "m_index (bl_metadata block) = 0" and st': "st' = remember_recent_block st block"
      using s by (auto split: if_splits)
    have ob: "get_batch_bytes_by_index G n mg = Inr None"
      using c rd by (auto simp: None chain_item_def get_batch_bytes_by_index_def reads_ok_def split: option.splits sum.splits)
    have n0: "n = 0" using lk i by (simp add: links_iff replay_inv_def)
    have "verify_compact_state_invariants st' (Some 0) (Some (bl_block_hash block)) (Some (m_previous_hash (bl_metadata block))) = Inr ()"
      using remember_compact [OF _ lk(1)] i lk remember_prev [OF lk(1)] by (simp add: verify_compact_iff st' replay_inv_def)
    then show ?thesis
      using lk(1) by (simp add: replay_block_def bindS_readS b [unfolded n0] ob [unfolded n0] n0 links_def link_prev [OF lk(1)] Let_def st' returnS_def)
  next
    case (Some batch)
    then obtain oc where d: "dry_run_block_and_batch default_guard (te_ext T) st block batch = Inr (st', oc)"
      using s by (auto split: sum.splits)
    have h: "m_index (bl_metadata block) = n" using dry_run_Inr(1) [OF d] i by (simp add: replay_inv_def)
    have lk: "links st block" using dry_run_Inr(1,2) [OF d] by (simp add: links_iff)
    obtain bytes where ob: "get_batch_bytes_by_index G n mg = Inr (Some bytes)"
      and bs: "batch_deserialize (te_ext T) bytes = Inr batch"
      using c rd by (auto simp: Some chain_item_def get_batch_bytes_by_index_def reads_ok_def split: option.splits sum.splits)
    have bi: "b_index batch = n" using apply_batch_Inr [OF dry_run_Inr(3) [OF d]] h by simp
    have "apply_batch_to_state default_guard (te_ext T) (remember_recent_block st block) batch
        \<lparr>cx_mode = Replay, cx_block_height = n, cx_block_hash = bl_block_hash block,
         cx_previous_hash = m_previous_hash (bl_metadata block), cx_allow_duplicate_reward_in_batch = False\<rparr> = Inr (st', oc)"
      using d replay_step_is_dry_run [OF _ _ lk, of default_guard "te_ext T" batch st' oc] i n h by (simp add: replay_inv_def)
    then show ?thesis
      using lk nn [of block batch] c
      by (simp add: replay_block_def bindS_readS b ob bs bi links_def link_prev [OF lk] Let_def Some)
         (simp add: bindS_def forS_no_nft returnS_def)
  qed
qed

lemma live_replay_fold:
  assumes rd: "reads_ok G view mg" and nn: "no_nfts T (mview view mg) height"
  shows "foldR (live_height T (mview view mg)) st [n..<n + k] = Inr st' \<Longrightarrow> replay_inv n st \<Longrightarrow> n + k \<le> Suc height \<Longrightarrow>
    height < 2 ^ 64 - 1 \<Longrightarrow> foldS (replay_block G T) st [n..<n + k] mg = (Inr st', mg)"
proof (induction k arbitrary: n st)
  case (Suc k)
  then obtain st1 where 1: "live_height T (mview view mg) st n = Inr st1"
    and r: "foldR (live_height T (mview view mg)) st1 [Suc n..<Suc n + k] = Inr st'"
    by (auto simp: upt_front res_simps simp del: upt_Suc add_Suc_right)
  have n: "n < 2 ^ 64 - 1" "n \<le> height" using Suc.prems(3,4) by linarith+
  have b: "replay_block G T st n mg = (Inr st1, mg)"
    using nn n(2) by (intro live_replay_block [OF rd Suc.prems(2) n(1) 1]) (auto simp: no_nfts_def)
  have "foldS (replay_block G T) st1 [Suc n..<Suc n + k] mg = (Inr st', mg)"
    using Suc.IH [OF r live_height_inv [OF Suc.prems(2) n(1) 1]] Suc.prems(3,4) by simp
  then show ?case by (simp add: upt_front bindS_def b del: upt_Suc add_Suc_right)
qed (simp add: returnS_def)

text \<open>C16. Replay computes what the live path computed. A successful reload of the stored chain up to a height leaves in
  memory exactly the state that the guarded application of the stored blocks and batches, one after the other from
  the empty state, gives, and drops the queued blocks up to this height. Conversely, when this live
  application succeeds, the chain has no NFT transactions and the database can be read, the reload succeeds with
  this state and does not touch the database.\<close>

theorem replay_is_live:
  assumes ok: "engine_ok G view" and h: "height < 2 ^ 64 - 1"
  shows "(\<forall>u t'. reload_from_db_to_height G T height t = (Inr u, t') \<longrightarrow>
      live_chain T (mview view (am_db t)) height = Inr (am_inner t') \<and>
      am_pending_blocks t' = retain_above height (am_pending_blocks t)) \<and>
    (\<forall>st. live_chain T (mview view (am_db t)) height = Inr st \<and> reads_ok G view (am_db t) \<and>
        no_nfts T (mview view (am_db t)) height \<longrightarrow>
      reload_from_db_to_height G T height t =
        (Inr (), t\<lparr>am_inner := st, am_pending_blocks := retain_above height (am_pending_blocks t)\<rparr>))"
proof (intro conjI allI impI)
  fix u t' assume r: "reload_from_db_to_height G T height t = (Inr u, t')"
  then obtain mg where f: "foldS (replay_block G T) inner_empty [0..<Suc height] (am_db t) = (Inr (am_inner t'), mg)"
    and "am_pending_blocks t' = retain_above height (am_pending_blocks t)"
    by (auto simp: reload_from_db_to_height_def replay_chain_def res_simps)
  then show "live_chain T (mview view (am_db t)) height = Inr (am_inner t')"
    and "am_pending_blocks t' = retain_above height (am_pending_blocks t)"
    using replay_fold_live [OF ok, of T inner_empty 0 "Suc height"] replay_inv_empty h by (simp_all add: live_chain_def)
next
  fix st assume a: "live_chain T (mview view (am_db t)) height = Inr st \<and> reads_ok G view (am_db t) \<and>
        no_nfts T (mview view (am_db t)) height"
  then have f: "foldS (replay_block G T) inner_empty [0..<Suc height] (am_db t) = (Inr st, am_db t)"
    using live_replay_fold [of G view "am_db t" T height inner_empty 0 "Suc height" st] replay_inv_empty h
    by (simp add: live_chain_def)
  have i: "replay_inv (Suc height) st"
    using live_run_inv [of T "mview view (am_db t)" inner_empty 0 "Suc height" st] a replay_inv_empty h by (simp add: live_chain_def)
  then have "it_has_tip st" "it_tip_height st = height"
    using h by (auto simp: replay_inv_def expected_next_height_def saturating_add_def split: if_splits)
  then have "verify_compact_state_invariants st (Some height) (current_tip_hash st) (current_prev_tip_hash st) = Inr ()"
    using i by (simp add: verify_compact_iff replay_inv_def current_tip_hash_def current_prev_tip_hash_def)
  then have "replay_chain G T height (am_db t) = (Inr st, am_db t)"
    using f by (simp only: replay_chain_def bindS_def f prod.case sum.case) (simp add: readS_def returnS_def)
  then show "reload_from_db_to_height G T height t =
        (Inr (), t\<lparr>am_inner := st, am_pending_blocks := retain_above height (am_pending_blocks t)\<rparr>)"
    by (simp add: reload_from_db_to_height_def bindS_def on_tree_db_def)
qed

end
