(* ===== verification/NftRollback.thy ===== *)
theory NftRollback
  imports AccountReplay
begin

text \<open>
  What a rollback does not undo: the NFT records. They live in the metadata column, which the replay of the chain
  neither clears nor rewinds.
\<close>

section \<open>Predicates that operations keep\<close>

definition stable :: "('s \<Rightarrow> bool) \<Rightarrow> ('e, 's, 'a) esm \<Rightarrow> bool" where
  "stable P m \<longleftrightarrow> (\<forall>s r s'. m s = (r, s') \<longrightarrow> P s \<longrightarrow> P s')"

named_theorems stables \<open>predicates that operations keep\<close>

lemma stableD: "stable P m \<Longrightarrow> m s = (r, s') \<Longrightarrow> P s \<Longrightarrow> P s'"
  unfolding stable_def by blast

lemma preserves_stable: "preserves f m \<Longrightarrow> stable (\<lambda>s. P (f s)) m"
  unfolding stable_def preserves_def by metis

lemma stable_conj: "stable P m \<Longrightarrow> stable Q m \<Longrightarrow> stable (\<lambda>s. P s \<and> Q s) m"
  unfolding stable_def by blast

lemma stable_basic [stables]: "stable P (returnS x)" "stable P (failS e)" "stable P (readS g)"
  by (simp_all add: stable_def returnS_def failS_def readS_def)

lemma stable_bindS [stables]:
  assumes "stable P m" and "\<And>x. stable P (k x)"
  shows "stable P (bindS m k)"
  unfolding stable_def
proof (intro allI impI)
  fix s r s' assume b: "bindS m k s = (r, s')" and P: "P s"
  obtain r1 s1 where m: "m s = (r1, s1)" by (cases "m s")
  have "P s1" by (rule stableD [OF assms(1) m P])
  then show "P s'" using b m stableD [OF assms(2), of _ s1 r s'] by (cases r1) (auto simp: bindS_def)
qed

lemma stable_map_errS [stables]: "stable P m \<Longrightarrow> stable P (map_errS g m)"
  unfolding stable_def map_errS_def by (auto split: prod.splits)

lemma stable_skip_denied [stables]: "stable P m \<Longrightarrow> stable P (skip_denied m)"
  unfolding stable_def skip_denied_def by (fastforce split: prod.splits sum.splits if_splits)

lemma stable_forS [stables]: "(\<And>x. stable P (g x)) \<Longrightarrow> stable P (forS g xs)"
  by (induction xs) (auto intro: stables)

lemma stable_foldS [stables]: "(\<And>a x. stable P (g a x)) \<Longrightarrow> stable P (foldS g a xs)"
  by (induction xs arbitrary: a) (auto intro: stables)

lemma stable_if [stables]: "stable P a \<Longrightarrow> stable P b \<Longrightarrow> stable P (if c then a else b)"
  by simp

lemma stable_option [stables]:
  "stable P a \<Longrightarrow> (\<And>x. stable P (b x)) \<Longrightarrow> stable P (case v of None \<Rightarrow> a | Some x \<Rightarrow> b x)"
  by (cases v) simp_all

lemma stable_prod [stables]: "(\<And>x y. stable P (f x y)) \<Longrightarrow> stable P (case v of (x, y) \<Rightarrow> f x y)"
  by (cases v) simp

lemma stable_on_tree_db [stables]: "stable P m \<Longrightarrow> stable (\<lambda>t. P (am_db t)) (on_tree_db m)"
  unfolding stable_def on_tree_db_def by (auto split: prod.splits)

section \<open>A record stays\<close>

definition recorded :: "('db \<Rightarrow> kv_view) \<Rightarrow> rstr \<Rightarrow> 'db RockDBManager \<Rightarrow> bool" where
  "recorded view key mg \<longleftrightarrow> mg_mode mg = Blockchain \<and> mview view mg GLOBAL_COLUMN_NAME (str_bytes key) \<noteq> None"

lemma recorded_frame:
  "preserves mg_mode m \<Longrightarrow> keeps view GLOBAL_COLUMN_NAME m \<Longrightarrow> stable (recorded view key) m"
  unfolding recorded_def by (intro stable_conj preserves_stable [of mg_mode, where P = "\<lambda>x. x = Blockchain"]
      preserves_stable [where P = "\<lambda>w. w (str_bytes key) \<noteq> None"])

lemma store_metadata_Blockchain:
  assumes ok: "engine_ok G view" and m: "mg_mode mg = Blockchain" and s: "store_metadata G k v mg = (r, mg')"
  shows "mview view mg' GLOBAL_COLUMN_NAME =
    (if r = Inr () then (mview view mg GLOBAL_COLUMN_NAME)(str_bytes k \<mapsto> v) else mview view mg GLOBAL_COLUMN_NAME)"
proof (cases "mg_blockchain_handle mg")
  case None
  then show ?thesis using s m by (auto simp: store_metadata_def on_mode_db_def open_db_blockchain_def ok_or_def)
next
  case (Some db)
  obtain r1 db' where p: "put_global G (str_bytes k) v db = (r1, db')" by fastforce
  have e: "r = r1" "mg' = mg\<lparr>mg_blockchain_handle := Some db'\<rparr>"
    using s m Some p by (auto simp: store_metadata_def on_mode_db_def open_db_blockchain_def ok_or_def)
  have "view db' GLOBAL_COLUMN_NAME =
    (if r1 = Inr () then (view db GLOBAL_COLUMN_NAME)(str_bytes k \<mapsto> v) else view db GLOBAL_COLUMN_NAME)"
  proof (cases "en_cf G db GLOBAL_COLUMN_NAME")
    case True
    obtain r2 where w: "en_write G db [PutOp GLOBAL_COLUMN_NAME (str_bytes k) v] = (r2, db')"
      and r1: "r1 = map_err (\<lambda>_. StorageError ''Failed to store metadata'') r2"
      using p True by (auto simp: put_global_def split: prod.splits)
    show ?thesis
      using engine_okD(2,3) [OF ok] w r1 by (cases r2) (auto simp: map_err_def fun_eq_iff)
  qed (use p in \<open>auto simp: put_global_def\<close>)
  then show ?thesis by (simp add: e mview_def Some)
qed

lemma recorded_store [stables]: "engine_ok G view \<Longrightarrow> stable (recorded view key) (store_metadata G k v)"
  unfolding stable_def recorded_def
  using store_metadata_Blockchain [of G view _ k v] preservesD [OF store_metadata_frames(2) [of G k v]] by fastforce

lemma recorded_writes [stables]:
  assumes ok: "engine_ok G view"
  shows "stable (recorded view key) (commit_inner_state G T st)"
    and "stable (\<lambda>t. recorded view key (am_db t)) (flush_addresses G T addrs)"
proof -
  have w: "stable (recorded view key) (mg_write G col k v)" if "col \<noteq> GLOBAL_COLUMN_NAME" for col k v
    using that ok by (intro recorded_frame frames) auto
  show "stable (recorded view key) (commit_inner_state G T st)"
    unfolding commit_inner_state_def by (intro stables w) simp
  show "stable (\<lambda>t. recorded view key (am_db t)) (flush_addresses G T addrs)"
    unfolding flush_addresses_def by (intro stables w) (simp add: column_defs)
qed

lemma recorded_nft [stables]:
  assumes "engine_ok G view"
  shows "stable (recorded view key) (store_nft_record G E N r)" and "stable (recorded view key) (apply_nft_mint G E N mint w h ts)"
    and "stable (recorded view key) (apply_nft_transfer G E N ntr w h ts)"
    and "stable (recorded view key) (replay_nft G T w h ts kind)"
    and "stable (recorded view key) (apply_nft_transfers_for_block G T block batch)"
proof -
  show s: "stable (recorded view key) (store_nft_record G E N r)" for E N r
    unfolding store_nft_record_def by (intro stables assms)
  show m: "stable (recorded view key) (apply_nft_mint G E N mint w h ts)" for E N mint w h ts
    unfolding apply_nft_mint_def by (intro stables s)
  show t: "stable (recorded view key) (apply_nft_transfer G E N ntr w h ts)" for E N ntr w h ts
    unfolding apply_nft_transfer_def by (intro stables s)
  show "stable (recorded view key) (replay_nft G T w h ts kind)"
    unfolding replay_nft_def by (cases kind) (auto intro!: stables m t)
  show "stable (recorded view key) (apply_nft_transfers_for_block G T block batch)"
    unfolding apply_nft_transfers_for_block_def by (rule stable_forS) (auto intro!: stables t split: TxKind.splits)
qed

lemma recorded_replay [stables]:
  assumes "engine_ok G view"
  shows "stable (recorded view key) (replay_chain G T h)"
    and "stable (\<lambda>t. recorded view key (am_db t)) (reload_from_db_to_height G T h)"
    and "stable (\<lambda>t. recorded view key (am_db t)) (rollback_to G T anc)"
proof -
  have b: "stable (recorded view key) (replay_block G T st i)" for st i
    unfolding replay_block_def Let_def by (intro stables assms)
  show r: "stable (recorded view key) (replay_chain G T h)" for h
    unfolding replay_chain_def by (intro stables b)
  have u: "stable (\<lambda>t. recorded view key (am_db t)) (\<lambda>t. (Inr (), f t))" if "\<And>t. am_db (f t) = am_db t" for f
    using that by (simp add: stable_def)
  show l: "stable (\<lambda>t. recorded view key (am_db t)) (reload_from_db_to_height G T h)" for h
    unfolding reload_from_db_to_height_def by (intro stables r u) simp
  show "stable (\<lambda>t. recorded view key (am_db t)) (rollback_to G T anc)"
    unfolding rollback_to_def by (intro stables l u) simp
qed


section \<open>Minting again\<close>

abbreviation mint_key :: "TreeExt \<Rightarrow> NftMintTx \<Rightarrow> rstr" where
  "mint_key T mint \<equiv> nft_meta_key (te_ext T) (mint_nft_id mint)"

lemma mint_refused:
  assumes ok: "engine_ok G view" and r: "recorded view (nft_meta_key E (mint_nft_id mint)) mg"
  shows "apply_nft_mint G E N mint w h ts mg \<noteq> (Inr u, mg')"
proof
  assume a: "apply_nft_mint G E N mint w h ts mg = (Inr u, mg')"
  then obtain raw where g: "get_metadata G (nft_meta_key E (mint_nft_id mint)) mg = Inr raw" and "raw = None"
    by (auto simp: apply_nft_mint_def load_nft_record_def res_simps split: option.splits if_splits)
  moreover obtain db where "mg_blockchain_handle mg = Some db" "en_get G db GLOBAL_COLUMN_NAME (str_bytes (nft_meta_key E (mint_nft_id mint))) = Inr raw"
    using g r by (auto simp: get_metadata_def recorded_def res_simps open_Inr)
  ultimately show False using r engine_okD(1) [OF ok] by (fastforce simp: recorded_def mview_def)
qed

lemma mint_records:
  assumes ok: "engine_ok G view" and m: "mg_mode mg = Blockchain" and a: "apply_nft_mint G E N mint w h ts mg = (Inr u, mg')"
  shows "recorded view (nft_meta_key E (mint_nft_id mint)) mg'"
proof -
  obtain bytes where s: "store_metadata G (nft_meta_key E (mint_nft_id mint)) bytes mg = (Inr u, mg')"
    using a by (auto simp: apply_nft_mint_def store_nft_record_def res_simps split: if_splits)
  show ?thesis
    using store_metadata_Blockchain [OF ok m s] preservesD [OF store_metadata_frames(2) s] m by (simp add: recorded_def)
qed

lemma mints_refused:
  assumes ok: "engine_ok G view" and "NftMint mint \<in> set (b_transactions batch)" and "recorded view (mint_key T mint) mg"
  shows "apply_nft_mints_for_block G T block batch mg \<noteq> (Inr u, mg')"
  unfolding apply_nft_mints_for_block_def using assms(2,3)
proof (induction "b_transactions batch" arbitrary: batch mg)
  case (Cons k ks)
  let ?f = "\<lambda>kind. case kind of NftMint mint \<Rightarrow> apply_nft_mint G (te_ext T) (te_nft T) mint (bl_miner block)
      (m_index (bl_metadata block)) (m_timestamp (bl_metadata block)) | _ \<Rightarrow> returnS ()"
  have st: "stable (recorded view (mint_key T mint)) (?f k)" by (cases k) (auto intro: stables ok)
  show ?case
  proof
    assume "forS ?f (b_transactions batch) mg = (Inr u, mg')"
    then obtain m1 where 1: "?f k mg = (Inr (), m1)" and r: "forS ?f ks m1 = (Inr u, mg')"
      unfolding Cons.hyps(2) [symmetric] by (auto simp: res_simps)
    have "k \<noteq> NftMint mint" using 1 mint_refused [OF ok Cons.prems(2)] by auto
    then have "NftMint mint \<in> set ks" using Cons.prems(1) by (simp add: Cons.hyps(2) [symmetric])
    then show False
      using Cons.hyps(1) [of "batch\<lparr>b_transactions := ks\<rparr>" m1] stableD [OF st 1 Cons.prems(2)] r by simp
  qed
qed simp

lemma mints_record:
  assumes ok: "engine_ok G view" and "NftMint mint \<in> set (b_transactions batch)" and "mg_mode mg = Blockchain"
    and "apply_nft_mints_for_block G T block batch mg = (Inr u, mg')"
  shows "recorded view (mint_key T mint) mg'"
  using assms(2-) unfolding apply_nft_mints_for_block_def
proof (induction "b_transactions batch" arbitrary: batch mg)
  case (Cons k ks)
  let ?f = "\<lambda>kind. case kind of NftMint mint \<Rightarrow> apply_nft_mint G (te_ext T) (te_nft T) mint (bl_miner block)
      (m_index (bl_metadata block)) (m_timestamp (bl_metadata block)) | _ \<Rightarrow> returnS ()"
  obtain m1 where 1: "?f k mg = (Inr (), m1)" and r: "forS ?f ks m1 = (Inr u, mg')"
    using Cons.prems(3) unfolding Cons.hyps(2) [symmetric] by (auto simp: res_simps)
  have st: "stable (recorded view (mint_key T mint)) (forS ?f ks)"
    by (rule stable_forS) (auto intro!: stables ok split: TxKind.splits)
  show ?case
  proof (cases "k = NftMint mint")
    case True
    then show ?thesis using mint_records [OF ok Cons.prems(2)] 1 stableD [OF st r] by simp
  next
    case False
    have "preserves mg_mode (?f k)" by (cases k) (auto intro: frames store_metadata_frames)
    from preservesD [OF this 1] show ?thesis
      using Cons.hyps(1) [of "batch\<lparr>b_transactions := ks\<rparr>" m1] False Cons.prems(1,2) r
      by (simp add: Cons.hyps(2) [symmetric])
  qed
qed simp

lemma apply_block_records:
  assumes ok: "engine_ok G view" and m: "mg_mode (am_db t) = Blockchain" and a: "apply_new_block G T block t = (Inr u, t')"
    and b: "batch_of_block G T block (am_db t) = Inr batch" and k: "NftMint mint \<in> set (b_transactions batch)"
  shows "recorded view (mint_key T mint) (am_db t')"
proof -
  obtain batch' st oc m1 m2 m3 where b': "batch_of_block G T block (am_db t) = Inr batch'"
    and d: "dry_run_block_and_batch default_guard (te_ext T) (am_inner t) block batch' = Inr (st, oc)"
    and 1: "apply_nft_mints_for_block G T block batch' (am_db t) = (Inr (), m1)"
    and 2: "apply_nft_transfers_for_block G T block batch' m1 = (Inr (), m2)"
    and 3: "commit_inner_state G T st m2 = (Inr (), m3)"
    and 4: "flush_addresses G T (oc_touched_accounts oc) (t\<lparr>am_db := m3, am_inner := st\<rparr>) = (Inr (), t')"
    using a by (rule apply_new_block_steps)
  have k: "NftMint mint \<in> set (b_transactions batch')" using k b b' by simp
  have "recorded view (mint_key T mint) m3"
    using mints_record [OF ok k m 1] stableD [OF recorded_nft(5) [OF ok] 2] stableD [OF recorded_writes(1) [OF ok] 3] by blast
  then show ?thesis using stableD [OF recorded_writes(2) [OF ok] 4] by simp
qed

text \<open>A rollback leaves the NFT records of the blocks it removes, and so blocks the new branch: after a block that
  mints an NFT was applied and a rollback to an ancestor succeeded, every later block above the tip whose
  batch mints the same id is refused, on the branch where the id was never minted.\<close>

theorem rollback_blocks_remint:
  assumes ok: "engine_ok G view" and m: "mg_mode (am_db t0) = Blockchain"
    and a: "tree_apply_block G T block_a t0 = (Inr u, t)" and new: "m_index (bl_metadata block_a) > it_tip_height (am_inner t0)"
    and ba: "batch_of_block G T block_a (am_db t0) = Inr batch_a" and ka: "NftMint mint_a \<in> set (b_transactions batch_a)"
    and r: "rollback_to G T ancestor t = (Inr u', t1)"
    and bb: "batch_of_block G T block_b (am_db t1) = Inr batch_b" and kb: "NftMint mint_b \<in> set (b_transactions batch_b)"
    and same: "mint_nft_id mint_b = mint_nft_id mint_a" and next': "m_index (bl_metadata block_b) > it_tip_height (am_inner t1)"
  shows "\<exists>e t2. tree_apply_block G T block_b t1 = (Inl e, t2) \<and> am_inner t2 = am_inner t1"
proof -
  have "apply_new_block G T block_a t0 = (Inr u, t)"
    using a new by (auto simp: tree_apply_block_def apply_block_body_def res_simps split: prod.splits sum.splits if_splits)
  then have "recorded view (mint_key T mint_a) (am_db t)" by (rule apply_block_records [OF ok m _ ba ka])
  then have rec: "recorded view (mint_key T mint_b) (am_db t1)"
    using stableD [OF recorded_replay(3) [OF ok] r] same by simp
  have "apply_new_block G T block_b t1 \<noteq> (Inr v, t2)" for v t2
    using mints_refused [OF ok kb rec] bb by (auto simp: apply_new_block_def res_simps)
  then have "tree_apply_block G T block_b t1 \<noteq> (Inr v, t2)" for v t2
    using next' by (auto simp: tree_apply_block_def apply_block_body_def res_simps split: prod.splits sum.splits if_splits)
  then obtain e t2 where t2: "tree_apply_block G T block_b t1 = (Inl e, t2)"
    by (metis old.sum.exhaust surj_pair)
  then have "am_inner t2 = am_inner t1" by (auto simp: tree_apply_block_def split: prod.splits sum.splits)
  with t2 show ?thesis by blast
qed

end
