(* ===== verification/AccountSamples.thy ===== *)
theory AccountSamples
  imports NftRollback
begin

text \<open>
  A concrete run of the account tree: on a genesis block, a block whose batch mints an NFT is applied, the chain is
  rolled back to genesis, and the same block is applied again. The database is the one in memory; the
  digest is constant and the codecs know the values of the run.
\<close>

definition run_mint :: NftMintTx where
  "run_mint = \<lparr>mint_nft_id = replicate 64 3, mint_content_hash = zero_hash, mint_title = [], mint_description = []\<rparr>"

definition mint_batch :: TransactionBatch where
  "mint_batch = \<lparr>b_index = 1, b_timestamp = 1700000000, b_transactions = [NftMint run_mint], b_guardian_signature = None\<rparr>"

definition mint_block :: Block where
  "mint_block = \<lparr>bl_metadata = sample_meta\<lparr>m_index := 1, m_previous_hash := replicate 64 1, m_merkle_root := replicate 64 5,
       m_guardian_signature := replicate SIG_LEN 1\<rparr>, bl_batch_key = Some (lit ''b''), bl_miner = sample_wallet 97, bl_block_hash = replicate 64 2, bl_reward = 0\<rparr>"

definition run_ext :: Ext where
  "run_ext = fixed_ext\<lparr>blake3_xof64 := \<lambda>_. replicate 64 2, pc_batch := \<lambda>_. Inr [0], pc_batch_take := \<lambda>_. Inr (mint_batch, [])\<rparr>"

definition run_tree_ext :: TreeExt where
  "run_tree_ext = \<lparr>te_block = sample_bext\<lparr>bx := run_ext, pc_block_from := \<lambda>_. Inr sample_block\<rparr>,
     te_nft = \<lparr>nj_to = \<lambda>_. Inr [7], nj_from = \<lambda>_. Inl ''unsupported''\<rparr>,
     te_snapshot = \<lambda>_. Inr [0], te_snapshot_take = \<lambda>_. Inl ''unsupported'', te_legacy_take = \<lambda>_. Inl ''unsupported'',
     te_u64 = \<lambda>n. Inr (to_be_bytes 8 n), te_u64_take = \<lambda>_. Inl ''unsupported''\<rparr>"

definition run_db :: mem_db where
  "run_db = [((BLOCKMINT_DATA_COLUMN_NAME, block_key 0), replicate 64 1), ((TRANSACTION_BATCH_COLUMN_NAME, str_bytes (lit ''b'')), [0])]"

definition genesis_state :: InnerTree where
  "genesis_state = remember_recent_block inner_empty sample_block"

definition mint_state :: InnerTree where
  "mint_state = remember_recent_block genesis_state mint_block"

definition run_tree :: "mem_db AccountModelTree" where
  "run_tree = \<lparr>am_inner = genesis_state, am_db = mem_manager run_db, am_pending_blocks = []\<rparr>"

lemma run_states:
  "genesis_state = \<lparr>it_balances = [], it_tip_height = 0, it_tip_hash = replicate 64 1, it_prev_tip_hash = zero_hash,
     it_has_tip = True, it_blocks = [sample_block], it_total_issued_micro = 0, it_rewards_issued_micro = 0,
     it_reserved_issued_micro = 0\<rparr>"
  "mint_state = \<lparr>it_balances = [], it_tip_height = 1, it_tip_hash = replicate 64 2, it_prev_tip_hash = replicate 64 1,
     it_has_tip = True, it_blocks = [sample_block, mint_block], it_total_issued_micro = 0, it_rewards_issued_micro = 0,
     it_reserved_issued_micro = 0\<rparr>"
  by (simp_all add: genesis_state_def mint_state_def remember_recent_block_def inner_empty_def sample_block_def mint_block_def
      sample_meta_def cap_recent_def MAX_RECENT_BLOCKS_IN_RAM_def)

lemma mint_meta_valid: "meta_validate_structural (bl_metadata mint_block) = Inr ()"
  by (simp add: mint_block_def meta_validate_structural_def sample_meta_def cfg_defs MAX_METADATA_INDEX_HARD_def zero_hash_def SIG_LEN_def)

lemma mint_block_valid_for:
  assumes h: "hex_encode (bx X) = hex_encode fixed_ext" "hex_decode (bx X) = hex_decode fixed_ext" "\<And>b. blake3_xof64 (bx X) b = replicate 64 2"
    and m: "pc_meta X = pc_meta sample_bext"
  shows "block_validate X mint_block None = Inr ()"
proof -
  have w: "canonical_wallet (sample_wallet 97)" by (simp add: sample_wallet_canonical is_lower_hex_def)
  have "compute_block_hash X mint_block = Inr (hex_encode fixed_ext (replicate 64 2))"
    by (simp add: compute_block_hash_def mint_block_def Let_def compute_bytes_hash_hex_def h fixed_hex_len fixed_ext_hex)
  moreover have "decode_hash_hex X (hex_encode fixed_ext (replicate 64 2)) = Inr (replicate 64 2)"
    by (simp add: decode_hash_hex_def fixed_hex_len h fixed_ext_hex)
  ultimately have "verify_block_hash X mint_block = Inr True"
    by (simp add: verify_block_hash_def) (simp add: mint_block_def)
  moreover have "validate_miner_canonical mint_block = Inr ()"
    using canon_wallet_canonical [OF w] canonical_wallet_facts [OF w]
    by (simp add: validate_miner_canonical_def mint_block_def MAX_MINER_LEN_def REMZAR_WALLET_LEN_def)
  moreover have "validate_batch_key_bound (bl_batch_key mint_block) = Inr ()" "validate_block_hash_not_zero mint_block = Inr ()"
    by (simp_all add: validate_batch_key_bound_def validate_block_hash_not_zero_def mint_block_def MAX_BATCH_KEY_LEN_def
        zero_hash_def str_len_ascii)
  moreover have "validate_size X (bl_metadata mint_block) = Inr ()"
    by (simp add: mint_block_def validate_size_def m sample_bext_def sample_meta_def cfg_defs)
  ultimately show ?thesis using mint_meta_valid by (simp add: block_validate_def)
qed

lemma mint_block_valid: "block_validate (te_block run_tree_ext) mint_block None = Inr ()"
  by (rule mint_block_valid_for) (simp_all add: run_tree_ext_def run_ext_def)

text \<open>On any genesis block with the hash the block names, its batch is applied without effect on the balances.\<close>

definition minted_on :: "Block \<Rightarrow> InnerTree" where
  "minted_on g = remember_recent_block (remember_recent_block inner_empty g) mint_block"

abbreviation mint_ctx :: ApplyContext where
  "mint_ctx \<equiv> \<lparr>cx_mode = Replay, cx_block_height = 1, cx_block_hash = replicate 64 2, cx_previous_hash = replicate 64 1,
     cx_allow_duplicate_reward_in_batch = False\<rparr>"

lemma minted_on_eq:
  assumes "m_index (bl_metadata g) = 0" "m_previous_hash (bl_metadata g) = zero_hash" "bl_block_hash g = replicate 64 1"
  shows "minted_on g = \<lparr>it_balances = [], it_tip_height = 1, it_tip_hash = replicate 64 2, it_prev_tip_hash = replicate 64 1,
     it_has_tip = True, it_blocks = [g, mint_block], it_total_issued_micro = 0, it_rewards_issued_micro = 0, it_reserved_issued_micro = 0\<rparr>"
    and "compact_inv (minted_on g)"
proof -
  show e: "minted_on g = \<lparr>it_balances = [], it_tip_height = 1, it_tip_hash = replicate 64 2, it_prev_tip_hash = replicate 64 1,
     it_has_tip = True, it_blocks = [g, mint_block], it_total_issued_micro = 0, it_rewards_issued_micro = 0, it_reserved_issued_micro = 0\<rparr>"
    using assms by (simp add: minted_on_def remember_recent_block_def inner_empty_def mint_block_def cap_recent_def MAX_RECENT_BLOCKS_IN_RAM_def)
  show "compact_inv (minted_on g)"
    using assms by (simp add: e compact_inv_def MAX_RECENT_BLOCKS_IN_RAM_def follows_def mint_block_def saturating_add_def hvalues_sum_def)
qed

lemma mint_batch_applies:
  assumes g: "m_index (bl_metadata g) = 0" "m_previous_hash (bl_metadata g) = zero_hash" "bl_block_hash g = replicate 64 1"
    and E: "pc_batch E mint_batch = Inr [0]"
  shows "\<exists>oc. apply_batch_to_state default_guard E (minted_on g) mint_batch mint_ctx = Inr (minted_on g, oc) \<and> oc_touched_accounts oc = []"
proof -
  note st = minted_on_eq(1) [OF g]
  have "validate_batch_structure_with_reward_policy E mint_batch False = Inr ()"
    using E by (simp add: validate_batch_structure_with_reward_policy_def validate_batch_payload_size_def serialized_len_def
        max_batch_serialized_bytes_def max_txs_per_block_usize_def try_from_def checked_add_def)
      (simp add: mint_batch_def cfg_defs)
  moreover have "validate_apply_context mint_ctx = Inr ()"
    by (simp add: validate_apply_context_def zero_hash_def)
  moreover have "foldR apply_txkind_to_state (minted_on g, []) (b_transactions mint_batch) = Inr (minted_on g, [])"
    by (simp add: mint_batch_def apply_txkind_to_state.simps)
  moreover have "chain_inv (minted_on g)"
    using g by (simp add: st chain_inv_def MAX_RECENT_BLOCKS_IN_RAM_def follows_def mint_block_def saturating_add_def) (simp add: zero_hash_def)
  then have "verify_state_invariants default_guard (minted_on g) None None None = Inr ()"
    by (simp add: verify_state_invariants_iff money_inv_def keys_valid_def) (simp add: st hvalues_sum_def)
  moreover have "verify_touched_account_bound mint_batch [] = Inr ()"
    by (rule touched_bound_holds) (simp_all add: mint_batch_def cfg_defs)
  moreover obtain fp where "compute_state_fingerprint_for_context (minted_on g) mint_ctx [] = Inr fp"
    by (simp add: compute_state_fingerprint_for_context_def compute_state_fingerprint_with_values_def sum_balances_checked_def st Let_def)
  moreover have "foldR add_spend [] (b_transactions mint_batch) = Inr []" "b_index mint_batch = 1"
    by (simp_all add: mint_batch_def)
  ultimately show ?thesis by (simp add: apply_batch_to_state_def check_spends_def)
qed

lemma mint_dry_run:
  "\<exists>oc. dry_run_block_and_batch default_guard run_ext genesis_state mint_block mint_batch = Inr (mint_state, oc) \<and>
     oc_touched_accounts oc = []"
proof -
  have l: "links genesis_state mint_block"
    by (simp add: links_iff run_states expected_next_height_def saturating_add_def mint_block_def)
  have c: "compact_inv genesis_state"
    unfolding genesis_state_def by (rule remember_compact [OF empty_compact sample_links(1)])
  have g: "minted_on sample_block = mint_state" by (simp add: minted_on_def mint_state_def genesis_state_def)
  have x: "m_index (bl_metadata mint_block) = 1" "bl_block_hash mint_block = replicate 64 2"
    "m_previous_hash (bl_metadata mint_block) = replicate 64 1" by (simp_all add: mint_block_def)
  obtain oc where "apply_batch_to_state default_guard run_ext mint_state mint_batch mint_ctx = Inr (mint_state, oc)" "oc_touched_accounts oc = []"
    using mint_batch_applies [of sample_block run_ext] g by (auto simp: sample_block_def sample_meta_def run_ext_def)
  moreover have "expected_next_height genesis_state < 2 ^ 64 - 1"
    by (simp add: run_states expected_next_height_def saturating_add_def)
  ultimately show ?thesis
    using replay_step_is_dry_run [OF c _ l, of default_guard run_ext mint_batch mint_state oc] mint_state_def by (auto simp: x)
qed


abbreviation run_key :: "byte list" where
  "run_key \<equiv> str_bytes (mint_key run_tree_ext run_mint)"

definition run_db1 :: mem_db where
  "run_db1 = ((STATE_COLUMN_NAME, STATE_KEY), [0]) # mem_marked (((GLOBAL_COLUMN_NAME, run_key), [7]) # run_db)"

definition run_tree1 :: "mem_db AccountModelTree" where
  "run_tree1 = \<lparr>am_inner = mint_state, am_db = mem_manager run_db1, am_pending_blocks = []\<rparr>"

lemma run_batch_read:
  "batch_of_block mem_engine run_tree_ext mint_block (mem_manager db) = Inr mint_batch"
  if "map_of db (TRANSACTION_BATCH_COLUMN_NAME, str_bytes (lit ''b'')) = Some [0]"
proof -
  have "mg_read mem_engine TRANSACTION_BATCH_COLUMN_NAME (str_bytes (lit ''b'')) (mem_manager db) = Inr (Some [0])"
    by (simp add: mg_read_def mem_manager_def open_db_blockchain_def column_def)
       (use that in \<open>simp add: mem_engine_def\<close>)
  moreover have "batch_deserialize (te_ext run_tree_ext) [0] = Inr mint_batch"
    by (simp add: batch_deserialize_def run_tree_ext_def run_ext_def)
  ultimately show ?thesis by (simp add: batch_of_block_def mint_block_def) (simp add: mint_batch_def)
qed

lemma mem_metadata:
  "get_metadata mem_engine k (mem_manager db) = Inr (map_of db (GLOBAL_COLUMN_NAME, str_bytes k))"
  "store_metadata mem_engine k v (mem_manager db) = (Inr (), mem_manager (((GLOBAL_COLUMN_NAME, str_bytes k), v) # db))"
  by (simp_all add: get_metadata_def store_metadata_def)
     (simp add: mem_manager_def open_db_blockchain_def column_def mem_engine_def)

lemma run_apply_block: "tree_apply_block mem_engine run_tree_ext mint_block run_tree = (Inr (), run_tree1)"
proof -
  have te: "te_ext run_tree_ext = run_ext" by (simp add: run_tree_ext_def)
  have l: "validate_next_block_link genesis_state mint_block = Inr ()"
    by (simp add: validate_next_block_link_def run_states expected_next_height_def saturating_add_def mint_block_def)
  have b: "batch_of_block mem_engine run_tree_ext mint_block (mem_manager run_db) = Inr mint_batch"
    by (rule run_batch_read) (simp add: run_db_def)
  obtain oc where d: "dry_run_block_and_batch default_guard run_ext genesis_state mint_block mint_batch = Inr (mint_state, oc)"
      "oc_touched_accounts oc = []" using mint_dry_run by blast
  have none: "map_of run_db (GLOBAL_COLUMN_NAME, k) = None" for k by (simp add: run_db_def)
  have mi: "apply_nft_mints_for_block mem_engine run_tree_ext mint_block mint_batch (mem_manager run_db) =
      (Inr (), mem_manager (((GLOBAL_COLUMN_NAME, run_key), [7]) # run_db))"
    by (simp add: apply_nft_mints_for_block_def mint_batch_def apply_nft_mint_def load_nft_record_def bindS_def readS_def mem_metadata
        none store_nft_record_def map_errS_def returnS_def) (simp add: run_tree_ext_def mem_metadata)
  have tr: "apply_nft_transfers_for_block mem_engine run_tree_ext mint_block mint_batch mg = (Inr (), mg)" for mg
    by (simp add: apply_nft_transfers_for_block_def mint_batch_def bindS_def returnS_def)
  have "compact_inv mint_state"
    by (simp add: run_states compact_inv_def MAX_RECENT_BLOCKS_IN_RAM_def follows_def mint_block_def sample_block_def sample_meta_def
        saturating_add_def hvalues_sum_def)
  then have "verify_compact_state_invariants mint_state None None None = Inr ()" by (simp add: verify_compact_iff)
  then have co: "commit_inner_state mem_engine run_tree_ext mint_state (mem_manager db) =
      (Inr (), mem_manager (((STATE_COLUMN_NAME, STATE_KEY), [0]) # mem_marked db))" for db
    by (simp add: commit_inner_state_def bindS_def readS_def map_errS_def)
       (simp add: run_tree_ext_def MAX_ACCOUNT_STATE_SNAPSHOT_BYTES_def map_errS_def)
  have "apply_new_block mem_engine run_tree_ext mint_block run_tree = (Inr (), run_tree1)"
    by (simp add: apply_new_block_def run_tree_def bindS_def readS_def l b te d map_errS_def on_tree_db_def mi tr co
        flush_addresses_def returnS_def verify_account_cf_matches_state_def run_tree1_def run_db1_def)
  moreover have "\<not> m_index (bl_metadata mint_block) \<le> it_tip_height (am_inner run_tree)"
    by (simp add: mint_block_def run_tree_def run_states)
  ultimately show ?thesis by (simp add: tree_apply_block_def apply_block_body_def bindS_def readS_def mint_block_valid)
qed


lemma genesis_stored: "deserialize_from_storage (te_block run_tree_ext) (replicate 64 1) = Inr sample_block"
proof -
  have "sample_block\<lparr>bl_miner := []\<rparr> = sample_block" by (simp add: sample_block_def)
  then show ?thesis
    using sample_meta_valid
    by (simp add: deserialize_from_storage_def validate_storage_len_def cfg_defs normalize_and_validate_after_decode_def Let_def
        run_tree_ext_def) (simp add: sample_block_def validate_size_def sample_bext_def canonicalize_miner_for_height_def trim_none
        validate_batch_key_bound_def validate_block_hash_not_zero_def sample_meta_def cfg_defs)
qed

lemma genesis_keys: "tx_batch_key 0 \<noteq> str_bytes (lit ''b'')" "TRANSACTION_BATCH_COLUMN_NAME \<noteq> GLOBAL_COLUMN_NAME"
proof -
  have "length (tx_batch_key 0) > 1" by (simp add: tx_batch_key_def utf8_enc_def)
  moreover have "length (str_bytes (lit ''b'')) = 1" by (simp add: utf8_enc_def)
  ultimately show "tx_batch_key 0 \<noteq> str_bytes (lit ''b'')" by (metis less_irrefl)
qed simp


text \<open>A chain of which only genesis is stored is replayed to the state after genesis.\<close>

lemma genesis_reload:
  assumes dec: "deserialize_from_storage (te_block T) d = Inr g" and l: "links inner_empty g"
    and "map_of db (BLOCKMINT_DATA_COLUMN_NAME, block_key 0) = Some d" and "map_of db (TRANSACTION_BATCH_COLUMN_NAME, tx_batch_key 0) = None"
  shows "reload_from_db_to_height mem_engine T 0 \<lparr>am_inner = st, am_db = mem_manager db, am_pending_blocks = []\<rparr> =
    (Inr (), \<lparr>am_inner = remember_recent_block inner_empty g, am_db = mem_manager db, am_pending_blocks = []\<rparr>)"
proof -
  let ?st = "remember_recent_block inner_empty g"
  have i: "m_index (bl_metadata g) = 0" using l by (simp add: links_iff inner_empty_def expected_next_height_def)
  have t: "current_tip_hash inner_empty = None" "current_tip_hash ?st = Some (bl_block_hash g)"
    "current_prev_tip_hash ?st = Some (m_previous_hash (bl_metadata g))"
    by (simp_all add: current_tip_hash_def current_prev_tip_hash_def remember_recent_block_def inner_empty_def)
  have v: "verify_compact_state_invariants ?st (Some 0) (Some (bl_block_hash g)) (Some (m_previous_hash (bl_metadata g))) = Inr ()"
    using remember_compact [OF empty_compact l] i by (simp add: verify_compact_iff) (simp add: remember_recent_block_def inner_empty_def)
  have "validate_next_block_link inner_empty g = Inr ()" using l by (simp add: links_def)
  then have "replay_block mem_engine T inner_empty 0 (mem_manager db) = (Inr ?st, mem_manager db)"
    using assms v
    by (simp add: replay_block_def bindS_readS get_block_by_index_def get_batch_bytes_by_index_def dec Let_def t returnS_def)
  then show ?thesis
    using v by (simp add: reload_from_db_to_height_def replay_chain_def on_tree_db_def bindS_def readS_def t returnS_def retain_above_def)
qed

lemmas run_reload = genesis_reload [OF genesis_stored sample_links(1), folded genesis_state_def]

lemma run_db1_keys:
  "map_of run_db1 (BLOCKMINT_DATA_COLUMN_NAME, block_key 0) = Some (replicate 64 1)"
  "map_of run_db1 (TRANSACTION_BATCH_COLUMN_NAME, tx_batch_key 0) = None"
  "map_of run_db1 (TRANSACTION_BATCH_COLUMN_NAME, str_bytes (lit ''b'')) = Some [0]"
  using genesis_keys by (simp_all add: run_db1_def mem_marked_def run_db_def column_defs)

definition run_tree2 :: "mem_db AccountModelTree" where
  "run_tree2 = \<lparr>am_inner = genesis_state, am_db = mem_manager run_db1, am_pending_blocks = []\<rparr>"

lemma run_rollback: "rollback_to mem_engine run_tree_ext (replicate 64 1) run_tree1 = (Inr (), run_tree2)"
proof -
  have "find (\<lambda>b. bl_block_hash b = replicate 64 1) (it_blocks mint_state) = Some sample_block"
    by (simp add: run_states sample_block_def)
  moreover have "m_index (bl_metadata sample_block) = 0" by (simp add: sample_block_def sample_meta_def)
  ultimately show ?thesis
    using run_reload [OF run_db1_keys(1,2), of mint_state]
    by (simp add: rollback_to_def run_tree1_def bindS_def readS_def map_errS_def retain_above_def run_tree2_def)
qed

theorem rollback_blocks_remint_witness:
  "\<exists>e t2. tree_apply_block mem_engine run_tree_ext mint_block run_tree2 = (Inl e, t2) \<and> am_inner t2 = genesis_state"
proof -
  have i: "NftMint run_mint \<in> set (b_transactions mint_batch)" by (simp add: mint_batch_def)
  have b: "batch_of_block mem_engine run_tree_ext mint_block (am_db run_tree) = Inr mint_batch"
    "batch_of_block mem_engine run_tree_ext mint_block (am_db run_tree2) = Inr mint_batch"
    using run_db1_keys(3) by (simp_all add: run_tree_def run_tree2_def run_batch_read) (simp add: run_batch_read run_db_def)
  have h: "m_index (bl_metadata mint_block) > it_tip_height (am_inner run_tree)"
    "m_index (bl_metadata mint_block) > it_tip_height (am_inner run_tree2)" "mg_mode (am_db run_tree) = Blockchain"
    by (simp_all add: run_tree_def run_tree2_def run_states mint_block_def mem_manager_def)
  from rollback_blocks_remint [OF mem_engine_ok h(3) run_apply_block h(1) b(1) i run_rollback b(2) i refl h(2)]
  show ?thesis by (simp add: run_tree2_def)
qed

theorem apply_block_all_or_nothing_witness:
  "tree_apply_block mem_engine run_tree_ext mint_block run_tree = (Inr (), run_tree1) \<and>
   on_disk mem_view run_tree_ext (am_db run_tree1) mint_state"
proof -
  have "chain_mode (am_db run_tree)" by (simp add: run_tree_def mem_manager_def chain_mode_def)
  moreover have "run_tree1 \<noteq> run_tree" "am_inner run_tree1 = mint_state"
    by (simp_all add: run_tree1_def run_tree_def run_states)
  ultimately show ?thesis
    using apply_block_all_or_nothing [OF mem_engine_ok _ run_apply_block] run_apply_block by auto
qed

theorem replay_is_live_witness:
  "live_chain run_tree_ext (mem_view run_db1) 0 = Inr genesis_state"
proof -
  have r: "reload_from_db_to_height mem_engine run_tree_ext 0 run_tree1 = (Inr (), run_tree2)"
    using run_reload [OF run_db1_keys(1,2), of mint_state] by (simp add: run_tree1_def run_tree2_def)
  have h: "(0 :: nat) < 2 ^ 64 - 1" by simp
  have w: "mview mem_view (am_db run_tree1) = mem_view run_db1" "am_inner run_tree2 = genesis_state"
    by (simp_all add: run_tree1_def run_tree2_def mview_def mem_manager_def)
  show ?thesis using replay_is_live [OF mem_engine_ok h, of run_tree_ext run_tree1] r w by auto
qed

text \<open>A state whose balances were set without the counters: a restart fills them in.\<close>

definition uncounted :: InnerTree where
  "uncounted = sample_state1\<lparr>it_total_issued_micro := 0, it_rewards_issued_micro := 0\<rparr>"

definition restart_ext :: TreeExt where
  "restart_ext = run_tree_ext\<lparr>te_snapshot := \<lambda>s. if s = snapshot_from_inner uncounted then Inr [0]
       else if s = snapshot_from_inner sample_state1 then Inr [1] else Inl ''unsupported'',
     te_snapshot_take := \<lambda>b. if b = [0] then Inr (snapshot_from_inner uncounted, [])
       else if b = [1] then Inr (snapshot_from_inner sample_state1, []) else Inl ''unsupported''\<rparr>"

lemma restart_codec_ok: "snapshot_codec_ok restart_ext"
  by (auto simp: snapshot_codec_ok_def restart_ext_def split: if_splits)

lemma restart_states: "compact_inv uncounted" "restarted uncounted = sample_state1\<lparr>it_blocks := []\<rparr>"
  by (simp_all add: uncounted_def sample_state1_eq restarted_def compact_inv_def hvalues_sum_def MAX_RECENT_BLOCKS_IN_RAM_def cfg_defs)
    (simp_all add: sample_block_def sample_meta_def)

lemma restart_snapshots:
  "te_snapshot restart_ext (snapshot_from_inner uncounted) = Inr [0]"
  "te_snapshot restart_ext (snapshot_from_inner (restarted uncounted)) = Inr [1]"
  by (simp_all add: restart_ext_def restart_states(2)) (simp add: snapshot_from_inner_def uncounted_def sample_state1_eq)

lemma restart_commit:
  assumes "compact_inv st" "te_snapshot restart_ext (snapshot_from_inner st) = Inr [x]"
  shows "commit_inner_state mem_engine restart_ext st (mem_manager db) = (Inr (), mem_manager (((STATE_COLUMN_NAME, STATE_KEY), [x]) # mem_marked db))"
proof -
  have "verify_compact_state_invariants st None None None = Inr ()" using assms(1) by (simp add: verify_compact_iff)
  then show ?thesis
    using assms(2) by (simp add: commit_inner_state_def bindS_def readS_def MAX_ACCOUNT_STATE_SNAPSHOT_BYTES_def map_errS_def)
qed

theorem commit_load_roundtrip_witness:
  "\<exists>t1 t2 mg2. tree_commit mem_engine restart_ext \<lparr>am_inner = uncounted, am_db = mem_manager [], am_pending_blocks = []\<rparr> = (Inr (), t1) \<and>
     tree_load_state mem_engine restart_ext (am_db t1) = (Inr t2, mg2) \<and>
     it_balances (am_inner t2) = [(sample_wallet 97, 10)] \<and> it_tip_hash (am_inner t2) = replicate 64 1 \<and>
     it_total_issued_micro uncounted = 0 \<and> it_total_issued_micro (am_inner t2) = 10 \<and> it_rewards_issued_micro (am_inner t2) = 10 \<and>
     am_inner t2 \<noteq> uncounted\<lparr>it_blocks := []\<rparr> \<and> restarted (am_inner t2) = am_inner t2"
proof -
  let ?t = "\<lparr>am_inner = uncounted, am_db = mem_manager [], am_pending_blocks = []\<rparr> :: mem_db AccountModelTree"
  let ?db = "((STATE_COLUMN_NAME, STATE_KEY), [0]) # mem_marked []"
  have c: "tree_commit mem_engine restart_ext ?t = (Inr (), ?t\<lparr>am_db := mem_manager ?db\<rparr>)"
    by (simp add: tree_commit_def on_tree_db_def restart_commit restart_states restart_snapshots)
  have "mg_read mem_engine STATE_COLUMN_NAME STATE_KEY (mem_manager ?db) = Inr (Some [0])"
    by (simp add: mg_read_def mem_manager_def open_db_blockchain_def column_def) (simp add: mem_engine_def)
  then obtain t2 mg2 where l: "tree_load_state mem_engine restart_ext (mem_manager ?db) = (Inr t2, mg2)"
    using decode_snapshot [OF restart_codec_ok restart_snapshots(1) restart_states(1)] restart_snapshots(2)
      restarted_compact [OF restart_states(1)]
    by (simp add: tree_load_state_def bindS_def readS_def restart_commit)
  have m: "chain_mode (am_db ?t)" by (simp add: mem_manager_def chain_mode_def)
  have d: "am_db (?t\<lparr>am_db := mem_manager ?db\<rparr>) = mem_manager ?db" by simp
  note r = commit_load_roundtrip [OF mem_engine_ok restart_codec_ok m c, unfolded d, OF l]
  have v: "it_total_issued_micro uncounted = 0" "hvalues_sum (it_balances uncounted) = 10"
    by (simp_all add: uncounted_def sample_state1_eq hvalues_sum_def)
  have "am_inner t2 = sample_state1\<lparr>it_blocks := []\<rparr>" using r restart_states(2) by simp
  then show ?thesis using c l r v by (auto simp: sample_state1_eq)
qed

end
