(* ===== verification/Puzzle.thy ===== *)
theory Puzzle
  imports Blocks
begin

unbundle bit_operations_syntax

text \<open>
  The puzzle of a proposer: its configuration (\<open>src/consensus/por_001_consensus_config.rs\<close>), the engine that
  derives, solves and verifies it (\<open>por_002_puzzle_engine.rs\<close>), the proof exchanged between nodes
  (\<open>por_004_puzzle_proof.rs\<close>) and the verification of the proof a block commits to
  (\<open>src/blockchain/block_003_puzzleproof.rs\<close>).

  A \<open>Duration\<close> of the configuration is its number of seconds. \<open>blake3::Hasher::finalize\<close> is the first 32 bytes of
  the extendable output. Solving takes the elapsed time as an argument and does not sleep.
\<close>

section \<open>Configuration\<close>

datatype PorPuzzleKind = FibonacciDelayDev | FactorizationDelayDev

record PorConsensusConfig =
  por_target_block_time :: nat
  por_puzzle_kind :: PorPuzzleKind
  por_max_local_puzzle_ms :: nat

definition MAX_SOFT_PUZZLE_MS :: nat where "MAX_SOFT_PUZZLE_MS = 60 * 60 * 1000"

definition MANDATORY_PUZZLE_KIND :: PorPuzzleKind where "MANDATORY_PUZZLE_KIND = FibonacciDelayDev"

definition por_effective_puzzle_secs :: nat where
  "por_effective_puzzle_secs =
     (let slot_secs = max BLOCK_CREATION_INTERVAL_SECS 1; raw_puzzle_secs = max PUZZLE_CREATION_INTERVAL_SECS 1 in
      min raw_puzzle_secs slot_secs)"

definition por_validate :: "PorConsensusConfig \<Rightarrow> unit result" where
  "por_validate cfg =
     (if por_target_block_time cfg = 0 then Inl (ValidationError ''PorConsensusConfig invalid: target_block_time is 0s'')
      else if por_max_local_puzzle_ms cfg = 0
        then Inl (ValidationError ''PorConsensusConfig invalid: max_local_puzzle_ms is 0 for mandatory puzzle mode'')
      else if por_target_block_time cfg > max BLOCK_CREATION_INTERVAL_SECS 1
        then Inl (ValidationError ''PorConsensusConfig invalid: target_block_time exceeds block slot'')
      else if por_puzzle_kind cfg \<noteq> MANDATORY_PUZZLE_KIND
        then Inl (ValidationError ''PorConsensusConfig invalid: puzzle_kind does not match mandatory network kind'')
      else Inr ())"

definition por_from_globals :: PorConsensusConfig where
  "por_from_globals =
     (let puzzle_secs = por_effective_puzzle_secs;
          soft_ms = min (max (saturating_mul 64 puzzle_secs 1000) 1000) MAX_SOFT_PUZZLE_MS in
      \<lparr>por_target_block_time = puzzle_secs, por_puzzle_kind = MANDATORY_PUZZLE_KIND, por_max_local_puzzle_ms = soft_ms\<rparr>)"

section \<open>Engine: data and normalization\<close>

record PorPuzzleHeader =
  ph_height :: nat
  ph_validator :: rstr
  ph_prev_block_hash :: hash
  ph_kind :: PorPuzzleKind
  ph_param :: nat

record PorPuzzleSolution =
  ps_header :: PorPuzzleHeader
  ps_output :: nat
  ps_solved_in_ms :: nat

record PorPuzzleEngine =
  pe_cfg :: PorConsensusConfig

definition engine_from_globals :: PorPuzzleEngine where
  "engine_from_globals = \<lparr>pe_cfg = por_from_globals\<rparr>"

definition canon_wallet_deterministic :: "rstr \<Rightarrow> rstr" where
  "canon_wallet_deterministic addr =
     (case canon_wallet_id_checked addr of Inr w \<Rightarrow> w | Inl _ \<Rightarrow> lit ''por:<invalid-wallet>'')"

definition MAX_FIB_N :: nat where "MAX_FIB_N = 44"

definition MIN_FACT_DIFFICULTY :: nat where "MIN_FACT_DIFFICULTY = 1"

definition MAX_FACT_DIFFICULTY :: nat where "MAX_FACT_DIFFICULTY = 4"

definition MAX_FACT_TRIAL_STEPS :: nat where "MAX_FACT_TRIAL_STEPS = 2000000"

definition MAX_FACT_N :: nat where "MAX_FACT_N = 2 ^ 48"

definition clamp_fib_n :: "nat \<Rightarrow> nat" where
  "clamp_fib_n n = min n MAX_FIB_N"

definition clamp_fact_param :: "nat \<Rightarrow> nat" where
  "clamp_fact_param p = min (max p MIN_FACT_DIFFICULTY) MAX_FACT_DIFFICULTY"

definition normalize_header :: "PorPuzzleHeader \<Rightarrow> PorPuzzleHeader" where
  "normalize_header header =
     (let h = header\<lparr>ph_validator := canon_wallet_deterministic (ph_validator header)\<rparr> in
      case ph_kind h of
        FibonacciDelayDev \<Rightarrow> h\<lparr>ph_param := clamp_fib_n (ph_param h)\<rparr>
      | FactorizationDelayDev \<Rightarrow> h\<lparr>ph_param := clamp_fact_param (ph_param h)\<rparr>)"

text \<open>The digest both derivations read: parent hash, height and validator.\<close>

definition puzzle_seed :: "Ext \<Rightarrow> hash \<Rightarrow> nat \<Rightarrow> rstr \<Rightarrow> byte list" where
  "puzzle_seed E prev_block_hash height validator =
     take 32 (blake3_xof64 E (prev_block_hash @ to_be_bytes 8 height @ str_bytes validator))"

definition seed_byte :: "byte list \<Rightarrow> nat" where
  "seed_byte sb = (case sb of [] \<Rightarrow> 0 | b # _ \<Rightarrow> unat b)"

definition fib_base :: "nat \<Rightarrow> nat" where
  "fib_base target_secs =
     (if target_secs \<le> 10 then 26 else if target_secs \<le> 20 then 30 else if target_secs \<le> 40 then 32
      else if target_secs \<le> 60 then 34 else 36)"

definition derive_puzzle :: "Ext \<Rightarrow> PorPuzzleEngine \<Rightarrow> nat \<Rightarrow> rstr \<Rightarrow> hash \<Rightarrow> PorPuzzleHeader" where
  "derive_puzzle E eng height validator_wallet prev_block_hash =
     (let validator = canon_wallet_deterministic validator_wallet;
          kind = por_puzzle_kind (pe_cfg eng);
          sb = puzzle_seed E prev_block_hash height validator;
          target_secs = max (por_target_block_time (pe_cfg eng)) 1;
          param = (case kind of
              FibonacciDelayDev \<Rightarrow> min (saturating_add 32 (fib_base target_secs) (seed_byte sb AND 7)) MAX_FIB_N
            | FactorizationDelayDev \<Rightarrow> saturating_add 32 (seed_byte sb AND 3) 1) in
      \<lparr>ph_height = height, ph_validator = validator, ph_prev_block_hash = prev_block_hash, ph_kind = kind, ph_param = param\<rparr>)"

section \<open>The two puzzles\<close>

definition fib_step :: "nat \<times> nat \<Rightarrow> nat \<times> nat" where
  "fib_step ab = (case ab of (a, b) \<Rightarrow> (b, saturating_add 128 a b))"

definition fib_iter_u128 :: "nat \<Rightarrow> nat" where
  "fib_iter_u128 n = (if n = 0 then 0 else if n = 1 then 1 else fst ((fib_step ^^ n) (0, 1)))"

definition derive_n_from_header :: "Ext \<Rightarrow> PorPuzzleHeader \<Rightarrow> nat" where
  "derive_n_from_header E header =
     (let sb = puzzle_seed E (ph_prev_block_hash header) (ph_height header) (ph_validator header);
          n = max (from_be_bytes (take 8 sb) OR 1) 3;
          shift = ph_param header AND 3 in
      drop_bit shift n)"

function trial_division :: "nat \<Rightarrow> nat \<Rightarrow> nat \<Rightarrow> nat option result" where
  "trial_division n candidate_p steps =
     (if \<not> saturating_mul 64 candidate_p candidate_p \<le> n then Inr None
      else if steps \<ge> MAX_FACT_TRIAL_STEPS
        then Inl (ValidationError ''Factorization puzzle exceeded trial division step cap'')
      else if candidate_p dvd n then Inr (Some candidate_p)
      else trial_division n (saturating_add 64 candidate_p 2) (saturating_add 64 steps 1))"
  by pat_completeness auto
termination
  by (relation "measure (\<lambda>(n, p, steps). MAX_FACT_TRIAL_STEPS - steps)")
    (auto simp: saturating_add_def MAX_FACT_TRIAL_STEPS_def)

declare trial_division.simps [simp del]

definition solve_factorization_dev_checked :: "Ext \<Rightarrow> PorPuzzleHeader \<Rightarrow> nat result" where
  "solve_factorization_dev_checked E header =
     (let n = derive_n_from_header E header in
      if n > MAX_FACT_N then Inl (ValidationError ''Factorization puzzle n too large for safety'')
      else
        bindR (trial_division n 3 0) (\<lambda>found_p.
        let p = (case found_p of Some p \<Rightarrow> p | None \<Rightarrow> n) in
        Inr (push_bit 64 n OR p)))"

definition solve_factorization_dev :: "Ext \<Rightarrow> PorPuzzleHeader \<Rightarrow> nat" where
  "solve_factorization_dev E header =
     (case solve_factorization_dev_checked E header of
        Inr v \<Rightarrow> v
      | Inl _ \<Rightarrow> push_bit 64 (derive_n_from_header E header))"

definition verify_factorization_dev_checked :: "Ext \<Rightarrow> PorPuzzleHeader \<Rightarrow> nat \<Rightarrow> bool result" where
  "verify_factorization_dev_checked E header packed =
     (let n_expected = derive_n_from_header E header in
      if n_expected > MAX_FACT_N then Inl (ValidationError ''Factorization verify refused: n too large for safety'')
      else
        (let n_part = drop_bit 64 packed mod 2 ^ 64; p_part = packed AND mask 64 in
         if n_part \<noteq> n_expected then Inr False
         else if p_part < 3 then Inr False
         else if \<not> p_part dvd n_expected then Inr False
         else Inr True))"

definition verify_factorization_dev :: "Ext \<Rightarrow> PorPuzzleHeader \<Rightarrow> nat \<Rightarrow> bool" where
  "verify_factorization_dev E header packed =
     (case verify_factorization_dev_checked E header packed of Inr b \<Rightarrow> b | Inl _ \<Rightarrow> False)"

section \<open>Solving and verifying\<close>

text \<open>The argument \<open>elapsed\<close> is the elapsed time, in seconds and milliseconds.\<close>

definition solve_locally_checked :: "Ext \<Rightarrow> PorPuzzleEngine \<Rightarrow> PorPuzzleHeader \<Rightarrow> nat \<times> nat \<Rightarrow> PorPuzzleSolution result" where
  "solve_locally_checked E eng header0 elapsed =
     (let header = normalize_header header0;
          output = (case ph_kind header of
              FibonacciDelayDev \<Rightarrow> fib_iter_u128 (ph_param header)
            | FactorizationDelayDev \<Rightarrow> solve_factorization_dev E header);
          ms = saturating_add 64 (saturating_mul 64 (fst elapsed) 1000) (snd elapsed) in
      Inr \<lparr>ps_header = header, ps_output = output, ps_solved_in_ms = ms\<rparr>)"

definition verify_checked :: "Ext \<Rightarrow> PorPuzzleEngine \<Rightarrow> PorPuzzleSolution \<Rightarrow> nat \<Rightarrow> rstr \<Rightarrow> hash \<Rightarrow> unit result" where
  "verify_checked E eng solution expected_height expected_validator expected_prev_block_hash =
     (let expected_header = derive_puzzle E eng expected_height expected_validator expected_prev_block_hash;
          nsh = normalize_header (ps_header solution) in
      if ph_height nsh \<noteq> ph_height expected_header \<or> ph_validator nsh \<noteq> ph_validator expected_header \<or>
         ph_prev_block_hash nsh \<noteq> ph_prev_block_hash expected_header \<or> ph_kind nsh \<noteq> ph_kind expected_header \<or>
         ph_param nsh \<noteq> ph_param expected_header
        then Inl (ValidationError ''Puzzle header mismatch (height/validator/hash/kind/param)'')
      else (case ph_kind nsh of
          FibonacciDelayDev \<Rightarrow>
            if fib_iter_u128 (ph_param nsh) = ps_output solution then Inr ()
            else Inl (ValidationError ''Fibonacci puzzle output mismatch'')
        | FactorizationDelayDev \<Rightarrow>
            if verify_factorization_dev E nsh (ps_output solution) then Inr ()
            else Inl (ValidationError ''Factorization puzzle output mismatch'')))"

definition engine_verify :: "Ext \<Rightarrow> PorPuzzleEngine \<Rightarrow> PorPuzzleSolution \<Rightarrow> nat \<Rightarrow> rstr \<Rightarrow> hash \<Rightarrow> bool" where
  "engine_verify E eng solution expected_height expected_validator expected_prev_block_hash =
     (verify_checked E eng solution expected_height expected_validator expected_prev_block_hash = Inr ())"

section \<open>Proofs exchanged between nodes\<close>

record PorPuzzleProof =
  pp_height :: nat
  pp_validator :: rstr
  pp_prev_block_hash :: hash
  pp_output :: nat

definition max_validator_len :: nat where "max_validator_len = 256"

definition canonical_validator :: "PorPuzzleProof \<Rightarrow> rstr result" where
  "canonical_validator p =
     (if str_len (pp_validator p) > max_validator_len then Inl (ValidationError ''PorPuzzleProof: validator string too long'')
      else bindR (canon_wallet_id_checked (pp_validator p)) (\<lambda>canon. Inr canon))"

definition from_solution :: "PorPuzzleSolution \<Rightarrow> PorPuzzleProof" where
  "from_solution sol =
     \<lparr>pp_height = ph_height (ps_header sol), pp_validator = ph_validator (ps_header sol),
      pp_prev_block_hash = ph_prev_block_hash (ps_header sol), pp_output = ps_output sol\<rparr>"

definition pp_validate_structural :: "PorPuzzleProof \<Rightarrow> unit result" where
  "pp_validate_structural p =
     bindR (canonical_validator p) (\<lambda>validator_can.
     if validator_can \<noteq> pp_validator p then Inl (ValidationError ''PorPuzzleProof: validator is not canonical'')
     else if pp_height p > 10000000 then Inl (ValidationError ''PorPuzzleProof: height out of bounds'')
     else if pp_prev_block_hash p = zero_hash \<or> pp_prev_block_hash p = replicate 64 255
       then Inl (ValidationError ''PorPuzzleProof: prev_block_hash is invalid sentinel'')
     else if pp_output p = 0 then Inl (ValidationError ''PorPuzzleProof: output cannot be 0'')
     else Inr ())"

definition pp_verify_with_engine_checked :: "Ext \<Rightarrow> PorPuzzleEngine \<Rightarrow> PorPuzzleProof \<Rightarrow> bool result" where
  "pp_verify_with_engine_checked E eng p =
     bindR (pp_validate_structural p) (\<lambda>_.
     bindR (canonical_validator p) (\<lambda>validator_can.
     let header = derive_puzzle E eng (pp_height p) validator_can (pp_prev_block_hash p);
         solution = \<lparr>ps_header = header, ps_output = pp_output p, ps_solved_in_ms = 0\<rparr> in
     Inr (engine_verify E eng solution (pp_height p) validator_can (pp_prev_block_hash p))))"

definition pp_verify_with_engine :: "Ext \<Rightarrow> PorPuzzleEngine \<Rightarrow> PorPuzzleProof \<Rightarrow> bool" where
  "pp_verify_with_engine E eng p = (case pp_verify_with_engine_checked E eng p of Inr b \<Rightarrow> b | Inl _ \<Rightarrow> False)"

section \<open>Proofs committed by blocks\<close>

definition from_gossip :: "PorPuzzleProof \<Rightarrow> BlockPuzzleProof result" where
  "from_gossip p = proof_new (pp_height p) (pp_validator p) (pp_prev_block_hash p) (pp_output p)"

definition to_gossip :: "BlockPuzzleProof \<Rightarrow> PorPuzzleProof" where
  "to_gossip p =
     \<lparr>pp_height = pz_height p, pp_validator = pz_validator p, pp_prev_block_hash = pz_prev_block_hash p,
      pp_output = pz_output p\<rparr>"

definition proof_verify_with_engine_checked :: "Ext \<Rightarrow> PorPuzzleEngine \<Rightarrow> BlockPuzzleProof \<Rightarrow> bool result" where
  "proof_verify_with_engine_checked E eng p =
     bindR (proof_validate_structural p) (\<lambda>_. pp_verify_with_engine_checked E eng (to_gossip p))"

definition proof_verify_with_engine :: "Ext \<Rightarrow> PorPuzzleEngine \<Rightarrow> BlockPuzzleProof \<Rightarrow> bool" where
  "proof_verify_with_engine E eng p =
     (case proof_verify_with_engine_checked E eng p of Inr b \<Rightarrow> b | Inl _ \<Rightarrow> False)"

definition commitment_hex :: "BlockExt \<Rightarrow> BlockPuzzleProof \<Rightarrow> rstr result" where
  "commitment_hex X p = bindR (commitment_bytes X p) (\<lambda>b. Inr (hex_encode (bx X) b))"

end
