(* ===== verification/PuzzleProps.thy ===== *)
theory PuzzleProps
  imports Puzzle
begin

unbundle bit_operations_syntax

text \<open>
  What the puzzle of the network decides: the saturating loop computes the Fibonacci numbers, a committed proof is
  accepted exactly when it carries the one right number, an honest solution is always accepted, and the factorization
  puzzle accepts what its solver returns but also the number itself as its factor.
\<close>

section \<open>The Fibonacci loop\<close>

fun fib :: "nat \<Rightarrow> nat" where
  "fib 0 = 0"
| "fib (Suc 0) = 1"
| "fib (Suc (Suc n)) = fib n + fib (Suc n)"

lemma saturating_add_min:
  "saturating_add w (min a (2 ^ w - 1)) (min b (2 ^ w - 1)) = min (a + b) (2 ^ w - 1)"
  by (auto simp: saturating_add_def min_def)

lemma fib_loop: "(fib_step ^^ n) (0, 1) = (min (fib n) (2 ^ 128 - 1), min (fib (Suc n)) (2 ^ 128 - 1))"
proof (induction n)
  case (Suc n)
  have "(fib_step ^^ Suc n) (0, 1) = fib_step (min (fib n) (2 ^ 128 - 1), min (fib (Suc n)) (2 ^ 128 - 1))"
    by (simp only: funpow.simps comp_def Suc.IH)
  also have "\<dots> = (min (fib (Suc n)) (2 ^ 128 - 1), min (fib n + fib (Suc n)) (2 ^ 128 - 1))"
    by (simp only: fib_step_def prod.case saturating_add_min)
  finally show ?case by (simp only: fib.simps)
qed (simp add: fib.simps)

lemma fib_iter_saturates: "fib_iter_u128 n = min (fib n) (2 ^ 128 - 1)"
proof -
  have "fst ((fib_step ^^ n) (0, 1)) = min (fib n) (2 ^ 128 - 1)"
    by (simp only: fib_loop fst_conv)
  then show ?thesis by (auto simp: fib_iter_u128_def)
qed

lemma fib_mono: "m \<le> n \<Longrightarrow> fib m \<le> fib n"
proof (induction rule: dec_induct)
  case (step n)
  have "fib n \<le> fib (Suc n)" by (cases n rule: fib.cases) auto
  with step show ?case by simp
qed simp

lemma fib_pos: "0 < n \<Longrightarrow> 0 < fib n"
  using fib_mono [of 1 n] by simp

lemma fib_le_power: "fib n \<le> 2 ^ n"
proof (induction n rule: fib.induct)
  case (3 n)
  have "(2 :: nat) ^ n \<le> 2 ^ Suc n" by simp
  with 3 show ?case by simp
qed simp_all

lemma fib_iter_exact:
  assumes "n \<le> MAX_FIB_N"
  shows "fib_iter_u128 n = fib n"
proof -
  have "(2 :: nat) ^ n \<le> 2 ^ 44" using assms by (intro power_increasing) (simp_all add: MAX_FIB_N_def)
  with fib_le_power [of n] have "fib n \<le> 2 ^ 44" by linarith
  then show ?thesis unfolding fib_iter_saturates by simp
qed

section \<open>The puzzle of the network\<close>

lemma puzzle_globals:
  "por_puzzle_kind (pe_cfg engine_from_globals) = FibonacciDelayDev" "por_target_block_time (pe_cfg engine_from_globals) = 2"
  by (simp_all add: engine_from_globals_def por_from_globals_def por_effective_puzzle_secs_def MANDATORY_PUZZLE_KIND_def
      Let_def cfg_defs)

lemma puzzle_globals_valid: "por_validate por_from_globals = Inr ()"
  by (simp add: por_validate_def por_from_globals_def por_effective_puzzle_secs_def MANDATORY_PUZZLE_KIND_def
      MAX_SOFT_PUZZLE_MS_def saturating_mul_def Let_def cfg_defs)

text \<open>The index of the Fibonacci number that the network asks for.\<close>

definition puzzle_index :: "Ext \<Rightarrow> hash \<Rightarrow> nat \<Rightarrow> rstr \<Rightarrow> nat" where
  "puzzle_index E prev height validator = 26 + seed_byte (puzzle_seed E prev height validator) mod 8"

lemma and_7: "(n :: nat) AND 7 = n mod 8"
  using take_bit_eq_mask [of 3 n] by (simp add: mask_eq_exp_minus_1 take_bit_eq_mod)

lemma puzzle_index_bounds: "26 \<le> puzzle_index E prev h v" "puzzle_index E prev h v \<le> 33"
proof -
  have "seed_byte (puzzle_seed E prev h v) mod 8 < 8" by simp
  then show "26 \<le> puzzle_index E prev h v" "puzzle_index E prev h v \<le> 33" by (auto simp: puzzle_index_def)
qed

lemma derive_puzzle_globals:
  assumes "canonical_wallet w"
  shows "derive_puzzle E engine_from_globals h w prev =
    \<lparr>ph_height = h, ph_validator = w, ph_prev_block_hash = prev, ph_kind = FibonacciDelayDev,
     ph_param = puzzle_index E prev h w\<rparr>"
proof -
  have "seed_byte (puzzle_seed E prev h w) mod 8 < 8" by simp
  then show ?thesis
    by (simp add: derive_puzzle_def Let_def puzzle_globals canon_wallet_deterministic_def canon_wallet_canonical [OF assms]
        fib_base_def and_7 saturating_add_def MAX_FIB_N_def puzzle_index_def)
qed

lemma normalize_derived:
  assumes "canonical_wallet w"
  shows "normalize_header (derive_puzzle E engine_from_globals h w prev) = derive_puzzle E engine_from_globals h w prev"
  using puzzle_index_bounds(2) [of E prev h w]
  by (simp add: derive_puzzle_globals [OF assms] normalize_header_def Let_def canon_wallet_deterministic_def
      canon_wallet_canonical [OF assms] clamp_fib_n_def MAX_FIB_N_def)

lemma engine_verify_globals:
  assumes "canonical_wallet w"
  shows "engine_verify E engine_from_globals
      \<lparr>ps_header = derive_puzzle E engine_from_globals h w prev, ps_output = out, ps_solved_in_ms = ms\<rparr> h w prev \<longleftrightarrow>
    out = fib (puzzle_index E prev h w)"
proof -
  have "fib_iter_u128 (puzzle_index E prev h w) = fib (puzzle_index E prev h w)"
    using puzzle_index_bounds(2) [of E prev h w] by (intro fib_iter_exact) (simp add: MAX_FIB_N_def)
  then show ?thesis
    by (auto simp: engine_verify_def verify_checked_def Let_def normalize_derived [OF assms]) (auto simp: derive_puzzle_globals [OF assms])
qed

lemma structural_proof_facts:
  assumes "proof_validate_structural p = Inr ()"
  shows "canonical_wallet (pz_validator p)" and "pz_height p \<le> 10000000"
    and "pz_prev_block_hash p \<noteq> zero_hash" and "pz_prev_block_hash p \<noteq> replicate 64 255" and "pz_output p \<noteq> 0"
  using assms canon_wallet_result(1) [of "pz_validator p"]
  by (auto simp: proof_validate_structural_def MAX_REASONABLE_HEIGHT_def res_simps split: if_splits)

lemma structural_proofI:
  assumes "canonical_wallet (pz_validator p)" and "pz_height p \<le> 10000000"
    and "pz_prev_block_hash p \<noteq> zero_hash" and "pz_prev_block_hash p \<noteq> replicate 64 255" and "pz_output p \<noteq> 0"
  shows "proof_validate_structural p = Inr ()"
  using assms
  by (simp add: proof_validate_structural_def MAX_REASONABLE_HEIGHT_def MAX_VALIDATOR_LEN_def canonical_wallet_facts
      canonical_not_Nil canon_wallet_canonical)

lemma gossip_structural:
  assumes "proof_validate_structural p = Inr ()"
  shows "pp_validate_structural (to_gossip p) = Inr ()" and "canonical_validator (to_gossip p) = Inr (pz_validator p)"
proof -
  note f = structural_proof_facts [OF assms]
  show c: "canonical_validator (to_gossip p) = Inr (pz_validator p)"
    by (simp add: canonical_validator_def to_gossip_def max_validator_len_def canonical_wallet_facts [OF f(1)]
        canon_wallet_canonical [OF f(1)])
  show "pp_validate_structural (to_gossip p) = Inr ()"
    unfolding pp_validate_structural_def c using f by (simp add: to_gossip_def)
qed

lemma proof_decided:
  "proof_verify_with_engine_checked E engine_from_globals p =
     bindR (proof_validate_structural p) (\<lambda>_.
     Inr (pz_output p = fib (puzzle_index E (pz_prev_block_hash p) (pz_height p) (pz_validator p))))"
proof (cases "proof_validate_structural p")
  case (Inr u)
  then have s: "proof_validate_structural p = Inr ()" by simp
  show ?thesis
    by (simp add: proof_verify_with_engine_checked_def s pp_verify_with_engine_checked_def gossip_structural [OF s] Let_def)
      (simp add: to_gossip_def engine_verify_globals [OF structural_proof_facts(1) [OF s]])
qed (simp add: proof_verify_with_engine_checked_def)

section \<open>The factorization puzzle\<close>

lemma pack_parts:
  assumes "n < 2 ^ 64" and "p < (2 :: nat) ^ 64"
  shows "drop_bit 64 (push_bit 64 n OR p) mod 2 ^ 64 = n" and "(push_bit 64 n OR p) AND mask 64 = p"
proof -
  have "drop_bit 64 (push_bit 64 n OR p) = n"
    using assms(2) by (simp add: drop_bit_or) (simp add: drop_bit_eq_div push_bit_eq_mult)
  then show "drop_bit 64 (push_bit 64 n OR p) mod 2 ^ 64 = n" using assms(1) by simp
  have "take_bit 64 (push_bit 64 n OR p) = p"
    using assms(2) by (simp add: take_bit_or take_bit_push_bit) (simp add: take_bit_eq_mod)
  then show "(push_bit 64 n OR p) AND mask 64 = p" by (simp only: take_bit_eq_mask)
qed

lemma verify_packed:
  assumes "derive_n_from_header E header \<le> MAX_FACT_N" and "p < 2 ^ 64"
  shows "verify_factorization_dev E header (push_bit 64 (derive_n_from_header E header) OR p) \<longleftrightarrow>
    3 \<le> p \<and> p dvd derive_n_from_header E header"
proof -
  have n: "derive_n_from_header E header < 2 ^ 64" using assms(1) by (simp add: MAX_FACT_N_def)
  show ?thesis
    using assms(1)
    by (auto simp: verify_factorization_dev_def verify_factorization_dev_checked_def Let_def
        pack_parts(1) [OF n assms(2), simplified] pack_parts(2) [OF n assms(2)])
qed

lemma trial_division_sound:
  "trial_division n p steps = Inr (Some q) \<Longrightarrow> 3 \<le> p \<Longrightarrow> 3 \<le> q \<and> q dvd n"
proof (induction n p steps rule: trial_division.induct)
  case (1 n p steps)
  have "3 \<le> saturating_add 64 p 2" using "1.prems"(2) by (simp add: saturating_add_def)
  with 1 show ?case by (subst (asm) (2) trial_division.simps) (auto split: if_splits)
qed

text \<open>What the solver finds passes the verification, unless the number is below three.\<close>

lemma factor_solution_accepted:
  assumes "solve_factorization_dev_checked E header = Inr v" and "3 \<le> derive_n_from_header E header"
  shows "verify_factorization_dev E header v"
proof -
  let ?n = "derive_n_from_header E header"
  obtain f where n: "?n \<le> MAX_FACT_N" and f: "trial_division ?n 3 0 = Inr f"
    and v: "v = push_bit 64 ?n OR (case f of Some p \<Rightarrow> p | None \<Rightarrow> ?n)"
    using assms(1) by (auto simp: solve_factorization_dev_checked_def Let_def res_simps split: if_splits)
  have p: "3 \<le> (case f of Some p \<Rightarrow> p | None \<Rightarrow> ?n) \<and> (case f of Some p \<Rightarrow> p | None \<Rightarrow> ?n) dvd ?n"
    using trial_division_sound [of ?n 3 0] f assms(2) by (auto split: option.splits)
  then have "(case f of Some p \<Rightarrow> p | None \<Rightarrow> ?n) \<le> ?n" using assms(2) by (intro dvd_imp_le) auto
  then have "(case f of Some p \<Rightarrow> p | None \<Rightarrow> ?n) < 2 ^ 64" using n by (simp add: MAX_FACT_N_def)
  with p show ?thesis unfolding v verify_packed [OF n \<open>_ < 2 ^ 64\<close>] by blast
qed

text \<open>The number itself is accepted as its factor, so the verification demands no factorization.\<close>

lemma factor_self_accepted:
  assumes "3 \<le> derive_n_from_header E header" and "derive_n_from_header E header \<le> MAX_FACT_N"
  shows "verify_factorization_dev E header (push_bit 64 (derive_n_from_header E header) OR derive_n_from_header E header)"
proof -
  have "derive_n_from_header E header < 2 ^ 64" using assms(2) by (simp add: MAX_FACT_N_def)
  then show ?thesis using verify_packed [OF assms(2)] assms(1) by auto
qed

section \<open>Properties\<close>

text \<open>C31. A committed puzzle proof is decided by one number: a proof that fails the structural check is an error, and any
  other is accepted exactly when its output is the Fibonacci number whose index, between 26 and 33, is derived from the
  parent hash, the height and the validator.\<close>

theorem puzzle_proof_decided:
  "proof_verify_with_engine_checked E engine_from_globals p =
     bindR (proof_validate_structural p) (\<lambda>_.
     Inr (pz_output p = fib (puzzle_index E (pz_prev_block_hash p) (pz_height p) (pz_validator p))))"
  by (rule proof_decided)

text \<open>C30. The puzzle never stops an honest proposer: for a canonical wallet, a height in range and a proper parent hash, the
  engine solves the derived puzzle, the solution becomes a block proof for this height, wallet and parent, and the network
  accepts it.\<close>

theorem honest_puzzle_accepted:
  assumes "canonical_wallet w" and "h \<le> 10000000" and "prev \<noteq> zero_hash" and "prev \<noteq> replicate 64 255"
  shows "\<exists>sol p. solve_locally_checked E engine_from_globals (derive_puzzle E engine_from_globals h w prev) elapsed = Inr sol \<and>
    from_gossip (from_solution sol) = Inr p \<and> pz_height p = h \<and> pz_validator p = w \<and> pz_prev_block_hash p = prev \<and>
    proof_verify_with_engine_checked E engine_from_globals p = Inr True"
proof -
  let ?out = "fib (puzzle_index E prev h w)"
  let ?p = "\<lparr>pz_height = h, pz_validator = w, pz_prev_block_hash = prev, pz_output = ?out\<rparr>"
  have idx: "puzzle_index E prev h w \<le> MAX_FIB_N" and pos: "?out \<noteq> 0"
    using puzzle_index_bounds [of E prev h w] fib_pos [of "puzzle_index E prev h w"] by (auto simp: MAX_FIB_N_def)
  obtain ms where sol: "solve_locally_checked E engine_from_globals (derive_puzzle E engine_from_globals h w prev) elapsed =
      Inr \<lparr>ps_header = derive_puzzle E engine_from_globals h w prev, ps_output = ?out, ps_solved_in_ms = ms\<rparr>"
    using fib_iter_exact [OF idx]
    by (simp add: solve_locally_checked_def Let_def normalize_derived [OF assms(1)])
      (simp add: derive_puzzle_globals [OF assms(1)])
  have s: "proof_validate_structural ?p = Inr ()" using assms pos by (intro structural_proofI) simp_all
  then have "from_gossip (from_solution \<lparr>ps_header = derive_puzzle E engine_from_globals h w prev, ps_output = ?out, ps_solved_in_ms = ms\<rparr>) = Inr ?p"
    by (simp add: from_gossip_def from_solution_def derive_puzzle_globals [OF assms(1)] proof_new_def
        canonical_validator_checked_def MAX_VALIDATOR_LEN_def canonical_wallet_facts [OF assms(1)]
        canon_wallet_canonical [OF assms(1)] Let_def)
  moreover have "proof_verify_with_engine_checked E engine_from_globals ?p = Inr True"
    by (simp add: proof_verify_with_engine_checked_def s pp_verify_with_engine_checked_def gossip_structural [OF s] Let_def)
      (simp add: to_gossip_def engine_verify_globals [OF assms(1)])
  ultimately show ?thesis using sol by auto
qed

theorem honest_puzzle_accepted_witness:
  "\<exists>sol p. solve_locally_checked fixed_ext engine_from_globals
      (derive_puzzle fixed_ext engine_from_globals 7 (sample_wallet 97) (replicate 64 1)) (2, 0) = Inr sol \<and>
    from_gossip (from_solution sol) = Inr p \<and> pz_height p = 7 \<and> pz_validator p = sample_wallet 97 \<and>
    pz_prev_block_hash p = replicate 64 1 \<and> proof_verify_with_engine_checked fixed_ext engine_from_globals p = Inr True"
proof (rule honest_puzzle_accepted)
  show "canonical_wallet (sample_wallet 97)" by (simp add: sample_wallet_canonical is_lower_hex_def)
qed (simp_all add: zero_hash_def)

end
