(* ===== verification/PuzzlePool.thy ===== *)
theory PuzzlePool
  imports PuzzleProps OrdMap StateError "HOL-Library.Multiset"
begin

text \<open>
  The pool of puzzle winners (\<open>src/consensus/por_003_puzzle_pool.rs\<close>) and the operations of a proof that record into
  it (\<open>por_004_puzzle_proof.rs\<close>). The entropy of a height always is the digest of the winners stored for it, and it does
  not depend on the order in which proofs arrive.
\<close>

section \<open>State and operations\<close>

record PorPuzzlePool =
  wp_winners :: "(nat \<times> (rstr \<times> nat) list) list"
  wp_entropy :: "(nat \<times> hash) list"

definition pool_new :: PorPuzzlePool where
  "pool_new = \<lparr>wp_winners = [], wp_entropy = []\<rparr>"

definition ENTROPY_TAG :: "byte list" where
  "ENTROPY_TAG = str_bytes (lit ''por-puzzle-entropy-64-v1'')"

definition entropy_hash64 :: "Ext \<Rightarrow> byte list \<Rightarrow> hash" where
  "entropy_hash64 E preimage =
     take 32 (compute_bytes_hash E preimage) @ take 32 (compute_bytes_hash E (ENTROPY_TAG @ preimage))"

definition max_winners_per_height :: nat where "max_winners_per_height = MAX_BATCH_ITEMS"

definition max_wallet_len :: nat where "max_wallet_len = 256"

definition preimage_capacity :: "(rstr \<times> nat) list \<Rightarrow> nat result" where
  "preimage_capacity winners_map =
     foldR (\<lambda>cap e. ok_or (ValidationError ''PorPuzzlePool: preimage capacity overflow'')
       (Option.bind (checked_add 64 cap (str_len (fst e))) (\<lambda>v. checked_add 64 v 16))) 0 winners_map"

definition entropy_preimage :: "(rstr \<times> nat) list \<Rightarrow> byte list" where
  "entropy_preimage winners_map = concat (map (\<lambda>(addr, out). str_bytes addr @ to_be_bytes 16 out) winners_map)"

text \<open>The winners of a height, an empty map when there is none yet (\<open>entry(height).or_default()\<close>).\<close>

definition winners_or_default :: "nat \<Rightarrow> PorPuzzlePool \<Rightarrow> (rstr \<times> nat) list" where
  "winners_or_default height p = (case map_of (wp_winners p) height of None \<Rightarrow> [] | Some m \<Rightarrow> m)"

definition record_success_checked :: "Ext \<Rightarrow> nat \<Rightarrow> rstr \<Rightarrow> nat \<Rightarrow> (PorPuzzlePool, unit) sm" where
  "record_success_checked E height wallet output p =
     (if str_len wallet > max_wallet_len then (Inl (ValidationError ''PorPuzzlePool: wallet too long''), p)
      else (case canon_wallet_id_checked wallet of
        Inl e \<Rightarrow> (Inl e, p)
      | Inr canon \<Rightarrow>
          if str_len canon > max_wallet_len then (Inl (ValidationError ''PorPuzzlePool: canonical wallet too long''), p)
          else
            (let ws = winners_or_default height p; p1 = p\<lparr>wp_winners := bt_insert height ws (wp_winners p)\<rparr> in
             if map_of ws canon = None \<and> length ws \<ge> max_winners_per_height
               then (Inl (ValidationError ''PorPuzzlePool: too many winners for height''), p1)
             else
               (let prev = map_of ws canon; ws' = bt_insert canon output ws;
                    p2 = p\<lparr>wp_winners := bt_insert height ws' (wp_winners p)\<rparr>;
                    changed = (case prev of None \<Rightarrow> True | Some old \<Rightarrow> old \<noteq> output) in
                if \<not> changed then (Inr (), p2)
                else (case preimage_capacity ws' of
                    Inl e \<Rightarrow> (Inl e, p2)
                  | Inr cap \<Rightarrow>
                      if cap > MAX_TOTAL_BATCH_BYTES
                        then (Inl (ValidationError ''PorPuzzlePool: entropy preimage too large for height''), p2)
                      else
                        (Inr (), p2\<lparr>wp_entropy := bt_insert height (entropy_hash64 E (entropy_preimage ws')) (wp_entropy p2)\<rparr>))))))"

definition record_success :: "Ext \<Rightarrow> nat \<Rightarrow> rstr \<Rightarrow> nat \<Rightarrow> PorPuzzlePool \<Rightarrow> PorPuzzlePool" where
  "record_success E height wallet output p = snd (record_success_checked E height wallet output p)"

definition winners_for_height :: "nat \<Rightarrow> PorPuzzlePool \<Rightarrow> rstr list" where
  "winners_for_height height p = (case map_of (wp_winners p) height of None \<Rightarrow> [] | Some m \<Rightarrow> map fst m)"

definition entropy_for_height :: "nat \<Rightarrow> PorPuzzlePool \<Rightarrow> hash option" where
  "entropy_for_height height p = map_of (wp_entropy p) height"

definition gc_below :: "nat \<Rightarrow> PorPuzzlePool \<Rightarrow> PorPuzzlePool" where
  "gc_below min_height p =
     p\<lparr>wp_winners := filter (\<lambda>e. fst e \<ge> min_height) (wp_winners p),
       wp_entropy := filter (\<lambda>e. fst e \<ge> min_height) (wp_entropy p)\<rparr>"

definition verify_and_record_checked :: "Ext \<Rightarrow> PorPuzzleEngine \<Rightarrow> PorPuzzleProof \<Rightarrow> (PorPuzzlePool, bool) sm" where
  "verify_and_record_checked E eng pr =
     bindS (readS (\<lambda>_. pp_validate_structural pr)) (\<lambda>_.
     bindS (readS (\<lambda>_. canonical_validator pr)) (\<lambda>validator_can.
     let header = derive_puzzle E eng (pp_height pr) validator_can (pp_prev_block_hash pr);
         solution = \<lparr>ps_header = header, ps_output = pp_output pr, ps_solved_in_ms = 0\<rparr> in
     if \<not> engine_verify E eng solution (pp_height pr) validator_can (pp_prev_block_hash pr) then returnS False
     else bindS (record_success_checked E (pp_height pr) validator_can (pp_output pr)) (\<lambda>_. returnS True)))"

definition verify_and_record :: "Ext \<Rightarrow> PorPuzzleEngine \<Rightarrow> PorPuzzleProof \<Rightarrow> PorPuzzlePool \<Rightarrow> bool \<times> PorPuzzlePool" where
  "verify_and_record E eng pr p =
     (case verify_and_record_checked E eng pr p of (Inr b, p') \<Rightarrow> (b, p') | (Inl _, p') \<Rightarrow> (False, p'))"

section \<open>Invariant\<close>

text \<open>The winners of a height: canonical wallets in order, at least one and at most the bound.\<close>

definition winners_ok :: "(rstr \<times> nat) list \<Rightarrow> bool" where
  "winners_ok m \<longleftrightarrow> bt_wf m \<and> m \<noteq> [] \<and> length m \<le> max_winners_per_height \<and> list_all canonical_wallet (map fst m)"

definition pool_ok :: "Ext \<Rightarrow> PorPuzzlePool \<Rightarrow> bool" where
  "pool_ok E p \<longleftrightarrow> bt_wf (wp_winners p) \<and> list_all winners_ok (map snd (wp_winners p)) \<and>
     wp_entropy p = map (\<lambda>(h, m). (h, entropy_hash64 E (entropy_preimage m))) (wp_winners p)"

lemma pool_ok_new: "pool_ok E pool_new"
  by (simp add: pool_ok_def pool_new_def)

lemma capacity_canonical:
  assumes "list_all canonical_wallet (map fst m)" and "length m \<le> max_winners_per_height"
  shows "preimage_capacity m = Inr (145 * length m)"
proof -
  have "foldR (\<lambda>cap e. ok_or er (Option.bind (checked_add 64 cap (str_len (fst e))) (\<lambda>v. checked_add 64 v 16))) c m =
      Inr (c + 145 * length m)"
    if "c + 145 * length m < 2 ^ 64" for c and er :: ErrorDetection
    using assms(1) that
    by (induction m arbitrary: c) (auto simp: canonical_wallet_facts checked_add_def algebra_simps)
  from this [of 0] show ?thesis
    using assms(2) by (simp add: preimage_capacity_def max_winners_per_height_def cfg_defs)
qed

section \<open>Recording on a valid pool\<close>

definition pool_put :: "Ext \<Rightarrow> nat \<Rightarrow> rstr \<Rightarrow> nat \<Rightarrow> PorPuzzlePool \<Rightarrow> PorPuzzlePool" where
  "pool_put E height w output p =
     (let ws' = bt_insert w output (winners_or_default height p) in
      p\<lparr>wp_winners := bt_insert height ws' (wp_winners p),
        wp_entropy := bt_insert height (entropy_hash64 E (entropy_preimage ws')) (wp_entropy p)\<rparr>)"

definition pool_room :: "nat \<Rightarrow> rstr \<Rightarrow> PorPuzzlePool \<Rightarrow> bool" where
  "pool_room height w p \<longleftrightarrow>
     map_of (winners_or_default height p) w \<noteq> None \<or> length (winners_or_default height p) < max_winners_per_height"

lemma winners_or_default_ok:
  assumes "pool_ok E p"
  shows "winners_or_default h p = [] \<or> winners_ok (winners_or_default h p)"
proof (cases "map_of (wp_winners p) h")
  case (Some m)
  then have "m \<in> snd ` set (wp_winners p)" using map_of_SomeD by force
  with assms Some show ?thesis by (auto simp: pool_ok_def winners_or_default_def list_all_iff)
qed (simp add: winners_or_default_def)

lemma winners_put_ok:
  assumes p: "pool_ok E p" and w: "canonical_wallet w" and room: "pool_room h w p"
  shows "winners_ok (bt_insert w out (winners_or_default h p))"
proof -
  let ?ws = "winners_or_default h p"
  have ok: "bt_wf ?ws" "length ?ws \<le> max_winners_per_height" "list_all canonical_wallet (map fst ?ws)"
    using winners_or_default_ok [OF p, of h] by (auto simp: winners_ok_def)
  have "length (bt_insert w out ?ws) \<le> max_winners_per_height"
    using room ok length_bt_insert_le [of w out ?ws] length_bt_insert [OF ok(1), of w out]
    by (auto simp: pool_room_def)
  moreover have "list_all canonical_wallet (map fst (bt_insert w out ?ws))"
    using ok(3) w fst_set_bt_insert [of w out ?ws] by (auto simp: list_all_iff simp flip: image_image)
  moreover have "bt_insert w out ?ws \<noteq> []" using fst_set_bt_insert [of w out ?ws] by auto
  ultimately show ?thesis using ok(1) by (simp add: winners_ok_def)
qed

lemma pool_put_ok:
  assumes p: "pool_ok E p" and w: "canonical_wallet w" and room: "pool_room h w p"
  shows "pool_ok E (pool_put E h w out p)"
proof -
  have "bt_wf (wp_winners p)" "list_all winners_ok (map snd (wp_winners p))"
    "wp_entropy p = map (\<lambda>(h, m). (h, entropy_hash64 E (entropy_preimage m))) (wp_winners p)"
    using p by (simp_all add: pool_ok_def)
  then show ?thesis
    using winners_put_ok [OF assms, of out] list_all_bt_insert [of winners_ok "wp_winners p"]
      bt_insert_map [where f = "\<lambda>m. entropy_hash64 E (entropy_preimage m)"]
    by (simp add: pool_ok_def pool_put_def Let_def)
qed

lemma record_cases:
  assumes p: "pool_ok E p"
  shows "record_success_checked E h wallet out p =
    (if str_len wallet > max_wallet_len then (Inl (ValidationError ''PorPuzzlePool: wallet too long''), p)
     else case canon_wallet_id_checked wallet of
       Inl e \<Rightarrow> (Inl e, p)
     | Inr w \<Rightarrow> if pool_room h w p then (Inr (), pool_put E h w out p)
               else (Inl (ValidationError ''PorPuzzlePool: too many winners for height''), p))"
proof (cases "canon_wallet_id_checked wallet")
  case (Inr w)
  have w: "canonical_wallet w" by (rule canon_wallet_result(1) [OF Inr])
  let ?ws = "winners_or_default h p"
  let ?ws' = "bt_insert w out ?ws"
  have wf: "bt_wf ?ws" using winners_or_default_ok [OF p, of h] by (auto simp: winners_ok_def)
  have full: "p\<lparr>wp_winners := bt_insert h ?ws (wp_winners p)\<rparr> = p" if "\<not> pool_room h w p"
  proof -
    have "map_of (wp_winners p) h = Some ?ws"
      using that by (auto simp: pool_room_def winners_or_default_def max_winners_per_height_def cfg_defs split: option.splits)
    then show ?thesis using p by (simp add: pool_ok_def bt_insert_same)
  qed
  have cap: "preimage_capacity ?ws' = Inr (145 * length ?ws')" "\<not> 145 * length ?ws' > MAX_TOTAL_BATCH_BYTES"
    if "pool_room h w p"
    using winners_put_ok [OF p w that, of out] capacity_canonical [of ?ws']
    by (auto simp: winners_ok_def max_winners_per_height_def cfg_defs)
  have same: "p\<lparr>wp_winners := bt_insert h ?ws' (wp_winners p)\<rparr> = pool_put E h w out p" if "map_of ?ws w = Some out"
  proof -
    have "?ws' = ?ws" by (rule bt_insert_same [OF wf that])
    moreover have "map_of (wp_winners p) h = Some ?ws" using that by (auto simp: winners_or_default_def split: option.splits)
    then have "map_of (wp_entropy p) h = Some (entropy_hash64 E (entropy_preimage ?ws))"
      using p by (simp add: pool_ok_def map_of_map)
    moreover have "bt_wf (wp_entropy p)" using p by (simp add: pool_ok_def bt_wf_map)
    ultimately show ?thesis by (simp add: pool_put_def bt_insert_same)
  qed
  show ?thesis
    using w full cap same
    by (auto simp: record_success_checked_def Inr Let_def canonical_wallet_facts max_wallet_len_def pool_room_def
        pool_put_def split: option.splits if_splits)
qed (simp add: record_success_checked_def)

lemma record_ok: "pool_ok E p \<Longrightarrow> pool_ok E (snd (record_success_checked E h w out p))"
  by (auto simp: record_cases split: sum.splits intro: pool_put_ok canon_wallet_result(1))

lemma gc_ok: "pool_ok E p \<Longrightarrow> pool_ok E (gc_below h p)"
  by (auto simp: pool_ok_def gc_below_def bt_wf_filter list_all_iff filter_map comp_def case_prod_beta)

lemma verify_and_record_ok: "pool_ok E p \<Longrightarrow> pool_ok E (snd (verify_and_record_checked E eng pr p))"
  using record_ok [of E p]
  by (auto simp: verify_and_record_checked_def bindS_def readS_def returnS_def Let_def split: sum.splits prod.splits)
    (metis snd_conv)+

section \<open>A pool is determined by its winners\<close>

definition pool_winner :: "PorPuzzlePool \<Rightarrow> nat \<Rightarrow> rstr \<Rightarrow> nat option" where
  "pool_winner p h w = map_of (winners_or_default h p) w"

lemma pool_winner_put [simp]:
  "pool_winner (pool_put E h w out p) h' w' = (if h' = h \<and> w' = w then Some out else pool_winner p h' w')"
  by (simp add: pool_winner_def pool_put_def winners_or_default_def Let_def)

lemma winners_present:
  assumes "pool_ok E p"
  shows "map_of (wp_winners p) h = (if winners_or_default h p = [] then None else Some (winners_or_default h p))"
proof (cases "map_of (wp_winners p) h")
  case (Some m)
  then have "m \<in> snd ` set (wp_winners p)" using map_of_SomeD by force
  then have "m \<noteq> []" using assms by (auto simp: pool_ok_def list_all_iff winners_ok_def)
  with Some show ?thesis by (simp add: winners_or_default_def)
qed (simp add: winners_or_default_def)

lemma pool_ok_ext:
  assumes p: "pool_ok E p" and q: "pool_ok E q" and e: "pool_winner p = pool_winner q"
  shows "p = q"
proof -
  have "winners_or_default h p = winners_or_default h q" for h
    using winners_or_default_ok [OF p, of h] winners_or_default_ok [OF q, of h] fun_cong [OF e, of h]
    by (intro bt_wf_ext) (auto simp: winners_ok_def pool_winner_def fun_eq_iff)
  then have "map_of (wp_winners p) = map_of (wp_winners q)"
    by (simp add: fun_eq_iff winners_present [OF p] winners_present [OF q])
  then have w: "wp_winners p = wp_winners q" using p q by (intro bt_wf_ext) (simp_all add: pool_ok_def)
  then have "wp_entropy p = wp_entropy q" using p q by (simp add: pool_ok_def)
  with w show ?thesis by (simp add: PorPuzzlePool.equality)
qed

section \<open>Arrival of proofs\<close>

type_synonym success = "nat \<times> rstr \<times> nat"

definition record_all :: "Ext \<Rightarrow> success list \<Rightarrow> PorPuzzlePool \<Rightarrow> PorPuzzlePool" where
  "record_all E rs p = fold (\<lambda>(h, w, out). record_success E h w out) rs p"

lemma record_canonical:
  assumes "pool_ok E p" and "canonical_wallet w" and "length (winners_or_default h p) < max_winners_per_height"
  shows "record_success E h w out p = pool_put E h w out p"
  using assms
  by (simp add: record_success_def record_cases canonical_wallet_facts canon_wallet_canonical max_wallet_len_def pool_room_def)

lemma length_winners_put:
  "length (winners_or_default h' (pool_put E h w out p)) \<le> Suc (length (winners_or_default h' p))"
  using length_bt_insert_le [of w out "winners_or_default h p"] by (simp add: pool_put_def Let_def winners_or_default_def)

lemma record_all_winner:
  assumes "pool_ok E p" and "\<forall>(h, w, out)\<in>set rs. canonical_wallet w" and "distinct (map (\<lambda>(h, w, out). (h, w)) rs)"
    and "\<forall>h. length (winners_or_default h p) + length rs \<le> max_winners_per_height"
  shows "pool_ok E (record_all E rs p) \<and>
    (\<forall>h w out. pool_winner (record_all E rs p) h w = Some out \<longleftrightarrow>
      (h, w, out) \<in> set rs \<or> (h, w) \<notin> (\<lambda>(h, w, out). (h, w)) ` set rs \<and> pool_winner p h w = Some out)"
  using assms
proof (induction rs arbitrary: p)
  case (Cons r rs)
  obtain h w out where r: "r = (h, w, out)" by (cases r)
  have w: "canonical_wallet w" and room: "length (winners_or_default h p) < max_winners_per_height"
    using Cons.prems(2) spec [OF Cons.prems(4), of h] by (auto simp: r)
  let ?p = "pool_put E h w out p"
  have step: "record_all E (r # rs) p = record_all E rs ?p"
    by (simp add: record_all_def r record_canonical [OF Cons.prems(1) w room])
  have "pool_ok E ?p" using room by (intro pool_put_ok [OF Cons.prems(1) w]) (simp add: pool_room_def)
  moreover have "\<forall>h'. length (winners_or_default h' ?p) + length rs \<le> max_winners_per_height"
  proof
    fix h'
    show "length (winners_or_default h' ?p) + length rs \<le> max_winners_per_height"
      using length_winners_put [of h' E h w out p] spec [OF Cons.prems(4), of h'] by simp
  qed
  ultimately have "pool_ok E (record_all E rs ?p) \<and>
    (\<forall>h w out. pool_winner (record_all E rs ?p) h w = Some out \<longleftrightarrow>
      (h, w, out) \<in> set rs \<or> (h, w) \<notin> (\<lambda>(h, w, out). (h, w)) ` set rs \<and> pool_winner ?p h w = Some out)"
    using Cons.prems(2,3) by (intro Cons.IH) (auto simp: r)
  moreover have "(h, w) \<notin> (\<lambda>(h, w, out). (h, w)) ` set rs" using Cons.prems(3) by (simp add: r)
  ultimately show ?case unfolding step by (auto simp: r)
qed (simp add: record_all_def)

section \<open>Reachable pools\<close>

inductive pool_reachable :: "Ext \<Rightarrow> PorPuzzlePool \<Rightarrow> bool" for E where
  start: "pool_reachable E pool_new"
| success: "pool_reachable E p \<Longrightarrow> pool_reachable E (snd (record_success_checked E h w out p))"
| arrival: "pool_reachable E p \<Longrightarrow> pool_reachable E (snd (verify_and_record_checked E eng pr p))"
| clear: "pool_reachable E p \<Longrightarrow> pool_reachable E (gc_below h p)"

lemma pool_reachable_ok: "pool_reachable E p \<Longrightarrow> pool_ok E p"
  by (induction rule: pool_reachable.induct) (simp_all add: pool_ok_new record_ok verify_and_record_ok gc_ok)

section \<open>Properties\<close>

text \<open>In every pool reached by recording, verifying and clearing, the entropy of a height is the digest of the winners
  stored for it, and there is none exactly when there are no winners: the bounds on the preimage never stop the digest from
  being brought up to date.\<close>

theorem pool_entropy_follows:
  assumes "pool_reachable E p"
  shows "entropy_for_height h p =
    (if winners_for_height h p = [] then None else Some (entropy_hash64 E (entropy_preimage (winners_or_default h p))))"
proof -
  have ok: "pool_ok E p" by (rule pool_reachable_ok [OF assms])
  then have "map_of (wp_entropy p) h =
      map_option (\<lambda>m. entropy_hash64 E (entropy_preimage m)) (map_of (wp_winners p) h)"
    by (simp add: pool_ok_def map_of_map)
  then show ?thesis by (simp add: entropy_for_height_def winners_for_height_def winners_present [OF ok])
qed

text \<open>C34. The order in which successes arrive does not matter: any two orders of the same successes of different wallets, as
  many as a height may have, lead to the same pool, so all nodes hold the same winners and the same entropy.\<close>

theorem pool_order_independent:
  assumes "mset rs = mset rs'" and "\<forall>(h, w, out)\<in>set rs. canonical_wallet w"
    and "distinct (map (\<lambda>(h, w, out). (h, w)) rs)" and "length rs \<le> max_winners_per_height"
  shows "record_all E rs pool_new = record_all E rs' pool_new"
proof -
  have s: "set rs = set rs'" and l: "length rs = length rs'"
    using assms(1) by (auto dest: mset_eq_setD mset_eq_length)
  have d: "distinct (map (\<lambda>(h, w, out). (h, w)) rs')"
    using assms(1,3) by (metis mset_map mset_eq_imp_distinct_iff)
  have new: "winners_or_default h pool_new = []" for h by (simp add: winners_or_default_def pool_new_def)
  have a: "pool_ok E (record_all E rs pool_new) \<and>
    (\<forall>h w out. pool_winner (record_all E rs pool_new) h w = Some out \<longleftrightarrow> (h, w, out) \<in> set rs)"
    using record_all_winner [OF pool_ok_new assms(2,3)] assms(4) by (simp add: new pool_winner_def)
  have b: "pool_ok E (record_all E rs' pool_new) \<and>
    (\<forall>h w out. pool_winner (record_all E rs' pool_new) h w = Some out \<longleftrightarrow> (h, w, out) \<in> set rs')"
    using record_all_winner [OF pool_ok_new _ d] assms(2,4) by (simp add: new pool_winner_def s l)
  have "pool_winner (record_all E rs pool_new) h w = pool_winner (record_all E rs' pool_new) h w" for h w
    using a b s by (metis not_None_eq)
  then show ?thesis using a b by (intro pool_ok_ext [of E]) (auto simp: fun_eq_iff)
qed

theorem pool_order_independent_witness:
  "record_all fixed_ext [(5, sample_wallet 97, 1), (5, sample_wallet 98, 2)] pool_new =
   record_all fixed_ext [(5, sample_wallet 98, 2), (5, sample_wallet 97, 1)] pool_new"
proof (rule pool_order_independent)
  show "distinct (map (\<lambda>(h, w, out). (h, w)) [(5, sample_wallet 97, 1), (5, sample_wallet 98, 2)])"
    by (simp add: sample_wallet_def)
qed (auto simp: sample_wallet_canonical is_lower_hex_def max_winners_per_height_def cfg_defs)

theorem pool_entropy_follows_witness:
  "entropy_for_height 5 (snd (record_success_checked fixed_ext 5 (sample_wallet 97) 1 pool_new)) =
    (if winners_for_height 5 (snd (record_success_checked fixed_ext 5 (sample_wallet 97) 1 pool_new)) = [] then None
     else Some (entropy_hash64 fixed_ext (entropy_preimage
       (winners_or_default 5 (snd (record_success_checked fixed_ext 5 (sample_wallet 97) 1 pool_new))))))"
  by (rule pool_entropy_follows) (intro pool_reachable.intros)

end
