(* ===== verification/MerkleTree.thy ===== *)
theory MerkleTree
  imports Batch
begin

text \<open>
  The binary hash tree over transactions and its inclusion proofs (\<open>src/cryptography/ml_dsa_65_002_merkleproof.rs\<close>): an
  odd level is completed by its last node. The hook that injects faults from the environment is not modelled.
\<close>

section \<open>Data and bounds\<close>

record MerkleProof =
  mp_transaction_hash :: hash
  mp_sibling_hashes :: "hash list"
  mp_path :: "bool list"
  mp_merkle_root :: hash

definition MAX_MERKLE_PROOF_ENCODED_BYTES_ABSOLUTE :: nat where "MAX_MERKLE_PROOF_ENCODED_BYTES_ABSOLUTE = 256 * 1024"

definition MAX_PROOF_DEPTH_ABSOLUTE :: nat where "MAX_PROOF_DEPTH_ABSOLUTE = 4096"

definition EMPTY_BLOCK_DUMMY_LEAF :: "byte list" where
  "EMPTY_BLOCK_DUMMY_LEAF = str_bytes (lit ''remzar_empty_block_mint'')"

definition blake3_hash64_leaf :: "Ext \<Rightarrow> byte list \<Rightarrow> hash" where
  "blake3_hash64_leaf E data = blake3_xof64 E ((if DOMAIN_SEPARATION_ON then str_bytes (lit DOMAIN_TAG) else []) @ data)"

definition blake3_hash64_node :: "Ext \<Rightarrow> byte list \<Rightarrow> hash" where
  "blake3_hash64_node E preimage = blake3_xof64 E preimage"

definition blake3_hash64_two :: "Ext \<Rightarrow> hash \<Rightarrow> hash \<Rightarrow> hash" where
  "blake3_hash64_two E left right = blake3_hash64_node E (left @ right)"

fun batch_bounds_loop :: "nat \<Rightarrow> byte list list \<Rightarrow> unit result" where
  "batch_bounds_loop bytes [] = Inr ()"
| "batch_bounds_loop bytes (item # items) =
     (if length item > MAX_ITEM_BYTES then Inl (MerkleProofGenerationError ''Batch element size exceeds MAX_ITEM_BYTES'')
      else
        (let bytes = saturating_add 64 bytes (length item) in
         if bytes > MAX_TOTAL_BATCH_BYTES
           then Inl (MerkleProofGenerationError ''Total batch bytes exceeds MAX_TOTAL_BATCH_BYTES'')
         else batch_bounds_loop bytes items))"

definition validate_batch_bounds :: "byte list list \<Rightarrow> unit result" where
  "validate_batch_bounds batch_data =
     (if length batch_data > MAX_BATCH_ITEMS
        then Inl (MerkleProofGenerationError ''Batch item count exceeds MAX_BATCH_ITEMS'')
      else batch_bounds_loop 0 batch_data)"

text \<open>\<open>pow2 <<= 1\<close> drops the carry of a 64-bit value; the loop stops after 64 rounds.\<close>

function depth_loop :: "nat \<Rightarrow> nat \<Rightarrow> nat \<Rightarrow> nat" where
  "depth_loop n pow2 depth =
     (if pow2 < n then
        (let pow2 = pow2 * 2 mod 2 ^ 64; depth = saturating_add 64 depth 1 in
         if depth > 63 then depth else depth_loop n pow2 depth)
      else depth)"
  by pat_completeness auto
termination
  by (relation "measure (\<lambda>(n, pow2, depth). 64 - depth)") (auto simp: saturating_add_def split: if_splits)

declare depth_loop.simps [simp del]

definition max_merkle_depth_for_leaves :: "nat \<Rightarrow> nat" where
  "max_merkle_depth_for_leaves n = (if n \<le> 1 then 0 else saturating_add 64 (depth_loop n 1 0) 2)"

definition derived_proof_depth_cap :: nat where
  "derived_proof_depth_cap = max_merkle_depth_for_leaves MAX_BATCH_ITEMS"

definition validate_hash_list_bounds :: "hash list \<Rightarrow> unit result" where
  "validate_hash_list_bounds hashes =
     (if length hashes > MAX_BATCH_ITEMS then Inl (MerkleProofGenerationError ''Hash count exceeds MAX_BATCH_ITEMS'')
      else Inr ())"

fun levels_shrink :: "hash list list \<Rightarrow> bool" where
  "levels_shrink (cur # next # levels) = (length next = div_ceil (length cur) 2 \<and> levels_shrink (next # levels))"
| "levels_shrink levels = True"

definition validate_levels_shape :: "hash list list \<Rightarrow> unit result" where
  "validate_levels_shape levels =
     (if levels = [] then Inl (MerkleProofGenerationError ''Merkle levels are empty'')
      else if list_ex (\<lambda>level. level = []) levels then Inl (MerkleProofGenerationError ''Merkle level is empty'')
      else if \<not> levels_shrink levels then Inl (MerkleProofGenerationError ''Malformed Merkle levels'')
      else if length (last levels) \<noteq> 1
        then Inl (MerkleProofGenerationError ''Final Merkle level must contain exactly one node'')
      else Inr ())"

definition validate_merkle_proof_shape :: "MerkleProof \<Rightarrow> unit result" where
  "validate_merkle_proof_shape p =
     (if length (mp_sibling_hashes p) \<noteq> length (mp_path p)
        then Inl (SerializationError ''Malformed proof: sibling count != path count'')
      else if length (mp_sibling_hashes p) > MAX_PROOF_DEPTH_ABSOLUTE
        then Inl (SerializationError ''Malformed proof: depth exceeds absolute cap'')
      else if length (mp_sibling_hashes p) > derived_proof_depth_cap
        then Inl (SerializationError ''Malformed proof: depth exceeds derived cap'')
      else Inr ())"

section \<open>The tree\<close>

fun parent_level :: "Ext \<Rightarrow> hash list \<Rightarrow> hash list" where
  "parent_level E [] = []"
| "parent_level E [left] = [blake3_hash64_two E left left]"
| "parent_level E (left # right # nodes) = blake3_hash64_two E left right # parent_level E nodes"

lemma length_parent_level [simp]: "length (parent_level E nodes) = (length nodes + 1) div 2"
  by (induction E nodes rule: parent_level.induct) auto

function merkle_levels :: "Ext \<Rightarrow> hash list \<Rightarrow> hash list list" where
  "merkle_levels E nodes = nodes # (if length nodes > 1 then merkle_levels E (parent_level E nodes) else [])"
  by pat_completeness auto
termination by (relation "measure (\<lambda>(E, nodes). length nodes)") auto

declare merkle_levels.simps [simp del]

definition tree_merkle_root :: "Ext \<Rightarrow> hash list \<Rightarrow> (hash \<times> hash list list) result" where
  "tree_merkle_root E hashes =
     bindR (validate_hash_list_bounds hashes) (\<lambda>_.
     let nodes = (if hashes = [] then [blake3_hash64_leaf E EMPTY_BLOCK_DUMMY_LEAF] else hashes);
         levels = merkle_levels E nodes in
     bindR (validate_levels_shape levels) (\<lambda>_.
     case last levels of
       [] \<Rightarrow> Inl (MerkleProofGenerationError ''Merkle root computation produced no nodes'')
     | root # _ \<Rightarrow> Inr (root, levels)))"

section \<open>Proofs\<close>

fun climb :: "Ext \<Rightarrow> hash \<Rightarrow> (hash \<times> bool) list \<Rightarrow> hash" where
  "climb E computed [] = computed"
| "climb E computed ((sibling, left) # steps) =
     climb E (if left then blake3_hash64_two E computed sibling else blake3_hash64_two E sibling computed) steps"

definition verify_merkle_proof :: "Ext \<Rightarrow> MerkleProof \<Rightarrow> hash \<Rightarrow> bool" where
  "verify_merkle_proof E p signed_merkle_root =
     (if length (mp_sibling_hashes p) \<noteq> length (mp_path p) then False
      else if length (mp_sibling_hashes p) > MAX_PROOF_DEPTH_ABSOLUTE then False
      else if length (mp_sibling_hashes p) > derived_proof_depth_cap then False
      else if mp_sibling_hashes p = [] then
        mp_transaction_hash p = signed_merkle_root \<and> mp_merkle_root p = signed_merkle_root
      else
        (let computed = climb E (mp_transaction_hash p) (zip (mp_sibling_hashes p) (mp_path p)) in
         computed = signed_merkle_root \<and> mp_merkle_root p = computed))"

fun collect_path :: "nat \<Rightarrow> hash list list \<Rightarrow> (hash \<times> bool) list result" where
  "collect_path idx [] = Inr []"
| "collect_path idx (level # levels) =
     (if idx \<ge> length level then Inl (MerkleProofGenerationError ''Malformed merkle level: idx out of bounds'')
      else
        (let is_left = (idx mod 2 = 0);
             sib_idx = (if is_left then saturating_add 64 idx 1 else saturating_sub idx 1);
             sib = (if sib_idx < length level then level ! sib_idx else level ! idx) in
         bindR (collect_path (idx div 2) levels) (\<lambda>steps. Inr ((sib, is_left) # steps))))"

definition generate_merkle_proof :: "Ext \<Rightarrow> byte list list \<Rightarrow> byte list \<Rightarrow> MerkleProof result" where
  "generate_merkle_proof E batch_data target_transaction =
     (if batch_data = [] then Inl (MerkleProofGenerationError ''Batch data is empty'')
      else
        bindR (validate_batch_bounds batch_data) (\<lambda>_.
        if length target_transaction > MAX_ITEM_BYTES
          then Inl (MerkleProofGenerationError ''Target transaction size exceeds MAX_ITEM_BYTES'')
        else
          bindR (tree_merkle_root E (map (blake3_hash64_leaf E) batch_data)) (\<lambda>(root, levels).
          bindR (validate_levels_shape levels) (\<lambda>_.
          let target = blake3_hash64_leaf E target_transaction in
          bindR (ok_or (MerkleProofGenerationError ''Merkle levels missing leaf level'')
                   (case levels of [] \<Rightarrow> None | leaf_level # _ \<Rightarrow> Some leaf_level)) (\<lambda>leaf_level.
          bindR (ok_or (MerkleProofGenerationError ''Target transaction not found in batch.'')
                   (position (\<lambda>h. h = target) leaf_level)) (\<lambda>idx.
          bindR (collect_path idx (take (length levels - 1) levels)) (\<lambda>steps.
          let p = \<lparr>mp_transaction_hash = target, mp_sibling_hashes = map fst steps, mp_path = map snd steps,
                   mp_merkle_root = root\<rparr> in
          bindR (map_err (\<lambda>_. MerkleProofGenerationError ''Generated malformed Merkle proof'')
                   (validate_merkle_proof_shape p)) (\<lambda>_.
          if \<not> verify_merkle_proof E p root
            then Inl (MerkleProofGenerationError ''Generated Merkle proof failed self-verification'')
          else Inr p))))))))"

text \<open>The postcard codec of a proof is an argument.\<close>

definition serialize_merkle_proof :: "(MerkleProof \<Rightarrow> string + byte list) \<Rightarrow> MerkleProof \<Rightarrow> byte list result" where
  "serialize_merkle_proof enc p =
     bindR (validate_merkle_proof_shape p) (\<lambda>_.
     bindR (map_err SerializationError (enc p)) (\<lambda>encoded.
     if length encoded > MAX_MERKLE_PROOF_ENCODED_BYTES_ABSOLUTE
       then Inl (SerializationError ''Serialized Merkle proof too large'') else Inr encoded))"

definition deserialize_merkle_proof ::
    "(MerkleProof \<Rightarrow> string + byte list) \<Rightarrow> (byte list \<Rightarrow> string + MerkleProof) \<Rightarrow> byte list \<Rightarrow> MerkleProof result" where
  "deserialize_merkle_proof enc dec data =
     (if data = [] then Inl (SerializationError ''Deserialize Merkle proof: empty input'')
      else if length data > MAX_MERKLE_PROOF_ENCODED_BYTES_ABSOLUTE
        then Inl (SerializationError ''Deserialize Merkle proof: input too large'')
      else
        bindR (map_err SerializationError (dec data)) (\<lambda>p.
        bindR (validate_merkle_proof_shape p) (\<lambda>_.
        bindR (map_err SerializationError (enc p)) (\<lambda>reencoded.
        if reencoded \<noteq> data then Inl (SerializationError ''Deserialize Merkle proof: non-canonical encoding rejected'')
        else Inr p))))"

end
