(* ===== verification/MerkleProps.thy ===== *)
theory MerkleProps
  imports MerkleTree
begin

text \<open>
  The hash tree and its proofs: the levels have the shape that is checked, a proof is generated exactly for the
  transactions of the batch and always verifies, a proof of the full depth shows a leaf of the tree, and which different
  batches have the same root.
\<close>

section \<open>Shape of the levels\<close>

lemma merkle_levels_neq_Nil [simp]: "merkle_levels E nodes \<noteq> []"
  by (subst merkle_levels.simps) simp

lemma hd_merkle_levels [simp]: "hd (merkle_levels E nodes) = nodes"
  by (subst merkle_levels.simps) simp

lemma merkle_levels_Cons: "\<exists>lv. merkle_levels E nodes = nodes # lv"
  using merkle_levels.simps by blast

lemma parent_level_Nil [simp]: "parent_level E nodes = [] \<longleftrightarrow> nodes = []"
  by (cases "(E, nodes)" rule: parent_level.cases) auto

lemma div_ceil_two: "div_ceil n 2 = (n + 1) div 2"
  by (auto simp: div_ceil_def) presburger+

lemma merkle_levels_shape:
  "nodes \<noteq> [] \<Longrightarrow> list_all (\<lambda>level. level \<noteq> []) (merkle_levels E nodes) \<and> levels_shrink (merkle_levels E nodes) \<and>
    length (last (merkle_levels E nodes)) = 1"
proof (induction E nodes rule: merkle_levels.induct)
  case (1 E nodes)
  show ?case
  proof (cases "length nodes > 1")
    case True
    have "parent_level E nodes \<noteq> []" using 1(2) by simp
    note ih = "1.IH" [OF True this]
    obtain lv where lv: "merkle_levels E (parent_level E nodes) = parent_level E nodes # lv"
      using merkle_levels_Cons by blast
    have "merkle_levels E nodes = nodes # parent_level E nodes # lv"
      using True by (subst merkle_levels.simps) (simp add: lv)
    then show ?thesis using ih 1(2) by (simp add: lv div_ceil_two)
  next
    case False
    with 1(2) have "length nodes = 1" by (cases nodes) auto
    with False show ?thesis by (subst (1 2 3) merkle_levels.simps) (auto simp: merkle_levels.simps)
  qed
qed

lemma validate_merkle_levels: "nodes \<noteq> [] \<Longrightarrow> validate_levels_shape (merkle_levels E nodes) = Inr ()"
  using merkle_levels_shape [of nodes E] by (auto simp: validate_levels_shape_def list_all_iff list_ex_iff)

lemma merkle_depth: "length nodes \<le> 2 ^ k \<Longrightarrow> length (merkle_levels E nodes) \<le> Suc k"
proof (induction E nodes arbitrary: k rule: merkle_levels.induct)
  case (1 E nodes)
  show ?case
  proof (cases "length nodes > 1")
    case True
    then obtain j where k: "k = Suc j" using "1.prems" by (cases k) auto
    have "length (parent_level E nodes) \<le> 2 ^ j" using "1.prems" by (simp add: k)
    from "1.IH" [OF True this] True show ?thesis by (subst merkle_levels.simps) (simp add: k)
  next
    case False
    then show ?thesis by (subst merkle_levels.simps) simp
  qed
qed

lemma derived_cap: "derived_proof_depth_cap = 18"
  by (simp add: derived_proof_depth_cap_def max_merkle_depth_for_leaves_def cfg_defs depth_loop.simps saturating_add_def)

section \<open>Roots\<close>

definition tree_root :: "Ext \<Rightarrow> hash list \<Rightarrow> hash" where
  "tree_root E nodes = hd (last (merkle_levels E nodes))"

lemma tree_root_step: "length nodes > 1 \<Longrightarrow> tree_root E nodes = tree_root E (parent_level E nodes)"
  unfolding tree_root_def by (subst merkle_levels.simps) simp

lemma tree_root_single [simp]: "tree_root E [h] = h"
  unfolding tree_root_def by (subst merkle_levels.simps) simp

lemma tree_merkle_root_ok:
  assumes "length hashes \<le> MAX_BATCH_ITEMS" and "hashes \<noteq> []"
  shows "tree_merkle_root E hashes = Inr (tree_root E hashes, merkle_levels E hashes)"
proof -
  have "length (last (merkle_levels E hashes)) = 1" using merkle_levels_shape [OF assms(2)] by simp
  then obtain r where "last (merkle_levels E hashes) = [r]" by (auto simp: length_Suc_conv)
  with assms show ?thesis
    by (simp add: tree_merkle_root_def validate_hash_list_bounds_def validate_merkle_levels tree_root_def)
qed

lemma parent_level_nth:
  "i < (length nodes + 1) div 2 \<Longrightarrow> parent_level E nodes ! i =
    blake3_hash64_two E (nodes ! (2 * i)) (if 2 * i + 1 < length nodes then nodes ! (2 * i + 1) else nodes ! (2 * i))"
proof (induction E nodes arbitrary: i rule: parent_level.induct)
  case (3 E l r nodes)
  then show ?case by (cases i) auto
qed auto

section \<open>Generated proofs\<close>

text \<open>One step up from a node of a level, as \<open>collect_path\<close> records it.\<close>

lemma step_up:
  assumes "idx < length level" and "length level < 2 ^ 64"
  defines "left \<equiv> idx mod 2 = 0"
  defines "sib_idx \<equiv> if left then saturating_add 64 idx 1 else saturating_sub idx 1"
  defines "sib \<equiv> if sib_idx < length level then level ! sib_idx else level ! idx"
  shows "(if left then blake3_hash64_two E (level ! idx) sib else blake3_hash64_two E sib (level ! idx)) =
    parent_level E level ! (idx div 2)"
proof -
  have i: "idx div 2 < (length level + 1) div 2" using assms(1) by auto
  have s: "saturating_add 64 idx 1 = idx + 1" using assms(1,2) by (simp add: saturating_add_def)
  show ?thesis
  proof (cases left)
    case True
    then have e: "2 * (idx div 2) = idx" by (simp add: left_def) presburger
    have "sib = (if idx + 1 < length level then level ! (idx + 1) else level ! idx)"
      unfolding sib_def sib_idx_def using True by (simp only: if_True s)
    with True show ?thesis by (simp add: parent_level_nth [OF i] e)
  next
    case False
    then have e: "2 * (idx div 2) = idx - 1" "0 < idx" by (simp_all add: left_def) presburger+
    moreover have "idx - 1 < length level" using assms(1) by simp
    ultimately show ?thesis using assms(1) False by (simp add: parent_level_nth [OF i] e sib_def sib_idx_def)
  qed
qed

lemma collect_path_root:
  "idx < length nodes \<Longrightarrow> length nodes < 2 ^ 64 \<Longrightarrow>
    \<exists>steps. collect_path idx (butlast (merkle_levels E nodes)) = Inr steps \<and>
      climb E (nodes ! idx) steps = tree_root E nodes \<and> length steps = length (merkle_levels E nodes) - 1"
proof (induction E nodes arbitrary: idx rule: merkle_levels.induct)
  case (1 E nodes)
  show ?case
  proof (cases "length nodes > 1")
    case True
    have i: "idx div 2 < length (parent_level E nodes)" and l: "length (parent_level E nodes) < 2 ^ 64"
      using "1.prems" by auto
    obtain steps where st: "collect_path (idx div 2) (butlast (merkle_levels E (parent_level E nodes))) = Inr steps"
      "climb E (parent_level E nodes ! (idx div 2)) steps = tree_root E (parent_level E nodes)"
      "length steps = length (merkle_levels E (parent_level E nodes)) - 1"
      using "1.IH" [OF True i l] by blast
    have lv: "merkle_levels E nodes = nodes # merkle_levels E (parent_level E nodes)"
      using True by (subst merkle_levels.simps) simp
    have pos: "0 < length (merkle_levels E (parent_level E nodes))" by simp
    show ?thesis
      using "1.prems" st step_up [OF "1.prems", of E] pos
      by (simp add: lv tree_root_step [OF True] Let_def del: length_greater_0_conv)
  next
    case False
    with "1.prems" obtain h where "nodes = [h]" "idx = 0" by (cases nodes) auto
    then show ?thesis by (simp add: merkle_levels.simps [of E "[h]"])
  qed
qed

lemma generated_verifies:
  assumes "length (map fst steps) \<le> 18" and "climb E h steps = root"
  shows "verify_merkle_proof E \<lparr>mp_transaction_hash = h, mp_sibling_hashes = map fst steps, mp_path = map snd steps, mp_merkle_root = root\<rparr> root"
  using assms by (auto simp: verify_merkle_proof_def derived_cap MAX_PROOF_DEPTH_ABSOLUTE_def Let_def zip_map_fst_snd)

text \<open>What generation returns once the inputs pass the bounds.\<close>

lemma generate_eq:
  fixes E :: Ext
  assumes b: "batch \<noteq> []" "validate_batch_bounds batch = Inr ()" and t: "length target \<le> MAX_ITEM_BYTES"
  defines "leaves \<equiv> map (blake3_hash64_leaf E) batch"
  shows "if blake3_hash64_leaf E target \<in> set leaves
    then \<exists>p. generate_merkle_proof E batch target = Inr p \<and> mp_transaction_hash p = blake3_hash64_leaf E target \<and>
      mp_merkle_root p = tree_root E leaves \<and> length (mp_sibling_hashes p) = length (merkle_levels E leaves) - 1 \<and>
      verify_merkle_proof E p (tree_root E leaves)
    else generate_merkle_proof E batch target = Inl (MerkleProofGenerationError ''Target transaction not found in batch.'')"
proof -
  let ?h = "blake3_hash64_leaf E target"
  have len: "length leaves \<le> MAX_BATCH_ITEMS" "leaves \<noteq> []"
    using b by (auto simp: leaves_def validate_batch_bounds_def split: if_splits)
  obtain lv where lv: "merkle_levels E leaves = leaves # lv" using merkle_levels_Cons by blast
  have gen: "generate_merkle_proof E batch target =
      bindR (ok_or (MerkleProofGenerationError ''Target transaction not found in batch.'') (position (\<lambda>h. h = ?h) leaves)) (\<lambda>idx.
      bindR (collect_path idx (butlast (merkle_levels E leaves))) (\<lambda>steps.
      let p = \<lparr>mp_transaction_hash = ?h, mp_sibling_hashes = map fst steps, mp_path = map snd steps, mp_merkle_root = tree_root E leaves\<rparr> in
      bindR (map_err (\<lambda>_. MerkleProofGenerationError ''Generated malformed Merkle proof'') (validate_merkle_proof_shape p)) (\<lambda>_.
      if \<not> verify_merkle_proof E p (tree_root E leaves)
        then Inl (MerkleProofGenerationError ''Generated Merkle proof failed self-verification'') else Inr p)))"
    using b t
    by (simp add: generate_merkle_proof_def tree_merkle_root_ok [OF len] validate_merkle_levels [OF len(2)] Let_def
        butlast_conv_take flip: leaves_def) (simp add: lv)
  show ?thesis
  proof (cases "?h \<in> set leaves")
    case False
    then have "position (\<lambda>h. h = ?h) leaves = None" by (auto simp: position_None)
    with False show ?thesis by (simp add: gen)
  next
    case True
    then obtain idx where idx: "position (\<lambda>h. h = ?h) leaves = Some idx"
      by (cases "position (\<lambda>h. h = ?h) leaves") (auto simp: position_None)
    then have i: "idx < length leaves" "leaves ! idx = ?h" by (auto simp: position_Some)
    have "length leaves < 2 ^ 64" using len(1) by (simp add: cfg_defs)
    then obtain steps where st: "collect_path idx (butlast (merkle_levels E leaves)) = Inr steps"
      "climb E ?h steps = tree_root E leaves" "length steps = length (merkle_levels E leaves) - 1"
      using collect_path_root [OF i(1)] i(2) by metis
    have "length leaves \<le> 2 ^ 16" using len(1) by (simp add: cfg_defs)
    from merkle_depth [OF this, of E] have d: "length (map fst steps) \<le> 18" using st(3) by simp
    have "length steps \<le> 18" using d by simp
    with st generated_verifies [OF d st(2)] True show ?thesis
      by (simp add: gen idx Let_def validate_merkle_proof_shape_def derived_cap MAX_PROOF_DEPTH_ABSOLUTE_def)
  qed
qed

section \<open>What a proof shows\<close>

fun path_preimages :: "Ext \<Rightarrow> hash \<Rightarrow> (hash \<times> bool) list \<Rightarrow> byte list list" where
  "path_preimages E h [] = []"
| "path_preimages E h ((sib, left) # steps) =
     (let pre = (if left then h @ sib else sib @ h) in pre # path_preimages E (blake3_xof64 E pre) steps)"

fun level_preimages :: "hash list \<Rightarrow> byte list list" where
  "level_preimages [] = []"
| "level_preimages [l] = [l @ l]"
| "level_preimages (l # r # nodes) = (l @ r) # level_preimages nodes"

definition tree_preimages :: "Ext \<Rightarrow> hash list \<Rightarrow> byte list list" where
  "tree_preimages E nodes = concat (map level_preimages (butlast (merkle_levels E nodes)))"

lemma parent_level_mem:
  "x \<in> set (parent_level E nodes) \<Longrightarrow>
    \<exists>l r. l \<in> set nodes \<and> r \<in> set nodes \<and> l @ r \<in> set (level_preimages nodes) \<and> x = blake3_xof64 E (l @ r)"
  by (induction E nodes rule: parent_level.induct) (auto simp: blake3_hash64_two_def blake3_hash64_node_def)

definition no_collision :: "Ext \<Rightarrow> byte list list \<Rightarrow> byte list list \<Rightarrow> bool" where
  "no_collision E xs ys \<longleftrightarrow> (\<forall>x\<in>set xs. \<forall>y\<in>set ys. blake3_xof64 E x = blake3_xof64 E y \<longrightarrow> x = y)"

lemma climb_descends:
  "\<forall>x. length (blake3_xof64 E x) = 64 \<Longrightarrow> climb E h steps = tree_root E nodes \<Longrightarrow>
    length steps = length (merkle_levels E nodes) - 1 \<Longrightarrow> nodes \<noteq> [] \<Longrightarrow> length h = 64 \<Longrightarrow>
    \<forall>n\<in>set nodes. length n = 64 \<Longrightarrow> no_collision E (tree_preimages E nodes) (path_preimages E h steps) \<Longrightarrow> h \<in> set nodes"
proof (induction E nodes arbitrary: h steps rule: merkle_levels.induct)
  case (1 E nodes)
  show ?case
  proof (cases "length nodes > 1")
    case True
    have lv: "merkle_levels E nodes = nodes # merkle_levels E (parent_level E nodes)"
      using True by (subst merkle_levels.simps) simp
    obtain s l st where steps: "steps = (s, l) # st" and st: "length st = length (merkle_levels E (parent_level E nodes)) - 1"
      using "1.prems"(3) lv by (cases steps) auto
    let ?pre = "if l then h @ s else s @ h"
    have up: "climb E (blake3_xof64 E ?pre) st = tree_root E (parent_level E nodes)"
      using "1.prems"(2) by (cases l) (simp_all add: steps tree_root_step [OF True] blake3_hash64_two_def blake3_hash64_node_def)
    have len: "\<forall>n\<in>set (parent_level E nodes). length n = 64" using "1.prems"(1) parent_level_mem [of _ E nodes] by auto
    have nc: "no_collision E (tree_preimages E (parent_level E nodes)) (path_preimages E (blake3_xof64 E ?pre) st)"
      "no_collision E (level_preimages nodes) [?pre]"
      using "1.prems"(7) by (auto simp: no_collision_def steps tree_preimages_def lv Let_def)
    have "blake3_xof64 E ?pre \<in> set (parent_level E nodes)"
      using "1.IH" [OF True "1.prems"(1) up st _ _ len nc(1)] "1.prems"(1,4) by simp
    then obtain a b where ab: "a \<in> set nodes" "b \<in> set nodes" "a @ b \<in> set (level_preimages nodes)"
      "blake3_xof64 E ?pre = blake3_xof64 E (a @ b)"
      using parent_level_mem by blast
    then have "a @ b = ?pre" using nc(2) by (simp add: no_collision_def)
    moreover have "length a = 64" "length b = 64" using ab(1,2) "1.prems"(6) by auto
    moreover have "length s = 64" using arg_cong [OF \<open>a @ b = ?pre\<close>, of length] calculation "1.prems"(5) by (simp split: if_splits)
    ultimately have "h = a \<or> h = b" using "1.prems"(5) by (auto split: if_splits)
    with ab(1,2) show ?thesis by auto
  next
    case False
    with "1.prems"(4) obtain n where "nodes = [n]" by (cases nodes) auto
    with "1.prems"(2,3) show ?thesis by (simp add: merkle_levels.simps [of E "[n]"])
  qed
qed

section \<open>Batches with the same root\<close>

lemma parent_level_duplicate:
  "odd (length nodes) \<Longrightarrow> parent_level E (nodes @ [last nodes]) = parent_level E nodes"
  by (induction E nodes rule: parent_level.induct) auto

section \<open>Properties\<close>

text \<open>C28. Inclusion proofs are complete. A proof is generated exactly for a non-empty batch within the bounds and a
  transaction whose digest is among the leaves; every generated proof carries this digest and the root of the batch and is
  accepted by the verification, so the self-check never fails.\<close>

theorem merkle_proof_complete:
  "((\<exists>p. generate_merkle_proof E batch target = Inr p) \<longleftrightarrow>
     batch \<noteq> [] \<and> validate_batch_bounds batch = Inr () \<and> length target \<le> MAX_ITEM_BYTES \<and>
     blake3_hash64_leaf E target \<in> set (map (blake3_hash64_leaf E) batch)) \<and>
   (\<forall>p. generate_merkle_proof E batch target = Inr p \<longrightarrow>
     (\<exists>root levels. tree_merkle_root E (map (blake3_hash64_leaf E) batch) = Inr (root, levels) \<and>
       mp_transaction_hash p = blake3_hash64_leaf E target \<and> mp_merkle_root p = root \<and>
       length (mp_sibling_hashes p) = length levels - 1 \<and> verify_merkle_proof E p root))"
proof (cases "batch \<noteq> [] \<and> validate_batch_bounds batch = Inr () \<and> length target \<le> MAX_ITEM_BYTES")
  case True
  then have len: "length (map (blake3_hash64_leaf E) batch) \<le> MAX_BATCH_ITEMS" "map (blake3_hash64_leaf E) batch \<noteq> []"
    by (auto simp: validate_batch_bounds_def split: if_splits)
  show ?thesis
    using True generate_eq [of batch target E] tree_merkle_root_ok [OF len, of E] by (auto split: if_splits)
next
  case False
  then have "\<nexists>p. generate_merkle_proof E batch target = Inr p"
    by (auto simp: generate_merkle_proof_def res_simps split: if_splits)
  with False show ?thesis by auto
qed

text \<open>C29. An inclusion proof is sound for its depth: a proof as long as the tree is deep that verifies against the root shows
  one of the leaves, unless a preimage of the proof collides with a preimage of the tree.\<close>

theorem merkle_proof_sound:
  assumes "\<forall>x. length (blake3_xof64 E x) = 64" and "tree_merkle_root E leaves = Inr (root, levels)" and "leaves \<noteq> []"
    and "\<forall>n\<in>set leaves. length n = 64" and "length (mp_transaction_hash p) = 64"
    and "verify_merkle_proof E p root" and "length (mp_sibling_hashes p) = length levels - 1"
    and "no_collision E (tree_preimages E leaves) (path_preimages E (mp_transaction_hash p) (zip (mp_sibling_hashes p) (mp_path p)))"
  shows "mp_transaction_hash p \<in> set leaves"
proof -
  have "length leaves \<le> MAX_BATCH_ITEMS"
    using assms(2) by (auto simp: tree_merkle_root_def validate_hash_list_bounds_def res_simps split: if_splits)
  then have r: "root = tree_root E leaves" "levels = merkle_levels E leaves"
    using tree_merkle_root_ok [OF _ assms(3), of E] assms(2) by auto
  have e: "length (mp_path p) = length (mp_sibling_hashes p)"
    "climb E (mp_transaction_hash p) (zip (mp_sibling_hashes p) (mp_path p)) = root"
    using assms(6) by (auto simp: verify_merkle_proof_def Let_def split: if_splits)
  show ?thesis
    using climb_descends [OF assms(1) e(2) [unfolded r] _ assms(3,5,4,8)] e(1) assms(7) by (simp add: r)
qed

text \<open>Two ways in which different batches have the same root: an odd batch of at least three and the batch with its last
  transaction repeated; and two transactions and the one transaction made of their two digests.\<close>

theorem merkle_root_ambiguous:
  "(odd (length leaves) \<and> length leaves > 1 \<longrightarrow> tree_root E (leaves @ [last leaves]) = tree_root E leaves) \<and>
   tree_root E [blake3_hash64_leaf E a, blake3_hash64_leaf E b] =
     tree_root E [blake3_hash64_leaf E (blake3_hash64_leaf E a @ blake3_hash64_leaf E b)]"
proof (intro conjI impI)
  assume a: "odd (length leaves) \<and> length leaves > 1"
  then have "tree_root E (leaves @ [last leaves]) = tree_root E (parent_level E (leaves @ [last leaves]))"
    by (intro tree_root_step) auto
  also have "\<dots> = tree_root E leaves"
    unfolding parent_level_duplicate [OF conjunct1 [OF a]] by (rule tree_root_step [OF conjunct2 [OF a], symmetric])
  finally show "tree_root E (leaves @ [last leaves]) = tree_root E leaves" .
qed (simp add: tree_root_step blake3_hash64_two_def blake3_hash64_node_def blake3_hash64_leaf_def DOMAIN_SEPARATION_ON_def)

section \<open>A concrete tree\<close>

definition pair_leaves :: "hash list" where
  "pair_leaves = [replicate 64 1, replicate 64 2]"

lemma pair_levels: "merkle_levels E pair_leaves = [pair_leaves, parent_level E pair_leaves]"
  by (simp add: merkle_levels.simps [of E pair_leaves] merkle_levels.simps [of E "parent_level E pair_leaves"])
    (simp add: pair_leaves_def)

theorem merkle_proof_sound_witness:
  "\<exists>p. verify_merkle_proof fixed_ext p (tree_root fixed_ext pair_leaves) \<and> mp_transaction_hash p \<in> set pair_leaves"
proof -
  let ?root = "blake3_hash64_two fixed_ext (replicate 64 1) (replicate 64 2)"
  let ?p = "\<lparr>mp_transaction_hash = replicate 64 1, mp_sibling_hashes = [replicate 64 2], mp_path = [True], mp_merkle_root = ?root\<rparr>"
  have "tree_merkle_root fixed_ext pair_leaves = Inr (tree_root fixed_ext pair_leaves, merkle_levels fixed_ext pair_leaves)"
    by (rule tree_merkle_root_ok) (simp_all add: pair_leaves_def cfg_defs)
  moreover have root: "tree_root fixed_ext pair_leaves = ?root" by (simp add: pair_leaves_def tree_root_step)
  ultimately have t: "tree_merkle_root fixed_ext pair_leaves = Inr (?root, merkle_levels fixed_ext pair_leaves)" by simp
  have "mp_transaction_hash ?p \<in> set pair_leaves"
  proof (rule merkle_proof_sound [OF _ t])
    show "verify_merkle_proof fixed_ext ?p ?root"
      by (simp add: verify_merkle_proof_def derived_cap MAX_PROOF_DEPTH_ABSOLUTE_def)
    show "no_collision fixed_ext (tree_preimages fixed_ext pair_leaves)
        (path_preimages fixed_ext (mp_transaction_hash ?p) (zip (mp_sibling_hashes ?p) (mp_path ?p)))"
      by (simp add: no_collision_def tree_preimages_def pair_levels) (simp add: pair_leaves_def)
    show "length (mp_sibling_hashes ?p) = length (merkle_levels fixed_ext pair_leaves) - 1" by (simp add: pair_levels)
  qed (auto simp: fixed_ext_xof pair_leaves_def)
  moreover have "verify_merkle_proof fixed_ext ?p ?root"
    by (simp add: verify_merkle_proof_def derived_cap MAX_PROOF_DEPTH_ABSOLUTE_def)
  ultimately show ?thesis using root by (intro exI [of _ ?p]) simp
qed

theorem merkle_proof_complete_witness:
  "\<exists>p. generate_merkle_proof fixed_ext [[1], [2], [3]] [2] = Inr p"
  using merkle_proof_complete [of fixed_ext "[[1], [2], [3]]" "[2]"]
  by (auto simp: validate_batch_bounds_def saturating_add_def cfg_defs)

theorem merkle_root_ambiguous_witness:
  "tree_root fixed_ext [replicate 64 1, replicate 64 2, replicate 64 3, replicate 64 3] =
   tree_root fixed_ext [replicate 64 1, replicate 64 2, replicate 64 3]"
  using merkle_root_ambiguous [of "[replicate 64 1, replicate 64 2, replicate 64 3]" fixed_ext "[]" "[]"] by simp

end
