(* ===== verification/Signatures.thy ===== *)
theory Signatures
  imports MerkleProps Blocks StateError
begin

text \<open>
  Signatures over batches and blocks: \<open>src/cryptography/ml_dsa_65_003_batch_signature.rs\<close>,
  \<open>ml_dsa_65_004_guardian_signature.rs\<close>, the signing of a batch and its finalization
  (\<open>src/blockchain/transaction_005_tx_batch.rs\<close>) and of a block (\<open>block_002_blocks.rs\<close>).

  ML-DSA-65 itself is an argument, \<open>SigExt\<close>, with the postcard codec of the payload a block signs. Panics of the crates and
  the hook that injects faults are not modelled, and neither is the failure to allocate memory.
\<close>

record SigExt =
  ml_try_sign :: "byte list \<Rightarrow> byte list \<Rightarrow> string + byte list"
  ml_verify :: "byte list \<Rightarrow> byte list \<Rightarrow> byte list \<Rightarrow> bool"
  pc_signing :: "BlockMetadata \<times> rstr \<Rightarrow> string + byte list"

section \<open>Batch signatures\<close>

definition HASH_BYTES_PER_ITEM :: nat where "HASH_BYTES_PER_ITEM = 64"

definition MAX_HASH_VECTOR_BYTES_ABSOLUTE :: nat where "MAX_HASH_VECTOR_BYTES_ABSOLUTE = 8 * 1024 * 1024"

fun bs_input_loop :: "nat \<Rightarrow> byte list list \<Rightarrow> unit result" where
  "bs_input_loop bytes [] = Inr ()"
| "bs_input_loop bytes (item # items) =
     (if length item > MAX_ITEM_BYTES then Inl (ValidationError ''Batch element size exceeds MAX_ITEM_BYTES'')
      else
        bindR (ok_or (ValidationError ''Total batch bytes overflow'') (checked_add 64 bytes (length item))) (\<lambda>bytes.
        if bytes > MAX_TOTAL_BATCH_BYTES then Inl (ValidationError ''Total batch bytes exceeds MAX_TOTAL_BATCH_BYTES'')
        else bs_input_loop bytes items))"

definition bs_validate_batch_input :: "byte list list \<Rightarrow> unit result" where
  "bs_validate_batch_input batch_data =
     (if length batch_data > MAX_BATCH_ITEMS then Inl (ValidationError ''Batch item count exceeds MAX_BATCH_ITEMS'')
      else
        bindR (ok_or (ValidationError ''Batch hash-vector size overflow'')
                 (checked_mul 64 (length batch_data) HASH_BYTES_PER_ITEM)) (\<lambda>hash_vec_bytes.
        if hash_vec_bytes > MAX_HASH_VECTOR_BYTES_ABSOLUTE
          then Inl (ValidationError ''Batch hash-vector allocation exceeds absolute cap'')
        else bs_input_loop 0 batch_data))"

definition bs_validate_signature_len :: "byte list \<Rightarrow> unit result" where
  "bs_validate_signature_len signature_bytes =
     (if length signature_bytes > SIG_LEN then Inl (ValidationError ''Signature length exceeds absolute cap'')
      else if length signature_bytes \<noteq> GUARDIAN_SIG_LEN then Inl (ValidationError ''Signature length mismatch'')
      else if length signature_bytes \<noteq> SIG_LEN then Inl (ValidationError ''ML-DSA-65 signature length mismatch'')
      else Inr ())"

definition bs_validate_consensus_constants :: "unit result" where
  "bs_validate_consensus_constants =
     (if GUARDIAN_SIG_LEN \<noteq> SIG_LEN then Inl (ValidationError ''Consensus configuration mismatch'')
      else if saturating_mul 64 MAX_BATCH_ITEMS HASH_BYTES_PER_ITEM > MAX_HASH_VECTOR_BYTES_ABSOLUTE
        then Inl (ValidationError ''Consensus configuration mismatch: hash-vector bytes'')
      else Inr ())"

definition validate_merkle_root :: "hash \<Rightarrow> unit result" where
  "validate_merkle_root root =
     (if list_all (\<lambda>b. b = 0) root
        then Inl (MerkleProofGenerationError ''Merkle root is all-zero; refusing to sign/verify suspicious root'')
      else Inr ())"

definition hash_data :: "Ext \<Rightarrow> byte list \<Rightarrow> hash" where
  "hash_data E data = blake3_xof64 E ((if DOMAIN_SEPARATION_ON then str_bytes (lit DOMAIN_TAG) else []) @ data)"

definition compute_transaction_hashes :: "Ext \<Rightarrow> byte list list \<Rightarrow> hash list" where
  "compute_transaction_hashes E batch_data = map (hash_data E) batch_data"

definition compute_batch_merkle_root :: "Ext \<Rightarrow> byte list list \<Rightarrow> hash result" where
  "compute_batch_merkle_root E batch_data =
     bindR (map_err (\<lambda>_. MerkleProofGenerationError ''Failed to compute Merkle root'')
              (tree_merkle_root E (compute_transaction_hashes E batch_data))) (\<lambda>(merkle_root, levels).
     bindR (validate_merkle_root merkle_root) (\<lambda>_. Inr merkle_root))"

definition bs_sign_batch :: "SigExt \<Rightarrow> Ext \<Rightarrow> byte list \<Rightarrow> byte list list \<Rightarrow> byte list result" where
  "bs_sign_batch S E signing_key batch_data =
     bindR bs_validate_consensus_constants (\<lambda>_.
     bindR (bs_validate_batch_input batch_data) (\<lambda>_.
     bindR (compute_batch_merkle_root E batch_data) (\<lambda>merkle_root.
     bindR (map_err (\<lambda>_. CryptographicError ''Batch signing failed'') (ml_try_sign S signing_key merkle_root)) (\<lambda>out.
     if length out \<noteq> SIG_LEN then Inl (CryptographicError ''Batch signing produced invalid signature length'')
     else Inr out))))"

definition bs_verify_batch :: "SigExt \<Rightarrow> Ext \<Rightarrow> byte list \<Rightarrow> byte list list \<Rightarrow> byte list \<Rightarrow> unit result" where
  "bs_verify_batch S E verifying_key batch_data signature_bytes =
     bindR bs_validate_consensus_constants (\<lambda>_.
     bindR (bs_validate_signature_len signature_bytes) (\<lambda>_.
     bindR (bs_validate_batch_input batch_data) (\<lambda>_.
     bindR (compute_batch_merkle_root E batch_data) (\<lambda>merkle_root.
     if length signature_bytes \<noteq> SIG_LEN
       then Inl (SerializationError ''Failed to convert signature bytes to fixed-size array'')
     else if \<not> ml_verify S verifying_key merkle_root signature_bytes
       then Inl (SignatureVerificationFailed ''Batch verification failed'')
     else Inr ()))))"

section \<open>Guardian signatures\<close>

fun gs_input_loop :: "nat \<Rightarrow> byte list list \<Rightarrow> unit result" where
  "gs_input_loop bytes [] = Inr ()"
| "gs_input_loop bytes (item # items) =
     (if length item > MAX_ITEM_BYTES then Inl (ValidationError ''Batch element size exceeds MAX_ITEM_BYTES'')
      else
        (let bytes = saturating_add 64 bytes (length item) in
         if bytes > MAX_TOTAL_BATCH_BYTES then Inl (ValidationError ''Total batch bytes exceeds MAX_TOTAL_BATCH_BYTES'')
         else gs_input_loop bytes items))"

definition gs_validate_batch_input :: "byte list list \<Rightarrow> unit result" where
  "gs_validate_batch_input batch_data =
     (if length batch_data > MAX_BATCH_ITEMS then Inl (ValidationError ''Batch item count exceeds MAX_BATCH_ITEMS'')
      else gs_input_loop 0 batch_data)"

definition gs_validate_signature_len :: "byte list \<Rightarrow> unit result" where
  "gs_validate_signature_len signature_bytes =
     (if length signature_bytes > SIG_LEN then Inl (ValidationError ''Signature length exceeds absolute cap'')
      else if length signature_bytes \<noteq> GUARDIAN_SIG_LEN then Inl (ValidationError ''Signature length mismatch'')
      else if length signature_bytes \<noteq> SIG_LEN then Inl (ValidationError ''ML-DSA-65 signature length mismatch'')
      else Inr ())"

definition gs_validate_consensus_constants :: "unit result" where
  "gs_validate_consensus_constants =
     (if GUARDIAN_SIG_LEN \<noteq> SIG_LEN then Inl (ValidationError ''Consensus configuration mismatch'') else Inr ())"

definition gs_compute_transaction_hashes :: "Ext \<Rightarrow> byte list list \<Rightarrow> hash list" where
  "gs_compute_transaction_hashes E batch_data =
     map (\<lambda>data. blake3_xof64 E ((if DOMAIN_SEPARATION_ON then str_bytes (lit DOMAIN_TAG) else []) @ data)) batch_data"

definition gs_compute_batch_merkle_root :: "Ext \<Rightarrow> byte list list \<Rightarrow> hash result" where
  "gs_compute_batch_merkle_root E batch_data =
     bindR (map_err (\<lambda>_. MerkleProofGenerationError ''Failed to compute Merkle root'')
              (tree_merkle_root E (gs_compute_transaction_hashes E batch_data))) (\<lambda>(merkle_root, levels).
     bindR (validate_merkle_root merkle_root) (\<lambda>_. Inr merkle_root))"

definition gs_sign_batch :: "SigExt \<Rightarrow> Ext \<Rightarrow> byte list \<Rightarrow> byte list list \<Rightarrow> byte list result" where
  "gs_sign_batch S E signing_key batch_data =
     bindR gs_validate_consensus_constants (\<lambda>_.
     bindR (gs_validate_batch_input batch_data) (\<lambda>_.
     bindR (gs_compute_batch_merkle_root E batch_data) (\<lambda>merkle_root.
     bindR (map_err (\<lambda>_. CryptographicError ''Guardian Node signing failed'') (ml_try_sign S signing_key merkle_root)) (\<lambda>out.
     if length out \<noteq> SIG_LEN then Inl (CryptographicError ''Guardian Node signing produced invalid signature length'')
     else Inr out))))"

definition gs_verify_batch :: "SigExt \<Rightarrow> Ext \<Rightarrow> byte list \<Rightarrow> byte list list \<Rightarrow> byte list \<Rightarrow> unit result" where
  "gs_verify_batch S E verifying_key batch_data signature_bytes =
     bindR gs_validate_consensus_constants (\<lambda>_.
     bindR (gs_validate_signature_len signature_bytes) (\<lambda>_.
     bindR (gs_validate_batch_input batch_data) (\<lambda>_.
     bindR (gs_compute_batch_merkle_root E batch_data) (\<lambda>merkle_root.
     if length signature_bytes \<noteq> SIG_LEN
       then Inl (SerializationError ''Failed to convert guardian signature bytes to fixed-size array'')
     else if \<not> ml_verify S verifying_key merkle_root signature_bytes
       then Inl (SignatureVerificationFailed ''Guardian Node signature verification failed'')
     else Inr ()))))"

section \<open>Signing a batch of transactions\<close>

definition sign_batch :: "SigExt \<Rightarrow> Ext \<Rightarrow> byte list \<Rightarrow> (TransactionBatch, unit) sm" where
  "sign_batch S E sk =
     bindS (readS (\<lambda>batch. traverseR (leaf_bytes E) (b_transactions batch))) (\<lambda>serialized.
     bindS (readS (\<lambda>_. bs_sign_batch S E sk serialized)) (\<lambda>sig.
     if length sig \<noteq> SIG_LEN then failS (SerializationError ''Guardian signature length mismatch'')
     else (\<lambda>batch. (Inr (), batch\<lparr>b_guardian_signature := Some sig\<rparr>))))"

definition finalize_block :: "SigExt \<Rightarrow> Ext \<Rightarrow> byte list \<Rightarrow> hash \<Rightarrow> (TransactionBatch, BlockMetadata) sm" where
  "finalize_block S E sk prev_hash =
     bindS (readS (total_size E)) (\<lambda>n.
     if n > MAX_BLOCK_SIZE then failS (ValidationError ''Batch too big'')
     else
       bindS (readS (serialize_for_storage E)) (\<lambda>actual_batch_bytes.
       if length actual_batch_bytes > MAX_BLOCK_SIZE
         then failS (ValidationError ''Batch serialized bytes exceed MAX_BLOCK_SIZE'')
       else
         bindS (sign_batch S E sk) (\<lambda>_.
         bindS (readS (compute_merkle_root E)) (\<lambda>merkle.
         bindS (readS (\<lambda>batch. case b_guardian_signature batch of
                  None \<Rightarrow> Inr (replicate SIG_LEN 0)
                | Some sig \<Rightarrow>
                    if length sig \<noteq> SIG_LEN then Inl (SerializationError ''Guardian signature length mismatch'') else Inr sig))
           (\<lambda>sig_arr.
         readS (\<lambda>batch. Inr \<lparr>m_index = b_index batch, m_timestamp = b_timestamp batch, m_previous_hash = prev_hash,
               m_merkle_root = merkle, m_guardian_signature = sig_arr, m_puzzle_proof = None,
               m_size = MAX_BLOCK_SIZE\<rparr>))))))"

section \<open>Signing a block\<close>

definition serialize_for_signing :: "SigExt \<Rightarrow> Block \<Rightarrow> byte list result" where
  "serialize_for_signing S b =
     (let bk = (case bl_batch_key b of Some k \<Rightarrow> k | None \<Rightarrow> []) in
      map_err SerializationError (pc_signing S (bl_metadata b, bk)))"

definition sign_block :: "SigExt \<Rightarrow> BlockExt \<Rightarrow> byte list \<Rightarrow> (Block, unit) sm" where
  "sign_block S X sk =
     bindS (readS (serialize_for_signing S)) (\<lambda>signing_data.
     bindS (readS (\<lambda>_. gs_sign_batch S (bx X) sk [signing_data])) (\<lambda>sig_bytes.
     if length sig_bytes \<noteq> SIG_LEN then failS (SerializationError ''Guardian signature length mismatch'')
     else
       bindS (\<lambda>b. (Inr (), b\<lparr>bl_metadata := (bl_metadata b)\<lparr>m_guardian_signature := sig_bytes\<rparr>\<rparr>)) (\<lambda>_.
       bindS (readS (compute_block_hash X)) (\<lambda>new_hex.
       bindS (readS (\<lambda>_. decode_hash_hex X new_hex)) (\<lambda>h b. (Inr (), b\<lparr>bl_block_hash := h\<rparr>))))))"

definition verify_block_signature :: "SigExt \<Rightarrow> BlockExt \<Rightarrow> byte list \<Rightarrow> Block \<Rightarrow> bool result" where
  "verify_block_signature S X vk b =
     bindR (serialize_for_signing S b) (\<lambda>signing_data.
     bindR (gs_verify_batch S (bx X) vk [signing_data] (m_guardian_signature (bl_metadata b))) (\<lambda>_. Inr True))"

section \<open>The contract of a batch signer\<close>

text \<open>
  Both signers check their input, reduce it to one root and call the crate; what follows from this is proved once.
\<close>

locale root_signer =
  fixes check :: "'b \<Rightarrow> 'e + unit" and root :: "'b \<Rightarrow> 'e + 'r" and fits :: "'s \<Rightarrow> bool"
    and try_sign :: "'k \<Rightarrow> 'r \<Rightarrow> 'x + 's" and accepts :: "'v \<Rightarrow> 'r \<Rightarrow> 's \<Rightarrow> bool"
    and sign :: "'k \<Rightarrow> 'b \<Rightarrow> 'e + 's" and verify :: "'v \<Rightarrow> 'b \<Rightarrow> 's \<Rightarrow> 'e + unit"
  assumes sign_iff: "sign k b = Inr s \<longleftrightarrow> check b = Inr () \<and> (\<exists>r. root b = Inr r \<and> try_sign k r = Inr s) \<and> fits s"
    and verify_iff: "verify v b s = Inr () \<longleftrightarrow> check b = Inr () \<and> (\<exists>r. root b = Inr r \<and> accepts v r s) \<and> fits s"
begin

lemma signed_verifies:
  assumes "\<forall>r s. try_sign k r = Inr s \<longrightarrow> accepts v r s" and "sign k b = Inr s"
  shows "verify v b s = Inr ()"
  using assms by (auto simp: sign_iff verify_iff)

text \<open>Batches with the same root, both within the bounds, have the same signatures.\<close>

lemma same_root:
  assumes "root b = root b'" and "check b = Inr ()" and "check b' = Inr ()"
  shows "verify v b s = Inr () \<longleftrightarrow> verify v b' s = Inr ()"
  using assms by (auto simp: verify_iff)

text \<open>A signature of another root is refused when the crate refuses it.\<close>

lemma other_root_refused:
  assumes "\<forall>r r' s. try_sign k r = Inr s \<longrightarrow> accepts v r' s \<longrightarrow> r' = r" and "sign k b = Inr s" and "root b' \<noteq> root b"
  shows "verify v b' s \<noteq> Inr ()"
  using assms by (auto simp: sign_iff verify_iff)

end

interpretation bs: root_signer "bs_validate_batch_input" "compute_batch_merkle_root E" "\<lambda>s. length s = SIG_LEN"
    "ml_try_sign S" "ml_verify S" "bs_sign_batch S E" "bs_verify_batch S E" for S E
proof unfold_locales
  have c: "bs_validate_consensus_constants = Inr ()"
    by (simp add: bs_validate_consensus_constants_def cfg_defs SIG_LEN_def saturating_mul_def HASH_BYTES_PER_ITEM_def
        MAX_HASH_VECTOR_BYTES_ABSOLUTE_def)
  show "bs_sign_batch S E k b = Inr s \<longleftrightarrow>
      bs_validate_batch_input b = Inr () \<and> (\<exists>r. compute_batch_merkle_root E b = Inr r \<and> ml_try_sign S k r = Inr s) \<and> length s = SIG_LEN" for k b s
    by (auto simp: bs_sign_batch_def c res_simps split: if_splits)
  show "bs_verify_batch S E v b s = Inr () \<longleftrightarrow>
      bs_validate_batch_input b = Inr () \<and> (\<exists>r. compute_batch_merkle_root E b = Inr r \<and> ml_verify S v r s) \<and> length s = SIG_LEN" for v b s
    by (auto simp: bs_verify_batch_def c bs_validate_signature_len_def SIG_LEN_def cfg_defs res_simps split: if_splits)
qed

interpretation gs: root_signer "gs_validate_batch_input" "gs_compute_batch_merkle_root E" "\<lambda>s. length s = SIG_LEN"
    "ml_try_sign S" "ml_verify S" "gs_sign_batch S E" "gs_verify_batch S E" for S E
proof unfold_locales
  have c: "gs_validate_consensus_constants = Inr ()" by (simp add: gs_validate_consensus_constants_def cfg_defs SIG_LEN_def)
  show "gs_sign_batch S E k b = Inr s \<longleftrightarrow>
      gs_validate_batch_input b = Inr () \<and> (\<exists>r. gs_compute_batch_merkle_root E b = Inr r \<and> ml_try_sign S k r = Inr s) \<and> length s = SIG_LEN" for k b s
    by (auto simp: gs_sign_batch_def c res_simps split: if_splits)
  show "gs_verify_batch S E v b s = Inr () \<longleftrightarrow>
      gs_validate_batch_input b = Inr () \<and> (\<exists>r. gs_compute_batch_merkle_root E b = Inr r \<and> ml_verify S v r s) \<and> length s = SIG_LEN" for v b s
    by (auto simp: gs_verify_batch_def c gs_validate_signature_len_def SIG_LEN_def cfg_defs res_simps split: if_splits)
qed

section \<open>Bounds of both signers\<close>

lemma input_loops_agree: "bs_input_loop n items = Inr () \<longleftrightarrow> gs_input_loop n items = Inr ()"
  by (induction items arbitrary: n)
    (auto simp: checked_add_def saturating_add_def Let_def cfg_defs split: if_splits)

lemma inputs_agree: "bs_validate_batch_input b = Inr () \<longleftrightarrow> gs_validate_batch_input b = Inr ()"
  by (auto simp: bs_validate_batch_input_def gs_validate_batch_input_def checked_mul_def HASH_BYTES_PER_ITEM_def
      MAX_HASH_VECTOR_BYTES_ABSOLUTE_def input_loops_agree cfg_defs res_simps split: if_splits)

lemma roots_agree: "gs_compute_batch_merkle_root E b = compute_batch_merkle_root E b"
proof -
  have "gs_compute_transaction_hashes E b = compute_transaction_hashes E b"
    by (simp only: gs_compute_transaction_hashes_def compute_transaction_hashes_def hash_data_def [abs_def])
  then show ?thesis by (simp add: gs_compute_batch_merkle_root_def compute_batch_merkle_root_def)
qed

lemma hash_data_leaf: "hash_data E = blake3_hash64_leaf E"
  by (simp add: fun_eq_iff hash_data_def blake3_hash64_leaf_def)

lemma batch_root_eq:
  assumes "batch \<noteq> []" and "length batch \<le> MAX_BATCH_ITEMS"
  shows "compute_batch_merkle_root E batch =
    bindR (validate_merkle_root (tree_root E (map (blake3_hash64_leaf E) batch))) (\<lambda>_. Inr (tree_root E (map (blake3_hash64_leaf E) batch)))"
  using assms
  by (simp add: compute_batch_merkle_root_def compute_transaction_hashes_def hash_data_leaf tree_merkle_root_ok)

section \<open>Properties\<close>

text \<open>Signatures of batches are complete and interchangeable: with a matching key pair, what either signer signs is
  accepted by both verifiers, and the two verifiers accept exactly the same signatures.\<close>

theorem batch_signatures_agree:
  assumes "\<forall>r s. ml_try_sign S sk r = Inr s \<longrightarrow> ml_verify S vk r s"
  shows "(bs_verify_batch S E vk batch sig = Inr () \<longleftrightarrow> gs_verify_batch S E vk batch sig = Inr ()) \<and>
    (bs_sign_batch S E sk batch = Inr sig \<longleftrightarrow> gs_sign_batch S E sk batch = Inr sig) \<and>
    (gs_sign_batch S E sk batch = Inr sig \<longrightarrow> gs_verify_batch S E vk batch sig = Inr ())"
  using gs.signed_verifies [of S sk vk E batch sig] assms
  by (auto simp: bs.verify_iff gs.verify_iff bs.sign_iff gs.sign_iff inputs_agree roots_agree)

text \<open>A signature does not determine the batch: one that covers two transactions also covers the single transaction made of
  their two digests, because leaves and inner nodes are hashed alike.\<close>

theorem signature_covers_digest_pair:
  assumes "length (blake3_hash64_leaf E a) = 64" and "length (blake3_hash64_leaf E b) = 64"
    and "length a \<le> MAX_ITEM_BYTES" and "length b \<le> MAX_ITEM_BYTES"
  shows "gs_verify_batch S E vk [a, b] sig = Inr () \<longleftrightarrow>
    gs_verify_batch S E vk [blake3_hash64_leaf E a @ blake3_hash64_leaf E b] sig = Inr ()"
proof (rule gs.same_root)
  have "tree_root E [blake3_hash64_leaf E a, blake3_hash64_leaf E b] =
      tree_root E [blake3_hash64_leaf E (blake3_hash64_leaf E a @ blake3_hash64_leaf E b)]"
    by (simp add: tree_root_step blake3_hash64_two_def blake3_hash64_node_def blake3_hash64_leaf_def DOMAIN_SEPARATION_ON_def)
  then show "gs_compute_batch_merkle_root E [a, b] =
      gs_compute_batch_merkle_root E [blake3_hash64_leaf E a @ blake3_hash64_leaf E b]"
    by (simp add: roots_agree batch_root_eq cfg_defs)
  show "gs_validate_batch_input [a, b] = Inr ()"
    using assms by (simp add: gs_validate_batch_input_def saturating_add_def cfg_defs)
  show "gs_validate_batch_input [blake3_hash64_leaf E a @ blake3_hash64_leaf E b] = Inr ()"
    using assms by (simp add: gs_validate_batch_input_def saturating_add_def cfg_defs)
qed

text \<open>C35. A block signed by \<open>sign_block\<close> does not pass \<open>verify_block_signature\<close>. The payload contains the field that holds
  the signature, so the payload that is verified is not the one that was signed: when the encoding tells the two headers
  apart, the digests of the two payloads do not collide and a signature holds for one message only, the verification fails
  whenever signing changed the field.\<close>

theorem signed_block_not_verified:
  assumes sign: "sign_block S X sk b = (Inr (), b')"
    and one: "\<forall>r r' s. ml_try_sign S sk r = Inr s \<longrightarrow> ml_verify S vk r' s \<longrightarrow> r' = r"
    and codec: "\<forall>x k k'. pc_signing S (bl_metadata b, k) = Inr x \<longrightarrow> pc_signing S (bl_metadata b', k') = Inr x \<longrightarrow>
      bl_metadata b = bl_metadata b'"
    and digests: "\<forall>x y. serialize_for_signing S b = Inr x \<longrightarrow> serialize_for_signing S b' = Inr y \<longrightarrow>
      blake3_hash64_leaf (bx X) x = blake3_hash64_leaf (bx X) y \<longrightarrow> x = y"
    and changed: "m_guardian_signature (bl_metadata b') \<noteq> m_guardian_signature (bl_metadata b)"
  shows "verify_block_hash X b' = Inr True \<and> verify_block_signature S X vk b' \<noteq> Inr True"
proof -
  obtain data sig hx h where data: "serialize_for_signing S b = Inr data" and sig: "gs_sign_batch S (bx X) sk [data] = Inr sig"
    and hx: "compute_block_hash X (b\<lparr>bl_metadata := (bl_metadata b)\<lparr>m_guardian_signature := sig\<rparr>\<rparr>) = Inr hx"
    and h: "decode_hash_hex X hx = Inr h"
    and b': "b' = b\<lparr>bl_metadata := (bl_metadata b)\<lparr>m_guardian_signature := sig\<rparr>, bl_block_hash := h\<rparr>"
    using sign by (auto simp: sign_block_def res_simps split: if_splits)
  have "verify_block_hash X b' = Inr True"
    using hx h compute_block_hash_scope(1) [where X = X and b = "b\<lparr>bl_metadata := (bl_metadata b)\<lparr>m_guardian_signature := sig\<rparr>\<rparr>" and h = h]
    by (simp add: verify_block_hash_def b')
  moreover have "verify_block_signature S X vk b' \<noteq> Inr True"
  proof
    assume "verify_block_signature S X vk b' = Inr True"
    then obtain data' where data': "serialize_for_signing S b' = Inr data'" and v: "gs_verify_batch S (bx X) vk [data'] sig = Inr ()"
      by (auto simp: verify_block_signature_def b' res_simps)
    have ne: "blake3_hash64_leaf (bx X) data \<noteq> blake3_hash64_leaf (bx X) data'"
    proof
      assume "blake3_hash64_leaf (bx X) data = blake3_hash64_leaf (bx X) data'"
      then have "data = data'" using digests data data' by blast
      then have "bl_metadata b = bl_metadata b'"
        using codec data data' by (auto simp: serialize_for_signing_def Let_def res_simps)
      then show False using changed by simp
    qed
    have "gs_compute_batch_merkle_root (bx X) [data'] \<noteq> gs_compute_batch_merkle_root (bx X) [data]"
      using ne sig v by (auto simp: gs.sign_iff gs.verify_iff roots_agree batch_root_eq cfg_defs res_simps)
    then show False using gs.other_root_refused [OF one sig] v by blast
  qed
  ultimately show ?thesis by blast
qed

section \<open>A concrete signature\<close>

definition sample_sig :: SigExt where
  "sample_sig = \<lparr>ml_try_sign = \<lambda>sk r. Inr (r @ replicate (SIG_LEN - 64) 0),
     ml_verify = \<lambda>vk r s. s = r @ replicate (SIG_LEN - 64) 0,
     pc_signing = \<lambda>(m, k). Inr [if m_guardian_signature m = [] then 1 else 2]\<rparr>"

definition unsigned_block :: Block where
  "unsigned_block = \<lparr>bl_metadata = sample_meta, bl_batch_key = None, bl_miner = [], bl_block_hash = zero_hash, bl_reward = 0\<rparr>"

lemma sample_leaf: "blake3_hash64_leaf fixed_ext [c] = c # replicate 63 0"
  by (simp add: blake3_hash64_leaf_def DOMAIN_SEPARATION_ON_def fixed_ext_def take_Cons')

lemma sample_signed:
  "gs_sign_batch sample_sig fixed_ext [] [[1]] = Inr ((1 # replicate 63 0) @ replicate (SIG_LEN - 64) 0)"
proof -
  have "gs_compute_batch_merkle_root fixed_ext [[1]] = Inr (1 # replicate 63 0)"
    by (simp add: roots_agree batch_root_eq cfg_defs sample_leaf validate_merkle_root_def)
  moreover have "gs_validate_batch_input [[1]] = Inr ()"
    by (simp add: gs_validate_batch_input_def saturating_add_def cfg_defs)
  ultimately show ?thesis
    unfolding gs.sign_iff by (simp add: sample_sig_def SIG_LEN_def)
qed

theorem batch_signatures_agree_witness:
  "gs_verify_batch sample_sig fixed_ext [] [[1]] ((1 # replicate 63 0) @ replicate (SIG_LEN - 64) 0) = Inr ()"
  using batch_signatures_agree [of sample_sig "[]" "[]" fixed_ext "[[1]]"] sample_signed by (simp add: sample_sig_def)

theorem signature_covers_digest_pair_witness:
  "\<forall>sig. gs_verify_batch sample_sig fixed_ext [] [[1], [2]] sig = Inr () \<longleftrightarrow>
     gs_verify_batch sample_sig fixed_ext [] [(1 # replicate 63 0) @ (2 # replicate 63 0)] sig = Inr ()"
  using signature_covers_digest_pair [of fixed_ext "[1]" "[2]"] by (simp add: sample_leaf cfg_defs)

theorem signed_block_not_verified_witness:
  "\<exists>b'. sign_block sample_sig sample_bext [] unsigned_block = (Inr (), b') \<and>
    verify_block_hash sample_bext b' = Inr True \<and> verify_block_signature sample_sig sample_bext [] b' \<noteq> Inr True"
proof -
  let ?sig = "(1 # replicate 63 0) @ replicate (SIG_LEN - 64) (0 :: byte)"
  let ?b1 = "unsigned_block\<lparr>bl_metadata := sample_meta\<lparr>m_guardian_signature := ?sig\<rparr>\<rparr>"
  obtain h where h: "compute_block_hash sample_bext ?b1 = Inr (hex_encode fixed_ext h)" "length h = 64"
    using sample_hash by blast
  have d: "decode_hash_hex sample_bext (hex_encode fixed_ext h) = Inr h"
    using h(2) by (simp add: decode_hash_hex_def fixed_hex_len) (simp add: sample_bext_def fixed_ext_hex)
  have data: "serialize_for_signing sample_sig unsigned_block = Inr [1]"
    by (simp add: serialize_for_signing_def sample_sig_def unsigned_block_def sample_meta_def)
  have bx: "bx sample_bext = fixed_ext" by (simp add: sample_bext_def)
  have "sign_block sample_sig sample_bext [] unsigned_block = (Inr (), ?b1\<lparr>bl_block_hash := h\<rparr>)"
    using h(1) sample_signed d data
    by (simp add: sign_block_def bindS_def readS_def bx SIG_LEN_def unsigned_block_def)
  moreover from this have "verify_block_hash sample_bext (?b1\<lparr>bl_block_hash := h\<rparr>) = Inr True \<and>
      verify_block_signature sample_sig sample_bext [] (?b1\<lparr>bl_block_hash := h\<rparr>) \<noteq> Inr True"
    by (rule signed_block_not_verified)
      (auto simp: sample_sig_def unsigned_block_def sample_meta_def serialize_for_signing_def bx sample_leaf)
  ultimately show ?thesis by blast
qed

end
