(* ===== verification/Genesis.thy ===== *)
theory Genesis
  imports Blocks
begin

text \<open>
  The genesis block and the genesis file (\<open>src/blockchain/genesis_001_block.rs\<close>, \<open>genesis_002_file.rs\<close>) and the header
  made from it (\<open>block_001_metadata.rs\<close>): construction, validation, binary and JSON encodings.

  The postcard and JSON codecs and the pattern of a version are arguments (\<open>GenesisExt\<close>). Reading a file takes the length and
  the text that the file system returns; writing returns the text to write.
\<close>

record GenesisBlock =
  gn_genesis_hash :: hash
  gn_merkle_root :: hash
  gn_prev_hash :: hash
  gn_timestamp :: nat
  gn_data :: rstr
  gn_founder_wallet :: "rstr option"

record GenesisFile =
  gf_chain_id :: rstr
  gf_description :: "rstr option"
  gf_version :: "rstr option"
  gf_genesis_block :: GenesisBlock

record GenesisExt =
  gx :: Ext
  pc_genesis :: "GenesisBlock \<Rightarrow> string + byte list"
  pc_genesis_take :: "byte list \<Rightarrow> string + GenesisBlock \<times> byte list"
  js_genesis :: "GenesisBlock \<Rightarrow> string + rstr"
  js_genesis_from :: "rstr \<Rightarrow> string + GenesisBlock"
  js_file :: "GenesisFile \<Rightarrow> string + rstr"
  js_file_from :: "rstr \<Rightarrow> string + GenesisFile"
  semver_match :: "rstr \<Rightarrow> bool"

section \<open>Constants\<close>

definition ZERO_GUARDIAN_SIGNATURE :: "byte list" where "ZERO_GUARDIAN_SIGNATURE = replicate SIG_LEN 0"

definition GENESIS_REWARD :: nat where "GENESIS_REWARD = 0"

definition MAX_GENESIS_DATA_BYTES :: nat where "MAX_GENESIS_DATA_BYTES = 1024"

definition GENESIS_PREV_HASH_HEX :: string where
  "GENESIS_PREV_HASH_HEX = replicate 128 (CHR ''0'')"

definition GENESIS_MERKLE_ROOT_HEX :: string where
  "GENESIS_MERKLE_ROOT_HEX =
     ''29f984fad3389b577d75f22c4c849b1a848fb2ae9e458778ea36bd1765a79dab'' @
     ''29f984fad3389b577d75f22c4c849b1a848fb2ae9e458778ea36bd1765a79dab''"

definition decode_hex_to_64 :: "Ext \<Rightarrow> rstr \<Rightarrow> hash result" where
  "decode_hex_to_64 E hex_str =
     bindR (map_err (\<lambda>_. ValidationError ''Invalid hex in configuration'') (hex_decode E hex_str)) (\<lambda>bytes.
     if length bytes \<noteq> 64 then Inl (ValidationError ''Expected a 64-byte value in configuration'') else Inr bytes)"

section \<open>Validation and construction\<close>

definition validate_genesis_timestamp_structural :: "nat \<Rightarrow> unit result" where
  "validate_genesis_timestamp_structural ts =
     bindR (validate_unix_secs_structural ts) (\<lambda>_.
     if ts < MIN_TIMESTAMP_SECS then Inl (ValidationError ''GenesisBlock timestamp below project minimum'') else Inr ())"

text \<open>The digest both the constructor and \<open>recompute_genesis_hash\<close> take over the two hashes.\<close>

definition genesis_digest :: "Ext \<Rightarrow> hash \<Rightarrow> hash \<Rightarrow> hash result" where
  "genesis_digest E prev_hash merkle_root =
     (let dummy_hex = compute_dummy_hash E in
      if str_len dummy_hex \<noteq> 128 then Inl (SerializationError ''Dummy hash hex length mismatch'')
      else
        bindR (map_err (\<lambda>_. SerializationError ''Decode dummy hash'') (hex_decode E dummy_hex)) (\<lambda>dummy_bytes.
        Inr (compute_bytes_hash E
          (prev_hash @ merkle_root @ ZERO_GUARDIAN_SIGNATURE @ to_be_bytes 8 GENESIS_REWARD @ dummy_bytes))))"

definition recompute_genesis_hash :: "Ext \<Rightarrow> GenesisBlock \<Rightarrow> hash result" where
  "recompute_genesis_hash E g = genesis_digest E (gn_prev_hash g) (gn_merkle_root g)"

definition genesis_validate :: "Ext \<Rightarrow> GenesisBlock \<Rightarrow> unit result" where
  "genesis_validate E g =
     (if gn_genesis_hash g = zero_hash then Inl (ValidationError ''Genesis hash is all zeros.'')
      else if gn_merkle_root g = zero_hash then Inl (ValidationError ''Merkle root is all zeros.'')
      else
        bindR (validate_genesis_timestamp_structural (gn_timestamp g)) (\<lambda>_.
        if trim (gn_data g) = [] then Inl (ValidationError ''Genesis block data is empty.'')
        else if str_len (gn_data g) > MAX_GENESIS_DATA_BYTES then Inl (ValidationError ''Genesis block data too large'')
        else
          bindR (case gn_founder_wallet g of
                   None \<Rightarrow> Inr ()
                 | Some w \<Rightarrow>
                     bindR (parse_wallet_address w) (\<lambda>_.
                     bindR (canon_wallet_id_checked w) (\<lambda>can.
                     if can \<noteq> w then Inl (ValidationError ''GenesisBlock founder_wallet is not canonical'') else Inr ())))
            (\<lambda>_.
          if gn_genesis_hash g = gn_prev_hash g \<or> gn_genesis_hash g = gn_merkle_root g \<or> gn_prev_hash g = gn_merkle_root g
            then Inl (ValidationError ''Genesis hash fields must all be unique.'')
          else
            bindR (recompute_genesis_hash E g) (\<lambda>recomputed.
            if recomputed \<noteq> gn_genesis_hash g then Inl (ValidationError ''GenesisBlock genesis_hash mismatch'')
            else Inr ()))))"

definition new_with_timestamp_and_miner :: "Ext \<Rightarrow> rstr \<Rightarrow> nat \<Rightarrow> rstr \<Rightarrow> GenesisBlock result" where
  "new_with_timestamp_and_miner E data ts miner =
     bindR (validate_genesis_timestamp_structural ts) (\<lambda>_.
     if trim data = [] then Inl (ValidationError ''Genesis block data cannot be empty.'')
     else if str_len data > MAX_GENESIS_DATA_BYTES then Inl (ValidationError ''Genesis block data too large'')
     else
       bindR (let m = trim miner in
              if m = [] then Inr None
              else bindR (parse_wallet_address m) (\<lambda>_. bindR (canon_wallet_id_checked m) (\<lambda>w. Inr (Some w))))
         (\<lambda>founder_wallet.
       bindR (decode_hex_to_64 E (lit GENESIS_PREV_HASH_HEX)) (\<lambda>prev_hash.
       bindR (decode_hex_to_64 E (lit GENESIS_MERKLE_ROOT_HEX)) (\<lambda>merkle_root.
       bindR (genesis_digest E prev_hash merkle_root) (\<lambda>genesis_hash.
       let g = \<lparr>gn_genesis_hash = genesis_hash, gn_merkle_root = merkle_root, gn_prev_hash = prev_hash, gn_timestamp = ts,
                gn_data = data, gn_founder_wallet = founder_wallet\<rparr> in
       bindR (genesis_validate E g) (\<lambda>_. Inr g))))))"

definition new_with_timestamp :: "Ext \<Rightarrow> rstr \<Rightarrow> nat \<Rightarrow> GenesisBlock result" where
  "new_with_timestamp E data ts = new_with_timestamp_and_miner E data ts []"

definition genesis_new :: "Ext \<Rightarrow> int \<Rightarrow> rstr \<Rightarrow> GenesisBlock result" where
  "genesis_new E clock data = bindR (now_unix_secs_runtime clock) (\<lambda>ts. new_with_timestamp E data ts)"

definition miner_for_genesis_block :: "GenesisBlock \<Rightarrow> rstr" where
  "miner_for_genesis_block g = (case gn_founder_wallet g of Some w \<Rightarrow> w | None \<Rightarrow> [])"

definition genesis_hash_hex :: "Ext \<Rightarrow> GenesisBlock \<Rightarrow> rstr" where
  "genesis_hash_hex E g = hex_encode E (gn_genesis_hash g)"

definition genesis_validate_against_now :: "Ext \<Rightarrow> GenesisBlock \<Rightarrow> nat \<Rightarrow> unit result" where
  "genesis_validate_against_now E g now =
     bindR (genesis_validate E g) (\<lambda>_.
     validate_runtime_future_skew_secs (gn_timestamp g) now MAX_FUTURE_DRIFT_SECS)"

section \<open>Binary encoding\<close>

definition genesis_serialize :: "GenesisExt \<Rightarrow> GenesisBlock \<Rightarrow> byte list result" where
  "genesis_serialize X g =
     bindR (genesis_validate (gx X) g) (\<lambda>_. map_err SerializationError (pc_genesis X g))"

definition genesis_deserialize :: "GenesisExt \<Rightarrow> byte list \<Rightarrow> GenesisBlock result" where
  "genesis_deserialize X bytes =
     bindR (map_err SerializationError (pc_genesis_take X bytes)) (\<lambda>(g, remaining).
     if list_ex (\<lambda>b. b \<noteq> 0) remaining
       then Inl (SerializationError ''GenesisBlock trailing non-zero bytes after postcard payload'')
     else bindR (genesis_validate (gx X) g) (\<lambda>_. Inr g))"

definition pad_to_max_size :: "GenesisExt \<Rightarrow> GenesisBlock \<Rightarrow> byte list result" where
  "pad_to_max_size X g =
     bindR (genesis_serialize X g) (\<lambda>buf.
     if length buf > MAX_BLOCK_SIZE then Inl (SerializationError ''GenesisBlock serialized size exceeds MAX_BLOCK_SIZE'')
     else Inr (if length buf < MAX_BLOCK_SIZE then buf @ replicate (MAX_BLOCK_SIZE - length buf) 0 else buf))"

definition genesis_serialize_for_storage :: "GenesisExt \<Rightarrow> GenesisBlock \<Rightarrow> byte list result" where
  "genesis_serialize_for_storage X g =
     bindR (genesis_serialize X g) (\<lambda>buf.
     if length buf > MAX_BLOCK_SIZE then Inl (SerializationError ''GenesisBlock serialized size exceeds MAX_BLOCK_SIZE'')
     else Inr buf)"

section \<open>JSON and the genesis file\<close>

definition genesis_to_json :: "GenesisExt \<Rightarrow> GenesisBlock \<Rightarrow> rstr result" where
  "genesis_to_json X g = bindR (genesis_validate (gx X) g) (\<lambda>_. map_err SerializationError (js_genesis X g))"

definition genesis_from_json :: "GenesisExt \<Rightarrow> rstr \<Rightarrow> GenesisBlock result" where
  "genesis_from_json X s =
     bindR (map_err SerializationError (js_genesis_from X s)) (\<lambda>g.
     bindR (genesis_validate (gx X) g) (\<lambda>_. Inr g))"

definition genesis_from_json_file :: "GenesisExt \<Rightarrow> string + nat \<Rightarrow> string + rstr \<Rightarrow> GenesisBlock result" where
  "genesis_from_json_file X file_len file_text =
     bindR (map_err SerializationError file_len) (\<lambda>len.
     if len > MAX_BLOCK_SIZE then Inl (SerializationError ''Genesis JSON file too large'')
     else bindR (map_err SerializationError file_text) (\<lambda>data. genesis_from_json X data))"

definition file_validate :: "GenesisExt \<Rightarrow> GenesisFile \<Rightarrow> unit result" where
  "file_validate X f =
     (if trim (gf_chain_id f) = [] then Inl (ValidationError ''GenesisFile chain_id is empty'')
      else if str_len (gf_chain_id f) > 128 then Inl (ValidationError ''GenesisFile chain_id too long'')
      else
        bindR (case gf_version f of
                 Some ver \<Rightarrow>
                   if \<not> semver_match X ver then Inl (ValidationError ''GenesisFile version has invalid format'') else Inr ()
               | None \<Rightarrow> Inl (ValidationError ''GenesisFile version validation failed'')) (\<lambda>_.
        bindR (case gf_description f of
                 None \<Rightarrow> Inr ()
               | Some desc \<Rightarrow>
                   if trim desc = [] then Inl (ValidationError ''GenesisFile description is empty'')
                   else if str_len desc > 500 then Inl (ValidationError ''GenesisFile description is too long (max 500 chars)'')
                   else Inr ()) (\<lambda>_.
        genesis_validate (gx X) (gf_genesis_block f))))"

definition file_from_json_file :: "GenesisExt \<Rightarrow> string + nat \<Rightarrow> string + rstr \<Rightarrow> GenesisFile result" where
  "file_from_json_file X file_len file_text =
     bindR (map_err SerializationError file_len) (\<lambda>len.
     if len > MAX_GENESIS_JSON_BYTES then Inl (SerializationError ''Genesis JSON file too large'')
     else
       bindR (map_err SerializationError file_text) (\<lambda>data.
       bindR (map_err SerializationError (js_file_from X data)) (\<lambda>f.
       bindR (file_validate X f) (\<lambda>_. Inr f))))"

definition file_to_json :: "GenesisExt \<Rightarrow> GenesisFile \<Rightarrow> rstr result" where
  "file_to_json X f =
     bindR (map_err SerializationError (js_file X f)) (\<lambda>json.
     if str_len json > MAX_GENESIS_JSON_BYTES then Inl (SerializationError ''Refusing to write genesis JSON'')
     else Inr json)"

definition load_genesis_block_from_json :: "GenesisExt \<Rightarrow> string + nat \<Rightarrow> string + rstr \<Rightarrow> GenesisBlock result" where
  "load_genesis_block_from_json X file_len file_text =
     bindR (file_from_json_file X file_len file_text) (\<lambda>f.
     bindR (file_validate X f) (\<lambda>_. Inr (gf_genesis_block f)))"

section \<open>The header of the genesis block\<close>

definition meta_from_genesis :: "BlockExt \<Rightarrow> GenesisBlock \<Rightarrow> BlockMetadata result" where
  "meta_from_genesis X g =
     bindR (genesis_validate (bx X) g) (\<lambda>_.
     if gn_merkle_root g = zero_hash then Inl (ValidationError ''GenesisBlock merkle_root cannot be all zeros'')
     else
       bindR (canonical_event_timestamp_from_block (gn_timestamp g)) (\<lambda>genesis_timestamp.
       let m = \<lparr>m_index = 0, m_timestamp = genesis_timestamp, m_previous_hash = gn_prev_hash g,
                m_merkle_root = gn_merkle_root g, m_guardian_signature = replicate SIG_LEN 0, m_puzzle_proof = None,
                m_size = 0\<rparr> in
       bindR (map_err SerializationError (pc_meta X m)) (\<lambda>encoded.
       bindR (ok_or (SerializationError ''BlockMetadata serialized size does not fit into u64'') (try_from 64 (length encoded)))
         (\<lambda>size_u64.
       let m1 = m\<lparr>m_size := size_u64\<rparr> in
       bindR (meta_validate_structural m1) (\<lambda>_. Inr m1)))))"

section \<open>Facts\<close>

lemma genesis_validate_hash: "genesis_validate E g = Inr () \<Longrightarrow> recompute_genesis_hash E g = Inr (gn_genesis_hash g)"
  by (auto simp: genesis_validate_def res_simps split: if_splits)

lemma deserialize_padded:
  assumes take: "\<forall>rest. pc_genesis_take X (b @ rest) = Inr (g, rest)" and v: "genesis_validate (gx X) g = Inr ()"
  shows "genesis_deserialize X (b @ replicate n 0) = Inr g"
  using take v by (simp add: genesis_deserialize_def list_ex_iff)

section \<open>Properties\<close>

text \<open>The padded and the plain stored form of a genesis block both decode to it, when the decoder of the payload returns what
  follows it; the padded form fills a block exactly, and what is decoded always passes the validation.\<close>

theorem genesis_padding_roundtrip:
  assumes codec: "\<forall>g b rest. pc_genesis X g = Inr b \<longrightarrow> pc_genesis_take X (b @ rest) = Inr (g, rest)"
    and pad: "pad_to_max_size X g = Inr padded"
  shows "length padded = MAX_BLOCK_SIZE \<and> genesis_deserialize X padded = Inr g \<and>
    (\<exists>b. genesis_serialize_for_storage X g = Inr b \<and> genesis_deserialize X b = Inr g) \<and>
    genesis_validate (gx X) g = Inr ()"
proof -
  obtain b where v: "genesis_validate (gx X) g = Inr ()" and b: "pc_genesis X g = Inr b" and l: "length b \<le> MAX_BLOCK_SIZE"
    and p: "padded = b @ replicate (MAX_BLOCK_SIZE - length b) 0"
    using pad by (auto simp: pad_to_max_size_def genesis_serialize_def res_simps split: if_splits)
  have "\<forall>rest. pc_genesis_take X (b @ rest) = Inr (g, rest)" using codec b by blast
  from deserialize_padded [OF this v] have d: "genesis_deserialize X (b @ replicate n 0) = Inr g" for n .
  moreover have "genesis_serialize_for_storage X g = Inr b"
    using v b l by (simp add: genesis_serialize_for_storage_def genesis_serialize_def)
  ultimately show ?thesis using d [of 0] v l by (simp add: p)
qed

text \<open>The genesis hash does not commit to the network: genesis blocks made with different data, timestamps and founders have
  the same hash, parent and root, so the hash tells no two such networks apart.\<close>

lemma genesis_hash_constant:
  assumes "new_with_timestamp_and_miner E data ts miner = Inr g" and "new_with_timestamp_and_miner E data' ts' miner' = Inr g'"
  shows "gn_genesis_hash g = gn_genesis_hash g' \<and> gn_prev_hash g = gn_prev_hash g' \<and> gn_merkle_root g = gn_merkle_root g' \<and>
    gn_timestamp g = ts \<and> gn_data g = data"
  using assms by (auto simp: new_with_timestamp_and_miner_def Let_def res_simps split: if_splits)

section \<open>A concrete genesis block\<close>

definition genesis_ext :: Ext where
  "genesis_ext = fixed_ext\<lparr>blake3_xof64 := \<lambda>_. replicate 64 2\<rparr>"

definition sample_root_half :: "byte list" where
  "sample_root_half = [0x29, 0xf9, 0x84, 0xfa, 0xd3, 0x38, 0x9b, 0x57, 0x7d, 0x75, 0xf2, 0x2c, 0x4c, 0x84, 0x9b, 0x1a,
     0x84, 0x8f, 0xb2, 0xae, 0x9e, 0x45, 0x87, 0x78, 0xea, 0x36, 0xbd, 0x17, 0x65, 0xa7, 0x9d, 0xab]"

lemma unhex_zeros: "unhex (replicate (2 * n) 48) = Inr (replicate n 0)"
  by (induction n) (simp_all add: hex_val_def)

lemma genesis_hexes:
  "decode_hex_to_64 genesis_ext (lit GENESIS_PREV_HASH_HEX) = Inr zero_hash"
  "decode_hex_to_64 genesis_ext (lit GENESIS_MERKLE_ROOT_HEX) = Inr (sample_root_half @ sample_root_half)"
proof -
  have "hex_decode genesis_ext (lit GENESIS_PREV_HASH_HEX) = Inr (replicate 64 0)"
    using unhex_zeros [of 64] by (simp add: genesis_ext_def fixed_ext_def GENESIS_PREV_HASH_HEX_def)
  then show "decode_hex_to_64 genesis_ext (lit GENESIS_PREV_HASH_HEX) = Inr zero_hash"
    by (simp add: decode_hex_to_64_def zero_hash_def)
  have "hex_decode genesis_ext (lit GENESIS_MERKLE_ROOT_HEX) = Inr (sample_root_half @ sample_root_half)"
    by (simp add: genesis_ext_def fixed_ext_def GENESIS_MERKLE_ROOT_HEX_def hex_val_def sample_root_half_def)
  then show "decode_hex_to_64 genesis_ext (lit GENESIS_MERKLE_ROOT_HEX) = Inr (sample_root_half @ sample_root_half)"
    by (simp add: decode_hex_to_64_def sample_root_half_def)
qed

definition sample_genesis :: GenesisBlock where
  "sample_genesis = \<lparr>gn_genesis_hash = replicate 64 2, gn_merkle_root = sample_root_half @ sample_root_half,
     gn_prev_hash = zero_hash, gn_timestamp = 1782435600, gn_data = lit ''remzar'', gn_founder_wallet = None\<rparr>"

lemma genesis_dummy: "genesis_digest genesis_ext p m = Inr (replicate 64 2)"
proof -
  have h: "hex_encode genesis_ext = hex_encode fixed_ext" "hex_decode genesis_ext = hex_decode fixed_ext"
    "blake3_xof64 genesis_ext = (\<lambda>_. replicate 64 2)" by (simp_all add: genesis_ext_def)
  show ?thesis
    by (simp add: genesis_digest_def compute_dummy_hash_def compute_bytes_hash_hex_def compute_bytes_hash_def h
        fixed_hex_len fixed_ext_hex)
qed

lemma sample_genesis_facts: "genesis_validate genesis_ext sample_genesis = Inr ()"
    "new_with_timestamp_and_miner genesis_ext (lit ''remzar'') 1782435600 [] = Inr sample_genesis"
proof -
  have d: "trim (lit ''remzar'') = lit ''remzar''" "str_len (lit ''remzar'') = 6"
    by (simp_all add: trim_def trim_end_by_def is_whitespace_def str_len_def as_bytes_def utf8_enc_def)
  have n: "sample_root_half @ sample_root_half \<noteq> zero_hash" "sample_root_half @ sample_root_half \<noteq> replicate 64 2"
    "zero_hash \<noteq> sample_root_half @ sample_root_half" "replicate 64 2 \<noteq> sample_root_half @ sample_root_half"
    "replicate 64 (2 :: byte) \<noteq> zero_hash"
    by (auto simp: sample_root_half_def zero_hash_def dest: arg_cong [of _ _ hd])
  have t: "validate_genesis_timestamp_structural 1782435600 = Inr ()"
    by (simp add: validate_genesis_timestamp_structural_def validate_unix_secs_structural_def UNIX_2000_SECS_def
        UNIX_9999_SECS_def cfg_defs)
  show v: "genesis_validate genesis_ext sample_genesis = Inr ()"
    using n d by (simp add: genesis_validate_def sample_genesis_def t recompute_genesis_hash_def genesis_dummy MAX_GENESIS_DATA_BYTES_def)
  have "trim [] = []" by (simp add: trim_def trim_end_by_def)
  then show "new_with_timestamp_and_miner genesis_ext (lit ''remzar'') 1782435600 [] = Inr sample_genesis"
    using v [unfolded sample_genesis_def] d
    by (simp add: new_with_timestamp_and_miner_def t genesis_hexes genesis_dummy MAX_GENESIS_DATA_BYTES_def sample_genesis_def Let_def)
qed

definition genesis_codec :: GenesisExt where
  "genesis_codec = \<lparr>gx = genesis_ext, pc_genesis = \<lambda>g. if g = sample_genesis then Inr [7] else Inl ''unsupported'',
     pc_genesis_take = \<lambda>b. Inr (sample_genesis, tl b), js_genesis = \<lambda>_. Inl ''unsupported'',
     js_genesis_from = \<lambda>_. Inl ''unsupported'', js_file = \<lambda>_. Inl ''unsupported'', js_file_from = \<lambda>_. Inl ''unsupported'',
     semver_match = \<lambda>_. False\<rparr>"

theorem genesis_padding_roundtrip_witness:
  "\<exists>padded. pad_to_max_size genesis_codec sample_genesis = Inr padded \<and> length padded = MAX_BLOCK_SIZE \<and>
    genesis_deserialize genesis_codec padded = Inr sample_genesis"
proof -
  have "\<exists>padded. pad_to_max_size genesis_codec sample_genesis = Inr padded"
    using sample_genesis_facts(1) by (simp add: pad_to_max_size_def genesis_serialize_def genesis_codec_def cfg_defs)
  then obtain padded where p: "pad_to_max_size genesis_codec sample_genesis = Inr padded" ..
  have "\<forall>g b rest. pc_genesis genesis_codec g = Inr b \<longrightarrow> pc_genesis_take genesis_codec (b @ rest) = Inr (g, rest)"
    by (auto simp: genesis_codec_def split: if_splits)
  from genesis_padding_roundtrip [OF this p] p show ?thesis by blast
qed

end
