(* ===== verification/Validation.thy ===== *)
theory Validation
  imports Signatures Genesis PuzzleProps Detection Halving LeaderProps
begin

text \<open>
  The validator of received blocks (\<open>src/blockchain/validation.rs\<close>). \<open>validate_full_block\<close> is cut into the groups of checks
  it makes, in their order; the checks read the registry, the slot clock and the parent's timestamp from the context. Neither
  the detection system nor the runtime committee of the context influences a check.
\<close>

record 'db FullBlockValidationContext =
  fc_verifying_key :: "byte list"
  fc_previous_timestamp :: "nat option"
  fc_validator_state :: "'db ValidatorState"
  fc_tm :: TimeManager

section \<open>Genesis, transactions and headers\<close>

definition validate_genesis_block :: "GenesisBlock \<Rightarrow> unit result" where
  "validate_genesis_block g =
     (if gn_prev_hash g \<noteq> zero_hash then Inl (ValidationError ''Invalid genesis block: prev_hash must be all zeros'')
      else if gn_prev_hash g = replicate 64 255
        then Inl (ValidationError ''Invalid genesis block: prev_hash cannot be all 0xFF'')
      else if gn_merkle_root g = zero_hash then Inl (ValidationError ''Invalid genesis block: merkle_root must not be zero'')
      else if gn_merkle_root g = replicate 64 255
        then Inl (ValidationError ''Invalid genesis block: merkle_root cannot be all 0xFF'')
      else Inr ())"

definition validate_transaction :: "Transaction \<Rightarrow> unit result" where
  "validate_transaction tx =
     bindR (tx_validate tx) (\<lambda>_.
     if tx_amount tx > MAX_TX_AMOUNT then Inl (ValidationError ''Transaction amount exceeds the allowed maximum'')
     else Inr ())"

fun validate_batch_kind :: "TxKind \<Rightarrow> unit result" where
  "validate_batch_kind (Transfer tx) = validate_transaction tx"
| "validate_batch_kind kind = kind_validate kind"

definition transfer_ids :: "Ext \<Rightarrow> TxKind list \<Rightarrow> rstr list result" where
  "transfer_ids E kinds =
     traverseR (tx_id E) (List.map_filter (\<lambda>kind. case kind of Transfer tx \<Rightarrow> Some tx | _ \<Rightarrow> None) kinds)"

definition validate_transaction_batch :: "SigExt \<Rightarrow> Ext \<Rightarrow> byte list \<Rightarrow> hash \<Rightarrow> (TransactionBatch, BlockMetadata) sm" where
  "validate_transaction_batch S E signing_key previous_hash =
     bindS (readS (\<lambda>batch. traverseR validate_batch_kind (b_transactions batch))) (\<lambda>_.
     bindS (readS (\<lambda>batch. transfer_ids E (b_transactions batch))) (\<lambda>tx_ids.
     bindS (readS (\<lambda>_. detect_double_spend tx_ids)) (\<lambda>_.
     finalize_block S E signing_key previous_hash)))"

definition validate_reward_transaction :: "RewardTx \<Rightarrow> unit result" where
  "validate_reward_transaction reward_tx = bindR (rew_validate reward_tx) (\<lambda>_. Inr ())"

definition check_metadata_proof :: "BlockMetadata \<Rightarrow> unit result" where
  "check_metadata_proof m =
     (if m_index m = 0 then
        (if m_puzzle_proof m \<noteq> None then Inl (ValidationError ''Genesis metadata must not include puzzle_proof'') else Inr ())
      else (case m_puzzle_proof m of
          None \<Rightarrow> Inr ()
        | Some p \<Rightarrow>
            bindR (proof_validate_structural p) (\<lambda>_.
            if pz_height p \<noteq> m_index m
              then Inl (ValidationError ''Metadata puzzle_proof.height does not match metadata.index'')
            else if pz_prev_block_hash p \<noteq> m_previous_hash m
              then Inl (ValidationError ''Metadata puzzle_proof.prev_block_hash does not match metadata.previous_hash'')
            else Inr ())))"

definition validate_block_metadata :: "BlockMetadata \<Rightarrow> unit result" where
  "validate_block_metadata m =
     (if m_index m = 0 \<and> m_previous_hash m \<noteq> zero_hash
        then Inl (ValidationError ''Genesis metadata previous_hash must be zero'')
      else if m_index m > 0 \<and> m_previous_hash m = zero_hash
        then Inl (ValidationError ''Non-genesis metadata previous_hash cannot be zero'')
      else if m_merkle_root m = zero_hash \<or> m_merkle_root m = replicate 64 255
        then Inl (ValidationError ''Metadata merkle_root cannot be zero or all 0xFF'')
      else if m_previous_hash m = replicate 64 255
        then Inl (ValidationError ''Metadata previous_hash cannot be all 0xFF'')
      else if list_all (\<lambda>b. b = 0) (m_guardian_signature m)
        then Inl (ValidationError ''Metadata guardian signature is zero'')
      else if list_all (\<lambda>b. b = 255) (m_guardian_signature m)
        then Inl (ValidationError ''Metadata guardian signature is all 0xFF'')
      else if m_size m < 64 \<or> m_size m > MAX_BLOCK_SIZE
        then Inl (ValidationError ''Metadata size out of plausible bounds'')
      else if m_index m > 0 \<and> m_merkle_root m = m_previous_hash m
        then Inl (ValidationError ''Metadata: merkle_root == previous_hash'')
      else if m_timestamp m < 946684800 then Inl (ValidationError ''Metadata timestamp out of range (too old)'')
      else check_metadata_proof m)"

section \<open>Full blocks\<close>

definition validate_block_timestamp_deterministic :: "BlockMetadata \<Rightarrow> nat option \<Rightarrow> TimeManager \<Rightarrow> unit result" where
  "validate_block_timestamp_deterministic m previous_timestamp tm =
     (let height = m_index m; ts = m_timestamp m in
      if height = 0 then Inr ()
      else
        bindR (ok_or (ValidationError ''Missing previous_timestamp for non-genesis block'') previous_timestamp) (\<lambda>prev_ts.
        let min_interval = max BLOCK_CREATION_INTERVAL_SECS 1;
            min_by_parent = saturating_add 64 prev_ts min_interval;
            drift = tm_slot_gate_drift_secs tm;
            height_start = leader_height_start_unix tm height;
            min_by_schedule = saturating_sub height_start drift;
            min_allowed = max min_by_parent min_by_schedule in
        if ts < min_allowed then Inl (ValidationError ''Deterministic timestamp gate failed'') else Inr ()))"

definition check_proposer :: "Ext \<Rightarrow> 'db FullBlockValidationContext \<Rightarrow> Block \<Rightarrow> rstr result" where
  "check_proposer E ctx block =
     (let m = bl_metadata block; height = m_index m in
      if height > 0 \<and> m_previous_hash m = zero_hash
        then Inl (ValidationError ''Non-genesis block contains zero previous_hash'')
      else
        bindR (map_err (\<lambda>_. ValidationError ''Block miner wallet is not canonical/valid for proposer validation'')
                 (canon_wallet_id_checked (bl_miner block))) (\<lambda>miner_wallet_canon.
        bindR (canonical_validators_for_height (fc_validator_state ctx) (fc_tm ctx) height) (\<lambda>canonical_active.
        if \<not> list_ex (\<lambda>w. eq_ignore_ascii_case w miner_wallet_canon) canonical_active
          then Inl (ValidationError ''Rogue block: proposer is not in canonical validator set'')
        else
          bindR (validate_proposer_from_block_timestamp E (fc_validator_state ctx) (fc_tm ctx) (m_previous_hash m)
                   (m_index m) (m_timestamp m) miner_wallet_canon) (\<lambda>leader_trace.
          if \<not> list_ex (\<lambda>w. eq_ignore_ascii_case w miner_wallet_canon) (sn_validators (lt_snapshot leader_trace))
            then Inl (ValidationError ''Proposer is not present in canonical leader snapshot'')
          else Inr miner_wallet_canon))))"

definition check_root_and_hash :: "BlockExt \<Rightarrow> Block \<Rightarrow> TransactionBatch \<Rightarrow> unit result" where
  "check_root_and_hash X block batch =
     bindR (map_err (\<lambda>_. ValidationError ''Failed to compute batch merkle root'') (compute_merkle_root (bx X) batch))
       (\<lambda>computed_root.
     if m_merkle_root (bl_metadata block) \<noteq> computed_root then Inl (ValidationError ''Merkle root mismatch for block batch'')
     else if m_index (bl_metadata block) > 10000000 then Inl (ValidationError ''Block index implausibly large'')
     else if bl_block_hash block = zero_hash then Inl (ValidationError ''Block hash is all zeros'')
     else if bl_block_hash block = replicate 64 255 then Inl (ValidationError ''Block hash is all 0xFF'')
     else
       bindR (check_block_hash_format (bx X) (hex_encode (bx X) (bl_block_hash block))) (\<lambda>_.
       bindR (compute_block_hash X block) (\<lambda>expected_hash_hex.
       if str_len expected_hash_hex \<noteq> 128 then Inl (SerializationError ''Computed block hash hex must be 128 chars (64 bytes)'')
       else
         bindR (map_err (\<lambda>_. SerializationError ''Decode computed hash'') (hex_decode (bx X) expected_hash_hex))
           (\<lambda>expected_bytes.
         if bl_block_hash block \<noteq> expected_bytes then Inl (ValidationError ''Block hash mismatch'') else Inr ()))))"

definition check_puzzle :: "Ext \<Rightarrow> Block \<Rightarrow> rstr \<Rightarrow> unit result" where
  "check_puzzle E block miner_wallet_canon =
     (let m = bl_metadata block in
      if m_index m = 0 then
        (if m_puzzle_proof m \<noteq> None then Inl (ValidationError ''Genesis block must not include puzzle_proof'') else Inr ())
      else
        bindR (ok_or (ValidationError ''Mandatory puzzle proof missing for non-genesis block'') (m_puzzle_proof m)) (\<lambda>p.
        bindR (proof_validate_structural p) (\<lambda>_.
        if pz_height p \<noteq> m_index m then Inl (ValidationError ''Puzzle proof height mismatch'')
        else if pz_prev_block_hash p \<noteq> m_previous_hash m
          then Inl (ValidationError ''Puzzle proof prev_block_hash does not match block.previous_hash'')
        else if \<not> eq_ignore_ascii_case (pz_validator p) miner_wallet_canon
          then Inl (ValidationError ''Puzzle proof validator does not match block miner'')
        else
          bindR (proof_verify_with_engine_checked E engine_from_globals p) (\<lambda>proof_ok.
          if \<not> proof_ok then Inl (ValidationError ''Puzzle proof failed verification'') else Inr ()))))"

definition batch_contains_reward_tx :: "TransactionBatch \<Rightarrow> bool" where
  "batch_contains_reward_tx batch =
     list_ex (\<lambda>tx. case tx of Reward _ \<Rightarrow> True | _ \<Rightarrow> False) (b_transactions batch)"

fun add_reward :: "nat \<Rightarrow> TxKind \<Rightarrow> nat result" where
  "add_reward reward_sum (Reward reward_tx) =
     ok_or (ValidationError ''Reward sum overflow'') (checked_add 64 reward_sum (rew_amount reward_tx))"
| "add_reward reward_sum kind = Inr reward_sum"

fun check_reward_receiver :: "'db ValidatorState \<Rightarrow> nat \<Rightarrow> TxKind \<Rightarrow> unit result" where
  "check_reward_receiver vs height (Reward reward_tx) =
     (let end_pos = (case position (\<lambda>b. b = 0) (rew_receiver reward_tx) of
            Some i \<Rightarrow> i | None \<Rightarrow> length (rew_receiver reward_tx)) in
      bindR (ok_or (ValidationError ''Reward receiver is not a valid UTF-8 address'')
               (from_utf8 (map unat (take end_pos (rew_receiver reward_tx))))) (\<lambda>miner.
      bindR (map_err (\<lambda>_. ValidationError ''Reward receiver wallet is not canonical/valid'') (canon_wallet_id_checked miner))
        (\<lambda>miner_can.
      if \<not> vs_reward_eligible_at miner_can height vs
        then Inl (ValidationError ''Miner is not reward-eligible at block'') else Inr ())))"
| "check_reward_receiver vs height kind = Inr ()"

definition check_rewards :: "'db ValidatorState \<Rightarrow> Block \<Rightarrow> TransactionBatch \<Rightarrow> unit result" where
  "check_rewards vs block batch =
     (let height = m_index (bl_metadata block) in
      if height < REWARD_DELAY_BLOCKS \<and> bl_reward block \<noteq> 0
        then Inl (ValidationError ''Block reward must be zero before reward delay'')
      else if height < REWARD_DELAY_BLOCKS \<and> batch_contains_reward_tx batch
        then Inl (ValidationError ''Block contains reward transactions before reward delay'')
      else if bl_reward block \<noteq> get_block_reward height then Inl (ValidationError ''Block reward mismatch'')
      else
        bindR (foldR add_reward 0 (b_transactions batch)) (\<lambda>reward_sum.
        if reward_sum \<noteq> bl_reward block then Inl (ValidationError ''Reward transactions total differs from block.reward'')
        else bindR (traverseR (check_reward_receiver vs height) (b_transactions batch)) (\<lambda>_. Inr ())))"

definition check_sizes :: "BlockExt \<Rightarrow> Block \<Rightarrow> TransactionBatch \<Rightarrow> unit result" where
  "check_sizes X block batch =
     bindR (block_serialize_for_storage X block) (\<lambda>block_bytes.
     bindR (batch_serialize (bx X) batch) (\<lambda>batch_bytes.
     let total_bytes = saturating_add 64 (length block_bytes) (length batch_bytes) in
     if total_bytes > MAX_BLOCK_SIZE then Inl (ValidationError ''Block+Batch exceeds MAX_BLOCK_SIZE'')
     else check_block_size total_bytes))"

definition validate_full_block :: "SigExt \<Rightarrow> BlockExt \<Rightarrow> Block \<Rightarrow> TransactionBatch \<Rightarrow> 'db FullBlockValidationContext \<Rightarrow> unit result"
  where
  "validate_full_block S X block batch ctx =
     bindR (validate_block_metadata (bl_metadata block)) (\<lambda>_.
     bindR (validate_block_timestamp_deterministic (bl_metadata block) (fc_previous_timestamp ctx) (fc_tm ctx)) (\<lambda>_.
     bindR (check_proposer (bx X) ctx block) (\<lambda>miner_wallet_canon.
     bindR (check_root_and_hash X block batch) (\<lambda>_.
     bindR (verify_block_signature S X (fc_verifying_key ctx) block) (\<lambda>sig_ok.
     if \<not> sig_ok then Inl (ValidationError ''Guardian signature invalid'')
     else
       bindR (check_puzzle (bx X) block miner_wallet_canon) (\<lambda>_.
       bindR (check_rewards (fc_validator_state ctx) block batch) (\<lambda>_.
       check_sizes X block batch)))))))"

end
