(* ===== verification/ValidationProps.thy ===== *)
theory ValidationProps
  imports Validation
begin

text \<open>
  What an accepted block is: proposed by the leader of its round, later than its parent, with the root of its batch, its own
  hash, the solved puzzle of its proposer and exactly the reward of its height; and what follows for a chain of accepted blocks.
\<close>

section \<open>Each group of checks\<close>

fun reward_of :: "TxKind \<Rightarrow> nat" where
  "reward_of (Reward r) = rew_amount r"
| "reward_of _ = 0"

definition reward_total :: "TransactionBatch \<Rightarrow> nat" where
  "reward_total batch = sum_list (map reward_of (b_transactions batch))"

lemma foldR_add_reward:
  "foldR add_reward n ts = Inr s \<Longrightarrow> s = n + sum_list (map reward_of ts)"
proof (induction ts arbitrary: n)
  case (Cons k ts)
  then show ?case by (cases k) (fastforce simp: res_simps checked_add_Some_iff)+
qed simp

lemma rewards_checked:
  assumes "check_rewards vs block batch = Inr ()"
  shows "bl_reward block = get_block_reward (m_index (bl_metadata block)) \<and> reward_total batch = bl_reward block \<and>
    (\<forall>k\<in>set (b_transactions batch). check_reward_receiver vs (m_index (bl_metadata block)) k = Inr ())"
proof -
  have t: "traverseR f xs = Inr ys \<Longrightarrow> \<forall>x\<in>set xs. f x = Inr ()" for f :: "TxKind \<Rightarrow> unit result" and xs ys
    by (induction xs arbitrary: ys) (auto simp: res_simps)
  obtain s ys where s: "foldR add_reward 0 (b_transactions batch) = Inr s" "s = bl_reward block"
    and ys: "traverseR (check_reward_receiver vs (m_index (bl_metadata block))) (b_transactions batch) = Inr ys"
    and r: "bl_reward block = get_block_reward (m_index (bl_metadata block))"
    using assms by (auto simp: check_rewards_def Let_def res_simps split: if_splits)
  show ?thesis using foldR_add_reward [OF s(1)] s(2) t [OF ys] r by (simp add: reward_total_def)
qed

lemma proposer_checked:
  assumes reg: "registry_ok (vs_inner (fc_validator_state ctx))" and c: "check_proposer E ctx block = Inr w"
  shows "canon_wallet_id_checked (bl_miner block) = Inr w \<and> 0 < m_index (bl_metadata block) \<and>
    (\<exists>sn r elapsed in_round start d.
      committee_snapshot E (fc_validator_state ctx) (fc_tm ctx) (m_previous_hash (bl_metadata block)) (m_index (bl_metadata block)) = Inr sn \<and>
      round_for_height_from_timestamp (fc_tm ctx) (m_index (bl_metadata block)) (m_timestamp (bl_metadata block)) = Inr (r, elapsed, in_round, start) \<and>
      leader_for_round E sn r = Inr d \<and> ld_leader d = w)"
proof -
  let ?m = "bl_metadata block"
  have w: "canon_wallet_id_checked (bl_miner block) = Inr w"
    using c by (auto simp: check_proposer_def Let_def res_simps split: if_splits)
  have cw: "canonical_wallet w" by (rule canon_wallet_result(1) [OF w])
  obtain t where h: "0 < m_index ?m"
    and t: "validate_proposer_from_block_timestamp E (fc_validator_state ctx) (fc_tm ctx) (m_previous_hash ?m) (m_index ?m) (m_timestamp ?m) w = Inr t"
    using c by (auto simp: check_proposer_def Let_def canonical_validators_for_height_def w res_simps split: if_splits)
  obtain sn r elapsed in_round start d where
    sn: "committee_snapshot E (fc_validator_state ctx) (fc_tm ctx) (m_previous_hash ?m) (m_index ?m) = Inr sn"
    and r: "round_for_height_from_timestamp (fc_tm ctx) (m_index ?m) (m_timestamp ?m) = Inr (r, elapsed, in_round, start)"
    and d: "leader_for_round E sn r = Inr d" "eq_ignore_ascii_case (ld_leader d) w"
    using t by (auto simp: validate_proposer_from_block_timestamp_def canon_wallet_canonical [OF cw] trace_for_timestamp_def
        make_trace_def res_simps split: if_splits)
  have "sn_validators sn = proposable_at (m_index ?m) (tm_proposer_delay_blocks (fc_tm ctx)) (fc_validator_state ctx)"
    using sn snapshot_Inr [OF reg] by auto
  then have c: "\<forall>v\<in>set (sn_validators sn). canonical_wallet v" using proposable_at_facts(3) [OF reg] by simp
  have "ld_leader d \<in> set (sn_validators sn)" using leader_spec [OF snapshot_valid [OF sn] c, of r] d(1) by auto
  then have "ld_leader d = w" using d(2) c cw by (simp add: canonical_eq_ignore)
  with w h sn r d(1) show ?thesis by blast
qed

lemma timestamp_checked:
  assumes "validate_block_timestamp_deterministic m prev tm = Inr ()" and "0 < m_index m" and "m_timestamp m < 2 ^ 64 - 1"
  shows "\<exists>t. prev = Some t \<and> t + BLOCK_CREATION_INTERVAL_SECS \<le> m_timestamp m"
  using assms by (auto simp: validate_block_timestamp_deterministic_def Let_def saturating_add_def cfg_defs res_simps split: if_splits)

lemma puzzle_checked:
  assumes c: "check_puzzle E block w = Inr ()" and h: "0 < m_index (bl_metadata block)" and w: "canonical_wallet w"
  shows "\<exists>p. m_puzzle_proof (bl_metadata block) = Some p \<and> pz_validator p = w \<and>
    pz_output p = fib (puzzle_index E (m_previous_hash (bl_metadata block)) (m_index (bl_metadata block)) w)"
proof -
  obtain p where p: "m_puzzle_proof (bl_metadata block) = Some p" and s: "proof_validate_structural p = Inr ()"
    and e: "pz_height p = m_index (bl_metadata block)" "pz_prev_block_hash p = m_previous_hash (bl_metadata block)"
      "eq_ignore_ascii_case (pz_validator p) w"
    and v: "proof_verify_with_engine_checked E engine_from_globals p = Inr True"
    using c h by (auto simp: check_puzzle_def Let_def res_simps split: if_splits)
  have "pz_validator p = w" using e(3) structural_proof_facts(1) [OF s] w by (simp add: canonical_eq_ignore)
  with v s e p show ?thesis by (simp add: proof_decided)
qed

lemma hash_checked:
  assumes "check_root_and_hash X block batch = Inr ()"
  shows "compute_merkle_root (bx X) batch = Inr (m_merkle_root (bl_metadata block)) \<and> verify_block_hash X block = Inr True \<and>
    m_index (bl_metadata block) \<le> 10000000"
  using assms
  by (auto simp: check_root_and_hash_def verify_block_hash_def decode_hash_hex_def res_simps split: if_splits)

text \<open>The checks an accepted block has passed.\<close>

lemma full_block_checks:
  assumes "validate_full_block S X block batch ctx = Inr ()"
  obtains w where "validate_block_metadata (bl_metadata block) = Inr ()"
    and "validate_block_timestamp_deterministic (bl_metadata block) (fc_previous_timestamp ctx) (fc_tm ctx) = Inr ()"
    and "check_proposer (bx X) ctx block = Inr w" and "check_root_and_hash X block batch = Inr ()"
    and "check_puzzle (bx X) block w = Inr ()" and "check_rewards (fc_validator_state ctx) block batch = Inr ()"
    and "check_sizes X block batch = Inr ()"
  using assms that by (auto simp: validate_full_block_def res_simps split: if_splits)

section \<open>Properties\<close>

text \<open>C1. An accepted block is the block of its slot. It stands above genesis, at least one interval after its parent; its miner
  is the leader of the round its timestamp falls in; it carries the root of its batch and its own hash, the one right answer to
  the puzzle of this miner on this parent, and the reward of its height, which is what its reward transactions pay.\<close>

theorem full_block_sound:
  assumes reg: "registry_ok (vs_inner (fc_validator_state ctx))" and acc: "validate_full_block S X block batch ctx = Inr ()"
    and width: "m_timestamp (bl_metadata block) < 2 ^ 64 - 1"
  shows "0 < m_index (bl_metadata block) \<and> m_index (bl_metadata block) \<le> 10000000 \<and>
    (\<exists>t. fc_previous_timestamp ctx = Some t \<and> t + BLOCK_CREATION_INTERVAL_SECS \<le> m_timestamp (bl_metadata block)) \<and>
    compute_merkle_root (bx X) batch = Inr (m_merkle_root (bl_metadata block)) \<and> verify_block_hash X block = Inr True \<and>
    (\<exists>w sn r elapsed in_round start d p.
      canon_wallet_id_checked (bl_miner block) = Inr w \<and>
      committee_snapshot (bx X) (fc_validator_state ctx) (fc_tm ctx) (m_previous_hash (bl_metadata block)) (m_index (bl_metadata block)) = Inr sn \<and>
      round_for_height_from_timestamp (fc_tm ctx) (m_index (bl_metadata block)) (m_timestamp (bl_metadata block)) = Inr (r, elapsed, in_round, start) \<and>
      leader_for_round (bx X) sn r = Inr d \<and> ld_leader d = w \<and>
      m_puzzle_proof (bl_metadata block) = Some p \<and> pz_validator p = w \<and>
      pz_output p = fib (puzzle_index (bx X) (m_previous_hash (bl_metadata block)) (m_index (bl_metadata block)) w)) \<and>
    bl_reward block = get_block_reward (m_index (bl_metadata block)) \<and> reward_total batch = bl_reward block"
proof -
  obtain w where c: "validate_block_timestamp_deterministic (bl_metadata block) (fc_previous_timestamp ctx) (fc_tm ctx) = Inr ()"
    "check_proposer (bx X) ctx block = Inr w" "check_root_and_hash X block batch = Inr ()"
    "check_puzzle (bx X) block w = Inr ()" "check_rewards (fc_validator_state ctx) block batch = Inr ()"
    using full_block_checks [OF acc] by blast
  note p = proposer_checked [OF reg c(2)]
  have w: "canonical_wallet w" using p canon_wallet_result(1) by blast
  obtain pz where "m_puzzle_proof (bl_metadata block) = Some pz" "pz_validator pz = w"
      "pz_output pz = fib (puzzle_index (bx X) (m_previous_hash (bl_metadata block)) (m_index (bl_metadata block)) w)"
    using puzzle_checked [OF c(4) conjunct1 [OF conjunct2 [OF p]] w] by blast
  then show ?thesis using p hash_checked [OF c(3)] rewards_checked [OF c(5)] timestamp_checked [OF c(1) _ width] by blast
qed

text \<open>Two accepted blocks on the same parent and of the same height, judged with the same registry and clock, have the same
  miner when their timestamps fall into the same round: no round of a height yields blocks of two proposers.\<close>

theorem accepted_same_round_same_miner:
  assumes reg: "registry_ok (vs_inner (fc_validator_state ctx))" and same: "vs_inner (fc_validator_state ctx') = vs_inner (fc_validator_state ctx)"
    and tm: "fc_tm ctx' = fc_tm ctx"
    and acc: "validate_full_block S X block batch ctx = Inr ()" "validate_full_block S X block' batch' ctx' = Inr ()"
    and parent: "m_previous_hash (bl_metadata block') = m_previous_hash (bl_metadata block)" "m_index (bl_metadata block') = m_index (bl_metadata block)"
    and round: "round_for_height_from_timestamp (fc_tm ctx) (m_index (bl_metadata block)) (m_timestamp (bl_metadata block)) = Inr (r, x)"
      "round_for_height_from_timestamp (fc_tm ctx) (m_index (bl_metadata block)) (m_timestamp (bl_metadata block')) = Inr (r, y)"
  shows "canon_wallet_id_checked (bl_miner block) = canon_wallet_id_checked (bl_miner block')"
proof -
  have reg': "registry_ok (vs_inner (fc_validator_state ctx'))" using reg same by simp
  obtain w where w: "check_proposer (bx X) ctx block = Inr w" using full_block_checks [OF acc(1)] by blast
  obtain w' where w': "check_proposer (bx X) ctx' block' = Inr w'" using full_block_checks [OF acc(2)] by blast
  show ?thesis
    using proposer_checked [OF reg w] proposer_checked [OF reg' w'] round
    by (auto simp: parent tm same_registry_snapshot [OF same])
qed

text \<open>C9. Accepted blocks never issue more than the cap: whatever blocks are accepted, one for each height of any finite set, the
  amounts of their reward transactions sum to at most \<open>MAX_REWARD_SUPPLY\<close>.\<close>

theorem accepted_chain_capped:
  assumes "finite H" and "\<forall>h\<in>H. m_index (bl_metadata (blocks h)) = h \<and> validate_full_block S X (blocks h) (batches h) (ctxs h) = Inr ()"
  shows "(\<Sum>h\<in>H. reward_total (batches h)) \<le> MAX_REWARD_SUPPLY"
proof -
  have "reward_total (batches h) = get_block_reward h" if "h \<in> H" for h
  proof -
    have acc: "validate_full_block S X (blocks h) (batches h) (ctxs h) = Inr ()" and h: "m_index (bl_metadata (blocks h)) = h"
      using assms(2) that by auto
    show ?thesis using full_block_checks [OF acc] rewards_checked h by metis
  qed
  then have "(\<Sum>h\<in>H. reward_total (batches h)) = (\<Sum>h\<in>H. get_block_reward h)" by simp
  also have "\<dots> \<le> (\<Sum>h<Suc (Max (insert 0 H)). get_block_reward h)"
    using assms(1) by (intro sum_mono2) (auto simp: less_Suc_eq_le)
  also have "\<dots> \<le> MAX_REWARD_SUPPLY" by (rule halving.paid_le_cap)
  finally show ?thesis .
qed

text \<open>The validator accepts no genesis block: no block of height 0 passes, and the header that the node itself makes from a
  genesis block fails the checks of a header, whose branches for height 0 are never reached with success.\<close>

theorem genesis_never_accepted:
  "(m_index (bl_metadata block) = 0 \<longrightarrow> validate_full_block S X block batch ctx \<noteq> Inr ()) \<and>
   (\<forall>g m. meta_from_genesis X g = Inr m \<longrightarrow> validate_block_metadata m \<noteq> Inr ())"
proof (intro conjI allI impI)
  assume h: "m_index (bl_metadata block) = 0"
  have "check_proposer (bx X) ctx block \<noteq> Inr w" for w
    by (auto simp: check_proposer_def Let_def h canonical_validators_for_height_def res_simps split: if_splits)
  then show "validate_full_block S X block batch ctx \<noteq> Inr ()" using full_block_checks [of S X block batch ctx] by blast
next
  fix g m
  assume "meta_from_genesis X g = Inr m"
  then have "m_guardian_signature m = replicate SIG_LEN 0"
    by (auto simp: meta_from_genesis_def Let_def res_simps split: if_splits)
  then show "validate_block_metadata m \<noteq> Inr ()" by (auto simp: validate_block_metadata_def list_all_iff)
qed

end
