(* ===== verification/ValidationSamples.thy ===== *)
theory ValidationSamples
  imports ValidationProps
begin

text \<open>
  A concrete accepted block, with concrete codecs and a validator set of one wallet, and the properties of accepted blocks at it.
\<close>

definition val_ext :: Ext where
  "val_ext = fixed_ext\<lparr>blake3_xof64 := \<lambda>_. replicate 64 2, pc_batch := \<lambda>_. Inr [0]\<rparr>"

definition val_bext :: BlockExt where
  "val_bext = sample_bext\<lparr>bx := val_ext\<rparr>"

definition val_sig :: SigExt where
  "val_sig = \<lparr>ml_try_sign = \<lambda>sk r. Inl ''unsupported'', ml_verify = \<lambda>vk r s. True, pc_signing = \<lambda>_. Inr [1]\<rparr>"

definition val_proof :: BlockPuzzleProof where
  "val_proof = \<lparr>pz_height = 6, pz_validator = sample_wallet 97, pz_prev_block_hash = replicate 64 1,
     pz_output = fib (puzzle_index val_ext (replicate 64 1) 6 (sample_wallet 97))\<rparr>"

definition val_meta :: BlockMetadata where
  "val_meta = \<lparr>m_index = 6, m_timestamp = 1700000200, m_previous_hash = replicate 64 1, m_merkle_root = replicate 64 2,
     m_guardian_signature = replicate SIG_LEN 1, m_puzzle_proof = Some val_proof, m_size = 64\<rparr>"

definition val_reward :: RewardTx where
  "val_reward = \<lparr>rew_receiver = map word_of_nat (sample_wallet 97), rew_amount = 2000000000, rew_block_height = 6, rew_timestamp = 1700000200\<rparr>"

definition val_batch :: TransactionBatch where
  "val_batch = \<lparr>b_index = 6, b_timestamp = 1700000200, b_transactions = [Reward val_reward], b_guardian_signature = None\<rparr>"

definition val_block :: Block where
  "val_block = \<lparr>bl_metadata = val_meta, bl_batch_key = None, bl_miner = sample_wallet 97, bl_block_hash = replicate 64 2, bl_reward = 2000000000\<rparr>"

definition val_ctx :: "mem_db FullBlockValidationContext" where
  "val_ctx = \<lparr>fc_verifying_key = [], fc_previous_timestamp = Some 1700000100, fc_validator_state = leader_vs, fc_tm = leader_tm\<rparr>"

lemma val_simps:
  "bx val_bext = val_ext" "blake3_xof64 val_ext = (\<lambda>_. replicate 64 2)" "hex_encode val_ext = hex_encode fixed_ext"
  "hex_decode val_ext = hex_decode fixed_ext" "pc_batch val_ext = (\<lambda>_. Inr [0])"
  by (simp_all add: val_bext_def val_ext_def)

lemma bytes_neq: "replicate 64 (a :: byte) \<noteq> replicate 64 b" "replicate 64 a \<noteq> zero_hash" "zero_hash \<noteq> replicate 64 a"
  if "a \<noteq> b" "a \<noteq> 0" for a b
  using that by (auto simp: zero_hash_def)

lemma reward_6: "get_block_reward 6 = 2000000000"
proof -
  have s: "scheduled_reward i \<le> 2000000000" "scheduled_reward 6 = 2000000000" if "i < 6" for i
    using that by (auto simp: scheduled_reward_def step_rate_def cfg_defs div_eq_0_iff)
  have "total_issued_to 6 \<le> 6 * 2000000000"
    unfolding total_issued_to_eq using sum_bounded_above [of "{..<6}" scheduled_reward 2000000000] s(1) by simp
  then show ?thesis by (simp add: get_block_reward_eq s(2) [of 0] cfg_values)
qed

lemma val_proof_ok: "proof_validate_structural val_proof = Inr ()" "proof_verify_with_engine_checked val_ext engine_from_globals val_proof = Inr True"
proof -
  show s: "proof_validate_structural val_proof = Inr ()"
    using fib_pos [of "puzzle_index val_ext (replicate 64 1) 6 (sample_wallet 97)"]
      puzzle_index_bounds(1) [of val_ext "replicate 64 1" 6 "sample_wallet 97"]
    by (intro structural_proofI) (auto simp: val_proof_def sample_wallet_a zero_hash_def)
  show "proof_verify_with_engine_checked val_ext engine_from_globals val_proof = Inr True"
    by (simp add: proof_decided s) (simp add: val_proof_def)
qed

lemma val_meta_ok: "validate_block_metadata val_meta = Inr ()"
  using val_proof_ok(1)
  by (simp add: validate_block_metadata_def val_meta_def zero_hash_def check_metadata_proof_def SIG_LEN_def list_all_iff cfg_defs)
    (simp add: val_proof_def)

lemma val_start: "leader_height_start_unix leader_tm 6 = 1700000150"
  by (simp add: leader_height_start_unix_def leader_tm_values saturating_sub_def saturating_mul_def saturating_add_def)

lemma val_time_ok: "validate_block_timestamp_deterministic val_meta (Some 1700000100) leader_tm = Inr ()"
  by (simp add: validate_block_timestamp_deterministic_def val_meta_def Let_def val_start leader_tm_values saturating_add_def cfg_defs)

lemma val_proposer_ok: "check_proposer val_ext val_ctx val_block = Inr (sample_wallet 97)"
proof -
  let ?m = "val_meta" and ?w = "sample_wallet 97"
  have c: "canon_wallet_id_checked ?w = Inr ?w" by (rule canon_wallet_canonical [OF sample_wallet_a])
  obtain sn where sn: "committee_snapshot val_ext leader_vs leader_tm (replicate 64 1) 6 = Inr sn"
    and v: "sn_validators sn = [?w]"
    using snapshot_Inr [OF leader_vs_ok, of val_ext leader_tm "replicate 64 1" 6]
    by (auto simp: leader_tm_values leader_proposable MAX_COMMITTEE_SIZE_HARD_def)
  obtain d where d: "leader_for_round val_ext sn 4 = Inr d" "ld_leader d = ?w"
    using leader_spec [OF snapshot_valid [OF sn], of 4] v sample_wallet_a by auto
  have r: "round_for_height_from_timestamp leader_tm 6 1700000200 = Inr (4, 50, 2, 1700000198)"
    using round_from_timestamp_Inr [of 1700000200 leader_tm 6 4 50 2 1700000198] by (simp add: val_start leader_tm_values)
  have "canonical_validators_for_height leader_vs leader_tm 6 = Inr [?w]"
    using sn v by (auto simp: committee_snapshot_def Let_def res_simps)
  moreover have "\<exists>t. validate_proposer_from_block_timestamp val_ext leader_vs leader_tm (replicate 64 1) 6 1700000200 ?w = Inr t \<and>
      sn_validators (lt_snapshot t) = [?w]"
    by (simp add: validate_proposer_from_block_timestamp_def c trace_for_timestamp_def sn r make_trace_def d contains_wallet_def v
        eq_ignore_ascii_case_def)
  ultimately show ?thesis
    by (auto simp: check_proposer_def val_block_def val_meta_def val_ctx_def c Let_def zero_hash_def eq_ignore_ascii_case_def)
qed

lemma val_reward_valid: "rew_validate val_reward = Inr ()"
  by (simp add: rew_validate_def val_reward_def rew_validate_amount_def rew_validate_block_height_def
      rew_validate_receiver_canonical_def parse_wallet_bytes_canonical [OF sample_wallet_a] canonical_wallet_facts [OF sample_wallet_a]
      REMZAR_WALLET_LEN_def validate_unix_secs_structural_def UNIX_2000_SECS_def UNIX_9999_SECS_def cfg_defs UNIT_DIVISOR_def)

lemma fixed_hex_trim: "trim (hex_encode fixed_ext b) = hex_encode fixed_ext b"
proof (rule trim_none)
  have d: "\<not> is_whitespace (hex_digit n)" if "n < 16" for n using that by (simp add: hex_digit_def is_whitespace_def)
  have x: "unat (x :: byte) div 16 < 16" for x
    using unat_byte_less [of x] by (simp add: div_less_iff_less_mult del: unat_byte_less)
  show "list_all (\<lambda>c. \<not> is_whitespace c) (hex_encode fixed_ext b)"
    by (induction b) (simp_all add: fixed_ext_def d x)
qed

lemma val_hash: "compute_block_hash val_bext b = Inr (hex_encode fixed_ext (replicate 64 2))"
  by (simp add: compute_block_hash_def Let_def compute_bytes_hash_hex_def compute_dummy_hash_def val_simps fixed_hex_len fixed_ext_hex
      split: option.splits)

lemma val_root: "compute_merkle_root val_ext val_batch = Inr (replicate 64 2)"
proof -
  have s: "rew_serialize val_ext val_reward = Inr (fixed_rew val_reward)"
    by (simp add: rew_serialize_def val_reward_valid) (simp add: val_ext_def fixed_ext_def)
  have "length (fixed_rew val_reward) = 153" by (simp add: fixed_rew_def val_reward_def sample_wallet_def)
  then have p: "pc_bytes val_ext (fixed_rew val_reward) = Inr (to_be_bytes 8 153 @ fixed_rew val_reward)"
    by (simp add: val_ext_def fixed_ext_def)
  show ?thesis
    using \<open>length (fixed_rew val_reward) = 153\<close>
    by (simp add: compute_merkle_root_def val_batch_def s remzar_merkle_root_def p val_simps fixed_ext_hex first64_def
        ensure_size_limit_def MAX_SERIALIZED_BYTES_def)
qed

lemma val_hash_ok: "check_root_and_hash val_bext val_block val_batch = Inr ()"
  by (simp add: check_root_and_hash_def val_simps val_root check_block_hash_format_def Let_def fixed_hex_trim fixed_hex_len fixed_ext_hex val_hash)
    (simp add: val_block_def val_meta_def zero_hash_def fixed_hex_trim fixed_hex_len fixed_ext_hex)

lemma val_signature_ok: "verify_block_signature val_sig val_bext [] val_block = Inr True"
proof -
  have "gs_compute_batch_merkle_root val_ext [[1]] = Inr (replicate 64 2)"
    by (simp add: roots_agree batch_root_eq cfg_defs validate_merkle_root_def blake3_hash64_leaf_def val_simps list_all_iff)
  moreover have "gs_validate_batch_input [[1]] = Inr ()"
    by (simp add: gs_validate_batch_input_def saturating_add_def cfg_defs)
  ultimately have "gs_verify_batch val_sig val_ext [] [[1]] (replicate SIG_LEN 1) = Inr ()"
    by (simp add: gs.verify_iff) (simp add: val_sig_def)
  then show ?thesis
    by (simp add: verify_block_signature_def serialize_for_signing_def val_simps val_block_def val_meta_def) (simp add: val_sig_def)
qed

lemma val_rewards_ok: "check_rewards leader_vs val_block val_batch = Inr ()"
proof -
  note f = canonical_wallet_facts [OF sample_wallet_a]
  have u: "map unat (map word_of_nat (sample_wallet 97) :: byte list) = sample_wallet 97"
    using f(1) by (intro map_unat_word_of_nat) (auto simp: is_ascii_def list_all_iff)
  have "0 \<notin> set (map word_of_nat (sample_wallet 97) :: byte list)"
    using parse_bytes_no_zero [OF parse_wallet_bytes_canonical [OF sample_wallet_a]] by simp
  then have "position (\<lambda>b. b = 0) (rew_receiver val_reward) = None" by (auto simp: position_None val_reward_def)
  moreover have "vs_reward_eligible_at (sample_wallet 97) 6 leader_vs"
    by (simp add: vs_reward_eligible_at_def canon_wallet_canonical [OF sample_wallet_a] leader_vs_def run_registry_def
        meta_reward_eligible_at_def lifecycle_from_globals_def saturating_add_def cfg_defs)
  ultimately have "check_reward_receiver leader_vs 6 (Reward val_reward) = Inr ()"
    using u from_utf8_ascii [OF f(1)] by (simp add: canon_wallet_canonical [OF sample_wallet_a] val_reward_def del: map_map)
  moreover have "add_reward 0 (Reward val_reward) = Inr 2000000000" by (simp add: val_reward_def checked_add_def)
  ultimately show ?thesis
    by (simp add: check_rewards_def val_block_def val_meta_def val_batch_def REWARD_DELAY_BLOCKS_def reward_6
        del: add_reward.simps check_reward_receiver.simps)
qed

lemma val_sizes_ok: "check_sizes val_bext val_block val_batch = Inr ()"
proof -
  have "meta_validate_structural val_meta = Inr ()"
    using val_proof_ok(1)
    by (simp add: meta_validate_structural_def val_meta_def MAX_METADATA_INDEX_HARD_def cfg_defs zero_hash_def
        validate_unix_secs_structural_def UNIX_2000_SECS_def UNIX_9999_SECS_def SIG_LEN_def) (simp add: val_proof_def)
  moreover have "validate_size val_bext val_meta = Inr ()"
    by (simp add: validate_size_def val_bext_def sample_bext_def val_meta_def cfg_defs)
  moreover have "validate_miner_canonical val_block = Inr ()"
    by (simp add: validate_miner_canonical_def val_block_def canonical_wallet_facts [OF sample_wallet_a] canonical_not_Nil [OF sample_wallet_a]
        canon_wallet_canonical [OF sample_wallet_a] MAX_MINER_LEN_def REMZAR_WALLET_LEN_def)
  moreover have "verify_block_hash val_bext val_block = Inr True" using hash_checked [OF val_hash_ok] by simp
  ultimately have "block_validate val_bext val_block None = Inr ()"
    by (simp add: block_validate_def validate_batch_key_bound_def validate_block_hash_not_zero_def) (simp add: val_block_def val_meta_def zero_hash_def)
  moreover have "length (bl_block_hash val_block) = 64" by (simp add: val_block_def)
  ultimately show ?thesis
    by (simp add: check_sizes_def block_serialize_for_storage_def batch_serialize_def val_simps)
      (simp add: val_bext_def sample_bext_def saturating_add_def check_block_size_def cfg_defs)
qed

lemma val_accepted: "validate_full_block val_sig val_bext val_block val_batch val_ctx = Inr ()"
proof -
  have "check_puzzle val_ext val_block (sample_wallet 97) = Inr ()"
    using val_proof_ok by (simp add: check_puzzle_def val_block_def val_meta_def) (simp add: val_proof_def eq_ignore_ascii_case_def)
  moreover have "bl_metadata val_block = val_meta" by (simp add: val_block_def)
  moreover have "fc_previous_timestamp val_ctx = Some 1700000100" "fc_tm val_ctx = leader_tm" "fc_verifying_key val_ctx = []"
    "fc_validator_state val_ctx = leader_vs" by (simp_all add: val_ctx_def)
  ultimately show ?thesis
    using val_meta_ok val_time_ok val_proposer_ok val_hash_ok val_signature_ok val_rewards_ok val_sizes_ok
    by (simp add: validate_full_block_def val_simps)
qed

section \<open>Witnesses\<close>

theorem full_block_sound_witness:
  "validate_full_block val_sig val_bext val_block val_batch val_ctx = Inr () \<and> bl_reward val_block = get_block_reward 6 \<and>
   reward_total val_batch = bl_reward val_block"
proof -
  have "registry_ok (vs_inner (fc_validator_state val_ctx))" using leader_vs_ok by (simp add: val_ctx_def)
  from full_block_sound [OF this val_accepted] val_accepted show ?thesis by (simp add: val_block_def val_meta_def)
qed

theorem accepted_same_round_same_miner_witness:
  "canon_wallet_id_checked (bl_miner val_block) = canon_wallet_id_checked (bl_miner val_block) \<and>
   validate_full_block val_sig val_bext val_block val_batch val_ctx = Inr ()"
proof -
  have r: "round_for_height_from_timestamp leader_tm 6 1700000200 = Inr (4, 50, 2, 1700000198)"
    using round_from_timestamp_Inr [of 1700000200 leader_tm 6 4 50 2 1700000198] by (simp add: val_start leader_tm_values)
  have "canon_wallet_id_checked (bl_miner val_block) = canon_wallet_id_checked (bl_miner val_block)"
    by (rule accepted_same_round_same_miner [OF _ _ _ val_accepted val_accepted])
      (simp_all add: val_ctx_def leader_vs_ok val_block_def val_meta_def r)
  then show ?thesis using val_accepted by simp
qed

theorem accepted_chain_capped_witness: "(\<Sum>h\<in>{6 :: nat}. reward_total val_batch) \<le> MAX_REWARD_SUPPLY"
  by (rule accepted_chain_capped [where blocks = "\<lambda>_. val_block" and ctxs = "\<lambda>_. val_ctx"])
    (use val_accepted in \<open>simp_all add: val_block_def val_meta_def\<close>)

theorem genesis_never_accepted_witness:
  "validate_full_block val_sig val_bext (val_block\<lparr>bl_metadata := val_meta\<lparr>m_index := 0\<rparr>\<rparr>) val_batch val_ctx \<noteq> Inr ()"
  using genesis_never_accepted [of "val_block\<lparr>bl_metadata := val_meta\<lparr>m_index := 0\<rparr>\<rparr>" val_sig val_bext val_batch val_ctx] by simp

end
