(* ===== verification/Ephemeral.thy ===== *)
theory Ephemeral
  imports LeaderSchedule
begin

text \<open>
  The registry of nodes that are present now (\<open>src/consensus/por_000_ephemeral_registration.rs\<close>): wallets with their join
  heights, peer identities, keys, tip snapshots and times, kept in memory, and the heartbeat rounds that decide who stays. A
  \<open>BTreeSet\<close> is a sorted list and a \<open>BTreeMap\<close> an ordered association list; a verifying key is its bytes. Every reading
  of the clock is an argument.
\<close>

section \<open>Helpers\<close>

definition eph_now_unix :: "int \<Rightarrow> nat" where
  "eph_now_unix clock = (case now_unix_secs_runtime clock of Inr t \<Rightarrow> t | Inl _ \<Rightarrow> 0)"

definition ensure_under_cap :: "nat \<Rightarrow> nat \<Rightarrow> unit result" where
  "ensure_under_cap cur cap =
     (if cur \<ge> cap then Inl (ValidationError ''Ephemeral registry cap reached'') else Inr ())"

definition validate_peer_id_b58 :: "rstr \<Rightarrow> unit result" where
  "validate_peer_id_b58 peer_id_b58 =
     (if peer_id_b58 = [] then Inl (ValidationError ''peer_id_b58 is empty'')
      else if str_len peer_id_b58 > MAX_PEER_ID_B58_LEN then Inl (ValidationError ''peer_id_b58 too long'')
      else if \<not> is_ascii peer_id_b58 then Inl (ValidationError ''peer_id_b58 must be ASCII'')
      else Inr ())"

definition canon_sort :: "rstr list \<Rightarrow> rstr list" where
  "canon_sort v = sort_key (\<lambda>a. (to_ascii_lowercase a, a)) v"

definition derive_wallet_id_from_pubkey_bytes :: "Ext \<Rightarrow> byte list \<Rightarrow> rstr" where
  "derive_wallet_id_from_pubkey_bytes E pk_bytes = lit ''r'' @ hex_encode E (blake3_xof64 E pk_bytes)"

definition addr_from_vk :: "Ext \<Rightarrow> byte list \<Rightarrow> rstr" where
  "addr_from_vk E vk = derive_wallet_id_from_pubkey_bytes E vk"

section \<open>The registry\<close>

record EphemeralRegistry =
  er_wallets :: "rstr list"
  er_join_heights :: "(rstr \<times> nat) list"
  er_identity_map :: "(rstr \<times> rstr) list"
  er_verifying_keys :: "(rstr \<times> byte list) list"
  er_heartbeat_round_seen :: "rstr list"
  er_tip_snapshots :: "(rstr \<times> nat) list"
  er_last_seen_at :: "(rstr \<times> nat) list"
  er_joined_at :: "(rstr \<times> nat) list"

definition ephemeral_new :: EphemeralRegistry where
  "ephemeral_new = \<lparr>er_wallets = [], er_join_heights = [], er_identity_map = [], er_verifying_keys = [],
     er_heartbeat_round_seen = [], er_tip_snapshots = [], er_last_seen_at = [], er_joined_at = []\<rparr>"

definition ephemeral_clear :: "EphemeralRegistry \<Rightarrow> EphemeralRegistry" where
  "ephemeral_clear r = r\<lparr>er_wallets := [], er_join_heights := [], er_identity_map := [], er_verifying_keys := [],
     er_heartbeat_round_seen := [], er_tip_snapshots := [], er_last_seen_at := [], er_joined_at := []\<rparr>"

definition sorted_wallets :: "EphemeralRegistry \<Rightarrow> rstr list" where
  "sorted_wallets r = canon_sort (er_wallets r)"

definition is_registered :: "rstr \<Rightarrow> EphemeralRegistry \<Rightarrow> bool" where
  "is_registered addr r = (case canon_wallet_id_checked addr of Inr can \<Rightarrow> can \<in> set (er_wallets r) | Inl _ \<Rightarrow> False)"

definition wallet_for_peer :: "rstr \<Rightarrow> EphemeralRegistry \<Rightarrow> rstr option" where
  "wallet_for_peer peer_id_b58 r = map_of (er_identity_map r) peer_id_b58"

definition tip_snapshot :: "rstr \<Rightarrow> EphemeralRegistry \<Rightarrow> nat option" where
  "tip_snapshot addr r = (case canon_wallet_id_checked addr of Inr can \<Rightarrow> map_of (er_tip_snapshots r) can | Inl _ \<Rightarrow> None)"

definition has_recent_tip_snapshot :: "rstr \<Rightarrow> nat \<Rightarrow> EphemeralRegistry \<Rightarrow> bool" where
  "has_recent_tip_snapshot addr min_tip r = (case tip_snapshot addr r of Some tip \<Rightarrow> tip \<ge> min_tip | None \<Rightarrow> False)"

definition max_tip_snapshot :: "EphemeralRegistry \<Rightarrow> nat option" where
  "max_tip_snapshot r = (case map snd (er_tip_snapshots r) of [] \<Rightarrow> None | t # ts \<Rightarrow> Some (fold max ts t))"

definition wallets_with_tip_at_least :: "nat \<Rightarrow> EphemeralRegistry \<Rightarrow> rstr list" where
  "wallets_with_tip_at_least min_tip r =
     filter (\<lambda>w. (case map_of (er_tip_snapshots r) w of Some t \<Rightarrow> t | None \<Rightarrow> 0) \<ge> min_tip) (sorted_wallets r)"

text \<open>\<open>entry(k).or_insert(v)\<close>.\<close>

definition bt_or_insert :: "'k :: linorder \<Rightarrow> 'v \<Rightarrow> ('k \<times> 'v) list \<Rightarrow> ('k \<times> 'v) list" where
  "bt_or_insert k v m = (if map_of m k = None then bt_insert k v m else m)"

text \<open>What the two registrations and a heartbeat have in common: the wallet is present, seen in this round and now.\<close>

definition enter_wallet :: "rstr \<Rightarrow> nat \<Rightarrow> nat \<Rightarrow> EphemeralRegistry \<Rightarrow> EphemeralRegistry" where
  "enter_wallet addr join_height now r =
     r\<lparr>er_wallets := bset_insert addr (er_wallets r),
       er_join_heights := bt_or_insert addr join_height (er_join_heights r),
       er_heartbeat_round_seen := bset_insert addr (er_heartbeat_round_seen r),
       er_last_seen_at := bt_insert addr now (er_last_seen_at r),
       er_joined_at := bt_or_insert addr now (er_joined_at r)\<rparr>"

definition register_wallet_strict :: "int \<Rightarrow> rstr \<Rightarrow> nat \<Rightarrow> (EphemeralRegistry, rstr) sm" where
  "register_wallet_strict clock wallet_addr join_height =
     bindS (readS (\<lambda>r. ensure_under_cap (length (er_wallets r)) MAX_VALIDATORS)) (\<lambda>_.
     bindS (readS (\<lambda>_. canon_wallet_id_checked wallet_addr)) (\<lambda>addr r.
     if addr \<in> set (er_wallets r) then (Inl (ValidationError ''Wallet already registered (ephemeral)''), r)
     else (Inr addr, enter_wallet addr join_height (eph_now_unix clock) r)))"

definition register_wallet_from_vk :: "Ext \<Rightarrow> int \<Rightarrow> byte list \<Rightarrow> nat \<Rightarrow> (EphemeralRegistry, rstr) sm" where
  "register_wallet_from_vk E clock vk join_height =
     bindS (readS (\<lambda>r. ensure_under_cap (length (er_wallets r)) MAX_VALIDATORS)) (\<lambda>_.
     bindS (readS (\<lambda>r. ensure_under_cap (length (er_verifying_keys r)) MAX_VERIFYING_KEYS)) (\<lambda>_ r.
     let addr = addr_from_vk E vk in
     if addr \<in> set (er_wallets r) then (Inl (ValidationError ''Wallet already registered (ephemeral)''), r)
     else (Inr addr, (enter_wallet addr join_height (eph_now_unix clock) r)
                       \<lparr>er_verifying_keys := bt_insert addr vk (er_verifying_keys r)\<rparr>)))"

definition associate_identity :: "rstr \<Rightarrow> rstr \<Rightarrow> (EphemeralRegistry, unit) sm" where
  "associate_identity peer_id_b58 wallet_addr =
     bindS (readS (\<lambda>_. validate_peer_id_b58 peer_id_b58)) (\<lambda>_.
     bindS (readS (\<lambda>r. ensure_under_cap (length (er_identity_map r)) MAX_IDENTITIES)) (\<lambda>_.
     bindS (readS (\<lambda>_. canon_wallet_id_checked wallet_addr)) (\<lambda>can r.
     if can \<notin> set (er_wallets r) then (Inl (ValidationError ''Wallet is not registered (ephemeral)''), r)
     else (Inr (), r\<lparr>er_identity_map := bt_insert peer_id_b58 can (er_identity_map r)\<rparr>))))"

definition set_join_height :: "rstr \<Rightarrow> nat \<Rightarrow> (EphemeralRegistry, unit) sm" where
  "set_join_height wallet_addr height =
     bindS (readS (\<lambda>_. canon_wallet_id_checked wallet_addr)) (\<lambda>can r.
     if can \<notin> set (er_wallets r) then (Inl (ValidationError ''Wallet is not registered (ephemeral)''), r)
     else (Inr (), r\<lparr>er_join_heights := bt_or_insert can height (er_join_heights r)\<rparr>))"

definition set_tip_snapshot :: "rstr \<Rightarrow> nat \<Rightarrow> (EphemeralRegistry, unit) sm" where
  "set_tip_snapshot wallet_addr tip =
     bindS (readS (\<lambda>_. canon_wallet_id_checked wallet_addr)) (\<lambda>can r.
     if can \<notin> set (er_wallets r) then (Inl (ValidationError ''Wallet is not registered (ephemeral)''), r)
     else (Inr (), r\<lparr>er_tip_snapshots := bt_insert can tip (er_tip_snapshots r)\<rparr>))"

definition ephemeral_eligible :: "rstr \<Rightarrow> nat \<Rightarrow> EphemeralRegistry \<Rightarrow> bool" where
  "ephemeral_eligible addr at_height r =
     (case canon_wallet_id_checked addr of
        Inl _ \<Rightarrow> False
      | Inr can \<Rightarrow>
          (case map_of (er_join_heights r) can of
             Some jh \<Rightarrow> at_height \<ge> saturating_add 64 jh REWARD_DELAY_BLOCKS
           | None \<Rightarrow> False))"

definition lookup_verifying_key :: "rstr \<Rightarrow> EphemeralRegistry \<Rightarrow> byte list option" where
  "lookup_verifying_key addr r =
     (case canon_wallet_id_checked addr of Inr can \<Rightarrow> map_of (er_verifying_keys r) can | Inl _ \<Rightarrow> None)"

section \<open>Removal\<close>

definition drop_wallet :: "rstr \<Rightarrow> EphemeralRegistry \<Rightarrow> EphemeralRegistry" where
  "drop_wallet addr r =
     r\<lparr>er_wallets := removeAll addr (er_wallets r),
       er_join_heights := bt_remove addr (er_join_heights r),
       er_verifying_keys := bt_remove addr (er_verifying_keys r),
       er_heartbeat_round_seen := removeAll addr (er_heartbeat_round_seen r),
       er_tip_snapshots := bt_remove addr (er_tip_snapshots r),
       er_last_seen_at := bt_remove addr (er_last_seen_at r),
       er_joined_at := bt_remove addr (er_joined_at r),
       er_identity_map := filter (\<lambda>(_, w). w \<noteq> addr) (er_identity_map r)\<rparr>"

definition unregister_wallet :: "rstr \<Rightarrow> EphemeralRegistry \<Rightarrow> bool \<times> EphemeralRegistry" where
  "unregister_wallet wallet_addr r =
     (case canon_wallet_id_checked wallet_addr of
        Inl _ \<Rightarrow> (False, r)
      | Inr addr \<Rightarrow> if addr \<in> set (er_wallets r) then (True, drop_wallet addr r) else (False, r))"

definition unregister_by_peer :: "rstr \<Rightarrow> EphemeralRegistry \<Rightarrow> rstr option \<times> EphemeralRegistry" where
  "unregister_by_peer peer_id_b58 r =
     (case validate_peer_id_b58 peer_id_b58 of
        Inl _ \<Rightarrow> (None, r)
      | Inr _ \<Rightarrow>
          (case map_of (er_identity_map r) peer_id_b58 of
             None \<Rightarrow> (None, r)
           | Some addr \<Rightarrow> (Some addr, drop_wallet addr (r\<lparr>er_identity_map := bt_remove peer_id_b58 (er_identity_map r)\<rparr>))))"

definition evict_inactive_validators :: "int \<Rightarrow> nat \<Rightarrow> nat \<Rightarrow> EphemeralRegistry \<Rightarrow> EphemeralRegistry" where
  "evict_inactive_validators clock max_inactive boot_grace r =
     (let now = eph_now_unix clock;
          time_in = (\<lambda>m wallet. case map_of m wallet of Some t \<Rightarrow> t | None \<Rightarrow> (0 :: nat));
          to_evict = filter (\<lambda>wallet.
            \<not> saturating_sub now (time_in (er_joined_at r) wallet) \<le> boot_grace \<and>
            saturating_sub now (time_in (er_last_seen_at r) wallet) > max_inactive) (er_wallets r) in
      fold drop_wallet to_evict r)"

section \<open>Heartbeat rounds\<close>

definition begin_heartbeat_round :: "EphemeralRegistry \<Rightarrow> EphemeralRegistry" where
  "begin_heartbeat_round r = r\<lparr>er_heartbeat_round_seen := []\<rparr>"

definition note_heartbeat_round :: "int \<Rightarrow> rstr \<Rightarrow> nat \<Rightarrow> (EphemeralRegistry, rstr) sm" where
  "note_heartbeat_round clock wallet_addr tip =
     bindS (readS (\<lambda>r. ensure_under_cap (length (er_wallets r)) MAX_VALIDATORS)) (\<lambda>_.
     bindS (readS (\<lambda>_. canon_wallet_id_checked wallet_addr)) (\<lambda>addr r.
     (Inr addr, (enter_wallet addr 0 (eph_now_unix clock) r)
        \<lparr>er_tip_snapshots := bt_insert addr tip (er_tip_snapshots r)\<rparr>)))"

definition finalize_heartbeat_round :: "EphemeralRegistry \<Rightarrow> EphemeralRegistry" where
  "finalize_heartbeat_round r =
     (if er_heartbeat_round_seen r = [] then
        r\<lparr>er_wallets := [], er_join_heights := [], er_identity_map := [], er_verifying_keys := [],
          er_tip_snapshots := [], er_last_seen_at := [], er_joined_at := []\<rparr>
      else
        (let wallets = filter (\<lambda>addr. addr \<in> set (er_heartbeat_round_seen r)) (er_wallets r) in
         r\<lparr>er_wallets := wallets,
           er_join_heights := filter (\<lambda>e. fst e \<in> set wallets) (er_join_heights r),
           er_verifying_keys := filter (\<lambda>e. fst e \<in> set wallets) (er_verifying_keys r),
           er_tip_snapshots := filter (\<lambda>e. fst e \<in> set wallets) (er_tip_snapshots r),
           er_identity_map := filter (\<lambda>e. snd e \<in> set wallets) (er_identity_map r),
           er_last_seen_at := filter (\<lambda>e. fst e \<in> set wallets) (er_last_seen_at r),
           er_joined_at := filter (\<lambda>e. fst e \<in> set wallets) (er_joined_at r)\<rparr>))"

section \<open>Snapshots\<close>

definition snapshot_wallets_and_heights :: "EphemeralRegistry \<Rightarrow> (rstr \<times> nat) list" where
  "snapshot_wallets_and_heights r =
     map (\<lambda>w. (w, case map_of (er_join_heights r) w of Some h \<Rightarrow> h | None \<Rightarrow> 0)) (sorted_wallets r)"

type_synonym snapshot_entry = "rstr \<times> byte list option \<times> nat"

definition register_entry :: "Ext \<Rightarrow> int \<Rightarrow> snapshot_entry \<Rightarrow> (EphemeralRegistry, rstr) sm" where
  "register_entry E clock e =
     (case e of (wallet, vk_opt, join_height) \<Rightarrow>
        (case vk_opt of
           Some vk \<Rightarrow> register_wallet_from_vk E clock vk join_height
         | None \<Rightarrow> register_wallet_strict clock wallet join_height))"

definition refresh_times :: "int \<Rightarrow> rstr \<Rightarrow> EphemeralRegistry \<Rightarrow> EphemeralRegistry" where
  "refresh_times clock addr r =
     (let now = eph_now_unix clock in
      r\<lparr>er_last_seen_at := bt_insert addr now (er_last_seen_at r), er_joined_at := bt_or_insert addr now (er_joined_at r)\<rparr>)"

fun rebuild_loop :: "Ext \<Rightarrow> nat \<Rightarrow> (snapshot_entry \<times> int \<times> int) list \<Rightarrow> EphemeralRegistry \<Rightarrow> EphemeralRegistry" where
  "rebuild_loop E applied [] r = r"
| "rebuild_loop E applied ((e, clock, clock') # es) r =
     (if applied \<ge> MAX_SNAPSHOT_ENTRIES then r
      else (case register_entry E clock e r of
          (Inr addr, r') \<Rightarrow> rebuild_loop E (saturating_add 64 applied 1) es (refresh_times clock' addr r')
        | (Inl _, r') \<Rightarrow> rebuild_loop E applied es r'))"

definition rebuild_from_snapshot :: "Ext \<Rightarrow> (snapshot_entry \<times> int \<times> int) list \<Rightarrow> EphemeralRegistry \<Rightarrow> EphemeralRegistry" where
  "rebuild_from_snapshot E entries r = rebuild_loop E 0 entries (ephemeral_clear r)"

fun rebuild_checked_loop :: "Ext \<Rightarrow> nat \<Rightarrow> (snapshot_entry \<times> int \<times> int) list \<Rightarrow> (EphemeralRegistry, unit) sm" where
  "rebuild_checked_loop E applied [] r = (Inr (), r)"
| "rebuild_checked_loop E applied ((e, clock, clock') # es) r =
     (if applied \<ge> MAX_SNAPSHOT_ENTRIES then (Inl (ValidationError ''Snapshot too large''), r)
      else (case register_entry E clock e r of
          (Inr addr, r') \<Rightarrow> rebuild_checked_loop E (saturating_add 64 applied 1) es (refresh_times clock' addr r')
        | (Inl _, r') \<Rightarrow> (Inl (ValidationError ''Snapshot entry failed''), r')))"

definition rebuild_from_snapshot_checked :: "Ext \<Rightarrow> (snapshot_entry \<times> int \<times> int) list \<Rightarrow> (EphemeralRegistry, unit) sm" where
  "rebuild_from_snapshot_checked E entries r = rebuild_checked_loop E 0 entries (ephemeral_clear r)"

section \<open>The shared handle\<close>

text \<open>\<open>NodeEphemeral\<close> holds the registry behind a mutex. A lock that is poisoned, because a thread panicked while it
  held it, gives an error or the neutral answer.\<close>

record NodeEphemeral =
  ne_inner :: EphemeralRegistry
  ne_poisoned :: bool

definition node_new :: NodeEphemeral where
  "node_new = \<lparr>ne_inner = ephemeral_new, ne_poisoned = False\<rparr>"

definition node_from_registry :: "EphemeralRegistry \<Rightarrow> NodeEphemeral" where
  "node_from_registry reg = \<lparr>ne_inner = reg, ne_poisoned = False\<rparr>"

definition locked :: "string \<Rightarrow> (EphemeralRegistry, 'a) sm \<Rightarrow> (NodeEphemeral, 'a) sm" where
  "locked poison f n =
     (if ne_poisoned n then (Inl (ValidationError poison), n)
      else (case f (ne_inner n) of (res, r) \<Rightarrow> (res, n\<lparr>ne_inner := r\<rparr>)))"

definition mutex_poison_error :: string where
  "mutex_poison_error = ''EphemeralRegistry mutex poisoned''"

definition locked_update :: "(EphemeralRegistry \<Rightarrow> EphemeralRegistry) \<Rightarrow> NodeEphemeral \<Rightarrow> NodeEphemeral" where
  "locked_update f n = (if ne_poisoned n then n else n\<lparr>ne_inner := f (ne_inner n)\<rparr>)"

definition locked_result :: "string \<Rightarrow> (EphemeralRegistry \<Rightarrow> EphemeralRegistry) \<Rightarrow> (NodeEphemeral, unit) sm" where
  "locked_result poison f = locked poison (\<lambda>r. (Inr (), f r))"

definition locked_read :: "'a \<Rightarrow> (EphemeralRegistry \<Rightarrow> 'a) \<Rightarrow> NodeEphemeral \<Rightarrow> 'a" where
  "locked_read d f n = (if ne_poisoned n then d else f (ne_inner n))"

definition boot_clear :: "NodeEphemeral \<Rightarrow> NodeEphemeral" where
  "boot_clear = locked_update ephemeral_clear"

definition boot_clear_result :: "(NodeEphemeral, unit) sm" where
  "boot_clear_result = locked_result ''EphemeralRegistry mutex poisoned (boot_clear)'' ephemeral_clear"

definition node_register_wallet_strict :: "int \<Rightarrow> rstr \<Rightarrow> nat \<Rightarrow> (NodeEphemeral, rstr) sm" where
  "node_register_wallet_strict clock wallet_addr join_height =
     locked mutex_poison_error (register_wallet_strict clock wallet_addr join_height)"

definition node_register_wallet_from_vk :: "Ext \<Rightarrow> int \<Rightarrow> byte list \<Rightarrow> nat \<Rightarrow> (NodeEphemeral, rstr) sm" where
  "node_register_wallet_from_vk E clock vk join_height =
     locked mutex_poison_error (register_wallet_from_vk E clock vk join_height)"

definition map_peer_identity :: "rstr \<Rightarrow> rstr \<Rightarrow> (NodeEphemeral, unit) sm" where
  "map_peer_identity peer_id_b58 wallet_addr = locked mutex_poison_error (associate_identity peer_id_b58 wallet_addr)"

definition node_set_join_height :: "rstr \<Rightarrow> nat \<Rightarrow> (NodeEphemeral, unit) sm" where
  "node_set_join_height wallet_addr height = locked mutex_poison_error (set_join_height wallet_addr height)"

definition node_set_tip_snapshot :: "rstr \<Rightarrow> nat \<Rightarrow> (NodeEphemeral, unit) sm" where
  "node_set_tip_snapshot wallet_addr tip = locked mutex_poison_error (set_tip_snapshot wallet_addr tip)"

definition node_tip_snapshot :: "rstr \<Rightarrow> NodeEphemeral \<Rightarrow> nat option" where
  "node_tip_snapshot wallet_addr = locked_read None (tip_snapshot wallet_addr)"

definition node_max_tip_snapshot :: "NodeEphemeral \<Rightarrow> nat option" where
  "node_max_tip_snapshot = locked_read None max_tip_snapshot"

definition node_wallets_with_tip_at_least :: "nat \<Rightarrow> NodeEphemeral \<Rightarrow> rstr list" where
  "node_wallets_with_tip_at_least min_tip = locked_read [] (wallets_with_tip_at_least min_tip)"

definition seed_from_chain_snapshot :: "Ext \<Rightarrow> (snapshot_entry \<times> int \<times> int) list \<Rightarrow> NodeEphemeral \<Rightarrow> NodeEphemeral" where
  "seed_from_chain_snapshot E entries = locked_update (rebuild_from_snapshot E entries)"

definition seed_from_chain_snapshot_checked :: "Ext \<Rightarrow> (snapshot_entry \<times> int \<times> int) list \<Rightarrow> (NodeEphemeral, unit) sm" where
  "seed_from_chain_snapshot_checked E entries =
     locked ''EphemeralRegistry mutex poisoned (seed_from_chain_snapshot_checked)'' (rebuild_from_snapshot_checked E entries)"

definition node_evict_inactive_validators :: "int \<Rightarrow> nat \<Rightarrow> nat \<Rightarrow> NodeEphemeral \<Rightarrow> NodeEphemeral" where
  "node_evict_inactive_validators clock max_inactive boot_grace =
     locked_update (evict_inactive_validators clock max_inactive boot_grace)"

definition evict_inactive_validators_result :: "int \<Rightarrow> nat \<Rightarrow> nat \<Rightarrow> (NodeEphemeral, unit) sm" where
  "evict_inactive_validators_result clock max_inactive boot_grace =
     locked_result ''EphemeralRegistry mutex poisoned (evict_inactive_validators)''
       (evict_inactive_validators clock max_inactive boot_grace)"

definition node_begin_heartbeat_round :: "NodeEphemeral \<Rightarrow> NodeEphemeral" where
  "node_begin_heartbeat_round = locked_update begin_heartbeat_round"

definition begin_heartbeat_round_result :: "(NodeEphemeral, unit) sm" where
  "begin_heartbeat_round_result =
     locked_result ''EphemeralRegistry mutex poisoned (begin_heartbeat_round)'' begin_heartbeat_round"

definition node_note_heartbeat_round :: "int \<Rightarrow> rstr \<Rightarrow> nat \<Rightarrow> (NodeEphemeral, rstr) sm" where
  "node_note_heartbeat_round clock wallet_addr tip =
     locked mutex_poison_error (note_heartbeat_round clock wallet_addr tip)"

definition node_finalize_heartbeat_round :: "NodeEphemeral \<Rightarrow> NodeEphemeral" where
  "node_finalize_heartbeat_round = locked_update finalize_heartbeat_round"

definition finalize_heartbeat_round_result :: "(NodeEphemeral, unit) sm" where
  "finalize_heartbeat_round_result =
     locked_result ''EphemeralRegistry mutex poisoned (finalize_heartbeat_round)'' finalize_heartbeat_round"

definition node_unregister_by_peer :: "rstr \<Rightarrow> NodeEphemeral \<Rightarrow> rstr option \<times> NodeEphemeral" where
  "node_unregister_by_peer peer_id_b58 n =
     (if ne_poisoned n then (None, n)
      else (case unregister_by_peer peer_id_b58 (ne_inner n) of (removed, r) \<Rightarrow> (removed, n\<lparr>ne_inner := r\<rparr>)))"

definition node_unregister_wallet :: "rstr \<Rightarrow> NodeEphemeral \<Rightarrow> bool \<times> NodeEphemeral" where
  "node_unregister_wallet wallet_addr n =
     (if ne_poisoned n then (False, n)
      else (case unregister_wallet wallet_addr (ne_inner n) of (removed, r) \<Rightarrow> (removed, n\<lparr>ne_inner := r\<rparr>)))"

end
