(* ===== verification/EphemeralProps.thy ===== *)
theory EphemeralProps
  imports Ephemeral
begin

text \<open>
  The registry of present nodes stays coherent under all its operations, and a heartbeat round keeps exactly the wallets that
  were heard, as long as the registry is not full.
\<close>

section \<open>Coherence\<close>

text \<open>A map keyed by exactly the given wallets.\<close>

definition keyed :: "rstr set \<Rightarrow> (rstr \<times> 'v) list \<Rightarrow> bool" where
  "keyed ws m \<longleftrightarrow> bt_wf m \<and> fst ` set m = ws"

definition keyed_within :: "rstr set \<Rightarrow> (rstr \<times> 'v) list \<Rightarrow> bool" where
  "keyed_within ws m \<longleftrightarrow> bt_wf m \<and> fst ` set m \<subseteq> ws"

definition is_bset :: "rstr list \<Rightarrow> bool" where
  "is_bset xs \<longleftrightarrow> sorted xs \<and> distinct xs"

definition eph_ok :: "EphemeralRegistry \<Rightarrow> bool" where
  "eph_ok r \<longleftrightarrow> is_bset (er_wallets r) \<and> is_bset (er_heartbeat_round_seen r) \<and>
     set (er_heartbeat_round_seen r) \<subseteq> set (er_wallets r) \<and>
     keyed (set (er_wallets r)) (er_join_heights r) \<and> keyed (set (er_wallets r)) (er_last_seen_at r) \<and>
     keyed (set (er_wallets r)) (er_joined_at r) \<and> keyed_within (set (er_wallets r)) (er_tip_snapshots r) \<and>
     keyed_within (set (er_wallets r)) (er_verifying_keys r) \<and>
     bt_wf (er_identity_map r) \<and> snd ` set (er_identity_map r) \<subseteq> set (er_wallets r) \<and>
     length (er_wallets r) \<le> MAX_VALIDATORS \<and> length (er_identity_map r) \<le> MAX_IDENTITIES"

lemma is_bset_simps [simp]:
  "is_bset []" "is_bset xs \<Longrightarrow> is_bset (bset_insert x xs)" "is_bset xs \<Longrightarrow> is_bset (removeAll x xs)"
  "is_bset xs \<Longrightarrow> is_bset (filter P xs)"
  by (auto simp: is_bset_def bset_insert_def sorted_insort_insert distinct_insort_insert sorted_filter [of "\<lambda>x. x", simplified]
      distinct_removeAll removeAll_filter_not_eq)

lemma set_bset_insert [simp]: "set (bset_insert x xs) = insert x (set xs)"
  by (simp add: bset_insert_def set_insort_insert)

lemma length_bset_insert: "length (bset_insert x xs) = (if x \<in> set xs then length xs else Suc (length xs))"
  by (simp add: bset_insert_def insort_insert_key_def)

lemma fst_bt_or_insert: "fst ` set (bt_or_insert k v m) = insert k (fst ` set m)"
  by (cases "map_of m k") (auto simp: bt_or_insert_def fst_set_bt_insert map_of_eq_None_iff dest!: map_of_SomeD intro: rev_image_eqI)

lemma fst_bt_remove: "fst ` set (bt_remove k m) = fst ` set m - {k}"
  by (auto simp: bt_remove_def)

lemma fst_filter: "fst ` set (filter (\<lambda>e. fst e \<in> W) m) = fst ` set m \<inter> W"
  by auto

lemma keyed_simps [simp]:
  "keyed {} []" "keyed_within W []"
  "keyed W m \<Longrightarrow> keyed (insert k W) (bt_insert k v m)" "keyed W m \<Longrightarrow> keyed (insert k W) (bt_or_insert k v m)"
  "keyed W m \<Longrightarrow> keyed (W - {k}) (bt_remove k m)" "keyed W m \<Longrightarrow> keyed (W \<inter> V) (filter (\<lambda>e. fst e \<in> V) m)"
  "keyed_within W m \<Longrightarrow> keyed_within (insert k W) (bt_insert k v m)" "keyed_within W m \<Longrightarrow> keyed_within (insert k W) m"
  "keyed_within W m \<Longrightarrow> keyed_within (W - {k}) (bt_remove k m)"
  "keyed_within W m \<Longrightarrow> keyed_within (W \<inter> V) (filter (\<lambda>e. fst e \<in> V) m)"
  by (auto simp: keyed_def keyed_within_def fst_set_bt_insert fst_bt_or_insert fst_bt_remove bt_wf_filter)
    (auto simp: bt_or_insert_def)

lemma eph_new_ok: "eph_ok ephemeral_new"
  by (simp add: eph_ok_def ephemeral_new_def)

lemma eph_clear: "ephemeral_clear r = ephemeral_new"
  by (simp add: ephemeral_clear_def ephemeral_new_def EphemeralRegistry.equality)

lemma enter_ok: "eph_ok r \<Longrightarrow> length (er_wallets r) < MAX_VALIDATORS \<Longrightarrow> eph_ok (enter_wallet addr h now r)"
  by (auto simp: eph_ok_def enter_wallet_def length_bset_insert)

lemma drop_ok: "eph_ok r \<Longrightarrow> eph_ok (drop_wallet addr r)"
  by (auto simp: eph_ok_def drop_wallet_def bt_wf_filter intro!: le_trans [OF length_removeAll_less_eq] le_trans [OF length_filter_le])

lemma under_cap_Inr [res_simps]: "ensure_under_cap cur cap = Inr u \<longleftrightarrow> cur < cap"
  by (auto simp: ensure_under_cap_def)

lemma cap_bind:
  "bindS (readS (\<lambda>r. ensure_under_cap (n r) cap)) k r =
     (if n r < cap then k () r else (Inl (ValidationError ''Ephemeral registry cap reached''), r))"
  by (simp add: bindS_readS ensure_under_cap_def)

lemma fold_drop_ok: "eph_ok r \<Longrightarrow> eph_ok (fold drop_wallet ws r)"
  by (induction ws arbitrary: r) (simp_all add: drop_ok)

lemma register_strict_ok: "eph_ok r \<Longrightarrow> eph_ok (snd (register_wallet_strict clock w h r))"
  by (auto simp: register_wallet_strict_def cap_bind bindS_readS enter_ok split: sum.splits)

lemma register_vk_ok: "eph_ok r \<Longrightarrow> eph_ok (snd (register_wallet_from_vk E clock vk h r))"
  using enter_ok [of r] by (auto simp: register_wallet_from_vk_def cap_bind Let_def eph_ok_def enter_wallet_def)

lemma associate_ok:
  assumes "eph_ok r"
  shows "eph_ok (snd (associate_identity peer w r))"
proof -
  have "length (bt_insert peer can (er_identity_map r)) \<le> MAX_IDENTITIES" if "length (er_identity_map r) < MAX_IDENTITIES" for can
    using that length_bt_insert_le [of peer can "er_identity_map r"] by simp
  moreover have "snd ` set (bt_insert peer can (er_identity_map r)) \<subseteq> set (er_wallets r)" if "can \<in> set (er_wallets r)" for can
    using that assms list_all_bt_insert [of "\<lambda>w. w \<in> set (er_wallets r)" "er_identity_map r" can peer]
    by (auto simp: eph_ok_def list_all_iff)
  ultimately show ?thesis
    using assms by (auto simp: associate_identity_def cap_bind bindS_readS eph_ok_def split: sum.splits)
qed

lemma keyed_again:
  "keyed W m \<Longrightarrow> k \<in> W \<Longrightarrow> keyed W (bt_or_insert k v m)"
  "keyed_within W m \<Longrightarrow> k \<in> W \<Longrightarrow> keyed_within W (bt_insert k v m)"
  using keyed_simps(4,7) [of W m k v] by (simp_all add: insert_absorb)

lemma set_fields_ok:
  "eph_ok r \<Longrightarrow> eph_ok (snd (set_join_height w h r))" "eph_ok r \<Longrightarrow> eph_ok (snd (set_tip_snapshot w t r))"
  by (auto simp: set_join_height_def set_tip_snapshot_def bindS_readS eph_ok_def keyed_again split: sum.splits)

lemma unregister_ok: "eph_ok r \<Longrightarrow> eph_ok (snd (unregister_wallet w r))"
  by (auto simp: unregister_wallet_def drop_ok split: sum.splits)

lemma unregister_peer_ok:
  assumes "eph_ok r"
  shows "eph_ok (snd (unregister_by_peer peer r))"
proof -
  have "eph_ok (r\<lparr>er_identity_map := bt_remove peer (er_identity_map r)\<rparr>)"
    using assms le_trans [OF length_filter_le] by (auto simp: eph_ok_def bt_remove_def bt_wf_filter)
  then show ?thesis using assms by (auto simp: unregister_by_peer_def drop_ok split: sum.splits option.splits)
qed

lemma note_ok: "eph_ok r \<Longrightarrow> eph_ok (snd (note_heartbeat_round clock w t r))"
  using enter_ok [of r] by (auto simp: note_heartbeat_round_def cap_bind bindS_readS eph_ok_def enter_wallet_def split: sum.splits)

lemma finalize_ok: "eph_ok r \<Longrightarrow> eph_ok (finalize_heartbeat_round r)"
proof -
  assume ok: "eph_ok r"
  have k: "keyed {x\<in>W. x \<in> S} (filter (\<lambda>e. fst e \<in> W \<and> fst e \<in> S) m)" if "keyed W m" for W S and m :: "(rstr \<times> nat) list"
    using keyed_simps(6) [OF that, of "W \<inter> S"] by (simp add: Int_def)
  have kw: "keyed_within {x\<in>W. x \<in> S} (filter (\<lambda>e. fst e \<in> W \<and> fst e \<in> S) m)" if "keyed_within W m" for W S and m :: "(rstr \<times> byte list) list"
    using keyed_simps(10) [OF that, of "W \<inter> S"] by (simp add: Int_def)
  have kt: "keyed_within {x\<in>W. x \<in> S} (filter (\<lambda>e. fst e \<in> W \<and> fst e \<in> S) m)" if "keyed_within W m" for W S and m :: "(rstr \<times> nat) list"
    using keyed_simps(10) [OF that, of "W \<inter> S"] by (simp add: Int_def)
  have len: "length (filter P (er_wallets r)) \<le> MAX_VALIDATORS" "length (filter Q (er_identity_map r)) \<le> MAX_IDENTITIES" for P Q
    using ok length_filter_le le_trans unfolding eph_ok_def by blast+
  show ?thesis
    using ok len by (auto simp: finalize_heartbeat_round_def Let_def eph_ok_def k kw kt bt_wf_filter)
qed

section \<open>Reachable registries\<close>

inductive ephemeral_reachable :: "Ext \<Rightarrow> EphemeralRegistry \<Rightarrow> bool" for E where
  new: "ephemeral_reachable E ephemeral_new"
| register: "ephemeral_reachable E r \<Longrightarrow> ephemeral_reachable E (snd (register_wallet_strict clock w h r))"
| register_vk: "ephemeral_reachable E r \<Longrightarrow> ephemeral_reachable E (snd (register_wallet_from_vk E clock vk h r))"
| identity: "ephemeral_reachable E r \<Longrightarrow> ephemeral_reachable E (snd (associate_identity peer w r))"
| join_height: "ephemeral_reachable E r \<Longrightarrow> ephemeral_reachable E (snd (set_join_height w h r))"
| tip: "ephemeral_reachable E r \<Longrightarrow> ephemeral_reachable E (snd (set_tip_snapshot w h r))"
| unregister: "ephemeral_reachable E r \<Longrightarrow> ephemeral_reachable E (snd (unregister_wallet w r))"
| unregister_peer: "ephemeral_reachable E r \<Longrightarrow> ephemeral_reachable E (snd (unregister_by_peer peer r))"
| evict: "ephemeral_reachable E r \<Longrightarrow> ephemeral_reachable E (evict_inactive_validators clock m g r)"
| begin_round: "ephemeral_reachable E r \<Longrightarrow> ephemeral_reachable E (begin_heartbeat_round r)"
| heartbeat: "ephemeral_reachable E r \<Longrightarrow> ephemeral_reachable E (snd (note_heartbeat_round clock w t r))"
| end_round: "ephemeral_reachable E r \<Longrightarrow> ephemeral_reachable E (finalize_heartbeat_round r)"

lemma ephemeral_reachable_ok: "ephemeral_reachable E r \<Longrightarrow> eph_ok r"
proof (induction rule: ephemeral_reachable.induct)
  case (begin_round r)
  then show ?case by (simp add: begin_heartbeat_round_def eph_ok_def)
qed (simp_all add: eph_new_ok register_strict_ok register_vk_ok associate_ok set_fields_ok unregister_ok unregister_peer_ok
    evict_inactive_validators_def Let_def fold_drop_ok note_ok finalize_ok)

section \<open>Rounds\<close>

type_synonym heartbeat = "int \<times> rstr \<times> nat"

definition heartbeats :: "heartbeat list \<Rightarrow> EphemeralRegistry \<Rightarrow> EphemeralRegistry" where
  "heartbeats hs r = fold (\<lambda>(clock, w, t) r. snd (note_heartbeat_round clock w t r)) hs r"

text \<open>The canonical wallets of a list of heartbeats with their tips, in the order they were heard.\<close>

definition heard_tips :: "heartbeat list \<Rightarrow> (rstr \<times> nat) list" where
  "heard_tips hs = concat (map (\<lambda>(clock, w, t). case canon_wallet_id_checked w of Inr can \<Rightarrow> [(can, t)] | Inl _ \<Rightarrow> []) hs)"

definition heard :: "heartbeat list \<Rightarrow> rstr set" where
  "heard hs = fst ` set (heard_tips hs)"

lemma heartbeats_simps:
  "heartbeats [] r = r" "heartbeats ((clock, w, t) # hs) r = heartbeats hs (snd (note_heartbeat_round clock w t r))"
  by (simp_all add: heartbeats_def)

lemma heard_Cons:
  "heard_tips ((clock, w, t) # hs) = (case canon_wallet_id_checked w of Inr can \<Rightarrow> (can, t) # heard_tips hs | Inl _ \<Rightarrow> heard_tips hs)"
  "heard ((clock, w, t) # hs) = (case canon_wallet_id_checked w of Inr can \<Rightarrow> insert can (heard hs) | Inl _ \<Rightarrow> heard hs)"
  by (simp_all add: heard_tips_def heard_def split: sum.splits)

lemma heard_Nil: "heard_tips [] = []" "heard [] = {}"
  by (simp_all add: heard_tips_def heard_def)

lemma finite_heard: "finite (heard hs)"
  by (simp add: heard_def)

definition or_zero :: "rstr set \<Rightarrow> (rstr \<Rightarrow> nat option) \<Rightarrow> rstr \<Rightarrow> nat option" where
  "or_zero W f w = (case f w of Some h \<Rightarrow> Some h | None \<Rightarrow> if w \<in> W then Some 0 else None)"

lemma heartbeats_spec:
  assumes "eph_ok r" and "card (set (er_wallets r) \<union> heard hs) < MAX_VALIDATORS"
  shows "eph_ok (heartbeats hs r) \<and> set (er_wallets (heartbeats hs r)) = set (er_wallets r) \<union> heard hs \<and>
    set (er_heartbeat_round_seen (heartbeats hs r)) = set (er_heartbeat_round_seen r) \<union> heard hs \<and>
    map_of (er_join_heights (heartbeats hs r)) = or_zero (heard hs) (map_of (er_join_heights r)) \<and>
    map_of (er_tip_snapshots (heartbeats hs r)) = map_of (er_tip_snapshots r) ++ map_of (rev (heard_tips hs)) \<and>
    er_identity_map (heartbeats hs r) = er_identity_map r \<and> er_verifying_keys (heartbeats hs r) = er_verifying_keys r"
  using assms
proof (induction hs arbitrary: r)
  case Nil
  then show ?case by (auto simp: heartbeats_simps heard_Nil or_zero_def fun_eq_iff split: option.splits)
next
  case (Cons h hs)
  obtain clock w t where h: "h = (clock, w, t)" by (cases h) auto
  show ?case
  proof (cases "canon_wallet_id_checked w")
    case (Inl e)
    then have "snd (note_heartbeat_round clock w t r) = r"
      by (simp add: note_heartbeat_round_def cap_bind bindS_readS)
    then show ?thesis using Cons.IH [OF Cons.prems(1)] Cons.prems(2) by (simp add: h heartbeats_simps heard_Cons Inl)
  next
    case (Inr can)
    let ?r = "snd (note_heartbeat_round clock w t r)"
    have dist: "length (er_wallets r) = card (set (er_wallets r))"
      using Cons.prems(1) by (simp add: eph_ok_def is_bset_def distinct_card)
    also have "\<dots> \<le> card (set (er_wallets r) \<union> heard (h # hs))"
      by (rule card_mono) (simp_all add: finite_heard)
    finally have cap: "length (er_wallets r) < MAX_VALIDATORS" using Cons.prems(2) by simp
    have eq: "?r = (enter_wallet can 0 (eph_now_unix clock) r)\<lparr>er_tip_snapshots := bt_insert can t (er_tip_snapshots r)\<rparr>"
      using cap by (simp add: note_heartbeat_round_def cap_bind bindS_readS Inr)
    have W: "set (er_wallets ?r) = insert can (set (er_wallets r))" by (simp add: eq enter_wallet_def)
    then have "set (er_wallets ?r) \<union> heard hs = set (er_wallets r) \<union> heard (h # hs)" by (auto simp: h heard_Cons Inr)
    then have IH: "card (set (er_wallets ?r) \<union> heard hs) < MAX_VALIDATORS" using Cons.prems(2) by simp
    have join: "map_of (er_join_heights ?r) = or_zero {can} (map_of (er_join_heights r))"
      by (auto simp: eq enter_wallet_def bt_or_insert_def or_zero_def fun_eq_iff split: option.splits)
    have tips: "map_of (er_tip_snapshots ?r) = (map_of (er_tip_snapshots r))(can \<mapsto> t)"
      by (auto simp: eq fun_eq_iff)
    show ?thesis
      using Cons.IH [OF note_ok [OF Cons.prems(1)] IH] W join tips
      by (auto simp: h heartbeats_simps heard_Cons Inr or_zero_def fun_eq_iff map_add_def eq enter_wallet_def split: option.splits)
  qed
qed

lemma finalize_seen:
  assumes "eph_ok r"
  shows "er_wallets (finalize_heartbeat_round r) = er_heartbeat_round_seen r \<and>
    map_of (er_join_heights (finalize_heartbeat_round r)) = map_of (er_join_heights r) |` set (er_heartbeat_round_seen r) \<and>
    map_of (er_tip_snapshots (finalize_heartbeat_round r)) = map_of (er_tip_snapshots r) |` set (er_heartbeat_round_seen r) \<and>
    er_identity_map (finalize_heartbeat_round r) = filter (\<lambda>e. snd e \<in> set (er_heartbeat_round_seen r)) (er_identity_map r)"
proof -
  have f: "map_of (filter (\<lambda>e. fst e \<in> S) m) = map_of m |` S" for S and m :: "(rstr \<times> nat) list"
    by (induction m) (auto simp: fun_eq_iff restrict_map_def)
  have b: "is_bset (er_wallets r)" "is_bset (er_heartbeat_round_seen r)" "set (er_heartbeat_round_seen r) \<subseteq> set (er_wallets r)"
    using assms by (auto simp: eph_ok_def)
  then have "filter (\<lambda>w. w \<in> set (er_heartbeat_round_seen r)) (er_wallets r) = er_heartbeat_round_seen r"
    by (intro sorted_distinct_set_unique) (auto simp: is_bset_def sorted_filter [of "\<lambda>x. x", simplified])
  then show ?thesis by (auto simp: finalize_heartbeat_round_def Let_def f)
qed

section \<open>Properties\<close>

text \<open>C20. A heartbeat round keeps exactly the nodes that were heard. While the registry has room, after a round with any
  heartbeats the wallets are the canonical wallets among them; a node that was known keeps its join height, a new one starts
  at 0, the tip is the last one reported, and only the identities of these wallets remain.\<close>

theorem heartbeat_round_exact:
  assumes "ephemeral_reachable E r" and "card (set (er_wallets r) \<union> heard hs) < MAX_VALIDATORS"
    and "r' = finalize_heartbeat_round (heartbeats hs (begin_heartbeat_round r))"
  shows "er_wallets r' = sorted_list_of_set (heard hs) \<and>
    (\<forall>w. map_of (er_join_heights r') w =
      (if w \<in> heard hs then Some (case map_of (er_join_heights r) w of Some h \<Rightarrow> h | None \<Rightarrow> 0) else None)) \<and>
    map_of (er_tip_snapshots r') = map_of (rev (heard_tips hs)) \<and>
    er_identity_map r' = filter (\<lambda>e. snd e \<in> heard hs) (er_identity_map r)"
proof -
  let ?b = "begin_heartbeat_round r"
  have b: "eph_ok ?b" "er_heartbeat_round_seen ?b = []" "er_wallets ?b = er_wallets r" "er_join_heights ?b = er_join_heights r"
      "er_identity_map ?b = er_identity_map r"
    using ephemeral_reachable_ok [OF assms(1)] by (auto simp: begin_heartbeat_round_def eph_ok_def)
  note spec = heartbeats_spec [OF b(1), of hs, unfolded b(3), OF assms(2)]
  then have ok: "eph_ok (heartbeats hs ?b)" and seen: "set (er_heartbeat_round_seen (heartbeats hs ?b)) = heard hs"
    by (simp_all add: b)
  have "er_heartbeat_round_seen (heartbeats hs ?b) = sorted_list_of_set (heard hs)"
    using ok seen by (intro sorted_distinct_set_unique) (auto simp: eph_ok_def is_bset_def finite_heard)
  moreover have "(f ++ map_of (rev (heard_tips hs))) |` heard hs = map_of (rev (heard_tips hs))" for f
  proof -
    have "dom (map_of (rev (heard_tips hs))) = heard hs" by (simp add: heard_def dom_map_of_conv_image_fst)
    then have "w \<in> heard hs \<longleftrightarrow> map_of (rev (heard_tips hs)) w \<noteq> None" for w by (auto simp: dom_def)
    then show ?thesis by (simp add: fun_eq_iff restrict_map_def map_add_def split: option.splits)
  qed
  ultimately show ?thesis
    using finalize_seen [OF ok] spec by (simp add: assms(3) seen b) (simp add: or_zero_def restrict_map_def split: option.splits)
qed

text \<open>C36. A full registry is emptied by the next heartbeat round. With as many wallets as the limit allows, every heartbeat is
  refused, also one of a wallet that is present, so that the round ends with nobody heard and everything is cleared.\<close>

theorem full_registry_wiped:
  assumes "MAX_VALIDATORS \<le> length (er_wallets r)"
  shows "finalize_heartbeat_round (heartbeats hs (begin_heartbeat_round r)) = ephemeral_new"
proof -
  have "heartbeats hs (begin_heartbeat_round r) = begin_heartbeat_round r"
    using assms
    by (induction hs) (auto simp: heartbeats_simps note_heartbeat_round_def cap_bind begin_heartbeat_round_def)
  then show ?thesis
    by (simp add: finalize_heartbeat_round_def begin_heartbeat_round_def ephemeral_new_def EphemeralRegistry.equality)
qed

section \<open>Samples\<close>

definition one_node :: EphemeralRegistry where
  "one_node = snd (register_wallet_strict 1700000000 (sample_wallet 98) 5 ephemeral_new)"

definition one_heartbeat :: "heartbeat list" where
  "one_heartbeat = [(1700000030, sample_wallet 97, 9)]"

lemma sample_canonical: "canonical_wallet (sample_wallet 97)" "canonical_wallet (sample_wallet 98)"
  by (simp_all add: sample_wallet_canonical is_lower_hex_def)

lemma one_node_wallets: "set (er_wallets one_node) \<subseteq> {sample_wallet 98}"
  using sample_canonical(2)
  by (auto simp: one_node_def register_wallet_strict_def cap_bind bindS_readS ephemeral_new_def enter_wallet_def
      canon_wallet_canonical split: sum.splits if_splits)

lemma one_heard: "heard one_heartbeat = {sample_wallet 97}" "heard_tips one_heartbeat = [(sample_wallet 97, 9)]"
  using sample_canonical(1) by (simp_all add: one_heartbeat_def heard_Cons heard_Nil canon_wallet_canonical)

theorem heartbeat_round_exact_witness:
  "er_wallets (finalize_heartbeat_round (heartbeats one_heartbeat (begin_heartbeat_round one_node))) = [sample_wallet 97] \<and>
   map_of (er_tip_snapshots (finalize_heartbeat_round (heartbeats one_heartbeat (begin_heartbeat_round one_node)))) (sample_wallet 97) = Some 9"
proof -
  have "ephemeral_reachable fixed_ext one_node" unfolding one_node_def by (intro ephemeral_reachable.intros)
  moreover have "card (set (er_wallets one_node) \<union> heard one_heartbeat) < MAX_VALIDATORS"
  proof -
    have "card (set (er_wallets one_node) \<union> heard one_heartbeat) \<le> card {sample_wallet 98, sample_wallet 97}"
      using one_node_wallets by (intro card_mono) (auto simp: one_heard)
    also have "\<dots> \<le> 2" by (simp add: card_insert_le_m1)
    finally show ?thesis by (simp add: cfg_defs)
  qed
  ultimately show ?thesis
    using heartbeat_round_exact [of fixed_ext one_node one_heartbeat, OF _ _ refl] by (simp add: one_heard)
qed

theorem full_registry_wiped_witness:
  "finalize_heartbeat_round (heartbeats one_heartbeat (begin_heartbeat_round
     (ephemeral_new\<lparr>er_wallets := map (\<lambda>i. [i]) [0..<MAX_VALIDATORS]\<rparr>))) = ephemeral_new"
  by (rule full_registry_wiped) simp

end
