(* ===== verification/Consensus.thy ===== *)
theory Consensus
  imports Ephemeral PuzzlePool Storage
begin

text \<open>
  The consensus state of a node (\<open>src/blockchain/blockchain_000_consensus.rs\<close>): the staged puzzle proof, the pool of winners
  and the buffer of proofs whose parent is not known yet, the runtime gates, and the gate a node passes before it builds a
  block.

  The database handle and the one inside the validator state open the same database, so the state has it once, in
  \<open>bc_validator_state\<close>. The order of a \<open>HashMap\<close> is that of its association list. The phase names and reasons that only go
  to the log are left out; clocks and the time a puzzle took are arguments.
\<close>

section \<open>State\<close>

definition MAX_BUFFERED_UNKNOWN_PARENT_PROOFS :: nat where
  "MAX_BUFFERED_UNKNOWN_PARENT_PROOFS = 256"

definition MAX_BUFFERED_UNKNOWN_PARENT_PROOFS_PER_PARENT :: nat where
  "MAX_BUFFERED_UNKNOWN_PARENT_PROOFS_PER_PARENT = 32"

definition MAX_UNKNOWN_PARENT_FUTURE_HEIGHT_DISTANCE :: nat where
  "MAX_UNKNOWN_PARENT_FUTURE_HEIGHT_DISTANCE = 8"

type_synonym proof_buffer = "(hash, PorPuzzleProof list) hmap"

record 'db BlockchainConsensus =
  bc_wallet_registry :: EphemeralRegistry
  bc_committee_eligibility :: CommitteeEligibility
  bc_validator_state :: "'db ValidatorState"
  bc_tm :: TimeManager
  bc_local_wallet :: rstr
  bc_por_engine :: PorPuzzleEngine
  bc_puzzle_pool :: PorPuzzlePool
  bc_pending_proofs_by_prev_hash :: proof_buffer
  bc_pending_puzzle_proof :: "PorPuzzleProof option"
  bc_runtime_rejoin_catchup_gate_active :: bool
  bc_runtime_rejoin_catchup_reason :: "rstr option"
  bc_runtime_branch_hydration_active :: bool
  bc_runtime_canonical_tip_height :: "nat option"
  bc_runtime_canonical_tip_hash :: "hash option"
  bc_validator_state_rebuilt_at_tip :: "nat option"
  bc_leader_schedule :: LeaderSchedule

definition consensus_new ::
    "'db Engine \<Rightarrow> BlockExt \<Rightarrow> RegistryCodec \<Rightarrow> rstr \<Rightarrow> TimeManager \<Rightarrow> 'db RockDBManager \<Rightarrow> 'db BlockchainConsensus result \<times> 'db RockDBManager" where
  "consensus_new G X R local_wallet0 tm mg =
     (case get_tip_height G mg of
        Inl e \<Rightarrow> (Inl e, mg)
      | Inr tip \<Rightarrow>
     (case canon_wallet_id_checked local_wallet0 of
        Inl e \<Rightarrow> (Inl e, mg)
      | Inr local_wallet \<Rightarrow>
     (case por_validate por_from_globals of
        Inl e \<Rightarrow> (Inl e, mg)
      | Inr _ \<Rightarrow>
     (case load_or_new G X R mg of
        (Inl e, mg') \<Rightarrow> (Inl e, mg')
      | (Inr validator_state, mg') \<Rightarrow>
     (case leader_schedule_new local_wallet of
        Inl e \<Rightarrow> (Inl e, mg')
      | Inr leader_schedule \<Rightarrow>
     (case committee_config_validate default_committee_config of
        Inl e \<Rightarrow> (Inl e, mg')
      | Inr _ \<Rightarrow>
          (Inr \<lparr>bc_wallet_registry = ephemeral_new, bc_committee_eligibility = committee_new default_committee_config,
                bc_validator_state = validator_state, bc_tm = tm, bc_local_wallet = local_wallet,
                bc_por_engine = \<lparr>pe_cfg = por_from_globals\<rparr>, bc_puzzle_pool = pool_new,
                bc_pending_proofs_by_prev_hash = [], bc_pending_puzzle_proof = None,
                bc_runtime_rejoin_catchup_gate_active = False, bc_runtime_rejoin_catchup_reason = None,
                bc_runtime_branch_hydration_active = False, bc_runtime_canonical_tip_height = None,
                bc_runtime_canonical_tip_hash = None, bc_validator_state_rebuilt_at_tip = Some tip,
                bc_leader_schedule = leader_schedule\<rparr>, mg')))))))"

definition set_registry :: "EphemeralRegistry \<Rightarrow> 'db BlockchainConsensus \<Rightarrow> 'db BlockchainConsensus" where
  "set_registry reg c =
     c\<lparr>bc_wallet_registry := reg,
       bc_committee_eligibility := snd (replace_live_wallets (sorted_wallets reg) (bc_committee_eligibility c))\<rparr>"

definition take_pending_puzzle_proof :: "'db BlockchainConsensus \<Rightarrow> PorPuzzleProof option \<times> 'db BlockchainConsensus" where
  "take_pending_puzzle_proof c = (bc_pending_puzzle_proof c, c\<lparr>bc_pending_puzzle_proof := None\<rparr>)"

definition clear_staged_local_puzzle_proof_with_reason :: "'db BlockchainConsensus \<Rightarrow> 'db BlockchainConsensus" where
  "clear_staged_local_puzzle_proof_with_reason c = c\<lparr>bc_pending_puzzle_proof := None\<rparr>"

definition set_runtime_rejoin_catchup_gate :: "bool \<Rightarrow> rstr option \<Rightarrow> 'db BlockchainConsensus \<Rightarrow> 'db BlockchainConsensus" where
  "set_runtime_rejoin_catchup_gate active reason c =
     (let c1 = c\<lparr>bc_runtime_rejoin_catchup_gate_active := active,
                 bc_runtime_rejoin_catchup_reason := (if active then reason else None)\<rparr> in
      if active then clear_staged_local_puzzle_proof_with_reason c1 else c1)"

definition set_runtime_branch_hydration_active :: "bool \<Rightarrow> 'db BlockchainConsensus \<Rightarrow> 'db BlockchainConsensus" where
  "set_runtime_branch_hydration_active active c =
     (let c1 = c\<lparr>bc_runtime_branch_hydration_active := active\<rparr> in
      if active then clear_staged_local_puzzle_proof_with_reason c1 else c1)"

definition set_runtime_canonical_tip_context :: "nat \<Rightarrow> hash \<Rightarrow> 'db BlockchainConsensus \<Rightarrow> 'db BlockchainConsensus" where
  "set_runtime_canonical_tip_context tip_height tip_hash c =
     c\<lparr>bc_runtime_canonical_tip_height := Some tip_height, bc_runtime_canonical_tip_hash := Some tip_hash\<rparr>"

definition clear_runtime_canonical_tip_context :: "'db BlockchainConsensus \<Rightarrow> 'db BlockchainConsensus" where
  "clear_runtime_canonical_tip_context c =
     c\<lparr>bc_runtime_canonical_tip_height := None, bc_runtime_canonical_tip_hash := None\<rparr>"

definition note_validator_state_rebuilt_to_tip :: "nat \<Rightarrow> 'db BlockchainConsensus \<Rightarrow> 'db BlockchainConsensus" where
  "note_validator_state_rebuilt_to_tip tip_height c = c\<lparr>bc_validator_state_rebuilt_at_tip := Some tip_height\<rparr>"

section \<open>Proofs with an unknown parent\<close>

definition has_known_parent_hash :: "'db Engine \<Rightarrow> BlockExt \<Rightarrow> hash \<Rightarrow> 'db BlockchainConsensus \<Rightarrow> bool" where
  "has_known_parent_hash G X parent_hash c \<longleftrightarrow>
     get_block_by_hash G X parent_hash (vs_db_manager (bc_validator_state c)) \<noteq> None"

definition same_proof_identity :: "PorPuzzleProof \<Rightarrow> PorPuzzleProof \<Rightarrow> bool" where
  "same_proof_identity a b \<longleftrightarrow> pp_height a = pp_height b \<and> pp_prev_block_hash a = pp_prev_block_hash b \<and>
     pp_output a = pp_output b \<and> eq_ignore_ascii_case (pp_validator a) (pp_validator b)"

definition total_buffered_puzzle_proofs :: "proof_buffer \<Rightarrow> nat" where
  "total_buffered_puzzle_proofs m = sum_list (map (\<lambda>e. length (snd e)) m)"

definition pending_buffered_puzzle_proof_count_for_parent :: "hash \<Rightarrow> proof_buffer \<Rightarrow> nat" where
  "pending_buffered_puzzle_proof_count_for_parent parent_hash m =
     (case hget m parent_hash of Some ps \<Rightarrow> length ps | None \<Rightarrow> 0)"

definition clear_buffered_unknown_parent_puzzle_proofs_for_liveness :: "'db BlockchainConsensus \<Rightarrow> nat \<times> 'db BlockchainConsensus" where
  "clear_buffered_unknown_parent_puzzle_proofs_for_liveness c =
     (total_buffered_puzzle_proofs (bc_pending_proofs_by_prev_hash c), c\<lparr>bc_pending_proofs_by_prev_hash := []\<rparr>)"

definition reset_runtime_proposal_safety_state :: "nat \<Rightarrow> hash \<Rightarrow> 'db BlockchainConsensus \<Rightarrow> 'db BlockchainConsensus" where
  "reset_runtime_proposal_safety_state tip_height tip_hash c =
     snd (clear_buffered_unknown_parent_puzzle_proofs_for_liveness
       (c\<lparr>bc_runtime_rejoin_catchup_gate_active := False, bc_runtime_rejoin_catchup_reason := None,
          bc_runtime_branch_hydration_active := False, bc_runtime_canonical_tip_height := Some tip_height,
          bc_runtime_canonical_tip_hash := Some tip_hash, bc_validator_state_rebuilt_at_tip := Some tip_height\<rparr>))"

text \<open>\<open>max_by_key\<close>: the last bucket of the greatest length.\<close>

fun longest_bucket :: "proof_buffer \<Rightarrow> (hash \<times> nat) option \<Rightarrow> (hash \<times> nat) option" where
  "longest_bucket [] best = best"
| "longest_bucket ((k, ps) # m) best =
     longest_bucket m (case best of
         None \<Rightarrow> Some (k, length ps)
       | Some (k', n) \<Rightarrow> if length ps \<ge> n then Some (k, length ps) else Some (k', n))"

definition drop_one_buffered_puzzle_proof_for_liveness :: "proof_buffer \<Rightarrow> bool \<times> proof_buffer" where
  "drop_one_buffered_puzzle_proof_for_liveness m =
     (case longest_bucket m None of
        None \<Rightarrow> (False, m)
      | Some (parent_hash, _) \<Rightarrow>
          (case hget m parent_hash of
             None \<Rightarrow> (False, m)
           | Some proofs \<Rightarrow>
               (let rest = butlast proofs; m1 = hinsert parent_hash rest m;
                    m2 = (if rest = [] then hremove parent_hash m1 else m1) in
                (proofs \<noteq> [], m2))))"

lemma total_hremove: "total_buffered_puzzle_proofs (hremove k m) \<le> total_buffered_puzzle_proofs m"
  by (induction m) (auto simp: total_buffered_puzzle_proofs_def)

lemma total_hinsert:
  "hget m k = Some ps \<Longrightarrow>
    total_buffered_puzzle_proofs (hinsert k qs m) + length ps = total_buffered_puzzle_proofs m + length qs"
  by (induction m) (auto simp: total_buffered_puzzle_proofs_def)

lemma drop_one_less:
  assumes "drop_one_buffered_puzzle_proof_for_liveness m = (True, m')"
  shows "total_buffered_puzzle_proofs m' < total_buffered_puzzle_proofs m"
proof -
  obtain k ps where k: "hget m k = Some ps" "ps \<noteq> []"
    and m': "m' = (if butlast ps = [] then hremove k (hinsert k (butlast ps) m) else hinsert k (butlast ps) m)"
    using assms by (auto simp: drop_one_buffered_puzzle_proof_for_liveness_def Let_def split: option.splits prod.splits)
  have "total_buffered_puzzle_proofs (hinsert k (butlast ps) m) < total_buffered_puzzle_proofs m"
    using total_hinsert [OF k(1), of "butlast ps"] k(2) by (cases ps) auto
  then show ?thesis using total_hremove [of k "hinsert k (butlast ps) m"] by (auto simp: m')
qed

text \<open>\<open>while total > limit\<close>, with the exit when nothing could be dropped.\<close>

function drop_above :: "nat \<Rightarrow> proof_buffer \<Rightarrow> proof_buffer" where
  "drop_above limit m =
     (if total_buffered_puzzle_proofs m > limit
      then (case drop_one_buffered_puzzle_proof_for_liveness m of
          (True, m') \<Rightarrow> drop_above limit m'
        | (False, m') \<Rightarrow> m')
      else m)"
  by pat_completeness auto
termination by (relation "measure (\<lambda>(_, m). total_buffered_puzzle_proofs m)") (auto dest!: drop_one_less [OF sym])

declare drop_above.simps [simp del]

definition buffer_verified_unknown_parent_proof :: "PorPuzzleProof \<Rightarrow> 'db BlockchainConsensus \<Rightarrow> bool \<times> 'db BlockchainConsensus" where
  "buffer_verified_unknown_parent_proof pr c =
     (let m = bc_pending_proofs_by_prev_hash c; prev = pp_prev_block_hash pr;
          existing_for_parent = pending_buffered_puzzle_proof_count_for_parent prev m in
      if (case hget m prev of Some bucket \<Rightarrow> list_ex (\<lambda>e. same_proof_identity e pr) bucket | None \<Rightarrow> False) then (True, c)
      else if existing_for_parent \<ge> MAX_BUFFERED_UNKNOWN_PARENT_PROOFS_PER_PARENT then (True, c)
      else
        (let m1 = drop_above (MAX_BUFFERED_UNKNOWN_PARENT_PROOFS - 1) m;
             c1 = c\<lparr>bc_pending_proofs_by_prev_hash := m1\<rparr> in
         if total_buffered_puzzle_proofs m1 \<ge> MAX_BUFFERED_UNKNOWN_PARENT_PROOFS then (True, c1)
         else
           (let bucket = (case hget m1 prev of Some ps \<Rightarrow> ps | None \<Rightarrow> []) in
            (True, c1\<lparr>bc_pending_proofs_by_prev_hash := hinsert prev (bucket @ [pr]) m1\<rparr>))))"

definition record_verified_proof_in_active_pool :: "Ext \<Rightarrow> PorPuzzleProof \<Rightarrow> 'db BlockchainConsensus \<Rightarrow> bool \<times> 'db BlockchainConsensus" where
  "record_verified_proof_in_active_pool E pr c =
     (case record_success_checked E (pp_height pr) (pp_validator pr) (pp_output pr) (bc_puzzle_pool c) of
        (res, pool) \<Rightarrow> (res = Inr (), c\<lparr>bc_puzzle_pool := pool\<rparr>))"

fun replay_loop :: "Ext \<Rightarrow> PorPuzzleProof list \<Rightarrow> nat \<Rightarrow> 'db BlockchainConsensus \<Rightarrow> nat \<times> 'db BlockchainConsensus" where
  "replay_loop E [] admitted c = (admitted, c)"
| "replay_loop E (pr # prs) admitted c =
     (case record_verified_proof_in_active_pool E pr c of
        (ok, c') \<Rightarrow> replay_loop E prs (if ok then saturating_add 64 admitted 1 else admitted) c')"

definition replay_buffered_puzzle_proofs_for_parent ::
    "'db Engine \<Rightarrow> BlockExt \<Rightarrow> hash \<Rightarrow> 'db BlockchainConsensus \<Rightarrow> nat \<times> 'db BlockchainConsensus" where
  "replay_buffered_puzzle_proofs_for_parent G X parent_hash c =
     (if \<not> has_known_parent_hash G X parent_hash c then (0, c)
      else (case hget (bc_pending_proofs_by_prev_hash c) parent_hash of
          None \<Rightarrow> (0, c)
        | Some buffered \<Rightarrow>
            (let c1 = c\<lparr>bc_pending_proofs_by_prev_hash := hremove parent_hash (bc_pending_proofs_by_prev_hash c)\<rparr> in
             case get_block_by_hash G X parent_hash (vs_db_manager (bc_validator_state c1)) of
               None \<Rightarrow> (0, fold (\<lambda>pr c. snd (buffer_verified_unknown_parent_proof pr c)) buffered c1)
             | Some _ \<Rightarrow> replay_loop (bx X) buffered 0 c1)))"

fun replay_parents :: "'db Engine \<Rightarrow> BlockExt \<Rightarrow> hash list \<Rightarrow> nat \<Rightarrow> 'db BlockchainConsensus \<Rightarrow> nat \<times> 'db BlockchainConsensus" where
  "replay_parents G X [] admitted c = (admitted, c)"
| "replay_parents G X (h # hs) admitted c =
     (case replay_buffered_puzzle_proofs_for_parent G X h c of
        (n, c') \<Rightarrow> replay_parents G X hs (saturating_add 64 admitted n) c')"

definition replay_buffered_puzzle_proofs_with_known_parents ::
    "'db Engine \<Rightarrow> BlockExt \<Rightarrow> 'db BlockchainConsensus \<Rightarrow> nat \<times> 'db BlockchainConsensus" where
  "replay_buffered_puzzle_proofs_with_known_parents G X c =
     (let known_parent_hashes = filter (\<lambda>h. has_known_parent_hash G X h c) (map fst (bc_pending_proofs_by_prev_hash c)) in
      replay_parents G X known_parent_hashes 0 c)"

text \<open>\<open>retain\<close> on every bucket, and on the buckets that are not empty after it.\<close>

definition retain_proofs :: "(PorPuzzleProof \<Rightarrow> bool) \<Rightarrow> proof_buffer \<Rightarrow> proof_buffer" where
  "retain_proofs keep m = filter (\<lambda>e. snd e \<noteq> []) (map (\<lambda>(k, ps). (k, filter keep ps)) m)"

definition cap_buckets :: "proof_buffer \<Rightarrow> proof_buffer" where
  "cap_buckets m =
     map (\<lambda>(k, ps). (k, if length ps > MAX_BUFFERED_UNKNOWN_PARENT_PROOFS_PER_PARENT
                        then take MAX_BUFFERED_UNKNOWN_PARENT_PROOFS_PER_PARENT ps else ps)) m"

definition gc_buffered_puzzle_proofs_for_local_proposal ::
    "'db Engine \<Rightarrow> BlockExt \<Rightarrow> nat \<Rightarrow> hash \<Rightarrow> 'db BlockchainConsensus \<Rightarrow> 'db BlockchainConsensus" where
  "gc_buffered_puzzle_proofs_for_local_proposal G X height prev_hash c0 =
     (let c = snd (replay_buffered_puzzle_proofs_with_known_parents G X c0);
          max_future_height = saturating_add 64 height MAX_UNKNOWN_PARENT_FUTURE_HEIGHT_DISTANCE;
          keep = (\<lambda>pr. \<not> ((pp_height pr = 0 \<or> pp_prev_block_hash pr = zero_hash) \<or> pp_prev_block_hash pr = prev_hash \<or>
                     pp_height pr \<le> height \<or> pp_height pr > max_future_height)) in
      c\<lparr>bc_pending_proofs_by_prev_hash :=
          drop_above MAX_BUFFERED_UNKNOWN_PARENT_PROOFS
            (cap_buckets (retain_proofs keep (bc_pending_proofs_by_prev_hash c)))\<rparr>)"

definition gc_buffered_puzzle_proofs_below ::
    "'db Engine \<Rightarrow> BlockExt \<Rightarrow> nat \<Rightarrow> 'db BlockchainConsensus \<Rightarrow> 'db BlockchainConsensus" where
  "gc_buffered_puzzle_proofs_below G X height c0 =
     (let c = snd (replay_buffered_puzzle_proofs_with_known_parents G X c0);
          keep = (\<lambda>pr. pp_height pr \<ge> height \<and> pp_height pr \<noteq> 0 \<and> pp_prev_block_hash pr \<noteq> zero_hash) in
      c\<lparr>bc_pending_proofs_by_prev_hash :=
          drop_above MAX_BUFFERED_UNKNOWN_PARENT_PROOFS (retain_proofs keep (bc_pending_proofs_by_prev_hash c))\<rparr>)"

definition gc_puzzle_pool_below :: "'db Engine \<Rightarrow> BlockExt \<Rightarrow> nat \<Rightarrow> 'db BlockchainConsensus \<Rightarrow> 'db BlockchainConsensus" where
  "gc_puzzle_pool_below G X height c =
     gc_buffered_puzzle_proofs_below G X height (c\<lparr>bc_puzzle_pool := gc_below height (bc_puzzle_pool c)\<rparr>)"

definition on_puzzle_proof :: "'db Engine \<Rightarrow> BlockExt \<Rightarrow> PorPuzzleProof \<Rightarrow> 'db BlockchainConsensus \<Rightarrow> bool \<times> 'db BlockchainConsensus" where
  "on_puzzle_proof G X pr c =
     (if pp_height pr = 0 then (False, c)
      else (case canon_wallet_id_checked (pp_validator pr) of
          Inl _ \<Rightarrow> (False, c)
        | Inr _ \<Rightarrow>
            (let parent_block = get_block_by_hash G X (pp_prev_block_hash pr) (vs_db_manager (bc_validator_state c)) in
             if \<not> pp_verify_with_engine (bx X) (bc_por_engine c) pr then (False, c)
             else (case parent_block of
                 Some _ \<Rightarrow> record_verified_proof_in_active_pool (bx X) pr c
               | None \<Rightarrow> buffer_verified_unknown_parent_proof pr c))))"

end
