(* ===== verification/MintGate.thy ===== *)
theory MintGate
  imports Consensus
begin

text \<open>
  The second half of \<open>src/blockchain/blockchain_000_consensus.rs\<close>: the registrations a block carries, the checks before a mint
  attempt, the staging of the local puzzle proof and the gate the block builder passes.
\<close>

section \<open>Registrations of a block\<close>

definition should_skip_register_tx_for_wallet :: "rstr \<Rightarrow> 'db BlockchainConsensus \<Rightarrow> bool result" where
  "should_skip_register_tx_for_wallet wallet_can c = is_canonically_known wallet_can (bc_validator_state c)"

text \<open>The clock is read twice for each wallet.\<close>

definition collect_register_node_txs_for_block :: "(rstr \<Rightarrow> int \<times> int) \<Rightarrow> nat \<Rightarrow> 'db BlockchainConsensus \<Rightarrow> RegisterNodeTx list" where
  "collect_register_node_txs_for_block clocks height c =
     List.map_filter (\<lambda>wallet.
       case canon_wallet_id_checked wallet of
         Inl _ \<Rightarrow> None
       | Inr wallet_can \<Rightarrow>
           (case should_skip_register_tx_for_wallet wallet_can c of
              Inl _ \<Rightarrow> None
            | Inr True \<Rightarrow> None
            | Inr False \<Rightarrow>
                if \<not> is_registered wallet_can (bc_wallet_registry c) then None
                else (case reg_new (fst (clocks wallet)) (snd (clocks wallet)) wallet_can of
                    Inr reg_tx \<Rightarrow> Some reg_tx
                  | Inl _ \<Rightarrow> None)))
       (sorted_wallets (bc_wallet_registry c))"

definition consensus_reward_eligible_at :: "rstr \<Rightarrow> nat \<Rightarrow> 'db BlockchainConsensus \<Rightarrow> bool" where
  "consensus_reward_eligible_at wallet height c = vs_reward_eligible_at wallet height (bc_validator_state c)"

section \<open>Checks before an attempt\<close>

definition ensure_orchestration_mint_preflight_context ::
    "'db Engine \<Rightarrow> BlockExt \<Rightarrow> nat \<Rightarrow> hash \<Rightarrow> 'db BlockchainConsensus \<Rightarrow> unit result" where
  "ensure_orchestration_mint_preflight_context G X height prev_hash c =
     (if height = 0 then Inl (ValidationError ''orchestration mint preflight called for height=0'')
      else if prev_hash = zero_hash then Inl (ValidationError ''orchestration mint preflight called with zero prev_hash'')
      else if \<not> has_known_parent_hash G X prev_hash c
        then Inl (ValidationError ''orchestration mint preflight blocked: parent hash is not known locally'')
      else
        (let required_tip = saturating_sub height 1 in
         case bc_validator_state_rebuilt_at_tip c of
           None \<Rightarrow> Inl (ValidationError ''orchestration mint preflight blocked: validator state rebuild marker missing'')
         | Some rebuilt_tip \<Rightarrow>
             if \<not> rebuilt_tip \<ge> required_tip
               then Inl (ValidationError ''orchestration mint preflight blocked: validator state rebuilt only through tip'')
             else (case (bc_runtime_canonical_tip_height c, bc_runtime_canonical_tip_hash c) of
                 (Some h, Some x) \<Rightarrow>
                   if h = required_tip \<and> x = prev_hash then Inr ()
                   else Inl (ValidationError ''orchestration mint preflight blocked: canonical tip context mismatch'')
               | (None, None) \<Rightarrow> Inl (ValidationError ''orchestration mint preflight blocked: canonical tip context missing'')
               | _ \<Rightarrow> Inl (ValidationError ''orchestration mint preflight blocked: incomplete canonical tip context''))))"

definition runtime_mint_suppression_reasons :: "'db BlockchainConsensus \<Rightarrow> IneligibilityReason list option" where
  "runtime_mint_suppression_reasons c =
     (let decision = decide_wallet (bc_local_wallet c) (bc_committee_eligibility c) in
      if cd_eligible decision then None else Some (cd_reasons decision))"

definition ensure_local_runtime_mint_eligibility_for_staging :: "'db BlockchainConsensus \<Rightarrow> unit result" where
  "ensure_local_runtime_mint_eligibility_for_staging c =
     (case runtime_mint_suppression_reasons c of
        Some _ \<Rightarrow> Inl (ValidationError ''local mint suppressed by runtime policy'')
      | None \<Rightarrow> Inr ())"

definition ensure_local_can_stage_puzzle_for_context :: "Ext \<Rightarrow> nat \<Rightarrow> hash \<Rightarrow> 'db BlockchainConsensus \<Rightarrow> unit result" where
  "ensure_local_can_stage_puzzle_for_context E height prev_hash c =
     bindR (committee_snapshot E (bc_validator_state c) (bc_tm c) prev_hash height) (\<lambda>snapshot.
     if \<not> contains_wallet snapshot (bc_local_wallet c)
       then Inl (ValidationError ''local wallet is not in canonical committee'')
     else bindR (ensure_local_runtime_mint_eligibility_for_staging c) (\<lambda>_. Inr ()))"

definition local_wallet_can_attempt_mint_at ::
    "'db Engine \<Rightarrow> BlockExt \<Rightarrow> nat \<Rightarrow> hash \<Rightarrow> 'db BlockchainConsensus \<Rightarrow> unit result" where
  "local_wallet_can_attempt_mint_at G X height prev_hash c =
     bindR (ensure_orchestration_mint_preflight_context G X height prev_hash c) (\<lambda>_.
     bindR (committee_snapshot (bx X) (bc_validator_state c) (bc_tm c) prev_hash height) (\<lambda>snapshot.
     if \<not> contains_wallet snapshot (bc_local_wallet c)
       then Inl (ValidationError ''local wallet is not in canonical committee'')
     else (case runtime_mint_suppression_reasons c of
         Some _ \<Rightarrow> Inl (ValidationError ''local mint suppressed by runtime policy'')
       | None \<Rightarrow> Inr ())))"

section \<open>The safety guard and the staged proof\<close>

definition ensure_runtime_local_proposal_safety ::
    "'db Engine \<Rightarrow> BlockExt \<Rightarrow> nat \<Rightarrow> hash \<Rightarrow> ('db BlockchainConsensus, unit) sm" where
  "ensure_runtime_local_proposal_safety G X height prev_hash c0 =
     (if \<not> has_known_parent_hash G X prev_hash c0
        then (Inl (ValidationError ''local proposal blocked: parent hash is not known locally''),
              clear_staged_local_puzzle_proof_with_reason c0)
      else
        (let c = gc_buffered_puzzle_proofs_for_local_proposal G X height prev_hash c0;
             required_tip = saturating_sub height 1 in
         if bc_runtime_branch_hydration_active c
           then (Inl (ValidationError ''local proposal blocked: branch hydration / recovery still active''),
                 clear_staged_local_puzzle_proof_with_reason c)
         else if bc_runtime_rejoin_catchup_gate_active c
           then (Inl (ValidationError ''local proposal blocked: catch-up gate active''),
                 clear_staged_local_puzzle_proof_with_reason c)
         else if (case bc_validator_state_rebuilt_at_tip c of Some rebuilt_tip \<Rightarrow> rebuilt_tip < required_tip | None \<Rightarrow> False)
           then (Inl (ValidationError ''local proposal blocked: validator state rebuilt only through tip''),
                 clear_staged_local_puzzle_proof_with_reason c)
         else if (case (bc_runtime_canonical_tip_height c, bc_runtime_canonical_tip_hash c) of
                    (Some h, Some x) \<Rightarrow> h \<noteq> required_tip \<or> x \<noteq> prev_hash
                  | _ \<Rightarrow> False)
           then (Inl (ValidationError ''local proposal blocked: runtime canonical tip mismatch''),
                 clear_staged_local_puzzle_proof_with_reason c)
         else (Inr (), c)))"

definition has_staged_local_puzzle_for_current_context :: "nat \<Rightarrow> hash \<Rightarrow> 'db BlockchainConsensus \<Rightarrow> bool" where
  "has_staged_local_puzzle_for_current_context height prev_hash c =
     (case bc_pending_puzzle_proof c of
        Some pr \<Rightarrow> pp_height pr = height \<and> pp_prev_block_hash pr = prev_hash \<and>
                   eq_ignore_ascii_case (pp_validator pr) (bc_local_wallet c)
      | None \<Rightarrow> False)"

definition invalidate_stale_staged_local_puzzle :: "nat \<Rightarrow> hash \<Rightarrow> 'db BlockchainConsensus \<Rightarrow> 'db BlockchainConsensus" where
  "invalidate_stale_staged_local_puzzle height prev_hash c =
     (let should_clear = (case bc_pending_puzzle_proof c of
            Some pr \<Rightarrow> \<not> (pp_height pr = height \<and> pp_prev_block_hash pr = prev_hash \<and>
                          eq_ignore_ascii_case (pp_validator pr) (bc_local_wallet c))
          | None \<Rightarrow> False) in
      if should_clear then c\<lparr>bc_pending_puzzle_proof := None\<rparr> else c)"

definition run_local_puzzle_for_block ::
    "'db Engine \<Rightarrow> BlockExt \<Rightarrow> nat \<times> nat \<Rightarrow> nat \<Rightarrow> hash \<Rightarrow> ('db BlockchainConsensus, unit) sm" where
  "run_local_puzzle_for_block G X elapsed height prev_hash =
     (if height = 0 then failS (ValidationError ''run_local_puzzle_for_block called for height=0'')
      else if prev_hash = zero_hash then failS (ValidationError ''run_local_puzzle_for_block called with zero prev_hash'')
      else
        bindS (ensure_runtime_local_proposal_safety G X height prev_hash) (\<lambda>_.
        bindS (readS (\<lambda>c. solve_locally_checked (bx X) (bc_por_engine c)
                 (derive_puzzle (bx X) (bc_por_engine c) height (bc_local_wallet c) prev_hash) elapsed)) (\<lambda>solution c.
        case record_success_checked (bx X) height (bc_local_wallet c) (ps_output solution) (bc_puzzle_pool c) of
          (Inl e, pool) \<Rightarrow> (Inl e, c\<lparr>bc_puzzle_pool := pool\<rparr>)
        | (Inr _, pool) \<Rightarrow>
            (let c1 = c\<lparr>bc_puzzle_pool := pool\<rparr>; pr = from_solution solution in
             if \<not> eq_ignore_ascii_case (pp_validator pr) (bc_local_wallet c)
               then (Inl (ValidationError ''local puzzle proof validator mismatch''), c1)
             else if pp_height pr \<noteq> height then (Inl (ValidationError ''local puzzle proof height mismatch''), c1)
             else if pp_prev_block_hash pr \<noteq> prev_hash then (Inl (ValidationError ''local puzzle proof prev_hash mismatch''), c1)
             else (Inr (), c1\<lparr>bc_pending_puzzle_proof := Some pr\<rparr>)))))"

definition ensure_staged_local_puzzle_for_block ::
    "'db Engine \<Rightarrow> BlockExt \<Rightarrow> nat \<times> nat \<Rightarrow> nat \<Rightarrow> hash \<Rightarrow> ('db BlockchainConsensus, unit) sm" where
  "ensure_staged_local_puzzle_for_block G X elapsed height prev_hash =
     bindS (ensure_runtime_local_proposal_safety G X height prev_hash) (\<lambda>_ c0.
     let c = invalidate_stale_staged_local_puzzle height prev_hash c0 in
     if has_staged_local_puzzle_for_current_context height prev_hash c then (Inr (), c)
     else
       bindS (readS (ensure_local_can_stage_puzzle_for_context (bx X) height prev_hash)) (\<lambda>_.
       run_local_puzzle_for_block G X elapsed height prev_hash) c)"

section \<open>The gate\<close>

definition assert_can_build_block ::
    "'db Engine \<Rightarrow> BlockExt \<Rightarrow> int \<Rightarrow> nat \<times> nat \<Rightarrow> nat \<Rightarrow> hash \<Rightarrow> bool \<Rightarrow> ('db BlockchainConsensus, unit) sm" where
  "assert_can_build_block G X clock elapsed height prev_hash bypass_leader =
     (if bypass_leader then failS (ValidationError ''bypass_leader is disabled (fork lever)'')
      else if height = 0 then failS (ValidationError ''assert_can_build_block called for height=0'')
      else if prev_hash = zero_hash then failS (ValidationError ''assert_can_build_block called with zero prev_hash'')
      else
        bindS (ensure_runtime_local_proposal_safety G X height prev_hash) (\<lambda>_.
        bindS (ensure_staged_local_puzzle_for_block G X elapsed height prev_hash) (\<lambda>_.
        bindS (ensure_runtime_local_proposal_safety G X height prev_hash) (\<lambda>_.
        bindS (readS (\<lambda>_. now_unix_secs_runtime clock)) (\<lambda>now.
        bindS (readS (\<lambda>c. assert_local_can_mint_now (bx X) (bc_leader_schedule c) (bc_validator_state c)
                 (bc_committee_eligibility c) (bc_tm c) prev_hash height now)) (\<lambda>auth.
        bindS (readS (\<lambda>c. if has_staged_local_puzzle_for_current_context height prev_hash c then Inr ()
                 else Inl (ValidationError ''staged local puzzle proof missing or mismatched''))) (\<lambda>_.
        ensure_runtime_local_proposal_safety G X height prev_hash)))))))"

end
