(* ===== verification/ConsensusProps.thy ===== *)
theory ConsensusProps
  imports MintGate PuzzleProps
begin

text \<open>
  The buffer of proofs with an unknown parent: its shape and bounds under every operation of the consensus state, and what
  the operations on it leave unchanged.
\<close>

section \<open>The buffer\<close>

text \<open>A bucket: not empty, within its bound, verified proofs on one parent.\<close>

definition bucket_ok :: "Ext \<Rightarrow> hash \<times> PorPuzzleProof list \<Rightarrow> bool" where
  "bucket_ok E e \<longleftrightarrow> snd e \<noteq> [] \<and> length (snd e) \<le> MAX_BUFFERED_UNKNOWN_PARENT_PROOFS_PER_PARENT \<and>
     (\<forall>p\<in>set (snd e). pp_prev_block_hash p = fst e \<and> pp_height p \<noteq> 0 \<and> pp_verify_with_engine E engine_from_globals p)"

definition buffer_shape :: "Ext \<Rightarrow> proof_buffer \<Rightarrow> bool" where
  "buffer_shape E m \<longleftrightarrow> wf_map m \<and> (\<forall>e\<in>set m. bucket_ok E e)"

lemma buffer_shape_Nil [simp]: "buffer_shape E []"
  by (simp add: buffer_shape_def)

lemma shape_hremove: "buffer_shape E m \<Longrightarrow> buffer_shape E (hremove k m)"
proof -
  have "set (hremove k m) \<subseteq> set m" by (auto simp: AList.delete_eq)
  moreover assume "buffer_shape E m"
  ultimately show ?thesis by (auto simp: buffer_shape_def)
qed

lemma shape_hinsert: "buffer_shape E m \<Longrightarrow> bucket_ok E (k, ps) \<Longrightarrow> buffer_shape E (hinsert k ps m)"
proof -
  have "set (hinsert k ps m) \<subseteq> insert (k, ps) (set m)" by (induction m) auto
  moreover assume "buffer_shape E m" "bucket_ok E (k, ps)"
  ultimately show ?thesis by (auto simp: buffer_shape_def)
qed

lemma shape_hget: "buffer_shape E m \<Longrightarrow> hget m k = Some ps \<Longrightarrow> bucket_ok E (k, ps)"
  by (auto simp: buffer_shape_def dest: map_of_SomeD)

lemma longest_bucket_key: "longest_bucket m best = Some (k, n) \<Longrightarrow> k \<in> fst ` set m \<or> best = Some (k, n)"
  by (induction m best rule: longest_bucket.induct) (auto split: option.splits if_splits)

lemma longest_bucket_None: "longest_bucket m best = None \<longleftrightarrow> m = [] \<and> best = None"
  by (induction m best rule: longest_bucket.induct) (auto split: option.splits)

lemma bucket_ok_butlast: "bucket_ok E (k, ps) \<Longrightarrow> butlast ps \<noteq> [] \<Longrightarrow> bucket_ok E (k, butlast ps)"
  by (auto simp: bucket_ok_def dest: in_set_butlastD)

lemma drop_one_shape:
  assumes "buffer_shape E m" and "m \<noteq> []"
  obtains m' where "drop_one_buffered_puzzle_proof_for_liveness m = (True, m')" and "buffer_shape E m'"
proof -
  obtain k n where l: "longest_bucket m None = Some (k, n)"
    using assms(2) longest_bucket_None [of m None] by (cases "longest_bucket m None") auto
  then obtain ps where ps: "hget m k = Some ps" using longest_bucket_key [OF l] by (cases "hget m k") (auto simp: map_of_eq_None_iff)
  note b = shape_hget [OF assms(1) ps]
  let ?m1 = "hinsert k (butlast ps) m"
  have "buffer_shape E (if butlast ps = [] then hremove k ?m1 else ?m1)"
  proof (cases "butlast ps = []")
    case True
    have "hremove k ?m1 = hremove k m" by (induction m) auto
    with True show ?thesis using shape_hremove [OF assms(1)] by simp
  next
    case False
    then show ?thesis using shape_hinsert [OF assms(1) bucket_ok_butlast [OF b]] by simp
  qed
  moreover have "ps \<noteq> []" using b by (simp add: bucket_ok_def)
  ultimately show ?thesis using that l ps by (simp add: drop_one_buffered_puzzle_proof_for_liveness_def Let_def)
qed

lemma drop_above_spec:
  assumes "buffer_shape E m"
  shows "buffer_shape E (drop_above limit m) \<and> total_buffered_puzzle_proofs (drop_above limit m) \<le> limit"
  using assms
proof (induction limit m rule: drop_above.induct)
  case (1 limit m)
  show ?case
  proof (cases "total_buffered_puzzle_proofs m > limit")
    case True
    then have "m \<noteq> []" by (auto simp: total_buffered_puzzle_proofs_def)
    then obtain m' where m': "drop_one_buffered_puzzle_proof_for_liveness m = (True, m')" "buffer_shape E m'"
      using drop_one_shape [OF "1.prems"] by blast
    then show ?thesis using "1.IH" [OF True m'(1) [symmetric] refl m'(2)] True
      by (subst (1 2) drop_above.simps) simp
  next
    case False
    then show ?thesis using "1.prems" by (subst (1 2) drop_above.simps) simp
  qed
qed

text \<open>Dropping proofs makes no bucket longer.\<close>

lemma count_drop_one:
  "drop_one_buffered_puzzle_proof_for_liveness m = (b, m') \<Longrightarrow>
    pending_buffered_puzzle_proof_count_for_parent k m' \<le> pending_buffered_puzzle_proof_count_for_parent k m"
  by (auto simp: drop_one_buffered_puzzle_proof_for_liveness_def pending_buffered_puzzle_proof_count_for_parent_def Let_def
      AList.delete_conv' split: option.splits prod.splits if_splits)

lemma count_drop_above:
  "pending_buffered_puzzle_proof_count_for_parent k (drop_above limit m) \<le> pending_buffered_puzzle_proof_count_for_parent k m"
proof (induction limit m rule: drop_above.induct)
  case (1 limit m)
  then show ?case
    using count_drop_one [of m _ _ k] le_trans
    by (subst drop_above.simps) (fastforce split: prod.splits bool.splits)
qed

lemma shape_retain:
  assumes "buffer_shape E m"
  shows "buffer_shape E (retain_proofs keep m)"
proof -
  have "map fst (retain_proofs keep m) = map fst (filter (\<lambda>e. filter keep (snd e) \<noteq> []) m)"
    by (induction m) (auto simp: retain_proofs_def)
  moreover have "distinct (map fst (filter P m))" for P
    using assms by (simp add: buffer_shape_def wf_map_def distinct_map_filter)
  moreover have "\<forall>e\<in>set (retain_proofs keep m). bucket_ok E e"
    using assms le_trans [OF length_filter_le [of keep]] by (fastforce simp: buffer_shape_def retain_proofs_def bucket_ok_def)
  ultimately show ?thesis by (simp add: buffer_shape_def wf_map_def)
qed

lemma cap_buckets_same: "buffer_shape E m \<Longrightarrow> cap_buckets m = m"
  by (auto simp: cap_buckets_def buffer_shape_def bucket_ok_def intro!: map_idI)

section \<open>What stays\<close>

text \<open>Everything but the pool and the buffer.\<close>

definition core :: "'db BlockchainConsensus \<Rightarrow> 'db BlockchainConsensus" where
  "core c = c\<lparr>bc_puzzle_pool := pool_new, bc_pending_proofs_by_prev_hash := []\<rparr>"

lemma core_fields:
  assumes "core c = core c'"
  shows "bc_wallet_registry c = bc_wallet_registry c'" "bc_committee_eligibility c = bc_committee_eligibility c'"
    "bc_validator_state c = bc_validator_state c'" "bc_tm c = bc_tm c'" "bc_local_wallet c = bc_local_wallet c'"
    "bc_por_engine c = bc_por_engine c'" "bc_pending_puzzle_proof c = bc_pending_puzzle_proof c'"
    "bc_runtime_rejoin_catchup_gate_active c = bc_runtime_rejoin_catchup_gate_active c'"
    "bc_runtime_branch_hydration_active c = bc_runtime_branch_hydration_active c'"
    "bc_runtime_canonical_tip_height c = bc_runtime_canonical_tip_height c'"
    "bc_runtime_canonical_tip_hash c = bc_runtime_canonical_tip_hash c'"
    "bc_validator_state_rebuilt_at_tip c = bc_validator_state_rebuilt_at_tip c'"
    "bc_leader_schedule c = bc_leader_schedule c'"
  using assms by (cases c; cases c'; simp add: core_def)+

definition buffer_ok :: "Ext \<Rightarrow> 'db BlockchainConsensus \<Rightarrow> bool" where
  "buffer_ok E c \<longleftrightarrow> buffer_shape E (bc_pending_proofs_by_prev_hash c) \<and>
     total_buffered_puzzle_proofs (bc_pending_proofs_by_prev_hash c) \<le> MAX_BUFFERED_UNKNOWN_PARENT_PROOFS"

lemma record_frame:
  "core (snd (record_verified_proof_in_active_pool E pr c)) = core c"
  "bc_pending_proofs_by_prev_hash (snd (record_verified_proof_in_active_pool E pr c)) = bc_pending_proofs_by_prev_hash c"
  by (simp_all add: record_verified_proof_in_active_pool_def core_def split: prod.splits)

lemma replay_loop_frame:
  "core (snd (replay_loop E prs n c)) = core c"
  "bc_pending_proofs_by_prev_hash (snd (replay_loop E prs n c)) = bc_pending_proofs_by_prev_hash c"
proof (induction prs arbitrary: n c)
  case (Cons pr prs)
  case 1
  then show ?case using Cons record_frame [of E pr c] by (cases "record_verified_proof_in_active_pool E pr c") auto
  case 2
  then show ?case using Cons record_frame [of E pr c] by (cases "record_verified_proof_in_active_pool E pr c") auto
qed simp_all

lemma replay_parent_frame:
  "core (snd (replay_buffered_puzzle_proofs_for_parent G X h c)) = core c \<and>
   (bc_pending_proofs_by_prev_hash (snd (replay_buffered_puzzle_proofs_for_parent G X h c)) = bc_pending_proofs_by_prev_hash c \<or>
    bc_pending_proofs_by_prev_hash (snd (replay_buffered_puzzle_proofs_for_parent G X h c)) =
      hremove h (bc_pending_proofs_by_prev_hash c))"
proof -
  have "core (c\<lparr>bc_pending_proofs_by_prev_hash := m\<rparr>) = core c" for m by (simp add: core_def)
  then show ?thesis
    by (auto simp: replay_buffered_puzzle_proofs_for_parent_def has_known_parent_hash_def replay_loop_frame Let_def
        split: option.splits)
qed

lemma buffer_ok_hremove:
  "buffer_ok E c \<Longrightarrow> bc_pending_proofs_by_prev_hash c' = hremove h (bc_pending_proofs_by_prev_hash c) \<Longrightarrow> buffer_ok E c'"
  using shape_hremove total_hremove le_trans by (fastforce simp: buffer_ok_def)

lemma replay_parents_frame:
  "core (snd (replay_parents G X hs n c)) = core c \<and> (buffer_ok E c \<longrightarrow> buffer_ok E (snd (replay_parents G X hs n c)))"
proof (induction hs arbitrary: n c)
  case (Cons h hs)
  obtain k c' where r: "replay_buffered_puzzle_proofs_for_parent G X h c = (k, c')"
    by (cases "replay_buffered_puzzle_proofs_for_parent G X h c") auto
  have "buffer_ok E c \<longrightarrow> buffer_ok E c'" "core c' = core c"
    using replay_parent_frame [of G X h c] buffer_ok_hremove [of E c c' h] by (auto simp: r buffer_ok_def)
  then show ?case using Cons [of "saturating_add 64 n k" c'] by (simp add: r)
qed simp

lemmas replay_known_frame = replay_parents_frame [where n = 0]

lemma gc_local_frame:
  "core (gc_buffered_puzzle_proofs_for_local_proposal G X h p c) = core c \<and>
   (buffer_ok E c \<longrightarrow> buffer_ok E (gc_buffered_puzzle_proofs_for_local_proposal G X h p c))"
  using replay_known_frame [of G X "filter (\<lambda>h. has_known_parent_hash G X h c) (map fst (bc_pending_proofs_by_prev_hash c))" c E]
    drop_above_spec [of E] cap_buckets_same [of E] shape_retain [of E]
  by (auto simp: gc_buffered_puzzle_proofs_for_local_proposal_def replay_buffered_puzzle_proofs_with_known_parents_def Let_def
      buffer_ok_def core_def)

lemma gc_below_frame:
  "core (gc_buffered_puzzle_proofs_below G X h c) = core c \<and>
   (buffer_ok E c \<longrightarrow> buffer_ok E (gc_buffered_puzzle_proofs_below G X h c))"
  using replay_known_frame [of G X "filter (\<lambda>h. has_known_parent_hash G X h c) (map fst (bc_pending_proofs_by_prev_hash c))" c E]
    drop_above_spec [of E] shape_retain [of E]
  by (auto simp: gc_buffered_puzzle_proofs_below_def replay_buffered_puzzle_proofs_with_known_parents_def Let_def
      buffer_ok_def core_def)

lemma buffer_frame:
  assumes "buffer_ok E c" and "pp_height pr \<noteq> 0" and "pp_verify_with_engine E engine_from_globals pr"
  shows "core (snd (buffer_verified_unknown_parent_proof pr c)) = core c \<and>
    buffer_ok E (snd (buffer_verified_unknown_parent_proof pr c))"
proof -
  let ?m = "bc_pending_proofs_by_prev_hash c" and ?k = "pp_prev_block_hash pr"
  let ?m1 = "drop_above (MAX_BUFFERED_UNKNOWN_PARENT_PROOFS - 1) ?m"
  let ?b = "case hget ?m1 ?k of Some ps \<Rightarrow> ps | None \<Rightarrow> []"
  have m1: "buffer_shape E ?m1" "total_buffered_puzzle_proofs ?m1 \<le> MAX_BUFFERED_UNKNOWN_PARENT_PROOFS - 1"
    using drop_above_spec [of E ?m] assms(1) by (auto simp: buffer_ok_def)
  then have le: "total_buffered_puzzle_proofs ?m1 < MAX_BUFFERED_UNKNOWN_PARENT_PROOFS"
    by (simp add: MAX_BUFFERED_UNKNOWN_PARENT_PROOFS_def)
  show ?thesis
  proof (cases "pending_buffered_puzzle_proof_count_for_parent ?k ?m < MAX_BUFFERED_UNKNOWN_PARENT_PROOFS_PER_PARENT")
    case True
    then have "length ?b < MAX_BUFFERED_UNKNOWN_PARENT_PROOFS_PER_PARENT"
      using count_drop_above [of ?k "MAX_BUFFERED_UNKNOWN_PARENT_PROOFS - 1" ?m]
      by (auto simp: pending_buffered_puzzle_proof_count_for_parent_def split: option.splits)
    then have "bucket_ok E (?k, ?b @ [pr])"
      using assms(2,3) shape_hget [OF m1(1), of ?k] by (auto simp: bucket_ok_def split: option.splits)
    then have s: "buffer_shape E (hinsert ?k (?b @ [pr]) ?m1)" by (rule shape_hinsert [OF m1(1)])
    have "total_buffered_puzzle_proofs (hinsert ?k (?b @ [pr]) ?m1) = Suc (total_buffered_puzzle_proofs ?m1)"
    proof (cases "hget ?m1 ?k")
      case None
      then have "total_buffered_puzzle_proofs (hinsert ?k ps m) = total_buffered_puzzle_proofs m + length ps"
        if "hget m ?k = None" for m ps using that
        by (induction m) (auto simp: total_buffered_puzzle_proofs_def split: if_splits)
      with None show ?thesis by simp
    next
      case (Some ps)
      then show ?thesis using total_hinsert [OF Some, of "ps @ [pr]"] by simp
    qed
    then show ?thesis
      using s le assms(1) by (auto simp: buffer_verified_unknown_parent_proof_def Let_def core_def buffer_ok_def)
  next
    case False
    then show ?thesis using assms(1) by (auto simp: buffer_verified_unknown_parent_proof_def Let_def)
  qed
qed

section \<open>The invariant of the consensus state\<close>

text \<open>The node's own wallet is canonical and the schedule's, the engine has the parameters of the network, and a staged proof is
  the right answer of this wallet.\<close>

definition staged_ok :: "Ext \<Rightarrow> 'db BlockchainConsensus \<Rightarrow> bool" where
  "staged_ok E c \<longleftrightarrow> (\<forall>pr. bc_pending_puzzle_proof c = Some pr \<longrightarrow>
     pp_validator pr = bc_local_wallet c \<and> pp_height pr \<noteq> 0 \<and> pp_prev_block_hash pr \<noteq> zero_hash \<and>
     pp_output pr = fib (puzzle_index E (pp_prev_block_hash pr) (pp_height pr) (bc_local_wallet c)))"

definition node_ok :: "Ext \<Rightarrow> 'db BlockchainConsensus \<Rightarrow> bool" where
  "node_ok E c \<longleftrightarrow> canonical_wallet (bc_local_wallet c) \<and> ls_local_wallet (bc_leader_schedule c) = bc_local_wallet c \<and>
     bc_por_engine c = engine_from_globals \<and> staged_ok E c"

lemma node_ok_core: "core c' = core c \<Longrightarrow> node_ok E c' \<longleftrightarrow> node_ok E c"
  by (simp add: node_ok_def staged_ok_def core_fields [of c' c])

lemma node_ok_clear: "node_ok E c \<Longrightarrow> node_ok E (c\<lparr>bc_pending_puzzle_proof := None\<rparr>)"
  by (simp add: node_ok_def staged_ok_def)

lemma buffer_ok_clear: "buffer_ok E c \<Longrightarrow> buffer_ok E (c\<lparr>bc_pending_puzzle_proof := x\<rparr>)"
  by (simp add: buffer_ok_def)

definition consensus_ok :: "Ext \<Rightarrow> 'db BlockchainConsensus \<Rightarrow> bool" where
  "consensus_ok E c \<longleftrightarrow> node_ok E c \<and> buffer_ok E c"

lemma consensus_ok_clear: "consensus_ok E c \<Longrightarrow> consensus_ok E (clear_staged_local_puzzle_proof_with_reason c)"
  by (simp add: consensus_ok_def clear_staged_local_puzzle_proof_with_reason_def node_ok_clear buffer_ok_clear)

lemma gc_local_ok: "consensus_ok E c \<Longrightarrow> consensus_ok E (gc_buffered_puzzle_proofs_for_local_proposal G X h p c)"
  using gc_local_frame [of G X h p c E] node_ok_core by (auto simp: consensus_ok_def)

lemma gc_pool_ok: "consensus_ok E c \<Longrightarrow> consensus_ok E (gc_puzzle_pool_below G X h c)"
  using gc_below_frame [of G X h "c\<lparr>bc_puzzle_pool := gc_below h (bc_puzzle_pool c)\<rparr>" E] node_ok_core
  by (auto simp: consensus_ok_def gc_puzzle_pool_below_def buffer_ok_def core_def)

lemma safety_ok: "consensus_ok E c \<Longrightarrow> consensus_ok E (snd (ensure_runtime_local_proposal_safety G X h p c))"
  by (simp add: ensure_runtime_local_proposal_safety_def Let_def gc_local_ok consensus_ok_clear)

lemma safety_Inr:
  assumes "ensure_runtime_local_proposal_safety G X h p c = (Inr (), c')"
  shows "core c' = core c \<and> has_known_parent_hash G X p c' \<and> \<not> bc_runtime_branch_hydration_active c' \<and>
    \<not> bc_runtime_rejoin_catchup_gate_active c' \<and>
    (\<forall>t. bc_validator_state_rebuilt_at_tip c' = Some t \<longrightarrow> h \<le> Suc t) \<and>
    (\<forall>t x. bc_runtime_canonical_tip_height c' = Some t \<longrightarrow> bc_runtime_canonical_tip_hash c' = Some x \<longrightarrow> t = h - 1 \<and> x = p)"
proof -
  have c': "c' = gc_buffered_puzzle_proofs_for_local_proposal G X h p c" and k: "has_known_parent_hash G X p c"
    using assms by (auto simp: ensure_runtime_local_proposal_safety_def Let_def split: if_splits)
  have co: "core c' = core c" using gc_local_frame [of G X h p c] by (simp add: c')
  then have "has_known_parent_hash G X p c'" using k by (simp add: has_known_parent_hash_def core_fields(3) [OF co])
  then show ?thesis
    using co assms
    by (auto simp: ensure_runtime_local_proposal_safety_def Let_def c' saturating_sub_def split: if_splits option.splits)
qed

lemma solve_globals:
  assumes "canonical_wallet w"
  shows "\<exists>ms. solve_locally_checked E engine_from_globals (derive_puzzle E engine_from_globals h w p) elapsed =
    Inr \<lparr>ps_header = \<lparr>ph_height = h, ph_validator = w, ph_prev_block_hash = p, ph_kind = FibonacciDelayDev,
        ph_param = puzzle_index E p h w\<rparr>, ps_output = fib (puzzle_index E p h w), ps_solved_in_ms = ms\<rparr>"
proof -
  have "fib_iter_u128 (puzzle_index E p h w) = fib (puzzle_index E p h w)"
    using puzzle_index_bounds(2) [of E p h w] by (intro fib_iter_exact) (simp add: MAX_FIB_N_def)
  then show ?thesis
    by (simp add: solve_locally_checked_def Let_def normalize_derived [OF assms]) (simp add: derive_puzzle_globals [OF assms])
qed

lemma run_local_ok:
  assumes "consensus_ok (bx X) c"
  shows "consensus_ok (bx X) (snd (run_local_puzzle_for_block G X elapsed h p c))"
proof (cases "h = 0 \<or> p = zero_hash")
  case True
  then show ?thesis using assms by (auto simp: run_local_puzzle_for_block_def failS_def)
next
  case False
  obtain r c1 where s: "ensure_runtime_local_proposal_safety G X h p c = (r, c1)"
    by (cases "ensure_runtime_local_proposal_safety G X h p c")
  have ok: "consensus_ok (bx X) c1" using safety_ok [OF assms, of G X h p] by (simp add: s)
  then have cw: "canonical_wallet (bc_local_wallet c1)" and eng: "bc_por_engine c1 = engine_from_globals"
    by (auto simp: consensus_ok_def node_ok_def)
  obtain ms where ms: "solve_locally_checked (bx X) engine_from_globals
      (derive_puzzle (bx X) engine_from_globals h (bc_local_wallet c1) p) elapsed =
    Inr \<lparr>ps_header = \<lparr>ph_height = h, ph_validator = bc_local_wallet c1, ph_prev_block_hash = p, ph_kind = FibonacciDelayDev,
        ph_param = puzzle_index (bx X) p h (bc_local_wallet c1)\<rparr>,
      ps_output = fib (puzzle_index (bx X) p h (bc_local_wallet c1)), ps_solved_in_ms = ms\<rparr>"
    using solve_globals [OF cw] by blast
  show ?thesis
    using False ok
    by (cases r) (auto simp: run_local_puzzle_for_block_def bindS_def s readS_def eng ms from_solution_def Let_def consensus_ok_def
        node_ok_def staged_ok_def buffer_ok_def split: sum.splits prod.splits)
qed

lemma invalidate_ok: "consensus_ok E c \<Longrightarrow> consensus_ok E (invalidate_stale_staged_local_puzzle h p c)"
  by (simp add: invalidate_stale_staged_local_puzzle_def Let_def consensus_ok_def node_ok_clear buffer_ok_clear)

end
