(* ===== verification/MintGateProps.thy ===== *)
theory MintGateProps
  imports ConsensusProps ValidationProps
begin

text \<open>
  What passing the build gate means: the node holds the right answer to its own puzzle, it is the leader of the round, and the
  validator of another node with the same registry accepts the proposer and the puzzle of the block it may now build.
\<close>

section \<open>Reachable consensus states\<close>

definition keeps :: "('s \<Rightarrow> bool) \<Rightarrow> ('e, 's, 'a) esm \<Rightarrow> bool" where
  "keeps P m \<longleftrightarrow> (\<forall>s. P s \<longrightarrow> P (snd (m s)))"

lemma keeps_rules:
  "keeps P (failS e)" "keeps P (readS f)" "keeps P m \<Longrightarrow> (\<And>x. keeps P (k x)) \<Longrightarrow> keeps P (bindS m k)"
  "keeps P a \<Longrightarrow> keeps P b \<Longrightarrow> keeps P (if c then a else b)"
  by (auto simp: keeps_def failS_def readS_def bindS_def split: prod.splits sum.splits)

lemma keeps_safety: "keeps (consensus_ok E) (ensure_runtime_local_proposal_safety G X h p)"
  by (simp add: keeps_def safety_ok)

lemma keeps_run: "keeps (consensus_ok (bx X)) (run_local_puzzle_for_block G X elapsed h p)"
  by (simp add: keeps_def run_local_ok)

lemma keeps_staged: "keeps (consensus_ok (bx X)) (ensure_staged_local_puzzle_for_block G X elapsed h p)"
  unfolding ensure_staged_local_puzzle_for_block_def
proof (intro keeps_rules keeps_safety)
  fix u
  have "keeps (consensus_ok (bx X)) (bindS (readS (ensure_local_can_stage_puzzle_for_context (bx X) h p))
      (\<lambda>_. run_local_puzzle_for_block G X elapsed h p))"
    by (intro keeps_rules keeps_run)
  then show "keeps (consensus_ok (bx X)) (\<lambda>c0. let c = invalidate_stale_staged_local_puzzle h p c0 in
      if has_staged_local_puzzle_for_current_context h p c then (Inr (), c)
      else bindS (readS (ensure_local_can_stage_puzzle_for_context (bx X) h p))
        (\<lambda>_. run_local_puzzle_for_block G X elapsed h p) c)"
    by (auto simp: keeps_def Let_def invalidate_ok)
qed

lemma keeps_gate: "keeps (consensus_ok (bx X)) (assert_can_build_block G X clock elapsed h p byp)"
  unfolding assert_can_build_block_def by (intro keeps_rules keeps_safety keeps_staged)

inductive consensus_reachable :: "'db Engine \<Rightarrow> BlockExt \<Rightarrow> RegistryCodec \<Rightarrow> 'db BlockchainConsensus \<Rightarrow> bool" for G X R where
  start: "consensus_new G X R w tm mg = (Inr c, mg') \<Longrightarrow> consensus_reachable G X R c"
| validators: "consensus_reachable G X R c \<Longrightarrow> consensus_reachable G X R (c\<lparr>bc_validator_state := vs\<rparr>)"
| eligibility: "consensus_reachable G X R c \<Longrightarrow> consensus_reachable G X R (c\<lparr>bc_committee_eligibility := ce\<rparr>)"
| registry: "consensus_reachable G X R c \<Longrightarrow> consensus_reachable G X R (set_registry reg c)"
| take: "consensus_reachable G X R c \<Longrightarrow> consensus_reachable G X R (snd (take_pending_puzzle_proof c))"
| catchup: "consensus_reachable G X R c \<Longrightarrow> consensus_reachable G X R (set_runtime_rejoin_catchup_gate a reason c)"
| hydration: "consensus_reachable G X R c \<Longrightarrow> consensus_reachable G X R (set_runtime_branch_hydration_active a c)"
| tip_context: "consensus_reachable G X R c \<Longrightarrow> consensus_reachable G X R (set_runtime_canonical_tip_context t x c)"
| no_tip_context: "consensus_reachable G X R c \<Longrightarrow> consensus_reachable G X R (clear_runtime_canonical_tip_context c)"
| rebuilt: "consensus_reachable G X R c \<Longrightarrow> consensus_reachable G X R (note_validator_state_rebuilt_to_tip t c)"
| reset: "consensus_reachable G X R c \<Longrightarrow> consensus_reachable G X R (reset_runtime_proposal_safety_state t x c)"
| clear: "consensus_reachable G X R c \<Longrightarrow> consensus_reachable G X R (snd (clear_buffered_unknown_parent_puzzle_proofs_for_liveness c))"
| receive: "consensus_reachable G X R c \<Longrightarrow> consensus_reachable G X R (snd (on_puzzle_proof G X pr c))"
| replay: "consensus_reachable G X R c \<Longrightarrow> consensus_reachable G X R (snd (replay_buffered_puzzle_proofs_for_parent G X x c))"
| gc: "consensus_reachable G X R c \<Longrightarrow> consensus_reachable G X R (gc_puzzle_pool_below G X t c)"
| build: "consensus_reachable G X R c \<Longrightarrow> consensus_reachable G X R (snd (assert_can_build_block G X clock elapsed h p byp c))"

lemma consensus_new_ok: "consensus_new G X R w tm mg = (Inr c, mg') \<Longrightarrow> consensus_ok E c"
  by (auto simp: consensus_new_def consensus_ok_def node_ok_def staged_ok_def buffer_ok_def leader_schedule_new_def
      engine_from_globals_def total_buffered_puzzle_proofs_def res_simps canon_wallet_result canon_wallet_canonical
      split: sum.splits prod.splits)

lemma receive_ok:
  assumes "consensus_ok (bx X) c"
  shows "consensus_ok (bx X) (snd (on_puzzle_proof G X pr c))"
proof -
  have eng: "bc_por_engine c = engine_from_globals" and b: "buffer_ok (bx X) c" using assms by (auto simp: consensus_ok_def node_ok_def)
  have "consensus_ok (bx X) (snd (record_verified_proof_in_active_pool (bx X) pr c))"
    using assms record_frame [of "bx X" pr c] node_ok_core by (auto simp: consensus_ok_def buffer_ok_def)
  moreover have "consensus_ok (bx X) (snd (buffer_verified_unknown_parent_proof pr c))"
    if "pp_height pr \<noteq> 0" "pp_verify_with_engine (bx X) engine_from_globals pr"
    using assms buffer_frame [OF b that] node_ok_core by (auto simp: consensus_ok_def)
  ultimately show ?thesis using assms by (auto simp: on_puzzle_proof_def Let_def eng split: sum.splits option.splits)
qed

lemma replay_ok: "consensus_ok E c \<Longrightarrow> consensus_ok E (snd (replay_buffered_puzzle_proofs_for_parent G X h c))"
proof -
  let ?c = "snd (replay_buffered_puzzle_proofs_for_parent G X h c)"
  assume ok: "consensus_ok E c"
  have "node_ok E ?c" using replay_parent_frame [of G X h c] node_ok_core [of ?c c E] ok by (simp add: consensus_ok_def)
  moreover have "buffer_ok E ?c"
    using replay_parent_frame [of G X h c] buffer_ok_hremove [of E c ?c h] ok unfolding consensus_ok_def
    by (metis buffer_ok_def)
  ultimately show ?thesis by (simp add: consensus_ok_def)
qed

lemma consensus_reachable_ok: "consensus_reachable G X R c \<Longrightarrow> consensus_ok (bx X) c"
proof (induction rule: consensus_reachable.induct)
  case (start w tm mg c mg')
  then show ?case by (rule consensus_new_ok)
next
  case (build c clock elapsed h p byp)
  then show ?case using keeps_gate [of X G clock elapsed h p byp] unfolding keeps_def by blast
qed (simp_all add: gc_pool_ok receive_ok replay_ok,
    simp_all add: consensus_ok_def node_ok_def staged_ok_def buffer_ok_def set_registry_def take_pending_puzzle_proof_def
      set_runtime_rejoin_catchup_gate_def set_runtime_branch_hydration_active_def clear_staged_local_puzzle_proof_with_reason_def
      set_runtime_canonical_tip_context_def clear_runtime_canonical_tip_context_def note_validator_state_rebuilt_to_tip_def
      reset_runtime_proposal_safety_state_def clear_buffered_unknown_parent_puzzle_proofs_for_liveness_def
      total_buffered_puzzle_proofs_def Let_def)

section \<open>What the gate establishes\<close>

lemma staged_context:
  assumes "consensus_ok E c" and "has_staged_local_puzzle_for_current_context h p c"
  shows "bc_pending_puzzle_proof c = Some \<lparr>pp_height = h, pp_validator = bc_local_wallet c, pp_prev_block_hash = p,
    pp_output = fib (puzzle_index E p h (bc_local_wallet c))\<rparr>"
  using assms
  by (auto simp: has_staged_local_puzzle_for_current_context_def consensus_ok_def node_ok_def staged_ok_def
      split: option.splits intro!: PorPuzzleProof.equality)

text \<open>The staging changes only the staged proof, the pool and the buffer.\<close>

definition base :: "'db BlockchainConsensus \<Rightarrow> 'db BlockchainConsensus" where
  "base c = (core c)\<lparr>bc_pending_puzzle_proof := None\<rparr>"

lemma base_fields:
  assumes "base c = base c'"
  shows "bc_validator_state c = bc_validator_state c'" "bc_tm c = bc_tm c'" "bc_local_wallet c = bc_local_wallet c'"
    "bc_committee_eligibility c = bc_committee_eligibility c'" "bc_leader_schedule c = bc_leader_schedule c'"
  using assms by (cases c; cases c'; simp add: base_def core_def)+

lemma core_base: "core c = core c' \<Longrightarrow> base c = base c'"
  by (simp add: base_def)

lemma safety_base: "preserves base (ensure_runtime_local_proposal_safety G X h p)"
proof -
  have "base (gc_buffered_puzzle_proofs_for_local_proposal G X h p c) = base c" for c
    using gc_local_frame [of G X h p c] by (intro core_base) simp
  moreover have "base (clear_staged_local_puzzle_proof_with_reason c) = base c" for c
    by (simp add: base_def core_def clear_staged_local_puzzle_proof_with_reason_def)
  ultimately show ?thesis
    by (auto simp: preserves_def ensure_runtime_local_proposal_safety_def Let_def split: if_splits)
qed

lemma run_base: "preserves base (run_local_puzzle_for_block G X elapsed h p)"
  unfolding run_local_puzzle_for_block_def
  by (intro frames safety_base)
    (auto simp: preserves_def base_def core_def Let_def split: prod.splits sum.splits if_splits)

lemma staged_base: "preserves base (ensure_staged_local_puzzle_for_block G X elapsed h p)"
  unfolding ensure_staged_local_puzzle_for_block_def
proof (intro frames safety_base)
  fix u
  have i: "base (invalidate_stale_staged_local_puzzle h p c) = base c" for c
    by (simp add: invalidate_stale_staged_local_puzzle_def Let_def base_def core_def)
  have r: "preserves base (bindS (readS (ensure_local_can_stage_puzzle_for_context (bx X) h p))
      (\<lambda>_. run_local_puzzle_for_block G X elapsed h p))"
    by (intro frames run_base)
  show "preserves base (\<lambda>c0. let c = invalidate_stale_staged_local_puzzle h p c0 in
      if has_staged_local_puzzle_for_current_context h p c then (Inr (), c)
      else bindS (readS (ensure_local_can_stage_puzzle_for_context (bx X) h p))
        (\<lambda>_. run_local_puzzle_for_block G X elapsed h p) c)"
    unfolding preserves_def
  proof (intro allI impI)
    fix c res c'
    assume "(let c = invalidate_stale_staged_local_puzzle h p c in
      if has_staged_local_puzzle_for_current_context h p c then (Inr (), c)
      else bindS (readS (ensure_local_can_stage_puzzle_for_context (bx X) h p))
        (\<lambda>_. run_local_puzzle_for_block G X elapsed h p) c) = (res, c')"
    then show "base c' = base c" using i [of c] preservesD [OF r] by (auto simp: Let_def split: if_splits)
  qed
qed

text \<open>A successful run of the gate, opened.\<close>

lemma gate_Inr:
  assumes "assert_can_build_block G X clock elapsed h p byp c = (Inr (), c')"
  obtains c1 now auth where "0 < h" "p \<noteq> zero_hash" "base c1 = base c" "now_unix_secs_runtime clock = Inr now"
    and "assert_local_can_mint_now (bx X) (bc_leader_schedule c1) (bc_validator_state c1) (bc_committee_eligibility c1) (bc_tm c1) p h now = Inr auth"
    and "has_staged_local_puzzle_for_current_context h p c1"
    and "ensure_runtime_local_proposal_safety G X h p c1 = (Inr (), c')"
proof -
  obtain a b c1 now auth where c: "ensure_runtime_local_proposal_safety G X h p c = (Inr (), a)"
    "ensure_staged_local_puzzle_for_block G X elapsed h p a = (Inr (), b)"
    "ensure_runtime_local_proposal_safety G X h p b = (Inr (), c1)"
    and r: "0 < h" "p \<noteq> zero_hash" "now_unix_secs_runtime clock = Inr now"
    "assert_local_can_mint_now (bx X) (bc_leader_schedule c1) (bc_validator_state c1) (bc_committee_eligibility c1) (bc_tm c1) p h now = Inr auth"
    "has_staged_local_puzzle_for_current_context h p c1" "ensure_runtime_local_proposal_safety G X h p c1 = (Inr (), c')"
    using assms by (auto simp: assert_can_build_block_def res_simps split: if_splits)
  have "base c1 = base c"
    using preservesD [OF safety_base c(1)] preservesD [OF staged_base c(2)] preservesD [OF safety_base c(3)] by simp
  then show ?thesis using r that by blast
qed

text \<open>The leader of the round of its timestamp passes the proposer check, its answer the puzzle check.\<close>

lemma leader_passes_check:
  assumes reg: "registry_ok (vs_inner (fc_validator_state ctx))" and w: "canonical_wallet w"
    and m: "bl_miner block = w" "m_previous_hash (bl_metadata block) \<noteq> zero_hash"
    and sn: "committee_snapshot E (fc_validator_state ctx) (fc_tm ctx) (m_previous_hash (bl_metadata block)) (m_index (bl_metadata block)) = Inr sn"
    and r: "round_for_height_from_timestamp (fc_tm ctx) (m_index (bl_metadata block)) (m_timestamp (bl_metadata block)) = Inr (r, e, i, s)"
    and d: "leader_for_round E sn r = Inr d" "ld_leader d = w" "w \<in> set (sn_validators sn)"
  shows "check_proposer E ctx block = Inr w"
proof -
  have active: "canonical_validators_for_height (fc_validator_state ctx) (fc_tm ctx) (m_index (bl_metadata block)) = Inr (sn_validators sn)"
    using sn by (auto simp: committee_snapshot_def Let_def res_simps)
  have eq: "eq_ignore_ascii_case w w" by (simp add: eq_ignore_ascii_case_def)
  then have "list_ex (\<lambda>v. eq_ignore_ascii_case v w) (sn_validators sn)" using d(3) by (auto simp: list_ex_iff)
  then show ?thesis
    by (simp add: check_proposer_def Let_def m canon_wallet_canonical [OF w] active validate_proposer_from_block_timestamp_def
        trace_for_timestamp_def sn r make_trace_def d(1,2) contains_wallet_def eq)
qed

text \<open>The bounds a proof has to keep to be put into a block, which the gate does not check.\<close>

abbreviation provable :: "nat \<Rightarrow> hash \<Rightarrow> bool" where
  "provable h p \<equiv> h \<le> 10000000 \<and> p \<noteq> replicate 64 255"

lemma answer_fits_block:
  assumes w: "canonical_wallet w" and p: "p \<noteq> zero_hash"
    and pr: "pr = \<lparr>pp_height = h, pp_validator = w, pp_prev_block_hash = p, pp_output = fib (puzzle_index E p h w)\<rparr>"
  shows "(\<exists>bp. from_gossip pr = Inr bp) \<longleftrightarrow> provable h p"
    and "from_gossip pr = Inr bp \<Longrightarrow>
      bp = \<lparr>pz_height = h, pz_validator = w, pz_prev_block_hash = p, pz_output = fib (puzzle_index E p h w)\<rparr> \<and> proof_validate_structural bp = Inr ()"
proof -
  let ?bp = "\<lparr>pz_height = h, pz_validator = w, pz_prev_block_hash = p, pz_output = fib (puzzle_index E p h w)\<rparr>"
  have pos: "fib (puzzle_index E p h w) \<noteq> 0"
    using puzzle_index_bounds(1) [of E p h w] fib_pos [of "puzzle_index E p h w"] by simp
  have s: "proof_validate_structural ?bp = Inr () \<longleftrightarrow> provable h p"
    using structural_proofI [of ?bp] structural_proof_facts [of ?bp] w p pos by auto
  have g: "from_gossip pr = Inr x \<longleftrightarrow> x = ?bp \<and> proof_validate_structural ?bp = Inr ()" for x
    by (auto simp: from_gossip_def pr proof_new_def canonical_validator_checked_def MAX_VALIDATOR_LEN_def
        canonical_wallet_facts [OF w] canon_wallet_canonical [OF w] Let_def res_simps)
  show "(\<exists>bp. from_gossip pr = Inr bp) \<longleftrightarrow> provable h p" using g s by simp
  show "from_gossip pr = Inr bp \<Longrightarrow> bp = ?bp \<and> proof_validate_structural bp = Inr ()" using g by simp
qed

lemma answer_passes_check:
  assumes w: "canonical_wallet w" and h: "0 < h" and p: "p \<noteq> zero_hash"
    and pr: "pr = \<lparr>pp_height = h, pp_validator = w, pp_prev_block_hash = p, pp_output = fib (puzzle_index E p h w)\<rparr>"
    and bp: "from_gossip pr = Inr bp" and b: "m_index (bl_metadata block) = h" "m_previous_hash (bl_metadata block) = p"
      "m_puzzle_proof (bl_metadata block) = Some bp"
  shows "check_puzzle E block w = Inr ()"
proof -
  have e: "bp = \<lparr>pz_height = h, pz_validator = w, pz_prev_block_hash = p, pz_output = fib (puzzle_index E p h w)\<rparr>"
    and v: "proof_validate_structural bp = Inr ()"
    using answer_fits_block(2) [OF w p pr bp] by blast+
  have "proof_verify_with_engine_checked E engine_from_globals bp = Inr True" using v by (simp add: proof_decided e)
  then show ?thesis using v h b by (simp add: check_puzzle_def Let_def ok_or_def eq_ignore_ascii_case_def) (simp add: e)
qed

text \<open>No block that is not provable passes the puzzle check, whatever proof it holds.\<close>

lemma unprovable_refused:
  assumes "0 < m_index (bl_metadata block)" and "\<not> provable (m_index (bl_metadata block)) (m_previous_hash (bl_metadata block))"
  shows "check_puzzle E block w \<noteq> Inr ()"
  using assms structural_proof_facts by (fastforce simp: check_puzzle_def Let_def res_simps split: if_splits)

lemma gate_sound:
  assumes reach: "consensus_reachable G X R c" and gate: "assert_can_build_block G X clock elapsed h p byp c = (Inr (), c')"
    and reg: "registry_ok (vs_inner (bc_validator_state c))"
  obtains pr now where "bc_pending_puzzle_proof c' = Some pr" "now_unix_secs_runtime clock = Inr now" "0 < h"
    and "pr = \<lparr>pp_height = h, pp_validator = bc_local_wallet c, pp_prev_block_hash = p, pp_output = fib (puzzle_index (bx X) p h (bc_local_wallet c))\<rparr>"
    and "(\<exists>bp. from_gossip pr = Inr bp) \<longleftrightarrow> provable h p"
    and "has_known_parent_hash G X p c'" "\<not> bc_runtime_branch_hydration_active c'" "\<not> bc_runtime_rejoin_catchup_gate_active c'"
    and "\<And>block bp. from_gossip pr = Inr bp \<Longrightarrow> m_index (bl_metadata block) = h \<Longrightarrow> m_previous_hash (bl_metadata block) = p \<Longrightarrow>
      m_puzzle_proof (bl_metadata block) = Some bp \<Longrightarrow> check_puzzle (bx X) block (bc_local_wallet c) = Inr ()"
    and "\<And>block (ctx :: 'd FullBlockValidationContext). m_index (bl_metadata block) = h \<Longrightarrow> m_previous_hash (bl_metadata block) = p \<Longrightarrow>
      m_timestamp (bl_metadata block) = max now (leader_height_start_unix (bc_tm c) h) \<Longrightarrow> bl_miner block = bc_local_wallet c \<Longrightarrow>
      vs_inner (fc_validator_state ctx) = vs_inner (bc_validator_state c) \<Longrightarrow> fc_tm ctx = bc_tm c \<Longrightarrow>
      check_proposer (bx X) ctx block = Inr (bc_local_wallet c)"
proof -
  obtain c1 now auth where g: "0 < h" "p \<noteq> zero_hash" and b: "base c1 = base c" and now: "now_unix_secs_runtime clock = Inr now"
    and auth: "assert_local_can_mint_now (bx X) (bc_leader_schedule c1) (bc_validator_state c1) (bc_committee_eligibility c1) (bc_tm c1) p h now = Inr auth"
    and st: "has_staged_local_puzzle_for_current_context h p c1"
    and fin: "ensure_runtime_local_proposal_safety G X h p c1 = (Inr (), c')"
    by (rule gate_Inr [OF gate])
  have "consensus_ok (bx X) c'"
    using keeps_gate [of X G clock elapsed h p byp] consensus_reachable_ok [OF reach] gate by (metis keeps_def snd_conv)
  moreover have co: "core c' = core c1" using safety_Inr [OF fin] by blast
  moreover have "has_staged_local_puzzle_for_current_context h p c'"
    using st by (simp add: has_staged_local_puzzle_for_current_context_def core_fields [OF co] split: option.splits)
  ultimately have pr: "bc_pending_puzzle_proof c' = Some \<lparr>pp_height = h, pp_validator = bc_local_wallet c, pp_prev_block_hash = p,
      pp_output = fib (puzzle_index (bx X) p h (bc_local_wallet c))\<rparr>"
    using staged_context [of "bx X" c' h p] core_fields(5) [OF co] base_fields(3) [OF b] by simp
  have ok: "consensus_ok (bx X) c" by (rule consensus_reachable_ok [OF reach])
  then have w: "canonical_wallet (bc_local_wallet c)" "ls_local_wallet (bc_leader_schedule c) = bc_local_wallet c"
    by (auto simp: consensus_ok_def node_ok_def)
  note fits = answer_fits_block(1) [OF w(1) g(2) refl, of h "bx X"] and passes = answer_passes_check [OF w(1) g(1,2) refl, of "bx X"]
  obtain sn r e i s d where sn: "committee_snapshot (bx X) (bc_validator_state c) (bc_tm c) p h = Inr sn"
    and r: "round_for_height_from_timestamp (bc_tm c) h (max now (leader_height_start_unix (bc_tm c) h)) = Inr (r, e, i, s)"
    and d: "leader_for_round (bx X) sn r = Inr d" "ld_leader d = bc_local_wallet c" "ld_leader d \<in> set (sn_validators sn)"
    using mint_Inr [OF reg _ auth [unfolded base_fields [OF b]]] w by auto
  have lead: "check_proposer (bx X) ctx block = Inr (bc_local_wallet c)"
    if m: "m_index (bl_metadata block) = h" "m_previous_hash (bl_metadata block) = p"
      "m_timestamp (bl_metadata block) = max now (leader_height_start_unix (bc_tm c) h)" "bl_miner block = bc_local_wallet c"
      "vs_inner (fc_validator_state ctx) = vs_inner (bc_validator_state c)" "fc_tm ctx = bc_tm c"
    for block and ctx :: "'d FullBlockValidationContext"
  proof (rule leader_passes_check [where sn = sn and d = d and r = r and e = e and i = i and s = s])
    have "committee_snapshot (bx X) (fc_validator_state ctx) (bc_tm c) p h = committee_snapshot (bx X) (bc_validator_state c) (bc_tm c) p h"
      unfolding committee_snapshot_def canonical_validators_for_height_def proposable_at_def m(5) ..
    then show "committee_snapshot (bx X) (fc_validator_state ctx) (fc_tm ctx) (m_previous_hash (bl_metadata block)) (m_index (bl_metadata block)) = Inr sn"
      using sn m by simp
  qed (use m reg w g r d in auto)
  have safe: "has_known_parent_hash G X p c'" "\<not> bc_runtime_branch_hydration_active c'" "\<not> bc_runtime_rejoin_catchup_gate_active c'"
    using safety_Inr [OF fin] by blast+
  show ?thesis by (rule that [OF pr now g(1) refl fits safe]) (fact passes, fact lead)
qed

section \<open>Properties\<close>

text \<open>C5. Passing the build gate is enough, up to height 10,000,000. Take any reachable state of the consensus component with a valid
  registry (\<open>registry_ok\<close>, which every operation of the registry keeps) in which the gate opens for a height and a parent. Then the
  parent is known, no catch-up or recovery is under way, and the proof this node has staged holds the right answer for this
  height, parent and wallet. A block of this node on this parent, stamped with the time of the gate or the start of the height if that is
  later, passes the proposer check of every node with the same registry and clock. The staged proof can be put into a block exactly
  when the height is at most 10,000,000 and the parent hash is not made of 0xFF bytes, and a block with it then passes the puzzle
  check. The gate itself tests neither of the two bounds: outside them it still opens, and no block at this height on this
  parent passes the puzzle check of any node.\<close>

theorem build_gate_sound:
  assumes reach: "consensus_reachable G X R c" and gate: "assert_can_build_block G X clock elapsed h p byp c = (Inr (), c')"
    and reg: "registry_ok (vs_inner (bc_validator_state c))"
  shows "has_known_parent_hash G X p c' \<and> \<not> bc_runtime_branch_hydration_active c' \<and> \<not> bc_runtime_rejoin_catchup_gate_active c' \<and>
    (\<exists>pr now. bc_pending_puzzle_proof c' = Some pr \<and> now_unix_secs_runtime clock = Inr now \<and>
      pr = \<lparr>pp_height = h, pp_validator = bc_local_wallet c, pp_prev_block_hash = p, pp_output = fib (puzzle_index (bx X) p h (bc_local_wallet c))\<rparr> \<and>
      ((\<exists>bp. from_gossip pr = Inr bp) \<longleftrightarrow> h \<le> 10000000 \<and> p \<noteq> replicate 64 255) \<and>
      (\<forall>block (ctx :: 'd FullBlockValidationContext). m_index (bl_metadata block) = h \<longrightarrow> m_previous_hash (bl_metadata block) = p \<longrightarrow>
        m_timestamp (bl_metadata block) = max now (leader_height_start_unix (bc_tm c) h) \<longrightarrow> bl_miner block = bc_local_wallet c \<longrightarrow>
        vs_inner (fc_validator_state ctx) = vs_inner (bc_validator_state c) \<longrightarrow> fc_tm ctx = bc_tm c \<longrightarrow>
        check_proposer (bx X) ctx block = Inr (bc_local_wallet c)) \<and>
      (\<forall>block bp. m_index (bl_metadata block) = h \<longrightarrow> m_previous_hash (bl_metadata block) = p \<longrightarrow> from_gossip pr = Inr bp \<longrightarrow>
        m_puzzle_proof (bl_metadata block) = Some bp \<longrightarrow> check_puzzle (bx X) block (bc_local_wallet c) = Inr ()) \<and>
      (\<forall>block w. m_index (bl_metadata block) = h \<longrightarrow> m_previous_hash (bl_metadata block) = p \<longrightarrow>
        \<not> (h \<le> 10000000 \<and> p \<noteq> replicate 64 255) \<longrightarrow> check_puzzle (bx X) block w \<noteq> Inr ()))"
proof (rule gate_sound [OF assms, where 'd = 'd], goal_cases)
  case (1 pr now)
  note f = this
  have "\<forall>block w. m_index (bl_metadata block) = h \<longrightarrow> m_previous_hash (bl_metadata block) = p \<longrightarrow> \<not> provable h p \<longrightarrow> check_puzzle (bx X) block w \<noteq> Inr ()"
    using unprovable_refused f(3) by blast
  moreover have "\<forall>block bp. m_index (bl_metadata block) = h \<longrightarrow> m_previous_hash (bl_metadata block) = p \<longrightarrow> from_gossip pr = Inr bp \<longrightarrow>
      m_puzzle_proof (bl_metadata block) = Some bp \<longrightarrow> check_puzzle (bx X) block (bc_local_wallet c) = Inr ()"
    using f(9) by blast
  moreover have "\<forall>block (ctx :: 'd FullBlockValidationContext). m_index (bl_metadata block) = h \<longrightarrow> m_previous_hash (bl_metadata block) = p \<longrightarrow>
      m_timestamp (bl_metadata block) = max now (leader_height_start_unix (bc_tm c) h) \<longrightarrow> bl_miner block = bc_local_wallet c \<longrightarrow>
      vs_inner (fc_validator_state ctx) = vs_inner (bc_validator_state c) \<longrightarrow> fc_tm ctx = bc_tm c \<longrightarrow>
      check_proposer (bx X) ctx block = Inr (bc_local_wallet c)"
    using f(10) by blast
  ultimately show ?case using f(1,2,4-8) by (intro conjI exI [of _ pr] exI [of _ now])
qed

text \<open>C19. The buffer of proofs whose parent is not known never grows past its limits, whatever peers send: in every reachable
  state it holds at most 256 proofs, at most 32 for one parent, and only proofs that name this parent and hold the right answer
  to their puzzle.\<close>

theorem proof_buffer_bounded:
  assumes "consensus_reachable G X R c"
  shows "total_buffered_puzzle_proofs (bc_pending_proofs_by_prev_hash c) \<le> 256 \<and>
    (\<forall>h ps. hget (bc_pending_proofs_by_prev_hash c) h = Some ps \<longrightarrow> ps \<noteq> [] \<and> length ps \<le> 32 \<and>
      (\<forall>pr\<in>set ps. pp_prev_block_hash pr = h \<and> pp_verify_with_engine (bx X) engine_from_globals pr))"
  using consensus_reachable_ok [OF assms] shape_hget [of "bx X" "bc_pending_proofs_by_prev_hash c"]
  by (auto simp: consensus_ok_def buffer_ok_def bucket_ok_def MAX_BUFFERED_UNKNOWN_PARENT_PROOFS_def
      MAX_BUFFERED_UNKNOWN_PARENT_PROOFS_PER_PARENT_def)

end
