(* ===== verification/MintGateSamples.thy ===== *)
theory MintGateSamples
  imports MintGateProps ValidationSamples AccountSamples
begin

text \<open>
  A concrete run of the build gate: a node with one registered validator, itself, whose database holds the parent block, at
  height 6 and within the round it leads.
\<close>

definition gate_bext :: BlockExt where
  "gate_bext = sample_bext\<lparr>pc_block_from := \<lambda>_. Inr sample_block\<rparr>"

definition gate_db :: mem_db where
  "gate_db = [((BLOCK_TO_HASH_COLUMN_NAME, replicate 64 1), replicate 64 1)]"

definition gate_start :: "mem_db BlockchainConsensus" where
  "gate_start = \<lparr>bc_wallet_registry = ephemeral_new, bc_committee_eligibility = committee_new default_committee_config,
     bc_validator_state = with_manager (mem_manager []), bc_tm = leader_tm, bc_local_wallet = sample_wallet 97,
     bc_por_engine = engine_from_globals, bc_puzzle_pool = pool_new,
     bc_pending_proofs_by_prev_hash = [], bc_pending_puzzle_proof = None,
     bc_runtime_rejoin_catchup_gate_active = False, bc_runtime_rejoin_catchup_reason = None,
     bc_runtime_branch_hydration_active = False, bc_runtime_canonical_tip_height = None,
     bc_runtime_canonical_tip_hash = None, bc_validator_state_rebuilt_at_tip = Some 0,
     bc_leader_schedule = \<lparr>ls_local_wallet = sample_wallet 97\<rparr>\<rparr>"

definition gate_state :: "mem_db RockDBManager \<Rightarrow> mem_db BlockchainConsensus" where
  "gate_state mg = gate_start\<lparr>bc_validator_state := \<lparr>vs_inner = run_registry, vs_db_manager = mg\<rparr>,
     bc_committee_eligibility := leader_ce, bc_validator_state_rebuilt_at_tip := Some 5\<rparr>"

abbreviation gate_node :: "mem_db BlockchainConsensus" where
  "gate_node \<equiv> gate_state (mem_manager gate_db)"

lemma gate_new:
  assumes "get_tip_height G (mem_manager []) = Inr 0" and "mg_read G STATE_COLUMN_NAME VALIDATOR_STATE_KEY (mem_manager []) = Inr None"
  shows "consensus_new G X run_codec (sample_wallet 97) leader_tm (mem_manager []) = (Inr gate_start, mem_manager [])"
proof -
  have "load_or_new G X run_codec (mem_manager []) = (Inr (with_manager (mem_manager [])), mem_manager [])"
    using assms(2) by (simp add: load_or_new_def load_state_def)
  then show ?thesis
    by (simp add: consensus_new_def canon_wallet_canonical [OF sample_wallet_a] puzzle_globals_valid leader_schedule_new_def
        committee_config_validate_def default_committee_config_def [abs_def] gate_start_def engine_from_globals_def assms(1))
qed

lemma gate_reachable:
  assumes "get_tip_height G (mem_manager []) = Inr 0" and "mg_read G STATE_COLUMN_NAME VALIDATOR_STATE_KEY (mem_manager []) = Inr None"
  shows "consensus_reachable G X run_codec (gate_state mg)"
proof -
  have "consensus_reachable G X run_codec gate_start" by (rule consensus_reachable.start [OF gate_new [OF assms]])
  then have "consensus_reachable G X run_codec (note_validator_state_rebuilt_to_tip 5
      (gate_start\<lparr>bc_validator_state := \<lparr>vs_inner = run_registry, vs_db_manager = mg\<rparr>\<rparr>\<lparr>bc_committee_eligibility := leader_ce\<rparr>))"
    by (intro consensus_reachable.intros(2,3,10))
  then show ?thesis by (simp add: note_validator_state_rebuilt_to_tip_def gate_state_def)
qed

lemma gate_empty: "get_tip_height mem_engine (mem_manager []) = Inr 0"
  "mg_read mem_engine STATE_COLUMN_NAME VALIDATOR_STATE_KEY (mem_manager []) = Inr None"
  by (simp_all add: get_tip_height_def get_latest_block_index_def mg_read_def mem_manager_def open_db_blockchain_def column_def)
    (simp_all add: mem_engine_def)

lemma gate_parent: "get_block_by_hash mem_engine gate_bext (replicate 64 1) (mem_manager gate_db) = Some sample_block"
proof -
  have "sample_block\<lparr>bl_miner := []\<rparr> = sample_block" by (simp add: sample_block_def)
  then have "deserialize_from_storage gate_bext (replicate 64 1) = Inr sample_block"
    using sample_meta_valid
    by (simp add: deserialize_from_storage_def validate_storage_len_def cfg_defs normalize_and_validate_after_decode_def Let_def gate_bext_def)
      (simp add: sample_block_def validate_size_def sample_bext_def canonicalize_miner_for_height_def trim_none
        validate_batch_key_bound_def validate_block_hash_not_zero_def sample_meta_def cfg_defs)
  then show ?thesis by (simp add: get_block_by_hash_def gate_db_def)
qed

text \<open>With an empty buffer the guard changes nothing.\<close>

lemma gate_guard:
  assumes known: "get_block_by_hash G X p mg = Some parent"
  shows "ensure_runtime_local_proposal_safety G X 6 p
    ((gate_state mg)\<lparr>bc_puzzle_pool := pool, bc_pending_puzzle_proof := pr\<rparr>) = (Inr (), (gate_state mg)\<lparr>bc_puzzle_pool := pool, bc_pending_puzzle_proof := pr\<rparr>)"
proof -
  have d: "drop_above n [] = []" for n by (simp add: drop_above.simps total_buffered_puzzle_proofs_def)
  have "gc_buffered_puzzle_proofs_for_local_proposal G X 6 p
    ((gate_state mg)\<lparr>bc_puzzle_pool := pool, bc_pending_puzzle_proof := pr\<rparr>) = (gate_state mg)\<lparr>bc_puzzle_pool := pool, bc_pending_puzzle_proof := pr\<rparr>"
    by (simp add: gc_buffered_puzzle_proofs_for_local_proposal_def Let_def replay_buffered_puzzle_proofs_with_known_parents_def
        gate_state_def gate_start_def retain_proofs_def cap_buckets_def d)
  then show ?thesis
    by (simp add: ensure_runtime_local_proposal_safety_def Let_def has_known_parent_hash_def)
      (simp add: gate_state_def gate_start_def known saturating_sub_def)
qed

lemma gate_run:
  assumes known: "get_block_by_hash G X p mg = Some parent" and z: "p \<noteq> zero_hash"
  shows "\<exists>pool pr. ensure_staged_local_puzzle_for_block G X elapsed 6 p (gate_state mg) =
    (Inr (), (gate_state mg)\<lparr>bc_puzzle_pool := pool, bc_pending_puzzle_proof := Some pr\<rparr>) \<and>
    pp_height pr = 6 \<and> pp_prev_block_hash pr = p \<and> pp_validator pr = sample_wallet 97"
proof -
  let ?w = "sample_wallet 97"
  have g: "ensure_runtime_local_proposal_safety G X 6 p (gate_state mg) = (Inr (), (gate_state mg))"
    using gate_guard [OF known, where pool = "bc_puzzle_pool (gate_state mg)" and pr = "bc_pending_puzzle_proof (gate_state mg)"] by simp
  obtain sn where "committee_snapshot (bx X) leader_vs leader_tm p 6 = Inr sn" using leader_snapshot by blast
  moreover from this have v: "sn_validators sn = [?w]"
    using snapshot_Inr [OF leader_vs_ok, of "bx X" leader_tm p 6 sn] by (simp add: leader_tm_values leader_proposable)
  moreover have "committee_snapshot (bx X) \<lparr>vs_inner = run_registry, vs_db_manager = mg\<rparr> leader_tm p 6 =
      committee_snapshot (bx X) leader_vs leader_tm p 6"
    by (rule same_registry_snapshot) (simp add: leader_vs_def)
  moreover have "cd_eligible (decide_wallet ?w leader_ce)"
    by (simp add: decide_wallet_def canon_wallet_canonical [OF sample_wallet_a] leader_ce_def set_live_live)
      (simp add: set_live_def with_default_config_def committee_new_def decision_eligible_def)
  ultimately have c: "ensure_local_can_stage_puzzle_for_context (bx X) 6 p (gate_state mg) = Inr ()"
    by (simp add: ensure_local_can_stage_puzzle_for_context_def gate_state_def gate_start_def contains_wallet_def v eq_ignore_ascii_case_def
        ensure_local_runtime_mint_eligibility_for_staging_def runtime_mint_suppression_reasons_def Let_def)
  obtain ms where ms: "solve_locally_checked (bx X) engine_from_globals (derive_puzzle (bx X) engine_from_globals 6 ?w p) elapsed =
    Inr \<lparr>ps_header = \<lparr>ph_height = 6, ph_validator = ?w, ph_prev_block_hash = p, ph_kind = FibonacciDelayDev,
        ph_param = puzzle_index (bx X) p 6 ?w\<rparr>, ps_output = fib (puzzle_index (bx X) p 6 ?w), ps_solved_in_ms = ms\<rparr>"
    using solve_globals [OF sample_wallet_a] by blast
  have r: "record_success_checked (bx X) 6 ?w out pool_new = (Inr (), pool_put (bx X) 6 ?w out pool_new)" for out
  proof -
    have "pool_room 6 ?w pool_new"
      by (simp add: pool_room_def winners_or_default_def pool_new_def max_winners_per_height_def cfg_defs)
    then show ?thesis
      using sample_wallet_a by (simp add: record_cases [OF pool_ok_new] canonical_wallet_facts canon_wallet_canonical max_wallet_len_def)
  qed
  have f: "bc_local_wallet (gate_state mg) = ?w" "bc_por_engine (gate_state mg) = engine_from_globals" "bc_puzzle_pool (gate_state mg) = pool_new"
    "bc_pending_puzzle_proof (gate_state mg) = None"
    by (simp_all add: gate_state_def gate_start_def)
  show ?thesis
    using z
    by (simp add: ensure_staged_local_puzzle_for_block_def bindS_def g invalidate_stale_staged_local_puzzle_def Let_def f
        has_staged_local_puzzle_for_current_context_def readS_def c run_local_puzzle_for_block_def ms r from_solution_def
        eq_ignore_ascii_case_def)
      (rule exI, rule exI, rule conjI, rule refl, simp)
qed

lemma gate_opens:
  assumes known: "get_block_by_hash G X p mg = Some parent" and z: "p \<noteq> zero_hash"
  shows "\<exists>pool pr. assert_can_build_block G X 1700000175 elapsed 6 p False (gate_state mg) =
      (Inr (), (gate_state mg)\<lparr>bc_puzzle_pool := pool, bc_pending_puzzle_proof := Some pr\<rparr>) \<and>
    pp_height pr = 6 \<and> pp_prev_block_hash pr = p \<and> pp_validator pr = sample_wallet 97"
proof -
  obtain pool pr where s: "ensure_staged_local_puzzle_for_block G X elapsed 6 p (gate_state mg) =
      (Inr (), (gate_state mg)\<lparr>bc_puzzle_pool := pool, bc_pending_puzzle_proof := Some pr\<rparr>)"
    "pp_height pr = 6" "pp_prev_block_hash pr = p" "pp_validator pr = sample_wallet 97"
    using gate_run [OF known z] by blast
  have g: "ensure_runtime_local_proposal_safety G X 6 p (gate_state mg) = (Inr (), (gate_state mg))"
    using gate_guard [OF known, where pool = "bc_puzzle_pool (gate_state mg)" and pr = "bc_pending_puzzle_proof (gate_state mg)"] by simp
  obtain a where "assert_local_can_mint_now (bx X) \<lparr>ls_local_wallet = sample_wallet 97\<rparr> leader_vs leader_ce leader_tm p 6 1700000175 = Inr a"
    using leader_mints by blast
  moreover have "committee_snapshot (bx X) \<lparr>vs_inner = run_registry, vs_db_manager = mg\<rparr> leader_tm p 6 =
      committee_snapshot (bx X) leader_vs leader_tm p 6"
    by (rule same_registry_snapshot) (simp add: leader_vs_def)
  ultimately have m: "assert_local_can_mint_now (bx X) \<lparr>ls_local_wallet = sample_wallet 97\<rparr>
      \<lparr>vs_inner = run_registry, vs_db_manager = mg\<rparr> leader_ce leader_tm p 6 1700000175 = Inr a"
    by (simp add: assert_local_can_mint_now_def trace_for_now_def)
  have f: "bc_local_wallet (gate_state mg) = sample_wallet 97" "bc_leader_schedule (gate_state mg) = \<lparr>ls_local_wallet = sample_wallet 97\<rparr>"
    "bc_validator_state (gate_state mg) = \<lparr>vs_inner = run_registry, vs_db_manager = mg\<rparr>"
    "bc_committee_eligibility (gate_state mg) = leader_ce" "bc_tm (gate_state mg) = leader_tm"
    by (simp_all add: gate_state_def gate_start_def)
  have n: "now_unix_secs_runtime 1700000175 = Inr 1700000175"
    by (simp add: now_unix_secs_runtime_def validate_unix_secs_structural_def UNIX_2000_SECS_def UNIX_9999_SECS_def)
  show ?thesis
    using z s
    by (simp add: assert_can_build_block_def bindS_def g s(1) gate_guard [OF known] readS_def n f m eq_ignore_ascii_case_def
        has_staged_local_puzzle_for_current_context_def)
      (rule exI [of _ pool], rule exI [of _ pr], simp)
qed

section \<open>Witnesses\<close>

text \<open>A block the node may build behind the gate, with a given proof, at the time of the gate.\<close>

definition gate_block :: "BlockPuzzleProof \<Rightarrow> Block" where
  "gate_block bp = sample_block\<lparr>bl_metadata := sample_meta\<lparr>m_index := 6, m_previous_hash := replicate 64 1,
     m_timestamp := max 1700000175 (leader_height_start_unix leader_tm 6), m_puzzle_proof := Some bp\<rparr>, bl_miner := sample_wallet 97\<rparr>"

theorem build_gate_sound_witness:
  "\<exists>c pr bp. assert_can_build_block mem_engine gate_bext 1700000175 (0, 0) 6 (replicate 64 1) False gate_node = (Inr (), c) \<and>
     bc_pending_puzzle_proof c = Some pr \<and> has_known_parent_hash mem_engine gate_bext (replicate 64 1) c \<and>
     from_gossip pr = Inr bp \<and> pz_output bp = fib (puzzle_index fixed_ext (replicate 64 1) 6 (sample_wallet 97)) \<and>
     check_proposer fixed_ext val_ctx (gate_block bp) = Inr (sample_wallet 97) \<and>
     check_puzzle fixed_ext (gate_block bp) (sample_wallet 97) = Inr ()"
proof -
  obtain c where c: "assert_can_build_block mem_engine gate_bext 1700000175 (0, 0) 6 (replicate 64 1) False gate_node = (Inr (), c)"
    using gate_opens [OF gate_parent] by (auto simp: zero_hash_def)
  have r: "registry_ok (vs_inner (bc_validator_state gate_node))" using leader_vs_ok by (simp add: gate_state_def leader_vs_def)
  have x: "bx gate_bext = fixed_ext" by (simp add: gate_bext_def sample_bext_def)
  have f: "bc_local_wallet gate_node = sample_wallet 97" "vs_inner (bc_validator_state gate_node) = vs_inner leader_vs" "bc_tm gate_node = leader_tm"
    by (simp_all add: gate_state_def gate_start_def leader_vs_def)
  have n: "now_unix_secs_runtime 1700000175 = Inr 1700000175"
    by (simp add: now_unix_secs_runtime_def validate_unix_secs_structural_def UNIX_2000_SECS_def UNIX_9999_SECS_def)
  note s = build_gate_sound [OF gate_reachable [OF gate_empty] c r, where 'd = mem_db, unfolded f x n]
  obtain pr bp where p: "bc_pending_puzzle_proof c = Some pr" "from_gossip pr = Inr bp"
    and e: "pp_output pr = fib (puzzle_index fixed_ext (replicate 64 1) 6 (sample_wallet 97))" using s by auto
  have o: "pz_output bp = pp_output pr" using p(2) by (auto simp: from_gossip_def proof_new_def Let_def res_simps)
  have k: "has_known_parent_hash mem_engine gate_bext (replicate 64 1) c" using s by blast
  have b: "m_index (bl_metadata (gate_block bp)) = 6" "m_previous_hash (bl_metadata (gate_block bp)) = replicate 64 1"
    "m_timestamp (bl_metadata (gate_block bp)) = max 1700000175 (leader_height_start_unix leader_tm 6)"
    "bl_miner (gate_block bp) = sample_wallet 97" "m_puzzle_proof (bl_metadata (gate_block bp)) = Some bp"
    by (simp_all add: gate_block_def)
  have v: "vs_inner (fc_validator_state val_ctx) = vs_inner leader_vs" "fc_tm val_ctx = leader_tm" by (simp_all add: val_ctx_def)
  have "check_proposer fixed_ext val_ctx (gate_block bp) = Inr (sample_wallet 97)" using s b v by auto
  moreover have "check_puzzle fixed_ext (gate_block bp) (sample_wallet 97) = Inr ()" using s b(1,2,5) p by auto
  ultimately show ?thesis using c p e o k by auto
qed

text \<open>Two right proofs on a parent this node does not know arrive.\<close>

definition early_proof :: "nat \<Rightarrow> PorPuzzleProof" where
  "early_proof h = \<lparr>pp_height = h, pp_validator = sample_wallet 97, pp_prev_block_hash = replicate 64 2,
     pp_output = fib (puzzle_index fixed_ext (replicate 64 2) h (sample_wallet 97))\<rparr>"

lemma early_proof_right:
  assumes "0 < h" "h \<le> 10000000"
  shows "pp_verify_with_engine fixed_ext engine_from_globals (early_proof h)"
proof -
  have r: "replicate 64 2 \<noteq> zero_hash" "replicate 64 (2 :: byte) \<noteq> replicate 64 255" by (simp_all add: zero_hash_def)
  obtain bp where bp: "from_gossip (early_proof h) = Inr bp"
    using answer_fits_block(1) [OF sample_wallet_a r(1), of "early_proof h" h fixed_ext] assms r by (auto simp: early_proof_def)
  note f = answer_fits_block(2) [OF sample_wallet_a r(1) _ bp, of h fixed_ext]
  then have g: "to_gossip bp = early_proof h" by (auto simp: early_proof_def to_gossip_def)
  have "proof_validate_structural bp = Inr ()" using f by (auto simp: early_proof_def)
  note s = gossip_structural [OF this, unfolded g]
  then show ?thesis
    by (simp add: pp_verify_with_engine_def pp_verify_with_engine_checked_def Let_def)
      (use f in \<open>simp add: early_proof_def engine_verify_globals [OF sample_wallet_a]\<close>)
qed

lemma early_proofs_buffered:
  "bc_pending_proofs_by_prev_hash (snd (on_puzzle_proof mem_engine gate_bext (early_proof 7) (snd (on_puzzle_proof mem_engine gate_bext (early_proof 6) gate_node)))) =
     [(replicate 64 2, [early_proof 6, early_proof 7])]"
proof -
  have n: "get_block_by_hash mem_engine gate_bext (replicate 64 2) (mem_manager gate_db) = None"
    by (simp add: get_block_by_hash_def gate_db_def)
  have x: "bx gate_bext = fixed_ext" by (simp add: gate_bext_def sample_bext_def)
  have f: "pp_height (early_proof h) = h" "pp_validator (early_proof h) = sample_wallet 97" "pp_prev_block_hash (early_proof h) = replicate 64 2" for h
    by (simp_all add: early_proof_def)
  have c: "bc_por_engine gate_node = engine_from_globals" "bc_pending_proofs_by_prev_hash gate_node = []"
    "vs_db_manager (bc_validator_state gate_node) = mem_manager gate_db"
    by (simp_all add: gate_state_def gate_start_def)
  have on: "snd (on_puzzle_proof mem_engine gate_bext (early_proof h) c) = snd (buffer_verified_unknown_parent_proof (early_proof h) c)"
    if "0 < h" "h \<le> 10000000" "bc_por_engine c = engine_from_globals" "vs_db_manager (bc_validator_state c) = mem_manager gate_db" for h c
    using that early_proof_right by (simp add: on_puzzle_proof_def f canon_wallet_canonical [OF sample_wallet_a] n x)
  have d: "drop_above 255 m = m" if "total_buffered_puzzle_proofs m \<le> 1" for m
    using that by (simp add: drop_above.simps)
  show ?thesis
    by (simp add: on c buffer_verified_unknown_parent_proof_def Let_def f d pending_buffered_puzzle_proof_count_for_parent_def
        MAX_BUFFERED_UNKNOWN_PARENT_PROOFS_def MAX_BUFFERED_UNKNOWN_PARENT_PROOFS_PER_PARENT_def same_proof_identity_def
        total_buffered_puzzle_proofs_def)
qed

theorem proof_buffer_bounded_witness:
  "\<exists>c. consensus_reachable mem_engine gate_bext run_codec c \<and>
     bc_pending_proofs_by_prev_hash c = [(replicate 64 2, [early_proof 6, early_proof 7])] \<and>
     total_buffered_puzzle_proofs (bc_pending_proofs_by_prev_hash c) \<le> 256 \<and>
     length [early_proof 6, early_proof 7] \<le> 32 \<and> pp_verify_with_engine fixed_ext engine_from_globals (early_proof 7)"
proof -
  let ?c = "snd (on_puzzle_proof mem_engine gate_bext (early_proof 7) (snd (on_puzzle_proof mem_engine gate_bext (early_proof 6) gate_node)))"
  have r: "consensus_reachable mem_engine gate_bext run_codec ?c"
    by (intro consensus_reachable.receive gate_reachable [OF gate_empty])
  have x: "bx gate_bext = fixed_ext" by (simp add: gate_bext_def sample_bext_def)
  have h: "hget (bc_pending_proofs_by_prev_hash ?c) (replicate 64 2) = Some [early_proof 6, early_proof 7]"
    by (simp add: early_proofs_buffered)
  show ?thesis using proof_buffer_bounded [OF r] r h early_proofs_buffered by (intro exI [of _ ?c]) (fastforce simp: x)
qed

end
