(* ===== verification/Inflight.thy ===== *)
theory Inflight
  imports Prelude "HOL-Library.Multiset"
begin

text \<open>
  The limiter of requests in flight (\<open>src/network/p2p_019_inflight_limiter.rs\<close>). A permit is given back when it is dropped;
  a permit is the peer it was given to. Both counters are \<open>u32\<close>. A lock that was poisoned is used like one that was not, so the
  lock does not show in the model.
\<close>

type_synonym PeerId = "byte list"

section \<open>The limiter\<close>

record InflightInner =
  in_per_peer :: "(PeerId, nat) hmap"
  in_global :: nat

record InflightLimiter =
  il_max_per_peer :: nat
  il_max_global :: nat
  il_inner :: InflightInner

datatype InflightDrop = PeerCap | GlobalCap

datatype InflightDecision = InflightAllow PeerId | InflightRefuse InflightDrop

definition limiter_new :: "nat \<Rightarrow> nat \<Rightarrow> InflightLimiter" where
  "limiter_new max_per_peer max_global =
     \<lparr>il_max_per_peer = max_per_peer, il_max_global = max_global, il_inner = \<lparr>in_per_peer = [], in_global = 0\<rparr>\<rparr>"

definition permit_drop :: "PeerId \<Rightarrow> InflightLimiter \<Rightarrow> InflightLimiter" where
  "permit_drop peer l =
     (let g = il_inner l;
          per_peer = (case hget (in_per_peer g) peer of
              Some v \<Rightarrow> (let v' = saturating_sub v 1 in
                 if v' = 0 then hremove peer (in_per_peer g) else hinsert peer v' (in_per_peer g))
            | None \<Rightarrow> in_per_peer g) in
      l\<lparr>il_inner := \<lparr>in_per_peer = per_peer, in_global = saturating_sub (in_global g) 1\<rparr>\<rparr>)"

definition try_acquire :: "PeerId \<Rightarrow> InflightLimiter \<Rightarrow> InflightDecision \<times> InflightLimiter" where
  "try_acquire peer l =
     (let g = il_inner l in
      if in_global g = uint_max 32 then (InflightRefuse GlobalCap, l)
      else
        (let cur_peer = hget0 (in_per_peer g) peer in
         if cur_peer \<ge> il_max_per_peer l then (InflightRefuse PeerCap, l)
         else if in_global g \<ge> il_max_global l then (InflightRefuse GlobalCap, l)
         else if cur_peer = uint_max 32 then (InflightRefuse PeerCap, l)
         else (case checked_add 32 cur_peer 1 of
             None \<Rightarrow> (InflightRefuse PeerCap, l)
           | Some next_peer \<Rightarrow>
               (let l1 = l\<lparr>il_inner := g\<lparr>in_per_peer := hinsert peer next_peer (in_per_peer g)\<rparr>\<rparr> in
                (case checked_add 32 (in_global g) 1 of
                   None \<Rightarrow> (InflightRefuse GlobalCap, l1)
                 | Some next_global \<Rightarrow>
                     (InflightAllow peer, l1\<lparr>il_inner := (il_inner l1)\<lparr>in_global := next_global\<rparr>\<rparr>))))))"

section \<open>The contract of a limiter\<close>

text \<open>A limiter tracks the permits that are held, as a multiset of their holders: it gives one exactly when the holder and the
  whole are below their limits, and giving one back frees its place.\<close>

locale permit_limiter =
  fixes acquire :: "'p \<Rightarrow> 's \<Rightarrow> bool \<times> 's" and release :: "'p \<Rightarrow> 's \<Rightarrow> 's"
    and tracks :: "'s \<Rightarrow> 'p multiset \<Rightarrow> bool" and per_holder :: nat and total :: nat and start :: 's
  assumes start: "tracks start {#}"
    and acquire: "tracks s m \<Longrightarrow> acquire p s = (ok, s') \<Longrightarrow>
      (ok \<longleftrightarrow> count m p < per_holder \<and> size m < total) \<and> tracks s' (if ok then add_mset p m else m)"
    and release: "tracks s m \<Longrightarrow> p \<in># m \<Longrightarrow> tracks (release p s) (m - {#p#})"
begin

inductive holds :: "'s \<Rightarrow> 'p multiset \<Rightarrow> bool" where
  none: "holds start {#}"
| take: "holds s m \<Longrightarrow> acquire p s = (ok, s') \<Longrightarrow> holds s' (if ok then add_mset p m else m)"
| give: "holds s m \<Longrightarrow> p \<in># m \<Longrightarrow> holds (release p s) (m - {#p#})"

lemma holds_bounded: "holds s m \<Longrightarrow> tracks s m \<and> size m \<le> total \<and> (\<forall>p. count m p \<le> per_holder)"
proof (induction rule: holds.induct)
  case none
  then show ?case by (simp add: start)
next
  case (take s m p ok s')
  then have "ok \<longleftrightarrow> count m p < per_holder \<and> size m < total" "tracks s' (if ok then add_mset p m else m)"
    using acquire [of s m p ok s'] by auto
  then show ?case using take by auto
next
  case (give s m p)
  moreover have "size (m - {#p#}) \<le> size m" by (simp add: size_mset_mono)
  moreover have "count (m - {#p#}) q \<le> count m q" for q by simp
  ultimately show ?case using release [of s m p] by (meson le_trans)
qed

lemma holds_decides: "holds s m \<Longrightarrow> fst (acquire p s) \<longleftrightarrow> count m p < per_holder \<and> size m < total"
  using holds_bounded [of s m] acquire [of s m p] by (cases "acquire p s") auto

end

section \<open>The code's limiter keeps the contract\<close>

definition allowed :: "InflightDecision \<Rightarrow> bool" where
  "allowed d \<longleftrightarrow> (case d of InflightAllow _ \<Rightarrow> True | InflightRefuse _ \<Rightarrow> False)"

definition tracks_permits :: "nat \<Rightarrow> nat \<Rightarrow> InflightLimiter \<Rightarrow> PeerId multiset \<Rightarrow> bool" where
  "tracks_permits mp mg l m \<longleftrightarrow> il_max_per_peer l = mp \<and> il_max_global l = mg \<and> wf_map (in_per_peer (il_inner l)) \<and>
     (\<forall>p. hget0 (in_per_peer (il_inner l)) p = count m p) \<and> in_global (il_inner l) = size m \<and> size m \<le> min mg (2 ^ 32 - 1)"

lemma hget0_hremove: "wf_map m \<Longrightarrow> hget0 (hremove k m) k' = (if k' = k then 0 else hget0 m k')"
  by (simp add: hget0_def AList.delete_conv')

lemma acquire_tracks:
  assumes m: "mg < 2 ^ 32" and t: "tracks_permits mp mg l m" and a: "try_acquire p l = (d, l')"
  shows "(allowed d \<longleftrightarrow> count m p < mp \<and> size m < mg) \<and> tracks_permits mp mg l' (if allowed d then add_mset p m else m)"
proof -
  have c: "count m p \<le> size m" by (metis count_le_replicate_mset_subset_eq size_mset_mono size_replicate_mset le_refl)
  show ?thesis
    using t a m c
    by (auto simp: tracks_permits_def try_acquire_def Let_def uint_max_def checked_add_def allowed_def split: if_splits)
qed

lemma release_tracks:
  assumes t: "tracks_permits mp mg l m" and p: "p \<in># m"
  shows "tracks_permits mp mg (permit_drop p l) (m - {#p#})"
proof -
  have s: "size (m - {#p#}) = size m - 1" using p by (simp add: size_Diff_singleton)
  obtain v where v: "hget (in_per_peer (il_inner l)) p = Some v" "v = count m p" "0 < v"
    using t p by (cases "hget (in_per_peer (il_inner l)) p") (auto simp: tracks_permits_def hget0_def dest: spec [of _ p] split: option.splits)
  show ?thesis
    using t v s by (auto simp: tracks_permits_def permit_drop_def Let_def hget0_hremove)
qed

interpretation inflight: permit_limiter "\<lambda>p l. (case try_acquire p l of (d, l') \<Rightarrow> (allowed d, l'))" permit_drop
  "tracks_permits (min mp (2 ^ 32 - 1)) (min mg (2 ^ 32 - 1))" "min mp (2 ^ 32 - 1)" "min mg (2 ^ 32 - 1)"
  "limiter_new (min mp (2 ^ 32 - 1)) (min mg (2 ^ 32 - 1))" for mp mg
proof unfold_locales
  show "tracks_permits (min mp (2 ^ 32 - 1)) (min mg (2 ^ 32 - 1)) (limiter_new (min mp (2 ^ 32 - 1)) (min mg (2 ^ 32 - 1))) {#}"
    by (simp add: tracks_permits_def limiter_new_def)
qed (auto split: prod.splits dest: acquire_tracks [rotated] release_tracks)

section \<open>Properties\<close>

inductive inflight_reachable :: "nat \<Rightarrow> nat \<Rightarrow> InflightLimiter \<Rightarrow> PeerId multiset \<Rightarrow> bool" for mp mg where
  new: "inflight_reachable mp mg (limiter_new mp mg) {#}"
| acquire: "inflight_reachable mp mg l m \<Longrightarrow> try_acquire p l = (d, l') \<Longrightarrow>
    inflight_reachable mp mg l' (if d = InflightAllow p then add_mset p m else m)"
| drop: "inflight_reachable mp mg l m \<Longrightarrow> p \<in># m \<Longrightarrow> inflight_reachable mp mg (permit_drop p l) (m - {#p#})"

lemma allowed_self: "try_acquire p l = (d, l') \<Longrightarrow> allowed d \<longleftrightarrow> d = InflightAllow p"
  by (auto simp: try_acquire_def Let_def allowed_def split: if_splits option.splits)

lemma reachable_holds:
  assumes "mp < 2 ^ 32" "mg < 2 ^ 32" "inflight_reachable mp mg l m"
  shows "inflight.holds mp mg l m"
  using assms(3)
proof induction
  case new
  have "min mp (2 ^ 32 - 1) = mp" "min mg (2 ^ 32 - 1) = mg" using assms by auto
  then show ?case using inflight.holds.none [of mp mg] by simp
next
  case (acquire l m p d l')
  then show ?case using inflight.holds.take [of mp mg l m p "allowed d" l'] allowed_self [of p l d l'] by simp
next
  case (drop l m p)
  then show ?case by (intro inflight.holds.give)
qed

text \<open>C26. The limiter counts exactly the permits that are held. After any sequence of acquisitions and drops, the counters are the
  number of permits in flight, of each peer and in all, never above their limits, and a request gets a permit exactly when both are
  below.\<close>

theorem inflight_exact:
  assumes "mp < 2 ^ 32" and "mg < 2 ^ 32" and "inflight_reachable mp mg l m"
  shows "in_global (il_inner l) = size m \<and> (\<forall>p. hget0 (in_per_peer (il_inner l)) p = count m p) \<and>
    size m \<le> mg \<and> (\<forall>p. count m p \<le> mp) \<and>
    (\<forall>p. fst (try_acquire p l) = InflightAllow p \<longleftrightarrow> count m p < mp \<and> size m < mg)"
proof -
  have e: "min mp (2 ^ 32 - 1) = mp" "min mg (2 ^ 32 - 1) = mg" using assms by auto
  note h = reachable_holds [OF assms]
  have "fst (try_acquire p l) = InflightAllow p \<longleftrightarrow> count m p < mp \<and> size m < mg" for p
    using inflight.holds_decides [OF h, of p, unfolded e] allowed_self [of p l] by (auto split: prod.splits)
  then show ?thesis using inflight.holds_bounded [OF h, unfolded e] by (auto simp: tracks_permits_def)
qed

theorem inflight_exact_witness:
  "fst (try_acquire [7] (snd (try_acquire [7] (limiter_new 1 4)))) = InflightRefuse PeerCap \<and>
   in_global (il_inner (permit_drop [7] (snd (try_acquire [7] (limiter_new 1 4))))) = 0"
proof -
  let ?l = "snd (try_acquire [7] (limiter_new 1 4))"
  have "try_acquire [7] (limiter_new 1 4) = (InflightAllow [7], ?l)"
    by (simp add: try_acquire_def limiter_new_def Let_def uint_max_def checked_add_def)
  then have "inflight_reachable 1 4 ?l {#[7]#}"
    using inflight_reachable.acquire [OF inflight_reachable.new, of "[7]" 1 4 "InflightAllow [7]" ?l] by simp
  then have "inflight_reachable 1 4 (permit_drop [7] ?l) {#}" using inflight_reachable.drop [of 1 4 ?l "{#[7]#}" "[7]"] by simp
  then have "in_global (il_inner (permit_drop [7] ?l)) = 0" using inflight_exact [of 1 4 "permit_drop [7] ?l" "{#}"] by auto
  moreover have "fst (try_acquire [7] ?l) = InflightRefuse PeerCap"
    by (simp add: try_acquire_def limiter_new_def Let_def uint_max_def checked_add_def hget0_def)
  ultimately show ?thesis by blast
qed

end
