(* ===== verification/LastResort.thy ===== *)
theory LastResort
  imports Inflight Config RustText
begin

text \<open>
  The last line of defence against a flood of requests (\<open>src/network/p2p_018_last_resort_guards.rs\<close>): token buckets for
  requests and bytes, suppression of duplicates, misbehaviour scores with a cool-down, and the limiter of requests in flight.

  An \<open>Instant\<close> and a \<open>Duration\<close> are counts of nanoseconds. \<open>duration_since\<close> is 0 for a later instant, and \<open>checked_add\<close>
  on an instant fails past the largest one, of \<open>2 ^ 63 - 1\<close> whole seconds. An \<open>i32\<close> is an integer.
\<close>

unbundle bit_operations_syntax

section \<open>Time and constants\<close>

type_synonym Instant = nat
type_synonym Duration = nat

definition duration_since :: "Instant \<Rightarrow> Instant \<Rightarrow> Duration" where
  "duration_since now t = saturating_sub now t"

definition instant_checked_add :: "Instant \<Rightarrow> Duration \<Rightarrow> Instant option" where
  "instant_checked_add now d = (if now + d < 2 ^ 63 * 10 ^ 9 then Some (now + d) else None)"

definition KIB :: nat where
  "KIB = 1024"

definition MIB :: nat where
  "MIB = 1024 * KIB"

definition MAX_TRACKED_PEERS :: nat where
  "MAX_TRACKED_PEERS = 7500"

definition MAX_TRACKED_IPS :: nat where
  "MAX_TRACKED_IPS = 7500"

definition consensus_max_block_bytes_u64 :: nat where
  "consensus_max_block_bytes_u64 = (if MAX_BLOCK_SIZE = 0 then MIB else MAX_BLOCK_SIZE)"

datatype IpAddr = V4 "byte list" | V6 "byte list"

datatype LastResortDrop = NotAdmitted | PeerRateLimited | IpRateLimited | PeerInflightCap | GlobalInflightCap
  | DuplicateRequest | PeerByteBudgetExceeded | GlobalByteBudgetExceeded | PeerCoolingDown | CounterOverflow

datatype LastResortDecision = LastResortAllow | LastResortRefuse LastResortDrop

datatype ActionClass = Version | BlockTxGetBlock | BlockTxGetBatch | BlockTxGetTx | Gossip | Kad | Identify

record LastResortActionRequest =
  rq_now :: Instant
  rq_peer_id :: PeerId
  rq_admitted :: bool
  rq_peer_ip :: "IpAddr option"
  rq_action :: ActionClass
  rq_cost_tokens :: nat
  rq_dup_key :: "nat option"

record LastResortConfig =
  lc_require_admission_for :: "ActionClass list"
  lc_peer_bucket_capacity :: nat
  lc_peer_refill_per_sec :: nat
  lc_enable_ip_bucket :: bool
  lc_ip_bucket_capacity :: nat
  lc_ip_refill_per_sec :: nat
  lc_max_inflight_per_peer :: nat
  lc_max_inflight_global :: nat
  lc_dup_window :: Duration
  lc_dup_max_entries_per_peer :: nat
  lc_peer_bytes_capacity :: nat
  lc_peer_bytes_refill_per_sec :: nat
  lc_global_bytes_capacity :: nat
  lc_global_bytes_refill_per_sec :: nat
  lc_badness_threshold :: int
  lc_cooldown :: Duration
  lc_badness_decay_per_sec :: int

definition default_last_resort_config :: LastResortConfig where
  "default_last_resort_config =
     (let max_block = consensus_max_block_bytes_u64;
          peer_bytes_capacity = max (saturating_mul 64 max_block 16) (16 * MIB);
          peer_bytes_refill_per_sec = max (saturating_mul 64 max_block 2) (2 * MIB) in
      \<lparr>lc_require_admission_for = [BlockTxGetBlock, BlockTxGetBatch, BlockTxGetTx],
       lc_peer_bucket_capacity = 600, lc_peer_refill_per_sec = 200, lc_enable_ip_bucket = True,
       lc_ip_bucket_capacity = 6000, lc_ip_refill_per_sec = 600, lc_max_inflight_per_peer = 64,
       lc_max_inflight_global = 2048, lc_dup_window = 100 * 10 ^ 6, lc_dup_max_entries_per_peer = 1024,
       lc_peer_bytes_capacity = peer_bytes_capacity, lc_peer_bytes_refill_per_sec = peer_bytes_refill_per_sec,
       lc_global_bytes_capacity = max (saturating_mul 64 peer_bytes_capacity 8) (128 * MIB),
       lc_global_bytes_refill_per_sec = max (saturating_mul 64 peer_bytes_refill_per_sec 8) (16 * MIB),
       lc_badness_threshold = 100, lc_cooldown = 120 * 10 ^ 9, lc_badness_decay_per_sec = 5\<rparr>)"

section \<open>Token buckets\<close>

definition refill_add_u64 :: "Duration \<Rightarrow> nat \<Rightarrow> nat" where
  "refill_add_u64 dt per_sec =
     (if per_sec = 0 then 0
      else
        (let secs = dt div 10 ^ 9; nanos = dt mod 10 ^ 9;
             whole = saturating_mul 64 secs per_sec;
             frac = (case checked_div (saturating_mul 64 nanos per_sec) (10 ^ 9) of Some q \<Rightarrow> q | None \<Rightarrow> 0) in
         saturating_add 64 whole frac))"

definition refill_add_u32 :: "Duration \<Rightarrow> nat \<Rightarrow> nat" where
  "refill_add_u32 dt per_sec =
     (case try_from 32 (refill_add_u64 dt per_sec) of Some n \<Rightarrow> n | None \<Rightarrow> uint_max 32)"

record Bucket32 =
  b32_tokens :: nat
  b32_cap :: nat
  b32_refill_per_sec :: nat
  b32_last :: Instant

definition bucket32_new :: "nat \<Rightarrow> nat \<Rightarrow> Instant \<Rightarrow> Bucket32" where
  "bucket32_new cap refill_per_sec now = \<lparr>b32_tokens = cap, b32_cap = cap, b32_refill_per_sec = refill_per_sec, b32_last = now\<rparr>"

definition bucket32_refill :: "Instant \<Rightarrow> Bucket32 \<Rightarrow> Bucket32" where
  "bucket32_refill now b =
     (let dt = duration_since now (b32_last b);
          add = refill_add_u32 dt (b32_refill_per_sec b) in
      b\<lparr>b32_last := now, b32_tokens := min (saturating_add 32 (b32_tokens b) add) (b32_cap b)\<rparr>)"

definition bucket32_try_take :: "Instant \<Rightarrow> nat \<Rightarrow> Bucket32 \<Rightarrow> bool \<times> Bucket32" where
  "bucket32_try_take now cost b0 =
     (let b = bucket32_refill now b0 in
      if b32_tokens b \<ge> cost then (True, b\<lparr>b32_tokens := saturating_sub (b32_tokens b) cost\<rparr>) else (False, b))"

record Bucket64 =
  b64_tokens :: nat
  b64_cap :: nat
  b64_refill_per_sec :: nat
  b64_last :: Instant

definition bucket64_new :: "nat \<Rightarrow> nat \<Rightarrow> Instant \<Rightarrow> Bucket64" where
  "bucket64_new cap refill_per_sec now = \<lparr>b64_tokens = cap, b64_cap = cap, b64_refill_per_sec = refill_per_sec, b64_last = now\<rparr>"

definition bucket64_refill :: "Instant \<Rightarrow> Bucket64 \<Rightarrow> Bucket64" where
  "bucket64_refill now b =
     (let dt = duration_since now (b64_last b);
          add = refill_add_u64 dt (b64_refill_per_sec b) in
      b\<lparr>b64_last := now, b64_tokens := min (saturating_add 64 (b64_tokens b) add) (b64_cap b)\<rparr>)"

definition bucket64_try_take :: "Instant \<Rightarrow> nat \<Rightarrow> Bucket64 \<Rightarrow> bool \<times> Bucket64" where
  "bucket64_try_take now cost b0 =
     (let b = bucket64_refill now b0 in
      if b64_tokens b \<ge> cost then (True, b\<lparr>b64_tokens := saturating_sub (b64_tokens b) cost\<rparr>) else (False, b))"

section \<open>Recent keys\<close>

type_synonym RecentKeys = "(nat \<times> Instant) list"

fun recent_prune :: "Instant \<Rightarrow> Duration \<Rightarrow> RecentKeys \<Rightarrow> RecentKeys" where
  "recent_prune now window [] = []"
| "recent_prune now window ((k, t) # q) =
     (if duration_since now t > window then recent_prune now window q else (k, t) # q)"

definition recent_contains :: "nat \<Rightarrow> RecentKeys \<Rightarrow> bool" where
  "recent_contains h q = list_ex (\<lambda>(x, _). x = h) q"

definition recent_push :: "nat \<Rightarrow> Instant \<Rightarrow> nat \<Rightarrow> RecentKeys \<Rightarrow> RecentKeys" where
  "recent_push h now max_len q = (let q1 = q @ [(h, now)] in drop (length q1 - max_len) q1)"

section \<open>The state of a peer\<close>

definition i32_saturating_add :: "int \<Rightarrow> int \<Rightarrow> int" where
  "i32_saturating_add a b = max (- (2 ^ 31)) (min (2 ^ 31 - 1) (a + b))"

definition i32_saturating_sub :: "int \<Rightarrow> int \<Rightarrow> int" where
  "i32_saturating_sub a b = max (- (2 ^ 31)) (min (2 ^ 31 - 1) (a - b))"

record PeerState =
  ps_bucket :: Bucket32
  ps_bytes :: Bucket64
  ps_recent :: RecentKeys
  ps_badness :: int
  ps_last_decay :: Instant
  ps_cooldown_until :: "Instant option"

definition peer_state_new :: "LastResortConfig \<Rightarrow> Instant \<Rightarrow> PeerState" where
  "peer_state_new cfg now =
     \<lparr>ps_bucket = bucket32_new (lc_peer_bucket_capacity cfg) (lc_peer_refill_per_sec cfg) now,
      ps_bytes = bucket64_new (lc_peer_bytes_capacity cfg) (lc_peer_bytes_refill_per_sec cfg) now,
      ps_recent = [], ps_badness = 0, ps_last_decay = now, ps_cooldown_until = None\<rparr>"

definition decay_badness :: "LastResortConfig \<Rightarrow> Instant \<Rightarrow> PeerState \<Rightarrow> PeerState" where
  "decay_badness cfg now ps =
     (let dt = duration_since now (ps_last_decay ps); ps1 = ps\<lparr>ps_last_decay := now\<rparr> in
      if lc_badness_decay_per_sec cfg \<le> 0 then ps1
      else
        (let dec_u64 = refill_add_u64 dt (nat (lc_badness_decay_per_sec cfg));
             dec = (if dec_u64 < 2 ^ 31 then int dec_u64 else 2 ^ 31 - 1) in
         ps1\<lparr>ps_badness := max (i32_saturating_sub (ps_badness ps) dec) 0\<rparr>))"

definition add_badness :: "LastResortConfig \<Rightarrow> Instant \<Rightarrow> int \<Rightarrow> PeerState \<Rightarrow> PeerState" where
  "add_badness cfg now points ps0 =
     (let ps1 = decay_badness cfg now ps0;
          ps = ps1\<lparr>ps_badness := i32_saturating_add (ps_badness ps1) points\<rparr> in
      if ps_badness ps \<ge> lc_badness_threshold cfg
        then ps\<lparr>ps_cooldown_until := instant_checked_add now (lc_cooldown cfg), ps_badness := lc_badness_threshold cfg\<rparr>
      else ps)"

definition is_cooling_down :: "LastResortConfig \<Rightarrow> Instant \<Rightarrow> PeerState \<Rightarrow> bool \<times> PeerState" where
  "is_cooling_down cfg now ps0 =
     (let ps = decay_badness cfg now ps0 in
      case ps_cooldown_until ps of
        Some t \<Rightarrow> if now < t then (True, ps) else (False, ps\<lparr>ps_cooldown_until := None\<rparr>)
      | None \<Rightarrow> (False, ps))"

section \<open>The guards\<close>

datatype LastResortInflightDecision = PermitAllow PeerId | PermitRefuse LastResortDrop

record LastResortGuards =
  lg_cfg :: LastResortConfig
  lg_peer :: "(PeerId, PeerState) hmap"
  lg_ip :: "(IpAddr, Bucket32) hmap"
  lg_bytes_global :: Bucket64
  lg_inflight :: InflightLimiter

definition guards_new :: "LastResortConfig \<Rightarrow> Instant \<Rightarrow> LastResortGuards" where
  "guards_new cfg now =
     \<lparr>lg_cfg = cfg, lg_peer = [], lg_ip = [],
      lg_bytes_global = bucket64_new (lc_global_bytes_capacity cfg) (lc_global_bytes_refill_per_sec cfg) now,
      lg_inflight = limiter_new (lc_max_inflight_per_peer cfg) (lc_max_inflight_global cfg)\<rparr>"

definition guards_on_peer_disconnected :: "PeerId \<Rightarrow> LastResortGuards \<Rightarrow> LastResortGuards" where
  "guards_on_peer_disconnected peer g = g\<lparr>lg_peer := hremove peer (lg_peer g)\<rparr>"

definition bound_maps :: "LastResortGuards \<Rightarrow> LastResortGuards" where
  "bound_maps g =
     (let g1 = (if length (lg_peer g) > MAX_TRACKED_PEERS then g\<lparr>lg_peer := []\<rparr> else g) in
      if length (lg_ip g1) > MAX_TRACKED_IPS then g1\<lparr>lg_ip := []\<rparr> else g1)"

definition is_sync_retrieval_action :: "ActionClass \<Rightarrow> bool" where
  "is_sync_retrieval_action action \<longleftrightarrow> action \<in> {BlockTxGetBlock, BlockTxGetBatch, BlockTxGetTx}"

text \<open>\<open>entry(..).or_insert_with(..)\<close>: the state of the peer, new if there is none; what is done with it is stored.\<close>

definition peer_entry :: "Instant \<Rightarrow> PeerId \<Rightarrow> LastResortGuards \<Rightarrow> PeerState" where
  "peer_entry now peer g = (case hget (lg_peer g) peer of Some ps \<Rightarrow> ps | None \<Rightarrow> peer_state_new (lg_cfg g) now)"

definition store_peer :: "PeerId \<Rightarrow> PeerState \<Rightarrow> LastResortGuards \<Rightarrow> LastResortGuards" where
  "store_peer peer ps g = g\<lparr>lg_peer := hinsert peer ps (lg_peer g)\<rparr>"

text \<open>The rate limits of the peer and of its address.\<close>

definition spend_tokens ::
    "Instant \<Rightarrow> PeerId \<Rightarrow> nat \<Rightarrow> IpAddr option \<Rightarrow> PeerState \<Rightarrow> LastResortGuards \<Rightarrow> LastResortDecision \<times> LastResortGuards" where
  "spend_tokens now peer cost ip_opt ps g =
     (let cfg = lg_cfg g in
      case bucket32_try_take now cost (ps_bucket ps) of
        (False, b) \<Rightarrow> (LastResortRefuse PeerRateLimited, store_peer peer (add_badness cfg now 3 (ps\<lparr>ps_bucket := b\<rparr>)) g)
      | (True, b) \<Rightarrow>
          (let ps1 = ps\<lparr>ps_bucket := b\<rparr> in
           case ip_opt of
             None \<Rightarrow> (LastResortAllow, store_peer peer ps1 g)
           | Some ip \<Rightarrow>
               (let ib = (case hget (lg_ip g) ip of Some b \<Rightarrow> b
                          | None \<Rightarrow> bucket32_new (lc_ip_bucket_capacity cfg) (lc_ip_refill_per_sec cfg) now) in
                case bucket32_try_take now cost ib of
                  (ok, ib') \<Rightarrow>
                    (let g1 = g\<lparr>lg_ip := hinsert ip ib' (lg_ip g)\<rparr> in
                     if \<not> ok then (LastResortRefuse IpRateLimited, store_peer peer (add_badness cfg now 2 ps1) g1)
                     else (LastResortAllow, store_peer peer ps1 g1)))))"

definition check_action :: "LastResortActionRequest \<Rightarrow> LastResortGuards \<Rightarrow> LastResortDecision \<times> LastResortGuards" where
  "check_action req g0 =
     (let g = bound_maps g0; cfg = lg_cfg g; now = rq_now req; peer = rq_peer_id req in
      if \<not> rq_admitted req \<and> rq_action req \<in> set (lc_require_admission_for cfg) then (LastResortRefuse NotAdmitted, g)
      else
        (case is_cooling_down cfg now (peer_entry now peer g) of
           (True, ps) \<Rightarrow> (LastResortRefuse PeerCoolingDown, store_peer peer ps g)
         | (False, ps) \<Rightarrow>
             (let pruned = (case rq_dup_key req of Some _ \<Rightarrow> recent_prune now (lc_dup_window cfg) (ps_recent ps) | None \<Rightarrow> ps_recent ps);
                  is_duplicate = (case rq_dup_key req of Some k \<Rightarrow> recent_contains k pruned | None \<Rightarrow> False);
                  ps1 = ps\<lparr>ps_recent := pruned\<rparr> in
              if is_duplicate \<and> \<not> is_sync_retrieval_action (rq_action req)
                then (LastResortRefuse DuplicateRequest, store_peer peer (add_badness cfg now 2 ps1) g)
              else
                (let ps2 = (case rq_dup_key req of
                        Some k \<Rightarrow> if \<not> is_duplicate then ps1\<lparr>ps_recent := recent_push k now (lc_dup_max_entries_per_peer cfg) pruned\<rparr> else ps1
                      | None \<Rightarrow> ps1);
                     cost = max (rq_cost_tokens req) 1 in
                 spend_tokens now peer cost (if lc_enable_ip_bucket cfg then rq_peer_ip req else None) ps2 g))))"

definition try_begin_inflight :: "Instant \<Rightarrow> PeerId \<Rightarrow> LastResortGuards \<Rightarrow> LastResortInflightDecision \<times> LastResortGuards" where
  "try_begin_inflight now peer g0 =
     (let g = bound_maps g0; cfg = lg_cfg g in
      case is_cooling_down cfg now (peer_entry now peer g) of
        (True, ps) \<Rightarrow> (PermitRefuse PeerCoolingDown, store_peer peer ps g)
      | (False, ps) \<Rightarrow>
          (case try_acquire peer (lg_inflight g) of
             (d, l) \<Rightarrow>
               (let g1 = g\<lparr>lg_inflight := l\<rparr> in
                case d of
                  InflightAllow permit \<Rightarrow> (PermitAllow permit, store_peer peer ps g1)
                | InflightRefuse PeerCap \<Rightarrow> (PermitRefuse PeerInflightCap, store_peer peer (add_badness cfg now 4 ps) g1)
                | InflightRefuse GlobalCap \<Rightarrow> (PermitRefuse GlobalInflightCap, store_peer peer (add_badness cfg now 1 ps) g1))))"

definition check_bytes :: "Instant \<Rightarrow> PeerId \<Rightarrow> nat \<Rightarrow> LastResortGuards \<Rightarrow> LastResortDecision \<times> LastResortGuards" where
  "check_bytes now peer bytes g0 =
     (let g = bound_maps g0; cfg = lg_cfg g in
      case is_cooling_down cfg now (peer_entry now peer g) of
        (True, ps) \<Rightarrow> (LastResortRefuse PeerCoolingDown, store_peer peer ps g)
      | (False, ps) \<Rightarrow>
          (case bucket64_try_take now bytes (ps_bytes ps) of
             (False, b) \<Rightarrow> (LastResortRefuse PeerByteBudgetExceeded, store_peer peer (add_badness cfg now 5 (ps\<lparr>ps_bytes := b\<rparr>)) g)
           | (True, b) \<Rightarrow>
               (let ps1 = ps\<lparr>ps_bytes := b\<rparr> in
                case bucket64_try_take now bytes (lg_bytes_global g) of
                  (ok, gb) \<Rightarrow>
                    (let g1 = g\<lparr>lg_bytes_global := gb\<rparr> in
                     if \<not> ok then (LastResortRefuse GlobalByteBudgetExceeded, store_peer peer (add_badness cfg now 2 ps1) g1)
                     else (LastResortAllow, store_peer peer ps1 g1)))))"

definition report_misbehavior :: "Instant \<Rightarrow> PeerId \<Rightarrow> int \<Rightarrow> LastResortGuards \<Rightarrow> LastResortGuards" where
  "report_misbehavior now peer points g0 =
     (let g = bound_maps g0 in
      store_peer peer (add_badness (lg_cfg g) now (max points 1) (peer_entry now peer g)) g)"

definition dup_key_from_str :: "rstr \<Rightarrow> 64 word" where
  "dup_key_from_str s = fold (\<lambda>b h. (h XOR word_of_nat b) * 1099511628211) (as_bytes s) 14695981039346656037"

end
