(* ===== verification/LastResortProps.thy ===== *)
theory LastResortProps
  imports LastResort
begin

text \<open>
  What the buckets grant over time, the bounds the guards keep in every reachable state, and what a cool-down refuses.
\<close>

section \<open>Token buckets\<close>

text \<open>A run of requests against a bucket, and the sum of the costs that were granted.\<close>

fun granted :: "(Instant \<Rightarrow> nat \<Rightarrow> 'b \<Rightarrow> bool \<times> 'b) \<Rightarrow> (Instant \<times> nat) list \<Rightarrow> 'b \<Rightarrow> nat" where
  "granted take_tokens [] b = 0"
| "granted take_tokens ((now, cost) # rs) b =
     (case take_tokens now cost b of (ok, b') \<Rightarrow> (if ok then cost else 0) + granted take_tokens rs b')"

text \<open>The contract of a bucket: a request pays from what is left and the refill of the time since the last request, of whole
  tokens only.\<close>

locale token_bucket =
  fixes tokens :: "'b \<Rightarrow> nat" and rate :: "'b \<Rightarrow> nat" and last_at :: "'b \<Rightarrow> nat"
    and take_tokens :: "nat \<Rightarrow> nat \<Rightarrow> 'b \<Rightarrow> bool \<times> 'b"
  assumes pays: "take_tokens now cost b = (ok, b') \<Longrightarrow>
      rate b' = rate b \<and> last_at b' = now \<and>
      tokens b' + (if ok then cost else 0) \<le> tokens b + rate b * (now - last_at b) div 10 ^ 9"
begin

lemma granted_bound:
  "sorted (last_at b # map fst rs) \<Longrightarrow> \<forall>r\<in>set rs. fst r \<le> t \<Longrightarrow> last_at b \<le> t \<Longrightarrow>
   granted take_tokens rs b \<le> tokens b + rate b * (t - last_at b) div 10 ^ 9"
proof (induction rs arbitrary: b)
  case (Cons r rs)
  obtain now cost where r: "r = (now, cost)" by (cases r)
  obtain ok b' where b': "take_tokens now cost b = (ok, b')" by (cases "take_tokens now cost b")
  note p = pays [OF b']
  have o: "last_at b \<le> now" "now \<le> t" using Cons.prems by (auto simp: r)
  have "granted take_tokens rs b' \<le> tokens b' + rate b' * (t - last_at b') div 10 ^ 9"
    using Cons.prems by (intro Cons.IH) (auto simp: r p)
  then have "granted take_tokens (r # rs) b \<le> tokens b + rate b * (now - last_at b) div 10 ^ 9 + rate b * (t - now) div 10 ^ 9"
    using p by (simp add: r b' split: if_splits)
  also have "\<dots> \<le> tokens b + (rate b * (now - last_at b) + rate b * (t - now)) div 10 ^ 9"
    using div_add1_eq [of "rate b * (now - last_at b)" "rate b * (t - now)" "10 ^ 9"] by simp
  also have "rate b * (now - last_at b) + rate b * (t - now) = rate b * (t - last_at b)"
    using o by (simp add: diff_mult_distrib2)
  finally show ?case .
qed simp

text \<open>A fraction of a token is lost with every request, so requests that come faster than tokens get no refill at all.\<close>

lemma granted_starved:
  "successively (\<lambda>s t. rate b * (t - s) < 10 ^ 9) (last_at b # map fst rs) \<Longrightarrow> granted take_tokens rs b \<le> tokens b"
proof (induction rs arbitrary: b)
  case (Cons r rs)
  obtain now cost where r: "r = (now, cost)" by (cases r)
  obtain ok b' where b': "take_tokens now cost b = (ok, b')" by (cases "take_tokens now cost b")
  note p = pays [OF b']
  have "granted take_tokens rs b' \<le> tokens b'" using Cons.prems by (intro Cons.IH) (simp add: r p)
  moreover have "rate b * (now - last_at b) div 10 ^ 9 = 0" using Cons.prems by (simp add: r div_eq_0_iff)
  ultimately show ?case using p by (simp add: r b' split: if_splits)
qed simp

end

lemma refill_u64_le: "refill_add_u64 dt r \<le> r * dt div 10 ^ 9"
proof -
  have "r * dt = r * (dt div 10 ^ 9) * 10 ^ 9 + r * (dt mod 10 ^ 9)"
    by (metis (no_types) add_mult_distrib2 div_mult_mod_eq mult.assoc)
  then have e: "r * dt div 10 ^ 9 = r * (dt div 10 ^ 9) + r * (dt mod 10 ^ 9) div 10 ^ 9"
    by (metis add.commute div_mult_self1 power_not_zero zero_neq_numeral)
  have m: "saturating_mul 64 a b \<le> a * b" for a b by (simp add: saturating_mul_def)
  have "saturating_add 64 (saturating_mul 64 (dt div 10 ^ 9) r) (saturating_mul 64 (dt mod 10 ^ 9) r div 10 ^ 9) \<le>
      dt div 10 ^ 9 * r + dt mod 10 ^ 9 * r div 10 ^ 9"
    by (rule le_trans [OF saturating_add_le add_mono [OF m div_le_mono [OF m]]])
  then show ?thesis unfolding e by (simp add: refill_add_u64_def Let_def checked_div_def mult.commute)
qed

lemma refill_u32_le: "refill_add_u32 dt r \<le> r * dt div 10 ^ 9"
  using refill_u64_le [of dt r] by (simp add: refill_add_u32_def try_from_def uint_max_def)

lemma take32_facts:
  assumes "bucket32_try_take now cost b = (ok, b')"
  shows "b32_refill_per_sec b' = b32_refill_per_sec b" "b32_last b' = now" "b32_cap b' = b32_cap b" "b32_tokens b' \<le> b32_cap b"
    and "b32_tokens b' + (if ok then cost else 0) \<le> b32_tokens b + b32_refill_per_sec b * (now - b32_last b) div 10 ^ 9"
proof -
  have "b32_tokens (bucket32_refill now b) \<le> b32_tokens b + b32_refill_per_sec b * (now - b32_last b) div 10 ^ 9"
    using refill_u32_le [of "now - b32_last b" "b32_refill_per_sec b"]
      saturating_add_le [of 32 "b32_tokens b" "refill_add_u32 (now - b32_last b) (b32_refill_per_sec b)"]
    by (simp add: bucket32_refill_def Let_def duration_since_def)
  moreover have "b32_refill_per_sec (bucket32_refill now b) = b32_refill_per_sec b" "b32_last (bucket32_refill now b) = now"
    "b32_cap (bucket32_refill now b) = b32_cap b" "b32_tokens (bucket32_refill now b) \<le> b32_cap b"
    by (simp_all add: bucket32_refill_def Let_def)
  ultimately show "b32_refill_per_sec b' = b32_refill_per_sec b" "b32_last b' = now" "b32_cap b' = b32_cap b" "b32_tokens b' \<le> b32_cap b"
    "b32_tokens b' + (if ok then cost else 0) \<le> b32_tokens b + b32_refill_per_sec b * (now - b32_last b) div 10 ^ 9"
    using assms by (auto simp: bucket32_try_take_def Let_def split: if_splits)
qed

lemma take64_facts:
  assumes "bucket64_try_take now cost b = (ok, b')"
  shows "b64_refill_per_sec b' = b64_refill_per_sec b" "b64_last b' = now" "b64_cap b' = b64_cap b" "b64_tokens b' \<le> b64_cap b"
    and "b64_tokens b' + (if ok then cost else 0) \<le> b64_tokens b + b64_refill_per_sec b * (now - b64_last b) div 10 ^ 9"
proof -
  have "b64_tokens (bucket64_refill now b) \<le> b64_tokens b + b64_refill_per_sec b * (now - b64_last b) div 10 ^ 9"
    using refill_u64_le [of "now - b64_last b" "b64_refill_per_sec b"]
      saturating_add_le [of 64 "b64_tokens b" "refill_add_u64 (now - b64_last b) (b64_refill_per_sec b)"]
    by (simp add: bucket64_refill_def Let_def duration_since_def)
  moreover have "b64_refill_per_sec (bucket64_refill now b) = b64_refill_per_sec b" "b64_last (bucket64_refill now b) = now"
    "b64_cap (bucket64_refill now b) = b64_cap b" "b64_tokens (bucket64_refill now b) \<le> b64_cap b"
    by (simp_all add: bucket64_refill_def Let_def)
  ultimately show "b64_refill_per_sec b' = b64_refill_per_sec b" "b64_last b' = now" "b64_cap b' = b64_cap b" "b64_tokens b' \<le> b64_cap b"
    "b64_tokens b' + (if ok then cost else 0) \<le> b64_tokens b + b64_refill_per_sec b * (now - b64_last b) div 10 ^ 9"
    using assms by (auto simp: bucket64_try_take_def Let_def split: if_splits)
qed

interpretation bucket32: token_bucket b32_tokens b32_refill_per_sec b32_last bucket32_try_take
  by unfold_locales (intro conjI take32_facts)

interpretation bucket64: token_bucket b64_tokens b64_refill_per_sec b64_last bucket64_try_take
  by unfold_locales (intro conjI take64_facts)

section \<open>Bounds of the guards\<close>

definition bucket32_ok :: "nat \<Rightarrow> nat \<Rightarrow> Bucket32 \<Rightarrow> bool" where
  "bucket32_ok cap rate b \<longleftrightarrow> b32_tokens b \<le> cap \<and> b32_cap b = cap \<and> b32_refill_per_sec b = rate"

definition bucket64_ok :: "nat \<Rightarrow> nat \<Rightarrow> Bucket64 \<Rightarrow> bool" where
  "bucket64_ok cap rate b \<longleftrightarrow> b64_tokens b \<le> cap \<and> b64_cap b = cap \<and> b64_refill_per_sec b = rate"

definition peer_ok :: "LastResortConfig \<Rightarrow> PeerState \<Rightarrow> bool" where
  "peer_ok cfg ps \<longleftrightarrow> bucket32_ok (lc_peer_bucket_capacity cfg) (lc_peer_refill_per_sec cfg) (ps_bucket ps) \<and>
     bucket64_ok (lc_peer_bytes_capacity cfg) (lc_peer_bytes_refill_per_sec cfg) (ps_bytes ps) \<and>
     length (ps_recent ps) \<le> lc_dup_max_entries_per_peer cfg \<and> 0 \<le> ps_badness ps \<and> ps_badness ps \<le> lc_badness_threshold cfg"

lemma bucket32_new_ok [simp]: "bucket32_ok cap rate (bucket32_new cap rate now)"
  by (simp add: bucket32_ok_def bucket32_new_def)

lemma bucket32_take_ok: "bucket32_ok cap rate b \<Longrightarrow> bucket32_try_take now cost b = (ok, b') \<Longrightarrow> bucket32_ok cap rate b'"
  using take32_facts [of now cost b ok b'] by (simp add: bucket32_ok_def)

lemma bucket64_new_ok [simp]: "bucket64_ok cap rate (bucket64_new cap rate now)"
  by (simp add: bucket64_ok_def bucket64_new_def)

lemma bucket64_take_ok: "bucket64_ok cap rate b \<Longrightarrow> bucket64_try_take now cost b = (ok, b') \<Longrightarrow> bucket64_ok cap rate b'"
  using take64_facts [of now cost b ok b'] by (simp add: bucket64_ok_def)

text \<open>A configuration with a positive \<open>i32\<close> threshold.\<close>

definition cfg_ok :: "LastResortConfig \<Rightarrow> bool" where
  "cfg_ok cfg \<longleftrightarrow> 0 < lc_badness_threshold cfg \<and> lc_badness_threshold cfg < 2 ^ 31"

lemma peer_new_ok: "cfg_ok cfg \<Longrightarrow> peer_ok cfg (peer_state_new cfg now)"
  by (simp add: peer_ok_def peer_state_new_def cfg_ok_def)

lemma decay_ok: "cfg_ok cfg \<Longrightarrow> peer_ok cfg ps \<Longrightarrow> peer_ok cfg (decay_badness cfg now ps)"
  by (auto simp: peer_ok_def decay_badness_def Let_def i32_saturating_sub_def cfg_ok_def)

lemma add_badness_ok: "cfg_ok cfg \<Longrightarrow> peer_ok cfg ps \<Longrightarrow> 0 \<le> points \<Longrightarrow> peer_ok cfg (add_badness cfg now points ps)"
  using decay_ok [of cfg ps now] by (auto simp: add_badness_def Let_def peer_ok_def i32_saturating_add_def cfg_ok_def)

lemma cooling_ok: "cfg_ok cfg \<Longrightarrow> peer_ok cfg ps \<Longrightarrow> is_cooling_down cfg now ps = (c, ps') \<Longrightarrow> peer_ok cfg ps'"
  using decay_ok [of cfg ps now]
  by (auto simp: is_cooling_down_def Let_def peer_ok_def split: option.splits if_splits)

lemma recent_prune_length: "length (recent_prune now window q) \<le> length q"
  by (induction now window q rule: recent_prune.induct) auto

lemma recent_push_length: "length (recent_push h now m q) \<le> m"
  by (simp add: recent_push_def Let_def)

definition guards_ok :: "LastResortConfig \<Rightarrow> LastResortGuards \<Rightarrow> bool" where
  "guards_ok cfg g \<longleftrightarrow> lg_cfg g = cfg \<and> wf_map (lg_peer g) \<and> wf_map (lg_ip g) \<and>
     length (lg_peer g) \<le> Suc MAX_TRACKED_PEERS \<and> length (lg_ip g) \<le> Suc MAX_TRACKED_IPS \<and>
     (\<forall>e\<in>set (lg_peer g). peer_ok cfg (snd e)) \<and>
     (\<forall>e\<in>set (lg_ip g). bucket32_ok (lc_ip_bucket_capacity cfg) (lc_ip_refill_per_sec cfg) (snd e)) \<and>
     bucket64_ok (lc_global_bytes_capacity cfg) (lc_global_bytes_refill_per_sec cfg) (lg_bytes_global g)"

text \<open>After the maps are bounded there is room for one more entry of each kind.\<close>

definition room :: "LastResortConfig \<Rightarrow> LastResortGuards \<Rightarrow> bool" where
  "room cfg g \<longleftrightarrow> guards_ok cfg g \<and> length (lg_peer g) \<le> MAX_TRACKED_PEERS \<and> length (lg_ip g) \<le> MAX_TRACKED_IPS"

lemma length_hinsert_le: "length (hinsert k v m) \<le> Suc (length m)"
  by (simp add: length_hinsert)

lemma bound_maps_room: "guards_ok cfg g \<Longrightarrow> room cfg (bound_maps g)"
  by (auto simp: room_def guards_ok_def bound_maps_def Let_def)

lemma set_hinsert: "e \<in> set (hinsert k v m) \<Longrightarrow> e = (k, v) \<or> e \<in> set m"
  by (induction m) (auto split: if_splits)

lemma room_ok: "room cfg g \<Longrightarrow> guards_ok cfg g"
  by (simp add: room_def)

lemma peer_entry_ok: "cfg_ok cfg \<Longrightarrow> room cfg g \<Longrightarrow> peer_ok cfg (peer_entry now peer g)"
  by (auto simp: room_def guards_ok_def peer_entry_def peer_new_ok dest!: map_of_SomeD split: option.splits)

lemma store_peer_ok:
  assumes "length (lg_peer g) \<le> MAX_TRACKED_PEERS" "guards_ok cfg g" "peer_ok cfg ps"
  shows "guards_ok cfg (store_peer peer ps g)"
  using assms length_hinsert_le [of peer ps "lg_peer g"]
  by (auto simp: guards_ok_def store_peer_def dest!: set_hinsert)

lemma store_ip_ok:
  assumes "room cfg g" "bucket32_ok (lc_ip_bucket_capacity cfg) (lc_ip_refill_per_sec cfg) b"
  shows "guards_ok cfg (g\<lparr>lg_ip := hinsert ip b (lg_ip g)\<rparr>)"
  using assms length_hinsert_le [of ip b "lg_ip g"] by (auto simp: room_def guards_ok_def dest!: set_hinsert)

lemma ip_entry_ok:
  "room cfg g \<Longrightarrow> bucket32_ok (lc_ip_bucket_capacity cfg) (lc_ip_refill_per_sec cfg)
     (case hget (lg_ip g) ip of Some b \<Rightarrow> b | None \<Rightarrow> bucket32_new (lc_ip_bucket_capacity cfg) (lc_ip_refill_per_sec cfg) now)"
  by (auto simp: room_def guards_ok_def dest!: map_of_SomeD split: option.splits)

lemma spend_tokens_ok:
  assumes c: "cfg_ok cfg" and r: "room cfg g" and k: "peer_ok cfg ps"
  shows "guards_ok cfg (snd (spend_tokens now peer cost ip_opt ps g))"
proof -
  obtain ok b where b: "bucket32_try_take now cost (ps_bucket ps) = (ok, b)" by (cases "bucket32_try_take now cost (ps_bucket ps)")
  have k1: "peer_ok cfg (ps\<lparr>ps_bucket := b\<rparr>)" using k bucket32_take_ok [OF _ b] by (simp add: peer_ok_def)
  have g: "length (lg_peer g) \<le> MAX_TRACKED_PEERS" "guards_ok cfg g" "lg_cfg g = cfg" using r by (auto simp: room_def guards_ok_def)
  show ?thesis
  proof (cases "ok \<and> ip_opt \<noteq> None")
    case False
    then show ?thesis
      using store_peer_ok [OF g(1,2) k1] store_peer_ok [OF g(1,2) add_badness_ok [OF c k1, of 3 now]]
      by (cases ok) (auto simp: spend_tokens_def Let_def b g(3))
  next
    case True
    then obtain ip where ip: "ip_opt = Some ip" by auto
    let ?ib = "case hget (lg_ip g) ip of Some b \<Rightarrow> b | None \<Rightarrow> bucket32_new (lc_ip_bucket_capacity cfg) (lc_ip_refill_per_sec cfg) now"
    obtain x ib where ib: "bucket32_try_take now cost ?ib = (x, ib)" by (cases "bucket32_try_take now cost ?ib")
    have "guards_ok cfg (g\<lparr>lg_ip := hinsert ip ib (lg_ip g)\<rparr>)" by (rule store_ip_ok [OF r bucket32_take_ok [OF ip_entry_ok [OF r] ib]])
    then have "guards_ok cfg (store_peer peer ps' (g\<lparr>lg_ip := hinsert ip ib (lg_ip g)\<rparr>))" if "peer_ok cfg ps'" for ps'
      using that g by (intro store_peer_ok) auto
    then show ?thesis using True k1 add_badness_ok [OF c k1, of 2 now] by (simp add: spend_tokens_def Let_def b ip ib g(3))
  qed
qed

lemma check_action_ok:
  assumes c: "cfg_ok cfg" and g0: "guards_ok cfg g0"
  shows "guards_ok cfg (snd (check_action req g0))"
proof -
  let ?g = "bound_maps g0" and ?now = "rq_now req" and ?p = "rq_peer_id req"
  have r: "room cfg ?g" by (rule bound_maps_room [OF g0])
  then have f: "lg_cfg ?g = cfg" "length (lg_peer ?g) \<le> MAX_TRACKED_PEERS" "guards_ok cfg ?g" by (auto simp: room_def guards_ok_def)
  obtain cool ps where ps: "is_cooling_down cfg ?now (peer_entry ?now ?p ?g) = (cool, ps)"
    by (cases "is_cooling_down cfg ?now (peer_entry ?now ?p ?g)")
  have k: "peer_ok cfg ps" by (rule cooling_ok [OF c peer_entry_ok [OF c r] ps])
  have k1: "peer_ok cfg (ps\<lparr>ps_recent := recent_prune ?now (lc_dup_window cfg) (ps_recent ps)\<rparr>)"
    using k recent_prune_length [of ?now "lc_dup_window cfg" "ps_recent ps"] by (simp add: peer_ok_def)
  have k2: "peer_ok cfg (ps\<lparr>ps_recent := recent_push x ?now (lc_dup_max_entries_per_peer cfg) q\<rparr>)" for x q
    using k recent_push_length [of x ?now "lc_dup_max_entries_per_peer cfg" q] by (simp add: peer_ok_def)
  note stores = store_peer_ok [OF f(2,3)] spend_tokens_ok [OF c r]
  show ?thesis
  proof (cases "(\<not> rq_admitted req \<and> rq_action req \<in> set (lc_require_admission_for cfg)) \<or> cool")
    case True
    then show ?thesis using f stores(1) [OF k] by (auto simp: check_action_def Let_def ps)
  next
    case False
    then show ?thesis
      using stores(1) [OF add_badness_ok [OF c k1, of 2]] stores(2) [OF k1] stores(2) [OF k2] stores(2) [OF k]
      by (cases "rq_dup_key req") (simp_all add: check_action_def Let_def f ps)
  qed
qed

lemma inflight_ok:
  assumes c: "cfg_ok cfg" and g0: "guards_ok cfg g0"
  shows "guards_ok cfg (snd (try_begin_inflight now peer g0))"
proof -
  let ?g = "bound_maps g0"
  have r: "room cfg ?g" by (rule bound_maps_room [OF g0])
  then have f: "lg_cfg ?g = cfg" "length (lg_peer ?g) \<le> MAX_TRACKED_PEERS" "guards_ok cfg ?g" by (auto simp: room_def guards_ok_def)
  obtain cool ps where ps: "is_cooling_down cfg now (peer_entry now peer ?g) = (cool, ps)"
    by (cases "is_cooling_down cfg now (peer_entry now peer ?g)")
  have k: "peer_ok cfg ps" by (rule cooling_ok [OF c peer_entry_ok [OF c r] ps])
  have "guards_ok cfg (store_peer peer ps' (?g\<lparr>lg_inflight := l\<rparr>))" if "peer_ok cfg ps'" for ps' l
    using that f by (intro store_peer_ok) (auto simp: guards_ok_def)
  then show ?thesis
    unfolding try_begin_inflight_def Let_def f ps using f c k
    by (auto simp: add_badness_ok intro!: store_peer_ok split: bool.splits prod.splits InflightDecision.splits InflightDrop.splits)
qed

lemma check_bytes_ok:
  assumes c: "cfg_ok cfg" and g0: "guards_ok cfg g0"
  shows "guards_ok cfg (snd (check_bytes now peer bytes g0))"
proof -
  let ?g = "bound_maps g0"
  have r: "room cfg ?g" by (rule bound_maps_room [OF g0])
  then have f: "lg_cfg ?g = cfg" "length (lg_peer ?g) \<le> MAX_TRACKED_PEERS" "guards_ok cfg ?g" by (auto simp: room_def guards_ok_def)
  obtain cool ps where ps: "is_cooling_down cfg now (peer_entry now peer ?g) = (cool, ps)"
    by (cases "is_cooling_down cfg now (peer_entry now peer ?g)")
  have k: "peer_ok cfg ps" by (rule cooling_ok [OF c peer_entry_ok [OF c r] ps])
  obtain ok b where b: "bucket64_try_take now bytes (ps_bytes ps) = (ok, b)" by (cases "bucket64_try_take now bytes (ps_bytes ps)")
  have k1: "peer_ok cfg (ps\<lparr>ps_bytes := b\<rparr>)" using k bucket64_take_ok [OF _ b] by (simp add: peer_ok_def)
  have "guards_ok cfg (store_peer peer ps' (?g\<lparr>lg_bytes_global := gb\<rparr>))"
    if "peer_ok cfg ps'" "bucket64_try_take now bytes (lg_bytes_global ?g) = (x, gb)" for ps' gb x
    using that f bucket64_take_ok [OF _ that(2)] by (intro store_peer_ok) (auto simp: guards_ok_def)
  then show ?thesis
    unfolding check_bytes_def Let_def f ps using f c k k1
    by (auto simp: b add_badness_ok intro!: store_peer_ok split: bool.splits prod.splits)
qed

lemma report_ok:
  assumes c: "cfg_ok cfg" and g0: "guards_ok cfg g0"
  shows "guards_ok cfg (report_misbehavior now peer points g0)"
proof -
  have r: "room cfg (bound_maps g0)" by (rule bound_maps_room [OF g0])
  then have f: "lg_cfg (bound_maps g0) = cfg" "length (lg_peer (bound_maps g0)) \<le> MAX_TRACKED_PEERS" "guards_ok cfg (bound_maps g0)"
    by (auto simp: room_def guards_ok_def)
  show ?thesis
    unfolding report_misbehavior_def Let_def f
    using f add_badness_ok [OF c peer_entry_ok [OF c r], of "max points 1"] by (intro store_peer_ok) auto
qed

inductive guards_reachable :: "LastResortConfig \<Rightarrow> LastResortGuards \<Rightarrow> bool" for cfg where
  new: "guards_reachable cfg (guards_new cfg now)"
| action: "guards_reachable cfg g \<Longrightarrow> guards_reachable cfg (snd (check_action req g))"
| begin_inflight: "guards_reachable cfg g \<Longrightarrow> guards_reachable cfg (snd (try_begin_inflight now peer g))"
| end_inflight: "guards_reachable cfg g \<Longrightarrow> guards_reachable cfg (g\<lparr>lg_inflight := permit_drop peer (lg_inflight g)\<rparr>)"
| bytes: "guards_reachable cfg g \<Longrightarrow> guards_reachable cfg (snd (check_bytes now peer n g))"
| report: "guards_reachable cfg g \<Longrightarrow> guards_reachable cfg (report_misbehavior now peer points g)"
| disconnect: "guards_reachable cfg g \<Longrightarrow> guards_reachable cfg (guards_on_peer_disconnected peer g)"

lemma guards_reachable_ok: "guards_reachable cfg g \<Longrightarrow> cfg_ok cfg \<Longrightarrow> guards_ok cfg g"
proof (induction rule: guards_reachable.induct)
  case (disconnect g peer)
  moreover have "set (hremove peer (lg_peer g)) \<subseteq> set (lg_peer g)" by (auto simp: AList.delete_eq)
  ultimately show ?case
    using length_hremove_le [of peer "lg_peer g"] by (auto simp: guards_ok_def guards_on_peer_disconnected_def)
qed (simp_all add: check_action_ok inflight_ok check_bytes_ok report_ok, simp_all add: guards_ok_def guards_new_def)

section \<open>Cool-down\<close>

definition cools :: "PeerId \<Rightarrow> Instant \<Rightarrow> LastResortGuards \<Rightarrow> bool" where
  "cools p t g \<longleftrightarrow> (\<exists>ps. hget (lg_peer g) p = Some ps \<and> ps_cooldown_until ps = Some t)"

lemma decay_cooldown [simp]: "ps_cooldown_until (decay_badness cfg now ps) = ps_cooldown_until ps"
  by (simp add: decay_badness_def Let_def)

lemma cools_entry:
  assumes "cools p t g" "now < t" "length (lg_peer g) \<le> MAX_TRACKED_PEERS"
  obtains ps where "is_cooling_down cfg now (peer_entry now p (bound_maps g)) = (True, ps)" "ps_cooldown_until ps = Some t"
proof -
  have "lg_peer (bound_maps g) = lg_peer g" using assms(3) by (simp add: bound_maps_def Let_def)
  then obtain ps where "peer_entry now p (bound_maps g) = ps" "ps_cooldown_until ps = Some t"
    using assms(1) by (auto simp: cools_def peer_entry_def)
  then show ?thesis using that assms(2) by (simp add: is_cooling_down_def Let_def)
qed

lemma cools_store: "cools p t g \<Longrightarrow> q \<noteq> p \<or> ps_cooldown_until ps = Some t \<Longrightarrow> cools p t (store_peer q ps g)"
  by (auto simp: cools_def store_peer_def)

lemma cools_fields [simp]: "cools p t (g\<lparr>lg_ip := x\<rparr>) = cools p t g" "cools p t (g\<lparr>lg_inflight := l\<rparr>) = cools p t g"
    "cools p t (g\<lparr>lg_bytes_global := b\<rparr>) = cools p t g"
  by (simp_all add: cools_def)

lemma cools_bound: "cools p t g \<Longrightarrow> length (lg_peer g) \<le> MAX_TRACKED_PEERS \<Longrightarrow> cools p t (bound_maps g)"
  by (simp add: cools_def bound_maps_def Let_def)

text \<open>Calls of the guards, of any peer.\<close>

datatype guard_call = Act LastResortActionRequest | Inflight Instant PeerId | Bytes Instant PeerId nat

fun caller :: "guard_call \<Rightarrow> PeerId" where
  "caller (Act req) = rq_peer_id req"
| "caller (Inflight now p) = p"
| "caller (Bytes now p n) = p"

fun call_time :: "guard_call \<Rightarrow> Instant" where
  "call_time (Act req) = rq_now req"
| "call_time (Inflight now p) = now"
| "call_time (Bytes now p n) = now"

fun answer :: "guard_call \<Rightarrow> LastResortGuards \<Rightarrow> bool \<times> LastResortGuards" where
  "answer (Act req) g = (case check_action req g of (d, g') \<Rightarrow> (d = LastResortAllow, g'))"
| "answer (Inflight now p) g = (case try_begin_inflight now p g of (d, g') \<Rightarrow> (d = PermitAllow p, g'))"
| "answer (Bytes now p n) g = (case check_bytes now p n g of (d, g') \<Rightarrow> (d = LastResortAllow, g'))"

fun answers :: "guard_call list \<Rightarrow> LastResortGuards \<Rightarrow> (guard_call \<times> bool) list" where
  "answers [] g = []"
| "answers (c # cs) g = (case answer c g of (a, g') \<Rightarrow> (c, a) # answers cs g')"

lemma answer_refused:
  assumes "cools (caller c) t g" "call_time c < t" "length (lg_peer g) \<le> MAX_TRACKED_PEERS"
  shows "\<not> fst (answer c g) \<and> cools (caller c) t (snd (answer c g))"
proof -
  obtain ps where ps: "is_cooling_down (lg_cfg (bound_maps g)) (call_time c) (peer_entry (call_time c) (caller c) (bound_maps g)) = (True, ps)"
    "ps_cooldown_until ps = Some t"
    by (rule cools_entry [OF assms])
  show ?thesis
    using ps cools_store [OF cools_bound [OF assms(1,3)], of "caller c" ps] cools_bound [OF assms(1,3)]
    by (cases c) (auto simp: check_action_def try_begin_inflight_def check_bytes_def Let_def)
qed

text \<open>The state after a call is the bounded one, with the entry of the caller stored, or with tokens spent.\<close>

lemma check_action_state:
  assumes "P (bound_maps g)" "\<And>ps. P (store_peer (rq_peer_id req) ps (bound_maps g))"
    and "\<And>now cost ip_opt ps. P (snd (spend_tokens now (rq_peer_id req) cost ip_opt ps (bound_maps g)))"
  shows "P (snd (check_action req g))"
  unfolding check_action_def Let_def using assms(1,2) assms(3) by (simp only: snd_conv split: if_split prod.split bool.split) simp

lemma call_states: "snd (answer (Act req) g) = snd (check_action req g)" "snd (answer (Inflight now p) g) = snd (try_begin_inflight now p g)"
    "snd (answer (Bytes now p n) g) = snd (check_bytes now p n g)"
  by (simp_all add: case_prod_unfold)

lemma spend_other: "cools p t g \<Longrightarrow> q \<noteq> p \<Longrightarrow> cools p t (snd (spend_tokens now q cost ip_opt ps g))"
  by (auto simp: spend_tokens_def Let_def cools_store split: bool.splits prod.splits option.splits)

lemma answer_other:
  assumes "cools p t g" "caller c \<noteq> p" "length (lg_peer g) \<le> MAX_TRACKED_PEERS"
  shows "cools p t (snd (answer c g))"
proof -
  have b: "cools p t (bound_maps g)" by (rule cools_bound [OF assms(1,3)])
  show ?thesis
  proof (cases c)
    case (Act req)
    then have q: "rq_peer_id req \<noteq> p" using assms(2) by simp
    show ?thesis
      unfolding Act call_states
      by (rule check_action_state [of "cools p t"]) (use b q cools_store [OF b] spend_other [OF b q] in auto)
  next
    case (Inflight now q)
    then show ?thesis
      using assms(2) b cools_store [OF b]
      by (auto simp: try_begin_inflight_def Let_def cools_store split: prod.splits bool.splits InflightDecision.splits InflightDrop.splits)
  next
    case (Bytes now q n)
    then show ?thesis
      using assms(2) b cools_store [OF b] by (auto simp: check_bytes_def Let_def cools_store split: prod.splits bool.splits)
  qed
qed

lemma spend_peers: "length (lg_peer (snd (spend_tokens now q cost ip_opt ps g))) \<le> Suc (length (lg_peer g))"
  by (auto simp: spend_tokens_def Let_def store_peer_def length_hinsert_le split: bool.splits prod.splits option.splits)

lemma answer_peers: "length (lg_peer (snd (answer c g))) \<le> Suc (length (lg_peer g))"
proof -
  have b: "length (lg_peer (bound_maps g)) \<le> length (lg_peer g)" by (simp add: bound_maps_def Let_def)
  then have s: "length (hinsert q ps (lg_peer (bound_maps g))) \<le> Suc (length (lg_peer g))" for q ps
    using length_hinsert_le [of q ps "lg_peer (bound_maps g)"] by simp
  show ?thesis
  proof (cases c)
    case (Act req)
    show ?thesis
      unfolding Act call_states
    proof (rule check_action_state [of "\<lambda>x. length (lg_peer x) \<le> Suc (length (lg_peer g))"])
      show "length (lg_peer (snd (spend_tokens now (rq_peer_id req) cost ip_opt ps (bound_maps g)))) \<le> Suc (length (lg_peer g))"
        for now cost ip_opt ps using spend_peers [of now "rq_peer_id req" cost ip_opt ps "bound_maps g"] b by simp
    qed (use b s in \<open>simp_all add: store_peer_def\<close>)
  next
    case (Inflight now q)
    then show ?thesis
      using s by (auto simp: try_begin_inflight_def Let_def store_peer_def split: prod.splits bool.splits InflightDecision.splits InflightDrop.splits)
  next
    case (Bytes now q n)
    then show ?thesis using s by (auto simp: check_bytes_def Let_def store_peer_def split: prod.splits bool.splits)
  qed
qed

lemma cooling_answers:
  "cools p t g \<Longrightarrow> length (lg_peer g) + length cs \<le> Suc MAX_TRACKED_PEERS \<Longrightarrow> \<forall>c\<in>set cs. caller c = p \<longrightarrow> call_time c < t \<Longrightarrow>
   (c, a) \<in> set (answers cs g) \<Longrightarrow> caller c = p \<Longrightarrow> \<not> a"
proof (induction cs arbitrary: g)
  case (Cons d cs)
  obtain b g' where g': "answer d g = (b, g')" by (cases "answer d g")
  have l: "length (lg_peer g) \<le> MAX_TRACKED_PEERS" using Cons.prems(2) by simp
  have n: "cools p t g'" "caller d = p \<Longrightarrow> \<not> b"
    using answer_refused [of d t g] answer_other [of p t g d] Cons.prems(1,3) l by (cases "caller d = p"; force simp: g')+
  have l': "length (lg_peer g') + length cs \<le> Suc MAX_TRACKED_PEERS" using answer_peers [of d g] Cons.prems(2) by (simp add: g')
  from Cons.prems(4) consider "c = d" "a = b" | "(c, a) \<in> set (answers cs g')" by (auto simp: g')
  then show ?case
  proof cases
    case 1
    then show ?thesis using n(2) Cons.prems(5) by simp
  next
    case 2
    then show ?thesis using Cons.IH [OF n(1) l'] Cons.prems(3,5) by simp
  qed
qed simp

lemma report_cools:
  assumes c: "cfg_ok cfg" and g: "guards_ok cfg g" and pts: "lc_badness_threshold cfg \<le> points"
    and t: "now + lc_cooldown cfg < 2 ^ 63 * 10 ^ 9"
  shows "cools p (now + lc_cooldown cfg) (report_misbehavior now p points g)"
proof -
  have r: "room cfg (bound_maps g)" by (rule bound_maps_room [OF g])
  then have f: "lg_cfg (bound_maps g) = cfg" by (simp add: room_def guards_ok_def)
  have "0 \<le> ps_badness (decay_badness cfg now (peer_entry now p (bound_maps g)))"
    using decay_ok [OF c peer_entry_ok [OF c r]] by (simp add: peer_ok_def)
  then have "lc_badness_threshold cfg \<le> i32_saturating_add (ps_badness (decay_badness cfg now (peer_entry now p (bound_maps g)))) (max points 1)"
    using pts c by (auto simp: i32_saturating_add_def cfg_ok_def)
  then show ?thesis
    using t unfolding report_misbehavior_def Let_def f
    by (simp add: cools_def store_peer_def add_badness_def Let_def instant_checked_add_def)
qed

section \<open>Properties\<close>

text \<open>C25. A token bucket grants no more than its capacity and its rate allow. From a fresh bucket, over any sequence of requests in
  the order of time, the costs granted up to any instant sum to at most the capacity and the rate times the time passed; the same
  holds for the buckets of requests and of bytes.\<close>

theorem token_rate_bounded:
  assumes "sorted (t0 # map fst rs)" and "\<forall>r\<in>set rs. fst r \<le> t" and "t0 \<le> t"
  shows "granted bucket32_try_take rs (bucket32_new cap rate t0) \<le> cap + rate * (t - t0) div 10 ^ 9 \<and>
    granted bucket64_try_take rs (bucket64_new cap rate t0) \<le> cap + rate * (t - t0) div 10 ^ 9"
  using bucket32.granted_bound [of "bucket32_new cap rate t0" rs t] bucket64.granted_bound [of "bucket64_new cap rate t0" rs t] assms
  by (simp add: bucket32_new_def bucket64_new_def)

theorem token_rate_bounded_witness:
  "granted bucket32_try_take [(0, 2), (500000000, 3)] (bucket32_new 2 4 0) \<le> 4 \<and>
   granted bucket64_try_take [(0, 2), (500000000, 3)] (bucket64_new 2 4 0) \<le> 4"
  using token_rate_bounded [of 0 "[(0, 2), (500000000, 3)]" 500000000 2 4] by simp

text \<open>C38. Requests that come faster than tokens are never refilled. The refill counts whole tokens of the time since the last
  request and forgets the rest, so when the time between requests is always below the time of one token, the bucket grants its
  capacity once and nothing after, however long the requests go on; at 200 tokens a second this is a request at least every 5
  milliseconds.\<close>

theorem fast_requests_starve:
  assumes "successively (\<lambda>s t. rate * (t - s) < 10 ^ 9) (t0 # map fst rs)"
  shows "granted bucket32_try_take rs (bucket32_new cap rate t0) \<le> cap"
  using bucket32.granted_starved [of "bucket32_new cap rate t0" rs] assms by (simp add: bucket32_new_def)

lemma steady_requests:
  "successively (\<lambda>s t. 200 * (t - s) < 10 ^ 9) (0 # map fst (map (\<lambda>i. (i * 4000000, 1 :: nat)) [0..<n]))"
proof -
  have "successively (\<lambda>s t. 200 * (t - s) < 10 ^ 9) (map (\<lambda>i. i * 4000000) [0..<n])"
    by (auto simp: successively_conv_nth)
  then show ?thesis by (cases n) (auto simp: comp_def successively_Cons upt_conv_Cons simp del: upt_Suc)
qed

theorem fast_requests_starve_witness:
  "granted bucket32_try_take (map (\<lambda>i. (i * 4000000, 1)) [0..<100000]) (bucket32_new 600 200 0) \<le> 600"
  by (rule fast_requests_starve [OF steady_requests])

text \<open>The guards use bounded memory and stay in range. In every reachable state, with a positive threshold, at most one entry
  more than the limit is kept for peers and for addresses, no bucket holds more than its capacity, no peer has more recent keys than
  allowed, and every misbehaviour score lies between 0 and the threshold.\<close>

theorem guards_bounded:
  assumes "guards_reachable cfg g" and "0 < lc_badness_threshold cfg" and "lc_badness_threshold cfg < 2 ^ 31"
  shows "length (lg_peer g) \<le> 7501 \<and> length (lg_ip g) \<le> 7501 \<and>
    (\<forall>(p, ps)\<in>set (lg_peer g). b32_tokens (ps_bucket ps) \<le> lc_peer_bucket_capacity cfg \<and>
      b64_tokens (ps_bytes ps) \<le> lc_peer_bytes_capacity cfg \<and> length (ps_recent ps) \<le> lc_dup_max_entries_per_peer cfg \<and>
      0 \<le> ps_badness ps \<and> ps_badness ps \<le> lc_badness_threshold cfg) \<and>
    (\<forall>(a, b)\<in>set (lg_ip g). b32_tokens b \<le> lc_ip_bucket_capacity cfg) \<and>
    b64_tokens (lg_bytes_global g) \<le> lc_global_bytes_capacity cfg"
proof -
  have "guards_ok cfg g" using guards_reachable_ok [OF assms(1)] assms(2,3) by (simp add: cfg_ok_def)
  then show ?thesis
    by (auto simp: guards_ok_def MAX_TRACKED_PEERS_def MAX_TRACKED_IPS_def peer_ok_def bucket32_ok_def bucket64_ok_def)
qed

theorem guards_bounded_witness:
  "length (lg_peer (report_misbehavior 7 [1] 250 (guards_new default_last_resort_config 0))) \<le> 7501"
  using guards_bounded [OF guards_reachable.report [OF guards_reachable.new], of default_last_resort_config 7 "[1]" 250 0]
  by (simp add: default_last_resort_config_def Let_def)

text \<open>A peer that misbehaved is refused for the whole cool-down. Once a report brings it to the threshold, every request of it
  before the end of the cool-down is refused, whatever it and the other peers ask for in between, as long as the table of peers is
  not cleared for being full.\<close>

theorem misbehaviour_refused:
  assumes "guards_reachable cfg g" and "0 < lc_badness_threshold cfg" and "lc_badness_threshold cfg < 2 ^ 31"
    and "lc_badness_threshold cfg \<le> points" and "now + lc_cooldown cfg < 2 ^ 63 * 10 ^ 9"
    and "length (lg_peer (report_misbehavior now p points g)) + length cs \<le> Suc MAX_TRACKED_PEERS"
    and "\<forall>c\<in>set cs. caller c = p \<longrightarrow> call_time c < now + lc_cooldown cfg"
  shows "\<forall>(c, a)\<in>set (answers cs (report_misbehavior now p points g)). caller c = p \<longrightarrow> \<not> a"
proof -
  have c: "cfg_ok cfg" using assms by (simp add: cfg_ok_def)
  have "cools p (now + lc_cooldown cfg) (report_misbehavior now p points g)"
    by (rule report_cools [OF c guards_reachable_ok [OF assms(1) c] assms(4,5)])
  then show ?thesis using cooling_answers [OF _ assms(6,7)] by blast
qed

theorem misbehaviour_refused_witness:
  "\<forall>(c, a)\<in>set (answers [Bytes 5 [1] 10, Bytes 6 [2] 10] (report_misbehavior 7 [1] 250 (guards_new default_last_resort_config 0))).
     caller c = [1] \<longrightarrow> \<not> a"
proof (rule misbehaviour_refused [OF guards_reachable.new])
  have "report_misbehavior 7 [1] 250 (guards_new default_last_resort_config 0) = store_peer [1] ps (guards_new default_last_resort_config 0) \<Longrightarrow>
      length (lg_peer (report_misbehavior 7 [1] 250 (guards_new default_last_resort_config 0))) = 1" for ps
    by (simp add: store_peer_def guards_new_def)
  then show "length (lg_peer (report_misbehavior 7 [1] 250 (guards_new default_last_resort_config 0))) +
      length [Bytes 5 [1] 10, Bytes 6 [2] 10] \<le> Suc MAX_TRACKED_PEERS"
    by (simp add: report_misbehavior_def Let_def bound_maps_def guards_new_def MAX_TRACKED_PEERS_def MAX_TRACKED_IPS_def)
qed (simp_all add: default_last_resort_config_def Let_def)

text \<open>A disconnection lifts the cool-down. A peer that is refused because of its misbehaviour is served again as soon as it has
  closed a connection and opened another, since the closing drops its score with its state.\<close>

theorem disconnect_lifts_cooldown:
  assumes "lg_cfg g = default_last_resort_config" and "cools p t g" and "length (lg_peer g) \<le> MAX_TRACKED_PEERS"
    and "rq_peer_id req = p" "rq_now req < t" "rq_admitted req" "rq_peer_ip req = None" "rq_cost_tokens req \<le> 600"
  shows "fst (check_action req g) = LastResortRefuse PeerCoolingDown \<and>
    fst (check_action req (guards_on_peer_disconnected p g)) = LastResortAllow"
proof -
  let ?g = "bound_maps (guards_on_peer_disconnected p g)"
  have cfg: "lg_cfg (bound_maps g) = lg_cfg g" "lg_cfg ?g = lg_cfg g" by (simp_all add: bound_maps_def guards_on_peer_disconnected_def Let_def)
  obtain ps where ps: "is_cooling_down (lg_cfg g) (rq_now req) (peer_entry (rq_now req) p (bound_maps g)) = (True, ps)"
    using cools_entry [OF assms(2,5,3)] by blast
  have "hget (lg_peer ?g) p = None"
    using length_hremove_le [of p "lg_peer g"] assms(3) by (simp add: bound_maps_def guards_on_peer_disconnected_def Let_def AList.delete_conv')
  then have e: "peer_entry (rq_now req) p ?g = peer_state_new (lg_cfg g) (rq_now req)" by (simp add: peer_entry_def cfg)
  define n where "n = decay_badness (lg_cfg g) (rq_now req) (peer_state_new (lg_cfg g) (rq_now req))"
  have n: "is_cooling_down (lg_cfg g) (rq_now req) (peer_state_new (lg_cfg g) (rq_now req)) = (False, n)"
    "ps_recent n = []" "ps_bucket n = bucket32_new 600 200 (rq_now req)"
    by (simp_all add: n_def is_cooling_down_def decay_badness_def Let_def peer_state_new_def assms(1) default_last_resort_config_def)
  have b: "\<exists>b. bucket32_try_take (rq_now req) (max (rq_cost_tokens req) 1) (bucket32_new 600 200 (rq_now req)) = (True, b)"
    using assms(8) by (simp add: bucket32_try_take_def bucket32_refill_def bucket32_new_def Let_def duration_since_def refill_add_u32_def
        refill_add_u64_def saturating_mul_def saturating_add_def checked_div_def try_from_def)
  have sp: "fst (spend_tokens (rq_now req) p (max (rq_cost_tokens req) 1) None m ?g) = LastResortAllow"
    if "ps_bucket m = bucket32_new 600 200 (rq_now req)" for m
    using b that by (auto simp: spend_tokens_def Let_def)
  have "fst (check_action req (guards_on_peer_disconnected p g)) = LastResortAllow"
    using n(2,3) sp assms(4,6,7)
    by (cases "rq_dup_key req") (auto simp: check_action_def Let_def cfg e n(1) recent_contains_def)
  moreover have "fst (check_action req g) = LastResortRefuse PeerCoolingDown"
    using ps assms(4,6) by (simp add: check_action_def Let_def cfg)
  ultimately show ?thesis by blast
qed

theorem disconnect_lifts_cooldown_witness:
  "\<exists>g req. fst (check_action req g) = LastResortRefuse PeerCoolingDown \<and>
     fst (check_action req (guards_on_peer_disconnected [1] g)) = LastResortAllow"
proof -
  let ?g = "report_misbehavior 7 [1] 250 (guards_new default_last_resort_config 0)"
  let ?req = "\<lparr>rq_now = 8, rq_peer_id = [1], rq_admitted = True, rq_peer_ip = None, rq_action = Gossip, rq_cost_tokens = 1, rq_dup_key = None\<rparr>"
  have c: "cfg_ok default_last_resort_config" by (simp add: cfg_ok_def default_last_resort_config_def Let_def)
  have f: "lg_cfg ?g = default_last_resort_config" "length (lg_peer ?g) \<le> MAX_TRACKED_PEERS"
    by (simp_all add: report_misbehavior_def Let_def bound_maps_def guards_new_def store_peer_def MAX_TRACKED_PEERS_def MAX_TRACKED_IPS_def)
  have "cools [1] (7 + lc_cooldown default_last_resort_config) ?g"
    by (rule report_cools [OF c guards_reachable_ok [OF guards_reachable.new c]]) (simp_all add: default_last_resort_config_def Let_def)
  then have "fst (check_action ?req ?g) = LastResortRefuse PeerCoolingDown \<and>
      fst (check_action ?req (guards_on_peer_disconnected [1] ?g)) = LastResortAllow"
    by (rule disconnect_lifts_cooldown [OF f(1) _ f(2)]) (simp_all add: default_last_resort_config_def Let_def)
  then show ?thesis by blast
qed

end
