(* ===== verification/ConnGuard.thy ===== *)
theory ConnGuard
  imports LastResort
begin

text \<open>
  The guard of new connections (\<open>src/network/p2p_017_conn_guard.rs\<close>): a limit on connection attempts of an address in a time
  window, on peers that are still shaking hands, and on admitted peers of an address and of a subnet. A multiaddress is the list of
  its protocols.
\<close>

section \<open>Data\<close>

record ConnGuardConfig =
  cg_max_per_ip :: nat
  cg_max_per_v4_24 :: nat
  cg_max_per_v6_64 :: nat
  cg_max_handshaking :: nat
  cg_handshake_deadline :: Duration
  cg_rate_window :: Duration
  cg_max_new_conns_per_ip_per_window :: nat

definition default_conn_guard_config :: ConnGuardConfig where
  "default_conn_guard_config =
     \<lparr>cg_max_per_ip = 8, cg_max_per_v4_24 = 32, cg_max_per_v6_64 = 16, cg_max_handshaking = 32,
      cg_handshake_deadline = 5 * 10 ^ 9, cg_rate_window = 10 * 10 ^ 9, cg_max_new_conns_per_ip_per_window = 10\<rparr>"

datatype DropReason = MissingIp | RateLimited | HandshakePoolFull | PerIpCap | PerSubnetCap
  | HandshakeDeadlineOverflow | ConnCounterOverflow

datatype GuardDecision = GuardAllow | GuardDrop DropReason

datatype SubnetKey = V4_24 "byte list" | V6_64 "byte list"

datatype Protocol = Ip4 "byte list" | Ip6 "byte list" | OtherProtocol

type_synonym Multiaddr = "Protocol list"

record PeerConnState =
  pc_conns :: nat
  pc_ip :: "IpAddr option"
  pc_subnet :: "SubnetKey option"

record ConnGuard =
  cn_cfg :: ConnGuardConfig
  cn_admitted :: "PeerId list"
  cn_pending :: "(PeerId, Instant) hmap"
  cn_peer_state :: "(PeerId, PeerConnState) hmap"
  cn_per_ip :: "(IpAddr, nat) hmap"
  cn_per_subnet :: "(SubnetKey, nat) hmap"
  cn_recent_attempts :: "(IpAddr, Instant list) hmap"

definition conn_guard_new :: "ConnGuardConfig \<Rightarrow> ConnGuard" where
  "conn_guard_new cfg =
     \<lparr>cn_cfg = cfg, cn_admitted = [], cn_pending = [], cn_peer_state = [], cn_per_ip = [], cn_per_subnet = [], cn_recent_attempts = []\<rparr>"

fun ip_from_multiaddr :: "Multiaddr \<Rightarrow> IpAddr option" where
  "ip_from_multiaddr [] = None"
| "ip_from_multiaddr (Ip4 ip # ps) = Some (V4 ip)"
| "ip_from_multiaddr (Ip6 ip # ps) = Some (V6 ip)"
| "ip_from_multiaddr (OtherProtocol # ps) = ip_from_multiaddr ps"

fun subnet_key :: "IpAddr \<Rightarrow> SubnetKey" where
  "subnet_key (V4 octets) = V4_24 (take 3 octets)"
| "subnet_key (V6 octets) = V6_64 (take 8 octets)"

fun prune_rate_window :: "Instant \<Rightarrow> Duration \<Rightarrow> Instant list \<Rightarrow> Instant list" where
  "prune_rate_window now window [] = []"
| "prune_rate_window now window (t # q) = (if duration_since now t > window then prune_rate_window now window q else t # q)"

definition checked_inc :: "IpAddr \<Rightarrow> (IpAddr, nat) hmap \<Rightarrow> DropReason + (IpAddr, nat) hmap" where
  "checked_inc key m =
     (case checked_add 64 (hget0 m key) 1 of None \<Rightarrow> Inl ConnCounterOverflow | Some next_count \<Rightarrow> Inr (hinsert key next_count m))"

definition checked_inc_subnet :: "SubnetKey \<Rightarrow> (SubnetKey, nat) hmap \<Rightarrow> DropReason + (SubnetKey, nat) hmap" where
  "checked_inc_subnet key m =
     (case checked_add 64 (hget0 m key) 1 of None \<Rightarrow> Inl ConnCounterOverflow | Some next_count \<Rightarrow> Inr (hinsert key next_count m))"

definition dec_map :: "'k \<Rightarrow> ('k, nat) hmap \<Rightarrow> ('k, nat) hmap" where
  "dec_map k m =
     (case hget m k of
        Some v \<Rightarrow> (let v' = saturating_sub v 1 in if v' = 0 then hremove k m else hinsert k v' m)
      | None \<Rightarrow> m)"

definition dec_map_subnet :: "SubnetKey \<Rightarrow> (SubnetKey, nat) hmap \<Rightarrow> (SubnetKey, nat) hmap" where
  "dec_map_subnet k m =
     (case hget m k of
        Some v \<Rightarrow> (let v' = saturating_sub v 1 in if v' = 0 then hremove k m else hinsert k v' m)
      | None \<Rightarrow> m)"

section \<open>Events\<close>

definition on_connection_established :: "PeerId \<Rightarrow> Multiaddr \<Rightarrow> Instant \<Rightarrow> ConnGuard \<Rightarrow> GuardDecision \<times> ConnGuard" where
  "on_connection_established peer remote_addr now g =
     (case ip_from_multiaddr remote_addr of
        None \<Rightarrow> (GuardDrop MissingIp, g)
      | Some ip \<Rightarrow>
          (let q = prune_rate_window now (cg_rate_window (cn_cfg g))
                     (case hget (cn_recent_attempts g) ip of Some q \<Rightarrow> q | None \<Rightarrow> []) in
           if length q \<ge> cg_max_new_conns_per_ip_per_window (cn_cfg g)
             then (GuardDrop RateLimited, g\<lparr>cn_recent_attempts := hinsert ip q (cn_recent_attempts g)\<rparr>)
           else
             (let g1 = g\<lparr>cn_recent_attempts := hinsert ip (q @ [now]) (cn_recent_attempts g)\<rparr> in
              if length (cn_pending g1) \<ge> cg_max_handshaking (cn_cfg g) \<and> hget (cn_pending g1) peer = None
                then (GuardDrop HandshakePoolFull, g1)
              else
                (let st = (case hget (cn_peer_state g1) peer of Some st \<Rightarrow> st | None \<Rightarrow> \<lparr>pc_conns = 0, pc_ip = None, pc_subnet = None\<rparr>);
                     st1 = \<lparr>pc_conns = saturating_add 64 (pc_conns st) 1, pc_ip = Some ip, pc_subnet = Some (subnet_key ip)\<rparr>;
                     g2 = g1\<lparr>cn_peer_state := hinsert peer st1 (cn_peer_state g1)\<rparr> in
                 if hget (cn_pending g2) peer \<noteq> None then (GuardAllow, g2)
                 else (case instant_checked_add now (cg_handshake_deadline (cn_cfg g)) of
                     None \<Rightarrow> (GuardDrop HandshakeDeadlineOverflow, g2)
                   | Some deadline \<Rightarrow> (GuardAllow, g2\<lparr>cn_pending := hinsert peer deadline (cn_pending g2)\<rparr>))))))"

definition try_admit :: "PeerId \<Rightarrow> ConnGuard \<Rightarrow> GuardDecision \<times> ConnGuard" where
  "try_admit peer g =
     (if peer \<in> set (cn_admitted g) then (GuardAllow, g\<lparr>cn_pending := hremove peer (cn_pending g)\<rparr>)
      else (case hget (cn_peer_state g) peer of
          None \<Rightarrow> (GuardDrop MissingIp, g)
        | Some st \<Rightarrow>
            (case pc_ip st of
               None \<Rightarrow> (GuardDrop MissingIp, g)
             | Some ip \<Rightarrow>
                 if hget0 (cn_per_ip g) ip \<ge> cg_max_per_ip (cn_cfg g) then (GuardDrop PerIpCap, g)
                 else (case pc_subnet st of
                     None \<Rightarrow> (GuardDrop MissingIp, g)
                   | Some sk \<Rightarrow>
                       (let cap = (case sk of V4_24 _ \<Rightarrow> cg_max_per_v4_24 (cn_cfg g) | V6_64 _ \<Rightarrow> cg_max_per_v6_64 (cn_cfg g)) in
                        if hget0 (cn_per_subnet g) sk \<ge> cap then (GuardDrop PerSubnetCap, g)
                        else
                          (let g1 = g\<lparr>cn_pending := hremove peer (cn_pending g)\<rparr> in
                           case checked_inc ip (cn_per_ip g1) of
                             Inl r \<Rightarrow> (GuardDrop r, g1)
                           | Inr per_ip \<Rightarrow>
                               (case checked_inc_subnet sk (cn_per_subnet g1) of
                                  Inl r \<Rightarrow> (GuardDrop r, g1\<lparr>cn_per_ip := dec_map ip per_ip\<rparr>)
                                | Inr per_subnet \<Rightarrow>
                                    (GuardAllow, g1\<lparr>cn_admitted := List.insert peer (cn_admitted g1),
                                                   cn_per_ip := per_ip, cn_per_subnet := per_subnet\<rparr>))))))))"

definition on_connection_closed :: "PeerId \<Rightarrow> ConnGuard \<Rightarrow> ConnGuard" where
  "on_connection_closed peer g =
     (case hget (cn_peer_state g) peer of
        Some st \<Rightarrow>
          (let conns = saturating_sub (pc_conns st) 1 in
           if conns = 0
             then
               (let g1 = (if peer \<in> set (cn_admitted g)
                          then g\<lparr>cn_admitted := removeAll peer (cn_admitted g),
                                 cn_per_ip := (case pc_ip st of Some ip \<Rightarrow> dec_map ip (cn_per_ip g) | None \<Rightarrow> cn_per_ip g),
                                 cn_per_subnet := (case pc_subnet st of Some sk \<Rightarrow> dec_map_subnet sk (cn_per_subnet g)
                                                   | None \<Rightarrow> cn_per_subnet g)\<rparr>
                          else g) in
                g1\<lparr>cn_pending := hremove peer (cn_pending g1), cn_peer_state := hremove peer (cn_peer_state g1)\<rparr>)
           else g\<lparr>cn_peer_state := hinsert peer (st\<lparr>pc_conns := conns\<rparr>) (cn_peer_state g)\<rparr>)
      | None \<Rightarrow> g\<lparr>cn_admitted := removeAll peer (cn_admitted g), cn_pending := hremove peer (cn_pending g)\<rparr>)"

definition sweep_timeouts :: "Instant \<Rightarrow> ConnGuard \<Rightarrow> PeerId list \<times> ConnGuard" where
  "sweep_timeouts now g =
     (let dropped = filter (\<lambda>peer. case hget (cn_pending g) peer of Some deadline \<Rightarrow> now > deadline | None \<Rightarrow> False)
                      (map fst (cn_pending g)) in
      (dropped, g\<lparr>cn_pending := fold hremove dropped (cn_pending g)\<rparr>))"

definition is_admitted :: "PeerId \<Rightarrow> ConnGuard \<Rightarrow> bool" where
  "is_admitted peer g \<longleftrightarrow> peer \<in> set (cn_admitted g)"

definition pending_len :: "ConnGuard \<Rightarrow> nat" where
  "pending_len g = length (cn_pending g)"

definition admitted_len :: "ConnGuard \<Rightarrow> nat" where
  "admitted_len g = length (cn_admitted g)"

end
