(* ===== verification/ConnGuardProps.thy ===== *)
theory ConnGuardProps
  imports ConnGuard
begin

text \<open>
  What the connection guard keeps: its limits in every reachable state, the rate of attempts of an address, the exact count of
  admitted peers while every peer stays at its address, and what a peer that moves leaves behind.
\<close>

section \<open>Events\<close>

datatype conn_event = Connect PeerId Multiaddr Instant | Admit PeerId | Close PeerId | Sweep Instant

fun conn_step :: "conn_event \<Rightarrow> ConnGuard \<Rightarrow> ConnGuard" where
  "conn_step (Connect p a now) g = snd (on_connection_established p a now g)"
| "conn_step (Admit p) g = snd (try_admit p g)"
| "conn_step (Close p) g = on_connection_closed p g"
| "conn_step (Sweep now) g = snd (sweep_timeouts now g)"

abbreviation attempts_of :: "IpAddr \<Rightarrow> ConnGuard \<Rightarrow> Instant list" where
  "attempts_of ip g \<equiv> (case hget (cn_recent_attempts g) ip of Some q \<Rightarrow> q | None \<Rightarrow> [])"

lemma step_cfg [simp]:
  "cn_cfg (snd (on_connection_established p a now g)) = cn_cfg g" "cn_cfg (snd (try_admit p g)) = cn_cfg g"
  "cn_cfg (on_connection_closed p g) = cn_cfg g" "cn_cfg (snd (sweep_timeouts now g)) = cn_cfg g"
  by (auto simp: on_connection_established_def try_admit_def on_connection_closed_def sweep_timeouts_def Let_def
      split: option.splits sum.splits SubnetKey.splits)

lemma recent_other:
  "cn_recent_attempts (snd (try_admit p g)) = cn_recent_attempts g"
  "cn_recent_attempts (on_connection_closed p g) = cn_recent_attempts g"
  "cn_recent_attempts (snd (sweep_timeouts now g)) = cn_recent_attempts g"
  by (auto simp: try_admit_def on_connection_closed_def sweep_timeouts_def Let_def split: option.splits sum.splits SubnetKey.splits)

section \<open>The rate of attempts\<close>

definition passes :: "IpAddr \<Rightarrow> conn_event \<Rightarrow> ConnGuard \<Rightarrow> bool" where
  "passes ip e g \<longleftrightarrow> (case e of
     Connect p a now \<Rightarrow> ip_from_multiaddr a = Some ip \<and> fst (on_connection_established p a now g) \<noteq> GuardDrop RateLimited
   | _ \<Rightarrow> False)"

fun passed :: "IpAddr \<Rightarrow> conn_event list \<Rightarrow> ConnGuard \<Rightarrow> Instant list" where
  "passed ip [] g = []"
| "passed ip (e # es) g =
     (case e of Connect p a now \<Rightarrow> if passes ip e g then [now] else [] | _ \<Rightarrow> []) @ passed ip es (conn_step e g)"

fun event_times :: "conn_event list \<Rightarrow> Instant list" where
  "event_times [] = []"
| "event_times (Connect p a now # es) = now # event_times es"
| "event_times (e # es) = event_times es"

lemma prune_dropWhile: "prune_rate_window now w q = dropWhile (\<lambda>t. now - t > w) q"
  by (induction now w q rule: prune_rate_window.induct) (auto simp: duration_since_def)

lemma connect_recent:
  assumes "ip_from_multiaddr a = Some ip"
  shows "attempts_of ip (snd (on_connection_established p a now g)) =
    (let q = prune_rate_window now (cg_rate_window (cn_cfg g)) (attempts_of ip g) in
     if length q \<ge> cg_max_new_conns_per_ip_per_window (cn_cfg g) then q else q @ [now])"
    and "fst (on_connection_established p a now g) = GuardDrop RateLimited \<longleftrightarrow>
      length (prune_rate_window now (cg_rate_window (cn_cfg g)) (attempts_of ip g)) \<ge> cg_max_new_conns_per_ip_per_window (cn_cfg g)"
  using assms by (auto simp: on_connection_established_def Let_def split: option.splits)

lemma connect_recent_other:
  "ip_from_multiaddr a \<noteq> Some ip \<Longrightarrow> attempts_of ip (snd (on_connection_established p a now g)) = attempts_of ip g"
  by (auto simp: on_connection_established_def Let_def split: option.splits)

text \<open>The queue of an address holds the attempts that passed, without old ones.\<close>

definition queue_of :: "Duration \<Rightarrow> Instant \<Rightarrow> Instant list \<Rightarrow> Instant list \<Rightarrow> bool" where
  "queue_of w now h q \<longleftrightarrow> (\<exists>k \<le> length h. q = drop k h \<and> (\<forall>x\<in>set (take k h). x + w < now))"

lemma queue_later: "queue_of w now h q \<Longrightarrow> now \<le> now' \<Longrightarrow> queue_of w now' h q"
  by (force simp: queue_of_def)

lemma queue_prune:
  assumes "queue_of w now h q"
  shows "queue_of w now h (prune_rate_window now w q)"
proof -
  obtain k where k: "k \<le> length h" "q = drop k h" "\<forall>x\<in>set (take k h). x + w < now" using assms by (auto simp: queue_of_def)
  let ?n = "length (takeWhile (\<lambda>t. now - t > w) q)"
  have n: "k + ?n \<le> length h" using k(1,2) length_takeWhile_le [of "\<lambda>t. now - t > w" q] by simp
  have "prune_rate_window now w q = drop (k + ?n) h"
    by (simp add: prune_dropWhile dropWhile_eq_drop k(2) add.commute)
  moreover have "take (k + ?n) h = take k h @ takeWhile (\<lambda>t. now - t > w) q"
    by (simp add: take_add k(2) takeWhile_eq_take [symmetric])
  then have "\<forall>x\<in>set (take (k + ?n) h). x + w < now" using k(3) by (auto dest: set_takeWhileD)
  ultimately show ?thesis using n unfolding queue_of_def by blast
qed

lemma queue_push:
  assumes "queue_of w now h q"
  shows "queue_of w now (h @ [now]) (q @ [now])"
proof -
  obtain k where "k \<le> length h" "q = drop k h" "\<forall>x\<in>set (take k h). x + w < now" using assms by (auto simp: queue_of_def)
  then show ?thesis by (auto simp: queue_of_def intro!: exI [of _ k])
qed

definition in_window :: "Duration \<Rightarrow> Instant \<Rightarrow> Instant list \<Rightarrow> nat" where
  "in_window w t h = length (filter (\<lambda>x. t \<le> x \<and> x \<le> t + w) h)"

lemma window_push:
  assumes q: "queue_of w now h q" and l: "length q < m" and c: "in_window w t h \<le> m"
  shows "in_window w t (h @ [now]) \<le> m"
proof (cases "t \<le> now \<and> now \<le> t + w")
  case True
  obtain k where k: "q = drop k h" "\<forall>x\<in>set (take k h). x + w < now" using q by (auto simp: queue_of_def)
  have "filter (\<lambda>x. t \<le> x \<and> x \<le> t + w) (take k h) = []" using k(2) True by (auto simp: filter_empty_conv)
  then have "filter (\<lambda>x. t \<le> x \<and> x \<le> t + w) h = filter (\<lambda>x. t \<le> x \<and> x \<le> t + w) q"
    using append_take_drop_id [of k h] by (metis filter_append k(1) append_Nil)
  then have "in_window w t h \<le> length q" by (simp add: in_window_def)
  then show ?thesis using True l by (simp add: in_window_def)
qed (use c in \<open>auto simp: in_window_def\<close>)

lemma passed_window:
  assumes "queue_of (cg_rate_window (cn_cfg g)) T h (attempts_of ip g)" and "sorted (T # event_times es)"
    and "\<And>t. in_window (cg_rate_window (cn_cfg g)) t h \<le> cg_max_new_conns_per_ip_per_window (cn_cfg g)"
  shows "in_window (cg_rate_window (cn_cfg g)) t (h @ passed ip es g) \<le> cg_max_new_conns_per_ip_per_window (cn_cfg g)"
  using assms
proof (induction es arbitrary: g T h)
  case (Cons e es)
  let ?w = "cg_rate_window (cn_cfg g)" and ?m = "cg_max_new_conns_per_ip_per_window (cn_cfg g)"
  show ?case
  proof (cases e)
    case (Connect p a now)
    have o: "T \<le> now" "sorted (now # event_times es)" using Cons.prems(2) by (auto simp: Connect)
    have q: "queue_of ?w now h (attempts_of ip g)" by (rule queue_later [OF Cons.prems(1) o(1)])
    let ?q = "prune_rate_window now ?w (attempts_of ip g)"
    consider (other) "ip_from_multiaddr a \<noteq> Some ip" | (limited) "ip_from_multiaddr a = Some ip" "?m \<le> length ?q"
      | (free) "ip_from_multiaddr a = Some ip" "length ?q < ?m" by fastforce
    then show ?thesis
    proof cases
      case other
      then show ?thesis
        using Cons.IH [of "conn_step e g" now h] q o Cons.prems(3) by (simp add: Connect passes_def connect_recent_other)
    next
      case limited
      then show ?thesis
        using Cons.IH [of "conn_step e g" now h] queue_prune [OF q] o Cons.prems(3)
        by (simp add: Connect passes_def connect_recent Let_def)
    next
      case free
      have "queue_of ?w now (h @ [now]) (?q @ [now])" by (rule queue_push [OF queue_prune [OF q]])
      then show ?thesis
        using Cons.IH [of "conn_step e g" now "h @ [now]"] free o window_push [OF queue_prune [OF q] free(2) Cons.prems(3)]
        by (simp add: Connect passes_def connect_recent Let_def)
    qed
  qed (use Cons.IH [of "conn_step e g" T h] Cons.prems in \<open>simp_all add: recent_other\<close>)
qed simp

section \<open>Limits\<close>

fun subnet_cap :: "ConnGuardConfig \<Rightarrow> SubnetKey \<Rightarrow> nat" where
  "subnet_cap cfg (V4_24 _) = cg_max_per_v4_24 cfg"
| "subnet_cap cfg (V6_64 _) = cg_max_per_v6_64 cfg"

lemma subnet_cap_eq: "(case sk of V4_24 _ \<Rightarrow> cg_max_per_v4_24 cfg | V6_64 _ \<Rightarrow> cg_max_per_v6_64 cfg) = subnet_cap cfg sk"
  by (cases sk) simp_all

lemma dec_subnet_eq: "dec_map_subnet k m = dec_map k m"
  by (simp add: dec_map_subnet_def dec_map_def)

lemma dec_map_hget0: "wf_map m \<Longrightarrow> hget0 (dec_map k m) k' = (if k' = k then hget0 m k - 1 else hget0 m k')"
  by (auto simp: dec_map_def hget0_def Let_def AList.delete_conv' split: option.splits)

lemma dec_map_wf [simp]: "wf_map m \<Longrightarrow> wf_map (dec_map k m)"
  by (simp add: dec_map_def Let_def split: option.splits)

lemma inc_cases:
  "checked_inc ip m = (if hget0 m ip + 1 < 2 ^ 64 then Inr (hinsert ip (hget0 m ip + 1) m) else Inl ConnCounterOverflow)"
  "checked_inc_subnet sk n = (if hget0 n sk + 1 < 2 ^ 64 then Inr (hinsert sk (hget0 n sk + 1) n) else Inl ConnCounterOverflow)"
  by (simp_all add: checked_inc_def checked_inc_subnet_def checked_add_def)

definition conn_ok :: "ConnGuard \<Rightarrow> bool" where
  "conn_ok g \<longleftrightarrow> distinct (cn_admitted g) \<and> wf_map (cn_pending g) \<and> wf_map (cn_peer_state g) \<and> wf_map (cn_per_ip g) \<and>
     wf_map (cn_per_subnet g) \<and> length (cn_pending g) \<le> cg_max_handshaking (cn_cfg g) \<and>
     (\<forall>ip. hget0 (cn_per_ip g) ip \<le> cg_max_per_ip (cn_cfg g)) \<and>
     (\<forall>sk. hget0 (cn_per_subnet g) sk \<le> subnet_cap (cn_cfg g) sk)"

lemma connect_ok: "conn_ok g \<Longrightarrow> conn_ok (snd (on_connection_established p a now g))"
  by (auto simp: conn_ok_def on_connection_established_def Let_def length_hinsert split: option.splits)

lemma admit_cases:
  assumes "p \<notin> set (cn_admitted g)"
  shows "snd (try_admit p g) = g \<or> fst (try_admit p g) \<noteq> GuardAllow \<and>
      (snd (try_admit p g) = g\<lparr>cn_pending := hremove p (cn_pending g)\<rparr> \<or>
       (\<exists>ip. hget0 (cn_per_ip g) ip < cg_max_per_ip (cn_cfg g) \<and>
        snd (try_admit p g) = g\<lparr>cn_pending := hremove p (cn_pending g), cn_per_ip := dec_map ip (hinsert ip (hget0 (cn_per_ip g) ip + 1) (cn_per_ip g))\<rparr>)) \<or>
    (\<exists>st ip sk. hget (cn_peer_state g) p = Some st \<and> pc_ip st = Some ip \<and> pc_subnet st = Some sk \<and>
      hget0 (cn_per_ip g) ip < cg_max_per_ip (cn_cfg g) \<and> hget0 (cn_per_subnet g) sk < subnet_cap (cn_cfg g) sk \<and>
      try_admit p g = (GuardAllow, g\<lparr>cn_pending := hremove p (cn_pending g), cn_admitted := p # cn_admitted g,
        cn_per_ip := hinsert ip (hget0 (cn_per_ip g) ip + 1) (cn_per_ip g),
        cn_per_subnet := hinsert sk (hget0 (cn_per_subnet g) sk + 1) (cn_per_subnet g)\<rparr>))"
  using assms by (auto simp: try_admit_def Let_def inc_cases subnet_cap_eq not_le split: option.splits)

lemma admit_again: "p \<in> set (cn_admitted g) \<Longrightarrow> try_admit p g = (GuardAllow, g\<lparr>cn_pending := hremove p (cn_pending g)\<rparr>)"
  by (simp add: try_admit_def)

lemma admit_ok:
  assumes "conn_ok g"
  shows "conn_ok (snd (try_admit p g))"
proof (cases "p \<in> set (cn_admitted g)")
  case True
  then show ?thesis using assms length_hremove_le [of p "cn_pending g"] by (simp add: admit_again conn_ok_def)
next
  case False
  then show ?thesis
    using admit_cases [OF False] assms length_hremove_le [of p "cn_pending g"] by (auto simp: conn_ok_def dec_map_hget0)
qed

lemma close_ok: "conn_ok g \<Longrightarrow> conn_ok (on_connection_closed p g)"
  using length_hremove_le [of p "cn_pending g"]
  by (auto simp: conn_ok_def on_connection_closed_def Let_def dec_subnet_eq dec_map_hget0 distinct_removeAll
      intro: le_trans [OF diff_le_self] split: option.splits)

lemma fold_hremove: "wf_map m \<Longrightarrow> wf_map (fold hremove ks m) \<and> length (fold hremove ks m) \<le> length m"
proof (induction ks arbitrary: m)
  case (Cons k ks)
  have "wf_map (hremove k m)" using Cons.prems by simp
  from Cons.IH [OF this] show ?case using length_hremove_le [of k m] by (metis fold_simps(2) le_trans)
qed simp

lemma sweep_ok: "conn_ok g \<Longrightarrow> conn_ok (snd (sweep_timeouts now g))"
  using fold_hremove [of "cn_pending g"] by (auto simp: conn_ok_def sweep_timeouts_def Let_def intro: le_trans)

lemma step_ok: "conn_ok g \<Longrightarrow> conn_ok (conn_step e g)"
  by (cases e) (simp_all add: connect_ok admit_ok close_ok sweep_ok)

section \<open>Peers that stay at their address\<close>

definition stays :: "(PeerId \<Rightarrow> IpAddr) \<Rightarrow> conn_event \<Rightarrow> bool" where
  "stays home e \<longleftrightarrow> (case e of Connect p a now \<Rightarrow> ip_from_multiaddr a = Some (home p) | _ \<Rightarrow> True)"

text \<open>Every admitted peer has a state with its address, and the counters count the admitted peers.\<close>

definition counted :: "(PeerId \<Rightarrow> IpAddr) \<Rightarrow> ConnGuard \<Rightarrow> bool" where
  "counted home g \<longleftrightarrow> distinct (cn_admitted g) \<and> wf_map (cn_per_ip g) \<and> wf_map (cn_per_subnet g) \<and>
     (\<forall>p st. hget (cn_peer_state g) p = Some st \<longrightarrow> pc_ip st = Some (home p) \<and> pc_subnet st = Some (subnet_key (home p)) \<and> 0 < pc_conns st) \<and>
     (\<forall>p\<in>set (cn_admitted g). hget (cn_peer_state g) p \<noteq> None) \<and>
     (\<forall>ip. hget0 (cn_per_ip g) ip = length (filter (\<lambda>p. home p = ip) (cn_admitted g))) \<and>
     (\<forall>sk. hget0 (cn_per_subnet g) sk = length (filter (\<lambda>p. subnet_key (home p) = sk) (cn_admitted g)))"

lemma counted_pending [simp]: "counted home (g\<lparr>cn_pending := x\<rparr>) = counted home g" "counted home (g\<lparr>cn_recent_attempts := y\<rparr>) = counted home g"
  by (simp_all add: counted_def)

lemma connect_counted:
  assumes "counted home g" "ip_from_multiaddr a = Some (home p)"
  shows "counted home (snd (on_connection_established p a now g))"
proof -
  have "0 < saturating_add 64 n 1" for n by (simp add: saturating_add_def)
  then have "counted home (g\<lparr>cn_recent_attempts := y, cn_peer_state := hinsert p \<lparr>pc_conns = saturating_add 64 n 1, pc_ip = Some (home p),
      pc_subnet = Some (subnet_key (home p))\<rparr> (cn_peer_state g)\<rparr>)" for n y
    using assms(1) by (auto simp: counted_def)
  moreover from this have "counted home (g\<lparr>cn_recent_attempts := y, cn_peer_state := hinsert p \<lparr>pc_conns = saturating_add 64 n 1, pc_ip = Some (home p),
      pc_subnet = Some (subnet_key (home p))\<rparr> (cn_peer_state g), cn_pending := z\<rparr>)" for n y z
    by (simp add: counted_def)
  ultimately show ?thesis
    using assms by (auto simp: on_connection_established_def Let_def split: option.splits)
qed

lemma admit_counted:
  assumes c: "counted home g"
  shows "counted home (snd (try_admit p g))"
proof (cases "p \<in> set (cn_admitted g)")
  case True
  then show ?thesis using c by (simp add: admit_again)
next
  case False
  have "counted home (g\<lparr>cn_pending := hremove p (cn_pending g),
      cn_per_ip := dec_map ip (hinsert ip (hget0 (cn_per_ip g) ip + 1) (cn_per_ip g))\<rparr>)" for ip
    using c by (auto simp: counted_def dec_map_hget0)
  then show ?thesis using admit_cases [OF False] c False by (elim disjE exE conjE) (auto simp: counted_def)
qed

lemma length_filter_removeAll:
  "distinct xs \<Longrightarrow> p \<in> set xs \<Longrightarrow> length (filter P (removeAll p xs)) = length (filter P xs) - (if P p then 1 else 0)"
  by (simp add: distinct_remove1_removeAll [symmetric] filter_remove1 length_remove1)

lemma close_counted:
  assumes c: "counted home g"
  shows "counted home (on_connection_closed p g)"
proof (cases "hget (cn_peer_state g) p")
  case None
  then have "p \<notin> set (cn_admitted g)" using c by (auto simp: counted_def)
  then have "removeAll p (cn_admitted g) = cn_admitted g" by (rule removeAll_id)
  then show ?thesis using c None by (simp add: on_connection_closed_def)
next
  case (Some st)
  then have st: "pc_ip st = Some (home p)" "pc_subnet st = Some (subnet_key (home p))" using c by (auto simp: counted_def)
  show ?thesis
  proof (cases "pc_conns st - 1 = 0 \<and> p \<in> set (cn_admitted g)")
    case True
    then show ?thesis
      using c Some st
      by (auto simp: on_connection_closed_def Let_def counted_def dec_subnet_eq dec_map_hget0 length_filter_removeAll
          AList.delete_conv' distinct_removeAll)
  next
    case False
    then show ?thesis
      using c Some st by (auto simp: on_connection_closed_def Let_def counted_def AList.delete_conv')
  qed
qed

lemma step_counted: "counted home g \<Longrightarrow> stays home e \<Longrightarrow> counted home (conn_step e g)"
  by (cases e) (simp_all add: stays_def connect_counted admit_counted close_counted, simp add: sweep_timeouts_def Let_def)

lemma run_counted: "counted home g \<Longrightarrow> conn_ok g \<Longrightarrow> \<forall>e\<in>set es. stays home e \<Longrightarrow> counted home (fold conn_step es g) \<and> conn_ok (fold conn_step es g)"
  by (induction es arbitrary: g) (simp_all add: step_counted step_ok)

lemma new_ok: "counted home (conn_guard_new cfg)" "conn_ok (conn_guard_new cfg)"
  by (simp_all add: counted_def conn_ok_def conn_guard_new_def)

lemma fold_cfg: "cn_cfg (fold conn_step es g) = cn_cfg g"
proof (induction es arbitrary: g)
  case (Cons e es)
  then show ?case by (cases e) simp_all
qed simp

section \<open>Properties\<close>

text \<open>C24. An address cannot open connections faster than the limit. Over any sequence of events in the order of time, the attempts of
  an address that pass the rate limit are at most the allowed number in every window of the configured length.\<close>

theorem conn_rate_bounded:
  assumes "sorted (event_times es)"
  shows "length (filter (\<lambda>x. t \<le> x \<and> x \<le> t + cg_rate_window cfg) (passed ip es (conn_guard_new cfg))) \<le>
    cg_max_new_conns_per_ip_per_window cfg"
  using passed_window [of "conn_guard_new cfg" 0 "[]" ip es t] assms
  by (simp add: in_window_def queue_of_def conn_guard_new_def)

text \<open>C23. The admitted peers of an address and of a subnet are limited while peers keep their addresses. For any events in which every
  peer connects from one address only, the counters are the numbers of admitted peers of each address and each subnet, and these are
  within their limits; the peers that are shaking hands are within theirs.\<close>

theorem admission_limits:
  assumes "\<forall>e\<in>set es. stays home e" and "g = fold conn_step es (conn_guard_new cfg)"
  shows "length (cn_pending g) \<le> cg_max_handshaking cfg \<and> distinct (cn_admitted g) \<and>
    (\<forall>ip. hget0 (cn_per_ip g) ip = length (filter (\<lambda>p. home p = ip) (cn_admitted g)) \<and>
       length (filter (\<lambda>p. home p = ip) (cn_admitted g)) \<le> cg_max_per_ip cfg) \<and>
    (\<forall>sk. hget0 (cn_per_subnet g) sk = length (filter (\<lambda>p. subnet_key (home p) = sk) (cn_admitted g)) \<and>
       length (filter (\<lambda>p. subnet_key (home p) = sk) (cn_admitted g)) \<le> subnet_cap cfg sk)"
proof -
  have "counted home g" "conn_ok g" using run_counted [OF new_ok assms(1)] by (simp_all add: assms(2))
  moreover have "cn_cfg g = cfg" by (simp add: assms(2) fold_cfg conn_guard_new_def)
  ultimately show ?thesis unfolding counted_def conn_ok_def by metis
qed

text \<open>A peer that connects from a second address leaves its place at the first one taken. When an admitted peer opens a second
  connection from another address and then closes both, it is no longer admitted, but the count of the first address stays
  raised by one and the count of the second, which belongs to other peers, is lowered.\<close>

theorem moved_peer_leaks_place:
  assumes "conn_ok g" and "hget (cn_peer_state g) p = None" and "p \<notin> set (cn_admitted g)"
    and "ip_from_multiaddr a = Some x" and "ip_from_multiaddr b = Some y" and "x \<noteq> y"
    and "on_connection_established p a t g = (GuardAllow, g1)" and "try_admit p g1 = (GuardAllow, g2)"
    and "on_connection_established p b t' g2 = (GuardAllow, g3)"
  shows "let g4 = on_connection_closed p (on_connection_closed p g3) in
    p \<notin> set (cn_admitted g4) \<and> hget0 (cn_per_ip g4) x = hget0 (cn_per_ip g) x + 1 \<and>
    hget0 (cn_per_ip g4) y = hget0 (cn_per_ip g) y - 1"
proof -
  have one: "saturating_add 64 0 1 = 1" "saturating_add 64 1 1 = 2" by (simp_all add: saturating_add_def)
  have g1: "hget (cn_peer_state g1) p = Some \<lparr>pc_conns = 1, pc_ip = Some x, pc_subnet = Some (subnet_key x)\<rparr>"
    "cn_admitted g1 = cn_admitted g" "cn_per_ip g1 = cn_per_ip g" "cn_per_subnet g1 = cn_per_subnet g"
    using assms(2,4,7) one by (auto simp: on_connection_established_def Let_def split: option.splits if_splits)
  have g2: "cn_peer_state g2 = cn_peer_state g1" "p \<in> set (cn_admitted g2)"
    "cn_per_ip g2 = hinsert x (hget0 (cn_per_ip g1) x + 1) (cn_per_ip g1)"
    using assms(3,8) g1 by (auto simp: try_admit_def Let_def inc_cases split: if_splits)
  have g3: "hget (cn_peer_state g3) p = Some \<lparr>pc_conns = 2, pc_ip = Some y, pc_subnet = Some (subnet_key y)\<rparr>"
    "cn_admitted g3 = cn_admitted g2" "cn_per_ip g3 = cn_per_ip g2"
    using assms(5,9) g2(1) g1(1) one by (auto simp: on_connection_established_def Let_def split: option.splits if_splits)
  have "wf_map (cn_per_ip g)" using assms(1) by (simp add: conn_ok_def)
  then show ?thesis
    using g1 g2 g3 assms(6) by (simp add: on_connection_closed_def Let_def dec_map_hget0)
qed

section \<open>Witnesses\<close>

theorem conn_rate_bounded_witness:
  "length (filter (\<lambda>x. 3 \<le> x \<and> x \<le> 3 + cg_rate_window default_conn_guard_config)
     (passed (V4 [1, 2, 3, 4]) [Connect [1] [Ip4 [1, 2, 3, 4]] 5, Connect [2] [Ip4 [1, 2, 3, 4]] 6] (conn_guard_new default_conn_guard_config))) \<le> 10"
  using conn_rate_bounded [of "[Connect [1] [Ip4 [1, 2, 3, 4]] 5, Connect [2] [Ip4 [1, 2, 3, 4]] 6]" 3 default_conn_guard_config "V4 [1, 2, 3, 4]"]
  by (simp add: default_conn_guard_config_def)

lemmas guard_run = on_connection_established_def try_admit_def Let_def conn_guard_new_def default_conn_guard_config_def
  saturating_add_def instant_checked_add_def inc_cases hget0_def

lemma default_limits:
  "cg_max_per_ip default_conn_guard_config = 8" "subnet_cap default_conn_guard_config (V4_24 n) = 32"
  "cg_max_handshaking default_conn_guard_config = 32" "cg_handshake_deadline default_conn_guard_config = 5 * 10 ^ 9"
  "cg_rate_window default_conn_guard_config = 10 ^ 10" "cg_max_new_conns_per_ip_per_window default_conn_guard_config = 10"
  by (simp_all add: default_conn_guard_config_def)

abbreviation one_connection :: "IpAddr \<Rightarrow> PeerConnState" where
  "one_connection ip \<equiv> \<lparr>pc_conns = 1, pc_ip = Some ip, pc_subnet = Some (subnet_key ip)\<rparr>"

text \<open>The three events of the life of a peer with one connection, when nothing is in its way.\<close>

lemma first_connection:
  assumes "ip_from_multiaddr a = Some ip" "hget (cn_peer_state g) p = None" "hget (cn_pending g) p = None"
    "cn_cfg g = default_conn_guard_config" "length (cn_pending g) < 32" "length (attempts_of ip g) < 10"
    "\<forall>t\<in>set (attempts_of ip g). now \<le> t + 10 ^ 10" "now < 2 ^ 32"
  shows "conn_step (Connect p a now) g = g\<lparr>cn_recent_attempts := hinsert ip (attempts_of ip g @ [now]) (cn_recent_attempts g),
    cn_peer_state := hinsert p (one_connection ip) (cn_peer_state g), cn_pending := hinsert p (now + 5 * 10 ^ 9) (cn_pending g)\<rparr>"
  using assms by (simp add: on_connection_established_def Let_def saturating_add_def instant_checked_add_def default_limits prune_dropWhile)

lemma first_admission:
  assumes "hget (cn_peer_state g) p = Some \<lparr>pc_conns = 1, pc_ip = Some ip, pc_subnet = Some (V4_24 n)\<rparr>" "p \<notin> set (cn_admitted g)"
    "cn_cfg g = default_conn_guard_config" "hget0 (cn_per_ip g) ip < 8" "hget0 (cn_per_subnet g) (V4_24 n) < 32"
  shows "conn_step (Admit p) g = g\<lparr>cn_pending := hremove p (cn_pending g), cn_admitted := p # cn_admitted g,
    cn_per_ip := hinsert ip (hget0 (cn_per_ip g) ip + 1) (cn_per_ip g),
    cn_per_subnet := hinsert (V4_24 n) (hget0 (cn_per_subnet g) (V4_24 n) + 1) (cn_per_subnet g)\<rparr>"
  using assms by (simp add: try_admit_def Let_def inc_cases default_conn_guard_config_def)

lemma last_close:
  assumes "hget (cn_peer_state g) p = Some \<lparr>pc_conns = 1, pc_ip = i, pc_subnet = s\<rparr>" "p \<in> set (cn_admitted g)"
  shows "cn_admitted (conn_step (Close p) g) = removeAll p (cn_admitted g)"
  using assms by (simp add: on_connection_closed_def Let_def)

text \<open>Three peers of one subnet, two of them at the same address, are admitted, and one of the two closes its connection.\<close>

definition three_peers :: "conn_event list" where
  "three_peers = [Connect [1] [Ip4 [1, 2, 3, 4]] 5, Admit [1], Connect [2] [Ip4 [1, 2, 3, 4]] 6, Admit [2],
     Connect [3] [Ip4 [1, 2, 3, 9]] 7, Admit [3], Close [1]]"

definition three_homes :: "PeerId \<Rightarrow> IpAddr" where
  "three_homes p = (if p = [3] then V4 [1, 2, 3, 9] else V4 [1, 2, 3, 4])"

lemma three_admitted: "cn_admitted (fold conn_step three_peers (conn_guard_new default_conn_guard_config)) = [[3], [2]]"
  by (simp add: three_peers_def first_connection first_admission last_close conn_guard_new_def hget0_def default_limits del: conn_step.simps One_nat_def)

theorem admission_limits_witness:
  "let g = fold conn_step three_peers (conn_guard_new default_conn_guard_config) in
     cn_admitted g = [[3], [2]] \<and> hget0 (cn_per_ip g) (V4 [1, 2, 3, 4]) = 1 \<and> hget0 (cn_per_ip g) (V4 [1, 2, 3, 9]) = 1 \<and>
     hget0 (cn_per_subnet g) (V4_24 [1, 2, 3]) = 2 \<and> hget0 (cn_per_subnet g) (V4_24 [1, 2, 4]) = 0 \<and> length (cn_pending g) \<le> 32"
proof -
  have "\<forall>e\<in>set three_peers. stays three_homes e" by (simp add: three_peers_def stays_def three_homes_def)
  from admission_limits [OF this refl, of default_conn_guard_config]
  show ?thesis by (simp add: three_admitted three_homes_def Let_def) (simp add: default_limits)
qed

theorem moved_peer_leaks_place_witness:
  "\<exists>g3. let g4 = on_connection_closed [1] (on_connection_closed [1] g3) in
     [1] \<notin> set (cn_admitted g4) \<and> hget0 (cn_per_ip g4) (V4 [1, 2, 3, 4]) = 1"
proof -
  let ?a = "[Ip4 [1, 2, 3, 4]]" and ?b = "[Ip4 [5, 6, 7, 8]]" and ?g = "conn_guard_new default_conn_guard_config"
  let ?g1 = "snd (on_connection_established [1] ?a 0 ?g)" let ?g2 = "snd (try_admit [1] ?g1)"
  let ?g3 = "snd (on_connection_established [1] ?b 1 ?g2)"
  have "on_connection_established [1] ?a 0 ?g = (GuardAllow, ?g1)" by (simp add: guard_run)
  moreover have "try_admit [1] ?g1 = (GuardAllow, ?g2)" by (simp add: guard_run)
  moreover have "on_connection_established [1] ?b 1 ?g2 = (GuardAllow, ?g3)" by (simp add: guard_run)
  ultimately have "let g4 = on_connection_closed [1] (on_connection_closed [1] ?g3) in [1] \<notin> set (cn_admitted g4) \<and>
      hget0 (cn_per_ip g4) (V4 [1, 2, 3, 4]) = hget0 (cn_per_ip ?g) (V4 [1, 2, 3, 4]) + 1 \<and>
      hget0 (cn_per_ip g4) (V4 [5, 6, 7, 8]) = hget0 (cn_per_ip ?g) (V4 [5, 6, 7, 8]) - 1"
    by (intro moved_peer_leaks_place [OF new_ok(2)]) (simp_all add: conn_guard_new_def)
  moreover have "hget0 (cn_per_ip ?g) (V4 [1, 2, 3, 4]) = 0" by (simp add: conn_guard_new_def)
  ultimately show ?thesis unfolding Let_def by (intro exI [of _ ?g3]) simp
qed

end
