(* ===== verification/Hydration.thy ===== *)
theory Hydration
  imports LastResort Blocks
begin

text \<open>
  Branch hydration (\<open>src/reorganization/reorg_007_branch_hydration.rs\<close>): which missing blocks of a competing branch are asked for,
  from whom and how often, and the loop of the synchronization that sends the requests
  (\<open>drive_branch_hydration_requests\<close> of \<open>src/runtime/p2p_002_sync_handlers.rs\<close>).

  A \<open>HashSet\<close> of children is a list without repetitions; readings of the clock are arguments. The two closures of
  \<open>on_block_received\<close> act on the database, which is an argument of any type. Sending a request is an argument too: it gives the
  id of the request. The clock of the loop gives the two readings of each turn.
\<close>

section \<open>Data\<close>

record HydrationConfig =
  hc_max_retries_per_hash :: nat
  hc_retry_cooldown :: Duration
  hc_max_tracked_hashes :: nat
  hc_auto_chase_parent :: bool

definition default_hydration_config :: HydrationConfig where
  "default_hydration_config =
     \<lparr>hc_max_retries_per_hash = 6, hc_retry_cooldown = 800 * 10 ^ 6, hc_max_tracked_hashes = 4096, hc_auto_chase_parent = True\<rparr>"

datatype HydrationReason = ForkChoiceNeedMoreData | MissingParent | Explicit

record PendingHash =
  ph_hash :: hash
  ph_origin_peer :: PeerId
  ph_source_height :: "nat option"
  ph_reason :: HydrationReason
  ph_context :: string
  ph_first_seen_at :: Instant
  ph_last_attempt_at :: "Instant option"
  ph_last_failure_at :: "Instant option"
  ph_retries_left :: nat
  ph_waiting_children :: "hash list"
  ph_in_flight :: bool
  ph_exhausted :: bool

definition pending_hash_new ::
    "hash \<Rightarrow> PeerId \<Rightarrow> nat option \<Rightarrow> HydrationReason \<Rightarrow> string \<Rightarrow> HydrationConfig \<Rightarrow> Instant \<Rightarrow> PendingHash" where
  "pending_hash_new h origin_peer source_height reason ctx cfg now =
     \<lparr>ph_hash = h, ph_origin_peer = origin_peer, ph_source_height = source_height, ph_reason = reason, ph_context = ctx,
      ph_first_seen_at = now, ph_last_attempt_at = None, ph_last_failure_at = None, ph_retries_left = hc_max_retries_per_hash cfg,
      ph_waiting_children = [], ph_in_flight = False, ph_exhausted = False\<rparr>"

definition can_attempt_now :: "Instant \<Rightarrow> HydrationConfig \<Rightarrow> PendingHash \<Rightarrow> bool" where
  "can_attempt_now now cfg p =
     (if ph_exhausted p \<or> ph_in_flight p \<or> ph_retries_left p = 0 then False
      else (case ph_last_attempt_at p of Some last_at \<Rightarrow> duration_since now last_at \<ge> hc_retry_cooldown cfg | None \<Rightarrow> True))"

datatype HydrationAdvance = AcceptedComplete hash | AcceptedNeedsParent hash hash | AcceptedUnblockedChildren hash "hash list" | Ignored

datatype HydrationFailure = RetryScheduled hash nat | Exhausted hash | UnknownRequest

type_synonym OutboundRequestId = nat

record Hydration =
  hy_cfg :: HydrationConfig
  hy_pending_by_hash :: "(hash, PendingHash) hmap"
  hy_inflight_by_request :: "(OutboundRequestId, hash) hmap"
  hy_ready_queue :: "hash list"

definition hydration_new :: "HydrationConfig \<Rightarrow> Hydration" where
  "hydration_new cfg = \<lparr>hy_cfg = cfg, hy_pending_by_hash = [], hy_inflight_by_request = [], hy_ready_queue = []\<rparr>"

definition default_mainnet :: Hydration where
  "default_mainnet = hydration_new default_hydration_config"

definition tracked_len :: "Hydration \<Rightarrow> nat" where
  "tracked_len h = length (hy_pending_by_hash h)"

definition inflight_len :: "Hydration \<Rightarrow> nat" where
  "inflight_len h = length (hy_inflight_by_request h)"

definition is_tracking :: "hash \<Rightarrow> Hydration \<Rightarrow> bool" where
  "is_tracking x h \<longleftrightarrow> hget (hy_pending_by_hash h) x \<noteq> None"

definition is_inflight_hash :: "hash \<Rightarrow> Hydration \<Rightarrow> bool" where
  "is_inflight_hash x h \<longleftrightarrow> (case hget (hy_pending_by_hash h) x of Some p \<Rightarrow> ph_in_flight p | None \<Rightarrow> False)"

section \<open>Tracking and scheduling\<close>

definition enqueue_once :: "hash \<Rightarrow> Hydration \<Rightarrow> Hydration" where
  "enqueue_once x h = (if \<not> list_ex (\<lambda>y. y = x) (hy_ready_queue h) then h\<lparr>hy_ready_queue := hy_ready_queue h @ [x]\<rparr> else h)"

definition note_need_more_data ::
    "PeerId \<Rightarrow> hash \<Rightarrow> nat option \<Rightarrow> HydrationReason \<Rightarrow> string \<Rightarrow> Instant \<Rightarrow> Hydration \<Rightarrow> Hydration" where
  "note_need_more_data origin_peer missing_hash source_height reason ctx now h =
     (if length (hy_pending_by_hash h) \<ge> hc_max_tracked_hashes (hy_cfg h) \<and> hget (hy_pending_by_hash h) missing_hash = None then h
      else (case hget (hy_pending_by_hash h) missing_hash of
          Some existing \<Rightarrow>
            (let existing' = existing\<lparr>ph_origin_peer := origin_peer,
                   ph_source_height := (case ph_source_height existing of Some x \<Rightarrow> Some x | None \<Rightarrow> source_height),
                   ph_reason := reason, ph_context := ctx\<rparr>;
                 h1 = h\<lparr>hy_pending_by_hash := hinsert missing_hash existing' (hy_pending_by_hash h)\<rparr> in
             if \<not> ph_in_flight existing' \<and> \<not> ph_exhausted existing' then enqueue_once missing_hash h1 else h1)
        | None \<Rightarrow>
            enqueue_once missing_hash (h\<lparr>hy_pending_by_hash :=
              hinsert missing_hash (pending_hash_new missing_hash origin_peer source_height reason ctx (hy_cfg h) now)
                (hy_pending_by_hash h)\<rparr>)))"

definition note_child_waiting_on_parent :: "hash \<Rightarrow> hash \<Rightarrow> Hydration \<Rightarrow> Hydration" where
  "note_child_waiting_on_parent parent_hash child_hash h =
     (case hget (hy_pending_by_hash h) parent_hash of
        Some parent \<Rightarrow> h\<lparr>hy_pending_by_hash :=
          hinsert parent_hash (parent\<lparr>ph_waiting_children := List.insert child_hash (ph_waiting_children parent)\<rparr>) (hy_pending_by_hash h)\<rparr>
      | None \<Rightarrow> h)"

text \<open>The loop over as many entries as the queue has at the start.\<close>

fun next_request_loop :: "nat \<Rightarrow> Instant \<Rightarrow> Hydration \<Rightarrow> (PeerId \<times> hash) option \<times> Hydration" where
  "next_request_loop 0 now h = (None, h)"
| "next_request_loop (Suc n) now h =
     (case hy_ready_queue h of
        [] \<Rightarrow> (None, h)
      | x # q \<Rightarrow>
          (let h1 = h\<lparr>hy_ready_queue := q\<rparr> in
           case hget (hy_pending_by_hash h1) x of
             None \<Rightarrow> next_request_loop n now h1
           | Some pending \<Rightarrow>
               if can_attempt_now now (hy_cfg h1) pending then (Some (ph_origin_peer pending, x), h1)
               else if \<not> ph_exhausted pending \<and> ph_retries_left pending > 0
                 then next_request_loop n now (h1\<lparr>hy_ready_queue := hy_ready_queue h1 @ [x]\<rparr>)
               else next_request_loop n now h1))"

definition next_request :: "Instant \<Rightarrow> Hydration \<Rightarrow> (PeerId \<times> hash) option \<times> Hydration" where
  "next_request now h = next_request_loop (length (hy_ready_queue h)) now h"

definition mark_issued :: "OutboundRequestId \<Rightarrow> hash \<Rightarrow> Instant \<Rightarrow> Hydration \<Rightarrow> Hydration" where
  "mark_issued request_id x now h =
     (case hget (hy_pending_by_hash h) x of
        None \<Rightarrow> h
      | Some pending \<Rightarrow>
          h\<lparr>hy_pending_by_hash := hinsert x (pending\<lparr>ph_in_flight := True, ph_last_attempt_at := Some now\<rparr>) (hy_pending_by_hash h),
            hy_inflight_by_request := hinsert request_id x (hy_inflight_by_request h)\<rparr>)"

section \<open>Answers\<close>

definition on_hash_request_failed :: "hash \<Rightarrow> Instant \<Rightarrow> Hydration \<Rightarrow> HydrationFailure \<times> Hydration" where
  "on_hash_request_failed x now h =
     (case hget (hy_pending_by_hash h) x of
        None \<Rightarrow> (UnknownRequest, h)
      | Some pending \<Rightarrow>
          (let retries_left = (if ph_retries_left pending > 0 then saturating_sub (ph_retries_left pending) 1 else ph_retries_left pending);
               exhausted = (if retries_left = 0 then True else ph_exhausted pending);
               h1 = h\<lparr>hy_pending_by_hash := hinsert x (pending\<lparr>ph_in_flight := False, ph_last_failure_at := Some now,
                        ph_retries_left := retries_left, ph_exhausted := exhausted\<rparr>) (hy_pending_by_hash h)\<rparr> in
           if exhausted then (Exhausted x, h1) else (RetryScheduled x retries_left, enqueue_once x h1)))"

definition on_request_failed :: "OutboundRequestId \<Rightarrow> Instant \<Rightarrow> Hydration \<Rightarrow> HydrationFailure \<times> Hydration" where
  "on_request_failed request_id now h =
     (case hget (hy_inflight_by_request h) request_id of
        None \<Rightarrow> (UnknownRequest, h)
      | Some x \<Rightarrow> on_hash_request_failed x now (h\<lparr>hy_inflight_by_request := hremove request_id (hy_inflight_by_request h)\<rparr>))"

definition on_not_found :: "OutboundRequestId \<Rightarrow> Instant \<Rightarrow> Hydration \<Rightarrow> HydrationFailure \<times> Hydration" where
  "on_not_found request_id now h =
     (case hget (hy_inflight_by_request h) request_id of
        None \<Rightarrow> (UnknownRequest, h)
      | Some x \<Rightarrow> on_hash_request_failed x now (h\<lparr>hy_inflight_by_request := hremove request_id (hy_inflight_by_request h)\<rparr>))"

definition on_block_received ::
    "OutboundRequestId \<Rightarrow> Block \<Rightarrow> (Block \<Rightarrow> 'd \<Rightarrow> unit result \<times> 'd) \<Rightarrow> (hash \<Rightarrow> 'd \<Rightarrow> bool) \<Rightarrow> Instant \<Rightarrow> Hydration \<Rightarrow> 'd \<Rightarrow>
      HydrationAdvance result \<times> Hydration \<times> 'd" where
  "on_block_received request_id block persist_block has_parent_meta now h d =
     (case hget (hy_inflight_by_request h) request_id of
        None \<Rightarrow> (Inr Ignored, h, d)
      | Some expected_hash \<Rightarrow>
          (let h1 = h\<lparr>hy_inflight_by_request := hremove request_id (hy_inflight_by_request h)\<rparr> in
           case hget (hy_pending_by_hash h1) expected_hash of
             None \<Rightarrow> (Inr Ignored, h1, d)
           | Some pending0 \<Rightarrow>
               (let h2 = h1\<lparr>hy_pending_by_hash := hremove expected_hash (hy_pending_by_hash h1)\<rparr>;
                    pending = pending0\<lparr>ph_in_flight := False\<rparr> in
                if bl_block_hash block \<noteq> expected_hash then
                  (let retries_left = (if ph_retries_left pending > 0 then saturating_sub (ph_retries_left pending) 1 else ph_retries_left pending);
                       exhausted = (retries_left = 0);
                       h3 = h2\<lparr>hy_pending_by_hash := hinsert expected_hash
                              (pending\<lparr>ph_retries_left := retries_left, ph_exhausted := exhausted\<rparr>) (hy_pending_by_hash h2)\<rparr> in
                   (Inr Ignored, if \<not> exhausted then enqueue_once expected_hash h3 else h3, d))
                else
                  (case persist_block block d of
                     (Inl e, d1) \<Rightarrow> (Inl e, h2, d1)
                   | (Inr _, d1) \<Rightarrow>
                       (let waiting_children = ph_waiting_children pending;
                            m = bl_metadata block;
                            is_genesis_parent = (m_index m = 0 \<or> m_previous_hash m = zero_hash) in
                        if hc_auto_chase_parent (hy_cfg h2) \<and> \<not> is_genesis_parent \<and> \<not> has_parent_meta (m_previous_hash m) d1 then
                          (let missing_parent = m_previous_hash m;
                               h3 = note_need_more_data (ph_origin_peer pending) missing_parent (checked_sub (m_index m) 1) MissingParent
                                      ''received block but parent meta still missing'' now h2;
                               h4 = note_child_waiting_on_parent missing_parent (bl_block_hash block) h3 in
                           (Inr (AcceptedNeedsParent (bl_block_hash block) missing_parent), h4, d1))
                        else if waiting_children \<noteq> [] then
                          (Inr (AcceptedUnblockedChildren (bl_block_hash block) waiting_children), fold enqueue_once waiting_children h2, d1)
                        else (Inr (AcceptedComplete (bl_block_hash block)), h2, d1))))))"

definition clear_if_known :: "hash \<Rightarrow> Hydration \<Rightarrow> Hydration" where
  "clear_if_known x h =
     h\<lparr>hy_pending_by_hash := hremove x (hy_pending_by_hash h), hy_ready_queue := filter (\<lambda>y. y \<noteq> x) (hy_ready_queue h)\<rparr>"

text \<open>One affected hash of a peer that disconnects, and whether it is queued again.\<close>

definition fail_affected :: "Instant \<Rightarrow> hash \<Rightarrow> (hash, PendingHash) hmap \<times> hash list \<Rightarrow> (hash, PendingHash) hmap \<times> hash list" where
  "fail_affected now x st =
     (case st of (m, requeue) \<Rightarrow>
        (case hget m x of
           None \<Rightarrow> (m, requeue)
         | Some p \<Rightarrow>
             (let retries_left = (if ph_retries_left p > 0 then saturating_sub (ph_retries_left p) 1 else ph_retries_left p);
                  p1 = p\<lparr>ph_in_flight := False, ph_last_failure_at := Some now, ph_retries_left := retries_left\<rparr> in
              if retries_left = 0 then (hinsert x (p1\<lparr>ph_exhausted := True\<rparr>) m, requeue)
              else (hinsert x p1 m, requeue @ [x]))))"

definition hydration_on_peer_disconnected :: "PeerId \<Rightarrow> Instant \<Rightarrow> Hydration \<Rightarrow> Hydration" where
  "hydration_on_peer_disconnected peer now h =
     (let affected_hashes = map fst (filter (\<lambda>(x, p). ph_origin_peer p = peer) (hy_pending_by_hash h)) in
      case fold (fail_affected now) affected_hashes (hy_pending_by_hash h, []) of
        (m, hashes_to_requeue) \<Rightarrow>
          (let h1 = fold enqueue_once hashes_to_requeue (h\<lparr>hy_pending_by_hash := m\<rparr>) in
           h1\<lparr>hy_inflight_by_request := filter (\<lambda>(_, x). case hget (hy_pending_by_hash h1) x of
                 Some p \<Rightarrow> ph_origin_peer p \<noteq> peer | None \<Rightarrow> False) (hy_inflight_by_request h1)\<rparr>))"

section \<open>Sending requests\<close>

fun drive_loop ::
    "nat \<Rightarrow> (nat \<Rightarrow> Instant \<times> Instant) \<Rightarrow> (PeerId \<Rightarrow> bool) \<Rightarrow> (PeerId \<Rightarrow> bool) \<Rightarrow> (PeerId \<Rightarrow> hash \<Rightarrow> 'n \<Rightarrow> OutboundRequestId \<times> 'n) \<Rightarrow>
      Hydration \<times> 'n \<Rightarrow> hash list \<times> Hydration \<times> 'n" where
  "drive_loop 0 clock is_connected is_pq_ready send_request (h, net) = ([], h, net)"
| "drive_loop (Suc n) clock is_connected is_pq_ready send_request (h, net) =
     (case next_request (fst (clock n)) h of
        (None, h1) \<Rightarrow> ([], h1, net)
      | (Some (peer, x), h1) \<Rightarrow>
          if \<not> is_connected peer then drive_loop n clock is_connected is_pq_ready send_request (h1, net)
          else if \<not> is_pq_ready peer then drive_loop n clock is_connected is_pq_ready send_request (h1, net)
          else (case send_request peer x net of
              (req_id, net1) \<Rightarrow>
                (case drive_loop n clock is_connected is_pq_ready send_request (mark_issued req_id x (snd (clock n)) h1, net1) of
                   (sent, h2, net2) \<Rightarrow> (x # sent, h2, net2))))"

definition MAX_HYDRATION_REQUESTS_PER_TICK :: nat where
  "MAX_HYDRATION_REQUESTS_PER_TICK = 8"

definition drive_branch_hydration_requests ::
    "(nat \<Rightarrow> Instant \<times> Instant) \<Rightarrow> (PeerId \<Rightarrow> bool) \<Rightarrow> (PeerId \<Rightarrow> bool) \<Rightarrow> (PeerId \<Rightarrow> hash \<Rightarrow> 'n \<Rightarrow> OutboundRequestId \<times> 'n) \<Rightarrow>
      Hydration \<times> 'n \<Rightarrow> hash list \<times> Hydration \<times> 'n" where
  "drive_branch_hydration_requests clock is_connected is_pq_ready send_request =
     drive_loop MAX_HYDRATION_REQUESTS_PER_TICK clock is_connected is_pq_ready send_request"

end
