(* ===== verification/HydrationProps.thy ===== *)
theory HydrationProps
  imports Hydration
begin

text \<open>
  What branch hydration keeps track of: every tracked hash is queued, asked for or given up, the cases in which one is lost, and
  the table that fills with hashes that were given up.
\<close>

section \<open>Scheduling\<close>

lemma enqueue_fields [simp]:
  "hy_cfg (enqueue_once x h) = hy_cfg h" "hy_pending_by_hash (enqueue_once x h) = hy_pending_by_hash h"
  "hy_inflight_by_request (enqueue_once x h) = hy_inflight_by_request h"
  "set (hy_ready_queue (enqueue_once x h)) = insert x (set (hy_ready_queue h))"
  by (auto simp: enqueue_once_def list_ex_iff)

lemma enqueue_distinct: "distinct (hy_ready_queue h) \<Longrightarrow> distinct (hy_ready_queue (enqueue_once x h))"
  by (auto simp: enqueue_once_def list_ex_iff)

lemma enqueue_all:
  "hy_cfg (fold enqueue_once xs h) = hy_cfg h" "hy_pending_by_hash (fold enqueue_once xs h) = hy_pending_by_hash h"
  "hy_inflight_by_request (fold enqueue_once xs h) = hy_inflight_by_request h"
  "set (hy_ready_queue (fold enqueue_once xs h)) = set xs \<union> set (hy_ready_queue h)"
  "distinct (hy_ready_queue h) \<Longrightarrow> distinct (hy_ready_queue (fold enqueue_once xs h))"
  by (induction xs arbitrary: h) (auto simp: enqueue_distinct)

text \<open>What the scheduler takes from the queue: hashes that are no longer tracked or were given up, and the one it returns.\<close>

lemma next_loop_spec:
  assumes "next_request_loop n now h = (r, h')" and "distinct (hy_ready_queue h)"
  obtains q where "h' = h\<lparr>hy_ready_queue := q\<rparr>" "distinct q" "set q \<subseteq> set (hy_ready_queue h)"
    and "\<And>y p. y \<in> set (hy_ready_queue h) - set q \<Longrightarrow> hget (hy_pending_by_hash h) y = Some p \<Longrightarrow>
      ph_exhausted p \<or> ph_retries_left p = 0 \<or> r = Some (ph_origin_peer p, y)"
    and "\<And>peer x. r = Some (peer, x) \<Longrightarrow> x \<notin> set q \<and>
      (\<exists>p. hget (hy_pending_by_hash h) x = Some p \<and> ph_origin_peer p = peer \<and> can_attempt_now now (hy_cfg h) p)"
  using assms
proof (induction n arbitrary: h thesis)
  case 0
  show ?case by (rule "0.prems"(1) [of "hy_ready_queue h"]) (use 0 in auto)
next
  case (Suc n)
  show ?case
  proof (cases "hy_ready_queue h")
    case Nil
    show ?thesis by (rule Suc.prems(1) [of "[]"]) (use Suc.prems Nil in auto)
  next
    case (Cons x q0)
    have d: "x \<notin> set q0" "distinct q0" using Suc.prems(3) Cons by auto
    have rec: thesis if l: "next_request_loop n now (h\<lparr>hy_ready_queue := q1\<rparr>) = (r, h')" and q1: "distinct q1" "set q1 \<subseteq> set (x # q0)" "set q0 \<subseteq> set q1"
      and x: "x \<notin> set q1 \<Longrightarrow> (\<forall>p. hget (hy_pending_by_hash h) x = Some p \<longrightarrow> ph_exhausted p \<or> ph_retries_left p = 0)" for q1
    proof -
      obtain q where q: "h' = h\<lparr>hy_ready_queue := q\<rparr>" "distinct q" "set q \<subseteq> set q1"
        "\<And>y p. y \<in> set q1 - set q \<Longrightarrow> hget (hy_pending_by_hash h) y = Some p \<Longrightarrow>
          ph_exhausted p \<or> ph_retries_left p = 0 \<or> r = Some (ph_origin_peer p, y)"
        "\<And>peer x. r = Some (peer, x) \<Longrightarrow> x \<notin> set q \<and>
          (\<exists>p. hget (hy_pending_by_hash h) x = Some p \<and> ph_origin_peer p = peer \<and> can_attempt_now now (hy_cfg h) p)"
        using Suc.IH [OF _ l] q1(1) by auto
      show thesis
      proof (rule Suc.prems(1) [OF q(1,2)])
        fix y p
        assume y: "y \<in> set (hy_ready_queue h) - set q" "hget (hy_pending_by_hash h) y = Some p"
        show "ph_exhausted p \<or> ph_retries_left p = 0 \<or> r = Some (ph_origin_peer p, y)"
          using q(4) [of y p] x y q1(3) by (cases "y \<in> set q1") (auto simp: Cons)
      qed (use q q1 in \<open>auto simp: Cons\<close>)
    qed
    show ?thesis
    proof (cases "hget (hy_pending_by_hash h) x")
      case None
      then show ?thesis using rec [of q0] Suc.prems(2) d Cons by auto
    next
      case (Some p)
      show ?thesis
      proof (cases "can_attempt_now now (hy_cfg h) p")
        case True
        then have r: "r = Some (ph_origin_peer p, x)" "h' = h\<lparr>hy_ready_queue := q0\<rparr>" using Suc.prems(2) Some Cons by auto
        show ?thesis by (rule Suc.prems(1) [of q0]) (use r d Some True Cons in auto)
      next
        case False
        then show ?thesis
          using rec [of q0] rec [of "q0 @ [x]"] Suc.prems(2) d Cons Some
          by (cases "\<not> ph_exhausted p \<and> ph_retries_left p > 0") (auto simp: Let_def)
      qed
    qed
  qed
qed

lemma next_request_spec:
  assumes "next_request now h = (r, h')" and "distinct (hy_ready_queue h)"
  obtains q where "h' = h\<lparr>hy_ready_queue := q\<rparr>" "distinct q" "set q \<subseteq> set (hy_ready_queue h)"
    and "\<And>y p. y \<in> set (hy_ready_queue h) - set q \<Longrightarrow> hget (hy_pending_by_hash h) y = Some p \<Longrightarrow>
      ph_exhausted p \<or> ph_retries_left p = 0 \<or> r = Some (ph_origin_peer p, y)"
    and "\<And>peer x. r = Some (peer, x) \<Longrightarrow> x \<notin> set q \<and>
      (\<exists>p. hget (hy_pending_by_hash h) x = Some p \<and> ph_origin_peer p = peer \<and> can_attempt_now now (hy_cfg h) p)"
  using next_loop_spec [OF assms(1) [unfolded next_request_def] assms(2)] by blast

section \<open>Invariant\<close>

definition entry_ok :: "HydrationConfig \<Rightarrow> PendingHash \<Rightarrow> bool" where
  "entry_ok cfg p \<longleftrightarrow> ph_retries_left p \<le> hc_max_retries_per_hash cfg \<and> (ph_exhausted p \<longleftrightarrow> ph_retries_left p = 0)"

definition hyd_ok :: "HydrationConfig \<Rightarrow> Hydration \<Rightarrow> bool" where
  "hyd_ok cfg h \<longleftrightarrow> hy_cfg h = cfg \<and> wf_map (hy_pending_by_hash h) \<and> wf_map (hy_inflight_by_request h) \<and> distinct (hy_ready_queue h) \<and>
     length (hy_pending_by_hash h) \<le> hc_max_tracked_hashes cfg \<and>
     (\<forall>x p. hget (hy_pending_by_hash h) x = Some p \<longrightarrow> entry_ok cfg p)"

text \<open>Nothing is lost: a tracked hash that is neither given up nor asked for waits in the queue, and one that is asked for has a
  request.\<close>

definition covered :: "Hydration \<Rightarrow> bool" where
  "covered h \<longleftrightarrow> (\<forall>x p. hget (hy_pending_by_hash h) x = Some p \<longrightarrow>
     (ph_in_flight p \<longrightarrow> (\<exists>rid. hget (hy_inflight_by_request h) rid = Some x)) \<and>
     (\<not> ph_in_flight p \<longrightarrow> \<not> ph_exhausted p \<longrightarrow> x \<in> set (hy_ready_queue h)))"

declare hget_hremove [simp]

lemma need_ok:
  assumes "hyd_ok cfg h" "0 < hc_max_retries_per_hash cfg"
  shows "hyd_ok cfg (note_need_more_data peer x sh r c now h)"
proof -
  have "distinct (hy_ready_queue (enqueue_once x (h\<lparr>hy_pending_by_hash := m\<rparr>)))" for m
    using assms(1) by (intro enqueue_distinct) (simp add: hyd_ok_def)
  then show ?thesis
    using assms
    by (auto simp: note_need_more_data_def hyd_ok_def Let_def length_hinsert entry_ok_def pending_hash_new_def split: option.splits)
qed

lemma need_covered: "covered h \<Longrightarrow> covered (note_need_more_data peer x sh r c now h)"
  by (auto simp: note_need_more_data_def covered_def Let_def pending_hash_new_def split: option.splits if_splits)

lemma child_ok: "hyd_ok cfg h \<Longrightarrow> hyd_ok cfg (note_child_waiting_on_parent x y h)"
  by (auto simp: note_child_waiting_on_parent_def hyd_ok_def length_hinsert entry_ok_def split: option.splits)

lemma child_covered: "covered h \<Longrightarrow> covered (note_child_waiting_on_parent x y h)"
  by (auto simp: note_child_waiting_on_parent_def covered_def split: option.splits)

lemma next_ok:
  assumes "hyd_ok cfg h" "next_request now h = (r, h')"
  shows "hyd_ok cfg h'"
proof -
  have d: "distinct (hy_ready_queue h)" using assms(1) by (simp add: hyd_ok_def)
  obtain q where "h' = h\<lparr>hy_ready_queue := q\<rparr>" "distinct q" by (rule next_request_spec [OF assms(2) d])
  then show ?thesis using assms(1) by (simp add: hyd_ok_def)
qed

lemma queue_keeps:
  assumes "hyd_ok cfg h" "covered h" "next_request now h = (r, h')"
  obtains q where "h' = h\<lparr>hy_ready_queue := q\<rparr>"
    and "\<And>y p. hget (hy_pending_by_hash h) y = Some p \<Longrightarrow> \<not> ph_in_flight p \<Longrightarrow> \<not> ph_exhausted p \<Longrightarrow>
      y \<in> set q \<or> r = Some (ph_origin_peer p, y)"
    and "\<And>peer x. r = Some (peer, x) \<Longrightarrow> \<exists>p. hget (hy_pending_by_hash h) x = Some p"
proof -
  have d: "distinct (hy_ready_queue h)" using assms(1) by (simp add: hyd_ok_def)
  show thesis
  proof (rule next_request_spec [OF assms(3) d])
    fix q
    assume q: "h' = h\<lparr>hy_ready_queue := q\<rparr>" "\<And>y p. y \<in> set (hy_ready_queue h) - set q \<Longrightarrow> hget (hy_pending_by_hash h) y = Some p \<Longrightarrow>
        ph_exhausted p \<or> ph_retries_left p = 0 \<or> r = Some (ph_origin_peer p, y)"
      "\<And>peer x. r = Some (peer, x) \<Longrightarrow> x \<notin> set q \<and>
        (\<exists>p. hget (hy_pending_by_hash h) x = Some p \<and> ph_origin_peer p = peer \<and> can_attempt_now now (hy_cfg h) p)"
    show thesis
    proof (rule that [OF q(1)])
      fix y p
      assume y: "hget (hy_pending_by_hash h) y = Some p" "\<not> ph_in_flight p" "\<not> ph_exhausted p"
      then have "y \<in> set (hy_ready_queue h)" "ph_retries_left p \<noteq> 0"
        using assms(1,2) by (auto simp: covered_def hyd_ok_def entry_ok_def)
      then show "y \<in> set q \<or> r = Some (ph_origin_peer p, y)" using q(2) [of y p] y by auto
    qed (use q(3) in blast)
  qed
qed

lemma next_covered:
  assumes "hyd_ok cfg h" "covered h" "next_request now h = (None, h')"
  shows "covered h'"
  by (rule queue_keeps [OF assms]) (use assms(2) in \<open>auto simp: covered_def\<close>)

lemma mark_ok: "hyd_ok cfg h \<Longrightarrow> hyd_ok cfg (mark_issued rid x now h)"
  by (auto simp: mark_issued_def hyd_ok_def length_hinsert entry_ok_def split: option.splits)

lemma issue_covered:
  assumes "hyd_ok cfg h" "covered h" "next_request now h = (Some (peer, x), h')" "hget (hy_inflight_by_request h) rid = None"
  shows "covered (mark_issued rid x now' h')"
proof -
  obtain q where q: "h' = h\<lparr>hy_ready_queue := q\<rparr>"
    "\<And>y p. hget (hy_pending_by_hash h) y = Some p \<Longrightarrow> \<not> ph_in_flight p \<Longrightarrow> \<not> ph_exhausted p \<Longrightarrow> y \<in> set q \<or> y = x"
    "\<exists>p. hget (hy_pending_by_hash h) x = Some p"
    by (rule queue_keeps [OF assms(1-3)]) blast
  have "\<exists>rid'. hget (hinsert rid x (hy_inflight_by_request h)) rid' = Some y"
    if "hget (hy_pending_by_hash h) y = Some p" "ph_in_flight p" for y p
    using assms(2,4) that unfolding covered_def by (metis hget_hinsert option.distinct(1))
  moreover have "\<exists>rid'. hget (hinsert rid x (hy_inflight_by_request h)) rid' = Some x" by (metis hget_hinsert)
  ultimately show ?thesis using q by (auto simp: covered_def mark_issued_def split: option.splits if_splits)
qed

lemma hyd_store:
  assumes "hyd_ok cfg h" "entry_ok cfg p" "hget (hy_pending_by_hash h) x \<noteq> None \<or> length (hy_pending_by_hash h) < hc_max_tracked_hashes cfg"
  shows "hyd_ok cfg (h\<lparr>hy_pending_by_hash := hinsert x p (hy_pending_by_hash h)\<rparr>)"
  using assms by (auto simp: hyd_ok_def length_hinsert)

lemma hyd_enqueue: "hyd_ok cfg h \<Longrightarrow> hyd_ok cfg (enqueue_once x h)"
  by (simp add: hyd_ok_def enqueue_distinct)

lemma hash_failed_ok:
  assumes "hyd_ok cfg h"
  shows "hyd_ok cfg (snd (on_hash_request_failed x now h))"
proof (cases "hget (hy_pending_by_hash h) x")
  case (Some p)
  then have e: "entry_ok cfg p" using assms by (auto simp: hyd_ok_def)
  have "hyd_ok cfg (h\<lparr>hy_pending_by_hash := hinsert x (p\<lparr>ph_in_flight := False, ph_last_failure_at := Some now,
      ph_retries_left := ph_retries_left p - 1, ph_exhausted := (ph_retries_left p - 1 = 0)\<rparr>) (hy_pending_by_hash h)\<rparr>)"
    using Some e by (intro hyd_store [OF assms]) (auto simp: entry_ok_def)
  moreover from this have "hyd_ok cfg (enqueue_once x (h\<lparr>hy_pending_by_hash := hinsert x (p\<lparr>ph_in_flight := False, ph_last_failure_at := Some now,
      ph_retries_left := ph_retries_left p - 1, ph_exhausted := (ph_retries_left p - 1 = 0)\<rparr>) (hy_pending_by_hash h)\<rparr>))"
    by (rule hyd_enqueue)
  ultimately show ?thesis
    using Some e by (cases "ph_retries_left p \<le> 1") (auto simp: on_hash_request_failed_def Let_def entry_ok_def)
qed (use assms in \<open>simp add: on_hash_request_failed_def\<close>)

text \<open>Giving up one request of a hash keeps the others covered.\<close>

lemma conj_imp_same [simp]: "(P \<and> (P \<longrightarrow> Q)) = (P \<and> Q)"
  by blast

lemma other_request:
  assumes "covered h" "hget (hy_inflight_by_request h) rid = Some x" "hget (hy_pending_by_hash h) y = Some p" "ph_in_flight p" "y \<noteq> x"
  shows "\<exists>rid'. rid' \<noteq> rid \<and> hget (hy_inflight_by_request h) rid' = Some y"
  using assms unfolding covered_def by (metis option.inject)

lemma failed_covered:
  assumes "covered h" "hget (hy_inflight_by_request h) rid = Some x"
  shows "covered (snd (on_hash_request_failed x now (h\<lparr>hy_inflight_by_request := hremove rid (hy_inflight_by_request h)\<rparr>)))"
proof (cases "hget (hy_pending_by_hash h) x")
  case None
  have "\<exists>rid'. rid' \<noteq> rid \<and> hget (hy_inflight_by_request h) rid' = Some y"
    if "hget (hy_pending_by_hash h) y = Some p" "ph_in_flight p" for y p
    using other_request [OF assms that] that None by (cases "y = x") auto
  then show ?thesis using assms(1) None by (auto simp: on_hash_request_failed_def covered_def)
next
  case (Some p)
  then show ?thesis
    using assms(1) other_request [OF assms] by (auto simp: on_hash_request_failed_def Let_def covered_def split: if_splits)
qed

lemma answer_ok:
  assumes "hyd_ok cfg h"
  shows "hyd_ok cfg (snd (on_request_failed rid now h))" "hyd_ok cfg (snd (on_not_found rid now h))"
proof -
  have "hyd_ok cfg (h\<lparr>hy_inflight_by_request := hremove rid (hy_inflight_by_request h)\<rparr>)" using assms by (simp add: hyd_ok_def)
  then show "hyd_ok cfg (snd (on_request_failed rid now h))" "hyd_ok cfg (snd (on_not_found rid now h))"
    using assms hash_failed_ok by (auto simp: on_request_failed_def on_not_found_def split: option.splits)
qed

lemma answer_covered:
  assumes "hyd_ok cfg h" "covered h"
  shows "covered (snd (on_request_failed rid now h))" "covered (snd (on_not_found rid now h))"
  using assms failed_covered [OF assms(2)] by (auto simp: on_request_failed_def on_not_found_def split: option.splits)

section \<open>A received block\<close>

lemma removed_ok:
  assumes "hyd_ok cfg h"
  shows "hyd_ok cfg (h\<lparr>hy_inflight_by_request := hremove rid (hy_inflight_by_request h), hy_pending_by_hash := hremove x (hy_pending_by_hash h)\<rparr>)"
  using assms length_hremove_le [of x "hy_pending_by_hash h"] by (auto simp: hyd_ok_def)

lemma removed_covered:
  assumes "covered h" "hget (hy_inflight_by_request h) rid = Some x"
  shows "covered (h\<lparr>hy_inflight_by_request := hremove rid (hy_inflight_by_request h), hy_pending_by_hash := hremove x (hy_pending_by_hash h)\<rparr>)"
  using assms(1) other_request [OF assms] by (auto simp: covered_def)

lemma received_keeps:
  assumes h: "hyd_ok cfg h" "covered h" and c: "0 < hc_max_retries_per_hash cfg"
    and r: "on_block_received rid block persist has_meta now h d = (res, h', d')"
  shows "hyd_ok cfg h' \<and> covered h'"
proof (cases "hget (hy_inflight_by_request h) rid")
  case None
  then show ?thesis using h r by (simp add: on_block_received_def)
next
  case (Some x)
  let ?h1 = "h\<lparr>hy_inflight_by_request := hremove rid (hy_inflight_by_request h)\<rparr>"
  show ?thesis
  proof (cases "hget (hy_pending_by_hash h) x")
    case None
    have "hyd_ok cfg ?h1" using h(1) by (simp add: hyd_ok_def)
    moreover have "\<exists>rid'. rid' \<noteq> rid \<and> hget (hy_inflight_by_request h) rid' = Some y"
      if "hget (hy_pending_by_hash h) y = Some p" "ph_in_flight p" for y p
      using other_request [OF h(2) Some that] that None by (cases "y = x") auto
    then have "covered ?h1" using h(2) by (auto simp: covered_def)
    ultimately show ?thesis using r Some None by (simp add: on_block_received_def Let_def)
  next
    case pend: (Some p)
    let ?h2 = "?h1\<lparr>hy_pending_by_hash := hremove x (hy_pending_by_hash h)\<rparr>"
    have k: "hyd_ok cfg ?h2" "covered ?h2" using removed_ok [OF h(1)] removed_covered [OF h(2) Some] by simp_all
    have l: "length (hremove x (hy_pending_by_hash h)) < hc_max_tracked_hashes cfg"
      using h(1) length_hremove_less [of "hy_pending_by_hash h" x] pend by (auto simp: hyd_ok_def)
    have q: "hyd_ok cfg (fold enqueue_once xs ?h2)" "covered (fold enqueue_once xs ?h2)" for xs
      using k by (auto simp: hyd_ok_def covered_def enqueue_all)
    show ?thesis
    proof (cases "bl_block_hash block = x")
      case True
      have n: "hyd_ok cfg (note_child_waiting_on_parent y z (note_need_more_data peer y sh reason ctx now ?h2))"
        "covered (note_child_waiting_on_parent y z (note_need_more_data peer y sh reason ctx now ?h2))" for y z peer sh reason ctx
        using child_ok [OF need_ok [OF k(1) c]] child_covered [OF need_covered [OF k(2)]] by simp_all
      show ?thesis
        using r Some pend True k q n by (auto simp: on_block_received_def Let_def split: prod.splits sum.splits if_splits)
    next
      case False
      have "entry_ok cfg p" using h(1) pend by (auto simp: hyd_ok_def)
      then have m: "hyd_ok cfg (?h2\<lparr>hy_pending_by_hash := hinsert x (p\<lparr>ph_in_flight := False, ph_retries_left := n, ph_exhausted := (n = 0)\<rparr>)
          (hremove x (hy_pending_by_hash h))\<rparr>)" if "n \<le> ph_retries_left p" for n
        using hyd_store [OF k(1), of "p\<lparr>ph_in_flight := False, ph_retries_left := n, ph_exhausted := (n = 0)\<rparr>" x] l that
        by (simp add: entry_ok_def)
      have "h' = (let h3 = ?h2\<lparr>hy_pending_by_hash := hinsert x (p\<lparr>ph_in_flight := False, ph_retries_left := ph_retries_left p - 1,
          ph_exhausted := (ph_retries_left p - 1 = 0)\<rparr>) (hremove x (hy_pending_by_hash h))\<rparr> in
          if ph_retries_left p - 1 \<noteq> 0 then enqueue_once x h3 else h3)"
        using r Some pend False by (auto simp: on_block_received_def Let_def)
      then show ?thesis
        using m [of "ph_retries_left p - 1"] k(2) by (auto simp: Let_def hyd_enqueue covered_def)
    qed
  qed
qed

section \<open>A peer that disconnects\<close>

definition failed_entry :: "Instant \<Rightarrow> PendingHash \<Rightarrow> PendingHash" where
  "failed_entry now p = p\<lparr>ph_in_flight := False, ph_last_failure_at := Some now, ph_retries_left := ph_retries_left p - 1,
     ph_exhausted := (ph_retries_left p - 1 = 0 \<or> ph_exhausted p)\<rparr>"

lemma fail_affected_eq:
  "fail_affected now x (m, rq) = (case hget m x of None \<Rightarrow> (m, rq)
     | Some p \<Rightarrow> (hinsert x (failed_entry now p) m, if ph_retries_left p - 1 = 0 then rq else rq @ [x]))"
proof (cases "hget m x")
  case (Some p)
  have "p\<lparr>ph_in_flight := False, ph_last_failure_at := Some now, ph_retries_left := n\<rparr> =
      p\<lparr>ph_in_flight := False, ph_last_failure_at := Some now, ph_retries_left := n, ph_exhausted := ph_exhausted p\<rparr>" for n
    by simp
  then show ?thesis
    using Some by (cases "ph_retries_left p - 1 = 0") (auto simp: fail_affected_def failed_entry_def Let_def)
qed (simp add: fail_affected_def)

lemma fail_all:
  assumes "distinct xs" "fold (fail_affected now) xs (m, rq) = (m', rq')"
  shows "hget m' y = (if y \<in> set xs then map_option (failed_entry now) (hget m y) else hget m y)"
    and "set rq' = set rq \<union> {y \<in> set xs. \<exists>p. hget m y = Some p \<and> ph_retries_left p - 1 \<noteq> 0}"
    and "wf_map m \<Longrightarrow> wf_map m'" and "length m' = length m"
proof -
  show get: "hget m' y = (if y \<in> set xs then map_option (failed_entry now) (hget m y) else hget m y)" for y
    using assms
  proof (induction xs arbitrary: m rq)
    case (Cons x xs)
    then show ?case
      using Cons.IH [of m rq] Cons.IH [of "hinsert x (failed_entry now (the (hget m x))) m"
          "if ph_retries_left (the (hget m x)) - 1 = 0 then rq else rq @ [x]"]
      by (cases "hget m x") (auto simp: fail_affected_eq)
  qed simp
  show "set rq' = set rq \<union> {y \<in> set xs. \<exists>p. hget m y = Some p \<and> ph_retries_left p - 1 \<noteq> 0}"
    using assms
  proof (induction xs arbitrary: m rq)
    case (Cons x xs)
    have k: "{y \<in> set xs. \<exists>p. hget (hinsert x v m) y = Some p \<and> ph_retries_left p - 1 \<noteq> 0} =
        {y \<in> set xs. \<exists>p. hget m y = Some p \<and> ph_retries_left p - 1 \<noteq> 0}" for v
      using Cons.prems(1) by auto
    show ?case
    proof (cases "hget m x")
      case None
      then have f: "fold (fail_affected now) xs (m, rq) = (m', rq')" using Cons.prems(2) by (simp add: fail_affected_eq)
      have "{y \<in> set (x # xs). \<exists>p. hget m y = Some p \<and> ph_retries_left p - 1 \<noteq> 0} =
          {y \<in> set xs. \<exists>p. hget m y = Some p \<and> ph_retries_left p - 1 \<noteq> 0}"
        using None by auto
      then show ?thesis using Cons.IH [OF _ f] Cons.prems(1) by (metis distinct.simps(2))
    next
      case (Some p)
      let ?rq = "if ph_retries_left p - 1 = 0 then rq else rq @ [x]"
      have "set rq' = set ?rq \<union> {y \<in> set xs. \<exists>p. hget m y = Some p \<and> ph_retries_left p - 1 \<noteq> 0}"
      proof -
        have f: "fold (fail_affected now) xs (hinsert x (failed_entry now p) m, ?rq) = (m', rq')"
          using Cons.prems(2) Some by (simp add: fail_affected_eq)
        show ?thesis using Cons.IH [OF _ f, unfolded k] Cons.prems(1) by (metis distinct.simps(2))
      qed
      moreover have "{y \<in> set (x # xs). \<exists>p. hget m y = Some p \<and> ph_retries_left p - 1 \<noteq> 0} =
          (if ph_retries_left p - 1 = 0 then {} else {x}) \<union> {y \<in> set xs. \<exists>p. hget m y = Some p \<and> ph_retries_left p - 1 \<noteq> 0}"
        using Some by auto
      ultimately show ?thesis by (simp split: if_splits)
    qed
  qed simp
  have "(wf_map m \<longrightarrow> wf_map m') \<and> length m' = length m"
    using assms(2)
  proof (induction xs arbitrary: m rq)
    case (Cons x xs)
    then show ?case
      using Cons.IH [of m rq] Cons.IH [of "hinsert x (failed_entry now (the (hget m x))) m"
          "if ph_retries_left (the (hget m x)) - 1 = 0 then rq else rq @ [x]"]
      by (cases "hget m x") (auto simp: fail_affected_eq length_hinsert)
  qed simp
  then show "wf_map m \<Longrightarrow> wf_map m'" "length m' = length m" by blast+
qed

lemma failed_origin [simp]: "ph_origin_peer (failed_entry now p) = ph_origin_peer p" "ph_in_flight (failed_entry now p) = False"
  by (simp_all add: failed_entry_def)

lemma failed_entry_ok: "entry_ok cfg p \<Longrightarrow> entry_ok cfg (failed_entry now p)"
  by (auto simp: entry_ok_def failed_entry_def)

lemma disconnect_keeps:
  assumes h: "hyd_ok cfg h" "covered h"
  shows "hyd_ok cfg (hydration_on_peer_disconnected peer now h) \<and> covered (hydration_on_peer_disconnected peer now h)"
proof -
  let ?m = "hy_pending_by_hash h"
  let ?xs = "map fst (filter (\<lambda>(x, p). ph_origin_peer p = peer) ?m)"
  have wf: "distinct (map fst ?m)" using h(1) by (simp add: hyd_ok_def wf_map_def)
  have d: "distinct ?xs" using wf by (simp add: distinct_map_filter)
  have xs: "y \<in> set ?xs \<longleftrightarrow> (\<exists>p. hget ?m y = Some p \<and> ph_origin_peer p = peer)" for y using wf by (force simp: case_prod_beta)
  obtain m' rq where f: "fold (fail_affected now) ?xs (?m, []) = (m', rq)" by (cases "fold (fail_affected now) ?xs (?m, [])")
  note m' = fail_all [OF d f]
  have g: "hget m' y = (case hget ?m y of None \<Rightarrow> None | Some p \<Rightarrow> Some (if ph_origin_peer p = peer then failed_entry now p else p))" for y
    using xs [of y] by (auto simp: m'(1) split: option.splits)
  have rq: "y \<in> set rq \<longleftrightarrow> (\<exists>p. hget ?m y = Some p \<and> ph_origin_peer p = peer \<and> ph_retries_left p - 1 \<noteq> 0)" for y
    using xs [of y] by (auto simp: m'(2))
  let ?h1 = "fold enqueue_once rq (h\<lparr>hy_pending_by_hash := m'\<rparr>)"
  let ?fl = "filter (\<lambda>(_, x). case hget m' x of Some p \<Rightarrow> ph_origin_peer p \<noteq> peer | None \<Rightarrow> False) (hy_inflight_by_request h)"
  have e: "hydration_on_peer_disconnected peer now h = ?h1\<lparr>hy_inflight_by_request := ?fl\<rparr>"
    by (simp add: hydration_on_peer_disconnected_def f Let_def enqueue_all)
  have wfi: "distinct (map fst (hy_inflight_by_request h))" using h(1) by (simp add: hyd_ok_def wf_map_def)
  have fl: "hget ?fl rid = Some y \<longleftrightarrow> hget (hy_inflight_by_request h) rid = Some y \<and> (\<exists>p. hget m' y = Some p \<and> ph_origin_peer p \<noteq> peer)" for rid y
    using wfi by (auto simp: distinct_map_filter split: option.splits)
  have "hyd_ok cfg (?h1\<lparr>hy_inflight_by_request := ?fl\<rparr>)"
    using h(1) wfi m'(3)
    by (auto simp: hyd_ok_def enqueue_all m'(4) g failed_entry_ok wf_map_def distinct_map_filter split: option.splits)
  moreover have "covered (?h1\<lparr>hy_inflight_by_request := ?fl\<rparr>)"
    unfolding covered_def
  proof (intro allI impI conjI)
    fix x p
    assume x: "hget (hy_pending_by_hash (?h1\<lparr>hy_inflight_by_request := ?fl\<rparr>)) x = Some p"
    then obtain p0 where p0: "hget ?m x = Some p0" "p = (if ph_origin_peer p0 = peer then failed_entry now p0 else p0)" "hget m' x = Some p"
      by (auto simp: enqueue_all g split: option.splits)
    show "\<exists>rid. hget (hy_inflight_by_request (?h1\<lparr>hy_inflight_by_request := ?fl\<rparr>)) rid = Some x" if "ph_in_flight p"
      using h(2) p0 that by (auto simp: covered_def fl split: if_splits)
    show "x \<in> set (hy_ready_queue (?h1\<lparr>hy_inflight_by_request := ?fl\<rparr>))" if "\<not> ph_in_flight p" "\<not> ph_exhausted p"
      using h(2) p0 that by (auto simp: covered_def enqueue_all rq failed_entry_def split: if_splits)
  qed
  ultimately show ?thesis by (simp add: e)
qed

section \<open>Steps\<close>

text \<open>The steps of the node, each with the hashes it asks for. The ids of requests are counted up. What the database
  answers to a received block is any function, so its state is left out. With \<open>served\<close> every peer is
  connected and ready when requests are sent.\<close>

definition counted_send :: "PeerId \<Rightarrow> hash \<Rightarrow> nat \<Rightarrow> OutboundRequestId \<times> nat" where
  "counted_send peer x n = (n, Suc n)"

inductive hyd_step :: "bool \<Rightarrow> Hydration \<times> nat \<Rightarrow> hash list \<Rightarrow> Hydration \<times> nat \<Rightarrow> bool" for served where
  need: "hyd_step served (h, n) [] (note_need_more_data peer x sh reason ctx now h, n)"
| child: "hyd_step served (h, n) [] (note_child_waiting_on_parent x y h, n)"
| drive: "drive_branch_hydration_requests clock is_connected is_pq_ready counted_send (h, n) = (sent, h', n') \<Longrightarrow>
    served \<longrightarrow> (\<forall>peer. is_connected peer \<and> is_pq_ready peer) \<Longrightarrow> hyd_step served (h, n) sent (h', n')"
| failed: "hyd_step served (h, n) [] (snd (on_request_failed rid now h), n)"
| not_found: "hyd_step served (h, n) [] (snd (on_not_found rid now h), n)"
| received: "on_block_received rid block persist has_meta now h () = (res, h', ()) \<Longrightarrow> hyd_step served (h, n) [] (h', n)"
| disconnected: "hyd_step served (h, n) [] (hydration_on_peer_disconnected peer now h, n)"

inductive hyd_run :: "bool \<Rightarrow> Hydration \<times> nat \<Rightarrow> hash list \<Rightarrow> Hydration \<times> nat \<Rightarrow> bool" for served s where
  refl: "hyd_run served s [] s"
| step: "hyd_run served s xs s' \<Longrightarrow> hyd_step served s' ys s'' \<Longrightarrow> hyd_run served s (xs @ ys) s''"

definition ids_below :: "nat \<Rightarrow> Hydration \<Rightarrow> bool" where
  "ids_below n h \<longleftrightarrow> (\<forall>rid\<ge>n. hget (hy_inflight_by_request h) rid = None)"

lemma ids_next: "next_request now h = (r, h') \<Longrightarrow> distinct (hy_ready_queue h) \<Longrightarrow> ids_below n h' = ids_below n h"
  by (elim next_request_spec) (auto simp: ids_below_def)

lemma drive_keeps:
  assumes "drive_loop k clock is_connected is_pq_ready counted_send (h, n) = (sent, h', n')" and "hyd_ok cfg h" "covered h" "ids_below n h"
    and "\<forall>peer. is_connected peer \<and> is_pq_ready peer"
  shows "hyd_ok cfg h' \<and> covered h' \<and> ids_below n' h'"
  using assms
proof (induction k arbitrary: h n sent)
  case (Suc k)
  have d: "distinct (hy_ready_queue h)" using Suc.prems(2) by (simp add: hyd_ok_def)
  obtain r h1 where r: "next_request (fst (clock k)) h = (r, h1)" by (cases "next_request (fst (clock k)) h")
  note h1 = next_ok [OF Suc.prems(2) r] ids_next [OF r d]
  show ?case
  proof (cases r)
    case None
    then show ?thesis using Suc.prems r h1 next_covered [OF Suc.prems(2,3)] by auto
  next
    case (Some e)
    obtain peer x where e: "e = (peer, x)" by (cases e)
    let ?h2 = "mark_issued n x (snd (clock k)) h1"
    have id: "hget (hy_inflight_by_request h) n = None" using Suc.prems(4) by (simp add: ids_below_def)
    have "covered ?h2" using issue_covered [OF Suc.prems(2,3) _ id] r Some e by simp
    moreover have "hyd_ok cfg ?h2" by (rule mark_ok [OF h1(1)])
    moreover have "ids_below (Suc n) ?h2"
      using Suc.prems(4) h1(2) by (auto simp: ids_below_def mark_issued_def split: option.splits)
    ultimately show ?thesis
      using Suc.IH [of ?h2 "Suc n"] Suc.prems(1,5) r Some e by (auto simp: counted_send_def split: prod.splits)
  qed
qed simp

lemma ids_fields:
  "ids_below n h \<Longrightarrow> ids_below n (note_need_more_data peer x sh reason ctx now h)"
  "ids_below n h \<Longrightarrow> ids_below n (note_child_waiting_on_parent x y h)"
  "ids_below n h \<Longrightarrow> ids_below n (snd (on_hash_request_failed x now h))"
  "ids_below n h \<Longrightarrow> ids_below n (h\<lparr>hy_inflight_by_request := hremove rid (hy_inflight_by_request h)\<rparr>)"
  by (auto simp: ids_below_def note_need_more_data_def note_child_waiting_on_parent_def on_hash_request_failed_def Let_def split: option.splits)

lemma ids_answers:
  "ids_below n h \<Longrightarrow> ids_below n (snd (on_request_failed rid now h))" "ids_below n h \<Longrightarrow> ids_below n (snd (on_not_found rid now h))"
  using ids_fields(3) [OF ids_fields(4)] by (auto simp: on_request_failed_def on_not_found_def split: option.splits)

lemma ids_received:
  assumes "on_block_received rid block persist has_meta now h d = (res, h', d')" "ids_below n h"
  shows "ids_below n h'"
proof -
  have "ids_below n (h\<lparr>hy_inflight_by_request := hremove rid (hy_inflight_by_request h), hy_pending_by_hash := m\<rparr>)" for m
    using assms(2) by (auto simp: ids_below_def)
  then show ?thesis
    using assms ids_fields(1,2)
    by (auto simp: on_block_received_def Let_def ids_fields(4) split: option.splits prod.splits sum.splits if_splits)
      (auto simp: ids_below_def enqueue_all)
qed

lemma ids_disconnected: "ids_below n h \<Longrightarrow> ids_below n (hydration_on_peer_disconnected peer now h)"
  by (auto simp: hydration_on_peer_disconnected_def Let_def ids_below_def enqueue_all map_of_eq_None_iff split: prod.splits)

lemma step_keeps:
  assumes "hyd_step True s sent s'" "hyd_ok cfg (fst s)" "covered (fst s)" "ids_below (snd s) (fst s)" "0 < hc_max_retries_per_hash cfg"
  shows "hyd_ok cfg (fst s') \<and> covered (fst s') \<and> ids_below (snd s') (fst s')"
  using assms
proof cases
  case (drive clock c r h n h' n')
  then show ?thesis using drive_keeps [of _ clock c r h n sent h' n'] assms by (auto simp: drive_branch_hydration_requests_def)
qed (auto simp: need_ok need_covered child_ok child_covered answer_ok answer_covered ids_fields ids_answers ids_disconnected disconnect_keeps
    dest: received_keeps ids_received)

lemma run_keeps:
  assumes "hyd_run True s xs s'" "hyd_ok cfg (fst s)" "covered (fst s)" "ids_below (snd s) (fst s)" "0 < hc_max_retries_per_hash cfg"
  shows "hyd_ok cfg (fst s') \<and> covered (fst s') \<and> ids_below (snd s') (fst s')"
  using assms(1)
proof induction
  case (step xs s' ys s'')
  then show ?case using step_keeps [of s' ys s'' cfg] assms(5) by auto
qed (use assms in auto)

section \<open>A table of given-up hashes\<close>

definition wedged :: "Hydration \<Rightarrow> bool" where
  "wedged h \<longleftrightarrow> hy_inflight_by_request h = [] \<and> hc_max_tracked_hashes (hy_cfg h) \<le> length (hy_pending_by_hash h) \<and>
     (\<forall>x p. hget (hy_pending_by_hash h) x = Some p \<longrightarrow> ph_exhausted p)"

lemma wedged_next: "wedged h \<Longrightarrow> \<exists>q. next_request_loop k now h = (None, h\<lparr>hy_ready_queue := q\<rparr>)"
proof (induction k arbitrary: h)
  case 0
  then show ?case by (auto intro: exI [of _ "hy_ready_queue h"])
next
  case (Suc k)
  show ?case
  proof (cases "hy_ready_queue h")
    case Nil
    then show ?thesis by (auto intro: exI [of _ "[]"])
  next
    case (Cons x q)
    have "wedged (h\<lparr>hy_ready_queue := q\<rparr>)" using Suc.prems by (simp add: wedged_def)
    from Suc.IH [OF this] obtain q' where "next_request_loop k now (h\<lparr>hy_ready_queue := q\<rparr>) = (None, h\<lparr>hy_ready_queue := q'\<rparr>)" by auto
    moreover have "ph_exhausted p" if "hget (hy_pending_by_hash h) x = Some p" for p using Suc.prems that by (auto simp: wedged_def)
    ultimately show ?thesis by (auto simp: Cons can_attempt_now_def Let_def split: option.splits)
  qed
qed

lemma wedged_disconnected:
  assumes "wedged h" "wf_map (hy_pending_by_hash h)"
  shows "wedged (hydration_on_peer_disconnected peer now h) \<and> wf_map (hy_pending_by_hash (hydration_on_peer_disconnected peer now h))"
proof -
  let ?xs = "map fst (filter (\<lambda>(x, p). ph_origin_peer p = peer) (hy_pending_by_hash h))"
  obtain m rq where f: "fold (fail_affected now) ?xs (hy_pending_by_hash h, []) = (m, rq)"
    by (cases "fold (fail_affected now) ?xs (hy_pending_by_hash h, [])")
  have "distinct ?xs" using assms(2) by (simp add: wf_map_def distinct_map_filter)
  note m = fail_all [OF this f]
  show ?thesis
    using assms m(1,3,4)
    by (auto simp: hydration_on_peer_disconnected_def f Let_def wedged_def enqueue_all failed_entry_def split: if_splits)
qed

lemma wedged_step:
  assumes "hyd_step served s sent s'" "wedged (fst s)" "wf_map (hy_pending_by_hash (fst s))"
  shows "sent = [] \<and> wedged (fst s') \<and> wf_map (hy_pending_by_hash (fst s'))"
  using assms
proof cases
  case (drive clock c r h n h' n')
  obtain q where "next_request (fst (clock 7)) h = (None, h\<lparr>hy_ready_queue := q\<rparr>)"
    using wedged_next [of h "length (hy_ready_queue h)" "fst (clock 7)"] assms(2) drive(1) by (auto simp: next_request_def)
  then have "sent = []" "h' = h\<lparr>hy_ready_queue := q\<rparr>"
    using drive(3) by (auto simp: drive_branch_hydration_requests_def MAX_HYDRATION_REQUESTS_PER_TICK_def numeral_eq_Suc)
  then show ?thesis using assms(2,3) drive(1,2) by (auto simp: wedged_def)
next
  case (received rid block persist has_meta now h res h' n)
  then show ?thesis using assms(2,3) by (auto simp: on_block_received_def wedged_def)
qed (auto simp: note_need_more_data_def note_child_waiting_on_parent_def on_request_failed_def on_not_found_def wedged_def Let_def
    length_hinsert wedged_disconnected [unfolded wedged_def] split: option.splits)

section \<open>Properties\<close>

text \<open>C22. Branch hydration loses no missing block while its peers can be asked. From the start, over any steps in which every peer is
  connected and ready when requests are sent, the number of tracked hashes stays within its limit, and every tracked hash is waiting
  in the queue, or is asked for by a request whose answer is still awaited, or was given up after its last retry.\<close>

theorem hydration_loses_nothing:
  assumes "hyd_run True (hydration_new cfg, 0) sent (h, n)" and "0 < hc_max_retries_per_hash cfg"
  shows "tracked_len h \<le> hc_max_tracked_hashes cfg \<and> (\<forall>x p. hget (hy_pending_by_hash h) x = Some p \<longrightarrow>
    x \<in> set (hy_ready_queue h) \<or> (ph_in_flight p \<and> (\<exists>rid. hget (hy_inflight_by_request h) rid = Some x)) \<or>
    (ph_exhausted p \<and> ph_retries_left p = 0))"
proof -
  have "hyd_ok cfg (hydration_new cfg)" "covered (hydration_new cfg)" "ids_below 0 (hydration_new cfg)"
    by (simp_all add: hydration_new_def hyd_ok_def covered_def ids_below_def)
  then have "hyd_ok cfg h" "covered h" using run_keeps [OF assms(1) _ _ _ assms(2)] by auto
  then show ?thesis unfolding hyd_ok_def covered_def entry_ok_def tracked_len_def by blast
qed

text \<open>Two missing blocks are noted and asked for, and the first request fails.\<close>

definition two_needs :: Hydration where
  "two_needs = note_need_more_data [7] (replicate 64 2) (Some 4) MissingParent ''sync'' 0
     (note_need_more_data [7] (replicate 64 1) (Some 4) MissingParent ''sync'' 0 default_mainnet)"

definition two_asked :: "hash list \<times> Hydration \<times> nat" where
  "two_asked = drive_branch_hydration_requests (\<lambda>_. (2, 2)) (\<lambda>_. True) (\<lambda>_. True) counted_send (two_needs, 0)"

definition one_failed :: Hydration where
  "one_failed = snd (on_request_failed 0 3 (fst (snd two_asked)))"

lemma two_needs_eq:
  "two_needs = \<lparr>hy_cfg = default_hydration_config,
     hy_pending_by_hash = map (\<lambda>b. (replicate 64 b, pending_hash_new (replicate 64 b) [7] (Some 4) MissingParent ''sync'' default_hydration_config 0)) [1, 2],
     hy_inflight_by_request = [], hy_ready_queue = [replicate 64 1, replicate 64 2]\<rparr>"
  by (simp add: two_needs_def note_need_more_data_def default_mainnet_def hydration_new_def enqueue_once_def default_hydration_config_def)

lemma drive_one:
  assumes "hy_ready_queue h = x # q" "hget (hy_pending_by_hash h) x = Some p" "can_attempt_now 2 (hy_cfg h) p"
  shows "drive_loop (Suc n) (\<lambda>_. (2, 2)) (\<lambda>_. True) (\<lambda>_. True) counted_send (h, k) =
    (case drive_loop n (\<lambda>_. (2, 2)) (\<lambda>_. True) (\<lambda>_. True) counted_send (mark_issued k x 2 (h\<lparr>hy_ready_queue := q\<rparr>), Suc k) of
       (sent, h2, n2) \<Rightarrow> (x # sent, h2, n2))"
  using assms by (simp add: next_request_def counted_send_def)

lemma drive_none: "hy_ready_queue h = [] \<Longrightarrow> drive_loop (Suc n) clock conn ready send (h, k) = ([], h, k)"
  by (simp add: next_request_def)

lemmas drive_one_numeral = drive_one [where n = "pred_numeral k" for k, folded numeral_eq_Suc]
lemmas drive_none_numeral = drive_none [where n = "pred_numeral k" for k, folded numeral_eq_Suc]

lemma two_asked_eq:
  "two_asked = ([replicate 64 1, replicate 64 2], mark_issued 1 (replicate 64 2) 2 (mark_issued 0 (replicate 64 1) 2 (two_needs\<lparr>hy_ready_queue := []\<rparr>)), 2)"
  by (simp add: two_asked_def drive_branch_hydration_requests_def MAX_HYDRATION_REQUESTS_PER_TICK_def two_needs_eq drive_one_numeral
      drive_none_numeral can_attempt_now_def pending_hash_new_def mark_issued_def default_hydration_config_def)

lemma one_failed_pending:
  "\<exists>p. hget (hy_pending_by_hash one_failed) (replicate 64 1) = Some p \<and> \<not> ph_in_flight p \<and> \<not> ph_exhausted p"
  "\<exists>p. hget (hy_pending_by_hash one_failed) (replicate 64 2) = Some p \<and> \<not> ph_exhausted p" "replicate 64 2 \<notin> set (hy_ready_queue one_failed)"
  by (simp_all add: one_failed_def two_asked_eq two_needs_eq mark_issued_def on_request_failed_def on_hash_request_failed_def Let_def
      enqueue_once_def pending_hash_new_def default_hydration_config_def)

theorem hydration_loses_nothing_witness:
  "\<exists>n. hyd_run True (default_mainnet, 0) [replicate 64 1, replicate 64 2] (one_failed, n) \<and> tracked_len one_failed \<le> 4096 \<and>
     replicate 64 1 \<in> set (hy_ready_queue one_failed) \<and> replicate 64 2 \<notin> set (hy_ready_queue one_failed) \<and>
     (\<exists>rid. hget (hy_inflight_by_request one_failed) rid = Some (replicate 64 2))"
proof -
  have "hyd_run True (default_mainnet, 0) [] (two_needs, 0)"
    using hyd_run.step [OF hyd_run.step [OF hyd_run.refl hyd_step.need] hyd_step.need] by (simp add: two_needs_def)
  from hyd_run.step [OF hyd_run.step [OF this hyd_step.drive] hyd_step.failed, OF two_asked_eq [unfolded two_asked_def], of 0 3]
  have r: "hyd_run True (default_mainnet, 0) [replicate 64 1, replicate 64 2] (one_failed, 2)"
    by (simp add: one_failed_def two_asked_eq)
  have "0 < hc_max_retries_per_hash default_hydration_config" by (simp add: default_hydration_config_def)
  from hydration_loses_nothing [OF r [unfolded default_mainnet_def] this] r one_failed_pending show ?thesis
    by (auto simp: default_hydration_config_def)
qed

text \<open>A hash whose peer cannot be asked right now drops out of the schedule. When the next hash belongs to a peer that is not
  connected or not ready, the loop that sends requests takes it from the queue and sends nothing; the hash stays tracked, neither asked
  for nor given up, and no later round asks for it, whoever is connected by then.\<close>

theorem unready_peer_drops_hash:
  assumes "hy_ready_queue h = [x]" and "hget (hy_pending_by_hash h) x = Some p" and "can_attempt_now (fst (clock 7)) (hy_cfg h) p"
    and "\<not> (is_connected (ph_origin_peer p) \<and> is_pq_ready (ph_origin_peer p))"
  shows "\<exists>h'. drive_branch_hydration_requests clock is_connected is_pq_ready send (h, net) = ([], h', net) \<and>
    hget (hy_pending_by_hash h') x = Some p \<and> \<not> ph_in_flight p \<and> \<not> ph_exhausted p \<and>
    (\<forall>clock' conn' ready' net'. drive_branch_hydration_requests clock' conn' ready' send (h', net') = ([], h', net'))"
proof -
  let ?h = "h\<lparr>hy_ready_queue := []\<rparr>"
  have n: "next_request (fst (clock 7)) h = (Some (ph_origin_peer p, x), ?h)" using assms(1-3) by (simp add: next_request_def)
  have e: "next_request t ?h = (None, ?h)" for t by (simp add: next_request_def)
  have "drive_loop (Suc k) clock is_connected is_pq_ready send (?h, net) = ([], ?h, net)" for k by (simp add: e)
  then have "drive_branch_hydration_requests clock is_connected is_pq_ready send (h, net) = ([], ?h, net)"
    using assms(4) n by (auto simp: drive_branch_hydration_requests_def MAX_HYDRATION_REQUESTS_PER_TICK_def numeral_eq_Suc)
  moreover have "drive_branch_hydration_requests clock' conn' ready' send (?h, net') = ([], ?h, net')" for clock' conn' ready' net'
    by (simp add: drive_branch_hydration_requests_def MAX_HYDRATION_REQUESTS_PER_TICK_def numeral_eq_Suc e)
  ultimately show ?thesis using assms(2,3) by (auto simp: can_attempt_now_def intro!: exI [of _ ?h])
qed

theorem unready_peer_drops_hash_witness:
  "\<exists>h'. drive_branch_hydration_requests (\<lambda>_. (5, 5)) (\<lambda>_. False) (\<lambda>_. True) counted_send
      (note_need_more_data [7] (replicate 64 1) (Some 4) MissingParent ''sync'' 0 default_mainnet, 0) = ([], h', 0) \<and>
    is_tracking (replicate 64 1) h'"
proof -
  let ?h = "note_need_more_data [7] (replicate 64 1) (Some 4) MissingParent ''sync'' 0 default_mainnet"
  let ?p = "pending_hash_new (replicate 64 1) [7] (Some 4) MissingParent ''sync'' default_hydration_config 0"
  have "hy_ready_queue ?h = [replicate 64 1]" "hget (hy_pending_by_hash ?h) (replicate 64 1) = Some ?p"
    "can_attempt_now (fst ((5, 5) :: nat \<times> nat)) (hy_cfg ?h) ?p"
    by (simp_all add: note_need_more_data_def default_mainnet_def hydration_new_def default_hydration_config_def enqueue_once_def
        can_attempt_now_def pending_hash_new_def del: replicate.simps)
  from unready_peer_drops_hash [OF this, of "\<lambda>_. False" "\<lambda>_. True" counted_send 0]
  show ?thesis unfolding is_tracking_def by auto
qed

text \<open>C37. Hashes that were given up can stop hydration for good. Once the table of tracked hashes is full of given-up ones and nothing is
  in flight, no step of the node asks for any block again: such an entry leaves the table only with its block, and new hashes find no
  room.\<close>

theorem full_table_stops_hydration:
  assumes "hyd_run served (h, n) sent s" and "wf_map (hy_pending_by_hash h)" and "hy_inflight_by_request h = []"
    and "hc_max_tracked_hashes (hy_cfg h) \<le> length (hy_pending_by_hash h)"
    and "\<forall>x p. hget (hy_pending_by_hash h) x = Some p \<longrightarrow> ph_exhausted p"
  shows "sent = []"
proof -
  have "sent = [] \<and> wedged (fst s) \<and> wf_map (hy_pending_by_hash (fst s))"
    using assms(1)
  proof induction
    case refl
    then show ?case using assms(2-5) by (simp add: wedged_def)
  next
    case (step xs s' ys s'')
    then show ?case using wedged_step [of served s' ys s''] by simp
  qed
  then show ?thesis by blast
qed

text \<open>The default table, with its 4096 places taken by hashes that were given up.\<close>

definition given_up :: "hash \<Rightarrow> PendingHash" where
  "given_up x = (pending_hash_new x [7] None MissingParent ''sync'' default_hydration_config 0)\<lparr>ph_retries_left := 0, ph_exhausted := True\<rparr>"

definition full_table :: Hydration where
  "full_table = default_mainnet\<lparr>hy_pending_by_hash := map (\<lambda>i. (to_be_bytes 64 i, given_up (to_be_bytes 64 i))) [0..<4096]\<rparr>"

theorem full_table_stops_hydration_witness:
  "\<exists>h n. drive_branch_hydration_requests (\<lambda>_. (9, 9)) (\<lambda>_. True) (\<lambda>_. True) counted_send (full_table, 0) = ([], h, n)"
proof -
  obtain sent h n where d: "drive_branch_hydration_requests (\<lambda>_. (9, 9)) (\<lambda>_. True) (\<lambda>_. True) counted_send (full_table, 0) = (sent, h, n)"
    by (cases "drive_branch_hydration_requests (\<lambda>_. (9, 9)) (\<lambda>_. True) (\<lambda>_. True) counted_send (full_table, 0)")
  then have r: "hyd_run True (full_table, 0) ([] @ sent) (h, n)"
    by (intro hyd_run.step [OF hyd_run.refl] hyd_step.drive) auto
  have "inj_on (\<lambda>i. to_be_bytes 64 i) {0..<4096}"
    by (rule inj_on_inverseI [where g = from_be_bytes]) (simp add: from_to_be_bytes)
  then have w: "wf_map (hy_pending_by_hash full_table)"
    by (simp add: full_table_def default_mainnet_def hydration_new_def wf_map_def comp_def distinct_map)
  have "[] @ sent = []"
    by (rule full_table_stops_hydration [OF r w])
      (auto simp: full_table_def default_mainnet_def hydration_new_def default_hydration_config_def given_up_def dest!: map_of_SomeD)
  then show ?thesis using d by simp
qed

end
