(* ===== verification/ReorgManager.thy ===== *)
theory ReorgManager
  imports Reorg AccountTree ValidatorState
begin

text \<open>
  The reorganization manager (\<open>src/reorganization/reorg_006_manager.rs\<close>): fork choice on a new block, the execution of its plan,
  and the rebuilding of the account state and of the validator registry on the new branch.

  The manager, the account tree and the registry of the block builder hold handles of one database. The state of the model is the
  tree and the registry (absent when the caller passes no builder), and what one of them writes is seen by the other.
\<close>

section \<open>One database behind two handles\<close>

record 'db ReorgNode =
  rn_chain :: "'db AccountModelTree"
  rn_builder :: "'db ValidatorState option"

definition share :: "'db RockDBManager \<Rightarrow> 'db ReorgNode \<Rightarrow> 'db ReorgNode" where
  "share mg n =
     \<lparr>rn_chain = (rn_chain n)\<lparr>am_db := mg\<rparr>, rn_builder = map_option (\<lambda>vs. vs\<lparr>vs_db_manager := mg\<rparr>) (rn_builder n)\<rparr>"

abbreviation rn_db :: "'db ReorgNode \<Rightarrow> 'db RockDBManager" where
  "rn_db n \<equiv> am_db (rn_chain n)"

definition on_shared_db :: "('db RockDBManager, 'a) sm \<Rightarrow> ('db ReorgNode, 'a) sm" where
  "on_shared_db m n = (case m (rn_db n) of (r, mg) \<Rightarrow> (r, share mg n))"

definition on_chain :: "('db AccountModelTree, 'a) sm \<Rightarrow> ('db ReorgNode, 'a) sm" where
  "on_chain m n = (case m (rn_chain n) of (r, t) \<Rightarrow> (r, share (am_db t) (n\<lparr>rn_chain := t\<rparr>)))"

definition on_builder :: "('db ValidatorState, unit) sm \<Rightarrow> ('db ReorgNode, unit) sm" where
  "on_builder m n =
     (case rn_builder n of
        None \<Rightarrow> (Inr (), n)
      | Some vs \<Rightarrow>
          (case m (vs\<lparr>vs_db_manager := rn_db n\<rparr>) of (r, vs') \<Rightarrow>
             (r, share (vs_db_manager vs') (n\<lparr>rn_builder := Some vs'\<rparr>))))"

section \<open>The manager\<close>

definition load_canonical_hash_at_height :: "'db Engine \<Rightarrow> BlockExt \<Rightarrow> nat \<Rightarrow> 'db RockDBManager \<Rightarrow> hash option result" where
  "load_canonical_hash_at_height G X height mg =
     bindR (get_canonical_hash_at_height G height mg) (\<lambda>h.
     (case h of
        Some x \<Rightarrow> Inr (Some x)
      | None \<Rightarrow> bindR (get_block_by_index G X height mg) (\<lambda>legacy_block. Inr (map_option bl_block_hash legacy_block))))"

definition rebuild_validator_state ::
    "'db Engine \<Rightarrow> BlockExt \<Rightarrow> RegistryCodec \<Rightarrow> nat \<Rightarrow> ('db ValidatorState, unit) sm" where
  "rebuild_validator_state G X R tip =
     bindS (readS (\<lambda>vs. load_canonical_hash_at_height G X tip (vs_db_manager vs))) (\<lambda>canonical_tip_hash.
     rebuild_from_chain G X R (Some tip))"

definition apply_reorg_plan ::
    "'db Engine \<Rightarrow> TreeExt \<Rightarrow> RegistryCodec \<Rightarrow> ReorgPlan \<Rightarrow> ('db ReorgNode, unit) sm" where
  "apply_reorg_plan G T R plan =
     bindS (on_shared_db (apply_reorg G (te_block T) plan (\<lambda>_ _. returnS ()) (\<lambda>_ _. returnS ()))) (\<lambda>_.
     let attach_steps = map (\<lambda>s. (rs_height s, rs_hash s)) (rp_attach plan) in
     bindS (on_shared_db (remap_canonical_batches_best_effort G attach_steps)) (\<lambda>_.
     bindS (on_chain (reload_from_db_to_height G T (rp_new_tip_height plan))) (\<lambda>_.
     bindS (on_chain (ignoreS (tree_commit G T))) (\<lambda>_.
     bindS (on_chain (ignoreS (flush_balances G T))) (\<lambda>_.
     on_builder (rebuild_validator_state G (te_block T) R (rp_new_tip_height plan)))))))"

definition handle_new_block ::
    "'db Engine \<Rightarrow> TreeExt \<Rightarrow> RegistryCodec \<Rightarrow> ReForkConfig \<Rightarrow> Block \<Rightarrow> ('db ReorgNode, ForkAction) sm" where
  "handle_new_block G T R cfg new_block =
     bindS (readS (\<lambda>n. on_new_block G (te_block T) cfg new_block (rn_db n))) (\<lambda>action.
     (case action of
        Stay \<Rightarrow> returnS Stay
      | Reorg plan \<Rightarrow> bindS (apply_reorg_plan G T R plan) (\<lambda>_. returnS (Reorg plan))
      | NeedMoreData missing_hash context \<Rightarrow> returnS action))"

end
