(* ===== verification/ReorgManagerProps.thy ===== *)
theory ReorgManagerProps
  imports ReorgManager ReorgBatches AccountReplay ValidatorStateProps
begin

text \<open>
  What a reorganization leaves behind: the canonical view, the account state and the registry of the new branch, and what an error
  on the way leaves of the old one.
\<close>

section \<open>What the steps change\<close>

lemma share_fields [simp]: "rn_db (share mg n) = mg" "am_inner (rn_chain (share mg n)) = am_inner (rn_chain n)"
  "am_pending_blocks (rn_chain (share mg n)) = am_pending_blocks (rn_chain n)"
  "rn_builder (share mg n) = map_option (\<lambda>vs. vs\<lparr>vs_db_manager := mg\<rparr>) (rn_builder n)"
  by (simp_all add: share_def)

lemma on_node_frames [frames]:
  "preserves f m \<Longrightarrow> preserves (\<lambda>n. f (rn_db n)) (on_shared_db m)"
  "preserves (\<lambda>n. am_inner (rn_chain n)) (on_shared_db m)" "preserves (\<lambda>n. am_pending_blocks (rn_chain n)) (on_shared_db m)"
  "preserves (\<lambda>t. f (am_db t)) mt \<Longrightarrow> preserves (\<lambda>n. f (rn_db n)) (on_chain mt)"
  "preserves am_inner mt \<Longrightarrow> preserves (\<lambda>n. am_inner (rn_chain n)) (on_chain mt)"
  "preserves am_pending_blocks mt \<Longrightarrow> preserves (\<lambda>n. am_pending_blocks (rn_chain n)) (on_chain mt)"
  "preserves (\<lambda>vs. f (vs_db_manager vs)) mv \<Longrightarrow> preserves (\<lambda>n. f (rn_db n)) (on_builder mv)"
  "preserves (\<lambda>n. am_inner (rn_chain n)) (on_builder mv)" "preserves (\<lambda>n. am_pending_blocks (rn_chain n)) (on_builder mv)"
  by (auto simp: preserves_def on_shared_db_def on_chain_def on_builder_def split: prod.splits option.splits)

lemma replay_chain_frames [frames]:
  assumes "\<And>k v. preserves f (store_metadata G k v)"
  shows "preserves f (replay_chain G T height)"
proof -
  have "preserves f (replay_block G T st idx)" for st idx
    unfolding replay_block_def Let_def by (intro frames assms allI impI | simp split: prod.split)+
  then show ?thesis unfolding replay_chain_def by (intro frames)
qed

lemma tree_writer_frames [frames]:
  assumes "engine_ok G view" and "cf \<noteq> META_DATA_COLUMN_NAME" "cf \<noteq> STATE_COLUMN_NAME" "cf \<noteq> ACCOUNT_COLUMN_NAME"
  shows "preserves (\<lambda>t. mview view (am_db t) cf) (tree_commit G T)" "preserves (\<lambda>t. mview view (am_db t) cf) (flush_balances G T)"
proof -
  have w: "keeps view cf (mg_write G STATE_COLUMN_NAME k v)" "keeps view cf (mg_write G ACCOUNT_COLUMN_NAME k v)" for k v
    using assms by (simp_all add: mg_write_frames)
  have "keeps view cf (commit_inner_state G T st)" for st
    unfolding commit_inner_state_def by (intro frames w)
  then have "preserves (\<lambda>t. mview view (am_db t) cf) (on_tree_db (commit_inner_state G T st))" for st
    by (rule on_tree_db_frames(1))
  then show "preserves (\<lambda>t. mview view (am_db t) cf) (tree_commit G T)"
    unfolding preserves_def tree_commit_def by blast
  have "preserves (\<lambda>t. mview view (am_db t) cf) (forS (\<lambda>(addr, bal). bindS (readS (\<lambda>_. map_err SerializationError (te_u64 T bal)))
      (\<lambda>bytes. on_tree_db (mg_write G ACCOUNT_COLUMN_NAME (str_bytes addr) bytes))) xs)" for xs
    by (rule preserves_forS) (auto intro!: preserves_bindS preserves_basic on_tree_db_frames(1) [OF w(2)] split: prod.split)
  then show "preserves (\<lambda>t. mview view (am_db t) cf) (flush_balances G T)"
    unfolding preserves_def flush_balances_def by blast
qed

lemma tree_writer_memory [frames]:
  "preserves (\<lambda>t. mg_mode (am_db t)) (tree_commit G T)" "preserves (\<lambda>t. mg_mode (am_db t)) (flush_balances G T)"
  "preserves am_inner (tree_commit G T)" "preserves am_inner (flush_balances G T)"
  "preserves am_pending_blocks (tree_commit G T)" "preserves am_pending_blocks (flush_balances G T)"
proof -
  have "preserves mg_mode (commit_inner_state G T st)" for st
    unfolding commit_inner_state_def by (intro frames)
  then have "preserves (\<lambda>t. mg_mode (am_db t)) (on_tree_db (commit_inner_state G T st))" for st
    by (rule on_tree_db_frames(1))
  then show "preserves (\<lambda>t. mg_mode (am_db t)) (tree_commit G T)" "preserves am_inner (tree_commit G T)"
    "preserves am_pending_blocks (tree_commit G T)"
    using on_tree_db_frames(2,3) [of "commit_inner_state G T st" for st] unfolding preserves_def tree_commit_def by blast+
  have "preserves f (forS (\<lambda>(addr, bal). bindS (readS (\<lambda>_. map_err SerializationError (te_u64 T bal)))
      (\<lambda>bytes. on_tree_db (mg_write G ACCOUNT_COLUMN_NAME (str_bytes addr) bytes))) xs)"
    if "\<And>k v. preserves f (on_tree_db (mg_write G ACCOUNT_COLUMN_NAME k v))" for f :: "'a AccountModelTree \<Rightarrow> 'o" and xs
    by (rule preserves_forS) (auto intro!: preserves_bindS preserves_basic that split: prod.split)
  from this [OF on_tree_db_frames(1) [OF mode_frames(2)]] this [OF on_tree_db_frames(2)] this [OF on_tree_db_frames(3)]
  show "preserves (\<lambda>t. mg_mode (am_db t)) (flush_balances G T)" "preserves am_inner (flush_balances G T)"
    "preserves am_pending_blocks (flush_balances G T)"
    unfolding preserves_def flush_balances_def by blast+
qed

lemma rebuild_frames:
  assumes "engine_ok G view" and "cf \<noteq> META_DATA_COLUMN_NAME" "cf \<noteq> STATE_COLUMN_NAME"
  shows "preserves (\<lambda>vs. contents view vs cf) (rebuild_validator_state G X R tip)"
proof -
  have "replace_with_rebuilt_map G R reg = bindS (readS (\<lambda>_. validate_map reg)) (\<lambda>_.
      bindS (on_inner (\<lambda>_. (Inr (), reg))) (\<lambda>_. commit_and_latch G R True))" for reg
    by (simp add: replace_with_rebuilt_map_def commit_and_latch_def)
  then have "preserves (\<lambda>vs. contents view vs cf) (replace_with_rebuilt_map G R reg)" for reg
    using vs_writers_frames(1) [OF assms] by (auto intro!: preserves_bindS preserves_basic on_inner_frames)
  then show ?thesis unfolding rebuild_validator_state_def rebuild_from_chain_def by (intro preserves_bindS preserves_basic)
qed

section \<open>The blocks stored by height\<close>

text \<open>Documented behaviour of the postcard codec: decoding inverts encoding.\<close>

definition block_codec_ok :: "BlockExt \<Rightarrow> bool" where
  "block_codec_ok X \<longleftrightarrow> (\<forall>b d. pc_block X b = Inr d \<longrightarrow> pc_block_from X d = Inr b)"

text \<open>The index by hash holds each block under its own hash, and up to the tip the block stored for a height is the one the
  canonical view names there.\<close>

definition index_ok :: "BlockExt \<Rightarrow> kv_view \<Rightarrow> bool" where
  "index_ok X w \<longleftrightarrow> (\<forall>h d b. w BLOCK_TO_HASH_COLUMN_NAME h = Some d \<longrightarrow> deserialize_from_storage X d = Inr b \<longrightarrow> bl_block_hash b = h)"

definition projection_ok :: "BlockExt \<Rightarrow> ('db \<Rightarrow> kv_view) \<Rightarrow> 'db RockDBManager \<Rightarrow> nat \<Rightarrow> bool" where
  "projection_ok X view mg tip \<longleftrightarrow>
     (\<forall>j\<le>tip. \<exists>b. chain_block X (mview view mg) j = Inr (Some b) \<and> canon view mg j = Some (bl_block_hash b))"

lemma decode_hash: "deserialize_from_storage X d = Inr b' \<Longrightarrow> pc_block_from X d = Inr b \<Longrightarrow> bl_block_hash b' = bl_block_hash b"
  by (auto simp: deserialize_from_storage_def normalize_and_validate_after_decode_def res_simps Let_def)

lemma stored_hash:
  assumes "block_codec_ok X" and "block_serialize_for_storage X b = Inr d" and "deserialize_from_storage X d = Inr b'"
  shows "bl_block_hash b' = bl_block_hash b"
  using assms decode_hash [OF assms(3)] by (auto simp: block_codec_ok_def block_serialize_for_storage_def res_simps split: if_splits)

lemma index_block_ok:
  assumes ok: "engine_ok G view" and X: "block_codec_ok X" and i: "index_ok X (mview view mg)"
    and b: "block_serialize_for_storage X b = Inr d" and w: "index_block_by_hash G X (bl_block_hash b) d mg = (r, mg')"
  shows "index_ok X (mview view mg')"
proof (cases "r = Inr ()")
  case True
  obtain b1 d1 where 1: "deserialize_from_storage X d = Inr b1" "block_serialize_for_storage X b1 = Inr d1"
    and p: "bc_write G BLOCK_TO_HASH_COLUMN_NAME [PutOp BLOCK_TO_HASH_COLUMN_NAME (bl_block_hash b) d1] mg = (Inr (), mg')"
    using w True by (auto simp: index_block_by_hash_def res_simps)
  have "bl_block_hash b2 = bl_block_hash b" if "deserialize_from_storage X d1 = Inr b2" for b2
    using stored_hash [OF X b 1(1)] stored_hash [OF X 1(2) that] by simp
  then show ?thesis using put_view [OF ok p] i by (auto simp: index_ok_def split: if_splits)
next
  case False
  then have "mview view mg' = mview view mg"
    using w bc_write_fail [OF ok] by (cases r) (auto simp: index_block_by_hash_def bindS_def readS_def split: sum.splits prod.splits)
  then show ?thesis using i by simp
qed

lemma indexed_block:
  assumes "engine_ok G view" and "index_ok X (mview view mg)" and "get_block_by_hash G X h mg = Some b"
  shows "bl_block_hash b = h"
  using assms bc_get_view [OF assms(1)]
  by (fastforce simp: get_block_by_hash_def index_ok_def split: sum.splits option.splits)

lemma store_latest_slot:
  assumes "engine_ok G view" and "store_latest_block G d i mg = (Inr u, mg')"
  shows "mview view mg' BLOCKMINT_DATA_COLUMN_NAME (block_key j) =
    (if j = i then Some d else mview view mg BLOCKMINT_DATA_COLUMN_NAME (block_key j))"
  using store_block_effect(1) [OF assms(1), of d i "\<lparr>vs_inner = [], vs_db_manager = mg\<rparr>" u "\<lparr>vs_inner = [], vs_db_manager = mg'\<rparr>"] assms(2)
  by (simp add: on_db_def)

text \<open>The block slots, apart from their decoding.\<close>

abbreviation slot :: "('db \<Rightarrow> kv_view) \<Rightarrow> 'db RockDBManager \<Rightarrow> nat \<Rightarrow> byte list option" where
  "slot view mg j \<equiv> mview view mg BLOCKMINT_DATA_COLUMN_NAME (block_key j)"

lemma index_ok_frame: "keeps view BLOCK_TO_HASH_COLUMN_NAME m \<Longrightarrow> m mg = (r, mg') \<Longrightarrow> index_ok X (mview view mg) \<Longrightarrow> index_ok X (mview view mg')"
  using keepsD [of view BLOCK_TO_HASH_COLUMN_NAME m mg r mg'] by (simp add: index_ok_def)

lemma attach_step_slot:
  assumes ok: "engine_ok G view" and X: "block_codec_ok X" and i: "index_ok X (mview view mg)"
    and st: "attach_step G X no_callback s mg = (Inr u, mg')"
  shows "index_ok X (mview view mg')"
    and "\<exists>d b. slot view mg' (rs_height s) = Some d \<and> deserialize_from_storage X d = Inr b \<and> bl_block_hash b = rs_hash s"
    and "j \<noteq> rs_height s \<Longrightarrow> slot view mg' j = slot view mg j"
proof -
  obtain block bytes m1 m2 m3 m4 where g: "get_block_by_hash G X (rs_hash s) mg = Some block"
    and b: "block_serialize_for_storage X block = Inr bytes"
    and 1: "index_block_by_hash G X (rs_hash s) bytes mg = (Inr (), m1)"
    and 2: "store_latest_block G bytes (rs_height s) m1 = (Inr (), m2)"
    and 3: "set_canonical_hash_at_height G (rs_height s) (rs_hash s) m2 = (Inr (), m3)"
    and 4: "mark_if_known G (rs_hash s) (set_block_meta_status G (rs_hash s) Canonical) m3 = (Inr (), m4)"
    and 5: "mg' = m4"
    using st unfolding attach_step_def no_callback_def by (auto simp: res_simps split: if_splits)
  have h: "bl_block_hash block = rs_hash s" by (rule indexed_block [OF ok i g])
  have "index_ok X (mview view m1)" using index_block_ok [OF ok X i b] 1 h by simp
  then have "index_ok X (mview view m2)" by (rule index_ok_frame [OF keeps_writers(8) [OF ok] 2, rotated 2]) simp_all
  then have "index_ok X (mview view m3)" by (rule index_ok_frame [OF keeps_writers(5) [OF ok] 3, rotated]) simp
  then show "index_ok X (mview view mg')" unfolding 5
    by (rule index_ok_frame [OF mark_if_known_frames [OF keeps_writers(3) [OF ok]] 4, rotated]) simp
  have k: "mview view mg' BLOCKMINT_DATA_COLUMN_NAME = mview view m2 BLOCKMINT_DATA_COLUMN_NAME"
    "mview view m1 BLOCKMINT_DATA_COLUMN_NAME = mview view mg BLOCKMINT_DATA_COLUMN_NAME"
    using keepsD [OF keeps_writers(5) [OF ok] 3, of BLOCKMINT_DATA_COLUMN_NAME] keepsD [OF keeps_writers(1) [OF ok] 1, of BLOCKMINT_DATA_COLUMN_NAME]
      keepsD [OF mark_if_known_frames [OF keeps_writers(3) [OF ok]] 4, of BLOCKMINT_DATA_COLUMN_NAME] by (simp_all add: 5)
  note sl = store_latest_slot [OF ok 2]
  obtain b1 where d: "deserialize_from_storage X bytes = Inr b1" using 1 by (auto simp: index_block_by_hash_def res_simps)
  then show "\<exists>d b. slot view mg' (rs_height s) = Some d \<and> deserialize_from_storage X d = Inr b \<and> bl_block_hash b = rs_hash s"
    using sl [of "rs_height s"] stored_hash [OF X b d] h k by auto
  show "j \<noteq> rs_height s \<Longrightarrow> slot view mg' j = slot view mg j" using sl k by simp
qed

lemma attach_steps_slot:
  assumes ok: "engine_ok G view" and X: "block_codec_ok X"
  shows "forS (attach_step G X no_callback) ss mg = (Inr u, mg') \<Longrightarrow> index_ok X (mview view mg) \<Longrightarrow> distinct (map rs_height ss) \<Longrightarrow>
    index_ok X (mview view mg') \<and>
    (\<forall>s\<in>set ss. \<exists>d b. slot view mg' (rs_height s) = Some d \<and> deserialize_from_storage X d = Inr b \<and> bl_block_hash b = rs_hash s) \<and>
    (\<forall>j. j \<notin> rs_height ` set ss \<longrightarrow> slot view mg' j = slot view mg j)"
proof (induction ss arbitrary: mg)
  case (Cons s ss)
  obtain m1 where 1: "attach_step G X no_callback s mg = (Inr (), m1)"
    and 2: "forS (attach_step G X no_callback) ss m1 = (Inr u, mg')"
    using Cons.prems(1) by (auto simp: res_simps)
  note a = attach_step_slot [OF ok X Cons.prems(2) 1]
  from Cons.IH [OF 2 a(1)] Cons.prems(3) a(2,3) show ?case by auto
qed (simp add: res_simps)

lemma detach_index_ok:
  assumes ok: "engine_ok G view" and X: "block_codec_ok X"
  shows "forS (detach_step G X no_callback) ss mg = (Inr u, mg') \<Longrightarrow> index_ok X (mview view mg) \<Longrightarrow> index_ok X (mview view mg')"
proof (induction ss arbitrary: mg)
  case (Cons s ss)
  obtain m0 where d: "detach_step G X no_callback s mg = (Inr (), m0)" and 3: "forS (detach_step G X no_callback) ss m0 = (Inr u, mg')"
    using Cons.prems(1) by (auto simp: res_simps)
  obtain ob m1 where 1: "(case ob of Some old_block \<Rightarrow> preserve_old_block G X old_block | None \<Rightarrow> returnS ()) mg = (Inr (), m1)"
    and 2: "mark_if_known G (rs_hash s) (ignoreS (set_block_meta_status G (rs_hash s) SideBranch)) m1 = (Inr (), m0)"
    using d by (auto simp: detach_step_def no_callback_def res_simps)
  have "index_ok X (mview view m1)"
  proof (cases "\<exists>b. ob = Some b \<and> \<not> has_block_by_hash G (bl_block_hash b) mg")
    case True
    then show ?thesis using 1 Cons.prems(2) index_block_ok [OF ok X Cons.prems(2)]
      by (auto simp: preserve_old_block_def bindS_def readS_def returnS_def ignoreS_def split: sum.splits) (metis prod.collapse)
  next
    case False
    then have "m1 = mg" using 1 by (auto simp: preserve_old_block_def bindS_def readS_def returnS_def split: option.splits)
    then show ?thesis using Cons.prems(2) by simp
  qed
  then have "index_ok X (mview view m0)"
    by (rule index_ok_frame [OF mark_if_known_frames [OF preserves_ignoreS [OF keeps_writers(3) [OF ok]]] 2, rotated]) simp
  from Cons.IH [OF 3 this] show ?case .
qed (simp add: res_simps)

lemma reorg_canon:
  assumes ok: "engine_ok G view" and nb: "on_new_block G X cfg b mg = Inr (Reorg plan)"
    and gr: "fork_graph_ok G X view plan mg" and ap: "apply_reorg G X plan no_callback no_callback mg = (Inr u, mg')"
  shows "distinct (map fst (map step_pair (rp_attach plan)))"
    and "j \<le> rp_new_tip_height plan \<Longrightarrow>
      canon view mg' j = (case map_of (map step_pair (rp_attach plan)) j of Some x \<Rightarrow> Some x | None \<Rightarrow> canon view mg j)"
    and "j \<le> rp_new_tip_height plan \<Longrightarrow> map_of (map step_pair (rp_attach plan)) j = None \<Longrightarrow> j \<le> rp_old_tip_height plan"
proof -
  note s = on_new_block_sound [OF ok nb gr]
  note bd = reorg_bounds [OF gr s(1,4)] and h = fork_graph_heights [OF gr s(1)]
  let ?ca = "rp_common_ancestor_height plan" and ?as = "map step_pair (rp_attach plan)"
  have f: "map fst ?as = map rs_height (rp_attach plan)" by (simp add: step_pair_def)
  show dis: "distinct (map fst ?as)" using h(4) distinct_upt unfolding attach_heights_def f by metis
  have "set (map fst ?as) = {?ca<..rp_new_tip_height plan}"
    using arg_cong [OF h(4), of set] unfolding f attach_heights_def by auto
  then have low: "map_of ?as j = None \<longleftrightarrow> j \<le> ?ca" if "j \<le> rp_new_tip_height plan" for j
    using that unfolding set_map by (auto simp: map_of_eq_None_iff)
  show "canon view mg' j = (case map_of ?as j of Some x \<Rightarrow> Some x | None \<Rightarrow> canon view mg j)" if j: "j \<le> rp_new_tip_height plan"
  proof -
    have "canon view mg' j = (case map_of (rev ?as) j of Some x \<Rightarrow> Some x
        | None \<Rightarrow> if ?ca < j \<and> j \<le> rp_old_tip_height plan then None else canon view mg j)"
      using apply_reorg_canon(1) [OF ok ap s(4) bd(1,3) _ bd(4)] j bd(2) le_less_trans by blast
    moreover have "map_of (rev ?as) = map_of ?as" by (rule map_of_inject_set [THEN iffD2]) (use dis in \<open>simp_all add: rev_map [symmetric]\<close>)
    ultimately show ?thesis using low [OF j] by (cases "map_of ?as j") simp_all
  qed
  show "j \<le> rp_old_tip_height plan" if "j \<le> rp_new_tip_height plan" "map_of ?as j = None"
    using low [OF that(1)] that(2) h(1) by simp
qed

lemma reorg_projection:
  assumes ok: "engine_ok G view" and X: "block_codec_ok X" and nb: "on_new_block G X cfg b mg = Inr (Reorg plan)"
    and gr: "fork_graph_ok G X view plan mg" and ap: "apply_reorg G X plan no_callback no_callback mg = (Inr u, mg')"
    and i: "index_ok X (mview view mg)" and pr: "projection_ok X view mg (rp_old_tip_height plan)"
  shows "projection_ok X view mg' (rp_new_tip_height plan)" "index_ok X (mview view mg')"
proof -
  note s = on_new_block_sound [OF ok nb gr]
  note bd = reorg_bounds [OF gr s(1,4)] and h = fork_graph_heights [OF gr s(1)]
  let ?ca = "rp_common_ancestor_height plan"
  obtain m1 m2 m3 where 1: "forS (detach_step G X no_callback) (rp_detach plan) mg = (Inr (), m1)"
    and 2: "delete_canonical_hash_range G (Suc ?ca) (rp_old_tip_height plan) m1 = (Inr (), m2)"
    and 3: "forS (attach_step G X no_callback) (rp_attach plan) m2 = (Inr (), m3)"
    and 4: "set_canonical_tip G (rp_new_tip_hash plan) (rp_new_tip_height plan) m3 = (Inr u, mg')"
    using ap s(4) bd(4) unfolding apply_reorg_def by (auto simp: res_simps saturating_add_def)
  have "index_ok X (mview view m1)" by (rule detach_index_ok [OF ok X 1 i])
  then have i2: "index_ok X (mview view m2)" by (rule index_ok_frame [OF keeps_writers(6) [OF ok] 2, rotated]) simp
  have dis: "distinct (map rs_height (rp_attach plan))" using h(4) distinct_upt unfolding attach_heights_def by metis
  have "keeps view BLOCKMINT_DATA_COLUMN_NAME (forS (detach_step G X no_callback) (rp_detach plan))"
    using ok by (intro frames) simp_all
  from keepsD [OF this 1] have k: "slot view m2 j = slot view mg j" "slot view mg' j = slot view m3 j" for j
    using keepsD [OF keeps_writers(6) [OF ok] 2, of BLOCKMINT_DATA_COLUMN_NAME]
      keepsD [OF keeps_writers(9) [OF ok] 4, of BLOCKMINT_DATA_COLUMN_NAME] by simp_all
  note a = attach_steps_slot [OF ok X 3 i2 dis]
  then have "index_ok X (mview view m3)" by blast
  then show "index_ok X (mview view mg')" by (rule index_ok_frame [OF keeps_writers(9) [OF ok] 4, rotated 2]) simp_all
  note c = reorg_canon [OF ok nb gr ap]
  have "\<exists>b. chain_block X (mview view mg') j = Inr (Some b) \<and> canon view mg' j = Some (bl_block_hash b)"
    if j: "j \<le> rp_new_tip_height plan" for j
  proof (cases "map_of (map step_pair (rp_attach plan)) j")
    case (Some x)
    then obtain t where t: "t \<in> set (rp_attach plan)" "rs_height t = j" "rs_hash t = x"
      by (auto dest!: map_of_SomeD simp: step_pair_def)
    then show ?thesis using c(2) [OF j] Some a k by (fastforce simp: chain_block_def)
  next
    case None
    then have "j \<notin> rs_height ` set (rp_attach plan)" by (auto simp: map_of_eq_None_iff step_pair_def image_iff)
    then have "slot view mg' j = slot view mg j" using a k by simp
    then show ?thesis using c(2) [OF j] c(3) [OF j None] None pr by (simp add: projection_ok_def chain_block_def)
  qed
  then show "projection_ok X view mg' (rp_new_tip_height plan)" unfolding projection_ok_def by blast
qed

section \<open>The whole reorganization\<close>

lemma callbacks: "(\<lambda>_ _. returnS ()) = no_callback"
  by (simp add: fun_eq_iff no_callback_def)

text \<open>The states a successful reorganization goes through.\<close>

lemma reorg_run:
  assumes "handle_new_block G T R cfg b n = (Inr (Reorg plan), n')"
  obtains mg1 mg2 t n3 n4 where "on_new_block G (te_block T) cfg b (rn_db n) = Inr (Reorg plan)"
    and "apply_reorg G (te_block T) plan no_callback no_callback (rn_db n) = (Inr (), mg1)"
    and "remap_canonical_batches_best_effort G (map step_pair (rp_attach plan)) mg1 = (Inr (), mg2)"
    and "reload_from_db_to_height G T (rp_new_tip_height plan) ((rn_chain n)\<lparr>am_db := mg2\<rparr>) = (Inr (), t)"
    and "rn_chain n3 = t" "rn_builder n3 = map_option (\<lambda>vs. vs\<lparr>vs_db_manager := am_db t\<rparr>) (rn_builder n)"
    and "bindS (on_chain (ignoreS (tree_commit G T))) (\<lambda>_. on_chain (ignoreS (flush_balances G T))) n3 = (Inr (), n4)"
    and "on_builder (rebuild_validator_state G (te_block T) R (rp_new_tip_height plan)) n4 = (Inr (), n')"
proof -
  have f: "on_new_block G (te_block T) cfg b (rn_db n) = Inr (Reorg plan)" and a: "apply_reorg_plan G T R plan n = (Inr (), n')"
  proof -
    obtain act where "on_new_block G (te_block T) cfg b (rn_db n) = Inr act"
      and "(case act of Stay \<Rightarrow> returnS Stay | Reorg p \<Rightarrow> bindS (apply_reorg_plan G T R p) (\<lambda>_. returnS (Reorg p))
        | NeedMoreData missing_hash context \<Rightarrow> returnS act) n = (Inr (Reorg plan), n')"
      using assms by (auto simp: handle_new_block_def res_simps)
    then show "on_new_block G (te_block T) cfg b (rn_db n) = Inr (Reorg plan)" "apply_reorg_plan G T R plan n = (Inr (), n')"
      by (cases act; auto simp: res_simps)+
  qed
  obtain mg1 mg2 t n4 n5 where 1: "apply_reorg G (te_block T) plan no_callback no_callback (rn_db n) = (Inr (), mg1)"
    and 2: "remap_canonical_batches_best_effort G (map step_pair (rp_attach plan)) mg1 = (Inr (), mg2)"
    and 3: "reload_from_db_to_height G T (rp_new_tip_height plan) (rn_chain (share mg2 (share mg1 n))) = (Inr (), t)"
    and 4: "on_chain (ignoreS (tree_commit G T)) (share (am_db t) ((share mg2 (share mg1 n))\<lparr>rn_chain := t\<rparr>)) = (Inr (), n4)"
    and 5: "on_chain (ignoreS (flush_balances G T)) n4 = (Inr (), n5)"
    and 6: "on_builder (rebuild_validator_state G (te_block T) R (rp_new_tip_height plan)) n5 = (Inr (), n')"
    using a unfolding apply_reorg_plan_def callbacks step_pair_def [symmetric, abs_def]
    by (auto simp: res_simps Let_def on_shared_db_def on_chain_def [of "reload_from_db_to_height G T (rp_new_tip_height plan)"] split: prod.splits)
  let ?n3 = "share (am_db t) ((share mg2 (share mg1 n))\<lparr>rn_chain := t\<rparr>)"
  show thesis
  proof (rule that [OF f 1 2])
    show "reload_from_db_to_height G T (rp_new_tip_height plan) ((rn_chain n)\<lparr>am_db := mg2\<rparr>) = (Inr (), t)"
      using 3 by (simp add: share_def)
    show "rn_chain ?n3 = t" "rn_builder ?n3 = map_option (\<lambda>vs. vs\<lparr>vs_db_manager := am_db t\<rparr>) (rn_builder n)"
      by (auto simp: share_def option.map_comp comp_def)
    show "bindS (on_chain (ignoreS (tree_commit G T))) (\<lambda>_. on_chain (ignoreS (flush_balances G T))) ?n3 = (Inr (), n5)"
      using 4 5 by (auto simp: res_simps)
  qed (rule 6)
qed

text \<open>The chain a node holds: its columns agree with each other up to the tip.\<close>

definition chain_ok :: "BlockExt \<Rightarrow> ('db \<Rightarrow> kv_view) \<Rightarrow> 'db RockDBManager \<Rightarrow> hash \<Rightarrow> nat \<Rightarrow> bool" where
  "chain_ok X view mg tip height \<longleftrightarrow>
     chain_mode mg \<and> index_ok X (mview view mg) \<and> projection_ok X view mg height \<and>
     follows_tip (meta_at view mg) (canon view mg) tip height"

lemma chain_ok_columns:
  assumes "chain_ok X view mg tip height" and "mg_mode mg' = mg_mode mg"
    and "\<And>cf. cf \<in> {BLOCK_TO_HASH_COLUMN_NAME, BLOCKMINT_DATA_COLUMN_NAME, CANONICAL_HEIGHT_TO_HASH_COLUMN_NAME,
      BLOCK_META_BY_HASH_COLUMN_NAME} \<Longrightarrow> mview view mg' cf = mview view mg cf"
  shows "chain_ok X view mg' tip height"
proof -
  have "meta_at view mg' = meta_at view mg" "canon view mg' = canon view mg" "index_ok X (mview view mg') = index_ok X (mview view mg)"
    "chain_block X (mview view mg') = chain_block X (mview view mg)"
    using assms(3) by (simp_all add: fun_eq_iff meta_at_def canon_def index_ok_def chain_block_def)
  then show ?thesis using assms(1,2) by (simp add: chain_ok_def chain_mode_def projection_ok_def)
qed

lemma reorg_modes:
  "preserves mg_mode (apply_reorg G X plan no_callback no_callback)" "preserves mg_mode (remap_canonical_batches_best_effort G steps)"
  "preserves mg_mode (replay_chain G T height)"
proof -
  have w: "preserves mg_mode (index_block_by_hash G X h d)" "preserves mg_mode (set_block_meta_status G h st)"
    "preserves mg_mode (store_latest_block G d i)" "preserves mg_mode (set_canonical_hash_at_height G i h)"
    "preserves mg_mode (delete_canonical_hash_range G i j)" "preserves mg_mode (store_batch_bytes G i d)" for h d st i j
    unfolding index_block_by_hash_def set_block_meta_status_def store_block_meta_by_hash_def store_latest_block_def
      set_canonical_hash_at_height_def delete_canonical_hash_range_def store_batch_bytes_def
    by (intro frames | simp)+
  have "preserves mg_mode (on_mode_db msg f)" for msg and f :: "('a, unit) sm"
    by (auto simp: preserves_def on_mode_db_def split: Mode.splits sum.splits prod.splits)
  then show "preserves mg_mode (apply_reorg G X plan no_callback no_callback)"
    unfolding apply_reorg_def set_canonical_tip_def set_tip_height_def set_latest_block_index_def by (intro frames w)
  show "preserves mg_mode (remap_canonical_batches_best_effort G steps)"
    unfolding remap_canonical_batches_best_effort_def by (rule preserves_forS) (auto intro!: frames w split: prod.split)
  show "preserves mg_mode (replay_chain G T height)" by (intro frames)
qed

abbreviation chain_columns :: "string set" where
  "chain_columns \<equiv> - {META_DATA_COLUMN_NAME, STATE_COLUMN_NAME, ACCOUNT_COLUMN_NAME, GLOBAL_COLUMN_NAME}"

lemma reload_effect:
  assumes ok: "engine_ok G view" and r: "reload_from_db_to_height G T height t0 = (Inr u, t)" and h: "height < 2 ^ 64 - 1"
  shows "live_chain T (mview view (am_db t0)) height = Inr (am_inner t)" "mg_mode (am_db t) = mg_mode (am_db t0)"
    and "cf \<in> chain_columns \<Longrightarrow> mview view (am_db t) cf = mview view (am_db t0) cf"
proof -
  obtain mg where f: "foldS (replay_block G T) inner_empty [0..<Suc height] (am_db t0) = (Inr (am_inner t), mg)"
    and rp: "replay_chain G T height (am_db t0) = (Inr (am_inner t), am_db t)"
    using r by (auto simp: reload_from_db_to_height_def replay_chain_def res_simps)
  show "live_chain T (mview view (am_db t0)) height = Inr (am_inner t)"
    using replay_fold_live [OF ok, of T inner_empty 0 "Suc height" "am_db t0" "am_inner t" mg] replay_inv_empty h f
    by (simp add: live_chain_def)
  show "mg_mode (am_db t) = mg_mode (am_db t0)" by (rule preservesD [OF reorg_modes(3) rp])
  show "mview view (am_db t) cf = mview view (am_db t0) cf" if "cf \<in> chain_columns"
    by (rule preservesD [OF replay_chain_frames [OF store_metadata_frames(1) [OF ok]] rp]) (use that in simp)
qed

lemma remap_columns:
  assumes ok: "engine_ok G view" and r: "remap_canonical_batches_best_effort G steps mg = (x, mg')"
    and cf: "cf \<noteq> TRANSACTION_BATCH_COLUMN_NAME"
  shows "mview view mg' cf = mview view mg cf"
proof -
  have "keeps view cf (remap_canonical_batches_best_effort G steps)"
    unfolding remap_canonical_batches_best_effort_def
    by (rule preserves_forS) (auto intro!: frames keeps_writers(7) [OF ok cf] split: prod.split)
  then show ?thesis using r by (rule keepsD)
qed

section \<open>The batches stored by height\<close>

text \<open>What the batch slot of a height holds after a reorganization: where a block was attached whose batch is stored under its hash,
  this batch; everywhere else what it held before.\<close>

definition remapped_slot :: "('db \<Rightarrow> kv_view) \<Rightarrow> 'db RockDBManager \<Rightarrow> ReorgPlan \<Rightarrow> nat \<Rightarrow> byte list option" where
  "remapped_slot view mg plan j =
     (case map_of (map step_pair (rp_attach plan)) j of
        Some x \<Rightarrow> (case batch_of view mg x of Some d \<Rightarrow> Some d | None \<Rightarrow> batch_slot view mg j)
      | None \<Rightarrow> batch_slot view mg j)"

text \<open>Up to the tip, the batch of a height is the one stored under the hash of its canonical block, if there is one.\<close>

definition batches_ok :: "('db \<Rightarrow> kv_view) \<Rightarrow> 'db RockDBManager \<Rightarrow> nat \<Rightarrow> bool" where
  "batches_ok view mg tip \<longleftrightarrow> (\<forall>j\<le>tip. \<forall>x d. canon view mg j = Some x \<longrightarrow> batch_of view mg x = Some d \<longrightarrow> batch_slot view mg j = Some d)"

lemma reorg_keeps_batches:
  assumes "engine_ok G view" and "apply_reorg G X plan no_callback no_callback mg = (r, mg')"
  shows "batch_slot view mg' = batch_slot view mg" "batch_of view mg' = batch_of view mg"
proof -
  have "keeps view cf (apply_reorg G X plan no_callback no_callback)"
    if "cf = TRANSACTION_BATCH_COLUMN_NAME \<or> cf = BATCH_BY_BLOCK_HASH_COLUMN_NAME" for cf
    unfolding apply_reorg_def using that assms(1) by (auto intro!: frames)
  from keepsD [OF this assms(2)] show "batch_slot view mg' = batch_slot view mg" "batch_of view mg' = batch_of view mg"
    by (simp_all add: fun_eq_iff batch_slot_def batch_of_def)
qed

lemma reorg_batches:
  assumes ok: "engine_ok G view" and nb: "on_new_block G X cfg b mg = Inr (Reorg plan)" and gr: "fork_graph_ok G X view plan mg"
    and 1: "apply_reorg G X plan no_callback no_callback mg = (Inr u, mg1)"
    and 2: "remap_canonical_batches_best_effort G (map step_pair (rp_attach plan)) mg1 = (Inr v, mg2)"
  shows "batch_of view mg2 = batch_of view mg" "batch_slot view mg2 j = remapped_slot view mg plan j"
    and "batches_ok view mg (rp_old_tip_height plan) \<Longrightarrow> batches_ok view mg2 (rp_new_tip_height plan)"
proof -
  note c = reorg_canon [OF ok nb gr 1] and k = reorg_keeps_batches [OF ok 1]
  note r = best_effort_remap [OF ok 2 c(1), unfolded k]
  show b: "batch_of view mg2 = batch_of view mg" using r by blast
  show s: "batch_slot view mg2 j = remapped_slot view mg plan j" for j using r unfolding remapped_slot_def by blast
  have "canon view mg2 = canon view mg1"
    using remap_columns [OF ok 2, of CANONICAL_HEIGHT_TO_HASH_COLUMN_NAME] by (simp add: canon_def fun_eq_iff)
  then show "batches_ok view mg2 (rp_new_tip_height plan)" if "batches_ok view mg (rp_old_tip_height plan)"
    using that c(2,3) unfolding batches_ok_def b s remapped_slot_def by (auto split: option.splits)
qed

lemma persist_effect:
  assumes ok: "engine_ok G view"
    and r: "bindS (on_chain (ignoreS (tree_commit G T))) (\<lambda>_. on_chain (ignoreS (flush_balances G T))) n = (Inr u, n')"
  shows "am_inner (rn_chain n') = am_inner (rn_chain n)" "mg_mode (rn_db n') = mg_mode (rn_db n)"
    and "cf \<in> chain_columns \<Longrightarrow> mview view (rn_db n') cf = mview view (rn_db n) cf"
    and "rn_builder n' = None \<longleftrightarrow> rn_builder n = None"
proof -
  have p: "preserves (\<lambda>n. f (rn_db n)) (bindS (on_chain (ignoreS (tree_commit G T))) (\<lambda>_. on_chain (ignoreS (flush_balances G T))))"
    if "preserves (\<lambda>t. f (am_db t)) (tree_commit G T)" "preserves (\<lambda>t. f (am_db t)) (flush_balances G T)"
    for f :: "'a RockDBManager \<Rightarrow> 'o"
    by (rule preserves_bindS; rule on_node_frames(4) [OF preserves_ignoreS]; rule that)
  have "preserves (\<lambda>n. am_inner (rn_chain n)) (bindS (on_chain (ignoreS (tree_commit G T))) (\<lambda>_. on_chain (ignoreS (flush_balances G T))))"
    by (rule preserves_bindS; rule on_node_frames(5) [OF preserves_ignoreS]; rule tree_writer_memory)
  from preservesD [OF this r] show "am_inner (rn_chain n') = am_inner (rn_chain n)" .
  from preservesD [OF p [OF tree_writer_memory(1,2)] r] show "mg_mode (rn_db n') = mg_mode (rn_db n)" .
  show "mview view (rn_db n') cf = mview view (rn_db n) cf" if "cf \<in> chain_columns"
    by (rule preservesD [OF p [OF tree_writer_frames(1,2) [OF ok]] r]) (use that in simp_all)
  show "rn_builder n' = None \<longleftrightarrow> rn_builder n = None"
    using r by (auto simp: res_simps on_chain_def split: prod.splits)
qed

lemma rebuild_effect:
  assumes ok: "engine_ok G view" and R: "codec_ok R" and m: "chain_mode (rn_db n)"
    and r: "on_builder (rebuild_validator_state G X R tip) n = (Inr u, n')"
  shows "am_inner (rn_chain n') = am_inner (rn_chain n)" "chain_mode (rn_db n')"
    and "cf \<in> chain_columns \<Longrightarrow> mview view (rn_db n') cf = mview view (rn_db n) cf"
    and "rn_builder n' = None \<longleftrightarrow> rn_builder n = None"
    and "rn_builder n' = Some vs \<Longrightarrow> vs_db_manager vs = rn_db n' \<and> in_sync X R view tip vs"
proof -
  show "am_inner (rn_chain n') = am_inner (rn_chain n)" by (rule preservesD [OF on_node_frames(8) r])
  have f: "preserves (\<lambda>n. mview view (rn_db n) cf) (on_builder (rebuild_validator_state G X R tip))" if "cf \<in> chain_columns" for cf
    by (rule on_node_frames(7) [OF rebuild_frames [OF ok]]) (use that in simp_all)
  show "mview view (rn_db n') cf = mview view (rn_db n) cf" if "cf \<in> chain_columns" by (rule preservesD [OF f [OF that] r])
  show "rn_builder n' = None \<longleftrightarrow> rn_builder n = None"
    using r by (auto simp: on_builder_def split: prod.splits option.splits)
  have b: "in_sync X R view tip vs1" if "rebuild_validator_state G X R tip (vs0\<lparr>vs_db_manager := rn_db n\<rparr>) = (Inr u, vs1)" for vs0 vs1
    using that rebuild_in_sync [OF ok R, of "vs0\<lparr>vs_db_manager := rn_db n\<rparr>" "Some tip" tip X u vs1] m
    by (auto simp: rebuild_validator_state_def res_simps)
  show "rn_builder n' = Some vs \<Longrightarrow> vs_db_manager vs = rn_db n' \<and> in_sync X R view tip vs" and "chain_mode (rn_db n')"
    using r b m by (auto simp: on_builder_def in_sync_def split: prod.splits option.splits)
qed

text \<open>There is no way back: when the replay of the new branch fails, the error is returned with the canonical view already on the new
  branch and the account state and the registry in memory still on the old one.\<close>

lemma failed_reload_half_applied:
  assumes "apply_reorg G (te_block T) plan no_callback no_callback (rn_db n) = (Inr (), mg1)"
    and "remap_canonical_batches_best_effort G (map step_pair (rp_attach plan)) mg1 = (Inr (), mg2)"
    and "reload_from_db_to_height G T (rp_new_tip_height plan) ((rn_chain n)\<lparr>am_db := mg2\<rparr>) = (Inl e, t)"
  shows "\<exists>n'. apply_reorg_plan G T R plan n = (Inl e, n') \<and> rn_db n' = am_db t \<and> am_inner (rn_chain n') = am_inner (rn_chain n) \<and>
    map_option vs_inner (rn_builder n') = map_option vs_inner (rn_builder n)"
proof -
  have "am_inner t = am_inner (rn_chain n)"
    using assms(3) on_tree_db_frames(2) [THEN preservesD, of "replay_chain G T (rp_new_tip_height plan)"]
    by (auto simp: reload_from_db_to_height_def bindS_def split: prod.splits sum.splits)
  then show ?thesis
    using assms unfolding apply_reorg_plan_def callbacks step_pair_def [symmetric, abs_def]
    by (simp add: bindS_def on_shared_db_def on_chain_def Let_def share_def option.map_comp comp_def)
qed

text \<open>C4. A reorganization rebuilds the node on the new branch. Let the node hold a consistent chain: the index by hash is right, the
  canonical view follows the tip, and up to the tip the block stored for a height is the one the view names. When
  \<open>ReorgManager::handle_new_block\<close> executes a plan and returns without error, the same holds for the new block as the tip. The batch
  slot of each height at which a block was attached holds the batch stored under the hash of this block, if there is one; if there is
  none it keeps the batch it held, which is that of the detached block, and so do all other slots. So when up to the tip every batch
  known by hash was in its slot before, the same holds for the new branch. The account state in memory is what applying the blocks
  and the batches in these slots from genesis to the new tip gives, and the registry of the builder, if one was passed, is the replay
  of this chain and is stored as the snapshot.\<close>

theorem reorg_rebuilds_node:
  assumes ok: "engine_ok G view" and X: "block_codec_ok (te_block T)" and R: "codec_ok R"
    and run: "handle_new_block G T R cfg b n = (Inr (Reorg plan), n')" and gr: "fork_graph_ok G (te_block T) view plan (rn_db n)"
    and c: "chain_ok (te_block T) view (rn_db n) (rp_old_tip_hash plan) (rp_old_tip_height plan)"
    and h: "m_index (bl_metadata b) < 2 ^ 64 - 1"
  shows "chain_ok (te_block T) view (rn_db n') (bl_block_hash b) (m_index (bl_metadata b)) \<and>
    (\<forall>j. batch_slot view (rn_db n') j =
       (case map_of (map step_pair (rp_attach plan)) j of
          Some x \<Rightarrow> (case batch_of view (rn_db n) x of Some d \<Rightarrow> Some d | None \<Rightarrow> batch_slot view (rn_db n) j)
        | None \<Rightarrow> batch_slot view (rn_db n) j)) \<and>
    (batches_ok view (rn_db n) (rp_old_tip_height plan) \<longrightarrow> batches_ok view (rn_db n') (m_index (bl_metadata b))) \<and>
    live_chain T (mview view (rn_db n')) (m_index (bl_metadata b)) = Inr (am_inner (rn_chain n')) \<and>
    (rn_builder n' = None \<longleftrightarrow> rn_builder n = None) \<and>
    (\<forall>vs. rn_builder n' = Some vs \<longrightarrow> vs_db_manager vs = rn_db n' \<and> in_sync (te_block T) R view (m_index (bl_metadata b)) vs)"
proof -
  let ?X = "te_block T" and ?h = "m_index (bl_metadata b)"
  obtain mg1 mg2 t n3 n4 where nb: "on_new_block G ?X cfg b (rn_db n) = Inr (Reorg plan)"
    and 1: "apply_reorg G ?X plan no_callback no_callback (rn_db n) = (Inr (), mg1)"
    and 2: "remap_canonical_batches_best_effort G (map step_pair (rp_attach plan)) mg1 = (Inr (), mg2)"
    and 3: "reload_from_db_to_height G T (rp_new_tip_height plan) ((rn_chain n)\<lparr>am_db := mg2\<rparr>) = (Inr (), t)"
    and n3: "rn_chain n3 = t" "rn_builder n3 = map_option (\<lambda>vs. vs\<lparr>vs_db_manager := am_db t\<rparr>) (rn_builder n)"
    and 4: "bindS (on_chain (ignoreS (tree_commit G T))) (\<lambda>_. on_chain (ignoreS (flush_balances G T))) n3 = (Inr (), n4)"
    and 5: "on_builder (rebuild_validator_state G ?X R (rp_new_tip_height plan)) n4 = (Inr (), n')"
    by (rule reorg_run [OF run]) blast
  have new: "rp_new_tip_height plan = ?h" using on_new_block_sound(2) [OF ok nb gr] by simp
  have c1: "chain_ok ?X view mg1 (bl_block_hash b) ?h"
    using c reorg_projection [OF ok X nb gr 1] reorg_follows [OF ok nb gr 1] preservesD [OF reorg_modes(1) 1] new
    by (simp add: chain_ok_def chain_mode_def)
  have c2: "chain_ok ?X view mg2 (bl_block_hash b) ?h"
    by (rule chain_ok_columns [OF c1 preservesD [OF reorg_modes(2) 2]]) (auto intro!: remap_columns [OF ok 2])
  note r3 = reload_effect [OF ok 3 h [folded new]] and r4 = persist_effect [OF ok 4]
  have k4: "mview view (rn_db n4) cf = mview view mg2 cf" if "cf \<in> chain_columns" for cf
    using r3(3) [OF that] r4(3) [OF that] n3(1) by simp
  have m4: "chain_mode (rn_db n4)" using c2 r3(2) r4(2) n3(1) by (simp add: chain_ok_def chain_mode_def)
  note r5 = rebuild_effect [OF ok R m4 5]
  have k: "mview view (rn_db n') cf = mview view mg2 cf" if "cf \<in> chain_columns" for cf
    using k4 [OF that] r5(3) [OF that] by simp
  have col: "BLOCK_TO_HASH_COLUMN_NAME \<in> chain_columns" "BLOCKMINT_DATA_COLUMN_NAME \<in> chain_columns"
    "CANONICAL_HEIGHT_TO_HASH_COLUMN_NAME \<in> chain_columns" "BLOCK_META_BY_HASH_COLUMN_NAME \<in> chain_columns"
    "TRANSACTION_BATCH_COLUMN_NAME \<in> chain_columns" "BATCH_BY_BLOCK_HASH_COLUMN_NAME \<in> chain_columns"
    by (simp_all add: column_defs)
  have "chain_ok ?X view (rn_db n4) (bl_block_hash b) ?h"
    by (rule chain_ok_columns [OF c2]) (use r3(2) r4(2) n3(1) k4 [OF col(1)] k4 [OF col(2)] k4 [OF col(3)] k4 [OF col(4)] in auto)
  then have "chain_ok ?X view (rn_db n') (bl_block_hash b) ?h"
    using r5(2) r5(3) [OF col(1)] r5(3) [OF col(2)] r5(3) [OF col(3)] r5(3) [OF col(4)]
    by (simp add: chain_ok_def index_ok_def projection_ok_def chain_block_def meta_at_def [abs_def] canon_def [abs_def])
  moreover have "live_height T (mview view (rn_db n')) = live_height T (mview view mg2)"
    by (rule live_height_view [OF k [OF col(2)] k [OF col(5)]])
  then have "live_chain T (mview view (rn_db n')) ?h = Inr (am_inner (rn_chain n'))"
    using r3(1) r4(1) r5(1) n3(1) new by (simp add: live_chain_def)
  moreover have "batch_slot view (rn_db n') = batch_slot view mg2" "batch_of view (rn_db n') = batch_of view mg2" "canon view (rn_db n') = canon view mg2"
    using k [OF col(5)] k [OF col(6)] k [OF col(3)] by (simp_all add: fun_eq_iff batch_slot_def batch_of_def canon_def)
  ultimately show ?thesis
    using r5(4,5) r4(4) n3(2) new reorg_batches(2,3) [OF ok nb gr 1 2] by (simp add: batches_ok_def remapped_slot_def)
qed

end
