(* ===== verification/ReorgManagerSamples.thy ===== *)
theory ReorgManagerSamples
  imports ReorgManagerProps AccountSamples
begin

text \<open>
  A concrete reorganization: a node on the genesis block and a block of height 1 changes over to a second block of height 1 with a better score.
  The batch of the old block leaves its slot for the batch of the new one, which mints an NFT, and the account state and the
  registry are rebuilt from there.
\<close>

section \<open>The fork\<close>

text \<open>The genesis block, with a founder, has hash 1; the old tip has hash 3 and the new one, \<open>mint_block\<close>, hash 2. The codecs
  know these blocks and the batch of the new one.\<close>

definition founder_block :: Block where
  "founder_block = (bare_block (replicate 64 1))\<lparr>bl_miner := sample_wallet 97\<rparr>"

definition side_block :: Block where
  "side_block = mint_block\<lparr>bl_block_hash := replicate 64 3\<rparr>"

definition swap_ext :: Ext where
  "swap_ext = run_ext\<lparr>pc_batch_take := \<lambda>d. if d = [2] then Inr (mint_batch, []) else Inl ''unsupported''\<rparr>"

definition swap_bext :: BlockExt where
  "swap_bext = sample_bext\<lparr>bx := swap_ext,
     pc_block := \<lambda>b. if b = founder_block then Inr (replicate 65 1) else if b = mint_block then Inr (replicate 65 2)
       else if b = side_block then Inr (replicate 65 3) else Inl ''unsupported'',
     pc_block_from := \<lambda>d. if d = replicate 65 1 then Inr founder_block else if d = replicate 65 2 then Inr mint_block
       else if d = replicate 65 3 then Inr side_block else Inl ''unsupported''\<rparr>"

definition swap_tree_ext :: TreeExt where
  "swap_tree_ext = run_tree_ext\<lparr>te_block := swap_bext\<rparr>"

definition swap_graph :: "(byte \<times> ForkBlockMeta) list" where
  "swap_graph =
     map (\<lambda>(h, p, i, score). (h, \<lparr>fm_parent_hash = replicate 64 p, fm_height = i, fm_cumulative_score = score,
           fm_status = Validated, fm_received_at_unix_secs = 0\<rparr>))
       [(1, 0, 0, 0), (3, 1, 1, 1), (2, 1, 1, 2)]"

definition swap_metas :: mem_db where
  "swap_metas = map (\<lambda>(h, m). ((BLOCK_META_BY_HASH_COLUMN_NAME, replicate 64 h), fork_meta_to_bytes m)) swap_graph"

definition swap_db :: mem_db where
  "swap_db =
     [((CANONICAL_CHAIN_VIEW_COLUMN_NAME, CANONICAL_TIP_VIEW_KEY),
         tip_view_to_bytes \<lparr>tv_tip_hash = replicate 64 3, tv_tip_height = 1\<rparr>),
      ((CANONICAL_HEIGHT_TO_HASH_COLUMN_NAME, canonical_height_key 0), replicate 64 1),
      ((CANONICAL_HEIGHT_TO_HASH_COLUMN_NAME, canonical_height_key 1), replicate 64 3),
      ((BLOCKMINT_DATA_COLUMN_NAME, block_key 0), replicate 65 1), ((BLOCKMINT_DATA_COLUMN_NAME, block_key 1), replicate 65 3),
      ((BLOCK_TO_HASH_COLUMN_NAME, replicate 64 1), replicate 65 1), ((BLOCK_TO_HASH_COLUMN_NAME, replicate 64 2), replicate 65 2),
      ((BLOCK_TO_HASH_COLUMN_NAME, replicate 64 3), replicate 65 3), ((TRANSACTION_BATCH_COLUMN_NAME, tx_batch_key 1), [3]),
      ((BATCH_BY_BLOCK_HASH_COLUMN_NAME, replicate 64 2), [2]), ((BATCH_BY_BLOCK_HASH_COLUMN_NAME, replicate 64 3), [3])] @ swap_metas"

abbreviation swap_mg :: "mem_db RockDBManager" where
  "swap_mg \<equiv> mem_manager swap_db"

definition swap_plan :: ReorgPlan where
  "swap_plan = \<lparr>rp_old_tip_height = 1, rp_old_tip_hash = replicate 64 3, rp_new_tip_height = 1,
     rp_new_tip_hash = replicate 64 2, rp_common_ancestor_height = 0, rp_common_ancestor_hash = replicate 64 1,
     rp_detach = [\<lparr>rs_height = 1, rs_hash = replicate 64 3\<rparr>], rp_attach = [\<lparr>rs_height = 1, rs_hash = replicate 64 2\<rparr>]\<rparr>"

lemma mem_mview: "mview mem_view (mem_manager db) cf k = map_of db (cf, k)"
  by (simp add: mview_def mem_manager_def mem_view_def)

lemma founder_wallet: "canonical_wallet (sample_wallet 97)"
  by (simp add: sample_wallet_canonical is_lower_hex_def)

lemma swap_blocks:
  "m_index (bl_metadata founder_block) = 0" "m_previous_hash (bl_metadata founder_block) = zero_hash" "bl_block_hash founder_block = replicate 64 1"
  "m_index (bl_metadata mint_block) = 1" "m_previous_hash (bl_metadata mint_block) = replicate 64 1" "bl_block_hash mint_block = replicate 64 2"
  "m_index (bl_metadata side_block) = 1" "bl_metadata side_block = bl_metadata mint_block" "bl_block_hash side_block = replicate 64 3"
  by (simp_all add: founder_block_def bare_block_def sample_meta_def mint_block_def side_block_def)

lemma swap_different: "founder_block \<noteq> mint_block" "founder_block \<noteq> side_block" "mint_block \<noteq> side_block"
  using swap_blocks by (metis zero_neq_one) (metis swap_blocks(1,7) zero_neq_one, simp add: side_block_def mint_block_def)

lemma swap_codec: "block_codec_ok swap_bext"
  using swap_different by (auto simp: block_codec_ok_def swap_bext_def split: if_splits)

lemma swap_decode:
  "deserialize_from_storage swap_bext (replicate 65 1) = Inr founder_block"
  "deserialize_from_storage swap_bext (replicate 65 2) = Inr mint_block"
  "deserialize_from_storage swap_bext (replicate 65 3) = Inr side_block"
proof -
  have n: "normalize_and_validate_after_decode swap_bext b = Inr b"
    if "meta_validate_structural (bl_metadata b) = Inr ()" "m_size (bl_metadata b) = 64" "m_merkle_root (bl_metadata b) = replicate 64 r"
      "bl_miner b = sample_wallet 97" "bl_batch_key b \<in> {None, Some (lit ''b'')}" "bl_block_hash b \<noteq> zero_hash" for b r
  proof -
    have "b\<lparr>bl_miner := sample_wallet 97\<rparr> = b" using that(4) by (cases b) simp
    then show ?thesis
      using that canon_wallet_canonical [OF founder_wallet] canonical_wallet_facts [OF founder_wallet] canonical_not_Nil [OF founder_wallet]
      by (auto simp: normalize_and_validate_after_decode_def canonicalize_miner_for_height_def validate_batch_key_bound_def
        validate_block_hash_not_zero_def validate_size_def swap_bext_def sample_bext_def MAX_MINER_LEN_def REMZAR_WALLET_LEN_def
        MAX_BATCH_KEY_LEN_def str_len_ascii Let_def cfg_defs)
  qed
  have "normalize_and_validate_after_decode swap_bext founder_block = Inr founder_block"
    by (rule n [where r = 1]) (simp_all add: founder_block_def bare_block_def sample_meta_valid, simp_all add: sample_meta_def zero_hash_def)
  moreover have "normalize_and_validate_after_decode swap_bext mint_block = Inr mint_block"
    by (rule n [where r = 5]) (simp add: mint_meta_valid, simp_all add: mint_block_def sample_meta_def zero_hash_def)
  moreover have "normalize_and_validate_after_decode swap_bext side_block = Inr side_block"
    by (rule n [where r = 5]) (simp add: mint_meta_valid swap_blocks, simp_all add: side_block_def mint_block_def sample_meta_def zero_hash_def)
  moreover have "replicate 65 (2 :: byte) \<noteq> replicate 65 1" "replicate 65 (3 :: byte) \<noteq> replicate 65 1" "replicate 65 (3 :: byte) \<noteq> replicate 65 2"
    by simp_all
  ultimately show "deserialize_from_storage swap_bext (replicate 65 1) = Inr founder_block"
    "deserialize_from_storage swap_bext (replicate 65 2) = Inr mint_block"
    "deserialize_from_storage swap_bext (replicate 65 3) = Inr side_block"
    by (simp_all add: deserialize_from_storage_def validate_storage_len_def cfg_defs) (simp_all add: swap_bext_def)
qed

lemma mint_serialized: "block_serialize_for_storage swap_bext mint_block = Inr (replicate 65 2)"
proof -
  have "block_validate swap_bext mint_block None = Inr ()"
    by (rule mint_block_valid_for) (simp_all add: swap_bext_def swap_ext_def run_ext_def)
  then show ?thesis using swap_different by (simp add: block_serialize_for_storage_def cfg_defs) (simp add: swap_bext_def)
qed

lemma swap_metas_at: "map_of swap_metas (BLOCK_META_BY_HASH_COLUMN_NAME, replicate 64 h) = map_option fork_meta_to_bytes (map_of swap_graph h)"
  by (simp add: swap_metas_def swap_graph_def)

lemma swap_metas_key: "map_of swap_metas (c, x) \<noteq> None \<Longrightarrow> c = BLOCK_META_BY_HASH_COLUMN_NAME \<and> (\<exists>h. x = replicate 64 h)"
  by (auto simp: swap_metas_def swap_graph_def split: if_splits)

lemma swap_metas_none: "c \<noteq> BLOCK_META_BY_HASH_COLUMN_NAME \<Longrightarrow> map_of swap_metas (c, x) = None"
  using swap_metas_key by fastforce

lemma swap_step_meta:
  assumes "map_of db (BLOCK_META_BY_HASH_COLUMN_NAME, replicate 64 h) = map_of swap_metas (BLOCK_META_BY_HASH_COLUMN_NAME, replicate 64 h)"
  shows "get_block_meta_by_hash mem_engine (replicate 64 h) (mem_manager db) = Inr (map_of swap_graph h)"
proof -
  have "fork_meta_from_bytes (fork_meta_to_bytes m) = Inr m" if "map_of swap_graph h = Some m" for m
    by (rule fork_meta_codec.from_to) (use that in \<open>auto simp: swap_graph_def fork_meta_in_range_def split: if_splits\<close>)
  then show ?thesis by (cases "map_of swap_graph h") (simp_all add: get_block_meta_by_hash_def assms swap_metas_at)
qed

lemma swap_meta: "get_block_meta_by_hash mem_engine (replicate 64 h) swap_mg = Inr (map_of swap_graph h)"
  by (rule swap_step_meta) (simp add: swap_db_def)

lemma swap_has: "has_block_by_hash mem_engine (replicate 64 h) swap_mg \<longleftrightarrow> h \<in> {1, 2, 3}"
  by (auto simp: has_block_by_hash_def swap_db_def swap_metas_none split: option.splits)

lemma swap_get:
  "get_block_by_hash mem_engine swap_bext (replicate 64 2) swap_mg = Some mint_block"
  "get_block_by_hash mem_engine swap_bext (replicate 64 3) swap_mg = Some side_block"
  "get_block_by_hash mem_engine swap_bext x swap_mg = Some b \<Longrightarrow> bl_block_hash b = x"
  by (auto simp: get_block_by_hash_def swap_db_def swap_metas_none swap_decode swap_blocks split: option.splits if_splits)

lemma swap_paths:
  assumes "rf_max_reorg_depth cfg = 2"
  shows "build_branch_path_from_hash mem_engine cfg (replicate 64 2) swap_mg = Inr (Complete [(1, replicate 64 2), (0, replicate 64 1)])"
    and "build_branch_path_from_hash mem_engine cfg (replicate 64 3) swap_mg = Inr (Complete [(1, replicate 64 3), (0, replicate 64 1)])"
  by (simp_all add: assms build_branch_path_from_hash_def int_defs branch_path_loop_numeral swap_meta swap_has
      has_block_meta_by_hash_def swap_graph_def zero_hash_def Let_def)

lemma swap_tip: "get_canonical_tip mem_engine swap_mg = Inr (Some \<lparr>tv_tip_hash = replicate 64 3, tv_tip_height = 1\<rparr>)"
  using tip_view_codec.from_to [of "\<lparr>tv_tip_hash = replicate 64 3, tv_tip_height = 1\<rparr>"]
  by (simp add: get_canonical_tip_def swap_db_def tip_view_in_range_def)

lemma swap_plan_made:
  assumes cfg: "rf_max_reorg_depth cfg = 2" "rf_prefer_cumulative_por cfg"
  shows "on_new_block mem_engine swap_bext cfg mint_block swap_mg = Inr (Reorg swap_plan)"
proof -
  have l: "load_canonical_tip_block mem_engine swap_bext swap_mg = Inr (1, replicate 64 3, side_block)"
    by (simp add: load_canonical_tip_block_def get_tip_with_legacy_fallback_def swap_tip swap_get swap_blocks)
  show ?thesis
    unfolding on_new_block_def Let_def l
    by (simp add: cfg swap_blocks branch_candidate_from_tip_def swap_meta choose_tip_def Let_def swap_paths
        candidate_to_score_def is_strictly_better_than_def refork_score_config_def plan_from_paths_def
        find_common_ancestor_def compute_reorg_steps_def steps_until_def swap_plan_def)
      (simp add: swap_graph_def)
qed


section \<open>The run\<close>

lemma swap_detach:
  "detach_step mem_engine swap_bext no_callback \<lparr>rs_height = 1, rs_hash = replicate 64 3\<rparr> swap_mg =
    (Inr (), mem_manager (((BLOCK_META_BY_HASH_COLUMN_NAME, replicate 64 3), fork_meta_to_bytes (snd (swap_graph ! 1)\<lparr>fm_status := SideBranch\<rparr>)) # swap_db))"
proof -
  have g: "get_block_by_index mem_engine swap_bext 1 swap_mg = Inr (Some side_block)"
    by (simp add: get_block_by_index_def swap_db_def swap_decode [simplified])
  have p: "preserve_old_block mem_engine swap_bext side_block swap_mg = (Inr (), swap_mg)"
    by (simp add: preserve_old_block_def bindS_def readS_def swap_blocks swap_has returnS_def)
  show ?thesis using g p
    by (simp add: detach_step_def bindS_def readS_def returnS_def mark_if_known_def
        has_block_meta_by_hash_def swap_meta ignoreS_def set_block_meta_status_def store_block_meta_by_hash_def
        no_callback_def swap_graph_def)
qed

lemma swap_attach:
  assumes "map_of db (BLOCK_TO_HASH_COLUMN_NAME, replicate 64 2) = Some (replicate 65 2)"
    "map_of db (BLOCK_META_BY_HASH_COLUMN_NAME, replicate 64 2) = map_of swap_metas (BLOCK_META_BY_HASH_COLUMN_NAME, replicate 64 2)"
  shows "attach_step mem_engine swap_bext no_callback \<lparr>rs_height = 1, rs_hash = replicate 64 2\<rparr> (mem_manager db) =
    (Inr (), mem_manager (
       ((BLOCK_META_BY_HASH_COLUMN_NAME, replicate 64 2), fork_meta_to_bytes (snd (swap_graph ! 2)\<lparr>fm_status := Canonical\<rparr>)) #
       ((CANONICAL_HEIGHT_TO_HASH_COLUMN_NAME, canonical_height_key 1), replicate 64 2) #
       ((BLOCKMINT_DATA_COLUMN_NAME, block_key 1), replicate 65 2) # mem_marked (((BLOCK_TO_HASH_COLUMN_NAME, replicate 64 2), replicate 65 2) # db)))"
proof -
  have g: "get_block_by_hash mem_engine swap_bext (replicate 64 2) (mem_manager db) = Some mint_block"
    using assms(1) by (simp add: get_block_by_hash_def swap_decode)
  have i: "index_block_by_hash mem_engine swap_bext (replicate 64 2) (replicate 65 2) (mem_manager db) =
      (Inr (), mem_manager (((BLOCK_TO_HASH_COLUMN_NAME, replicate 64 2), replicate 65 2) # db))" for db
    by (simp add: index_block_by_hash_def bindS_def readS_def swap_decode mint_serialized)
  have l: "store_latest_block mem_engine (replicate 65 2) 1 (mem_manager db) = (Inr (), mem_manager (((BLOCKMINT_DATA_COLUMN_NAME, block_key 1), replicate 65 2) # mem_marked db))" for db
    by (simp add: store_latest_block_def bindS_def cfg_defs)
  show ?thesis
    using g i l assms(2) swap_step_meta [of _ 2]
    by (simp add: attach_step_def bindS_def readS_def mint_serialized swap_blocks set_canonical_hash_at_height_def mark_if_known_def
        has_block_meta_by_hash_def set_block_meta_status_def store_block_meta_by_hash_def no_callback_def returnS_def mem_marked_def column_defs swap_graph_def)
qed

definition swapped :: "mem_db \<Rightarrow> bool" where
  "swapped db \<longleftrightarrow> map_of db (BLOCKMINT_DATA_COLUMN_NAME, block_key 0) = Some (replicate 65 1) \<and>
     map_of db (BLOCKMINT_DATA_COLUMN_NAME, block_key 1) = Some (replicate 65 2) \<and>
     map_of db (CANONICAL_HEIGHT_TO_HASH_COLUMN_NAME, canonical_height_key 1) = Some (replicate 64 2) \<and>
     map_of db (TRANSACTION_BATCH_COLUMN_NAME, tx_batch_key 0) = None \<and>
     map_of db (BATCH_BY_BLOCK_HASH_COLUMN_NAME, replicate 64 2) = Some [2] \<and> map_of db (GLOBAL_COLUMN_NAME, run_key) = None"

lemma swap_keys: "canonical_height_key 1 \<noteq> canonical_height_key 0" "run_key \<noteq> tip_height_key" "run_key \<noteq> latest_block_index_key"
  using canonical_height_key_inj [of 1 0]
  by (simp_all add: nft_meta_key_def NFT_META_PREFIX_def tip_height_key_def latest_block_index_key_def utf8_enc_def)

lemma swap_runs:
  "\<exists>db. apply_reorg mem_engine swap_bext swap_plan no_callback no_callback swap_mg = (Inr (), mem_manager db) \<and> swapped db"
proof -
  let ?db = "((BLOCK_META_BY_HASH_COLUMN_NAME, replicate 64 3), fork_meta_to_bytes (snd (swap_graph ! 1)\<lparr>fm_status := SideBranch\<rparr>)) # swap_db"
  let ?del = "filter (\<lambda>e. fst e \<noteq> (CANONICAL_HEIGHT_TO_HASH_COLUMN_NAME, canonical_height_key 1)) ?db"
  have d: "delete_canonical_hash_range mem_engine 1 1 (mem_manager ?db) = (Inr (), mem_manager ?del)"
    by (simp add: delete_canonical_hash_range_def)
  have m: "map_of ?del (BLOCK_TO_HASH_COLUMN_NAME, replicate 64 2) = Some (replicate 65 2)"
    "map_of ?del (BLOCK_META_BY_HASH_COLUMN_NAME, replicate 64 2) = map_of swap_metas (BLOCK_META_BY_HASH_COLUMN_NAME, replicate 64 2)"
    unfolding map_of_filter_ne by (simp_all add: swap_db_def)
  note a = swap_attach [OF m]
  let ?att = "((BLOCK_META_BY_HASH_COLUMN_NAME, replicate 64 2), fork_meta_to_bytes (snd (swap_graph ! 2)\<lparr>fm_status := Canonical\<rparr>)) #
       ((CANONICAL_HEIGHT_TO_HASH_COLUMN_NAME, canonical_height_key 1), replicate 64 2) #
       ((BLOCKMINT_DATA_COLUMN_NAME, block_key 1), replicate 65 2) # mem_marked (((BLOCK_TO_HASH_COLUMN_NAME, replicate 64 2), replicate 65 2) # ?del)"
  obtain db where r: "apply_reorg mem_engine swap_bext swap_plan no_callback no_callback swap_mg = (Inr (), mem_manager db)"
    and db: "db = ((GLOBAL_COLUMN_NAME, tip_height_key), to_be_bytes 8 1) # ((GLOBAL_COLUMN_NAME, latest_block_index_key), to_be_bytes 8 1) #
      ((GLOBAL_COLUMN_NAME, tip_height_key), to_be_bytes 8 1) # ((CANONICAL_CHAIN_VIEW_COLUMN_NAME, CANONICAL_TIP_VIEW_KEY),
         tip_view_to_bytes \<lparr>tv_tip_hash = replicate 64 2, tv_tip_height = 1\<rparr>) # ?att"
    by (simp add: apply_reorg_def is_noop_def swap_plan_def bindS_def swap_detach [simplified] saturating_add_def d [simplified] a [simplified]
        set_canonical_tip_def returnS_def)
  have "swapped db"
    using swap_keys swap_keys [symmetric] genesis_keys
    by (simp add: swapped_def db mem_marked_def map_of_filter_ne) (simp add: swap_db_def swap_metas_none column_defs)
  then show ?thesis using r by blast
qed

lemma swap_remap:
  assumes "swapped db"
  shows "remap_canonical_batches_best_effort mem_engine [(1, replicate 64 2)] (mem_manager db) =
    (Inr (), mem_manager (((TRANSACTION_BATCH_COLUMN_NAME, tx_batch_key 1), [2]) # db))"
  using assms
  by (simp add: swapped_def remap_canonical_batches_best_effort_def bindS_def readS_def returnS_def get_batch_by_block_hash_def store_batch_bytes_def)

lemma swap_tree [simp]: "te_block swap_tree_ext = swap_bext" "bx swap_bext = swap_ext" "te_nft swap_tree_ext = te_nft run_tree_ext"
  by (simp_all add: swap_tree_ext_def swap_bext_def)

lemma founder_links: "links inner_empty founder_block"
  by (simp add: links_iff swap_blocks) (simp add: inner_empty_def expected_next_height_def)

lemma mint_links: "links (remember_recent_block inner_empty founder_block) mint_block"
  by (simp add: links_iff swap_blocks remember_recent_block_def) (simp add: inner_empty_def expected_next_height_def saturating_add_def)

abbreviation swapped_db :: "mem_db \<Rightarrow> mem_db" where
  "swapped_db db \<equiv> ((TRANSACTION_BATCH_COLUMN_NAME, tx_batch_key 1), [2]) # db"

lemma swap_reload:
  assumes s: "swapped db"
  shows "reload_from_db_to_height mem_engine swap_tree_ext 1 \<lparr>am_inner = st, am_db = mem_manager (swapped_db db), am_pending_blocks = []\<rparr> =
    (Inr (), \<lparr>am_inner = minted_on founder_block, am_db = mem_manager (((GLOBAL_COLUMN_NAME, run_key), [7]) # swapped_db db), am_pending_blocks = []\<rparr>)"
proof -
  let ?g = "remember_recent_block inner_empty founder_block" 
  define mg where mg: "mg = mem_manager (swapped_db db)"
  have blocks: "get_block_by_index mem_engine swap_bext 0 mg = Inr (Some founder_block)" "get_block_by_index mem_engine swap_bext 1 mg = Inr (Some mint_block)"
    "get_batch_bytes_by_index mem_engine 0 mg = Inr None" "get_batch_bytes_by_index mem_engine 1 mg = Inr (Some [2])"
    using s by (simp_all add: mg swapped_def get_block_by_index_def get_batch_bytes_by_index_def swap_decode)
  have t: "current_tip_hash inner_empty = None" "current_tip_hash ?g = Some (replicate 64 1)"
    by (simp_all add: current_tip_hash_def remember_recent_block_def swap_blocks) (simp add: inner_empty_def)
  have v: "verify_compact_state_invariants ?g (Some 0) (Some (replicate 64 1)) (Some zero_hash) = Inr ()"
    using remember_compact [OF empty_compact founder_links] by (simp add: verify_compact_iff) (simp add: remember_recent_block_def swap_blocks inner_empty_def)
  have 0: "replay_block mem_engine swap_tree_ext inner_empty 0 mg = (Inr ?g, mg)"
    using founder_links v by (simp add: replay_block_def bindS_readS blocks Let_def t returnS_def links_def swap_blocks)
  obtain oc where ap: "apply_batch_to_state default_guard swap_ext (minted_on founder_block) mint_batch mint_ctx = Inr (minted_on founder_block, oc)"
    using mint_batch_applies [OF swap_blocks(1-3), of swap_ext] by (auto simp: swap_ext_def run_ext_def)
  have b: "batch_deserialize swap_ext [2] = Inr mint_batch" "b_index mint_batch = 1" "b_transactions mint_batch = [NftMint run_mint]"
    by (simp_all add: batch_deserialize_def swap_ext_def mint_batch_def)
  have k: "nft_meta_key swap_ext (mint_nft_id run_mint) = mint_key run_tree_ext run_mint" by (simp add: nft_meta_key_def swap_ext_def run_tree_ext_def)
  have n: "replay_nft mem_engine swap_tree_ext w i ts (NftMint run_mint) mg = (Inr (), mem_manager (((GLOBAL_COLUMN_NAME, run_key), [7]) # swapped_db db))" for w i ts
    using s by (simp add: mg replay_nft_def load_nft_record_def bindS_def readS_def k mem_metadata swapped_def apply_nft_mint_def store_nft_record_def
        map_errS_def returnS_def) (simp add: run_tree_ext_def mem_metadata)
  have 1: "replay_block mem_engine swap_tree_ext ?g 1 mg = (Inr (minted_on founder_block), mem_manager (((GLOBAL_COLUMN_NAME, run_key), [7]) # swapped_db db))"
    using mint_links ap
    by (simp add: replay_block_def bindS_readS blocks [simplified] Let_def t links_def b swap_blocks minted_on_def [symmetric]) (simp add: bindS_def n returnS_def)
  have c: "verify_compact_state_invariants (minted_on founder_block) (Some 1) (current_tip_hash (minted_on founder_block)) (current_prev_tip_hash (minted_on founder_block)) = Inr ()"
    using minted_on_eq(2) [OF swap_blocks(1-3)]
    by (simp add: verify_compact_iff) (simp add: minted_on_eq(1) [OF swap_blocks(1-3)] current_tip_hash_def current_prev_tip_hash_def)
  show ?thesis
    unfolding mg [symmetric] using 0 1 c by (simp add: reload_from_db_to_height_def replay_chain_def on_tree_db_def bindS_def readS_def returnS_def retain_above_def upt_rec)
qed

lemma swap_commit:
  "commit_inner_state mem_engine swap_tree_ext (minted_on founder_block) (mem_manager db) =
     (Inr (), mem_manager (((STATE_COLUMN_NAME, STATE_KEY), [0]) # mem_marked db))"
proof -
  have "verify_compact_state_invariants (minted_on founder_block) None None None = Inr ()"
    using minted_on_eq(2) [OF swap_blocks(1-3)] by (simp add: verify_compact_iff)
  then show ?thesis
    by (simp add: commit_inner_state_def bindS_def readS_def map_errS_def)
      (simp add: swap_tree_ext_def run_tree_ext_def MAX_ACCOUNT_STATE_SNAPSHOT_BYTES_def map_errS_def)
qed

definition founder_registry :: registry where
  "founder_registry = [(sample_wallet 97, \<lparr>vm_join_height = 0, vm_join_timestamp = 1700000000, vm_last_renew_height = 0,
     vm_last_renew_timestamp = 1700000000, vm_exit_height = None\<rparr>)]"

definition founder_codec :: RegistryCodec where
  "founder_codec = \<lparr>rc_to = \<lambda>reg. if reg = founder_registry then Inr [1] else Inl ''unsupported'',
     rc_from = \<lambda>b. if b = [1] then Inr founder_registry else Inl ''unsupported''\<rparr>"

lemma founder_registry_ok: "validate_map founder_registry = Inr ()"
  by (intro registry_ok_validates)
    (simp add: registry_ok_def founder_registry_def bt_wf_def meta_ok_def time_consts founder_wallet)

lemma founder_seeded:
  assumes "get_block 0 = Inr (Some founder_block)"
  shows "seed_founder_from_canonical_genesis get_block [] = Inr founder_registry"
proof -
  have "derive_genesis_founder_from_chain get_block = Inr (Some (sample_wallet 97, 1700000000))"
    using assms canon_wallet_canonical [OF founder_wallet]
    by (simp add: derive_genesis_founder_from_chain_def founder_block_def bare_block_def sample_meta_def
        canonical_event_timestamp_from_block_def validate_unix_secs_structural_def time_consts)
  moreover have "validate_structural_invariants (snd (hd founder_registry)) = Inr ()"
    by (simp add: structural_iff founder_registry_def meta_ok_def time_consts)
  then have "meta_founder 1700000000 = Inr (snd (hd founder_registry))"
    by (simp add: meta_founder_def founder_registry_def validate_unix_secs_structural_def time_consts Let_def)
  ultimately show ?thesis
    by (simp add: seed_founder_from_canonical_genesis_def is_founder_entry_def) (simp add: founder_registry_def)
qed

lemma founder_rebuild:
  assumes b: "get_block_by_index mem_engine swap_bext 0 (mem_manager db) = Inr (Some founder_block)"
    "get_block_by_index mem_engine swap_bext 1 (mem_manager db) = Inr (Some mint_block)"
    and t: "map_of db (TRANSACTION_BATCH_COLUMN_NAME, tx_batch_key 0) = None" "map_of db (TRANSACTION_BATCH_COLUMN_NAME, tx_batch_key 1) = Some [2]"
  shows "rebuild_from_chain mem_engine swap_bext founder_codec (Some 1) \<lparr>vs_inner = reg, vs_db_manager = mem_manager db\<rparr> =
    (Inr (), \<lparr>vs_inner = founder_registry, vs_db_manager = mem_manager (((STATE_COLUMN_NAME, VALIDATOR_STATE_KEY), [1]) # mem_marked db)\<rparr>)"
proof -
  let ?vs = "\<lparr>vs_inner = reg, vs_db_manager = mem_manager db\<rparr>"
  let ?b = "\<lambda>i. get_block_by_index mem_engine swap_bext i (mem_manager db)" and ?t = "\<lambda>i. get_tx_batch_bytes_by_index mem_engine i (mem_manager db)"
  have r0: "replay_height swap_ext ?b ?t founder_registry 0 = Inr founder_registry"
    using t by (simp add: replay_height_def get_tx_batch_bytes_by_index_def)
  have "batch_deserialize swap_ext [2] = Inr mint_batch" by (simp add: batch_deserialize_def swap_ext_def)
  moreover have "\<exists>ts. canonical_event_timestamp_for_block mint_block 1 = Inr ts"
    by (simp add: canonical_event_timestamp_for_block_def canonical_event_timestamp_from_block_def mint_block_def sample_meta_def
        validate_unix_secs_structural_def time_consts)
  ultimately have r1: "replay_height swap_ext ?b ?t founder_registry 1 = Inr founder_registry"
    using t b by (auto simp: replay_height_def get_tx_batch_bytes_by_index_def mint_batch_def replay_kind_def returnS_def bindS_def ok_or_def)
  have "build_replay_map_from_chain mem_engine swap_bext 1 ?vs = Inr founder_registry"
    using founder_seeded [of ?b, OF b(1)] r0 r1 founder_registry_ok by (simp add: build_replay_map_from_chain_def replay_with_def upt_rec)
  then show ?thesis
    using founder_registry_ok
    by (simp add: rebuild_from_chain_def bindS_def readS_def replace_with_rebuilt_map_def on_inner_def commit_def founder_codec_def
        map_errS_def on_db_def persist_multi_validator_latch_if_needed_def) (simp add: founder_registry_def)
qed

definition node_with :: "InnerTree \<Rightarrow> mem_db \<Rightarrow> registry \<Rightarrow> mem_db ReorgNode" where
  "node_with st db reg = \<lparr>rn_chain = \<lparr>am_inner = st, am_db = mem_manager db, am_pending_blocks = []\<rparr>,
     rn_builder = Some \<lparr>vs_inner = reg, vs_db_manager = mem_manager db\<rparr>\<rparr>"

definition start_node :: "mem_db ReorgNode" where
  "start_node = node_with (remember_recent_block (remember_recent_block inner_empty founder_block) side_block) swap_db run_registry"

definition swap_config :: ReForkConfig where
  "swap_config = default_refork_config\<lparr>rf_max_reorg_depth := 2, rf_prefer_cumulative_por := True\<rparr>"

lemma start_db: "rn_db start_node = swap_mg"
  by (simp add: start_node_def node_with_def)

lemma start_node_runs:
  "\<exists>n'. handle_new_block mem_engine swap_tree_ext founder_codec swap_config mint_block start_node = (Inr (Reorg swap_plan), n') \<and>
    am_inner (rn_chain n') = minted_on founder_block \<and> map_option vs_inner (rn_builder n') = Some founder_registry"
proof -
  obtain db where a: "apply_reorg mem_engine swap_bext swap_plan no_callback no_callback swap_mg = (Inr (), mem_manager db)" and s: "swapped db"
    using swap_runs by blast
  let ?st = "remember_recent_block (remember_recent_block inner_empty founder_block) side_block" and ?g = "minted_on founder_block"
  let ?db3 = "((GLOBAL_COLUMN_NAME, run_key), [7]) # swapped_db db"
  let ?db4 = "((STATE_COLUMN_NAME, STATE_KEY), [0]) # mem_marked ?db3"
  let ?db5 = "((STATE_COLUMN_NAME, VALIDATOR_STATE_KEY), [1]) # mem_marked ?db4"
  have 1: "on_shared_db (apply_reorg mem_engine swap_bext swap_plan no_callback no_callback) start_node = (Inr (), node_with ?st db run_registry)"
    by (simp add: start_node_def on_shared_db_def node_with_def share_def a)
  have 2: "on_shared_db (remap_canonical_batches_best_effort mem_engine [(1, replicate 64 2)]) (node_with ?st db run_registry) =
      (Inr (), node_with ?st (swapped_db db) run_registry)"
    using swap_remap [OF s] by (simp add: on_shared_db_def node_with_def share_def)
  have 3: "on_chain (reload_from_db_to_height mem_engine swap_tree_ext 1) (node_with ?st (swapped_db db) run_registry) =
      (Inr (), node_with ?g ?db3 run_registry)"
    using swap_reload [OF s] by (simp add: on_chain_def node_with_def share_def)
  have 4: "on_chain (ignoreS (tree_commit mem_engine swap_tree_ext)) (node_with ?g ?db3 run_registry) = (Inr (), node_with ?g ?db4 run_registry)"
    by (simp add: on_chain_def node_with_def share_def ignoreS_def tree_commit_def on_tree_db_def swap_commit)
  have "it_balances ?g = []" by (simp add: minted_on_eq(1) [OF swap_blocks(1-3)])
  then have 5: "on_chain (ignoreS (flush_balances mem_engine swap_tree_ext)) (node_with ?g ?db4 run_registry) = (Inr (), node_with ?g ?db4 run_registry)"
    by (simp add: on_chain_def node_with_def share_def ignoreS_def flush_balances_def returnS_def)
  have d: "get_block_by_index mem_engine swap_bext 0 (mem_manager ?db4) = Inr (Some founder_block)"
    "get_block_by_index mem_engine swap_bext 1 (mem_manager ?db4) = Inr (Some mint_block)"
    "map_of ?db4 (TRANSACTION_BATCH_COLUMN_NAME, tx_batch_key 0) = None" "map_of ?db4 (TRANSACTION_BATCH_COLUMN_NAME, tx_batch_key 1) = Some [2]"
    "load_canonical_hash_at_height mem_engine swap_bext 1 (mem_manager ?db4) = Inr (Some (replicate 64 2))"
    using s by (simp_all add: swapped_def get_block_by_index_def mem_marked_def swap_decode load_canonical_hash_at_height_def
        get_canonical_hash_at_height_def) (simp_all add: column_defs)
  have 6: "on_builder (rebuild_validator_state mem_engine swap_bext founder_codec 1) (node_with ?g ?db4 run_registry) =
      (Inr (), node_with ?g ?db5 founder_registry)"
    using founder_rebuild [OF d(1-4)] d(5) by (simp add: rebuild_validator_state_def bindS_def readS_def on_builder_def node_with_def share_def)
  have p: "rp_new_tip_height swap_plan = 1" "map (\<lambda>s. (rs_height s, rs_hash s)) (rp_attach swap_plan) = [(1, replicate 64 2)]"
    by (simp_all add: swap_plan_def)
  have "apply_reorg_plan mem_engine swap_tree_ext founder_codec swap_plan start_node = (Inr (), node_with ?g ?db5 founder_registry)"
    unfolding apply_reorg_plan_def callbacks p Let_def swap_tree bindS_def 1 prod.case sum.case 2 3 4 5 6 ..
  then have "handle_new_block mem_engine swap_tree_ext founder_codec swap_config mint_block start_node =
      (Inr (Reorg swap_plan), node_with ?g ?db5 founder_registry)"
    using swap_plan_made [of swap_config] start_db by (simp add: handle_new_block_def bindS_def readS_def returnS_def swap_config_def)
  then show ?thesis by (simp add: node_with_def)
qed

section \<open>What held before\<close>

lemma swap_meta_at: "meta_at mem_view swap_mg (replicate 64 h) = map_of swap_graph h"
  using get_meta_at [OF mem_engine_ok swap_meta] by simp

lemma swap_linked: "heights_linked (meta_at mem_view swap_mg)"
  unfolding heights_linked_def
proof (intro allI impI)
  fix x m p
  assume m: "meta_at mem_view swap_mg x = Some m" and h: "fm_height m \<noteq> 0" and p: "meta_at mem_view swap_mg (fm_parent_hash m) = Some p"
  obtain y where "x = replicate 64 y"
    using m swap_metas_key [of BLOCK_META_BY_HASH_COLUMN_NAME x] by (auto simp: meta_at_def mem_mview swap_db_def split: option.splits)
  then have "map_of swap_graph y = Some m" using m swap_meta_at by simp
  then have "fm_height m = 1 \<and> fm_parent_hash m = replicate 64 1" using h by (auto simp: swap_graph_def split: if_splits)
  then show "fm_height m = Suc (fm_height p)" using p by (auto simp: swap_meta_at swap_graph_def)
qed

lemma swap_graph_ok: "fork_graph_ok mem_engine swap_bext mem_view swap_plan swap_mg"
  using swap_linked swap_get(3) by (auto simp: fork_graph_ok_def swap_plan_def swap_meta_at swap_graph_def)

lemma swap_canon: "canon mem_view swap_mg 1 = Some (replicate 64 3)" "canon mem_view swap_mg 0 = Some (replicate 64 1)"
  using canonical_height_key_inj [of 1 0] by (simp_all add: canon_def mem_mview swap_db_def)

lemma swap_follows: "follows_tip (meta_at mem_view swap_mg) (canon mem_view swap_mg) (replicate 64 3) 1"
proof -
  let ?M = "meta_at mem_view swap_mg"
  have a: "ancestor_at ?M (replicate 64 3) i = Some x \<Longrightarrow> (i = 0 \<and> x = replicate 64 3) \<or> (i = 1 \<and> x = replicate 64 1)" for i x
    by (cases i; cases "i - 1") (auto simp: swap_meta_at swap_graph_def list_all_iff split: option.splits if_splits)
  then show ?thesis unfolding follows_tip_def using swap_canon by fastforce
qed

lemma start_chain_ok: "chain_ok swap_bext mem_view swap_mg (replicate 64 3) 1"
proof -
  have "chain_block swap_bext (mview mem_view swap_mg) 0 = Inr (Some founder_block)"
    "chain_block swap_bext (mview mem_view swap_mg) 1 = Inr (Some side_block)"
    by (simp_all add: chain_block_def mem_mview swap_db_def swap_decode)
  then have "projection_ok swap_bext mem_view swap_mg 1"
    using swap_canon by (auto simp: projection_ok_def le_Suc_eq swap_blocks)
  moreover have "index_ok swap_bext (mview mem_view swap_mg)"
    by (auto simp: index_ok_def mem_mview swap_db_def swap_metas_none swap_decode swap_blocks split: if_splits)
  ultimately show ?thesis using swap_follows by (simp add: chain_ok_def chain_mode_def) (simp add: mem_manager_def)
qed

lemma start_batches_ok: "batches_ok mem_view swap_mg 1"
  using swap_canon by (auto simp: batches_ok_def le_Suc_eq batch_of_def batch_slot_def mem_mview swap_db_def swap_metas_none)

section \<open>Witnesses\<close>


theorem reorg_rebuilds_node_witness:
  "batch_slot mem_view (rn_db start_node) 1 = Some [3] \<and>
   (\<exists>n'. handle_new_block mem_engine swap_tree_ext founder_codec swap_config mint_block start_node = (Inr (Reorg swap_plan), n') \<and>
    chain_ok swap_bext mem_view (rn_db n') (replicate 64 2) 1 \<and> batches_ok mem_view (rn_db n') 1 \<and>
    batch_slot mem_view (rn_db n') 1 = Some [2] \<and> am_inner (rn_chain n') = minted_on founder_block \<and>
    live_chain swap_tree_ext (mview mem_view (rn_db n')) 1 = Inr (minted_on founder_block) \<and>
    (\<exists>vs. rn_builder n' = Some vs \<and> vs_inner vs = founder_registry \<and> in_sync swap_bext founder_codec mem_view 1 vs))"
proof -
  have b: "block_codec_ok (te_block swap_tree_ext)" using swap_codec by simp
  have R: "codec_ok founder_codec" by (auto simp: codec_ok_def founder_codec_def split: if_splits)
  obtain n' where r: "handle_new_block mem_engine swap_tree_ext founder_codec swap_config mint_block start_node = (Inr (Reorg swap_plan), n')"
    and f: "am_inner (rn_chain n') = minted_on founder_block" "map_option vs_inner (rn_builder n') = Some founder_registry"
    using start_node_runs by blast
  have g: "fork_graph_ok mem_engine (te_block swap_tree_ext) mem_view swap_plan (rn_db start_node)" using swap_graph_ok by (simp add: start_db)
  have c: "chain_ok (te_block swap_tree_ext) mem_view (rn_db start_node) (rp_old_tip_hash swap_plan) (rp_old_tip_height swap_plan)"
    using start_chain_ok by (simp add: start_db swap_plan_def)
  have h: "m_index (bl_metadata mint_block) < 2 ^ 64 - 1" by (simp add: swap_blocks)
  have o: "batches_ok mem_view (rn_db start_node) (rp_old_tip_height swap_plan)" using start_batches_ok by (simp add: start_db swap_plan_def)
  have t: "batch_slot mem_view (rn_db start_node) 1 = Some [3]" "batch_of mem_view (rn_db start_node) (replicate 64 2) = Some [2]"
    by (simp_all add: start_db batch_slot_def batch_of_def mem_mview swap_db_def)
  have "map_of (map step_pair (rp_attach swap_plan)) 1 = Some (replicate 64 2)" by (simp add: swap_plan_def step_pair_def)
  then show ?thesis using reorg_rebuilds_node [OF mem_engine_ok b R r g c h] r f t o by (auto simp: swap_blocks)
qed

end
