(* ===== verification/Builder.thy ===== *)
theory Builder
  imports MintGate Mempool Validation
begin

text \<open>
  The block builder (\<open>src/blockchain/blockchain_001_builder.rs\<close>): it passes the gate of the consensus component, takes transactions
  from the mempool, adds the reward and the registrations, assembles and signs a block that fits the size limit, and stores it.

  The builder, its consensus component and the mempool hold handles of one database, which the state has once, in the validator
  state of the consensus component. Other tasks of the node may write to it while a block is assembled; what they do is an argument
  of the model, applied between the assembly and the final checks. The clocks are arguments; of an iteration from the end of a column the builder
  uses the first item, the last one in the order of keys.
\<close>

section \<open>The latest stored block\<close>

definition BLOCK_PREFIX :: "byte list" where
  "BLOCK_PREFIX = str_bytes (lit ''block_'')"

definition get_latest_block_by_iter :: "'db Engine \<Rightarrow> 'db RockDBManager \<Rightarrow> byte list option result" where
  "get_latest_block_by_iter G mg =
     bindR (open_db_blockchain mg) (\<lambda>db.
     bindR (column G db BLOCKMINT_DATA_COLUMN_NAME) (\<lambda>_.
     let items = en_scan G db BLOCKMINT_DATA_COLUMN_NAME in
     if items = [] then Inr None
     else (case last items of (key, data) \<Rightarrow> if take (length BLOCK_PREFIX) key = BLOCK_PREFIX then Inr (Some data) else Inr None)))"

definition get_latest_block :: "'db Engine \<Rightarrow> BlockExt \<Rightarrow> 'db RockDBManager \<Rightarrow> Block option result" where
  "get_latest_block G X mg =
     bindR (get_latest_block_by_iter G mg) (\<lambda>raw.
     (case raw of
        Some data \<Rightarrow> bindR (deserialize_from_storage X data) (\<lambda>b. Inr (Some b))
      | None \<Rightarrow> Inr None))"

definition get_latest_block_hash :: "'db Engine \<Rightarrow> BlockExt \<Rightarrow> 'db RockDBManager \<Rightarrow> hash result" where
  "get_latest_block_hash G X mg =
     bindR (get_latest_block G X mg) (\<lambda>b.
     bindR (ok_or (NotFound ''latest block'') b) (\<lambda>block. Inr (bl_block_hash block)))"

section \<open>State\<close>

record 'db BlockchainBuilder =
  bb_consensus :: "'db BlockchainConsensus"
  bb_detection :: DetectionSystem
  bb_signing_key :: "byte list"

abbreviation bb_db :: "'db BlockchainBuilder \<Rightarrow> 'db RockDBManager" where
  "bb_db b \<equiv> vs_db_manager (bc_validator_state (bb_consensus b))"

definition with_db :: "'db RockDBManager \<Rightarrow> 'db BlockchainBuilder \<Rightarrow> 'db BlockchainBuilder" where
  "with_db mg b =
     b\<lparr>bb_consensus := (bb_consensus b)\<lparr>bc_validator_state := (bc_validator_state (bb_consensus b))\<lparr>vs_db_manager := mg\<rparr>\<rparr>\<rparr>"

definition on_builder_db :: "('db RockDBManager, 'a) sm \<Rightarrow> ('db BlockchainBuilder, 'a) sm" where
  "on_builder_db m b = (case m (bb_db b) of (r, mg) \<Rightarrow> (r, with_db mg b))"

definition on_consensus :: "('db BlockchainConsensus, 'a) sm \<Rightarrow> ('db BlockchainBuilder, 'a) sm" where
  "on_consensus m b = (case m (bb_consensus b) of (r, c) \<Rightarrow> (r, b\<lparr>bb_consensus := c\<rparr>))"

definition on_detection :: "(DetectionSystem, 'a) sm \<Rightarrow> ('db BlockchainBuilder, 'a) sm" where
  "on_detection m b = (case m (bb_detection b) of (r, d) \<Rightarrow> (r, b\<lparr>bb_detection := d\<rparr>))"

definition builder_new ::
    "'db Engine \<Rightarrow> BlockExt \<Rightarrow> RegistryCodec \<Rightarrow> int \<times> int \<Rightarrow> rstr \<Rightarrow> TimeManager \<Rightarrow> byte list \<Rightarrow> 'db RockDBManager \<Rightarrow>
      'db BlockchainBuilder result \<times> 'db RockDBManager" where
  "builder_new G X R clocks local_wallet tm signing_key mg =
     (case consensus_new G X R local_wallet tm mg of
        (Inl e, mg') \<Rightarrow> (Inl e, mg')
      | (Inr consensus, mg') \<Rightarrow>
          (Inr \<lparr>bb_consensus = consensus, bb_detection = snd (add_participant clocks (bc_local_wallet consensus) detection_new),
                bb_signing_key = signing_key\<rparr>, mg'))"

definition heartbeat :: "int \<Rightarrow> 'db BlockchainBuilder \<Rightarrow> 'db BlockchainBuilder" where
  "heartbeat clock b = snd (on_detection (update_participant_activity clock (bc_local_wallet (bb_consensus b))) b)"

section \<open>The contents of a block\<close>

fun check_registration :: "'db ValidatorState \<Rightarrow> TxKind \<Rightarrow> unit result" where
  "check_registration vs (RegisterNode reg) =
     bindR (ok_or (ValidationError ''RegisterNodeTx wallet address is not valid UTF-8'')
              (from_utf8 (map unat (reg_wallet_address reg)))) (\<lambda>wallet_str.
     bindR (map_err (\<lambda>_. ValidationError ''RegisterNodeTx wallet address is not canonical in builder guard'')
              (canon_wallet_id_checked wallet_str)) (\<lambda>wallet_can.
     bindR (is_canonically_known wallet_can vs) (\<lambda>known.
     if known then Inl (ValidationError ''attempted to include duplicate canonical RegisterNodeTx'') else Inr ())))"
| "check_registration vs kind = Inr ()"

definition reject_canonical_reregistration_system_txs :: "TxKind list \<Rightarrow> nat \<Rightarrow> 'db BlockchainBuilder \<Rightarrow> unit result" where
  "reject_canonical_reregistration_system_txs system_kinds next_index b =
     (if next_index = 0 then Inr ()
      else bindR (traverseR (check_registration (bc_validator_state (bb_consensus b))) system_kinds) (\<lambda>_. Inr ()))"

text \<open>The reward transaction, if there is a reward and the proposer may have it, and the reward of the block.\<close>

definition reward_kinds :: "int \<Rightarrow> rstr \<Rightarrow> nat \<Rightarrow> 'db BlockchainBuilder \<Rightarrow> (TxKind list \<times> nat) result" where
  "reward_kinds clock proposer next_index b =
     (let reward_tot = (if next_index < REWARD_DELAY_BLOCKS then 0 else get_block_reward next_index) in
      if reward_tot > 0 \<and> consensus_reward_eligible_at proposer next_index (bb_consensus b) then
        bindR (now_unix_secs_runtime clock) (\<lambda>timestamp.
        bindR (rew_new_with_timestamp proposer reward_tot next_index timestamp) (\<lambda>tx. Inr ([Reward tx], reward_tot)))
      else Inr ([], 0))"

definition txkind_len :: "Ext \<Rightarrow> TxKind \<Rightarrow> nat result" where
  "txkind_len E k = bindR (map_err SerializationError (pc_kind E k)) (\<lambda>bytes. Inr (length bytes))"

text \<open>The loop that drops transactions from the end until their sizes fit.\<close>

function trim_users :: "nat \<Rightarrow> nat \<Rightarrow> 'a list \<Rightarrow> nat list \<Rightarrow> 'a list" where
  "trim_users remaining user_total pairs sizes =
     (if user_total > remaining then
        (if pairs \<noteq> [] \<and> sizes \<noteq> []
           then trim_users remaining (saturating_sub user_total (last sizes)) (butlast pairs) (butlast sizes)
         else butlast pairs)
      else pairs)"
  by pat_completeness auto
termination by (relation "measure (\<lambda>(r, t, p, s). length p)") (auto intro!: diff_less)

declare trim_users.simps [simp del]

definition fit_users :: "Ext \<Rightarrow> TxKind list \<Rightarrow> (byte list \<times> TxKind) list \<Rightarrow> (byte list \<times> TxKind) list result" where
  "fit_users E system_kinds pairs =
     (let tx_budget = saturating_sub MAX_BLOCK_SIZE BLOCK_OVERHEAD_RESERVE in
      bindR (traverseR (txkind_len E) system_kinds) (\<lambda>system_sizes.
      let used = foldl (saturating_add 64) 0 system_sizes; remaining = saturating_sub tx_budget used in
      bindR (traverseR (\<lambda>(k, v). txkind_len E v) pairs) (\<lambda>user_sizes.
      Inr (trim_users remaining (foldl (saturating_add 64) 0 user_sizes) pairs user_sizes))))"

section \<open>Assembly\<close>

fun check_distinct :: "Ext \<Rightarrow> rstr set \<Rightarrow> TxKind list \<Rightarrow> unit result" where
  "check_distinct E seen [] = Inr ()"
| "check_distinct E seen (Transfer tx # kinds) =
     bindR (tx_id E tx) (\<lambda>i.
     if i \<in> seen then Inl (ValidationError ''duplicate transaction detected'') else check_distinct E (insert i seen) kinds)"
| "check_distinct E seen (kind # kinds) = check_distinct E seen kinds"

definition committed_proof :: "PorPuzzleProof option \<Rightarrow> nat \<Rightarrow> hash \<Rightarrow> rstr \<Rightarrow> BlockPuzzleProof option result" where
  "committed_proof pending next_index prev_hash proposer =
     (case pending of
        None \<Rightarrow> Inr None
      | Some gossip_proof \<Rightarrow>
          bindR (from_gossip gossip_proof) (\<lambda>block_proof.
          bindR (proof_validate_structural block_proof) (\<lambda>_.
          if pz_height block_proof \<noteq> next_index then Inl (ValidationError ''staged puzzle proof height mismatch'')
          else if pz_prev_block_hash block_proof \<noteq> prev_hash then Inl (ValidationError ''staged puzzle proof prev_hash mismatch'')
          else if \<not> eq_ignore_ascii_case (pz_validator block_proof) proposer
            then Inl (ValidationError ''staged puzzle proof validator does not match local proposer'')
          else Inr (Some block_proof))))"

text \<open>One turn of the loop up to the sizes: the batch and the block for the transactions kept so far.\<close>

definition candidate ::
    "SigExt \<Rightarrow> BlockExt \<Rightarrow> byte list \<Rightarrow> nat \<Rightarrow> hash \<Rightarrow> nat \<Rightarrow> rstr \<Rightarrow> PorPuzzleProof option \<Rightarrow> TxKind list \<Rightarrow> nat \<Rightarrow> TxKind list \<Rightarrow>
      (Block \<times> TransactionBatch) result" where
  "candidate S X signing_key next_index prev_hash batch_timestamp proposer pending system_kinds block_reward user_kinds =
     (let E = bx X in
      bindR (check_distinct E {} user_kinds) (\<lambda>_.
      bindR (transfer_ids E user_kinds) (\<lambda>ids.
      bindR (detect_double_spend ids) (\<lambda>_.
      bindR (detect_replay (map (\<lambda>i. (i, [])) ids)) (\<lambda>_.
      bindR (batch_new next_index batch_timestamp (system_kinds @ user_kinds)) (\<lambda>batch0.
      case validate_transaction_batch S E signing_key prev_hash batch0 of
        (Inl e, batch) \<Rightarrow> Inl e
      | (Inr meta, batch) \<Rightarrow>
          if b_index batch \<noteq> next_index then Inl (ValidationError ''batch index invariant failed'')
          else
            bindR (committed_proof pending next_index prev_hash proposer) (\<lambda>p.
            bindR (traverseR (\<lambda>k. map_err SerializationError (pc_kind E k)) (b_transactions batch)) (\<lambda>slices.
            bindR (gs_sign_batch S E signing_key slices) (\<lambda>sig_vec.
            if length sig_vec \<noteq> SIG_LEN then Inl (CryptographicError ''guardian signature length'')
            else
              bindR (block_new X (meta\<lparr>m_puzzle_proof := p, m_guardian_signature := sig_vec\<rparr>)
                       (Some (lit ''tx_batch_'' @ decimal_padded 10 next_index)) proposer block_reward) (\<lambda>block.
              Inr (block, batch)))))))))))"

text \<open>The loop: the last transaction is dropped until the block fits.\<close>

function assemble ::
    "BlockExt \<Rightarrow> (TxKind list \<Rightarrow> (Block \<times> TransactionBatch) result) \<Rightarrow> nat \<Rightarrow> (byte list \<times> TxKind) list \<Rightarrow>
      (Block \<times> byte list \<times> byte list \<times> byte list list) result" where
  "assemble X cand system_count pairs =
     (if saturating_add 64 (length pairs) system_count > MAX_TXS_PER_BLOCK then
        (if pairs \<noteq> [] then assemble X cand system_count (butlast pairs)
         else Inl (ValidationError ''cannot build a valid batch: system txs exceed MAX_TXS_PER_BLOCK''))
      else
        (case cand (map snd pairs) of
           Inl e \<Rightarrow> Inl e
         | Inr (block, batch) \<Rightarrow>
             (case block_serialize_for_storage X block of
                Inl e \<Rightarrow> Inl e
              | Inr block_bytes \<Rightarrow>
                  (case batch_serialize (bx X) batch of
                     Inl e \<Rightarrow> Inl e
                   | Inr batch_bytes \<Rightarrow>
                       (let total_bytes = saturating_add 64 (length block_bytes) (length batch_bytes) in
                        if total_bytes \<le> MAX_BLOCK_SIZE
                          then bindR (check_block_size total_bytes) (\<lambda>_. Inr (block, block_bytes, batch_bytes, map fst pairs))
                        else if pairs \<noteq> [] then assemble X cand system_count (butlast pairs)
                        else Inl (ValidationError ''Block+Batch exceeds MAX_BLOCK_SIZE even with zero user txs''))))))"
  by pat_completeness auto
termination by (relation "measure (\<lambda>(X, c, n, p). length p)") (auto intro!: diff_less)

declare assemble.simps [simp del]

section \<open>Storing and minting\<close>

definition store_new_block :: "'db Engine \<Rightarrow> BlockExt \<Rightarrow> byte list \<Rightarrow> nat \<Rightarrow> hash \<Rightarrow> ('db RockDBManager, unit) sm" where
  "store_new_block G X block_bytes index block_hash =
     bindS (readS (get_block_bytes_by_index G index)) (\<lambda>old.
     if old \<noteq> None then failS (ValidationError ''block already exists - refusing to overwrite'')
     else
       bindS (readS (\<lambda>mg. Inr (get_block_by_hash G X block_hash mg))) (\<lambda>known.
       if known \<noteq> None then failS (ValidationError ''block hash already exists - refusing duplicate persist'')
       else
         bindS (store_latest_block G block_bytes index) (\<lambda>_.
         index_block_by_hash G X block_hash block_bytes)))"

record BuildClocks =
  bk_batch :: int
  bk_gate :: int
  bk_elapsed :: "nat \<times> nat"
  bk_fetch :: int
  bk_reward :: int
  bk_register :: "rstr \<Rightarrow> int \<times> int"
  bk_activity :: int

text \<open>From the gate to the assembled block; the transactions are read from the mempool and stay there.\<close>

definition build_contents ::
    "'db Engine \<Rightarrow> SigExt \<Rightarrow> BlockExt \<Rightarrow> PoolExt \<Rightarrow> BuildClocks \<Rightarrow> nat \<Rightarrow> hash \<Rightarrow> nat \<Rightarrow> 'db BlockchainBuilder \<Rightarrow>
      (Block \<times> byte list \<times> byte list \<times> byte list list) result" where
  "build_contents G S X P k next_index prev_hash batch_timestamp b =
     (let proposer = bc_local_wallet (bb_consensus b) in
      bindR (fetch_transactions_for_block G P (bk_fetch k) (bb_db b)) (\<lambda>entries.
      if length entries > MAX_TXS_PER_BLOCK then Inl (ValidationError ''block exceeds max-txs'')
      else
        bindR (reward_kinds (bk_reward k) proposer next_index b) (\<lambda>(rewards, block_reward).
        let system_kinds = rewards @ map RegisterNode (collect_register_node_txs_for_block (bk_register k) next_index (bb_consensus b)) in
        bindR (reject_canonical_reregistration_system_txs system_kinds next_index b) (\<lambda>_.
        bindR (fit_users (bx X) system_kinds entries) (\<lambda>kept_user_pairs.
        assemble X (candidate S X (bb_signing_key b) next_index prev_hash batch_timestamp proposer
                      (bc_pending_puzzle_proof (bb_consensus b)) system_kinds block_reward)
          (length system_kinds) kept_user_pairs)))))"

text \<open>The final checks of the parent and the writes.\<close>

definition commit_block ::
    "'db Engine \<Rightarrow> BlockExt \<Rightarrow> PoolExt \<Rightarrow> nat \<Rightarrow> hash \<Rightarrow> Block \<Rightarrow> byte list \<Rightarrow> byte list \<Rightarrow> byte list list \<Rightarrow> ('db BlockchainBuilder, unit) sm" where
  "commit_block G X P current_tip prev_hash block block_bytes batch_bytes tx_keys =
     (let next_index = saturating_add 64 current_tip 1 in
      bindS (readS (\<lambda>b. get_tip_height G (bb_db b))) (\<lambda>tip_check.
      if tip_check \<noteq> current_tip then failS (ValidationError ''parent tip advanced concurrently, aborting mint'')
      else
        bindS (readS (\<lambda>b. get_latest_block_hash G X (bb_db b))) (\<lambda>latest_hash_check.
        if latest_hash_check \<noteq> prev_hash then failS (ValidationError ''parent hash changed concurrently'')
        else
          bindS (on_builder_db (store_new_block G X block_bytes next_index (bl_block_hash block))) (\<lambda>_.
          bindS (on_builder_db (mg_write G TRANSACTION_BATCH_COLUMN_NAME (tx_batch_key next_index) batch_bytes)) (\<lambda>_.
          bindS (on_builder_db (set_latest_block_index G next_index)) (\<lambda>_.
          bindS (on_builder_db (set_tip_height G next_index)) (\<lambda>_.
          bindS (on_consensus (\<lambda>c. (Inr (), gc_puzzle_pool_below G X (saturating_sub next_index 16) c))) (\<lambda>_.
          on_builder_db (remove_transactions G P tx_keys)))))))))"

definition create_new_block_with_bypass ::
    "'db Engine \<Rightarrow> SigExt \<Rightarrow> BlockExt \<Rightarrow> PoolExt \<Rightarrow> BuildClocks \<Rightarrow> ('db RockDBManager \<Rightarrow> 'db RockDBManager) \<Rightarrow> bool \<Rightarrow> bool \<Rightarrow>
      ('db BlockchainBuilder, Block) sm" where
  "create_new_block_with_bypass G S X P k meanwhile is_synced bypass_leader =
     (if \<not> is_synced then failS (ValidationError ''attempted to mint before full sync'')
      else
        bindS (readS (\<lambda>b. get_tip_height G (bb_db b))) (\<lambda>current_tip.
        let next_index = saturating_add 64 current_tip 1 in
        bindS (readS (\<lambda>b. get_latest_block_hash G X (bb_db b))) (\<lambda>prev_hash.
        if next_index = 0 then failS (ValidationError ''builder computed invalid next_index=0'')
        else if next_index > 0 \<and> prev_hash = zero_hash then failS (ValidationError ''refusing to mint non-genesis block with zero prev_hash'')
        else
          bindS (readS (\<lambda>_. now_unix_secs_runtime (bk_batch k))) (\<lambda>batch_timestamp.
          bindS (on_consensus (assert_can_build_block G X (bk_gate k) (bk_elapsed k) next_index prev_hash bypass_leader)) (\<lambda>_.
          bindS (readS (build_contents G S X P k next_index prev_hash batch_timestamp)) (\<lambda>(block, block_bytes, batch_bytes, tx_keys).
          bindS (\<lambda>b. (Inr (), heartbeat (bk_activity k) b)) (\<lambda>_.
          bindS (on_builder_db (\<lambda>mg. (Inr (), meanwhile mg))) (\<lambda>_.
          bindS (commit_block G X P current_tip prev_hash block block_bytes batch_bytes tx_keys) (\<lambda>_.
          returnS block)))))))))"

definition create_new_block ::
    "'db Engine \<Rightarrow> SigExt \<Rightarrow> BlockExt \<Rightarrow> PoolExt \<Rightarrow> BuildClocks \<Rightarrow> ('db RockDBManager \<Rightarrow> 'db RockDBManager) \<Rightarrow> bool \<Rightarrow>
      ('db BlockchainBuilder, Block) sm" where
  "create_new_block G S X P k meanwhile is_synced = create_new_block_with_bypass G S X P k meanwhile is_synced False"

end
