(* ===== verification/BuilderProps.thy ===== *)
theory BuilderProps
  imports Builder MintGateProps ReorgManagerProps MempoolProps
begin

text \<open>
  What the builder mints: a block on the tip it has read, with the batch, the proof and the reward the validator asks for, stored
  once with its batch and only if the tip has not moved; and what stops it from minting.
\<close>

section \<open>Choosing transactions\<close>

lemma trim_users_take: "\<exists>n. trim_users r t pairs sizes = take n pairs"
proof (induction r t pairs sizes rule: trim_users.induct)
  case (1 remaining user_total pairs sizes)
  have b: "butlast pairs = take (length pairs - 1) pairs" by (rule butlast_conv_take)
  consider "\<not> user_total > remaining" | "user_total > remaining" "pairs \<noteq> [] \<and> sizes \<noteq> []" | "user_total > remaining" "\<not> (pairs \<noteq> [] \<and> sizes \<noteq> [])"
    by blast
  then show ?case
  proof cases
    case 1
    then have "trim_users remaining user_total pairs sizes = take (length pairs) pairs" by (subst trim_users.simps) simp
    then show ?thesis ..
  next
    case 2
    then have "trim_users remaining user_total pairs sizes =
        trim_users remaining (saturating_sub user_total (last sizes)) (butlast pairs) (butlast sizes)"
      by (subst trim_users.simps) simp
    moreover obtain n where "trim_users remaining (saturating_sub user_total (last sizes)) (butlast pairs) (butlast sizes) = take n (butlast pairs)"
      using "1.IH" 2 by blast
    ultimately have "trim_users remaining user_total pairs sizes = take n (butlast pairs)" by simp
    then have "trim_users remaining user_total pairs sizes = take (min n (length pairs - 1)) pairs" by (simp add: b)
    then show ?thesis ..
  next
    case 3
    then have "trim_users remaining user_total pairs sizes = take (length pairs - 1) pairs" using b by (subst trim_users.simps) auto
    then show ?thesis ..
  qed
qed

lemma fit_users_take: "fit_users E system_kinds pairs = Inr kept \<Longrightarrow> \<exists>n. kept = take n pairs"
  using trim_users_take by (fastforce simp: fit_users_def Let_def res_simps)

lemma assemble_Inr:
  "assemble X cand m pairs = Inr (block, block_bytes, batch_bytes, tx_keys) \<Longrightarrow>
   \<exists>n batch. cand (map snd (take n pairs)) = Inr (block, batch) \<and> tx_keys = map fst (take n pairs) \<and>
     block_serialize_for_storage X block = Inr block_bytes \<and> batch_serialize (bx X) batch = Inr batch_bytes \<and>
     saturating_add 64 (length block_bytes) (length batch_bytes) \<le> MAX_BLOCK_SIZE"
proof (induction X cand m pairs rule: assemble.induct)
  case (1 X cand m pairs)
  let ?P = "\<lambda>ps. \<exists>n batch. cand (map snd (take n ps)) = Inr (block, batch) \<and> tx_keys = map fst (take n ps) \<and>
     block_serialize_for_storage X block = Inr block_bytes \<and> batch_serialize (bx X) batch = Inr batch_bytes \<and>
     saturating_add 64 (length block_bytes) (length batch_bytes) \<le> MAX_BLOCK_SIZE"
  have s: "?P pairs" if "?P (butlast pairs)"
    using that by (fastforce simp: butlast_conv_take take_map [symmetric])
  have t: "?P pairs" if "cand (map snd pairs) = Inr (block, batch)" "tx_keys = map fst pairs"
    "block_serialize_for_storage X block = Inr block_bytes" "batch_serialize (bx X) batch = Inr batch_bytes"
    "saturating_add 64 (length block_bytes) (length batch_bytes) \<le> MAX_BLOCK_SIZE" for batch
    using that by (intro exI [of _ "length pairs"] exI [of _ batch]) simp
  show ?case
  proof (cases "saturating_add 64 (length pairs) m > MAX_TXS_PER_BLOCK")
    case True
    then show ?thesis using "1.prems" "1.IH"(1) s by (subst (asm) assemble.simps) (auto split: if_splits)
  next
    case False
    obtain bl ba bb tb where c: "cand (map snd pairs) = Inr (bl, ba)" "block_serialize_for_storage X bl = Inr bb"
        "batch_serialize (bx X) ba = Inr tb"
      using "1.prems" False by (subst (asm) assemble.simps) (auto split: sum.splits)
    show ?thesis
    proof (cases "saturating_add 64 (length bb) (length tb) \<le> MAX_BLOCK_SIZE")
      case True
      then show ?thesis using "1.prems" False c t by (subst (asm) assemble.simps) (auto simp: res_simps)
    next
      case big: False
      then have "assemble X cand m (butlast pairs) = Inr (block, block_bytes, batch_bytes, tx_keys)" "pairs \<noteq> []"
        using "1.prems" False c by (subst (asm) assemble.simps, auto split: if_splits)+
      then show ?thesis using "1.IH"(2) False c big s by simp
    qed
  qed
qed

section \<open>The assembled block\<close>

lemma finalize_Inr:
  assumes "finalize_block S E sk p batch = (Inr meta, batch')"
  shows "b_index batch' = b_index batch" "b_transactions batch' = b_transactions batch" "m_index meta = b_index batch"
    "m_timestamp meta = b_timestamp batch" "m_previous_hash meta = p" "compute_merkle_root E batch' = Inr (m_merkle_root meta)"
  using assms by (auto simp: finalize_block_def sign_batch_def res_simps split: if_splits)

lemma committed_proof_Inr:
  assumes "committed_proof pending h p w = Inr proof"
  shows "case pending of None \<Rightarrow> proof = None | Some pr \<Rightarrow> \<exists>bp. from_gossip pr = Inr bp \<and> proof = Some bp"
  using assms by (auto simp: committed_proof_def res_simps split: option.splits if_splits)

lemma candidate_Inr:
  assumes "candidate S X sk h p t w pending system_kinds reward user_kinds = Inr (block, batch)"
  shows "m_index (bl_metadata block) = h \<and> m_previous_hash (bl_metadata block) = p \<and> m_timestamp (bl_metadata block) = t \<and>
    b_index batch = h \<and> b_transactions batch = system_kinds @ user_kinds \<and>
    compute_merkle_root (bx X) batch = Inr (m_merkle_root (bl_metadata block)) \<and>
    canonicalize_miner_for_height w h = Inr (bl_miner block) \<and> bl_reward block = reward \<and>
    committed_proof pending h p w = Inr (m_puzzle_proof (bl_metadata block)) \<and>
    (\<exists>ids. transfer_ids (bx X) (system_kinds @ user_kinds) = Inr ids \<and> detect_double_spend ids = Inr ())"
proof -
  obtain meta proof_opt sig key where v: "validate_transaction_batch S (bx X) sk p
      \<lparr>b_index = h, b_timestamp = t, b_transactions = system_kinds @ user_kinds, b_guardian_signature = None\<rparr> = (Inr meta, batch)"
    and c: "committed_proof pending h p w = Inr proof_opt"
    and n: "block_new X (meta\<lparr>m_puzzle_proof := proof_opt, m_guardian_signature := sig\<rparr>) key w reward = Inr block"
    using assms by (auto simp: candidate_def Let_def batch_new_def res_simps split: sum.splits prod.splits if_splits)
  obtain ids where i: "transfer_ids (bx X) (system_kinds @ user_kinds) = Inr ids" "detect_double_spend ids = Inr ()"
    and f: "finalize_block S (bx X) sk p \<lparr>b_index = h, b_timestamp = t, b_transactions = system_kinds @ user_kinds,
      b_guardian_signature = None\<rparr> = (Inr meta, batch)"
    using v by (auto simp: validate_transaction_batch_def res_simps)
  show ?thesis using finalize_Inr [OF f] c n i by (auto simp: block_new_def res_simps Let_def)
qed

section \<open>Storing it\<close>

lemma pool_columns_apart [simp]:
  "BLOCKMINT_DATA_COLUMN_NAME \<noteq> TXC" "BLOCKMINT_DATA_COLUMN_NAME \<noteq> HXC" "TRANSACTION_BATCH_COLUMN_NAME \<noteq> TXC"
  "TRANSACTION_BATCH_COLUMN_NAME \<noteq> HXC" "GLOBAL_COLUMN_NAME \<noteq> TXC" "GLOBAL_COLUMN_NAME \<noteq> HXC"
  by (simp_all add: TRANSACTION_COLUMN_NAME_def TX_TO_HASH_COLUMN_NAME_def BLOCKMINT_DATA_COLUMN_NAME_def
      TRANSACTION_BATCH_COLUMN_NAME_def GLOBAL_COLUMN_NAME_def)

primrec op_column :: "WriteOp \<Rightarrow> string" where
  "op_column (PutOp c k v) = c"
| "op_column (DeleteOp c k) = c"

lemma remove_loop_ops:
  "op_column ` set (snd (remove_loop G P db n ops keys)) \<subseteq> op_column ` set ops \<union> {TXC, HXC}"
proof (induction keys arbitrary: n ops)
  case (Cons key keys)
  have d: "op_column ` set (ops @ [DeleteOp TXC key]) \<subseteq> op_column ` set ops \<union> {TXC, HXC}"
    "op_column ` set (ops @ [DeleteOp HXC h, DeleteOp TXC key]) \<subseteq> op_column ` set ops \<union> {TXC, HXC}" for h
    by auto
  note IH = Cons [where ops = "ops @ [DeleteOp TXC key]"]
  show ?case
  proof (cases "key = MEMPOOL_BYTES_KEY")
    case True
    then show ?thesis using Cons [of n ops] by simp
  next
    case False
    show ?thesis
    proof (cases "\<exists>val. en_get G db TXC key = Inr (Some val)")
      case True
      then obtain val where "en_get G db TXC key = Inr (Some val)" by blast
      then show ?thesis
        using False Cons [of "saturating_sub n (length val)" "ops @ [DeleteOp HXC (compute_bytes_hash (px P) val), DeleteOp TXC key]"] by auto
    next
      case none: False
      then have "remove_loop G P db n ops (key # keys) = remove_loop G P db n (ops @ [DeleteOp TXC key]) keys"
        using False by (auto split: sum.split option.split)
      then show ?thesis using IH [of n] d(1) by auto
    qed
  qed
qed auto

lemma fold_other_columns: "cf \<notin> op_column ` set ops \<Longrightarrow> fold apply_op ops w cf = w cf"
proof (induction ops arbitrary: w)
  case (Cons x ops)
  have "apply_op x w cf = w cf" using Cons.prems by (cases x) auto
  then show ?case using Cons by simp
qed simp

lemma remove_transactions_frame [frames]:
  assumes ok: "engine_ok G view" and c: "cf \<noteq> TXC" "cf \<noteq> HXC"
  shows "preserves (\<lambda>mg. mview view mg cf) (remove_transactions G P keys)"
  unfolding preserves_def
proof (intro allI impI)
  fix mg r mg'
  assume r: "remove_transactions G P keys mg = (r, mg')"
  show "mview view mg' cf = mview view mg cf"
  proof (cases "removal_of_keys G P keys mg")
    case (Inl e)
    then show ?thesis using r by (simp add: remove_transactions_def bindS_def readS_def)
  next
    case (Inr ops)
    then have w: "bc_write G TXC ops mg = (r, mg')" using r by (simp add: remove_transactions_def bindS_def readS_def)
    obtain db n where "with_counter P (remove_loop G P db n [] keys) = Inr ops"
      using Inr by (auto simp: removal_of_keys_def res_simps)
    then obtain b where "ops = snd (remove_loop G P db n [] keys) @ [PutOp TXC MEMPOOL_BYTES_KEY b]"
      by (auto simp: with_counter_def res_simps split: prod.split_asm)
    then have "cf \<notin> op_column ` set ops" using remove_loop_ops [of G P db n "[]" keys] c by auto
    from fold_other_columns [OF this] show ?thesis
      using w bc_write_view [OF ok, of TXC ops mg _ mg'] bc_write_fail [OF ok, of TXC ops mg _ mg'] by (cases r) auto
  qed
qed

lemma tip_written:
  assumes ok: "engine_ok G view" and m: "mg_mode mg = Blockchain" and s: "set_tip_height G h mg = (Inr u, mg')"
  shows "mview view mg' GLOBAL_COLUMN_NAME tip_height_key = Some (to_be_bytes 8 h)"
proof -
  obtain db db' u2 where db: "mg_blockchain_handle mg = Some db" "mg' = mg\<lparr>mg_blockchain_handle := Some db'\<rparr>"
    and e: "en_write G db [PutOp GLOBAL_COLUMN_NAME tip_height_key (to_be_bytes 8 h)] = (Inr u2, db')"
    using s m by (auto simp: set_tip_height_def on_mode_db_def put_global_def open_db_blockchain_def ok_or_def map_err_def
        split: sum.splits prod.splits option.splits if_splits)
  then show ?thesis using engine_okD(2) [OF ok e] by (simp add: mview_def)
qed

lemma chain_modes:
  "preserves mg_mode (index_block_by_hash G X h d)" "preserves mg_mode (store_latest_block G d i)"
  "preserves mg_mode (set_latest_block_index G i)"
proof -
  show "preserves mg_mode (index_block_by_hash G X h d)" "preserves mg_mode (store_latest_block G d i)"
    unfolding index_block_by_hash_def store_latest_block_def by (intro frames | simp)+
  show "preserves mg_mode (set_latest_block_index G i)"
    by (auto simp: preserves_def set_latest_block_index_def on_mode_db_def split: Mode.splits sum.splits prod.splits)
qed

lemma with_db_fields [simp]: "bb_db (with_db mg b) = mg" "bb_signing_key (with_db mg b) = bb_signing_key b"
  "bc_local_wallet (bb_consensus (with_db mg b)) = bc_local_wallet (bb_consensus b)" "with_db m (with_db mg b) = with_db m b"
  by (simp_all add: with_db_def)

lemma on_builder_db_Inr: "on_builder_db m b = (Inr x, b') \<longleftrightarrow> (\<exists>mg. m (bb_db b) = (Inr x, mg) \<and> b' = with_db mg b)"
  by (auto simp: on_builder_db_def split: prod.splits)

lemma gc_pool_state [simp]: "bc_validator_state (gc_puzzle_pool_below G X h c) = bc_validator_state c"
  using gc_below_frame [of G X h "c\<lparr>bc_puzzle_pool := gc_below h (bc_puzzle_pool c)\<rparr>"] core_fields(3)
  by (fastforce simp: gc_puzzle_pool_below_def core_def)

abbreviation tip_slot :: "('db \<Rightarrow> kv_view) \<Rightarrow> 'db RockDBManager \<Rightarrow> byte list option" where
  "tip_slot view mg \<equiv> mview view mg GLOBAL_COLUMN_NAME tip_height_key"

lemma commit_Inr:
  assumes ok: "engine_ok G view" and m: "mg_mode (bb_db b) = Blockchain" and t: "Suc t < 2 ^ 64"
    and c: "commit_block G X P t p block block_bytes batch_bytes keys b = (Inr u, b')"
  shows "get_tip_height G (bb_db b) = Inr t" "get_latest_block_hash G X (bb_db b) = Inr p"
    "slot view (bb_db b) (Suc t) = None" "get_block_by_hash G X (bl_block_hash block) (bb_db b) = None"
    "slot view (bb_db b') j = (if j = Suc t then Some block_bytes else slot view (bb_db b) j)"
    "batch_slot view (bb_db b') j = (if j = Suc t then Some batch_bytes else batch_slot view (bb_db b) j)"
    "tip_slot view (bb_db b') = Some (to_be_bytes 8 (Suc t))"
proof -
  have n: "saturating_add 64 t 1 = Suc t" using t by (simp add: saturating_add_def)
  obtain m0 m1 m2 m3 m4 where
    tip: "get_tip_height G (bb_db b) = Inr t" and h: "get_latest_block_hash G X (bb_db b) = Inr p"
    and e: "get_block_bytes_by_index G (Suc t) (bb_db b) = Inr None"
    and k: "get_block_by_hash G X (bl_block_hash block) (bb_db b) = None"
    and 0: "store_latest_block G block_bytes (Suc t) (bb_db b) = (Inr (), m0)"
    and 1: "index_block_by_hash G X (bl_block_hash block) block_bytes m0 = (Inr (), m1)"
    and 2: "mg_write G TRANSACTION_BATCH_COLUMN_NAME (tx_batch_key (Suc t)) batch_bytes m1 = (Inr (), m2)"
    and 3: "set_latest_block_index G (Suc t) m2 = (Inr (), m3)"
    and 4: "set_tip_height G (Suc t) m3 = (Inr (), m4)"
    and 5: "remove_transactions G P keys m4 = (Inr u, bb_db b')"
    using c unfolding commit_block_def Let_def n
    by (auto simp: res_simps store_new_block_def on_builder_db_Inr on_consensus_def split: if_splits)
  show "get_tip_height G (bb_db b) = Inr t" by (rule tip)
  show "get_latest_block_hash G X (bb_db b) = Inr p" by (rule h)
  show "get_block_by_hash G X (bl_block_hash block) (bb_db b) = None" by (rule k)
  show "slot view (bb_db b) (Suc t) = None"
    using bc_get_view [OF ok e [unfolded get_block_bytes_by_index_def]] by simp
  have m1: "mg_mode m1 = Blockchain" using preservesD [OF chain_modes(2) 0] preservesD [OF chain_modes(1) 1] m by simp
  then have m3: "mg_mode m3 = Blockchain" using preservesD [OF mode_frames(2) 2] preservesD [OF chain_modes(3) 3] by simp
  have last: "mview view (bb_db b') cf = mview view m2 cf" if "cf \<noteq> GLOBAL_COLUMN_NAME" "cf \<noteq> TXC" "cf \<noteq> HXC" for cf
    using tip_columns(2) [OF ok that(1) 3] tip_columns(1) [OF ok that(1) 4] preservesD [OF remove_transactions_frame [OF ok that(2,3)] 5] by simp
  have first: "mview view m1 cf = mview view m0 cf" if "cf \<noteq> BLOCK_TO_HASH_COLUMN_NAME" for cf
    using preservesD [OF keeps_writers(1) [OF ok that] 1] by simp
  show "slot view (bb_db b') j = (if j = Suc t then Some block_bytes else slot view (bb_db b) j)"
    using last [of BLOCKMINT_DATA_COLUMN_NAME] first [of BLOCKMINT_DATA_COLUMN_NAME] store_latest_slot [OF ok 0]
      preservesD [OF mg_write_frames [OF ok, of BLOCKMINT_DATA_COLUMN_NAME] 2] by simp
  show "batch_slot view (bb_db b') j = (if j = Suc t then Some batch_bytes else batch_slot view (bb_db b) j)"
    using last [of TRANSACTION_BATCH_COLUMN_NAME] first [of TRANSACTION_BATCH_COLUMN_NAME]
      preservesD [OF keeps_writers(8) [OF ok] 0, of TRANSACTION_BATCH_COLUMN_NAME] mg_write_put [OF ok _ _ 2] m1
    by (simp add: chain_mode_def batch_slot_def)
  show "tip_slot view (bb_db b') = Some (to_be_bytes 8 (Suc t))"
    using tip_written [OF ok m3 4] preservesD [OF remove_transactions_frame [OF ok] 5, of GLOBAL_COLUMN_NAME] by simp
qed

section \<open>A successful run, opened\<close>

lemma create_Inr:
  assumes "create_new_block_with_bypass G S X P k meanwhile synced byp b = (Inr block, b')"
  obtains t p ts c block_bytes batch_bytes keys where "synced" "get_tip_height G (bb_db b) = Inr t" "get_latest_block_hash G X (bb_db b) = Inr p"
    and "p \<noteq> zero_hash" "now_unix_secs_runtime (bk_batch k) = Inr ts"
    and "assert_can_build_block G X (bk_gate k) (bk_elapsed k) (saturating_add 64 t 1) p byp (bb_consensus b) = (Inr (), c)"
    and "build_contents G S X P k (saturating_add 64 t 1) p ts (b\<lparr>bb_consensus := c\<rparr>) = Inr (block, block_bytes, batch_bytes, keys)"
    and "commit_block G X P t p block block_bytes batch_bytes keys
      (with_db (meanwhile (vs_db_manager (bc_validator_state c))) (heartbeat (bk_activity k) (b\<lparr>bb_consensus := c\<rparr>))) = (Inr (), b')"
  using assms that
  by (auto simp: create_new_block_with_bypass_def res_simps Let_def on_consensus_def on_builder_db_def heartbeat_def on_detection_def split: if_splits prod.splits)

lemma reward_kinds_Inr:
  assumes "reward_kinds clock w h b = Inr (kinds, reward)"
  shows "kinds = [] \<and> reward = 0 \<or> reward = get_block_reward h \<and> REWARD_DELAY_BLOCKS \<le> h \<and> consensus_reward_eligible_at w h (bb_consensus b) \<and>
    (\<exists>tx. kinds = [Reward tx] \<and> rew_amount tx = reward)"
  using assms by (auto simp: reward_kinds_def Let_def rew_new_with_timestamp_def res_simps split: if_splits)

lemma contents_Inr:
  assumes "build_contents G S X P k h p ts b = Inr (block, block_bytes, batch_bytes, keys)"
  obtains entries n rewards reward batch where "fetch_transactions_for_block G P (bk_fetch k) (bb_db b) = Inr entries"
    and "reward_kinds (bk_reward k) (bc_local_wallet (bb_consensus b)) h b = Inr (rewards, reward)"
    and "candidate S X (bb_signing_key b) h p ts (bc_local_wallet (bb_consensus b)) (bc_pending_puzzle_proof (bb_consensus b))
      (rewards @ map RegisterNode (collect_register_node_txs_for_block (bk_register k) h (bb_consensus b))) reward
      (map snd (take n entries)) = Inr (block, batch)"
    and "keys = map fst (take n entries)"
    and "block_serialize_for_storage X block = Inr block_bytes" "batch_serialize (bx X) batch = Inr batch_bytes"
    and "check_sizes X block batch = Inr ()"
proof -
  obtain entries rewards reward kept where e: "fetch_transactions_for_block G P (bk_fetch k) (bb_db b) = Inr entries"
    and r: "reward_kinds (bk_reward k) (bc_local_wallet (bb_consensus b)) h b = Inr (rewards, reward)"
    and f: "fit_users (bx X) (rewards @ map RegisterNode (collect_register_node_txs_for_block (bk_register k) h (bb_consensus b))) entries = Inr kept"
    and a: "assemble X (candidate S X (bb_signing_key b) h p ts (bc_local_wallet (bb_consensus b)) (bc_pending_puzzle_proof (bb_consensus b))
        (rewards @ map RegisterNode (collect_register_node_txs_for_block (bk_register k) h (bb_consensus b))) reward)
      (length (rewards @ map RegisterNode (collect_register_node_txs_for_block (bk_register k) h (bb_consensus b)))) kept =
      Inr (block, block_bytes, batch_bytes, keys)"
    using assms by (auto simp: build_contents_def Let_def res_simps split: if_splits)
  obtain n where n: "kept = take n entries" using fit_users_take [OF f] by blast
  from assemble_Inr [OF a] obtain m batch where "candidate S X (bb_signing_key b) h p ts (bc_local_wallet (bb_consensus b))
      (bc_pending_puzzle_proof (bb_consensus b)) (rewards @ map RegisterNode (collect_register_node_txs_for_block (bk_register k) h (bb_consensus b)))
      reward (map snd (take m (take n entries))) = Inr (block, batch)" "keys = map fst (take m (take n entries))"
    and s: "block_serialize_for_storage X block = Inr block_bytes" "batch_serialize (bx X) batch = Inr batch_bytes"
    "saturating_add 64 (length block_bytes) (length batch_bytes) \<le> MAX_BLOCK_SIZE"
    unfolding n by blast
  moreover have "check_sizes X block batch = Inr ()" using s by (simp add: check_sizes_def check_block_size_def)
  ultimately show ?thesis using that [OF e r, of "min m n" batch] by simp
qed

lemma gate_base: "preserves base (assert_can_build_block G X clock elapsed h p byp)"
  unfolding assert_can_build_block_def by (intro frames safety_base staged_base)

lemma heartbeat_consensus [simp]: "bb_consensus (heartbeat clock b) = bb_consensus b"
  by (simp add: heartbeat_def on_detection_def split: prod.split)

lemma created:
  assumes run: "create_new_block_with_bypass G S X P k meanwhile synced byp b = (Inr block, b')"
    and tip: "get_tip_height G (bb_db b) = Inr t" "t < 10000000" and prev: "get_latest_block_hash G X (bb_db b) = Inr p"
  obtains ts c entries n rewards reward registrations batch block_bytes batch_bytes keys where
    "assert_can_build_block G X (bk_gate k) (bk_elapsed k) (Suc t) p byp (bb_consensus b) = (Inr (), c)" "base c = base (bb_consensus b)"
    and "fetch_transactions_for_block G P (bk_fetch k) (bb_db b) = Inr entries"
    and "reward_kinds (bk_reward k) (bc_local_wallet (bb_consensus b)) (Suc t) (b\<lparr>bb_consensus := c\<rparr>) = Inr (rewards, reward)"
    and "candidate S X (bb_signing_key b) (Suc t) p ts (bc_local_wallet (bb_consensus b)) (bc_pending_puzzle_proof c)
      (rewards @ map RegisterNode registrations) reward (map snd (take n entries)) = Inr (block, batch)"
    and "block_serialize_for_storage X block = Inr block_bytes" "batch_serialize (bx X) batch = Inr batch_bytes" "check_sizes X block batch = Inr ()"
    and "commit_block G X P t p block block_bytes batch_bytes keys
      (with_db (meanwhile (bb_db b)) (heartbeat (bk_activity k) (b\<lparr>bb_consensus := c\<rparr>))) = (Inr (), b')"
proof -
  have h: "saturating_add 64 t 1 = Suc t" using tip(2) by (simp add: saturating_add_def)
  obtain ts c block_bytes batch_bytes keys
    where gate: "assert_can_build_block G X (bk_gate k) (bk_elapsed k) (Suc t) p byp (bb_consensus b) = (Inr (), c)"
      and con: "build_contents G S X P k (Suc t) p ts (b\<lparr>bb_consensus := c\<rparr>) = Inr (block, block_bytes, batch_bytes, keys)"
      and com: "commit_block G X P t p block block_bytes batch_bytes keys
        (with_db (meanwhile (vs_db_manager (bc_validator_state c))) (heartbeat (bk_activity k) (b\<lparr>bb_consensus := c\<rparr>))) = (Inr (), b')"
    by (rule create_Inr [OF run]) (use tip prev h in auto)
  note gb = preservesD [OF gate_base gate]
  note same = base_fields [OF gb]
  have cm: "commit_block G X P t p block block_bytes batch_bytes keys
      (with_db (meanwhile (bb_db b)) (heartbeat (bk_activity k) (b\<lparr>bb_consensus := c\<rparr>))) = (Inr (), b')"
    using com same(1) by simp
  let ?b = "b\<lparr>bb_consensus := c\<rparr>"
  obtain entries n rewards reward batch where "fetch_transactions_for_block G P (bk_fetch k) (bb_db ?b) = Inr entries"
    and "reward_kinds (bk_reward k) (bc_local_wallet (bb_consensus ?b)) (Suc t) ?b = Inr (rewards, reward)"
    and "candidate S X (bb_signing_key ?b) (Suc t) p ts (bc_local_wallet (bb_consensus ?b)) (bc_pending_puzzle_proof (bb_consensus ?b))
      (rewards @ map RegisterNode (collect_register_node_txs_for_block (bk_register k) (Suc t) (bb_consensus ?b))) reward
      (map snd (take n entries)) = Inr (block, batch)"
    and s: "block_serialize_for_storage X block = Inr block_bytes" "batch_serialize (bx X) batch = Inr batch_bytes" "check_sizes X block batch = Inr ()"
    by (rule contents_Inr [OF con])
  then have e: "fetch_transactions_for_block G P (bk_fetch k) (bb_db b) = Inr entries"
    and r: "reward_kinds (bk_reward k) (bc_local_wallet (bb_consensus b)) (Suc t) ?b = Inr (rewards, reward)"
    and cd: "candidate S X (bb_signing_key b) (Suc t) p ts (bc_local_wallet (bb_consensus b)) (bc_pending_puzzle_proof c)
      (rewards @ map RegisterNode (collect_register_node_txs_for_block (bk_register k) (Suc t) c)) reward (map snd (take n entries)) = Inr (block, batch)"
    by (simp_all add: same)
  show ?thesis by (rule that [OF gate gb e r cd s cm])
qed

section \<open>A commit that fails half way\<close>

text \<open>The writes of a commit are not one batch. When the block is stored and the write of its transactions fails, the error is returned with
  the block in its slot and the tip as before.\<close>

lemma failed_commit_occupies_slot:
  assumes ok: "engine_ok G view" and t: "Suc t < 2 ^ 64"
    and r: "get_tip_height G (bb_db b) = Inr t" "get_latest_block_hash G X (bb_db b) = Inr p"
    and st: "store_new_block G X block_bytes (Suc t) (bl_block_hash block) (bb_db b) = (Inr (), m1)"
    and w: "mg_write G TRANSACTION_BATCH_COLUMN_NAME (tx_batch_key (Suc t)) batch_bytes m1 = (Inl e, m2)"
  shows "commit_block G X P t p block block_bytes batch_bytes keys b = (Inl e, with_db m2 b)" (is ?result)
    and "slot view m2 (Suc t) = Some block_bytes" (is ?slot)
    and "mview view m2 GLOBAL_COLUMN_NAME = mview view (bb_db b) GLOBAL_COLUMN_NAME" (is ?tip)
proof -
  have n: "saturating_add 64 t 1 = Suc t" using t by (simp add: saturating_add_def)
  show ?result
    unfolding commit_block_def Let_def n by (simp add: bindS_def readS_def r on_builder_db_def st w)
  obtain m0 where 0: "store_latest_block G block_bytes (Suc t) (bb_db b) = (Inr (), m0)"
    and 1: "index_block_by_hash G X (bl_block_hash block) block_bytes m0 = (Inr (), m1)"
    using st by (auto simp: store_new_block_def res_simps split: if_splits)
  have c: "mview view m1 cf = mview view m0 cf" if "cf \<noteq> BLOCK_TO_HASH_COLUMN_NAME" for cf
    using preservesD [OF keeps_writers(1) [OF ok that] 1] by simp
  show ?slot
    using c [of BLOCKMINT_DATA_COLUMN_NAME] store_latest_slot [OF ok 0] preservesD [OF mg_write_frames [OF ok, of BLOCKMINT_DATA_COLUMN_NAME] w] by simp
  show ?tip
    using c [of GLOBAL_COLUMN_NAME] preservesD [OF keeps_writers(8) [OF ok] 0, of GLOBAL_COLUMN_NAME]
      preservesD [OF mg_write_frames [OF ok, of GLOBAL_COLUMN_NAME] w] by simp
qed

text \<open>From then on the builder mints nothing at this tip.\<close>

lemma occupied_slot_stops_minting:
  assumes ok: "engine_ok G view" and m: "mg_mode (meanwhile (bb_db b)) = Blockchain" and t: "get_tip_height G (bb_db b) = Inr t" "t < 10000000"
    and o: "slot view (meanwhile (bb_db b)) (Suc t) \<noteq> None"
  shows "fst (create_new_block_with_bypass G S X P k meanwhile synced byp b) \<noteq> Inr block"
proof
  assume "fst (create_new_block_with_bypass G S X P k meanwhile synced byp b) = Inr block"
  then obtain b' where run: "create_new_block_with_bypass G S X P k meanwhile synced byp b = (Inr block, b')"
    by (cases "create_new_block_with_bypass G S X P k meanwhile synced byp b") simp
  obtain p where p: "get_latest_block_hash G X (bb_db b) = Inr p" by (rule create_Inr [OF run])
  obtain c block_bytes batch_bytes keys where "commit_block G X P t p block block_bytes batch_bytes keys
      (with_db (meanwhile (bb_db b)) (heartbeat (bk_activity k) (b\<lparr>bb_consensus := c\<rparr>))) = (Inr (), b')"
    by (rule created [OF run t p])
  from commit_Inr(3) [OF ok _ _ this] m t(2) o show False by simp
qed

section \<open>Properties\<close>

text \<open>C6. What the builder mints. In a reachable state of its consensus component, when the builder returns a block, this block extends
  the tip and the latest block it has read, is mined by the local wallet, holds its own hash, the root of its batch and a proof that
  passes the puzzle check, and fits the size limit with its batch. The batch is the reward, the registrations and the first transactions
  of the mempool's selection; the reward is that of the schedule for an eligible wallet, else none. If the time at the gate is still the
  time of the block and the height has begun, the block passes the proposer check of every node with the same registry and clock.
  The block is stored only if nobody moved the tip or took the height meanwhile, and then the block slot and
  the batch slot of the height and the tip are the only ones that change.\<close>

theorem minted_block_sound:
  assumes ok: "engine_ok G view" and reach: "consensus_reachable G X R (bb_consensus b)"
    and reg: "registry_ok (vs_inner (bc_validator_state (bb_consensus b)))" and others: "mg_mode (meanwhile (bb_db b)) = Blockchain"
    and run: "create_new_block_with_bypass G S X P k meanwhile synced byp b = (Inr block, b')"
    and tip: "get_tip_height G (bb_db b) = Inr t" "t < 10000000"
    and prev: "get_latest_block_hash G X (bb_db b) = Inr p" "p \<noteq> replicate 64 255"
  shows "m_index (bl_metadata block) = Suc t \<and> m_previous_hash (bl_metadata block) = p \<and>
    bl_miner block = bc_local_wallet (bb_consensus b) \<and> check_puzzle (bx X) block (bc_local_wallet (bb_consensus b)) = Inr () \<and>
    verify_block_hash X block = Inr True \<and>
    (\<exists>batch rewards registrations entries n block_bytes batch_bytes.
      compute_merkle_root (bx X) batch = Inr (m_merkle_root (bl_metadata block)) \<and> check_sizes X block batch = Inr () \<and>
      b_transactions batch = rewards @ map RegisterNode registrations @ map snd (take n entries) \<and>
      fetch_transactions_for_block G P (bk_fetch k) (bb_db b) = Inr entries \<and>
      (rewards = [] \<and> bl_reward block = 0 \<or>
       bl_reward block = get_block_reward (Suc t) \<and> consensus_reward_eligible_at (bc_local_wallet (bb_consensus b)) (Suc t) (bb_consensus b) \<and>
         (\<exists>tx. rewards = [Reward tx] \<and> rew_amount tx = bl_reward block)) \<and>
      block_serialize_for_storage X block = Inr block_bytes \<and> batch_serialize (bx X) batch = Inr batch_bytes \<and>
      (\<forall>j. slot view (bb_db b') j = (if j = Suc t then Some block_bytes else slot view (meanwhile (bb_db b)) j)) \<and>
      (\<forall>j. batch_slot view (bb_db b') j = (if j = Suc t then Some batch_bytes else batch_slot view (meanwhile (bb_db b)) j))) \<and>
    get_tip_height G (meanwhile (bb_db b)) = Inr t \<and> get_latest_block_hash G X (meanwhile (bb_db b)) = Inr p \<and>
    slot view (meanwhile (bb_db b)) (Suc t) = None \<and> tip_slot view (bb_db b') = Some (to_be_bytes 8 (Suc t)) \<and>
    (\<forall>ctx :: 'd FullBlockValidationContext. now_unix_secs_runtime (bk_gate k) = Inr (m_timestamp (bl_metadata block)) \<longrightarrow>
      leader_height_start_unix (bc_tm (bb_consensus b)) (Suc t) \<le> m_timestamp (bl_metadata block) \<longrightarrow>
      vs_inner (fc_validator_state ctx) = vs_inner (bc_validator_state (bb_consensus b)) \<longrightarrow> fc_tm ctx = bc_tm (bb_consensus b) \<longrightarrow>
      check_proposer (bx X) ctx block = Inr (bc_local_wallet (bb_consensus b)))"
proof -
  let ?w = "bc_local_wallet (bb_consensus b)" and ?mg = "meanwhile (bb_db b)"
  obtain ts c entries n rewards reward registrations batch block_bytes batch_bytes keys where
    gate: "assert_can_build_block G X (bk_gate k) (bk_elapsed k) (Suc t) p byp (bb_consensus b) = (Inr (), c)" and gb: "base c = base (bb_consensus b)"
    and e: "fetch_transactions_for_block G P (bk_fetch k) (bb_db b) = Inr entries"
    and r: "reward_kinds (bk_reward k) ?w (Suc t) (b\<lparr>bb_consensus := c\<rparr>) = Inr (rewards, reward)"
    and cd: "candidate S X (bb_signing_key b) (Suc t) p ts ?w (bc_pending_puzzle_proof c)
      (rewards @ map RegisterNode registrations) reward (map snd (take n entries)) = Inr (block, batch)"
    and s: "block_serialize_for_storage X block = Inr block_bytes" "batch_serialize (bx X) batch = Inr batch_bytes" "check_sizes X block batch = Inr ()"
    and cm: "commit_block G X P t p block block_bytes batch_bytes keys
      (with_db ?mg (heartbeat (bk_activity k) (b\<lparr>bb_consensus := c\<rparr>))) = (Inr (), b')"
    by (rule created [OF run tip prev(1)])
  note same = base_fields [OF gb]
  note cand = candidate_Inr [OF cd]
  have "consensus_ok (bx X) (bb_consensus b)" by (rule consensus_reachable_ok [OF reach])
  then have w: "canonical_wallet ?w" by (simp add: consensus_ok_def node_ok_def)
  obtain pr now where pr: "bc_pending_puzzle_proof c = Some pr" and fits: "(\<exists>bp. from_gossip pr = Inr bp) \<longleftrightarrow> provable (Suc t) p"
    and now: "now_unix_secs_runtime (bk_gate k) = Inr now"
    and pz: "\<And>block bp. from_gossip pr = Inr bp \<Longrightarrow> m_index (bl_metadata block) = Suc t \<Longrightarrow> m_previous_hash (bl_metadata block) = p \<Longrightarrow>
      m_puzzle_proof (bl_metadata block) = Some bp \<Longrightarrow> check_puzzle (bx X) block ?w = Inr ()"
    and lead: "\<And>block (ctx :: 'd FullBlockValidationContext). m_index (bl_metadata block) = Suc t \<Longrightarrow> m_previous_hash (bl_metadata block) = p \<Longrightarrow>
      m_timestamp (bl_metadata block) = max now (leader_height_start_unix (bc_tm (bb_consensus b)) (Suc t)) \<Longrightarrow> bl_miner block = ?w \<Longrightarrow>
      vs_inner (fc_validator_state ctx) = vs_inner (bc_validator_state (bb_consensus b)) \<Longrightarrow> fc_tm ctx = bc_tm (bb_consensus b) \<Longrightarrow>
      check_proposer (bx X) ctx block = Inr ?w"
    by (rule gate_sound [OF reach gate reg, where 'd = 'd]) blast
  obtain bp where bp: "from_gossip pr = Inr bp" using fits prev(2) tip(2) by auto
  have "m_puzzle_proof (bl_metadata block) = Some bp" using cand pr bp committed_proof_Inr [of "Some pr"] by fastforce
  then have "check_puzzle (bx X) block ?w = Inr ()" using cand pz [OF bp] by blast
  moreover have miner: "bl_miner block = ?w"
    using cand w canonical_not_Nil [OF w] by (simp add: canonicalize_miner_for_height_def canon_wallet_canonical canonical_wallet_facts MAX_MINER_LEN_def REMZAR_WALLET_LEN_def)
  moreover have "verify_block_hash X block = Inr True"
    using s(1) by (auto simp: block_serialize_for_storage_def block_validate_def res_simps split: if_splits)
  moreover have "rewards = [] \<and> bl_reward block = 0 \<or>
      bl_reward block = get_block_reward (Suc t) \<and> consensus_reward_eligible_at ?w (Suc t) (bb_consensus b) \<and>
        (\<exists>tx. rewards = [Reward tx] \<and> rew_amount tx = bl_reward block)"
    using reward_kinds_Inr [OF r] cand same(1) by (auto simp: consensus_reward_eligible_at_def)
  moreover have "\<forall>ctx :: 'd FullBlockValidationContext. now_unix_secs_runtime (bk_gate k) = Inr (m_timestamp (bl_metadata block)) \<longrightarrow>
      leader_height_start_unix (bc_tm (bb_consensus b)) (Suc t) \<le> m_timestamp (bl_metadata block) \<longrightarrow>
      vs_inner (fc_validator_state ctx) = vs_inner (bc_validator_state (bb_consensus b)) \<longrightarrow> fc_tm ctx = bc_tm (bb_consensus b) \<longrightarrow>
      check_proposer (bx X) ctx block = Inr ?w"
    using lead cand miner now by (auto simp: max_def)
  moreover note commit_Inr [OF ok _ _ cm, simplified, OF others]
  ultimately show ?thesis using cand e s tip(2) by simp blast
qed

end
