(* ===== verification/BuilderSamples.thy ===== *)
theory BuilderSamples
  imports BuilderProps MintGateSamples
begin

text \<open>
  A concrete run of the builder: the node of the gate's sample, with a database that holds the parent block at height 5, mints
  block 6 with its reward.
\<close>

section \<open>The node\<close>

definition build_ext :: Ext where
  "build_ext = fixed_ext\<lparr>blake3_xof64 := \<lambda>b. if b \<noteq> [] \<and> hd b = 9 then replicate 64 10 else replicate 64 2,
     pc_kind := \<lambda>_. Inr [7], pc_batch := \<lambda>_. Inr [0]\<rparr>"

definition build_parent :: Block where
  "build_parent = \<lparr>bl_metadata = \<lparr>m_index = 5, m_timestamp = 1700000100, m_previous_hash = replicate 64 9, m_merkle_root = replicate 64 3,
       m_guardian_signature = replicate SIG_LEN 1, m_puzzle_proof = None, m_size = 64\<rparr>,
     bl_batch_key = None, bl_miner = sample_wallet 97, bl_block_hash = replicate 64 10, bl_reward = 0\<rparr>"

definition build_bext :: BlockExt where
  "build_bext = sample_bext\<lparr>bx := build_ext, pc_block_from := \<lambda>_. Inr build_parent\<rparr>"

definition build_sig :: SigExt where
  "build_sig = val_sig\<lparr>ml_try_sign := \<lambda>sk r. Inr (replicate SIG_LEN 1)\<rparr>"

definition build_db :: mem_db where
  "build_db = [((BLOCKMINT_DATA_COLUMN_NAME, block_key 5), replicate 64 1), ((BLOCK_TO_HASH_COLUMN_NAME, replicate 64 10), replicate 64 1),
     ((GLOBAL_COLUMN_NAME, tip_height_key), to_be_bytes 8 5)]"

definition build_node :: "mem_db BlockchainBuilder" where
  "build_node = \<lparr>bb_consensus = gate_state (mem_manager build_db), bb_detection = detection_new, bb_signing_key = []\<rparr>"

definition build_clocks :: BuildClocks where
  "build_clocks = \<lparr>bk_batch = 1700000175, bk_gate = 1700000175, bk_elapsed = (0, 0), bk_fetch = 1700000175, bk_reward = 1700000175,
     bk_register = \<lambda>_. (1700000175, 1700000175), bk_activity = 1700000175\<rparr>"

definition build_reward :: RewardTx where
  "build_reward = val_reward\<lparr>rew_timestamp := 1700000175\<rparr>"

section \<open>The engine\<close>

text \<open>The engine with iteration reads and writes as the one without.\<close>

lemma scan_fields: "en_cf scan_engine = en_cf mem_engine" "en_get scan_engine = en_get mem_engine" "en_write scan_engine = en_write mem_engine"
  "en_flush scan_engine = en_flush mem_engine" "column scan_engine = column mem_engine"
  by (auto simp: scan_engine_def column_def fun_eq_iff)

lemma scan_ops [simp]:
  "bc_get scan_engine = bc_get mem_engine" "bc_write scan_engine = bc_write mem_engine" "bc_flush scan_engine = bc_flush mem_engine"
  "get_tip_height scan_engine = get_tip_height mem_engine" "mg_read scan_engine = mg_read mem_engine"
  "put_global scan_engine = put_global mem_engine"
  unfolding bc_get_def bc_write_def bc_flush_def get_tip_height_def get_latest_block_index_def mg_read_def put_global_def scan_fields
  by (rule refl)+

lemma scan_tips [simp]: "set_tip_height scan_engine = set_tip_height mem_engine" "set_latest_block_index scan_engine = set_latest_block_index mem_engine"
  unfolding set_tip_height_def set_latest_block_index_def scan_ops by (rule refl)+

lemma scan_marks:
  assumes "TXC \<notin> fst ` fst ` set db"
  shows "en_scan scan_engine db TXC = []" "batch_process_all scan_engine (mem_manager db) = batch_process_all mem_engine (mem_manager db)"
    "mg_write scan_engine col k v (mem_manager db) = mg_write mem_engine col k v (mem_manager db)"
proof -
  have "filter (\<lambda>x. fst x = TXC) (map fst db) = []" using assms by (force simp: filter_empty_conv)
  then show e: "en_scan scan_engine db TXC = []" by (simp add: scan_engine_def bset_of_def)
  have "en_scan mem_engine db TXC = []" by (simp add: mem_engine_def)
  then have r: "batch_execute_records scan_engine db = batch_execute_records mem_engine db"
    unfolding batch_execute_records_def scan_fields e by simp
  have t: "store_batch_signature scan_engine = store_batch_signature mem_engine"
    unfolding store_batch_signature_def scan_fields ..
  show b: "batch_process_all scan_engine (mem_manager db) = batch_process_all mem_engine (mem_manager db)"
    unfolding batch_process_all_def mem_ops bindS_def r t ..
  have "change_column scan_engine = change_column mem_engine" unfolding change_column_def scan_fields ..
  then show "mg_write scan_engine col k v (mem_manager db) = mg_write mem_engine col k v (mem_manager db)"
    by (simp only: mg_write_def bindS_def b)
qed

lemma build_tip: "get_tip_height mem_engine (mem_manager build_db) = Inr 5"
proof -
  have "map_of build_db (GLOBAL_COLUMN_NAME, tip_height_key) = Some (to_be_bytes 8 5)" by (simp add: build_db_def del: to_be_bytes.simps)
  moreover have "length (to_be_bytes 8 5) = 8" "from_be_bytes (to_be_bytes 8 5) = 5" by (simp_all add: from_to_be_bytes)
  ultimately show ?thesis
    by (simp add: get_tip_height_def mem_manager_def open_db_blockchain_def column_def mem_engine_def del: to_be_bytes.simps)
qed

section \<open>The parent\<close>

lemma build_simps:
  "bx build_bext = build_ext" "hex_encode build_ext = hex_encode fixed_ext" "hex_decode build_ext = hex_decode fixed_ext"
  "pc_kind build_ext = (\<lambda>_. Inr [7])" "pc_batch build_ext = (\<lambda>_. Inr [0])" "pc_block_from build_bext = (\<lambda>_. Inr build_parent)"
  "blake3_xof64 build_ext b = (if b \<noteq> [] \<and> hd b = 9 then replicate 64 10 else replicate 64 2)"
  by (simp_all add: build_bext_def build_ext_def)

lemma build_hash:
  "decode_hash_hex build_bext (hex_encode fixed_ext (replicate 64 x)) = Inr (replicate 64 x)"
  "compute_block_hash build_bext b = Inr (hex_encode fixed_ext
     (blake3_xof64 build_ext (m_previous_hash (bl_metadata b) @ m_merkle_root (bl_metadata b) @ m_guardian_signature (bl_metadata b) @
       to_be_bytes 8 (bl_reward b) @ (case bl_batch_key b of Some bk \<Rightarrow> if bk \<noteq> [] then blake3_xof64 build_ext (str_bytes bk)
         else blake3_xof64 build_ext (str_bytes (lit ''remzar_empty_block_mint'')) | None \<Rightarrow> blake3_xof64 build_ext (str_bytes (lit ''remzar_empty_block_mint''))))))"
proof -
  have l: "length (blake3_xof64 build_ext y) = 64" for y by (simp add: build_simps)
  show "decode_hash_hex build_bext (hex_encode fixed_ext (replicate 64 x)) = Inr (replicate 64 x)"
    by (simp add: decode_hash_hex_def fixed_hex_len build_simps fixed_ext_hex)
  show "compute_block_hash build_bext b = Inr (hex_encode fixed_ext
     (blake3_xof64 build_ext (m_previous_hash (bl_metadata b) @ m_merkle_root (bl_metadata b) @ m_guardian_signature (bl_metadata b) @
       to_be_bytes 8 (bl_reward b) @ (case bl_batch_key b of Some bk \<Rightarrow> if bk \<noteq> [] then blake3_xof64 build_ext (str_bytes bk)
         else blake3_xof64 build_ext (str_bytes (lit ''remzar_empty_block_mint'')) | None \<Rightarrow> blake3_xof64 build_ext (str_bytes (lit ''remzar_empty_block_mint''))))))"
    using l by (auto simp: compute_block_hash_def Let_def compute_bytes_hash_hex_def compute_dummy_hash_def build_simps(1,2,3) fixed_hex_len
        fixed_ext_hex split: option.splits)
qed

lemma build_miner: "canonicalize_miner_for_height (sample_wallet 97) h = Inr (sample_wallet 97)"
  "bl_miner b = sample_wallet 97 \<Longrightarrow> validate_miner_canonical b = Inr ()"
  by (simp_all add: canonicalize_miner_for_height_def validate_miner_canonical_def canonical_wallet_facts [OF sample_wallet_a]
      canonical_not_Nil [OF sample_wallet_a] canon_wallet_canonical [OF sample_wallet_a] MAX_MINER_LEN_def REMZAR_WALLET_LEN_def)

lemma parent_meta: "meta_validate_structural (bl_metadata build_parent) = Inr ()" "validate_size build_bext (bl_metadata build_parent) = Inr ()"
  by (simp_all add: meta_validate_structural_def build_parent_def MAX_METADATA_INDEX_HARD_def cfg_defs zero_hash_def SIG_LEN_def
      validate_unix_secs_structural_def UNIX_2000_SECS_def UNIX_9999_SECS_def validate_size_def build_bext_def sample_bext_def)

lemma parent_valid: "block_validate build_bext build_parent None = Inr ()"
proof -
  have "hd (replicate 64 (9 :: byte) @ xs) = 9" for xs by simp
  then have "verify_block_hash build_bext build_parent = Inr True"
    by (simp add: verify_block_hash_def build_hash) (simp add: build_parent_def build_simps build_hash)
  then show ?thesis
    using parent_meta by (simp add: block_validate_def build_miner validate_batch_key_bound_def validate_block_hash_not_zero_def)
      (simp add: build_parent_def build_miner zero_hash_def validate_batch_key_bound_def)
qed

lemma parent_read: "64 \<le> length d \<Longrightarrow> length d \<le> 100 \<Longrightarrow> deserialize_from_storage build_bext d = Inr build_parent"
  using parent_meta
  by (simp add: deserialize_from_storage_def validate_storage_len_def cfg_defs normalize_and_validate_after_decode_def Let_def build_simps)
    (simp add: build_parent_def build_miner validate_batch_key_bound_def validate_block_hash_not_zero_def zero_hash_def)

lemma build_known: "get_block_by_hash scan_engine build_bext (replicate 64 10) (mem_manager build_db) = Some build_parent"
  by (simp add: get_block_by_hash_def build_db_def parent_read)

lemma scan_blocks:
  assumes "filter (\<lambda>x. fst x = BLOCKMINT_DATA_COLUMN_NAME) (map fst db) = [(BLOCKMINT_DATA_COLUMN_NAME, block_key 5)]"
    and "map_of db (BLOCKMINT_DATA_COLUMN_NAME, block_key 5) = Some (replicate 64 1)"
  shows "get_latest_block_hash scan_engine build_bext (mem_manager db) = Inr (replicate 64 10)"
proof -
  have "en_scan scan_engine db BLOCKMINT_DATA_COLUMN_NAME = [(block_key 5, replicate 64 1)]"
    using assms by (simp add: scan_engine_def bset_of_def bset_insert_def insort_insert_key_def)
  moreover have "take (length BLOCK_PREFIX) (block_key 5) = BLOCK_PREFIX" by (simp add: block_key_def BLOCK_PREFIX_def)
  ultimately have "get_latest_block_by_iter scan_engine (mem_manager db) = Inr (Some (replicate 64 1))"
    by (simp add: get_latest_block_by_iter_def mem_manager_def open_db_blockchain_def scan_fields(5) column_def) (simp add: mem_engine_def)
  then show ?thesis
    by (simp add: get_latest_block_hash_def get_latest_block_def parent_read) (simp add: build_parent_def)
qed

lemma build_latest: "get_latest_block_hash scan_engine build_bext (mem_manager build_db) = Inr (replicate 64 10)"
  by (rule scan_blocks) (simp_all add: build_db_def)

section \<open>The contents\<close>

lemma build_now: "now_unix_secs_runtime 1700000175 = Inr 1700000175" "validate_unix_secs_structural 1700000175 = Inr ()"
  by (simp_all add: now_unix_secs_runtime_def validate_unix_secs_structural_def UNIX_2000_SECS_def UNIX_9999_SECS_def)

lemma build_no_pool: "TXC \<notin> fst ` fst ` set build_db" "TXC \<noteq> BLOCK_TO_HASH_COLUMN_NAME" "TXC \<noteq> META_DATA_COLUMN_NAME"
  by (simp_all add: build_db_def TRANSACTION_COLUMN_NAME_def BLOCK_TO_HASH_COLUMN_NAME_def BLOCKMINT_DATA_COLUMN_NAME_def
      GLOBAL_COLUMN_NAME_def META_DATA_COLUMN_NAME_def)

lemma build_fetch: "fetch_transactions_for_block scan_engine pool_ext clock (mem_manager build_db) = Inr []"
proof -
  show ?thesis
    using build_no_pool by (simp add: fetch_transactions_for_block_def mem_manager_def open_db_blockchain_def scan_marks(1) scan_fields(5) column_def) (simp add: mem_engine_def)
qed

lemma build_reward_valid: "rew_validate build_reward = Inr ()"
  using val_reward_valid by (simp add: rew_validate_def build_reward_def build_now) (simp add: val_reward_def res_simps)

lemma build_rewards:
  "reward_kinds 1700000175 (sample_wallet 97) 6 (build_node\<lparr>bb_consensus := (gate_state mg)\<lparr>bc_puzzle_pool := pool, bc_pending_puzzle_proof := pr\<rparr>\<rparr>) =
     Inr ([Reward build_reward], 2000000000)"
proof -
  have "vs_reward_eligible_at (sample_wallet 97) 6 (bc_validator_state (gate_state mg))"
    by (simp add: vs_reward_eligible_at_def canon_wallet_canonical [OF sample_wallet_a] gate_state_def run_registry_def
        meta_reward_eligible_at_def lifecycle_from_globals_def saturating_add_def cfg_defs)
  moreover have "str_bytes (sample_wallet 97) = map word_of_nat (sample_wallet 97)"
    using canonical_wallet_facts(1) [OF sample_wallet_a] by (simp add: as_bytes_ascii)
  ultimately show ?thesis
    using build_reward_valid
    by (simp add: reward_kinds_def REWARD_DELAY_BLOCKS_def reward_6 consensus_reward_eligible_at_def build_now rew_new_with_timestamp_def
        canon_wallet_canonical [OF sample_wallet_a] rew_validate_amount_def rew_validate_block_height_def cfg_defs UNIT_DIVISOR_def Let_def)
      (simp add: build_reward_def val_reward_def)
qed

definition build_batch :: TransactionBatch where
  "build_batch = \<lparr>b_index = 6, b_timestamp = 1700000175, b_transactions = [Reward build_reward],
     b_guardian_signature = Some (replicate SIG_LEN 1)\<rparr>"

lemma build_signed:
  assumes "length x \<le> 1000"
  shows "bs_sign_batch build_sig build_ext sk [x] = Inr (replicate SIG_LEN 1)" "gs_sign_batch build_sig build_ext sk [x] = Inr (replicate SIG_LEN 1)"
proof -
  have r: "\<exists>r. compute_batch_merkle_root build_ext [x] = Inr r"
    by (simp add: batch_root_eq cfg_defs validate_merkle_root_def blake3_hash64_leaf_def build_simps list_all_iff)
  have g: "gs_validate_batch_input [x] = Inr ()" "bs_validate_batch_input [x] = Inr ()"
    using assms by (simp_all add: gs_validate_batch_input_def bs_validate_batch_input_def saturating_add_def checked_mul_def checked_add_def
        HASH_BYTES_PER_ITEM_def MAX_HASH_VECTOR_BYTES_ABSOLUTE_def cfg_defs)
  then show "bs_sign_batch build_sig build_ext sk [x] = Inr (replicate SIG_LEN 1)" "gs_sign_batch build_sig build_ext sk [x] = Inr (replicate SIG_LEN 1)"
    using r by (auto simp: bs_sign_batch_def gs_sign_batch_def roots_agree bs_validate_consensus_constants_def gs_validate_consensus_constants_def
        build_sig_def SIG_LEN_def cfg_defs saturating_mul_def HASH_BYTES_PER_ITEM_def MAX_HASH_VECTOR_BYTES_ABSOLUTE_def)
qed

lemma build_leaf: "rew_serialize build_ext build_reward = Inr (fixed_rew build_reward)" "length (fixed_rew build_reward) = 153"
  by (simp add: rew_serialize_def build_reward_valid) (simp_all add: build_ext_def fixed_ext_def fixed_rew_def build_reward_def val_reward_def sample_wallet_def)

lemma hd_to_be_bytes: "n < 256 ^ k \<Longrightarrow> hd (to_be_bytes (Suc k) n) = 0"
proof (induction k arbitrary: n)
  case (Suc k)
  have "to_be_bytes (Suc k) m \<noteq> []" for m by simp
  moreover have "n div 256 < 256 ^ k" using Suc.prems by (simp add: less_mult_imp_div_less mult.commute)
  ultimately show ?case using Suc.IH [of "n div 256"] by (subst to_be_bytes.simps(2), subst hd_append2) simp_all
qed simp

lemma build_root: "compute_merkle_root build_ext \<lparr>b_index = i, b_timestamp = t, b_transactions = [Reward build_reward], b_guardian_signature = sg\<rparr> = Inr (replicate 64 2)"
proof -
  have p: "pc_bytes build_ext (fixed_rew build_reward) = Inr (to_be_bytes 8 153 @ fixed_rew build_reward)"
    using build_leaf(2) by (simp add: build_ext_def fixed_ext_def)
  have "hd (to_be_bytes 8 153) = 0" using hd_to_be_bytes [of 153 7] by simp
  moreover have "to_be_bytes 8 153 \<noteq> []" using length_to_be_bytes [of 8 153] by (metis length_0_conv zero_neq_numeral)
  ultimately have "blake3_xof64 build_ext (to_be_bytes 8 153 @ fixed_rew build_reward) = replicate 64 2"
    by (simp add: build_simps del: to_be_bytes.simps)
  then show ?thesis
    using build_leaf by (simp add: compute_merkle_root_def remzar_merkle_root_def p build_simps(2,3) fixed_ext_hex first64_def
        ensure_size_limit_def MAX_SERIALIZED_BYTES_def)
qed

definition build_meta :: "BlockPuzzleProof option \<Rightarrow> BlockMetadata" where
  "build_meta p = \<lparr>m_index = 6, m_timestamp = 1700000175, m_previous_hash = replicate 64 10, m_merkle_root = replicate 64 2,
     m_guardian_signature = replicate SIG_LEN 1, m_puzzle_proof = p, m_size = MAX_BLOCK_SIZE\<rparr>"

lemma build_finalized:
  "validate_transaction_batch build_sig build_ext sk (replicate 64 10)
     \<lparr>b_index = 6, b_timestamp = 1700000175, b_transactions = [Reward build_reward], b_guardian_signature = None\<rparr> =
   (Inr (build_meta None), build_batch)"
proof -
  have f: "finalize_block build_sig build_ext sk (replicate 64 10)
     \<lparr>b_index = 6, b_timestamp = 1700000175, b_transactions = [Reward build_reward], b_guardian_signature = None\<rparr> =
   (Inr (build_meta None), build_batch)"
    using build_leaf build_signed(1) [of "fixed_rew build_reward"]
    by (simp add: finalize_block_def bindS_def readS_def total_size_def serialize_for_storage_def batch_serialize_def build_simps(5)
        sign_batch_def build_root build_meta_def build_batch_def cfg_defs)
  show ?thesis
    by (simp add: validate_transaction_batch_def bindS_def readS_def build_reward_valid transfer_ids_def detect_double_spend_def f)
qed

section \<open>The block\<close>

definition build_block :: "BlockPuzzleProof \<Rightarrow> Block" where
  "build_block p = \<lparr>bl_metadata = build_meta (Some p), bl_batch_key = Some (lit ''tx_batch_'' @ decimal_padded 10 6),
     bl_miner = sample_wallet 97, bl_block_hash = replicate 64 2, bl_reward = 2000000000\<rparr>"

lemma build_proof:
  assumes "pr = \<lparr>pp_height = 6, pp_validator = sample_wallet 97, pp_prev_block_hash = replicate 64 10,
    pp_output = fib (puzzle_index build_ext (replicate 64 10) 6 (sample_wallet 97))\<rparr>"
  obtains bp where "committed_proof (Some pr) 6 (replicate 64 10) (sample_wallet 97) = Inr (Some bp)" "proof_validate_structural bp = Inr ()"
    "pz_height bp = 6" "pz_prev_block_hash bp = replicate 64 10"
proof -
  let ?bp = "\<lparr>pz_height = 6, pz_validator = sample_wallet 97, pz_prev_block_hash = replicate 64 10, pz_output = pp_output pr\<rparr>"
  have "pp_output pr \<noteq> 0"
    using puzzle_index_bounds(1) [of build_ext "replicate 64 10" 6 "sample_wallet 97"]
      fib_pos [of "puzzle_index build_ext (replicate 64 10) 6 (sample_wallet 97)"] by (simp add: assms)
  then have s: "proof_validate_structural ?bp = Inr ()"
    by (intro structural_proofI) (auto simp: sample_wallet_a zero_hash_def)
  then have "from_gossip pr = Inr ?bp"
    by (simp add: from_gossip_def assms proof_new_def canonical_validator_checked_def MAX_VALIDATOR_LEN_def
        canonical_wallet_facts [OF sample_wallet_a] canon_wallet_canonical [OF sample_wallet_a] Let_def)
  then show ?thesis using s that [of ?bp] by (simp add: committed_proof_def eq_ignore_ascii_case_def)
qed

lemma build_metadata:
  assumes "proof_validate_structural bp = Inr ()" "pz_height bp = 6" "pz_prev_block_hash bp = replicate 64 10"
  shows "meta_validate_structural (build_meta (Some bp)) = Inr ()" "validate_size build_bext (build_meta (Some bp)) = Inr ()"
  using assms
  by (simp_all add: meta_validate_structural_def build_meta_def MAX_METADATA_INDEX_HARD_def cfg_defs zero_hash_def SIG_LEN_def build_now
      validate_size_def) (simp add: build_bext_def sample_bext_def)

lemma build_minted:
  assumes "proof_validate_structural bp = Inr ()" "pz_height bp = 6" "pz_prev_block_hash bp = replicate 64 10"
  shows "block_new build_bext (build_meta (Some bp)) (Some (lit ''tx_batch_'' @ decimal_padded 10 6)) (sample_wallet 97) 2000000000 = Inr (build_block bp)"
    and "block_serialize_for_storage build_bext (build_block bp) = Inr (replicate 64 2 @ to_be_bytes 8 2000000000)"
proof -
  have "validate_batch_key_bound (Some (lit ''tx_batch_'' @ decimal_padded 10 6)) = Inr ()"
    by (simp add: validate_batch_key_bound_def decimal_padded_def decimal.simps MAX_BATCH_KEY_LEN_def str_len_def utf8_enc_def eval_nat_numeral)
  note k = this [simplified]
  have "hd (replicate 64 (10 :: byte) @ xs) = 10" for xs by simp
  then have h: "compute_block_hash build_bext \<lparr>bl_metadata = build_meta (Some bp), bl_batch_key = bk,
     bl_miner = sample_wallet 97, bl_block_hash = x, bl_reward = 2000000000\<rparr> = Inr (hex_encode fixed_ext (replicate 64 2))" for bk x
    by (simp add: build_hash build_meta_def build_simps)
  show n: "block_new build_bext (build_meta (Some bp)) (Some (lit ''tx_batch_'' @ decimal_padded 10 6)) (sample_wallet 97) 2000000000 = Inr (build_block bp)"
    using build_metadata [OF assms] by (simp add: block_new_def k build_miner h build_hash(1) build_block_def)
  have "block_validate build_bext (build_block bp) None = Inr ()"
    using build_metadata [OF assms] by (simp add: block_validate_def build_block_def k build_miner validate_block_hash_not_zero_def
        verify_block_hash_def h build_hash(1) zero_hash_def)
  then show "block_serialize_for_storage build_bext (build_block bp) = Inr (replicate 64 2 @ to_be_bytes 8 2000000000)"
    by (simp add: block_serialize_for_storage_def) (simp add: build_bext_def sample_bext_def build_block_def cfg_defs)
qed

lemma build_assembled:
  assumes pr: "pr = \<lparr>pp_height = 6, pp_validator = sample_wallet 97, pp_prev_block_hash = replicate 64 10,
    pp_output = fib (puzzle_index build_ext (replicate 64 10) 6 (sample_wallet 97))\<rparr>"
  obtains bp where "build_contents scan_engine build_sig build_bext pool_ext build_clocks 6 (replicate 64 10) 1700000175
      (build_node\<lparr>bb_consensus := (gate_state (mem_manager build_db))\<lparr>bc_puzzle_pool := pool, bc_pending_puzzle_proof := Some pr\<rparr>\<rparr>) =
    Inr (build_block bp, replicate 64 2 @ to_be_bytes 8 2000000000, [0], [])"
proof -
  let ?n = "build_node\<lparr>bb_consensus := (gate_state (mem_manager build_db))\<lparr>bc_puzzle_pool := pool, bc_pending_puzzle_proof := Some pr\<rparr>\<rparr>"
  obtain bp where bp: "committed_proof (Some pr) 6 (replicate 64 10) (sample_wallet 97) = Inr (Some bp)" "proof_validate_structural bp = Inr ()"
    "pz_height bp = 6" "pz_prev_block_hash bp = replicate 64 10"
    by (rule build_proof [OF pr])
  have c: "candidate build_sig build_bext [] 6 (replicate 64 10) 1700000175 (sample_wallet 97) (Some pr) [Reward build_reward] 2000000000 [] =
      Inr (build_block bp, build_batch)"
    using build_signed(2) [of "[7]"] build_minted(1) [OF bp(2-4)]
    by (simp add: candidate_def Let_def transfer_ids_def detect_double_spend_def detect_replay_def batch_new_def build_finalized build_simps(1,4) bp(1))
      (simp add: build_batch_def build_meta_def SIG_LEN_def)
  have a: "assemble build_bext (candidate build_sig build_bext [] 6 (replicate 64 10) 1700000175 (sample_wallet 97) (Some pr) [Reward build_reward]
      2000000000) 1 [] = Inr (build_block bp, replicate 64 2 @ to_be_bytes 8 2000000000, [0], [])"
    by (subst assemble.simps) (simp add: c build_minted(2) [OF bp(2-4)] batch_serialize_def build_simps(1,5) check_block_size_def
        saturating_add_def cfg_defs)
  have f: "bc_local_wallet (gate_state mg) = sample_wallet 97" "vs_db_manager (bc_validator_state (gate_state mg)) = mg"
    "sorted_wallets (bc_wallet_registry (gate_state mg)) = []" for mg
    by (simp_all add: gate_state_def gate_start_def sorted_wallets_def canon_sort_def ephemeral_new_def)
  have "build_contents scan_engine build_sig build_bext pool_ext build_clocks 6 (replicate 64 10) 1700000175 ?n =
    Inr (build_block bp, replicate 64 2 @ to_be_bytes 8 2000000000, [0], [])"
    using build_rewards [where mg = "mem_manager build_db" and pool = pool and pr = "Some pr"] a
    by (simp add: build_contents_def build_clocks_def f build_fetch collect_register_node_txs_for_block_def
        reject_canonical_reregistration_system_txs_def fit_users_def txkind_len_def build_simps(1,4) Let_def trim_users.simps)
      (simp add: build_node_def)
  then show ?thesis by (rule that)
qed

section \<open>The commit\<close>

lemma remove_nothing:
  assumes "TXC \<notin> fst ` fst ` set db"
  shows "\<exists>db'. remove_transactions scan_engine pool_ext [] (mem_manager db) = (Inr (), mem_manager db')"
proof -
  have "map_of db (TXC, k) = None" for k using assms by (force simp: map_of_eq_None_iff)
  moreover have "en_get mem_engine db cf k = Inr (map_of db (cf, k))" "column mem_engine db cf = Inr ()" for cf k
    by (simp_all add: mem_engine_def column_def)
  moreover have "open_db_blockchain (mem_manager db) = Inr db" by (simp add: open_db_blockchain_def mem_manager_def)
  moreover have "pc_u64 pool_ext 0 = Inr (to_be_bytes 8 0)" by (simp add: pool_ext_def del: to_be_bytes.simps)
  ultimately have "removal_of_keys scan_engine pool_ext [] (mem_manager db) = Inr [PutOp TXC MEMPOOL_BYTES_KEY (to_be_bytes 8 0)]"
    by (simp add: removal_of_keys_def current_buffer_def read_mempool_bytes_used_def recompute_mempool_bytes_used_def with_counter_def
        scan_fields scan_marks(1) [OF assms] del: to_be_bytes.simps)
  then show ?thesis by (simp add: remove_transactions_def bindS_readS del: to_be_bytes.simps) (rule exI, rule refl)
qed

lemma build_stored:
  "\<exists>db. store_new_block scan_engine build_bext (replicate 64 2 @ to_be_bytes 8 2000000000) 6 (replicate 64 2) (mem_manager build_db) =
     (Inr (), mem_manager db) \<and> TXC \<notin> fst ` fst ` set db"
proof -
  let ?d = "replicate 64 2 @ to_be_bytes 8 2000000000"
  have "get_block_bytes_by_index scan_engine 6 (mem_manager build_db) = Inr None"
    "get_block_by_hash scan_engine build_bext (replicate 64 2) (mem_manager build_db) = None"
    by (simp_all add: get_block_bytes_by_index_def get_block_by_hash_def build_db_def del: to_be_bytes.simps)
  moreover have "store_latest_block scan_engine ?d 6 (mem_manager build_db) =
      (Inr (), mem_manager (((BLOCKMINT_DATA_COLUMN_NAME, block_key 6), ?d) # mem_marked build_db))"
    using build_no_pool(1) by (simp add: store_latest_block_def bindS_def scan_marks(2) cfg_defs del: to_be_bytes.simps)
  moreover have "index_block_by_hash scan_engine build_bext (replicate 64 2) ?d (mem_manager db) =
      (Inr (), mem_manager (((BLOCK_TO_HASH_COLUMN_NAME, replicate 64 2), replicate 64 10 @ to_be_bytes 8 0) # db))" for db
  proof -
    have "block_serialize_for_storage build_bext build_parent = Inr (replicate 64 10 @ to_be_bytes 8 0)"
      by (simp add: block_serialize_for_storage_def parent_valid del: to_be_bytes.simps)
        (simp add: build_bext_def sample_bext_def build_parent_def cfg_defs del: to_be_bytes.simps)
    then show ?thesis by (simp add: index_block_by_hash_def bindS_readS parent_read del: to_be_bytes.simps)
  qed
  moreover have "TXC \<notin> fst ` fst ` set (((BLOCK_TO_HASH_COLUMN_NAME, replicate 64 2), replicate 64 10 @ to_be_bytes 8 0) #
      ((BLOCKMINT_DATA_COLUMN_NAME, block_key 6), ?d) # mem_marked build_db)"
    using build_no_pool pool_columns_apart [symmetric] by (simp add: mem_marked_def del: to_be_bytes.simps)
  ultimately show ?thesis
    by (simp add: store_new_block_def bindS_def readS_def del: to_be_bytes.simps) (rule exI, rule conjI, rule refl, simp del: to_be_bytes.simps)
qed

lemma build_committed:
  assumes "bb_db b = mem_manager build_db"
  shows "\<exists>b'. commit_block scan_engine build_bext pool_ext 5 (replicate 64 10) (build_block bp) (replicate 64 2 @ to_be_bytes 8 2000000000) [0] [] b =
    (Inr (), b')"
proof -
  obtain db where st: "store_new_block scan_engine build_bext (replicate 64 2 @ to_be_bytes 8 2000000000) 6 (replicate 64 2) (mem_manager build_db) =
     (Inr (), mem_manager db)" and db: "TXC \<notin> fst ` fst ` set db"
    using build_stored by blast
  define db1 where "db1 = ((GLOBAL_COLUMN_NAME, tip_height_key), to_be_bytes 8 6) # ((GLOBAL_COLUMN_NAME, tip_height_key), to_be_bytes 8 6) #
    ((GLOBAL_COLUMN_NAME, latest_block_index_key), to_be_bytes 8 6) # ((TRANSACTION_BATCH_COLUMN_NAME, tx_batch_key 6), [0]) # mem_marked db"
  have "TXC \<notin> fst ` fst ` set db1"
    using db build_no_pool(3) pool_columns_apart [symmetric] by (simp add: db1_def mem_marked_def del: to_be_bytes.simps)
  then obtain db2 where "remove_transactions scan_engine pool_ext [] (mem_manager db1) = (Inr (), mem_manager db2)"
    using remove_nothing by blast
  moreover have "bl_block_hash (build_block bp) = replicate 64 2" by (simp add: build_block_def)
  ultimately show ?thesis
    using st db
    by (simp add: commit_block_def bindS_def readS_def assms build_tip build_latest saturating_add_def on_builder_db_def on_consensus_def
        scan_marks(3) db1_def del: to_be_bytes.simps)
qed

section \<open>The run\<close>

lemma build_empty: "get_tip_height scan_engine (mem_manager []) = Inr 0"
  "mg_read scan_engine STATE_COLUMN_NAME VALIDATOR_STATE_KEY (mem_manager []) = Inr None"
  using gate_empty by simp_all

lemma build_staged:
  obtains pool pr where "assert_can_build_block scan_engine build_bext 1700000175 (0, 0) 6 (replicate 64 10) False (gate_state (mem_manager build_db)) =
      (Inr (), (gate_state (mem_manager build_db))\<lparr>bc_puzzle_pool := pool, bc_pending_puzzle_proof := Some pr\<rparr>)"
    and "pr = \<lparr>pp_height = 6, pp_validator = sample_wallet 97, pp_prev_block_hash = replicate 64 10,
      pp_output = fib (puzzle_index build_ext (replicate 64 10) 6 (sample_wallet 97))\<rparr>"
proof -
  let ?p = "replicate 64 (10 :: byte)" and ?c = "gate_state (mem_manager build_db)"
  have z: "?p \<noteq> zero_hash" by (simp add: zero_hash_def)
  obtain pool pr where gate: "assert_can_build_block scan_engine build_bext 1700000175 (0, 0) 6 ?p False ?c =
      (Inr (), ?c\<lparr>bc_puzzle_pool := pool, bc_pending_puzzle_proof := Some pr\<rparr>)"
    and pr: "pp_height pr = 6" "pp_prev_block_hash pr = ?p" "pp_validator pr = sample_wallet 97"
    using gate_opens [OF build_known z, of "(0, 0)"] by blast
  have w: "bc_local_wallet ?c = sample_wallet 97" by (simp add: gate_state_def gate_start_def)
  have "consensus_ok build_ext (?c\<lparr>bc_puzzle_pool := pool, bc_pending_puzzle_proof := Some pr\<rparr>)"
    using consensus_reachable_ok [OF consensus_reachable.build [OF gate_reachable [OF build_empty]],
        of build_bext 1700000175 "(0, 0)" 6 ?p False "mem_manager build_db"] gate by (simp add: build_simps)
  then have "pr = \<lparr>pp_height = 6, pp_validator = sample_wallet 97, pp_prev_block_hash = ?p,
      pp_output = fib (puzzle_index build_ext ?p 6 (sample_wallet 97))\<rparr>"
    using staged_context [of build_ext "?c\<lparr>bc_puzzle_pool := pool, bc_pending_puzzle_proof := Some pr\<rparr>" 6 ?p] pr w
    by (simp add: has_staged_local_puzzle_for_current_context_def eq_ignore_ascii_case_def)
  then show ?thesis using gate that by blast
qed

lemma build_run: "\<exists>bp b'. create_new_block_with_bypass scan_engine build_sig build_bext pool_ext build_clocks (\<lambda>mg. mg) True False build_node =
    (Inr (build_block bp), b')"
proof -
  let ?p = "replicate 64 (10 :: byte)" and ?c = "gate_state (mem_manager build_db)"
  obtain pool pr where gate: "assert_can_build_block scan_engine build_bext 1700000175 (0, 0) 6 ?p False ?c =
      (Inr (), ?c\<lparr>bc_puzzle_pool := pool, bc_pending_puzzle_proof := Some pr\<rparr>)"
    and pr: "pr = \<lparr>pp_height = 6, pp_validator = sample_wallet 97, pp_prev_block_hash = ?p,
      pp_output = fib (puzzle_index build_ext ?p 6 (sample_wallet 97))\<rparr>"
    by (rule build_staged)
  let ?b = "build_node\<lparr>bb_consensus := ?c\<lparr>bc_puzzle_pool := pool, bc_pending_puzzle_proof := Some pr\<rparr>\<rparr>"
  have f: "vs_db_manager (bc_validator_state (gate_state mg)) = mg" for mg by (simp add: gate_state_def)
  obtain bp where con: "build_contents scan_engine build_sig build_bext pool_ext build_clocks 6 ?p 1700000175 ?b =
      Inr (build_block bp, replicate 64 2 @ to_be_bytes 8 2000000000, [0], [])"
    by (rule build_assembled [OF pr])
  obtain b' where "commit_block scan_engine build_bext pool_ext 5 ?p (build_block bp) (replicate 64 2 @ to_be_bytes 8 2000000000) [0] []
      (with_db (mem_manager build_db) (heartbeat 1700000175 ?b)) = (Inr (), b')"
    using build_committed [of "with_db (mem_manager build_db) (heartbeat 1700000175 ?b)"] by auto
  moreover have "bb_consensus build_node = ?c" "bk_batch build_clocks = 1700000175" "bk_gate build_clocks = 1700000175"
    "bk_elapsed build_clocks = (0, 0)" "bk_activity build_clocks = 1700000175" by (simp_all add: build_node_def build_clocks_def)
  moreover have "?p \<noteq> zero_hash" by (simp add: zero_hash_def)
  ultimately show ?thesis
    using gate con
    by (simp add: create_new_block_with_bypass_def bindS_def readS_def f build_tip build_latest saturating_add_def Let_def build_now(1)
        on_consensus_def on_builder_db_def returnS_def del: to_be_bytes.simps) blast
qed

theorem minted_block_sound_witness:
  "\<exists>block b'. create_new_block_with_bypass scan_engine build_sig build_bext pool_ext build_clocks (\<lambda>mg. mg) True False build_node = (Inr block, b') \<and>
     m_index (bl_metadata block) = 6 \<and> bl_miner block = sample_wallet 97 \<and> tip_slot mem_view (bb_db b') = Some (to_be_bytes 8 6) \<and>
     check_proposer build_ext val_ctx block = Inr (sample_wallet 97)"
proof -
  obtain bp b' where run: "create_new_block_with_bypass scan_engine build_sig build_bext pool_ext build_clocks (\<lambda>mg. mg) True False build_node =
      (Inr (build_block bp), b')"
    using build_run by blast
  have c: "bb_consensus build_node = gate_state (mem_manager build_db)" "vs_db_manager (bc_validator_state (gate_state mg)) = mg"
    "bc_local_wallet (gate_state mg) = sample_wallet 97" "bc_tm (gate_state mg) = leader_tm"
    "vs_inner (bc_validator_state (gate_state mg)) = run_registry" for mg
    by (simp_all add: build_node_def gate_state_def gate_start_def)
  have h: "consensus_reachable scan_engine build_bext run_codec (bb_consensus build_node)"
    "registry_ok (vs_inner (bc_validator_state (bb_consensus build_node)))" "mg_mode (bb_db build_node) = Blockchain"
    "get_tip_height scan_engine (bb_db build_node) = Inr 5"
    "get_latest_block_hash scan_engine build_bext (bb_db build_node) = Inr (replicate 64 10)" "replicate 64 (10 :: byte) \<noteq> replicate 64 255"
    using leader_vs_ok gate_reachable [OF build_empty] by (simp_all only: c build_tip build_latest scan_ops) (simp_all add: leader_vs_def mem_manager_def)
  note m = minted_block_sound [where 'd = mem_db, OF scan_engine_ok h(1-3) run h(4) _ h(5,6)]
  have "now_unix_secs_runtime (bk_gate build_clocks) = Inr (m_timestamp (bl_metadata (build_block bp)))"
    "leader_height_start_unix (bc_tm (bb_consensus build_node)) (Suc 5) \<le> m_timestamp (bl_metadata (build_block bp))"
    "vs_inner (fc_validator_state val_ctx) = vs_inner (bc_validator_state (bb_consensus build_node))" "fc_tm val_ctx = bc_tm (bb_consensus build_node)"
    by (simp_all add: c build_now(1) val_start build_clocks_def build_block_def build_meta_def val_ctx_def leader_vs_def)
  then have "check_proposer (bx build_bext) val_ctx (build_block bp) = Inr (bc_local_wallet (bb_consensus build_node))" using m by simp
  moreover have "m_index (bl_metadata (build_block bp)) = Suc 5" "bl_miner (build_block bp) = bc_local_wallet (bb_consensus build_node)"
    "tip_slot mem_view (bb_db b') = Some (to_be_bytes 8 (Suc 5))"
    using m by simp_all
  ultimately show ?thesis using run by (auto simp: c build_simps(1) simp del: to_be_bytes.simps)
qed

end
