(* ===== verification/Spec2Isabelle.thy ===== *)
theory Spec2Isabelle
  imports Halving Wallet TimePolicy Transactions Batch Blocks Ledger LedgerProps
    Storage StorageProps BranchScore Reorg ReorgProps ReorgBatches
    OrdMap Lifecycle ValidatorState ValidatorStateProps
    TimeManagement Committee LeaderSchedule LeaderProps Mempool MempoolProps Nft AccountTree
    AccountTreeProps AccountReplay NftRollback AccountSamples
    Puzzle PuzzleProps PuzzlePool Detection MerkleTree MerkleProps Signatures Genesis
    Validation ValidationProps ValidationSamples
    Ephemeral EphemeralProps Consensus MintGate ConsensusProps MintGateProps MintGateSamples
    Inflight LastResort LastResortProps ConnGuard ConnGuardProps Hydration HydrationProps
    ReorgManager ReorgManagerProps ReorgManagerSamples
    Builder BuilderProps BuilderSamples
begin

text \<open>
  A verification development for the Remzar node, a Layer-1 blockchain written in Rust. Paths below are
  relative to \<open>src/src/\<close>.

  \<^bold>\<open>The program.\<close> A node keeps a chain of blocks in RocksDB. A block is a header and a batch of
  transactions (transfers, validator registrations, rewards, NFT mints and transfers) that the proposer takes
  from its mempool. Who may propose at a height is decided by a leader schedule over a committee that every
  node computes from the validator registry, and the registry is itself replayed from the registrations in the
  chain. A validated batch changes the account state through a set of guards; the reward of a height is fixed
  by a halving schedule. Blocks that do not extend the tip are kept in a fork graph, and when a fork scores
  better the node plans and executes a reorganization of the canonical view.

  \<^bold>\<open>Conventions.\<close> An unsigned integer is a natural number, and every operation that can leave its width
  names it (\<open>checked_add 64\<close>, \<open>saturating_sub\<close>). Bytes are \<open>8 word\<close>, Rust strings are lists of Unicode
  scalar values. \<open>Result\<close> is a sum with the error on the left, and an error is a value of
  \<open>ErrorDetection\<close> with the fixed part of its message. A method with \<open>&mut self\<close> that may fail returns its
  state on both paths (\<open>StateError\<close>), since an early return keeps the changes already made. A
  \<open>HashMap\<close> is an association list with distinct keys, a \<open>BTreeMap\<close> a sorted one. Loops are structural
  recursions on the collection or on the bound the code gives (the depth limits of ancestor searches and branch
  paths are arguments of the code itself), or functions with a termination proof; no fuel is added.

  \<^bold>\<open>Code outside the repository\<close> is an argument. \<open>Ext\<close> holds BLAKE3 and the postcard codecs of the
  transaction types, \<open>BlockExt\<close> and \<open>GenesisExt\<close> the codecs of blocks and of the genesis file, \<open>SigExt\<close> the ML-DSA
  operations and the codec of the signing payload, \<open>Engine\<close> the RocksDB operations, \<open>RegistryCodec\<close> and \<open>PoolExt\<close> the
  codecs of the registry snapshot and of the mempool; clocks, random suffixes and the outcome of reading a file are
  arguments too. What is assumed of
  them is written in each theorem: \<open>engine_ok\<close> (a read returns the contents, a write batch is applied in
  full or not at all), \<open>scan_ok\<close> (an iteration lists the contents of a column once), \<open>codec_ok\<close> and
  \<open>u64_codec_ok\<close> (decoding inverts encoding), and a fresh key for the mempool. The witnesses instantiate them
  with an engine that keeps its database as an association list and with concrete codecs.

  \<^bold>\<open>Theories.\<close>
  \<^item> \<open>Prelude\<close>, \<open>RustText\<close>, \<open>StateError\<close>, \<open>OrdMap\<close>: integers, results, hash maps, bytes; UTF-8 and the
    string functions; operations that may fail on a state; ordered maps, and the contract \<open>map_store\<close>
    shared by both kinds of map.
  \<^item> \<open>Config\<close>: the constants of \<open>utility/alpha_001_global_configuration.rs\<close>, the derived ones computed.
  \<^item> \<open>Halving\<close>: \<open>blockchain/halving_schedule.rs\<close>. The closed form of the issuance with its checked
    arithmetic equals the sum of the scheduled rewards; the rewards paid never pass the cap (through the
    locale \<open>capped_issuance\<close>), reach it exactly, and never grow.
  \<^item> \<open>Wallet\<close>, \<open>TimePolicy\<close>: \<open>utility/helper.rs\<close> and \<open>utility/time_policy.rs\<close>. Canonical wallet ids,
    printing and parsing of amounts as a round trip, slots derived from timestamps.
  \<^item> \<open>Transactions\<close>: \<open>blockchain/transaction_001\<close> to \<open>_004\<close>. Construction, validation and the strict wire
    format: the locale \<open>strict_wire\<close> gives that no two byte strings decode to the same value.
  \<^item> \<open>Batch\<close>, \<open>Blocks\<close>: \<open>blockchain/transaction_005_tx_batch.rs\<close>,
    \<open>utility/hash_system_remzarhash.rs\<close> and \<open>blockchain/block_001\<close> to \<open>_003\<close>. What the root
    and the block hash bind, and what they leave out.
  \<^item> \<open>Ledger\<close>, \<open>LedgerProps\<close>: \<open>blockchain/transaction_006_tx_account_tree_guards.rs\<close>. Exactly which
    batches are accepted, the change of every balance and of the supply (the locale \<open>balanced_step\<close> sums a
    measure over a batch), the dry run of a block, idempotency.
  \<^item> \<open>Storage\<close>, \<open>StorageProps\<close>: \<open>storage/rocksdb_005_manager.rs\<close>, \<open>_003_batches.rs\<close>,
    \<open>_006_manager_ext.rs\<close>. Fixed-width codecs, promotion of a block, nearest common ancestor.
  \<^item> \<open>BranchScore\<close>, \<open>Reorg\<close>, \<open>ReorgProps\<close>, \<open>ReorgBatches\<close>: \<open>reorganization/reorg_001\<close> to \<open>_005\<close>. The
    preference between branches is a strict total order on different tips; a plan detaches and attaches along parent links
    from the best common ancestor within the depth bound; after its execution the canonical view follows the new tip;
    what the projection of batches by height may keep of the old branch.
  \<^item> \<open>Lifecycle\<close>, \<open>ValidatorState\<close>, \<open>ValidatorStateProps\<close>: \<open>consensus/por_008_validator_lifecycle.rs\<close>
    and \<open>blockchain/validatorstate.rs\<close>. Registration and renewal always succeed on a valid registry; the
    registry in memory, its snapshot and the replay of the chain agree.
  \<^item> \<open>TimeManagement\<close>, \<open>Committee\<close>, \<open>LeaderSchedule\<close>, \<open>LeaderProps\<close>: \<open>consensus/por_005\<close> to
    \<open>por_007\<close>. Each round of a height has one acceptable proposer, a node mints exactly when the others
    accept it, the windows of the rounds, and when a wallet is locally ready.
  \<^item> \<open>Mempool\<close>, \<open>MempoolProps\<close>: \<open>blockchain/mempool.rs\<close>. The byte counter and the hash index agree with
    the stored entries under every operation; a selection fits the limits of a block.
  \<^item> \<open>Nft\<close>, \<open>AccountTree\<close>: \<open>tokens/nft_001.rs\<close> and \<open>blockchain/transaction_005_tx_account_tree.rs\<close>. The queue
    of early blocks and its processing call each other; this loop is a partial function with \<open>None\<close> for a run that does not
    end, and \<open>AccountTreeProps\<close> shows that it ends and that the order of arrival does not matter.
    \<open>AccountReplay\<close>: the snapshot restores the state, with counters that are zero filled in, a block is applied in full or not at all in memory, and replay
    computes what the live path computes. \<open>NftRollback\<close>: what a rollback leaves behind. \<open>AccountSamples\<close>: a concrete run.
  \<^item> \<open>Puzzle\<close>, \<open>PuzzleProps\<close>, \<open>PuzzlePool\<close>: \<open>consensus/por_001\<close> to \<open>por_004\<close> and the engine part of
    \<open>blockchain/block_003_puzzleproof.rs\<close>. One number decides a proof, an honest proposer always has it, and the pool of
    winners and its entropy do not depend on the order of arrival. The trial division ends by its bound on the candidate.
  \<^item> \<open>Detection\<close>: \<open>utility/alpha_003_detection_system.rs\<close>. The participant sets as a transition system and the scanners.
  \<^item> \<open>MerkleTree\<close>, \<open>MerkleProps\<close>: \<open>cryptography/ml_dsa_65_002_merkleproof.rs\<close>. Inclusion proofs are complete, sound for
    their depth up to collisions, and what the tree does not distinguish.
  \<^item> \<open>Signatures\<close>: \<open>cryptography/ml_dsa_65_003_batch_signature.rs\<close>, \<open>_004_guardian_signature.rs\<close> and the signing
    of batches and blocks. The locale \<open>root_signer\<close> is the contract of both signers.
  \<^item> \<open>Genesis\<close>: \<open>blockchain/genesis_001_block.rs\<close>, \<open>genesis_002_file.rs\<close>. The constant hash of the genesis block and its
    padded and plain stored forms.
  \<^item> \<open>Validation\<close>, \<open>ValidationProps\<close>: \<open>blockchain/validation.rs\<close>, where the leader schedule, the batch root, the block
    hash, the signature, the puzzle and the reward schedule meet. What an accepted block satisfies, that a round has one
    miner, and that the rewards of accepted blocks stay within the cap. \<open>ValidationSamples\<close>: a block that is accepted.
  \<^item> \<open>Ephemeral\<close>, \<open>EphemeralProps\<close>: \<open>consensus/por_000_ephemeral_registration.rs\<close>. The registry of present nodes, its
    invariant over all reachable states, and what a heartbeat round keeps.
  \<^item> \<open>Consensus\<close>, \<open>MintGate\<close>, \<open>ConsensusProps\<close>, \<open>MintGateProps\<close>, \<open>MintGateSamples\<close>: \<open>blockchain/blockchain_000_consensus.rs\<close>.
    The staged proof, the bounded buffer of proofs with an unknown parent and the build gate; a block built after the gate
    has opened passes the proposer and, up to height 10,000,000, the puzzle check of \<open>Validation\<close>; above it no block does. The loop that drops proofs ends since each
    turn makes the buffer smaller.
  \<^item> \<open>Builder\<close>, \<open>BuilderProps\<close>, \<open>BuilderSamples\<close>: \<open>blockchain/blockchain_001_builder.rs\<close>, where the gate, the mempool, the
    reward schedule, the signers and the storage meet. What a minted block satisfies, what its commit writes, and what a commit that fails half
    way leaves behind. The two loops that drop transactions end since each turn drops one. What other tasks do to the database while a block is
    assembled is a function the model is given.
  \<^item> \<open>ReorgManager\<close>, \<open>ReorgManagerProps\<close>, \<open>ReorgManagerSamples\<close>: \<open>reorganization/reorg_006_manager.rs\<close>, where fork choice, the canonical
    view, the account tree and the registry meet over one database. After a reorganization all of them are rebuilt on the new branch, with exactly the
    batches that are known by hash moved to their heights; what an error on the way leaves behind.
  \<^item> \<open>Hydration\<close>, \<open>HydrationProps\<close>: \<open>reorganization/reorg_007_branch_hydration.rs\<close> and the loop of
    \<open>runtime/p2p_002_sync_handlers.rs\<close> that sends its requests. No missing block is lost while its peer can be asked; how one is lost,
    and how the schedule can stop.
  \<^item> \<open>Inflight\<close>, \<open>LastResort\<close>, \<open>LastResortProps\<close>, \<open>ConnGuard\<close>, \<open>ConnGuardProps\<close>: \<open>network/p2p_019_inflight_limiter.rs\<close>,
    \<open>p2p_018_last_resort_guards.rs\<close> and \<open>p2p_017_conn_guard.rs\<close>. The limiter counts the permits held (the locale \<open>permit_limiter\<close>), what
    a token bucket grants over time (the locale \<open>token_bucket\<close>), how long a misbehaving peer is refused, and the limits on connections.

  \<^bold>\<open>Not modelled.\<close> Network transport, gossip and synchronization (\<open>network/\<close>, \<open>runtime/\<close>) are driven
  by libp2p and tokio; key pairs, key encapsulation and wallet encryption (\<open>cryptography/\<close>) call external
  crates; the command line, the PDF, QR and audit reports and the logging are input and output. What is left of the node's own
  logic, in the order it would be added: the orchestration that calls the builder (\<open>blockchain/blockchain_003_orchestration_engine.rs\<close>,
  \<open>blockchain_004_orchestration_run.rs\<close>, asynchronous code over the components above) and the decisions of the synchronization
  handlers (\<open>runtime/p2p_002_sync_handlers.rs\<close>) besides the loop over hydration requests. The shortcuts of test
  builds (\<open>cfg!(test)\<close> in \<open>TransactionBatch::sign_batch\<close>) and the fault injection through environment variables (\<open>maybe_fault\<close> in
  \<open>cryptography/\<close>) are left out, and randomized signing is a function.
\<close>

end
